(* ===== verification/Prelude.thy ===== *)
theory Prelude
  imports Main "HOL-Library.Word" "HOL-Library.Sublist" "HOL-Library.Char_ord"
    "HOL-Library.List_Lexorder"
begin

text \<open>
  Shared vocabulary of the development.  Machine integers are words of their Rust width, a Rust
  \<open>Result\<close> is a sum with the error on the left, and a Rust panic is one more error value
  (see \<open>Base\<close>).  \<open>res_bind\<close> is the question-mark operator.  The collections below are
  used as simplifier sets by the component theories.
\<close>

named_theorems res_simps \<open>sequencing of fallible steps\<close>
named_theorems db_simps \<open>reading a table after writing a table\<close>

type_synonym u8 = "8 word"
type_synonym u16 = "16 word"
type_synonym u32 = "32 word"
type_synonym u64 = "64 word"
type_synonym u256 = "256 word"
type_synonym bytes = "8 word list"
type_synonym amount = "64 word"

section \<open>Fallible steps\<close>

fun res_bind :: "'e + 'a \<Rightarrow> ('a \<Rightarrow> 'e + 'b) \<Rightarrow> 'e + 'b" where
  "res_bind (Inl e) f = Inl e"
| "res_bind (Inr x) f = f x"

fun res_map_err :: "('e \<Rightarrow> 'f) \<Rightarrow> 'e + 'a \<Rightarrow> 'f + 'a" where
  "res_map_err g (Inl e) = Inl (g e)"
| "res_map_err g (Inr x) = Inr x"

definition ok_or :: "'a option \<Rightarrow> 'e \<Rightarrow> 'e + 'a" where
  "ok_or x e = (case x of None \<Rightarrow> Inl e | Some y \<Rightarrow> Inr y)"

definition require :: "bool \<Rightarrow> 'e \<Rightarrow> 'e + unit" where
  "require b e = (if b then Inr () else Inl e)"

fun res_fold :: "('s \<Rightarrow> 'a \<Rightarrow> 'e + 's) \<Rightarrow> 's \<Rightarrow> 'a list \<Rightarrow> 'e + 's" where
  "res_fold f s [] = Inr s"
| "res_fold f s (x # xs) = res_bind (f s x) (\<lambda>s'. res_fold f s' xs)"

fun res_mapM :: "('a \<Rightarrow> 'e + 'b) \<Rightarrow> 'a list \<Rightarrow> 'e + 'b list" where
  "res_mapM f [] = Inr []"
| "res_mapM f (x # xs) = res_bind (f x) (\<lambda>y. res_bind (res_mapM f xs) (\<lambda>ys. Inr (y # ys)))"

section \<open>Checked and saturating arithmetic\<close>

definition word_checked_add :: "'a::len word \<Rightarrow> 'a word \<Rightarrow> 'a word option" where
  "word_checked_add a b = (if unat a + unat b < 2 ^ LENGTH('a) then Some (a + b) else None)"

definition word_checked_sub :: "'a::len word \<Rightarrow> 'a word \<Rightarrow> 'a word option" where
  "word_checked_sub a b = (if b \<le> a then Some (a - b) else None)"

definition word_saturating_add :: "'a::len word \<Rightarrow> 'a word \<Rightarrow> 'a word" where
  "word_saturating_add a b = (case word_checked_add a b of Some c \<Rightarrow> c | None \<Rightarrow> - 1)"

definition word_saturating_sub :: "'a::len word \<Rightarrow> 'a word \<Rightarrow> 'a word" where
  "word_saturating_sub a b = (if b \<le> a then a - b else 0)"

fun word_checked_sum :: "'a::len word list \<Rightarrow> 'a word option" where
  "word_checked_sum [] = Some 0"
| "word_checked_sum (x # xs) =
     (case word_checked_sum xs of None \<Rightarrow> None | Some s \<Rightarrow> word_checked_add x s)"

section \<open>Decimal rendering of unsigned integers\<close>

definition digit_char :: "nat \<Rightarrow> char" where
  "digit_char d = char_of (48 + d)"

fun dec :: "nat \<Rightarrow> string" where
  "dec n = (if n < 10 then [digit_char n] else dec (n div 10) @ [digit_char (n mod 10)])"

declare dec.simps [simp del]

definition undec :: "string \<Rightarrow> nat" where
  "undec s = foldl (\<lambda>a c. 10 * a + (of_char c - 48)) 0 s"

section \<open>Little- and big-endian bytes\<close>

fun le_bytes :: "nat \<Rightarrow> nat \<Rightarrow> bytes" where
  "le_bytes 0 x = []"
| "le_bytes (Suc n) x = of_nat (x mod 256) # le_bytes n (x div 256)"

fun le_value :: "bytes \<Rightarrow> nat" where
  "le_value [] = 0"
| "le_value (b # bs) = unat b + 256 * le_value bs"

definition be_bytes :: "nat \<Rightarrow> nat \<Rightarrow> bytes" where
  "be_bytes n x = rev (le_bytes n x)"

definition be_value :: "bytes \<Rightarrow> nat" where
  "be_value bs = le_value (rev bs)"

section \<open>Facts on fallible steps\<close>

lemma res_bind_eq_Inr [res_simps]:
  "res_bind m f = Inr y \<longleftrightarrow> (\<exists>x. m = Inr x \<and> f x = Inr y)"
  by (cases m) auto

lemma res_bind_eq_Inl [res_simps]:
  "res_bind m f = Inl e \<longleftrightarrow> m = Inl e \<or> (\<exists>x. m = Inr x \<and> f x = Inl e)"
  by (cases m) auto

lemma ok_or_eq [res_simps]:
  "ok_or x e = Inr y \<longleftrightarrow> x = Some y"
  "ok_or x e = Inl e' \<longleftrightarrow> x = None \<and> e' = e"
  by (auto simp: ok_or_def split: option.splits)

lemma ok_or_simps [simp]:
  "ok_or (Some y) e = Inr y"
  "ok_or None e = Inl e"
  by (simp_all add: ok_or_def)

lemma require_eq [res_simps]:
  "require b e = Inr u \<longleftrightarrow> b"
  "require b e = Inl e' \<longleftrightarrow> \<not> b \<and> e' = e"
  by (auto simp: require_def)

lemma require_simps [simp]:
  "require True e = Inr ()"
  "require False e = Inl e"
  by (simp_all add: require_def)

lemma res_map_err_eq [res_simps]:
  "res_map_err g m = Inr y \<longleftrightarrow> m = Inr y"
  "res_map_err g m = Inl e \<longleftrightarrow> (\<exists>e'. m = Inl e' \<and> e = g e')"
  by (cases m; auto)+

lemma res_fold_append:
  "res_fold f s (xs @ ys) = res_bind (res_fold f s xs) (\<lambda>s'. res_fold f s' ys)"
proof (induction xs arbitrary: s)
  case Nil
  then show ?case by simp
next
  case (Cons x xs)
  then show ?case by (cases "f s x") simp_all
qed

text \<open>A relation kept by every step of a fold is kept by the fold.\<close>

lemma res_fold_invariant:
  assumes "res_fold f s xs = Inr s'" and "P s"
    and "\<And>t x t'. x \<in> set xs \<Longrightarrow> P t \<Longrightarrow> f t x = Inr t' \<Longrightarrow> P t'"
  shows "P s'"
  using assms
proof (induction xs arbitrary: s)
  case Nil
  then show ?case by simp
next
  case (Cons x xs)
  then obtain t where t: "f s x = Inr t" "res_fold f t xs = Inr s'"
    by (auto simp: res_simps)
  have "P t"
    using Cons.prems(2) Cons.prems(3) [of x s t] t(1) by simp
  then show ?case
    using Cons.IH [OF t(2)] Cons.prems(3) by (meson list.set_intros(2))
qed

text \<open>Maps that may fail.\<close>

lemma res_mapM_map:
  "(\<And>x. x \<in> set xs \<Longrightarrow> f (g x) = Inr (h x)) \<Longrightarrow> res_mapM f (map g xs) = Inr (map h xs)"
  by (induction xs) simp_all

lemma res_mapM_unit: "(\<And>x. x \<in> set xs \<Longrightarrow> f x = Inr ()) \<Longrightarrow> \<exists>ys. res_mapM f xs = Inr ys"
  by (induction xs) auto

lemma res_mapM_length: "res_mapM f xs = Inr ys \<Longrightarrow> length ys = length xs"
  by (induction xs arbitrary: ys) (auto simp: res_simps)

lemma res_mapM_all: "(\<And>x. x \<in> set xs \<Longrightarrow> \<exists>y. f x = Inr y) \<Longrightarrow> \<exists>ys. res_mapM f xs = Inr ys"
  by (induction xs) force+

lemma res_mapM_mem: "res_mapM f xs = Inr ys \<Longrightarrow> y \<in> set ys \<Longrightarrow> \<exists>x \<in> set xs. f x = Inr y"
  by (induction xs arbitrary: ys) (auto simp: res_simps)

lemma res_mapM_Inr: "res_mapM f xs = Inr ys \<longleftrightarrow> list_all2 (\<lambda>x y. f x = Inr y) xs ys"
  by (induction xs arbitrary: ys) (auto simp: res_simps list_all2_Cons1)

section \<open>Facts on words\<close>

lemma word_checked_add_Some:
  "word_checked_add a b = Some c \<longleftrightarrow> unat a + unat b = unat c" for a b c :: "'a::len word"
proof
  assume "word_checked_add a b = Some c"
  then show "unat a + unat b = unat c"
    by (auto simp: word_checked_add_def unat_word_ariths split: if_splits)
next
  assume h: "unat a + unat b = unat c"
  then have "unat a + unat b < 2 ^ LENGTH('a)" by simp
  moreover from h have "a + b = c"
    by (simp add: word_unat_eq_iff unat_word_ariths)
  ultimately show "word_checked_add a b = Some c"
    by (simp add: word_checked_add_def)
qed

lemma word_checked_sub_Some:
  "word_checked_sub a b = Some c \<longleftrightarrow> unat a = unat b + unat c" for a b c :: "'a::len word"
proof
  assume "word_checked_sub a b = Some c"
  then show "unat a = unat b + unat c"
    by (auto simp: word_checked_sub_def unat_sub word_le_nat_alt split: if_splits)
next
  assume h: "unat a = unat b + unat c"
  then have le: "b \<le> a" by (simp add: word_le_nat_alt)
  moreover from h have "a - b = c"
    using le by (simp add: word_unat_eq_iff unat_sub)
  ultimately show "word_checked_sub a b = Some c"
    by (simp add: word_checked_sub_def)
qed

lemma word_checked_sub_None:
  "word_checked_sub a b = None \<longleftrightarrow> a < b" for a b :: "'a::len word"
  by (auto simp: word_checked_sub_def)

lemma unat_saturating_add:
  "unat (word_saturating_add a b) = min (unat a + unat b) (2 ^ LENGTH('a) - 1)"
  for a b :: "'a::len word"
proof (cases "unat a + unat b < 2 ^ LENGTH('a)")
  case True
  then show ?thesis
    by (auto simp: word_saturating_add_def word_checked_add_def unat_word_ariths min_def)
next
  case False
  then have "2 ^ LENGTH('a) - 1 \<le> unat a + unat b" by linarith
  with False show ?thesis
    by (simp add: word_saturating_add_def word_checked_add_def unsigned_minus_1_eq_mask
        mask_eq_exp_minus_1 min_absorb2)
qed

lemma word_checked_sum_Some:
  "word_checked_sum xs = Some s \<Longrightarrow> unat s = sum_list (map unat xs)"
  by (induction xs arbitrary: s) (auto simp: word_checked_add_Some split: option.splits)

lemma word_checked_sum_ex:
  "(\<exists>s. word_checked_sum xs = Some s) \<longleftrightarrow> sum_list (map unat xs) < 2 ^ LENGTH('a)"
  for xs :: "'a::len word list"
proof (induction xs)
  case Nil
  then show ?case by simp
next
  case (Cons x xs)
  show ?case
  proof (cases "word_checked_sum xs")
    case None
    with Cons.IH have "\<not> sum_list (map unat xs) < 2 ^ LENGTH('a)" by simp
    with None show ?thesis by simp
  next
    case (Some s)
    then have "unat s = sum_list (map unat xs)" by (rule word_checked_sum_Some)
    with Some show ?thesis by (simp add: word_checked_add_def)
  qed
qed

section \<open>Facts on rendered keys\<close>

lemma append_sep_inj:
  "c \<notin> set s \<Longrightarrow> c \<notin> set s' \<Longrightarrow> s @ c # t = s' @ c # t' \<longleftrightarrow> s = s' \<and> t = t'"
proof (induction s arbitrary: s')
  case Nil
  then show ?case by (cases s') auto
next
  case (Cons a s)
  then show ?case by (cases s') auto
qed

lemma of_char_digit: "d < 10 \<Longrightarrow> of_char (digit_char d) = 48 + d"
  by (simp add: digit_char_def)

lemma undec_snoc: "undec (s @ [c]) = 10 * undec s + (of_char c - 48)"
  by (simp add: undec_def)

lemma undec_dec [simp]: "undec (dec n) = n"
proof (induction n rule: dec.induct)
  case (1 n)
  show ?case
  proof (cases "n < 10")
    case True
    then show ?thesis
      by (subst dec.simps) (simp add: undec_def of_char_digit)
  next
    case False
    with "1.IH" show ?thesis
      by (subst dec.simps) (simp add: undec_snoc of_char_digit)
  qed
qed

lemma dec_inject [simp]: "dec m = dec n \<longleftrightarrow> m = n"
  by (metis undec_dec)

lemma dec_chars: "c \<in> set (dec n) \<Longrightarrow> 48 \<le> (of_char c :: nat) \<and> (of_char c :: nat) < 58"
proof (induction n rule: dec.induct)
  case (1 n)
  show ?case
  proof (cases "n < 10")
    case True
    with "1.prems" have "c = digit_char n" by (simp add: dec.simps [of n])
    then show ?thesis using True by (simp add: of_char_digit)
  next
    case False
    with "1.prems" have "c \<in> set (dec (n div 10)) \<or> c = digit_char (n mod 10)"
      by (auto simp: dec.simps [of n])
    then show ?thesis
    proof
      assume "c \<in> set (dec (n div 10))"
      with False "1.IH" show ?thesis by blast
    next
      assume "c = digit_char (n mod 10)"
      moreover have "n mod 10 < 10" by simp
      ultimately show ?thesis by (simp only: of_char_digit) linarith
    qed
  qed
qed

lemma colon_notin_dec [simp]: "CHR '':'' \<notin> set (dec n)"
proof
  assume "CHR '':'' \<in> set (dec n)"
  then have "(of_char CHR '':'' :: nat) < 58" using dec_chars by blast
  then show False by simp
qed

section \<open>Facts on byte strings\<close>

lemma length_le_bytes [simp]: "length (le_bytes n x) = n"
  by (induction n arbitrary: x) simp_all

lemma length_be_bytes [simp]: "length (be_bytes n x) = n"
  by (simp add: be_bytes_def)

lemma le_value_le_bytes: "le_value (le_bytes n x) = x mod 256 ^ n"
proof (induction n arbitrary: x)
  case 0
  then show ?case by simp
next
  case (Suc n)
  have "unat (of_nat (x mod 256) :: u8) = x mod 256"
    by (simp add: unat_of_nat)
  then have "le_value (le_bytes (Suc n) x) = x mod 256 + 256 * (x div 256 mod 256 ^ n)"
    by (simp only: le_bytes.simps le_value.simps Suc.IH)
  also have "\<dots> = x mod 256 ^ Suc n"
    by (simp add: mod_mult2_eq)
  finally show ?case .
qed

lemma be_value_be_bytes: "x < 256 ^ n \<Longrightarrow> be_value (be_bytes n x) = x"
  by (simp add: be_value_def be_bytes_def le_value_le_bytes)

lemma le_bytes_le_value: "length bs = n \<Longrightarrow> le_bytes n (le_value bs) = bs"
proof (induction bs arbitrary: n)
  case Nil
  then show ?case by simp
next
  case (Cons b bs)
  then obtain m where m: "n = Suc m" "length bs = m" by (cases n) auto
  have b: "unat b < 256" using unsigned_less [of b] by simp
  then have "(unat b + 256 * le_value bs) mod 256 = unat b"
    and "(unat b + 256 * le_value bs) div 256 = le_value bs" by simp_all
  with m Cons.IH [OF m(2)] show ?case by simp
qed

lemma le_value_bound: "le_value bs < 256 ^ length bs"
proof (induction bs)
  case Nil
  then show ?case by simp
next
  case (Cons b bs)
  have "unat b < 256" using unsigned_less [of b] by simp
  with Cons.IH show ?case by simp
qed

lemma le_value_append: "le_value (xs @ ys) = le_value xs + 256 ^ length xs * le_value ys"
  by (induction xs) (simp_all add: algebra_simps)

end
