(* ===== verification/Kv.thy ===== *)
theory Kv
  imports Prelude
begin

text \<open>
  A table of the LMDB environment that \<open>src/src/db.rs\<close> opens through \<open>heed\<close>: a finite map
  from byte strings to values that is iterated in the byte order of its keys.  The locale states
  what the accessors of \<open>Db\<close> rely on (a read after a write, the set and the order a prefix
  iterator yields); the representation here is the list of entries in key order.
\<close>

type_synonym 'v kv = "(string \<times> 'v) list"

definition kv_get :: "'v kv \<Rightarrow> string \<Rightarrow> 'v option" where
  "kv_get t k = map_of t k"

fun kv_put :: "string \<Rightarrow> 'v \<Rightarrow> 'v kv \<Rightarrow> 'v kv" where
  "kv_put k v [] = [(k, v)]"
| "kv_put k v ((k', v') # t) =
     (if k < k' then (k, v) # (k', v') # t
      else if k = k' then (k, v) # t
      else (k', v') # kv_put k v t)"

definition kv_delete :: "string \<Rightarrow> 'v kv \<Rightarrow> 'v kv" where
  "kv_delete k t = filter (\<lambda>e. fst e \<noteq> k) t"

definition kv_prefix_iter :: "string \<Rightarrow> 'v kv \<Rightarrow> 'v kv" where
  "kv_prefix_iter p t = filter (\<lambda>e. prefix p (fst e)) t"

definition kv_ok :: "'v kv \<Rightarrow> bool" where
  "kv_ok t = sorted_wrt (<) (map fst t)"

section \<open>The contract of an ordered table\<close>

locale ordered_kv =
  fixes get :: "'t \<Rightarrow> string \<Rightarrow> 'v option"
    and put :: "string \<Rightarrow> 'v \<Rightarrow> 't \<Rightarrow> 't"
    and del :: "string \<Rightarrow> 't \<Rightarrow> 't"
    and iter :: "string \<Rightarrow> 't \<Rightarrow> (string \<times> 'v) list"
    and ok :: "'t \<Rightarrow> bool"
  assumes ok_put: "ok t \<Longrightarrow> ok (put k v t)"
    and ok_del: "ok t \<Longrightarrow> ok (del k t)"
    and get_put: "ok t \<Longrightarrow> get (put k v t) k' = (if k' = k then Some v else get t k')"
    and get_del: "ok t \<Longrightarrow> get (del k t) k' = (if k' = k then None else get t k')"
    and iter_sorted: "ok t \<Longrightarrow> sorted_wrt (<) (map fst (iter p t))"
    and iter_mem: "ok t \<Longrightarrow> (k, v) \<in> set (iter p t) \<longleftrightarrow> prefix p k \<and> get t k = Some v"
begin

lemma iter_keys:
  assumes "ok t"
  shows "fst ` set (iter p t) = {k. prefix p k \<and> get t k \<noteq> None}"
proof (intro equalityI subsetI)
  fix k assume "k \<in> fst ` set (iter p t)"
  then obtain v where "(k, v) \<in> set (iter p t)" by auto
  then show "k \<in> {k. prefix p k \<and> get t k \<noteq> None}" using assms by (simp add: iter_mem)
next
  fix k assume "k \<in> {k. prefix p k \<and> get t k \<noteq> None}"
  then obtain v where "prefix p k" "get t k = Some v" by auto
  then have "(k, v) \<in> set (iter p t)" using assms by (simp add: iter_mem)
  then show "k \<in> fst ` set (iter p t)" by force
qed

lemma length_iter: "ok t \<Longrightarrow> length (iter p t) = card {k. prefix p k \<and> get t k \<noteq> None}"
proof -
  assume ok: "ok t"
  have "sorted_wrt (<) (map fst (iter p t))" using ok by (rule iter_sorted)
  then have "distinct (map fst (iter p t))"
    by (simp add: strict_sorted_iff)
  then have "card (set (map fst (iter p t))) = length (map fst (iter p t))"
    by (rule distinct_card)
  then show ?thesis using iter_keys [OF ok, of p] by simp
qed

lemma finite_prefix_keys: "ok t \<Longrightarrow> finite {k. prefix p k \<and> get t k \<noteq> None}"
  using iter_keys [of t p] by (metis finite_imageI List.finite_set)

lemma length_iter_put_fresh:
  assumes "ok t" and "prefix p k" and "get t k = None"
  shows "length (iter p (put k v t)) = Suc (length (iter p t))"
proof -
  have "{k'. prefix p k' \<and> get (put k v t) k' \<noteq> None}
      = insert k {k'. prefix p k' \<and> get t k' \<noteq> None}"
    using assms by (auto simp: get_put)
  moreover have "card (insert k {k'. prefix p k' \<and> get t k' \<noteq> None})
      = Suc (card {k'. prefix p k' \<and> get t k' \<noteq> None})"
    using assms by (intro card_insert_disjoint finite_prefix_keys) simp_all
  ultimately show ?thesis
    using length_iter [OF assms(1)] length_iter [OF ok_put [OF assms(1)]] by metis
qed

lemma length_iter_put_old:
  assumes "ok t" and "get t k \<noteq> None"
  shows "length (iter p (put k v t)) = length (iter p t)"
proof -
  have "{k'. prefix p k' \<and> get (put k v t) k' \<noteq> None} = {k'. prefix p k' \<and> get t k' \<noteq> None}"
    using assms by (auto simp: get_put)
  with assms show ?thesis by (simp add: length_iter ok_put)
qed

lemma iter_ext:
  assumes "ok t" and "ok t'"
    and "\<And>k. prefix p k \<Longrightarrow> get t k = get t' k"
  shows "iter p t = iter p t'"
proof (rule map_sorted_distinct_set_unique [of fst])
  show eq: "set (iter p t) = set (iter p t')"
    using assms by (auto simp: iter_mem)
  have "inj_on fst (set (iter p t))"
    using iter_mem [OF assms(1), of _ _ p] by (auto simp: inj_on_def)
  then show "inj_on fst (set (iter p t) \<union> set (iter p t'))"
    using eq by simp
  show "sorted (map fst (iter p t))" "distinct (map fst (iter p t))"
    using iter_sorted [OF assms(1), of p] by (simp_all add: strict_sorted_iff)
  show "sorted (map fst (iter p t'))" "distinct (map fst (iter p t'))"
    using iter_sorted [OF assms(2), of p] by (simp_all add: strict_sorted_iff)
qed

lemma iter_put_other:
  assumes "ok t" and "\<not> prefix p k"
  shows "iter p (put k v t) = iter p t"
  using assms by (intro iter_ext) (auto simp: ok_put get_put)

lemma iter_values: "ok t \<Longrightarrow> w \<in> snd ` set (iter p t) \<longleftrightarrow> (\<exists>k. prefix p k \<and> get t k = Some w)"
  using iter_mem [of t _ w p] by force

end

section \<open>The representation meets the contract\<close>

lemma set_kv_put: "set (kv_put k v t) \<subseteq> insert (k, v) (set t)"
  by (induction t) (auto split: if_splits)

lemma kv_ok_Nil [simp]: "kv_ok []"
  by (simp add: kv_ok_def)

lemma kv_ok_put: "kv_ok t \<Longrightarrow> kv_ok (kv_put k v t)"
proof (induction t)
  case Nil
  then show ?case by (simp add: kv_ok_def)
next
  case (Cons e t)
  obtain k' v' where e: "e = (k', v')" by (cases e)
  show ?case
  proof (cases "k < k' \<or> k = k'")
    case True
    with Cons.prems e show ?thesis by (auto simp: kv_ok_def)
  next
    case False
    then have "k' < k" by auto
    moreover have "kv_ok (kv_put k v t)"
      using Cons by (auto simp: kv_ok_def)
    moreover have "\<forall>x \<in> fst ` set (kv_put k v t). k' < x"
      using set_kv_put [of k v t] \<open>k' < k\<close> Cons.prems e by (fastforce simp: kv_ok_def)
    ultimately show ?thesis using e by (auto simp: kv_ok_def)
  qed
qed

lemma kv_get_put:
  "kv_ok t \<Longrightarrow> kv_get (kv_put k v t) k' = (if k' = k then Some v else kv_get t k')"
proof (induction t)
  case Nil
  then show ?case by (simp add: kv_get_def)
next
  case (Cons e t)
  obtain k1 v1 where e: "e = (k1, v1)" by (cases e)
  have "kv_ok t" using Cons.prems by (simp add: kv_ok_def)
  with Cons.IH e show ?case by (auto simp: kv_get_def)
qed

lemma kv_get_delete: "kv_get (kv_delete k t) k' = (if k' = k then None else kv_get t k')"
  by (induction t) (auto simp: kv_get_def kv_delete_def)

lemma kv_ok_filter: "kv_ok t \<Longrightarrow> kv_ok (filter P t)"
  by (induction t) (auto simp: kv_ok_def)

lemma kv_mem_iff: "kv_ok t \<Longrightarrow> (k, v) \<in> set t \<longleftrightarrow> kv_get t k = Some v"
proof -
  assume "kv_ok t"
  then have "distinct (map fst t)" by (simp add: kv_ok_def strict_sorted_iff)
  then show ?thesis by (simp add: kv_get_def)
qed

interpretation akv: ordered_kv kv_get kv_put kv_delete kv_prefix_iter kv_ok
proof unfold_locales
  fix t :: "'v kv" and k k' p :: string and v :: 'v
  assume ok: "kv_ok t"
  show "kv_ok (kv_put k v t)" using ok by (rule kv_ok_put)
  show "kv_ok (kv_delete k t)" using ok by (simp add: kv_delete_def kv_ok_filter)
  show "kv_get (kv_put k v t) k' = (if k' = k then Some v else kv_get t k')"
    using ok by (rule kv_get_put)
  show "kv_get (kv_delete k t) k' = (if k' = k then None else kv_get t k')"
    by (rule kv_get_delete)
  show "sorted_wrt (<) (map fst (kv_prefix_iter p t))"
    using kv_ok_filter [OF ok] by (simp add: kv_prefix_iter_def kv_ok_def)
  show "(k, v) \<in> set (kv_prefix_iter p t) \<longleftrightarrow> prefix p k \<and> kv_get t k = Some v"
    using kv_mem_iff [OF ok] by (auto simp: kv_prefix_iter_def)
qed

end
