(* ===== verification/Base.thy ===== *)
theory Base
  imports Kv
begin

text \<open>
  Errors, identifiers and the boundary of the model.

  The error types are the enums of \<open>ipc_lib.rs\<close>, \<open>db.rs\<close>, \<open>multisig.rs\<close> and
  \<open>bitcoin_utils.rs\<close>; texts that the code formats are kept without the interpolated values, and
  \<open>Panic\<close> stands for an \<open>expect\<close>, \<open>unwrap\<close> or overflow check that aborts the process.  The
  record \<open>ext\<close> collects the functions of the crates the code calls (\<open>bitcoin\<close>,
  \<open>secp256k1\<close>, \<open>alloy_primitives\<close>, \<open>fvm_shared\<close>); \<open>ext_ok\<close> states what the code relies on, and
  \<open>demo_ext\<close> is one concrete instance that satisfies it.
\<close>

section \<open>Errors\<close>

datatype ipc_validate_error = InvalidMsg string | InvalidField string string

datatype ipc_serialize_error =
    MissingField string
  | ParseFieldError string string
  | UnknownTag string
  | SerializationError string
  | DeserializationError string

datatype multisig_error =
    InsufficientPublicKeys
  | InsufficientTotalPower
  | InsufficientCollateral
  | CollateralTooHigh
  | CoinSelectionFailed string
  | SigningError string
  | PsbtError string
  | SighashTaprootError
  | TaprootBuilderNotFinalizable
  | TaprootBuilderError
  | MultisigPanic string

datatype db_error =
    DbEnvironmentNotFound string
  | DbNotFound string
  | KeyValueNotFound string
  | KeyModificationError string string
  | InvalidChange string
  | IoError
  | DbHeedError
  | TypeConversionError string
  | DbPanic string

datatype bitcoin_utils_error =
    BitcoinRpcError string
  | UtilsWalletError string
  | MempoolAcceptanceFailed string
  | UtilsInsufficientPublicKeys
  | FeeRateOverflow
  | UtilsTaprootBuilderNotFinalizable
  | UtilsTaprootBuilderError
  | UnsuportedOpCode
  | ErrorParsingWitnessScript
  | CannotConstructControlBlock

datatype ipc_lib_error =
    MsgParseError string string
  | IpcValidateError ipc_validate_error
  | DbError db_error
  | HeedError
  | BitcoinUtilsError bitcoin_utils_error
  | WalletError string
  | MultisigError multisig_error
  | Panic string

text \<open>
  The \<open>From\<close> conversions that the question-mark operator applies; a panic stays a panic whatever
  the layer it started in.
\<close>

fun ipc_from_multisig :: "multisig_error \<Rightarrow> ipc_lib_error" where
  "ipc_from_multisig (MultisigPanic s) = Panic s"
| "ipc_from_multisig e = MultisigError e"

fun ipc_from_db :: "db_error \<Rightarrow> ipc_lib_error" where
  "ipc_from_db (DbPanic s) = Panic s"
| "ipc_from_db e = DbError e"

section \<open>Scripts, transactions and identifiers\<close>

type_synonym txid = bytes
type_synonym block_hash = bytes
type_synonym xonly_pubkey = bytes
type_synonym eth_address = bytes
type_synonym btc_address = string
type_synonym power = u32

text \<open>
  A script is kept as the sequence of elements given to \<open>script::Builder\<close>; reading a script back
  goes through the crate's instruction iterators in \<open>ext\<close>, where \<open>None\<close> is a parse error.
\<close>

datatype script_elem =
    PushOpcode u8
  | PushSlice bytes
  | PushInt int
  | PushXOnlyKey xonly_pubkey
  | RawBytes bytes

type_synonym script = "script_elem list"

datatype instruction = PushBytes bytes | Op u8

record tx_out =
  txo_value :: amount
  txo_script :: script

record tx_in =
  prev_txid :: txid
  prev_vout :: u32
  sequence :: u32
  witness :: "bytes list"

record transaction =
  lock_time :: u32
  inputs :: "tx_in list"
  outputs :: "tx_out list"

datatype fvm_address = Delegated u64 bytes | OtherPayload bytes

record ext =
  fvm_display :: "fvm_address \<Rightarrow> string"
  fvm_parse :: "string \<Rightarrow> fvm_address option"
  eth_display :: "eth_address \<Rightarrow> string"
  txid_display :: "txid \<Rightarrow> string"
  uncompressed_even :: "xonly_pubkey \<Rightarrow> bytes"
  eth_from_raw_public_key :: "bytes \<Rightarrow> eth_address"
  p2tr_of_leaves :: "(nat \<times> script) list \<Rightarrow> btc_address option"
  address_script :: "btc_address \<Rightarrow> script"
  address_from_script :: "script \<Rightarrow> btc_address option"
  address_valid :: "btc_address \<Rightarrow> bool"
  instructions :: "script \<Rightarrow> instruction option list"
  instructions_minimal :: "script \<Rightarrow> instruction option list"
  script_to_bytes :: "script \<Rightarrow> bytes"
  script_from_bytes :: "bytes \<Rightarrow> script"
  minimal_non_dust :: "script \<Rightarrow> amount"
  minimal_non_dust_custom :: "u64 \<Rightarrow> script \<Rightarrow> amount"
  compute_txid :: "transaction \<Rightarrow> txid"
  verify_schnorr :: "xonly_pubkey \<Rightarrow> bytes \<Rightarrow> bytes \<Rightarrow> bool"
  sha256 :: "bytes \<Rightarrow> bytes"
  xpk_valid :: "bytes \<Rightarrow> bool"
  varint_size :: "nat \<Rightarrow> nat"
  fee_wu :: "u64 \<Rightarrow> u64 \<Rightarrow> amount option"
  tx_weight :: "transaction \<Rightarrow> u64"
  txin_base_size :: nat

section \<open>Subnet identifiers\<close>

type_synonym subnet_id = fvm_address

definition L1_NAME :: string where "L1_NAME = ''/b4''"

definition L1_DELEGATED_NAMESPACE :: u64 where "L1_DELEGATED_NAMESPACE = 10"

definition SUBNET_ID_INNER_LEN :: nat where "SUBNET_ID_INNER_LEN = 20"

definition ETH_ADDR_LEN :: nat where "ETH_ADDR_LEN = 20"

definition txid20_from_txid :: "txid \<Rightarrow> bytes" where
  "txid20_from_txid t = take 20 t"

definition txid20_from_slice :: "bytes \<Rightarrow> string + bytes" where
  "txid20_from_slice s =
     (if length s < 20 then Inl ''Byte slice too short'' else Inr (take 20 s))"

definition subnet_id_from_txid20 :: "bytes \<Rightarrow> subnet_id" where
  "subnet_id_from_txid20 t = Delegated L1_DELEGATED_NAMESPACE t"

definition subnet_id_from_txid :: "txid \<Rightarrow> subnet_id" where
  "subnet_id_from_txid t = Delegated L1_DELEGATED_NAMESPACE (take 20 t)"

definition subnet_id_default :: subnet_id where
  "subnet_id_default = subnet_id_from_txid (replicate 32 0)"

text \<open>\<open>None\<close> is the panic of a subnet id that holds no 20-byte delegated address.\<close>

fun subnet_id_txid20 :: "subnet_id \<Rightarrow> bytes option" where
  "subnet_id_txid20 (Delegated ns sub) =
     (if length sub = SUBNET_ID_INNER_LEN then Some sub else None)"
| "subnet_id_txid20 (OtherPayload p) = None"

definition subnet_id_display :: "ext \<Rightarrow> subnet_id \<Rightarrow> string" where
  "subnet_id_display X sid = L1_NAME @ ''/'' @ fvm_display X sid"

datatype subnet_id_error = InvalidFormat string string | InvalidFvmAddress

fun split_on :: "char \<Rightarrow> string \<Rightarrow> string list" where
  "split_on c [] = [[]]"
| "split_on c (x # xs) =
     (if x = c then [] # split_on c xs
      else case split_on c xs of [] \<Rightarrow> [[x]] | p # ps \<Rightarrow> (x # p) # ps)"

definition subnet_id_from_str :: "ext \<Rightarrow> string \<Rightarrow> subnet_id_error + subnet_id" where
  "subnet_id_from_str X s =
     (if \<not> prefix ''/'' s then Inl (InvalidFormat L1_NAME s)
      else let parts = split_on (CHR ''/'') (tl s) in
        if length parts \<noteq> 2 \<or> parts ! 0 \<noteq> tl L1_NAME then Inl (InvalidFormat L1_NAME (tl s))
        else ok_or (fvm_parse X (parts ! 1)) InvalidFvmAddress)"

section \<open>Ethereum addresses of validators\<close>

definition eth_addr_from_x_only_pubkey :: "ext \<Rightarrow> xonly_pubkey \<Rightarrow> eth_address" where
  "eth_addr_from_x_only_pubkey X pk = eth_from_raw_public_key X (tl (uncompressed_even X pk))"

fun delegated_fvm_to_eth_address :: "fvm_address \<Rightarrow> eth_address option" where
  "delegated_fvm_to_eth_address (Delegated ns sub) =
     (if length sub = ETH_ADDR_LEN then Some sub else None)"
| "delegated_fvm_to_eth_address (OtherPayload p) = None"

definition evm_address_to_delegated_fvm :: "eth_address \<Rightarrow> u64 \<Rightarrow> fvm_address" where
  "evm_address_to_delegated_fvm a ns = Delegated ns a"

section \<open>Message tags\<close>

definition IPC_TAG_LENGTH :: nat where "IPC_TAG_LENGTH = 6"

datatype ipc_tag =
    CreateSubnetTag | JoinSubnetTag | PrefundSubnetTag | FundSubnetTag | CheckpointSubnetTag
  | BatchTransferTag | StakeCollateralTag | UnstakeCollateralTag | KillSubnetTag

fun ipc_tag_as_str :: "ipc_tag \<Rightarrow> string" where
  "ipc_tag_as_str CreateSubnetTag = ''IPCCRT''"
| "ipc_tag_as_str JoinSubnetTag = ''IPCJOI''"
| "ipc_tag_as_str PrefundSubnetTag = ''IPCPFD''"
| "ipc_tag_as_str FundSubnetTag = ''IPCFND''"
| "ipc_tag_as_str CheckpointSubnetTag = ''IPCCPT''"
| "ipc_tag_as_str BatchTransferTag = ''IPCTFR''"
| "ipc_tag_as_str StakeCollateralTag = ''IPCSTK''"
| "ipc_tag_as_str UnstakeCollateralTag = ''IPCUST''"
| "ipc_tag_as_str KillSubnetTag = ''IPCKIL''"

definition ipc_tag_from_str :: "string \<Rightarrow> ipc_serialize_error + ipc_tag" where
  "ipc_tag_from_str s =
     (if s = ''IPCCRT'' then Inr CreateSubnetTag
      else if s = ''IPCJOI'' then Inr JoinSubnetTag
      else if s = ''IPCPFD'' then Inr PrefundSubnetTag
      else if s = ''IPCFND'' then Inr FundSubnetTag
      else if s = ''IPCCPT'' then Inr CheckpointSubnetTag
      else if s = ''IPCTFR'' then Inr BatchTransferTag
      else if s = ''IPCSTK'' then Inr StakeCollateralTag
      else if s = ''IPCUST'' then Inr UnstakeCollateralTag
      else if s = ''IPCKIL'' then Inr KillSubnetTag
      else Inl (UnknownTag s))"

definition ascii_bytes :: "string \<Rightarrow> bytes" where
  "ascii_bytes s = map (\<lambda>c. of_nat (of_char c)) s"

definition tag_bytes :: "ipc_tag \<Rightarrow> bytes" where
  "tag_bytes t = ascii_bytes (ipc_tag_as_str t)"

section \<open>What the code relies on\<close>

definition OP_DROP :: u8 where "OP_DROP = 0x75"

definition OP_TRUE :: u8 where "OP_TRUE = 0x51"

definition OP_RETURN :: u8 where "OP_RETURN = 0x6a"

text \<open>
  Subnet ids that the program itself creates: a 20-byte delegated address.
\<close>

fun native_id :: "subnet_id \<Rightarrow> bool" where
  "native_id (Delegated ns sub) \<longleftrightarrow> ns = L1_DELEGATED_NAMESPACE \<and> length sub = 20"
| "native_id (OtherPayload p) \<longleftrightarrow> False"

definition ext_ok :: "ext \<Rightarrow> bool" where
  "ext_ok X \<longleftrightarrow>
     (\<forall>a. CHR '':'' \<notin> set (fvm_display X a) \<and> CHR ''/'' \<notin> set (fvm_display X a))
   \<and> (\<forall>a. fvm_parse X (fvm_display X a) = Some a)
   \<and> (\<forall>a b. native_id a \<longrightarrow> native_id b \<longrightarrow>
        length (fvm_display X a) = length (fvm_display X b))
   \<and> inj (eth_display X) \<and> (\<forall>a. CHR '':'' \<notin> set (eth_display X a))
   \<and> inj (txid_display X) \<and> (\<forall>a. CHR '':'' \<notin> set (txid_display X a))
   \<and> (\<forall>a b. p2tr_of_leaves X [a, b] \<noteq> None)
   \<and> (\<forall>ls a. p2tr_of_leaves X ls = Some a \<longrightarrow> address_valid X a)
   \<and> (\<forall>a. address_from_script X (address_script X a) = Some a)
   \<and> (\<forall>d. 2 \<le> length d \<longrightarrow>
        instructions_minimal X [PushOpcode OP_RETURN, PushSlice d] = [Some (Op OP_RETURN), Some (PushBytes d)])"

section \<open>A concrete instance\<close>

definition hex_byte :: "u8 \<Rightarrow> string" where
  "hex_byte b = [char_of (97 + unat b div 16), char_of (97 + unat b mod 16)]"

definition hex :: "bytes \<Rightarrow> string" where
  "hex bs = concat (map hex_byte bs)"

fun unhex :: "string \<Rightarrow> bytes" where
  "unhex (a # b # s) = of_nat ((of_char a - 97) * 16 + (of_char b - 97)) # unhex s"
| "unhex s = []"

fun demo_fvm_display :: "fvm_address \<Rightarrow> string" where
  "demo_fvm_display (Delegated ns sub) = ''f4'' @ hex (be_bytes 8 (unat ns)) @ hex sub"
| "demo_fvm_display (OtherPayload p) = ''f1'' @ hex p"

definition demo_fvm_parse :: "string \<Rightarrow> fvm_address option" where
  "demo_fvm_parse s =
     (let bs = unhex (drop 2 s) in
      if prefix ''f4'' s then Some (Delegated (of_nat (be_value (take 8 bs))) (drop 8 bs))
      else Some (OtherPayload bs))"

fun demo_elem :: "script_elem \<Rightarrow> string" where
  "demo_elem (PushOpcode b) = ''o'' @ hex [b]"
| "demo_elem (PushSlice d) = ''s'' @ hex d @ ''z''"
| "demo_elem (PushInt i) = ''i'' @ dec (nat i) @ ''z''"
| "demo_elem (PushXOnlyKey k) = ''k'' @ hex k @ ''z''"
| "demo_elem (RawBytes d) = ''r'' @ hex d @ ''z''"

fun demo_instruction :: "script_elem \<Rightarrow> instruction option" where
  "demo_instruction (PushOpcode b) = Some (Op b)"
| "demo_instruction (PushSlice d) = Some (PushBytes d)"
| "demo_instruction (PushInt i) = Some (PushBytes (le_bytes 4 (nat i)))"
| "demo_instruction (PushXOnlyKey k) = Some (PushBytes k)"
| "demo_instruction (RawBytes d) = None"

fun demo_address_from_script :: "script \<Rightarrow> btc_address option" where
  "demo_address_from_script [RawBytes d] = Some (map (\<lambda>b. char_of (unat b)) d)"
| "demo_address_from_script s = None"

definition demo_ext :: ext where
  "demo_ext = \<lparr> fvm_display = demo_fvm_display, fvm_parse = demo_fvm_parse,
     eth_display = (\<lambda>a. ''0x'' @ hex a), txid_display = hex,
     uncompressed_even = (\<lambda>k. 4 # k @ rev k), eth_from_raw_public_key = take 20,
     p2tr_of_leaves = (\<lambda>ls. Some (''bcrt1p'' @ concat (map (\<lambda>l. ''l'' @ dec (fst l) @ concat (map demo_elem (snd l))) ls))),
     address_script = (\<lambda>a. [RawBytes (ascii_bytes a)]),
     address_from_script = demo_address_from_script,
     address_valid = (\<lambda>a. prefix ''bcrt1p'' a),
     instructions = map demo_instruction, instructions_minimal = map demo_instruction,
     script_to_bytes = (\<lambda>s. ascii_bytes (concat (map demo_elem s))),
     script_from_bytes = (\<lambda>b. [RawBytes b]),
     minimal_non_dust = (\<lambda>s. 330), minimal_non_dust_custom = (\<lambda>r s. 330),
     compute_txid = (\<lambda>tx. le_bytes 32 (length (inputs tx) + 256 * length (outputs tx))),
     verify_schnorr = (\<lambda>k m s. s = k @ m), sha256 = take 32, xpk_valid = (\<lambda>k. length k = 32),
     varint_size = (\<lambda>n. if n < 253 then 1 else if n < 65536 then 3 else if n < 4294967296 then 5 else 9),
     fee_wu = (\<lambda>r w. if unat r * unat w + 999 < 2 ^ 64 then Some ((r * w + 999) div 1000) else None),
     tx_weight = (\<lambda>tx. of_nat (160 + 300 * length (inputs tx) + 172 * length (outputs tx))),
     txin_base_size = 41 \<rparr>"

section \<open>Facts on identifiers\<close>

lemma native_from_txid20 [simp]: "length t = 20 \<Longrightarrow> native_id (subnet_id_from_txid20 t)"
  by (simp add: subnet_id_from_txid20_def)

lemma native_txid20: "native_id sid \<Longrightarrow> \<exists>t. subnet_id_txid20 sid = Some t \<and> length t = 20
    \<and> subnet_id_from_txid20 t = sid"
  by (cases sid) (simp_all add: SUBNET_ID_INNER_LEN_def subnet_id_from_txid20_def)

lemma hex_byte_inverse:
  "of_nat ((of_char (char_of (97 + unat b div 16)) - 97) * 16
     + (of_char (char_of (97 + unat b mod 16)) - 97)) = (b :: u8)"
proof -
  have b: "unat b < 256" using unsigned_less [of b] by simp
  then have "97 + unat b div 16 < 256" and "97 + unat b mod 16 < 256" by linarith+
  then have "of_char (char_of (97 + unat b div 16)) = 97 + unat b div 16"
    and "of_char (char_of (97 + unat b mod 16)) = 97 + unat b mod 16" by simp_all
  then show ?thesis by simp
qed

lemma unhex_hex [simp]: "unhex (hex bs) = bs"
  by (induction bs) (simp_all only: hex_def hex_byte_def list.map concat.simps append.simps
      unhex.simps hex_byte_inverse)

lemma hex_inject [simp]: "hex a = hex b \<longleftrightarrow> a = b"
  by (metis unhex_hex)

lemma hex_append: "hex (a @ b) = hex a @ hex b"
  by (simp add: hex_def)

lemma length_hex: "length (hex bs) = 2 * length bs"
  by (induction bs) (simp_all add: hex_def hex_byte_def)

lemma hex_chars: "c \<in> set (hex bs) \<Longrightarrow> 97 \<le> (of_char c :: nat)"
proof (induction bs)
  case Nil
  then show ?case by (simp add: hex_def)
next
  case (Cons b bs)
  have "unat b < 256" using unsigned_less [of b] by simp
  then have lt: "97 + unat b div 16 < 256" "97 + unat b mod 16 < 256" by linarith+
  from Cons.prems have "c \<in> set (hex_byte b) \<or> c \<in> set (hex bs)"
    by (simp add: hex_def)
  then show ?case
  proof
    assume "c \<in> set (hex_byte b)"
    then show ?thesis using lt by (auto simp: hex_byte_def)
  qed (rule Cons.IH)
qed

lemma hex_no_sep [simp]: "CHR '':'' \<notin> set (hex bs)" "CHR ''/'' \<notin> set (hex bs)"
  using hex_chars [of "CHR '':''" bs] hex_chars [of "CHR ''/''" bs] by auto

lemma char_byte_inverse: "char_of (unat (of_nat (of_char c) :: u8)) = (c :: char)"
proof -
  have "(of_char c :: nat) < 256"
    by (metis of_char_mod_256 mod_less_divisor zero_less_numeral)
  then have "unat (of_nat (of_char c) :: u8) = of_char c"
    by (simp add: unat_of_nat)
  then show ?thesis by simp
qed

lemma demo_fvm_roundtrip: "demo_fvm_parse (demo_fvm_display a) = Some a"
proof (cases a)
  case (Delegated ns sub)
  have "unat ns < 256 ^ 8" using unsigned_less [of ns] by simp
  then have "be_value (be_bytes 8 (unat ns)) = unat ns" by (rule be_value_be_bytes)
  then show ?thesis using Delegated
    by (simp add: demo_fvm_parse_def hex_append [symmetric])
next
  case (OtherPayload p)
  then show ?thesis by (simp add: demo_fvm_parse_def)
qed

lemma demo_fvm_no_sep: "CHR '':'' \<notin> set (demo_fvm_display a) \<and> CHR ''/'' \<notin> set (demo_fvm_display a)"
  by (cases a) simp_all

lemma demo_fvm_length:
  "native_id a \<Longrightarrow> length (demo_fvm_display a) = 58"
  by (cases a) (simp_all add: length_hex)

lemma demo_ext_ok: "ext_ok demo_ext"
  unfolding ext_ok_def demo_ext_def
  by (intro conjI allI impI)
    (simp_all add: demo_fvm_roundtrip demo_fvm_no_sep demo_fvm_length inj_on_def
      ascii_bytes_def o_def char_byte_inverse)

section \<open>Facts on what the crates promise\<close>

lemma fvm_roundtrip: "ext_ok X \<Longrightarrow> fvm_parse X (fvm_display X a) = Some a"
  unfolding ext_ok_def by blast

lemma fvm_display_inject [simp]: "ext_ok X \<Longrightarrow> fvm_display X a = fvm_display X b \<longleftrightarrow> a = b"
  by (metis fvm_roundtrip option.inject)

lemma fvm_display_no_colon [simp]: "ext_ok X \<Longrightarrow> CHR '':'' \<notin> set (fvm_display X a)"
  unfolding ext_ok_def by blast

lemma fvm_display_no_slash [simp]: "ext_ok X \<Longrightarrow> CHR ''/'' \<notin> set (fvm_display X a)"
  unfolding ext_ok_def by blast

lemma fvm_display_length:
  "ext_ok X \<Longrightarrow> native_id a \<Longrightarrow> native_id b \<Longrightarrow> length (fvm_display X a) = length (fvm_display X b)"
  unfolding ext_ok_def by blast

lemma eth_display_inject [simp]: "ext_ok X \<Longrightarrow> eth_display X a = eth_display X b \<longleftrightarrow> a = b"
  unfolding ext_ok_def by (blast dest: injD)

lemma eth_display_no_colon [simp]: "ext_ok X \<Longrightarrow> CHR '':'' \<notin> set (eth_display X a)"
  unfolding ext_ok_def by blast

lemma txid_display_inject [simp]: "ext_ok X \<Longrightarrow> txid_display X a = txid_display X b \<longleftrightarrow> a = b"
  unfolding ext_ok_def by (blast dest: injD)

lemma txid_display_no_colon [simp]: "ext_ok X \<Longrightarrow> CHR '':'' \<notin> set (txid_display X a)"
  unfolding ext_ok_def by blast

lemma p2tr_two_leaves: "ext_ok X \<Longrightarrow> \<exists>a. p2tr_of_leaves X [l, m] = Some a"
  unfolding ext_ok_def by blast

lemma p2tr_valid: "ext_ok X \<Longrightarrow> p2tr_of_leaves X ls = Some a \<Longrightarrow> address_valid X a"
  unfolding ext_ok_def by blast

lemma address_script_roundtrip [simp]:
  "ext_ok X \<Longrightarrow> address_from_script X (address_script X a) = Some a"
  unfolding ext_ok_def by blast

lemma op_return_instructions:
  "ext_ok X \<Longrightarrow> 2 \<le> length d \<Longrightarrow>
   instructions_minimal X [PushOpcode OP_RETURN, PushSlice d] = [Some (Op OP_RETURN), Some (PushBytes d)]"
  unfolding ext_ok_def by blast

lemma subnet_id_display_inject [simp]:
  "ext_ok X \<Longrightarrow> subnet_id_display X a = subnet_id_display X b \<longleftrightarrow> a = b"
  by (simp add: subnet_id_display_def)

lemma subnet_id_display_no_colon [simp]:
  "ext_ok X \<Longrightarrow> CHR '':'' \<notin> set (subnet_id_display X a)"
  by (simp add: subnet_id_display_def L1_NAME_def)

text \<open>
  The rendering of one program-created subnet id is never a proper prefix of another's, which is
  what makes the prefix iterators of the database per subnet.
\<close>

lemma subnet_id_display_prefix_free:
  assumes "ext_ok X" "native_id a" "native_id b"
    and "prefix (subnet_id_display X a) (subnet_id_display X b @ s)"
  shows "a = b"
proof -
  have len: "length (subnet_id_display X a) = length (subnet_id_display X b)"
    using fvm_display_length [OF assms(1-3)] by (simp add: subnet_id_display_def)
  then have "subnet_id_display X a = subnet_id_display X b"
    using assms(4) by (metis append_eq_append_conv prefixE)
  then show ?thesis using assms(1) by simp
qed

lemma split_on_no_sep: "c \<notin> set s \<Longrightarrow> split_on c s = [s]"
  by (induction s) auto

lemma split_on_append: "c \<notin> set s \<Longrightarrow> split_on c (s @ c # t) = s # split_on c t"
  by (induction s) auto

lemma subnet_id_parse_display:
  "ext_ok X \<Longrightarrow> subnet_id_from_str X (subnet_id_display X sid) = Inr sid"
proof -
  assume ok: "ext_ok X"
  have "split_on (CHR ''/'') (''b4'' @ CHR ''/'' # fvm_display X sid) = [''b4'', fvm_display X sid]"
    using ok by (subst split_on_append) (simp_all add: split_on_no_sep)
  then show ?thesis
    using ok by (simp add: subnet_id_from_str_def subnet_id_display_def L1_NAME_def fvm_roundtrip)
qed

lemma ipc_tag_roundtrip: "ipc_tag_from_str (ipc_tag_as_str t) = Inr t"
  by (cases t) (simp_all add: ipc_tag_from_str_def)

lemma ipc_tag_length: "length (ipc_tag_as_str t) = IPC_TAG_LENGTH"
  by (cases t) (simp_all add: IPC_TAG_LENGTH_def)

lemma length_tag_bytes [simp]: "length (tag_bytes t) = 6"
  by (cases t) (simp_all add: tag_bytes_def ascii_bytes_def)

lemma ascii_bytes_inject: "ascii_bytes s = ascii_bytes t \<longleftrightarrow> s = t"
proof
  assume "ascii_bytes s = ascii_bytes t"
  then have "map (\<lambda>b. char_of (unat b)) (ascii_bytes s) = (map (\<lambda>b. char_of (unat b)) (ascii_bytes t) :: string)"
    by simp
  then show "s = t" by (simp add: ascii_bytes_def o_def char_byte_inverse)
qed simp

lemma tag_bytes_inject [simp]: "tag_bytes t = tag_bytes u \<longleftrightarrow> t = u"
  by (metis ascii_bytes_inject ipc_tag_roundtrip sum.inject(2) tag_bytes_def)

end
