(* ===== verification/Multisig.thy ===== *)
theory Multisig
  imports Base "HOL-Library.Product_Lexorder" "HOL-Library.Multiset"
begin

text \<open>
  The weighted multisig of \<open>src/src/multisig.rs\<close>: the tapscript of a committee, its address, the
  power of a collateral, coin selection, and the construction of the spending transaction.
  \<open>script_exec\<close> is the meaning of the opcodes that this script and the data scripts use (tapscript rules: an
  empty signature is a failed check, any other invalid signature aborts, arithmetic operands have
  at most four bytes); it is the specification that the script builder is checked against.
\<close>

section \<open>Script and address of a committee\<close>

type_synonym weighted_key = "xonly_pubkey \<times> power"

definition OP_SWAP :: u8 where "OP_SWAP = 0x7c"
definition OP_CHECKSIG :: u8 where "OP_CHECKSIG = 0xac"
definition OP_IF :: u8 where "OP_IF = 0x63"
definition OP_ENDIF :: u8 where "OP_ENDIF = 0x68"
definition OP_ADD :: u8 where "OP_ADD = 0x93"
definition OP_GREATERTHANOREQUAL :: u8 where "OP_GREATERTHANOREQUAL = 0xa2"

definition sort_committee_keys :: "weighted_key list \<Rightarrow> weighted_key list" where
  "sort_committee_keys committee_keys = sort_key fst committee_keys"

definition push_committee_key :: "weighted_key \<Rightarrow> script" where
  "push_committee_key kw =
     [PushOpcode OP_SWAP, PushXOnlyKey (fst kw), PushOpcode OP_CHECKSIG, PushOpcode OP_IF,
      PushInt (uint (snd kw)), PushOpcode OP_ADD, PushOpcode OP_ENDIF]"

definition create_multisig_script :: "weighted_key list \<Rightarrow> power \<Rightarrow> multisig_error + script" where
  "create_multisig_script public_keys threshold =
     (let total_weight = sum_list (map snd public_keys) in
      if total_weight < threshold then Inl InsufficientTotalPower
      else
        let sorted_public_keys = sort_committee_keys public_keys in
        Inr ([PushInt 0] @ concat (map push_committee_key sorted_public_keys)
             @ [PushInt (uint threshold), PushOpcode OP_GREATERTHANOREQUAL]))"

definition create_unspendable_subnet_id_script :: "subnet_id \<Rightarrow> multisig_error + script" where
  "create_unspendable_subnet_id_script sid =
     (case subnet_id_txid20 sid of
        None \<Rightarrow> Inl (MultisigPanic ''SubnetId doesn't have a delegated address'')
      | Some t \<Rightarrow> Inr [PushOpcode OP_RETURN, PushSlice t])"

text \<open>
  The spend info is given by the leaves handed to \<open>TaprootBuilder::with_huffman_tree\<close> (weight and
  script); the internal key is the constant unspendable key.
\<close>

definition create_subnet_multisig_spend_info ::
  "subnet_id \<Rightarrow> weighted_key list \<Rightarrow> power \<Rightarrow> multisig_error + (nat \<times> script) list" where
  "create_subnet_multisig_spend_info sid public_keys threshold =
     res_bind (create_multisig_script public_keys threshold) (\<lambda>multisig_script.
     res_bind (create_unspendable_subnet_id_script sid) (\<lambda>subnet_id_script.
       Inr [(1, multisig_script), (0, subnet_id_script)]))"

definition create_subnet_multisig_address ::
  "ext \<Rightarrow> subnet_id \<Rightarrow> weighted_key list \<Rightarrow> power \<Rightarrow> multisig_error + btc_address" where
  "create_subnet_multisig_address X sid public_keys threshold =
     res_bind (create_subnet_multisig_spend_info sid public_keys threshold) (\<lambda>leaves.
       ok_or (p2tr_of_leaves X leaves) TaprootBuilderNotFinalizable)"

definition multisig_threshold :: "power \<Rightarrow> power" where
  "multisig_threshold total_power = total_power * 2 div 3 + 1"

definition POWER_SCALE_FACTOR :: u64 where "POWER_SCALE_FACTOR = 10000"

definition MAX_POWER :: u64 where "MAX_POWER = 4294967295"

definition collateral_to_power :: "amount \<Rightarrow> amount \<Rightarrow> multisig_error + power" where
  "collateral_to_power amt min_amount =
     (if amt < min_amount then Inl InsufficientCollateral
      else
        let pw = min amt MAX_POWER div POWER_SCALE_FACTOR in
        if unat pw < 2 ^ 32 then Inr (ucast pw) else Inl CollateralTooHigh)"

section \<open>Sizes\<close>

definition SCHNORR_SIGNATURE_SIZE :: nat where "SCHNORR_SIGNATURE_SIZE = 64"
definition SCHNORR_PUBLIC_KEY_SIZE :: nat where "SCHNORR_PUBLIC_KEY_SIZE = 32"
definition TAPROOT_CONTROL_BASE_SIZE :: nat where "TAPROOT_CONTROL_BASE_SIZE = 33"
definition TAPROOT_CONTROL_NODE_SIZE :: nat where "TAPROOT_CONTROL_NODE_SIZE = 32"

definition multisig_spend_max_witness_size :: "ext \<Rightarrow> weighted_key list \<Rightarrow> power \<Rightarrow> nat" where
  "multisig_spend_max_witness_size X public_keys threshold =
     (let committee_size = length public_keys;
          signatures_size = SCHNORR_SIGNATURE_SIZE * committee_size;
          script_size = 1
            + sum_list (map (\<lambda>kw. SCHNORR_PUBLIC_KEY_SIZE + 5 + varint_size X (unat (snd kw))) public_keys)
            + varint_size X (unat threshold) + 1;
          control_block_content_size = TAPROOT_CONTROL_BASE_SIZE + TAPROOT_CONTROL_NODE_SIZE;
          var_ints = varint_size X (committee_size + 2)
            + varint_size X SCHNORR_SIGNATURE_SIZE * committee_size
            + varint_size X script_size
            + varint_size X control_block_content_size
      in signatures_size + script_size + control_block_content_size + var_ints)"

section \<open>Coin selection\<close>

record utxo =
  utxo_txid :: txid
  utxo_vout :: u32
  utxo_amount :: amount
  utxo_script :: script

text \<open>Largest amount first, then by transaction id and output index.\<close>

definition utxo_key :: "utxo \<Rightarrow> int \<times> bytes \<times> u32" where
  "utxo_key u = (- uint (utxo_amount u), utxo_txid u, utxo_vout u)"

definition sort_utxos :: "utxo list \<Rightarrow> utxo list" where
  "sort_utxos us = sort_key utxo_key us"

definition amount_add :: "amount \<Rightarrow> amount \<Rightarrow> multisig_error + amount" where
  "amount_add a b = ok_or (word_checked_add a b) (MultisigPanic ''Amount overflow'')"

definition expect_fee :: "ext \<Rightarrow> u64 \<Rightarrow> u64 \<Rightarrow> multisig_error + amount" where
  "expect_fee X fee_rate weight =
     ok_or (fee_wu X fee_rate weight) (MultisigPanic ''fee rate shouldn't overflow'')"

fun select_greedy ::
  "ext \<Rightarrow> amount \<Rightarrow> u64 \<Rightarrow> u64 \<Rightarrow> utxo list \<Rightarrow> amount \<Rightarrow> u64
   \<Rightarrow> multisig_error + (utxo list \<times> amount \<times> u64 \<times> utxo list)" where
  "select_greedy X target fee_rate input_weight [] total_amount total_weight =
     Inl (CoinSelectionFailed ''Insufficient funds'')"
| "select_greedy X target fee_rate input_weight (u # us) total_amount total_weight =
     res_bind (amount_add total_amount (utxo_amount u)) (\<lambda>total_amount'.
     let total_weight' = total_weight + input_weight in
     res_bind (expect_fee X fee_rate total_weight') (\<lambda>total_fee.
     res_bind (amount_add target total_fee) (\<lambda>needed.
       if needed \<le> total_amount' then Inr ([u], total_amount', total_weight', us)
       else res_bind (select_greedy X target fee_rate input_weight us total_amount' total_weight')
              (\<lambda>(selected, a, w, rest). Inr (u # selected, a, w, rest)))))"

fun select_consolidate ::
  "ext \<Rightarrow> amount \<Rightarrow> u64 \<Rightarrow> u64 \<Rightarrow> amount \<Rightarrow> utxo list \<Rightarrow> amount \<Rightarrow> u64
   \<Rightarrow> multisig_error + (utxo list \<times> amount \<times> u64)" where
  "select_consolidate X target fee_rate input_weight dust [] total_amount total_weight =
     Inr ([], total_amount, total_weight)"
| "select_consolidate X target fee_rate input_weight dust (u # us) total_amount total_weight =
     (let next_weight = total_weight + input_weight in
     res_bind (amount_add total_amount (utxo_amount u)) (\<lambda>next_amount.
     res_bind (expect_fee X fee_rate next_weight) (\<lambda>next_fee.
     res_bind (amount_add target next_fee) (\<lambda>s.
     res_bind (amount_add s dust) (\<lambda>needed.
       if next_amount < needed then Inr ([], total_amount, total_weight)
       else res_bind (select_consolidate X target fee_rate input_weight dust us next_amount next_weight)
              (\<lambda>(swept, a, w). Inr (u # swept, a, w)))))))"

definition select_coins ::
  "ext \<Rightarrow> amount \<Rightarrow> utxo list \<Rightarrow> u64 \<Rightarrow> u64 \<Rightarrow> u64 \<Rightarrow> btc_address \<Rightarrow> nat
   \<Rightarrow> multisig_error + (utxo list \<times> tx_out option)" where
  "select_coins X target utxos fee_rate base_tx_weight input_weight change_address consolidation_limit =
     (let dust = minimal_non_dust X (address_script X change_address) in
     res_bind (select_greedy X target fee_rate input_weight (sort_utxos utxos) 0 base_tx_weight)
       (\<lambda>(selected, total_amount, total_weight, rest).
     res_bind (select_consolidate X target fee_rate input_weight dust
                (take consolidation_limit (rev rest)) total_amount total_weight)
       (\<lambda>(swept, total_amount, total_weight).
     res_bind (expect_fee X fee_rate total_weight) (\<lambda>total_fee.
     res_bind (ok_or (Option.bind (word_checked_sub total_amount target)
                       (\<lambda>remainder. word_checked_sub remainder total_fee))
                (CoinSelectionFailed ''Insufficient funds to cover outputs and fees''))
       (\<lambda>change.
         if dust < change
         then Inr (selected @ swept,
                   Some \<lparr> txo_value = change, txo_script = address_script X change_address \<rparr>)
         else Inr (selected @ swept, None))))))"

section \<open>The spending transaction\<close>

definition SEQUENCE_MAX :: u32 where "SEQUENCE_MAX = - 1"

definition spend_input :: "utxo \<Rightarrow> tx_in" where
  "spend_input u = \<lparr> prev_txid = utxo_txid u, prev_vout = utxo_vout u, sequence = SEQUENCE_MAX,
     witness = [] \<rparr>"

text \<open>
  A sum of amounts that overflows is a panic, as in a build with overflow checks; a build without them
  wraps.  It takes more than \<open>2^64\<close> satoshi, above what exists.
\<close>

definition amount_sum :: "amount list \<Rightarrow> multisig_error + amount" where
  "amount_sum xs = ok_or (word_checked_sum xs) (MultisigPanic ''Amount overflow'')"

definition spend_exhaust ::
  "ext \<Rightarrow> nat \<Rightarrow> btc_address \<Rightarrow> utxo list \<Rightarrow> tx_out list \<Rightarrow> u64 \<Rightarrow> multisig_error + transaction" where
  "spend_exhaust X spend_witness_size change_address unspent tx_outs fee_rate =
     (if unspent = [] then Inl (CoinSelectionFailed ''No UTXOs available'')
      else
     res_bind (amount_sum (map utxo_amount unspent)) (\<lambda>total_input_amount.
     res_bind (amount_sum (map txo_value tx_outs)) (\<lambda>total_output_amount.
     if total_input_amount < total_output_amount
     then Inl (CoinSelectionFailed ''Insufficient funds to cover outputs'')
     else
       let sorted = sort_utxos unspent;
           spend_tx = \<lparr> lock_time = 0, inputs = map spend_input sorted, outputs = tx_outs \<rparr>;
           change_script = address_script X change_address;
           tentative_tx = spend_tx\<lparr> outputs := tx_outs @ [\<lparr> txo_value = 1, txo_script = change_script \<rparr>] \<rparr>
       in
       res_bind (expect_fee X fee_rate
                  (tx_weight X tentative_tx + of_nat (spend_witness_size * length unspent))) (\<lambda>fee.
       case word_checked_sub total_input_amount total_output_amount of
         None \<Rightarrow> Inl (CoinSelectionFailed ''Insufficient funds to cover outputs'')
       | Some remainder \<Rightarrow>
         (case word_checked_sub remainder fee of
            None \<Rightarrow> Inl (CoinSelectionFailed ''Insufficient funds to cover outputs and fees'')
          | Some remaining \<Rightarrow>
              if minimal_non_dust X change_script < remaining
              then Inr (spend_tx\<lparr> outputs := tx_outs @ [\<lparr> txo_value = remaining, txo_script = change_script \<rparr>] \<rparr>)
              else Inr spend_tx)))))"

definition spend_select ::
  "ext \<Rightarrow> nat \<Rightarrow> btc_address \<Rightarrow> utxo list \<Rightarrow> tx_out list \<Rightarrow> u64 \<Rightarrow> nat \<Rightarrow> multisig_error + transaction" where
  "spend_select X spend_witness_size change_address unspent tx_outs fee_rate consolidation_limit =
     (let change_script = address_script X change_address;
          spending_weight_per_input = of_nat (4 * txin_base_size X) + of_nat spend_witness_size;
          dust_out = \<lparr> txo_value = minimal_non_dust X change_script, txo_script = change_script \<rparr>
      in
      res_bind (amount_sum (map txo_value tx_outs)) (\<lambda>target.
      res_bind (select_coins X target unspent fee_rate
                 (tx_weight X \<lparr> lock_time = 0, inputs = [], outputs = tx_outs @ [dust_out] \<rparr>)
                 spending_weight_per_input change_address consolidation_limit)
        (\<lambda>(selected_utxos, change).
          Inr \<lparr> lock_time = 0, inputs = map spend_input selected_utxos,
                outputs = tx_outs @ (case change of None \<Rightarrow> [] | Some c \<Rightarrow> [c]) \<rparr>)))"

definition construct_spend_unsigned_transaction ::
  "ext \<Rightarrow> weighted_key list \<Rightarrow> power \<Rightarrow> btc_address \<Rightarrow> utxo list \<Rightarrow> bool \<Rightarrow> tx_out list \<Rightarrow> u64 \<Rightarrow> nat
   \<Rightarrow> multisig_error + transaction" where
  "construct_spend_unsigned_transaction X committee_keys threshold change_address unspent
     exhaust_unspent tx_outs fee_rate consolidation_limit =
     (let spend_witness_size = multisig_spend_max_witness_size X committee_keys threshold in
      if exhaust_unspent
      then spend_exhaust X spend_witness_size change_address unspent tx_outs fee_rate
      else spend_select X spend_witness_size change_address unspent tx_outs fee_rate consolidation_limit)"

section \<open>Meaning of the script\<close>

datatype stack_item = SNum int | SBytes bytes

definition script_num_ok :: "int \<Rightarrow> bool" where
  "script_num_ok i \<longleftrightarrow> \<bar>i\<bar> < 2 ^ 31"

text \<open>
  One element on a stack (top first), with the signature check as argument.  The first component of
  the result says that the branch of an \<open>OP_IF\<close> is skipped; \<open>None\<close> is an aborted script.
\<close>

fun opcode_step ::
  "(xonly_pubkey \<Rightarrow> bytes \<Rightarrow> bool) \<Rightarrow> u8 \<Rightarrow> stack_item list \<Rightarrow> (bool \<times> stack_item list) option" where
  "opcode_step check opc (a # st) =
     (if opc = OP_IF then
        (case a of SNum i \<Rightarrow> if i = 1 then Some (False, st) else if i = 0 then Some (True, st) else None
                 | SBytes b \<Rightarrow> None)
      else if opc = OP_ENDIF then Some (False, a # st)
      else if opc = OP_DROP then Some (False, st)
      else if opc = OP_TRUE then Some (False, SNum 1 # a # st)
      else (case st of [] \<Rightarrow> None | b # r \<Rightarrow>
        if opc = OP_SWAP then Some (False, b # a # r)
        else if opc = OP_CHECKSIG then
          (case (a, b) of (SBytes k, SBytes sig) \<Rightarrow>
             if sig = [] then Some (False, SNum 0 # r)
             else if check k sig then Some (False, SNum 1 # r) else None
           | _ \<Rightarrow> None)
        else
          (case (a, b) of (SNum y, SNum x) \<Rightarrow>
             if \<not> script_num_ok x \<or> \<not> script_num_ok y then None
             else if opc = OP_ADD then Some (False, SNum (x + y) # r)
             else if opc = OP_GREATERTHANOREQUAL
               then Some (False, SNum (if y \<le> x then 1 else 0) # r)
             else None
           | _ \<Rightarrow> None)))"
| "opcode_step check opc [] =
     (if opc = OP_ENDIF then Some (False, []) else if opc = OP_TRUE then Some (False, [SNum 1]) else None)"

fun script_exec ::
  "(xonly_pubkey \<Rightarrow> bytes \<Rightarrow> bool) \<Rightarrow> bool \<Rightarrow> script \<Rightarrow> stack_item list \<Rightarrow> stack_item list option" where
  "script_exec check skip [] st = Some st"
| "script_exec check True (e # s) st = script_exec check (e \<noteq> PushOpcode OP_ENDIF) s st"
| "script_exec check False (e # s) st =
     (case e of
        PushOpcode opc \<Rightarrow>
          (case opcode_step check opc st of None \<Rightarrow> None
           | Some (skip, st') \<Rightarrow> script_exec check skip s st')
      | PushInt i \<Rightarrow> script_exec check False s (SNum i # st)
      | PushXOnlyKey k \<Rightarrow> script_exec check False s (SBytes k # st)
      | PushSlice d \<Rightarrow> script_exec check False s (SBytes d # st)
      | RawBytes d \<Rightarrow> None)"

text \<open>The power of the keys whose signature (in script order) is accepted.\<close>

definition signed_power ::
  "(xonly_pubkey \<Rightarrow> bytes \<Rightarrow> bool) \<Rightarrow> weighted_key list \<Rightarrow> bytes list \<Rightarrow> int" where
  "signed_power check keys sigs =
     sum_list (map (\<lambda>(kw, sig). if sig \<noteq> [] \<and> check (fst kw) sig then uint (snd kw) else 0)
       (zip keys sigs))"

section \<open>Facts on the script\<close>

lemmas opcode_defs = OP_SWAP_def OP_CHECKSIG_def OP_IF_def OP_ENDIF_def OP_ADD_def
  OP_GREATERTHANOREQUAL_def OP_DROP_def OP_TRUE_def

lemma exec_committee_key:
  "script_exec check False (push_committee_key kw @ s) (SNum acc # SBytes sig # r) =
     (if sig = [] then script_exec check False s (SNum acc # r)
      else if check (fst kw) sig \<and> script_num_ok acc \<and> script_num_ok (uint (snd kw))
      then script_exec check False s (SNum (acc + uint (snd kw)) # r) else None)"
  by (simp add: push_committee_key_def opcode_defs)

lemma exec_committee_keys_sound:
  assumes "script_exec check False (concat (map push_committee_key keys) @ s)
             (SNum acc # map SBytes sigs @ r) = Some out"
    and "length sigs = length keys"
  shows "script_exec check False s (SNum (acc + signed_power check keys sigs) # r) = Some out"
  using assms
proof (induction keys arbitrary: acc sigs)
  case Nil
  then show ?case by (simp add: signed_power_def)
next
  case (Cons kw keys)
  then obtain sig sigs' where sigs: "sigs = sig # sigs'" "length sigs' = length keys"
    by (cases sigs) auto
  show ?case
  proof (cases "sig = []")
    case True
    then show ?thesis
      using Cons.IH [of acc sigs'] Cons.prems sigs by (simp add: exec_committee_key signed_power_def)
  next
    case False
    then show ?thesis
      using Cons.IH [of "acc + uint (snd kw)" sigs'] Cons.prems sigs
      by (auto simp: exec_committee_key signed_power_def algebra_simps split: if_splits)
  qed
qed

lemma signed_power_Cons:
  "signed_power check (kw # keys) (sig # sigs) =
     (if sig \<noteq> [] \<and> check (fst kw) sig then uint (snd kw) else 0) + signed_power check keys sigs"
  by (simp add: signed_power_def)

lemma exec_committee_keys_complete:
  assumes "length sigs = length keys"
    and "\<And>kw sig. (kw, sig) \<in> set (zip keys sigs) \<Longrightarrow> sig = [] \<or> check (fst kw) sig"
    and "0 \<le> acc" and "acc + (\<Sum>kw\<leftarrow>keys. uint (snd kw)) < 2 ^ 31"
  shows "script_exec check False (concat (map push_committee_key keys) @ s)
           (SNum acc # map SBytes sigs @ r)
       = script_exec check False s (SNum (acc + signed_power check keys sigs) # r)"
  using assms
proof (induction keys arbitrary: acc sigs)
  case Nil
  then show ?case by (simp add: signed_power_def)
next
  case (Cons kw keys)
  then obtain sig sigs' where sigs: "sigs = sig # sigs'" "length sigs' = length keys"
    by (cases sigs) auto
  have valid: "sig = [] \<or> check (fst kw) sig" using Cons.prems(2) sigs by auto
  have rest: "\<And>kw sig. (kw, sig) \<in> set (zip keys sigs') \<Longrightarrow> sig = [] \<or> check (fst kw) sig"
    using Cons.prems(2) sigs by auto
  have nonneg: "0 \<le> uint (snd kw)" "0 \<le> (\<Sum>kw\<leftarrow>keys. uint (snd kw))"
    by (auto intro!: sum_list_nonneg)
  have bound: "acc + (uint (snd kw) + (\<Sum>kw\<leftarrow>keys. uint (snd kw))) < 2 ^ 31"
    using Cons.prems(4) by simp
  have num: "script_num_ok acc" "script_num_ok (uint (snd kw))"
    using Cons.prems(3) bound nonneg unfolding script_num_ok_def by linarith+
  have bounds: "acc + (\<Sum>kw\<leftarrow>keys. uint (snd kw)) < 2 ^ 31"
    "acc + uint (snd kw) + (\<Sum>kw\<leftarrow>keys. uint (snd kw)) < 2 ^ 31" "0 \<le> acc + uint (snd kw)"
    using Cons.prems(3) bound nonneg by linarith+
  show ?case
  proof (cases "sig = []")
    case True
    then show ?thesis
      using Cons.IH [OF sigs(2) rest Cons.prems(3) bounds(1)] sigs
      by (simp add: exec_committee_key signed_power_Cons)
  next
    case False
    then show ?thesis
      using Cons.IH [OF sigs(2) rest bounds(3,2)] sigs valid num
      by (simp add: exec_committee_key signed_power_Cons algebra_simps)
  qed
qed

lemma create_multisig_script_Inr:
  "create_multisig_script keys thr = Inr s \<longleftrightarrow>
     thr \<le> sum_list (map snd keys) \<and>
     s = PushInt 0 # concat (map push_committee_key (sort_committee_keys keys))
         @ [PushInt (uint thr), PushOpcode OP_GREATERTHANOREQUAL]"
  by (auto simp: create_multisig_script_def Let_def)

lemma exec_threshold:
  "script_exec check False [PushInt y, PushOpcode OP_GREATERTHANOREQUAL] (SNum x # r) =
     (if script_num_ok x \<and> script_num_ok y then Some (SNum (if y \<le> x then 1 else 0) # r) else None)"
  by (simp add: opcode_defs)

lemma length_sort_committee_keys [simp]: "length (sort_committee_keys ks) = length ks"
  by (simp add: sort_committee_keys_def)

lemma mset_sort_committee_keys [simp]: "mset (sort_committee_keys ks) = mset ks"
  by (simp add: sort_committee_keys_def)

lemma multisig_script_sound:
  assumes "create_multisig_script keys thr = Inr s" and "length sigs = length keys"
    and "script_exec check False s (map SBytes sigs) = Some [SNum 1]"
  shows "uint thr \<le> signed_power check (sort_committee_keys keys) sigs"
proof -
  let ?t = "[PushInt (uint thr), PushOpcode OP_GREATERTHANOREQUAL]"
  have "script_exec check False (concat (map push_committee_key (sort_committee_keys keys)) @ ?t)
          (SNum 0 # map SBytes sigs @ []) = Some [SNum 1]"
    using assms by (simp add: create_multisig_script_Inr)
  then have "script_exec check False ?t (SNum (0 + signed_power check (sort_committee_keys keys) sigs) # [])
      = Some [SNum 1]"
    by (rule exec_committee_keys_sound) (use assms(2) in simp)
  then show ?thesis by (auto simp only: exec_threshold split: if_splits)
qed

lemma sum_list_mset_eq:
  fixes f :: "'a \<Rightarrow> 'b::comm_monoid_add"
  shows "mset xs = mset ys \<Longrightarrow> sum_list (map f xs) = sum_list (map f ys)"
  by (metis mset_map sum_mset_sum_list)

lemma signed_power_bounds:
  "length sigs = length keys \<Longrightarrow>
   0 \<le> signed_power check keys sigs
   \<and> signed_power check keys sigs \<le> (\<Sum>kw\<leftarrow>keys. uint (snd kw))"
proof (induction keys arbitrary: sigs)
  case Nil
  then show ?case by (simp add: signed_power_def)
next
  case (Cons kw keys)
  then obtain sig sigs' where sigs: "sigs = sig # sigs'" "length sigs' = length keys"
    by (cases sigs) auto
  with Cons.IH [OF sigs(2)] show ?case
    by (auto simp: signed_power_Cons add_increasing add_mono)
qed

section \<open>Facts on power and threshold\<close>

lemma unat_multisig_threshold:
  "unat (multisig_threshold p) = (2 * unat p mod 2 ^ 32) div 3 + 1"
proof -
  have three: "unat (3 :: u32) = 3" and one: "unat (1 :: u32) = 1" by simp_all
  have "unat (p * 2) = 2 * unat p mod 2 ^ 32"
    by (simp add: unat_word_ariths mult.commute)
  then have d: "unat (p * 2 div 3) = 2 * unat p mod 2 ^ 32 div 3"
    by (simp add: unat_div three)
  moreover have "2 * unat p mod 2 ^ 32 div 3 + 1 < 2 ^ 32"
    by (simp add: div_less_dividend less_mult_imp_div_less)
  ultimately show ?thesis
    unfolding multisig_threshold_def by (simp add: unat_word_ariths)
qed

lemma collateral_to_power_Inr:
  "collateral_to_power c m = Inr p \<longleftrightarrow> m \<le> c \<and> unat p = min (unat c) (2 ^ 32 - 1) div 10000"
proof -
  let ?pw = "min c MAX_POWER div POWER_SCALE_FACTOR"
  have m: "unat (min c MAX_POWER) = min (unat c) 4294967295"
    by (simp add: min_def word_le_nat_alt MAX_POWER_def)
  then have pw: "unat ?pw = min (unat c) 4294967295 div 10000"
    by (simp add: unat_div POWER_SCALE_FACTOR_def)
  then have lt: "unat ?pw < 2 ^ 32" by simp
  then have "unat (ucast ?pw :: u32) = unat ?pw"
    by (simp add: unsigned_ucast_eq take_bit_nat_eq_self unsigned_of_nat)
  with pw lt show ?thesis
    by (auto simp: collateral_to_power_def Let_def word_unat_eq_iff not_less)
qed

lemma unat_sum_list:
  "unat (sum_list (map snd kws)) = (\<Sum>kw\<leftarrow>kws. unat (snd kw)) mod 2 ^ 32" for kws :: "weighted_key list"
  by (induction kws) (simp_all add: unat_word_ariths mod_simps)

lemma uint_sum_list_le:
  "uint (sum_list (map snd kws)) \<le> (\<Sum>kw\<leftarrow>kws. uint (snd kw))" for kws :: "weighted_key list"
proof (induction kws)
  case Nil
  then show ?case by simp
next
  case (Cons kw kws)
  have "uint (snd kw + sum_list (map snd kws)) \<le> uint (snd kw) + uint (sum_list (map snd kws))"
    by (rule uint_add_le)
  with Cons.IH show ?case by simp
qed

section \<open>Facts on coin selection\<close>

definition utxo_total :: "utxo list \<Rightarrow> nat" where
  "utxo_total us = (\<Sum>u\<leftarrow>us. unat (utxo_amount u))"

lemma utxo_total_simps [simp]:
  "utxo_total [] = 0"
  "utxo_total (u # us) = unat (utxo_amount u) + utxo_total us"
  "utxo_total (us @ vs) = utxo_total us + utxo_total vs"
  by (simp_all add: utxo_total_def)

lemma utxo_total_mset: "mset us = mset vs \<Longrightarrow> utxo_total us = utxo_total vs"
  unfolding utxo_total_def by (rule sum_list_mset_eq)

lemma amount_add_Inr: "amount_add a b = Inr c \<longleftrightarrow> unat a + unat b = unat c"
  by (simp add: amount_add_def ok_or_eq word_checked_add_Some)

lemma amount_add_Inl: "amount_add a b = Inl e \<longleftrightarrow> \<not> unat a + unat b < 2 ^ 64 \<and> e = MultisigPanic ''Amount overflow''"
  by (auto simp: amount_add_def ok_or_eq word_checked_add_def)

lemma expect_fee_Inr: "expect_fee X r w = Inr f \<longleftrightarrow> fee_wu X r w = Some f"
  by (simp add: expect_fee_def ok_or_eq)

lemma amount_sum_Inr: "amount_sum xs = Inr s \<Longrightarrow> unat s = sum_list (map unat xs)"
  by (simp add: amount_sum_def ok_or_eq word_checked_sum_Some)

lemma select_greedy_Inr:
  assumes "select_greedy X target r iw us a w = Inr (sel, a', w', rest)"
  shows "us = sel @ rest \<and> unat a' = unat a + utxo_total sel \<and> w' = w + of_nat (length sel) * iw
     \<and> (\<exists>fee. fee_wu X r w' = Some fee \<and> unat target + unat fee \<le> unat a')"
  using assms
proof (induction us arbitrary: a w sel)
  case Nil
  then show ?case by simp
next
  case (Cons u us)
  then obtain b fee need where b: "unat a + unat (utxo_amount u) = unat b"
    and fee: "fee_wu X r (w + iw) = Some fee" and need: "unat target + unat fee = unat need"
    and r: "(if need \<le> b then Inr ([u], b, w + iw, us)
        else res_bind (select_greedy X target r iw us b (w + iw))
              (\<lambda>(selected, a, w, rest). Inr (u # selected, a, w, rest))) = Inr (sel, a', w', rest)"
    by (auto simp: res_simps amount_add_Inr expect_fee_Inr Let_def)
  show ?case
  proof (cases "need \<le> b")
    case True
    with r b fee need show ?thesis by (auto simp: word_le_nat_alt)
  next
    case False
    with r obtain sel' where s: "select_greedy X target r iw us b (w + iw) = Inr (sel', a', w', rest)"
      and "sel = u # sel'"
      by (auto simp: res_simps)
    then show ?thesis using Cons.IH [OF s] b by (auto simp: algebra_simps)
  qed
qed

lemma select_greedy_Inl:
  assumes "select_greedy X target r iw us a w = Inl (CoinSelectionFailed m)"
  shows "us = [] \<or> (\<exists>fee. fee_wu X r (w + of_nat (length us) * iw) = Some fee
           \<and> unat a + utxo_total us < unat target + unat fee)"
  using assms
proof (induction us arbitrary: a w)
  case Nil
  then show ?case by simp
next
  case (Cons u us)
  then obtain b fee need where b: "unat a + unat (utxo_amount u) = unat b"
    and fee: "fee_wu X r (w + iw) = Some fee" and need: "unat target + unat fee = unat need"
    and r: "\<not> need \<le> b" "select_greedy X target r iw us b (w + iw) = Inl (CoinSelectionFailed m)"
    by (auto simp: res_simps amount_add_Inr amount_add_Inl expect_fee_Inr expect_fee_def Let_def
        split: if_splits)
  show ?case
  proof (cases "us = []")
    case True
    with r(1) b fee need show ?thesis by (simp add: word_le_nat_alt)
  next
    case False
    with Cons.IH [OF r(2)] b show ?thesis by (auto simp: algebra_simps)
  qed
qed

lemma select_consolidate_Inr:
  assumes "select_consolidate X target r iw dust us a w = Inr (swept, a', w')"
  shows "prefix swept us \<and> unat a' = unat a + utxo_total swept \<and> w' = w + of_nat (length swept) * iw
     \<and> (swept \<noteq> [] \<longrightarrow>
          (\<exists>fee. fee_wu X r w' = Some fee \<and> unat target + unat fee + unat dust \<le> unat a'))"
  using assms
proof (induction us arbitrary: a w swept)
  case Nil
  then show ?case by simp
next
  case (Cons u us)
  from Cons.prems obtain b fee s need where steps: "amount_add a (utxo_amount u) = Inr b"
      "expect_fee X r (w + iw) = Inr fee" "amount_add target fee = Inr s" "amount_add s dust = Inr need"
    and r: "b < need \<and> swept = [] \<and> a' = a \<and> w' = w \<or> \<not> b < need \<and>
        (\<exists>sw. select_consolidate X target r iw dust us b (w + iw) = Inr (sw, a', w') \<and> swept = u # sw)"
    by (auto simp: res_simps Let_def split: if_splits)
  note steps = steps [unfolded amount_add_Inr expect_fee_Inr]
  show ?case
  proof (cases "b < need")
    case True
    with r show ?thesis by simp
  next
    case False
    with r obtain sw where sw: "select_consolidate X target r iw dust us b (w + iw) = Inr (sw, a', w')"
      and swept: "swept = u # sw"
      by blast
    from False steps have le: "unat target + unat fee + unat dust \<le> unat b"
      by (simp add: word_less_nat_alt)
    show ?thesis
      using Cons.IH [OF sw] swept steps le by (cases "sw = []") (auto simp: algebra_simps)
  qed
qed

lemma select_consolidate_Inl:
  "select_consolidate X target r iw dust us a w = Inl e \<Longrightarrow> \<exists>m. e = MultisigPanic m"
proof (induction us arbitrary: a w)
  case Nil
  then show ?case by simp
next
  case (Cons u us)
  from Cons.prems show ?case
    by (auto simp: res_simps amount_add_Inl expect_fee_def Let_def split: if_splits dest: Cons.IH)
qed

lemma mset_sort_utxos [simp]: "mset (sort_utxos us) = mset us"
  by (simp add: sort_utxos_def)

lemma length_sort_utxos [simp]: "length (sort_utxos us) = length us"
  by (simp add: sort_utxos_def)

lemma sort_utxos_cong:
  assumes "mset us = mset vs" and "inj_on (\<lambda>u. (utxo_txid u, utxo_vout u)) (set us)"
  shows "sort_utxos us = sort_utxos vs"
proof -
  have "inj_on utxo_key (set us)" using assms(2) by (auto simp: inj_on_def utxo_key_def)
  then show ?thesis unfolding sort_utxos_def using assms(1) by (intro sort_key_inj_key_eq) simp_all
qed

lemma sort_utxos_Nil [simp]: "sort_utxos us = [] \<longleftrightarrow> us = []"
  by (metis length_0_conv length_sort_utxos)

lemma select_coins_Inr:
  assumes "select_coins X target utxos r bw iw ca lim = Inr (sel, change)"
  obtains fee left where "mset sel \<subseteq># mset utxos"
    and "fee_wu X r (bw + of_nat (length sel) * iw) = Some fee"
    and "utxo_total sel = unat target + unat fee + unat left"
    and "change = (if minimal_non_dust X (address_script X ca) < left
           then Some \<lparr> txo_value = left, txo_script = address_script X ca \<rparr> else None)"
proof -
  let ?d = "minimal_non_dust X (address_script X ca)"
  from assms obtain s1 a1 w1 rest s2 a2 w2 fee rem left where
    g: "select_greedy X target r iw (sort_utxos utxos) 0 bw = Inr (s1, a1, w1, rest)"
    and c: "select_consolidate X target r iw ?d (take lim (rev rest)) a1 w1 = Inr (s2, a2, w2)"
    and fee: "expect_fee X r w2 = Inr fee" and rem: "word_checked_sub a2 target = Some rem"
    and left: "word_checked_sub rem fee = Some left" and sel: "sel = s1 @ s2"
    and change: "change = (if ?d < left
           then Some \<lparr> txo_value = left, txo_script = address_script X ca \<rparr> else None)"
    unfolding select_coins_def Let_def
    by (auto simp: res_simps Option.bind_eq_Some_conv split: if_splits)
  note G = select_greedy_Inr [OF g] and C = select_consolidate_Inr [OF c]
  have "mset utxos = mset s1 + mset rest"
    using G by (metis mset_append mset_sort_utxos)
  moreover have "mset s2 \<subseteq># mset rest"
  proof -
    from C obtain z where "take lim (rev rest) = s2 @ z" by (auto simp: prefix_def)
    then have "rev rest = s2 @ z @ drop lim (rev rest)"
      by (metis append.assoc append_take_drop_id)
    then have "mset rest = mset s2 + mset (z @ drop lim (rev rest))"
      by (metis mset_append mset_rev)
    then show ?thesis by simp
  qed
  ultimately have "mset sel \<subseteq># mset utxos" using sel by simp
  moreover have "fee_wu X r (bw + of_nat (length sel) * iw) = Some fee"
    using fee G C sel by (simp add: expect_fee_Inr algebra_simps)
  moreover have "utxo_total sel = unat target + unat fee + unat left"
    using G C rem left sel by (simp add: word_checked_sub_Some)
  ultimately show ?thesis using change that by blast
qed

lemma select_coins_Inl:
  assumes "select_coins X target utxos r bw iw ca lim = Inl (CoinSelectionFailed m)"
  shows "utxos = [] \<or> (\<exists>fee. fee_wu X r (bw + of_nat (length utxos) * iw) = Some fee
           \<and> utxo_total utxos < unat target + unat fee)"
proof -
  let ?d = "minimal_non_dust X (address_script X ca)"
  have "select_greedy X target r iw (sort_utxos utxos) 0 bw = Inl (CoinSelectionFailed m)"
  proof (rule ccontr)
    assume "\<not> ?thesis"
    with assms obtain s1 a1 w1 rest s2 a2 w2 fee where
      g: "select_greedy X target r iw (sort_utxos utxos) 0 bw = Inr (s1, a1, w1, rest)"
      and c: "select_consolidate X target r iw ?d (take lim (rev rest)) a1 w1 = Inr (s2, a2, w2)"
      and fee: "fee_wu X r w2 = Some fee"
      and none: "Option.bind (word_checked_sub a2 target) (\<lambda>rem. word_checked_sub rem fee) = None"
      unfolding select_coins_def Let_def
      by (auto simp: res_simps expect_fee_Inr expect_fee_def split: if_splits
          dest: select_consolidate_Inl)
    have "unat target + unat fee \<le> unat a2"
      using select_greedy_Inr [OF g] select_consolidate_Inr [OF c] fee
      by (cases "s2 = []") auto
    with none show False
      by (cases "word_checked_sub a2 target")
        (auto simp: word_checked_sub_None word_checked_sub_Some word_less_nat_alt)
  qed
  from select_greedy_Inl [OF this] show ?thesis
    using utxo_total_mset [OF mset_sort_utxos, of utxos] by simp
qed

lemma change_value:
  "(\<Sum>out\<leftarrow>(case (if d < left then Some \<lparr> txo_value = left, txo_script = s \<rparr> else None) of
       None \<Rightarrow> [] | Some c \<Rightarrow> [c]). unat (txo_value out)) \<le> unat left"
  by simp

lemma change_rest:
  "unat left - (\<Sum>out\<leftarrow>(case (if d < left then Some \<lparr> txo_value = left, txo_script = s \<rparr> else None) of
       None \<Rightarrow> [] | Some c \<Rightarrow> [c]). unat (txo_value out)) \<le> unat d"
  by (simp add: word_less_nat_alt)

text \<open>The weight for which the fee of a spend is computed: with a change output and full witnesses.\<close>

definition built_weight :: "ext \<Rightarrow> nat \<Rightarrow> btc_address \<Rightarrow> tx_out list \<Rightarrow> bool \<Rightarrow> utxo list \<Rightarrow> u64" where
  "built_weight X ws ca tx_outs exhaust spent =
     (if exhaust
      then tx_weight X \<lparr> lock_time = 0, inputs = map spend_input spent,
               outputs = tx_outs @ [\<lparr> txo_value = 1, txo_script = address_script X ca \<rparr>] \<rparr>
             + of_nat (ws * length spent)
      else tx_weight X \<lparr> lock_time = 0, inputs = [],
               outputs = tx_outs @ [\<lparr> txo_value = minimal_non_dust X (address_script X ca),
                 txo_script = address_script X ca \<rparr>] \<rparr>
             + of_nat (length spent) * (of_nat (4 * txin_base_size X) + of_nat ws))"

lemma spend_select_Inr:
  assumes "spend_select X ws ca unspent tx_outs r lim = Inr tx"
  shows "\<exists>spent change fee paid. mset spent \<subseteq># mset unspent
    \<and> inputs tx = map spend_input spent
    \<and> outputs tx = tx_outs @ change \<and> length change \<le> 1
    \<and> (\<forall>c \<in> set change. txo_script c = address_script X ca)
    \<and> fee_wu X r (built_weight X ws ca tx_outs False spent) = Some fee
    \<and> unat fee \<le> paid \<and> paid \<le> unat fee + unat (minimal_non_dust X (address_script X ca))
    \<and> utxo_total spent = (\<Sum>out\<leftarrow>outputs tx. unat (txo_value out)) + paid"
proof -
  define iw where "iw = (of_nat (4 * txin_base_size X) + of_nat ws :: u64)"
  define bw where "bw = tx_weight X \<lparr> lock_time = 0, inputs = [],
      outputs = tx_outs @ [\<lparr> txo_value = minimal_non_dust X (address_script X ca),
        txo_script = address_script X ca \<rparr>] \<rparr>"
  from assms obtain target sel change where
    t: "amount_sum (map txo_value tx_outs) = Inr target"
    and s: "select_coins X target unspent r bw iw ca lim = Inr (sel, change)"
    and tx: "tx = \<lparr> lock_time = 0, inputs = map spend_input sel,
        outputs = tx_outs @ (case change of None \<Rightarrow> [] | Some c \<Rightarrow> [c]) \<rparr>"
    unfolding spend_select_def Let_def iw_def bw_def by (auto simp: res_simps)
  have bwt: "bw + of_nat (length sel) * iw = built_weight X ws ca tx_outs False sel"
    by (simp add: built_weight_def bw_def iw_def)
  from s obtain fee left where S: "mset sel \<subseteq># mset unspent"
      "fee_wu X r (bw + of_nat (length sel) * iw) = Some fee"
      "utxo_total sel = unat target + unat fee + unat left"
    and ch: "change = (if minimal_non_dust X (address_script X ca) < left
           then Some \<lparr> txo_value = left, txo_script = address_script X ca \<rparr> else None)"
    by (rule select_coins_Inr)
  let ?change = "case change of None \<Rightarrow> [] | Some c \<Rightarrow> [c]"
  have "unat target = (\<Sum>out\<leftarrow>tx_outs. unat (txo_value out))"
    using amount_sum_Inr [OF t] by (simp add: o_def)
  moreover have "(\<Sum>out\<leftarrow>?change. unat (txo_value out)) \<le> unat left"
    unfolding ch by (rule change_value)
  ultimately have "utxo_total sel = (\<Sum>out\<leftarrow>outputs tx. unat (txo_value out))
      + (unat fee + (unat left - (\<Sum>out\<leftarrow>?change. unat (txo_value out))))"
    using S(3) tx by simp
  moreover have "length ?change \<le> 1" "\<forall>c \<in> set ?change. txo_script c = address_script X ca"
    unfolding ch by simp_all
  moreover have "unat left - (\<Sum>out\<leftarrow>?change. unat (txo_value out)) \<le> unat (minimal_non_dust X (address_script X ca))"
    unfolding ch by (rule change_rest)
  ultimately show ?thesis using S(1,2) tx unfolding bwt
    by (intro exI [of _ sel] exI [of _ ?change] exI [of _ fee]
        exI [of _ "unat fee + (unat left - (\<Sum>out\<leftarrow>?change. unat (txo_value out)))"]) simp
qed

lemma spend_exhaust_change:
  assumes "spend_exhaust X ws ca unspent tx_outs r = Inr tx"
  shows "\<exists>fee left. fee_wu X r (built_weight X ws ca tx_outs True (sort_utxos unspent)) = Some fee
     \<and> utxo_total unspent = (\<Sum>out\<leftarrow>tx_outs. unat (txo_value out)) + unat fee + unat left
     \<and> inputs tx = map spend_input (sort_utxos unspent)
     \<and> outputs tx = tx_outs @ (if minimal_non_dust X (address_script X ca) < left
          then [\<lparr> txo_value = left, txo_script = address_script X ca \<rparr>] else [])"
proof -
  let ?d = "minimal_non_dust X (address_script X ca)"
  let ?tx = "\<lparr> lock_time = 0, inputs = map spend_input (sort_utxos unspent), outputs = tx_outs \<rparr>"
  define weight where "weight = tx_weight X (?tx\<lparr> outputs := tx_outs @
      [\<lparr> txo_value = 1, txo_script = address_script X ca \<rparr>] \<rparr>) + of_nat (ws * length unspent)"
  from assms obtain total_in total_out fee where
    i: "amount_sum (map utxo_amount unspent) = Inr total_in"
    and o: "amount_sum (map txo_value tx_outs) = Inr total_out"
    and fee: "expect_fee X r weight = Inr fee"
    and rest: "(case word_checked_sub total_in total_out of
         None \<Rightarrow> Inl (CoinSelectionFailed ''Insufficient funds to cover outputs'')
       | Some remainder \<Rightarrow>
         (case word_checked_sub remainder fee of
            None \<Rightarrow> Inl (CoinSelectionFailed ''Insufficient funds to cover outputs and fees'')
          | Some remaining \<Rightarrow>
              if ?d < remaining
              then Inr (?tx\<lparr> outputs := tx_outs @ [\<lparr> txo_value = remaining, txo_script = address_script X ca \<rparr>] \<rparr>)
              else Inr ?tx)) = Inr tx"
    unfolding spend_exhaust_def Let_def weight_def [symmetric]
    by (simp add: res_simps split: if_splits) (elim exE conjE, blast)
  from rest obtain rem left where rem: "word_checked_sub total_in total_out = Some rem"
    and left: "word_checked_sub rem fee = Some left"
    and tx: "inputs tx = map spend_input (sort_utxos unspent)"
      "outputs tx = tx_outs @ (if ?d < left then [\<lparr> txo_value = left, txo_script = address_script X ca \<rparr>] else [])"
    by (auto split: if_splits option.splits)
  have "unat total_in = utxo_total unspent" using amount_sum_Inr [OF i] by (simp add: o_def utxo_total_def)
  moreover have "unat total_out = (\<Sum>out\<leftarrow>tx_outs. unat (txo_value out))"
    using amount_sum_Inr [OF o] by (simp add: o_def)
  ultimately have "utxo_total unspent = (\<Sum>out\<leftarrow>tx_outs. unat (txo_value out)) + unat fee + unat left"
    using rem left by (simp add: word_checked_sub_Some)
  moreover have "weight = built_weight X ws ca tx_outs True (sort_utxos unspent)"
    by (simp add: weight_def built_weight_def sort_utxos_def)
  ultimately show ?thesis using fee tx by (auto simp: expect_fee_Inr)
qed

lemma spend_exhaust_Inr:
  assumes "spend_exhaust X ws ca unspent tx_outs r = Inr tx"
  shows "\<exists>spent change fee paid. mset spent \<subseteq># mset unspent \<and> mset spent = mset unspent
    \<and> inputs tx = map spend_input spent
    \<and> outputs tx = tx_outs @ change \<and> length change \<le> 1
    \<and> (\<forall>c \<in> set change. txo_script c = address_script X ca)
    \<and> fee_wu X r (built_weight X ws ca tx_outs True spent) = Some fee
    \<and> unat fee \<le> paid \<and> paid \<le> unat fee + unat (minimal_non_dust X (address_script X ca))
    \<and> utxo_total spent = (\<Sum>out\<leftarrow>outputs tx. unat (txo_value out)) + paid"
proof -
  let ?d = "minimal_non_dust X (address_script X ca)"
  obtain fee left where fee: "fee_wu X r (built_weight X ws ca tx_outs True (sort_utxos unspent)) = Some fee"
    and sum: "utxo_total unspent = (\<Sum>out\<leftarrow>tx_outs. unat (txo_value out)) + unat fee + unat left"
    and tx: "inputs tx = map spend_input (sort_utxos unspent)"
      "outputs tx = tx_outs @ (if ?d < left then [\<lparr> txo_value = left, txo_script = address_script X ca \<rparr>] else [])"
    using spend_exhaust_change [OF assms] by blast
  have "utxo_total (sort_utxos unspent) = utxo_total unspent" by (rule utxo_total_mset) simp
  with fee sum tx show ?thesis
    by (intro exI [of _ "sort_utxos unspent"]
        exI [of _ "if ?d < left then [\<lparr> txo_value = left, txo_script = address_script X ca \<rparr>] else []"] exI [of _ fee]
        exI [of _ "unat fee + (if ?d < left then 0 else unat left)"])
      (auto simp: word_less_nat_alt)
qed

lemma quorum_arith:
  fixes a b u i t :: nat
  shows "a + b = u + i \<Longrightarrow> u \<le> t \<Longrightarrow> thr \<le> a \<Longrightarrow> thr \<le> b \<Longrightarrow> thr = d + 1 \<Longrightarrow> 2 * (d + 1) \<le> t + i"
  by presburger

lemma construct_spend_Inr:
  assumes "construct_spend_unsigned_transaction X keys thr ca unspent exhaust tx_outs r lim = Inr tx"
  shows "\<exists>spent change fee paid.
      mset spent \<subseteq># mset unspent \<and> (exhaust \<longrightarrow> mset spent = mset unspent)
    \<and> inputs tx = map spend_input spent
    \<and> outputs tx = tx_outs @ change \<and> length change \<le> 1
    \<and> (\<forall>c \<in> set change. txo_script c = address_script X ca)
    \<and> fee_wu X r (built_weight X (multisig_spend_max_witness_size X keys thr) ca tx_outs exhaust spent) = Some fee
    \<and> unat fee \<le> paid \<and> paid \<le> unat fee + unat (minimal_non_dust X (address_script X ca))
    \<and> utxo_total spent = (\<Sum>out\<leftarrow>outputs tx. unat (txo_value out)) + paid"
proof (cases exhaust)
  case True
  with assms have "spend_exhaust X (multisig_spend_max_witness_size X keys thr) ca unspent tx_outs r = Inr tx"
    by (simp add: construct_spend_unsigned_transaction_def)
  from spend_exhaust_Inr [OF this] True show ?thesis by simp
next
  case False
  with assms have "spend_select X (multisig_spend_max_witness_size X keys thr) ca unspent tx_outs r lim = Inr tx"
    by (simp add: construct_spend_unsigned_transaction_def)
  from spend_select_Inr [OF this] False show ?thesis by simp
qed

section \<open>Properties\<close>

lemma multisig_script_outcome:
  assumes "create_multisig_script keys thr = Inr s" and "length sigs = length keys"
    and "\<forall>(kw, sig) \<in> set (zip (sort_committee_keys keys) sigs). sig = [] \<or> check (fst kw) sig"
    and "(\<Sum>kw\<leftarrow>keys. uint (snd kw)) < 2 ^ 31"
  shows "script_exec check False s (map SBytes sigs)
       = Some [SNum (if uint thr \<le> signed_power check (sort_committee_keys keys) sigs then 1 else 0)]"
proof -
  let ?ks = "sort_committee_keys keys"
  have s: "s = PushInt 0 # concat (map push_committee_key ?ks)
             @ [PushInt (uint thr), PushOpcode OP_GREATERTHANOREQUAL]"
    and thr: "thr \<le> sum_list (map snd keys)"
    using assms(1) by (simp_all add: create_multisig_script_Inr)
  have total: "(\<Sum>kw\<leftarrow>?ks. uint (snd kw)) = (\<Sum>kw\<leftarrow>keys. uint (snd kw))"
    by (rule sum_list_mset_eq) simp
  have "uint thr \<le> uint (sum_list (map snd keys))"
    using thr by (simp add: word_le_def)
  also have "\<dots> \<le> (\<Sum>kw\<leftarrow>keys. uint (snd kw))"
    by (rule uint_sum_list_le)
  finally have thr31: "script_num_ok (uint thr)"
    using assms(4) by (simp add: script_num_ok_def)
  have signed: "script_num_ok (signed_power check ?ks sigs)"
    using signed_power_bounds [of sigs ?ks check] assms(2,4) total by (simp add: script_num_ok_def)
  have valid: "\<And>kw sig. (kw, sig) \<in> set (zip ?ks sigs) \<Longrightarrow> sig = [] \<or> check (fst kw) sig"
    using assms(3) by blast
  have "script_exec check False s (map SBytes sigs)
      = script_exec check False [PushInt (uint thr), PushOpcode OP_GREATERTHANOREQUAL]
          (SNum (0 + signed_power check ?ks sigs) # [])"
    using exec_committee_keys_complete [of sigs ?ks check, OF _ valid, of 0 _ "[]"] assms(2,4) total s
    by simp
  then show ?thesis using thr31 signed by (simp only: exec_threshold) simp
qed

text \<open>
  C5. The tapscript built for a committee accepts exactly when the validators whose signatures are
  supplied hold at least the threshold of power: for one witness element per key (in the order of
  the sorted keys, empty or a valid signature) and a total power below \<open>2^31\<close>, the script leaves
  1 or 0 on the stack according to that comparison.
\<close>

theorem multisig_script_meaning:
  assumes "create_multisig_script keys thr = Inr s" and "length sigs = length keys"
    and "\<forall>(kw, sig) \<in> set (zip (sort_committee_keys keys) sigs). sig = [] \<or> check (fst kw) sig"
    and "(\<Sum>kw\<leftarrow>keys. uint (snd kw)) < 2 ^ 31"
  shows "script_exec check False s (map SBytes sigs)
       = Some [SNum (if uint thr \<le> signed_power check (sort_committee_keys keys) sigs then 1 else 0)]"
  using assms by (rule multisig_script_outcome)

theorem multisig_script_meaning_witness:
  "script_exec (\<lambda>k sig. sig = k) False
     [PushInt 0, PushOpcode OP_SWAP, PushXOnlyKey [1], PushOpcode OP_CHECKSIG, PushOpcode OP_IF,
      PushInt 5, PushOpcode OP_ADD, PushOpcode OP_ENDIF, PushOpcode OP_SWAP, PushXOnlyKey [2],
      PushOpcode OP_CHECKSIG, PushOpcode OP_IF, PushInt 3, PushOpcode OP_ADD, PushOpcode OP_ENDIF,
      PushInt 6, PushOpcode OP_GREATERTHANOREQUAL] (map SBytes [[1], []]) = Some [SNum 0]"
proof -
  have "create_multisig_script [([2], 3), ([1], 5)] 6 = Inr
     [PushInt 0, PushOpcode OP_SWAP, PushXOnlyKey [1], PushOpcode OP_CHECKSIG, PushOpcode OP_IF,
      PushInt 5, PushOpcode OP_ADD, PushOpcode OP_ENDIF, PushOpcode OP_SWAP, PushXOnlyKey [2],
      PushOpcode OP_CHECKSIG, PushOpcode OP_IF, PushInt 3, PushOpcode OP_ADD, PushOpcode OP_ENDIF,
      PushInt 6, PushOpcode OP_GREATERTHANOREQUAL]"
    by (simp add: create_multisig_script_def sort_committee_keys_def push_committee_key_def)
  from multisig_script_meaning [OF this, of "[[1], []]" "\<lambda>k sig. sig = k"] show ?thesis
    by (simp add: sort_committee_keys_def signed_power_def del: script_exec.simps)
qed

text \<open>
  C6. The threshold of a committee with positive total power below \<open>2^31\<close> is never above the total power, so the
  whole committee reaches it; it is above two thirds of the total power; and any two groups of validators
  that each reach it share more than a third of the total power.
\<close>

theorem multisig_quorum_intersection:
  fixes keys :: "weighted_key list"
  assumes "distinct (map fst keys)" and "total_power = (\<Sum>kw\<leftarrow>keys. unat (snd kw))"
    and "0 < total_power" and "total_power < 2 ^ 31"
  shows "unat (multisig_threshold (sum_list (map snd keys))) \<le> total_power
       \<and> 2 * total_power < 3 * unat (multisig_threshold (sum_list (map snd keys)))
       \<and> (\<forall>A B. A \<subseteq> set keys \<longrightarrow> B \<subseteq> set keys
            \<longrightarrow> unat (multisig_threshold (sum_list (map snd keys))) \<le> (\<Sum>kw\<in>A. unat (snd kw))
            \<longrightarrow> unat (multisig_threshold (sum_list (map snd keys))) \<le> (\<Sum>kw\<in>B. unat (snd kw))
            \<longrightarrow> total_power < 3 * (\<Sum>kw\<in>A \<inter> B. unat (snd kw)))"
proof -
  let ?w = "\<lambda>S. \<Sum>kw\<in>S. unat (snd kw)" and ?p = "sum_list (map snd keys)"
  have p: "unat ?p = total_power"
    using unat_sum_list [of keys] assms(2,4) by simp
  define d where "d = 2 * total_power div 3"
  have thr: "unat (multisig_threshold ?p) = d + 1"
    using assms(4) p by (simp add: unat_multisig_threshold d_def)
  have bounds: "2 * total_power < 3 * (d + 1)" "d + 1 \<le> total_power"
    using assms(3) unfolding d_def by presburger+
  have set: "?w (set keys) = total_power"
    using assms(1,2) by (simp add: sum_list_distinct_conv_sum_set distinct_map)
  have "total_power < 3 * ?w (A \<inter> B)"
    if sub: "A \<subseteq> set keys" "B \<subseteq> set keys" and reach: "d + 1 \<le> ?w A" "d + 1 \<le> ?w B" for A B
  proof -
    have "finite A" "finite B" using sub by (auto intro: finite_subset)
    then have both: "?w A + ?w B = ?w (A \<union> B) + ?w (A \<inter> B)" by (rule sum.union_inter [symmetric])
    have "?w (A \<union> B) \<le> total_power"
      unfolding set [symmetric] using sub by (intro sum_mono2) auto
    from quorum_arith [OF both this reach refl]
    have "2 * (d + 1) \<le> total_power + ?w (A \<inter> B)" .
    then show ?thesis using bounds(1) by presburger
  qed
  then show ?thesis using bounds unfolding thr by blast
qed

theorem multisig_quorum_intersection_witness:
  "unat (multisig_threshold 3) \<le> 3 \<and> 2 * 3 < 3 * unat (multisig_threshold 3) \<and>
   (3::nat) < 3 * (\<Sum>kw\<in>{([1::u8], 1::u32), ([2], 2)} \<inter> {([1], 1), ([2], 2)}. unat (snd kw))"
proof -
  let ?keys = "[([1::u8], 1::u32), ([2], 2)]"
  have t: "sum_list (map snd ?keys) = 3" "unat (multisig_threshold 3) = 3" by (simp_all add: multisig_threshold_def)
  have "(3 :: nat) = (\<Sum>kw\<leftarrow>?keys. unat (snd kw))" by simp
  from multisig_quorum_intersection [OF _ this, unfolded t]
  have q: "\<forall>A B. A \<subseteq> set ?keys \<longrightarrow> B \<subseteq> set ?keys \<longrightarrow> 3 \<le> (\<Sum>kw\<in>A. unat (snd kw)) \<longrightarrow> 3 \<le> (\<Sum>kw\<in>B. unat (snd kw))
      \<longrightarrow> 3 < 3 * (\<Sum>kw\<in>A \<inter> B. unat (snd kw))" by simp
  then show ?thesis using q [rule_format, of "{([1], 1), ([2], 2)}" "{([1], 1), ([2], 2)}"] t(2) by simp
qed

text \<open>
  Coin selection returns a sub-multiset of the offered outputs whose total is exactly the target,
  the fee of a transaction with that many inputs and the remainder; the remainder is returned as a
  change output to the change address when it exceeds the dust limit and is left to the fee otherwise.
\<close>

theorem select_coins_balanced:
  assumes "select_coins X target utxos r bw iw ca lim = Inr (sel, change)"
  shows "mset sel \<subseteq># mset utxos \<and>
     (\<exists>fee left. fee_wu X r (bw + of_nat (length sel) * iw) = Some fee
       \<and> utxo_total sel = unat target + unat fee + unat left
       \<and> change = (if minimal_non_dust X (address_script X ca) < left
            then Some \<lparr> txo_value = left, txo_script = address_script X ca \<rparr> else None))"
  using assms by (rule select_coins_Inr) blast

definition demo_utxos :: "utxo list" where
  "demo_utxos = [\<lparr> utxo_txid = [1], utxo_vout = 0, utxo_amount = 400, utxo_script = [] \<rparr>,
     \<lparr> utxo_txid = [2], utxo_vout = 1, utxo_amount = 9000, utxo_script = [] \<rparr>]"

theorem select_coins_balanced_witness:
  "mset (rev demo_utxos) \<subseteq># mset demo_utxos \<and>
     (\<exists>fee left. fee_wu demo_ext 1000 (100 + of_nat 2 * 50) = Some fee
       \<and> utxo_total (rev demo_utxos) = unat (5000 :: amount) + unat fee + unat left
       \<and> Some \<lparr> txo_value = 4200, txo_script = address_script demo_ext ''bcrt1p'' \<rparr>
         = (if minimal_non_dust demo_ext (address_script demo_ext ''bcrt1p'') < left
            then Some \<lparr> txo_value = left, txo_script = address_script demo_ext ''bcrt1p'' \<rparr> else None))"
proof -
  have "select_coins demo_ext 5000 demo_utxos 1000 100 50 ''bcrt1p'' 5
      = Inr (rev demo_utxos, Some \<lparr> txo_value = 4200, txo_script = address_script demo_ext ''bcrt1p'' \<rparr>)"
    by (simp add: demo_utxos_def select_coins_def sort_utxos_def utxo_key_def amount_add_def
        word_checked_add_def word_checked_sub_def expect_fee_def demo_ext_def)
  from select_coins_balanced [OF this] show ?thesis by (simp add: demo_utxos_def)
qed

text \<open>
  Coin selection fails only for lack of funds: an error that is not a panic means that all the
  offered outputs together do not cover the target and the fee of spending all of them.  In
  particular the consolidation pass never turns a payable request into an error.
\<close>

theorem select_coins_fails_only_without_funds:
  assumes "select_coins X target utxos r bw iw ca lim = Inl (CoinSelectionFailed m)"
  shows "utxos = [] \<or> (\<exists>fee. fee_wu X r (bw + of_nat (length utxos) * iw) = Some fee
           \<and> utxo_total utxos < unat target + unat fee)"
  using assms by (rule select_coins_Inl)

theorem select_coins_fails_only_without_funds_witness:
  "demo_utxos = [] \<or> (\<exists>fee. fee_wu demo_ext 1000 (100 + of_nat (length demo_utxos) * 50) = Some fee
           \<and> utxo_total demo_utxos < unat (9300 :: amount) + unat fee)"
proof -
  have "select_coins demo_ext 9300 demo_utxos 1000 100 50 ''bcrt1p'' 5
      = Inl (CoinSelectionFailed ''Insufficient funds'')"
    by (simp add: demo_utxos_def select_coins_def sort_utxos_def utxo_key_def amount_add_def
        word_checked_add_def word_checked_sub_def expect_fee_def demo_ext_def)
  then show ?thesis by (rule select_coins_fails_only_without_funds)
qed

text \<open>
  The selection depends on the set of unspent outputs and not on the order in which the node lists
  them, so that all validators build the same transaction.
\<close>

theorem select_coins_order_independent:
  assumes "mset us = mset vs" and "inj_on (\<lambda>u. (utxo_txid u, utxo_vout u)) (set us)"
  shows "select_coins X target us r bw iw ca lim = select_coins X target vs r bw iw ca lim"
  using sort_utxos_cong [OF assms] by (simp add: select_coins_def)

theorem select_coins_order_independent_witness:
  "select_coins demo_ext 5000 demo_utxos 1000 100 50 ''bcrt1p'' 5
     = select_coins demo_ext 5000 (rev demo_utxos) 1000 100 50 ''bcrt1p'' 5"
  by (rule select_coins_order_independent) (simp_all add: demo_utxos_def)

text \<open>
  C7. A constructed spend keeps the requested outputs in front, adds at most one change output to the
  committee's own address, spends each offered output at most once, and pays out exactly what it
  spends less a fee that is at least the fee of the weight it was built for and exceeds it by no more
  than the dust limit.
\<close>

theorem construct_spend_conserves_value:
  assumes "construct_spend_unsigned_transaction X keys thr ca unspent exhaust tx_outs r lim = Inr tx"
  shows "\<exists>spent change fee paid.
      mset spent \<subseteq># mset unspent \<and> (exhaust \<longrightarrow> mset spent = mset unspent)
    \<and> inputs tx = map spend_input spent
    \<and> outputs tx = tx_outs @ change \<and> length change \<le> 1
    \<and> (\<forall>c \<in> set change. txo_script c = address_script X ca)
    \<and> fee_wu X r (built_weight X (multisig_spend_max_witness_size X keys thr) ca tx_outs exhaust spent) = Some fee
    \<and> unat fee \<le> paid \<and> paid \<le> unat fee + unat (minimal_non_dust X (address_script X ca))
    \<and> utxo_total spent = (\<Sum>out\<leftarrow>outputs tx. unat (txo_value out)) + paid"
  using assms by (rule construct_spend_Inr)

theorem construct_spend_conserves_value_witness:
  "\<exists>tx. construct_spend_unsigned_transaction demo_ext [([1], 3), ([2], 3)] 5 ''bcrt1p'' demo_utxos True
        [\<lparr> txo_value = 5000, txo_script = [] \<rparr>] 1000 0 = Inr tx \<and>
     (\<exists>spent change fee paid.
      mset spent \<subseteq># mset demo_utxos \<and> (True \<longrightarrow> mset spent = mset demo_utxos)
    \<and> inputs tx = map spend_input spent
    \<and> outputs tx = [\<lparr> txo_value = 5000, txo_script = [] \<rparr>] @ change \<and> length change \<le> 1
    \<and> (\<forall>c \<in> set change. txo_script c = address_script demo_ext ''bcrt1p'')
    \<and> fee_wu demo_ext 1000 (built_weight demo_ext (multisig_spend_max_witness_size demo_ext [([1], 3), ([2], 3)] 5)
         ''bcrt1p'' [\<lparr> txo_value = 5000, txo_script = [] \<rparr>] True spent) = Some fee
    \<and> unat fee \<le> paid \<and> paid \<le> unat fee + unat (minimal_non_dust demo_ext (address_script demo_ext ''bcrt1p''))
    \<and> utxo_total spent = (\<Sum>out\<leftarrow>outputs tx. unat (txo_value out)) + paid)"
proof -
  obtain tx where tx: "construct_spend_unsigned_transaction demo_ext [([1], 3), ([2], 3)] 5 ''bcrt1p''
      demo_utxos True [\<lparr> txo_value = 5000, txo_script = [] \<rparr>] 1000 0 = Inr tx"
    by (simp add: construct_spend_unsigned_transaction_def spend_exhaust_def demo_utxos_def amount_sum_def
        word_checked_add_def word_checked_sub_def expect_fee_def demo_ext_def sort_utxos_def utxo_key_def
        multisig_spend_max_witness_size_def SCHNORR_SIGNATURE_SIZE_def SCHNORR_PUBLIC_KEY_SIZE_def
        TAPROOT_CONTROL_BASE_SIZE_def TAPROOT_CONTROL_NODE_SIZE_def Let_def)
  show ?thesis by (rule exI, rule conjI [OF tx construct_spend_conserves_value [OF tx]])
qed

end
