(* ===== verification/Committee.thy ===== *)
theory Committee
  imports Multisig
begin

text \<open>
  The data of a subnet as \<open>src/src/db.rs\<close> keeps it: validators, the committee and its three update
  operations, the state of a bootstrapped subnet with rotation and kill state, and the genesis info of
  a subnet that is still collecting validators.  The locale \<open>committee_update\<close> is the contract that
  the message handlers rely on when they change a committee.
\<close>

section \<open>Validators\<close>

record subnet_validator =
  v_pubkey :: xonly_pubkey
  v_subnet_address :: eth_address
  v_power :: power
  v_collateral :: amount
  v_backup_address :: btc_address
  v_ip :: string
  v_join_txid :: txid

definition validators_weighted_keys :: "subnet_validator list \<Rightarrow> weighted_key list" where
  "validators_weighted_keys vs = map (\<lambda>v. (v_pubkey v, v_power v)) vs"

definition validators_total_power :: "subnet_validator list \<Rightarrow> power" where
  "validators_total_power vs = sum_list (map v_power vs)"

definition validators_threshold :: "subnet_validator list \<Rightarrow> power" where
  "validators_threshold vs = multisig_threshold (validators_total_power vs)"

definition validators_multisig_address ::
  "ext \<Rightarrow> subnet_validator list \<Rightarrow> subnet_id \<Rightarrow> db_error + btc_address" where
  "validators_multisig_address X vs sid =
     res_map_err (\<lambda>e. DbPanic ''Multisig address should be valid'')
       (create_subnet_multisig_address X sid (validators_weighted_keys vs) (validators_threshold vs))"

definition validators_add_validator ::
  "subnet_validator list \<Rightarrow> subnet_validator \<Rightarrow> db_error + subnet_validator list" where
  "validators_add_validator vs v =
     (if \<exists>w \<in> set vs. v_pubkey w = v_pubkey v then Inl (InvalidChange ''Validator already exists'')
      else Inr (vs @ [v]))"

fun remove_first :: "('a \<Rightarrow> bool) \<Rightarrow> 'a list \<Rightarrow> 'a list" where
  "remove_first P [] = []"
| "remove_first P (x # xs) = (if P x then xs else x # remove_first P xs)"

fun replace_first :: "('a \<Rightarrow> bool) \<Rightarrow> 'a \<Rightarrow> 'a list \<Rightarrow> 'a list" where
  "replace_first P y [] = []"
| "replace_first P y (x # xs) = (if P x then y # xs else x # replace_first P y xs)"

definition validators_remove_validator ::
  "subnet_validator list \<Rightarrow> xonly_pubkey \<Rightarrow> db_error + subnet_validator list" where
  "validators_remove_validator vs pk =
     (if \<exists>v \<in> set vs. v_pubkey v = pk then Inr (remove_first (\<lambda>v. v_pubkey v = pk) vs)
      else Inl (InvalidChange ''Validator not found''))"

section \<open>Committees\<close>

record subnet_committee =
  cm_configuration_number :: u64
  cm_threshold :: power
  cm_validators :: "subnet_validator list"
  cm_multisig_address :: btc_address

definition validators_to_committee ::
  "ext \<Rightarrow> subnet_validator list \<Rightarrow> subnet_id \<Rightarrow> u64 \<Rightarrow> db_error + subnet_committee" where
  "validators_to_committee X vs sid configuration_number =
     res_bind (validators_multisig_address X vs sid) (\<lambda>a.
       Inr \<lparr> cm_configuration_number = configuration_number, cm_threshold = validators_threshold vs,
             cm_validators = vs, cm_multisig_address = a \<rparr>)"

definition committee_eq :: "subnet_committee \<Rightarrow> subnet_committee \<Rightarrow> bool" where
  "committee_eq c d \<longleftrightarrow> cm_multisig_address c = cm_multisig_address d"

definition committee_total_power :: "subnet_committee \<Rightarrow> power" where
  "committee_total_power c = validators_total_power (cm_validators c)"

definition validator_weighted_keys :: "subnet_committee \<Rightarrow> weighted_key list" where
  "validator_weighted_keys c = validators_weighted_keys (cm_validators c)"

definition committee_is_validator :: "subnet_committee \<Rightarrow> xonly_pubkey \<Rightarrow> bool" where
  "committee_is_validator c pk \<longleftrightarrow> (\<exists>v \<in> set (cm_validators c). v_pubkey v = pk)"

definition join_new_validator ::
  "ext \<Rightarrow> subnet_id \<Rightarrow> subnet_validator \<Rightarrow> subnet_committee \<Rightarrow> db_error + subnet_committee" where
  "join_new_validator X sid v c =
     (let c1 = c\<lparr> cm_configuration_number := cm_configuration_number c + 2 \<rparr> in
     res_bind (validators_add_validator (cm_validators c1) v) (\<lambda>vs.
     let c2 = c1\<lparr> cm_validators := vs, cm_threshold := validators_threshold vs \<rparr> in
     res_bind (validators_multisig_address X vs sid) (\<lambda>a.
       Inr (c2\<lparr> cm_multisig_address := a \<rparr>))))"

definition modify_validator ::
  "ext \<Rightarrow> subnet_id \<Rightarrow> subnet_validator \<Rightarrow> subnet_committee \<Rightarrow> db_error + subnet_committee" where
  "modify_validator X sid v c =
     (let c1 = c\<lparr> cm_configuration_number := cm_configuration_number c + 1 \<rparr> in
     if \<not> committee_is_validator c1 (v_pubkey v)
     then Inl (InvalidChange ''Validator not found in committee'')
     else
     let vs = replace_first (\<lambda>w. v_pubkey w = v_pubkey v) v (cm_validators c1);
         c2 = c1\<lparr> cm_validators := vs, cm_threshold := validators_threshold vs \<rparr> in
     res_bind (validators_multisig_address X vs sid) (\<lambda>a.
       Inr (c2\<lparr> cm_multisig_address := a \<rparr>)))"

definition committee_remove_validator ::
  "ext \<Rightarrow> subnet_id \<Rightarrow> xonly_pubkey \<Rightarrow> subnet_committee \<Rightarrow> db_error + subnet_committee" where
  "committee_remove_validator X sid pk c =
     (let c1 = c\<lparr> cm_configuration_number := cm_configuration_number c + 1 \<rparr> in
     res_bind (validators_remove_validator (cm_validators c1) pk) (\<lambda>vs.
     let c2 = c1\<lparr> cm_validators := vs, cm_threshold := validators_threshold vs \<rparr> in
     res_bind (validators_multisig_address X vs sid) (\<lambda>a.
       Inr (c2\<lparr> cm_multisig_address := a \<rparr>))))"

section \<open>Checkpoints and the state of a subnet\<close>

record subnet_checkpoint =
  cp_checkpoint_number :: u64
  cp_checkpoint_hash :: bytes
  cp_checkpoint_height :: u64
  cp_block_height :: u64
  cp_txid :: txid
  cp_batch_transfer_txid :: "txid option"
  cp_batch_transfer_block_height :: "u64 option"
  cp_signed_committee_number :: u64
  cp_next_committee_number :: u64
  cp_next_configuration_number :: u64
  cp_is_kill_checkpoint :: bool

datatype subnet_kill_state = NotKilled | ToBeKilled | Killed u64

record subnet_state =
  ss_id :: subnet_id
  ss_committee_number :: u64
  ss_committee :: subnet_committee
  ss_waiting_committee :: "subnet_committee option"
  ss_last_checkpoint_number :: "u64 option"
  ss_killed :: subnet_kill_state
  ss_marked_for_kill_checkpoint_number :: "u64 option"

definition KILL_PERIOD_NUMBER_OF_CHECKPOINTS :: u64 where
  "KILL_PERIOD_NUMBER_OF_CHECKPOINTS = 5"

definition state_total_collateral :: "subnet_state \<Rightarrow> db_error + amount" where
  "state_total_collateral s =
     ok_or (word_checked_sum (map v_collateral (cm_validators (ss_committee s))))
       (DbPanic ''Amount overflow'')"

definition committee_address_label :: "ext \<Rightarrow> subnet_state \<Rightarrow> btc_address \<times> string" where
  "committee_address_label X s =
     (cm_multisig_address (ss_committee s),
      subnet_id_display X (ss_id s) @ ''-'' @ dec (unat (ss_committee_number s)))"

definition state_is_validator :: "subnet_state \<Rightarrow> xonly_pubkey \<Rightarrow> bool" where
  "state_is_validator s pk = committee_is_validator (ss_committee s) pk"

definition is_waiting_validator :: "subnet_state \<Rightarrow> xonly_pubkey \<Rightarrow> bool" where
  "is_waiting_validator s pk =
     (case ss_waiting_committee s of None \<Rightarrow> False | Some nc \<Rightarrow> committee_is_validator nc pk)"

definition needs_rotation :: "subnet_state \<Rightarrow> bool" where
  "needs_rotation s =
     (case ss_waiting_committee s of None \<Rightarrow> False | Some nc \<Rightarrow> \<not> committee_eq (ss_committee s) nc)"

definition latest_committee :: "subnet_state \<Rightarrow> subnet_committee" where
  "latest_committee s = (case ss_waiting_committee s of None \<Rightarrow> ss_committee s | Some c \<Rightarrow> c)"

definition rotate_to_committee :: "subnet_committee \<Rightarrow> subnet_state \<Rightarrow> subnet_state" where
  "rotate_to_committee new_committee s =
     (if committee_eq (ss_committee s) new_committee then s
      else
        let s1 = (case ss_waiting_committee s of
                    Some wc \<Rightarrow> if committee_eq wc new_committee
                               then s\<lparr> ss_waiting_committee := None \<rparr> else s
                  | None \<Rightarrow> s)
        in s1\<lparr> ss_committee := new_committee, ss_committee_number := ss_committee_number s1 + 1 \<rparr>)"

definition rotate_to_waiting_committee :: "subnet_state \<Rightarrow> db_error + subnet_state" where
  "rotate_to_waiting_committee s =
     (case ss_waiting_committee s of
        Some c \<Rightarrow> Inr (s\<lparr> ss_waiting_committee := None, ss_committee := c,
                         ss_committee_number := ss_committee_number s + 1 \<rparr>)
      | None \<Rightarrow> Inl (InvalidChange ''No next committee to rotate to''))"

definition is_killed :: "subnet_state \<Rightarrow> bool" where
  "is_killed s = (case ss_killed s of Killed h \<Rightarrow> True | _ \<Rightarrow> False)"

definition is_killed_or_pending :: "subnet_state \<Rightarrow> bool" where
  "is_killed_or_pending s \<longleftrightarrow> ss_killed s \<noteq> NotKilled"

definition should_kill :: "subnet_state \<Rightarrow> bool" where
  "should_kill s \<longleftrightarrow>
     ss_killed s = ToBeKilled \<and>
     (case ss_last_checkpoint_number s of
        None \<Rightarrow> False
      | Some l \<Rightarrow>
        (case ss_marked_for_kill_checkpoint_number s of
           Some m \<Rightarrow> KILL_PERIOD_NUMBER_OF_CHECKPOINTS \<le> l - m
         | None \<Rightarrow> KILL_PERIOD_NUMBER_OF_CHECKPOINTS \<le> l + 1))"

section \<open>Genesis info\<close>

record ipc_create_subnet_msg =
  cr_min_validator_stake :: amount
  cr_min_validators :: u16
  cr_bottomup_check_period :: u64
  cr_active_validators_limit :: u16
  cr_min_cross_msg_fee :: amount
  cr_whitelist :: "xonly_pubkey list"

record genesis_balance_entry =
  gb_subnet_address :: eth_address
  gb_amount :: amount
  gb_prefund_txid :: txid
  gb_block_height :: u64

record subnet_genesis_info =
  gi_subnet_id :: subnet_id
  gi_create_subnet_msg :: ipc_create_subnet_msg
  gi_create_msg_block_height :: u64
  gi_bootstrapped :: bool
  gi_genesis_block_height :: "u64 option"
  gi_genesis_validators :: "subnet_validator list"
  gi_genesis_balance_entries :: "genesis_balance_entry list"

definition GENESIS_COMMITTEE_CONF_NUM :: u64 where "GENESIS_COMMITTEE_CONF_NUM = 0"

definition enough_to_bootstrap :: "subnet_genesis_info \<Rightarrow> bool" where
  "enough_to_bootstrap g \<longleftrightarrow>
     cr_min_validators (gi_create_subnet_msg g) \<le> of_nat (length (gi_genesis_validators g))"

definition whitelist_weighted_keys :: "ipc_create_subnet_msg \<Rightarrow> weighted_key list" where
  "whitelist_weighted_keys m = map (\<lambda>xpk. (xpk, 1)) (cr_whitelist m)"

definition genesis_multisig_address :: "ext \<Rightarrow> subnet_genesis_info \<Rightarrow> db_error + btc_address" where
  "genesis_multisig_address X g =
     res_map_err (\<lambda>e. DbPanic ''Multisig should be valid for saved subnet genesis info'')
       (create_subnet_multisig_address X (gi_subnet_id g)
          (whitelist_weighted_keys (gi_create_subnet_msg g))
          (ucast (cr_min_validators (gi_create_subnet_msg g))))"

definition to_subnet :: "ext \<Rightarrow> subnet_genesis_info \<Rightarrow> db_error + subnet_state" where
  "to_subnet X g =
     res_bind (validators_to_committee X (gi_genesis_validators g) (gi_subnet_id g)
                GENESIS_COMMITTEE_CONF_NUM) (\<lambda>c.
       Inr \<lparr> ss_id = gi_subnet_id g, ss_committee_number = 1, ss_committee = c,
             ss_waiting_committee = None, ss_last_checkpoint_number = None, ss_killed = NotKilled,
             ss_marked_for_kill_checkpoint_number = None \<rparr>)"

fun genesis_balance_step ::
  "(eth_address \<rightharpoonup> amount) \<Rightarrow> genesis_balance_entry \<Rightarrow> db_error + (eth_address \<rightharpoonup> amount)" where
  "genesis_balance_step m e =
     (case m (gb_subnet_address e) of
        None \<Rightarrow> Inr (m(gb_subnet_address e \<mapsto> gb_amount e))
      | Some a \<Rightarrow> res_bind (ok_or (word_checked_add a (gb_amount e)) (DbPanic ''Amount overflow''))
                   (\<lambda>b. Inr (m(gb_subnet_address e \<mapsto> b))))"

definition genesis_balance :: "subnet_genesis_info \<Rightarrow> db_error + (eth_address \<rightharpoonup> amount)" where
  "genesis_balance g = res_fold genesis_balance_step Map.empty (gi_genesis_balance_entries g)"

definition add_genesis_balance_entry ::
  "eth_address \<Rightarrow> amount \<Rightarrow> txid \<Rightarrow> u64 \<Rightarrow> subnet_genesis_info \<Rightarrow> subnet_genesis_info" where
  "add_genesis_balance_entry addr amt tid h g =
     g\<lparr> gi_genesis_balance_entries := gi_genesis_balance_entries g @
        [\<lparr> gb_subnet_address = addr, gb_amount = amt, gb_prefund_txid = tid, gb_block_height = h \<rparr>] \<rparr>"

definition remove_genesis_balance_entry :: "txid \<Rightarrow> subnet_genesis_info \<Rightarrow> subnet_genesis_info" where
  "remove_genesis_balance_entry tid g =
     g\<lparr> gi_genesis_balance_entries :=
        filter (\<lambda>e. gb_prefund_txid e \<noteq> tid) (gi_genesis_balance_entries g) \<rparr>"

section \<open>Well-formed committees\<close>

definition committee_keys :: "subnet_committee \<Rightarrow> xonly_pubkey list" where
  "committee_keys c = map v_pubkey (cm_validators c)"

definition wf_committee :: "ext \<Rightarrow> subnet_id \<Rightarrow> subnet_committee \<Rightarrow> bool" where
  "wf_committee X sid c \<longleftrightarrow> distinct (committee_keys c)
     \<and> cm_threshold c = validators_threshold (cm_validators c)
     \<and> validators_multisig_address X (cm_validators c) sid = Inr (cm_multisig_address c)"

lemma image_mem_iff: "y \<in> f ` A \<longleftrightarrow> (\<exists>x \<in> A. f x = y)"
  by auto

lemma remove_first_none: "\<not> (\<exists>x \<in> set xs. P x) \<Longrightarrow> remove_first P xs = xs"
  by (induction xs) auto

lemma map_remove_first: "map f (remove_first (\<lambda>x. f x = y) xs) = remove1 y (map f xs)"
  by (induction xs) auto

lemma map_replace_first: "f z = y \<Longrightarrow> map f (replace_first (\<lambda>x. f x = y) z xs) = map f xs"
  by (induction xs) auto

lemma set_replace_first:
  "distinct (map f xs) \<Longrightarrow> f z = y \<Longrightarrow> y \<in> f ` set xs \<Longrightarrow>
   set (replace_first (\<lambda>x. f x = y) z xs) = insert z {x \<in> set xs. f x \<noteq> y}"
proof (induction xs)
  case Nil
  then show ?case by simp
next
  case (Cons x xs)
  show ?case
  proof (cases "f x = y")
    case True
    then have "\<forall>w \<in> set xs. f w \<noteq> y" using Cons.prems(1) by (auto simp: image_mem_iff)
    with True show ?thesis by auto
  next
    case False
    with Cons show ?thesis by auto
  qed
qed

lemma set_remove_first:
  "distinct (map f xs) \<Longrightarrow> set (remove_first (\<lambda>x. f x = y) xs) = {x \<in> set xs. f x \<noteq> y}"
proof (induction xs)
  case Nil
  then show ?case by simp
next
  case (Cons x xs)
  then show ?case by (cases "f x = y") (auto simp: image_mem_iff)
qed

lemma validators_add_Inr:
  "validators_add_validator vs v = Inr ws \<longleftrightarrow> v_pubkey v \<notin> v_pubkey ` set vs \<and> ws = vs @ [v]"
  by (auto simp: validators_add_validator_def image_mem_iff)

lemma validators_remove_Inr:
  "validators_remove_validator vs pk = Inr ws \<longleftrightarrow>
     pk \<in> v_pubkey ` set vs \<and> ws = remove_first (\<lambda>v. v_pubkey v = pk) vs"
  by (auto simp: validators_remove_validator_def image_mem_iff)

lemma join_new_validator_Inr:
  "join_new_validator X sid v c = Inr c' \<longleftrightarrow>
     v_pubkey v \<notin> set (committee_keys c) \<and>
     (\<exists>a. validators_multisig_address X (cm_validators c @ [v]) sid = Inr a \<and>
       c' = \<lparr> cm_configuration_number = cm_configuration_number c + 2,
              cm_threshold = validators_threshold (cm_validators c @ [v]),
              cm_validators = cm_validators c @ [v], cm_multisig_address = a \<rparr>)"
  by (cases c) (auto simp: join_new_validator_def res_simps Let_def validators_add_Inr committee_keys_def)

lemma modify_validator_Inr:
  "modify_validator X sid v c = Inr c' \<longleftrightarrow>
     v_pubkey v \<in> set (committee_keys c) \<and>
     (let vs = replace_first (\<lambda>w. v_pubkey w = v_pubkey v) v (cm_validators c) in
      \<exists>a. validators_multisig_address X vs sid = Inr a \<and>
       c' = \<lparr> cm_configuration_number = cm_configuration_number c + 1,
              cm_threshold = validators_threshold vs, cm_validators = vs, cm_multisig_address = a \<rparr>)"
  by (cases c) (auto simp: modify_validator_def res_simps Let_def committee_is_validator_def
      committee_keys_def image_mem_iff)

lemma committee_remove_validator_Inr:
  "committee_remove_validator X sid pk c = Inr c' \<longleftrightarrow>
     pk \<in> set (committee_keys c) \<and>
     (let vs = remove_first (\<lambda>w. v_pubkey w = pk) (cm_validators c) in
      \<exists>a. validators_multisig_address X vs sid = Inr a \<and>
       c' = \<lparr> cm_configuration_number = cm_configuration_number c + 1,
              cm_threshold = validators_threshold vs, cm_validators = vs, cm_multisig_address = a \<rparr>)"
  by (cases c) (auto simp: committee_remove_validator_def res_simps Let_def validators_remove_Inr
      committee_keys_def)

section \<open>The contract of a committee update\<close>

locale committee_update =
  fixes X :: ext and sid :: subnet_id and bump :: u64
    and upd :: "subnet_committee \<Rightarrow> db_error + subnet_committee"
  assumes upd_conf: "upd c = Inr c' \<Longrightarrow> cm_configuration_number c' = cm_configuration_number c + bump"
    and upd_threshold: "upd c = Inr c' \<Longrightarrow> cm_threshold c' = validators_threshold (cm_validators c')"
    and upd_address: "upd c = Inr c' \<Longrightarrow>
      validators_multisig_address X (cm_validators c') sid = Inr (cm_multisig_address c')"
    and upd_distinct: "upd c = Inr c' \<Longrightarrow> distinct (committee_keys c) \<Longrightarrow> distinct (committee_keys c')"
begin

lemma upd_wf: "upd c = Inr c' \<Longrightarrow> wf_committee X sid c \<Longrightarrow> wf_committee X sid c'"
  by (simp add: wf_committee_def upd_threshold upd_address upd_distinct)

lemma upd_conf_nat:
  "upd c = Inr c' \<Longrightarrow> unat (cm_configuration_number c) + unat bump < 2 ^ 64 \<Longrightarrow>
   unat (cm_configuration_number c') = unat (cm_configuration_number c) + unat bump"
  by (simp add: upd_conf unat_word_ariths)

end

interpretation join_upd: committee_update X sid 2 "join_new_validator X sid v" for X sid v
  by unfold_locales (auto simp: join_new_validator_Inr committee_keys_def)

interpretation modify_upd: committee_update X sid 1 "modify_validator X sid v" for X sid v
  by unfold_locales (auto simp: modify_validator_Inr committee_keys_def map_replace_first Let_def)

interpretation remove_upd: committee_update X sid 1 "committee_remove_validator X sid pk" for X sid pk
  by unfold_locales (auto simp: committee_remove_validator_Inr committee_keys_def map_remove_first Let_def)

section \<open>When a committee has an address\<close>

definition total_power_nat :: "subnet_validator list \<Rightarrow> nat" where
  "total_power_nat vs = (\<Sum>v\<leftarrow>vs. unat (v_power v))"

lemma validators_total_power_keys:
  "sum_list (map snd (validators_weighted_keys vs)) = validators_total_power vs"
  by (simp add: validators_weighted_keys_def validators_total_power_def o_def)

lemma unat_validators_total_power:
  "total_power_nat vs < 2 ^ 32 \<Longrightarrow> unat (validators_total_power vs) = total_power_nat vs"
  using unat_sum_list [of "validators_weighted_keys vs"]
  by (simp add: validators_total_power_keys) (simp add: validators_weighted_keys_def total_power_nat_def o_def)

lemma create_address_native:
  assumes "ext_ok X" and "native_id sid"
  shows "(\<exists>a. create_subnet_multisig_address X sid keys thr = Inr a) \<longleftrightarrow> thr \<le> sum_list (map snd keys)"
proof -
  obtain t where t: "subnet_id_txid20 sid = Some t" using native_txid20 [OF assms(2)] by blast
  show ?thesis
    using p2tr_two_leaves [OF assms(1)] t
    by (auto simp: create_subnet_multisig_address_def create_subnet_multisig_spend_info_def res_simps
        create_unspendable_subnet_id_script_def create_multisig_script_Inr)
qed

lemma validators_address_iff:
  assumes "ext_ok X" and "native_id sid"
  shows "(\<exists>a. validators_multisig_address X vs sid = Inr a) \<longleftrightarrow>
           validators_threshold vs \<le> validators_total_power vs"
  using create_address_native [OF assms, of "validators_weighted_keys vs" "validators_threshold vs"]
  by (simp add: validators_multisig_address_def res_map_err_eq validators_total_power_keys)

lemma threshold_le_power:
  assumes "0 < total_power_nat vs" and "total_power_nat vs < 2 ^ 31"
  shows "validators_threshold vs \<le> validators_total_power vs"
proof -
  have "unat (validators_total_power vs) = total_power_nat vs"
    using assms(2) by (intro unat_validators_total_power) simp
  then have "unat (validators_threshold vs) = 2 * total_power_nat vs div 3 + 1"
    using assms(2) by (simp add: validators_threshold_def unat_multisig_threshold)
  moreover have "2 * total_power_nat vs div 3 + 1 \<le> total_power_nat vs"
    using assms(1) by presburger
  ultimately show ?thesis
    using \<open>unat (validators_total_power vs) = _\<close> by (simp add: word_le_nat_alt)
qed

lemma total_power_remove_first:
  "total_power_nat (remove_first P vs) \<le> total_power_nat vs"
  by (induction vs) (auto simp: total_power_nat_def)

lemma validators_address_panics:
  assumes "validators_total_power vs = 0"
  shows "validators_multisig_address X vs sid = Inl (DbPanic ''Multisig address should be valid'')"
proof -
  have "validators_threshold vs = 1" using assms by (simp add: validators_threshold_def multisig_threshold_def)
  then show ?thesis using assms
    by (simp add: validators_multisig_address_def create_subnet_multisig_address_def
        create_subnet_multisig_spend_info_def create_multisig_script_def validators_total_power_keys)
qed

section \<open>Properties\<close>

definition demo_id :: subnet_id where
  "demo_id = subnet_id_from_txid20 (replicate 20 7)"

definition demo_validator :: "u8 \<Rightarrow> u32 \<Rightarrow> subnet_validator" where
  "demo_validator k p = \<lparr> v_pubkey = replicate 32 k, v_subnet_address = replicate 20 k, v_power = p,
     v_collateral = ucast p * 10000, v_backup_address = ''bcrt1pbackup'', v_ip = ''127.0.0.1:80'',
     v_join_txid = [k] \<rparr>"

lemma demo_id_native [simp]: "native_id demo_id"
  by (simp add: demo_id_def subnet_id_from_txid20_def)

lemma demo_committee_wf:
  assumes "distinct (map v_pubkey vs)" and "0 < total_power_nat vs" and "total_power_nat vs < 2 ^ 31"
  shows "\<exists>c. wf_committee demo_ext demo_id c \<and> cm_validators c = vs \<and> cm_configuration_number c = n"
proof -
  obtain a where "validators_multisig_address demo_ext vs demo_id = Inr a"
    using validators_address_iff [OF demo_ext_ok demo_id_native] threshold_le_power [OF assms(2,3)] by blast
  then show ?thesis
    using assms(1)
    by (intro exI [of _ "\<lparr> cm_configuration_number = n, cm_threshold = validators_threshold vs,
          cm_validators = vs, cm_multisig_address = a \<rparr>"])
      (simp add: wf_committee_def committee_keys_def)
qed

text \<open>
  C8. Every committee update that succeeds keeps the committee well formed (distinct keys, the
  threshold of its total power, the address of its script) and advances the configuration number by
  two for a join and by one for a change of stake or a removal.
\<close>

theorem committee_updates_keep_wf:
  assumes "wf_committee X sid c"
  shows "(join_new_validator X sid v c = Inr c1 \<longrightarrow>
            wf_committee X sid c1 \<and> cm_configuration_number c1 = cm_configuration_number c + 2
            \<and> cm_validators c1 = cm_validators c @ [v])
       \<and> (modify_validator X sid v c = Inr c2 \<longrightarrow>
            wf_committee X sid c2 \<and> cm_configuration_number c2 = cm_configuration_number c + 1
            \<and> set (cm_validators c2) = insert v {w \<in> set (cm_validators c). v_pubkey w \<noteq> v_pubkey v})
       \<and> (committee_remove_validator X sid pk c = Inr c3 \<longrightarrow>
            wf_committee X sid c3 \<and> cm_configuration_number c3 = cm_configuration_number c + 1
            \<and> set (cm_validators c3) = {w \<in> set (cm_validators c). v_pubkey w \<noteq> pk})"
proof (intro conjI impI)
  have d: "distinct (map v_pubkey (cm_validators c))"
    using assms by (simp add: wf_committee_def committee_keys_def)
  show "wf_committee X sid c1" if "join_new_validator X sid v c = Inr c1"
    using that assms by (rule join_upd.upd_wf)
  show "wf_committee X sid c2" if "modify_validator X sid v c = Inr c2"
    using that assms by (rule modify_upd.upd_wf)
  show "wf_committee X sid c3" if "committee_remove_validator X sid pk c = Inr c3"
    using that assms by (rule remove_upd.upd_wf)
  show "set (cm_validators c2) = insert v {w \<in> set (cm_validators c). v_pubkey w \<noteq> v_pubkey v}"
    if "modify_validator X sid v c = Inr c2"
  proof -
    from that have "v_pubkey v \<in> v_pubkey ` set (cm_validators c)"
      and vs: "cm_validators c2 = replace_first (\<lambda>w. v_pubkey w = v_pubkey v) v (cm_validators c)"
      unfolding modify_validator_Inr Let_def committee_keys_def by (simp, fastforce)
    then show ?thesis using set_replace_first [OF d refl] by simp
  qed
  show "set (cm_validators c3) = {w \<in> set (cm_validators c). v_pubkey w \<noteq> pk}"
    if "committee_remove_validator X sid pk c = Inr c3"
  proof -
    from that have "cm_validators c3 = remove_first (\<lambda>w. v_pubkey w = pk) (cm_validators c)"
      unfolding committee_remove_validator_Inr Let_def by fastforce
    then show ?thesis using set_remove_first [OF d] by simp
  qed
qed (auto simp: join_new_validator_Inr dest: join_upd.upd_conf modify_upd.upd_conf remove_upd.upd_conf)

theorem committee_updates_keep_wf_witness:
  "\<exists>c c1. wf_committee demo_ext demo_id c \<and> cm_validators c = [demo_validator 1 5]
     \<and> join_new_validator demo_ext demo_id (demo_validator 2 9) c = Inr c1
     \<and> wf_committee demo_ext demo_id c1 \<and> cm_configuration_number c1 = 2"
proof -
  obtain c where c: "wf_committee demo_ext demo_id c" "cm_validators c = [demo_validator 1 5]"
      "cm_configuration_number c = 0"
    using demo_committee_wf [of "[demo_validator 1 5]" 0] by (auto simp: total_power_nat_def demo_validator_def)
  have "\<exists>a. validators_multisig_address demo_ext [demo_validator 1 5, demo_validator 2 9] demo_id = Inr a"
    using validators_address_iff [OF demo_ext_ok demo_id_native]
      threshold_le_power [of "[demo_validator 1 5, demo_validator 2 9]"]
    by (simp add: total_power_nat_def demo_validator_def)
  then obtain c1 where j: "join_new_validator demo_ext demo_id (demo_validator 2 9) c = Inr c1"
    using c(2) by (auto simp: join_new_validator_Inr committee_keys_def demo_validator_def)
  then show ?thesis
    using committee_updates_keep_wf [OF c(1), of "demo_validator 2 9" c1] c by auto
qed

text \<open>
  For a subnet id that the program created and a total power below \<open>2^31\<close>, a join succeeds exactly
  for a new key, and a removal exactly for a member whose removal leaves some power; a removal that
  leaves no power aborts the process instead of returning an error.
\<close>

theorem committee_update_outcomes:
  assumes "ext_ok X" and "native_id sid"
    and "total_power_nat (cm_validators c) + unat (v_power v) < 2 ^ 31"
    and "0 < total_power_nat (cm_validators c)"
  shows "((\<exists>c'. join_new_validator X sid v c = Inr c') \<longleftrightarrow> v_pubkey v \<notin> set (committee_keys c))
    \<and> (pk \<in> set (committee_keys c) \<longrightarrow>
        (if total_power_nat (remove_first (\<lambda>w. v_pubkey w = pk) (cm_validators c)) = 0
         then committee_remove_validator X sid pk c = Inl (DbPanic ''Multisig address should be valid'')
         else \<exists>c'. committee_remove_validator X sid pk c = Inr c'))"
proof (intro conjI impI)
  have "total_power_nat (cm_validators c @ [v]) = total_power_nat (cm_validators c) + unat (v_power v)"
    by (simp add: total_power_nat_def)
  then have "\<exists>a. validators_multisig_address X (cm_validators c @ [v]) sid = Inr a"
    using validators_address_iff [OF assms(1,2)] threshold_le_power [of "cm_validators c @ [v]"] assms(3,4)
    by simp
  then show "(\<exists>c'. join_new_validator X sid v c = Inr c') \<longleftrightarrow> v_pubkey v \<notin> set (committee_keys c)"
    by (auto simp: join_new_validator_Inr)
next
  let ?vs = "remove_first (\<lambda>w. v_pubkey w = pk) (cm_validators c)"
  assume mem: "pk \<in> set (committee_keys c)"
  have le: "total_power_nat ?vs \<le> total_power_nat (cm_validators c)"
    by (rule total_power_remove_first)
  show "if total_power_nat ?vs = 0
        then committee_remove_validator X sid pk c = Inl (DbPanic ''Multisig address should be valid'')
        else \<exists>c'. committee_remove_validator X sid pk c = Inr c'"
  proof (cases "total_power_nat ?vs = 0")
    case True
    then have "unat (validators_total_power ?vs) = 0"
      using unat_validators_total_power [of ?vs] by simp
    then have "validators_total_power ?vs = 0" by (simp add: unat_eq_zero)
    from validators_address_panics [OF this, of X sid] mem True show ?thesis
      by (simp add: committee_remove_validator_def Let_def validators_remove_validator_def
          committee_keys_def image_mem_iff)
  next
    case False
    then have "\<exists>a. validators_multisig_address X ?vs sid = Inr a"
      using validators_address_iff [OF assms(1,2), of ?vs] threshold_le_power [of ?vs] le assms(3) by simp
    with mem False show ?thesis by (auto simp: committee_remove_validator_Inr Let_def)
  qed
qed

theorem committee_update_outcomes_witness:
  "\<exists>c. cm_validators c = [demo_validator 1 5]
     \<and> committee_remove_validator demo_ext demo_id (replicate 32 1) c
       = Inl (DbPanic ''Multisig address should be valid'')"
proof -
  define c where "c = \<lparr> cm_configuration_number = 0, cm_threshold = 4,
    cm_validators = [demo_validator 1 5], cm_multisig_address = [] \<rparr>"
  then have c: "cm_validators c = [demo_validator 1 5]" by simp
  have "total_power_nat (remove_first (\<lambda>w. v_pubkey w = replicate 32 1) (cm_validators c)) = 0"
    using c by (simp add: demo_validator_def total_power_nat_def)
  moreover have "replicate 32 1 \<in> set (committee_keys c)"
    using c by (simp add: committee_keys_def demo_validator_def)
  moreover have "total_power_nat (cm_validators c) + unat (v_power (demo_validator 2 9)) < 2 ^ 31"
    and "0 < total_power_nat (cm_validators c)"
    using c by (simp_all add: demo_validator_def total_power_nat_def)
  ultimately show ?thesis
    using committee_update_outcomes [OF demo_ext_ok demo_id_native, of c "demo_validator 2 9" "replicate 32 1"] c
    by auto
qed

text \<open>
  Rotation installs the new committee and counts it, and drops the waiting committee exactly when the
  new committee has its address; when the address does not change, nothing of the state changes, not
  even the recorded collaterals and configuration number of the committee.
\<close>

theorem rotate_to_committee_effect:
  "rotate_to_committee nc s =
     (if cm_multisig_address (ss_committee s) = cm_multisig_address nc then s
      else s\<lparr> ss_committee := nc, ss_committee_number := ss_committee_number s + 1,
             ss_waiting_committee :=
               (if \<exists>wc. ss_waiting_committee s = Some wc \<and> cm_multisig_address wc = cm_multisig_address nc
                then None else ss_waiting_committee s) \<rparr>)"
  by (cases s; cases "ss_waiting_committee s") (auto simp: rotate_to_committee_def committee_eq_def)

text \<open>
  A subnet that is marked for killing is due exactly five checkpoints after the one that was the
  last when it was marked (or at its fifth checkpoint if it had none); the subtraction on the unsigned
  numbers does not wrap, because the marker never exceeds the last checkpoint number.
\<close>

theorem should_kill_after_period:
  assumes "ss_killed s = ToBeKilled" and "ss_last_checkpoint_number s = Some l"
    and "\<forall>m. ss_marked_for_kill_checkpoint_number s = Some m \<longrightarrow> m \<le> l"
    and "unat l < 2 ^ 64 - 1"
  shows "should_kill s \<longleftrightarrow>
     (case ss_marked_for_kill_checkpoint_number s of
        Some m \<Rightarrow> unat m + 5 \<le> unat l | None \<Rightarrow> 4 \<le> unat l)"
proof (cases "ss_marked_for_kill_checkpoint_number s")
  case None
  have "unat (l + 1) = unat l + 1" using assms(4) by (simp add: unat_word_ariths)
  then show ?thesis using None assms(1,2)
    by (simp add: should_kill_def KILL_PERIOD_NUMBER_OF_CHECKPOINTS_def word_le_nat_alt)
next
  case (Some m)
  then have "m \<le> l" using assms(3) by simp
  then have "unat (l - m) = unat l - unat m" by (simp add: unat_sub word_le_nat_alt)
  then show ?thesis using Some assms(1,2) \<open>m \<le> l\<close>
    by (auto simp: should_kill_def KILL_PERIOD_NUMBER_OF_CHECKPOINTS_def word_le_nat_alt)
qed

theorem should_kill_after_period_witness:
  "\<exists>s. ss_killed s = ToBeKilled \<and> ss_marked_for_kill_checkpoint_number s = Some 3 \<and> should_kill s"
proof -
  define s where "s = \<lparr> ss_id = demo_id, ss_committee_number = 1,
    ss_committee = \<lparr> cm_configuration_number = 0, cm_threshold = 1, cm_validators = [], cm_multisig_address = [] \<rparr>,
    ss_waiting_committee = None, ss_last_checkpoint_number = Some 8, ss_killed = ToBeKilled,
    ss_marked_for_kill_checkpoint_number = Some 3 \<rparr>"
  have "should_kill s"
    using should_kill_after_period [of s 8] by (simp add: s_def)
  then show ?thesis by (intro exI [of _ s]) (simp add: s_def)
qed

end
