(* ===== verification/Db.thy ===== *)
theory Db
  imports Committee
begin

text \<open>
  The database of \<open>src/src/db.rs\<close>: the key of every table, the record of tables that
  \<open>HeedDb\<close> opens, and one definition per accessor of \<open>DatabaseCore\<close>.  A write
  transaction is a copy of the record: an accessor that writes maps the transaction to its next
  state, an accessor without a transaction reads the committed record, and a handler that returns an
  error drops the copy.  Failures of the storage engine itself are not modelled.
\<close>

section \<open>Stored data\<close>

record ipc_fund_subnet_msg =
  fm_subnet_id :: subnet_id
  fm_amount :: amount
  fm_address :: eth_address

record ipc_erc_token_registration =
  er_home_token_address :: eth_address
  er_name :: string
  er_symbol :: string
  er_decimals :: u8
  er_initial_supply :: u256

record ipc_erc_supply_adjustment =
  ea_home_token_address :: eth_address
  ea_delta :: "256 word"

record ipc_cross_subnet_erc_transfer =
  et_home_subnet_id :: subnet_id
  et_home_token_address :: eth_address
  et_amount :: u256
  et_destination_subnet_id :: subnet_id
  et_recipient :: eth_address

text \<open>The three kinds of rootnet message, each with block height, block hash, nonce and txid.\<close>

datatype rootnet_message =
    FundSubnet ipc_fund_subnet_msg u64 block_hash u64 txid
  | ErcTransfer ipc_cross_subnet_erc_transfer u64 block_hash u64 txid
  | ErcRegistration subnet_id ipc_erc_token_registration u64 block_hash u64 txid

fun rootnet_message_nonce :: "rootnet_message \<Rightarrow> u64" where
  "rootnet_message_nonce (FundSubnet m h bh n t) = n"
| "rootnet_message_nonce (ErcTransfer m h bh n t) = n"
| "rootnet_message_nonce (ErcRegistration hs r h bh n t) = n"

fun rootnet_message_height :: "rootnet_message \<Rightarrow> u64" where
  "rootnet_message_height (FundSubnet m h bh n t) = h"
| "rootnet_message_height (ErcTransfer m h bh n t) = h"
| "rootnet_message_height (ErcRegistration hs r h bh n t) = h"

datatype staking_change = Deposit amount | Withdraw amount | JoinChange bytes

record stake_change_request =
  sc_change :: staking_change
  sc_validator_xpk :: xonly_pubkey
  sc_validator_subnet_address :: eth_address
  sc_configuration_number :: u64
  sc_committee_after_change :: subnet_committee
  sc_block_height :: u64
  sc_block_hash :: block_hash
  sc_checkpoint_block_height :: "u64 option"
  sc_checkpoint_block_hash :: "block_hash option"
  sc_txid :: txid

record kill_request =
  kr_validator_xpk :: xonly_pubkey
  kr_block_height :: u64
  kr_block_hash :: block_hash
  kr_txid :: txid

record subnet_reward_info =
  ri_most_recent_committee_number :: u64
  ri_rewarded_amounts :: "(xonly_pubkey \<times> amount) list option"

record snapshot_result =
  sr_rewards_list :: "(xonly_pubkey \<times> amount) list"
  sr_total_rewarded_collateral :: amount

record heed_db =
  monitor_info :: "u64 kv"
  subnet_db :: "subnet_state kv"
  subnet_genesis_db :: "subnet_genesis_info kv"
  checkpoints_db :: "subnet_checkpoint kv"
  rootnet_msgs_db :: "rootnet_message kv"
  transactions_db :: "transaction kv"
  committee_db :: "subnet_committee kv"
  stake_changes_db :: "stake_change_request kv"
  kill_requests_db :: "kill_request kv"
  reward_candidates_db :: "subnet_reward_info kv"
  reward_results_db :: "snapshot_result kv"
  token_balances_db :: "u256 kv"

definition empty_db :: heed_db where
  "empty_db = \<lparr> monitor_info = [], subnet_db = [], subnet_genesis_db = [], checkpoints_db = [],
     rootnet_msgs_db = [], transactions_db = [], committee_db = [], stake_changes_db = [],
     kill_requests_db = [], reward_candidates_db = [], reward_results_db = [], token_balances_db = [] \<rparr>"

section \<open>Keys\<close>

definition u64_display :: "u64 \<Rightarrow> string" where
  "u64_display n = dec (unat n)"

definition LAST_PROCESSED_BLOCK_KEY :: string where
  "LAST_PROCESSED_BLOCK_KEY = ''monitor:last_processed_block''"

definition subnet_state_key :: "ext \<Rightarrow> subnet_id \<Rightarrow> string" where
  "subnet_state_key X sid = ''subnet_state:'' @ '':'' @ subnet_id_display X sid"

definition all_subnets_prefix :: string where
  "all_subnets_prefix = ''subnet_state:''"

definition subnet_genesis_info_key :: "ext \<Rightarrow> subnet_id \<Rightarrow> string" where
  "subnet_genesis_info_key X sid = ''subnet_genesis_info:'' @ '':'' @ subnet_id_display X sid"

definition rootnet_msgs_prefix :: "ext \<Rightarrow> subnet_id \<Rightarrow> string" where
  "rootnet_msgs_prefix X sid = ''rootnet_msgs:'' @ '':'' @ subnet_id_display X sid"

definition rootnet_msgs_key :: "ext \<Rightarrow> subnet_id \<Rightarrow> u64 \<Rightarrow> string" where
  "rootnet_msgs_key X sid nonce =
     ''rootnet_msgs:'' @ '':'' @ subnet_id_display X sid @ '':'' @ u64_display nonce"

definition checkpoints_key :: "ext \<Rightarrow> subnet_id \<Rightarrow> u64 \<Rightarrow> string" where
  "checkpoints_key X sid number =
     ''checkpoints:'' @ '':'' @ subnet_id_display X sid @ '':'' @ u64_display number"

definition transaction_key :: "ext \<Rightarrow> txid \<Rightarrow> string" where
  "transaction_key X tid = ''transactions:'' @ '':'' @ txid_display X tid"

definition committee_key :: "ext \<Rightarrow> subnet_id \<Rightarrow> u64 \<Rightarrow> string" where
  "committee_key X sid committee_number =
     ''committee:'' @ '':'' @ subnet_id_display X sid @ '':'' @ u64_display committee_number"

definition stake_changes_prefix :: "ext \<Rightarrow> subnet_id \<Rightarrow> string" where
  "stake_changes_prefix X sid = ''stake_changes:'' @ '':'' @ subnet_id_display X sid"

definition stake_change_key :: "ext \<Rightarrow> subnet_id \<Rightarrow> u64 \<Rightarrow> string" where
  "stake_change_key X sid configuration_number =
     ''stake_changes:'' @ '':'' @ subnet_id_display X sid @ '':'' @ u64_display configuration_number"

definition kill_requests_prefix :: "ext \<Rightarrow> subnet_id \<Rightarrow> string" where
  "kill_requests_prefix X sid = ''kill_requests:'' @ '':'' @ subnet_id_display X sid"

definition kill_request_key :: "ext \<Rightarrow> subnet_id \<Rightarrow> u64 \<Rightarrow> txid \<Rightarrow> string" where
  "kill_request_key X sid block_height tid =
     ''kill_requests:'' @ '':'' @ subnet_id_display X sid @ '':'' @ u64_display block_height
       @ '':'' @ txid_display X tid"

definition reward_candidates_prefix :: "u64 \<Rightarrow> string" where
  "reward_candidates_prefix snapshot = ''reward_candidates:'' @ '':'' @ u64_display snapshot @ '':''"

definition reward_candidate_key :: "ext \<Rightarrow> u64 \<Rightarrow> subnet_id \<Rightarrow> string" where
  "reward_candidate_key X snapshot sid =
     ''reward_candidates:'' @ '':'' @ u64_display snapshot @ '':'' @ subnet_id_display X sid"

definition reward_result_key :: "u64 \<Rightarrow> string" where
  "reward_result_key snapshot = ''reward_results:'' @ '':'' @ u64_display snapshot"

definition token_balance_key :: "ext \<Rightarrow> subnet_id \<Rightarrow> eth_address \<Rightarrow> subnet_id \<Rightarrow> string" where
  "token_balance_key X home_subnet_id home_token_address holder_subnet_id =
     ''token_balance:'' @ subnet_id_display X home_subnet_id @ '':''
       @ eth_display X home_token_address @ '':'' @ subnet_id_display X holder_subnet_id"

section \<open>Accessors\<close>

definition get_last_processed_block :: "heed_db \<Rightarrow> u64" where
  "get_last_processed_block db =
     (case kv_get (monitor_info db) LAST_PROCESSED_BLOCK_KEY of Some h \<Rightarrow> h | None \<Rightarrow> 0)"

definition set_last_processed_block :: "u64 \<Rightarrow> heed_db \<Rightarrow> heed_db" where
  "set_last_processed_block h db =
     db\<lparr> monitor_info := kv_put LAST_PROCESSED_BLOCK_KEY h (monitor_info db) \<rparr>"

definition get_subnet_genesis_info :: "ext \<Rightarrow> heed_db \<Rightarrow> subnet_id \<Rightarrow> subnet_genesis_info option" where
  "get_subnet_genesis_info X db sid = kv_get (subnet_genesis_db db) (subnet_genesis_info_key X sid)"

definition save_subnet_genesis_info ::
  "ext \<Rightarrow> subnet_id \<Rightarrow> subnet_genesis_info \<Rightarrow> heed_db \<Rightarrow> heed_db" where
  "save_subnet_genesis_info X sid g txn =
     txn\<lparr> subnet_genesis_db := kv_put (subnet_genesis_info_key X sid) g (subnet_genesis_db txn) \<rparr>"

definition get_subnet_state :: "ext \<Rightarrow> heed_db \<Rightarrow> subnet_id \<Rightarrow> subnet_state option" where
  "get_subnet_state X db sid = kv_get (subnet_db db) (subnet_state_key X sid)"

definition save_subnet_state :: "ext \<Rightarrow> subnet_id \<Rightarrow> subnet_state \<Rightarrow> heed_db \<Rightarrow> heed_db" where
  "save_subnet_state X sid s txn = txn\<lparr> subnet_db := kv_put (subnet_state_key X sid) s (subnet_db txn) \<rparr>"

definition get_all_subnets :: "heed_db \<Rightarrow> subnet_state list" where
  "get_all_subnets db = map snd (kv_prefix_iter all_subnets_prefix (subnet_db db))"

definition get_subnet_by_multisig_address :: "heed_db \<Rightarrow> btc_address \<Rightarrow> subnet_state option" where
  "get_subnet_by_multisig_address db a =
     find (\<lambda>s. cm_multisig_address (ss_committee s) = a) (map snd (subnet_db db))"

definition get_all_rootnet_msgs :: "ext \<Rightarrow> heed_db \<Rightarrow> subnet_id \<Rightarrow> rootnet_message list" where
  "get_all_rootnet_msgs X db sid =
     map snd (kv_prefix_iter (rootnet_msgs_prefix X sid) (rootnet_msgs_db db))"

definition get_rootnet_msgs_by_height ::
  "ext \<Rightarrow> heed_db \<Rightarrow> subnet_id \<Rightarrow> u64 \<Rightarrow> rootnet_message list" where
  "get_rootnet_msgs_by_height X db sid h =
     filter (\<lambda>m. rootnet_message_height m = h) (get_all_rootnet_msgs X db sid)"

definition get_last_rootnet_msg_nonce_txn :: "ext \<Rightarrow> heed_db \<Rightarrow> subnet_id \<Rightarrow> u64 option" where
  "get_last_rootnet_msg_nonce_txn X txn sid =
     (let count = length (kv_prefix_iter (rootnet_msgs_prefix X sid) (rootnet_msgs_db txn)) in
      if count = 0 then None else Some (of_nat count - 1))"

definition get_next_rootnet_msg_nonce_txn :: "ext \<Rightarrow> heed_db \<Rightarrow> subnet_id \<Rightarrow> u64" where
  "get_next_rootnet_msg_nonce_txn X txn sid =
     (case get_last_rootnet_msg_nonce_txn X txn sid of Some n \<Rightarrow> n + 1 | None \<Rightarrow> 0)"

definition get_next_rootnet_msg_nonce :: "ext \<Rightarrow> heed_db \<Rightarrow> subnet_id \<Rightarrow> u64" where
  "get_next_rootnet_msg_nonce X db sid =
     (case get_last_rootnet_msg_nonce_txn X db sid of Some n \<Rightarrow> n + 1 | None \<Rightarrow> 0)"

definition get_rootnet_msg :: "ext \<Rightarrow> heed_db \<Rightarrow> subnet_id \<Rightarrow> u64 \<Rightarrow> rootnet_message option" where
  "get_rootnet_msg X db sid nonce = kv_get (rootnet_msgs_db db) (rootnet_msgs_key X sid nonce)"

definition add_rootnet_msg :: "ext \<Rightarrow> subnet_id \<Rightarrow> rootnet_message \<Rightarrow> heed_db \<Rightarrow> heed_db" where
  "add_rootnet_msg X sid msg txn =
     txn\<lparr> rootnet_msgs_db :=
       kv_put (rootnet_msgs_key X sid (rootnet_message_nonce msg)) msg (rootnet_msgs_db txn) \<rparr>"

definition get_checkpoint :: "ext \<Rightarrow> heed_db \<Rightarrow> subnet_id \<Rightarrow> u64 \<Rightarrow> subnet_checkpoint option" where
  "get_checkpoint X db sid number = kv_get (checkpoints_db db) (checkpoints_key X sid number)"

definition save_checkpoint ::
  "ext \<Rightarrow> subnet_id \<Rightarrow> subnet_checkpoint \<Rightarrow> u64 \<Rightarrow> heed_db \<Rightarrow> heed_db" where
  "save_checkpoint X sid cp number txn =
     txn\<lparr> checkpoints_db := kv_put (checkpoints_key X sid number) cp (checkpoints_db txn) \<rparr>"

definition get_transaction :: "ext \<Rightarrow> heed_db \<Rightarrow> txid \<Rightarrow> transaction option" where
  "get_transaction X db tid = kv_get (transactions_db db) (transaction_key X tid)"

definition save_transaction :: "ext \<Rightarrow> transaction \<Rightarrow> heed_db \<Rightarrow> heed_db" where
  "save_transaction X tx txn =
     txn\<lparr> transactions_db := kv_put (transaction_key X (compute_txid X tx)) tx (transactions_db txn) \<rparr>"

definition get_committee :: "ext \<Rightarrow> heed_db \<Rightarrow> subnet_id \<Rightarrow> u64 \<Rightarrow> subnet_committee option" where
  "get_committee X db sid n = kv_get (committee_db db) (committee_key X sid n)"

definition save_committee :: "ext \<Rightarrow> subnet_id \<Rightarrow> u64 \<Rightarrow> subnet_committee \<Rightarrow> heed_db \<Rightarrow> heed_db" where
  "save_committee X sid n c txn =
     txn\<lparr> committee_db := kv_put (committee_key X sid n) c (committee_db txn) \<rparr>"

definition get_stake_change :: "ext \<Rightarrow> heed_db \<Rightarrow> subnet_id \<Rightarrow> u64 \<Rightarrow> stake_change_request option" where
  "get_stake_change X db sid n = kv_get (stake_changes_db db) (stake_change_key X sid n)"

definition get_all_stake_changes :: "ext \<Rightarrow> heed_db \<Rightarrow> subnet_id \<Rightarrow> stake_change_request list" where
  "get_all_stake_changes X db sid =
     map snd (kv_prefix_iter (stake_changes_prefix X sid) (stake_changes_db db))"

definition get_unconfirmed_stake_changes ::
  "ext \<Rightarrow> heed_db \<Rightarrow> subnet_id \<Rightarrow> stake_change_request list" where
  "get_unconfirmed_stake_changes X db sid =
     filter (\<lambda>c. sc_checkpoint_block_height c = None) (get_all_stake_changes X db sid)"

definition get_stake_changes_by_height ::
  "ext \<Rightarrow> heed_db \<Rightarrow> subnet_id \<Rightarrow> u64 \<Rightarrow> stake_change_request list" where
  "get_stake_changes_by_height X db sid h =
     filter (\<lambda>c. sc_block_height c = h) (get_all_stake_changes X db sid)"

definition get_last_stake_change_configuration_number :: "ext \<Rightarrow> heed_db \<Rightarrow> subnet_id \<Rightarrow> u64" where
  "get_last_stake_change_configuration_number X db sid =
     (let count = length (kv_prefix_iter (stake_changes_prefix X sid) (stake_changes_db db)) in
      if count = 0 then GENESIS_COMMITTEE_CONF_NUM else of_nat count)"

definition get_next_stake_change_configuration_number :: "ext \<Rightarrow> heed_db \<Rightarrow> subnet_id \<Rightarrow> u64" where
  "get_next_stake_change_configuration_number X db sid =
     get_last_stake_change_configuration_number X db sid + 1"

definition add_stake_change :: "ext \<Rightarrow> subnet_id \<Rightarrow> stake_change_request \<Rightarrow> heed_db \<Rightarrow> heed_db" where
  "add_stake_change X sid c txn =
     txn\<lparr> stake_changes_db :=
       kv_put (stake_change_key X sid (sc_configuration_number c)) c (stake_changes_db txn) \<rparr>"

definition confirmed_change :: "u64 \<Rightarrow> block_hash \<Rightarrow> stake_change_request \<Rightarrow> stake_change_request" where
  "confirmed_change h bh c = c\<lparr> sc_checkpoint_block_height := Some h, sc_checkpoint_block_hash := Some bh \<rparr>"

fun confirm_loop ::
  "ext \<Rightarrow> subnet_id \<Rightarrow> u64 \<Rightarrow> u64 \<Rightarrow> block_hash \<Rightarrow> stake_change_request list
   \<Rightarrow> heed_db \<times> stake_change_request option \<times> stake_change_request list
   \<Rightarrow> heed_db \<times> stake_change_request option \<times> stake_change_request list" where
  "confirm_loop X sid max_number h bh [] acc = acc"
| "confirm_loop X sid max_number h bh (c # cs) (txn, last_confirmed, confirmed) =
     (if sc_checkpoint_block_height c = None \<and> sc_configuration_number c \<le> max_number
      then
        let c' = confirmed_change h bh c;
            txn' = txn\<lparr> stake_changes_db :=
              kv_put (stake_change_key X sid (sc_configuration_number c')) c' (stake_changes_db txn) \<rparr>;
            last' = (case last_confirmed of
                None \<Rightarrow> Some c'
              | Some l \<Rightarrow> if sc_configuration_number l < sc_configuration_number c' then Some c' else last_confirmed)
        in confirm_loop X sid max_number h bh cs (txn', last', confirmed @ [c'])
      else confirm_loop X sid max_number h bh cs (txn, last_confirmed, confirmed))"

definition confirm_stake_changes ::
  "ext \<Rightarrow> heed_db \<Rightarrow> subnet_id \<Rightarrow> u64 \<Rightarrow> u64 \<Rightarrow> block_hash \<Rightarrow> heed_db
   \<Rightarrow> heed_db \<times> stake_change_request option \<times> stake_change_request list" where
  "confirm_stake_changes X db sid max_configuration_number confirmed_block_height confirmed_block_hash txn =
     confirm_loop X sid max_configuration_number confirmed_block_height confirmed_block_hash
       (get_all_stake_changes X db sid) (txn, None, [])"

definition KILL_REQUEST_VALID_BLOCKS :: u64 where "KILL_REQUEST_VALID_BLOCKS = 36"

definition add_kill_request :: "ext \<Rightarrow> subnet_id \<Rightarrow> kill_request \<Rightarrow> heed_db \<Rightarrow> heed_db" where
  "add_kill_request X sid r txn =
     txn\<lparr> kill_requests_db :=
       kv_put (kill_request_key X sid (kr_block_height r) (kr_txid r)) r (kill_requests_db txn) \<rparr>"

definition get_valid_kill_requests :: "ext \<Rightarrow> heed_db \<Rightarrow> subnet_id \<Rightarrow> u64 \<Rightarrow> kill_request list" where
  "get_valid_kill_requests X db sid current_block_height =
     (let min_valid_height = word_saturating_sub current_block_height KILL_REQUEST_VALID_BLOCKS in
      filter (\<lambda>r. min_valid_height \<le> kr_block_height r)
        (map snd (kv_prefix_iter (kill_requests_prefix X sid) (kill_requests_db db))))"

definition get_token_balance_txn ::
  "ext \<Rightarrow> heed_db \<Rightarrow> subnet_id \<Rightarrow> eth_address \<Rightarrow> subnet_id \<Rightarrow> u256" where
  "get_token_balance_txn X txn home tok holder =
     (case kv_get (token_balances_db txn) (token_balance_key X home tok holder) of
        Some b \<Rightarrow> b | None \<Rightarrow> 0)"

definition get_token_balance ::
  "ext \<Rightarrow> heed_db \<Rightarrow> subnet_id \<Rightarrow> eth_address \<Rightarrow> subnet_id \<Rightarrow> u256" where
  "get_token_balance X db home tok holder = get_token_balance_txn X db home tok holder"

definition set_token_balance ::
  "ext \<Rightarrow> subnet_id \<Rightarrow> eth_address \<Rightarrow> subnet_id \<Rightarrow> u256 \<Rightarrow> heed_db \<Rightarrow> heed_db" where
  "set_token_balance X home tok holder b txn =
     txn\<lparr> token_balances_db := kv_put (token_balance_key X home tok holder) b (token_balances_db txn) \<rparr>"

section \<open>Consistency of the tables\<close>

definition db_ok :: "heed_db \<Rightarrow> bool" where
  "db_ok db \<longleftrightarrow> kv_ok (monitor_info db) \<and> kv_ok (subnet_db db) \<and> kv_ok (subnet_genesis_db db)
     \<and> kv_ok (checkpoints_db db) \<and> kv_ok (rootnet_msgs_db db) \<and> kv_ok (transactions_db db)
     \<and> kv_ok (committee_db db) \<and> kv_ok (stake_changes_db db) \<and> kv_ok (kill_requests_db db)
     \<and> kv_ok (reward_candidates_db db) \<and> kv_ok (reward_results_db db) \<and> kv_ok (token_balances_db db)"

lemma db_ok_empty [simp]: "db_ok empty_db"
  by (simp add: db_ok_def empty_db_def)

lemmas save_defs = set_last_processed_block_def save_subnet_genesis_info_def save_subnet_state_def
  add_rootnet_msg_def save_checkpoint_def save_transaction_def save_committee_def
  add_stake_change_def add_kill_request_def set_token_balance_def

lemmas get_defs = get_subnet_genesis_info_def get_subnet_state_def get_rootnet_msg_def
  get_checkpoint_def get_transaction_def get_committee_def get_stake_change_def

lemma db_ok_save [simp]:
  "db_ok db \<Longrightarrow> db_ok (set_last_processed_block h db)"
  "db_ok db \<Longrightarrow> db_ok (save_subnet_genesis_info X sid g db)"
  "db_ok db \<Longrightarrow> db_ok (save_subnet_state X sid s db)"
  "db_ok db \<Longrightarrow> db_ok (add_rootnet_msg X sid m db)"
  "db_ok db \<Longrightarrow> db_ok (save_checkpoint X sid cp n db)"
  "db_ok db \<Longrightarrow> db_ok (save_transaction X tx db)"
  "db_ok db \<Longrightarrow> db_ok (save_committee X sid n c db)"
  "db_ok db \<Longrightarrow> db_ok (add_stake_change X sid sc db)"
  "db_ok db \<Longrightarrow> db_ok (add_kill_request X sid kr db)"
  "db_ok db \<Longrightarrow> db_ok (set_token_balance X home tok holder b db)"
  by (simp_all add: db_ok_def save_defs akv.ok_put)

lemma db_ok_tables [simp]:
  "db_ok db \<Longrightarrow> kv_ok (subnet_db db)" "db_ok db \<Longrightarrow> kv_ok (subnet_genesis_db db)"
  "db_ok db \<Longrightarrow> kv_ok (rootnet_msgs_db db)" "db_ok db \<Longrightarrow> kv_ok (stake_changes_db db)"
  "db_ok db \<Longrightarrow> kv_ok (checkpoints_db db)" "db_ok db \<Longrightarrow> kv_ok (committee_db db)"
  "db_ok db \<Longrightarrow> kv_ok (kill_requests_db db)" "db_ok db \<Longrightarrow> kv_ok (token_balances_db db)"
  "db_ok db \<Longrightarrow> kv_ok (monitor_info db)" "db_ok db \<Longrightarrow> kv_ok (transactions_db db)"
  "db_ok db \<Longrightarrow> kv_ok (reward_candidates_db db)" "db_ok db \<Longrightarrow> kv_ok (reward_results_db db)"
  by (simp_all add: db_ok_def)

section \<open>Keys are injective\<close>

lemma u64_display_inject [simp]: "u64_display a = u64_display b \<longleftrightarrow> a = b"
  by (simp add: u64_display_def word_unat_eq_iff)

lemma u64_display_no_colon [simp]: "CHR '':'' \<notin> set (u64_display n)"
  by (simp add: u64_display_def)

lemma key_sep2:
  "ext_ok X \<Longrightarrow> subnet_id_display X a @ CHR '':'' # s = subnet_id_display X b @ CHR '':'' # t
     \<longleftrightarrow> a = b \<and> s = t"
  by (simp add: append_sep_inj)

lemma key_injects [simp]:
  "ext_ok X \<Longrightarrow> subnet_state_key X a = subnet_state_key X b \<longleftrightarrow> a = b"
  "ext_ok X \<Longrightarrow> subnet_genesis_info_key X a = subnet_genesis_info_key X b \<longleftrightarrow> a = b"
  "ext_ok X \<Longrightarrow> rootnet_msgs_key X a m = rootnet_msgs_key X b n \<longleftrightarrow> a = b \<and> m = n"
  "ext_ok X \<Longrightarrow> checkpoints_key X a m = checkpoints_key X b n \<longleftrightarrow> a = b \<and> m = n"
  "ext_ok X \<Longrightarrow> committee_key X a m = committee_key X b n \<longleftrightarrow> a = b \<and> m = n"
  "ext_ok X \<Longrightarrow> stake_change_key X a m = stake_change_key X b n \<longleftrightarrow> a = b \<and> m = n"
  "ext_ok X \<Longrightarrow> transaction_key X t = transaction_key X u \<longleftrightarrow> t = u"
  by (simp_all add: subnet_state_key_def subnet_genesis_info_key_def rootnet_msgs_key_def
      checkpoints_key_def committee_key_def stake_change_key_def transaction_key_def key_sep2)

lemma token_balance_key_inject [simp]:
  "ext_ok X \<Longrightarrow> token_balance_key X h t a = token_balance_key X h' t' a' \<longleftrightarrow> h = h' \<and> t = t' \<and> a = a'"
  by (simp add: token_balance_key_def key_sep2 append_sep_inj)

lemma kill_request_key_inject [simp]:
  "ext_ok X \<Longrightarrow> kill_request_key X a h t = kill_request_key X b h' t' \<longleftrightarrow> a = b \<and> h = h' \<and> t = t'"
  by (simp add: kill_request_key_def key_sep2 append_sep_inj)

section \<open>Reading after writing\<close>

lemma get_save_subnet_state [db_simps]:
  "ext_ok X \<Longrightarrow> db_ok db \<Longrightarrow> get_subnet_state X (save_subnet_state X sid s db) sid' =
     (if sid' = sid then Some s else get_subnet_state X db sid')"
  by (simp add: get_defs save_defs akv.get_put)

lemma get_save_genesis [db_simps]:
  "ext_ok X \<Longrightarrow> db_ok db \<Longrightarrow> get_subnet_genesis_info X (save_subnet_genesis_info X sid g db) sid' =
     (if sid' = sid then Some g else get_subnet_genesis_info X db sid')"
  by (simp add: get_defs save_defs akv.get_put)

lemma get_add_rootnet_msg [db_simps]:
  "ext_ok X \<Longrightarrow> db_ok db \<Longrightarrow> get_rootnet_msg X (add_rootnet_msg X sid m db) sid' n =
     (if sid' = sid \<and> n = rootnet_message_nonce m then Some m else get_rootnet_msg X db sid' n)"
  by (simp add: get_defs save_defs akv.get_put)

lemma get_save_checkpoint [db_simps]:
  "ext_ok X \<Longrightarrow> db_ok db \<Longrightarrow> get_checkpoint X (save_checkpoint X sid cp k db) sid' n =
     (if sid' = sid \<and> n = k then Some cp else get_checkpoint X db sid' n)"
  by (simp add: get_defs save_defs akv.get_put)

lemma get_save_committee [db_simps]:
  "ext_ok X \<Longrightarrow> db_ok db \<Longrightarrow> get_committee X (save_committee X sid k c db) sid' n =
     (if sid' = sid \<and> n = k then Some c else get_committee X db sid' n)"
  by (simp add: get_defs save_defs akv.get_put)

lemma get_add_stake_change [db_simps]:
  "ext_ok X \<Longrightarrow> db_ok db \<Longrightarrow> get_stake_change X (add_stake_change X sid c db) sid' n =
     (if sid' = sid \<and> n = sc_configuration_number c then Some c else get_stake_change X db sid' n)"
  by (simp add: get_defs save_defs akv.get_put)

lemma get_set_token_balance [db_simps]:
  "ext_ok X \<Longrightarrow> db_ok db \<Longrightarrow> get_token_balance_txn X (set_token_balance X h t a b db) h' t' a' =
     (if h' = h \<and> t' = t \<and> a' = a then b else get_token_balance_txn X db h' t' a')"
  by (simp add: get_token_balance_txn_def save_defs akv.get_put)

lemma get_set_last_processed_block [db_simps]:
  "db_ok db \<Longrightarrow> get_last_processed_block (set_last_processed_block h db) = h"
  by (simp add: get_last_processed_block_def save_defs akv.get_put)

lemmas db_unfold = get_defs save_defs akv.get_put akv.ok_put

lemma unat_of_nat_u64: "n < 2 ^ 64 \<Longrightarrow> unat (of_nat n :: u64) = n"
  by (simp add: unat_of_nat)

lemma less_append_prefix: "s @ t < s @ u \<longleftrightarrow> t < u" for s t u :: "'a::linorder list"
  by (induction s) simp_all

section \<open>Numbered logs\<close>

text \<open>
  Rootnet messages (from 0) and stake changes (from 1) are logs kept in one table for all subnets:
  an entry is stored under its subnet and number, and the next number is found by counting the
  entries under the subnet's prefix.  That count is right as long as the log has no gaps.
\<close>

definition dense_log :: "(u64 \<Rightarrow> string) \<Rightarrow> string \<Rightarrow> nat \<Rightarrow> nat \<Rightarrow> 'v kv \<Rightarrow> bool" where
  "dense_log key pre start n t \<longleftrightarrow> kv_ok t \<and> start + n \<le> 2 ^ 64 \<and>
     {k. prefix pre k \<and> kv_get t k \<noteq> None} = (\<lambda>i. key (of_nat i)) ` {start..<start + n}"

locale numbered_log =
  fixes key :: "'i \<Rightarrow> u64 \<Rightarrow> string" and pre :: "'i \<Rightarrow> string" and good :: "'i \<Rightarrow> bool"
  assumes key_inject: "good a \<Longrightarrow> good b \<Longrightarrow> key a i = key b j \<longleftrightarrow> a = b \<and> i = j"
    and pre_key: "good a \<Longrightarrow> good b \<Longrightarrow> prefix (pre a) (key b i) \<longleftrightarrow> a = b"
begin

lemma dense_empty: "start \<le> 2 ^ 64 \<Longrightarrow> dense_log (key a) (pre a) start 0 []"
  by (simp add: dense_log_def kv_get_def)

lemma key_of_nat_inj:
  assumes "good a"
  shows "inj_on (\<lambda>i. key a (of_nat i)) {..<2 ^ 64}"
proof (rule inj_onI)
  fix i j :: nat
  assume "i \<in> {..<2 ^ 64}" "j \<in> {..<2 ^ 64}" "key a (of_nat i) = key a (of_nat j)"
  then show "i = j"
    using assms key_inject [of a a] by (metis lessThan_iff unat_of_nat_u64)
qed

lemma dense_count:
  assumes "good a" and "dense_log (key a) (pre a) start n t"
  shows "length (kv_prefix_iter (pre a) t) = n"
proof -
  have le: "start + n \<le> 2 ^ 64" and ok: "kv_ok t"
    and eq: "{k. prefix (pre a) k \<and> kv_get t k \<noteq> None} = (\<lambda>i. key a (of_nat i)) ` {start..<start + n}"
    using assms(2) by (simp_all add: dense_log_def)
  have "inj_on (\<lambda>i. key a (of_nat i)) {start..<start + n}"
    using key_of_nat_inj [OF assms(1)] by (rule inj_on_subset) (use le in auto)
  then show ?thesis
    unfolding akv.length_iter [OF ok] eq by (simp add: card_image)
qed

lemma dense_append:
  assumes "good a" and "dense_log (key a) (pre a) start n t" and "start + n < 2 ^ 64"
  shows "dense_log (key a) (pre a) start (Suc n) (kv_put (key a (of_nat (start + n))) v t)"
proof -
  have ok: "kv_ok t"
    and eq: "{k. prefix (pre a) k \<and> kv_get t k \<noteq> None} = (\<lambda>i. key a (of_nat i)) ` {start..<start + n}"
    using assms(2) by (simp_all add: dense_log_def)
  have "{k. prefix (pre a) k \<and> kv_get (kv_put (key a (of_nat (start + n))) v t) k \<noteq> None}
      = insert (key a (of_nat (start + n))) {k. prefix (pre a) k \<and> kv_get t k \<noteq> None}"
    using ok pre_key [OF assms(1,1)] by (auto simp: akv.get_put)
  also have "\<dots> = (\<lambda>i. key a (of_nat i)) ` {start..<start + Suc n}"
    unfolding eq by (simp add: atLeastLessThanSuc)
  finally show ?thesis
    using ok assms(3) by (simp add: dense_log_def akv.ok_put)
qed

lemma dense_update:
  assumes "good a" "dense_log (key a) (pre a) start n t" "kv_get t k \<noteq> None"
  shows "dense_log (key a) (pre a) start n (kv_put k v t)"
proof -
  have ok: "kv_ok t" using assms(2) by (simp add: dense_log_def)
  then have "{k'. prefix (pre a) k' \<and> kv_get (kv_put k v t) k' \<noteq> None}
      = {k'. prefix (pre a) k' \<and> kv_get t k' \<noteq> None}"
    using assms(3) by (auto simp: akv.get_put)
  then show ?thesis using assms(2) ok by (simp add: dense_log_def akv.ok_put)
qed

lemma dense_other:
  assumes "good a" "good b" "a \<noteq> b" "dense_log (key a) (pre a) start n t"
  shows "dense_log (key a) (pre a) start n (kv_put (key b i) v t)"
proof -
  have ok: "kv_ok t" using assms(4) by (simp add: dense_log_def)
  then have "{k'. prefix (pre a) k' \<and> kv_get (kv_put (key b i) v t) k' \<noteq> None}
      = {k'. prefix (pre a) k' \<and> kv_get t k' \<noteq> None}"
    using pre_key [OF assms(1,2), of i] assms(3) by (auto simp: akv.get_put)
  then show ?thesis using assms(4) ok by (simp add: dense_log_def akv.ok_put)
qed

lemma dense_entry:
  assumes "good a" and "dense_log (key a) (pre a) start n t"
  shows "kv_get t (key a i) \<noteq> None \<longleftrightarrow> start \<le> unat i \<and> unat i < start + n"
proof -
  have eq: "{k. prefix (pre a) k \<and> kv_get t k \<noteq> None} = (\<lambda>i. key a (of_nat i)) ` {start..<start + n}"
    and le: "start + n \<le> 2 ^ 64"
    using assms(2) by (simp_all add: dense_log_def)
  have "kv_get t (key a i) \<noteq> None \<longleftrightarrow> key a i \<in> {k. prefix (pre a) k \<and> kv_get t k \<noteq> None}"
    using pre_key [OF assms(1,1)] by simp
  also have "\<dots> \<longleftrightarrow> (\<exists>j \<in> {start..<start + n}. i = of_nat j)"
    unfolding eq using key_inject [OF assms(1,1)] by auto
  also have "\<dots> \<longleftrightarrow> unat i \<in> {start..<start + n}"
  proof
    assume "\<exists>j \<in> {start..<start + n}. i = of_nat j"
    then obtain j where j: "j \<in> {start..<start + n}" "i = of_nat j" by blast
    then have "unat i = j" using le by (simp add: unat_of_nat_u64)
    with j show "unat i \<in> {start..<start + n}" by simp
  next
    assume "unat i \<in> {start..<start + n}"
    then show "\<exists>j \<in> {start..<start + n}. i = of_nat j" by (intro bexI [of _ "unat i"]) simp_all
  qed
  finally show ?thesis by simp
qed

end

lemma rootnet_prefix_key:
  "ext_ok X \<Longrightarrow> native_id a \<Longrightarrow> native_id b \<Longrightarrow>
   prefix (rootnet_msgs_prefix X a) (rootnet_msgs_key X b i) \<longleftrightarrow> a = b"
  using subnet_id_display_prefix_free [of X a b] by (auto simp: rootnet_msgs_prefix_def rootnet_msgs_key_def)

lemma stake_prefix_key:
  "ext_ok X \<Longrightarrow> native_id a \<Longrightarrow> native_id b \<Longrightarrow>
   prefix (stake_changes_prefix X a) (stake_change_key X b i) \<longleftrightarrow> a = b"
  using subnet_id_display_prefix_free [of X a b] by (auto simp: stake_changes_prefix_def stake_change_key_def)

interpretation rootnet_log: numbered_log "rootnet_msgs_key X" "rootnet_msgs_prefix X"
    "\<lambda>sid. ext_ok X \<and> native_id sid" for X
  by unfold_locales (simp_all add: rootnet_prefix_key)

interpretation stake_log: numbered_log "stake_change_key X" "stake_changes_prefix X"
    "\<lambda>sid. ext_ok X \<and> native_id sid" for X
  by unfold_locales (simp_all add: stake_prefix_key)

abbreviation dense_rootnet :: "ext \<Rightarrow> subnet_id \<Rightarrow> nat \<Rightarrow> heed_db \<Rightarrow> bool" where
  "dense_rootnet X sid n db \<equiv>
     dense_log (rootnet_msgs_key X sid) (rootnet_msgs_prefix X sid) 0 n (rootnet_msgs_db db)"

abbreviation dense_stake :: "ext \<Rightarrow> subnet_id \<Rightarrow> nat \<Rightarrow> heed_db \<Rightarrow> bool" where
  "dense_stake X sid n db \<equiv>
     dense_log (stake_change_key X sid) (stake_changes_prefix X sid) 1 n (stake_changes_db db)"

lemma next_rootnet_nonce:
  assumes "ext_ok X" "native_id sid" "dense_rootnet X sid n db"
  shows "get_next_rootnet_msg_nonce_txn X db sid = of_nat n"
    and "get_next_rootnet_msg_nonce X db sid = of_nat n"
  using rootnet_log.dense_count [of X sid 0 n "rootnet_msgs_db db"] assms
  by (simp_all add: get_next_rootnet_msg_nonce_txn_def get_next_rootnet_msg_nonce_def
      get_last_rootnet_msg_nonce_txn_def)

lemma next_stake_number:
  assumes "ext_ok X" "native_id sid" "dense_stake X sid n db"
  shows "get_last_stake_change_configuration_number X db sid = of_nat n"
    and "get_next_stake_change_configuration_number X db sid = of_nat (Suc n)"
  using stake_log.dense_count [of X sid 1 n "stake_changes_db db"] assms
  by (simp_all add: get_next_stake_change_configuration_number_def
      get_last_stake_change_configuration_number_def GENESIS_COMMITTEE_CONF_NUM_def)

section \<open>Confirming stake changes\<close>

definition stake_keyed :: "ext \<Rightarrow> subnet_id \<Rightarrow> heed_db \<Rightarrow> bool" where
  "stake_keyed X sid db \<longleftrightarrow>
     (\<forall>n c. get_stake_change X db sid n = Some c \<longrightarrow> sc_configuration_number c = n)"

definition to_confirm :: "u64 \<Rightarrow> stake_change_request \<Rightarrow> bool" where
  "to_confirm mx c \<longleftrightarrow> sc_checkpoint_block_height c = None \<and> sc_configuration_number c \<le> mx"

definition newest :: "stake_change_request option \<Rightarrow> stake_change_request \<Rightarrow> stake_change_request option" where
  "newest l c = (case l of None \<Rightarrow> Some c
     | Some d \<Rightarrow> if sc_configuration_number d < sc_configuration_number c then Some c else l)"

lemma confirm_loop_eq:
  "confirm_loop X sid mx h bh cs (txn, l, conf) =
     (let ds = map (confirmed_change h bh) (filter (to_confirm mx) cs) in
      (txn\<lparr> stake_changes_db := foldl (\<lambda>t c. kv_put (stake_change_key X sid (sc_configuration_number c)) c t)
         (stake_changes_db txn) ds \<rparr>, foldl newest l ds, conf @ ds))"
proof (induction cs arbitrary: txn l conf)
  case Nil
  then show ?case by simp
next
  case (Cons c cs)
  show ?case
    by (simp add: Cons.IH Let_def to_confirm_def newest_def split: option.splits)
qed

lemma kv_ok_foldl_put: "kv_ok t \<Longrightarrow> kv_ok (foldl (\<lambda>t c. kv_put (f c) c t) t cs)"
  by (induction cs arbitrary: t) (simp_all add: akv.ok_put)

lemma kv_get_foldl_put:
  assumes "kv_ok t" and "distinct (map f cs)"
  shows "kv_get (foldl (\<lambda>t c. kv_put (f c) c t) t cs) k =
           (case find (\<lambda>c. f c = k) cs of Some c \<Rightarrow> Some c | None \<Rightarrow> kv_get t k)"
  using assms
proof (induction cs arbitrary: t)
  case Nil
  then show ?case by simp
next
  case (Cons c cs)
  have IH: "kv_get (foldl (\<lambda>t c. kv_put (f c) c t) (kv_put (f c) c t) cs) k =
      (case find (\<lambda>c. f c = k) cs of Some c \<Rightarrow> Some c | None \<Rightarrow> kv_get (kv_put (f c) c t) k)"
    using Cons.prems by (intro Cons.IH) (simp_all add: akv.ok_put)
  show ?case
  proof (cases "f c = k")
    case True
    then have "find (\<lambda>c. f c = k) cs = None"
      using Cons.prems(2) by (auto simp: find_None_iff image_mem_iff)
    with IH True Cons.prems(1) show ?thesis by (simp add: akv.get_put)
  next
    case False
    with IH Cons.prems(1) show ?thesis by (auto simp: akv.get_put split: option.splits)
  qed
qed

lemma foldl_newest_max:
  "foldl newest l ds = None \<longleftrightarrow> l = None \<and> ds = []"
  "foldl newest l ds = Some c \<Longrightarrow> (Some c = l \<or> c \<in> set ds)
     \<and> (\<forall>d \<in> set ds. sc_configuration_number d \<le> sc_configuration_number c)
     \<and> (\<forall>d. l = Some d \<longrightarrow> sc_configuration_number d \<le> sc_configuration_number c)"
proof (induction ds arbitrary: l)
  case Nil
  {
    case 1
    then show ?case by simp
  next
    case 2
    then show ?case by simp
  }
next
  case (Cons d ds)
  {
    case 1
    show ?case using Cons.IH(1) by (auto simp: newest_def split: option.splits)
  next
    case 2
    then have "foldl newest (newest l d) ds = Some c" by simp
    from Cons.IH(2) [OF this] show ?case
      by (cases l) (auto simp: newest_def split: if_splits)
  }
qed

lemma stake_changes_mem:
  assumes "ext_ok X" "native_id sid" "dense_stake X sid n db" "stake_keyed X sid db"
  shows "c \<in> set (get_all_stake_changes X db sid) \<longleftrightarrow>
           get_stake_change X db sid (sc_configuration_number c) = Some c"
    and "distinct (map (\<lambda>c. stake_change_key X sid (sc_configuration_number c)) (get_all_stake_changes X db sid))"
proof -
  let ?t = "stake_changes_db db" and ?p = "stake_changes_prefix X sid"
  have ok: "kv_ok ?t" and eq: "{k. prefix ?p k \<and> kv_get ?t k \<noteq> None}
      = (\<lambda>i. stake_change_key X sid (of_nat i)) ` {1..<1 + n}"
    using assms(3) by (simp_all add: dense_log_def)
  have key: "k = stake_change_key X sid (sc_configuration_number c)"
    if k: "prefix ?p k" "kv_get ?t k = Some c" for k c
  proof -
    from k eq obtain i where i: "k = stake_change_key X sid (of_nat i)" by auto
    then have "sc_configuration_number c = of_nat i"
      using k(2) assms(4) unfolding stake_keyed_def get_stake_change_def by blast
    with i show ?thesis by simp
  qed
  show "c \<in> set (get_all_stake_changes X db sid) \<longleftrightarrow>
      get_stake_change X db sid (sc_configuration_number c) = Some c"
    using akv.iter_values [OF ok, of c ?p] key stake_prefix_key [OF assms(1,2,2)]
    by (auto simp: get_all_stake_changes_def get_stake_change_def)
  have "map (\<lambda>c. stake_change_key X sid (sc_configuration_number c)) (get_all_stake_changes X db sid)
      = map fst (kv_prefix_iter ?p ?t)"
    using key akv.iter_mem [OF ok, of _ _ ?p] by (auto simp: get_all_stake_changes_def)
  moreover have "distinct (map fst (kv_prefix_iter ?p ?t))"
    using akv.iter_sorted [OF ok, of ?p] by (simp add: strict_sorted_iff)
  ultimately show "distinct (map (\<lambda>c. stake_change_key X sid (sc_configuration_number c))
      (get_all_stake_changes X db sid))" by simp
qed

lemma confirm_stake_changes_spec:
  assumes "ext_ok X" "native_id sid" "dense_stake X sid n db" "stake_keyed X sid db"
    and "stake_changes_db txn = stake_changes_db db"
    and "confirm_stake_changes X db sid mx h bh txn = (txn', l, conf)"
  shows "\<exists>t. txn' = txn\<lparr> stake_changes_db := t \<rparr> \<and> kv_ok t"
    and "get_stake_change X txn' sid k =
           map_option (\<lambda>c. if to_confirm mx c then confirmed_change h bh c else c) (get_stake_change X db sid k)"
    and "set conf = confirmed_change h bh ` {c. to_confirm mx c
           \<and> get_stake_change X db sid (sc_configuration_number c) = Some c}"
    and "l = foldl newest None conf"
    and "distinct (map sc_configuration_number conf)"
proof -
  let ?cs = "get_all_stake_changes X db sid" and ?f = "\<lambda>c. stake_change_key X sid (sc_configuration_number c)"
  define ds where "ds = map (confirmed_change h bh) (filter (to_confirm mx) ?cs)"
  have num [simp]: "sc_configuration_number (confirmed_change h bh c) = sc_configuration_number c" for c
    by (simp add: confirmed_change_def)
  have ok: "kv_ok (stake_changes_db db)" using assms(3) by (simp add: dense_log_def)
  have eqs: "txn' = txn\<lparr> stake_changes_db := foldl (\<lambda>t c. kv_put (?f c) c t) (stake_changes_db db) ds \<rparr>"
    "l = foldl newest None ds" "conf = ds"
    using assms(5,6) by (auto simp: confirm_stake_changes_def confirm_loop_eq Let_def ds_def)
  show "\<exists>t. txn' = txn\<lparr> stake_changes_db := t \<rparr> \<and> kv_ok t"
    using kv_ok_foldl_put [OF ok, of ?f ds] by (intro exI conjI) (rule eqs(1))
  show "l = foldl newest None conf" using eqs by simp
  note mem = stake_changes_mem [OF assms(1-4)]
  show "set conf = confirmed_change h bh ` {c. to_confirm mx c
      \<and> get_stake_change X db sid (sc_configuration_number c) = Some c}"
    using eqs(3) mem(1) by (auto simp: ds_def)
  have "map ?f ds = map ?f (filter (to_confirm mx) ?cs)" by (simp add: ds_def o_def)
  then have dist: "distinct (map ?f ds)" using mem(2) by (simp add: distinct_map_filter)
  have "map ?f ds = map (stake_change_key X sid) (map sc_configuration_number ds)" by simp
  with dist show "distinct (map sc_configuration_number conf)" using eqs(3) by (metis distinct_map)
  have "get_stake_change X txn' sid k =
      (case find (\<lambda>c. ?f c = stake_change_key X sid k) ds of
         Some c \<Rightarrow> Some c | None \<Rightarrow> get_stake_change X db sid k)"
    unfolding get_stake_change_def eqs(1) using kv_get_foldl_put [OF ok dist] by simp
  also have "\<dots> = map_option (\<lambda>c. if to_confirm mx c then confirmed_change h bh c else c)
      (get_stake_change X db sid k)"
  proof (cases "find (\<lambda>c. ?f c = stake_change_key X sid k) ds")
    case None
    then have no: "\<forall>d \<in> set ds. sc_configuration_number d \<noteq> k"
      using assms(1) by (simp add: find_None_iff)
    show ?thesis
    proof (cases "get_stake_change X db sid k")
      case (Some c)
      then have ck: "sc_configuration_number c = k" using assms(4) by (simp add: stake_keyed_def)
      with Some have "c \<in> set ?cs" using mem(1) by simp
      with no ck have "\<not> to_confirm mx c" by (auto simp: ds_def)
      with None Some show ?thesis by simp
    qed (use None in simp)
  next
    case (Some d)
    then have "d \<in> set ds" "sc_configuration_number d = k"
      using assms(1) by (auto simp: find_Some_iff)
    then obtain c where "c \<in> set ?cs" "to_confirm mx c" "d = confirmed_change h bh c"
      "sc_configuration_number c = k" by (auto simp: ds_def)
    with Some show ?thesis using mem(1) by simp
  qed
  finally show "get_stake_change X txn' sid k =
      map_option (\<lambda>c. if to_confirm mx c then confirmed_change h bh c else c) (get_stake_change X db sid k)" .
qed

section \<open>Properties\<close>

text \<open>
  C9. Confirming the stake changes up to a configuration number marks exactly the entries of that
  subnet that are unconfirmed and not beyond the number, leaves every other entry and every other
  table as it was, returns exactly the marked entries, each once, and reports as last confirmed change the
  one of them with the highest number.
\<close>

theorem confirm_stake_changes_correct:
  assumes "ext_ok X" "native_id sid" "dense_stake X sid n db" "stake_keyed X sid db"
    and "confirm_stake_changes X db sid mx h bh db = (db', l, conf)"
  shows "(\<forall>k. get_stake_change X db' sid k = map_option
            (\<lambda>c. if sc_checkpoint_block_height c = None \<and> k \<le> mx then confirmed_change h bh c else c)
            (get_stake_change X db sid k))
       \<and> db'\<lparr> stake_changes_db := stake_changes_db db \<rparr> = db
       \<and> set conf = {confirmed_change h bh c |c k. get_stake_change X db sid k = Some c \<and> sc_checkpoint_block_height c = None \<and> k \<le> mx}
       \<and> distinct (map sc_configuration_number conf)
       \<and> (l = None \<longleftrightarrow> conf = [])
       \<and> (\<forall>c. l = Some c \<longrightarrow> c \<in> set conf \<and>
            (\<forall>d \<in> set conf. sc_configuration_number d \<le> sc_configuration_number c))"
proof (intro conjI allI impI)
  note spec = confirm_stake_changes_spec [OF assms(1-4) refl assms(5)]
  show "get_stake_change X db' sid k = map_option
      (\<lambda>c. if sc_checkpoint_block_height c = None \<and> k \<le> mx then confirmed_change h bh c else c)
      (get_stake_change X db sid k)" for k
    using spec(2) [of k] assms(4) unfolding stake_keyed_def
    by (cases "get_stake_change X db sid k") (simp_all add: to_confirm_def)
  show "db'\<lparr> stake_changes_db := stake_changes_db db \<rparr> = db" using spec(1) by auto
  show "set conf = {confirmed_change h bh c |c k. get_stake_change X db sid k = Some c \<and> sc_checkpoint_block_height c = None \<and> k \<le> mx}"
    using assms(4) unfolding spec(3) stake_keyed_def by (auto simp: to_confirm_def)
  show "distinct (map sc_configuration_number conf)" by (rule spec(5))
  show "l = None \<longleftrightarrow> conf = []" using spec(4) foldl_newest_max(1) [of None conf] by simp
  fix c assume "l = Some c"
  then have "foldl newest None conf = Some c" using spec(4) by simp
  from foldl_newest_max(2) [OF this] show "c \<in> set conf"
    and "\<forall>d \<in> set conf. sc_configuration_number d \<le> sc_configuration_number c" by simp_all
qed

definition demo_committee :: "u64 \<Rightarrow> subnet_committee" where
  "demo_committee n = \<lparr> cm_configuration_number = n, cm_threshold = 4,
     cm_validators = [demo_validator 1 5], cm_multisig_address = ''bcrt1p'' \<rparr>"

definition demo_stake_change :: "u64 \<Rightarrow> stake_change_request" where
  "demo_stake_change n = \<lparr> sc_change = Deposit 10000, sc_validator_xpk = [1],
     sc_validator_subnet_address = [1], sc_configuration_number = n,
     sc_committee_after_change = demo_committee n, sc_block_height = 7, sc_block_hash = [],
     sc_checkpoint_block_height = None, sc_checkpoint_block_hash = None, sc_txid = [1] \<rparr>"

theorem confirm_stake_changes_correct_witness:
  "\<exists>db' l conf. confirm_stake_changes demo_ext
       (add_stake_change demo_ext demo_id (demo_stake_change 1) empty_db) demo_id 3 9 [5]
       (add_stake_change demo_ext demo_id (demo_stake_change 1) empty_db) = (db', l, conf)
   \<and> get_stake_change demo_ext db' demo_id 1 = Some (confirmed_change 9 [5] (demo_stake_change 1))
   \<and> l = Some (confirmed_change 9 [5] (demo_stake_change 1))"
proof -
  let ?db = "add_stake_change demo_ext demo_id (demo_stake_change 1) empty_db"
  have num: "sc_configuration_number (demo_stake_change 1) = 1" by (simp add: demo_stake_change_def)
  have d: "dense_stake demo_ext demo_id 1 ?db"
    using stake_log.dense_append [of demo_ext demo_id 1 0 "[]" "demo_stake_change 1"] demo_ext_ok
    by (simp add: stake_log.dense_empty add_stake_change_def num empty_db_def)
  have get: "get_stake_change demo_ext ?db demo_id k = (if k = 1 then Some (demo_stake_change 1) else None)" for k
    using demo_ext_ok by (simp add: get_add_stake_change num) (simp add: get_stake_change_def empty_db_def kv_get_def)
  have k: "stake_keyed demo_ext demo_id ?db" by (auto simp: stake_keyed_def get num)
  obtain db' l conf where c: "confirm_stake_changes demo_ext ?db demo_id 3 9 [5] ?db = (db', l, conf)"
    by (cases "confirm_stake_changes demo_ext ?db demo_id 3 9 [5] ?db") auto
  note spec = confirm_stake_changes_correct [OF demo_ext_ok demo_id_native d k c]
  have n: "sc_checkpoint_block_height (demo_stake_change 1) = None" by (simp add: demo_stake_change_def)
  from spec have "get_stake_change demo_ext db' demo_id 1 = Some (confirmed_change 9 [5] (demo_stake_change 1))"
    by (simp add: get n)
  moreover from spec have "set conf = {confirmed_change 9 [5] (demo_stake_change 1)}" by (auto simp: get n split: if_splits)
  then have "l = Some (confirmed_change 9 [5] (demo_stake_change 1))" using spec by (cases l) auto
  ultimately show ?thesis using c by blast
qed

text \<open>
  The iterators return entries in the order of their rendered keys and not of their numbers: with
  messages 2 and 10 in the table, \<open>get_all_rootnet_msgs\<close> yields message 10 first.
\<close>

theorem rootnet_msgs_not_in_nonce_order:
  assumes "ext_ok X" "native_id sid"
    and "rootnet_message_nonce m2 = 2" "rootnet_message_nonce m10 = 10"
  shows "get_all_rootnet_msgs X (add_rootnet_msg X sid m10 (add_rootnet_msg X sid m2 empty_db)) sid = [m10, m2]"
proof -
  have "rootnet_msgs_key X sid 10 < rootnet_msgs_key X sid 2"
    by (simp add: rootnet_msgs_key_def u64_display_def dec.simps digit_char_def less_append_prefix less_char_def)
  then show ?thesis
    using rootnet_prefix_key [OF assms(1,2,2)] assms(3,4)
    by (simp add: get_all_rootnet_msgs_def add_rootnet_msg_def empty_db_def kv_prefix_iter_def)
qed

definition demo_fund :: ipc_fund_subnet_msg where
  "demo_fund = \<lparr> fm_subnet_id = demo_id, fm_amount = 5, fm_address = [1] \<rparr>"

theorem rootnet_msgs_not_in_nonce_order_witness:
  "get_all_rootnet_msgs demo_ext (add_rootnet_msg demo_ext demo_id (FundSubnet demo_fund 1 [] 10 [])
     (add_rootnet_msg demo_ext demo_id (FundSubnet demo_fund 1 [] 2 []) empty_db)) demo_id
   = [FundSubnet demo_fund 1 [] 10 [], FundSubnet demo_fund 1 [] 2 []]"
  by (rule rootnet_msgs_not_in_nonce_order) (simp_all add: demo_ext_ok)

end
