(* ===== verification/Batch.thy ===== *)
theory Batch
  imports Db
begin

text \<open>
  Batch transfers of a checkpoint (\<open>src/src/ipc_lib.rs\<close>): the validation of the ERC20 records
  against the balance ledger and \<open>IpcBatchTransferMsg::save_to_db\<close>, which applies them.  A
  validation keeps running balances in a map from rendered token keys; the application works on the
  write transaction.  The properties relate the two, and both to the ledger seen as a function from
  token and holder to a natural number.
\<close>

section \<open>Messages\<close>

record ipc_cross_subnet_transfer =
  xt_amount :: amount
  xt_destination_subnet_id :: subnet_id
  xt_subnet_multisig_address :: "btc_address option"
  xt_subnet_user_address :: eth_address

record ipc_batch_transfer_msg =
  bt_subnet_id :: subnet_id
  bt_checkpoint_txid :: txid
  bt_checkpoint_vout :: u32
  bt_transfers :: "ipc_cross_subnet_transfer list"
  bt_token_registrations :: "ipc_erc_token_registration list"
  bt_token_supply_adjustments :: "ipc_erc_supply_adjustment list"
  bt_token_transfers :: "ipc_cross_subnet_erc_transfer list"

definition eth_zero :: eth_address where "eth_zero = replicate 20 0"

definition i256_is_negative :: "256 word \<Rightarrow> bool" where
  "i256_is_negative d \<longleftrightarrow> sint d < 0"

definition i256_abs :: "256 word \<Rightarrow> u256" where
  "i256_abs d = (if sint d < 0 then - d else d)"

section \<open>Validation of the ERC records\<close>

definition erc_key :: "ext \<Rightarrow> subnet_id \<Rightarrow> eth_address \<Rightarrow> string" where
  "erc_key X home tok = subnet_id_display X home @ '':'' @ eth_display X tok"

text \<open>The running balance of the source subnet: the entry of the map, fetched from the database if vacant.\<close>

definition running_balance ::
  "ext \<Rightarrow> heed_db \<Rightarrow> subnet_id \<Rightarrow> (string \<rightharpoonup> u256) \<Rightarrow> subnet_id \<Rightarrow> eth_address \<Rightarrow> u256" where
  "running_balance X db src m home tok =
     (case m (erc_key X home tok) of Some b \<Rightarrow> b | None \<Rightarrow> get_token_balance X db home tok src)"

definition validate_registration ::
  "ext \<Rightarrow> heed_db \<Rightarrow> subnet_id \<Rightarrow> (string \<rightharpoonup> u256) \<Rightarrow> ipc_erc_token_registration
   \<Rightarrow> ipc_validate_error + (string \<rightharpoonup> u256)" where
  "validate_registration X db src m etr =
     (let key = erc_key X src (er_home_token_address etr) in
      if m key \<noteq> None then Inl (InvalidMsg ''Token registered more than once in the same checkpoint'')
      else if 0 < get_token_balance X db src (er_home_token_address etr) src
      then Inl (InvalidMsg ''Token is already registered'')
      else Inr (m(key \<mapsto> er_initial_supply etr)))"

definition validate_mint ::
  "ext \<Rightarrow> heed_db \<Rightarrow> subnet_id \<Rightarrow> (string \<rightharpoonup> u256) \<Rightarrow> ipc_erc_supply_adjustment
   \<Rightarrow> ipc_validate_error + (string \<rightharpoonup> u256)" where
  "validate_mint X db src m ets =
     (if i256_is_negative (ea_delta ets) then Inr m
      else let mint_amount = i256_abs (ea_delta ets) in
        if mint_amount = 0 then Inr m
        else Inr (m(erc_key X src (ea_home_token_address ets) \<mapsto>
               word_saturating_add (running_balance X db src m src (ea_home_token_address ets)) mint_amount)))"

definition validate_burn ::
  "ext \<Rightarrow> heed_db \<Rightarrow> subnet_id \<Rightarrow> (string \<rightharpoonup> u256) \<Rightarrow> ipc_erc_supply_adjustment
   \<Rightarrow> ipc_validate_error + (string \<rightharpoonup> u256)" where
  "validate_burn X db src m ets =
     (if \<not> i256_is_negative (ea_delta ets) then Inr m
      else
        let burn_amount = i256_abs (ea_delta ets);
            bal = running_balance X db src m src (ea_home_token_address ets)
        in if bal < burn_amount then Inl (InvalidMsg ''Burn exceeds balance for token'')
           else Inr (m(erc_key X src (ea_home_token_address ets) \<mapsto> bal - burn_amount)))"

definition validate_erc_transfer ::
  "ext \<Rightarrow> heed_db \<Rightarrow> subnet_id \<Rightarrow> (string \<rightharpoonup> u256) \<Rightarrow> ipc_cross_subnet_erc_transfer
   \<Rightarrow> ipc_validate_error + (string \<rightharpoonup> u256)" where
  "validate_erc_transfer X db src m etx =
     (if et_amount etx = 0 then Inl (InvalidMsg ''Zero-amount ETX'')
      else
        let bal = running_balance X db src m (et_home_subnet_id etx) (et_home_token_address etx)
        in if bal < et_amount etx then Inl (InvalidMsg ''Insufficient balance for token'')
           else Inr (m(erc_key X (et_home_subnet_id etx) (et_home_token_address etx) \<mapsto> bal - et_amount etx)))"

definition validate_erc_batch_data ::
  "ext \<Rightarrow> subnet_id \<Rightarrow> ipc_erc_token_registration list \<Rightarrow> ipc_erc_supply_adjustment list
   \<Rightarrow> ipc_cross_subnet_erc_transfer list \<Rightarrow> heed_db \<Rightarrow> ipc_validate_error + unit" where
  "validate_erc_batch_data X src token_registrations token_supply_adjustments token_transfers db =
     res_bind (res_fold (validate_registration X db src) Map.empty token_registrations) (\<lambda>m1.
     res_bind (res_fold (validate_mint X db src) m1 token_supply_adjustments) (\<lambda>m2.
     res_bind (res_fold (validate_burn X db src) m2 token_supply_adjustments) (\<lambda>m3.
     res_bind (res_fold (validate_erc_transfer X db src) m3 token_transfers) (\<lambda>m4. Inr ()))))"

section \<open>Validation of the message\<close>

definition validate_batch_transfer :: "ipc_cross_subnet_transfer \<Rightarrow> ipc_validate_error + unit" where
  "validate_batch_transfer t =
     (if xt_amount t = 0 then Inl (InvalidField ''transfer.amount'' ''must be greater than zero'')
      else if xt_subnet_user_address t = eth_zero
      then Inl (InvalidField ''transfer.subnet_user_address'' ''must not be zero'')
      else Inr ())"

definition validate_batch_registration :: "ipc_erc_token_registration \<Rightarrow> ipc_validate_error + unit" where
  "validate_batch_registration etr =
     (if er_home_token_address etr = eth_zero
      then Inl (InvalidField ''token_registration.home_token_address'' ''must not be zero'')
      else if er_name etr = [] then Inl (InvalidField ''token_registration.name'' ''must not be empty'')
      else if er_symbol etr = [] then Inl (InvalidField ''token_registration.symbol'' ''must not be empty'')
      else Inr ())"

definition validate_batch_erc :: "ipc_cross_subnet_erc_transfer \<Rightarrow> ipc_validate_error + unit" where
  "validate_batch_erc etx =
     (if et_home_token_address etx = eth_zero
      then Inl (InvalidField ''erc_transfer.home_token_address'' ''must not be zero'')
      else if et_recipient etx = eth_zero
      then Inl (InvalidField ''erc_transfer.recipient'' ''must not be zero'')
      else if et_amount etx = 0
      then Inl (InvalidField ''erc_transfer.amount'' ''must be greater than zero'')
      else Inr ())"

definition batch_validate :: "ipc_batch_transfer_msg \<Rightarrow> ipc_validate_error + unit" where
  "batch_validate m =
     (if bt_checkpoint_txid m = replicate 32 0
      then Inl (InvalidField ''checkpoint_txid'' ''must not be all zeros'')
      else if bt_transfers m = [] \<and> bt_token_registrations m = [] \<and> bt_token_supply_adjustments m = []
              \<and> bt_token_transfers m = []
      then Inl (InvalidMsg ''Batch transfer message must have at least one transfer'')
      else
        res_bind (res_mapM validate_batch_transfer (bt_transfers m)) (\<lambda>_.
        res_bind (res_mapM validate_batch_registration (bt_token_registrations m)) (\<lambda>_.
        res_bind (res_mapM validate_batch_erc (bt_token_transfers m)) (\<lambda>_. Inr ()))))"

section \<open>Application\<close>

definition batch_fund :: "ext \<Rightarrow> u64 \<Rightarrow> block_hash \<Rightarrow> txid \<Rightarrow> ipc_cross_subnet_transfer \<Rightarrow> heed_db \<Rightarrow> heed_db" where
  "batch_fund X h bh tid t txn =
     (let dest = xt_destination_subnet_id t;
          fund_msg = \<lparr> fm_subnet_id = dest, fm_amount = xt_amount t, fm_address = xt_subnet_user_address t \<rparr>;
          nonce = get_next_rootnet_msg_nonce_txn X txn dest
      in add_rootnet_msg X dest (FundSubnet fund_msg h bh nonce tid) txn)"

definition batch_announce ::
  "ext \<Rightarrow> subnet_id \<Rightarrow> u64 \<Rightarrow> block_hash \<Rightarrow> txid \<Rightarrow> ipc_erc_token_registration \<Rightarrow> subnet_state \<Rightarrow> heed_db \<Rightarrow> heed_db" where
  "batch_announce X src h bh tid etr subnet txn =
     (if ss_id subnet = src then txn
      else
        let nonce = get_next_rootnet_msg_nonce_txn X txn (ss_id subnet)
        in add_rootnet_msg X (ss_id subnet) (ErcRegistration src etr h bh nonce tid) txn)"

definition batch_register ::
  "ext \<Rightarrow> subnet_id \<Rightarrow> subnet_state list \<Rightarrow> u64 \<Rightarrow> block_hash \<Rightarrow> txid \<Rightarrow> ipc_erc_token_registration
   \<Rightarrow> heed_db \<Rightarrow> heed_db" where
  "batch_register X src all_subnets h bh tid etr txn =
     fold (batch_announce X src h bh tid etr) all_subnets
       (set_token_balance X src (er_home_token_address etr) src (er_initial_supply etr) txn)"

definition batch_mint :: "ext \<Rightarrow> subnet_id \<Rightarrow> ipc_erc_supply_adjustment \<Rightarrow> heed_db \<Rightarrow> heed_db" where
  "batch_mint X src ems txn =
     (let current_balance = get_token_balance_txn X txn src (ea_home_token_address ems) src;
          new_balance = word_saturating_add current_balance (i256_abs (ea_delta ems))
      in set_token_balance X src (ea_home_token_address ems) src new_balance txn)"

definition batch_burn ::
  "ext \<Rightarrow> subnet_id \<Rightarrow> heed_db \<Rightarrow> ipc_erc_supply_adjustment \<Rightarrow> ipc_lib_error + heed_db" where
  "batch_burn X src txn ems =
     (let current_balance = get_token_balance_txn X txn src (ea_home_token_address ems) src in
      case word_checked_sub current_balance (i256_abs (ea_delta ems)) of
        None \<Rightarrow> Inl (IpcValidateError (InvalidMsg ''ETS burn underflow''))
      | Some new_balance \<Rightarrow>
          Inr (set_token_balance X src (ea_home_token_address ems) src new_balance txn))"

definition batch_erc_transfer ::
  "ext \<Rightarrow> subnet_id \<Rightarrow> u64 \<Rightarrow> block_hash \<Rightarrow> txid \<Rightarrow> heed_db \<Rightarrow> ipc_cross_subnet_erc_transfer
   \<Rightarrow> ipc_lib_error + heed_db" where
  "batch_erc_transfer X src h bh tid txn etx =
     (if et_amount etx = 0 then Inr txn
      else
        let home = et_home_subnet_id etx; tok = et_home_token_address etx;
            dest = et_destination_subnet_id etx;
            src_balance = get_token_balance_txn X txn home tok src
        in case word_checked_sub src_balance (et_amount etx) of
             None \<Rightarrow> Inl (IpcValidateError (InvalidMsg ''ETX underflow''))
           | Some new_src \<Rightarrow>
               let txn1 = set_token_balance X home tok src new_src txn;
                   dst_balance = get_token_balance_txn X txn1 home tok dest;
                   new_dst = (case word_checked_add dst_balance (et_amount etx) of
                                Some b \<Rightarrow> b | None \<Rightarrow> - 1);
                   txn2 = set_token_balance X home tok dest new_dst txn1;
                   nonce = get_next_rootnet_msg_nonce_txn X txn2 dest
               in Inr (add_rootnet_msg X dest (ErcTransfer etx h bh nonce tid) txn2))"

definition batch_apply ::
  "ext \<Rightarrow> heed_db \<Rightarrow> u64 \<Rightarrow> block_hash \<Rightarrow> txid \<Rightarrow> ipc_batch_transfer_msg \<Rightarrow> heed_db \<Rightarrow> ipc_lib_error + heed_db" where
  "batch_apply X db h bh tid msg txn =
     (let src = bt_subnet_id msg;
          txn1 = fold (batch_fund X h bh tid) (bt_transfers msg) txn;
          txn2 = fold (batch_register X src (get_all_subnets db) h bh tid) (bt_token_registrations msg) txn1;
          txn3 = fold (batch_mint X src)
                   (filter (\<lambda>e. \<not> i256_is_negative (ea_delta e)) (bt_token_supply_adjustments msg)) txn2
      in
      res_bind (res_fold (batch_burn X src) txn3
                 (filter (\<lambda>e. i256_is_negative (ea_delta e)) (bt_token_supply_adjustments msg))) (\<lambda>txn4.
        res_fold (batch_erc_transfer X src h bh tid) txn4 (bt_token_transfers msg)))"

definition batch_save_to_db ::
  "ext \<Rightarrow> heed_db \<Rightarrow> u64 \<Rightarrow> block_hash \<Rightarrow> txid \<Rightarrow> ipc_batch_transfer_msg
   \<Rightarrow> ipc_lib_error + (heed_db \<times> subnet_checkpoint)" where
  "batch_save_to_db X db block_height block_hash tid msg =
     (let src = bt_subnet_id msg in
     res_bind (ok_or (get_subnet_state X db src)
                (IpcValidateError (InvalidMsg ''Source subnet not found''))) (\<lambda>source_subnet_state.
     res_bind (ok_or (ss_last_checkpoint_number source_subnet_state)
                (IpcValidateError (InvalidMsg ''Subnet has no checkpoints''))) (\<lambda>checkpoint_number.
     res_bind (ok_or (get_checkpoint X db src checkpoint_number)
                (IpcValidateError (InvalidMsg ''Checkpoint not found''))) (\<lambda>checkpoint.
     res_bind (res_map_err IpcValidateError
                (validate_erc_batch_data X src (bt_token_registrations msg)
                   (bt_token_supply_adjustments msg) (bt_token_transfers msg) db)) (\<lambda>_.
     let checkpoint' = checkpoint\<lparr> cp_batch_transfer_txid := Some tid,
                                  cp_batch_transfer_block_height := Some block_height \<rparr>;
         next_checkpoint_number = (case ss_last_checkpoint_number source_subnet_state of
                                     Some n \<Rightarrow> n + 1 | None \<Rightarrow> 0)
     in
     res_bind (batch_apply X db block_height block_hash tid msg
                (save_checkpoint X src checkpoint' next_checkpoint_number db)) (\<lambda>wtxn.
       Inr (wtxn, checkpoint')))))))"

section \<open>The ledger\<close>

text \<open>
  A ledger of balances: what the application of a batch relies on.  A movement debits one account and
  credits another; over any finite set of accounts that holds both it keeps the total.
\<close>

locale token_ledger =
  fixes get :: "'s \<Rightarrow> 'k \<Rightarrow> u256" and set :: "'k \<Rightarrow> u256 \<Rightarrow> 's \<Rightarrow> 's" and ok :: "'s \<Rightarrow> bool"
  assumes ok_set: "ok s \<Longrightarrow> ok (set k b s)"
    and get_set: "ok s \<Longrightarrow> get (set k b s) k' = (if k' = k then b else get s k')"
begin

lemma total_set:
  assumes "ok s" and "finite K"
  shows "(\<Sum>k\<in>K. unat (get (set k' b s) k)) =
     (if k' \<in> K then (\<Sum>k\<in>K. unat (get s k)) - unat (get s k') + unat b
      else (\<Sum>k\<in>K. unat (get s k)))"
proof (cases "k' \<in> K")
  case True
  have "(\<Sum>k\<in>K. unat (get (set k' b s) k)) = unat b + (\<Sum>k\<in>K - {k'}. unat (get s k))"
    using assms(1,2) True by (simp add: sum.remove [of K k'] get_set)
  moreover have "(\<Sum>k\<in>K. unat (get s k)) = unat (get s k') + (\<Sum>k\<in>K - {k'}. unat (get s k))"
    using assms(2) True by (simp add: sum.remove)
  ultimately show ?thesis using True by simp
next
  case False
  then have "(\<Sum>k\<in>K. unat (get (set k' b s) k)) = (\<Sum>k\<in>K. unat (get s k))"
    using assms(1) by (intro sum.cong) (auto simp: get_set)
  with False show ?thesis by simp
qed

lemma account_le_total: "finite K \<Longrightarrow> k \<in> K \<Longrightarrow> unat (get s k) \<le> (\<Sum>k\<in>K. unat (get s k))"
  by (rule member_le_sum) simp_all

lemma total_move:
  assumes "ok s" "finite K" "k1 \<in> K" "k2 \<in> K" "a \<le> get s k1" "(\<Sum>k\<in>K. unat (get s k)) < 2 ^ 256"
    and "s1 = set k1 (get s k1 - a) s"
    and "s2 = set k2 (case word_checked_add (get s1 k2) a of Some b \<Rightarrow> b | None \<Rightarrow> - 1) s1"
  shows "(\<Sum>k\<in>K. unat (get s2 k)) = (\<Sum>k\<in>K. unat (get s k))"
proof -
  let ?T = "\<lambda>s. \<Sum>k\<in>K. unat (get s k)"
  have le: "unat a \<le> unat (get s k1)" using assms(5) by (simp add: word_le_nat_alt)
  have ok1: "ok s1" using assms(1,7) by (simp add: ok_set)
  have T1: "?T s1 = ?T s - unat a"
    using total_set [OF assms(1,2), of k1] assms(3,5,7) account_le_total [OF assms(2,3), of s] le
    by (simp add: unat_sub word_le_nat_alt)
  have k2: "unat (get s1 k2) \<le> ?T s1" using account_le_total [OF assms(2,4)] .
  have "unat a \<le> ?T s" using le account_le_total [OF assms(2,3), of s] by linarith
  then have "unat (get s1 k2) + unat a \<le> ?T s" using k2 T1 by linarith
  then have small: "unat (get s1 k2) + unat a < 2 ^ 256" using assms(6) by linarith
  then have b: "(case word_checked_add (get s1 k2) a of Some b \<Rightarrow> b | None \<Rightarrow> - 1) = get s1 k2 + a"
    "unat (get s1 k2 + a) = unat (get s1 k2) + unat a"
    by (simp_all add: word_checked_add_def unat_word_ariths)
  have "?T s2 = ?T s1 - unat (get s1 k2) + unat (get s1 k2 + a)"
    using total_set [OF ok1 assms(2), of k2] assms(4,8) b(1) by simp
  then show ?thesis using k2 b(2) T1 \<open>unat a \<le> ?T s\<close> by simp
qed

end

definition bal :: "ext \<Rightarrow> heed_db \<Rightarrow> subnet_id \<times> eth_address \<times> subnet_id \<Rightarrow> u256" where
  "bal X db k = get_token_balance_txn X db (fst k) (fst (snd k)) (snd (snd k))"

definition set_bal :: "ext \<Rightarrow> subnet_id \<times> eth_address \<times> subnet_id \<Rightarrow> u256 \<Rightarrow> heed_db \<Rightarrow> heed_db" where
  "set_bal X k b db = set_token_balance X (fst k) (fst (snd k)) (snd (snd k)) b db"

interpretation erc: token_ledger "bal X" "set_bal X" "\<lambda>db. ext_ok X \<and> db_ok db" for X
  by unfold_locales (auto simp: bal_def set_bal_def get_set_token_balance prod_eq_iff)

lemma set_token_balance_bal: "set_token_balance X home tok h b db = set_bal X (home, tok, h) b db"
  by (simp add: set_bal_def)

lemma get_token_balance_bal: "get_token_balance_txn X db home tok h = bal X db (home, tok, h)"
  by (simp add: bal_def)

lemma bal_frame [simp]:
  "bal X (add_rootnet_msg X sid m db) = bal X db"
  "bal X (save_checkpoint X sid cp n db) = bal X db"
  by (simp_all add: fun_eq_iff bal_def get_token_balance_txn_def add_rootnet_msg_def save_checkpoint_def)

lemma erc_key_inject: "ext_ok X \<Longrightarrow> erc_key X h t = erc_key X h' t' \<longleftrightarrow> h = h' \<and> t = t'"
  by (simp add: erc_key_def key_sep2)

lemma running_balance_upd:
  "ext_ok X \<Longrightarrow> running_balance X db src (m(erc_key X h t \<mapsto> b)) home tok =
     (if home = h \<and> tok = t then b else running_balance X db src m home tok)"
  by (simp add: running_balance_def erc_key_inject)

section \<open>Validation covers application\<close>

definition covered :: "ext \<Rightarrow> heed_db \<Rightarrow> subnet_id \<Rightarrow> (string \<rightharpoonup> u256) \<Rightarrow> heed_db \<Rightarrow> bool" where
  "covered X db src m txn \<longleftrightarrow> ext_ok X \<and> db_ok txn
     \<and> (\<forall>home tok. running_balance X db src m home tok \<le> bal X txn (home, tok, src))"

lemma batch_fund_frame:
  "db_ok txn \<Longrightarrow> db_ok (batch_fund X h bh tid t txn) \<and> bal X (batch_fund X h bh tid t txn) = bal X txn"
  by (simp add: batch_fund_def Let_def)

lemma batch_announce_frame:
  "db_ok txn \<Longrightarrow> db_ok (batch_announce X src h bh tid e s txn)
     \<and> bal X (batch_announce X src h bh tid e s txn) = bal X txn"
  by (simp add: batch_announce_def Let_def)

lemma fold_frame:
  assumes "\<And>x s. x \<in> set xs \<Longrightarrow> db_ok s \<Longrightarrow> db_ok (f x s) \<and> bal X (f x s) = bal X s" and "db_ok s"
  shows "db_ok (fold f xs s) \<and> bal X (fold f xs s) = bal X s"
  using assms
proof (induction xs arbitrary: s)
  case Nil
  then show ?case by simp
next
  case (Cons x xs)
  from Cons.prems(1) [of x s] Cons.prems(2) have "db_ok (f x s)" "bal X (f x s) = bal X s" by simp_all
  with Cons.IH [of "f x s"] Cons.prems(1) show ?case by simp
qed

lemma batch_register_bal:
  assumes "ext_ok X" "db_ok txn"
  shows "db_ok (batch_register X src subs h bh tid e txn)"
    and "bal X (batch_register X src subs h bh tid e txn) k =
           (if k = (src, er_home_token_address e, src) then er_initial_supply e else bal X txn k)"
proof -
  let ?s = "set_bal X (src, er_home_token_address e, src) (er_initial_supply e) txn"
  have ok: "ext_ok X \<and> db_ok ?s" using assms erc.ok_set by blast
  have "db_ok (fold (batch_announce X src h bh tid e) subs ?s)
      \<and> bal X (fold (batch_announce X src h bh tid e) subs ?s) = bal X ?s"
    using ok by (intro fold_frame batch_announce_frame) simp_all
  then show "db_ok (batch_register X src subs h bh tid e txn)"
    and "bal X (batch_register X src subs h bh tid e txn) k =
           (if k = (src, er_home_token_address e, src) then er_initial_supply e else bal X txn k)"
    using assms erc.get_set [of X txn] by (simp_all add: batch_register_def set_token_balance_bal)
qed

lemma batch_mint_bal:
  assumes "ext_ok X" "db_ok txn"
  shows "db_ok (batch_mint X src e txn)"
    and "bal X (batch_mint X src e txn) k =
           (if k = (src, ea_home_token_address e, src)
            then word_saturating_add (bal X txn k) (i256_abs (ea_delta e)) else bal X txn k)"
  using assms erc.get_set [of X txn] erc.ok_set [of X txn]
  by (simp_all add: batch_mint_def Let_def set_token_balance_bal get_token_balance_bal)

lemma word_saturating_add_mono:
  "a \<le> b \<Longrightarrow> word_saturating_add a c \<le> word_saturating_add b c" for a b c :: "'a::len word"
  by (simp add: word_le_nat_alt unat_saturating_add min_le_iff_disj)

lemma word_sub_mono_left: "c \<le> a \<Longrightarrow> a \<le> b \<Longrightarrow> a - c \<le> b - c" for a b c :: "'a::len word"
  by (simp add: word_le_nat_alt unat_sub)

lemma covered_register:
  assumes "res_fold (validate_registration X db src) m etrs = Inr m'" and "covered X db src m txn"
  shows "covered X db src m' (fold (batch_register X src subs h bh tid) etrs txn)"
  using assms
proof (induction etrs arbitrary: m txn)
  case Nil
  then show ?case by simp
next
  case (Cons e etrs)
  then obtain m1 where m1: "validate_registration X db src m e = Inr m1"
    and rest: "res_fold (validate_registration X db src) m1 etrs = Inr m'"
    by (auto simp: res_simps)
  then have "m1 = m(erc_key X src (er_home_token_address e) \<mapsto> er_initial_supply e)"
    by (auto simp: validate_registration_def Let_def split: if_splits)
  then have "covered X db src m1 (batch_register X src subs h bh tid e txn)"
    using Cons.prems(2) by (simp add: covered_def running_balance_upd batch_register_bal)
  with Cons.IH [OF rest] show ?case by simp
qed

lemma covered_mint:
  assumes "res_fold (validate_mint X db src) m es = Inr m'" and "covered X db src m txn"
  shows "covered X db src m' (fold (batch_mint X src) (filter (\<lambda>e. \<not> i256_is_negative (ea_delta e)) es) txn)"
  using assms
proof (induction es arbitrary: m txn)
  case Nil
  then show ?case by simp
next
  case (Cons e es)
  then obtain m1 where m1: "validate_mint X db src m e = Inr m1"
    and rest: "res_fold (validate_mint X db src) m1 es = Inr m'"
    by (auto simp: res_simps)
  show ?case
  proof (cases "i256_is_negative (ea_delta e)")
    case True
    with m1 have "m1 = m" by (simp add: validate_mint_def)
    with Cons.IH [OF rest] Cons.prems(2) True show ?thesis by simp
  next
    case False
    have "covered X db src m1 (batch_mint X src e txn)"
    proof (cases "i256_abs (ea_delta e) = 0")
      case True
      have "word_saturating_add b 0 = b" for b :: u256
        by (simp add: word_saturating_add_def word_checked_add_Some [THEN iffD2])
      with True m1 False Cons.prems(2) show ?thesis
        by (simp add: validate_mint_def covered_def batch_mint_bal)
    next
      case nonzero: False
      with m1 False have "m1 = m(erc_key X src (ea_home_token_address e) \<mapsto>
          word_saturating_add (running_balance X db src m src (ea_home_token_address e)) (i256_abs (ea_delta e)))"
        by (simp add: validate_mint_def Let_def)
      with Cons.prems(2) show ?thesis
        by (simp add: covered_def running_balance_upd batch_mint_bal word_saturating_add_mono)
    qed
    with Cons.IH [OF rest] False show ?thesis by simp
  qed
qed

lemma batch_burn_Inr:
  assumes "ext_ok X" "db_ok txn"
  shows "batch_burn X src txn e = Inr txn' \<longleftrightarrow>
     i256_abs (ea_delta e) \<le> bal X txn (src, ea_home_token_address e, src) \<and>
     txn' = set_bal X (src, ea_home_token_address e, src)
       (bal X txn (src, ea_home_token_address e, src) - i256_abs (ea_delta e)) txn"
  by (auto simp: batch_burn_def Let_def set_token_balance_bal get_token_balance_bal word_checked_sub_def)

lemma covered_burn:
  assumes "res_fold (validate_burn X db src) m es = Inr m'" and "covered X db src m txn"
  shows "\<exists>txn'. res_fold (batch_burn X src) txn (filter (\<lambda>e. i256_is_negative (ea_delta e)) es) = Inr txn'
           \<and> covered X db src m' txn'"
  using assms
proof (induction es arbitrary: m txn)
  case Nil
  then show ?case by simp
next
  case (Cons e es)
  then obtain m1 where m1: "validate_burn X db src m e = Inr m1"
    and rest: "res_fold (validate_burn X db src) m1 es = Inr m'"
    by (auto simp: res_simps)
  show ?case
  proof (cases "i256_is_negative (ea_delta e)")
    case False
    with m1 have "m1 = m" by (simp add: validate_burn_def)
    with Cons.IH [OF rest] Cons.prems(2) False show ?thesis by simp
  next
    case True
    let ?r = "running_balance X db src m src (ea_home_token_address e)" and ?a = "i256_abs (ea_delta e)"
    let ?k = "(src, ea_home_token_address e, src)"
    from m1 True have a: "?a \<le> ?r" and m1': "m1 = m(erc_key X src (ea_home_token_address e) \<mapsto> ?r - ?a)"
      by (auto simp: validate_burn_def Let_def split: if_splits)
    from Cons.prems(2) have ok: "ext_ok X" "db_ok txn" and r: "?r \<le> bal X txn ?k"
      by (simp_all add: covered_def)
    let ?t = "set_bal X ?k (bal X txn ?k - ?a) txn"
    have step: "batch_burn X src txn e = Inr ?t"
      using batch_burn_Inr [OF ok] a r by auto
    have "covered X db src m1 ?t"
      using Cons.prems(2) ok a r m1' erc.ok_set [of X txn] erc.get_set [of X txn]
      by (auto simp: covered_def running_balance_upd word_sub_mono_left)
    with Cons.IH [OF rest] step True show ?thesis by simp
  qed
qed

definition erc_debited :: "ext \<Rightarrow> subnet_id \<Rightarrow> ipc_cross_subnet_erc_transfer \<Rightarrow> heed_db \<Rightarrow> heed_db" where
  "erc_debited X src e txn =
     (let k = (et_home_subnet_id e, et_home_token_address e, src)
      in set_bal X k (bal X txn k - et_amount e) txn)"

definition erc_moved :: "ext \<Rightarrow> subnet_id \<Rightarrow> ipc_cross_subnet_erc_transfer \<Rightarrow> heed_db \<Rightarrow> heed_db" where
  "erc_moved X src e txn =
     (let k = (et_home_subnet_id e, et_home_token_address e, et_destination_subnet_id e);
          txn1 = erc_debited X src e txn
      in set_bal X k (case word_checked_add (bal X txn1 k) (et_amount e) of Some b \<Rightarrow> b | None \<Rightarrow> - 1) txn1)"

lemma batch_erc_transfer_Inr:
  assumes "et_amount e \<noteq> 0"
  shows "batch_erc_transfer X src h bh tid txn e = Inr txn' \<longleftrightarrow>
     et_amount e \<le> bal X txn (et_home_subnet_id e, et_home_token_address e, src) \<and>
     txn' = add_rootnet_msg X (et_destination_subnet_id e)
       (ErcTransfer e h bh (get_next_rootnet_msg_nonce_txn X (erc_moved X src e txn) (et_destination_subnet_id e)) tid)
       (erc_moved X src e txn)"
  using assms
  by (auto simp: batch_erc_transfer_def Let_def set_token_balance_bal get_token_balance_bal
      word_checked_sub_def erc_moved_def erc_debited_def)

lemma erc_moved_bal:
  assumes "ext_ok X" "db_ok txn"
  shows "db_ok (erc_debited X src e txn)" "db_ok (erc_moved X src e txn)"
    and "bal X (erc_debited X src e txn) k =
      (if k = (et_home_subnet_id e, et_home_token_address e, src) then bal X txn k - et_amount e else bal X txn k)"
    and "bal X (erc_moved X src e txn) k =
      (if k = (et_home_subnet_id e, et_home_token_address e, et_destination_subnet_id e)
       then word_saturating_add (bal X (erc_debited X src e txn) k) (et_amount e)
       else bal X (erc_debited X src e txn) k)"
proof -
  show ok1: "db_ok (erc_debited X src e txn)"
    using assms erc.ok_set [of X txn] by (simp add: erc_debited_def Let_def)
  show "db_ok (erc_moved X src e txn)"
    using assms(1) ok1 erc.ok_set [of X "erc_debited X src e txn"] by (simp add: erc_moved_def Let_def)
  show "bal X (erc_debited X src e txn) k =
      (if k = (et_home_subnet_id e, et_home_token_address e, src) then bal X txn k - et_amount e else bal X txn k)"
    using assms erc.get_set [of X txn] by (simp add: erc_debited_def Let_def)
  show "bal X (erc_moved X src e txn) k =
      (if k = (et_home_subnet_id e, et_home_token_address e, et_destination_subnet_id e)
       then word_saturating_add (bal X (erc_debited X src e txn) k) (et_amount e)
       else bal X (erc_debited X src e txn) k)"
    using assms(1) ok1 erc.get_set [of X "erc_debited X src e txn"]
    by (simp add: erc_moved_def Let_def word_saturating_add_def)
qed

lemma word_saturating_add_ge: "a \<le> word_saturating_add a b" for a b :: "'a::len word"
proof -
  have "unat a < 2 ^ LENGTH('a)" by (rule unsigned_less)
  then have "unat a \<le> 2 ^ LENGTH('a) - 1" by linarith
  then show ?thesis by (simp add: word_le_nat_alt unat_saturating_add)
qed

lemma covered_erc_transfer:
  assumes "res_fold (validate_erc_transfer X db src) m es = Inr m'" and "covered X db src m txn"
  shows "\<exists>txn'. res_fold (batch_erc_transfer X src h bh tid) txn es = Inr txn' \<and> covered X db src m' txn'"
  using assms
proof (induction es arbitrary: m txn)
  case Nil
  then show ?case by simp
next
  case (Cons e es)
  then obtain m1 where m1: "validate_erc_transfer X db src m e = Inr m1"
    and rest: "res_fold (validate_erc_transfer X db src) m1 es = Inr m'"
    by (auto simp: res_simps)
  let ?h = "et_home_subnet_id e" and ?t = "et_home_token_address e" and ?a = "et_amount e"
  let ?r = "running_balance X db src m ?h ?t" and ?s = "erc_moved X src e txn"
  from m1 have a: "?a \<noteq> 0" "?a \<le> ?r" and m1': "m1 = m(erc_key X ?h ?t \<mapsto> ?r - ?a)"
    by (auto simp: validate_erc_transfer_def Let_def split: if_splits)
  from Cons.prems(2) have ok: "ext_ok X" "db_ok txn" and r: "?r \<le> bal X txn (?h, ?t, src)"
    by (simp_all add: covered_def)
  obtain txn' where step: "batch_erc_transfer X src h bh tid txn e = Inr txn'"
    and txn': "db_ok txn'" "bal X txn' = bal X ?s"
    using batch_erc_transfer_Inr [OF a(1)] a(2) r erc_moved_bal(2) [OF ok] by fastforce
  have "running_balance X db src m1 home tok \<le> bal X ?s (home, tok, src)" for home tok
  proof -
    have "running_balance X db src m1 home tok \<le> bal X (erc_debited X src e txn) (home, tok, src)"
      using Cons.prems(2) ok a r m1'
      by (auto simp: covered_def running_balance_upd erc_moved_bal(3) word_sub_mono_left)
    also have "\<dots> \<le> bal X ?s (home, tok, src)"
      using ok by (simp add: erc_moved_bal(4) word_saturating_add_ge)
    finally show ?thesis .
  qed
  then have "covered X db src m1 txn'" using ok txn' by (simp add: covered_def)
  with Cons.IH [OF rest] step show ?case by simp
qed

lemma batch_funds_frame:
  assumes "db_ok txn"
  shows "db_ok (fold (batch_fund X h bh tid) ts txn) \<and> bal X (fold (batch_fund X h bh tid) ts txn) = bal X txn"
  using assms by (intro fold_frame batch_fund_frame)

lemma batch_apply_covered:
  assumes "ext_ok X" "db_ok txn" "bal X txn = bal X db"
    and "validate_erc_batch_data X (bt_subnet_id msg) (bt_token_registrations msg)
           (bt_token_supply_adjustments msg) (bt_token_transfers msg) db = Inr ()"
  shows "\<exists>txn'. batch_apply X db h bh tid msg txn = Inr txn'"
proof -
  let ?src = "bt_subnet_id msg"
  from assms(4) obtain m1 m2 m3 m4 where
    "res_fold (validate_registration X db ?src) Map.empty (bt_token_registrations msg) = Inr m1"
    "res_fold (validate_mint X db ?src) m1 (bt_token_supply_adjustments msg) = Inr m2"
    "res_fold (validate_burn X db ?src) m2 (bt_token_supply_adjustments msg) = Inr m3"
    "res_fold (validate_erc_transfer X db ?src) m3 (bt_token_transfers msg) = Inr m4"
    by (auto simp: validate_erc_batch_data_def res_simps)
  note phases = this
  have "covered X db ?src Map.empty (fold (batch_fund X h bh tid) (bt_transfers msg) txn)"
    using assms(1-3) batch_funds_frame [OF assms(2)]
    by (simp add: covered_def running_balance_def get_token_balance_def get_token_balance_bal)
  from covered_burn [OF phases(3) covered_mint [OF phases(2) covered_register [OF phases(1) this]]]
  obtain txn4 where t4: "res_fold (batch_burn X ?src)
      (fold (batch_mint X ?src) (filter (\<lambda>e. \<not> i256_is_negative (ea_delta e)) (bt_token_supply_adjustments msg))
        (fold (batch_register X ?src (get_all_subnets db) h bh tid) (bt_token_registrations msg)
          (fold (batch_fund X h bh tid) (bt_transfers msg) txn)))
      (filter (\<lambda>e. i256_is_negative (ea_delta e)) (bt_token_supply_adjustments msg)) = Inr txn4"
    and "covered X db ?src m3 txn4" by blast
  from covered_erc_transfer [OF phases(4) this(2), of h bh tid] t4 show ?thesis
    by (auto simp: batch_apply_def Let_def)
qed

section \<open>Supply\<close>

text \<open>The total of a token over a set of holder subnets, and what a batch adds and removes.\<close>

definition token_supply :: "ext \<Rightarrow> heed_db \<Rightarrow> subnet_id set \<Rightarrow> subnet_id \<Rightarrow> eth_address \<Rightarrow> nat" where
  "token_supply X db H home tok = (\<Sum>k \<in> (\<lambda>h. (home, tok, h)) ` H. unat (bal X db k))"

definition registered :: "subnet_id \<Rightarrow> subnet_id \<Rightarrow> eth_address \<Rightarrow> ipc_erc_token_registration list \<Rightarrow> nat" where
  "registered src home tok es =
     (\<Sum>e\<leftarrow>es. if home = src \<and> er_home_token_address e = tok then unat (er_initial_supply e) else 0)"

definition adjusted :: "subnet_id \<Rightarrow> subnet_id \<Rightarrow> eth_address \<Rightarrow> ipc_erc_supply_adjustment list \<Rightarrow> nat" where
  "adjusted src home tok es =
     (\<Sum>e\<leftarrow>es. if home = src \<and> ea_home_token_address e = tok then unat (i256_abs (ea_delta e)) else 0)"

lemma supply_holders: "token_supply X db H home tok = (\<Sum>h\<in>H. unat (get_token_balance X db home tok h))"
  by (simp add: token_supply_def sum.reindex inj_on_def get_token_balance_def get_token_balance_bal)

lemma supply_set:
  assumes "ext_ok X" "db_ok txn" "finite H"
  shows "token_supply X (set_bal X (h, t, x) b txn) H home tok =
     (if home = h \<and> tok = t \<and> x \<in> H
      then token_supply X txn H home tok - unat (bal X txn (h, t, x)) + unat b else token_supply X txn H home tok)"
  using erc.total_set [of X txn "(\<lambda>h. (home, tok, h)) ` H" "(h, t, x)" b] assms
  by (auto simp: token_supply_def)

lemma bal_le_supply: "finite H \<Longrightarrow> h \<in> H \<Longrightarrow> unat (bal X db (home, tok, h)) \<le> token_supply X db H home tok"
  unfolding token_supply_def by (rule erc.account_le_total) simp_all

lemma supply_cong: "bal X db = bal X db' \<Longrightarrow> token_supply X db H home tok = token_supply X db' H home tok"
  by (simp add: token_supply_def)

lemma supply_register:
  assumes "ext_ok X" "finite H" "src \<in> H" "db_ok txn"
    and "distinct (map er_home_token_address etrs)"
    and "\<forall>e \<in> set etrs. bal X txn (src, er_home_token_address e, src) = 0"
  shows "token_supply X (fold (batch_register X src subs h bh tid) etrs txn) H home tok
       = token_supply X txn H home tok + registered src home tok etrs
     \<and> db_ok (fold (batch_register X src subs h bh tid) etrs txn)"
  using assms(4-6)
proof (induction etrs arbitrary: txn)
  case Nil
  then show ?case by (simp add: registered_def)
next
  case (Cons e etrs)
  let ?k = "(src, er_home_token_address e, src)" and ?s = "batch_register X src subs h bh tid e txn"
  have "bal X ?s = bal X (set_bal X ?k (er_initial_supply e) txn)"
    using assms(1) Cons.prems(1) erc.get_set [of X txn] by (auto simp: fun_eq_iff batch_register_bal)
  then have "token_supply X ?s H home tok = token_supply X (set_bal X ?k (er_initial_supply e) txn) H home tok"
    by (rule supply_cong)
  then have s: "token_supply X ?s H home tok = token_supply X txn H home tok + registered src home tok [e]"
    using assms(1-3) Cons.prems(1,3) by (simp add: supply_set registered_def)
  have "\<forall>d \<in> set etrs. bal X ?s (src, er_home_token_address d, src) = 0"
    using assms(1) Cons.prems by (auto simp: batch_register_bal image_mem_iff)
  with Cons.IH [of ?s] Cons.prems assms(1) s show ?case
    by (simp add: batch_register_bal registered_def)
qed

lemma supply_mint:
  assumes "ext_ok X" "finite H" "src \<in> H" "db_ok txn"
    and "token_supply X txn H home tok + adjusted src home tok es < 2 ^ 256"
  shows "token_supply X (fold (batch_mint X src) es txn) H home tok = token_supply X txn H home tok + adjusted src home tok es
     \<and> db_ok (fold (batch_mint X src) es txn)"
  using assms(4,5)
proof (induction es arbitrary: txn)
  case Nil
  then show ?case by (simp add: adjusted_def)
next
  case (Cons e es)
  let ?k = "(src, ea_home_token_address e, src)" and ?a = "i256_abs (ea_delta e)"
  have m: "batch_mint X src e txn = set_bal X ?k (word_saturating_add (bal X txn ?k) ?a) txn"
    by (simp add: batch_mint_def Let_def set_token_balance_bal get_token_balance_bal)
  have adj: "adjusted src home tok (e # es) = adjusted src home tok [e] + adjusted src home tok es"
    by (simp add: adjusted_def)
  have "token_supply X (batch_mint X src e txn) H home tok = token_supply X txn H home tok + adjusted src home tok [e]"
  proof (cases "home = src \<and> ea_home_token_address e = tok")
    case True
    have le: "unat (bal X txn ?k) \<le> token_supply X txn H home tok"
      using bal_le_supply [OF assms(2,3), of X txn home tok] True by auto
    moreover have "token_supply X txn H home tok + unat ?a < 2 ^ 256"
      using Cons.prems(2) adj True by (simp add: adjusted_def)
    ultimately have "unat (word_saturating_add (bal X txn ?k) ?a) = unat (bal X txn ?k) + unat ?a"
      by (simp add: unat_saturating_add)
    with True le show ?thesis
      using assms(1-3) Cons.prems(1) by (simp add: m supply_set adjusted_def)
  next
    case False
    then show ?thesis using assms(1-3) Cons.prems(1) by (auto simp: m supply_set adjusted_def)
  qed
  with Cons.IH [of "batch_mint X src e txn"] Cons.prems assms(1) adj show ?case
    by (simp add: batch_mint_bal)
qed

lemma supply_burn:
  assumes "ext_ok X" "finite H" "src \<in> H" "db_ok txn"
    and "res_fold (batch_burn X src) txn es = Inr txn'"
  shows "token_supply X txn' H home tok + adjusted src home tok es = token_supply X txn H home tok \<and> db_ok txn'"
  using assms(4,5)
proof (induction es arbitrary: txn)
  case Nil
  then show ?case by (simp add: adjusted_def)
next
  case (Cons e es)
  let ?k = "(src, ea_home_token_address e, src)" and ?a = "i256_abs (ea_delta e)"
  from Cons.prems obtain s where s: "batch_burn X src txn e = Inr s"
    and rest: "res_fold (batch_burn X src) s es = Inr txn'" by (auto simp: res_simps)
  then have a: "?a \<le> bal X txn ?k" and s': "s = set_bal X ?k (bal X txn ?k - ?a) txn"
    using batch_burn_Inr [OF assms(1) Cons.prems(1)] by auto
  have ok: "db_ok s" using s' assms(1) Cons.prems(1) erc.ok_set by blast
  have "token_supply X s H home tok + adjusted src home tok [e] = token_supply X txn H home tok"
  proof (cases "home = src \<and> ea_home_token_address e = tok")
    case True
    have "unat (bal X txn ?k) \<le> token_supply X txn H home tok"
      using bal_le_supply [OF assms(2,3), of X txn home tok] True by auto
    with True a show ?thesis
      using assms(1-3) Cons.prems(1) by (simp add: s' supply_set adjusted_def unat_sub word_le_nat_alt)
  next
    case False
    then show ?thesis using assms(1-3) Cons.prems(1) by (auto simp: s' supply_set adjusted_def)
  qed
  with Cons.IH [OF ok rest] show ?case by (simp add: adjusted_def)
qed

lemma supply_erc_transfer:
  assumes "ext_ok X" "finite H" "src \<in> H" "db_ok txn"
    and "et_destination_subnet_id ` set es \<subseteq> H"
    and "res_fold (batch_erc_transfer X src h bh tid) txn es = Inr txn'"
    and "token_supply X txn H home tok < 2 ^ 256"
  shows "token_supply X txn' H home tok = token_supply X txn H home tok \<and> db_ok txn'"
  using assms(4-7)
proof (induction es arbitrary: txn)
  case Nil
  then show ?case by simp
next
  case (Cons e es)
  from Cons.prems obtain s where s: "batch_erc_transfer X src h bh tid txn e = Inr s"
    and rest: "res_fold (batch_erc_transfer X src h bh tid) s es = Inr txn'" by (auto simp: res_simps)
  have "token_supply X s H home tok = token_supply X txn H home tok \<and> db_ok s"
  proof (cases "et_amount e = 0")
    case True
    with s Cons.prems(1) show ?thesis by (simp add: batch_erc_transfer_def)
  next
    case False
    let ?m = "erc_moved X src e txn"
    note mv = erc_moved_bal [OF assms(1) Cons.prems(1), of src e]
    from s have a: "et_amount e \<le> bal X txn (et_home_subnet_id e, et_home_token_address e, src)"
      and s': "bal X s = bal X ?m" "db_ok s"
      using mv(2) unfolding batch_erc_transfer_Inr [OF False] by auto
    have "token_supply X ?m H home tok = token_supply X txn H home tok"
    proof (cases "home = et_home_subnet_id e \<and> tok = et_home_token_address e")
      case True
      show ?thesis
        unfolding token_supply_def
        using True assms(1-3) Cons.prems a
        by (intro erc.total_move [of X txn _ "(home, tok, src)" "(home, tok, et_destination_subnet_id e)"
              "et_amount e" "erc_debited X src e txn"])
          (auto simp: token_supply_def erc_moved_def erc_debited_def Let_def)
    next
      case False
      then have "bal X ?m (home, tok, x) = bal X txn (home, tok, x)" for x
        using mv(3,4) by auto
      then show ?thesis by (simp add: token_supply_def sum.reindex inj_on_def)
    qed
    with s' supply_cong [OF s'(1)] show ?thesis by simp
  qed
  with Cons.IH [of s] Cons.prems rest show ?case by simp
qed

lemma validate_registration_new:
  assumes "ext_ok X" and "res_fold (validate_registration X db src) m etrs = Inr m'"
  shows "distinct (map er_home_token_address etrs) \<and>
     (\<forall>e \<in> set etrs. m (erc_key X src (er_home_token_address e)) = None
        \<and> bal X db (src, er_home_token_address e, src) = 0)"
  using assms(2)
proof (induction etrs arbitrary: m)
  case Nil
  then show ?case by simp
next
  case (Cons e etrs)
  then obtain m1 where m1: "validate_registration X db src m e = Inr m1"
    and rest: "res_fold (validate_registration X db src) m1 etrs = Inr m'"
    by (auto simp: res_simps)
  from m1 have new: "m (erc_key X src (er_home_token_address e)) = None"
      "bal X db (src, er_home_token_address e, src) = 0"
    and "m1 = m(erc_key X src (er_home_token_address e) \<mapsto> er_initial_supply e)"
    by (auto simp: validate_registration_def Let_def get_token_balance_def get_token_balance_bal
        word_gt_0 split: if_splits)
  with Cons.IH [OF rest] assms(1) show ?case
    by (auto simp: erc_key_inject split: if_splits)
qed

lemma batch_save_Inr:
  assumes "batch_save_to_db X db h bh tid msg = Inr (db', cp')"
  obtains s n cp where "get_subnet_state X db (bt_subnet_id msg) = Some s"
    and "ss_last_checkpoint_number s = Some n"
    and "get_checkpoint X db (bt_subnet_id msg) n = Some cp"
    and "validate_erc_batch_data X (bt_subnet_id msg) (bt_token_registrations msg)
           (bt_token_supply_adjustments msg) (bt_token_transfers msg) db = Inr ()"
    and "cp' = cp\<lparr> cp_batch_transfer_txid := Some tid, cp_batch_transfer_block_height := Some h \<rparr>"
    and "batch_apply X db h bh tid msg (save_checkpoint X (bt_subnet_id msg) cp' (n + 1) db) = Inr db'"
  using assms
  by (auto simp: batch_save_to_db_def Let_def res_simps)

lemma batch_apply_phases:
  assumes "batch_apply X db h bh tid msg txn = Inr txn'"
  obtains t1 t2 t3 t4 where "t1 = fold (batch_fund X h bh tid) (bt_transfers msg) txn"
    and "t2 = fold (batch_register X (bt_subnet_id msg) (get_all_subnets db) h bh tid) (bt_token_registrations msg) t1"
    and "t3 = fold (batch_mint X (bt_subnet_id msg))
           (filter (\<lambda>e. \<not> i256_is_negative (ea_delta e)) (bt_token_supply_adjustments msg)) t2"
    and "res_fold (batch_burn X (bt_subnet_id msg)) t3
           (filter (\<lambda>e. i256_is_negative (ea_delta e)) (bt_token_supply_adjustments msg)) = Inr t4"
    and "res_fold (batch_erc_transfer X (bt_subnet_id msg) h bh tid) t4 (bt_token_transfers msg) = Inr txn'"
  using assms by (auto simp: batch_apply_def Let_def res_simps)

section \<open>Firewall and nonces\<close>

lemma bal_burn_other:
  assumes "ext_ok X" "db_ok txn" "res_fold (batch_burn X src) txn es = Inr txn'" "holder \<noteq> src"
  shows "db_ok txn' \<and> bal X txn' (home, tok, holder) = bal X txn (home, tok, holder)"
proof (rule res_fold_invariant [OF assms(3), of "\<lambda>s. db_ok s \<and> bal X s (home, tok, holder) = bal X txn (home, tok, holder)"])
  fix s e s' assume "db_ok s \<and> bal X s (home, tok, holder) = bal X txn (home, tok, holder)"
    and "batch_burn X src s e = Inr s'"
  then show "db_ok s' \<and> bal X s' (home, tok, holder) = bal X txn (home, tok, holder)"
    using assms(1,4) batch_burn_Inr [OF assms(1), of s src e s'] erc.get_set [of X s] erc.ok_set [of X s] by auto
qed (use assms(2) in simp)

lemma bal_erc_transfer_other:
  assumes "ext_ok X" "db_ok txn" "res_fold (batch_erc_transfer X src h bh tid) txn es = Inr txn'" "holder \<noteq> src"
  shows "db_ok txn' \<and> bal X txn (home, tok, holder) \<le> bal X txn' (home, tok, holder)"
proof (rule res_fold_invariant [OF assms(3), of "\<lambda>s. db_ok s \<and> bal X txn (home, tok, holder) \<le> bal X s (home, tok, holder)"])
  fix s e s' assume s: "db_ok s \<and> bal X txn (home, tok, holder) \<le> bal X s (home, tok, holder)"
    and step: "batch_erc_transfer X src h bh tid s e = Inr s'"
  show "db_ok s' \<and> bal X txn (home, tok, holder) \<le> bal X s' (home, tok, holder)"
  proof (cases "et_amount e = 0")
    case True
    with s step show ?thesis by (simp add: batch_erc_transfer_def)
  next
    case False
    note mv = erc_moved_bal [OF assms(1), of s src e]
    from step s have s': "bal X s' = bal X (erc_moved X src e s)" "db_ok s'"
      using mv(2) unfolding batch_erc_transfer_Inr [OF False] by auto
    have "bal X s (home, tok, holder) = bal X (erc_debited X src e s) (home, tok, holder)"
      using mv(3) s assms(4) by auto
    also have "\<dots> \<le> bal X s' (home, tok, holder)"
      using s' mv(4) s by (simp add: word_saturating_add_ge)
    finally show ?thesis using s s' by auto
  qed
qed (use assms(2) in simp)

lemma bal_register_other:
  assumes "ext_ok X" "db_ok txn" "holder \<noteq> src"
  shows "db_ok (fold (batch_register X src subs h bh tid) es txn) \<and>
     bal X (fold (batch_register X src subs h bh tid) es txn) (home, tok, holder) = bal X txn (home, tok, holder)"
  using assms(2)
proof (induction es arbitrary: txn)
  case (Cons e es)
  then show ?case using assms(1,3) Cons.IH [of "batch_register X src subs h bh tid e txn"]
    by (simp add: batch_register_bal)
qed simp

lemma bal_mint_other:
  assumes "ext_ok X" "db_ok txn" "holder \<noteq> src"
  shows "db_ok (fold (batch_mint X src) es txn) \<and>
     bal X (fold (batch_mint X src) es txn) (home, tok, holder) = bal X txn (home, tok, holder)"
  using assms(2)
proof (induction es arbitrary: txn)
  case (Cons e es)
  then show ?case using assms(1,3) Cons.IH [of "batch_mint X src e txn"] by (simp add: batch_mint_bal)
qed simp

text \<open>Every append takes the next nonce of its destination, so that the log of each subnet stays dense.\<close>

lemma dense_rootnet_append:
  assumes "ext_ok X" "native_id d" "native_id e" "dense_rootnet X d n txn"
    and "\<forall>k. rootnet_message_nonce (f k) = k" and "e = d \<longrightarrow> n < 2 ^ 64"
  shows "dense_rootnet X d (if e = d then Suc n else n)
           (add_rootnet_msg X e (f (get_next_rootnet_msg_nonce_txn X txn e)) txn)"
proof (cases "e = d")
  case True
  then show ?thesis
    using assms next_rootnet_nonce(1) [OF assms(1,2,4)] rootnet_log.dense_append [of X d 0 n]
    by (simp add: add_rootnet_msg_def)
next
  case False
  then show ?thesis
    using assms rootnet_log.dense_other [of X d e 0 n] by (simp add: add_rootnet_msg_def)
qed

lemma dense_set_bal [simp]: "dense_rootnet X d n (set_bal X k b txn) = dense_rootnet X d n txn"
  by (simp add: set_bal_def set_token_balance_def)

lemma dense_funds:
  assumes "ext_ok X" "native_id d" "\<forall>t \<in> set ts. native_id (xt_destination_subnet_id t)"
    and "dense_rootnet X d n txn"
    and "n + length (filter (\<lambda>t. xt_destination_subnet_id t = d) ts) \<le> 2 ^ 64"
  shows "dense_rootnet X d (n + length (filter (\<lambda>t. xt_destination_subnet_id t = d) ts))
           (fold (batch_fund X h bh tid) ts txn)"
  using assms(3-5)
proof (induction ts arbitrary: n txn)
  case (Cons t ts)
  let ?n = "if xt_destination_subnet_id t = d then Suc n else n"
  have "dense_rootnet X d ?n (batch_fund X h bh tid t txn)"
    unfolding batch_fund_def Let_def
    using Cons.prems assms(1,2) by (intro dense_rootnet_append) auto
  from Cons.IH [OF _ this] Cons.prems show ?case by (auto split: if_splits)
qed simp

lemma dense_announce:
  assumes "ext_ok X" "native_id d" "\<forall>s \<in> set subs. native_id (ss_id s)"
    and "dense_rootnet X d n txn"
    and "n + length (filter (\<lambda>s. ss_id s = d \<and> ss_id s \<noteq> src) subs) \<le> 2 ^ 64"
  shows "dense_rootnet X d (n + length (filter (\<lambda>s. ss_id s = d \<and> ss_id s \<noteq> src) subs))
           (fold (batch_announce X src h bh tid e) subs txn)"
  using assms(3-5)
proof (induction subs arbitrary: n txn)
  case (Cons s subs)
  show ?case
  proof (cases "ss_id s = src")
    case True
    with Cons show ?thesis by (simp add: batch_announce_def)
  next
    case False
    let ?n = "if ss_id s = d then Suc n else n"
    have "dense_rootnet X d ?n (batch_announce X src h bh tid e s txn)"
      unfolding batch_announce_def Let_def if_not_P [OF False]
      using Cons.prems assms(1,2) False by (intro dense_rootnet_append) auto
    from Cons.IH [OF _ this] Cons.prems False show ?thesis by (auto split: if_splits)
  qed
qed simp

lemma dense_register:
  assumes "ext_ok X" "native_id d" "\<forall>s \<in> set subs. native_id (ss_id s)"
    and "dense_rootnet X d n txn"
    and "n + length es * length (filter (\<lambda>s. ss_id s = d \<and> ss_id s \<noteq> src) subs) \<le> 2 ^ 64"
  shows "dense_rootnet X d (n + length es * length (filter (\<lambda>s. ss_id s = d \<and> ss_id s \<noteq> src) subs))
           (fold (batch_register X src subs h bh tid) es txn)"
  using assms(4,5)
proof (induction es arbitrary: n txn)
  case (Cons e es)
  let ?c = "length (filter (\<lambda>s. ss_id s = d \<and> ss_id s \<noteq> src) subs)"
  have "dense_rootnet X d (n + ?c) (batch_register X src subs h bh tid e txn)"
    unfolding batch_register_def set_token_balance_bal
    using Cons.prems assms(1-3) by (intro dense_announce) simp_all
  from Cons.IH [OF this] Cons.prems show ?case by (simp add: add.assoc)
qed simp

lemma dense_mint: "dense_rootnet X d n (fold (batch_mint X src) es txn) = dense_rootnet X d n txn"
  by (induction es arbitrary: txn)
    (simp_all add: batch_mint_def Let_def set_token_balance_bal)

lemma dense_burn:
  "res_fold (batch_burn X src) txn es = Inr txn' \<Longrightarrow> dense_rootnet X d n txn \<Longrightarrow> dense_rootnet X d n txn'"
  by (rule res_fold_invariant [where P = "dense_rootnet X d n"])
    (auto simp: batch_burn_def Let_def set_token_balance_bal split: option.splits)

lemma dense_erc_transfers:
  assumes "ext_ok X" "native_id d" "\<forall>e \<in> set es. native_id (et_destination_subnet_id e)"
    and "dense_rootnet X d n txn"
    and "n + length (filter (\<lambda>e. et_destination_subnet_id e = d \<and> et_amount e \<noteq> 0) es) \<le> 2 ^ 64"
    and "res_fold (batch_erc_transfer X src h bh tid) txn es = Inr txn'"
  shows "dense_rootnet X d (n + length (filter (\<lambda>e. et_destination_subnet_id e = d \<and> et_amount e \<noteq> 0) es)) txn'"
  using assms(3-6)
proof (induction es arbitrary: n txn)
  case (Cons e es)
  from Cons.prems obtain s where s: "batch_erc_transfer X src h bh tid txn e = Inr s"
    and rest: "res_fold (batch_erc_transfer X src h bh tid) s es = Inr txn'" by (auto simp: res_simps)
  show ?case
  proof (cases "et_amount e = 0")
    case True
    with s have "s = txn" by (simp add: batch_erc_transfer_def)
    with Cons.IH [OF _ _ _ rest] Cons.prems True show ?thesis by simp
  next
    case False
    let ?n = "if et_destination_subnet_id e = d then Suc n else n"
    have moved: "dense_rootnet X d n (erc_moved X src e txn)"
      using Cons.prems(2) by (simp add: erc_moved_def erc_debited_def Let_def)
    have "s = add_rootnet_msg X (et_destination_subnet_id e)
       (ErcTransfer e h bh (get_next_rootnet_msg_nonce_txn X (erc_moved X src e txn) (et_destination_subnet_id e)) tid)
       (erc_moved X src e txn)"
      using s unfolding batch_erc_transfer_Inr [OF False] by blast
    then have "dense_rootnet X d ?n s"
      using dense_rootnet_append [OF assms(1,2) _ moved, of "et_destination_subnet_id e"
          "\<lambda>k. ErcTransfer e h bh k tid"] Cons.prems False by auto
    from Cons.IH [OF _ this _ rest] Cons.prems False show ?thesis by (auto split: if_splits)
  qed
qed simp

lemma checkpoints_frame [simp]:
  "checkpoints_db (add_rootnet_msg X sid m db) = checkpoints_db db"
  "checkpoints_db (set_bal X k b db) = checkpoints_db db"
  by (simp_all add: add_rootnet_msg_def set_bal_def set_token_balance_def)

text \<open>The application of a batch writes the rootnet messages and the token balances and nothing else.\<close>

definition ledger_only :: "heed_db \<Rightarrow> heed_db \<Rightarrow> bool" where
  "ledger_only txn s \<longleftrightarrow> (db_ok txn \<longrightarrow> db_ok s) \<and>
     s\<lparr> rootnet_msgs_db := [], token_balances_db := [] \<rparr> = txn\<lparr> rootnet_msgs_db := [], token_balances_db := [] \<rparr>"

lemma ledger_only_refl: "ledger_only txn txn"
  by (simp add: ledger_only_def)

lemma ledger_only_step:
  "ledger_only txn s \<Longrightarrow> ledger_only txn (add_rootnet_msg X d m s)"
  "ledger_only txn s \<Longrightarrow> ledger_only txn (set_token_balance X home tok h b s)"
  by (auto simp: ledger_only_def) (simp_all add: add_rootnet_msg_def set_token_balance_def)

lemma ledger_only_fold:
  "(\<And>x s. x \<in> set xs \<Longrightarrow> ledger_only txn s \<Longrightarrow> ledger_only txn (f x s)) \<Longrightarrow> ledger_only txn s
     \<Longrightarrow> ledger_only txn (fold f xs s)"
  by (induction xs arbitrary: s) simp_all

lemma batch_apply_frame:
  assumes "batch_apply X db h bh tid msg txn = Inr txn'"
  shows "ledger_only txn txn'"
proof -
  let ?src = "bt_subnet_id msg"
  from assms obtain t1 t2 t3 t4 where
    t: "t1 = fold (batch_fund X h bh tid) (bt_transfers msg) txn"
      "t2 = fold (batch_register X ?src (get_all_subnets db) h bh tid) (bt_token_registrations msg) t1"
      "t3 = fold (batch_mint X ?src)
         (filter (\<lambda>e. \<not> i256_is_negative (ea_delta e)) (bt_token_supply_adjustments msg)) t2"
    and burn: "res_fold (batch_burn X ?src) t3
         (filter (\<lambda>e. i256_is_negative (ea_delta e)) (bt_token_supply_adjustments msg)) = Inr t4"
    and erc: "res_fold (batch_erc_transfer X ?src h bh tid) t4 (bt_token_transfers msg) = Inr txn'"
    by (rule batch_apply_phases)
  have "ledger_only txn (batch_announce X ?src h bh tid e sub s)" if "ledger_only txn s" for e sub s
    using that by (simp add: batch_announce_def Let_def ledger_only_step)
  then have reg: "ledger_only txn (batch_register X ?src subs h bh tid e s)" if "ledger_only txn s" for subs e s
    using that unfolding batch_register_def by (intro ledger_only_fold) (simp_all add: ledger_only_step)
  have "ledger_only txn t1"
    unfolding t by (intro ledger_only_fold) (simp_all add: batch_fund_def Let_def ledger_only_step ledger_only_refl)
  then have "ledger_only txn t2" unfolding t(2) by (intro ledger_only_fold) (simp_all add: reg)
  then have "ledger_only txn t3"
    unfolding t(3) by (intro ledger_only_fold) (simp_all add: batch_mint_def Let_def ledger_only_step)
  then have "ledger_only txn t4"
    by (rule res_fold_invariant [OF burn])
      (auto simp: batch_burn_def Let_def ledger_only_step split: option.splits)
  then show "ledger_only txn txn'"
    by (rule res_fold_invariant [OF erc])
      (auto simp: batch_erc_transfer_def Let_def ledger_only_step split: option.splits if_splits)
qed

lemma ledger_only_tables:
  assumes "ledger_only txn s"
  shows "checkpoints_db s = checkpoints_db txn" "subnet_db s = subnet_db txn"
    "subnet_genesis_db s = subnet_genesis_db txn" "committee_db s = committee_db txn"
    "stake_changes_db s = stake_changes_db txn" "kill_requests_db s = kill_requests_db txn"
  using assms unfolding ledger_only_def by (cases s; cases txn; simp)+

definition batch_message_count :: "heed_db \<Rightarrow> ipc_batch_transfer_msg \<Rightarrow> subnet_id \<Rightarrow> nat" where
  "batch_message_count db msg d =
     length (filter (\<lambda>t. xt_destination_subnet_id t = d) (bt_transfers msg))
   + length (bt_token_registrations msg)
       * length (filter (\<lambda>s. ss_id s = d \<and> ss_id s \<noteq> bt_subnet_id msg) (get_all_subnets db))
   + length (filter (\<lambda>e. et_destination_subnet_id e = d \<and> et_amount e \<noteq> 0) (bt_token_transfers msg))"

section \<open>A concrete batch\<close>

definition demo_id2 :: subnet_id where
  "demo_id2 = subnet_id_from_txid20 (replicate 20 8)"

definition demo_state :: subnet_state where
  "demo_state = \<lparr> ss_id = demo_id, ss_committee_number = 1, ss_committee = demo_committee 0,
     ss_waiting_committee = None, ss_last_checkpoint_number = Some 0, ss_killed = NotKilled,
     ss_marked_for_kill_checkpoint_number = None \<rparr>"

definition demo_checkpoint :: subnet_checkpoint where
  "demo_checkpoint = \<lparr> cp_checkpoint_number = 0, cp_checkpoint_hash = [], cp_checkpoint_height = 1,
     cp_block_height = 2, cp_txid = [3], cp_batch_transfer_txid = None,
     cp_batch_transfer_block_height = None, cp_signed_committee_number = 1, cp_next_committee_number = 1,
     cp_next_configuration_number = 0, cp_is_kill_checkpoint = False \<rparr>"

definition demo_db :: heed_db where
  "demo_db = save_checkpoint demo_ext demo_id demo_checkpoint 0
     (save_subnet_state demo_ext demo_id demo_state empty_db)"

definition demo_token :: eth_address where "demo_token = replicate 20 9"

definition demo_registration :: ipc_erc_token_registration where
  "demo_registration = \<lparr> er_home_token_address = demo_token, er_name = ''Token'', er_symbol = ''TKN'',
     er_decimals = 18, er_initial_supply = 100 \<rparr>"

definition demo_erc :: ipc_cross_subnet_erc_transfer where
  "demo_erc = \<lparr> et_home_subnet_id = demo_id, et_home_token_address = demo_token, et_amount = 30,
     et_destination_subnet_id = demo_id2, et_recipient = [4] \<rparr>"

definition demo_batch :: ipc_batch_transfer_msg where
  "demo_batch = \<lparr> bt_subnet_id = demo_id, bt_checkpoint_txid = [3], bt_checkpoint_vout = 1,
     bt_transfers = [], bt_token_registrations = [demo_registration],
     bt_token_supply_adjustments = [\<lparr> ea_home_token_address = demo_token, ea_delta = - 20 \<rparr>],
     bt_token_transfers = [demo_erc] \<rparr>"

lemma demo_id2_facts [simp]: "native_id demo_id2" "demo_id2 \<noteq> demo_id" "demo_id \<noteq> demo_id2"
  by (simp_all add: demo_id_def demo_id2_def subnet_id_from_txid20_def)

lemma demo_db_facts:
  "db_ok demo_db" "get_subnet_state demo_ext demo_db demo_id = Some demo_state"
  "get_checkpoint demo_ext demo_db demo_id 0 = Some demo_checkpoint"
  "bal demo_ext demo_db k = 0" "rootnet_msgs_db demo_db = []"
  using demo_ext_ok
  by (simp_all add: demo_db_def db_unfold bal_def get_token_balance_txn_def kv_get_def empty_db_def
      db_ok_def kv_ok_def)

lemma demo_all_subnets: "get_all_subnets demo_db = [demo_state]"
  by (simp add: demo_db_def get_all_subnets_def save_checkpoint_def save_subnet_state_def empty_db_def
      kv_prefix_iter_def all_subnets_prefix_def subnet_state_key_def)

lemma demo_negative: "i256_is_negative (- 20)" "i256_abs (- 20) = 20"
  by (simp_all add: i256_is_negative_def i256_abs_def)

lemma demo_batch_valid:
  "validate_erc_batch_data demo_ext demo_id (bt_token_registrations demo_batch)
     (bt_token_supply_adjustments demo_batch) (bt_token_transfers demo_batch) demo_db = Inr ()"
  by (simp add: demo_batch_def demo_registration_def demo_erc_def validate_erc_batch_data_def
      validate_registration_def validate_mint_def validate_burn_def validate_erc_transfer_def
      running_balance_upd [OF demo_ext_ok] demo_negative get_token_balance_def get_token_balance_bal
      demo_db_facts)

lemma validated_batch_is_applied_aux:
  "\<exists>db' cp'. batch_save_to_db demo_ext demo_db 7 [] [6] demo_batch = Inr (db', cp')"
proof -
  let ?cp = "demo_checkpoint\<lparr> cp_batch_transfer_txid := Some [6], cp_batch_transfer_block_height := Some 7 \<rparr>"
  have "\<exists>txn'. batch_apply demo_ext demo_db 7 [] [6] demo_batch
      (save_checkpoint demo_ext demo_id ?cp (0 + 1) demo_db) = Inr txn'"
    using batch_apply_covered [OF demo_ext_ok, of _ demo_db demo_batch 7 "[]" "[6]"] demo_batch_valid
      demo_db_facts(1) by (simp add: demo_batch_def)
  then show ?thesis
    using demo_batch_valid demo_db_facts(2,3)
    by (auto simp: batch_save_to_db_def Let_def demo_batch_def demo_state_def)
qed

section \<open>Properties\<close>

text \<open>
  C1. A batch that passes the ERC validation is applied completely: once the source subnet and its last
  checkpoint are found, no burn and no transfer of the batch can underflow the ledger, whatever the
  mix of registrations, mints, burns and transfers of the same token.
\<close>

theorem validated_batch_is_applied:
  assumes "ext_ok X" "db_ok db"
    and "get_subnet_state X db (bt_subnet_id msg) = Some s"
    and "ss_last_checkpoint_number s = Some n"
    and "get_checkpoint X db (bt_subnet_id msg) n = Some cp"
    and "validate_erc_batch_data X (bt_subnet_id msg) (bt_token_registrations msg)
           (bt_token_supply_adjustments msg) (bt_token_transfers msg) db = Inr ()"
  shows "\<exists>db' cp'. batch_save_to_db X db h bh tid msg = Inr (db', cp')"
proof -
  let ?cp = "cp\<lparr> cp_batch_transfer_txid := Some tid, cp_batch_transfer_block_height := Some h \<rparr>"
  obtain txn' where
    "batch_apply X db h bh tid msg (save_checkpoint X (bt_subnet_id msg) ?cp (n + 1) db) = Inr txn'"
    using batch_apply_covered [OF assms(1) _ _ assms(6)] assms(2) by fastforce
  with assms(3-6) show ?thesis by (simp add: batch_save_to_db_def Let_def)
qed

theorem validated_batch_is_applied_witness:
  "\<exists>db' cp'. batch_save_to_db demo_ext demo_db 7 [] [6] demo_batch = Inr (db', cp')"
  by (rule validated_batch_is_applied [of _ _ _ demo_state 0 demo_checkpoint])
    (use demo_batch_valid in \<open>simp_all add: demo_ext_ok demo_db_facts demo_batch_def demo_state_def\<close>)

text \<open>
  C2. Supply conservation: over any finite set of subnets that holds the source and every destination, a
  saved batch changes the total of a token by exactly the registered initial supply and the mints of
  its home subnet less its burns; transfers change nothing, and no other subnet can create or destroy
  a token (as long as the total stays below \<open>2^256\<close>, where the ledger saturates).
\<close>

theorem batch_conserves_supply:
  assumes "ext_ok X" "db_ok db" "batch_save_to_db X db h bh tid msg = Inr (db', cp')"
    and "finite H" "bt_subnet_id msg \<in> H" "et_destination_subnet_id ` set (bt_token_transfers msg) \<subseteq> H"
    and "mints = adjusted (bt_subnet_id msg) home tok
           (filter (\<lambda>e. \<not> i256_is_negative (ea_delta e)) (bt_token_supply_adjustments msg))"
    and "burns = adjusted (bt_subnet_id msg) home tok
           (filter (\<lambda>e. i256_is_negative (ea_delta e)) (bt_token_supply_adjustments msg))"
    and "new = registered (bt_subnet_id msg) home tok (bt_token_registrations msg)"
    and "token_supply X db H home tok + new + mints < 2 ^ 256"
  shows "token_supply X db' H home tok + burns = token_supply X db H home tok + new + mints"
proof -
  let ?src = "bt_subnet_id msg"
  from assms(3) obtain n cp where
    valid: "validate_erc_batch_data X ?src (bt_token_registrations msg)
           (bt_token_supply_adjustments msg) (bt_token_transfers msg) db = Inr ()"
    and app: "batch_apply X db h bh tid msg (save_checkpoint X ?src cp (n + 1) db) = Inr db'"
    by (rule batch_save_Inr) blast
  let ?t0 = "save_checkpoint X ?src cp (n + 1) db"
  from app obtain t1 t2 t3 t4 where
    t: "t1 = fold (batch_fund X h bh tid) (bt_transfers msg) ?t0"
      "t2 = fold (batch_register X ?src (get_all_subnets db) h bh tid) (bt_token_registrations msg) t1"
      "t3 = fold (batch_mint X ?src)
         (filter (\<lambda>e. \<not> i256_is_negative (ea_delta e)) (bt_token_supply_adjustments msg)) t2"
      "res_fold (batch_burn X ?src) t3
         (filter (\<lambda>e. i256_is_negative (ea_delta e)) (bt_token_supply_adjustments msg)) = Inr t4"
      "res_fold (batch_erc_transfer X ?src h bh tid) t4 (bt_token_transfers msg) = Inr db'"
    by (rule batch_apply_phases)
  have t1: "db_ok t1" "bal X t1 = bal X db"
    using batch_funds_frame [of ?t0 X h bh tid "bt_transfers msg"] assms(2) t(1) by simp_all
  have "distinct (map er_home_token_address (bt_token_registrations msg)) \<and>
      (\<forall>e \<in> set (bt_token_registrations msg). bal X t1 (?src, er_home_token_address e, ?src) = 0)"
    using valid validate_registration_new [OF assms(1)] t1
    by (fastforce simp: validate_erc_batch_data_def res_simps)
  then have s2: "token_supply X t2 H home tok = token_supply X db H home tok + new" "db_ok t2"
    using supply_register [OF assms(1,4,5) t1(1), of "bt_token_registrations msg"] supply_cong [OF t1(2)]
      t(2) assms(9) by simp_all
  then have s3: "token_supply X t3 H home tok = token_supply X db H home tok + new + mints" "db_ok t3"
    using supply_mint [OF assms(1,4,5) s2(2), of home tok
        "filter (\<lambda>e. \<not> i256_is_negative (ea_delta e)) (bt_token_supply_adjustments msg)"] assms(7,10) t(3)
    by simp_all
  then have s4: "token_supply X t4 H home tok + burns = token_supply X db H home tok + new + mints" "db_ok t4"
    using supply_burn [OF assms(1,4,5) s3(2) t(4)] assms(8) by simp_all
  then have "token_supply X t4 H home tok < 2 ^ 256" using assms(10) by linarith
  then show ?thesis
    using supply_erc_transfer [OF assms(1,4,5) s4(2) assms(6) t(5)] s4(1) by simp
qed

theorem batch_conserves_supply_witness:
  "\<exists>db' cp'. batch_save_to_db demo_ext demo_db 7 [] [6] demo_batch = Inr (db', cp')
     \<and> token_supply demo_ext db' {demo_id, demo_id2} demo_id demo_token = 80"
proof -
  obtain db' cp' where s: "batch_save_to_db demo_ext demo_db 7 [] [6] demo_batch = Inr (db', cp')"
    using validated_batch_is_applied_aux by blast
  have "token_supply demo_ext demo_db {demo_id, demo_id2} demo_id demo_token = 0"
    by (simp add: token_supply_def demo_db_facts)
  then have "token_supply demo_ext db' {demo_id, demo_id2} demo_id demo_token + 20 = 0 + 100 + 0"
    using batch_conserves_supply [OF demo_ext_ok demo_db_facts(1) s, of "{demo_id, demo_id2}" 0 demo_id demo_token 20 100]
    by (simp add: demo_batch_def demo_erc_def adjusted_def registered_def demo_registration_def demo_negative)
  with s show ?thesis by auto
qed

text \<open>
  C3. Firewall: a saved batch never lowers a balance held by a subnet other than the one that issued it,
  for any token.
\<close>

theorem batch_firewall:
  assumes "ext_ok X" "db_ok db" "batch_save_to_db X db h bh tid msg = Inr (db', cp')"
    and "holder \<noteq> bt_subnet_id msg"
  shows "get_token_balance X db home tok holder \<le> get_token_balance X db' home tok holder"
proof -
  let ?src = "bt_subnet_id msg"
  from assms(3) obtain n cp where
    "batch_apply X db h bh tid msg (save_checkpoint X ?src cp (n + 1) db) = Inr db'"
    by (rule batch_save_Inr) blast
  then obtain t1 t2 t3 t4 where
    t: "t1 = fold (batch_fund X h bh tid) (bt_transfers msg) (save_checkpoint X ?src cp (n + 1) db)"
      "t2 = fold (batch_register X ?src (get_all_subnets db) h bh tid) (bt_token_registrations msg) t1"
      "t3 = fold (batch_mint X ?src)
         (filter (\<lambda>e. \<not> i256_is_negative (ea_delta e)) (bt_token_supply_adjustments msg)) t2"
      "res_fold (batch_burn X ?src) t3
         (filter (\<lambda>e. i256_is_negative (ea_delta e)) (bt_token_supply_adjustments msg)) = Inr t4"
      "res_fold (batch_erc_transfer X ?src h bh tid) t4 (bt_token_transfers msg) = Inr db'"
    by (rule batch_apply_phases)
  let ?k = "(home, tok, holder)"
  have 1: "db_ok t1" "bal X t1 ?k = bal X db ?k"
    using batch_funds_frame [of "save_checkpoint X ?src cp (n + 1) db" X h bh tid "bt_transfers msg"]
      assms(2) t(1) by simp_all
  have 2: "db_ok t2" "bal X t2 ?k = bal X t1 ?k"
    using bal_register_other [OF assms(1) 1(1) assms(4)] t(2) by simp_all
  have 3: "db_ok t3" "bal X t3 ?k = bal X t2 ?k"
    using bal_mint_other [OF assms(1) 2(1) assms(4)] t(3) by simp_all
  have 4: "db_ok t4" "bal X t4 ?k = bal X t3 ?k"
    using bal_burn_other [OF assms(1) 3(1) t(4) assms(4)] by simp_all
  have "bal X t4 ?k \<le> bal X db' ?k"
    using bal_erc_transfer_other [OF assms(1) 4(1) t(5) assms(4)] by simp
  then show ?thesis
    using 1(2) 2(2) 3(2) 4(2) by (simp add: get_token_balance_def get_token_balance_bal)
qed

theorem batch_firewall_witness:
  "\<exists>db' cp'. batch_save_to_db demo_ext demo_db 7 [] [6] demo_batch = Inr (db', cp')
     \<and> get_token_balance demo_ext demo_db demo_id demo_token demo_id2
       \<le> get_token_balance demo_ext db' demo_id demo_token demo_id2"
proof -
  obtain db' cp' where s: "batch_save_to_db demo_ext demo_db 7 [] [6] demo_batch = Inr (db', cp')"
    using validated_batch_is_applied_aux by blast
  from batch_firewall [OF demo_ext_ok demo_db_facts(1) s, of demo_id2] s show ?thesis
    by (simp add: demo_batch_def)
qed

lemma batch_dense_rootnet:
  assumes "ext_ok X" "db_ok db" "batch_save_to_db X db h bh tid msg = Inr (db', cp')"
    and "native_id d" "\<forall>t \<in> set (bt_transfers msg). native_id (xt_destination_subnet_id t)"
    and "\<forall>e \<in> set (bt_token_transfers msg). native_id (et_destination_subnet_id e)"
    and "\<forall>s \<in> set (get_all_subnets db). native_id (ss_id s)"
    and "dense_rootnet X d n db" "n + batch_message_count db msg d \<le> 2 ^ 64"
  shows "dense_rootnet X d (n + batch_message_count db msg d) db'"
proof -
  let ?src = "bt_subnet_id msg"
  let ?a = "length (filter (\<lambda>t. xt_destination_subnet_id t = d) (bt_transfers msg))"
  let ?b = "length (bt_token_registrations msg)
       * length (filter (\<lambda>s. ss_id s = d \<and> ss_id s \<noteq> ?src) (get_all_subnets db))"
  let ?c = "length (filter (\<lambda>e. et_destination_subnet_id e = d \<and> et_amount e \<noteq> 0) (bt_token_transfers msg))"
  have sum: "n + batch_message_count db msg d = n + ?a + ?b + ?c"
    by (simp add: batch_message_count_def)
  from assms(3) obtain m cp where
    "batch_apply X db h bh tid msg (save_checkpoint X ?src cp (m + 1) db) = Inr db'"
    by (rule batch_save_Inr) blast
  then obtain t1 t2 t3 t4 where
    t: "t1 = fold (batch_fund X h bh tid) (bt_transfers msg) (save_checkpoint X ?src cp (m + 1) db)"
      "t2 = fold (batch_register X ?src (get_all_subnets db) h bh tid) (bt_token_registrations msg) t1"
      "t3 = fold (batch_mint X ?src)
         (filter (\<lambda>e. \<not> i256_is_negative (ea_delta e)) (bt_token_supply_adjustments msg)) t2"
      "res_fold (batch_burn X ?src) t3
         (filter (\<lambda>e. i256_is_negative (ea_delta e)) (bt_token_supply_adjustments msg)) = Inr t4"
      "res_fold (batch_erc_transfer X ?src h bh tid) t4 (bt_token_transfers msg) = Inr db'"
    by (rule batch_apply_phases)
  have "dense_rootnet X d n (save_checkpoint X ?src cp (m + 1) db)"
    using assms(8) by (simp add: save_checkpoint_def)
  then have "dense_rootnet X d (n + ?a) t1"
    unfolding t(1) using assms(1,4,5,9) sum by (intro dense_funds) simp_all
  then have "dense_rootnet X d (n + ?a + ?b) t2"
    unfolding t(2) using assms(1,4,7,9) sum by (intro dense_register) simp_all
  then have "dense_rootnet X d (n + ?a + ?b) t4"
    using dense_burn [OF t(4)] t(3) by (simp add: dense_mint)
  then have "dense_rootnet X d (n + ?a + ?b + ?c) db'"
    using assms(1,4,6,9) sum t(5) by (intro dense_erc_transfers) simp_all
  then show ?thesis unfolding sum .
qed

text \<open>
  A saved batch appends to the log of every subnet exactly the messages addressed to it, under
  consecutive nonces: a log of \<open>n\<close> messages numbered from 0 becomes one of \<open>n\<close> plus the number of
  transfers to that subnet, announced registrations and token transfers to it.
\<close>

theorem batch_nonces_consecutive:
  assumes "ext_ok X" "db_ok db" "batch_save_to_db X db h bh tid msg = Inr (db', cp')"
    and "native_id d" "\<forall>t \<in> set (bt_transfers msg). native_id (xt_destination_subnet_id t)"
    and "\<forall>e \<in> set (bt_token_transfers msg). native_id (et_destination_subnet_id e)"
    and "\<forall>s \<in> set (get_all_subnets db). native_id (ss_id s)"
    and "dense_rootnet X d n db" "n + batch_message_count db msg d \<le> 2 ^ 64"
  shows "dense_rootnet X d (n + batch_message_count db msg d) db'
       \<and> get_next_rootnet_msg_nonce X db' d = of_nat (n + batch_message_count db msg d)"
  using batch_dense_rootnet [OF assms] next_rootnet_nonce(2) [OF assms(1,4)] by blast

theorem batch_nonces_consecutive_witness:
  "\<exists>db' cp'. batch_save_to_db demo_ext demo_db 7 [] [6] demo_batch = Inr (db', cp')
     \<and> get_next_rootnet_msg_nonce demo_ext db' demo_id2 = 1"
proof -
  obtain db' cp' where s: "batch_save_to_db demo_ext demo_db 7 [] [6] demo_batch = Inr (db', cp')"
    using validated_batch_is_applied_aux by blast
  have d: "dense_rootnet demo_ext demo_id2 0 demo_db"
    using rootnet_log.dense_empty [of 0 demo_ext demo_id2] by (simp add: demo_db_facts)
  have c: "batch_message_count demo_db demo_batch demo_id2 = 1"
    by (simp add: batch_message_count_def demo_batch_def demo_erc_def demo_all_subnets demo_state_def)
  have "get_next_rootnet_msg_nonce demo_ext db' demo_id2 = of_nat (0 + 1)"
    using batch_nonces_consecutive [OF demo_ext_ok demo_db_facts(1) s, of demo_id2 0] d c
    by (simp add: demo_batch_def demo_erc_def demo_all_subnets demo_state_def)
  with s show ?thesis by auto
qed

text \<open>
  The record of the checkpoint a batch belongs to does not receive the batch: the updated copy is
  saved under the number after the last checkpoint, so that the last checkpoint stays as it was and a
  checkpoint appears under a number that has not been reached yet.
\<close>

theorem batch_recorded_under_next_number:
  assumes "ext_ok X" "db_ok db" "batch_save_to_db X db h bh tid msg = Inr (db', cp')"
    and "get_subnet_state X db (bt_subnet_id msg) = Some s" "ss_last_checkpoint_number s = Some n"
  shows "get_checkpoint X db' (bt_subnet_id msg) n = get_checkpoint X db (bt_subnet_id msg) n
       \<and> get_checkpoint X db' (bt_subnet_id msg) (n + 1) = Some cp'
       \<and> cp_batch_transfer_txid cp' = Some tid"
proof -
  let ?src = "bt_subnet_id msg"
  from assms(3) obtain s' n' cp where
    h: "get_subnet_state X db ?src = Some s'" "ss_last_checkpoint_number s' = Some n'"
      "cp' = cp\<lparr> cp_batch_transfer_txid := Some tid, cp_batch_transfer_block_height := Some h \<rparr>"
    and app: "batch_apply X db h bh tid msg (save_checkpoint X ?src cp' (n' + 1) db) = Inr db'"
    by (rule batch_save_Inr) blast
  have n: "n' = n" using h assms(4,5) by simp
  have "checkpoints_db db' = checkpoints_db (save_checkpoint X ?src cp' (n + 1) db)"
    using ledger_only_tables(1) [OF batch_apply_frame [OF app]] n by simp
  then have "get_checkpoint X db' ?src k = get_checkpoint X (save_checkpoint X ?src cp' (n + 1) db) ?src k" for k
    by (simp add: get_checkpoint_def)
  then show ?thesis using assms(1,2) h(3) by (simp add: get_save_checkpoint)
qed

theorem batch_recorded_under_next_number_witness:
  "\<exists>db' cp'. batch_save_to_db demo_ext demo_db 7 [] [6] demo_batch = Inr (db', cp')
     \<and> get_checkpoint demo_ext db' demo_id 0 = Some demo_checkpoint
     \<and> get_checkpoint demo_ext db' demo_id 1 = Some cp'"
proof -
  obtain db' cp' where s: "batch_save_to_db demo_ext demo_db 7 [] [6] demo_batch = Inr (db', cp')"
    using validated_batch_is_applied_aux by blast
  have src: "bt_subnet_id demo_batch = demo_id" by (simp add: demo_batch_def)
  have n: "ss_last_checkpoint_number demo_state = Some 0" by (simp add: demo_state_def)
  from batch_recorded_under_next_number [OF demo_ext_ok demo_db_facts(1) s, unfolded src, OF demo_db_facts(2) n] s
  show ?thesis by (simp add: demo_db_facts)
qed

text \<open>
  The check that a token is new looks only at the home subnet's own balance: a token whose home
  balance is zero (because its supply was moved to other subnets, or registered as zero) passes the
  validation of another registration, although other subnets may hold it.
\<close>

theorem zero_home_balance_can_register_again:
  assumes "get_token_balance X db src (er_home_token_address e) src = 0"
  shows "validate_erc_batch_data X src [e] [] [] db = Inr ()"
  using assms by (simp add: validate_erc_batch_data_def validate_registration_def)

theorem zero_home_balance_can_register_again_witness:
  "get_token_balance demo_ext (set_token_balance demo_ext demo_id demo_token demo_id2 100 demo_db)
     demo_id demo_token demo_id2 = 100
   \<and> validate_erc_batch_data demo_ext demo_id [demo_registration] [] []
       (set_token_balance demo_ext demo_id demo_token demo_id2 100 demo_db) = Inr ()"
proof
  let ?db = "set_token_balance demo_ext demo_id demo_token demo_id2 100 demo_db"
  have bal: "get_token_balance demo_ext ?db demo_id demo_token h = (if h = demo_id2 then 100 else 0)" for h
    using demo_db_facts(1,4) demo_ext_ok
    by (simp add: get_token_balance_def get_set_token_balance) (simp add: get_token_balance_bal demo_db_facts)
  then show "get_token_balance demo_ext ?db demo_id demo_token demo_id2 = 100" by simp
  show "validate_erc_batch_data demo_ext demo_id [demo_registration] [] [] ?db = Inr ()"
    by (rule zero_home_balance_can_register_again) (simp add: bal demo_registration_def)
qed

end
