(* ===== verification/Handlers.thy ===== *)
theory Handlers
  imports Batch
begin

text \<open>
  The messages of \<open>src/src/ipc_lib.rs\<close> that create a subnet, bootstrap it, fund it and change its
  committee: the validation of each and its \<open>save_to_db\<close>.  A handler reads the committed database
  and returns the next one, or an error and no database; an overflow check of \<open>Amount\<close> and a failed
  \<open>expect\<close> are the error \<open>Panic\<close>.
\<close>

abbreviation invalid_msg :: "string \<Rightarrow> ipc_lib_error" where
  "invalid_msg s \<equiv> IpcValidateError (InvalidMsg s)"

abbreviation invalid_field :: "string \<Rightarrow> string \<Rightarrow> ipc_lib_error" where
  "invalid_field f s \<equiv> IpcValidateError (InvalidField f s)"

definition ipc_amount_add :: "amount \<Rightarrow> amount \<Rightarrow> ipc_lib_error + amount" where
  "ipc_amount_add a b = ok_or (word_checked_add a b) (Panic ''Amount overflow'')"

section \<open>Create\<close>

definition create_validate :: "ipc_create_subnet_msg \<Rightarrow> ipc_validate_error + unit" where
  "create_validate m =
     (if cr_min_validators m = 0
      then Inl (InvalidField ''min_validators'' ''must be greater than 0'')
      else if length (cr_whitelist m) < unat (cr_min_validators m)
      then Inl (InvalidField ''whitelist'' ''less than the minimum required validators'')
      else if cr_bottomup_check_period m = 0
      then Inl (InvalidField ''bottomup_check_period'' ''Must be greater than 0'')
      else if cr_active_validators_limit m < cr_min_validators m
      then Inl (InvalidField ''active_validators_limit'' ''Must be at least min_validators'')
      else if cr_min_cross_msg_fee m = 0
      then Inl (InvalidField ''min_cross_msg_fee'' ''Must be greater than 0'')
      else Inr ())"

definition create_save_to_db ::
  "ext \<Rightarrow> heed_db \<Rightarrow> u64 \<Rightarrow> txid \<Rightarrow> ipc_create_subnet_msg \<Rightarrow> ipc_lib_error + (heed_db \<times> subnet_genesis_info)" where
  "create_save_to_db X db block_height tid m =
     (let sid = subnet_id_from_txid tid;
          genesis_info = \<lparr> gi_subnet_id = sid, gi_create_subnet_msg = m,
            gi_create_msg_block_height = block_height, gi_bootstrapped = False,
            gi_genesis_block_height = None, gi_genesis_validators = [],
            gi_genesis_balance_entries = [] \<rparr>
      in Inr (save_subnet_genesis_info X sid genesis_info db, genesis_info))"

definition multisig_address_from_whitelist ::
  "ext \<Rightarrow> subnet_id \<Rightarrow> ipc_create_subnet_msg \<Rightarrow> ipc_lib_error + btc_address" where
  "multisig_address_from_whitelist X sid m =
     res_map_err ipc_from_multisig
       (create_subnet_multisig_address X sid (whitelist_weighted_keys m) (ucast (cr_min_validators m)))"

section \<open>Join\<close>

record ipc_join_subnet_msg =
  jm_subnet_id :: subnet_id
  jm_collateral :: amount
  jm_ip :: string
  jm_backup_address :: btc_address
  jm_pubkey :: xonly_pubkey

definition join_validate :: "ext \<Rightarrow> ipc_join_subnet_msg \<Rightarrow> ipc_validate_error + unit" where
  "join_validate X m =
     (if jm_subnet_id m = subnet_id_default
      then Inl (InvalidField ''subnet_id'' ''Subnet ID cannot be all zeros'')
      else if jm_collateral m = 0
      then Inl (InvalidField ''collateral'' ''must be greater than zero'')
      else if \<not> address_valid X (jm_backup_address m)
      then Inl (InvalidField ''backup_address'' ''must be for the network'')
      else Inr ())"

definition join_validate_pre_bootstrap ::
  "ipc_join_subnet_msg \<Rightarrow> subnet_genesis_info \<Rightarrow> ipc_validate_error + unit" where
  "join_validate_pre_bootstrap m g =
     (if jm_collateral m < cr_min_validator_stake (gi_create_subnet_msg g)
      then Inl (InvalidField ''collateral'' ''Collateral below the minimum'')
      else if jm_pubkey m \<notin> set (cr_whitelist (gi_create_subnet_msg g))
      then Inl (InvalidField ''pubkey'' ''Validator public key not whitelisted'')
      else if \<exists>v \<in> set (gi_genesis_validators g). v_pubkey v = jm_pubkey m
      then Inl (InvalidField ''pubkey'' ''already registered in subnet'')
      else Inr ())"

definition join_validate_post_bootstrap ::
  "ipc_join_subnet_msg \<Rightarrow> subnet_genesis_info \<Rightarrow> subnet_state \<Rightarrow> ipc_validate_error + unit" where
  "join_validate_post_bootstrap m g s =
     (if is_killed_or_pending s then Inl (InvalidMsg ''Subnet is killed or marked for killing, cannot join.'')
      else if jm_collateral m < cr_min_validator_stake (gi_create_subnet_msg g)
      then Inl (InvalidField ''collateral'' ''Collateral below the minimum'')
      else if committee_is_validator (ss_committee s) (jm_pubkey m)
      then Inl (InvalidMsg ''already registered in subnet'')
      else if is_waiting_validator s (jm_pubkey m)
      then Inl (InvalidMsg ''already registered in subnet, waiting for next committee'')
      else Inr ())"

definition join_validate_for_subnet ::
  "ipc_join_subnet_msg \<Rightarrow> subnet_genesis_info \<Rightarrow> subnet_state option \<Rightarrow> ipc_validate_error + unit" where
  "join_validate_for_subnet m g so =
     (case so of
        Some s \<Rightarrow>
          if ss_id s \<noteq> jm_subnet_id m then Inl (InvalidField ''subnet_id'' ''Subnet ID mismatch'')
          else join_validate_post_bootstrap m g s
      | None \<Rightarrow> join_validate_pre_bootstrap m g)"

definition join_request ::
  "ext \<Rightarrow> ipc_join_subnet_msg \<Rightarrow> subnet_committee \<Rightarrow> u64 \<Rightarrow> block_hash \<Rightarrow> txid \<Rightarrow> staking_change \<Rightarrow> u64
   \<Rightarrow> stake_change_request" where
  "join_request X m next_committee h bh tid change number =
     \<lparr> sc_change = change, sc_validator_xpk = jm_pubkey m,
       sc_validator_subnet_address = eth_addr_from_x_only_pubkey X (jm_pubkey m),
       sc_configuration_number = number, sc_committee_after_change = next_committee,
       sc_block_height = h, sc_block_hash = bh, sc_checkpoint_block_height = None,
       sc_checkpoint_block_hash = None, sc_txid = tid \<rparr>"

definition join_post_bootstrap ::
  "ext \<Rightarrow> heed_db \<Rightarrow> u64 \<Rightarrow> block_hash \<Rightarrow> txid \<Rightarrow> ipc_join_subnet_msg \<Rightarrow> subnet_validator \<Rightarrow> subnet_state
   \<Rightarrow> ipc_lib_error + heed_db" where
  "join_post_bootstrap X db h bh tid m new_validator subnet =
     (if state_is_validator subnet (jm_pubkey m)
      then Inl (invalid_field ''pubkey'' ''already registered in subnet'')
      else if committee_is_validator (latest_committee subnet) (jm_pubkey m)
      then Inl (invalid_field ''pubkey'' ''already registered in subnet, waiting in next committee.'')
      else
      res_bind (res_map_err ipc_from_db
                 (join_new_validator X (ss_id subnet) new_validator (latest_committee subnet))) (\<lambda>next_committee.
      let subnet' = subnet\<lparr> ss_waiting_committee := Some next_committee \<rparr>;
          number = get_next_stake_change_configuration_number X db (jm_subnet_id m);
          change_join = join_request X m next_committee h bh tid (JoinChange (uncompressed_even X (jm_pubkey m))) number;
          change_deposit = join_request X m next_committee h bh tid (Deposit (jm_collateral m)) (number + 1)
      in Inr (add_stake_change X (jm_subnet_id m) change_deposit
               (add_stake_change X (jm_subnet_id m) change_join
                 (save_subnet_state X (jm_subnet_id m) subnet' db)))))"

definition join_pre_bootstrap ::
  "ext \<Rightarrow> heed_db \<Rightarrow> u64 \<Rightarrow> ipc_join_subnet_msg \<Rightarrow> subnet_validator \<Rightarrow> subnet_genesis_info
   \<Rightarrow> ipc_lib_error + (heed_db \<times> subnet_state option)" where
  "join_pre_bootstrap X db h m new_validator g =
     (let g1 = g\<lparr> gi_genesis_validators := gi_genesis_validators g @ [new_validator] \<rparr> in
      if enough_to_bootstrap g1 then
        let g2 = g1\<lparr> gi_bootstrapped := True, gi_genesis_block_height := Some h \<rparr> in
        res_bind (res_map_err ipc_from_db (to_subnet X g2)) (\<lambda>subnet.
          Inr (save_committee X (jm_subnet_id m) (ss_committee_number subnet) (ss_committee subnet)
                 (save_subnet_genesis_info X (jm_subnet_id m) g2
                   (save_subnet_state X (jm_subnet_id m) subnet db)), Some subnet))
      else Inr (save_subnet_genesis_info X (jm_subnet_id m) g1 db, None))"

definition join_save_to_db ::
  "ext \<Rightarrow> heed_db \<Rightarrow> u64 \<Rightarrow> block_hash \<Rightarrow> txid \<Rightarrow> ipc_join_subnet_msg
   \<Rightarrow> ipc_lib_error + (heed_db \<times> subnet_state option)" where
  "join_save_to_db X db h bh tid m =
     res_bind (ok_or (get_subnet_genesis_info X db (jm_subnet_id m)) (invalid_msg ''subnet does not exist'')) (\<lambda>g.
     let so = get_subnet_state X db (jm_subnet_id m) in
     res_bind (res_map_err IpcValidateError (join_validate_for_subnet m g so)) (\<lambda>_.
     res_bind (res_map_err ipc_from_multisig
                (collateral_to_power (jm_collateral m) (cr_min_validator_stake (gi_create_subnet_msg g)))) (\<lambda>pw.
     let new_validator = \<lparr> v_pubkey = jm_pubkey m,
           v_subnet_address = eth_addr_from_x_only_pubkey X (jm_pubkey m), v_power = pw,
           v_collateral = jm_collateral m, v_backup_address = jm_backup_address m, v_ip = jm_ip m,
           v_join_txid = tid \<rparr>
     in case so of
          Some subnet \<Rightarrow> res_bind (join_post_bootstrap X db h bh tid m new_validator subnet) (\<lambda>db'. Inr (db', None))
        | None \<Rightarrow> join_pre_bootstrap X db h m new_validator g)))"

section \<open>Prefund and fund\<close>

record ipc_prefund_subnet_msg =
  pf_subnet_id :: subnet_id
  pf_amount :: amount
  pf_address :: eth_address

definition prefund_validate :: "ipc_prefund_subnet_msg \<Rightarrow> ipc_validate_error + unit" where
  "prefund_validate m =
     (if pf_amount m = 0 then Inl (InvalidField ''value'' ''Value must be greater than 0'') else Inr ())"

definition prefund_validate_for_genesis_info ::
  "ipc_prefund_subnet_msg \<Rightarrow> subnet_genesis_info \<Rightarrow> ipc_validate_error + unit" where
  "prefund_validate_for_genesis_info m g =
     (if gi_bootstrapped g then Inl (InvalidMsg ''Subnet is already bootstrapped.'') else Inr ())"

definition prefund_save_to_db ::
  "ext \<Rightarrow> heed_db \<Rightarrow> u64 \<Rightarrow> txid \<Rightarrow> ipc_prefund_subnet_msg \<Rightarrow> ipc_lib_error + heed_db" where
  "prefund_save_to_db X db h tid m =
     res_bind (ok_or (get_subnet_genesis_info X db (pf_subnet_id m)) (invalid_msg ''subnet does not exist'')) (\<lambda>g.
     res_bind (res_map_err IpcValidateError (prefund_validate_for_genesis_info m g)) (\<lambda>_.
       Inr (save_subnet_genesis_info X (pf_subnet_id m)
              (add_genesis_balance_entry (pf_address m) (pf_amount m) tid h g) db)))"

definition fund_validate :: "ipc_fund_subnet_msg \<Rightarrow> ipc_validate_error + unit" where
  "fund_validate m =
     (if fm_amount m = 0 then Inl (InvalidField ''value'' ''Value must be greater than 0'') else Inr ())"

definition fund_validate_for_subnet :: "ipc_fund_subnet_msg \<Rightarrow> subnet_state \<Rightarrow> ipc_validate_error + unit" where
  "fund_validate_for_subnet m s =
     (if is_killed_or_pending s then Inl (InvalidMsg ''Subnet is killed or marked for killing, cannot fund.'')
      else Inr ())"

definition fund_save_to_db ::
  "ext \<Rightarrow> heed_db \<Rightarrow> u64 \<Rightarrow> block_hash \<Rightarrow> txid \<Rightarrow> ipc_fund_subnet_msg \<Rightarrow> ipc_lib_error + heed_db" where
  "fund_save_to_db X db h bh tid m =
     res_bind (ok_or (get_subnet_state X db (fm_subnet_id m)) (invalid_msg ''subnet does not exist'')) (\<lambda>s.
     res_bind (res_map_err IpcValidateError (fund_validate_for_subnet m s)) (\<lambda>_.
     let nonce = get_next_rootnet_msg_nonce X db (fm_subnet_id m);
         rootnet_msg = FundSubnet m h bh nonce tid
     in Inr (add_rootnet_msg X (fm_subnet_id m) rootnet_msg db)))"

section \<open>Stake\<close>

text \<open>
  The five per cent rule on binary64 numbers: \<open>round53\<close> rounds a natural number to 53 significant bits,
  ties to even; the quotient is scaled to 53 bits, rounded, multiplied by 100 and rounded again.
\<close>

fun bit_length :: "nat \<Rightarrow> nat" where
  "bit_length n = (if n = 0 then 0 else Suc (bit_length (n div 2)))"

declare bit_length.simps [simp del]

definition round_div_even :: "nat \<Rightarrow> nat \<Rightarrow> nat" where
  "round_div_even a b =
     (let q = a div b; r = a mod b in
      if 2 * r < b then q else if b < 2 * r then q + 1 else if even q then q else q + 1)"

definition round53 :: "nat \<Rightarrow> nat" where
  "round53 n = (let k = bit_length n - 53 in if k = 0 then n else round_div_even n (2 ^ k) * 2 ^ k)"

definition f64_below_5_percent :: "nat \<Rightarrow> nat \<Rightarrow> bool" where
  "f64_below_5_percent new_collateral curr_collateral =
     (let c = round53 curr_collateral; d = round53 (round53 new_collateral - c) in
      if c = 0 then False
      else if d = 0 then True
      else if c \<le> d then False
      else
        let s0 = 52 + bit_length c - bit_length d;
            s = (if c * 2 ^ 52 \<le> d * 2 ^ s0 then s0 else s0 + 1);
            q = round_div_even (d * 2 ^ s) c
        in round53 (q * 100) < 5 * 2 ^ s)"

record ipc_stake_collateral_msg =
  sm_subnet_id :: subnet_id
  sm_amount :: amount
  sm_pubkey :: xonly_pubkey

definition stake_validate :: "ipc_stake_collateral_msg \<Rightarrow> ipc_validate_error + unit" where
  "stake_validate m =
     (if sm_subnet_id m = subnet_id_default
      then Inl (InvalidField ''subnet_id'' ''Subnet ID cannot be all zeros'')
      else if sm_amount m = 0 then Inl (InvalidField ''amount'' ''must be greater than zero'')
      else Inr ())"

definition stake_validate_for_subnet ::
  "ipc_stake_collateral_msg \<Rightarrow> subnet_state \<Rightarrow> ipc_lib_error + unit" where
  "stake_validate_for_subnet m s =
     (if ss_id s \<noteq> sm_subnet_id m then Inl (invalid_field ''subnet_id'' ''Subnet ID mismatch'')
      else if is_killed_or_pending s
      then Inl (invalid_msg ''Subnet is killed or marked for killing, cannot change stake.'')
      else if \<not> committee_is_validator (latest_committee s) (sm_pubkey m)
      then Inl (invalid_msg ''must already be a validator in subnet'')
      else
      res_bind (res_map_err ipc_from_db (state_total_collateral s)) (\<lambda>curr_collateral.
      res_bind (ipc_amount_add curr_collateral (sm_amount m)) (\<lambda>new_collateral.
        if f64_below_5_percent (unat new_collateral) (unat curr_collateral)
        then Inl (invalid_msg ''Stake addition must change the total collateral by at least 5 percent'')
        else Inr ())))"

definition find_validator :: "subnet_committee \<Rightarrow> xonly_pubkey \<Rightarrow> subnet_validator option" where
  "find_validator c pk = find (\<lambda>v. v_pubkey v = pk) (cm_validators c)"

definition stake_request ::
  "staking_change \<Rightarrow> subnet_validator \<Rightarrow> u64 \<Rightarrow> subnet_committee \<Rightarrow> u64 \<Rightarrow> block_hash \<Rightarrow> txid
   \<Rightarrow> stake_change_request" where
  "stake_request change v number next_committee h bh tid =
     \<lparr> sc_change = change, sc_validator_xpk = v_pubkey v, sc_validator_subnet_address = v_subnet_address v,
       sc_configuration_number = number, sc_committee_after_change = next_committee,
       sc_block_height = h, sc_block_hash = bh, sc_checkpoint_block_height = None,
       sc_checkpoint_block_hash = None, sc_txid = tid \<rparr>"

definition stake_save_to_db ::
  "ext \<Rightarrow> heed_db \<Rightarrow> u64 \<Rightarrow> block_hash \<Rightarrow> txid \<Rightarrow> ipc_stake_collateral_msg \<Rightarrow> ipc_lib_error + heed_db" where
  "stake_save_to_db X db h bh tid m =
     res_bind (ok_or (get_subnet_genesis_info X db (sm_subnet_id m)) (invalid_msg ''subnet does not exist'')) (\<lambda>g.
     res_bind (ok_or (get_subnet_state X db (sm_subnet_id m)) (invalid_msg ''Subnet not found.'')) (\<lambda>s.
     res_bind (stake_validate_for_subnet m s) (\<lambda>_.
     res_bind (ok_or (find_validator (latest_committee s) (sm_pubkey m))
                (invalid_msg ''Validator not part of committee'')) (\<lambda>v.
     res_bind (ipc_amount_add (sm_amount m) (v_collateral v)) (\<lambda>new_collateral.
     res_bind (res_map_err ipc_from_multisig
                (collateral_to_power new_collateral (cr_min_validator_stake (gi_create_subnet_msg g)))) (\<lambda>new_power.
     let v' = v\<lparr> v_collateral := new_collateral, v_power := new_power \<rparr> in
     res_bind (res_map_err ipc_from_db
                (modify_validator X (sm_subnet_id m) v' (latest_committee s))) (\<lambda>next_committee.
     let s' = s\<lparr> ss_waiting_committee := Some next_committee \<rparr>;
         number = get_next_stake_change_configuration_number X db (sm_subnet_id m)
     in Inr (add_stake_change X (sm_subnet_id m)
               (stake_request (Deposit (sm_amount m)) v' number next_committee h bh tid)
               (save_subnet_state X (sm_subnet_id m) s' db)))))))))"

section \<open>Unstake\<close>

record ipc_unstake_collateral_msg =
  um_subnet_id :: subnet_id
  um_amount :: amount
  um_pubkey :: "xonly_pubkey option"

definition unstake_validate :: "ipc_unstake_collateral_msg \<Rightarrow> ipc_validate_error + unit" where
  "unstake_validate m =
     (if um_subnet_id m = subnet_id_default
      then Inl (InvalidField ''subnet_id'' ''Subnet ID cannot be all zeros'')
      else if um_amount m = 0 then Inl (InvalidField ''amount'' ''must be greater than zero'')
      else Inr ())"

definition unstake_validate_for_subnet ::
  "ipc_unstake_collateral_msg \<Rightarrow> subnet_genesis_info \<Rightarrow> subnet_state \<Rightarrow> ipc_lib_error + unit" where
  "unstake_validate_for_subnet m g s =
     (if ss_id s \<noteq> um_subnet_id m \<or> gi_subnet_id g \<noteq> um_subnet_id m
      then Inl (invalid_field ''subnet_id'' ''Subnet ID mismatch'')
      else if is_killed_or_pending s
      then Inl (invalid_msg ''Subnet is killed or marked for killing, cannot change stake.'')
      else
      case um_pubkey m of
        None \<Rightarrow> Inl (invalid_field ''pubkey'' ''Validator public key is required'')
      | Some pk \<Rightarrow>
        if \<not> committee_is_validator (latest_committee s) pk
        then Inl (invalid_msg ''must already be a validator in subnet'')
        else
        res_bind (res_map_err ipc_from_db (state_total_collateral s)) (\<lambda>total_collateral.
        if total_collateral < um_amount m
        then Inl (invalid_msg ''Unstake amount is greater than current collateral'')
        else
        res_bind (ok_or (find_validator (latest_committee s) pk)
                   (invalid_msg ''Validator not part of committee'')) (\<lambda>v.
        res_bind (ok_or (word_checked_sub (v_collateral v) (um_amount m))
                   (invalid_msg ''Amount is greater than current validator collateral'')) (\<lambda>new_collateral.
        case collateral_to_power new_collateral (cr_min_validator_stake (gi_create_subnet_msg g)) of
          Inr p \<Rightarrow> Inr ()
        | Inl InsufficientCollateral \<Rightarrow>
            if um_amount m \<noteq> v_collateral v
            then Inl (invalid_msg ''insufficient collateral to participate, please unstake all'')
            else Inr ()
        | Inl e \<Rightarrow> Inl (invalid_msg ''Collateral too high'')))))"

text \<open>The power after the withdrawal; \<open>None\<close> when what remains is below the minimum stake.\<close>

definition unstaked_power :: "amount \<Rightarrow> amount \<Rightarrow> ipc_lib_error + power option" where
  "unstaked_power new_collateral min_stake =
     (case collateral_to_power new_collateral min_stake of
        Inr p \<Rightarrow> Inr (Some p)
      | Inl InsufficientCollateral \<Rightarrow> Inr None
      | Inl e \<Rightarrow> Inl (ipc_from_multisig e))"

definition unstake_committee ::
  "ext \<Rightarrow> subnet_id \<Rightarrow> subnet_validator \<Rightarrow> amount \<Rightarrow> power option \<Rightarrow> subnet_committee \<Rightarrow> db_error + subnet_committee" where
  "unstake_committee X sid v new_collateral po c =
     (case po of
        None \<Rightarrow> committee_remove_validator X sid (v_pubkey v) c
      | Some p \<Rightarrow>
          if p = 0 then committee_remove_validator X sid (v_pubkey v) c
          else modify_validator X sid (v\<lparr> v_collateral := new_collateral, v_power := p \<rparr>) c)"

definition unstake_save_to_db ::
  "ext \<Rightarrow> heed_db \<Rightarrow> u64 \<Rightarrow> block_hash \<Rightarrow> txid \<Rightarrow> ipc_unstake_collateral_msg \<Rightarrow> ipc_lib_error + heed_db" where
  "unstake_save_to_db X db h bh tid m =
     res_bind (ok_or (get_subnet_genesis_info X db (um_subnet_id m)) (invalid_msg ''subnet does not exist'')) (\<lambda>g.
     res_bind (ok_or (get_subnet_state X db (um_subnet_id m)) (invalid_msg ''Subnet not found.'')) (\<lambda>s.
     res_bind (unstake_validate_for_subnet m g s) (\<lambda>_.
     res_bind (ok_or (um_pubkey m) (Panic ''pubkey should be present'')) (\<lambda>pk.
     res_bind (ok_or (find_validator (latest_committee s) pk)
                (invalid_msg ''Validator not part of committee'')) (\<lambda>v.
     res_bind (ok_or (word_checked_sub (v_collateral v) (um_amount m))
                (invalid_msg ''Amount is greater than current collateral'')) (\<lambda>new_collateral.
     res_bind (unstaked_power new_collateral (cr_min_validator_stake (gi_create_subnet_msg g))) (\<lambda>po.
     res_bind (res_map_err ipc_from_db
                (unstake_committee X (um_subnet_id m) v new_collateral po (latest_committee s))) (\<lambda>next_committee.
     let s' = s\<lparr> ss_waiting_committee := Some next_committee \<rparr>;
         number = get_next_stake_change_configuration_number X db (um_subnet_id m)
     in Inr (add_stake_change X (um_subnet_id m)
               (stake_request (Withdraw (um_amount m)) v number next_committee h bh tid)
               (save_subnet_state X (um_subnet_id m) s' db))))))))))"

section \<open>Kill\<close>

record ipc_kill_subnet_msg =
  km_subnet_id :: subnet_id
  km_pubkey :: "xonly_pubkey option"

definition kill_validate :: "ipc_kill_subnet_msg \<Rightarrow> ipc_validate_error + unit" where
  "kill_validate m =
     (if km_subnet_id m = subnet_id_default
      then Inl (InvalidField ''subnet_id'' ''Subnet ID cannot be all zeros'') else Inr ())"

definition kill_validate_for_subnet ::
  "ipc_kill_subnet_msg \<Rightarrow> subnet_genesis_info \<Rightarrow> subnet_state \<Rightarrow> ipc_validate_error + unit" where
  "kill_validate_for_subnet m g s =
     (if ss_id s \<noteq> km_subnet_id m \<or> gi_subnet_id g \<noteq> km_subnet_id m
      then Inl (InvalidField ''subnet_id'' ''Subnet ID mismatch'')
      else case km_pubkey m of
        Some pk \<Rightarrow> if \<not> committee_is_validator (latest_committee s) pk
                   then Inl (InvalidMsg ''must be a validator in subnet'') else Inr ()
      | None \<Rightarrow> Inl (InvalidField ''pubkey'' ''Validator public key is required''))"

definition kill_request_power :: "subnet_committee \<Rightarrow> kill_request list \<Rightarrow> u32" where
  "kill_request_power c rs =
     fold (\<lambda>r pw. case find_validator c (kr_validator_xpk r) of
                    Some v \<Rightarrow> pw + v_power v | None \<Rightarrow> pw) rs 0"

definition mark_for_kill :: "subnet_state \<Rightarrow> subnet_state" where
  "mark_for_kill s =
     (let s1 = s\<lparr> ss_killed := ToBeKilled \<rparr> in
      case ss_last_checkpoint_number s1 of
        Some l \<Rightarrow> s1\<lparr> ss_marked_for_kill_checkpoint_number := Some l \<rparr>
      | None \<Rightarrow> s1)"

definition kill_save_to_db ::
  "ext \<Rightarrow> heed_db \<Rightarrow> u64 \<Rightarrow> block_hash \<Rightarrow> txid \<Rightarrow> ipc_kill_subnet_msg \<Rightarrow> ipc_lib_error + heed_db" where
  "kill_save_to_db X db h bh tid m =
     res_bind (ok_or (get_subnet_genesis_info X db (km_subnet_id m)) (invalid_msg ''subnet does not exist'')) (\<lambda>g.
     res_bind (ok_or (get_subnet_state X db (km_subnet_id m)) (invalid_msg ''Subnet not found.'')) (\<lambda>s.
     res_bind (res_map_err IpcValidateError (kill_validate_for_subnet m g s)) (\<lambda>_.
     res_bind (ok_or (km_pubkey m) (Panic ''pubkey should be present'')) (\<lambda>pk.
     let committee = latest_committee s in
     res_bind (ok_or (find_validator committee pk) (invalid_msg ''Validator not part of committee'')) (\<lambda>v.
     let valid_kill_requests = get_valid_kill_requests X db (km_subnet_id m) h;
         request = \<lparr> kr_validator_xpk = pk, kr_block_height = h, kr_block_hash = bh, kr_txid = tid \<rparr>
     in
     if \<exists>r \<in> set valid_kill_requests. kr_validator_xpk r = kr_validator_xpk request
     then Inl (invalid_msg ''Validator has already submitted a kill request'')
     else
       let requests = valid_kill_requests @ [request];
           wtxn = add_kill_request X (km_subnet_id m) request db;
           threshold = multisig_threshold (committee_total_power committee)
       in
       if threshold \<le> kill_request_power committee requests \<and> ss_killed s = NotKilled
       then Inr (save_subnet_state X (km_subnet_id m) (mark_for_kill s) wtxn)
       else Inr wtxn)))))"

end
