(* ===== verification/Checkpoint.thy ===== *)
theory Checkpoint
  imports Handlers
begin

text \<open>
  The checkpoint message of \<open>src/src/ipc_lib.rs\<close>: its validation and its
  \<open>save_to_db\<close>, which numbers the checkpoint, rotates the committee to the configuration the
  checkpoint names, confirms the stake changes up to it and records the kill.
\<close>

section \<open>The message\<close>

record ipc_withdrawal =
  wd_amount :: amount
  wd_address :: btc_address

record ipc_unstake =
  un_amount :: amount
  un_address :: btc_address
  un_pubkey :: xonly_pubkey

record ipc_checkpoint_subnet_msg =
  ck_subnet_id :: subnet_id
  ck_checkpoint_hash :: bytes
  ck_checkpoint_height :: u64
  ck_next_committee_configuration_number :: u64
  ck_withdrawals :: "ipc_withdrawal list"
  ck_transfers :: "ipc_cross_subnet_transfer list"
  ck_token_registrations :: "ipc_erc_token_registration list"
  ck_token_supply_adjustments :: "ipc_erc_supply_adjustment list"
  ck_token_transfers :: "ipc_cross_subnet_erc_transfer list"
  ck_unstakes :: "ipc_unstake list"
  ck_change_address :: "btc_address option"
  ck_is_kill_checkpoint :: bool

definition validate_unstake_out :: "ext \<Rightarrow> ipc_unstake \<Rightarrow> ipc_validate_error + unit" where
  "validate_unstake_out X u =
     (if un_amount u = 0 then Inl (InvalidField ''unstake.amount'' ''must be greater than zero'')
      else if \<not> address_valid X (un_address u)
      then Inl (InvalidField ''unstake.address'' ''must be for the current network'')
      else Inr ())"

definition validate_withdrawal_out :: "ext \<Rightarrow> ipc_withdrawal \<Rightarrow> ipc_validate_error + unit" where
  "validate_withdrawal_out X w =
     (if wd_amount w = 0 then Inl (InvalidField ''withdrawal.amount'' ''must be greater than zero'')
      else if \<not> address_valid X (wd_address w)
      then Inl (InvalidField ''withdrawal.address'' ''must be for the current network'')
      else Inr ())"

definition checkpoint_validate :: "ext \<Rightarrow> ipc_checkpoint_subnet_msg \<Rightarrow> ipc_validate_error + unit" where
  "checkpoint_validate X m =
     (if ck_checkpoint_height m = 0
      then Inl (InvalidField ''checkpoint_height'' ''must be greater than zero'')
      else if 255 < length (ck_unstakes m) then Inl (InvalidMsg ''Number of unstakes exceeds maximum'')
      else
      res_bind (res_mapM (validate_unstake_out X) (ck_unstakes m)) (\<lambda>_.
      if 255 < length (ck_withdrawals m) then Inl (InvalidMsg ''Number of withdrawals exceeds maximum'')
      else
      res_bind (res_mapM (validate_withdrawal_out X) (ck_withdrawals m)) (\<lambda>_.
      res_bind (res_mapM (\<lambda>t. require (xt_amount t \<noteq> 0)
                   (InvalidField ''transfer.amount'' ''must be greater than zero'')) (ck_transfers m)) (\<lambda>_.
      if 255 < length (remdups (map xt_destination_subnet_id (ck_transfers m)))
      then Inl (InvalidMsg ''Number of batch transfer destination subnets exceeds maximum'')
      else if (case ck_change_address m of None \<Rightarrow> False | Some a \<Rightarrow> \<not> address_valid X a)
      then Inl (InvalidField ''change_address'' ''must be for the current network'')
      else if ck_is_kill_checkpoint m \<and> ck_change_address m \<noteq> None
      then Inl (InvalidField ''change_address'' ''must not be set for kill checkpoint'')
      else Inr ()))))"

section \<open>Saving a checkpoint\<close>

definition checkpoint_stake_change ::
  "ext \<Rightarrow> heed_db \<Rightarrow> subnet_state \<Rightarrow> ipc_checkpoint_subnet_msg \<Rightarrow> ipc_lib_error + stake_change_request option" where
  "checkpoint_stake_change X db s m =
     (let n = ck_next_committee_configuration_number m;
          last_number = cm_configuration_number (ss_committee s)
      in
      if n = 0 \<or> n = last_number then Inr None
      else if n < last_number
      then Inl (invalid_field ''next_committee_configuration_number'' ''is less than the last one'')
      else case get_stake_change X db (ck_subnet_id m) n of
             None \<Rightarrow> Inl (invalid_field ''next_committee_configuration_number'' ''Stake change does not exist'')
           | Some c \<Rightarrow> Inr (Some c))"

definition checkpoint_record ::
  "subnet_state \<Rightarrow> stake_change_request option \<Rightarrow> u64 \<Rightarrow> txid \<Rightarrow> ipc_checkpoint_subnet_msg \<Rightarrow> subnet_checkpoint" where
  "checkpoint_record s stake_change h tid m =
     \<lparr> cp_checkpoint_number = (case ss_last_checkpoint_number s of None \<Rightarrow> 0 | Some n \<Rightarrow> n + 1),
       cp_checkpoint_hash = ck_checkpoint_hash m, cp_checkpoint_height = ck_checkpoint_height m,
       cp_block_height = h, cp_txid = tid, cp_batch_transfer_txid = None,
       cp_batch_transfer_block_height = None, cp_signed_committee_number = ss_committee_number s,
       cp_next_committee_number =
         (case stake_change of Some c \<Rightarrow> ss_committee_number s + 1 | None \<Rightarrow> ss_committee_number s),
       cp_next_configuration_number =
         (case stake_change of Some c \<Rightarrow> sc_configuration_number c
          | None \<Rightarrow> cm_configuration_number (ss_committee s)),
       cp_is_kill_checkpoint = ck_is_kill_checkpoint m \<rparr>"

definition checkpoint_state ::
  "subnet_state \<Rightarrow> stake_change_request option \<Rightarrow> u64 \<Rightarrow> u64 \<Rightarrow> ipc_checkpoint_subnet_msg \<Rightarrow> subnet_state" where
  "checkpoint_state s stake_change number h m =
     (let s1 = s\<lparr> ss_last_checkpoint_number := Some number \<rparr>;
          s2 = (case stake_change of Some c \<Rightarrow> rotate_to_committee (sc_committee_after_change c) s1 | None \<Rightarrow> s1)
      in if ck_is_kill_checkpoint m then s2\<lparr> ss_killed := Killed h \<rparr> else s2)"

definition checkpoint_save_to_db ::
  "ext \<Rightarrow> heed_db \<Rightarrow> u64 \<Rightarrow> block_hash \<Rightarrow> txid \<Rightarrow> ipc_checkpoint_subnet_msg
   \<Rightarrow> ipc_lib_error + (heed_db \<times> subnet_checkpoint)" where
  "checkpoint_save_to_db X db h bh tid m =
     (let sid = ck_subnet_id m in
     res_bind (ok_or (get_subnet_state X db sid) (invalid_msg ''Subnet ID does not exist'')) (\<lambda>s.
     res_bind (checkpoint_stake_change X db s m) (\<lambda>stake_change.
     let checkpoint = checkpoint_record s stake_change h tid m;
         number = cp_checkpoint_number checkpoint;
         wtxn = save_checkpoint X sid checkpoint number
                  (save_subnet_state X sid (checkpoint_state s stake_change number h m) db)
     in case stake_change of
          None \<Rightarrow> Inr (wtxn, checkpoint)
        | Some c \<Rightarrow>
            let wtxn2 = save_committee X sid (cp_next_committee_number checkpoint)
                          (sc_committee_after_change c) wtxn;
                (wtxn3, last_confirmed, confirmed) =
                  confirm_stake_changes X db sid (ck_next_committee_configuration_number m) h bh wtxn2
            in Inr (wtxn3, checkpoint))))"

end
