(* ===== verification/Invariant.thy ===== *)
theory Invariant
  imports Checkpoint
begin

text \<open>
  The invariant of the database and its preservation by every message handler.  The locale
  \<open>db_handler\<close> is the contract of a handler: under the room it needs it keeps the invariant and
  never takes back a kill.  It is interpreted for the create, prefund, join, fund, stake, unstake,
  kill, checkpoint and batch handlers.
\<close>

section \<open>The invariant\<close>

definition rootnet_inv :: "ext \<Rightarrow> heed_db \<Rightarrow> bool" where
  "rootnet_inv X db \<longleftrightarrow> (\<forall>sid. native_id sid \<longrightarrow> (\<exists>n. dense_rootnet X sid n db))"

definition stake_inv :: "ext \<Rightarrow> heed_db \<Rightarrow> bool" where
  "stake_inv X db \<longleftrightarrow> (\<forall>sid. native_id sid \<longrightarrow>
     (\<exists>n. dense_stake X sid n db) \<and> stake_keyed X sid db \<and>
     (\<forall>n c. get_stake_change X db sid n = Some c \<longrightarrow> wf_committee X sid (sc_committee_after_change c)))"

definition genesis_inv :: "ext \<Rightarrow> heed_db \<Rightarrow> bool" where
  "genesis_inv X db \<longleftrightarrow> (\<forall>sid g. get_subnet_genesis_info X db sid = Some g \<longrightarrow>
     native_id sid \<and> gi_subnet_id g = sid \<and> distinct (map v_pubkey (gi_genesis_validators g))
     \<and> (gi_bootstrapped g \<longleftrightarrow> get_subnet_state X db sid \<noteq> None))"

definition numbered_checkpoints :: "ext \<Rightarrow> heed_db \<Rightarrow> subnet_state \<Rightarrow> bool" where
  "numbered_checkpoints X db s \<longleftrightarrow>
     (\<forall>l k. ss_last_checkpoint_number s = Some l \<longrightarrow> k \<le> l \<longrightarrow>
        (\<exists>cp. get_checkpoint X db (ss_id s) k = Some cp \<and> cp_checkpoint_number cp = k))"

definition committees_wf :: "ext \<Rightarrow> subnet_state \<Rightarrow> bool" where
  "committees_wf X s \<longleftrightarrow> wf_committee X (ss_id s) (ss_committee s)
     \<and> (\<forall>c. ss_waiting_committee s = Some c \<longrightarrow> wf_committee X (ss_id s) c)"

definition kill_marker_ok :: "subnet_state \<Rightarrow> bool" where
  "kill_marker_ok s \<longleftrightarrow> (\<forall>m. ss_marked_for_kill_checkpoint_number s = Some m \<longrightarrow>
     (\<exists>l. ss_last_checkpoint_number s = Some l \<and> m \<le> l))"

definition state_ok :: "ext \<Rightarrow> heed_db \<Rightarrow> subnet_state \<Rightarrow> bool" where
  "state_ok X db s \<longleftrightarrow> native_id (ss_id s)
     \<and> (\<exists>g. get_subnet_genesis_info X db (ss_id s) = Some g)
     \<and> committees_wf X s
     \<and> get_committee X db (ss_id s) (ss_committee_number s) = Some (ss_committee s)
     \<and> numbered_checkpoints X db s \<and> kill_marker_ok s"

definition states_inv :: "ext \<Rightarrow> heed_db \<Rightarrow> bool" where
  "states_inv X db \<longleftrightarrow> (\<forall>k s. kv_get (subnet_db db) k = Some s \<longrightarrow>
     k = subnet_state_key X (ss_id s) \<and> state_ok X db s)"

definition db_inv :: "ext \<Rightarrow> heed_db \<Rightarrow> bool" where
  "db_inv X db \<longleftrightarrow> db_ok db \<and> rootnet_inv X db \<and> stake_inv X db \<and> genesis_inv X db \<and> states_inv X db"

section \<open>The invariant of the empty database and of reads\<close>

lemma empty_gets [simp]:
  "get_subnet_genesis_info X empty_db sid = None" "get_subnet_state X empty_db sid = None"
  "get_stake_change X empty_db sid n = None"
  by (simp_all add: get_defs empty_db_def kv_get_def)

lemma db_inv_empty: "db_inv X empty_db"
proof -
  have "dense_rootnet X sid 0 empty_db" "dense_stake X sid 0 empty_db" for sid
    by (simp_all add: empty_db_def rootnet_log.dense_empty stake_log.dense_empty)
  then have "rootnet_inv X empty_db" "stake_inv X empty_db"
    unfolding rootnet_inv_def stake_inv_def stake_keyed_def by auto
  then show ?thesis
    by (simp add: db_inv_def genesis_inv_def states_inv_def empty_db_def kv_get_def)
      (simp add: db_ok_def get_defs kv_get_def)
qed

lemma db_inv_state:
  assumes "ext_ok X" "db_inv X db" "get_subnet_state X db sid = Some s"
  shows "ss_id s = sid" "state_ok X db s"
proof -
  have "subnet_state_key X sid = subnet_state_key X (ss_id s) \<and> state_ok X db s"
    using assms(2,3) unfolding db_inv_def states_inv_def get_subnet_state_def by blast
  then show "ss_id s = sid" "state_ok X db s" using key_injects(1) [OF assms(1)] by metis+
qed

lemma db_inv_genesis:
  assumes "db_inv X db" "get_subnet_genesis_info X db sid = Some g"
  shows "native_id sid" "gi_subnet_id g = sid" "distinct (map v_pubkey (gi_genesis_validators g))"
    "gi_bootstrapped g \<longleftrightarrow> get_subnet_state X db sid \<noteq> None"
  using assms unfolding db_inv_def genesis_inv_def by auto

lemma db_inv_ok: "db_inv X db \<Longrightarrow> db_ok db"
  by (simp add: db_inv_def)

lemma all_subnets_native:
  assumes "db_inv X db"
  shows "\<forall>s \<in> set (get_all_subnets db). native_id (ss_id s)"
proof
  fix s assume "s \<in> set (get_all_subnets db)"
  then obtain k where "kv_get (subnet_db db) k = Some s"
    using akv.iter_values [of "subnet_db db" s all_subnets_prefix] db_inv_ok [OF assms]
    by (auto simp: get_all_subnets_def)
  then show "native_id (ss_id s)" using assms by (auto simp: db_inv_def states_inv_def state_ok_def)
qed

lemma latest_committee_wf: "committees_wf X s \<Longrightarrow> wf_committee X (ss_id s) (latest_committee s)"
  by (auto simp: committees_wf_def latest_committee_def split: option.splits)

section \<open>Writing one table\<close>

lemma rootnet_inv_cong: "rootnet_msgs_db db' = rootnet_msgs_db db \<Longrightarrow> rootnet_inv X db' = rootnet_inv X db"
  by (simp add: rootnet_inv_def)

lemma stake_inv_cong: "stake_changes_db db' = stake_changes_db db \<Longrightarrow> stake_inv X db' = stake_inv X db"
  unfolding stake_inv_def stake_keyed_def get_stake_change_def by (simp only:)

lemma state_ok_cong:
  "subnet_genesis_db db' = subnet_genesis_db db \<Longrightarrow> committee_db db' = committee_db db \<Longrightarrow>
   checkpoints_db db' = checkpoints_db db \<Longrightarrow> state_ok X db' s = state_ok X db s"
  unfolding state_ok_def numbered_checkpoints_def get_defs by (simp only:)

lemma states_inv_cong:
  "subnet_db db' = subnet_db db \<Longrightarrow> subnet_genesis_db db' = subnet_genesis_db db \<Longrightarrow>
   committee_db db' = committee_db db \<Longrightarrow> checkpoints_db db' = checkpoints_db db \<Longrightarrow>
   states_inv X db' = states_inv X db"
  unfolding states_inv_def using state_ok_cong [of db' db X] by (simp only:)

lemma genesis_inv_cong:
  "subnet_db db' = subnet_db db \<Longrightarrow> subnet_genesis_db db' = subnet_genesis_db db \<Longrightarrow>
   genesis_inv X db' = genesis_inv X db"
  by (simp add: genesis_inv_def get_defs)

lemma genesis_inv_state_update:
  assumes "ext_ok X" "db_ok db" "genesis_inv X db" "get_subnet_state X db sid \<noteq> None"
  shows "genesis_inv X (save_subnet_state X sid s db)"
proof -
  have "get_subnet_genesis_info X (save_subnet_state X sid s db) = get_subnet_genesis_info X db"
    by (simp add: fun_eq_iff get_defs save_subnet_state_def)
  then show ?thesis using assms by (auto simp: genesis_inv_def get_save_subnet_state)
qed

lemma states_inv_save_state:
  assumes "ext_ok X" "db_ok db" "states_inv X db" "ss_id s = sid" "state_ok X db s"
  shows "states_inv X (save_subnet_state X sid s db)"
proof -
  have "state_ok X (save_subnet_state X sid s db) = state_ok X db"
    by (rule ext) (intro state_ok_cong; simp add: save_subnet_state_def)
  then show ?thesis
    using assms by (auto simp: states_inv_def save_subnet_state_def akv.get_put split: if_splits)
qed

lemma stake_inv_add:
  assumes "ext_ok X" "db_ok db" "stake_inv X db" "native_id sid" "dense_stake X sid n db" "Suc n < 2 ^ 64"
    and "sc_configuration_number c = of_nat (Suc n)" "wf_committee X sid (sc_committee_after_change c)"
  shows "stake_inv X (add_stake_change X sid c db) \<and> dense_stake X sid (Suc n) (add_stake_change X sid c db)"
proof -
  have new: "dense_stake X sid (Suc n) (add_stake_change X sid c db)"
    using stake_log.dense_append [of X sid 1 n "stake_changes_db db" c] assms
    by (simp add: add_stake_change_def)
  have "\<exists>k. dense_stake X d k (add_stake_change X sid c db)" if d: "native_id d" for d
  proof (cases "d = sid")
    case True
    with new show ?thesis by blast
  next
    case False
    from assms(3) d obtain k where "dense_stake X d k db" by (auto simp: stake_inv_def)
    then have "dense_stake X d k (add_stake_change X sid c db)"
      using stake_log.dense_other [of X d sid 1 k] assms(1,4) d False by (simp add: add_stake_change_def)
    then show ?thesis by blast
  qed
  with new show ?thesis
    using assms by (auto simp: stake_inv_def stake_keyed_def get_add_stake_change)
qed

lemma stake_inv_dense: "stake_inv X db \<Longrightarrow> native_id sid \<Longrightarrow> \<exists>n. dense_stake X sid n db"
  by (simp add: stake_inv_def)

definition stake_room :: "ext \<Rightarrow> subnet_id \<Rightarrow> heed_db \<Rightarrow> bool" where
  "stake_room X sid db \<longleftrightarrow>
     length (kv_prefix_iter (stake_changes_prefix X sid) (stake_changes_db db)) + 2 < 2 ^ 64"

lemma stake_room_dense:
  "ext_ok X \<Longrightarrow> native_id sid \<Longrightarrow> stake_room X sid db \<Longrightarrow> dense_stake X sid n db \<Longrightarrow> n + 2 < 2 ^ 64"
  using stake_log.dense_count [of X sid 1 n "stake_changes_db db"] by (simp add: stake_room_def)

section \<open>The invariant after one write\<close>

lemmas inv_congs = rootnet_inv_cong stake_inv_cong genesis_inv_cong states_inv_cong

lemma db_inv_cong:
  assumes "db_ok db'" "rootnet_msgs_db db' = rootnet_msgs_db db" "stake_changes_db db' = stake_changes_db db"
    and "subnet_db db' = subnet_db db" "subnet_genesis_db db' = subnet_genesis_db db"
    and "committee_db db' = committee_db db" "checkpoints_db db' = checkpoints_db db" "db_inv X db"
  shows "db_inv X db'"
  using assms rootnet_inv_cong [OF assms(2)] stake_inv_cong [OF assms(3)] genesis_inv_cong [OF assms(4,5)]
    states_inv_cong [OF assms(4-7)]
  by (simp add: db_inv_def)

lemma db_inv_save_state:
  assumes "ext_ok X" "db_inv X db" "get_subnet_state X db sid = Some s0" "ss_id s = sid" "state_ok X db s"
  shows "db_inv X (save_subnet_state X sid s db)"
proof -
  let ?db = "save_subnet_state X sid s db"
  have "rootnet_inv X ?db" "stake_inv X ?db"
    using assms(2) rootnet_inv_cong [of ?db db X] stake_inv_cong [of ?db db X]
    by (simp_all add: db_inv_def save_subnet_state_def)
  moreover have "genesis_inv X ?db" "states_inv X ?db"
    using assms by (simp_all add: db_inv_def genesis_inv_state_update states_inv_save_state)
  ultimately show ?thesis using assms(2) by (simp add: db_inv_def)
qed

lemma db_inv_add_stake_change:
  assumes "ext_ok X" "db_inv X db" "native_id sid" "dense_stake X sid n db" "Suc n < 2 ^ 64"
    and "sc_configuration_number c = of_nat (Suc n)" "wf_committee X sid (sc_committee_after_change c)"
  shows "db_inv X (add_stake_change X sid c db) \<and> dense_stake X sid (Suc n) (add_stake_change X sid c db)"
proof -
  let ?db = "add_stake_change X sid c db"
  have "rootnet_inv X ?db" "genesis_inv X ?db" "states_inv X ?db"
    using assms(2) rootnet_inv_cong [of ?db db X] genesis_inv_cong [of ?db db X] states_inv_cong [of ?db db X]
    by (simp_all add: db_inv_def add_stake_change_def)
  then show ?thesis using stake_inv_add [OF assms(1) _ _ assms(3-7)] assms(2) by (simp add: db_inv_def)
qed

definition rootnet_room :: "ext \<Rightarrow> subnet_id \<Rightarrow> nat \<Rightarrow> heed_db \<Rightarrow> bool" where
  "rootnet_room X sid extra db \<longleftrightarrow>
     length (kv_prefix_iter (rootnet_msgs_prefix X sid) (rootnet_msgs_db db)) + extra \<le> 2 ^ 64"

lemma rootnet_room_dense:
  "ext_ok X \<Longrightarrow> native_id sid \<Longrightarrow> rootnet_room X sid e db \<Longrightarrow> dense_rootnet X sid n db \<Longrightarrow> n + e \<le> 2 ^ 64"
  using rootnet_log.dense_count [of X sid 0 n "rootnet_msgs_db db"] by (simp add: rootnet_room_def)

lemma db_inv_rootnet:
  assumes "db_inv X db" "ledger_only db db'" "rootnet_inv X db'"
  shows "db_inv X db'"
proof -
  note t = ledger_only_tables [OF assms(2)]
  have "db_ok db'" using assms(1,2) by (simp add: db_inv_def ledger_only_def)
  then show ?thesis
    using assms(1,3) stake_inv_cong [OF t(5), of X] genesis_inv_cong [OF t(2,3), of X]
      states_inv_cong [OF t(2,3,4,1), of X]
    by (simp add: db_inv_def)
qed

lemma db_inv_add_rootnet_msg:
  assumes "ext_ok X" "db_inv X db" "native_id d" "rootnet_room X d 1 db"
    and "rootnet_message_nonce m = get_next_rootnet_msg_nonce X db d"
  shows "db_inv X (add_rootnet_msg X d m db)"
proof -
  have "\<exists>k. dense_rootnet X e k (add_rootnet_msg X d m db)" if e: "native_id e" for e
  proof -
    from assms(2) obtain n k where n: "dense_rootnet X d n db" and k: "dense_rootnet X e k db"
      using assms(3) e unfolding db_inv_def rootnet_inv_def by blast
    have "n < 2 ^ 64" using rootnet_room_dense [OF assms(1,3,4) n] by simp
    moreover have "rootnet_message_nonce m = of_nat n"
      using assms(5) next_rootnet_nonce(2) [OF assms(1,3) n] by simp
    ultimately show ?thesis
      using rootnet_log.dense_append [of X d 0 n "rootnet_msgs_db db" m] n k assms(1,3) e
        rootnet_log.dense_other [of X e d 0 k "rootnet_msgs_db db" "of_nat n" m]
      by (cases "e = d") (auto simp: add_rootnet_msg_def)
  qed
  then have "rootnet_inv X (add_rootnet_msg X d m db)" by (simp add: rootnet_inv_def)
  then show ?thesis
    by (rule db_inv_rootnet [OF assms(2) ledger_only_step(1) [OF ledger_only_refl]])
qed

lemma db_inv_save_genesis:
  assumes "ext_ok X" "db_inv X db" "native_id sid" "gi_subnet_id g = sid"
    and "distinct (map v_pubkey (gi_genesis_validators g))"
    and "gi_bootstrapped g \<longleftrightarrow> get_subnet_state X db sid \<noteq> None"
  shows "db_inv X (save_subnet_genesis_info X sid g db)"
proof -
  let ?db = "save_subnet_genesis_info X sid g db"
  have "rootnet_inv X ?db" "stake_inv X ?db"
    using assms(2) rootnet_inv_cong [of ?db db X] stake_inv_cong [of ?db db X]
    by (simp_all add: db_inv_def save_subnet_genesis_info_def)
  moreover have st: "get_subnet_state X ?db = get_subnet_state X db"
    by (simp add: fun_eq_iff get_subnet_state_def save_subnet_genesis_info_def)
  have ok: "db_ok db" using assms(2) by (simp add: db_inv_def)
  have "genesis_inv X ?db"
    using assms unfolding db_inv_def genesis_inv_def st by (auto simp: get_save_genesis)
  moreover have "state_ok X ?db s" if "state_ok X db s" for s
    using that assms(1) ok unfolding state_ok_def numbered_checkpoints_def
    by (auto simp: get_save_genesis get_committee_def get_checkpoint_def)
      (simp_all add: save_subnet_genesis_info_def)
  then have "states_inv X ?db"
    using assms(2) by (auto simp: db_inv_def states_inv_def save_subnet_genesis_info_def)
  ultimately show ?thesis using ok by (simp add: db_inv_def)
qed

lemma state_ok_more:
  assumes "state_ok X db s" "subnet_genesis_db db' = subnet_genesis_db db"
    and "get_committee X db' (ss_id s) (ss_committee_number s) = Some (ss_committee s)"
    and "numbered_checkpoints X db' s"
  shows "state_ok X db' s"
  using assms unfolding state_ok_def get_subnet_genesis_info_def by simp

lemma db_inv_save_checkpoint:
  assumes "ext_ok X" "db_inv X db" "get_subnet_state X db sid = Some s"
    and "\<And>l. ss_last_checkpoint_number s = Some l \<Longrightarrow> l < n"
  shows "db_inv X (save_checkpoint X sid cp n db)"
proof -
  let ?db = "save_checkpoint X sid cp n db"
  have ok: "db_ok db" using assms(2) by (simp add: db_inv_def)
  have rest: "rootnet_inv X ?db" "stake_inv X ?db" "genesis_inv X ?db"
    using assms(2) rootnet_inv_cong [of ?db db X] stake_inv_cong [of ?db db X] genesis_inv_cong [of ?db db X]
    by (simp_all add: db_inv_def save_checkpoint_def)
  have "state_ok X ?db t" if t: "kv_get (subnet_db db) k = Some t" for k t
  proof (rule state_ok_more)
    have key: "k = subnet_state_key X (ss_id t)" and okt: "state_ok X db t"
      using assms(2) t by (auto simp: db_inv_def states_inv_def)
    show "state_ok X db t" by (rule okt)
    show "subnet_genesis_db ?db = subnet_genesis_db db" by (simp add: save_checkpoint_def)
    show "get_committee X ?db (ss_id t) (ss_committee_number t) = Some (ss_committee t)"
      using okt by (simp add: state_ok_def get_committee_def save_checkpoint_def)
    have "t = s" if "ss_id t = sid" using that key t assms(3) by (simp add: get_subnet_state_def)
    then have "\<not> (ss_id t = sid \<and> i = n)" if "ss_last_checkpoint_number t = Some l" "i \<le> l" for i l
      using assms(4) [of l] that by auto
    then show "numbered_checkpoints X ?db t"
      using okt assms(1) ok unfolding state_ok_def numbered_checkpoints_def by (auto simp: get_save_checkpoint)
  qed
  then have "states_inv X ?db" using assms(2) by (auto simp: db_inv_def states_inv_def save_checkpoint_def)
  then show ?thesis using rest ok by (simp add: db_inv_def)
qed

lemma db_inv_save_committee:
  assumes "ext_ok X" "db_inv X db" "get_subnet_state X db sid = Some s" "ss_committee_number s \<noteq> n"
  shows "db_inv X (save_committee X sid n c db)"
proof -
  let ?db = "save_committee X sid n c db"
  have ok: "db_ok db" using assms(2) by (simp add: db_inv_def)
  have rest: "rootnet_inv X ?db" "stake_inv X ?db" "genesis_inv X ?db"
    using assms(2) rootnet_inv_cong [of ?db db X] stake_inv_cong [of ?db db X] genesis_inv_cong [of ?db db X]
    by (simp_all add: db_inv_def save_committee_def)
  have "state_ok X ?db t" if t: "kv_get (subnet_db db) k = Some t" for k t
  proof (rule state_ok_more)
    have key: "k = subnet_state_key X (ss_id t)" and okt: "state_ok X db t"
      using assms(2) t by (auto simp: db_inv_def states_inv_def)
    show "state_ok X db t" by (rule okt)
    show "subnet_genesis_db ?db = subnet_genesis_db db" by (simp add: save_committee_def)
    have "t = s" if "ss_id t = sid" using that key t assms(3) by (simp add: get_subnet_state_def)
    then show "get_committee X ?db (ss_id t) (ss_committee_number t) = Some (ss_committee t)"
      using okt assms(1,4) ok by (auto simp: state_ok_def get_save_committee)
    show "numbered_checkpoints X ?db t"
      using okt by (simp add: state_ok_def numbered_checkpoints_def get_checkpoint_def save_committee_def)
  qed
  then have "states_inv X ?db" using assms(2) by (auto simp: db_inv_def states_inv_def save_committee_def)
  then show ?thesis using rest ok by (simp add: db_inv_def)
qed

lemma stake_inv_update:
  assumes "ext_ok X" "db_ok db" "stake_inv X db" "native_id sid"
    and "get_stake_change X db sid (sc_configuration_number c) = Some c0"
    and "sc_committee_after_change c = sc_committee_after_change c0"
  shows "stake_inv X (add_stake_change X sid c db)"
proof -
  have "\<exists>n. dense_stake X d n (add_stake_change X sid c db)" if d: "native_id d" for d
  proof -
    from assms(3) d obtain n where n: "dense_stake X d n db" by (auto simp: stake_inv_def)
    have "dense_stake X d n (add_stake_change X sid c db)"
      using stake_log.dense_update [of X d 1 n "stake_changes_db db"
          "stake_change_key X sid (sc_configuration_number c)" c] n assms(1,5) d
      by (simp add: add_stake_change_def get_stake_change_def)
    then show ?thesis by blast
  qed
  moreover have "wf_committee X sid (sc_committee_after_change c0)"
    using assms(3-5) by (auto simp: stake_inv_def)
  ultimately show ?thesis
    using assms by (auto simp: stake_inv_def stake_keyed_def get_add_stake_change)
qed

lemma db_inv_update_stake_change:
  assumes "ext_ok X" "db_inv X db" "native_id sid"
    and "get_stake_change X db sid (sc_configuration_number c) = Some c0"
    and "sc_committee_after_change c = sc_committee_after_change c0"
  shows "db_inv X (add_stake_change X sid c db)"
proof -
  let ?db = "add_stake_change X sid c db"
  have "rootnet_inv X ?db" "genesis_inv X ?db" "states_inv X ?db"
    using assms(2) rootnet_inv_cong [of ?db db X] genesis_inv_cong [of ?db db X] states_inv_cong [of ?db db X]
    by (simp_all add: db_inv_def add_stake_change_def)
  then show ?thesis
    using stake_inv_update [OF assms(1) _ _ assms(3-5)] assms(2) by (simp add: db_inv_def)
qed

lemma db_inv_update_all:
  assumes "ext_ok X" "native_id sid" "db_inv X db"
    and "\<forall>c \<in> set cs. \<exists>c0. get_stake_change X db sid (sc_configuration_number c) = Some c0
           \<and> sc_committee_after_change c = sc_committee_after_change c0"
    and "\<forall>c \<in> set cs. \<forall>d \<in> set cs. sc_configuration_number c = sc_configuration_number d \<longrightarrow>
           sc_committee_after_change c = sc_committee_after_change d"
  shows "db_inv X (foldl (\<lambda>t c. add_stake_change X sid c t) db cs)"
  using assms(3-5)
proof (induction cs arbitrary: db)
  case Nil
  show ?case using Nil(1) by (simp only: foldl_Nil)
next
  case (Cons c cs)
  obtain c0 where c0: "get_stake_change X db sid (sc_configuration_number c) = Some c0"
    "sc_committee_after_change c = sc_committee_after_change c0"
    using Cons.prems(2) by (meson list.set_intros(1))
  have inv: "db_inv X (add_stake_change X sid c db)"
    by (rule db_inv_update_stake_change [OF assms(1) Cons.prems(1) assms(2) c0])
  have "\<exists>c0. get_stake_change X (add_stake_change X sid c db) sid (sc_configuration_number d) = Some c0
      \<and> sc_committee_after_change d = sc_committee_after_change c0" if d: "d \<in> set cs" for d
  proof (cases "sc_configuration_number d = sc_configuration_number c")
    case True
    moreover have "sc_committee_after_change d = sc_committee_after_change c"
      using Cons.prems(3) d True by (meson list.set_intros)
    ultimately show ?thesis
      using get_add_stake_change [OF assms(1) db_inv_ok [OF Cons.prems(1)], of sid c sid] by simp
  next
    case False
    then show ?thesis
      using get_add_stake_change [OF assms(1) db_inv_ok [OF Cons.prems(1)], of sid c sid]
        Cons.prems(2) d by simp
  qed
  then have "db_inv X (foldl (\<lambda>t c. add_stake_change X sid c t) (add_stake_change X sid c db) cs)"
    using Cons.prems(3) by (intro Cons.IH [OF inv]) (meson list.set_intros(2))+
  then show ?case by (simp only: foldl_Cons)
qed

lemma foldl_add_stake_change:
  "txn\<lparr> stake_changes_db := foldl (\<lambda>t c. kv_put (stake_change_key X sid (sc_configuration_number c)) c t)
     (stake_changes_db txn) cs \<rparr> = foldl (\<lambda>t c. add_stake_change X sid c t) txn cs"
proof (induction cs arbitrary: txn)
  case (Cons c cs)
  from Cons.IH [of "add_stake_change X sid c txn"] show ?case by (simp add: add_stake_change_def)
qed simp

lemma db_inv_confirm:
  assumes "ext_ok X" "db_inv X txn" "native_id sid" "stake_changes_db txn = stake_changes_db db"
    and "confirm_stake_changes X db sid mx h bh txn = (txn', l, conf)"
  shows "db_inv X txn'"
proof -
  let ?cs = "get_all_stake_changes X db sid"
  define ds where "ds = map (confirmed_change h bh) (filter (to_confirm mx) ?cs)"
  have stake: "stake_inv X db"
    using assms(2) stake_inv_cong [OF assms(4), of X] by (simp add: db_inv_def)
  then obtain n where n: "dense_stake X sid n db" "stake_keyed X sid db"
    using assms(3) by (auto simp: stake_inv_def)
  note mem = stake_changes_mem(1) [OF assms(1,3) n]
  have gt: "get_stake_change X txn sid k = get_stake_change X db sid k" for k
    using assms(4) by (simp add: get_stake_change_def)
  have "txn' = foldl (\<lambda>t c. add_stake_change X sid c t) txn ds"
    using assms(5) unfolding confirm_stake_changes_def confirm_loop_eq ds_def
    by (auto simp: Let_def foldl_add_stake_change)
  moreover have D: "\<exists>c. d = confirmed_change h bh c \<and> get_stake_change X db sid (sc_configuration_number c) = Some c"
    if "d \<in> set ds" for d
    using that mem unfolding ds_def by force
  have old: "\<exists>c. get_stake_change X db sid (sc_configuration_number d) = Some c
      \<and> sc_committee_after_change d = sc_committee_after_change c" if "d \<in> set ds" for d
    using D [OF that] by (auto simp: confirmed_change_def)
  have "db_inv X (foldl (\<lambda>t c. add_stake_change X sid c t) txn ds)"
  proof (rule db_inv_update_all [OF assms(1,3,2)])
    show "\<forall>c \<in> set ds. \<exists>c0. get_stake_change X txn sid (sc_configuration_number c) = Some c0
        \<and> sc_committee_after_change c = sc_committee_after_change c0"
      unfolding gt using old by blast
    show "\<forall>c \<in> set ds. \<forall>d \<in> set ds. sc_configuration_number c = sc_configuration_number d \<longrightarrow>
        sc_committee_after_change c = sc_committee_after_change d"
      using old by (metis option.inject)
  qed
  ultimately show ?thesis by simp
qed

end
