(* ===== verification/Preserve.thy ===== *)
theory Preserve
  imports Invariant
begin

text \<open>
  Every message handler keeps the invariant of the database.  The locale \<open>db_handler\<close> is the
  contract of a handler; it is interpreted for the create, prefund, join, fund, stake, unstake, kill,
  checkpoint and batch handlers, each under the room it needs: a fresh transaction id for a create,
  and counters that have not reached the end of their 64 bits.
\<close>

section \<open>Progress\<close>

fun kill_rank :: "subnet_kill_state \<Rightarrow> nat" where
  "kill_rank NotKilled = 0"
| "kill_rank ToBeKilled = 1"
| "kill_rank (Killed h) = 2"

definition checkpoint_count :: "subnet_state \<Rightarrow> nat" where
  "checkpoint_count s = (case ss_last_checkpoint_number s of None \<Rightarrow> 0 | Some n \<Rightarrow> unat n + 1)"

definition subnet_progress :: "subnet_state \<Rightarrow> subnet_state \<Rightarrow> bool" where
  "subnet_progress s s' \<longleftrightarrow> kill_rank (ss_killed s) \<le> kill_rank (ss_killed s')
     \<and> checkpoint_count s \<le> checkpoint_count s'"

definition db_progress :: "ext \<Rightarrow> heed_db \<Rightarrow> heed_db \<Rightarrow> bool" where
  "db_progress X db db' \<longleftrightarrow> (\<forall>sid s. get_subnet_state X db sid = Some s \<longrightarrow>
     (\<exists>s'. get_subnet_state X db' sid = Some s' \<and> subnet_progress s s'))"

lemma db_progress_refl: "db_progress X db db"
  by (simp add: db_progress_def subnet_progress_def)

lemma db_progress_same: "subnet_db db' = subnet_db db \<Longrightarrow> db_progress X db db'"
  by (simp add: db_progress_def subnet_progress_def get_subnet_state_def)

lemma db_progress_trans: "db_progress X db db1 \<Longrightarrow> db_progress X db1 db2 \<Longrightarrow> db_progress X db db2"
  unfolding db_progress_def subnet_progress_def by (meson order_trans)

lemma db_progress_state:
  assumes "ext_ok X" "db_ok db" "get_subnet_state X db sid = Some s" "subnet_progress s s'"
    and "subnet_db db' = subnet_db (save_subnet_state X sid s' db)"
  shows "db_progress X db db'"
proof -
  have "get_subnet_state X db' t = (if t = sid then Some s' else get_subnet_state X db t)" for t
    using assms(1,2,5) get_save_subnet_state [OF assms(1,2), of sid s' t] by (simp add: get_subnet_state_def)
  then show ?thesis using assms(3,4) by (auto simp: db_progress_def subnet_progress_def)
qed

section \<open>The contract of a handler\<close>

locale db_handler =
  fixes X :: ext and room :: "heed_db \<Rightarrow> bool" and run :: "heed_db \<Rightarrow> ipc_lib_error + heed_db"
  assumes keeps: "ext_ok X \<Longrightarrow> db_inv X db \<Longrightarrow> room db \<Longrightarrow> run db = Inr db' \<Longrightarrow> db_inv X db'"
    and progress: "ext_ok X \<Longrightarrow> db_inv X db \<Longrightarrow> room db \<Longrightarrow> run db = Inr db' \<Longrightarrow> db_progress X db db'"
begin

lemma kill_is_final:
  assumes "ext_ok X" "db_inv X db" "room db" "run db = Inr db'"
    and "get_subnet_state X db sid = Some s" "is_killed_or_pending s"
  shows "\<exists>s'. get_subnet_state X db' sid = Some s' \<and> is_killed_or_pending s'"
proof -
  from progress [OF assms(1-4)] assms(5) obtain s' where
    s': "get_subnet_state X db' sid = Some s'" "subnet_progress s s'"
    by (auto simp: db_progress_def)
  with assms(6) have "is_killed_or_pending s'"
    by (cases "ss_killed s"; cases "ss_killed s'") (simp_all add: is_killed_or_pending_def subnet_progress_def)
  with s'(1) show ?thesis by blast
qed

lemma killed_stays_killed:
  assumes "ext_ok X" "db_inv X db" "room db" "run db = Inr db'"
    and "get_subnet_state X db sid = Some s" "is_killed s"
  shows "\<exists>s'. get_subnet_state X db' sid = Some s' \<and> is_killed s'"
proof -
  from progress [OF assms(1-4)] assms(5) obtain s' where
    s': "get_subnet_state X db' sid = Some s'" "subnet_progress s s'"
    by (auto simp: db_progress_def)
  with assms(6) have "is_killed s'"
    by (cases "ss_killed s"; cases "ss_killed s'") (simp_all add: is_killed_def subnet_progress_def)
  with s'(1) show ?thesis by blast
qed

end

definition res_db :: "'e + (heed_db \<times> 'a) \<Rightarrow> 'e + heed_db" where
  "res_db r = (case r of Inl e \<Rightarrow> Inl e | Inr p \<Rightarrow> Inr (fst p))"

lemma res_db_Inr: "res_db r = Inr db \<longleftrightarrow> (\<exists>x. r = Inr (db, x))"
  by (auto simp: res_db_def split: sum.splits)

section \<open>Create and prefund\<close>

definition create_room :: "ext \<Rightarrow> txid \<Rightarrow> heed_db \<Rightarrow> bool" where
  "create_room X tid db \<longleftrightarrow> 20 \<le> length tid
     \<and> get_subnet_genesis_info X db (subnet_id_from_txid tid) = None"

lemma no_genesis_no_state:
  assumes "ext_ok X" "db_inv X db" "get_subnet_genesis_info X db sid = None"
  shows "get_subnet_state X db sid = None"
proof (rule ccontr)
  assume "get_subnet_state X db sid \<noteq> None"
  then obtain s where s: "get_subnet_state X db sid = Some s" by blast
  from db_inv_state [OF assms(1,2) s] assms(3) show False by (auto simp: state_ok_def)
qed

lemma native_from_txid: "20 \<le> length tid \<Longrightarrow> native_id (subnet_id_from_txid tid)"
  by (simp add: subnet_id_from_txid_def txid20_from_txid_def subnet_id_from_txid20_def)

interpretation create_h: db_handler X "create_room X tid" "\<lambda>db. res_db (create_save_to_db X db h tid m)"
  for X tid h m
proof
  fix db db'
  assume a: "ext_ok X" "db_inv X db" "create_room X tid db" "res_db (create_save_to_db X db h tid m) = Inr db'"
  let ?sid = "subnet_id_from_txid tid"
  have none: "get_subnet_state X db ?sid = None"
    using no_genesis_no_state [OF a(1,2)] a(3) by (simp add: create_room_def)
  from a(4) obtain g where g: "db' = save_subnet_genesis_info X ?sid g db" "gi_subnet_id g = ?sid"
    "gi_genesis_validators g = []" "\<not> gi_bootstrapped g"
    by (auto simp: res_db_Inr create_save_to_db_def Let_def)
  then show "db_inv X db'"
    using db_inv_save_genesis [OF a(1,2), of ?sid g] none native_from_txid a(3) by (simp add: create_room_def)
  show "db_progress X db db'" using g(1) by (intro db_progress_same) (simp add: save_subnet_genesis_info_def)
qed

interpretation prefund_h: db_handler X "\<lambda>_. True" "\<lambda>db. prefund_save_to_db X db h tid m" for X h tid m
proof
  fix db db'
  assume a: "ext_ok X" "db_inv X db" "prefund_save_to_db X db h tid m = Inr db'"
  from a(3) obtain g where g: "get_subnet_genesis_info X db (pf_subnet_id m) = Some g"
    and db': "db' = save_subnet_genesis_info X (pf_subnet_id m)
       (add_genesis_balance_entry (pf_address m) (pf_amount m) tid h g) db"
    by (auto simp: prefund_save_to_db_def res_simps)
  note G = db_inv_genesis [OF a(2) g]
  show "db_inv X db'" unfolding db'
    by (rule db_inv_save_genesis [OF a(1,2) G(1)]) (use G in \<open>simp_all add: add_genesis_balance_entry_def\<close>)
  show "db_progress X db db'" unfolding db' by (intro db_progress_same) (simp add: save_subnet_genesis_info_def)
qed

section \<open>Stake changes\<close>

lemma db_inv_new_committee:
  assumes "ext_ok X" "db_inv X db" "get_subnet_state X db sid = Some s" "wf_committee X sid c"
  shows "db_inv X (save_subnet_state X sid (s\<lparr> ss_waiting_committee := Some c \<rparr>) db)"
proof (rule db_inv_save_state [OF assms(1-3)])
  note S = db_inv_state [OF assms(1-3)]
  then show "ss_id (s\<lparr> ss_waiting_committee := Some c \<rparr>) = sid" by simp
  show "state_ok X db (s\<lparr> ss_waiting_committee := Some c \<rparr>)"
    using S assms(4) by (simp add: state_ok_def committees_wf_def numbered_checkpoints_def kill_marker_ok_def)
qed

lemma waiting_progress:
  assumes "ext_ok X" "db_inv X db" "get_subnet_state X db sid = Some s"
    and "subnet_db db' = subnet_db (save_subnet_state X sid (s\<lparr> ss_waiting_committee := Some c \<rparr>) db)"
  shows "db_progress X db db'"
  by (rule db_progress_state [OF assms(1) db_inv_ok [OF assms(2)] assms(3) _ assms(4)])
    (simp add: subnet_progress_def checkpoint_count_def)

lemma db_inv_stake_request:
  assumes "ext_ok X" "db_inv X db" "stake_room X sid db" "get_subnet_state X db sid = Some s"
    and "wf_committee X sid c" "sc_committee_after_change r = c"
    and "sc_configuration_number r = get_next_stake_change_configuration_number X db sid"
  shows "db_inv X (add_stake_change X sid r (save_subnet_state X sid (s\<lparr> ss_waiting_committee := Some c \<rparr>) db))"
proof -
  have sid: "native_id sid" using db_inv_state [OF assms(1,2,4)] by (auto simp: state_ok_def)
  then obtain n where n: "dense_stake X sid n db"
    using assms(2) stake_inv_dense unfolding db_inv_def by blast
  then have "dense_stake X sid n (save_subnet_state X sid (s\<lparr> ss_waiting_committee := Some c \<rparr>) db)"
    by (simp add: save_subnet_state_def)
  then show ?thesis
    using db_inv_add_stake_change [OF assms(1) db_inv_new_committee [OF assms(1,2,4,5)] sid, of n r]
      stake_room_dense [OF assms(1) sid assms(3) n] next_stake_number(2) [OF assms(1) sid n] assms(5-7)
    by simp
qed

lemma stake_save_Inr:
  assumes "stake_save_to_db X db h bh tid m = Inr db'"
  obtains s c r v where "get_subnet_state X db (sm_subnet_id m) = Some s"
    and "modify_validator X (sm_subnet_id m) v (latest_committee s) = Inr c"
    and "r = stake_request (Deposit (sm_amount m)) v
           (get_next_stake_change_configuration_number X db (sm_subnet_id m)) c h bh tid"
    and "db' = add_stake_change X (sm_subnet_id m) r
           (save_subnet_state X (sm_subnet_id m) (s\<lparr> ss_waiting_committee := Some c \<rparr>) db)"
  using assms by (auto simp: stake_save_to_db_def Let_def res_simps)

lemma unstake_save_Inr:
  assumes "unstake_save_to_db X db h bh tid m = Inr db'"
  obtains s c r v nc po where "get_subnet_state X db (um_subnet_id m) = Some s"
    and "unstake_committee X (um_subnet_id m) v nc po (latest_committee s) = Inr c"
    and "r = stake_request (Withdraw (um_amount m)) v
           (get_next_stake_change_configuration_number X db (um_subnet_id m)) c h bh tid"
    and "db' = add_stake_change X (um_subnet_id m) r
           (save_subnet_state X (um_subnet_id m) (s\<lparr> ss_waiting_committee := Some c \<rparr>) db)"
  using assms by (auto simp: unstake_save_to_db_def Let_def res_simps)

lemma unstake_committee_wf:
  "unstake_committee X sid v nc po c = Inr c' \<Longrightarrow> wf_committee X sid c \<Longrightarrow> wf_committee X sid c'"
  using remove_upd.upd_wf modify_upd.upd_wf
  by (auto simp: unstake_committee_def split: option.splits if_splits)

lemma state_committee_wf:
  assumes "ext_ok X" "db_inv X db" "get_subnet_state X db sid = Some s"
  shows "wf_committee X sid (latest_committee s)"
  using db_inv_state [OF assms] latest_committee_wf [of X s] by (auto simp: state_ok_def)

lemma stake_request_fields [simp]:
  "sc_committee_after_change (stake_request ch v n c h bh tid) = c"
  "sc_configuration_number (stake_request ch v n c h bh tid) = n"
  by (simp_all add: stake_request_def)

interpretation stake_h: db_handler X "stake_room X (sm_subnet_id m)" "\<lambda>db. stake_save_to_db X db h bh tid m"
  for X h bh tid m
proof
  fix db db'
  assume a: "ext_ok X" "db_inv X db" "stake_room X (sm_subnet_id m) db" "stake_save_to_db X db h bh tid m = Inr db'"
  from a(4) obtain s c r v where s: "get_subnet_state X db (sm_subnet_id m) = Some s"
    and c: "modify_validator X (sm_subnet_id m) v (latest_committee s) = Inr c"
    and r: "r = stake_request (Deposit (sm_amount m)) v
           (get_next_stake_change_configuration_number X db (sm_subnet_id m)) c h bh tid"
    and db': "db' = add_stake_change X (sm_subnet_id m) r
           (save_subnet_state X (sm_subnet_id m) (s\<lparr> ss_waiting_committee := Some c \<rparr>) db)"
    by (rule stake_save_Inr)
  have "wf_committee X (sm_subnet_id m) c"
    using modify_upd.upd_wf [OF c] state_committee_wf [OF a(1,2) s] by blast
  then show "db_inv X db'" unfolding db'
    by (rule db_inv_stake_request [OF a(1-3) s]) (simp_all add: r)
  show "db_progress X db db'"
    by (rule waiting_progress [OF a(1,2) s]) (simp add: db' add_stake_change_def)
qed

interpretation unstake_h: db_handler X "stake_room X (um_subnet_id m)" "\<lambda>db. unstake_save_to_db X db h bh tid m"
  for X h bh tid m
proof
  fix db db'
  assume a: "ext_ok X" "db_inv X db" "stake_room X (um_subnet_id m) db" "unstake_save_to_db X db h bh tid m = Inr db'"
  from a(4) obtain s c r v nc po where s: "get_subnet_state X db (um_subnet_id m) = Some s"
    and c: "unstake_committee X (um_subnet_id m) v nc po (latest_committee s) = Inr c"
    and r: "r = stake_request (Withdraw (um_amount m)) v
           (get_next_stake_change_configuration_number X db (um_subnet_id m)) c h bh tid"
    and db': "db' = add_stake_change X (um_subnet_id m) r
           (save_subnet_state X (um_subnet_id m) (s\<lparr> ss_waiting_committee := Some c \<rparr>) db)"
    by (rule unstake_save_Inr)
  have "wf_committee X (um_subnet_id m) c"
    using unstake_committee_wf [OF c] state_committee_wf [OF a(1,2) s] by blast
  then show "db_inv X db'" unfolding db'
    by (rule db_inv_stake_request [OF a(1-3) s]) (simp_all add: r)
  show "db_progress X db db'"
    by (rule waiting_progress [OF a(1,2) s]) (simp add: db' add_stake_change_def)
qed

section \<open>Fund and kill\<close>

interpretation fund_h: db_handler X "rootnet_room X (fm_subnet_id m) 1" "\<lambda>db. fund_save_to_db X db h bh tid m"
  for X h bh tid m
proof
  fix db db'
  assume a: "ext_ok X" "db_inv X db" "rootnet_room X (fm_subnet_id m) 1 db" "fund_save_to_db X db h bh tid m = Inr db'"
  from a(4) obtain s where s: "get_subnet_state X db (fm_subnet_id m) = Some s"
    and db': "db' = add_rootnet_msg X (fm_subnet_id m)
       (FundSubnet m h bh (get_next_rootnet_msg_nonce X db (fm_subnet_id m)) tid) db"
    by (auto simp: fund_save_to_db_def Let_def res_simps)
  have "native_id (fm_subnet_id m)" using db_inv_state [OF a(1,2) s] by (auto simp: state_ok_def)
  then show "db_inv X db'" unfolding db' by (rule db_inv_add_rootnet_msg [OF a(1,2) _ a(3)]) simp
  show "db_progress X db db'" unfolding db' by (intro db_progress_same) (simp add: add_rootnet_msg_def)
qed

lemma kill_save_Inr:
  assumes "kill_save_to_db X db h bh tid m = Inr db'"
  obtains s r where "get_subnet_state X db (km_subnet_id m) = Some s"
    and "db' = add_kill_request X (km_subnet_id m) r db
       \<or> ss_killed s = NotKilled
         \<and> db' = save_subnet_state X (km_subnet_id m) (mark_for_kill s) (add_kill_request X (km_subnet_id m) r db)"
  using assms by (auto simp: kill_save_to_db_def Let_def res_simps split: if_splits)

lemma mark_for_kill_fields [simp]:
  "ss_id (mark_for_kill s) = ss_id s" "ss_committee (mark_for_kill s) = ss_committee s"
  "ss_waiting_committee (mark_for_kill s) = ss_waiting_committee s"
  "ss_committee_number (mark_for_kill s) = ss_committee_number s"
  "ss_last_checkpoint_number (mark_for_kill s) = ss_last_checkpoint_number s"
  "ss_killed (mark_for_kill s) = ToBeKilled"
  by (simp_all add: mark_for_kill_def Let_def split: option.splits)

lemma mark_for_kill_state_ok:
  assumes "state_ok X db s"
  shows "state_ok X db (mark_for_kill s)"
  using assms
  by (cases "ss_last_checkpoint_number s")
    (auto simp: state_ok_def committees_wf_def numbered_checkpoints_def kill_marker_ok_def mark_for_kill_def)

interpretation kill_h: db_handler X "\<lambda>_. True" "\<lambda>db. kill_save_to_db X db h bh tid m" for X h bh tid m
proof
  fix db db'
  assume a: "ext_ok X" "db_inv X db" "kill_save_to_db X db h bh tid m = Inr db'"
  from a(3) obtain s r where s: "get_subnet_state X db (km_subnet_id m) = Some s"
    and db': "db' = add_kill_request X (km_subnet_id m) r db
       \<or> ss_killed s = NotKilled
         \<and> db' = save_subnet_state X (km_subnet_id m) (mark_for_kill s) (add_kill_request X (km_subnet_id m) r db)"
    by (rule kill_save_Inr)
  let ?k = "add_kill_request X (km_subnet_id m) r db"
  have k: "db_inv X ?k"
    by (rule db_inv_cong [of _ db]) (use a(2) in \<open>simp_all add: db_inv_ok add_kill_request_def [of X]\<close>,
        use a(2) in \<open>simp add: db_inv_ok add_kill_request_def [symmetric]\<close>)
  have sk: "get_subnet_state X ?k (km_subnet_id m) = Some s"
    using s by (simp add: get_subnet_state_def add_kill_request_def)
  have "db_inv X (save_subnet_state X (km_subnet_id m) (mark_for_kill s) ?k)"
    by (rule db_inv_save_state [OF a(1) k sk])
      (use db_inv_state [OF a(1) k sk] in \<open>simp_all add: mark_for_kill_state_ok\<close>)
  with k db' show "db_inv X db'" by auto
  from db' show "db_progress X db db'"
  proof (elim disjE conjE)
    assume "db' = ?k"
    then show ?thesis by (intro db_progress_same) (simp add: add_kill_request_def)
  next
    assume n: "ss_killed s = NotKilled" and d: "db' = save_subnet_state X (km_subnet_id m) (mark_for_kill s) ?k"
    show ?thesis
      by (rule db_progress_state [OF a(1) db_inv_ok [OF a(2)] s, of "mark_for_kill s"])
        (simp_all add: subnet_progress_def n checkpoint_count_def d save_subnet_state_def add_kill_request_def)
  qed
qed

section \<open>Join\<close>

lemma of_nat_Suc_Suc: "(of_nat (Suc n) :: u64) + 1 = of_nat (Suc (Suc n))"
  by simp

lemma join_request_fields [simp]:
  "sc_committee_after_change (join_request X m c h bh tid ch n) = c"
  "sc_configuration_number (join_request X m c h bh tid ch n) = n"
  by (simp_all add: join_request_def)

lemma join_post_Inr:
  assumes "join_post_bootstrap X db h bh tid m v s = Inr db'"
  obtains c ch1 ch2 where "join_new_validator X (ss_id s) v (latest_committee s) = Inr c"
    and "db' = add_stake_change X (jm_subnet_id m)
        (join_request X m c h bh tid ch2 (get_next_stake_change_configuration_number X db (jm_subnet_id m) + 1))
        (add_stake_change X (jm_subnet_id m)
          (join_request X m c h bh tid ch1 (get_next_stake_change_configuration_number X db (jm_subnet_id m)))
          (save_subnet_state X (jm_subnet_id m) (s\<lparr> ss_waiting_committee := Some c \<rparr>) db))"
  using assms by (auto simp: join_post_bootstrap_def Let_def res_simps split: if_splits)

lemma db_inv_join_post:
  assumes "ext_ok X" "db_inv X db" "stake_room X (jm_subnet_id m) db"
    and "get_subnet_state X db (jm_subnet_id m) = Some s" "join_post_bootstrap X db h bh tid m v s = Inr db'"
  shows "db_inv X db'" "db_progress X db db'"
proof -
  let ?sid = "jm_subnet_id m"
  let ?N = "get_next_stake_change_configuration_number X db ?sid"
  from assms(5) obtain c ch1 ch2 where c: "join_new_validator X (ss_id s) v (latest_committee s) = Inr c"
    and db': "db' = add_stake_change X ?sid (join_request X m c h bh tid ch2 (?N + 1))
        (add_stake_change X ?sid (join_request X m c h bh tid ch1 ?N)
          (save_subnet_state X ?sid (s\<lparr> ss_waiting_committee := Some c \<rparr>) db))"
    by (rule join_post_Inr)
  note S = db_inv_state [OF assms(1,2,4)]
  have wf: "wf_committee X ?sid c"
    using join_upd.upd_wf [OF c] state_committee_wf [OF assms(1,2,4)] S(1) by simp
  have sid: "native_id ?sid" using S by (auto simp: state_ok_def)
  then obtain n where n: "dense_stake X ?sid n db"
    using assms(2) stake_inv_dense unfolding db_inv_def by blast
  have N: "?N = of_nat (Suc n)" "n + 2 < 2 ^ 64"
    using next_stake_number(2) [OF assms(1) sid n] stake_room_dense [OF assms(1) sid assms(3) n] by simp_all
  let ?t = "save_subnet_state X ?sid (s\<lparr> ss_waiting_committee := Some c \<rparr>) db"
  let ?t1 = "add_stake_change X ?sid (join_request X m c h bh tid ch1 ?N) ?t"
  have "dense_stake X ?sid n ?t" using n by (simp add: save_subnet_state_def)
  then have "db_inv X ?t1 \<and> dense_stake X ?sid (Suc n) ?t1"
    using N wf by (intro db_inv_add_stake_change [OF assms(1) db_inv_new_committee [OF assms(1,2,4) wf] sid]) simp_all
  moreover from this have "db_inv X db' \<and> dense_stake X ?sid (Suc (Suc n)) db'"
    unfolding db' using N wf by (intro db_inv_add_stake_change [OF assms(1) _ sid]) simp_all
  ultimately show "db_inv X db'" by blast
  show "db_progress X db db'"
    by (rule waiting_progress [OF assms(1,2,4)]) (simp add: db' add_stake_change_def)
qed

lemma to_committee_wf:
  "validators_to_committee X vs sid n = Inr c \<Longrightarrow> distinct (map v_pubkey vs) \<Longrightarrow> wf_committee X sid c"
  by (auto simp: validators_to_committee_def wf_committee_def committee_keys_def res_simps Let_def)

lemma db_inv_bootstrap:
  assumes "ext_ok X" "db_inv X db" "get_subnet_state X db sid = None" "native_id sid" "gi_subnet_id g = sid"
    and "gi_bootstrapped g" "distinct (map v_pubkey (gi_genesis_validators g))" "to_subnet X g = Inr s"
    and "db' = save_committee X sid (ss_committee_number s) (ss_committee s)
           (save_subnet_genesis_info X sid g (save_subnet_state X sid s db))"
  shows "db_inv X db'"
proof -
  have ok: "db_ok db" using assms(2) by (rule db_inv_ok)
  from assms(5,8) have s: "ss_id s = sid" "ss_waiting_committee s = None" "ss_last_checkpoint_number s = None"
      "ss_marked_for_kill_checkpoint_number s = None"
    and c: "validators_to_committee X (gi_genesis_validators g) sid GENESIS_COMMITTEE_CONF_NUM = Inr (ss_committee s)"
    by (auto simp: to_subnet_def res_simps)
  have wf: "wf_committee X sid (ss_committee s)"
    by (rule to_committee_wf [OF c assms(7)])
  have gets: "get_subnet_state X db' t = (if t = sid then Some s else get_subnet_state X db t)"
    "get_subnet_genesis_info X db' t = (if t = sid then Some g else get_subnet_genesis_info X db t)"
    "get_committee X db' t n = (if t = sid \<and> n = ss_committee_number s then Some (ss_committee s)
       else get_committee X db t n)" "get_checkpoint X db' t n = get_checkpoint X db t n" for t n
    using assms(1) ok by (simp_all add: assms(9) db_unfold)
  have rest: "rootnet_inv X db'" "stake_inv X db'"
    using assms(2) rootnet_inv_cong [of db' db X] stake_inv_cong [of db' db X]
    by (simp_all add: db_inv_def assms(9) save_defs)
  have gen: "genesis_inv X db'"
    using assms(2,4-7) unfolding db_inv_def genesis_inv_def by (auto simp: gets)
  have new: "state_ok X db' s"
    using s wf assms(4) by (simp add: state_ok_def committees_wf_def numbered_checkpoints_def kill_marker_ok_def gets)
  have old: "state_ok X db' t" if "state_ok X db t" "ss_id t \<noteq> sid" for t
    using that by (simp add: state_ok_def numbered_checkpoints_def gets)
  have "k = subnet_state_key X (ss_id t) \<and> state_ok X db' t" if t: "kv_get (subnet_db db') k = Some t" for k t
  proof (cases "k = subnet_state_key X sid")
    case True
    with t gets(1) [of sid] have "t = s" by (simp add: get_subnet_state_def)
    with new s True show ?thesis by simp
  next
    case False
    then have kt: "kv_get (subnet_db db) k = Some t" using t ok by (simp add: assms(9) db_unfold)
    then have "k = subnet_state_key X (ss_id t)" "state_ok X db t"
      using assms(2) by (auto simp: db_inv_def states_inv_def)
    with old False show ?thesis by blast
  qed
  then have "states_inv X db'" by (simp add: states_inv_def)
  with rest gen ok show ?thesis by (simp add: db_inv_def assms(9))
qed

lemma db_inv_join_pre:
  assumes "ext_ok X" "db_inv X db" "get_subnet_genesis_info X db (jm_subnet_id m) = Some g"
    and "get_subnet_state X db (jm_subnet_id m) = None" "v_pubkey v \<notin> v_pubkey ` set (gi_genesis_validators g)"
    and "join_pre_bootstrap X db h m v g = Inr (db', so)"
  shows "db_inv X db'" "db_progress X db db'"
proof -
  let ?sid = "jm_subnet_id m"
  let ?g1 = "g\<lparr> gi_genesis_validators := gi_genesis_validators g @ [v] \<rparr>"
  let ?g2 = "?g1\<lparr> gi_bootstrapped := True, gi_genesis_block_height := Some h \<rparr>"
  note G = db_inv_genesis [OF assms(2,3)]
  have dist: "distinct (map v_pubkey (gi_genesis_validators g @ [v]))" using G(3) assms(5) by simp
  show "db_inv X db'"
  proof (cases "enough_to_bootstrap ?g1")
    case True
    with assms(6) obtain s where "to_subnet X ?g2 = Inr s"
      and "db' = save_committee X ?sid (ss_committee_number s) (ss_committee s)
             (save_subnet_genesis_info X ?sid ?g2 (save_subnet_state X ?sid s db))"
      by (auto simp: join_pre_bootstrap_def Let_def res_simps)
    then show ?thesis
      by (rule db_inv_bootstrap [OF assms(1,2,4) G(1), rotated 3]) (use G(2) dist in simp_all)
  next
    case False
    with assms(6) have "db' = save_subnet_genesis_info X ?sid ?g1 db"
      by (simp add: join_pre_bootstrap_def Let_def)
    then show ?thesis
      using db_inv_save_genesis [OF assms(1,2) G(1), of ?g1] G(2,4) dist assms(4) by simp
  qed
  have "get_subnet_state X db' t = get_subnet_state X db t" if "t \<noteq> ?sid" for t
    using assms(1,6) that db_inv_ok [OF assms(2)]
    by (auto simp: join_pre_bootstrap_def Let_def res_simps db_unfold split: if_splits)
  then show "db_progress X db db'"
    using assms(4) unfolding db_progress_def subnet_progress_def by (metis option.distinct(1) order_refl)
qed

lemma join_save_Inr:
  assumes "join_save_to_db X db h bh tid m = Inr (db', so)"
  obtains g v where "get_subnet_genesis_info X db (jm_subnet_id m) = Some g" "v_pubkey v = jm_pubkey m"
    and "\<forall>s. get_subnet_state X db (jm_subnet_id m) = Some s \<longrightarrow> join_post_bootstrap X db h bh tid m v s = Inr db'"
    and "get_subnet_state X db (jm_subnet_id m) = None \<longrightarrow>
           jm_pubkey m \<notin> v_pubkey ` set (gi_genesis_validators g) \<and> join_pre_bootstrap X db h m v g = Inr (db', so)"
proof -
  from assms obtain g pw where g: "get_subnet_genesis_info X db (jm_subnet_id m) = Some g"
    and val: "join_validate_for_subnet m g (get_subnet_state X db (jm_subnet_id m)) = Inr ()"
    and rest: "(case get_subnet_state X db (jm_subnet_id m) of
          Some subnet \<Rightarrow> res_bind (join_post_bootstrap X db h bh tid m
            \<lparr> v_pubkey = jm_pubkey m, v_subnet_address = eth_addr_from_x_only_pubkey X (jm_pubkey m), v_power = pw,
           v_collateral = jm_collateral m, v_backup_address = jm_backup_address m, v_ip = jm_ip m,
           v_join_txid = tid \<rparr> subnet) (\<lambda>db'. Inr (db', None))
        | None \<Rightarrow> join_pre_bootstrap X db h m
            \<lparr> v_pubkey = jm_pubkey m, v_subnet_address = eth_addr_from_x_only_pubkey X (jm_pubkey m), v_power = pw,
           v_collateral = jm_collateral m, v_backup_address = jm_backup_address m, v_ip = jm_ip m,
           v_join_txid = tid \<rparr> g) = Inr (db', so)"
    unfolding join_save_to_db_def Let_def by (auto simp: res_simps)
  show thesis
    using g val rest
    by (intro that [of g "\<lparr> v_pubkey = jm_pubkey m, v_subnet_address = eth_addr_from_x_only_pubkey X (jm_pubkey m),
           v_power = pw, v_collateral = jm_collateral m, v_backup_address = jm_backup_address m, v_ip = jm_ip m,
           v_join_txid = tid \<rparr>"])
      (auto simp: res_simps join_validate_for_subnet_def join_validate_pre_bootstrap_def split: if_splits)
qed

interpretation join_h: db_handler X "stake_room X (jm_subnet_id m)" "\<lambda>db. res_db (join_save_to_db X db h bh tid m)"
  for X h bh tid m
proof
  fix db db'
  assume a: "ext_ok X" "db_inv X db" "stake_room X (jm_subnet_id m) db"
    "res_db (join_save_to_db X db h bh tid m) = Inr db'"
  then obtain so where "join_save_to_db X db h bh tid m = Inr (db', so)" by (auto simp: res_db_Inr)
  then obtain g v where g: "get_subnet_genesis_info X db (jm_subnet_id m) = Some g" "v_pubkey v = jm_pubkey m"
    and post: "\<forall>s. get_subnet_state X db (jm_subnet_id m) = Some s \<longrightarrow> join_post_bootstrap X db h bh tid m v s = Inr db'"
    and pre: "get_subnet_state X db (jm_subnet_id m) = None \<longrightarrow>
           jm_pubkey m \<notin> v_pubkey ` set (gi_genesis_validators g) \<and> join_pre_bootstrap X db h m v g = Inr (db', so)"
    by (rule join_save_Inr)
  show "db_inv X db'" "db_progress X db db'"
    using db_inv_join_pre [OF a(1,2) g(1)] pre g(2) db_inv_join_post [OF a(1-3)] post
    by (cases "get_subnet_state X db (jm_subnet_id m)"; metis)+
qed

section \<open>Checkpoint and batch\<close>

definition checkpoint_room :: "ext \<Rightarrow> subnet_id \<Rightarrow> heed_db \<Rightarrow> bool" where
  "checkpoint_room X sid db \<longleftrightarrow>
     (\<forall>s l. get_subnet_state X db sid = Some s \<longrightarrow> ss_last_checkpoint_number s = Some l \<longrightarrow> l \<noteq> - 1)"

lemma u64_next:
  assumes "(l :: u64) \<noteq> - 1"
  shows "unat (l + 1) = Suc (unat l)" "l < l + 1" "k \<le> l + 1 \<Longrightarrow> k \<le> l \<or> k = l + 1"
proof -
  show n: "unat (l + 1) = Suc (unat l)"
    using assms by (metis add.commute eq_neg_iff_add_eq_0 unatSuc)
  then show "l < l + 1" by (simp add: word_less_nat_alt)
  show "k \<le> l + 1 \<Longrightarrow> k \<le> l \<or> k = l + 1"
    using n by (auto simp: word_le_nat_alt word_unat_eq_iff)
qed

lemma rotate_to_committee_fields [simp]:
  "ss_id (rotate_to_committee c s) = ss_id s"
  "ss_last_checkpoint_number (rotate_to_committee c s) = ss_last_checkpoint_number s"
  "ss_killed (rotate_to_committee c s) = ss_killed s"
  "ss_marked_for_kill_checkpoint_number (rotate_to_committee c s) = ss_marked_for_kill_checkpoint_number s"
  by (simp_all add: rotate_to_committee_def Let_def split: option.splits)

lemma rotate_to_committee_cases:
  "(ss_committee (rotate_to_committee c s) = ss_committee s
     \<and> ss_committee_number (rotate_to_committee c s) = ss_committee_number s)
   \<or> (ss_committee (rotate_to_committee c s) = c
     \<and> ss_committee_number (rotate_to_committee c s) = ss_committee_number s + 1)"
  "ss_waiting_committee (rotate_to_committee c s) = ss_waiting_committee s
   \<or> ss_waiting_committee (rotate_to_committee c s) = None"
  by (auto simp: rotate_to_committee_def Let_def split: option.splits)

lemma checkpoint_state_fields [simp]:
  "ss_id (checkpoint_state s sc n h m) = ss_id s"
  "ss_last_checkpoint_number (checkpoint_state s sc n h m) = Some n"
  "ss_marked_for_kill_checkpoint_number (checkpoint_state s sc n h m) = ss_marked_for_kill_checkpoint_number s"
  by (simp_all add: checkpoint_state_def Let_def split: option.splits)

lemma checkpoint_state_committee:
  "(ss_committee (checkpoint_state s sc n h m) = ss_committee s
     \<and> ss_committee_number (checkpoint_state s sc n h m) = ss_committee_number s)
   \<or> (\<exists>c. sc = Some c \<and> ss_committee (checkpoint_state s sc n h m) = sc_committee_after_change c
     \<and> ss_committee_number (checkpoint_state s sc n h m) = ss_committee_number s + 1)"
  "ss_waiting_committee (checkpoint_state s sc n h m) = ss_waiting_committee s
   \<or> ss_waiting_committee (checkpoint_state s sc n h m) = None"
  using rotate_to_committee_cases [of _ "s\<lparr> ss_last_checkpoint_number := Some n \<rparr>"]
  by (auto simp: checkpoint_state_def Let_def split: option.splits)

lemma checkpoint_state_kill: "kill_rank (ss_killed s) \<le> kill_rank (ss_killed (checkpoint_state s sc n h m))"
  by (cases "ss_killed s") (simp_all add: checkpoint_state_def Let_def split: option.splits)

lemma checkpoint_stake_change_wf:
  assumes "ext_ok X" "db_inv X db" "native_id (ck_subnet_id m)"
    and "checkpoint_stake_change X db s m = Inr (Some c)"
  shows "wf_committee X (ck_subnet_id m) (sc_committee_after_change c)"
  using assms by (auto simp: checkpoint_stake_change_def Let_def db_inv_def stake_inv_def split: if_splits option.splits)

lemma checkpoint_save_Inr:
  assumes "checkpoint_save_to_db X db h bh tid m = Inr (db', cp)"
  obtains s sc where "get_subnet_state X db (ck_subnet_id m) = Some s"
    and "checkpoint_stake_change X db s m = Inr sc" and "cp = checkpoint_record s sc h tid m"
    and "case sc of
        None \<Rightarrow> db' = save_checkpoint X (ck_subnet_id m) cp (cp_checkpoint_number cp)
            (save_subnet_state X (ck_subnet_id m) (checkpoint_state s sc (cp_checkpoint_number cp) h m) db)
      | Some c \<Rightarrow> (\<exists>l conf. confirm_stake_changes X db (ck_subnet_id m) (ck_next_committee_configuration_number m) h bh
          (save_committee X (ck_subnet_id m) (ss_committee_number s + 1) (sc_committee_after_change c)
            (save_checkpoint X (ck_subnet_id m) cp (cp_checkpoint_number cp)
              (save_subnet_state X (ck_subnet_id m) (checkpoint_state s sc (cp_checkpoint_number cp) h m) db)))
          = (db', l, conf))"
proof -
  from assms obtain s sc where s: "get_subnet_state X db (ck_subnet_id m) = Some s"
    and sc: "checkpoint_stake_change X db s m = Inr sc"
    unfolding checkpoint_save_to_db_def Let_def by (auto simp: res_simps)
  show thesis
    by (rule that [OF s sc]; insert assms s sc)
      (auto simp: checkpoint_save_to_db_def Let_def res_simps checkpoint_record_def split: option.splits prod.splits)
qed

lemma db_inv_checkpoint_writes:
  assumes "ext_ok X" "db_inv X db" "get_subnet_state X db sid = Some s" "checkpoint_room X sid db"
    and "ck_subnet_id m = sid" "checkpoint_stake_change X db s m = Inr sc" "cp = checkpoint_record s sc h tid m"
    and "txn = save_checkpoint X sid cp (cp_checkpoint_number cp)
           (save_subnet_state X sid (checkpoint_state s sc (cp_checkpoint_number cp) h m) db)"
  shows "sc = None \<Longrightarrow> db_inv X txn"
    and "sc = Some c \<Longrightarrow> db_inv X (save_committee X sid (ss_committee_number s + 1) (sc_committee_after_change c) txn)"
proof -
  let ?n = "cp_checkpoint_number cp" and ?s = "checkpoint_state s sc (cp_checkpoint_number cp) h m"
  let ?db1 = "save_checkpoint X sid cp ?n db"
  note S = db_inv_state [OF assms(1-3)]
  have n: "?n = (case ss_last_checkpoint_number s of None \<Rightarrow> 0 | Some l \<Rightarrow> l + 1)"
    by (simp add: assms(7) checkpoint_record_def)
  have room: "l \<noteq> - 1" if "ss_last_checkpoint_number s = Some l" for l
    using that assms(3,4) by (simp add: checkpoint_room_def)
  have inv1: "db_inv X ?db1"
    by (rule db_inv_save_checkpoint [OF assms(1-3)]) (use n room u64_next(2) in simp)
  have s1: "get_subnet_state X ?db1 sid = Some s"
    using assms(3) by (simp add: get_subnet_state_def save_checkpoint_def)
  have ok1: "state_ok X ?db1 s" using db_inv_state(2) [OF assms(1) inv1 s1] .
  have num: "\<exists>cp'. get_checkpoint X ?db1 (ss_id s) k = Some cp' \<and> cp_checkpoint_number cp' = k" if "k \<le> ?n" for k
  proof (cases "k = ?n")
    case True
    then show ?thesis using S(1) assms(1) db_inv_ok [OF assms(2)] by (simp add: get_save_checkpoint)
  next
    case False
    with that n obtain l where l: "ss_last_checkpoint_number s = Some l" "k \<le> l"
      using u64_next(3) [OF room] by (auto split: option.splits)
    with ok1 show ?thesis unfolding state_ok_def numbered_checkpoints_def by blast
  qed
  have kill: "kill_marker_ok ?s"
    using ok1 n room u64_next(2) unfolding state_ok_def kill_marker_ok_def
    by (auto split: option.splits) (meson order.strict_implies_order order_trans)
  have base: "state_ok X db2 ?s"
    if "get_committee X db2 sid (ss_committee_number ?s) = Some (ss_committee ?s)" "wf_committee X sid (ss_committee ?s)"
      and "subnet_genesis_db db2 = subnet_genesis_db db" "checkpoints_db db2 = checkpoints_db ?db1" for db2
  proof -
    have "numbered_checkpoints X db2 ?s"
      using num that(4) by (auto simp: numbered_checkpoints_def get_checkpoint_def)
    moreover have "\<forall>c. ss_waiting_committee ?s = Some c \<longrightarrow> wf_committee X sid c"
      using S checkpoint_state_committee(2) [of s sc ?n h m] by (auto simp: state_ok_def committees_wf_def)
    ultimately show ?thesis
      using S that kill by (simp add: state_ok_def committees_wf_def get_subnet_genesis_info_def)
  qed
  have gc: "get_committee X ?db1 sid (ss_committee_number s) = Some (ss_committee s)"
    "wf_committee X sid (ss_committee s)" using ok1 S by (auto simp: state_ok_def committees_wf_def)
  have comm: "txn = save_subnet_state X sid ?s ?db1" by (simp add: assms(8) save_defs)
  {
    assume "sc = None"
    then have "ss_committee ?s = ss_committee s" "ss_committee_number ?s = ss_committee_number s"
      using checkpoint_state_committee(1) [of s sc ?n h m] by auto
    then have "state_ok X ?db1 ?s" using gc by (intro base) (simp_all add: save_checkpoint_def)
    then show "db_inv X txn" unfolding comm using S by (intro db_inv_save_state [OF assms(1) inv1 s1]) simp_all
  }
  {
    assume sc: "sc = Some c"
    let ?db2 = "save_committee X sid (ss_committee_number s + 1) (sc_committee_after_change c) ?db1"
    have inv2: "db_inv X ?db2" by (rule db_inv_save_committee [OF assms(1) inv1 s1]) simp
    have s2: "get_subnet_state X ?db2 sid = Some s" using s1 by (simp add: get_subnet_state_def save_committee_def)
    have wf: "wf_committee X sid (sc_committee_after_change c)"
      using checkpoint_stake_change_wf [OF assms(1,2), of m s c] assms(5,6) S sc by (auto simp: state_ok_def)
    have "state_ok X ?db2 ?s"
      using checkpoint_state_committee(1) [of s sc ?n h m] gc wf sc assms(1) db_inv_ok [OF inv1]
      by (intro base) (auto simp: get_save_committee, simp_all add: save_committee_def save_checkpoint_def)
    then have "db_inv X (save_subnet_state X sid ?s ?db2)"
      using S by (intro db_inv_save_state [OF assms(1) inv2 s2]) simp_all
    moreover have "save_committee X sid (ss_committee_number s + 1) (sc_committee_after_change c) txn
        = save_subnet_state X sid ?s ?db2" by (simp add: assms(8) save_defs)
    ultimately show "db_inv X (save_committee X sid (ss_committee_number s + 1) (sc_committee_after_change c) txn)"
      by (simp only:)
  }
qed

lemma confirm_only_stake_changes:
  "confirm_stake_changes X db sid mx h bh txn = (txn', l, conf) \<Longrightarrow> \<exists>t. txn' = txn\<lparr> stake_changes_db := t \<rparr>"
  by (auto simp: confirm_stake_changes_def confirm_loop_eq Let_def)

interpretation checkpoint_h: db_handler X "checkpoint_room X (ck_subnet_id m)"
    "\<lambda>db. res_db (checkpoint_save_to_db X db h bh tid m)" for X h bh tid m
proof
  fix db db'
  assume a: "ext_ok X" "db_inv X db" "checkpoint_room X (ck_subnet_id m) db"
    "res_db (checkpoint_save_to_db X db h bh tid m) = Inr db'"
  let ?sid = "ck_subnet_id m"
  from a(4) obtain cp where "checkpoint_save_to_db X db h bh tid m = Inr (db', cp)" by (auto simp: res_db_Inr)
  then obtain s sc where s: "get_subnet_state X db ?sid = Some s"
    and sc: "checkpoint_stake_change X db s m = Inr sc" and cp: "cp = checkpoint_record s sc h tid m"
    and db': "case sc of
        None \<Rightarrow> db' = save_checkpoint X ?sid cp (cp_checkpoint_number cp)
            (save_subnet_state X ?sid (checkpoint_state s sc (cp_checkpoint_number cp) h m) db)
      | Some c \<Rightarrow> (\<exists>l conf. confirm_stake_changes X db ?sid (ck_next_committee_configuration_number m) h bh
          (save_committee X ?sid (ss_committee_number s + 1) (sc_committee_after_change c)
            (save_checkpoint X ?sid cp (cp_checkpoint_number cp)
              (save_subnet_state X ?sid (checkpoint_state s sc (cp_checkpoint_number cp) h m) db)))
          = (db', l, conf))"
    by (rule checkpoint_save_Inr)
  note W = db_inv_checkpoint_writes [OF a(1,2) s a(3) refl sc cp refl]
  have sid: "native_id ?sid" using db_inv_state [OF a(1,2) s] by (auto simp: state_ok_def)
  show "db_inv X db'"
  proof (cases sc)
    case None
    with db' W(1) show ?thesis by simp
  next
    case (Some c)
    with db' obtain l conf where "confirm_stake_changes X db ?sid (ck_next_committee_configuration_number m) h bh
          (save_committee X ?sid (ss_committee_number s + 1) (sc_committee_after_change c)
            (save_checkpoint X ?sid cp (cp_checkpoint_number cp)
              (save_subnet_state X ?sid (checkpoint_state s sc (cp_checkpoint_number cp) h m) db))) = (db', l, conf)"
      by auto
    from db_inv_confirm [OF a(1) W(2) [OF Some] sid _ this] show ?thesis by (simp add: save_defs)
  qed
  have "subnet_db db' = subnet_db (save_subnet_state X ?sid (checkpoint_state s sc (cp_checkpoint_number cp) h m) db)"
    using db' by (auto split: option.splits dest!: confirm_only_stake_changes) (simp_all add: save_defs)
  moreover have "subnet_progress s (checkpoint_state s sc (cp_checkpoint_number cp) h m)"
    using checkpoint_state_kill [of s sc _ h m] a(3) s u64_next(1)
    by (auto simp: subnet_progress_def checkpoint_count_def cp checkpoint_record_def checkpoint_room_def split: option.splits)
  ultimately show "db_progress X db db'"
    by (intro db_progress_state [OF a(1) db_inv_ok [OF a(2)] s])
qed

definition batch_room :: "ext \<Rightarrow> ipc_batch_transfer_msg \<Rightarrow> heed_db \<Rightarrow> bool" where
  "batch_room X m db \<longleftrightarrow> checkpoint_room X (bt_subnet_id m) db
     \<and> (\<forall>d. native_id d \<longrightarrow> rootnet_room X d (batch_message_count db m d) db)
     \<and> (\<forall>t \<in> set (bt_transfers m). native_id (xt_destination_subnet_id t))
     \<and> (\<forall>e \<in> set (bt_token_transfers m). native_id (et_destination_subnet_id e))"

interpretation batch_h: db_handler X "batch_room X m" "\<lambda>db. res_db (batch_save_to_db X db h bh tid m)"
  for X h bh tid m
proof
  fix db db'
  assume a: "ext_ok X" "db_inv X db" "batch_room X m db" "res_db (batch_save_to_db X db h bh tid m) = Inr db'"
  let ?src = "bt_subnet_id m"
  from a(4) obtain cp where b: "batch_save_to_db X db h bh tid m = Inr (db', cp)" by (auto simp: res_db_Inr)
  then obtain s n where s: "get_subnet_state X db ?src = Some s" "ss_last_checkpoint_number s = Some n"
    and app: "batch_apply X db h bh tid m (save_checkpoint X ?src cp (n + 1) db) = Inr db'"
    by (rule batch_save_Inr)
  note frame = batch_apply_frame [OF app]
  have "n \<noteq> - 1" using a(3) s by (simp add: batch_room_def checkpoint_room_def)
  then have inv1: "db_inv X (save_checkpoint X ?src cp (n + 1) db)"
    using s(2) u64_next(2) by (intro db_inv_save_checkpoint [OF a(1,2) s(1)]) simp
  have "\<exists>k. dense_rootnet X d k db'" if d: "native_id d" for d
  proof -
    obtain k where k: "dense_rootnet X d k db" using a(2) d unfolding db_inv_def rootnet_inv_def by blast
    have "k + batch_message_count db m d \<le> 2 ^ 64"
      using a(3) d by (intro rootnet_room_dense [OF a(1) d _ k]) (simp add: batch_room_def)
    with batch_dense_rootnet [OF a(1) db_inv_ok [OF a(2)] b d _ _ all_subnets_native [OF a(2)] k] a(3)
    show ?thesis unfolding batch_room_def by blast
  qed
  then have "rootnet_inv X db'" by (simp add: rootnet_inv_def)
  with inv1 frame show "db_inv X db'" by (rule db_inv_rootnet)
  show "db_progress X db db'"
    using ledger_only_tables(2) [OF frame] by (intro db_progress_same) (simp add: save_checkpoint_def)
qed

end
