(* ===== verification/Boot.thy ===== *)
theory Boot
  imports Preserve
begin

text \<open>
  A concrete subnet, brought up by the handlers: one create message and the join of one validator.  It
  shows that the invariant has instances with a running subnet, and the witnesses of the handlers'
  properties run on it.
\<close>

definition boot_create :: ipc_create_subnet_msg where
  "boot_create = \<lparr> cr_min_validator_stake = 10000, cr_min_validators = 1, cr_bottomup_check_period = 10,
     cr_active_validators_limit = 5, cr_min_cross_msg_fee = 1, cr_whitelist = [replicate 32 1] \<rparr>"

definition boot_join :: ipc_join_subnet_msg where
  "boot_join = \<lparr> jm_subnet_id = demo_id, jm_collateral = 50000, jm_ip = ''10.0.0.1:80'', jm_backup_address = ''bcrt1pbackup'',
     jm_pubkey = replicate 32 1 \<rparr>"

definition boot_validator :: subnet_validator where
  "boot_validator = \<lparr> v_pubkey = replicate 32 1, v_subnet_address = eth_addr_from_x_only_pubkey demo_ext (replicate 32 1),
     v_power = 5, v_collateral = 50000, v_backup_address = ''bcrt1pbackup'', v_ip = ''10.0.0.1:80'', v_join_txid = replicate 32 9 \<rparr>"

lemma boot_subnet:
  obtains db g s where "db_inv demo_ext db" "get_subnet_genesis_info demo_ext db demo_id = Some g"
    "gi_subnet_id g = demo_id" "gi_create_subnet_msg g = boot_create" "gi_bootstrapped g"
    "get_subnet_state demo_ext db demo_id = Some s"
    "ss_id s = demo_id" "ss_killed s = NotKilled" "ss_waiting_committee s = None" "ss_committee_number s = 1"
    "ss_last_checkpoint_number s = None"
    "cm_validators (ss_committee s) = [boot_validator]" "cm_configuration_number (ss_committee s) = 0"
    "rootnet_msgs_db db = []" "stake_changes_db db = []" "kill_requests_db db = []" "monitor_info db = []" "subnet_db db = [(subnet_state_key demo_ext demo_id, s)]"
proof -
  let ?tid = "replicate 32 7 :: bytes"
  have id: "subnet_id_from_txid ?tid = demo_id" by (simp add: subnet_id_from_txid_def demo_id_def subnet_id_from_txid20_def)
  let ?g = "\<lparr> gi_subnet_id = demo_id, gi_create_subnet_msg = boot_create,
            gi_create_msg_block_height = 100, gi_bootstrapped = False,
            gi_genesis_block_height = None, gi_genesis_validators = [], gi_genesis_balance_entries = [] \<rparr>"
  let ?db1 = "save_subnet_genesis_info demo_ext demo_id ?g empty_db"
  have c: "res_db (create_save_to_db demo_ext empty_db 100 ?tid boot_create) = Inr ?db1"
    by (simp add: create_save_to_db_def id res_db_def Let_def)
  have inv1: "db_inv demo_ext ?db1"
    using create_h.keeps [OF demo_ext_ok db_inv_empty _ c] by (simp add: create_room_def)
  have g1: "get_subnet_genesis_info demo_ext ?db1 demo_id = Some ?g" "get_subnet_state demo_ext ?db1 demo_id = None"
    using demo_ext_ok by (simp_all add: db_simps) (simp add: get_subnet_state_def save_subnet_genesis_info_def empty_db_def kv_get_def)
  let ?g2 = "?g\<lparr> gi_genesis_validators := [boot_validator], gi_bootstrapped := True, gi_genesis_block_height := Some 101 \<rparr>"
  have pw: "collateral_to_power 50000 10000 = Inr 5"
    by (simp add: collateral_to_power_def MAX_POWER_def POWER_SCALE_FACTOR_def)
  obtain a where a: "validators_multisig_address demo_ext [boot_validator] demo_id = Inr a"
    using validators_address_iff [OF demo_ext_ok demo_id_native] threshold_le_power [of "[boot_validator]"]
    by (auto simp: total_power_nat_def boot_validator_def)
  obtain s where s: "to_subnet demo_ext ?g2 = Inr s" "ss_id s = demo_id" "ss_killed s = NotKilled" "ss_waiting_committee s = None"
    "ss_committee_number s = 1" "ss_last_checkpoint_number s = None"
    "cm_validators (ss_committee s) = [boot_validator]" "cm_configuration_number (ss_committee s) = 0"
    using a by (auto simp: to_subnet_def validators_to_committee_def GENESIS_COMMITTEE_CONF_NUM_def)
  let ?db2 = "save_committee demo_ext demo_id (ss_committee_number s) (ss_committee s)
                 (save_subnet_genesis_info demo_ext demo_id ?g2 (save_subnet_state demo_ext demo_id s ?db1))"
  have j: "res_db (join_save_to_db demo_ext ?db1 101 [] (replicate 32 9) boot_join) = Inr ?db2"
    using g1 pw s(1)
    by (simp add: join_save_to_db_def boot_join_def boot_create_def join_validate_for_subnet_def join_validate_pre_bootstrap_def
        join_pre_bootstrap_def enough_to_bootstrap_def boot_validator_def Let_def res_db_def)
  have "stake_room demo_ext (jm_subnet_id boot_join) ?db1"
    by (simp add: stake_room_def save_subnet_genesis_info_def empty_db_def kv_prefix_iter_def)
  then have inv2: "db_inv demo_ext ?db2" using join_h.keeps [OF demo_ext_ok inv1 _ j] by blast
  have ok: "db_ok ?db1" using inv1 by (rule db_inv_ok)
  have "get_subnet_genesis_info demo_ext ?db2 demo_id = Some ?g2" "get_subnet_state demo_ext ?db2 demo_id = Some s"
    using demo_ext_ok ok
    by (simp_all add: get_subnet_genesis_info_def get_subnet_state_def save_committee_def save_subnet_genesis_info_def
        save_subnet_state_def akv.get_put akv.ok_put)
  then show thesis
    using that [of ?db2 ?g2 s] inv2 s by (simp add: save_committee_def save_subnet_genesis_info_def save_subnet_state_def empty_db_def)
qed

end
