(* ===== verification/Effects.thy ===== *)
theory Effects
  imports Boot
begin

text \<open>
  What the handlers do: the vote that marks a subnet for kill, the bootstrap of a subnet by the last
  join it waits for, the stake changes a join, a deposit and a withdrawal record, and the numbering and
  rotation of a checkpoint.
\<close>

section \<open>The vote to kill a subnet\<close>

text \<open>A validator has at most one request that is still valid at a height.\<close>

definition valid_at :: "u64 \<Rightarrow> kill_request \<Rightarrow> bool" where
  "valid_at h r \<longleftrightarrow> word_saturating_sub h KILL_REQUEST_VALID_BLOCKS \<le> kr_block_height r"

definition unique_votes :: "ext \<Rightarrow> subnet_id \<Rightarrow> u64 \<Rightarrow> heed_db \<Rightarrow> bool" where
  "unique_votes X sid h db \<longleftrightarrow> (\<forall>k1 k2 r1 r2.
     prefix (kill_requests_prefix X sid) k1 \<longrightarrow> prefix (kill_requests_prefix X sid) k2 \<longrightarrow>
     kv_get (kill_requests_db db) k1 = Some r1 \<longrightarrow> kv_get (kill_requests_db db) k2 = Some r2 \<longrightarrow>
     valid_at h r1 \<longrightarrow> valid_at h r2 \<longrightarrow> kr_validator_xpk r1 = kr_validator_xpk r2 \<longrightarrow> k1 = k2)"

lemma valid_at_mono: "h \<le> h' \<Longrightarrow> valid_at h' r \<Longrightarrow> valid_at h r"
proof -
  assume "h \<le> h'"
  then have "word_saturating_sub h KILL_REQUEST_VALID_BLOCKS \<le> word_saturating_sub h' KILL_REQUEST_VALID_BLOCKS"
    by (auto simp: word_saturating_sub_def word_le_nat_alt unat_sub_if_size)
  then show "valid_at h' r \<Longrightarrow> valid_at h r" unfolding valid_at_def by (rule order_trans)
qed

lemma valid_requests: "get_valid_kill_requests X db sid h
    = filter (valid_at h) (map snd (kv_prefix_iter (kill_requests_prefix X sid) (kill_requests_db db)))"
  by (simp add: get_valid_kill_requests_def valid_at_def [abs_def] Let_def)

lemma distinct_by_keys:
  assumes "distinct (map fst xs)" "\<forall>x \<in> set xs. \<forall>y \<in> set xs. P (snd x) \<longrightarrow> P (snd y) \<longrightarrow> f (snd x) = f (snd y) \<longrightarrow> fst x = fst y"
  shows "distinct (map f (filter P (map snd xs)))"
  using assms
proof (induction xs)
  case (Cons x xs)
  have "f (snd x) \<notin> set (map f (filter P (map snd xs)))" if "P (snd x)"
  proof
    assume "f (snd x) \<in> set (map f (filter P (map snd xs)))"
    then obtain y where "y \<in> set xs" "P (snd y)" "f (snd x) = f (snd y)" by auto
    then have "fst x = fst y" using Cons.prems(2) that by (metis list.set_intros(1,2))
    then show False using Cons.prems(1) \<open>y \<in> set xs\<close> by simp
  qed
  then show ?case using Cons by (simp add: Ball_def)
qed simp

lemma unique_votes_distinct:
  assumes "db_ok db" "unique_votes X sid h db"
  shows "distinct (map kr_validator_xpk (get_valid_kill_requests X db sid h))"
  unfolding valid_requests
proof (rule distinct_by_keys)
  let ?xs = "kv_prefix_iter (kill_requests_prefix X sid) (kill_requests_db db)"
  show "distinct (map fst ?xs)"
    using akv.iter_sorted [of "kill_requests_db db"] assms(1) by (simp add: strict_sorted_iff)
  have "prefix (kill_requests_prefix X sid) k \<and> kv_get (kill_requests_db db) k = Some r" if "(k, r) \<in> set ?xs" for k r
    using that akv.iter_mem [of "kill_requests_db db"] assms(1) by simp
  then show "\<forall>x \<in> set ?xs. \<forall>y \<in> set ?xs. valid_at h (snd x) \<longrightarrow> valid_at h (snd y) \<longrightarrow>
      kr_validator_xpk (snd x) = kr_validator_xpk (snd y) \<longrightarrow> fst x = fst y"
    using assms(2) unfolding unique_votes_def by (metis prod.collapse)
qed

lemma valid_requests_mem:
  assumes "db_ok db"
  shows "r \<in> set (get_valid_kill_requests X db sid h) \<longleftrightarrow>
    (\<exists>k. prefix (kill_requests_prefix X sid) k \<and> kv_get (kill_requests_db db) k = Some r \<and> valid_at h r)"
  using akv.iter_values [of "kill_requests_db db" r "kill_requests_prefix X sid"] assms
  by (auto simp: valid_requests)

definition power_of_keys :: "subnet_committee \<Rightarrow> xonly_pubkey set \<Rightarrow> nat" where
  "power_of_keys c ks = (\<Sum>v \<leftarrow> filter (\<lambda>v. v_pubkey v \<in> ks) (cm_validators c). unat (v_power v))"

lemma kill_power_of_nat:
  "kill_request_power c rs = of_nat (\<Sum>r\<leftarrow>rs. case find_validator c (kr_validator_xpk r) of Some v \<Rightarrow> unat (v_power v) | None \<Rightarrow> 0)"
proof -
  have "fold (\<lambda>r pw. case find_validator c (kr_validator_xpk r) of Some v \<Rightarrow> pw + v_power v | None \<Rightarrow> pw) rs a
      = a + of_nat (\<Sum>r\<leftarrow>rs. case find_validator c (kr_validator_xpk r) of Some v \<Rightarrow> unat (v_power v) | None \<Rightarrow> 0)" for a :: u32
    by (induction rs arbitrary: a) (auto split: option.splits)
  then show ?thesis by (simp add: kill_request_power_def)
qed

lemma power_of_keys_insert:
  assumes "distinct (map v_pubkey vs)" "k \<notin> ks"
  shows "(\<Sum>v \<leftarrow> filter (\<lambda>v. v_pubkey v \<in> insert k ks) vs. unat (v_power v))
    = (case find (\<lambda>v. v_pubkey v = k) vs of Some v \<Rightarrow> unat (v_power v) | None \<Rightarrow> 0)
      + (\<Sum>v \<leftarrow> filter (\<lambda>v. v_pubkey v \<in> ks) vs. unat (v_power v))"
  using assms(1)
proof (induction vs)
  case (Cons v vs)
  have none: "find (\<lambda>w. v_pubkey w = k) vs = None" if "v_pubkey v = k"
    using Cons.prems that by (auto simp: find_None_iff image_iff)
  show ?case
  proof (cases "v_pubkey v = k")
    case True
    then show ?thesis using Cons none assms(2) by simp
  next
    case False
    then show ?thesis using Cons by simp
  qed
qed simp

lemma votes_sum:
  assumes "distinct (map v_pubkey (cm_validators c))" "distinct (map kr_validator_xpk rs)"
  shows "(\<Sum>r\<leftarrow>rs. case find_validator c (kr_validator_xpk r) of Some v \<Rightarrow> unat (v_power v) | None \<Rightarrow> 0)
     = power_of_keys c (kr_validator_xpk ` set rs)"
  using assms(2)
proof (induction rs)
  case (Cons r rs)
  then show ?case
    using power_of_keys_insert [OF assms(1), of "kr_validator_xpk r" "kr_validator_xpk ` set rs"]
    by (simp add: power_of_keys_def find_validator_def)
qed (simp add: power_of_keys_def)

lemma power_of_keys_le: "power_of_keys c ks \<le> total_power_nat (cm_validators c)"
proof -
  have "(\<Sum>v \<leftarrow> filter (\<lambda>v. v_pubkey v \<in> ks) vs. unat (v_power v)) \<le> (\<Sum>v \<leftarrow> vs. unat (v_power v))" for vs
    by (induction vs) auto
  then show ?thesis by (simp add: power_of_keys_def total_power_nat_def)
qed

lemma unat_kill_power:
  assumes "distinct (map v_pubkey (cm_validators c))" "distinct (map kr_validator_xpk rs)" "total_power_nat (cm_validators c) < 2 ^ 31"
  shows "unat (kill_request_power c rs) = power_of_keys c (kr_validator_xpk ` set rs)"
  using votes_sum [OF assms(1,2)] power_of_keys_le [of c "kr_validator_xpk ` set rs"] assms(3)
  by (simp add: kill_power_of_nat unat_of_nat)

lemma kill_save_cases:
  assumes "kill_save_to_db X db h bh tid m = Inr db'"
  obtains s pk where "get_subnet_state X db (km_subnet_id m) = Some s" "km_pubkey m = Some pk"
    "pk \<notin> kr_validator_xpk ` set (get_valid_kill_requests X db (km_subnet_id m) h)"
    "db' = (let r = \<lparr> kr_validator_xpk = pk, kr_block_height = h, kr_block_hash = bh, kr_txid = tid \<rparr>;
                wtxn = add_kill_request X (km_subnet_id m) r db;
                c = latest_committee s
            in if multisig_threshold (committee_total_power c)
                   \<le> kill_request_power c (get_valid_kill_requests X db (km_subnet_id m) h @ [r]) \<and> ss_killed s = NotKilled
               then save_subnet_state X (km_subnet_id m) (mark_for_kill s) wtxn else wtxn)"
proof -
  let ?rs = "get_valid_kill_requests X db (km_subnet_id m) h"
  let ?r = "\<lambda>pk. \<lparr> kr_validator_xpk = pk, kr_block_height = h, kr_block_hash = bh, kr_txid = tid \<rparr>"
  let ?w = "\<lambda>pk. add_kill_request X (km_subnet_id m) (?r pk) db"
  from assms obtain s pk where s: "get_subnet_state X db (km_subnet_id m) = Some s" "km_pubkey m = Some pk"
    and e: "(if \<exists>r' \<in> set ?rs. kr_validator_xpk r' = pk then Inl (invalid_msg ''Validator has already submitted a kill request'')
        else if multisig_threshold (committee_total_power (latest_committee s)) \<le> kill_request_power (latest_committee s) (?rs @ [?r pk])
            \<and> ss_killed s = NotKilled
        then Inr (save_subnet_state X (km_subnet_id m) (mark_for_kill s) (?w pk)) else Inr (?w pk)) = Inr db'"
    unfolding kill_save_to_db_def Let_def by (auto simp: res_simps)
  from e have "\<not> (\<exists>r' \<in> set ?rs. kr_validator_xpk r' = pk)" by (rule contrapos_pn) simp
  with e s show thesis by (intro that [of s pk]) (auto simp: Let_def split: if_splits)
qed

lemma unique_votes_add:
  assumes "ext_ok X" "db_ok db" "unique_votes X sid h db" "h \<le> h'" "kr_block_height r = h"
    and "kr_validator_xpk r \<notin> kr_validator_xpk ` set (get_valid_kill_requests X db sid h)"
  shows "unique_votes X sid h' (add_kill_request X sid r db)"
proof -
  let ?k = "kill_request_key X sid h (kr_txid r)"
  have g: "kv_get (kill_requests_db (add_kill_request X sid r db)) k = (if k = ?k then Some r else kv_get (kill_requests_db db) k)" for k
    using assms(2,5) by (simp add: add_kill_request_def akv.get_put)
  have n: "kr_validator_xpk r' \<noteq> kr_validator_xpk r"
    if "prefix (kill_requests_prefix X sid) k" "kv_get (kill_requests_db db) k = Some r'" "valid_at h' r'" for k r'
    using assms(6) valid_requests_mem [OF assms(2), of r' X sid h] valid_at_mono [OF assms(4) that(3)] that(1,2)
    by (metis image_eqI)
  show ?thesis
    unfolding unique_votes_def g
    using n assms(3) valid_at_mono [OF assms(4)] unfolding unique_votes_def by (metis option.inject)
qed

text \<open>
  C20. A kill request marks the subnet for kill exactly when the validators with a request that is still
  valid, the new one included, hold more than two thirds of the power of the latest committee.  A
  validator counts once: its second request within the 36 blocks is refused, so that at this and every
  later height each validator has at most one valid request.
\<close>

theorem kill_vote_needs_two_thirds:
  assumes "ext_ok X" "db_ok db" "unique_votes X (km_subnet_id m) h db"
    and "kill_save_to_db X db h bh tid m = Inr db'" "km_pubkey m = Some pk"
    and "get_subnet_state X db (km_subnet_id m) = Some s" "ss_killed s = NotKilled"
    and "distinct (map v_pubkey (cm_validators (latest_committee s)))"
    and "total_power_nat (cm_validators (latest_committee s)) < 2 ^ 31"
  shows "(\<exists>s'. get_subnet_state X db' (km_subnet_id m) = Some s' \<and> ss_killed s' =
            (if 2 * total_power_nat (cm_validators (latest_committee s)) div 3 + 1
                  \<le> power_of_keys (latest_committee s)
                      (insert pk (kr_validator_xpk ` set (get_valid_kill_requests X db (km_subnet_id m) h)))
             then ToBeKilled else NotKilled))
       \<and> (\<forall>h'. h \<le> h' \<longrightarrow> unique_votes X (km_subnet_id m) h' db')"
proof -
  let ?sid = "km_subnet_id m" and ?c = "latest_committee s" and ?rs = "get_valid_kill_requests X db (km_subnet_id m) h"
  define r where "r = \<lparr> kr_validator_xpk = pk, kr_block_height = h, kr_block_hash = bh, kr_txid = tid \<rparr>"
  let ?w = "add_kill_request X ?sid r db"
  from kill_save_cases [OF assms(4)] assms(5,6) have new: "pk \<notin> kr_validator_xpk ` set ?rs"
    and db': "db' = (if multisig_threshold (committee_total_power ?c) \<le> kill_request_power ?c (?rs @ [r]) \<and> ss_killed s = NotKilled
               then save_subnet_state X ?sid (mark_for_kill s) ?w else ?w)"
    unfolding Let_def r_def by (metis option.inject)+
  have "distinct (map kr_validator_xpk (?rs @ [r]))"
    using unique_votes_distinct [OF assms(2,3)] new by (auto simp: r_def)
  from unat_kill_power [OF assms(8) this assms(9)]
  have pw: "unat (kill_request_power ?c (?rs @ [r])) = power_of_keys ?c (insert pk (kr_validator_xpk ` set ?rs))"
    by (simp add: r_def)
  have "unat (committee_total_power ?c) = total_power_nat (cm_validators ?c)"
    unfolding committee_total_power_def by (rule unat_validators_total_power) (use assms(9) in simp)
  then have th: "unat (multisig_threshold (committee_total_power ?c)) = 2 * total_power_nat (cm_validators ?c) div 3 + 1"
    using assms(9) by (simp add: unat_multisig_threshold)
  have get: "get_subnet_state X ?w ?sid = Some s" using assms(6) by (simp add: get_subnet_state_def add_kill_request_def)
  have u: "unique_votes X ?sid h' ?w" if "h \<le> h'" for h'
    by (rule unique_votes_add [OF assms(1-3) that]) (use new in \<open>simp_all add: r_def\<close>)
  have k: "kill_requests_db db' = kill_requests_db ?w" unfolding db' by (simp add: save_subnet_state_def)
  have "get_subnet_state X (save_subnet_state X ?sid (mark_for_kill s) ?w) ?sid = Some (mark_for_kill s)"
    using assms(1,2) by (simp add: get_save_subnet_state)
  then have "\<exists>s'. get_subnet_state X db' ?sid = Some s' \<and> ss_killed s' =
            (if 2 * total_power_nat (cm_validators ?c) div 3 + 1 \<le> power_of_keys ?c (insert pk (kr_validator_xpk ` set ?rs))
             then ToBeKilled else NotKilled)"
    using get assms(7) unfolding db' by (simp add: word_le_nat_alt th pw)
  moreover have "unique_votes X ?sid h' db'" if "h \<le> h'" for h'
    using u [OF that] k unfolding unique_votes_def by (simp only:)
  ultimately show ?thesis by blast
qed

theorem kill_vote_needs_two_thirds_witness:
  "\<exists>db db' s'. kill_save_to_db demo_ext db 300 [] [1] \<lparr> km_subnet_id = demo_id, km_pubkey = Some (replicate 32 1) \<rparr> = Inr db'
     \<and> get_subnet_state demo_ext db' demo_id = Some s' \<and> ss_killed s' = ToBeKilled"
proof -
  obtain db g s where db: "db_inv demo_ext db" "get_subnet_genesis_info demo_ext db demo_id = Some g" "gi_subnet_id g = demo_id"
    "get_subnet_state demo_ext db demo_id = Some s" "ss_id s = demo_id" "ss_killed s = NotKilled" "ss_waiting_committee s = None"
    "cm_validators (ss_committee s) = [boot_validator]" "kill_requests_db db = []" by (rule boot_subnet)
  have lc: "latest_committee s = ss_committee s" using db(7) by (simp add: latest_committee_def)
  have v: "get_valid_kill_requests demo_ext db demo_id 300 = []" using db(9) by (simp add: valid_requests kv_prefix_iter_def)
  let ?m = "\<lparr> km_subnet_id = demo_id, km_pubkey = Some (replicate 32 1) \<rparr>"
  obtain db' where k: "kill_save_to_db demo_ext db 300 [] [1] ?m = Inr db'"
    using db(2-5,8) v lc that
    by (cases "multisig_threshold (committee_total_power (ss_committee s)) \<le> kill_request_power (ss_committee s)
          [\<lparr> kr_validator_xpk = replicate 32 1, kr_block_height = 300, kr_block_hash = [], kr_txid = [1] \<rparr>] \<and> ss_killed s = NotKilled")
      (simp_all add: kill_save_to_db_def kill_validate_for_subnet_def committee_is_validator_def find_validator_def boot_validator_def)
  have u: "unique_votes demo_ext (km_subnet_id ?m) 300 db" using db(9) by (simp add: unique_votes_def kv_get_def)
  from kill_vote_needs_two_thirds [OF demo_ext_ok db_inv_ok [OF db(1)] u k, of "replicate 32 1" s] db lc v k
  show ?thesis by (auto simp: power_of_keys_def total_power_nat_def boot_validator_def)
qed

end
