(* ===== verification/Ledger.thy ===== *)
theory Ledger
  imports Batch
begin

text \<open>
  The token ledger as an abstract machine: an account is a token, given by its home subnet and address,
  and a holder; a ledger is a function from accounts to balances.  A batch acts on it by registrations,
  mints, burns and transfers, in this order, or fails.  The tables of the database refine it.
\<close>

type_synonym account = "subnet_id \<times> eth_address \<times> subnet_id"
type_synonym ledger = "account \<Rightarrow> u256"

definition lg_register :: "subnet_id \<Rightarrow> ipc_erc_token_registration \<Rightarrow> ledger \<Rightarrow> ledger" where
  "lg_register src e L = L((src, er_home_token_address e, src) := er_initial_supply e)"

definition lg_mint :: "subnet_id \<Rightarrow> ipc_erc_supply_adjustment \<Rightarrow> ledger \<Rightarrow> ledger" where
  "lg_mint src e L = (let k = (src, ea_home_token_address e, src) in L(k := word_saturating_add (L k) (i256_abs (ea_delta e))))"

definition lg_burn :: "subnet_id \<Rightarrow> ledger \<Rightarrow> ipc_erc_supply_adjustment \<Rightarrow> unit + ledger" where
  "lg_burn src L e = (let k = (src, ea_home_token_address e, src) in
     if L k < i256_abs (ea_delta e) then Inl () else Inr (L(k := L k - i256_abs (ea_delta e))))"

definition lg_transfer :: "subnet_id \<Rightarrow> ledger \<Rightarrow> ipc_cross_subnet_erc_transfer \<Rightarrow> unit + ledger" where
  "lg_transfer src L e =
     (let payer = (et_home_subnet_id e, et_home_token_address e, src);
          payee = (et_home_subnet_id e, et_home_token_address e, et_destination_subnet_id e);
          L1 = L(payer := L payer - et_amount e)
      in if et_amount e = 0 then Inr L else if L payer < et_amount e then Inl ()
         else Inr (L1(payee := word_saturating_add (L1 payee) (et_amount e))))"

definition lg_batch :: "ipc_batch_transfer_msg \<Rightarrow> ledger \<Rightarrow> unit + ledger" where
  "lg_batch m L =
     (let src = bt_subnet_id m;
          L1 = fold (lg_register src) (bt_token_registrations m) L;
          L2 = fold (lg_mint src) (filter (\<lambda>e. \<not> i256_is_negative (ea_delta e)) (bt_token_supply_adjustments m)) L1
      in res_bind (res_fold (lg_burn src) L2 (filter (\<lambda>e. i256_is_negative (ea_delta e)) (bt_token_supply_adjustments m)))
           (\<lambda>L3. res_fold (lg_transfer src) L3 (bt_token_transfers m)))"

section \<open>Simulation\<close>

text \<open>Steps that cannot fail, and fallible steps, that refine an abstract step.\<close>

definition simulates :: "ext \<Rightarrow> (ipc_lib_error + heed_db) \<Rightarrow> (unit + ledger) \<Rightarrow> bool" where
  "simulates X r a \<longleftrightarrow> (case r of Inl _ \<Rightarrow> a = Inl () | Inr db \<Rightarrow> db_ok db \<and> a = Inr (bal X db))"

lemma simulates_fold:
  assumes "\<And>db e. db_ok db \<Longrightarrow> simulates X (f db e) (g (bal X db) e)" "db_ok db"
  shows "simulates X (res_fold f db es) (res_fold g (bal X db) es)"
  using assms(2)
proof (induction es arbitrary: db)
  case (Cons e es)
  from assms(1) [OF Cons.prems, of e] Cons.IH show ?case
    by (cases "f db e") (auto simp: simulates_def split: sum.splits)
qed (simp add: simulates_def)

lemma fold_simulates:
  assumes "\<And>db e. db_ok db \<Longrightarrow> db_ok (f e db) \<and> bal X (f e db) = g e (bal X db)" "db_ok db"
  shows "db_ok (fold f es db) \<and> bal X (fold f es db) = fold g es (bal X db)"
  using assms(2)
proof (induction es arbitrary: db)
  case (Cons e es)
  with assms(1) [OF Cons.prems, of e] show ?case by simp
qed simp

lemma register_simulates:
  assumes "ext_ok X" "db_ok db"
  shows "db_ok (batch_register X src subs h bh tid e db) \<and> bal X (batch_register X src subs h bh tid e db) = lg_register src e (bal X db)"
  using batch_register_bal [OF assms] by (auto simp: lg_register_def fun_eq_iff)

lemma mint_simulates:
  assumes "ext_ok X" "db_ok db"
  shows "db_ok (batch_mint X src e db) \<and> bal X (batch_mint X src e db) = lg_mint src e (bal X db)"
  using batch_mint_bal [OF assms] by (auto simp: lg_mint_def fun_eq_iff Let_def)

lemma burn_simulates:
  assumes "ext_ok X" "db_ok db"
  shows "simulates X (batch_burn X src db e) (lg_burn src (bal X db) e)"
proof (cases "batch_burn X src db e")
  case (Inl err)
  then have "\<not> i256_abs (ea_delta e) \<le> bal X db (src, ea_home_token_address e, src)"
    using batch_burn_Inr [OF assms, of src e] by (metis Inl_Inr_False)
  with Inl show ?thesis by (simp add: simulates_def lg_burn_def Let_def)
next
  case (Inr db')
  with batch_burn_Inr [OF assms, of src e db'] erc.ok_set [of X db] erc.get_set [of X db] assms show ?thesis
    by (auto simp: simulates_def lg_burn_def Let_def fun_eq_iff not_le [symmetric])
qed

lemma transfer_simulates:
  assumes "ext_ok X" "db_ok db"
  shows "simulates X (batch_erc_transfer X src h bh tid db e) (lg_transfer src (bal X db) e)"
proof (cases "et_amount e = 0")
  case True
  then show ?thesis using assms(2) by (simp add: simulates_def lg_transfer_def batch_erc_transfer_def)
next
  case False
  let ?payer = "(et_home_subnet_id e, et_home_token_address e, src)"
  show ?thesis
  proof (cases "batch_erc_transfer X src h bh tid db e")
    case (Inl err)
    then have "\<not> et_amount e \<le> bal X db ?payer"
      using batch_erc_transfer_Inr [OF False, of X src h bh tid db] by (metis Inl_Inr_False)
    with Inl False show ?thesis by (simp add: simulates_def lg_transfer_def Let_def)
  next
    case (Inr db')
    with batch_erc_transfer_Inr [OF False, of X src h bh tid db db']
    have "et_amount e \<le> bal X db ?payer" "bal X db' = bal X (erc_moved X src e db)" "db_ok db'"
      using erc_moved_bal(2) [OF assms, of src e] by auto
    with Inr False erc_moved_bal(3,4) [OF assms, of src e] show ?thesis
      by (auto simp: simulates_def lg_transfer_def fun_eq_iff Let_def not_le [symmetric])
  qed
qed

lemma apply_simulates:
  assumes "ext_ok X" "db_ok txn"
  shows "simulates X (batch_apply X db h bh tid m txn) (lg_batch m (bal X txn))"
proof -
  let ?src = "bt_subnet_id m" and ?adj = "bt_token_supply_adjustments m"
  let ?t1 = "fold (batch_fund X h bh tid) (bt_transfers m) txn"
  let ?t2 = "fold (batch_register X ?src (get_all_subnets db) h bh tid) (bt_token_registrations m) ?t1"
  let ?t3 = "fold (batch_mint X ?src) (filter (\<lambda>e. \<not> i256_is_negative (ea_delta e)) ?adj) ?t2"
  have t1: "db_ok ?t1" "bal X ?t1 = bal X txn" using batch_funds_frame [OF assms(2)] by auto
  have t2: "db_ok ?t2 \<and> bal X ?t2 = fold (lg_register ?src) (bt_token_registrations m) (bal X ?t1)"
    using register_simulates [OF assms(1)] t1(1) by (rule fold_simulates)
  have t3: "db_ok ?t3 \<and> bal X ?t3 = fold (lg_mint ?src) (filter (\<lambda>e. \<not> i256_is_negative (ea_delta e)) ?adj) (bal X ?t2)"
    using mint_simulates [OF assms(1)] conjunct1 [OF t2] by (rule fold_simulates)
  have burns: "simulates X (res_fold (batch_burn X ?src) ?t3 es) (res_fold (lg_burn ?src) (bal X ?t3) es)" for es
    using burn_simulates [OF assms(1)] conjunct1 [OF t3] by (rule simulates_fold)
  have transfers: "db_ok t \<Longrightarrow> simulates X (res_fold (batch_erc_transfer X ?src h bh tid) t es) (res_fold (lg_transfer ?src) (bal X t) es)" for t es
    using transfer_simulates [OF assms(1)] by (rule simulates_fold)
  let ?neg = "filter (\<lambda>e. i256_is_negative (ea_delta e)) ?adj"
  have "batch_apply X db h bh tid m txn = res_bind (res_fold (batch_burn X ?src) ?t3 ?neg)
      (\<lambda>t. res_fold (batch_erc_transfer X ?src h bh tid) t (bt_token_transfers m))"
    by (simp add: batch_apply_def Let_def)
  moreover have "lg_batch m (bal X txn) = res_bind (res_fold (lg_burn ?src) (bal X ?t3) ?neg)
      (\<lambda>L. res_fold (lg_transfer ?src) L (bt_token_transfers m))"
    using t1 t2 t3 by (simp add: lg_batch_def Let_def)
  ultimately show ?thesis
    using burns [of ?neg] transfers by (cases "res_fold (batch_burn X ?src) ?t3 ?neg") (auto simp: simulates_def)
qed

text \<open>
  C4. The database refines the abstract ledger: saving a batch changes the balances of all tokens on all
  subnets exactly as the abstract batch does, which then does not fail; and a batch that passes the
  validation is one that the abstract ledger accepts, with no account below zero on the way.
\<close>

theorem batch_refines_ledger:
  assumes "ext_ok X" "db_ok db"
  shows "(\<forall>db' cp. batch_save_to_db X db h bh tid m = Inr (db', cp) \<longrightarrow> lg_batch m (bal X db) = Inr (bal X db'))
     \<and> (validate_erc_batch_data X (bt_subnet_id m) (bt_token_registrations m) (bt_token_supply_adjustments m)
          (bt_token_transfers m) db = Inr () \<longrightarrow> (\<exists>L. lg_batch m (bal X db) = Inr L))"
proof (intro conjI allI impI)
  fix db' cp assume "batch_save_to_db X db h bh tid m = Inr (db', cp)"
  then obtain cp' n where "batch_apply X db h bh tid m (save_checkpoint X (bt_subnet_id m) cp' n db) = Inr db'"
    by (elim batch_save_Inr) blast
  with apply_simulates [OF assms(1), of "save_checkpoint X (bt_subnet_id m) cp' n db" db h bh tid m] assms(2)
  show "lg_batch m (bal X db) = Inr (bal X db')" by (simp add: simulates_def)
next
  assume "validate_erc_batch_data X (bt_subnet_id m) (bt_token_registrations m) (bt_token_supply_adjustments m)
          (bt_token_transfers m) db = Inr ()"
  then obtain txn' where "batch_apply X db h bh tid m db = Inr txn'"
    using batch_apply_covered [OF assms, of db m h bh tid] by auto
  with apply_simulates [OF assms, of db h bh tid m] show "\<exists>L. lg_batch m (bal X db) = Inr L"
    by (simp add: simulates_def)
qed

theorem batch_refines_ledger_witness:
  "\<exists>db' cp. batch_save_to_db demo_ext demo_db 7 [] [6] demo_batch = Inr (db', cp)
     \<and> lg_batch demo_batch (bal demo_ext demo_db) = Inr (bal demo_ext db')"
  using validated_batch_is_applied_aux batch_refines_ledger [OF demo_ext_ok demo_db_facts(1), of 7 "[]" "[6]" demo_batch]
  by blast

end
