(* ===== verification/Codec.thy ===== *)
theory Codec
  imports Base
begin

text \<open>
  Byte formats: the compact encoding of 256-bit amounts (\<open>compact_amount\<close> of \<open>src/src/ipc_lib.rs\<close>)
  and the two ways in which data enters a script (\<open>make_push_data_script\<close>, \<open>make_op_return_script\<close>
  and \<open>concatenate_op_push_data\<close> of \<open>src/src/bitcoin_utils.rs\<close>).  Parsing a script is
  the crate's; \<open>script_codec_ok\<close> says what the code relies on, and \<open>wire_ext\<close> has it.
\<close>

unbundle bit_operations_syntax

section \<open>Compact amounts\<close>

definition encode_magnitude :: "u256 \<Rightarrow> bytes" where
  "encode_magnitude mag =
     (let bs = be_bytes 32 (unat mag); payload = dropWhile (\<lambda>b. b = 0) bs
      in of_nat (length payload) # payload)"

definition decode_magnitude :: "bytes \<Rightarrow> string + u256" where
  "decode_magnitude v =
     (case v of [] \<Rightarrow> Inl ''empty compact amount''
      | hd_byte # rest \<Rightarrow>
          let n = unat (hd_byte AND 0x7F) in
          if 32 < n then Inl ''compact amount length > 32''
          else if length v \<noteq> 1 + n then Inl ''compact amount length mismatch''
          else Inr (of_nat (be_value (replicate (32 - n) 0 @ rest))))"

text \<open>
  The binary formats; the human-readable branch of the serializers, which JSON uses, is not modelled.
\<close>

definition u256_serialize :: "u256 \<Rightarrow> bytes" where
  "u256_serialize v = encode_magnitude v"

definition u256_deserialize :: "bytes \<Rightarrow> string + u256" where
  "u256_deserialize v = decode_magnitude v"

text \<open>A 256-bit two's-complement value from its sign and magnitude; \<open>None\<close> when it does not fit.\<close>

definition i256_checked_from_sign_and_abs :: "bool \<Rightarrow> u256 \<Rightarrow> 256 word option" where
  "i256_checked_from_sign_and_abs negative mag =
     (let v = (if negative then - mag else mag) in
      if v \<noteq> 0 \<and> (sint v < 0) \<noteq> negative then None else Some v)"

definition i256_serialize :: "256 word \<Rightarrow> bytes" where
  "i256_serialize v =
     (let mag = (if sint v < 0 then - v else v); buf = encode_magnitude mag
      in if sint v < 0 then (hd buf OR 0x80) # tl buf else buf)"

definition i256_deserialize :: "bytes \<Rightarrow> string + 256 word" where
  "i256_deserialize v =
     (if v = [] then Inl ''empty compact I256''
      else
        let negative = (hd v AND 0x80) \<noteq> 0 in
        res_bind (decode_magnitude v) (\<lambda>mag.
          ok_or (i256_checked_from_sign_and_abs negative mag) ''I256 overflow (negative zero)''))"

lemma le_value_zeros: "le_value (replicate n 0) = 0"
  by (induction n) simp_all

lemma be_value_strip: "be_value (replicate n 0 @ bs) = be_value bs"
  by (simp add: be_value_def le_value_append le_value_zeros)

lemma be_value_dropWhile: "be_value (dropWhile (\<lambda>b. b = 0) bs) = be_value bs"
proof -
  have "takeWhile (\<lambda>b. b = 0) bs = replicate (length (takeWhile (\<lambda>b. b = 0) bs)) 0"
    by (rule replicate_length_same [symmetric]) (blast dest: set_takeWhileD)
  then have "bs = replicate (length (takeWhile (\<lambda>b. b = 0) bs)) 0 @ dropWhile (\<lambda>b. b = 0) bs"
    by (metis takeWhile_dropWhile_id)
  then show ?thesis by (metis be_value_strip)
qed

lemma header_bits:
  assumes "n \<le> 32"
  shows "unat ((of_nat n :: u8) AND 0x7F) = n" "(of_nat n :: u8) AND 0x80 = 0"
    "unat (((of_nat n :: u8) OR 0x80) AND 0x7F) = n" "((of_nat n :: u8) OR 0x80) AND 0x80 \<noteq> 0"
proof -
  have "n \<in> {0..32}" using assms by simp
  then have "n \<in> set [0..<33]" by auto
  moreover have "\<forall>n \<in> set [0..<33]. unat ((of_nat n :: u8) AND 0x7F) = n \<and> (of_nat n :: u8) AND 0x80 = 0
      \<and> unat (((of_nat n :: u8) OR 0x80) AND 0x7F) = n \<and> ((of_nat n :: u8) OR 0x80) AND 0x80 \<noteq> 0"
    by code_simp
  ultimately show "unat ((of_nat n :: u8) AND 0x7F) = n" "(of_nat n :: u8) AND 0x80 = 0"
    "unat (((of_nat n :: u8) OR 0x80) AND 0x7F) = n" "((of_nat n :: u8) OR 0x80) AND 0x80 \<noteq> 0"
    by blast+
qed

lemma encode_magnitude_form:
  obtains payload where "encode_magnitude v = of_nat (length payload) # payload" "length payload \<le> 32"
    "be_value payload = unat v"
proof
  let ?p = "dropWhile (\<lambda>b. b = 0) (be_bytes 32 (unat v))"
  show "encode_magnitude v = of_nat (length ?p) # ?p" by (simp add: encode_magnitude_def Let_def)
  show "length ?p \<le> 32" using length_dropWhile_le [of "\<lambda>b. b = 0" "be_bytes 32 (unat v)"] by simp
  have "unat v < 256 ^ 32" using unsigned_less [of v, where ?'a = nat] by simp
  then show "be_value ?p = unat v" by (simp add: be_value_dropWhile be_value_be_bytes)
qed

lemma decode_encode_header:
  assumes "length p \<le> 32" "unat (b AND 0x7F) = length p"
  shows "decode_magnitude (b # p) = Inr (of_nat (be_value p))"
  using assms by (simp add: decode_magnitude_def Let_def be_value_strip)

section \<open>Data in scripts\<close>

fun push_chunks :: "nat \<Rightarrow> bytes \<Rightarrow> script" where
  "push_chunks 0 data = []"
| "push_chunks (Suc fuel) data =
     (if data = [] then []
      else PushSlice (take 520 data) # PushOpcode OP_DROP # push_chunks fuel (drop 520 data))"

definition make_push_data_script :: "bytes \<Rightarrow> script" where
  "make_push_data_script data = push_chunks (length data) data @ [PushOpcode OP_TRUE]"

definition make_op_return_script :: "bytes \<Rightarrow> script" where
  "make_op_return_script data = [PushOpcode OP_RETURN, PushSlice data]"

fun concat_instructions :: "instruction option list \<Rightarrow> bytes \<Rightarrow> bitcoin_utils_error + bytes" where
  "concat_instructions [] acc = Inr acc"
| "concat_instructions (Some (PushBytes d) # is) acc = concat_instructions is (acc @ d)"
| "concat_instructions (Some (Op oc) # is) acc =
     (if oc = OP_DROP \<or> oc = OP_TRUE then concat_instructions is acc else Inl UnsuportedOpCode)"
| "concat_instructions (None # is) acc = Inl ErrorParsingWitnessScript"

definition concatenate_op_push_data :: "ext \<Rightarrow> bytes \<Rightarrow> bitcoin_utils_error + bytes" where
  "concatenate_op_push_data X w = concat_instructions (instructions X (script_from_bytes X w)) []"

definition op_return_data :: "ext \<Rightarrow> script \<Rightarrow> bytes option" where
  "op_return_data X s =
     List.find (\<lambda>_. True)
       (concat (map (\<lambda>i. case i of Some (PushBytes d) \<Rightarrow> [d] | _ \<Rightarrow> []) (instructions_minimal X s)))"

definition create_tx_from_txouts :: "tx_out list \<Rightarrow> transaction" where
  "create_tx_from_txouts txouts = \<lparr> lock_time = 0, inputs = [], outputs = txouts \<rparr>"

text \<open>Parsing what the builder wrote: pushes of at most 520 bytes and opcodes above the push opcodes.\<close>

fun plain_elem :: "script_elem \<Rightarrow> bool" where
  "plain_elem (PushSlice d) \<longleftrightarrow> length d \<le> 520"
| "plain_elem (PushOpcode b) \<longleftrightarrow> 78 < b"
| "plain_elem e \<longleftrightarrow> False"

fun elem_instruction :: "script_elem \<Rightarrow> instruction" where
  "elem_instruction (PushSlice d) = PushBytes d"
| "elem_instruction (PushOpcode b) = Op b"
| "elem_instruction e = Op 0"

definition script_codec_ok :: "ext \<Rightarrow> bool" where
  "script_codec_ok X \<longleftrightarrow> (\<forall>s. list_all plain_elem s \<longrightarrow>
     instructions X (script_from_bytes X (script_to_bytes X s)) = map (Some \<circ> elem_instruction) s)"

lemma push_chunks_plain: "list_all plain_elem (push_chunks fuel data)"
  by (induction fuel data rule: push_chunks.induct) (simp_all add: OP_DROP_def)

lemma concat_push_chunks:
  "length data \<le> fuel \<Longrightarrow>
   concat_instructions (map (Some \<circ> elem_instruction) (push_chunks fuel data) @ is) acc
     = concat_instructions is (acc @ data)"
proof (induction fuel data arbitrary: acc rule: push_chunks.induct)
  case (1 data)
  then show ?case by simp
next
  case (2 fuel data)
  then show ?case by (cases "data = []") simp_all
qed

lemma concatenate_push_data:
  assumes "script_codec_ok X"
  shows "concatenate_op_push_data X (script_to_bytes X (make_push_data_script data)) = Inr data"
proof -
  have "list_all plain_elem (make_push_data_script data)"
    by (simp add: make_push_data_script_def push_chunks_plain OP_TRUE_def)
  then have "instructions X (script_from_bytes X (script_to_bytes X (make_push_data_script data)))
      = map (Some \<circ> elem_instruction) (make_push_data_script data)"
    using assms unfolding script_codec_ok_def by blast
  then show ?thesis
    by (simp add: concatenate_op_push_data_def make_push_data_script_def concat_push_chunks)
qed

lemma op_return_data_make:
  "ext_ok X \<Longrightarrow> 2 \<le> length d \<Longrightarrow> op_return_data X (make_op_return_script d) = Some d"
  by (simp add: op_return_data_def make_op_return_script_def op_return_instructions)

section \<open>An instance with the byte format of scripts\<close>

fun elem_bytes :: "script_elem \<Rightarrow> bytes" where
  "elem_bytes (PushOpcode b) = [b]"
| "elem_bytes (PushSlice d) =
     (if length d < 76 then of_nat (length d) # d
      else if length d < 256 then 76 # of_nat (length d) # d
      else 77 # le_bytes 2 (length d) @ d)"
| "elem_bytes (PushInt i) = [of_nat (80 + nat i)]"
| "elem_bytes (PushXOnlyKey k) = 32 # k"
| "elem_bytes (RawBytes d) = d"

definition parse_push :: "(bytes \<Rightarrow> instruction option list) \<Rightarrow> nat \<Rightarrow> bytes \<Rightarrow> instruction option list" where
  "parse_push k n bs = (if length bs < n then [None] else Some (PushBytes (take n bs)) # k (drop n bs))"

fun parse_script :: "nat \<Rightarrow> bytes \<Rightarrow> instruction option list" where
  "parse_script 0 bs = []"
| "parse_script (Suc f) bs =
     (case bs of [] \<Rightarrow> []
      | b # r \<Rightarrow>
          if b < 76 then parse_push (parse_script f) (unat b) r
          else if b = 76 then (case r of [] \<Rightarrow> [None] | n # r' \<Rightarrow> parse_push (parse_script f) (unat n) r')
          else if b = 77 then (if length r < 2 then [None]
                               else parse_push (parse_script f) (le_value (take 2 r)) (drop 2 r))
          else if b = 78 then [None]
          else Some (Op b) # parse_script f r)"

definition script_bytes :: "script \<Rightarrow> bytes" where
  "script_bytes s = concat (map elem_bytes s)"

definition wire_ext :: ext where
  "wire_ext = demo_ext\<lparr> instructions := (\<lambda>s. parse_script (length (script_bytes s)) (script_bytes s)),
     instructions_minimal := (\<lambda>s. parse_script (length (script_bytes s)) (script_bytes s)),
     script_to_bytes := script_bytes, script_from_bytes := (\<lambda>b. [RawBytes b]) \<rparr>"

lemma parse_elem:
  assumes "plain_elem e"
  shows "parse_script (Suc f) (elem_bytes e @ bs) = Some (elem_instruction e) # parse_script f bs"
proof (cases e)
  case (PushOpcode b)
  with assms show ?thesis by (auto simp: word_less_nat_alt)
next
  case (PushSlice d)
  with assms have le: "length d \<le> 520" by simp
  consider "length d < 76" | "76 \<le> length d" "length d < 256" | "256 \<le> length d" by linarith
  then show ?thesis
  proof cases
    case 1
    then have "unat (of_nat (length d) :: u8) = length d" by (simp add: unat_of_nat)
    moreover from this have "(of_nat (length d) :: u8) < 76" using 1 by (simp add: word_less_nat_alt)
    ultimately show ?thesis using PushSlice 1 by (simp add: parse_push_def)
  next
    case 2
    then have "unat (of_nat (length d) :: u8) = length d" by (simp add: unat_of_nat)
    then show ?thesis using PushSlice 2 by (simp add: parse_push_def)
  next
    case 3
    have "le_value (le_bytes 2 (length d)) = length d" using le by (simp add: le_value_le_bytes)
    then show ?thesis using PushSlice 3 by (simp add: parse_push_def)
  qed
qed (use assms in simp_all)

lemma parse_script_bytes:
  "list_all plain_elem s \<Longrightarrow> length s \<le> f \<Longrightarrow> parse_script f (script_bytes s) = map (Some \<circ> elem_instruction) s"
proof (induction s arbitrary: f)
  case Nil
  then show ?case by (cases f) (simp_all add: script_bytes_def)
next
  case (Cons e s)
  then obtain g where f: "f = Suc g" "length s \<le> g" by (cases f) auto
  have "script_bytes (e # s) = elem_bytes e @ script_bytes s" by (simp add: script_bytes_def)
  then show ?case using f Cons parse_elem [of e g "script_bytes s"] by simp
qed

lemma plain_elem_bytes_nonempty: "plain_elem e \<Longrightarrow> 1 \<le> length (elem_bytes e)"
  by (cases e) auto

lemma length_script_bytes: "list_all plain_elem s \<Longrightarrow> length s \<le> length (script_bytes s)"
proof (induction s)
  case (Cons e s)
  then show ?case using plain_elem_bytes_nonempty [of e] by (simp add: script_bytes_def)
qed (simp add: script_bytes_def)

lemma wire_ext_codec: "script_codec_ok wire_ext"
proof -
  have "script_bytes [RawBytes b] = b" for b by (simp add: script_bytes_def)
  then show ?thesis
    by (simp add: script_codec_ok_def wire_ext_def parse_script_bytes length_script_bytes)
qed

lemma wire_ext_op_return:
  "instructions_minimal wire_ext [PushOpcode OP_RETURN, PushSlice d] = [Some (Op OP_RETURN), Some (PushBytes d)]"
  if "length d \<le> 520"
  using that parse_script_bytes [of "[PushOpcode OP_RETURN, PushSlice d]"] length_script_bytes [of "[PushOpcode OP_RETURN, PushSlice d]"]
  by (simp add: wire_ext_def OP_RETURN_def)

section \<open>Properties\<close>

text \<open>
  C10. Compact amounts read back as they were written: every 256-bit unsigned amount and every signed
  delta, the smallest one included, survives its encoding, which takes at most 33 bytes.
\<close>

theorem compact_amount_roundtrip:
  "u256_deserialize (u256_serialize v) = Inr v \<and> i256_deserialize (i256_serialize d) = Inr d
   \<and> length (u256_serialize v) \<le> 33 \<and> length (i256_serialize d) \<le> 33"
proof -
  obtain p where p: "encode_magnitude v = of_nat (length p) # p" "length p \<le> 32" "be_value p = unat v"
    by (rule encode_magnitude_form)
  have u: "u256_deserialize (u256_serialize v) = Inr v"
    using p decode_encode_header [OF p(2) header_bits(1) [OF p(2)]]
    by (simp add: u256_deserialize_def u256_serialize_def)
  let ?m = "if sint d < 0 then - d else d"
  obtain q where q: "encode_magnitude ?m = of_nat (length q) # q" "length q \<le> 32" "be_value q = unat ?m"
    by (rule encode_magnitude_form)
  have "i256_deserialize (i256_serialize d) = Inr d"
  proof (cases "sint d < 0")
    case True
    then have "d \<noteq> 0" by auto
    then show ?thesis
      using True q header_bits [OF q(2)] decode_encode_header [OF q(2), of "of_nat (length q) OR 0x80"]
      by (simp add: i256_deserialize_def i256_serialize_def i256_checked_from_sign_and_abs_def Let_def)
  next
    case False
    then show ?thesis
      using q header_bits [OF q(2)] decode_encode_header [OF q(2), of "of_nat (length q)"]
      by (simp add: i256_deserialize_def i256_serialize_def i256_checked_from_sign_and_abs_def Let_def)
  qed
  with u p q show ?thesis by (auto simp: u256_serialize_def i256_serialize_def Let_def)
qed

text \<open>
  The decoder is not strict: a negative zero is accepted as zero, although the error text speaks of
  it, and the sign bit of an unsigned amount is ignored, so one amount has several encodings.
\<close>

theorem compact_amount_lenient:
  "i256_deserialize [0x80] = Inr 0 \<and> i256_deserialize [0] = Inr 0
   \<and> u256_deserialize [0x81, 5] = Inr 5 \<and> u256_deserialize [1, 5] = Inr 5 \<and> u256_deserialize [2, 0, 5] = Inr 5"
  by (simp add: i256_deserialize_def u256_deserialize_def decode_magnitude_def Let_def
      i256_checked_from_sign_and_abs_def be_value_strip) (simp add: be_value_def le_value_zeros)

text \<open>
  Data pushed into a commit script in chunks of 520 bytes is what \<open>concatenate_op_push_data\<close> reads
  from the revealed script, whatever its length, and no push is longer than the 520 bytes a script
  element may have.
\<close>

theorem push_data_roundtrip:
  assumes "script_codec_ok X"
  shows "concatenate_op_push_data X (script_to_bytes X (make_push_data_script data)) = Inr data
       \<and> list_all plain_elem (make_push_data_script data)"
  using concatenate_push_data [OF assms]
  by (simp add: make_push_data_script_def push_chunks_plain OP_TRUE_def)

theorem push_data_roundtrip_witness:
  "concatenate_op_push_data wire_ext (script_to_bytes wire_ext (make_push_data_script (replicate 1300 7)))
     = Inr (replicate 1300 7)"
  using push_data_roundtrip [OF wire_ext_codec] by blast

end
