(* ===== verification/Wire.thy ===== *)
theory Wire
  imports Checkpoint Codec
begin

text \<open>
  Messages in transactions (\<open>src/src/ipc_lib.rs\<close>): the OP\_RETURN payload of each message, the
  transaction that carries it and the parser that reads it back; the checkpoint metadata; the batch
  transfer data in a witness; and the messages read from a witness.  The serializer of the witness
  data is a third-party crate: the record \<open>codec\<close> holds it, and \<open>codec_ok\<close> says what is relied on.
\<close>

section \<open>OP\_RETURN payloads\<close>

abbreviation parse_err :: "ipc_tag \<Rightarrow> string \<Rightarrow> ipc_lib_error" where
  "parse_err t s \<equiv> MsgParseError (ipc_tag_as_str t) s"

definition expect_txid20 :: "subnet_id \<Rightarrow> ipc_lib_error + bytes" where
  "expect_txid20 sid = ok_or (subnet_id_txid20 sid) (Panic ''SubnetId without a delegated address'')"

definition data_tx_out :: "ext \<Rightarrow> u64 \<Rightarrow> bytes \<Rightarrow> tx_out" where
  "data_tx_out X fee_rate payload =
     (let script = make_op_return_script payload
      in \<lparr> txo_value = minimal_non_dust_custom X fee_rate script, txo_script = script \<rparr>)"

definition message_payload :: "ext \<Rightarrow> ipc_tag \<Rightarrow> nat \<Rightarrow> nat \<Rightarrow> transaction \<Rightarrow> ipc_lib_error + bytes" where
  "message_payload X t min_outputs data_len tx =
     (if length (outputs tx) < min_outputs then Inl (parse_err t ''not enough outputs'')
      else
      res_bind (ok_or (op_return_data X (txo_script (hd (outputs tx))))
                 (parse_err t ''First output must be OP_RETURN with pushdata'')) (\<lambda>d.
      if length d \<noteq> data_len then Inl (parse_err t ''OP_RETURN data length mismatch'')
      else if take IPC_TAG_LENGTH d \<noteq> tag_bytes t then Inl (parse_err t ''Invalid tag'')
      else Inr (drop IPC_TAG_LENGTH d)))"

section \<open>Prefund and fund\<close>

definition OP_CSV :: u8 where "OP_CSV = 0xb2"

definition create_send_with_timelock_release_tx_script ::
  "ext \<Rightarrow> btc_address \<Rightarrow> btc_address \<Rightarrow> u32 \<Rightarrow> bitcoin_utils_error + script" where
  "create_send_with_timelock_release_tx_script X receive_address release_address release_blocks =
     (let send_script = address_script X receive_address;
          release_timelock_script = [PushInt (uint release_blocks), PushOpcode OP_CSV, PushOpcode OP_DROP];
          release_script = script_from_bytes X (script_to_bytes X release_timelock_script
             @ script_to_bytes X (address_script X release_address))
      in case p2tr_of_leaves X [(1, send_script), (1, release_script)] of
           None \<Rightarrow> Inl UtilsTaprootBuilderNotFinalizable
         | Some a \<Rightarrow> Inr (address_script X a))"

definition RELEASE_LOCKTIME :: u32 where "RELEASE_LOCKTIME = 6"

definition prefund_to_tx ::
  "ext \<Rightarrow> u64 \<Rightarrow> btc_address \<Rightarrow> btc_address \<Rightarrow> ipc_prefund_subnet_msg \<Rightarrow> ipc_lib_error + transaction" where
  "prefund_to_tx X fee_rate multisig_address release_address m =
     res_bind (expect_txid20 (pf_subnet_id m)) (\<lambda>t.
     res_bind (res_map_err BitcoinUtilsError
       (create_send_with_timelock_release_tx_script X multisig_address release_address RELEASE_LOCKTIME)) (\<lambda>s.
     Inr (create_tx_from_txouts
       [data_tx_out X fee_rate (tag_bytes PrefundSubnetTag @ t @ pf_address m),
        \<lparr> txo_value = pf_amount m, txo_script = s \<rparr>])))"

definition prefund_from_tx :: "ext \<Rightarrow> transaction \<Rightarrow> ipc_lib_error + ipc_prefund_subnet_msg" where
  "prefund_from_tx X tx =
     res_bind (message_payload X PrefundSubnetTag 2 46 tx) (\<lambda>rest.
     res_bind (res_map_err (parse_err PrefundSubnetTag) (txid20_from_slice (take SUBNET_ID_INNER_LEN rest))) (\<lambda>t.
     Inr \<lparr> pf_subnet_id = subnet_id_from_txid20 t, pf_amount = txo_value (outputs tx ! 1),
           pf_address = drop SUBNET_ID_INNER_LEN rest \<rparr>))"

definition fund_to_tx ::
  "ext \<Rightarrow> u64 \<Rightarrow> btc_address \<Rightarrow> ipc_fund_subnet_msg \<Rightarrow> ipc_lib_error + transaction" where
  "fund_to_tx X fee_rate multisig_address m =
     res_bind (expect_txid20 (fm_subnet_id m)) (\<lambda>t.
     Inr (create_tx_from_txouts
       [data_tx_out X fee_rate (tag_bytes FundSubnetTag @ t @ fm_address m),
        \<lparr> txo_value = fm_amount m, txo_script = address_script X multisig_address \<rparr>]))"

definition fund_from_tx :: "ext \<Rightarrow> transaction \<Rightarrow> ipc_lib_error + ipc_fund_subnet_msg" where
  "fund_from_tx X tx =
     res_bind (message_payload X FundSubnetTag 2 46 tx) (\<lambda>rest.
     res_bind (res_map_err (parse_err FundSubnetTag) (txid20_from_slice (take SUBNET_ID_INNER_LEN rest))) (\<lambda>t.
     Inr \<lparr> fm_subnet_id = subnet_id_from_txid20 t, fm_amount = txo_value (outputs tx ! 1),
           fm_address = drop SUBNET_ID_INNER_LEN rest \<rparr>))"

section \<open>Stake, unstake and kill\<close>

definition stake_to_tx ::
  "ext \<Rightarrow> u64 \<Rightarrow> btc_address \<Rightarrow> ipc_stake_collateral_msg \<Rightarrow> ipc_lib_error + transaction" where
  "stake_to_tx X fee_rate multisig_address m =
     Inr (create_tx_from_txouts
       [data_tx_out X fee_rate (tag_bytes StakeCollateralTag @ sm_pubkey m),
        \<lparr> txo_value = sm_amount m, txo_script = address_script X multisig_address \<rparr>])"

definition subnet_of_output ::
  "ext \<Rightarrow> heed_db \<Rightarrow> ipc_tag \<Rightarrow> tx_out \<Rightarrow> ipc_lib_error + subnet_state" where
  "subnet_of_output X db t out =
     res_bind (ok_or (address_from_script X (txo_script out))
                (parse_err t ''Could not parse address from output 1'')) (\<lambda>a.
       ok_or (get_subnet_by_multisig_address db a)
         (parse_err t ''Could not find subnet with multisig address''))"

definition stake_from_tx :: "ext \<Rightarrow> heed_db \<Rightarrow> transaction \<Rightarrow> ipc_lib_error + ipc_stake_collateral_msg" where
  "stake_from_tx X db tx =
     res_bind (message_payload X StakeCollateralTag 2 (IPC_TAG_LENGTH + SCHNORR_PUBLIC_KEY_SIZE) tx) (\<lambda>pk.
     if \<not> xpk_valid X pk then Inl (parse_err StakeCollateralTag ''Invalid validator pubkey'')
     else
     res_bind (subnet_of_output X db StakeCollateralTag (outputs tx ! 1)) (\<lambda>s.
     Inr \<lparr> sm_subnet_id = ss_id s, sm_amount = txo_value (outputs tx ! 1), sm_pubkey = pk \<rparr>))"

definition signed_tx ::
  "ext \<Rightarrow> u64 \<Rightarrow> btc_address \<Rightarrow> bytes \<Rightarrow> transaction" where
  "signed_tx X fee_rate multisig_address payload =
     create_tx_from_txouts
       [data_tx_out X fee_rate payload,
        \<lparr> txo_value = minimal_non_dust_custom X fee_rate (address_script X multisig_address),
          txo_script = address_script X multisig_address \<rparr>]"

fun find_signer ::
  "(subnet_validator \<Rightarrow> ipc_lib_error + bool) \<Rightarrow> subnet_validator list \<Rightarrow> ipc_lib_error + subnet_validator option" where
  "find_signer check [] = Inr None"
| "find_signer check (v # vs) =
     res_bind (check v) (\<lambda>b. if b then Inr (Some v) else find_signer check vs)"

definition unstake_signature_msg ::
  "ext \<Rightarrow> txid \<Rightarrow> xonly_pubkey \<Rightarrow> amount \<Rightarrow> subnet_id \<Rightarrow> ipc_lib_error + bytes" where
  "unstake_signature_msg X prev pk amt sid =
     res_bind (expect_txid20 sid) (\<lambda>t. Inr (sha256 X (prev @ pk @ be_bytes 8 (unat amt) @ t)))"

definition unstake_to_tx ::
  "ext \<Rightarrow> u64 \<Rightarrow> btc_address \<Rightarrow> bytes \<Rightarrow> ipc_unstake_collateral_msg \<Rightarrow> ipc_lib_error + transaction" where
  "unstake_to_tx X fee_rate multisig_address sig m =
     Inr (signed_tx X fee_rate multisig_address
       (tag_bytes UnstakeCollateralTag @ sig @ be_bytes 8 (unat (um_amount m))))"

definition unstake_from_tx :: "ext \<Rightarrow> heed_db \<Rightarrow> transaction \<Rightarrow> ipc_lib_error + ipc_unstake_collateral_msg" where
  "unstake_from_tx X db tx =
     res_bind (message_payload X UnstakeCollateralTag 2 (IPC_TAG_LENGTH + SCHNORR_SIGNATURE_SIZE + 8) tx) (\<lambda>d.
     let sig = take SCHNORR_SIGNATURE_SIZE d;
         amt = of_nat (be_value (drop SCHNORR_SIGNATURE_SIZE d))
     in
     res_bind (subnet_of_output X db UnstakeCollateralTag (outputs tx ! 1)) (\<lambda>s.
     if inputs tx = [] then Inl (parse_err UnstakeCollateralTag ''No inputs in the transaction'')
     else
       let prev = prev_txid (hd (inputs tx)) in
       res_bind (find_signer (\<lambda>v. res_bind (unstake_signature_msg X prev (v_pubkey v) amt (ss_id s))
                   (\<lambda>msg. Inr (verify_schnorr X (v_pubkey v) msg sig))) (cm_validators (ss_committee s))) (\<lambda>vo.
       res_bind (ok_or vo (invalid_msg ''Signature doesn't match any of the validators'')) (\<lambda>v.
       Inr \<lparr> um_subnet_id = ss_id s, um_amount = amt, um_pubkey = Some (v_pubkey v) \<rparr>))))"

definition kill_signature_msg :: "ext \<Rightarrow> txid \<Rightarrow> xonly_pubkey \<Rightarrow> subnet_id \<Rightarrow> ipc_lib_error + bytes" where
  "kill_signature_msg X prev pk sid =
     res_bind (expect_txid20 sid) (\<lambda>t. Inr (sha256 X (prev @ pk @ t)))"

definition kill_to_tx ::
  "ext \<Rightarrow> u64 \<Rightarrow> btc_address \<Rightarrow> bytes \<Rightarrow> ipc_kill_subnet_msg \<Rightarrow> ipc_lib_error + transaction" where
  "kill_to_tx X fee_rate multisig_address sig m =
     Inr (signed_tx X fee_rate multisig_address (tag_bytes KillSubnetTag @ sig))"

definition kill_from_tx :: "ext \<Rightarrow> heed_db \<Rightarrow> transaction \<Rightarrow> ipc_lib_error + ipc_kill_subnet_msg" where
  "kill_from_tx X db tx =
     res_bind (message_payload X KillSubnetTag 2 (IPC_TAG_LENGTH + SCHNORR_SIGNATURE_SIZE) tx) (\<lambda>sig.
     res_bind (subnet_of_output X db KillSubnetTag (outputs tx ! 1)) (\<lambda>s.
     if inputs tx = [] then Inl (parse_err KillSubnetTag ''No inputs in the transaction'')
     else
       let prev = prev_txid (hd (inputs tx)) in
       res_bind (find_signer (\<lambda>v. res_bind (kill_signature_msg X prev (v_pubkey v) (ss_id s))
                   (\<lambda>msg. Inr (verify_schnorr X (v_pubkey v) msg sig))) (cm_validators (ss_committee s))) (\<lambda>vo.
       res_bind (ok_or vo (invalid_msg ''Signature doesn't match any of the validators'')) (\<lambda>v.
       Inr \<lparr> km_subnet_id = ss_id s, km_pubkey = Some (v_pubkey v) \<rparr>))))"

section \<open>Checkpoint metadata\<close>

definition CHECKPOINT_DATA_LEN :: nat where "CHECKPOINT_DATA_LEN = 6 + 20 + 32 + 3 + 8 + 8 + 1"

definition marker :: "'a list \<Rightarrow> u8" where
  "marker xs = of_nat (min (length xs) 255)"

definition checkpoint_metadata :: "ipc_checkpoint_subnet_msg \<Rightarrow> ipc_lib_error + bytes" where
  "checkpoint_metadata m =
     res_bind (expect_txid20 (ck_subnet_id m)) (\<lambda>t.
     Inr (tag_bytes CheckpointSubnetTag @ t @ ck_checkpoint_hash m
       @ le_bytes 8 (unat (ck_checkpoint_height m))
       @ [marker (ck_withdrawals m), marker (ck_transfers m), marker (ck_unstakes m)]
       @ le_bytes 8 (unat (ck_next_committee_configuration_number m))
       @ [if ck_is_kill_checkpoint m then 1 else 0]))"

definition make_metadata_tx_out :: "ext \<Rightarrow> u64 \<Rightarrow> ipc_checkpoint_subnet_msg \<Rightarrow> ipc_lib_error + tx_out" where
  "make_metadata_tx_out X fee_rate m =
     res_bind (checkpoint_metadata m) (\<lambda>d.
     let script = make_op_return_script d
     in Inr \<lparr> txo_value = max (minimal_non_dust_custom X fee_rate script) (minimal_non_dust X script),
              txo_script = script \<rparr>)"

definition extract_markers_from_metadata_tx_out ::
  "ext \<Rightarrow> tx_out \<Rightarrow> ipc_lib_error + (u8 \<times> u8 \<times> u8 \<times> bool)" where
  "extract_markers_from_metadata_tx_out X out =
     res_bind (ok_or (op_return_data X (txo_script out))
                (parse_err CheckpointSubnetTag ''First output must be OP_RETURN with pushdata'')) (\<lambda>d.
     if length d \<noteq> CHECKPOINT_DATA_LEN
     then Inl (parse_err CheckpointSubnetTag ''invalid metadata op_return data length'')
     else Inr (d ! 66, d ! 67, d ! 68, d ! 77 \<noteq> 0))"

definition parse_withdrawal :: "ext \<Rightarrow> tx_out \<Rightarrow> ipc_lib_error + ipc_withdrawal" where
  "parse_withdrawal X out =
     res_bind (ok_or (address_from_script X (txo_script out))
                (parse_err CheckpointSubnetTag ''Could not parse address from withdrawal output'')) (\<lambda>a.
       Inr \<lparr> wd_amount = txo_value out, wd_address = a \<rparr>)"

text \<open>An unstake output to an address that belongs to no validator is skipped.\<close>

definition parse_unstake :: "ext \<Rightarrow> subnet_state \<Rightarrow> tx_out \<Rightarrow> ipc_lib_error + ipc_unstake list" where
  "parse_unstake X s out =
     res_bind (ok_or (address_from_script X (txo_script out))
                (parse_err CheckpointSubnetTag ''Could not parse address from unstake output'')) (\<lambda>a.
       case find (\<lambda>v. v_backup_address v = a) (cm_validators (ss_committee s)) of
         None \<Rightarrow> Inr []
       | Some v \<Rightarrow> Inr [\<lparr> un_amount = txo_value out, un_address = a, un_pubkey = v_pubkey v \<rparr>])"

definition check_transfer_output :: "ext \<Rightarrow> tx_out \<Rightarrow> ipc_lib_error + unit" where
  "check_transfer_output X out =
     res_bind (ok_or (address_from_script X (txo_script out))
                (parse_err CheckpointSubnetTag ''Could not parse address from transfer output'')) (\<lambda>a. Inr ())"

definition from_checkpoint_tx ::
  "ext \<Rightarrow> heed_db \<Rightarrow> transaction \<Rightarrow> ipc_lib_error + ipc_checkpoint_subnet_msg" where
  "from_checkpoint_tx X db tx =
     res_bind (message_payload X CheckpointSubnetTag 1 CHECKPOINT_DATA_LEN tx) (\<lambda>d.
     res_bind (res_map_err (parse_err CheckpointSubnetTag) (txid20_from_slice (take 20 d))) (\<lambda>t.
     let sid = subnet_id_from_txid20 t;
         checkpoint_hash = take 32 (drop 20 d);
         checkpoint_height = of_nat (le_value (take 8 (drop 52 d)));
         withdrawals_count = unat (d ! 60);
         batch_transfers_count = unat (d ! 61);
         unstakes_count = unat (d ! 62);
         next_number = of_nat (le_value (take 8 (drop 63 d)));
         kill_checkpoint = (d ! 71 \<noteq> 0);
         expected_outputs = 1 + withdrawals_count + unstakes_count
           + (if 0 < batch_transfers_count then 1 else 0) + batch_transfers_count;
         outs = outputs tx
     in
     if length outs < expected_outputs then Inl (parse_err CheckpointSubnetTag ''Not enough outputs'')
     else
     res_bind (ok_or (get_subnet_state X db sid) (parse_err CheckpointSubnetTag ''Subnet not found'')) (\<lambda>s.
     res_bind (res_mapM (parse_withdrawal X) (take withdrawals_count (drop 1 outs))) (\<lambda>withdrawals.
     res_bind (res_mapM (parse_unstake X s) (take unstakes_count (drop (1 + withdrawals_count) outs))) (\<lambda>unstakes.
     res_bind (res_mapM (check_transfer_output X)
                (if 0 < batch_transfers_count
                 then take batch_transfers_count (drop (1 + withdrawals_count + unstakes_count + 1) outs)
                 else [])) (\<lambda>_.
     res_bind (if expected_outputs < length outs
               then res_bind (ok_or (address_from_script X (txo_script (outs ! (length outs - 1))))
                      (parse_err CheckpointSubnetTag ''Could not parse change address from last output''))
                      (\<lambda>a. Inr (Some a))
               else Inr None) (\<lambda>change_address.
     Inr \<lparr> ck_subnet_id = sid, ck_checkpoint_hash = checkpoint_hash, ck_checkpoint_height = checkpoint_height,
           ck_next_committee_configuration_number = next_number, ck_withdrawals = withdrawals,
           ck_transfers = [], ck_token_registrations = [], ck_token_supply_adjustments = [],
           ck_token_transfers = [], ck_unstakes = concat unstakes, ck_change_address = change_address,
           ck_is_kill_checkpoint = kill_checkpoint \<rparr>)))))))"

section \<open>Batch transfer data\<close>

record erc_transfer_wire =
  ew_home_subnet_id :: subnet_id
  ew_home_token_address :: eth_address
  ew_amount :: u256
  ew_recipient :: eth_address

text \<open>The two hash maps of the wire data are lists of entries in their order of iteration.\<close>

record batch_transfer_wire_data =
  bw_transfers :: "(bytes \<times> (eth_address \<times> amount) list) list"
  bw_token_registrations :: "ipc_erc_token_registration list"
  bw_token_supply_adjustments :: "ipc_erc_supply_adjustment list"
  bw_token_transfers :: "(bytes \<times> erc_transfer_wire list) list"

record codec =
  ser_create :: "ipc_create_subnet_msg \<Rightarrow> bytes option"
  de_create :: "bytes \<Rightarrow> ipc_create_subnet_msg option"
  ser_join :: "ipc_join_subnet_msg \<Rightarrow> bytes option"
  de_join :: "bytes \<Rightarrow> ipc_join_subnet_msg option"
  ser_wire :: "nat \<Rightarrow> batch_transfer_wire_data \<Rightarrow> bytes option"
  de_wire :: "bytes \<Rightarrow> batch_transfer_wire_data option"
  control_block :: "script \<Rightarrow> bytes option"
  map_order :: "nat \<Rightarrow> (bytes \<times> amount \<times> btc_address) list \<Rightarrow> (bytes \<times> amount \<times> btc_address) list"

text \<open>
  What is relied on: what was serialized is read back, the skipped collateral of a join apart, and a hash
  map keeps its entries whatever its order of iteration.
\<close>

definition codec_ok :: "codec \<Rightarrow> bool" where
  "codec_ok C \<longleftrightarrow>
     (\<forall>m b. ser_create C m = Some b \<longrightarrow> de_create C b = Some m)
   \<and> (\<forall>m b. ser_join C m = Some b \<longrightarrow> de_join C b = Some (m\<lparr> jm_collateral := 0 \<rparr>))
   \<and> (\<forall>seed w b. distinct (map fst (bw_transfers w)) \<longrightarrow> distinct (map fst (bw_token_transfers w)) \<longrightarrow>
        ser_wire C seed w = Some b \<longrightarrow>
        (\<exists>w'. de_wire C b = Some w' \<and> mset (bw_transfers w') = mset (bw_transfers w)
           \<and> mset (bw_token_transfers w') = mset (bw_token_transfers w)
           \<and> bw_token_registrations w' = bw_token_registrations w
           \<and> bw_token_supply_adjustments w' = bw_token_supply_adjustments w))
   \<and> (\<forall>seed xs. mset (map_order C seed xs) = mset xs)"

fun group_push :: "'k \<Rightarrow> 'v \<Rightarrow> ('k \<times> 'v list) list \<Rightarrow> ('k \<times> 'v list) list" where
  "group_push k v [] = [(k, [v])]"
| "group_push k v ((k', vs) # rest) = (if k' = k then (k', vs @ [v]) # rest else (k', vs) # group_push k v rest)"

definition group_transfer ::
  "(bytes \<times> (eth_address \<times> amount) list) list \<Rightarrow> ipc_cross_subnet_transfer
   \<Rightarrow> ipc_lib_error + (bytes \<times> (eth_address \<times> amount) list) list" where
  "group_transfer g t =
     res_bind (expect_txid20 (xt_destination_subnet_id t)) (\<lambda>k.
       Inr (group_push k (xt_subnet_user_address t, xt_amount t) g))"

definition erc_wire :: "ipc_cross_subnet_erc_transfer \<Rightarrow> erc_transfer_wire" where
  "erc_wire etx = \<lparr> ew_home_subnet_id = et_home_subnet_id etx, ew_home_token_address = et_home_token_address etx,
     ew_amount = et_amount etx, ew_recipient = et_recipient etx \<rparr>"

definition group_erc ::
  "(bytes \<times> erc_transfer_wire list) list \<Rightarrow> ipc_cross_subnet_erc_transfer
   \<Rightarrow> ipc_lib_error + (bytes \<times> erc_transfer_wire list) list" where
  "group_erc g etx =
     res_bind (expect_txid20 (et_destination_subnet_id etx)) (\<lambda>k. Inr (group_push k (erc_wire etx) g))"

text \<open>The seed stands for the random state of the hash maps, which fixes their order of iteration.\<close>

definition make_batched_transfer_data ::
  "codec \<Rightarrow> nat \<Rightarrow> ipc_checkpoint_subnet_msg \<Rightarrow> ipc_lib_error + bytes" where
  "make_batched_transfer_data C seed m =
     res_bind (res_fold group_transfer [] (ck_transfers m)) (\<lambda>ts.
     res_bind (res_fold group_erc [] (ck_token_transfers m)) (\<lambda>es.
     let wire_data = \<lparr> bw_transfers = ts, bw_token_registrations = ck_token_registrations m,
           bw_token_supply_adjustments = ck_token_supply_adjustments m, bw_token_transfers = es \<rparr>
     in
     res_bind (ok_or (ser_wire C seed wire_data) (invalid_msg ''Failed to serialize batch transfer data'')) (\<lambda>b.
       Inr (tag_bytes BatchTransferTag @ b))))"

definition witness_to_wire_data :: "codec \<Rightarrow> bytes \<Rightarrow> ipc_lib_error + batch_transfer_wire_data" where
  "witness_to_wire_data C w =
     (if length w < IPC_TAG_LENGTH \<or> take IPC_TAG_LENGTH w \<noteq> tag_bytes BatchTransferTag
      then Inl (parse_err BatchTransferTag ''Invalid tag'')
      else ok_or (de_wire C (drop IPC_TAG_LENGTH w))
             (parse_err BatchTransferTag ''Failed to deserialize batch transfer data''))"

definition wire_transfers ::
  "ext \<Rightarrow> heed_db \<Rightarrow> (bytes \<times> (eth_address \<times> amount) list) \<Rightarrow> ipc_cross_subnet_transfer list" where
  "wire_transfers X db e =
     (let dest = subnet_id_from_txid20 (fst e) in
      case get_subnet_state X db dest of
        None \<Rightarrow> []
      | Some s \<Rightarrow> map (\<lambda>(a, amt). \<lparr> xt_amount = amt, xt_destination_subnet_id = dest,
            xt_subnet_multisig_address = Some (cm_multisig_address (ss_committee s)),
            xt_subnet_user_address = a \<rparr>) (snd e))"

definition wire_erc_transfers :: "(bytes \<times> erc_transfer_wire list) \<Rightarrow> ipc_cross_subnet_erc_transfer list" where
  "wire_erc_transfers e =
     map (\<lambda>w. \<lparr> et_home_subnet_id = ew_home_subnet_id w, et_home_token_address = ew_home_token_address w,
        et_amount = ew_amount w, et_destination_subnet_id = subnet_id_from_txid20 (fst e),
        et_recipient = ew_recipient w \<rparr>) (snd e)"

definition batch_from_tx ::
  "ext \<Rightarrow> codec \<Rightarrow> heed_db \<Rightarrow> transaction \<Rightarrow> ipc_lib_error + ipc_batch_transfer_msg" where
  "batch_from_tx X C db tx =
     (if length (inputs tx) \<noteq> 1
      then Inl (parse_err BatchTransferTag ''Transaction must have at least one input'')
      else
      let input = hd (inputs tx) in
      if witness input = [] then Inl (parse_err BatchTransferTag ''Transaction witness is empty'')
      else
      res_bind (res_map_err (\<lambda>e. parse_err BatchTransferTag ''Failed to extract witness data'')
                 (concatenate_op_push_data X (hd (witness input)))) (\<lambda>w.
      res_bind (res_map_err (\<lambda>e. parse_err BatchTransferTag ''Failed to deserialize batch transfer data'')
                 (witness_to_wire_data C w)) (\<lambda>wire.
      let transfers = concat (map (wire_transfers X db) (bw_transfers wire));
          erc_transfers = concat (map wire_erc_transfers (bw_token_transfers wire))
      in
      if transfers = [] \<and> bw_token_registrations wire = [] \<and> bw_token_supply_adjustments wire = []
         \<and> erc_transfers = []
      then Inl (parse_err BatchTransferTag ''No valid data found in batch transfer'')
      else Inr \<lparr> bt_subnet_id = subnet_id_default, bt_checkpoint_txid = prev_txid input,
             bt_checkpoint_vout = prev_vout input, bt_transfers = transfers,
             bt_token_registrations = bw_token_registrations wire,
             bt_token_supply_adjustments = bw_token_supply_adjustments wire,
             bt_token_transfers = erc_transfers \<rparr>)))"

definition validate_for_checkpoint ::
  "ext \<Rightarrow> transaction \<Rightarrow> ipc_batch_transfer_msg \<Rightarrow> ipc_validate_error + unit" where
  "validate_for_checkpoint X checkpoint_tx m =
     (if compute_txid X checkpoint_tx \<noteq> bt_checkpoint_txid m then Inl (InvalidMsg ''Checkpoint txid mismatch'')
      else if length (outputs checkpoint_tx) \<le> unat (bt_checkpoint_vout m)
      then Inl (InvalidMsg ''Checkpoint transaction doesn't have output at index'')
      else
      case outputs checkpoint_tx of
        [] \<Rightarrow> Inl (InvalidMsg ''Checkpoint transaction doesn't have output at index'')
      | out # _ \<Rightarrow>
        (case extract_markers_from_metadata_tx_out X out of
           Inl e \<Rightarrow> Inl (InvalidMsg ''Failed to extract counts from checkpoint'')
         | Inr (wc, transfer_count, uc, k) \<Rightarrow>
             if length (bt_transfers m) \<noteq> unat transfer_count then Inl (InvalidMsg ''Transfer count mismatch'')
             else Inr ()))"

definition update_subnets_for_transfer ::
  "ext \<Rightarrow> heed_db \<Rightarrow> ipc_checkpoint_subnet_msg \<Rightarrow> ipc_lib_error + ipc_checkpoint_subnet_msg" where
  "update_subnets_for_transfer X db m =
     res_bind (res_mapM (\<lambda>t.
        case get_subnet_state X db (xt_destination_subnet_id t) of
          Some s \<Rightarrow> Inr (t\<lparr> xt_subnet_multisig_address := Some (cm_multisig_address (ss_committee s)) \<rparr>)
        | None \<Rightarrow> Inl (invalid_field ''destination_subnet_id'' ''does not exist'')) (ck_transfers m)) (\<lambda>ts.
       Inr (m\<lparr> ck_transfers := ts \<rparr>))"

definition has_batch :: "ipc_checkpoint_subnet_msg \<Rightarrow> bool" where
  "has_batch m \<longleftrightarrow> ck_transfers m \<noteq> [] \<or> ck_token_registrations m \<noteq> []
     \<or> ck_token_supply_adjustments m \<noteq> [] \<or> ck_token_transfers m \<noteq> []"

definition batch_transfer_commit_outpoint :: "txid \<Rightarrow> ipc_checkpoint_subnet_msg \<Rightarrow> (txid \<times> u32) option" where
  "batch_transfer_commit_outpoint tid m =
     (if \<not> has_batch m then None
      else Some (tid, 1 + of_nat (length (ck_withdrawals m)) + of_nat (length (ck_unstakes m))))"

definition make_batched_transfer ::
  "ext \<Rightarrow> codec \<Rightarrow> nat \<Rightarrow> u64 \<Rightarrow> btc_address \<Rightarrow> ipc_checkpoint_subnet_msg
   \<Rightarrow> ipc_lib_error + (tx_out \<times> bytes list \<times> tx_out)" where
  "make_batched_transfer X C seed fee_rate return_address m =
     res_bind (make_batched_transfer_data C seed m) (\<lambda>data.
     let commit_script = make_push_data_script data in
     res_bind (ok_or (p2tr_of_leaves X [(0, commit_script)])
                (BitcoinUtilsError UtilsTaprootBuilderNotFinalizable)) (\<lambda>a.
     res_bind (ok_or (control_block C commit_script) (BitcoinUtilsError CannotConstructControlBlock)) (\<lambda>cb.
     let commit_script_pubkey = address_script X a;
         reveal_witness = [script_to_bytes X commit_script, cb];
         reveal_tx_out = \<lparr> txo_value = minimal_non_dust_custom X fee_rate (address_script X return_address),
                           txo_script = address_script X return_address \<rparr>;
         reveal_tx = \<lparr> lock_time = 0,
           inputs = [\<lparr> prev_txid = replicate 32 0, prev_vout = 0, sequence = - 1, witness = reveal_witness \<rparr>],
           outputs = [reveal_tx_out] \<rparr>
     in
     res_bind (ok_or (fee_wu X fee_rate (tx_weight X reveal_tx)) (BitcoinUtilsError FeeRateOverflow)) (\<lambda>fee.
     res_bind (ipc_amount_add (txo_value reveal_tx_out) fee) (\<lambda>reveal_cost.
     let commit_tx_value = max (max (minimal_non_dust_custom X fee_rate commit_script_pubkey)
                                    (minimal_non_dust X commit_script_pubkey)) reveal_cost
     in Inr (\<lparr> txo_value = commit_tx_value, txo_script = commit_script_pubkey \<rparr>, reveal_witness, reveal_tx_out))))))"

definition make_reveal_batch_transfer_tx ::
  "ext \<Rightarrow> codec \<Rightarrow> nat \<Rightarrow> txid \<Rightarrow> u64 \<Rightarrow> btc_address \<Rightarrow> ipc_checkpoint_subnet_msg
   \<Rightarrow> ipc_lib_error + transaction option" where
  "make_reveal_batch_transfer_tx X C seed checkpoint_txid fee_rate return_address m =
     (if \<not> has_batch m then Inr None
      else
      res_bind (ok_or (batch_transfer_commit_outpoint checkpoint_txid m)
                 (Panic ''Batched transfer commit output must be present'')) (\<lambda>outpoint.
      res_bind (make_batched_transfer X C seed fee_rate return_address m) (\<lambda>(commit, reveal_witness, reveal_tx_out).
      Inr (Some \<lparr> lock_time = 0,
        inputs = [\<lparr> prev_txid = fst outpoint, prev_vout = snd outpoint, sequence = - 1, witness = reveal_witness \<rparr>],
        outputs = [reveal_tx_out] \<rparr>))))"

definition address_out :: "ext \<Rightarrow> amount \<Rightarrow> btc_address \<Rightarrow> ipc_lib_error + tx_out" where
  "address_out X amt a =
     (if address_valid X a then Inr \<lparr> txo_value = amt, txo_script = address_script X a \<rparr>
      else Inl (Panic ''Address must be valid for network''))"

fun add_subnet_total ::
  "bytes \<Rightarrow> amount \<Rightarrow> btc_address \<Rightarrow> (bytes \<times> amount \<times> btc_address) list
   \<Rightarrow> ipc_lib_error + (bytes \<times> amount \<times> btc_address) list" where
  "add_subnet_total k amt a [] = Inr [(k, amt, a)]"
| "add_subnet_total k amt a ((k', total_amount, a') # rest) =
     (if k' = k
      then res_bind (ipc_amount_add total_amount amt) (\<lambda>t. Inr ((k', t, a') # rest))
      else res_bind (add_subnet_total k amt a rest) (\<lambda>r. Inr ((k', total_amount, a') # r)))"

definition group_subnet_total ::
  "(bytes \<times> amount \<times> btc_address) list \<Rightarrow> ipc_cross_subnet_transfer
   \<Rightarrow> ipc_lib_error + (bytes \<times> amount \<times> btc_address) list" where
  "group_subnet_total g t =
     res_bind (expect_txid20 (xt_destination_subnet_id t)) (\<lambda>k.
     case xt_subnet_multisig_address t of
       None \<Rightarrow> Inl (invalid_field ''transfer.subnet_multisig_address'' ''must be defined'')
     | Some a \<Rightarrow> add_subnet_total k (xt_amount t) a g)"

text \<open>The outputs that \<open>to_checkpoint_psbt\<close> asks for, before the change.\<close>

definition checkpoint_tx_outs ::
  "ext \<Rightarrow> codec \<Rightarrow> nat \<Rightarrow> u64 \<Rightarrow> btc_address \<Rightarrow> ipc_checkpoint_subnet_msg \<Rightarrow> ipc_lib_error + tx_out list" where
  "checkpoint_tx_outs X C seed fee_rate committee_address m =
     res_bind (make_metadata_tx_out X fee_rate m) (\<lambda>metadata.
     res_bind (res_mapM (\<lambda>w. address_out X (wd_amount w) (wd_address w)) (ck_withdrawals m)) (\<lambda>withdrawals.
     res_bind (if has_batch m
               then res_bind (make_batched_transfer X C seed fee_rate committee_address m) (\<lambda>(commit, rw, rto).
                    res_bind (res_fold group_subnet_total [] (ck_transfers m)) (\<lambda>totals.
                    res_bind (res_mapM (\<lambda>(k, amt, a). address_out X amt a) (map_order C seed totals)) (\<lambda>transfers.
                    Inr (commit # transfers))))
               else Inr []) (\<lambda>batch.
     res_bind (res_mapM (\<lambda>u. address_out X (un_amount u) (un_address u)) (ck_unstakes m)) (\<lambda>unstakes.
     Inr (metadata # withdrawals @ batch @ unstakes)))))"

section \<open>Messages in a witness\<close>

datatype ipc_message =
    CreateSubnet ipc_create_subnet_msg
  | JoinSubnet ipc_join_subnet_msg
  | PrefundSubnet ipc_prefund_subnet_msg
  | FundMsg ipc_fund_subnet_msg
  | CheckpointSubnet ipc_checkpoint_subnet_msg
  | BatchTransfer ipc_batch_transfer_msg
  | StakeCollateral ipc_stake_collateral_msg
  | UnstakeCollateral ipc_unstake_collateral_msg
  | KillSubnet ipc_kill_subnet_msg

definition create_to_bytes :: "codec \<Rightarrow> ipc_create_subnet_msg \<Rightarrow> ipc_serialize_error + bytes" where
  "create_to_bytes C m =
     res_bind (ok_or (ser_create C m) (SerializationError ''postcard'')) (\<lambda>b. Inr (tag_bytes CreateSubnetTag @ b))"

definition create_from_bytes :: "codec \<Rightarrow> bytes \<Rightarrow> ipc_serialize_error + ipc_create_subnet_msg" where
  "create_from_bytes C d =
     (if take IPC_TAG_LENGTH d \<noteq> tag_bytes CreateSubnetTag then Inl (DeserializationError ''Invalid message tag'')
      else ok_or (de_create C (drop IPC_TAG_LENGTH d)) (DeserializationError ''postcard''))"

definition join_to_bytes :: "codec \<Rightarrow> ipc_join_subnet_msg \<Rightarrow> ipc_serialize_error + bytes" where
  "join_to_bytes C m =
     res_bind (ok_or (ser_join C m) (SerializationError ''postcard'')) (\<lambda>b. Inr (tag_bytes JoinSubnetTag @ b))"

definition join_from_bytes :: "codec \<Rightarrow> bytes \<Rightarrow> ipc_serialize_error + ipc_join_subnet_msg" where
  "join_from_bytes C d =
     (if take IPC_TAG_LENGTH d \<noteq> tag_bytes JoinSubnetTag then Inl (DeserializationError ''Invalid message tag'')
      else ok_or (de_join C (drop IPC_TAG_LENGTH d)) (DeserializationError ''postcard''))"

text \<open>
  A tag with a byte outside ASCII is an error in the source whether or not it is UTF-8, with one of two
  variants that its only caller does not tell apart; the model has the second.
\<close>

definition from_witness :: "codec \<Rightarrow> bytes \<Rightarrow> ipc_serialize_error + ipc_message" where
  "from_witness C w =
     (if length w < IPC_TAG_LENGTH then Inl (DeserializationError ''Message too short for a valid tag'')
      else
      res_bind (ipc_tag_from_str (map (\<lambda>b. char_of (unat b)) (take IPC_TAG_LENGTH w))) (\<lambda>t.
      case t of
        CreateSubnetTag \<Rightarrow> res_bind (create_from_bytes C w) (\<lambda>m. Inr (CreateSubnet m))
      | JoinSubnetTag \<Rightarrow> res_bind (join_from_bytes C w) (\<lambda>m. Inr (JoinSubnet m))
      | _ \<Rightarrow> Inl (DeserializationError ''Skip'')))"

end
