(* ===== verification/Psbt.thy ===== *)
theory Psbt
  imports Wire
begin

text \<open>
  Partially signed transactions (\<open>src/src/multisig.rs\<close>, from \<open>construct_spend_psbt\<close> on) and the PSBT
  of a checkpoint (\<open>IpcCheckpointSubnetMsg::to_checkpoint_psbt\<close> in \<open>src/src/ipc_lib.rs\<close>): building,
  signing and finalizing a spend of the committee multisig, and the division of the leftover of a kill
  checkpoint.  The taproot and signature functions of the bitcoin crates are parameters (record
  \<open>taproot\<close>); \<open>taproot_ok\<close> says that a signature is not empty and verifies under its key.
\<close>

section \<open>Taproot and signatures\<close>

record taproot =
  leaf_hash :: "script \<Rightarrow> bytes"
  tap_control_block :: "(nat \<times> script) list \<Rightarrow> script \<Rightarrow> bytes option"
  tap_sighash :: "transaction \<Rightarrow> tx_out list \<Rightarrow> nat \<Rightarrow> bytes \<Rightarrow> bytes option"
  schnorr_sign :: "bytes \<Rightarrow> bytes \<Rightarrow> bytes"
  x_only_public_key :: "bytes \<Rightarrow> xonly_pubkey"
  extract_error :: "transaction \<Rightarrow> tx_out option list \<Rightarrow> string option"

definition taproot_ok :: "ext \<Rightarrow> taproot \<Rightarrow> bool" where
  "taproot_ok X T \<longleftrightarrow>
     (\<forall>sk m. verify_schnorr X (x_only_public_key T sk) m (schnorr_sign T sk m) \<and> schnorr_sign T sk m \<noteq> [])"

section \<open>Building a spend\<close>

text \<open>
  The signatures of an input are a map from key and leaf; the scripts are listed in the order of their
  control blocks.  The merkle root and the internal key are given by the leaves.
\<close>

record psbt_input =
  pi_witness_script :: "script option"
  pi_tap_script_sigs :: "(xonly_pubkey \<times> bytes) \<rightharpoonup> bytes"
  pi_tap_scripts :: "(bytes \<times> script) list"
  pi_tap_leaves :: "(nat \<times> script) list"
  pi_witness_utxo :: "tx_out option"

record psbt =
  unsigned_tx :: transaction
  psbt_inputs :: "psbt_input list"

definition find_utxo :: "utxo list \<Rightarrow> tx_in \<Rightarrow> utxo option" where
  "find_utxo unspent i = find (\<lambda>u. utxo_txid u = prev_txid i \<and> utxo_vout u = prev_vout i) unspent"

definition spend_psbt_input ::
  "(nat \<times> script) list \<Rightarrow> script \<Rightarrow> bytes \<Rightarrow> utxo list \<Rightarrow> tx_in \<Rightarrow> multisig_error + psbt_input" where
  "spend_psbt_input spend_info script cblock unspent i =
     res_bind (ok_or (find_utxo unspent i) (PsbtError ''Cannot find matching utxo'')) (\<lambda>u.
     Inr \<lparr> pi_witness_script = Some script, pi_tap_script_sigs = Map.empty,
           pi_tap_scripts = [(cblock, script)], pi_tap_leaves = spend_info,
           pi_witness_utxo = Some \<lparr> txo_value = utxo_amount u, txo_script = utxo_script u \<rparr> \<rparr>)"

definition construct_spend_psbt ::
  "ext \<Rightarrow> taproot \<Rightarrow> subnet_id \<Rightarrow> weighted_key list \<Rightarrow> power \<Rightarrow> btc_address \<Rightarrow> utxo list \<Rightarrow> bool \<Rightarrow> tx_out list
   \<Rightarrow> u64 \<Rightarrow> nat \<Rightarrow> multisig_error + psbt" where
  "construct_spend_psbt X T sid keys threshold change_address unspent exhaust_unspent tx_outs
     fee_rate consolidation_limit =
     res_bind (construct_spend_unsigned_transaction X keys threshold change_address unspent
                exhaust_unspent tx_outs fee_rate consolidation_limit) (\<lambda>tx.
     if \<exists>i \<in> set (inputs tx). witness i \<noteq> [] then Inl (CoinSelectionFailed ''Failed to create PSBT'')
     else
     res_bind (create_multisig_script keys threshold) (\<lambda>script.
     res_bind (create_subnet_multisig_spend_info sid keys threshold) (\<lambda>spend_info.
     res_bind (ok_or (tap_control_block T spend_info script) TaprootBuilderNotFinalizable) (\<lambda>cblock.
     res_bind (res_mapM (spend_psbt_input spend_info script cblock unspent) (inputs tx)) (\<lambda>ins.
     Inr \<lparr> unsigned_tx = tx, psbt_inputs = ins \<rparr>)))))"

section \<open>Signing\<close>

definition funding_utxos :: "psbt \<Rightarrow> multisig_error + tx_out list" where
  "funding_utxos p =
     res_mapM (\<lambda>i. ok_or (pi_witness_utxo i) (SigningError ''Failed to collect UTXOs'')) (psbt_inputs p)"

definition sign_input ::
  "taproot \<Rightarrow> transaction \<Rightarrow> tx_out list \<Rightarrow> bytes \<Rightarrow> nat \<times> psbt_input \<Rightarrow> multisig_error + (psbt_input \<times> bytes list)" where
  "sign_input T tx utxos sk e =
     (case pi_tap_scripts (snd e) of
        [] \<Rightarrow> Inr (snd e, [])
      | (cblock, script) # _ \<Rightarrow>
          res_bind (ok_or (tap_sighash T tx utxos (fst e) (leaf_hash T script))
                     (SigningError ''Failed to create sighash for input'')) (\<lambda>sighash.
          let signature = schnorr_sign T sk sighash in
          Inr ((snd e)\<lparr> pi_tap_script_sigs :=
                 (pi_tap_script_sigs (snd e))((x_only_public_key T sk, leaf_hash T script) \<mapsto> signature) \<rparr>,
               [signature])))"

definition sign_spend_psbt :: "taproot \<Rightarrow> psbt \<Rightarrow> bytes \<Rightarrow> multisig_error + (psbt \<times> bytes list)" where
  "sign_spend_psbt T p sk =
     res_bind (funding_utxos p) (\<lambda>utxos.
     res_bind (res_mapM (sign_input T (unsigned_tx p) utxos sk) (enumerate 0 (psbt_inputs p))) (\<lambda>signed.
     let signatures = concat (map snd signed) in
     if signatures = [] then Inl (SigningError ''No inputs were signed'')
     else Inr (p\<lparr> psbt_inputs := map fst signed \<rparr>, signatures)))"

section \<open>Finalizing\<close>

definition input_signature :: "bytes \<Rightarrow> psbt_input \<Rightarrow> weighted_key \<Rightarrow> bytes" where
  "input_signature leaf i kw =
     (case pi_tap_script_sigs i (fst kw, leaf) of Some sig \<Rightarrow> sig | None \<Rightarrow> [])"

definition finalize_spend_psbt ::
  "ext \<Rightarrow> taproot \<Rightarrow> subnet_id \<Rightarrow> weighted_key list \<Rightarrow> power \<Rightarrow> psbt \<Rightarrow> multisig_error + transaction" where
  "finalize_spend_psbt X T sid keys threshold p =
     (let sorted_keys = sort_committee_keys keys in
     res_bind (create_multisig_script sorted_keys threshold) (\<lambda>script.
     let leaf = leaf_hash T script in
     res_bind (create_subnet_multisig_spend_info sid sorted_keys threshold) (\<lambda>spend_info.
     res_bind (ok_or (tap_control_block T spend_info script) TaprootBuilderNotFinalizable) (\<lambda>cblock.
     let witnesses = map (\<lambda>i. map (input_signature leaf i) (rev sorted_keys)
                               @ [script_to_bytes X script, cblock]) (psbt_inputs p);
         tx = (unsigned_tx p)\<lparr> inputs := map2 (\<lambda>i w. i\<lparr> witness := w \<rparr>) (inputs (unsigned_tx p)) witnesses \<rparr>
     in
     case extract_error T tx (map pi_witness_utxo (psbt_inputs p)) of
       Some e \<Rightarrow> Inl (PsbtError ''Failed to extract transaction'')
     | None \<Rightarrow> Inr tx))))"

fun add_signatures :: "xonly_pubkey \<times> bytes \<Rightarrow> bytes list \<Rightarrow> psbt_input list \<Rightarrow> psbt_input list" where
  "add_signatures key (sig # sigs) (i # ins) =
     i\<lparr> pi_tap_script_sigs := (pi_tap_script_sigs i)(key \<mapsto> sig) \<rparr> # add_signatures key sigs ins"
| "add_signatures key sigs ins = ins"

definition finalize_spend_psbt_from_sigs ::
  "ext \<Rightarrow> taproot \<Rightarrow> subnet_id \<Rightarrow> weighted_key list \<Rightarrow> power \<Rightarrow> psbt \<Rightarrow> bytes list list
   \<Rightarrow> multisig_error + transaction" where
  "finalize_spend_psbt_from_sigs X T sid keys threshold p signature_sets =
     (let key_sig_pairs = sort_key (\<lambda>e. fst (fst e)) (zip keys signature_sets) in
      case create_multisig_script keys threshold of
        Inl e \<Rightarrow> Inl (MultisigPanic ''called unwrap on an Err value'')
      | Inr script \<Rightarrow>
          finalize_spend_psbt X T sid keys threshold
            (p\<lparr> psbt_inputs := fold (\<lambda>(kw, sigs). add_signatures (fst kw, leaf_hash T script) sigs)
                                 key_sig_pairs (psbt_inputs p) \<rparr>))"

section \<open>The PSBT of a checkpoint\<close>

definition CHECKPOINT_CONSOLIDATION_LIMIT :: nat where "CHECKPOINT_CONSOLIDATION_LIMIT = 50"

text \<open>
  The share of an unstake in the leftover on binary64 numbers: the proportion is the quotient rounded to
  53 bits and scaled by a power of two, its product with the leftover is rounded and cut to an integer.
\<close>

definition f64_share :: "nat \<Rightarrow> nat \<Rightarrow> nat \<Rightarrow> nat" where
  "f64_share change_amount amt total_unstake =
     (let a = round53 amt; b = round53 total_unstake in
      if a = 0 then 0
      else
        let s0 = 52 + bit_length b - bit_length a;
            s = (if b * 2 ^ 52 \<le> a * 2 ^ s0 then s0 else s0 + 1);
            q = round_div_even (a * 2 ^ s) b
        in round53 (round53 change_amount * q) div 2 ^ s)"

definition ipc_amount_sum :: "amount list \<Rightarrow> ipc_lib_error + amount" where
  "ipc_amount_sum xs = ok_or (word_checked_sum xs) (Panic ''Amount overflow'')"

fun split_change ::
  "amount \<Rightarrow> amount \<Rightarrow> amount \<Rightarrow> ipc_unstake list \<Rightarrow> tx_out list \<Rightarrow> ipc_lib_error + tx_out list" where
  "split_change change_amount total_unstake distributed_amount (u # us) (out # outs) =
     res_bind (if us = []
               then ok_or (word_checked_sub change_amount distributed_amount) (Panic ''Amount subtraction error'')
               else Inr (of_nat (min (2 ^ 64 - 1) (f64_share (unat change_amount) (unat (un_amount u)) (unat total_unstake))))) (\<lambda>additional_amount.
     res_bind (ipc_amount_add (txo_value out) additional_amount) (\<lambda>v.
     res_bind (ipc_amount_add distributed_amount additional_amount) (\<lambda>d.
     res_bind (split_change change_amount total_unstake d us outs) (\<lambda>rest.
     Inr (out\<lparr> txo_value := v \<rparr> # rest)))))"
| "split_change change_amount total_unstake distributed_amount us outs = Inr outs"

definition address_checked :: "ext \<Rightarrow> subnet_committee \<Rightarrow> ipc_lib_error + btc_address" where
  "address_checked X c =
     (if address_valid X (cm_multisig_address c) then Inr (cm_multisig_address c)
      else Inl (Panic ''Multisig should be valid current network''))"

definition split_kill_change ::
  "ext \<Rightarrow> btc_address \<Rightarrow> ipc_checkpoint_subnet_msg \<Rightarrow> tx_out list \<Rightarrow> transaction \<Rightarrow> ipc_lib_error + tx_out list option" where
  "split_kill_change X change_address m tx_outs checkpoint_tx =
     (let change_amount = (case find (\<lambda>out. txo_script out = address_script X change_address) (outputs checkpoint_tx) of
                             Some out \<Rightarrow> txo_value out | None \<Rightarrow> 0)
      in
      if ck_is_kill_checkpoint m \<and> 0 < change_amount \<and> ck_unstakes m \<noteq> []
      then res_bind (ipc_amount_sum (map un_amount (ck_unstakes m))) (\<lambda>total_unstake.
           if 0 < total_unstake
           then let start = length tx_outs - length (ck_unstakes m) in
                res_bind (split_change change_amount total_unstake 0 (ck_unstakes m) (drop start tx_outs)) (\<lambda>outs.
                Inr (Some (take start tx_outs @ outs)))
           else Inr None)
      else Inr None)"

definition to_checkpoint_psbt ::
  "ext \<Rightarrow> codec \<Rightarrow> taproot \<Rightarrow> nat \<Rightarrow> ipc_checkpoint_subnet_msg \<Rightarrow> subnet_committee \<Rightarrow> subnet_committee \<Rightarrow> u64
   \<Rightarrow> utxo list \<Rightarrow> ipc_lib_error + psbt" where
  "to_checkpoint_psbt X C T seed m committee next_committee fee_rate unspent =
     (let exhaust_unspent = (\<not> committee_eq committee next_committee \<or> ck_is_kill_checkpoint m);
          keys = validator_weighted_keys committee;
          construct = (\<lambda>change_address outs. res_map_err ipc_from_multisig
             (construct_spend_unsigned_transaction X keys (cm_threshold committee) change_address
                unspent exhaust_unspent outs fee_rate CHECKPOINT_CONSOLIDATION_LIMIT))
      in
      res_bind (address_checked X next_committee) (\<lambda>change_address.
      res_bind (if has_batch m then address_checked X committee else Inr (cm_multisig_address committee)) (\<lambda>ca.
      res_bind (checkpoint_tx_outs X C seed fee_rate ca m) (\<lambda>tx_outs.
      res_bind (construct change_address tx_outs) (\<lambda>checkpoint_tx.
      res_bind (split_kill_change X change_address m tx_outs checkpoint_tx) (\<lambda>split.
      res_bind (case split of None \<Rightarrow> Inr tx_outs
                | Some outs \<Rightarrow> res_bind (construct change_address outs) (\<lambda>_. Inr outs)) (\<lambda>tx_outs.
      res_map_err ipc_from_multisig
        (construct_spend_psbt X T (ck_subnet_id m) keys (cm_threshold committee) change_address unspent
           exhaust_unspent tx_outs fee_rate CHECKPOINT_CONSOLIDATION_LIMIT))))))))"

end
