(* ===== verification/Node.thy ===== *)
theory Node
  imports Psbt
begin

text \<open>
  Sending messages to Bitcoin: the fee rate, commit and reveal transactions and the mempool of
  \<open>src/src/bitcoin_utils.rs\<close>, the wallet calls of \<open>src/src/wallet.rs\<close> and the \<open>submit_to_bitcoin\<close>
  methods of \<open>src/src/ipc_lib.rs\<close>.  The Bitcoin node is a parameter (record \<open>node\<close>): what it answers to
  each call.  A submission returns the transactions that were handed to the network, also on an error.
\<close>

section \<open>The node\<close>

record node =
  nd_estimate_fee :: "u64 option"
  nd_new_address :: "string + btc_address"
  nd_fund :: "transaction \<Rightarrow> string + transaction"
  nd_sign :: "transaction \<Rightarrow> string + (transaction \<times> bool)"
  nd_accept :: "transaction list \<Rightarrow> string + string option list"
  nd_send :: "transaction \<Rightarrow> string + unit"
  nd_unspent :: "btc_address \<Rightarrow> string + utxo list"
  nd_block_hash :: "u64 \<Rightarrow> string + block_hash"
  nd_block_count :: "string + u64"

text \<open>
  What is relied on: the wallet adds inputs and at most a change output behind the outputs it was given,
  and signing changes the witnesses only.
\<close>

definition wallet_ok :: "node \<Rightarrow> bool" where
  "wallet_ok N \<longleftrightarrow>
     (\<forall>tx tx'. nd_fund N tx = Inr tx' \<longrightarrow> (\<exists>change. outputs tx' = outputs tx @ change \<and> length change \<le> 1))
   \<and> (\<forall>tx tx' c. nd_sign N tx = Inr (tx', c) \<longrightarrow> outputs tx' = outputs tx
        \<and> map (\<lambda>i. (prev_txid i, prev_vout i)) (inputs tx') = map (\<lambda>i. (prev_txid i, prev_vout i)) (inputs tx))"

type_synonym ('e, 'a) sent = "transaction list \<times> ('e + 'a)"

fun and_send :: "'e + 'a \<Rightarrow> ('a \<Rightarrow> ('e, 'b) sent) \<Rightarrow> ('e, 'b) sent" where
  "and_send (Inl e) f = ([], Inl e)"
| "and_send (Inr a) f = f a"

definition sent_map :: "('e \<Rightarrow> 'f) \<Rightarrow> ('a \<Rightarrow> 'b) \<Rightarrow> ('e, 'a) sent \<Rightarrow> ('f, 'b) sent" where
  "sent_map g h s = (fst s, case snd s of Inl e \<Rightarrow> Inl (g e) | Inr a \<Rightarrow> Inr (h a))"

section \<open>Fees\<close>

text \<open>Fee rates are in satoshi per 1000 weight units; one satoshi per virtual byte is 250 of them.\<close>

definition DEFAULT_BTC_FEE_RATE :: u64 where "DEFAULT_BTC_FEE_RATE = 10 * 250"
definition MINIMUM_BTC_FEE_RATE :: u64 where "MINIMUM_BTC_FEE_RATE = 2 * 250"
definition MAXIMUM_BTC_FEE_RATE :: u64 where "MAXIMUM_BTC_FEE_RATE = 100 * 250"

definition from_sat_per_vb :: "u64 \<Rightarrow> u64 option" where
  "from_sat_per_vb r = (if unat r * 250 < 2 ^ 64 then Some (r * 250) else None)"

definition get_fee_rate :: "node \<Rightarrow> u64" where
  "get_fee_rate N =
     (let fee_rate = (case nd_estimate_fee N of
                        Some r \<Rightarrow> (case from_sat_per_vb (r div 1000) of Some f \<Rightarrow> f | None \<Rightarrow> DEFAULT_BTC_FEE_RATE)
                      | None \<Rightarrow> DEFAULT_BTC_FEE_RATE)
      in if fee_rate < MINIMUM_BTC_FEE_RATE then MINIMUM_BTC_FEE_RATE
         else if MAXIMUM_BTC_FEE_RATE < fee_rate then MAXIMUM_BTC_FEE_RATE
         else fee_rate)"

section \<open>Wallet and mempool\<close>

definition fund_tx :: "node \<Rightarrow> transaction \<Rightarrow> ipc_lib_error + transaction" where
  "fund_tx N tx = res_map_err WalletError (nd_fund N tx)"

definition sign_tx :: "node \<Rightarrow> transaction \<Rightarrow> ipc_lib_error + transaction" where
  "sign_tx N tx =
     res_bind (res_map_err WalletError (nd_sign N tx)) (\<lambda>(signed, complete).
       if complete then Inr signed else Inl (WalletError ''transaction signed but not complete''))"

definition get_unspent_for_address :: "node \<Rightarrow> btc_address \<Rightarrow> string + utxo list" where
  "get_unspent_for_address N a = res_bind (nd_unspent N a) (\<lambda>us. Inr (sort_utxos us))"

fun first_rejection :: "string option list \<Rightarrow> string option" where
  "first_rejection [] = None"
| "first_rejection (None # rs) = first_rejection rs"
| "first_rejection (Some reason # rs) = Some reason"

fun send_all :: "node \<Rightarrow> transaction list \<Rightarrow> (bitcoin_utils_error, unit) sent" where
  "send_all N [] = ([], Inr ())"
| "send_all N (tx # txs) =
     (case nd_send N tx of
        Inl e \<Rightarrow> ([], Inl (BitcoinRpcError e))
      | Inr _ \<Rightarrow> (let (done_txs, r) = send_all N txs in (tx # done_txs, r)))"

definition submit_to_mempool :: "node \<Rightarrow> transaction list \<Rightarrow> (bitcoin_utils_error, unit) sent" where
  "submit_to_mempool N txs =
     and_send (res_map_err MempoolAcceptanceFailed (nd_accept N txs)) (\<lambda>result.
     case first_rejection result of
       Some reason \<Rightarrow> ([], Inl (MempoolAcceptanceFailed reason))
     | None \<Rightarrow> send_all N txs)"

section \<open>Commit and reveal\<close>

definition wallet_to_utils :: "ipc_lib_error \<Rightarrow> bitcoin_utils_error" where
  "wallet_to_utils e = (case e of WalletError s \<Rightarrow> UtilsWalletError s | _ \<Rightarrow> UtilsWalletError ''wallet'')"

definition create_commit_reveal_txs ::
  "ext \<Rightarrow> codec \<Rightarrow> node \<Rightarrow> btc_address \<Rightarrow> bytes \<Rightarrow> amount option \<Rightarrow> ipc_lib_error + (transaction \<times> transaction)" where
  "create_commit_reveal_txs X C N final_address data amount_to_send =
     (let fee_rate = get_fee_rate N;
          commit_script = make_push_data_script data;
          amount_to_send = (case amount_to_send of Some a \<Rightarrow> a | None \<Rightarrow> 0)
      in
      res_bind (ok_or (p2tr_of_leaves X [(0, commit_script)])
                 (BitcoinUtilsError UtilsTaprootBuilderNotFinalizable)) (\<lambda>a.
      let commit_script_pubkey = address_script X a;
          commit_output_value = max (minimal_non_dust_custom X fee_rate commit_script_pubkey) amount_to_send
      in
      res_bind (ok_or (control_block C commit_script) (BitcoinUtilsError CannotConstructControlBlock)) (\<lambda>cb.
      let reveal_tx = (\<lambda>tid. \<lparr> lock_time = 0,
            inputs = [\<lparr> prev_txid = tid, prev_vout = 0, sequence = - 1, witness = [script_to_bytes X commit_script, cb] \<rparr>],
            outputs = [\<lparr> txo_value = commit_output_value, txo_script = address_script X final_address \<rparr>] \<rparr>)
      in
      res_bind (ok_or (fee_wu X fee_rate (tx_weight X (reveal_tx (replicate 32 0)))) (BitcoinUtilsError FeeRateOverflow)) (\<lambda>fee.
      res_bind (ipc_amount_add commit_output_value fee) (\<lambda>commit_value.
      res_bind (res_map_err (BitcoinUtilsError \<circ> wallet_to_utils)
        (res_bind (fund_tx N (create_tx_from_txouts [\<lparr> txo_value = commit_value, txo_script = commit_script_pubkey \<rparr>]))
           (sign_tx N))) (\<lambda>commit_tx.
      Inr (commit_tx, reveal_tx (compute_txid X commit_tx))))))))"

section \<open>Submitting messages\<close>

definition submit_commit_reveal ::
  "ext \<Rightarrow> codec \<Rightarrow> node \<Rightarrow> btc_address \<Rightarrow> ipc_serialize_error + bytes \<Rightarrow> amount option \<Rightarrow> (ipc_lib_error, txid) sent" where
  "submit_commit_reveal X C N final_address subnet_data amount_to_send =
     and_send (res_map_err (\<lambda>e. invalid_msg ''Could not serialize message'') subnet_data) (\<lambda>d.
     and_send (create_commit_reveal_txs X C N final_address d amount_to_send) (\<lambda>(commit_tx, reveal_tx).
     sent_map BitcoinUtilsError (\<lambda>_. compute_txid X reveal_tx) (submit_to_mempool N [commit_tx, reveal_tx])))"

definition create_submit_to_bitcoin ::
  "ext \<Rightarrow> codec \<Rightarrow> node \<Rightarrow> ipc_create_subnet_msg \<Rightarrow> (ipc_lib_error, subnet_id) sent" where
  "create_submit_to_bitcoin X C N m =
     and_send (res_map_err (\<lambda>e. invalid_msg ''Could not serialize message'') (create_to_bytes C m)) (\<lambda>d.
     and_send (res_map_err WalletError (nd_new_address N)) (\<lambda>return_address.
     sent_map id subnet_id_from_txid (submit_commit_reveal X C N return_address (Inr d) None)))"

definition join_submit_to_bitcoin ::
  "ext \<Rightarrow> codec \<Rightarrow> node \<Rightarrow> btc_address \<Rightarrow> ipc_join_subnet_msg \<Rightarrow> (ipc_lib_error, txid) sent" where
  "join_submit_to_bitcoin X C N multisig_address m =
     submit_commit_reveal X C N multisig_address (join_to_bytes C m) (Some (jm_collateral m))"

definition submit_tx :: "ext \<Rightarrow> node \<Rightarrow> ipc_lib_error + transaction \<Rightarrow> (ipc_lib_error, txid) sent" where
  "submit_tx X N funded =
     and_send (res_bind funded (sign_tx N)) (\<lambda>tx.
     sent_map BitcoinUtilsError (\<lambda>_. compute_txid X tx) (submit_to_mempool N [tx]))"

definition prefund_submit_to_bitcoin ::
  "ext \<Rightarrow> node \<Rightarrow> btc_address \<Rightarrow> ipc_prefund_subnet_msg \<Rightarrow> (ipc_lib_error, txid) sent" where
  "prefund_submit_to_bitcoin X N multisig_address m =
     and_send (res_map_err WalletError (nd_new_address N)) (\<lambda>release_address.
     submit_tx X N (res_bind (prefund_to_tx X (get_fee_rate N) multisig_address release_address m) (fund_tx N)))"

definition fund_submit_to_bitcoin ::
  "ext \<Rightarrow> node \<Rightarrow> btc_address \<Rightarrow> ipc_fund_subnet_msg \<Rightarrow> (ipc_lib_error, txid) sent" where
  "fund_submit_to_bitcoin X N multisig_address m =
     submit_tx X N (res_bind (fund_to_tx X (get_fee_rate N) multisig_address m) (fund_tx N))"

definition stake_submit_to_bitcoin ::
  "ext \<Rightarrow> node \<Rightarrow> btc_address \<Rightarrow> ipc_stake_collateral_msg \<Rightarrow> (ipc_lib_error, txid) sent" where
  "stake_submit_to_bitcoin X N multisig_address m =
     submit_tx X N (res_bind (stake_to_tx X (get_fee_rate N) multisig_address m) (fund_tx N))"

text \<open>
  Unstake and kill requests are funded with a signature of zeros; the first output is replaced once the
  first input, which is signed over, is known.
\<close>

definition replace_first_output :: "transaction \<Rightarrow> transaction \<Rightarrow> transaction" where
  "replace_first_output tx tx' = tx\<lparr> outputs := (outputs tx)[0 := outputs tx' ! 0] \<rparr>"

definition unstake_make_signature ::
  "ext \<Rightarrow> taproot \<Rightarrow> txid \<Rightarrow> bytes \<Rightarrow> ipc_unstake_collateral_msg \<Rightarrow> ipc_lib_error + bytes" where
  "unstake_make_signature X T prev sk m =
     res_bind (unstake_signature_msg X prev (x_only_public_key T sk) (um_amount m) (um_subnet_id m)) (\<lambda>msg.
       Inr (schnorr_sign T sk msg))"

definition kill_make_signature ::
  "ext \<Rightarrow> taproot \<Rightarrow> txid \<Rightarrow> bytes \<Rightarrow> ipc_kill_subnet_msg \<Rightarrow> ipc_lib_error + bytes" where
  "kill_make_signature X T prev sk m =
     res_bind (kill_signature_msg X prev (x_only_public_key T sk) (km_subnet_id m)) (\<lambda>msg.
       Inr (schnorr_sign T sk msg))"

definition sign_request ::
  "node \<Rightarrow> ipc_tag \<Rightarrow> (bytes \<Rightarrow> ipc_lib_error + transaction) \<Rightarrow> (txid \<Rightarrow> ipc_lib_error + bytes) \<Rightarrow> ipc_lib_error + transaction" where
  "sign_request N t to_tx make_signature =
     res_bind (res_bind (to_tx (replicate 64 0)) (fund_tx N)) (\<lambda>tx.
     case inputs tx of
       [] \<Rightarrow> Inl (parse_err t ''No inputs in the transaction'')
     | i # _ \<Rightarrow>
         res_bind (make_signature (prev_txid i)) (\<lambda>signature.
         res_bind (to_tx signature) (\<lambda>tx_with_signature.
         if outputs tx = [] then Inl (Panic ''index out of bounds'')
         else Inr (replace_first_output tx tx_with_signature))))"

definition unstake_submit_to_bitcoin ::
  "ext \<Rightarrow> taproot \<Rightarrow> node \<Rightarrow> btc_address \<Rightarrow> bytes \<Rightarrow> ipc_unstake_collateral_msg \<Rightarrow> (ipc_lib_error, txid) sent" where
  "unstake_submit_to_bitcoin X T N multisig_address sk m =
     submit_tx X N (sign_request N UnstakeCollateralTag
       (\<lambda>sig. unstake_to_tx X (get_fee_rate N) multisig_address sig m)
       (\<lambda>prev. unstake_make_signature X T prev sk m))"

definition kill_submit_to_bitcoin ::
  "ext \<Rightarrow> taproot \<Rightarrow> node \<Rightarrow> btc_address \<Rightarrow> bytes \<Rightarrow> ipc_kill_subnet_msg \<Rightarrow> (ipc_lib_error, txid) sent" where
  "kill_submit_to_bitcoin X T N multisig_address sk m =
     submit_tx X N (sign_request N KillSubnetTag
       (\<lambda>sig. kill_to_tx X (get_fee_rate N) multisig_address sig m)
       (\<lambda>prev. kill_make_signature X T prev sk m))"

end
