(* ===== verification/Rewards.thy ===== *)
theory Rewards
  imports Committee Db
begin

text \<open>
  Reward bookkeeping of the emission chain (\<open>src/src/rewards.rs\<close>): the snapshots of Bitcoin heights,
  the candidates of a snapshot, the collateral each validator is rewarded for, and the result that is
  stored at the end of a snapshot.  A hash map is the list of its entries; \<open>ord\<close> stands for its order
  of iteration.  Each database transaction of the tracker commits before the next one starts, so a
  late error keeps what an earlier step has written: the operations return the database and the error.
\<close>

section \<open>Configuration\<close>

record reward_config =
  rc_activation_height :: u64
  rc_snapshot_length :: u64

datatype reward_config_error = InvalidConfig string | InternalError string

datatype reward_tracker_error =
    RewardDb db_error
  | RewardConfigError string
  | RewardIpcTxInvalid string
  | RewardPanic string

definition reward_config_validate :: "reward_config \<Rightarrow> reward_config_error + unit" where
  "reward_config_validate cfg =
     (if rc_snapshot_length cfg = 0 then Inl (InvalidConfig ''snapshot_length must be > 0'') else Inr ())"

definition reward_config_new :: "u64 \<Rightarrow> u64 \<Rightarrow> reward_config_error + reward_config" where
  "reward_config_new activation_height snapshot_length =
     (let cfg = \<lparr> rc_activation_height = activation_height, rc_snapshot_length = snapshot_length \<rparr>
      in res_bind (reward_config_validate cfg) (\<lambda>_. Inr cfg))"

definition snapshot_boundaries_from_height :: "reward_config \<Rightarrow> u64 \<Rightarrow> (u64 \<times> u64 \<times> u64) option" where
  "snapshot_boundaries_from_height cfg h =
     (if h < rc_activation_height cfg then None
      else
        let len = rc_snapshot_length cfg;
            snapshot = (h - rc_activation_height cfg) div len;
            start_height = rc_activation_height cfg + snapshot * len;
            end_height = start_height + len - 1
        in Some (snapshot, start_height, end_height))"

definition snapshot_boundaries :: "reward_config \<Rightarrow> u64 \<Rightarrow> u64 \<times> u64" where
  "snapshot_boundaries cfg snapshot =
     (let len = rc_snapshot_length cfg;
          start_height = rc_activation_height cfg + snapshot * len
      in (start_height, start_height + len - 1))"

section \<open>Accessors\<close>

definition is_active_subnet :: "ext \<Rightarrow> heed_db \<Rightarrow> u64 \<Rightarrow> u64 \<Rightarrow> subnet_state \<Rightarrow> bool" where
  "is_active_subnet X db height_from height_to s =
     (case get_subnet_genesis_info X db (ss_id s) of
        None \<Rightarrow> False
      | Some g \<Rightarrow>
          if height_from < gi_create_msg_block_height g then False
          else case gi_genesis_block_height g of
            None \<Rightarrow> False
          | Some genesis_height \<Rightarrow>
              if height_from < genesis_height then False
              else case ss_killed s of
                Killed parent_height \<Rightarrow> \<not> parent_height \<le> height_to
              | _ \<Rightarrow> True)"

definition get_all_active_subnets :: "ext \<Rightarrow> heed_db \<Rightarrow> u64 \<Rightarrow> u64 \<Rightarrow> subnet_state list" where
  "get_all_active_subnets X db height_from height_to =
     filter (is_active_subnet X db height_from height_to) (get_all_subnets db)"

definition get_reward_candidate_info :: "ext \<Rightarrow> heed_db \<Rightarrow> u64 \<Rightarrow> subnet_id \<Rightarrow> subnet_reward_info option" where
  "get_reward_candidate_info X db snapshot sid = kv_get (reward_candidates_db db) (reward_candidate_key X snapshot sid)"

definition put_reward_candidate_info ::
  "ext \<Rightarrow> u64 \<Rightarrow> subnet_id \<Rightarrow> subnet_reward_info \<Rightarrow> heed_db \<Rightarrow> heed_db" where
  "put_reward_candidate_info X snapshot sid candidate txn =
     txn\<lparr> reward_candidates_db := kv_put (reward_candidate_key X snapshot sid) candidate (reward_candidates_db txn) \<rparr>"

definition delete_reward_candidate_info :: "ext \<Rightarrow> u64 \<Rightarrow> subnet_id \<Rightarrow> heed_db \<Rightarrow> heed_db" where
  "delete_reward_candidate_info X snapshot sid txn =
     txn\<lparr> reward_candidates_db := kv_delete (reward_candidate_key X snapshot sid) (reward_candidates_db txn) \<rparr>"

definition rsplit_colon :: "string \<Rightarrow> string" where
  "rsplit_colon k = rev (takeWhile (\<lambda>c. c \<noteq> CHR '':'') (rev k))"

definition candidate_entry :: "ext \<Rightarrow> string \<times> subnet_reward_info \<Rightarrow> db_error + (subnet_id \<times> subnet_reward_info)" where
  "candidate_entry X e =
     (case subnet_id_from_str X (rsplit_colon (fst e)) of
        Inl _ \<Rightarrow> Inl (InvalidChange ''invalid subnet_id in reward candidate key'')
      | Inr sid \<Rightarrow> Inr (sid, snd e))"

definition iter_reward_candidate_info ::
  "ext \<Rightarrow> heed_db \<Rightarrow> u64 \<Rightarrow> db_error + (subnet_id \<times> subnet_reward_info) list" where
  "iter_reward_candidate_info X db snapshot =
     res_mapM (candidate_entry X) (kv_prefix_iter (reward_candidates_prefix snapshot) (reward_candidates_db db))"

definition get_snapshot_result :: "heed_db \<Rightarrow> u64 \<Rightarrow> snapshot_result option" where
  "get_snapshot_result db snapshot = kv_get (reward_results_db db) (reward_result_key snapshot)"

definition put_snapshot_result :: "u64 \<Rightarrow> snapshot_result \<Rightarrow> heed_db \<Rightarrow> heed_db" where
  "put_snapshot_result snapshot r txn =
     txn\<lparr> reward_results_db := kv_put (reward_result_key snapshot) r (reward_results_db txn) \<rparr>"

section \<open>The tracker\<close>

type_synonym rewards = "(xonly_pubkey \<times> amount) list"

definition committee_collaterals :: "subnet_committee \<Rightarrow> rewards" where
  "committee_collaterals c =
     map (\<lambda>v. (v_pubkey v, v_collateral v)) (filter (\<lambda>v. 0 < v_collateral v) (cm_validators c))"

definition get_or_init_reward_amounts ::
  "ext \<Rightarrow> heed_db \<Rightarrow> subnet_id \<Rightarrow> subnet_reward_info \<Rightarrow> reward_tracker_error + rewards" where
  "get_or_init_reward_amounts X db sid info =
     (case ri_rewarded_amounts info of
        Some v \<Rightarrow> Inr v
      | None \<Rightarrow>
          res_bind (ok_or (get_committee X db sid (ri_most_recent_committee_number info))
                     (RewardIpcTxInvalid ''could not get committee'')) (\<lambda>c.
          Inr (committee_collaterals c)))"

fun entry_add :: "xonly_pubkey \<Rightarrow> amount \<Rightarrow> rewards \<Rightarrow> reward_tracker_error + rewards" where
  "entry_add pk amt [] = Inr [(pk, amt)]"
| "entry_add pk amt ((pk', a) # rest) =
     (if pk' = pk
      then res_bind (ok_or (word_checked_add a amt) (RewardPanic ''Amount overflow''))
             (\<lambda>b. Inr ((pk', b) # rest))
      else res_bind (entry_add pk amt rest) (\<lambda>r. Inr ((pk', a) # r)))"

definition add_subnet_rewards ::
  "ext \<Rightarrow> heed_db \<Rightarrow> rewards \<Rightarrow> subnet_id \<times> subnet_reward_info \<Rightarrow> reward_tracker_error + rewards" where
  "add_subnet_rewards X db rewards_total e =
     res_bind (get_or_init_reward_amounts X db (fst e) (snd e)) (\<lambda>rs.
       res_fold (\<lambda>t (pk, amt). entry_add pk amt t) rewards_total rs)"

definition start_snapshot :: "ext \<Rightarrow> u64 \<Rightarrow> u64 \<Rightarrow> u64 \<Rightarrow> heed_db \<Rightarrow> heed_db" where
  "start_snapshot X snapshot start_height end_height db =
     fold (\<lambda>s txn. put_reward_candidate_info X snapshot (ss_id s)
              \<lparr> ri_most_recent_committee_number = ss_committee_number s, ri_rewarded_amounts = None \<rparr> txn)
       (get_all_active_subnets X db start_height end_height) db"

definition end_snapshot ::
  "ext \<Rightarrow> (rewards \<Rightarrow> rewards) \<Rightarrow> u64 \<Rightarrow> heed_db \<Rightarrow> reward_tracker_error + heed_db" where
  "end_snapshot X ord snapshot db =
     res_bind (res_map_err RewardDb (iter_reward_candidate_info X db snapshot)) (\<lambda>candidates.
     res_bind (res_fold (add_subnet_rewards X db) [] candidates) (\<lambda>rewards_total.
     let rewards_list = ord rewards_total in
     res_bind (ok_or (word_checked_sum (map snd rewards_list)) (RewardPanic ''Amount overflow'')) (\<lambda>s.
     Inr (put_snapshot_result snapshot
            \<lparr> sr_rewards_list = rewards_list, sr_total_rewarded_collateral = s \<rparr> db))))"

definition update_after_block ::
  "ext \<Rightarrow> (rewards \<Rightarrow> rewards) \<Rightarrow> reward_config \<Rightarrow> u64 \<Rightarrow> heed_db \<Rightarrow> heed_db \<times> (reward_tracker_error + unit)" where
  "update_after_block X ord cfg block_height db =
     (case snapshot_boundaries_from_height cfg block_height of
        None \<Rightarrow> (db, Inr ())
      | Some (snapshot, start_height, end_height) \<Rightarrow>
          let db1 = (if block_height = start_height then start_snapshot X snapshot start_height end_height db else db)
          in if block_height = end_height
             then case end_snapshot X ord snapshot db1 of
                    Inl e \<Rightarrow> (db1, Inl e)
                  | Inr db2 \<Rightarrow> (db2, Inr ())
             else (db1, Inr ()))"

text \<open>The minimum with the new committee: a validator that is not in it, or has no collateral, is dropped.\<close>

definition min_with_committee :: "subnet_committee \<Rightarrow> rewards \<Rightarrow> rewards" where
  "min_with_committee c rs =
     (let new_committee_collaterals = map_of (rev (committee_collaterals c))
      in List.map_filter (\<lambda>(pk, a). map_option (\<lambda>b. (pk, min a b)) (new_committee_collaterals pk)) rs)"

definition update_after_checkpoint ::
  "ext \<Rightarrow> reward_config \<Rightarrow> u64 \<Rightarrow> subnet_id \<Rightarrow> subnet_checkpoint \<Rightarrow> heed_db \<Rightarrow> reward_tracker_error + heed_db" where
  "update_after_checkpoint X cfg block_height sid checkpoint db =
     (case snapshot_boundaries_from_height cfg block_height of
        None \<Rightarrow> Inr db
      | Some (current_snapshot, start_height, _) \<Rightarrow>
          if block_height = start_height then Inr db
          else if cp_is_kill_checkpoint checkpoint
          then Inr (delete_reward_candidate_info X current_snapshot sid db)
          else if cp_signed_committee_number checkpoint = cp_next_committee_number checkpoint then Inr db
          else case get_reward_candidate_info X db current_snapshot sid of
            None \<Rightarrow> Inr db
          | Some cand_info \<Rightarrow>
              if cp_next_committee_number checkpoint = ri_most_recent_committee_number cand_info then Inr db
              else
              res_bind (get_or_init_reward_amounts X db sid cand_info) (\<lambda>rewards_in_subnet.
              res_bind (ok_or (get_committee X db sid (cp_next_committee_number checkpoint))
                         (RewardIpcTxInvalid ''could not get committee'')) (\<lambda>new_committee.
              Inr (put_reward_candidate_info X current_snapshot sid
                     \<lparr> ri_most_recent_committee_number = cp_next_committee_number checkpoint,
                       ri_rewarded_amounts = Some (min_with_committee new_committee rewards_in_subnet) \<rparr> db))))"

section \<open>Snapshots\<close>

lemma snapshot_start:
  assumes "rc_activation_height cfg \<le> h"
  defines "n \<equiv> (h - rc_activation_height cfg) div rc_snapshot_length cfg"
  shows "unat (rc_activation_height cfg + n * rc_snapshot_length cfg)
     = unat (rc_activation_height cfg) + (unat h - unat (rc_activation_height cfg)) div unat (rc_snapshot_length cfg)
         * unat (rc_snapshot_length cfg)"
proof -
  let ?A = "unat (rc_activation_height cfg)" and ?L = "unat (rc_snapshot_length cfg)" and ?H = "unat h"
  have le: "?A \<le> ?H" using assms(1) by (simp add: word_le_nat_alt)
  have n: "unat n = (?H - ?A) div ?L" using assms(1) by (simp add: n_def unat_div unat_sub)
  have small: "(?H - ?A) div ?L * ?L \<le> ?H - ?A" by (rule div_times_less_eq_dividend)
  have H: "?H < 2 ^ 64" using unsigned_less [of h, where ?'a = nat] by simp
  have "unat n * ?L < 2 ^ 64" using small H le unfolding n by linarith
  then have m: "unat (n * rc_snapshot_length cfg) = (?H - ?A) div ?L * ?L"
    using unat_mult_lem [of n "rc_snapshot_length cfg"] by (simp add: n)
  have "?A + unat (n * rc_snapshot_length cfg) < 2 ^ 64" using small H le unfolding m by linarith
  then show ?thesis
    using unat_add_lem [of "rc_activation_height cfg" "n * rc_snapshot_length cfg"] by (simp add: m)
qed

lemma snapshot_of_nat:
  assumes "rc_snapshot_length cfg \<noteq> 0" "rc_activation_height cfg \<le> h"
    and "unat h + unat (rc_snapshot_length cfg) < 2 ^ 64"
  obtains n a b where "snapshot_boundaries_from_height cfg h = Some (n, a, b)" "snapshot_boundaries cfg n = (a, b)"
    "unat n = (unat h - unat (rc_activation_height cfg)) div unat (rc_snapshot_length cfg)"
    "unat a = unat (rc_activation_height cfg) + unat n * unat (rc_snapshot_length cfg)"
    "unat b + 1 = unat a + unat (rc_snapshot_length cfg)"
proof -
  let ?L = "rc_snapshot_length cfg"
  define n where "n = (h - rc_activation_height cfg) div ?L"
  define a where "a = rc_activation_height cfg + n * ?L"
  have n: "unat n = (unat h - unat (rc_activation_height cfg)) div unat ?L"
    using assms(2) by (simp add: n_def unat_div unat_sub)
  have a: "unat a = unat (rc_activation_height cfg) + unat n * unat ?L"
    using snapshot_start [OF assms(2)] n by (simp add: a_def n_def)
  have "unat (rc_activation_height cfg) \<le> unat h" using assms(2) by (simp add: word_le_nat_alt)
  then have "unat a \<le> unat h"
    using div_times_less_eq_dividend [of "unat h - unat (rc_activation_height cfg)" "unat ?L"]
    unfolding a n by linarith
  then have e: "unat (a + ?L) = unat a + unat ?L" using assms(3) unat_add_lem [of a ?L] by simp
  have pos: "0 < unat ?L" using assms(1) by (simp add: unat_gt_0)
  have "1 \<le> a + ?L" using e pos by (simp add: word_le_nat_alt)
  then have "unat (a + ?L - 1) + 1 = unat a + unat ?L" using e pos unat_sub [of 1 "a + ?L"] by simp
  then show thesis
    using that [of n a "a + ?L - 1"] n a assms(2)
    by (simp add: snapshot_boundaries_from_height_def snapshot_boundaries_def Let_def n_def a_def not_less)
qed

text \<open>
  The snapshots tile the Bitcoin heights from the activation height on: the snapshot of a height
  contains it, has the configured length, agrees with the boundaries of its number, and is the snapshot
  of every height between its two ends.
\<close>

theorem snapshots_tile_heights:
  assumes "rc_snapshot_length cfg \<noteq> 0" "rc_activation_height cfg \<le> h"
    and "unat h + 2 * unat (rc_snapshot_length cfg) < 2 ^ 64"
  shows "\<exists>n a b. snapshot_boundaries_from_height cfg h = Some (n, a, b) \<and> snapshot_boundaries cfg n = (a, b)
     \<and> a \<le> h \<and> h \<le> b \<and> unat b + 1 = unat a + unat (rc_snapshot_length cfg)
     \<and> (\<forall>h'. a \<le> h' \<and> h' \<le> b \<longrightarrow> snapshot_boundaries_from_height cfg h' = Some (n, a, b))"
proof -
  let ?L = "unat (rc_snapshot_length cfg)" and ?A = "unat (rc_activation_height cfg)"
  have L: "0 < ?L" using assms(1) by (simp add: unat_gt_0)
  have hA: "?A \<le> unat h" using assms(2) by (simp add: word_le_nat_alt)
  obtain n a b where n: "snapshot_boundaries_from_height cfg h = Some (n, a, b)" "snapshot_boundaries cfg n = (a, b)"
    "unat n = (unat h - ?A) div ?L" "unat a = ?A + unat n * ?L" "unat b + 1 = unat a + ?L"
    using snapshot_of_nat [OF assms(1,2)] assms(3) by auto
  have "(unat h - ?A) div ?L * ?L + (unat h - ?A) mod ?L = unat h - ?A" by simp
  moreover have "(unat h - ?A) mod ?L < ?L" using L by simp
  moreover have "unat b + 1 = ?A + (unat h - ?A) div ?L * ?L + ?L" using n by simp
  ultimately have h: "unat a \<le> unat h" "unat h \<le> unat b" using n(5) hA by linarith+
  have same: "snapshot_boundaries_from_height cfg h' = Some (n, a, b)" if h': "unat a \<le> unat h'" "unat h' \<le> unat b" for h'
  proof -
    have "rc_activation_height cfg \<le> h'" using h'(1) n(4) by (simp add: word_le_nat_alt)
    moreover have "unat h' + ?L < 2 ^ 64" using h' h n(5) assms(3) by linarith
    ultimately obtain n' a' b' where n': "snapshot_boundaries_from_height cfg h' = Some (n', a', b')"
      "snapshot_boundaries cfg n' = (a', b')" "unat n' = (unat h' - ?A) div ?L"
      using snapshot_of_nat [OF assms(1)] by metis
    have "unat h' - ?A = (unat h' - unat a) + unat n * ?L" using h' n(4) by linarith
    moreover have "unat h' - unat a < ?L" using h' n(5) L by linarith
    ultimately have "(unat h' - ?A) div ?L = unat n" using L by simp
    then have "n' = n" using n'(3) by (simp add: word_unat_eq_iff)
    then show ?thesis using n'(1,2) n(2) by simp
  qed
  show ?thesis using n(1,2,5) h same by (auto simp: word_le_nat_alt)
qed

theorem snapshots_tile_heights_witness:
  "\<exists>n a b. snapshot_boundaries_from_height \<lparr> rc_activation_height = 100, rc_snapshot_length = 5 \<rparr> 107 = Some (n, a, b)
     \<and> a \<le> 107 \<and> 107 \<le> b \<and> unat b + 1 = unat a + 5"
  using snapshots_tile_heights [of "\<lparr> rc_activation_height = 100, rc_snapshot_length = 5 \<rparr>" 107] by auto

section \<open>The rewarded collateral is a minimum\<close>

definition staked :: "subnet_committee \<Rightarrow> xonly_pubkey \<Rightarrow> amount option" where
  "staked c pk = (case find (\<lambda>v. v_pubkey v = pk) (cm_validators c) of
     Some v \<Rightarrow> if 0 < v_collateral v then Some (v_collateral v) else None | None \<Rightarrow> None)"

definition both_min :: "amount option \<Rightarrow> amount option \<Rightarrow> amount option" where
  "both_min p q = (case p of None \<Rightarrow> None | Some a \<Rightarrow> map_option (min a) q)"

lemma map_of_filtered_validators:
  "distinct (map v_pubkey vs) \<Longrightarrow>
     map_of (map (\<lambda>v. (v_pubkey v, v_collateral v)) (filter (\<lambda>v. 0 < v_collateral v) vs)) pk
       = (case find (\<lambda>v. v_pubkey v = pk) vs of
            Some v \<Rightarrow> if 0 < v_collateral v then Some (v_collateral v) else None | None \<Rightarrow> None)"
proof (induction vs)
  case (Cons v vs)
  have "map_of (map (\<lambda>v. (v_pubkey v, v_collateral v)) (filter (\<lambda>v. 0 < v_collateral v) vs)) (v_pubkey v) = None"
    using Cons.prems by (auto simp: map_of_eq_None_iff)
  then show ?case using Cons by auto
qed simp

lemma map_of_committee_collaterals:
  "distinct (map v_pubkey (cm_validators c)) \<Longrightarrow> map_of (committee_collaterals c) pk = staked c pk"
  unfolding committee_collaterals_def staked_def by (rule map_of_filtered_validators)

lemma map_of_rev_committee:
  assumes "distinct (map v_pubkey (cm_validators c))"
  shows "map_of (rev (committee_collaterals c)) pk = staked c pk"
proof -
  have "distinct (map fst (committee_collaterals c))"
    using assms by (simp add: committee_collaterals_def comp_def distinct_map_filter)
  then have "map_of (rev (committee_collaterals c)) = map_of (committee_collaterals c)"
    by (intro map_of_inject_set [THEN iffD2]) (simp_all add: rev_map [symmetric])
  then show ?thesis using map_of_committee_collaterals [OF assms] by simp
qed

lemma map_of_min_with_committee:
  assumes "distinct (map v_pubkey (cm_validators c))"
  shows "map_of (min_with_committee c rs) pk = both_min (map_of rs pk) (staked c pk)"
  using map_of_rev_committee [OF assms]
  by (induction rs) (auto simp: min_with_committee_def map_filter_simps both_min_def Let_def split: option.splits)

lemma reward_candidate_key_inject [simp]:
  "ext_ok X \<Longrightarrow> reward_candidate_key X n a = reward_candidate_key X m b \<longleftrightarrow> n = m \<and> a = b"
  by (auto simp: reward_candidate_key_def append_sep_inj)

lemma get_put_reward_candidate [db_simps]:
  "ext_ok X \<Longrightarrow> db_ok db \<Longrightarrow> get_reward_candidate_info X (put_reward_candidate_info X n sid i db) m tid
     = (if m = n \<and> tid = sid then Some i else get_reward_candidate_info X db m tid)"
  by (auto simp: get_reward_candidate_info_def put_reward_candidate_info_def akv.get_put)

lemma put_reward_candidate_frame [simp]:
  "get_committee X (put_reward_candidate_info X n sid i db) tid k = get_committee X db tid k"
  "db_ok db \<Longrightarrow> db_ok (put_reward_candidate_info X n sid i db)"
  by (simp_all add: put_reward_candidate_info_def get_committee_def db_ok_def akv.ok_put del: db_ok_tables)

definition rotates_in ::
  "ext \<Rightarrow> reward_config \<Rightarrow> heed_db \<Rightarrow> subnet_id \<Rightarrow> u64 \<Rightarrow> u64 \<times> subnet_checkpoint \<Rightarrow> subnet_committee \<Rightarrow> bool" where
  "rotates_in X cfg db sid n e c \<longleftrightarrow>
     (\<exists>a b. snapshot_boundaries_from_height cfg (fst e) = Some (n, a, b) \<and> fst e \<noteq> a)
   \<and> \<not> cp_is_kill_checkpoint (snd e)
   \<and> cp_signed_committee_number (snd e) \<noteq> cp_next_committee_number (snd e)
   \<and> get_committee X db sid (cp_next_committee_number (snd e)) = Some c
   \<and> distinct (map v_pubkey (cm_validators c))"

lemma rotation_step:
  assumes "rotates_in X cfg db sid n e c" "get_reward_candidate_info X db n sid = Some info"
    and "cp_next_committee_number (snd e) \<noteq> ri_most_recent_committee_number info"
    and "get_or_init_reward_amounts X db sid info = Inr rs"
  shows "update_after_checkpoint X cfg (fst e) sid (snd e) db = Inr (put_reward_candidate_info X n sid
           \<lparr> ri_most_recent_committee_number = cp_next_committee_number (snd e),
             ri_rewarded_amounts = Some (min_with_committee c rs) \<rparr> db)"
  using assms by (auto simp: rotates_in_def update_after_checkpoint_def)

lemma rotations_accumulate:
  assumes "ext_ok X" "db_ok db" "list_all2 (rotates_in X cfg db sid n) es cs"
    and "get_reward_candidate_info X db n sid = Some info" "get_or_init_reward_amounts X db sid info = Inr rs"
    and "successively (\<noteq>) (ri_most_recent_committee_number info # map (\<lambda>e. cp_next_committee_number (snd e)) es)"
  shows "\<exists>db' info' rs'. res_fold (\<lambda>db e. update_after_checkpoint X cfg (fst e) sid (snd e) db) db es = Inr db'
     \<and> get_reward_candidate_info X db' n sid = Some info' \<and> get_or_init_reward_amounts X db' sid info' = Inr rs'
     \<and> (\<forall>pk. map_of rs' pk = fold (\<lambda>c p. both_min p (staked c pk)) cs (map_of rs pk))"
  using assms(2-6)
proof (induction es arbitrary: cs db info rs)
  case Nil
  then show ?case by simp
next
  case (Cons e es)
  then obtain c cs' where cs: "cs = c # cs'" "rotates_in X cfg db sid n e c" "list_all2 (rotates_in X cfg db sid n) es cs'"
    by (auto simp: list_all2_Cons1)
  let ?i = "\<lparr> ri_most_recent_committee_number = cp_next_committee_number (snd e),
             ri_rewarded_amounts = Some (min_with_committee c rs) \<rparr>"
  let ?db = "put_reward_candidate_info X n sid ?i db"
  have "cp_next_committee_number (snd e) \<noteq> ri_most_recent_committee_number info" using Cons.prems(5) by auto
  from rotation_step [OF cs(2) Cons.prems(3) this Cons.prems(4)]
  have up: "update_after_checkpoint X cfg (fst e) sid (snd e) db = Inr ?db" .
  have "list_all2 (rotates_in X cfg ?db sid n) es cs'"
    using cs(3) by (simp add: rotates_in_def [abs_def])
  then obtain db' info' rs' where "res_fold (\<lambda>db e. update_after_checkpoint X cfg (fst e) sid (snd e) db) ?db es = Inr db'
     \<and> get_reward_candidate_info X db' n sid = Some info' \<and> get_or_init_reward_amounts X db' sid info' = Inr rs'
     \<and> (\<forall>pk. map_of rs' pk = fold (\<lambda>c p. both_min p (staked c pk)) cs' (map_of (min_with_committee c rs) pk))"
    using Cons.IH [of ?db cs' ?i "min_with_committee c rs"] Cons.prems(1,5) assms(1)
    by (auto simp: get_put_reward_candidate get_or_init_reward_amounts_def)
  moreover have "map_of (min_with_committee c rs) pk = both_min (map_of rs pk) (staked c pk)" for pk
    using cs(2) by (intro map_of_min_with_committee) (simp add: rotates_in_def)
  ultimately show ?case using up cs(1) by auto
qed

lemma fold_both_min:
  "fold (\<lambda>c p. both_min p (f c)) cs (Some a)
     = (if \<forall>c \<in> set cs. f c \<noteq> None then Some (Min (insert a ((the \<circ> f) ` set cs))) else None)"
  and fold_both_min_None: "fold (\<lambda>c p. both_min p (f c)) cs None = None"
proof -
  show dead: "fold (\<lambda>c p. both_min p (f c)) cs None = None" for cs by (induction cs) (simp_all add: both_min_def)
  show "fold (\<lambda>c p. both_min p (f c)) cs (Some a)
     = (if \<forall>c \<in> set cs. f c \<noteq> None then Some (Min (insert a ((the \<circ> f) ` set cs))) else None)"
  proof (induction cs arbitrary: a)
    case (Cons c cs)
    show ?case
    proof (cases "f c")
      case (Some b)
      have "Min (insert (min a b) ((the \<circ> f) ` set cs)) = Min (insert a (insert b ((the \<circ> f) ` set cs)))"
        by (cases "set cs = {}") (simp_all add: Min_insert min.assoc)
      then show ?thesis using Cons.IH [of "min a b"] Some by (simp add: both_min_def)
    next
      case None
      moreover have "both_min (Some a) None = None" by (simp add: both_min_def)
      ultimately show ?thesis by (simp add: dead)
    qed
  qed simp
qed

text \<open>
  C14. In a snapshot with any sequence of committee rotations, the collateral a validator is rewarded for
  is the smallest it had in the committee at the start and in each committee rotated to; a validator
  missing from one of them, or without collateral there, is rewarded for nothing.
\<close>

theorem rewarded_collateral_is_minimum:
  assumes "ext_ok X" "db_ok db" "list_all2 (rotates_in X cfg db sid n) es cs"
    and "get_reward_candidate_info X db n sid = Some \<lparr> ri_most_recent_committee_number = k, ri_rewarded_amounts = None \<rparr>"
    and "get_committee X db sid k = Some c0" "distinct (map v_pubkey (cm_validators c0))"
    and "successively (\<noteq>) (k # map (\<lambda>e. cp_next_committee_number (snd e)) es)"
  shows "\<exists>db' info rs. res_fold (\<lambda>db e. update_after_checkpoint X cfg (fst e) sid (snd e) db) db es = Inr db'
     \<and> get_reward_candidate_info X db' n sid = Some info \<and> get_or_init_reward_amounts X db' sid info = Inr rs
     \<and> (\<forall>pk. map_of rs pk = (if \<exists>c \<in> set (c0 # cs). staked c pk = None then None
            else Some (Min ((\<lambda>c. the (staked c pk)) ` set (c0 # cs)))))"
proof -
  let ?i = "\<lparr> ri_most_recent_committee_number = k, ri_rewarded_amounts = None \<rparr>"
  have init: "get_or_init_reward_amounts X db sid ?i = Inr (committee_collaterals c0)"
    using assms(5) by (simp add: get_or_init_reward_amounts_def)
  have "fold (\<lambda>c p. both_min p (staked c pk)) cs (staked c0 pk)
      = (if \<exists>c \<in> set (c0 # cs). staked c pk = None then None else Some (Min ((\<lambda>c. the (staked c pk)) ` set (c0 # cs))))" for pk
    by (cases "staked c0 pk") (auto simp: fold_both_min fold_both_min_None comp_def)
  then show ?thesis
    using rotations_accumulate [OF assms(1-4) init] assms(7)
    by (simp add: map_of_committee_collaterals [OF assms(6)])
qed

definition staked_committee :: "amount \<Rightarrow> subnet_committee" where
  "staked_committee a = (demo_committee 0)\<lparr> cm_validators := [(demo_validator 1 5)\<lparr> v_collateral := a \<rparr>] \<rparr>"

definition reward_db :: heed_db where
  "reward_db = put_reward_candidate_info demo_ext 1 demo_id
     \<lparr> ri_most_recent_committee_number = 1, ri_rewarded_amounts = None \<rparr>
     (save_committee demo_ext demo_id 2 (staked_committee 30)
       (save_committee demo_ext demo_id 1 (staked_committee 50) empty_db))"

definition rotation_checkpoint :: subnet_checkpoint where
  "rotation_checkpoint = \<lparr> cp_checkpoint_number = 0, cp_checkpoint_hash = [], cp_checkpoint_height = 1, cp_block_height = 107,
     cp_txid = [], cp_batch_transfer_txid = None, cp_batch_transfer_block_height = None,
     cp_signed_committee_number = 1, cp_next_committee_number = 2, cp_next_configuration_number = 1,
     cp_is_kill_checkpoint = False \<rparr>"

lemma reward_db_reads:
  "db_ok reward_db" "get_committee demo_ext reward_db demo_id 1 = Some (staked_committee 50)"
  "get_committee demo_ext reward_db demo_id 2 = Some (staked_committee 30)"
  "get_reward_candidate_info demo_ext reward_db 1 demo_id
     = Some \<lparr> ri_most_recent_committee_number = 1, ri_rewarded_amounts = None \<rparr>"
  using demo_ext_ok by (simp_all add: reward_db_def db_simps)

theorem rewarded_collateral_is_minimum_witness:
  "\<exists>db' info rs. update_after_checkpoint demo_ext \<lparr> rc_activation_height = 100, rc_snapshot_length = 5 \<rparr> 107 demo_id
        rotation_checkpoint reward_db = Inr db'
     \<and> get_reward_candidate_info demo_ext db' 1 demo_id = Some info
     \<and> get_or_init_reward_amounts demo_ext db' demo_id info = Inr rs \<and> map_of rs (replicate 32 1) = Some 30"
proof -
  let ?cfg = "\<lparr> rc_activation_height = 100, rc_snapshot_length = 5 \<rparr>"
  have r: "list_all2 (rotates_in demo_ext ?cfg reward_db demo_id 1) [(107, rotation_checkpoint)] [staked_committee 30]"
    using reward_db_reads
    by (simp add: rotates_in_def rotation_checkpoint_def snapshot_boundaries_from_height_def Let_def staked_committee_def)
  have s: "staked (staked_committee a) (replicate 32 1) = (if 0 < a then Some a else None)" for a
    by (simp add: staked_def staked_committee_def demo_validator_def)
  have d: "distinct (map v_pubkey (cm_validators (staked_committee 50)))"
    "successively (\<noteq>) (1 # map (\<lambda>e. cp_next_committee_number (snd e)) [(107, rotation_checkpoint)])"
    by (simp_all add: staked_committee_def rotation_checkpoint_def)
  from rewarded_collateral_is_minimum [OF demo_ext_ok reward_db_reads(1) r reward_db_reads(4,2) d]
  obtain db' info rs where f: "res_fold (\<lambda>db e. update_after_checkpoint demo_ext ?cfg (fst e) demo_id (snd e) db) reward_db
      [(107, rotation_checkpoint)] = Inr db'"
    "get_reward_candidate_info demo_ext db' 1 demo_id = Some info"
    "get_or_init_reward_amounts demo_ext db' demo_id info = Inr rs"
    "map_of rs (replicate 32 1) = Some (Min ((\<lambda>c. the (staked c (replicate 32 1))) ` set [staked_committee 50, staked_committee 30]))"
    by (auto simp: s)
  from f(1) have "update_after_checkpoint demo_ext ?cfg 107 demo_id rotation_checkpoint reward_db = Inr db'"
    by (auto simp: res_simps)
  then show ?thesis using f(2-4) by (simp add: s)
qed

section \<open>The result of a snapshot\<close>

lemma entry_add_props:
  assumes "entry_add pk amt rs = Inr rs'" "distinct (map fst rs)"
  shows "distinct (map fst rs') \<and> set (map fst rs') = insert pk (set (map fst rs))
    \<and> (\<forall>k. sum_list (map (unat \<circ> snd) (filter (\<lambda>e. fst e = k) rs'))
         = sum_list (map (unat \<circ> snd) (filter (\<lambda>e. fst e = k) rs)) + (if k = pk then unat amt else 0))"
  using assms
proof (induction pk amt rs arbitrary: rs' rule: entry_add.induct)
  case (2 pk amt pk' a rest)
  show ?case
  proof (cases "pk' = pk")
    case True
    with "2.prems" obtain b where "word_checked_add a amt = Some b" "rs' = (pk', b) # rest" by (auto simp: res_simps)
    then show ?thesis using True "2.prems"(2) by (auto simp: word_checked_add_Some)
  next
    case False
    with "2.prems" obtain r where "entry_add pk amt rest = Inr r" "rs' = (pk', a) # r" by (auto simp: res_simps)
    then show ?thesis using "2.IH" False "2.prems"(2) by auto
  qed
qed auto

definition entries_of :: "xonly_pubkey \<Rightarrow> rewards \<Rightarrow> nat" where
  "entries_of k rs = sum_list (map (unat \<circ> snd) (filter (\<lambda>e. fst e = k) rs))"

lemma entries_of_append [simp]: "entries_of k (xs @ ys) = entries_of k xs + entries_of k ys"
  by (simp add: entries_of_def)

lemma entries_of_simps [simp]:
  "entries_of k [] = 0" "entries_of k ((pk, a) # rs) = (if pk = k then unat a else 0) + entries_of k rs"
  by (simp_all add: entries_of_def)

lemma entries_fold:
  assumes "res_fold (\<lambda>t (pk, amt). entry_add pk amt t) t rs = Inr t'" "distinct (map fst t)"
  shows "distinct (map fst t') \<and> (\<forall>k. entries_of k t' = entries_of k t + entries_of k rs)"
  using assms
proof (induction rs arbitrary: t)
  case (Cons e rs)
  obtain pk amt where e: "e = (pk, amt)" by (cases e)
  with Cons.prems obtain u where u: "entry_add pk amt t = Inr u" "res_fold (\<lambda>t (pk, amt). entry_add pk amt t) u rs = Inr t'"
    by (auto simp: res_simps)
  from entry_add_props [OF u(1) Cons.prems(2)] Cons.IH [OF u(2)] e show ?case
    by (auto simp: entries_of_def)
qed simp

lemma subnet_rewards_fold:
  assumes "res_fold (add_subnet_rewards X db) t es = Inr t'" "distinct (map fst t)"
  shows "\<exists>rss. list_all2 (\<lambda>e rs. get_or_init_reward_amounts X db (fst e) (snd e) = Inr rs) es rss
     \<and> distinct (map fst t') \<and> (\<forall>k. entries_of k t' = entries_of k t + entries_of k (concat rss))"
  using assms
proof (induction es arbitrary: t)
  case Nil
  then show ?case by simp
next
  case (Cons e es)
  from Cons.prems(1) obtain u where a: "add_subnet_rewards X db t e = Inr u"
    and u3: "res_fold (add_subnet_rewards X db) u es = Inr t'" by (auto simp: res_simps)
  from a obtain rs where u: "get_or_init_reward_amounts X db (fst e) (snd e) = Inr rs"
    "res_fold (\<lambda>t (pk, amt). entry_add pk amt t) t rs = Inr u"
    by (auto simp: add_subnet_rewards_def res_simps)
  from entries_fold [OF u(2) Cons.prems(2)] Cons.IH [OF u3] obtain rss where
    "list_all2 (\<lambda>e rs. get_or_init_reward_amounts X db (fst e) (snd e) = Inr rs) es rss"
    "distinct (map fst t')" "\<forall>k. entries_of k t' = entries_of k t + entries_of k rs + entries_of k (concat rss)" by auto
  then show ?case using u(1) by (intro exI [of _ "rs # rss"]) simp
qed

lemma entries_of_mset: "mset xs = mset ys \<Longrightarrow> entries_of k xs = entries_of k ys"
proof -
  assume "mset xs = mset ys"
  then have "mset (map (unat \<circ> snd) (filter (\<lambda>e. fst e = k) xs)) = mset (map (unat \<circ> snd) (filter (\<lambda>e. fst e = k) ys))"
    by simp
  then show ?thesis unfolding entries_of_def by (metis sum_mset_sum_list)
qed

lemma get_put_snapshot_result:
  "db_ok db \<Longrightarrow> get_snapshot_result (put_snapshot_result n r db) n = Some r"
  by (simp add: get_snapshot_result_def put_snapshot_result_def akv.get_put)

text \<open>
  C15. The result stored at the end of a snapshot lists each validator once, with the sum over all
  candidate subnets of the collateral it is rewarded for there, whatever the order of iteration of the
  hash map; the stored total is the sum of the list.
\<close>

theorem snapshot_result_sums:
  assumes "db_ok db" "\<forall>xs. mset (ord xs) = mset xs" "end_snapshot X ord n db = Inr db'"
  shows "\<exists>cands rss r. iter_reward_candidate_info X db n = Inr cands
     \<and> list_all2 (\<lambda>e rs. get_or_init_reward_amounts X db (fst e) (snd e) = Inr rs) cands rss
     \<and> get_snapshot_result db' n = Some r \<and> distinct (map fst (sr_rewards_list r))
     \<and> (\<forall>k. entries_of k (sr_rewards_list r) = entries_of k (concat rss))
     \<and> unat (sr_total_rewarded_collateral r) = sum_list (map (unat \<circ> snd) (sr_rewards_list r))"
proof -
  from assms(3) obtain cands t s where c: "iter_reward_candidate_info X db n = Inr cands"
    "res_fold (add_subnet_rewards X db) [] cands = Inr t" "word_checked_sum (map snd (ord t)) = Some s"
    "db' = put_snapshot_result n \<lparr> sr_rewards_list = ord t, sr_total_rewarded_collateral = s \<rparr> db"
    by (auto simp: end_snapshot_def Let_def res_simps)
  from subnet_rewards_fold [OF c(2)] obtain rss where
    rss: "list_all2 (\<lambda>e rs. get_or_init_reward_amounts X db (fst e) (snd e) = Inr rs) cands rss"
    "distinct (map fst t)" "\<forall>k. entries_of k t = entries_of k (concat rss)" by auto
  have m: "mset (ord t) = mset t" using assms(2) by blast
  then have "distinct (map fst (ord t))" using rss(2) by (metis mset_eq_imp_distinct_iff mset_map)
  moreover have "unat s = sum_list (map (unat \<circ> snd) (ord t))"
    using word_checked_sum_Some [OF c(3)] by (simp add: comp_def)
  ultimately show ?thesis
    using c(1,4) rss entries_of_mset [OF m] get_put_snapshot_result [OF assms(1)] by (auto intro!: exI)
qed

lemma rsplit_candidate_key:
  assumes "ext_ok X"
  shows "rsplit_colon (reward_candidate_key X n sid) = subnet_id_display X sid"
proof -
  have "\<forall>c \<in> set (rev (subnet_id_display X sid)). c \<noteq> CHR '':''"
    using subnet_id_display_no_colon [OF assms, of sid] by auto
  then show ?thesis
    by (simp add: rsplit_colon_def reward_candidate_key_def takeWhile_append2 del: set_rev)
qed

lemma candidate_entry_key:
  "ext_ok X \<Longrightarrow> candidate_entry X (reward_candidate_key X n sid, i) = Inr (sid, i)"
  by (simp add: candidate_entry_def rsplit_candidate_key subnet_id_parse_display)

theorem snapshot_result_sums_witness:
  "\<exists>db' r. end_snapshot demo_ext id 1 reward_db = Inr db' \<and> get_snapshot_result db' 1 = Some r
     \<and> distinct (map fst (sr_rewards_list r)) \<and> entries_of (replicate 32 1) (sr_rewards_list r) = 50"
proof -
  let ?i = "\<lparr> ri_most_recent_committee_number = 1, ri_rewarded_amounts = None \<rparr>"
  have t: "reward_candidates_db reward_db = [(reward_candidate_key demo_ext 1 demo_id, ?i)]"
    by (simp add: reward_db_def put_reward_candidate_info_def save_committee_def empty_db_def)
  have it: "iter_reward_candidate_info demo_ext reward_db 1 = Inr [(demo_id, ?i)]"
    using demo_ext_ok
    by (simp add: iter_reward_candidate_info_def t kv_prefix_iter_def candidate_entry_key)
      (simp add: reward_candidates_prefix_def reward_candidate_key_def)
  have rs: "get_or_init_reward_amounts demo_ext reward_db demo_id ?i = Inr [(replicate 32 1, 50)]"
    using reward_db_reads(2)
    by (simp add: get_or_init_reward_amounts_def committee_collaterals_def staked_committee_def demo_validator_def)
  obtain db' where e: "end_snapshot demo_ext id 1 reward_db = Inr db'"
    using it rs by (auto simp: end_snapshot_def add_subnet_rewards_def word_checked_add_def)
  from snapshot_result_sums [OF reward_db_reads(1) _ e] it obtain rss r where
    "list_all2 (\<lambda>e rs. get_or_init_reward_amounts demo_ext reward_db (fst e) (snd e) = Inr rs) [(demo_id, ?i)] rss"
    "get_snapshot_result db' 1 = Some r" "distinct (map fst (sr_rewards_list r))"
    "entries_of (replicate 32 1) (sr_rewards_list r) = entries_of (replicate 32 1) (concat rss)" by auto
  then show ?thesis using e rs by (auto simp: list_all2_Cons1)
qed

end
