(* ===== verification/Provider.thy ===== *)
theory Provider
  imports Node Rewards
begin

text \<open>
  The JSON-RPC provider (\<open>src/src/provider/rpc.rs\<close>, \<open>src/src/provider/server.rs\<close>): one function per
  method.  A method reads the database, asks the Bitcoin node and may hand transactions to it; it never
  writes the database.  The responses keep the values and leave out the encodings (base64, hex) and the
  hash of the serialized PSBT.  An encoded parameter is given as what its decoder returns, \<open>None\<close> when
  it fails.
\<close>

section \<open>Errors and state\<close>

datatype rpc_error =
    Unauthorized
  | InvalidParams string
  | RpcDbError db_error
  | InternalError string
  | JsonInternal string
  | RpcPanic string

fun rpc_error_code :: "rpc_error \<Rightarrow> int option" where
  "rpc_error_code Unauthorized = Some (- 32001)"
| "rpc_error_code (InvalidParams s) = Some (- 32602)"
| "rpc_error_code (InternalError s) = Some (- 32603)"
| "rpc_error_code (RpcDbError e) = Some (- 32603)"
| "rpc_error_code (JsonInternal s) = Some (- 32603)"
| "rpc_error_code (RpcPanic s) = None"

record server_data =
  sd_db :: heed_db
  sd_validator :: "(xonly_pubkey \<times> bytes) option"

definition auth_guard :: "string option \<Rightarrow> string \<Rightarrow> rpc_error + unit" where
  "auth_guard credentials token =
     (case credentials of
        None \<Rightarrow> Inl Unauthorized
      | Some provided_token \<Rightarrow> if provided_token = token then Inr () else Inl Unauthorized)"

text \<open>How the errors of the layers below become errors of a method; a panic stays a panic.\<close>

fun invalid_params :: "ipc_lib_error \<Rightarrow> rpc_error" where
  "invalid_params (Panic s) = RpcPanic s"
| "invalid_params e = InvalidParams ''invalid message''"

fun internal_error :: "ipc_lib_error \<Rightarrow> rpc_error" where
  "internal_error (Panic s) = RpcPanic s"
| "internal_error e = InternalError ''error''"

fun json_internal :: "ipc_lib_error \<Rightarrow> rpc_error" where
  "json_internal (Panic s) = RpcPanic s"
| "json_internal e = JsonInternal ''error''"

abbreviation validated :: "ipc_validate_error + 'a \<Rightarrow> rpc_error + 'a" where
  "validated r \<equiv> res_map_err (\<lambda>e. InvalidParams ''invalid message'') r"

definition require_subnet :: "ext \<Rightarrow> server_data \<Rightarrow> subnet_id \<Rightarrow> rpc_error + subnet_state" where
  "require_subnet X sd sid = ok_or (get_subnet_state X (sd_db sd) sid) (InvalidParams ''Subnet not found.'')"

definition require_genesis :: "ext \<Rightarrow> server_data \<Rightarrow> subnet_id \<Rightarrow> rpc_error + subnet_genesis_info" where
  "require_genesis X sd sid = ok_or (get_subnet_genesis_info X (sd_db sd) sid) (InvalidParams ''Subnet not found.'')"

definition require_validator :: "server_data \<Rightarrow> rpc_error + (xonly_pubkey \<times> bytes)" where
  "require_validator sd = ok_or (sd_validator sd) (InternalError ''No validator keypair configured.'')"

definition checked_address :: "ext \<Rightarrow> subnet_committee \<Rightarrow> rpc_error + btc_address" where
  "checked_address X c = res_map_err internal_error (address_checked X c)"

definition genesis_address :: "ext \<Rightarrow> subnet_genesis_info \<Rightarrow> rpc_error + btc_address" where
  "genesis_address X g = res_map_err (\<lambda>e. RpcPanic ''multisig address'') (genesis_multisig_address X g)"

section \<open>Queries\<close>

definition get_block_hash :: "node \<Rightarrow> u64 \<Rightarrow> rpc_error + block_hash" where
  "get_block_hash N h = res_map_err JsonInternal (nd_block_hash N h)"

definition get_block_count :: "node \<Rightarrow> rpc_error + u64" where
  "get_block_count N = res_map_err InternalError (nd_block_count N)"

definition get_confirmed_block_height :: "server_data \<Rightarrow> rpc_error + u64" where
  "get_confirmed_block_height sd = Inr (get_last_processed_block (sd_db sd))"

definition get_genesis_info :: "ext \<Rightarrow> server_data \<Rightarrow> subnet_id \<Rightarrow> rpc_error + subnet_genesis_info" where
  "get_genesis_info X sd sid = require_genesis X sd sid"

definition get_subnet :: "ext \<Rightarrow> server_data \<Rightarrow> subnet_id \<Rightarrow> rpc_error + subnet_state" where
  "get_subnet X sd sid = require_subnet X sd sid"

definition rpc_unspent :: "node \<Rightarrow> btc_address \<Rightarrow> rpc_error + utxo list" where
  "rpc_unspent W a = res_map_err InternalError (get_unspent_for_address W a)"

definition get_subnet_balance ::
  "ext \<Rightarrow> node \<Rightarrow> server_data \<Rightarrow> subnet_id \<Rightarrow> rpc_error + (btc_address \<times> u64 \<times> nat)" where
  "get_subnet_balance X W sd sid =
     res_bind (require_subnet X sd sid) (\<lambda>s.
     res_bind (checked_address X (ss_committee s)) (\<lambda>a.
     res_bind (rpc_unspent W a) (\<lambda>unspent.
     Inr (a, sum_list (map utxo_amount unspent), length unspent))))"

definition get_rootnet_messages :: "ext \<Rightarrow> server_data \<Rightarrow> subnet_id \<Rightarrow> u64 \<Rightarrow> rpc_error + rootnet_message list" where
  "get_rootnet_messages X sd sid h =
     res_bind (require_subnet X sd sid) (\<lambda>_. Inr (get_rootnet_msgs_by_height X (sd_db sd) sid h))"

definition rpc_get_token_balance ::
  "ext \<Rightarrow> server_data \<Rightarrow> subnet_id \<Rightarrow> eth_address \<Rightarrow> subnet_id \<Rightarrow> rpc_error + string" where
  "rpc_get_token_balance X sd home tok sid = Inr (dec (unat (get_token_balance X (sd_db sd) home tok sid)))"

definition get_subnet_checkpoint ::
  "ext \<Rightarrow> server_data \<Rightarrow> subnet_id \<Rightarrow> u64 option \<Rightarrow> rpc_error + subnet_checkpoint option" where
  "get_subnet_checkpoint X sd sid number =
     res_bind (require_subnet X sd sid) (\<lambda>s.
     case ss_last_checkpoint_number s of
       None \<Rightarrow> Inr None
     | Some last_number \<Rightarrow>
         Inr (get_checkpoint X (sd_db sd) sid (case number of Some n \<Rightarrow> n | None \<Rightarrow> last_number)))"

definition get_stake_changes :: "ext \<Rightarrow> server_data \<Rightarrow> subnet_id \<Rightarrow> u64 \<Rightarrow> rpc_error + stake_change_request list" where
  "get_stake_changes X sd sid h =
     res_bind (require_subnet X sd sid) (\<lambda>_. Inr (get_stake_changes_by_height X (sd_db sd) sid h))"

definition get_kill_requests :: "ext \<Rightarrow> server_data \<Rightarrow> subnet_id \<Rightarrow> rpc_error + kill_request list" where
  "get_kill_requests X sd sid =
     res_bind (require_subnet X sd sid) (\<lambda>_.
     Inr (get_valid_kill_requests X (sd_db sd) sid (get_last_processed_block (sd_db sd))))"

definition get_rewarded_collaterals ::
  "ext \<Rightarrow> server_data \<Rightarrow> u64 \<Rightarrow> u64 \<Rightarrow> u64 \<Rightarrow> rpc_error + ((eth_address \<times> amount) list \<times> amount)" where
  "get_rewarded_collaterals X sd activation_height snapshot_length snapshot =
     res_bind (res_map_err (\<lambda>e. RpcPanic ''Failed to load reward config'')
                (reward_config_new activation_height snapshot_length)) (\<lambda>cfg.
     res_bind (ok_or (get_snapshot_result (sd_db sd) snapshot)
                (InvalidParams ''No cached rewards found for snapshot'')) (\<lambda>r.
     Inr (map (\<lambda>(pk, amt). (eth_addr_from_x_only_pubkey X pk, amt)) (sr_rewards_list r),
          sr_total_rewarded_collateral r)))"

section \<open>Requests that send a message\<close>

definition create_subnet ::
  "ext \<Rightarrow> codec \<Rightarrow> node \<Rightarrow> ipc_create_subnet_msg \<Rightarrow> (rpc_error, subnet_id) sent" where
  "create_subnet X C N m =
     and_send (validated (create_validate m)) (\<lambda>_.
     sent_map json_internal id (create_submit_to_bitcoin X C N m))"

definition join_subnet ::
  "ext \<Rightarrow> codec \<Rightarrow> node \<Rightarrow> server_data \<Rightarrow> ipc_join_subnet_msg \<Rightarrow> (rpc_error, txid) sent" where
  "join_subnet X C N sd m =
     and_send (validated (join_validate X m)) (\<lambda>_.
     and_send (require_genesis X sd (jm_subnet_id m)) (\<lambda>g.
     and_send (validated (join_validate_for_subnet m g (get_subnet_state X (sd_db sd) (jm_subnet_id m)))) (\<lambda>_.
     and_send (genesis_address X g) (\<lambda>a.
     sent_map json_internal id (join_submit_to_bitcoin X C N a m)))))"

definition prefund_subnet ::
  "ext \<Rightarrow> node \<Rightarrow> server_data \<Rightarrow> ipc_prefund_subnet_msg \<Rightarrow> (rpc_error, txid) sent" where
  "prefund_subnet X N sd m =
     and_send (validated (prefund_validate m)) (\<lambda>_.
     and_send (require_genesis X sd (pf_subnet_id m)) (\<lambda>g.
     and_send (validated (prefund_validate_for_genesis_info m g)) (\<lambda>_.
     and_send (genesis_address X g) (\<lambda>a.
     sent_map json_internal id (prefund_submit_to_bitcoin X N a m)))))"

definition fund_subnet ::
  "ext \<Rightarrow> node \<Rightarrow> server_data \<Rightarrow> ipc_fund_subnet_msg \<Rightarrow> (rpc_error, txid) sent" where
  "fund_subnet X N sd m =
     and_send (validated (fund_validate m)) (\<lambda>_.
     and_send (require_subnet X sd (fm_subnet_id m)) (\<lambda>s.
     and_send (checked_address X (ss_committee s)) (\<lambda>a.
     sent_map json_internal id (fund_submit_to_bitcoin X N a m))))"

definition stake_collateral ::
  "ext \<Rightarrow> node \<Rightarrow> server_data \<Rightarrow> ipc_stake_collateral_msg \<Rightarrow> (rpc_error, txid) sent" where
  "stake_collateral X N sd m =
     and_send (validated (stake_validate m)) (\<lambda>_.
     and_send (require_subnet X sd (sm_subnet_id m)) (\<lambda>s.
     and_send (res_map_err invalid_params (stake_validate_for_subnet m s)) (\<lambda>_.
     and_send (checked_address X (ss_committee s)) (\<lambda>a.
     sent_map json_internal id (stake_submit_to_bitcoin X N a m)))))"

definition unstake_collateral ::
  "ext \<Rightarrow> taproot \<Rightarrow> node \<Rightarrow> server_data \<Rightarrow> ipc_unstake_collateral_msg \<Rightarrow> (rpc_error, txid) sent" where
  "unstake_collateral X T N sd m0 =
     and_send (require_validator sd) (\<lambda>(xpk, sk).
     let m = m0\<lparr> um_pubkey := Some xpk \<rparr> in
     and_send (validated (unstake_validate m)) (\<lambda>_.
     and_send (require_genesis X sd (um_subnet_id m)) (\<lambda>g.
     and_send (require_subnet X sd (um_subnet_id m)) (\<lambda>s.
     and_send (res_map_err invalid_params (unstake_validate_for_subnet m g s)) (\<lambda>_.
     and_send (checked_address X (ss_committee s)) (\<lambda>a.
     sent_map json_internal id (unstake_submit_to_bitcoin X T N a sk m)))))))"

definition already_requested :: "ext \<Rightarrow> server_data \<Rightarrow> subnet_id \<Rightarrow> xonly_pubkey \<Rightarrow> bool" where
  "already_requested X sd sid xpk \<longleftrightarrow>
     (\<exists>kr \<in> set (get_valid_kill_requests X (sd_db sd) sid (get_last_processed_block (sd_db sd))).
        kr_validator_xpk kr = xpk)"

definition kill_subnet ::
  "ext \<Rightarrow> taproot \<Rightarrow> node \<Rightarrow> server_data \<Rightarrow> ipc_kill_subnet_msg \<Rightarrow> (rpc_error, txid) sent" where
  "kill_subnet X T N sd m0 =
     and_send (require_validator sd) (\<lambda>(xpk, sk).
     let m = m0\<lparr> km_pubkey := Some xpk \<rparr> in
     and_send (validated (kill_validate m)) (\<lambda>_.
     and_send (require_genesis X sd (km_subnet_id m)) (\<lambda>g.
     and_send (require_subnet X sd (km_subnet_id m)) (\<lambda>s.
     and_send (validated (kill_validate_for_subnet m g s)) (\<lambda>_.
     and_send (if already_requested X sd (km_subnet_id m) xpk
               then Inl (InvalidParams ''Validator has already submitted a kill request'') else Inr ()) (\<lambda>_.
     and_send (checked_address X (ss_committee s)) (\<lambda>a.
     sent_map json_internal id (kill_submit_to_bitcoin X T N a sk m))))))))"

text \<open>The development method sends one request per secret key and stops at the first error.\<close>

fun dev_kill_requests ::
  "ext \<Rightarrow> taproot \<Rightarrow> node \<Rightarrow> server_data \<Rightarrow> subnet_id \<Rightarrow> subnet_genesis_info \<Rightarrow> subnet_state \<Rightarrow> btc_address
   \<Rightarrow> bytes option list \<Rightarrow> (rpc_error, txid list) sent" where
  "dev_kill_requests X T N sd sid g s a [] = ([], Inr [])"
| "dev_kill_requests X T N sd sid g s a (None # sks) = ([], Inl (InvalidParams ''Invalid secret key''))"
| "dev_kill_requests X T N sd sid g s a (Some sk # sks) =
     (let xpk = x_only_public_key T sk; m = \<lparr> km_subnet_id = sid, km_pubkey = Some xpk \<rparr> in
      if already_requested X sd sid xpk then dev_kill_requests X T N sd sid g s a sks
      else
      and_send (validated (kill_validate m)) (\<lambda>_.
      and_send (validated (kill_validate_for_subnet m g s)) (\<lambda>_.
      case sent_map json_internal id (kill_submit_to_bitcoin X T N a sk m) of
        (txs, Inl e) \<Rightarrow> (txs, Inl e)
      | (txs, Inr tid) \<Rightarrow>
          (case dev_kill_requests X T N sd sid g s a sks of
             (txs', Inl e) \<Rightarrow> (txs @ txs', Inl e)
           | (txs', Inr tids) \<Rightarrow> (txs @ txs', Inr (tid # tids))))))"

definition dev_kill_subnet ::
  "ext \<Rightarrow> taproot \<Rightarrow> node \<Rightarrow> server_data \<Rightarrow> subnet_id \<Rightarrow> bytes option list \<Rightarrow> (rpc_error, txid list) sent" where
  "dev_kill_subnet X T N sd sid secret_keys =
     and_send (require_genesis X sd sid) (\<lambda>g.
     and_send (require_subnet X sd sid) (\<lambda>s.
     and_send (checked_address X (ss_committee s)) (\<lambda>a.
     dev_kill_requests X T N sd sid g s a secret_keys)))"

section \<open>Spends of the multisig\<close>

record spend_response =
  sr_unsigned_psbt :: psbt
  sr_psbt_inputs_signatures :: "bytes list"

definition rpc_sign :: "taproot \<Rightarrow> psbt \<Rightarrow> bytes \<Rightarrow> rpc_error + spend_response" where
  "rpc_sign T p sk =
     res_bind (res_map_err (internal_error \<circ> ipc_from_multisig) (sign_spend_psbt T p sk)) (\<lambda>(p', signatures).
     Inr \<lparr> sr_unsigned_psbt = p, sr_psbt_inputs_signatures = signatures \<rparr>)"

definition gen_multisig_spend_psbt ::
  "ext \<Rightarrow> taproot \<Rightarrow> node \<Rightarrow> server_data \<Rightarrow> subnet_id \<Rightarrow> btc_address \<Rightarrow> amount \<Rightarrow> rpc_error + spend_response" where
  "gen_multisig_spend_psbt X T W sd sid recipient amt =
     res_bind (require_validator sd) (\<lambda>(xpk, sk).
     res_bind (require_subnet X sd sid) (\<lambda>s.
     if \<not> address_valid X recipient then Inl (InvalidParams ''Invalid address network'')
     else
     res_bind (checked_address X (ss_committee s)) (\<lambda>committee_address.
     res_bind (rpc_unspent W committee_address) (\<lambda>unspent.
     res_bind (res_map_err (internal_error \<circ> ipc_from_multisig)
       (construct_spend_psbt X T sid (validator_weighted_keys (ss_committee s)) (cm_threshold (ss_committee s))
          committee_address unspent False [\<lparr> txo_value = amt, txo_script = address_script X recipient \<rparr>]
          (get_fee_rate W) 0)) (\<lambda>p.
     rpc_sign T p sk)))))"

definition gen_bootstrap_handover ::
  "ext \<Rightarrow> taproot \<Rightarrow> node \<Rightarrow> server_data \<Rightarrow> subnet_id \<Rightarrow> rpc_error + spend_response" where
  "gen_bootstrap_handover X T W sd sid =
     res_bind (require_validator sd) (\<lambda>(xpk, sk).
     res_bind (require_genesis X sd sid) (\<lambda>g.
     res_bind (require_subnet X sd sid) (\<lambda>s.
     if \<not> state_is_validator s xpk then Inl (InvalidParams ''Configured validator isn't a validator'')
     else
     res_bind (checked_address X (ss_committee s)) (\<lambda>committee_address.
     res_bind (res_map_err internal_error (multisig_address_from_whitelist X sid (gi_create_subnet_msg g))) (\<lambda>wa.
     res_bind (rpc_unspent W wa) (\<lambda>unspent.
     if unspent = [] then Inl (InvalidParams ''No unspent outputs found for whitelist multisig address'')
     else
     res_bind (res_map_err (internal_error \<circ> ipc_from_multisig)
       (construct_spend_psbt X T sid (whitelist_weighted_keys (gi_create_subnet_msg g))
          (ucast (cr_min_validators (gi_create_subnet_msg g))) committee_address unspent True [] (get_fee_rate W) 0)) (\<lambda>p.
     rpc_sign T p sk)))))))"

section \<open>Checkpoints\<close>

record checkpoint_response =
  cr_spend :: spend_response
  cr_batch_transfer_tx :: "transaction option"

text \<open>The checks shared by the two methods that generate a checkpoint.\<close>

definition checkpoint_guards ::
  "ext \<Rightarrow> server_data \<Rightarrow> ipc_checkpoint_subnet_msg \<Rightarrow> rpc_error + (bytes \<times> subnet_state \<times> ipc_checkpoint_subnet_msg)" where
  "checkpoint_guards X sd m =
     res_bind (require_validator sd) (\<lambda>(xpk, sk).
     res_bind (validated (checkpoint_validate X m)) (\<lambda>_.
     if ck_change_address m \<noteq> None then Inl (InvalidParams ''Specifying change address not supported'')
     else if ck_unstakes m \<noteq> [] then Inl (InvalidParams ''Specifying unstakes not supported'')
     else
     res_bind (require_subnet X sd (ck_subnet_id m)) (\<lambda>s.
     if \<not> state_is_validator s xpk then Inl (InvalidParams ''Configured validator isn't a validator'')
     else if is_killed s then Inl (InvalidParams ''Subnet is killed, cannot generate checkpoint.'')
     else
     res_bind (res_map_err invalid_params (update_subnets_for_transfer X (sd_db sd) m)) (\<lambda>m'.
     Inr (sk, s, m')))))"

definition rpc_amount_sum :: "amount list \<Rightarrow> rpc_error + amount" where
  "rpc_amount_sum xs = ok_or (word_checked_sum xs) (RpcPanic ''Amount overflow'')"

definition rpc_amount_sub :: "amount \<Rightarrow> amount \<Rightarrow> rpc_error + amount" where
  "rpc_amount_sub a b = ok_or (word_checked_sub a b) (RpcPanic ''Amount subtraction error'')"

definition kill_unstakes :: "subnet_committee \<Rightarrow> ipc_unstake list" where
  "kill_unstakes c =
     map (\<lambda>v. \<lparr> un_amount = v_collateral v, un_address = v_backup_address v, un_pubkey = v_pubkey v \<rparr>) (cm_validators c)"

text \<open>
  The extra value after stake, withdrawals and transfers is computed for the log only, but an underflow
  of it is a panic.
\<close>

definition kill_checkpoint_msg ::
  "subnet_committee \<Rightarrow> utxo list \<Rightarrow> ipc_checkpoint_subnet_msg \<Rightarrow> rpc_error + ipc_checkpoint_subnet_msg" where
  "kill_checkpoint_msg c unspent m =
     res_bind (rpc_amount_sum (map utxo_amount unspent)) (\<lambda>total_unspent_amount.
     res_bind (rpc_amount_sum (map v_collateral (cm_validators c))) (\<lambda>total_stake_amount.
     res_bind (rpc_amount_sum (map xt_amount (ck_transfers m))) (\<lambda>total_transfer_amount.
     res_bind (rpc_amount_sum (map wd_amount (ck_withdrawals m))) (\<lambda>total_withdrawal_amount.
     res_bind (rpc_amount_sub total_unspent_amount total_stake_amount) (\<lambda>d1.
     res_bind (rpc_amount_sub d1 total_withdrawal_amount) (\<lambda>d2.
     res_bind (rpc_amount_sub d2 total_transfer_amount) (\<lambda>total_extra_amount.
     Inr (m\<lparr> ck_is_kill_checkpoint := True, ck_unstakes := kill_unstakes c \<rparr>))))))))"

definition withdrawn_unstake :: "subnet_committee \<Rightarrow> stake_change_request \<Rightarrow> ipc_unstake option" where
  "withdrawn_unstake c sc =
     (case find (\<lambda>v. v_pubkey v = sc_validator_xpk sc) (cm_validators c) of
        None \<Rightarrow> None
      | Some v \<Rightarrow>
          (case sc_change sc of
             Withdraw amt \<Rightarrow> Some \<lparr> un_amount = amt, un_address = v_backup_address v, un_pubkey = sc_validator_xpk sc \<rparr>
           | _ \<Rightarrow> None))"

definition rotation_unstakes :: "ext \<Rightarrow> heed_db \<Rightarrow> subnet_id \<Rightarrow> subnet_committee \<Rightarrow> ipc_unstake list" where
  "rotation_unstakes X db sid c =
     List.map_filter (withdrawn_unstake c) (get_unconfirmed_stake_changes X db sid)"

definition requested_committee ::
  "ext \<Rightarrow> server_data \<Rightarrow> ipc_checkpoint_subnet_msg \<Rightarrow> rpc_error + subnet_committee" where
  "requested_committee X sd m =
     res_bind (ok_or (get_stake_change X (sd_db sd) (ck_subnet_id m) (ck_next_committee_configuration_number m))
                (InvalidParams ''Stake change with configuration number not found.'')) (\<lambda>sc.
     Inr (sc_committee_after_change sc))"

definition prepare_checkpoint ::
  "ext \<Rightarrow> server_data \<Rightarrow> subnet_state \<Rightarrow> utxo list \<Rightarrow> ipc_checkpoint_subnet_msg
   \<Rightarrow> rpc_error + (subnet_committee \<times> ipc_checkpoint_subnet_msg)" where
  "prepare_checkpoint X sd s unspent m =
     (let c = ss_committee s; n = ck_next_committee_configuration_number m in
      if should_kill s
      then res_bind (kill_checkpoint_msg c unspent m) (\<lambda>m'. Inr (c, m'))
      else if cm_configuration_number c < n
      then res_bind (requested_committee X sd m) (\<lambda>next_committee.
           res_bind (checked_address X next_committee) (\<lambda>_.
           Inr (next_committee, m\<lparr> ck_unstakes := rotation_unstakes X (sd_db sd) (ck_subnet_id m) c \<rparr>)))
      else if n = 0 \<or> n = cm_configuration_number c then Inr (c, m)
      else Inl (InvalidParams ''Invalid next committee configuration number''))"

definition generate_checkpoint ::
  "ext \<Rightarrow> codec \<Rightarrow> taproot \<Rightarrow> nat \<times> nat \<Rightarrow> bytes \<Rightarrow> subnet_state \<Rightarrow> subnet_committee \<Rightarrow> u64 \<Rightarrow> utxo list
   \<Rightarrow> ipc_checkpoint_subnet_msg \<Rightarrow> rpc_error + checkpoint_response" where
  "generate_checkpoint X C T seeds sk s next_committee fee_rate unspent m =
     res_bind (res_map_err internal_error
       (to_checkpoint_psbt X C T (fst seeds) m (ss_committee s) next_committee fee_rate unspent)) (\<lambda>p.
     res_bind (checked_address X (ss_committee s)) (\<lambda>a.
     res_bind (res_map_err internal_error
       (make_reveal_batch_transfer_tx X C (snd seeds) (compute_txid X (unsigned_tx p)) fee_rate a m)) (\<lambda>reveal.
     res_bind (rpc_sign T p sk) (\<lambda>r.
     Inr \<lparr> cr_spend = r, cr_batch_transfer_tx = reveal \<rparr>))))"

definition gen_checkpoint_psbt ::
  "ext \<Rightarrow> codec \<Rightarrow> taproot \<Rightarrow> nat \<times> nat \<Rightarrow> node \<Rightarrow> server_data \<Rightarrow> ipc_checkpoint_subnet_msg \<Rightarrow> rpc_error + checkpoint_response" where
  "gen_checkpoint_psbt X C T seeds W sd m0 =
     res_bind (checkpoint_guards X sd m0) (\<lambda>(sk, s, m1).
     res_bind (checked_address X (ss_committee s)) (\<lambda>a.
     res_bind (rpc_unspent W a) (\<lambda>unspent.
     res_bind (prepare_checkpoint X sd s unspent m1) (\<lambda>(next_committee, m).
     res_bind (validated (validate_erc_batch_data X (ck_subnet_id m) (ck_token_registrations m)
                (ck_token_supply_adjustments m) (ck_token_transfers m) (sd_db sd))) (\<lambda>_.
     generate_checkpoint X C T seeds sk s next_committee (get_fee_rate W) unspent m)))))"

definition dev_gen_checkpoint_psbt ::
  "ext \<Rightarrow> codec \<Rightarrow> taproot \<Rightarrow> nat \<times> nat \<Rightarrow> node \<Rightarrow> server_data \<Rightarrow> ipc_checkpoint_subnet_msg \<Rightarrow> rpc_error + checkpoint_response" where
  "dev_gen_checkpoint_psbt X C T seeds W sd m0 =
     res_bind (checkpoint_guards X sd m0) (\<lambda>(sk, s, m).
     res_bind (checked_address X (ss_committee s)) (\<lambda>a.
     res_bind (rpc_unspent W a) (\<lambda>unspent.
     res_bind (if cm_configuration_number (ss_committee s) < ck_next_committee_configuration_number m
               then requested_committee X sd m else Inr (ss_committee s)) (\<lambda>next_committee.
     generate_checkpoint X C T seeds sk s next_committee (get_fee_rate W) unspent m))))"

text \<open>
  Finalizing: the signatures come as a list from keys to signatures, of which a later entry for the same
  key replaces an earlier one.
\<close>

definition signature_map :: "(xonly_pubkey \<times> bytes list) list \<Rightarrow> xonly_pubkey \<rightharpoonup> bytes list" where
  "signature_map signatures = map_of (rev signatures)"

definition collect_signatures ::
  "weighted_key list \<Rightarrow> (xonly_pubkey \<times> bytes list) list \<Rightarrow> rpc_error + bytes list list" where
  "collect_signatures keys signatures =
     (if \<exists>e \<in> set signatures. fst e \<notin> set (map fst keys)
      then Inl (InvalidParams ''Unrecognized public key in signatures'')
      else Inr (map (\<lambda>kw. case signature_map signatures (fst kw) of Some sigs \<Rightarrow> sigs | None \<Rightarrow> []) keys))"

definition rpc_finalize ::
  "ext \<Rightarrow> taproot \<Rightarrow> subnet_id \<Rightarrow> weighted_key list \<Rightarrow> power \<Rightarrow> psbt \<Rightarrow> (xonly_pubkey \<times> bytes list) list
   \<Rightarrow> rpc_error + transaction" where
  "rpc_finalize X T sid keys threshold p signatures =
     res_bind (collect_signatures keys signatures) (\<lambda>signature_sets.
     res_map_err (internal_error \<circ> ipc_from_multisig)
       (finalize_spend_psbt_from_sigs X T sid keys threshold p signature_sets))"

definition decode_psbt :: "psbt option \<Rightarrow> rpc_error + psbt" where
  "decode_psbt po = ok_or po (InvalidParams ''Invalid PSBT format'')"

definition decode_batch_tx :: "transaction option option \<Rightarrow> rpc_error + transaction option" where
  "decode_batch_tx bo =
     (case bo of
        None \<Rightarrow> Inr None
      | Some None \<Rightarrow> Inl (InvalidParams ''Invalid transaction format for batch transfer tx'')
      | Some (Some tx) \<Rightarrow> Inr (Some tx))"

definition finalize_checkpoint_psbt ::
  "ext \<Rightarrow> taproot \<Rightarrow> node \<Rightarrow> server_data \<Rightarrow> subnet_id \<Rightarrow> psbt option \<Rightarrow> (xonly_pubkey \<times> bytes list) list
   \<Rightarrow> transaction option option \<Rightarrow> (rpc_error, transaction \<times> txid option) sent" where
  "finalize_checkpoint_psbt X T N sd sid po signatures bo =
     and_send (require_subnet X sd sid) (\<lambda>s.
     and_send (decode_batch_tx bo) (\<lambda>batch_transfer_tx.
     and_send (decode_psbt po) (\<lambda>p.
     and_send (rpc_finalize X T sid (validator_weighted_keys (ss_committee s)) (cm_threshold (ss_committee s)) p signatures) (\<lambda>tx.
     sent_map (internal_error \<circ> BitcoinUtilsError) (\<lambda>_. (tx, map_option (compute_txid X) batch_transfer_tx))
       (submit_to_mempool N (tx # (case batch_transfer_tx of Some b \<Rightarrow> [b] | None \<Rightarrow> [])))))))"

definition finalize_bootstrap_handover ::
  "ext \<Rightarrow> taproot \<Rightarrow> node \<Rightarrow> server_data \<Rightarrow> subnet_id \<Rightarrow> psbt option \<Rightarrow> (xonly_pubkey \<times> bytes list) list
   \<Rightarrow> (rpc_error, transaction) sent" where
  "finalize_bootstrap_handover X T N sd sid po signatures =
     and_send (require_genesis X sd sid) (\<lambda>g.
     and_send (decode_psbt po) (\<lambda>p.
     and_send (rpc_finalize X T sid (whitelist_weighted_keys (gi_create_subnet_msg g))
                (ucast (cr_min_validators (gi_create_subnet_msg g))) p signatures) (\<lambda>tx.
     sent_map (internal_error \<circ> BitcoinUtilsError) (\<lambda>_. tx) (submit_to_mempool N [tx]))))"

definition dev_multisign_psbt ::
  "taproot \<Rightarrow> psbt option \<Rightarrow> bytes option list \<Rightarrow> rpc_error + (xonly_pubkey \<times> bytes list) list" where
  "dev_multisign_psbt T po secret_keys =
     res_bind (decode_psbt po) (\<lambda>p.
     res_mapM (\<lambda>key.
       res_bind (ok_or key (InvalidParams ''Invalid secret key'')) (\<lambda>sk.
       res_bind (res_map_err (internal_error \<circ> ipc_from_multisig) (sign_spend_psbt T p sk)) (\<lambda>(p', sigs).
       Inr (x_only_public_key T sk, sigs)))) secret_keys)"

end
