(* ===== verification/Wire_Facts.thy ===== *)
theory Wire_Facts
  imports Wire
begin

text \<open>
  Properties of the message formats: what is written is read back, the formats exclude each other,
  unstake and kill requests are accepted from signatures of committee members only, and where the
  output layouts of the writer and the reader of a checkpoint differ.
\<close>

section \<open>Payloads\<close>

lemma message_payload_outputs:
  assumes "ext_ok X" "outputs tx = data_tx_out X r (tag_bytes t @ d) # out # rest"
    and "n \<le> 2" "l = IPC_TAG_LENGTH + length d"
  shows "message_payload X t n l tx = Inr d"
  using assms by (simp add: message_payload_def data_tx_out_def Let_def op_return_data_make IPC_TAG_LENGTH_def)

lemma message_payload_data:
  assumes "ext_ok X" "outputs tx = [data_tx_out X r (tag_bytes t @ d), out]"
    and "n \<le> 2" "l = IPC_TAG_LENGTH + length d"
  shows "message_payload X t n l tx = Inr d"
  using message_payload_outputs [OF assms(1) _ assms(3,4)] assms(2) by blast

lemma payload_split:
  assumes "message_payload X t n l tx = Inr d"
  shows "op_return_data X (txo_script (hd (outputs tx))) = Some (tag_bytes t @ d)" "IPC_TAG_LENGTH + length d = l"
proof -
  from assms obtain p where p: "op_return_data X (txo_script (hd (outputs tx))) = Some p"
      "take IPC_TAG_LENGTH p = tag_bytes t" "length p = l" "d = drop IPC_TAG_LENGTH p"
    by (auto simp: message_payload_def res_simps split: if_splits)
  have "p = tag_bytes t @ d" using p(2,4) append_take_drop_id [of IPC_TAG_LENGTH p] by simp
  moreover from this have "IPC_TAG_LENGTH + length d = length p" by (simp add: IPC_TAG_LENGTH_def)
  ultimately show "op_return_data X (txo_script (hd (outputs tx))) = Some (tag_bytes t @ d)"
    "IPC_TAG_LENGTH + length d = l" using p by simp_all
qed

lemma message_payload_exclusive:
  assumes "message_payload X t n l tx = Inr d" "t' \<noteq> t"
  shows "message_payload X t' n' l' tx \<noteq> Inr d'"
  using assms by (auto simp: message_payload_def res_simps split: if_splits)

lemma txid20_slice: "native_id sid \<Longrightarrow> subnet_id_txid20 sid = Some t \<Longrightarrow>
    length t = 20 \<and> subnet_id_from_txid20 t = sid"
  using native_txid20 [of sid] by auto

section \<open>Signed requests\<close>

lemma find_signer_Some:
  "find_signer check vs = Inr (Some v) \<Longrightarrow> v \<in> set vs \<and> check v = Inr True"
  by (induction vs) (auto simp: res_simps split: if_splits)

lemma find_signer_find: "\<forall>w \<in> set vs. check w = Inr (P w) \<Longrightarrow> find_signer check vs = Inr (find P vs)"
  by (induction vs) auto

lemma find_eq: "v \<in> set vs \<Longrightarrow> find (\<lambda>w. w = v) vs = Some v"
  by (induction vs) auto

lemma kill_from_tx_signed:
  assumes "kill_from_tx X db tx = Inr k"
  shows "\<exists>a s v t sig. address_from_script X (txo_script (outputs tx ! 1)) = Some a
        \<and> get_subnet_by_multisig_address db a = Some s \<and> km_subnet_id k = ss_id s
        \<and> v \<in> set (cm_validators (ss_committee s)) \<and> km_pubkey k = Some (v_pubkey v)
        \<and> subnet_id_txid20 (ss_id s) = Some t
        \<and> op_return_data X (txo_script (hd (outputs tx))) = Some (tag_bytes KillSubnetTag @ sig)
        \<and> verify_schnorr X (v_pubkey v) (sha256 X (prev_txid (hd (inputs tx)) @ v_pubkey v @ t)) sig"
proof -
  from assms obtain sig where pay: "message_payload X KillSubnetTag 2 70 tx = Inr sig"
    by (auto simp: kill_from_tx_def res_simps IPC_TAG_LENGTH_def SCHNORR_SIGNATURE_SIZE_def)
  then have op: "op_return_data X (txo_script (hd (outputs tx))) = Some (tag_bytes KillSubnetTag @ sig)"
    using payload_split [OF pay] by simp
  from assms pay obtain s v where s: "subnet_of_output X db KillSubnetTag (outputs tx ! 1) = Inr s"
    and v: "find_signer (\<lambda>v. res_bind (kill_signature_msg X (prev_txid (hd (inputs tx))) (v_pubkey v) (ss_id s))
         (\<lambda>msg. Inr (verify_schnorr X (v_pubkey v) msg sig))) (cm_validators (ss_committee s)) = Inr (Some v)"
    and k: "km_subnet_id k = ss_id s" "km_pubkey k = Some (v_pubkey v)"
    by (auto simp: kill_from_tx_def res_simps Let_def IPC_TAG_LENGTH_def SCHNORR_SIGNATURE_SIZE_def split: if_splits)
  from find_signer_Some [OF v] s op k
  show ?thesis
    by (auto simp: subnet_of_output_def kill_signature_msg_def expect_txid20_def res_simps)
qed

lemma unstake_from_tx_signed:
  assumes "unstake_from_tx X db tx = Inr u"
  shows "\<exists>a s v t sig. address_from_script X (txo_script (outputs tx ! 1)) = Some a
        \<and> get_subnet_by_multisig_address db a = Some s \<and> um_subnet_id u = ss_id s
        \<and> v \<in> set (cm_validators (ss_committee s)) \<and> um_pubkey u = Some (v_pubkey v)
        \<and> subnet_id_txid20 (ss_id s) = Some t \<and> length sig = 64
        \<and> (\<exists>rest. op_return_data X (txo_script (hd (outputs tx))) = Some (tag_bytes UnstakeCollateralTag @ sig @ rest)
             \<and> um_amount u = of_nat (be_value rest))
        \<and> verify_schnorr X (v_pubkey v)
             (sha256 X (prev_txid (hd (inputs tx)) @ v_pubkey v @ be_bytes 8 (unat (um_amount u)) @ t)) sig"
proof -
  from assms obtain d where pay: "message_payload X UnstakeCollateralTag 2 78 tx = Inr d"
    by (auto simp: unstake_from_tx_def res_simps IPC_TAG_LENGTH_def SCHNORR_SIGNATURE_SIZE_def)
  have op: "op_return_data X (txo_script (hd (outputs tx)))
      = Some (tag_bytes UnstakeCollateralTag @ take 64 d @ drop 64 d)" "length (take 64 d) = 64"
    using payload_split [OF pay] by (simp_all add: IPC_TAG_LENGTH_def)
  from assms pay obtain s v where s: "subnet_of_output X db UnstakeCollateralTag (outputs tx ! 1) = Inr s"
    and v: "find_signer (\<lambda>v. res_bind (unstake_signature_msg X (prev_txid (hd (inputs tx))) (v_pubkey v)
           (of_nat (be_value (drop 64 d))) (ss_id s))
         (\<lambda>msg. Inr (verify_schnorr X (v_pubkey v) msg (take 64 d)))) (cm_validators (ss_committee s)) = Inr (Some v)"
    and k: "um_subnet_id u = ss_id s" "um_pubkey u = Some (v_pubkey v)" "um_amount u = of_nat (be_value (drop 64 d))"
    by (auto simp: unstake_from_tx_def res_simps Let_def IPC_TAG_LENGTH_def SCHNORR_SIGNATURE_SIZE_def split: if_splits)
  from s obtain b where b: "address_from_script X (txo_script (outputs tx ! 1)) = Some b"
      "get_subnet_by_multisig_address db b = Some s"
    by (auto simp: subnet_of_output_def res_simps)
  from find_signer_Some [OF v] obtain t where "v \<in> set (cm_validators (ss_committee s))"
      "subnet_id_txid20 (ss_id s) = Some t" "verify_schnorr X (v_pubkey v)
         (sha256 X (prev_txid (hd (inputs tx)) @ v_pubkey v @ be_bytes 8 (unat (um_amount u)) @ t)) (take 64 d)"
    by (auto simp: unstake_signature_msg_def expect_txid20_def res_simps k)
  with b op k show ?thesis
    by (intro exI [of _ b] exI [of _ s] exI [of _ v] exI [of _ t] exI [of _ "take 64 d"] conjI
        exI [of _ "drop 64 d"]) simp_all
qed

text \<open>
  A signed request is read back from its first two outputs and its first input; the wallet may add more
  of both.
\<close>

lemma unstake_outputs_read:
  assumes "ext_ok X" "get_subnet_by_multisig_address db a = Some s"
    and "length sig = 64" "subnet_id_txid20 (ss_id s) = Some t"
    and "outputs tx = data_tx_out X r (tag_bytes UnstakeCollateralTag @ sig @ be_bytes 8 (unat amt)) # out # rest"
    and "txo_script out = address_script X a" "inputs tx = i # ins"
    and "\<forall>w \<in> set (cm_validators (ss_committee s)).
           verify_schnorr X (v_pubkey w) (sha256 X (prev_txid i @ v_pubkey w @ be_bytes 8 (unat amt) @ t)) sig = P w"
  shows "unstake_from_tx X db tx =
     (case find P (cm_validators (ss_committee s)) of
        None \<Rightarrow> Inl (invalid_msg ''Signature doesn't match any of the validators'')
      | Some v \<Rightarrow> Inr \<lparr> um_subnet_id = ss_id s, um_amount = amt, um_pubkey = Some (v_pubkey v) \<rparr>)"
proof -
  have "message_payload X UnstakeCollateralTag 2 78 tx = Inr (sig @ be_bytes 8 (unat amt))"
    by (rule message_payload_outputs [OF assms(1,5)]) (use assms(3) in \<open>simp_all add: IPC_TAG_LENGTH_def\<close>)
  moreover have "unat amt < 256 ^ 8" using unsigned_less [of amt, where ?'a = nat] by simp
  then have "of_nat (be_value (be_bytes 8 (unat amt))) = amt" by (simp add: be_value_be_bytes)
  moreover have "find_signer (\<lambda>w. res_bind (unstake_signature_msg X (prev_txid i) (v_pubkey w) amt (ss_id s))
      (\<lambda>msg. Inr (verify_schnorr X (v_pubkey w) msg sig))) (cm_validators (ss_committee s))
      = Inr (find P (cm_validators (ss_committee s)))"
    by (rule find_signer_find) (use assms(4,8) in \<open>simp add: unstake_signature_msg_def expect_txid20_def\<close>)
  ultimately show ?thesis
    using assms(1-7) by (simp add: unstake_from_tx_def subnet_of_output_def IPC_TAG_LENGTH_def SCHNORR_SIGNATURE_SIZE_def
        Let_def ok_or_def split: option.split)
qed

lemma kill_outputs_read:
  assumes "ext_ok X" "get_subnet_by_multisig_address db a = Some s"
    and "length sig = 64" "subnet_id_txid20 (ss_id s) = Some t"
    and "outputs tx = data_tx_out X r (tag_bytes KillSubnetTag @ sig) # out # rest"
    and "txo_script out = address_script X a" "inputs tx = i # ins"
    and "\<forall>w \<in> set (cm_validators (ss_committee s)).
           verify_schnorr X (v_pubkey w) (sha256 X (prev_txid i @ v_pubkey w @ t)) sig = P w"
  shows "kill_from_tx X db tx =
     (case find P (cm_validators (ss_committee s)) of
        None \<Rightarrow> Inl (invalid_msg ''Signature doesn't match any of the validators'')
      | Some v \<Rightarrow> Inr \<lparr> km_subnet_id = ss_id s, km_pubkey = Some (v_pubkey v) \<rparr>)"
proof -
  have "message_payload X KillSubnetTag 2 70 tx = Inr sig"
    by (rule message_payload_outputs [OF assms(1,5)]) (use assms(3) in \<open>simp_all add: IPC_TAG_LENGTH_def\<close>)
  moreover have "find_signer (\<lambda>w. res_bind (kill_signature_msg X (prev_txid i) (v_pubkey w) (ss_id s))
      (\<lambda>msg. Inr (verify_schnorr X (v_pubkey w) msg sig))) (cm_validators (ss_committee s))
      = Inr (find P (cm_validators (ss_committee s)))"
    by (rule find_signer_find) (use assms(4,8) in \<open>simp add: kill_signature_msg_def expect_txid20_def\<close>)
  ultimately show ?thesis
    using assms(1-7) by (simp add: kill_from_tx_def subnet_of_output_def IPC_TAG_LENGTH_def SCHNORR_SIGNATURE_SIZE_def
        Let_def ok_or_def split: option.split)
qed

lemma unstake_tx_back:
  assumes "ext_ok X" "get_subnet_by_multisig_address db a = Some s"
    and "um_subnet_id u = ss_id s" "um_pubkey u = Some (v_pubkey v)" "v \<in> set (cm_validators (ss_committee s))"
    and "length sig = 64" "subnet_id_txid20 (ss_id s) = Some t"
    and "\<forall>w \<in> set (cm_validators (ss_committee s)).
           verify_schnorr X (v_pubkey w) (sha256 X (prev_txid i @ v_pubkey w @ be_bytes 8 (unat (um_amount u)) @ t)) sig
             = (w = v)"
  shows "unstake_from_tx X db
      ((signed_tx X r a (tag_bytes UnstakeCollateralTag @ sig @ be_bytes 8 (unat (um_amount u))))\<lparr> inputs := i # ins \<rparr>) = Inr u"
proof -
  note find_eq [OF assms(5)]
  with unstake_outputs_read [OF assms(1,2,6,7), of "(signed_tx X r a (tag_bytes UnstakeCollateralTag @ sig
        @ be_bytes 8 (unat (um_amount u))))\<lparr> inputs := i # ins \<rparr>" r "um_amount u" _ "[]" i ins "\<lambda>w. w = v"] assms(3,4,8)
  show ?thesis by (simp add: signed_tx_def create_tx_from_txouts_def)
qed

section \<open>A concrete request\<close>

definition wire_db :: heed_db where
  "wire_db = empty_db\<lparr> subnet_db := [(subnet_state_key demo_ext demo_id, demo_state)] \<rparr>"

lemma wire_db_lookup:
  "get_subnet_by_multisig_address wire_db (cm_multisig_address (demo_committee 0)) = Some demo_state"
  "get_subnet_state demo_ext wire_db demo_id = Some demo_state"
  by (simp_all add: get_subnet_by_multisig_address_def wire_db_def demo_state_def get_subnet_state_def kv_get_def)

definition demo_input :: tx_in where
  "demo_input = \<lparr> prev_txid = replicate 32 9, prev_vout = 0, sequence = 0, witness = [] \<rparr>"

definition demo_sig :: bytes where
  "demo_sig = replicate 32 1 @ replicate 32 9"

lemma demo_id_txid20: "subnet_id_txid20 demo_id = Some (replicate 20 7)"
  by (simp add: demo_id_def subnet_id_from_txid20_def SUBNET_ID_INNER_LEN_def)

lemma demo_unstake_tx:
  "\<exists>tx. unstake_from_tx demo_ext wire_db tx
     = Inr \<lparr> um_subnet_id = demo_id, um_amount = 10000, um_pubkey = Some (replicate 32 1) \<rparr>"
proof -
  let ?u = "\<lparr> um_subnet_id = demo_id, um_amount = 10000, um_pubkey = Some (replicate 32 1) \<rparr>"
  have "unstake_from_tx demo_ext wire_db
      ((signed_tx demo_ext 1000 ''bcrt1p'' (tag_bytes UnstakeCollateralTag @ demo_sig @ be_bytes 8 (unat (um_amount ?u))))
         \<lparr> inputs := demo_input # [] \<rparr>) = Inr ?u"
    by (rule unstake_tx_back [OF demo_ext_ok, where s = demo_state and v = "demo_validator 1 5" and t = "replicate 20 7"])
      (use wire_db_lookup demo_id_txid20 in
        \<open>simp_all add: demo_state_def demo_committee_def demo_validator_def demo_ext_def demo_sig_def demo_input_def\<close>)
  then show ?thesis by blast
qed

section \<open>Properties\<close>

lemma fund_tx_back:
  assumes "ext_ok X" "native_id (fm_subnet_id m)" "length (fm_address m) = 20"
  shows "\<exists>tx. fund_to_tx X r a m = Inr tx \<and> fund_from_tx X tx = Inr m"
proof -
  obtain t where t: "subnet_id_txid20 (fm_subnet_id m) = Some t" "length t = 20"
      "subnet_id_from_txid20 t = fm_subnet_id m"
    using native_txid20 [OF assms(2)] by auto
  let ?f = "create_tx_from_txouts [data_tx_out X r (tag_bytes FundSubnetTag @ t @ fm_address m),
      \<lparr> txo_value = fm_amount m, txo_script = address_script X a \<rparr>]"
  have "message_payload X FundSubnetTag 2 46 ?f = Inr (t @ fm_address m)"
    by (rule message_payload_data [OF assms(1)])
      (use t assms(3) in \<open>simp_all add: create_tx_from_txouts_def IPC_TAG_LENGTH_def\<close>)
  then have "fund_to_tx X r a m = Inr ?f \<and> fund_from_tx X ?f = Inr m"
    using t by (simp add: fund_to_tx_def fund_from_tx_def expect_txid20_def txid20_from_slice_def SUBNET_ID_INNER_LEN_def
        create_tx_from_txouts_def)
  then show ?thesis by blast
qed

text \<open>The OP\_RETURN messages that a transaction is accepted as.\<close>

fun output_accepts :: "ext \<Rightarrow> heed_db \<Rightarrow> transaction \<Rightarrow> ipc_tag \<Rightarrow> bool" where
  "output_accepts X db tx PrefundSubnetTag \<longleftrightarrow> (\<exists>m. prefund_from_tx X tx = Inr m)"
| "output_accepts X db tx FundSubnetTag \<longleftrightarrow> (\<exists>m. fund_from_tx X tx = Inr m)"
| "output_accepts X db tx CheckpointSubnetTag \<longleftrightarrow> (\<exists>m. from_checkpoint_tx X db tx = Inr m)"
| "output_accepts X db tx StakeCollateralTag \<longleftrightarrow> (\<exists>m. stake_from_tx X db tx = Inr m)"
| "output_accepts X db tx UnstakeCollateralTag \<longleftrightarrow> (\<exists>m. unstake_from_tx X db tx = Inr m)"
| "output_accepts X db tx KillSubnetTag \<longleftrightarrow> (\<exists>m. kill_from_tx X db tx = Inr m)"
| "output_accepts X db tx t \<longleftrightarrow> False"

text \<open>
  A fund or prefund transaction built for a subnet and an account is read back as the same message:
  same subnet, same account, and the amount that the second output carries.
\<close>

theorem funding_tx_roundtrip:
  assumes "ext_ok X" "native_id (fm_subnet_id m)" "length (fm_address m) = 20"
    and "native_id (pf_subnet_id p)" "length (pf_address p) = 20"
  shows "(\<exists>tx. fund_to_tx X r a m = Inr tx \<and> fund_from_tx X tx = Inr m)
       \<and> (\<exists>tx. prefund_to_tx X r a b p = Inr tx \<and> prefund_from_tx X tx = Inr p)"
proof -
  obtain u where u: "subnet_id_txid20 (pf_subnet_id p) = Some u" "length u = 20"
      "subnet_id_from_txid20 u = pf_subnet_id p"
    using native_txid20 [OF assms(4)] by auto
  have "\<exists>tx. fund_to_tx X r a m = Inr tx \<and> fund_from_tx X tx = Inr m" by (rule fund_tx_back [OF assms(1-3)])
  moreover obtain s where s: "create_send_with_timelock_release_tx_script X a b RELEASE_LOCKTIME = Inr s"
    using p2tr_two_leaves [OF assms(1)] unfolding create_send_with_timelock_release_tx_script_def Let_def
    by (metis option.simps(5))
  let ?p = "create_tx_from_txouts [data_tx_out X r (tag_bytes PrefundSubnetTag @ u @ pf_address p),
      \<lparr> txo_value = pf_amount p, txo_script = s \<rparr>]"
  have "message_payload X PrefundSubnetTag 2 46 ?p = Inr (u @ pf_address p)"
    by (rule message_payload_data [OF assms(1)])
      (use u assms(5) in \<open>simp_all add: create_tx_from_txouts_def IPC_TAG_LENGTH_def\<close>)
  then have "prefund_to_tx X r a b p = Inr ?p \<and> prefund_from_tx X ?p = Inr p"
    using u s by (simp add: prefund_to_tx_def prefund_from_tx_def expect_txid20_def txid20_from_slice_def SUBNET_ID_INNER_LEN_def
        create_tx_from_txouts_def)
  ultimately show ?thesis by blast
qed

theorem funding_tx_roundtrip_witness:
  "(\<exists>tx. fund_to_tx demo_ext 1000 ''bcrt1p'' \<lparr> fm_subnet_id = demo_id, fm_amount = 5, fm_address = replicate 20 3 \<rparr> = Inr tx
       \<and> fund_from_tx demo_ext tx = Inr \<lparr> fm_subnet_id = demo_id, fm_amount = 5, fm_address = replicate 20 3 \<rparr>)
   \<and> (\<exists>tx. prefund_to_tx demo_ext 1000 ''bcrt1p'' ''bcrt1pq'' \<lparr> pf_subnet_id = demo_id, pf_amount = 6, pf_address = replicate 20 4 \<rparr> = Inr tx
       \<and> prefund_from_tx demo_ext tx = Inr \<lparr> pf_subnet_id = demo_id, pf_amount = 6, pf_address = replicate 20 4 \<rparr>)"
  by (rule funding_tx_roundtrip [OF demo_ext_ok]) simp_all

text \<open>
  The six messages that travel in an OP\_RETURN output exclude each other: whichever parser accepts
  a transaction, the five others reject it, so the order in which the monitor tries them does not matter.
\<close>

theorem output_messages_exclusive:
  assumes "output_accepts X db tx t" "output_accepts X db tx t'"
  shows "t = t'"
proof -
  have pay: "\<exists>n l d. message_payload X t n l tx = Inr d" if "output_accepts X db tx t" for t
    using that by (cases t) (auto simp: prefund_from_tx_def fund_from_tx_def from_checkpoint_tx_def
        stake_from_tx_def unstake_from_tx_def kill_from_tx_def res_simps)
  show ?thesis using pay [OF assms(1)] pay [OF assms(2)] message_payload_exclusive by metis
qed

theorem output_messages_exclusive_witness:
  "\<exists>tx. output_accepts demo_ext empty_db tx FundSubnetTag
     \<and> (\<forall>t. output_accepts demo_ext empty_db tx t \<longrightarrow> FundSubnetTag = t)"
proof -
  let ?m = "\<lparr> fm_subnet_id = demo_id, fm_amount = 5, fm_address = replicate 20 3 \<rparr>"
  obtain tx where "fund_from_tx demo_ext tx = Inr ?m"
    using fund_tx_back [OF demo_ext_ok, of ?m] by auto
  then have a: "output_accepts demo_ext empty_db tx FundSubnetTag" by simp
  with output_messages_exclusive [OF a] show ?thesis by blast
qed

text \<open>
  A stake transaction paid to the address of a committee is read back as the same message, and an
  unstake request that carries a signature of a committee member over its first input, its key, the
  amount and the subnet, and of no other member, is read back with that amount and that member.
\<close>

theorem stake_tx_roundtrip:
  assumes "ext_ok X" "get_subnet_by_multisig_address db a = Some s" "native_id (ss_id s)"
    and "sm_subnet_id m = ss_id s" "length (sm_pubkey m) = 32" "xpk_valid X (sm_pubkey m)"
    and "um_subnet_id u = ss_id s" "um_pubkey u = Some (v_pubkey v)" "v \<in> set (cm_validators (ss_committee s))"
    and "length sig = 64" "subnet_id_txid20 (ss_id s) = Some t"
    and "\<forall>w \<in> set (cm_validators (ss_committee s)).
           verify_schnorr X (v_pubkey w) (sha256 X (prev_txid i @ v_pubkey w @ be_bytes 8 (unat (um_amount u)) @ t)) sig
             = (w = v)"
  shows "(\<exists>tx. stake_to_tx X r a m = Inr tx \<and> stake_from_tx X db tx = Inr m)
       \<and> (\<exists>tx. unstake_to_tx X r a sig u = Inr tx \<and> unstake_from_tx X db (tx\<lparr> inputs := i # ins \<rparr>) = Inr u)"
proof -
  let ?st = "create_tx_from_txouts [data_tx_out X r (tag_bytes StakeCollateralTag @ sm_pubkey m),
      \<lparr> txo_value = sm_amount m, txo_script = address_script X a \<rparr>]"
  have "message_payload X StakeCollateralTag 2 38 ?st = Inr (sm_pubkey m)"
    by (rule message_payload_data [OF assms(1)])
      (use assms(5) in \<open>simp_all add: create_tx_from_txouts_def IPC_TAG_LENGTH_def\<close>)
  then have st: "stake_to_tx X r a m = Inr ?st \<and> stake_from_tx X db ?st = Inr m"
    using assms by (simp add: stake_to_tx_def stake_from_tx_def subnet_of_output_def create_tx_from_txouts_def
        IPC_TAG_LENGTH_def SCHNORR_PUBLIC_KEY_SIZE_def)
  have "unstake_to_tx X r a sig u = Inr (signed_tx X r a (tag_bytes UnstakeCollateralTag @ sig @ be_bytes 8 (unat (um_amount u))))"
    by (simp add: unstake_to_tx_def)
  moreover note unstake_tx_back [OF assms(1,2,7-12), of ins r]
  ultimately show ?thesis using st by blast
qed

theorem stake_tx_roundtrip_witness:
  "(\<exists>tx. stake_to_tx demo_ext 1000 ''bcrt1p'' \<lparr> sm_subnet_id = demo_id, sm_amount = 50000, sm_pubkey = replicate 32 1 \<rparr> = Inr tx
      \<and> stake_from_tx demo_ext wire_db tx = Inr \<lparr> sm_subnet_id = demo_id, sm_amount = 50000, sm_pubkey = replicate 32 1 \<rparr>)
   \<and> (\<exists>tx. unstake_to_tx demo_ext 1000 ''bcrt1p'' demo_sig
          \<lparr> um_subnet_id = demo_id, um_amount = 10000, um_pubkey = Some (replicate 32 1) \<rparr> = Inr tx
      \<and> unstake_from_tx demo_ext wire_db (tx\<lparr> inputs := demo_input # [] \<rparr>)
          = Inr \<lparr> um_subnet_id = demo_id, um_amount = 10000, um_pubkey = Some (replicate 32 1) \<rparr>)"
  by (rule stake_tx_roundtrip [OF demo_ext_ok, where s = demo_state and v = "demo_validator 1 5" and t = "replicate 20 7"])
    (use wire_db_lookup demo_id_txid20 in
      \<open>simp_all add: demo_state_def demo_committee_def demo_validator_def demo_ext_def demo_sig_def demo_input_def\<close>)

text \<open>
  C11. An unstake or kill request is accepted only with the signature of a member of the committee whose
  address the second output pays: over the first input's transaction id, the member's key, the subnet
  and, for an unstake, the amount.  Replaying the signature needs the same first input.
\<close>

theorem signed_requests_authorised:
  "(kill_from_tx X db tx = Inr k \<longrightarrow>
      (\<exists>a s v t sig. address_from_script X (txo_script (outputs tx ! 1)) = Some a
        \<and> get_subnet_by_multisig_address db a = Some s \<and> km_subnet_id k = ss_id s
        \<and> v \<in> set (cm_validators (ss_committee s)) \<and> km_pubkey k = Some (v_pubkey v)
        \<and> subnet_id_txid20 (ss_id s) = Some t
        \<and> op_return_data X (txo_script (hd (outputs tx))) = Some (tag_bytes KillSubnetTag @ sig)
        \<and> verify_schnorr X (v_pubkey v) (sha256 X (prev_txid (hd (inputs tx)) @ v_pubkey v @ t)) sig))
   \<and> (unstake_from_tx X db tx = Inr u \<longrightarrow>
      (\<exists>a s v t sig. address_from_script X (txo_script (outputs tx ! 1)) = Some a
        \<and> get_subnet_by_multisig_address db a = Some s \<and> um_subnet_id u = ss_id s
        \<and> v \<in> set (cm_validators (ss_committee s)) \<and> um_pubkey u = Some (v_pubkey v)
        \<and> subnet_id_txid20 (ss_id s) = Some t \<and> length sig = 64
        \<and> (\<exists>rest. op_return_data X (txo_script (hd (outputs tx))) = Some (tag_bytes UnstakeCollateralTag @ sig @ rest)
             \<and> um_amount u = of_nat (be_value rest))
        \<and> verify_schnorr X (v_pubkey v)
             (sha256 X (prev_txid (hd (inputs tx)) @ v_pubkey v @ be_bytes 8 (unat (um_amount u)) @ t)) sig))"
  using kill_from_tx_signed unstake_from_tx_signed by (intro conjI impI) blast+

theorem signed_requests_authorised_witness:
  "\<exists>tx. unstake_from_tx demo_ext wire_db tx
       = Inr \<lparr> um_subnet_id = demo_id, um_amount = 10000, um_pubkey = Some (replicate 32 1) \<rparr>
     \<and> (\<exists>v \<in> set (cm_validators (ss_committee demo_state)). v_pubkey v = replicate 32 1)"
proof -
  let ?u = "\<lparr> um_subnet_id = demo_id, um_amount = 10000, um_pubkey = Some (replicate 32 1) \<rparr>"
  obtain tx where tx: "unstake_from_tx demo_ext wire_db tx = Inr ?u" using demo_unstake_tx by blast
  from mp [OF conjunct2 [OF signed_requests_authorised [of demo_ext wire_db tx
        "\<lparr> km_subnet_id = demo_id, km_pubkey = None \<rparr>" ?u]] tx] obtain a s v where
    v: "get_subnet_by_multisig_address wire_db a = Some s" "v \<in> set (cm_validators (ss_committee s))"
      "v_pubkey v = replicate 32 1" by auto
  moreover have "s = demo_state" using v(1)
    by (auto simp: get_subnet_by_multisig_address_def wire_db_def split: if_splits)
  ultimately show ?thesis using tx by blast
qed

end
