(* ===== verification/Layout.thy ===== *)
theory Layout
  imports Wire_Facts
begin

text \<open>
  The checkpoint transaction and the batch transfer that reveals its data: what the reader of a
  checkpoint gets back, where the writer puts the outputs instead, and the round trip of the batch.
\<close>

section \<open>Reading a checkpoint\<close>

lemma unat_marker: "length xs \<le> 255 \<Longrightarrow> unat (marker xs) = length xs"
  by (simp add: marker_def unat_of_nat)

definition withdrawal_out :: "ext \<Rightarrow> ipc_withdrawal \<Rightarrow> tx_out" where
  "withdrawal_out X w = \<lparr> txo_value = wd_amount w, txo_script = address_script X (wd_address w) \<rparr>"

definition unstake_out :: "ext \<Rightarrow> ipc_unstake \<Rightarrow> tx_out" where
  "unstake_out X u = \<lparr> txo_value = un_amount u, txo_script = address_script X (un_address u) \<rparr>"

lemma u64_le_roundtrip: "of_nat (le_value (le_bytes 8 (unat x))) = (x :: u64)"
proof -
  have "unat x < 256 ^ 8" using unsigned_less [of x, where ?'a = nat] by simp
  then show ?thesis by (simp add: le_value_le_bytes)
qed

lemma metadata_payload:
  assumes "ext_ok X" "native_id (ck_subnet_id m)" "length (ck_checkpoint_hash m) = 32"
    and "make_metadata_tx_out X r m = Inr out" "outputs tx = out # rest"
  obtains t where "subnet_id_txid20 (ck_subnet_id m) = Some t" "length t = 20"
    "subnet_id_from_txid20 t = ck_subnet_id m"
    "message_payload X CheckpointSubnetTag 1 CHECKPOINT_DATA_LEN tx = Inr (t @ ck_checkpoint_hash m
       @ le_bytes 8 (unat (ck_checkpoint_height m))
       @ [marker (ck_withdrawals m), marker (ck_transfers m), marker (ck_unstakes m)]
       @ le_bytes 8 (unat (ck_next_committee_configuration_number m))
       @ [if ck_is_kill_checkpoint m then 1 else 0])"
proof -
  obtain t where t: "subnet_id_txid20 (ck_subnet_id m) = Some t" "length t = 20"
      "subnet_id_from_txid20 t = ck_subnet_id m"
    using native_txid20 [OF assms(2)] by auto
  show thesis
    by (rule that [OF t])
      (use assms t in \<open>auto simp: make_metadata_tx_out_def checkpoint_metadata_def expect_txid20_def message_payload_def
          op_return_data_make IPC_TAG_LENGTH_def CHECKPOINT_DATA_LEN_def Let_def\<close>)
qed

lemma checkpoint_fields:
  assumes "length t = 20" "length hash = 32"
    and "d = t @ hash @ le_bytes 8 ht @ [w, tr, u] @ le_bytes 8 cf @ [k]"
  shows "take 20 d = t" "take 32 (drop 20 d) = hash" "take 8 (drop 52 d) = le_bytes 8 ht"
    "d ! 60 = w" "d ! 61 = tr" "d ! 62 = u" "take 8 (drop 63 d) = le_bytes 8 cf" "d ! 71 = k"
  using assms by (simp_all add: nth_append)

lemma parse_withdrawals: "ext_ok X \<Longrightarrow> res_mapM (parse_withdrawal X) (map (withdrawal_out X) ws) = Inr ws"
  using res_mapM_map [of ws "parse_withdrawal X" "withdrawal_out X" id]
  by (simp add: parse_withdrawal_def withdrawal_out_def)

lemma parse_unstakes:
  assumes "ext_ok X" "\<forall>u \<in> set us. \<exists>v. find (\<lambda>v. v_backup_address v = un_address u)
            (cm_validators (ss_committee s)) = Some v \<and> v_pubkey v = un_pubkey u"
  shows "res_mapM (parse_unstake X s) (map (unstake_out X) us) = Inr (map (\<lambda>u. [u]) us)"
proof (rule res_mapM_map)
  fix u assume "u \<in> set us"
  with assms(2) obtain v where "find (\<lambda>v. v_backup_address v = un_address u) (cm_validators (ss_committee s)) = Some v"
    "v_pubkey v = un_pubkey u" by blast
  then show "parse_unstake X s (unstake_out X u) = Inr [u]"
    using assms(1) by (simp add: parse_unstake_def unstake_out_def)
qed

lemma read_checkpoint_eq:
  "\<lparr> ck_subnet_id = ck_subnet_id m, ck_checkpoint_hash = ck_checkpoint_hash m,
     ck_checkpoint_height = ck_checkpoint_height m,
     ck_next_committee_configuration_number = ck_next_committee_configuration_number m,
     ck_withdrawals = ck_withdrawals m, ck_transfers = [], ck_token_registrations = [],
     ck_token_supply_adjustments = [], ck_token_transfers = [], ck_unstakes = ck_unstakes m,
     ck_change_address = a, ck_is_kill_checkpoint = k \<rparr>
   = m\<lparr> ck_transfers := [], ck_token_registrations := [], ck_token_supply_adjustments := [],
        ck_token_transfers := [], ck_change_address := ca \<rparr> \<longleftrightarrow> a = ca \<and> k = ck_is_kill_checkpoint m"
  by (cases m) auto

text \<open>
  A checkpoint transaction whose outputs are laid out as its reader expects (metadata, withdrawals,
  unstakes, then the commit output, at least one output per transfer and the change) is read back with
  its subnet, hash, height, next configuration number, kill flag, withdrawals and unstakes; the transfers
  stay empty, to be filled by the batch.
\<close>

lemma checkpoint_layout_back:
  assumes "ext_ok X" "native_id (ck_subnet_id m)" "length (ck_checkpoint_hash m) = 32"
    and "length (ck_withdrawals m) \<le> 255" "length (ck_transfers m) \<le> 255" "length (ck_unstakes m) \<le> 255"
    and "make_metadata_tx_out X r m = Inr out" "get_subnet_state X db (ck_subnet_id m) = Some s"
    and "outputs tx = out # map (withdrawal_out X) (ck_withdrawals m) @ map (unstake_out X) (ck_unstakes m) @ rest"
    and "(if ck_transfers m = [] then 0 else 1 + length (ck_transfers m)) \<le> length rest"
    and "\<forall>out \<in> set rest. \<exists>a. txo_script out = address_script X a"
    and "\<forall>u \<in> set (ck_unstakes m). \<exists>v. find (\<lambda>v. v_backup_address v = un_address u)
            (cm_validators (ss_committee s)) = Some v \<and> v_pubkey v = un_pubkey u"
  shows "\<exists>ca. from_checkpoint_tx X db tx = Inr (m\<lparr> ck_transfers := [], ck_token_registrations := [],
           ck_token_supply_adjustments := [], ck_token_transfers := [], ck_change_address := ca \<rparr>)"
proof -
  let ?W = "ck_withdrawals m" and ?U = "ck_unstakes m" and ?T = "ck_transfers m"
  obtain t where t: "length t = 20" "subnet_id_from_txid20 t = ck_subnet_id m"
    and pay: "message_payload X CheckpointSubnetTag 1 CHECKPOINT_DATA_LEN tx = Inr (t @ ck_checkpoint_hash m
       @ le_bytes 8 (unat (ck_checkpoint_height m)) @ [marker ?W, marker ?T, marker ?U]
       @ le_bytes 8 (unat (ck_next_committee_configuration_number m)) @ [if ck_is_kill_checkpoint m then 1 else 0])"
    using metadata_payload [OF assms(1-3,7,9)] by metis
  define d where "d = t @ ck_checkpoint_hash m @ le_bytes 8 (unat (ck_checkpoint_height m))
       @ [marker ?W, marker ?T, marker ?U]
       @ le_bytes 8 (unat (ck_next_committee_configuration_number m)) @ [if ck_is_kill_checkpoint m then 1 else 0]"
  note F = checkpoint_fields [OF t(1) assms(3) d_def]
  have cnt: "unat (d ! 60) = length ?W" "unat (d ! 61) = length ?T" "unat (d ! 62) = length ?U"
    using F assms(4-6) by (simp_all add: unat_marker)
  let ?exp = "1 + length ?W + length ?U + (if 0 < length ?T then 1 else 0) + length ?T"
  have exp: "?exp \<le> length (outputs tx)" using assms(9,10) by (auto split: if_splits)
  have w: "res_mapM (parse_withdrawal X) (take (length ?W) (drop 1 (outputs tx))) = Inr ?W"
    using parse_withdrawals [OF assms(1), of ?W] assms(9) by simp
  have u: "res_mapM (parse_unstake X s) (take (length ?U) (drop (1 + length ?W) (outputs tx))) = Inr (map (\<lambda>u. [u]) ?U)"
    using parse_unstakes [OF assms(1,12)] assms(9) by simp
  have tr: "\<exists>ys. res_mapM (check_transfer_output X)
      (if 0 < length ?T then take (length ?T) (drop (1 + length ?W + length ?U + 1) (outputs tx)) else []) = Inr ys"
  proof (rule res_mapM_unit)
    fix x assume "x \<in> set (if 0 < length ?T then take (length ?T) (drop (1 + length ?W + length ?U + 1) (outputs tx)) else [])"
    then have "x \<in> set rest" using assms(9) by (auto dest: in_set_takeD in_set_dropD split: if_splits)
    then obtain a where "txo_script x = address_script X a" using assms(11) by blast
    then show "check_transfer_output X x = Inr ()" using assms(1) by (simp add: check_transfer_output_def)
  qed
  have last: "\<exists>a. address_from_script X (txo_script (outputs tx ! (length (outputs tx) - 1))) = Some a"
    if "?exp < length (outputs tx)"
  proof -
    have "rest \<noteq> []" using that assms(9) by auto
    moreover have "outputs tx ! (length (outputs tx) - 1) = last (outputs tx)"
      using assms(9) by (intro last_conv_nth [symmetric]) simp
    ultimately have "outputs tx ! (length (outputs tx) - 1) \<in> set rest" using assms(9) by simp
    with assms(11) obtain a where "txo_script (outputs tx ! (length (outputs tx) - 1)) = address_script X a" by auto
    then show ?thesis using assms(1) by simp
  qed
  have slice: "txid20_from_slice (take 20 d) = Inr t" using F(1) t(1) by (simp add: txid20_from_slice_def)
  show ?thesis
    using pay [folded d_def] slice t(2) F cnt exp w u tr last assms(8)
    by (cases "?exp < length (outputs tx)")
      (auto simp: from_checkpoint_tx_def Let_def u64_le_roundtrip res_simps read_checkpoint_eq)
qed

definition demo_checkpoint_msg :: ipc_checkpoint_subnet_msg where
  "demo_checkpoint_msg = \<lparr> ck_subnet_id = demo_id, ck_checkpoint_hash = replicate 32 2, ck_checkpoint_height = 30,
     ck_next_committee_configuration_number = 0,
     ck_withdrawals = [\<lparr> wd_amount = 1000, wd_address = ''bcrt1pw'' \<rparr>], ck_transfers = [],
     ck_token_registrations = [], ck_token_supply_adjustments = [], ck_token_transfers = [],
     ck_unstakes = [\<lparr> un_amount = 5000, un_address = ''bcrt1pbackup'', un_pubkey = replicate 32 1 \<rparr>],
     ck_change_address = None, ck_is_kill_checkpoint = False \<rparr>"

section \<open>The writer's layout\<close>

lemma unat_u32_sum:
  assumes "1 + a + b < 2 ^ 32"
  shows "unat (1 + of_nat a + of_nat b :: u32) = 1 + a + b"
proof -
  have "(1 + of_nat a + of_nat b :: u32) = of_nat (1 + a + b)" by simp
  with assms show ?thesis by (simp only: unat_of_nat) simp
qed

text \<open>
  C12. The writer of a checkpoint puts the commit output of the batch directly behind the withdrawals,
  in front of the unstakes; the reveal transaction spends the output behind the unstakes.  The two are
  the same output exactly when the checkpoint has no unstakes.
\<close>

theorem reveal_points_past_commit:
  assumes "checkpoint_tx_outs X C seed r ca m = Inr outs" "has_batch m"
    and "make_batched_transfer X C seed r ca m = Inr (commit, w, ro)"
    and "length (ck_withdrawals m) \<le> 255" "length (ck_unstakes m) \<le> 255"
  shows "outs ! (1 + length (ck_withdrawals m)) = commit
       \<and> (\<exists>vout. batch_transfer_commit_outpoint tid m = Some (tid, vout)
            \<and> unat vout = 1 + length (ck_withdrawals m) + length (ck_unstakes m)
            \<and> (unat vout = 1 + length (ck_withdrawals m) \<longleftrightarrow> ck_unstakes m = []))"
proof -
  from assms(1-3) obtain md ws ts us where ws: "res_mapM (\<lambda>w. address_out X (wd_amount w) (wd_address w)) (ck_withdrawals m) = Inr ws"
    and outs: "outs = md # ws @ (commit # ts) @ us"
    by (auto simp: checkpoint_tx_outs_def res_simps)
  have "unat (1 + of_nat (length (ck_withdrawals m)) + of_nat (length (ck_unstakes m)) :: u32)
      = 1 + length (ck_withdrawals m) + length (ck_unstakes m)"
    by (rule unat_u32_sum) (use assms(4,5) in simp)
  then show ?thesis
    using assms(2) outs res_mapM_length [OF ws] by (simp add: batch_transfer_commit_outpoint_def nth_append)
qed

section \<open>Reading a batch\<close>

definition flat :: "('k \<times> 'v list) list \<Rightarrow> ('k \<times> 'v) list" where
  "flat g = concat (map (\<lambda>(k, vs). map (Pair k) vs) g)"

lemma mset_flat_push: "mset (flat (group_push k v g)) = add_mset (k, v) (mset (flat g))"
  by (induction k v g rule: group_push.induct) (auto simp: flat_def)

lemma keys_group_push: "set (map fst (group_push k v g)) = insert k (set (map fst g))"
  by (induction k v g rule: group_push.induct) auto

lemma distinct_group_push: "distinct (map fst g) \<Longrightarrow> distinct (map fst (group_push k v g))"
proof (induction k v g rule: group_push.induct)
  case (2 k v k' vs rest)
  then show ?case using keys_group_push [of k v rest] by auto
qed simp

lemma mset_flat: "mset (flat g) = (\<Sum>e\<in>#mset g. mset (map (Pair (fst e)) (snd e)))"
  by (induction g) (auto simp: flat_def)

lemma mset_flat_cong: "mset g = mset g' \<Longrightarrow> mset (flat g) = mset (flat g')"
  by (simp add: mset_flat)

lemma group_fold:
  assumes "\<And>g x g'. f g x = Inr g' \<Longrightarrow> \<exists>k. key x = Some k \<and> g' = group_push k (val x) g"
    and "res_fold f g xs = Inr g'" "distinct (map fst g)"
  shows "distinct (map fst g') \<and> (\<forall>x \<in> set xs. key x \<noteq> None)
     \<and> set (map fst g') = set (map fst g) \<union> (the \<circ> key) ` set xs
     \<and> mset (flat g') = mset (flat g) + mset (map (\<lambda>x. (the (key x), val x)) xs)"
  using assms(2,3)
proof (induction xs arbitrary: g)
  case Nil
  then show ?case by simp
next
  case (Cons x xs)
  from Cons.prems(1) obtain g1 where g1: "f g x = Inr g1" "res_fold f g1 xs = Inr g'" by (auto simp: res_simps)
  with assms(1) obtain k where k: "key x = Some k" "g1 = group_push k (val x) g" by blast
  then show ?case using Cons.IH [OF g1(2)] Cons.prems(2) keys_group_push [of k "val x" g]
    by (simp add: distinct_group_push mset_flat_push)
qed

lemma group_transfer_push:
  "group_transfer g t = Inr g' \<Longrightarrow> \<exists>k. subnet_id_txid20 (xt_destination_subnet_id t) = Some k
     \<and> g' = group_push k (xt_subnet_user_address t, xt_amount t) g"
  by (auto simp: group_transfer_def expect_txid20_def res_simps)

lemma group_erc_push:
  "group_erc g t = Inr g' \<Longrightarrow> \<exists>k. subnet_id_txid20 (et_destination_subnet_id t) = Some k
     \<and> g' = group_push k (erc_wire t) g"
  by (auto simp: group_erc_def expect_txid20_def res_simps)

lemma concat_by_flat:
  assumes "\<And>k vs. (k, vs) \<in> set g \<Longrightarrow> f (k, vs) = map (\<lambda>v. h (k, v)) vs"
  shows "concat (map f g) = map h (flat g)"
  using assms by (induction g) (auto simp: flat_def)

definition read_transfer :: "ext \<Rightarrow> heed_db \<Rightarrow> bytes \<times> (eth_address \<times> amount) \<Rightarrow> ipc_cross_subnet_transfer" where
  "read_transfer X db = (\<lambda>(k, a, amt). \<lparr> xt_amount = amt, xt_destination_subnet_id = subnet_id_from_txid20 k,
     xt_subnet_multisig_address = map_option (\<lambda>s. cm_multisig_address (ss_committee s))
       (get_subnet_state X db (subnet_id_from_txid20 k)),
     xt_subnet_user_address = a \<rparr>)"

definition read_erc :: "bytes \<times> erc_transfer_wire \<Rightarrow> ipc_cross_subnet_erc_transfer" where
  "read_erc = (\<lambda>(k, w). \<lparr> et_home_subnet_id = ew_home_subnet_id w, et_home_token_address = ew_home_token_address w,
        et_amount = ew_amount w, et_destination_subnet_id = subnet_id_from_txid20 k, et_recipient = ew_recipient w \<rparr>)"

lemma read_erc_back:
  "native_id (et_destination_subnet_id t) \<Longrightarrow> read_erc (the (subnet_id_txid20 (et_destination_subnet_id t)), erc_wire t) = t"
  using native_txid20 [of "et_destination_subnet_id t"] by (cases t) (auto simp: read_erc_def erc_wire_def)

lemma wire_erc_flat: "concat (map wire_erc_transfers g) = map read_erc (flat g)"
  by (rule concat_by_flat) (simp add: wire_erc_transfers_def read_erc_def)

lemma updated_transfers:
  assumes "update_subnets_for_transfer X db m0 = Inr m" "t \<in> set (ck_transfers m)"
  shows "\<exists>s. get_subnet_state X db (xt_destination_subnet_id t) = Some s
           \<and> xt_subnet_multisig_address t = Some (cm_multisig_address (ss_committee s))"
proof -
  have "res_mapM (\<lambda>t. case get_subnet_state X db (xt_destination_subnet_id t) of
          Some s \<Rightarrow> Inr (t\<lparr> xt_subnet_multisig_address := Some (cm_multisig_address (ss_committee s)) \<rparr>)
        | None \<Rightarrow> Inl (invalid_field ''destination_subnet_id'' ''does not exist'')) xs = Inr ts \<Longrightarrow> t \<in> set ts \<Longrightarrow> ?thesis"
    for xs ts
    by (induction xs arbitrary: ts) (auto simp: res_simps split: option.splits)
  with assms show ?thesis by (auto simp: update_subnets_for_transfer_def res_simps)
qed

lemma wire_transfers_flat:
  assumes "\<forall>k \<in> set (map fst g). get_subnet_state X db (subnet_id_from_txid20 k) \<noteq> None"
  shows "concat (map (wire_transfers X db) g) = map (read_transfer X db) (flat g)"
proof (rule concat_by_flat)
  fix k vs assume "(k, vs) \<in> set g"
  with assms obtain s where "get_subnet_state X db (subnet_id_from_txid20 k) = Some s" by force
  then show "wire_transfers X db (k, vs) = map (\<lambda>v. read_transfer X db (k, v)) vs"
    by (simp add: wire_transfers_def read_transfer_def split: prod.splits)
qed

lemma read_transfer_back:
  assumes "native_id (xt_destination_subnet_id t)" "get_subnet_state X db (xt_destination_subnet_id t) = Some s"
    and "xt_subnet_multisig_address t = Some (cm_multisig_address (ss_committee s))"
  shows "read_transfer X db (the (subnet_id_txid20 (xt_destination_subnet_id t)), xt_subnet_user_address t, xt_amount t) = t"
  using assms native_txid20 [of "xt_destination_subnet_id t"] by (cases t) (auto simp: read_transfer_def)

lemma reveal_witness:
  assumes "make_reveal_batch_transfer_tx X C seed tid r ra m = Inr (Some tx)"
  obtains data vout rto cb where "has_batch m" "make_batched_transfer_data C seed m = Inr data"
    "tx = \<lparr> lock_time = 0, inputs = [\<lparr> prev_txid = tid, prev_vout = vout, sequence = - 1,
             witness = [script_to_bytes X (make_push_data_script data), cb] \<rparr>], outputs = [rto] \<rparr>"
    "batch_transfer_commit_outpoint tid m = Some (tid, vout)"
  using assms
  by (auto simp: make_reveal_batch_transfer_tx_def make_batched_transfer_def batch_transfer_commit_outpoint_def
      Let_def res_simps split: if_splits)

lemma codec_ok_wire:
  assumes "codec_ok C" "ser_wire C seed w = Some b"
    and "distinct (map fst (bw_transfers w))" "distinct (map fst (bw_token_transfers w))"
  shows "\<exists>w'. de_wire C b = Some w' \<and> mset (bw_transfers w') = mset (bw_transfers w)
           \<and> mset (bw_token_transfers w') = mset (bw_token_transfers w)
           \<and> bw_token_registrations w' = bw_token_registrations w
           \<and> bw_token_supply_adjustments w' = bw_token_supply_adjustments w"
  using assms unfolding codec_ok_def by blast

text \<open>What the wire data of a checkpoint holds, whatever the order of iteration of the hash maps.\<close>

lemma batched_data_wire:
  assumes "codec_ok C" "make_batched_transfer_data C seed m = Inr data"
  obtains wire where "witness_to_wire_data C data = Inr wire"
    "mset (flat (bw_transfers wire)) = mset (map (\<lambda>t. (the (subnet_id_txid20 (xt_destination_subnet_id t)),
        xt_subnet_user_address t, xt_amount t)) (ck_transfers m))"
    "set (map fst (bw_transfers wire)) = (\<lambda>t. the (subnet_id_txid20 (xt_destination_subnet_id t))) ` set (ck_transfers m)"
    "mset (flat (bw_token_transfers wire)) = mset (map (\<lambda>t. (the (subnet_id_txid20 (et_destination_subnet_id t)),
        erc_wire t)) (ck_token_transfers m))"
    "bw_token_registrations wire = ck_token_registrations m"
    "bw_token_supply_adjustments wire = ck_token_supply_adjustments m"
proof -
  from assms(2) obtain ts es b where ts: "res_fold group_transfer [] (ck_transfers m) = Inr ts"
    and es: "res_fold group_erc [] (ck_token_transfers m) = Inr es"
    and b: "ser_wire C seed \<lparr> bw_transfers = ts, bw_token_registrations = ck_token_registrations m,
           bw_token_supply_adjustments = ck_token_supply_adjustments m, bw_token_transfers = es \<rparr> = Some b"
      "data = tag_bytes BatchTransferTag @ b"
    by (auto simp: make_batched_transfer_data_def Let_def res_simps)
  note T = group_fold [OF group_transfer_push ts, simplified]
  note E = group_fold [OF group_erc_push es, simplified]
  from T E b(1) assms(1) obtain w where w: "de_wire C b = Some w" "mset (bw_transfers w) = mset ts"
    "mset (bw_token_transfers w) = mset es" "bw_token_registrations w = ck_token_registrations m"
    "bw_token_supply_adjustments w = ck_token_supply_adjustments m"
    using codec_ok_wire [OF assms(1) b(1)] by auto
  have keys: "set (map fst (bw_transfers w)) = set (map fst ts)"
    using w(2) by (metis mset_map set_mset_mset)
  show thesis
    by (rule that [of w])
      (use w b(2) T E keys mset_flat_cong [OF w(2)] mset_flat_cong [OF w(3)]
        in \<open>simp_all add: witness_to_wire_data_def IPC_TAG_LENGTH_def comp_def flat_def\<close>)
qed

text \<open>
  C13. The reveal transaction of a checkpoint is read back as a batch that names the checkpoint
  transaction and the commit output, with the transfers and token transfers of the checkpoint up to
  order and its token registrations and supply adjustments unchanged: nothing is lost, added or
  redirected, whatever the size of the batch and the order of iteration of the hash maps.
\<close>

theorem batch_reveal_roundtrip:
  assumes "script_codec_ok X" "codec_ok C"
    and "update_subnets_for_transfer X db m0 = Inr m"
    and "\<forall>t \<in> set (ck_transfers m). native_id (xt_destination_subnet_id t)"
    and "\<forall>t \<in> set (ck_token_transfers m). native_id (et_destination_subnet_id t)"
    and "make_reveal_batch_transfer_tx X C seed tid r ra m = Inr (Some tx)"
  shows "\<exists>b. batch_from_tx X C db tx = Inr b
     \<and> batch_transfer_commit_outpoint tid m = Some (bt_checkpoint_txid b, bt_checkpoint_vout b)
     \<and> mset (bt_transfers b) = mset (ck_transfers m)
     \<and> mset (bt_token_transfers b) = mset (ck_token_transfers m)
     \<and> bt_token_registrations b = ck_token_registrations m
     \<and> bt_token_supply_adjustments b = ck_token_supply_adjustments m"
proof -
  from reveal_witness [OF assms(6)] obtain data vout rto cb where data: "has_batch m"
    "make_batched_transfer_data C seed m = Inr data"
    "tx = \<lparr> lock_time = 0, inputs = [\<lparr> prev_txid = tid, prev_vout = vout, sequence = - 1,
             witness = [script_to_bytes X (make_push_data_script data), cb] \<rparr>], outputs = [rto] \<rparr>"
    "batch_transfer_commit_outpoint tid m = Some (tid, vout)" .
  from batched_data_wire [OF assms(2) data(2)] obtain w where w: "witness_to_wire_data C data = Inr w"
    "mset (flat (bw_transfers w)) = mset (map (\<lambda>t. (the (subnet_id_txid20 (xt_destination_subnet_id t)),
        xt_subnet_user_address t, xt_amount t)) (ck_transfers m))"
    "set (map fst (bw_transfers w)) = (\<lambda>t. the (subnet_id_txid20 (xt_destination_subnet_id t))) ` set (ck_transfers m)"
    "mset (flat (bw_token_transfers w)) = mset (map (\<lambda>t. (the (subnet_id_txid20 (et_destination_subnet_id t)),
        erc_wire t)) (ck_token_transfers m))"
    "bw_token_registrations w = ck_token_registrations m"
    "bw_token_supply_adjustments w = ck_token_supply_adjustments m" .
  have known: "\<forall>k \<in> set (map fst (bw_transfers w)). get_subnet_state X db (subnet_id_from_txid20 k) \<noteq> None"
    unfolding w(3) using updated_transfers [OF assms(3)] assms(4) native_txid20 by fastforce
  let ?t = "concat (map (wire_transfers X db) (bw_transfers w))" and ?e = "concat (map wire_erc_transfers (bw_token_transfers w))"
  have "mset ?t = image_mset (read_transfer X db) (mset (flat (bw_transfers w)))"
    by (simp add: wire_transfers_flat [OF known])
  also have "\<dots> = mset (map (\<lambda>t. read_transfer X db (the (subnet_id_txid20 (xt_destination_subnet_id t)),
        xt_subnet_user_address t, xt_amount t)) (ck_transfers m))" by (simp add: w(2) multiset.map_comp comp_def)
  also have "map (\<lambda>t. read_transfer X db (the (subnet_id_txid20 (xt_destination_subnet_id t)),
        xt_subnet_user_address t, xt_amount t)) (ck_transfers m) = ck_transfers m"
    using updated_transfers [OF assms(3)] assms(4) read_transfer_back by (intro map_idI) blast
  finally have t: "mset ?t = mset (ck_transfers m)" .
  have "mset ?e = image_mset read_erc (mset (flat (bw_token_transfers w)))" by (simp add: wire_erc_flat)
  also have "\<dots> = mset (map (\<lambda>t. read_erc (the (subnet_id_txid20 (et_destination_subnet_id t)), erc_wire t)) (ck_token_transfers m))"
    by (simp add: w(4) multiset.map_comp comp_def)
  also have "map (\<lambda>t. read_erc (the (subnet_id_txid20 (et_destination_subnet_id t)), erc_wire t)) (ck_token_transfers m)
      = ck_token_transfers m"
    using assms(5) read_erc_back by (intro map_idI) blast
  finally have e: "mset ?e = mset (ck_token_transfers m)" .
  have "?t = [] \<longleftrightarrow> ck_transfers m = []" "?e = [] \<longleftrightarrow> ck_token_transfers m = []"
    using t e by (metis mset_zero_iff)+
  then show ?thesis
    using data w(1,5,6) t e concatenate_push_data [OF assms(1)]
    by (auto simp: batch_from_tx_def Let_def has_batch_def)
qed

section \<open>A concrete batch\<close>

definition demo_wire :: batch_transfer_wire_data where
  "demo_wire = \<lparr> bw_transfers = [(replicate 20 7, [(replicate 20 3, 500)])], bw_token_registrations = [],
     bw_token_supply_adjustments = [], bw_token_transfers = [] \<rparr>"

definition demo_join_msg :: ipc_join_subnet_msg where
  "demo_join_msg = \<lparr> jm_subnet_id = demo_id, jm_collateral = 0, jm_ip = ''10.0.0.1:80'', jm_backup_address = ''bcrt1pb'',
     jm_pubkey = replicate 32 1 \<rparr>"

text \<open>A codec that writes one batch, one join message (less its collateral) and no create message.\<close>

definition demo_codec :: codec where
  "demo_codec = \<lparr> ser_create = (\<lambda>m. None), de_create = (\<lambda>b. None),
     ser_join = (\<lambda>m. if m\<lparr> jm_collateral := 0 \<rparr> = demo_join_msg then Some [2] else None),
     de_join = (\<lambda>b. if b = [2] then Some demo_join_msg else None),
     ser_wire = (\<lambda>seed w. if w = demo_wire then Some [1] else None),
     de_wire = (\<lambda>b. if b = [1] then Some demo_wire else None),
     control_block = (\<lambda>s. Some (replicate 33 0)), map_order = (\<lambda>seed xs. xs) \<rparr>"

lemma demo_codec_ok: "codec_ok demo_codec"
  by (auto simp: codec_ok_def demo_codec_def split: if_splits)

definition demo_batch_checkpoint :: ipc_checkpoint_subnet_msg where
  "demo_batch_checkpoint = demo_checkpoint_msg\<lparr> ck_transfers := [\<lparr> xt_amount = 500, xt_destination_subnet_id = demo_id,
     xt_subnet_multisig_address = Some (cm_multisig_address (demo_committee 0)), xt_subnet_user_address = replicate 20 3 \<rparr>],
     ck_withdrawals := [\<lparr> wd_amount = 1000, wd_address = ''bcrt1pw'' \<rparr>] \<rparr>"

lemma demo_batched_data:
  "make_batched_transfer_data demo_codec 0 demo_batch_checkpoint = Inr (tag_bytes BatchTransferTag @ [1])"
  using demo_id_txid20
  by (simp add: make_batched_transfer_data_def demo_batch_checkpoint_def demo_checkpoint_msg_def demo_codec_def
      group_transfer_def expect_txid20_def demo_wire_def)

lemma demo_make_batched:
  assumes "X = demo_ext \<or> X = wire_ext"
  shows "\<exists>commit w ro. make_batched_transfer X demo_codec 0 1000 ''bcrt1p'' demo_batch_checkpoint = Inr (commit, w, ro)"
  using assms demo_batched_data
  by (auto simp: make_batched_transfer_def demo_ext_def wire_ext_def demo_codec_def Let_def ipc_amount_add_def word_checked_add_def)

lemma demo_outs:
  "\<exists>outs. checkpoint_tx_outs demo_ext demo_codec 0 1000 ''bcrt1p'' demo_batch_checkpoint = Inr outs"
proof -
  obtain md where md: "make_metadata_tx_out demo_ext 1000 demo_batch_checkpoint = Inr md"
    using demo_id_txid20
    by (auto simp: make_metadata_tx_out_def checkpoint_metadata_def expect_txid20_def demo_batch_checkpoint_def
        demo_checkpoint_msg_def Let_def)
  obtain c w ro where mb: "make_batched_transfer demo_ext demo_codec 0 1000 ''bcrt1p'' demo_batch_checkpoint = Inr (c, w, ro)"
    using demo_make_batched by blast
  have v: "address_valid demo_ext ''bcrt1pw'' \<and> address_valid demo_ext ''bcrt1pbackup''
      \<and> address_valid demo_ext (cm_multisig_address (demo_committee 0))"
    by (simp add: demo_ext_def demo_committee_def)
  show ?thesis
    using md mb v demo_id_txid20
    by (auto simp: checkpoint_tx_outs_def address_out_def demo_batch_checkpoint_def demo_checkpoint_msg_def
        group_subnet_total_def expect_txid20_def demo_codec_def)
qed

theorem reveal_points_past_commit_witness:
  "\<exists>outs commit w ro. checkpoint_tx_outs demo_ext demo_codec 0 1000 ''bcrt1p'' demo_batch_checkpoint = Inr outs
     \<and> make_batched_transfer demo_ext demo_codec 0 1000 ''bcrt1p'' demo_batch_checkpoint = Inr (commit, w, ro)
     \<and> outs ! 2 = commit
     \<and> (\<exists>vout. batch_transfer_commit_outpoint (replicate 32 5) demo_batch_checkpoint = Some (replicate 32 5, vout)
          \<and> unat vout = 3)"
proof -
  obtain outs where o: "checkpoint_tx_outs demo_ext demo_codec 0 1000 ''bcrt1p'' demo_batch_checkpoint = Inr outs"
    using demo_outs by blast
  obtain c w ro where mb: "make_batched_transfer demo_ext demo_codec 0 1000 ''bcrt1p'' demo_batch_checkpoint = Inr (c, w, ro)"
    using demo_make_batched by blast
  have b: "has_batch demo_batch_checkpoint" "length (ck_withdrawals demo_batch_checkpoint) = 1"
    "length (ck_unstakes demo_batch_checkpoint) = 1"
    by (simp_all add: has_batch_def demo_batch_checkpoint_def demo_checkpoint_msg_def)
  show ?thesis
    using reveal_points_past_commit [OF o b(1) mb, of "replicate 32 5"] o mb b(2,3)
    by (auto simp: numeral_2_eq_2 numeral_3_eq_3)
qed

theorem batch_reveal_roundtrip_witness:
  "\<exists>tx b. batch_from_tx wire_ext demo_codec wire_db tx = Inr b
     \<and> mset (bt_transfers b) = mset (ck_transfers demo_batch_checkpoint) \<and> length (ck_transfers demo_batch_checkpoint) = 1"
proof -
  have get: "get_subnet_state wire_ext wire_db demo_id = Some demo_state"
    using wire_db_lookup(2) by (simp add: get_subnet_state_def subnet_state_key_def wire_ext_def subnet_id_display_def)
  then have u: "update_subnets_for_transfer wire_ext wire_db demo_batch_checkpoint = Inr demo_batch_checkpoint"
    by (simp add: update_subnets_for_transfer_def demo_batch_checkpoint_def demo_state_def)
  have "has_batch demo_batch_checkpoint" by (simp add: has_batch_def demo_batch_checkpoint_def)
  with demo_make_batched [of wire_ext] obtain tx where
    tx: "make_reveal_batch_transfer_tx wire_ext demo_codec 0 (replicate 32 5) 1000 ''bcrt1p'' demo_batch_checkpoint = Inr (Some tx)"
    by (auto simp: make_reveal_batch_transfer_tx_def batch_transfer_commit_outpoint_def)
  from batch_reveal_roundtrip [OF wire_ext_codec demo_codec_ok u _ _ tx]
  show ?thesis by (auto simp: demo_batch_checkpoint_def demo_checkpoint_msg_def)
qed

section \<open>Messages in a witness\<close>

lemma tag_string: "map (\<lambda>b. char_of (unat b)) (tag_bytes t) = ipc_tag_as_str t"
  by (simp add: tag_bytes_def ascii_bytes_def comp_def char_byte_inverse)

lemmas witness_defs = from_witness_def create_from_bytes_def join_from_bytes_def IPC_TAG_LENGTH_def tag_string
  ipc_tag_from_str_def

lemma create_bytes_back:
  assumes "codec_ok C" "create_to_bytes C m = Inr d"
  shows "from_witness C d = Inr (CreateSubnet m)"
proof -
  obtain b where b: "ser_create C m = Some b" "d = tag_bytes CreateSubnetTag @ b"
    using assms(2) by (auto simp: create_to_bytes_def res_simps)
  then have "de_create C b = Some m" using assms(1) unfolding codec_ok_def by blast
  with b show ?thesis by (simp add: witness_defs)
qed

lemma join_bytes_back:
  assumes "codec_ok C" "join_to_bytes C j = Inr d"
  shows "from_witness C d = Inr (JoinSubnet (j\<lparr> jm_collateral := 0 \<rparr>))"
proof -
  obtain b where b: "ser_join C j = Some b" "d = tag_bytes JoinSubnetTag @ b"
    using assms(2) by (auto simp: join_to_bytes_def res_simps)
  then have "de_join C b = Some (j\<lparr> jm_collateral := 0 \<rparr>)" using assms(1) unfolding codec_ok_def by blast
  with b show ?thesis by (simp add: witness_defs)
qed

text \<open>
  A create or join message written into a commit script is what the monitor reads from the witness
  of the reveal transaction: the same create message, and the join message with the collateral that is
  not written reset to zero.  No other tag is accepted in a witness.
\<close>

theorem witness_message_roundtrip:
  assumes "script_codec_ok X" "codec_ok C"
  shows "(create_to_bytes C m = Inr d \<longrightarrow>
            concatenate_op_push_data X (script_to_bytes X (make_push_data_script d)) = Inr d
            \<and> from_witness C d = Inr (CreateSubnet m))
       \<and> (join_to_bytes C j = Inr e \<longrightarrow>
            concatenate_op_push_data X (script_to_bytes X (make_push_data_script e)) = Inr e
            \<and> from_witness C e = Inr (JoinSubnet (j\<lparr> jm_collateral := 0 \<rparr>)))
       \<and> (t \<noteq> CreateSubnetTag \<longrightarrow> t \<noteq> JoinSubnetTag \<longrightarrow>
            from_witness C (tag_bytes t @ rest) = Inl (DeserializationError ''Skip''))"
proof -
  show ?thesis
    using concatenate_push_data [OF assms(1)] create_bytes_back [OF assms(2)] join_bytes_back [OF assms(2)]
    by (cases t) (simp_all add: witness_defs)
qed

theorem witness_message_roundtrip_witness:
  "from_witness demo_codec (tag_bytes JoinSubnetTag @ [2]) = Inr (JoinSubnet demo_join_msg)"
proof -
  let ?j = "demo_join_msg\<lparr> jm_collateral := 70000 \<rparr>"
  have "join_to_bytes demo_codec ?j = Inr (tag_bytes JoinSubnetTag @ [2])"
    by (simp add: join_to_bytes_def demo_codec_def demo_join_msg_def)
  with witness_message_roundtrip [OF wire_ext_codec demo_codec_ok, of _ _ ?j] show ?thesis
    by (simp add: demo_join_msg_def)
qed

end
