(* ===== verification/Psbt_Facts.thy ===== *)
theory Psbt_Facts
  imports Psbt
begin

text \<open>
  Facts on partially signed transactions: the witness that finalization builds, the quorum a spend of
  the committee multisig needs, and the division of the leftover of a kill checkpoint.
\<close>

section \<open>Order of the keys\<close>

lemma sort_committee_keys_idem [simp]: "sort_committee_keys (sort_committee_keys ks) = sort_committee_keys ks"
  unfolding sort_committee_keys_def by (rule sort_key_id_if_sorted) (rule sorted_sort_key)

lemma multisig_script_sorted [simp]:
  "create_multisig_script (sort_committee_keys ks) thr = create_multisig_script ks thr"
proof -
  have "sum_list (map snd (sort_committee_keys ks)) = sum_list (map snd ks)" by (rule sum_list_mset_eq) simp
  then show ?thesis by (simp add: create_multisig_script_def)
qed

lemma spend_info_sorted [simp]:
  "create_subnet_multisig_spend_info sid (sort_committee_keys ks) thr = create_subnet_multisig_spend_info sid ks thr"
  by (simp add: create_subnet_multisig_spend_info_def)

section \<open>Signatures of an input\<close>

lemma length_add_signatures [simp]: "length (add_signatures key sigs ins) = length ins"
  by (induction key sigs ins rule: add_signatures.induct) simp_all

lemma add_signatures_nth:
  "n < length ins \<Longrightarrow> add_signatures key sigs ins ! n =
     (if n < length sigs then (ins ! n)\<lparr> pi_tap_script_sigs := (pi_tap_script_sigs (ins ! n))(key \<mapsto> sigs ! n) \<rparr>
      else ins ! n)"
  by (induction key sigs ins arbitrary: n rule: add_signatures.induct) (auto simp: nth_Cons split: nat.splits)

definition given_signature :: "(xonly_pubkey \<times> bytes list) list \<Rightarrow> nat \<Rightarrow> xonly_pubkey \<Rightarrow> bytes" where
  "given_signature sets n pk =
     (case map_of sets pk of Some sigs \<Rightarrow> if n < length sigs then sigs ! n else [] | None \<Rightarrow> [])"

abbreviation keyed :: "weighted_key list \<Rightarrow> bytes list list \<Rightarrow> (xonly_pubkey \<times> bytes list) list" where
  "keyed keys sets \<equiv> zip (map fst keys) sets"

lemma fold_add_signatures:
  assumes "distinct (map (\<lambda>e. fst (fst e)) ps)" "n < length ins"
  shows "length (fold (\<lambda>(kw, sigs). add_signatures (fst kw, leaf) sigs) ps ins) = length ins
     \<and> pi_tap_script_sigs (fold (\<lambda>(kw, sigs). add_signatures (fst kw, leaf) sigs) ps ins ! n) (pk, leaf) =
        (case map_of (map (\<lambda>(kw, sigs). (fst kw, sigs)) ps) pk of
           Some sigs \<Rightarrow> if n < length sigs then Some (sigs ! n) else pi_tap_script_sigs (ins ! n) (pk, leaf)
         | None \<Rightarrow> pi_tap_script_sigs (ins ! n) (pk, leaf))
     \<and> pi_witness_utxo (fold (\<lambda>(kw, sigs). add_signatures (fst kw, leaf) sigs) ps ins ! n) = pi_witness_utxo (ins ! n)"
  using assms
proof (induction ps arbitrary: ins)
  case Nil
  then show ?case by simp
next
  case (Cons e ps)
  obtain kw sigs where e: "e = (kw, sigs)" by fastforce
  let ?i = "add_signatures (fst kw, leaf) sigs ins"
  have d: "distinct (map (\<lambda>e. fst (fst e)) ps)" "n < length ?i" using Cons.prems by simp_all
  have new: "pk = fst kw \<Longrightarrow> map_of (map (\<lambda>(kw, sigs). (fst kw, sigs)) ps) pk = None"
    using Cons.prems(1) e by (force simp: map_of_eq_None_iff)
  show ?case
    using Cons.IH [OF d] Cons.prems(2) new e
    by (auto simp: add_signatures_nth split: option.splits if_splits)
qed

lemma map_of_sorted_pairs:
  assumes "distinct (map fst keys)" "length sets = length keys"
  shows "map_of (map (\<lambda>(kw, sigs). (fst kw, sigs)) (sort_key (\<lambda>e. fst (fst e)) (zip keys sets))) = map_of (keyed keys sets)"
    and "distinct (map (\<lambda>e. fst (fst e)) (sort_key (\<lambda>e. fst (fst e)) (zip keys sets)))"
proof -
  let ?s = "sort_key (\<lambda>e. fst (fst e)) (zip keys sets)"
  have z: "map (\<lambda>(kw, sigs). (fst kw, sigs)) (zip keys sets) = keyed keys sets"
    by (simp add: zip_map1 split_def)
  have fsts: "map (\<lambda>e. fst (fst e)) (zip keys sets) = map fst keys"
    using assms(2) by (simp add: map_map [symmetric, unfolded comp_def])
  have "mset (map (\<lambda>e. fst (fst e)) ?s) = mset (map fst keys)" by (simp add: fsts [symmetric])
  then show d: "distinct (map (\<lambda>e. fst (fst e)) ?s)" using assms(1) by (metis mset_eq_imp_distinct_iff)
  have "mset (map (\<lambda>(kw, sigs). (fst kw, sigs)) ?s) = mset (keyed keys sets)"
    by (simp add: z [symmetric])
  then have "set (map (\<lambda>(kw, sigs). (fst kw, sigs)) ?s) = set (keyed keys sets)" by (metis mset_eq_setD)
  moreover have "distinct (map fst (map (\<lambda>(kw, sigs). (fst kw, sigs)) ?s))"
    using d by (simp add: split_def comp_def)
  moreover have "distinct (map fst (keyed keys sets))" using assms by simp
  ultimately show "map_of (map (\<lambda>(kw, sigs). (fst kw, sigs)) ?s) = map_of (keyed keys sets)"
    by (intro map_of_inject_set [THEN iffD2])
qed

section \<open>The witness of a finalized spend\<close>

definition fresh_psbt :: "psbt \<Rightarrow> bool" where
  "fresh_psbt p \<longleftrightarrow> length (inputs (unsigned_tx p)) = length (psbt_inputs p)
     \<and> (\<forall>i \<in> set (psbt_inputs p). pi_tap_script_sigs i = Map.empty)"

definition spend_witness ::
  "weighted_key list \<Rightarrow> (xonly_pubkey \<times> bytes list) list \<Rightarrow> nat \<Rightarrow> bytes list" where
  "spend_witness keys sets n = map (\<lambda>kw. given_signature sets n (fst kw)) (sort_committee_keys keys)"

lemma length_spend_witness [simp]: "length (spend_witness keys sets n) = length keys"
  by (simp add: spend_witness_def)

lemma input_signature_given:
  assumes "distinct (map fst keys)" "length sets = length keys" "n < length ins"
    and "pi_tap_script_sigs (ins ! n) = Map.empty"
    and "ins' = fold (\<lambda>(kw, sigs). add_signatures (fst kw, leaf) sigs)
                  (sort_key (\<lambda>e. fst (fst e)) (zip keys sets)) ins"
  shows "input_signature leaf (ins' ! n) kw = given_signature (keyed keys sets) n (fst kw)"
  using fold_add_signatures [OF map_of_sorted_pairs(2) [OF assms(1,2)] assms(3), of leaf "fst kw"] assms(4,5)
  by (simp add: input_signature_def given_signature_def map_of_sorted_pairs(1) [OF assms(1,2)] split: option.splits)

lemma finalize_from_sigs_witness:
  assumes "finalize_spend_psbt_from_sigs X T sid keys thr p sets = Inr tx"
    and "distinct (map fst keys)" "length sets = length keys" "fresh_psbt p"
  shows "\<exists>script cb. create_multisig_script keys thr = Inr script
     \<and> outputs tx = outputs (unsigned_tx p) \<and> length (inputs tx) = length (psbt_inputs p)
     \<and> (\<forall>n < length (psbt_inputs p). inputs tx ! n = (inputs (unsigned_tx p) ! n)
          \<lparr> witness := rev (spend_witness keys (keyed keys sets) n) @ [script_to_bytes X script, cb] \<rparr>)"
proof -
  obtain script where script: "create_multisig_script keys thr = Inr script"
    using assms(1) by (auto simp: finalize_spend_psbt_from_sigs_def split: sum.splits)
  define ins' where "ins' = fold (\<lambda>(kw, sigs). add_signatures (fst kw, leaf_hash T script) sigs)
       (sort_key (\<lambda>e. fst (fst e)) (zip keys sets)) (psbt_inputs p)"
  have len: "length ins' = length (psbt_inputs p)"
  proof (cases "psbt_inputs p = []")
    case True
    have "fold (\<lambda>(kw, sigs). add_signatures (fst kw, leaf_hash T script) sigs) ps [] = []" for ps :: "(weighted_key \<times> bytes list) list"
      by (induction ps) auto
    with True show ?thesis by (simp add: ins'_def)
  next
    case False
    then show ?thesis
      using fold_add_signatures [OF map_of_sorted_pairs(2) [OF assms(2,3)], of 0 "psbt_inputs p" "leaf_hash T script"]
      by (simp add: ins'_def)
  qed
  have sig: "map (input_signature (leaf_hash T script) (ins' ! n)) (rev (sort_committee_keys keys))
      = rev (spend_witness keys (keyed keys sets) n)" if "n < length (psbt_inputs p)" for n
    using input_signature_given [OF assms(2,3) that _ ins'_def] assms(4) that
    by (simp add: spend_witness_def fresh_psbt_def rev_map)
  obtain cb where tx: "tx = (unsigned_tx p)\<lparr> inputs := map2 (\<lambda>i w. i\<lparr> witness := w \<rparr>) (inputs (unsigned_tx p))
        (map (\<lambda>i. map (input_signature (leaf_hash T script) i) (rev (sort_committee_keys keys))
             @ [script_to_bytes X script, cb]) ins') \<rparr>"
    using assms(1) script
    by (auto simp: finalize_spend_psbt_from_sigs_def finalize_spend_psbt_def Let_def ins'_def res_simps
        split: option.splits)
  have "length (inputs (unsigned_tx p)) = length (psbt_inputs p)" using assms(4) by (simp add: fresh_psbt_def)
  then show ?thesis using script tx len sig by (intro exI [of _ script] exI [of _ cb]) simp
qed

lemma signed_power_spend_witness:
  assumes "\<forall>kw \<in> set keys. given_signature sets n (fst kw) = [] \<or> check (fst kw) (given_signature sets n (fst kw))"
  shows "signed_power check (sort_committee_keys keys) (spend_witness keys sets n)
       = (\<Sum>kw\<leftarrow>keys. if given_signature sets n (fst kw) = [] then 0 else uint (snd kw))"
proof -
  let ?f = "\<lambda>kw. if given_signature sets n (fst kw) = [] then 0 else uint (snd kw)"
  have m: "set (sort_committee_keys keys) = set keys" by (metis mset_eq_setD mset_sort_committee_keys)
  have "signed_power check ks (map (\<lambda>kw. given_signature sets n (fst kw)) ks) = (\<Sum>kw\<leftarrow>ks. ?f kw)"
    if "set ks \<subseteq> set keys" for ks
    using that assms by (induction ks) (auto simp: signed_power_def)
  from this [of "sort_committee_keys keys"] m
  have "signed_power check (sort_committee_keys keys) (spend_witness keys sets n) = (\<Sum>kw\<leftarrow>sort_committee_keys keys. ?f kw)"
    by (simp add: spend_witness_def)
  also have "\<dots> = (\<Sum>kw\<leftarrow>keys. ?f kw)" by (rule sum_list_mset_eq) simp
  finally show ?thesis .
qed

lemma spend_witness_outcome:
  assumes "create_multisig_script keys thr = Inr script" "(\<Sum>kw\<leftarrow>keys. uint (snd kw)) < 2 ^ 31"
    and "\<forall>kw \<in> set keys. given_signature sets n (fst kw) = [] \<or> check (fst kw) (given_signature sets n (fst kw))"
  shows "script_exec check False script (map SBytes (spend_witness keys sets n)) =
     Some [SNum (if uint thr \<le> (\<Sum>kw\<leftarrow>keys. if given_signature sets n (fst kw) = [] then 0 else uint (snd kw)) then 1 else 0)]"
proof -
  have m: "set (sort_committee_keys keys) = set keys" by (metis mset_eq_setD mset_sort_committee_keys)
  have "\<forall>(kw, sig) \<in> set (zip (sort_committee_keys keys) (spend_witness keys sets n)). sig = [] \<or> check (fst kw) sig"
    using assms(3) m by (auto simp: spend_witness_def zip_map2 zip_same_conv_map)
  then show ?thesis
    using multisig_script_outcome [OF assms(1) _ _ assms(2), of "spend_witness keys sets n" check]
      signed_power_spend_witness [of keys sets n check] assms(3) length_spend_witness by simp
qed

text \<open>
  C21. A finalized spend of the committee multisig is valid exactly when it was signed by enough power.
  The witness of each input holds, in script order, the signatures handed in for that input; when these
  are valid, running the committee's script on them leaves 1 exactly when the keys that signed this
  input reach the threshold, and 0 otherwise.  The outputs are those of the unsigned transaction.
\<close>

theorem finalized_spend_needs_threshold:
  assumes "finalize_spend_psbt_from_sigs X T sid keys thr p sets = Inr tx" "fresh_psbt p"
    and "distinct (map fst keys)" "length sets = length keys" "(\<Sum>kw\<leftarrow>keys. uint (snd kw)) < 2 ^ 31"
    and "n < length (inputs tx)"
    and "\<forall>kw \<in> set keys. given_signature (keyed keys sets) n (fst kw) = []
           \<or> check (fst kw) (given_signature (keyed keys sets) n (fst kw))"
  shows "\<exists>script ws cb. create_multisig_script keys thr = Inr script
     \<and> witness (inputs tx ! n) = rev ws @ [script_to_bytes X script, cb]
     \<and> script_exec check False script (map SBytes ws) = Some [SNum
         (if uint thr \<le> (\<Sum>kw\<leftarrow>keys. if given_signature (keyed keys sets) n (fst kw) = [] then 0 else uint (snd kw))
          then 1 else 0)]
     \<and> outputs tx = outputs (unsigned_tx p)"
proof -
  obtain script cb where script: "create_multisig_script keys thr = Inr script"
    and o: "outputs tx = outputs (unsigned_tx p)" and l: "length (inputs tx) = length (psbt_inputs p)"
    and w: "\<forall>n < length (psbt_inputs p). inputs tx ! n = (inputs (unsigned_tx p) ! n)
          \<lparr> witness := rev (spend_witness keys (keyed keys sets) n) @ [script_to_bytes X script, cb] \<rparr>"
    using finalize_from_sigs_witness [OF assms(1,3,4,2)] by blast
  have "witness (inputs tx ! n) = rev (spend_witness keys (keyed keys sets) n) @ [script_to_bytes X script, cb]"
    using w l assms(6) by simp
  then show ?thesis using spend_witness_outcome [of keys thr script "keyed keys sets" n check] assms(5,7) script o by blast
qed

section \<open>A quorum completes a spend\<close>

lemma construct_spend_psbt_Inr:
  assumes "construct_spend_psbt X T sid keys thr ca unspent ex outs r lim = Inr p"
  shows "construct_spend_unsigned_transaction X keys thr ca unspent ex outs r lim = Inr (unsigned_tx p)"
    and "\<exists>script info cb. create_multisig_script keys thr = Inr script
        \<and> create_subnet_multisig_spend_info sid keys thr = Inr info \<and> tap_control_block T info script = Some cb
        \<and> length (psbt_inputs p) = length (inputs (unsigned_tx p))
        \<and> (\<forall>i \<in> set (psbt_inputs p). pi_tap_scripts i = [(cb, script)] \<and> pi_tap_script_sigs i = Map.empty
             \<and> pi_witness_utxo i \<noteq> None)"
proof -
  from assms obtain tx script info cb ins where *: "construct_spend_unsigned_transaction X keys thr ca unspent ex outs r lim = Inr tx"
    "create_multisig_script keys thr = Inr script" "create_subnet_multisig_spend_info sid keys thr = Inr info"
    "tap_control_block T info script = Some cb"
    "res_mapM (spend_psbt_input info script cb unspent) (inputs tx) = Inr ins" "p = \<lparr> unsigned_tx = tx, psbt_inputs = ins \<rparr>"
    by (auto simp: construct_spend_psbt_def res_simps split: if_splits)
  then show "construct_spend_unsigned_transaction X keys thr ca unspent ex outs r lim = Inr (unsigned_tx p)" by simp
  have "list_all2 (\<lambda>x y. spend_psbt_input info script cb unspent x = Inr y) (inputs tx) ins"
    using *(5) by (simp add: res_mapM_Inr)
  then have "\<forall>i \<in> set ins. pi_tap_scripts i = [(cb, script)] \<and> pi_tap_script_sigs i = Map.empty \<and> pi_witness_utxo i \<noteq> None"
    by (induction rule: list_all2_induct) (auto simp: spend_psbt_input_def res_simps)
  with * show "\<exists>script info cb. create_multisig_script keys thr = Inr script
        \<and> create_subnet_multisig_spend_info sid keys thr = Inr info \<and> tap_control_block T info script = Some cb
        \<and> length (psbt_inputs p) = length (inputs (unsigned_tx p))
        \<and> (\<forall>i \<in> set (psbt_inputs p). pi_tap_scripts i = [(cb, script)] \<and> pi_tap_script_sigs i = Map.empty
             \<and> pi_witness_utxo i \<noteq> None)"
    by (auto dest: res_mapM_length)
qed

definition spend_message :: "taproot \<Rightarrow> psbt \<Rightarrow> script \<Rightarrow> nat \<Rightarrow> bytes option" where
  "spend_message T p script n =
     tap_sighash T (unsigned_tx p) (map (the \<circ> pi_witness_utxo) (psbt_inputs p)) n (leaf_hash T script)"

lemma sign_spend_psbt_signatures:
  assumes "sign_spend_psbt T p sk = Inr (p', sigs)"
    and "\<forall>i \<in> set (psbt_inputs p). pi_tap_scripts i = [(cb, script)] \<and> pi_witness_utxo i \<noteq> None"
  shows "length sigs = length (psbt_inputs p)
     \<and> (\<forall>n < length sigs. \<exists>msg. spend_message T p script n = Some msg \<and> sigs ! n = schnorr_sign T sk msg)"
proof -
  let ?us = "map (the \<circ> pi_witness_utxo) (psbt_inputs p)"
  have us: "funding_utxos p = Inr ?us"
    unfolding funding_utxos_def using assms(2)
    by (intro res_mapM_map [where g = id, simplified]) (auto simp: ok_or_def)
  obtain rs where rs: "res_mapM (sign_input T (unsigned_tx p) ?us sk) (enumerate 0 (psbt_inputs p)) = Inr rs"
    and sigs: "sigs = concat (map snd rs)"
    using assms(1) us by (auto simp: sign_spend_psbt_def Let_def res_simps split: if_splits)
  have l: "length rs = length (psbt_inputs p)" using res_mapM_length [OF rs] by simp
  have one: "\<exists>msg. spend_message T p script n = Some msg \<and> snd (rs ! n) = [schnorr_sign T sk msg]"
    if n: "n < length (psbt_inputs p)" for n
  proof -
    have "sign_input T (unsigned_tx p) ?us sk (n, psbt_inputs p ! n) = Inr (rs ! n)"
      using rs n l by (simp add: res_mapM_Inr list_all2_conv_all_nth nth_enumerate_eq)
    moreover have "pi_tap_scripts (psbt_inputs p ! n) = [(cb, script)]" using assms(2) n by simp
    ultimately show ?thesis
      by (cases "rs ! n") (auto simp: sign_input_def spend_message_def Let_def res_simps)
  qed
  then have ones: "\<forall>n < length rs. length (snd (rs ! n)) = 1" using l by fastforce
  have "concat (map snd rs) = map (\<lambda>e. hd (snd e)) rs" using ones
  proof (induction rs)
    case (Cons e rs)
    then have "length (snd e) = 1" "\<forall>n < length rs. length (snd (rs ! n)) = 1" by fastforce+
    with Cons.IH show ?case by (cases "snd e") auto
  qed simp
  then show ?thesis using sigs l one by fastforce
qed

lemma keyed_lookup:
  "distinct (map fst keys) \<Longrightarrow> length sets = length keys \<Longrightarrow> j < length keys \<Longrightarrow>
   map_of (keyed keys sets) (fst (keys ! j)) = Some (sets ! j)"
  using map_of_zip_nth [of "map fst keys" sets j] by simp

definition quorum :: "taproot \<Rightarrow> weighted_key list \<Rightarrow> bytes option list \<Rightarrow> power \<Rightarrow> bool" where
  "quorum T keys signers thr \<longleftrightarrow>
     list_all2 (\<lambda>kw s. s \<noteq> None \<longrightarrow> x_only_public_key T (the s) = fst kw) keys signers
   \<and> uint thr \<le> (\<Sum>(kw, s)\<leftarrow>zip keys signers. if s = None then 0 else uint (snd kw))"

lemma quorum_signatures:
  assumes "taproot_ok X T" "distinct (map fst keys)" "quorum T keys signers thr"
    and "list_all2 (\<lambda>s sigs. case s of None \<Rightarrow> sigs = [] | Some sk \<Rightarrow> \<exists>p'. sign_spend_psbt T p sk = Inr (p', sigs)) signers sets"
    and "\<forall>i \<in> set (psbt_inputs p). pi_tap_scripts i = [(cb, script)] \<and> pi_witness_utxo i \<noteq> None"
    and "n < length (psbt_inputs p)" "spend_message T p script n = Some msg"
  shows "\<forall>kw \<in> set keys. given_signature (keyed keys sets) n (fst kw) = []
            \<or> verify_schnorr X (fst kw) msg (given_signature (keyed keys sets) n (fst kw))"
    and "uint thr \<le> (\<Sum>kw\<leftarrow>keys. if given_signature (keyed keys sets) n (fst kw) = [] then 0 else uint (snd kw))"
proof -
  have l: "length signers = length keys" "length sets = length keys"
    using assms(3) list_all2_lengthD [OF assms(4)] by (auto simp: quorum_def dest: list_all2_lengthD)
  have each: "given_signature (keyed keys sets) n (fst (keys ! j)) = (case signers ! j of None \<Rightarrow> [] | Some sk \<Rightarrow> schnorr_sign T sk msg)
      \<and> (signers ! j \<noteq> None \<longrightarrow> x_only_public_key T (the (signers ! j)) = fst (keys ! j))" if j: "j < length keys" for j
  proof -
    have s: "case signers ! j of None \<Rightarrow> sets ! j = [] | Some sk \<Rightarrow> \<exists>p'. sign_spend_psbt T p sk = Inr (p', sets ! j)"
      using assms(4) j l by (simp add: list_all2_conv_all_nth)
    have x: "signers ! j \<noteq> None \<longrightarrow> x_only_public_key T (the (signers ! j)) = fst (keys ! j)"
      using assms(3) j by (auto simp: quorum_def list_all2_conv_all_nth)
    show ?thesis
    proof (cases "signers ! j")
      case None
      then show ?thesis using s keyed_lookup [OF assms(2) l(2) j] by (simp add: given_signature_def)
    next
      case (Some sk)
      then obtain p' where "sign_spend_psbt T p sk = Inr (p', sets ! j)" using s by auto
      from sign_spend_psbt_signatures [OF this assms(5)] assms(6,7) x Some show ?thesis
        using keyed_lookup [OF assms(2) l(2) j] by (auto simp: given_signature_def)
    qed
  qed
  have v: "verify_schnorr X (x_only_public_key T sk) msg (schnorr_sign T sk msg)" "schnorr_sign T sk msg \<noteq> []" for sk
    using assms(1) by (simp_all add: taproot_ok_def)
  show "\<forall>kw \<in> set keys. given_signature (keyed keys sets) n (fst kw) = []
            \<or> verify_schnorr X (fst kw) msg (given_signature (keyed keys sets) n (fst kw))"
  proof
    fix kw assume "kw \<in> set keys"
    then obtain j where "j < length keys" "kw = keys ! j" by (auto simp: in_set_conv_nth)
    with each [of j] v show "given_signature (keyed keys sets) n (fst kw) = []
            \<or> verify_schnorr X (fst kw) msg (given_signature (keyed keys sets) n (fst kw))"
      by (cases "signers ! j") (auto, metis)
  qed
  have "map (\<lambda>kw. if given_signature (keyed keys sets) n (fst kw) = [] then 0 else uint (snd kw)) keys
      = map (\<lambda>(kw, s). if s = None then 0 else uint (snd kw)) (zip keys signers)"
    using l each v(2) by (intro nth_equalityI) (auto split: option.splits)
  then show "uint thr \<le> (\<Sum>kw\<leftarrow>keys. if given_signature (keyed keys sets) n (fst kw) = [] then 0 else uint (snd kw))"
    using assms(3) by (simp add: quorum_def)
qed

lemma quorum_has_signer:
  assumes "0 < thr" "quorum T keys signers thr"
    and "list_all2 (\<lambda>s sigs. case s of None \<Rightarrow> sigs = [] | Some sk \<Rightarrow> \<exists>p'. sign_spend_psbt T p sk = Inr (p', sigs)) signers sets"
  shows "\<exists>sk p' sigs. sign_spend_psbt T p sk = Inr (p', sigs)"
proof (rule ccontr)
  assume no: "\<not> ?thesis"
  have "\<forall>s \<in> set signers. s = None"
    using assms(3) no by (auto simp: list_all2_conv_all_nth in_set_conv_nth split: option.splits)
  then have "map (\<lambda>(kw, s). if s = None then 0 else uint (snd kw)) (zip keys signers) = map (\<lambda>_. 0) (zip keys signers)"
    by (intro map_cong) (auto dest: set_zip_rightD)
  then have "(\<Sum>(kw, s)\<leftarrow>zip keys signers. if s = None then 0 else uint (snd kw)) = 0"
    by (simp only:) simp
  then show False using assms(1,2) by (simp add: quorum_def word_less_def)
qed

lemma fold_add_signatures_utxos:
  "map pi_witness_utxo (fold (\<lambda>(kw, sigs). add_signatures (fst kw, leaf) sigs) ps ins) = map pi_witness_utxo ins"
proof -
  have "map pi_witness_utxo (add_signatures key sigs ins) = map pi_witness_utxo ins" for key sigs ins
    by (induction key sigs ins rule: add_signatures.induct) auto
  then show ?thesis by (induction ps arbitrary: ins) (auto simp: split_def)
qed

lemma finalize_up_to_extraction:
  assumes "finalize_spend_psbt_from_sigs X (T\<lparr> extract_error := \<lambda>_ _. None \<rparr>) sid keys thr p sets = Inr tx"
  shows "finalize_spend_psbt_from_sigs X T sid keys thr p sets =
     (case extract_error T tx (map pi_witness_utxo (psbt_inputs p)) of
        Some e \<Rightarrow> Inl (PsbtError ''Failed to extract transaction'') | None \<Rightarrow> Inr tx)"
  using assms
  by (auto simp: finalize_spend_psbt_from_sigs_def finalize_spend_psbt_def Let_def res_simps ok_or_def
      fold_add_signatures_utxos split: sum.splits option.splits)

text \<open>
  C22. A quorum can spend.  When validators that together reach the threshold sign the PSBT that was
  built for the committee, and the signatures are collected, there is a transaction whose every input has a
  witness that satisfies the committee's script, with each signature checked against the message of that
  input, and which pays what the unsigned transaction pays.  Finalization fails only when the extraction
  check of the library refuses exactly this transaction, with the value of every spent output given to the
  check; otherwise it returns the transaction.
\<close>

theorem quorum_completes_spend:
  assumes "taproot_ok X T"
    and "construct_spend_psbt X T sid keys thr ca unspent ex outs r lim = Inr p" "psbt_inputs p \<noteq> []"
    and "distinct (map fst keys)" "(\<Sum>kw\<leftarrow>keys. uint (snd kw)) < 2 ^ 31" "0 < thr" "quorum T keys signers thr"
    and "list_all2 (\<lambda>s sigs. case s of None \<Rightarrow> sigs = [] | Some sk \<Rightarrow> \<exists>p'. sign_spend_psbt T p sk = Inr (p', sigs)) signers sets"
  shows "\<exists>tx script values. map pi_witness_utxo (psbt_inputs p) = map Some values
     \<and> finalize_spend_psbt_from_sigs X T sid keys thr p sets =
         (case extract_error T tx (map Some values) of
            None \<Rightarrow> Inr tx | Some e \<Rightarrow> Inl (PsbtError ''Failed to extract transaction''))
     \<and> create_multisig_script keys thr = Inr script \<and> outputs tx = outputs (unsigned_tx p)
     \<and> length (inputs tx) = length (psbt_inputs p)
     \<and> (\<forall>n < length (inputs tx). \<exists>ws cb msg. spend_message T p script n = Some msg
          \<and> witness (inputs tx ! n) = rev ws @ [script_to_bytes X script, cb]
          \<and> script_exec (\<lambda>pk. verify_schnorr X pk msg) False script (map SBytes ws) = Some [SNum 1])"
proof -
  let ?T = "T\<lparr> extract_error := \<lambda>_ _. None \<rparr>"
  obtain script info cb where script: "create_multisig_script keys thr = Inr script"
    and info: "create_subnet_multisig_spend_info sid keys thr = Inr info" "tap_control_block T info script = Some cb"
    and l: "length (psbt_inputs p) = length (inputs (unsigned_tx p))"
    and ins: "\<forall>i \<in> set (psbt_inputs p). pi_tap_scripts i = [(cb, script)] \<and> pi_tap_script_sigs i = Map.empty
             \<and> pi_witness_utxo i \<noteq> None"
    using construct_spend_psbt_Inr(2) [OF assms(2)] by blast
  have fresh: "fresh_psbt p" using l ins by (simp add: fresh_psbt_def)
  have ins2: "\<forall>i \<in> set (psbt_inputs p). pi_tap_scripts i = [(cb, script)] \<and> pi_witness_utxo i \<noteq> None" using ins by blast
  have vals: "map pi_witness_utxo (psbt_inputs p) = map Some (map (the \<circ> pi_witness_utxo) (psbt_inputs p))"
    using ins by auto
  have ls: "length sets = length keys"
    using assms(7) list_all2_lengthD [OF assms(8)] by (auto simp: quorum_def dest: list_all2_lengthD)
  obtain tx where tx: "finalize_spend_psbt_from_sigs X ?T sid keys thr p sets = Inr tx"
    using script info by (simp add: finalize_spend_psbt_from_sigs_def finalize_spend_psbt_def Let_def ok_or_def)
  obtain sk p' sigs where "sign_spend_psbt T p sk = Inr (p', sigs)"
    using quorum_has_signer [OF assms(6,7,8)] by blast
  from sign_spend_psbt_signatures [OF this ins2]
  have msg: "n < length (psbt_inputs p) \<Longrightarrow> \<exists>msg. spend_message T p script n = Some msg" for n by auto
  obtain cb' where o: "outputs tx = outputs (unsigned_tx p)" "length (inputs tx) = length (psbt_inputs p)"
    and w: "\<forall>n < length (psbt_inputs p). inputs tx ! n = (inputs (unsigned_tx p) ! n)
          \<lparr> witness := rev (spend_witness keys (keyed keys sets) n) @ [script_to_bytes X script, cb'] \<rparr>"
    using finalize_from_sigs_witness [OF tx assms(4) ls fresh] script by auto
  have "\<exists>ws cb msg. spend_message T p script n = Some msg \<and> witness (inputs tx ! n) = rev ws @ [script_to_bytes X script, cb]
      \<and> script_exec (\<lambda>pk. verify_schnorr X pk msg) False script (map SBytes ws) = Some [SNum 1]"
    if n: "n < length (inputs tx)" for n
  proof -
    have n': "n < length (psbt_inputs p)" using n o by simp
    obtain m where m: "spend_message T p script n = Some m" using msg [OF n'] by blast
    note q = quorum_signatures [OF assms(1,4,7,8) ins2 n' m]
    have "script_exec (\<lambda>pk. verify_schnorr X pk m) False script (map SBytes (spend_witness keys (keyed keys sets) n)) = Some [SNum 1]"
      using spend_witness_outcome [of keys thr script "keyed keys sets" n "\<lambda>pk. verify_schnorr X pk m"] script assms(5) q
      by simp
    with w n' m show ?thesis by auto
  qed
  moreover have "finalize_spend_psbt_from_sigs X T sid keys thr p sets =
      (case extract_error T tx (map Some (map (the \<circ> pi_witness_utxo) (psbt_inputs p))) of
         None \<Rightarrow> Inr tx | Some e \<Rightarrow> Inl (PsbtError ''Failed to extract transaction''))"
    unfolding vals [symmetric] finalize_up_to_extraction [OF tx] by (simp split: option.splits)
  ultimately show ?thesis using vals script o by blast
qed

lemma sign_spend_psbt_succeeds:
  assumes "\<forall>i \<in> set (psbt_inputs p). pi_tap_scripts i = [(cb, script)] \<and> pi_witness_utxo i \<noteq> None"
    and "psbt_inputs p \<noteq> []" "\<forall>tx us n l. tap_sighash T tx us n l \<noteq> None"
  shows "\<exists>p' sigs. sign_spend_psbt T p sk = Inr (p', sigs)"
proof -
  let ?us = "map (the \<circ> pi_witness_utxo) (psbt_inputs p)"
  let ?f = "sign_input T (unsigned_tx p) ?us sk"
  have us: "funding_utxos p = Inr ?us"
    unfolding funding_utxos_def using assms(1)
    by (intro res_mapM_map [where g = id, simplified]) (auto simp: ok_or_def)
  have one: "\<exists>i sig. ?f e = Inr (i, [sig])" if "e \<in> set (enumerate 0 (psbt_inputs p))" for e
  proof -
    have "snd e \<in> set (psbt_inputs p)" using that by (metis in_set_zip enumerate_eq_zip nth_mem)
    moreover obtain m where "tap_sighash T (unsigned_tx p) ?us (fst e) (leaf_hash T script) = Some m" using assms(3) by blast
    ultimately show ?thesis using assms(1) by (auto simp: sign_input_def Let_def ok_or_def)
  qed
  then have "\<exists>rs. res_mapM ?f (enumerate 0 (psbt_inputs p)) = Inr rs" by (intro res_mapM_all) blast
  then obtain rs where rs: "res_mapM ?f (enumerate 0 (psbt_inputs p)) = Inr rs" by blast
  have "rs \<noteq> []" using res_mapM_length [OF rs] assms(2) by auto
  moreover have "snd (hd rs) \<noteq> []" if ne: "rs \<noteq> []"
  proof -
    obtain e where "e \<in> set (enumerate 0 (psbt_inputs p))" "?f e = Inr (hd rs)"
      using res_mapM_mem [OF rs hd_in_set [OF ne]] by blast
    with one [of e] show ?thesis by auto
  qed
  ultimately have "concat (map snd rs) \<noteq> []" by (cases rs) auto
  then show ?thesis using us rs by (auto simp: sign_spend_psbt_def Let_def)
qed

section \<open>A concrete spend\<close>

definition demo_taproot :: taproot where
  "demo_taproot = \<lparr> leaf_hash = (\<lambda>s. []), tap_control_block = (\<lambda>ls s. Some [7]),
     tap_sighash = (\<lambda>tx us n l. Some [of_nat n]), schnorr_sign = (\<lambda>sk m. (1 # sk) @ m),
     x_only_public_key = (\<lambda>sk. 1 # sk), extract_error = (\<lambda>tx us. if None \<in> set us then Some ''missing input value'' else None) \<rparr>"

lemma demo_taproot_ok: "taproot_ok demo_ext demo_taproot"
  by (simp add: taproot_ok_def demo_taproot_def demo_ext_def)

definition demo_keys :: "weighted_key list" where
  "demo_keys = [([1, 2], 3), ([1, 1], 3), ([1, 3], 3)]"

abbreviation demo_outs :: "tx_out list" where
  "demo_outs \<equiv> [\<lparr> txo_value = 5000, txo_script = [] \<rparr>]"

lemma demo_spend:
  obtains p script cb where
    "construct_spend_psbt demo_ext demo_taproot demo_id demo_keys 5 ''bcrt1p'' demo_utxos True demo_outs 1000 0 = Inr p"
    "create_multisig_script demo_keys 5 = Inr script" "length (psbt_inputs p) = 2" "fresh_psbt p"
    "\<forall>i \<in> set (psbt_inputs p). pi_tap_scripts i = [(cb, script)] \<and> pi_witness_utxo i \<noteq> None"
proof -
  obtain tx where tx: "construct_spend_unsigned_transaction demo_ext demo_keys 5 ''bcrt1p''
      demo_utxos True demo_outs 1000 0 = Inr tx" "length (inputs tx) = 2" "\<forall>i \<in> set (inputs tx). witness i = []"
     "\<forall>i \<in> set (inputs tx). find_utxo demo_utxos i \<noteq> None"
    by (simp add: construct_spend_unsigned_transaction_def spend_exhaust_def demo_utxos_def amount_sum_def
        word_checked_add_def word_checked_sub_def expect_fee_def demo_ext_def sort_utxos_def utxo_key_def
        multisig_spend_max_witness_size_def SCHNORR_SIGNATURE_SIZE_def SCHNORR_PUBLIC_KEY_SIZE_def
        TAPROOT_CONTROL_BASE_SIZE_def TAPROOT_CONTROL_NODE_SIZE_def Let_def demo_keys_def spend_input_def find_utxo_def)
  obtain script info where s: "create_multisig_script demo_keys 5 = Inr script"
    "create_subnet_multisig_spend_info demo_id demo_keys 5 = Inr info"
    by (simp add: create_multisig_script_def create_subnet_multisig_spend_info_def demo_keys_def
        create_unspendable_subnet_id_script_def demo_id_def subnet_id_from_txid20_def SUBNET_ID_INNER_LEN_def)
  have "\<exists>ins. res_mapM (spend_psbt_input info script [7] demo_utxos) (inputs tx) = Inr ins"
    using tx(4) by (intro res_mapM_all) (auto simp: spend_psbt_input_def ok_or_def)
  then obtain p where p: "construct_spend_psbt demo_ext demo_taproot demo_id demo_keys 5 ''bcrt1p'' demo_utxos True demo_outs 1000 0 = Inr p"
    using tx s by (auto simp: construct_spend_psbt_def demo_taproot_def ok_or_def)
  obtain cb where "length (psbt_inputs p) = length (inputs (unsigned_tx p))"
    "\<forall>i \<in> set (psbt_inputs p). pi_tap_scripts i = [(cb, script)] \<and> pi_tap_script_sigs i = Map.empty \<and> pi_witness_utxo i \<noteq> None"
    using construct_spend_psbt_Inr(2) [OF p] s(1) by auto
  moreover have "length (inputs (unsigned_tx p)) = 2" using construct_spend_psbt_Inr(1) [OF p] tx(1,2) by simp
  ultimately show thesis by (intro that [OF p s(1)]) (auto simp: fresh_psbt_def)
qed

theorem quorum_completes_spend_witness:
  "\<exists>p sets tx script. quorum demo_taproot demo_keys [Some [2], None, Some [3]] 5
     \<and> construct_spend_psbt demo_ext demo_taproot demo_id demo_keys 5 ''bcrt1p'' demo_utxos True demo_outs 1000 0 = Inr p
     \<and> finalize_spend_psbt_from_sigs demo_ext demo_taproot demo_id demo_keys 5 p sets = Inr tx
     \<and> create_multisig_script demo_keys 5 = Inr script \<and> outputs tx = outputs (unsigned_tx p) \<and> length (inputs tx) = 2
     \<and> (\<forall>n < length (inputs tx). \<exists>ws cb msg. spend_message demo_taproot p script n = Some msg
          \<and> witness (inputs tx ! n) = rev ws @ [script_to_bytes demo_ext script, cb]
          \<and> script_exec (\<lambda>pk. verify_schnorr demo_ext pk msg) False script (map SBytes ws) = Some [SNum 1])"
proof -
  have sh: "\<forall>tx us n l. tap_sighash demo_taproot tx us n l \<noteq> None" by (simp add: demo_taproot_def)
  have ex: "extract_error demo_taproot tx (map Some us) = None" for tx us by (auto simp: demo_taproot_def)
  have ks: "distinct (map fst demo_keys)" "(\<Sum>kw\<leftarrow>demo_keys. uint (snd kw)) < 2 ^ 31" "(0 :: power) < 5"
    "quorum demo_taproot demo_keys [Some [2], None, Some [3]] 5"
    by (simp_all add: demo_keys_def quorum_def demo_taproot_def)
  obtain p script cb where p: "construct_spend_psbt demo_ext demo_taproot demo_id demo_keys 5 ''bcrt1p'' demo_utxos True demo_outs 1000 0 = Inr p"
    "length (psbt_inputs p) = 2" and i: "\<forall>i \<in> set (psbt_inputs p). pi_tap_scripts i = [(cb, script)] \<and> pi_witness_utxo i \<noteq> None"
    by (rule demo_spend)
  have ne: "psbt_inputs p \<noteq> []" using p(2) by auto
  obtain p2 s2 p3 s3 where "sign_spend_psbt demo_taproot p [2] = Inr (p2, s2)" "sign_spend_psbt demo_taproot p [3] = Inr (p3, s3)"
    using sign_spend_psbt_succeeds [OF i ne sh] by metis
  then have "list_all2 (\<lambda>s sigs. case s of None \<Rightarrow> sigs = [] | Some sk \<Rightarrow> \<exists>p'. sign_spend_psbt demo_taproot p sk = Inr (p', sigs))
      [Some [2], None, Some [3]] [s2, [], s3]" by simp
  from quorum_completes_spend [OF demo_taproot_ok p(1) ne ks this] show ?thesis
    unfolding ex option.case p(2) using p(1) ks(4) by blast
qed

theorem finalized_spend_needs_threshold_witness:
  "\<exists>p tx. finalize_spend_psbt_from_sigs demo_ext demo_taproot demo_id demo_keys 5 p [[], [[9], [9]], []] = Inr tx
     \<and> (\<exists>script ws cb. create_multisig_script demo_keys 5 = Inr script
          \<and> witness (inputs tx ! 1) = rev ws @ [script_to_bytes demo_ext script, cb]
          \<and> script_exec (\<lambda>pk sig. sig = [9]) False script (map SBytes ws) = Some [SNum 0])"
proof -
  let ?sets = "[[], [[9], [9]], []] :: bytes list list"
  obtain p script cb where p: "create_multisig_script demo_keys 5 = Inr script" "length (psbt_inputs p) = 2" "fresh_psbt p"
    and i: "\<forall>i \<in> set (psbt_inputs p). pi_tap_scripts i = [(cb, script)] \<and> pi_witness_utxo i \<noteq> None"
    by (rule demo_spend)
  have vals: "None \<notin> set (map pi_witness_utxo (fold (\<lambda>(kw, sigs). add_signatures (fst kw, leaf) sigs) ps (psbt_inputs p)))" for leaf ps
    unfolding fold_add_signatures_utxos using i by force
  have g: "given_signature (keyed demo_keys ?sets) 1 [1, 2] = []" "given_signature (keyed demo_keys ?sets) 1 [1, 1] = [9]"
    "given_signature (keyed demo_keys ?sets) 1 [1, 3] = []"
    by (simp_all add: demo_keys_def given_signature_def)
  obtain info where "create_subnet_multisig_spend_info demo_id demo_keys 5 = Inr info"
    using p(1) by (simp add: create_subnet_multisig_spend_info_def create_unspendable_subnet_id_script_def
        demo_id_def subnet_id_from_txid20_def SUBNET_ID_INNER_LEN_def)
  then obtain tx where tx: "finalize_spend_psbt_from_sigs demo_ext demo_taproot demo_id demo_keys 5 p ?sets = Inr tx"
    using p(1) by (simp del: set_map list.set_map add: vals finalize_spend_psbt_from_sigs_def finalize_spend_psbt_def Let_def ok_or_def demo_taproot_def)
  have ks: "distinct (map fst demo_keys)" "length ?sets = length demo_keys" "(\<Sum>kw\<leftarrow>demo_keys. uint (snd kw)) < 2 ^ 31"
    by (simp_all add: demo_keys_def)
  have n: "1 < length (inputs tx)" using finalize_from_sigs_witness [OF tx ks(1,2) p(3)] p(2) by auto
  have c: "\<forall>kw \<in> set demo_keys. given_signature (keyed demo_keys ?sets) 1 (fst kw) = []
      \<or> (\<lambda>pk sig. sig = [9]) (fst kw) (given_signature (keyed demo_keys ?sets) 1 (fst kw))"
    using g by (auto simp: demo_keys_def)
  have sum: "(\<Sum>kw\<leftarrow>demo_keys. if given_signature (keyed demo_keys ?sets) 1 (fst kw) = [] then 0 else uint (snd kw)) = 3"
    using g by (simp add: demo_keys_def)
  obtain script' ws cb where "create_multisig_script demo_keys 5 = Inr script'"
    "witness (inputs tx ! 1) = rev ws @ [script_to_bytes demo_ext script', cb]"
    "script_exec (\<lambda>pk sig. sig = [9]) False script' (map SBytes ws) = Some [SNum 0]"
    using finalized_spend_needs_threshold [OF tx p(3) ks n, of "\<lambda>pk sig. sig = [9]"] c unfolding sum by auto
  with tx show ?thesis by blast
qed

end
