(* ===== verification/Monitor.thy ===== *)
theory Monitor
  imports Preserve Layout Rewards
begin

text \<open>
  The monitor (\<open>src/src/bin/monitor.rs\<close>): it reads confirmed blocks in order, finds the messages in each
  transaction, runs their handlers on the database and remembers the last block it has processed.  Every
  handler commits its own database transaction, so an operation of the monitor is a function from the
  state to the next state and a result: an error keeps what was committed before it.  The node and the
  wallet are parameters.  A failing database access is not modelled; a panic ends the monitor like a
  fatal error.
\<close>

section \<open>State and errors\<close>

datatype network = Bitcoin | Testnet | Signet | Regtest

definition confirmations :: "network \<Rightarrow> u64" where
  "confirmations n = (case n of Bitcoin \<Rightarrow> 6 | Testnet \<Rightarrow> 6 | _ \<Rightarrow> 0)"

definition get_confirmed_from_height :: "network \<Rightarrow> u64 \<Rightarrow> u64 option" where
  "get_confirmed_from_height n height =
     (if height < confirmations n then None else Some (height - confirmations n))"

datatype monitor_error =
    BlockHeightAheadOfTip u64 u64
  | IpcTxInvalid string
  | IpcMsgInvalid ipc_validate_error
  | IpcMsgProcessingError ipc_lib_error
  | CannotGetMonitorInfo db_error
  | MonitorDbError db_error
  | MonitorRpcError string
  | MonitorConfigError string

definition is_retryable :: "monitor_error \<Rightarrow> bool" where
  "is_retryable e = (case e of MonitorRpcError _ \<Rightarrow> True | _ \<Rightarrow> False)"

datatype side_effect = ImportAddress btc_address string u32

record monitor =
  mo_db :: heed_db
  mo_sync_batch_size :: u64
  mo_current_height :: u64
  mo_side_effects :: "side_effect list"
  mo_reward_tracker :: "reward_config option"

definition monitor_new :: "heed_db \<Rightarrow> u64 \<Rightarrow> monitor" where
  "monitor_new db batch_size = \<lparr> mo_db = db, mo_sync_batch_size = batch_size, mo_current_height = 0,
     mo_side_effects = [], mo_reward_tracker = None \<rparr>"

definition set_reward_tracker :: "reward_config \<Rightarrow> monitor \<Rightarrow> monitor" where
  "set_reward_tracker cfg mo = mo\<lparr> mo_reward_tracker := Some cfg \<rparr>"

record block =
  bl_hash :: block_hash
  bl_time :: u32
  bl_txdata :: "transaction list"

text \<open>
  What the monitor is given: the crates, the serializer, the order of iteration of the reward map, the
  network, the blocks of the node by height (an error when the node does not return one), the heights
  at which a cancellation is seen, and the wallet.
\<close>

datatype import_outcome = ImportOk | ImportTransportError | ImportRescanning | ImportFailed string

record env =
  en_ext :: ext
  en_codec :: codec
  en_order :: "rewards \<Rightarrow> rewards"
  en_network :: network
  en_block :: "u64 \<Rightarrow> string + block"
  en_cancelled :: "u64 \<Rightarrow> bool"
  en_imported :: "btc_address \<Rightarrow> bool"
  en_import :: "side_effect list \<Rightarrow> import_outcome"

section \<open>Operations that keep the state on an error\<close>

type_synonym 'a action = "monitor \<Rightarrow> monitor \<times> (monitor_error + 'a)"

definition ac_return :: "'a \<Rightarrow> 'a action" where
  "ac_return a mo = (mo, Inr a)"

definition ac_throw :: "monitor_error \<Rightarrow> 'a action" where
  "ac_throw e mo = (mo, Inl e)"

definition ac_bind :: "'a action \<Rightarrow> ('a \<Rightarrow> 'b action) \<Rightarrow> 'b action" where
  "ac_bind f g mo = (case f mo of (mo', Inl e) \<Rightarrow> (mo', Inl e) | (mo', Inr a) \<Rightarrow> g a mo')"

definition ac_catch :: "'a action \<Rightarrow> (monitor_error \<Rightarrow> 'a action) \<Rightarrow> 'a action" where
  "ac_catch f h mo = (case f mo of (mo', Inl e) \<Rightarrow> h e mo' | (mo', Inr a) \<Rightarrow> (mo', Inr a))"

definition ac_res :: "('e \<Rightarrow> monitor_error) \<Rightarrow> 'e + 'a \<Rightarrow> 'a action" where
  "ac_res f r = (case r of Inl e \<Rightarrow> ac_throw (f e) | Inr a \<Rightarrow> ac_return a)"

definition ac_with_db :: "(heed_db \<Rightarrow> 'a action) \<Rightarrow> 'a action" where
  "ac_with_db f mo = f (mo_db mo) mo"

definition ac_put_db :: "heed_db \<Rightarrow> unit action" where
  "ac_put_db db mo = (mo\<lparr> mo_db := db \<rparr>, Inr ())"

fun ac_each :: "('a \<Rightarrow> unit action) \<Rightarrow> 'a list \<Rightarrow> unit action" where
  "ac_each f [] = ac_return ()"
| "ac_each f (x # xs) = ac_bind (f x) (\<lambda>_. ac_each f xs)"

text \<open>A handler: the database is replaced only when it returns one.\<close>

definition ac_save :: "(heed_db \<Rightarrow> ipc_lib_error + heed_db) \<Rightarrow> unit action" where
  "ac_save run = ac_with_db (\<lambda>db. ac_bind (ac_res IpcMsgProcessingError (run db)) ac_put_db)"

section \<open>Messages\<close>

definition import_watchonly_address :: "btc_address \<Rightarrow> string \<Rightarrow> u32 \<Rightarrow> unit action" where
  "import_watchonly_address a label t mo =
     (mo\<lparr> mo_side_effects := mo_side_effects mo @ [ImportAddress a label t] \<rparr>, Inr ())"

definition whitelist_address_label :: "ext \<Rightarrow> subnet_genesis_info \<Rightarrow> db_error + (btc_address \<times> string)" where
  "whitelist_address_label X g =
     res_bind (genesis_multisig_address X g) (\<lambda>a.
       Inr (a, subnet_id_display X (gi_subnet_id g) @ ''-'' @ dec 0))"

definition process_create :: "ext \<Rightarrow> u64 \<Rightarrow> u32 \<Rightarrow> txid \<Rightarrow> ipc_create_subnet_msg \<Rightarrow> unit action" where
  "process_create X h t tid m =
     ac_bind (ac_res IpcMsgInvalid (create_validate m)) (\<lambda>_.
     ac_with_db (\<lambda>db.
     ac_bind (ac_res IpcMsgProcessingError (create_save_to_db X db h tid m)) (\<lambda>(db', g).
     ac_bind (ac_put_db db') (\<lambda>_.
     ac_bind (ac_res (\<lambda>e. IpcMsgProcessingError (ipc_from_db e)) (whitelist_address_label X g)) (\<lambda>(a, label).
     import_watchonly_address a label t)))))"

definition process_join ::
  "ext \<Rightarrow> u64 \<Rightarrow> block_hash \<Rightarrow> u32 \<Rightarrow> transaction \<Rightarrow> txid \<Rightarrow> ipc_join_subnet_msg \<Rightarrow> unit action" where
  "process_join X h bh t tx tid m0 =
     (case outputs tx of
        [] \<Rightarrow> ac_throw (IpcTxInvalid ''Transaction output must be non zero'')
      | out # _ \<Rightarrow>
        let m = m0\<lparr> jm_collateral := txo_value out \<rparr> in
        ac_with_db (\<lambda>db.
        ac_bind (ac_res IpcMsgInvalid (ok_or (get_subnet_genesis_info X db (jm_subnet_id m))
                   (InvalidMsg ''Subnet not found.''))) (\<lambda>g.
        ac_bind (ac_res IpcMsgInvalid (join_validate_for_subnet m g (get_subnet_state X db (jm_subnet_id m)))) (\<lambda>_.
        ac_bind (ac_res IpcMsgInvalid (join_validate X m)) (\<lambda>_.
        ac_bind (ac_res IpcMsgProcessingError (join_save_to_db X db h bh tid m)) (\<lambda>(db', so).
        ac_bind (ac_put_db db') (\<lambda>_.
        case so of
          None \<Rightarrow> ac_return ()
        | Some subnet \<Rightarrow>
            let (a, label) = committee_address_label X subnet in import_watchonly_address a label t)))))))"

definition process_prefund :: "ext \<Rightarrow> u64 \<Rightarrow> txid \<Rightarrow> ipc_prefund_subnet_msg \<Rightarrow> unit action" where
  "process_prefund X h tid m =
     ac_bind (ac_res IpcMsgInvalid (prefund_validate m)) (\<lambda>_. ac_save (\<lambda>db. prefund_save_to_db X db h tid m))"

definition process_fund :: "ext \<Rightarrow> u64 \<Rightarrow> block_hash \<Rightarrow> txid \<Rightarrow> ipc_fund_subnet_msg \<Rightarrow> unit action" where
  "process_fund X h bh tid m =
     ac_bind (ac_res IpcMsgInvalid (fund_validate m)) (\<lambda>_. ac_save (\<lambda>db. fund_save_to_db X db h bh tid m))"

text \<open>An error of the reward bookkeeping is logged; a panic is not caught.\<close>

definition reward_result :: "reward_tracker_error + unit \<Rightarrow> unit action" where
  "reward_result r =
     (case r of Inl (RewardPanic s) \<Rightarrow> ac_throw (IpcMsgProcessingError (Panic s)) | _ \<Rightarrow> ac_return ())"

definition reward_checkpoint :: "ext \<Rightarrow> u64 \<Rightarrow> subnet_id \<Rightarrow> subnet_checkpoint \<Rightarrow> unit action" where
  "reward_checkpoint X h sid cp mo =
     (case mo_reward_tracker mo of
        None \<Rightarrow> (mo, Inr ())
      | Some cfg \<Rightarrow>
          (case update_after_checkpoint X cfg h sid cp (mo_db mo) of
             Inr db' \<Rightarrow> (mo\<lparr> mo_db := db' \<rparr>, Inr ())
           | Inl e \<Rightarrow> reward_result (Inl e) mo))"

definition process_checkpoint ::
  "ext \<Rightarrow> u64 \<Rightarrow> block_hash \<Rightarrow> u32 \<Rightarrow> transaction \<Rightarrow> txid \<Rightarrow> ipc_checkpoint_subnet_msg \<Rightarrow> unit action" where
  "process_checkpoint X h bh t tx tid m =
     ac_bind (ac_res IpcMsgInvalid (checkpoint_validate X m)) (\<lambda>_.
     ac_with_db (\<lambda>db.
     ac_bind (ac_res IpcMsgProcessingError (checkpoint_save_to_db X db h bh tid m)) (\<lambda>(db', cp).
     ac_bind (ac_put_db db') (\<lambda>_.
     ac_bind (ac_with_db (\<lambda>db. ac_put_db (save_transaction X tx db))) (\<lambda>_.
     ac_bind (if cp_signed_committee_number cp \<noteq> cp_next_committee_number cp
              then ac_with_db (\<lambda>db.
                   ac_bind (ac_res IpcMsgInvalid (ok_or (get_subnet_state X db (ck_subnet_id m))
                     (InvalidMsg ''Could not fetch subnet id after a checkpoint''))) (\<lambda>subnet.
                   let (a, label) = committee_address_label X subnet in import_watchonly_address a label t))
              else ac_return ()) (\<lambda>_.
     reward_checkpoint X h (ck_subnet_id m) cp))))))"

definition process_batch ::
  "ext \<Rightarrow> u64 \<Rightarrow> block_hash \<Rightarrow> txid \<Rightarrow> ipc_batch_transfer_msg \<Rightarrow> unit action" where
  "process_batch X h bh tid m =
     ac_bind (ac_res IpcMsgInvalid (batch_validate m)) (\<lambda>_.
     ac_with_db (\<lambda>db.
     ac_bind (ac_res IpcTxInvalid (ok_or (get_transaction X db (bt_checkpoint_txid m))
                ''Can't get Checkpoint Txid for BatchTransferMsg: not found in database'')) (\<lambda>checkpoint_tx.
     ac_bind (ac_res (\<lambda>e. case e of Panic s \<Rightarrow> IpcMsgProcessingError (Panic s)
                        | _ \<Rightarrow> IpcTxInvalid ''BatchTransferMsg has invalid CheckpointMsg as previous tx'')
                (from_checkpoint_tx X db checkpoint_tx)) (\<lambda>checkpoint_msg.
     ac_bind (ac_res IpcMsgInvalid (checkpoint_validate X checkpoint_msg)) (\<lambda>_.
     ac_bind (ac_res IpcMsgInvalid (validate_for_checkpoint X checkpoint_tx m)) (\<lambda>_.
     ac_save (\<lambda>db. res_db (batch_save_to_db X db h bh tid (m\<lparr> bt_subnet_id := ck_subnet_id checkpoint_msg \<rparr>)))))))))"

definition process_stake :: "ext \<Rightarrow> u64 \<Rightarrow> block_hash \<Rightarrow> txid \<Rightarrow> ipc_stake_collateral_msg \<Rightarrow> unit action" where
  "process_stake X h bh tid m =
     ac_bind (ac_res IpcMsgInvalid (stake_validate m)) (\<lambda>_. ac_save (\<lambda>db. stake_save_to_db X db h bh tid m))"

definition process_unstake :: "ext \<Rightarrow> u64 \<Rightarrow> block_hash \<Rightarrow> txid \<Rightarrow> ipc_unstake_collateral_msg \<Rightarrow> unit action" where
  "process_unstake X h bh tid m =
     ac_bind (ac_res IpcMsgInvalid (unstake_validate m)) (\<lambda>_. ac_save (\<lambda>db. unstake_save_to_db X db h bh tid m))"

definition process_kill :: "ext \<Rightarrow> u64 \<Rightarrow> block_hash \<Rightarrow> txid \<Rightarrow> ipc_kill_subnet_msg \<Rightarrow> unit action" where
  "process_kill X h bh tid m =
     ac_bind (ac_res IpcMsgInvalid (kill_validate m)) (\<lambda>_. ac_save (\<lambda>db. kill_save_to_db X db h bh tid m))"

definition process_ipc_msg ::
  "ext \<Rightarrow> u64 \<Rightarrow> block_hash \<Rightarrow> u32 \<Rightarrow> transaction \<Rightarrow> txid \<Rightarrow> ipc_message \<Rightarrow> unit action" where
  "process_ipc_msg X h bh t tx tid msg =
     (case msg of
        CreateSubnet m \<Rightarrow> process_create X h t tid m
      | JoinSubnet m \<Rightarrow> process_join X h bh t tx tid m
      | PrefundSubnet m \<Rightarrow> process_prefund X h tid m
      | FundMsg m \<Rightarrow> process_fund X h bh tid m
      | CheckpointSubnet m \<Rightarrow> process_checkpoint X h bh t tx tid m
      | BatchTransfer m \<Rightarrow> process_batch X h bh tid m
      | StakeCollateral m \<Rightarrow> process_stake X h bh tid m
      | UnstakeCollateral m \<Rightarrow> process_unstake X h bh tid m
      | KillSubnet m \<Rightarrow> process_kill X h bh tid m)"

fun handle_ipc_msg_error :: "monitor_error \<Rightarrow> unit action" where
  "handle_ipc_msg_error (IpcMsgInvalid e) = ac_return ()"
| "handle_ipc_msg_error (IpcTxInvalid s) = ac_return ()"
| "handle_ipc_msg_error (IpcMsgProcessingError (IpcValidateError e)) = ac_return ()"
| "handle_ipc_msg_error e = ac_throw e"

section \<open>Transactions and blocks\<close>

definition run_msg ::
  "env \<Rightarrow> u64 \<Rightarrow> block_hash \<Rightarrow> u32 \<Rightarrow> transaction \<Rightarrow> ipc_message \<Rightarrow> unit action" where
  "run_msg E h bh t tx msg =
     ac_catch (process_ipc_msg (en_ext E) h bh t tx (compute_txid (en_ext E) tx) msg) handle_ipc_msg_error"

definition process_witness ::
  "env \<Rightarrow> u64 \<Rightarrow> block_hash \<Rightarrow> u32 \<Rightarrow> transaction \<Rightarrow> bytes \<Rightarrow> unit action" where
  "process_witness E h bh t tx w =
     (if w = [] then ac_return ()
      else case concatenate_op_push_data (en_ext E) w of
        Inl _ \<Rightarrow> ac_return ()
      | Inr d \<Rightarrow>
          (case from_witness (en_codec E) d of
             Inl _ \<Rightarrow> ac_return ()
           | Inr msg \<Rightarrow> run_msg E h bh t tx msg))"

text \<open>One attempt to read a message from the outputs; a panic of a parser is not an attempt that failed.\<close>

definition attempt :: "ipc_lib_error + 'm \<Rightarrow> ('m \<Rightarrow> unit action) \<Rightarrow> unit action \<Rightarrow> unit action" where
  "attempt r found otherwise =
     (case r of
        Inr m \<Rightarrow> found m
      | Inl (Panic s) \<Rightarrow> ac_throw (IpcMsgProcessingError (Panic s))
      | Inl _ \<Rightarrow> otherwise)"

definition process_outputs ::
  "env \<Rightarrow> u64 \<Rightarrow> block_hash \<Rightarrow> u32 \<Rightarrow> transaction \<Rightarrow> unit action" where
  "process_outputs E h bh t tx =
     (let X = en_ext E; run = run_msg E h bh t tx in
      ac_with_db (\<lambda>db.
      attempt (prefund_from_tx X tx) (\<lambda>m. run (PrefundSubnet m))
      (attempt (fund_from_tx X tx) (\<lambda>m. run (FundMsg m))
      (attempt (from_checkpoint_tx X db tx) (\<lambda>m. run (CheckpointSubnet m))
      (attempt (batch_from_tx X (en_codec E) db tx) (\<lambda>m. run (BatchTransfer m))
      (attempt (stake_from_tx X db tx) (\<lambda>m. run (StakeCollateral m))
      (attempt (unstake_from_tx X db tx) (\<lambda>m. run (UnstakeCollateral m))
      (attempt (kill_from_tx X db tx) (\<lambda>m. run (KillSubnet m))
      (ac_return ())))))))))"

definition process_transaction ::
  "env \<Rightarrow> u64 \<Rightarrow> block_hash \<Rightarrow> u32 \<Rightarrow> transaction \<Rightarrow> unit action" where
  "process_transaction E h bh t tx =
     ac_bind (ac_each (process_witness E h bh t tx) (concat (map witness (inputs tx)))) (\<lambda>_.
     process_outputs E h bh t tx)"

definition process_block_data :: "env \<Rightarrow> u64 \<Rightarrow> block \<Rightarrow> unit action" where
  "process_block_data E h b = ac_each (process_transaction E h (bl_hash b) (bl_time b)) (bl_txdata b)"

definition process_block :: "env \<Rightarrow> u64 \<Rightarrow> unit action" where
  "process_block E h = ac_bind (ac_res MonitorRpcError (en_block E h)) (process_block_data E h)"

section \<open>Catching up and listening\<close>

definition get_latest_confirmed_height :: "env \<Rightarrow> string + u64 \<Rightarrow> monitor_error + u64" where
  "get_latest_confirmed_height E block_count =
     res_bind (res_map_err MonitorRpcError block_count) (\<lambda>latest.
     if latest < confirmations (en_network E) then Inr 0 else Inr (latest - confirmations (en_network E)))"

definition advance :: "u64 \<Rightarrow> unit action" where
  "advance h mo = (mo\<lparr> mo_current_height := h, mo_db := set_last_processed_block h (mo_db mo) \<rparr>, Inr ())"

definition reward_block :: "env \<Rightarrow> u64 \<Rightarrow> unit action" where
  "reward_block E h mo =
     (case mo_reward_tracker mo of
        None \<Rightarrow> (mo, Inr ())
      | Some cfg \<Rightarrow>
          (case update_after_block (en_ext E) (en_order E) cfg h (mo_db mo) of
             (db', r) \<Rightarrow> reward_result r (mo\<lparr> mo_db := db' \<rparr>)))"

definition finish_block :: "env \<Rightarrow> u64 \<Rightarrow> block \<Rightarrow> unit action" where
  "finish_block E h b =
     ac_bind (process_block_data E h b) (\<lambda>_. ac_bind (advance h) (\<lambda>_. reward_block E h))"

fun sync_blocks :: "env \<Rightarrow> u64 \<Rightarrow> block list \<Rightarrow> unit action" where
  "sync_blocks E h [] = ac_return ()"
| "sync_blocks E h (b # bs) = ac_bind (finish_block E h b) (\<lambda>_. sync_blocks E (h + 1) bs)"

text \<open>The node refuses an empty batch of requests.\<close>

definition fetch_blocks_batched :: "env \<Rightarrow> u64 \<Rightarrow> u64 \<Rightarrow> string + block list" where
  "fetch_blocks_batched E first final =
     (if final < first then Inl ''empty batch''
      else res_mapM (en_block E) (map of_nat [unat first ..< unat final + 1]))"

lemma ac_bind_Inr:
  "ac_bind f g mo = (mo', Inr b) \<longleftrightarrow> (\<exists>mo1 a. f mo = (mo1, Inr a) \<and> g a mo1 = (mo', Inr b))"
  by (auto simp: ac_bind_def split: prod.splits sum.splits)

lemma fst_reward_result [simp]: "fst (reward_result r mo) = mo"
  by (auto simp: reward_result_def ac_throw_def ac_return_def split: sum.splits reward_tracker_error.splits)

lemma reward_block_height: "mo_current_height (fst (reward_block E h mo)) = mo_current_height mo"
  by (simp add: reward_block_def split: option.splits prod.splits)

lemma finish_block_height:
  assumes "finish_block E h b mo = (mo', Inr ())"
  shows "mo_current_height mo' = h"
proof -
  from assms obtain mo1 mo2 where a: "advance h mo1 = (mo2, Inr ())" and r: "reward_block E h mo2 = (mo', Inr ())"
    by (auto simp: finish_block_def ac_bind_Inr)
  have "mo_current_height mo' = mo_current_height mo2" using reward_block_height [of E h mo2] r by simp
  with a show ?thesis by (auto simp: advance_def)
qed

lemma unat_next: "c < latest \<Longrightarrow> unat (c + 1) = unat c + 1" for c latest :: u64
  using unat_add_lem [of c 1] unsigned_less [of latest, where ?'a = nat] by (simp add: word_less_nat_alt)

lemma sync_blocks_height:
  "sync_blocks E h bs mo = (mo', Inr ()) \<Longrightarrow> bs \<noteq> [] \<Longrightarrow> mo_current_height mo' = h + of_nat (length bs - 1)"
proof (induction E h bs arbitrary: mo rule: sync_blocks.induct)
  case (2 E h b bs)
  then obtain mo1 where "finish_block E h b mo = (mo1, Inr ())" "sync_blocks E (h + 1) bs mo1 = (mo', Inr ())"
    by (auto simp: ac_bind_Inr)
  with 2 show ?case by (cases bs) (auto simp: ac_return_def finish_block_height)
qed simp

lemma fetch_length:
  "fetch_blocks_batched E first final = Inr bs \<Longrightarrow> first \<le> final \<and> length bs = unat final + 1 - unat first"
  by (auto simp: fetch_blocks_batched_def dest: res_mapM_length split: if_splits)

lemma window_height:
  assumes "fetch_blocks_batched E first final = Inr bs" "sync_blocks E first bs mo = (mo', Inr ())"
  shows "mo_current_height mo' = final"
proof -
  have l: "first \<le> final" "length bs = unat final + 1 - unat first" using fetch_length [OF assms(1)] by auto
  then have "bs \<noteq> []" "length bs - 1 = unat final - unat first" by (auto simp: word_le_nat_alt)
  then have "mo_current_height mo' = first + of_nat (unat final - unat first)"
    using sync_blocks_height [OF assms(2)] by simp
  also have "\<dots> = first + (final - first)" using l(1) by (simp add: of_nat_diff word_le_nat_alt)
  finally show ?thesis by simp
qed

text \<open>
  The loop of \<open>sync\<close> up to a height; it ends because every window that is processed moves the current
  height up to its end, and an empty window is an error.
\<close>

function catch_up :: "env \<Rightarrow> u64 \<Rightarrow> monitor \<Rightarrow> monitor \<times> (monitor_error + bool)" where
  "catch_up E latest mo =
     (if mo_current_height mo < latest then
        if en_cancelled E (mo_current_height mo) then (mo, Inr False)
        else
          let window_start = mo_current_height mo + 1;
              window_end = min (mo_current_height mo + mo_sync_batch_size mo) latest
          in case fetch_blocks_batched E window_start window_end of
               Inl e \<Rightarrow> (mo, Inl (MonitorRpcError e))
             | Inr bs \<Rightarrow>
                 (case sync_blocks E window_start bs mo of
                    (mo', Inl e) \<Rightarrow> (mo', Inl e)
                  | (mo', Inr _) \<Rightarrow> catch_up E latest mo')
      else (mo, Inr True))"
  by pat_completeness auto

termination
proof (relation "measure (\<lambda>(E, latest, mo). unat latest - unat (mo_current_height mo))")
  fix E latest mo ws we bs mo' r and u :: unit
  assume a: "mo_current_height mo < latest" and "\<not> en_cancelled E (mo_current_height mo)"
    and ws: "ws = mo_current_height mo + 1"
    and we: "we = min (mo_current_height mo + mo_sync_batch_size mo) latest"
    and f: "fetch_blocks_batched E ws we = Inr bs" and p: "(mo', r) = sync_blocks E ws bs mo" "r = Inr u"
  have w: "mo_current_height mo' = we" using window_height [OF f] p by simp
  have "ws \<le> we" using fetch_length [OF f] by simp
  moreover have "unat ws = unat (mo_current_height mo) + 1"
    using unat_next [OF a] ws by simp
  ultimately have "unat (mo_current_height mo) < unat we" by (simp add: word_le_nat_alt)
  moreover have "unat we \<le> unat latest" using we by (simp add: word_le_nat_alt [symmetric])
  ultimately show "((E, latest, mo'), (E, latest, mo)) \<in> measure (\<lambda>(E, latest, mo). unat latest - unat (mo_current_height mo))"
    using w by simp
qed auto

declare catch_up.simps [simp del]

fun side_effect_address :: "side_effect \<Rightarrow> btc_address" where
  "side_effect_address (ImportAddress a label t) = a"

definition process_side_effects :: "env \<Rightarrow> unit action" where
  "process_side_effects E mo =
     (if mo_side_effects mo = [] then (mo, Inr ())
      else
        let pending = filter (\<lambda>s. \<not> en_imported E (side_effect_address s)) (mo_side_effects mo) in
        if pending = [] then (mo\<lparr> mo_side_effects := [] \<rparr>, Inr ())
        else case en_import E pending of
               ImportOk \<Rightarrow> (mo\<lparr> mo_side_effects := [] \<rparr>, Inr ())
             | ImportTransportError \<Rightarrow> (mo, Inr ())
             | ImportRescanning \<Rightarrow> (mo, Inr ())
             | ImportFailed e \<Rightarrow> (mo, Inl (MonitorRpcError e)))"

text \<open>
  One round of the outer loop asks the node twice for its height, before and after catching up.  The list
  holds the answers; \<open>None\<close> is a loop that has used up the answers and still runs.
\<close>

fun sync_loop ::
  "env \<Rightarrow> ((string + u64) \<times> (string + u64)) list \<Rightarrow> monitor \<Rightarrow> (monitor \<times> (monitor_error + bool)) option" where
  "sync_loop E [] mo = None"
| "sync_loop E ((c1, c2) # answers) mo =
     (if en_cancelled E (mo_current_height mo) then Some (mo, Inr False)
      else
      case get_latest_confirmed_height E c1 of
        Inl e \<Rightarrow> Some (mo, Inl e)
      | Inr latest \<Rightarrow>
          if latest < mo_current_height mo
          then Some (mo, Inl (BlockHeightAheadOfTip latest (mo_current_height mo)))
          else
          (case catch_up E latest mo of
             (mo', Inl e) \<Rightarrow> Some (mo', Inl e)
           | (mo', Inr False) \<Rightarrow> Some (mo', Inr False)
           | (mo', Inr True) \<Rightarrow>
               (case get_latest_confirmed_height E c2 of
                  Inl e \<Rightarrow> Some (mo', Inl e)
                | Inr latest2 \<Rightarrow>
                    if mo_current_height mo' = latest2
                    then (case process_side_effects E mo' of
                            (mo'', Inl e) \<Rightarrow> Some (mo'', Inl e)
                          | (mo'', Inr _) \<Rightarrow> Some (mo'', Inr True))
                    else sync_loop E answers mo')))"

definition sync ::
  "env \<Rightarrow> ((string + u64) \<times> (string + u64)) list \<Rightarrow> monitor \<Rightarrow> (monitor \<times> (monitor_error + bool)) option" where
  "sync E answers mo = sync_loop E answers (mo\<lparr> mo_current_height := get_last_processed_block (mo_db mo) \<rparr>)"

text \<open>The blocks up to the height of one poll of \<open>listen\<close>; the number of blocks is the measure.\<close>

definition listen_block :: "env \<Rightarrow> u64 \<Rightarrow> unit action" where
  "listen_block E h =
     ac_bind (process_block E h) (\<lambda>_. ac_bind (advance h) (\<lambda>_. reward_block E h))"

fun listen_blocks :: "env \<Rightarrow> nat \<Rightarrow> unit action" where
  "listen_blocks E 0 = ac_return ()"
| "listen_blocks E (Suc n) =
     (\<lambda>mo. ac_bind (listen_block E (mo_current_height mo + 1)) (\<lambda>_. listen_blocks E n) mo)"

definition listen_poll :: "env \<Rightarrow> string + u64 \<Rightarrow> unit action" where
  "listen_poll E answer =
     ac_bind (\<lambda>mo. case get_latest_confirmed_height E answer of
                Inl e \<Rightarrow> (mo, Inr ())
              | Inr block_count \<Rightarrow> listen_blocks E (unat block_count - unat (mo_current_height mo)) mo)
       (\<lambda>_. process_side_effects E)"

text \<open>Returns when a cancellation is seen or on an error; \<open>None\<close> when it still runs after the given polls.\<close>

fun listen :: "env \<Rightarrow> (string + u64) list \<Rightarrow> monitor \<Rightarrow> (monitor \<times> (monitor_error + unit)) option" where
  "listen E [] mo = None"
| "listen E (a # answers) mo =
     (if en_cancelled E (mo_current_height mo) then Some (mo, Inr ())
      else case listen_poll E a mo of
             (mo', Inl e) \<Rightarrow> Some (mo', Inl e)
           | (mo', Inr _) \<Rightarrow> listen E answers mo')"

definition sync_and_listen ::
  "env \<Rightarrow> ((string + u64) \<times> (string + u64)) list \<Rightarrow> (string + u64) list \<Rightarrow> monitor
   \<Rightarrow> (monitor \<times> (monitor_error + unit)) option" where
  "sync_and_listen E answers polls mo =
     (case sync E answers mo of
        None \<Rightarrow> None
      | Some (mo', Inl e) \<Rightarrow> Some (mo', Inl e)
      | Some (mo', Inr False) \<Rightarrow> Some (mo', Inr ())
      | Some (mo', Inr True) \<Rightarrow> listen E polls mo')"

end
