(* ===== verification/Submission.thy ===== *)
theory Submission
  imports Provider Layout Psbt_Facts Monitor
begin

text \<open>
  What becomes of a request to the provider: the transactions that are handed to the network, the message
  that the monitor reads from them, and who can spend the outputs they create.
\<close>

section \<open>Sending\<close>

lemma and_send_eq: "and_send r f = (txs, Inr b) \<longleftrightarrow> (\<exists>a. r = Inr a \<and> f a = (txs, Inr b))"
  by (cases r) auto

lemma sent_map_eq: "sent_map g h s = (txs, Inr b) \<longleftrightarrow> (\<exists>a. s = (txs, Inr a) \<and> b = h a)"
  by (cases s) (auto simp: sent_map_def split: sum.splits)

lemmas send_simps = and_send_eq sent_map_eq res_simps

lemma send_all_prefix: "prefix (fst (send_all N txs)) txs"
  by (induction txs) (auto split: sum.split prod.split)

lemma send_all_Inr: "send_all N txs = (txs', Inr ()) \<Longrightarrow> txs' = txs"
  by (induction txs arbitrary: txs') (auto split: sum.splits prod.splits)

lemma submit_to_mempool_Inr: "submit_to_mempool N txs = (txs', Inr u) \<Longrightarrow> txs' = txs"
  using send_all_Inr [of N txs txs'] by (auto simp: submit_to_mempool_def send_simps split: option.splits)

lemma submit_tx_Inr:
  assumes "submit_tx X N funded = (txs, Inr tid)"
  obtains ftx tx where "funded = Inr ftx" "nd_sign N ftx = Inr (tx, True)" "txs = [tx]" "tid = compute_txid X tx"
  using assms by (auto simp: submit_tx_def send_simps sign_tx_def split: if_splits prod.splits dest!: submit_to_mempool_Inr)

lemma wallet_fund:
  assumes "wallet_ok N" "fund_tx N tx = Inr tx'"
  obtains change where "outputs tx' = outputs tx @ change"
proof -
  have "nd_fund N tx = Inr tx'" using assms(2) by (simp add: fund_tx_def res_simps)
  then have "\<exists>change. outputs tx' = outputs tx @ change" using assms(1) unfolding wallet_ok_def by blast
  then show ?thesis using that by blast
qed

lemma wallet_sign:
  assumes "wallet_ok N" "nd_sign N tx = Inr (tx', c)"
  shows "outputs tx' = outputs tx" "map prev_txid (inputs tx') = map prev_txid (inputs tx)"
proof -
  let ?point = "\<lambda>i. (prev_txid i, prev_vout i)"
  have o: "outputs tx' = outputs tx" "map ?point (inputs tx') = map ?point (inputs tx)"
    using assms unfolding wallet_ok_def by blast+
  from o(2) have "map fst (map ?point (inputs tx')) = map fst (map ?point (inputs tx))" by simp
  with o(1) show "outputs tx' = outputs tx" "map prev_txid (inputs tx') = map prev_txid (inputs tx)"
    by (simp_all add: comp_def)
qed

lemma sign_request_Inr:
  assumes "sign_request N t to_tx make_signature = Inr tx"
  obtains f0 f i ins sig tx1 where "to_tx (replicate 64 0) = Inr f0" "fund_tx N f0 = Inr f" "inputs f = i # ins"
    "make_signature (prev_txid i) = Inr sig" "to_tx sig = Inr tx1" "tx = replace_first_output f tx1"
proof -
  obtain f0 f where f: "to_tx (replicate 64 0) = Inr f0" "fund_tx N f0 = Inr f"
    using assms by (auto simp: sign_request_def res_simps)
  then obtain i ins where i: "inputs f = i # ins" using assms by (cases "inputs f") (auto simp: sign_request_def)
  show ?thesis using assms f i that by (auto simp: sign_request_def res_simps split: if_splits)
qed

section \<open>Signed requests\<close>

lemma sent_request_shape:
  assumes "submit_tx X N (sign_request N tag (\<lambda>sig. Inr (signed_tx X r a (pay sig))) mk) = (txs, Inr tid)" "wallet_ok N"
  obtains tx i ins out rest sig where "txs = [tx]" "tid = compute_txid X tx" "inputs tx = i # ins"
    "mk (prev_txid i) = Inr sig" "outputs tx = data_tx_out X r (pay sig) # out # rest" "txo_script out = address_script X a"
proof -
  from assms(1) obtain ftx tx where t: "sign_request N tag (\<lambda>sig. Inr (signed_tx X r a (pay sig))) mk = Inr ftx"
      "nd_sign N ftx = Inr (tx, True)" "txs = [tx]" "tid = compute_txid X tx"
    by (rule submit_tx_Inr)
  from t(1) obtain f i ins sig where f: "fund_tx N (signed_tx X r a (pay (replicate 64 0))) = Inr f" "inputs f = i # ins"
      "mk (prev_txid i) = Inr sig" "ftx = replace_first_output f (signed_tx X r a (pay sig))"
    by (auto elim!: sign_request_Inr)
  obtain change where c: "outputs f = outputs (signed_tx X r a (pay (replicate 64 0))) @ change"
    using assms(2) f(1) by (rule wallet_fund)
  note s = wallet_sign [OF assms(2) t(2)]
  obtain j jns where j: "inputs tx = j # jns" "prev_txid j = prev_txid i"
    using s(2) f(2,4) by (cases "inputs tx") (auto simp: replace_first_output_def)
  show ?thesis
    by (rule that [OF t(3,4) j(1), of sig "outputs (signed_tx X r a (pay sig)) ! 1" change])
      (use s(1) c f(3,4) j(2) in \<open>simp_all add: replace_first_output_def signed_tx_def create_tx_from_txouts_def\<close>)
qed

text \<open>
  A key of the committee verifies the signature of a request exactly when it is the sender's: the
  signature scheme accepts a signature under no other key.
\<close>

definition sole_signer :: "ext \<Rightarrow> taproot \<Rightarrow> bytes \<Rightarrow> bool" where
  "sole_signer X T sk \<longleftrightarrow> (\<forall>m. length (schnorr_sign T sk m) = 64)
     \<and> (\<forall>k m m'. k \<noteq> x_only_public_key T sk \<longrightarrow> \<not> verify_schnorr X k m' (schnorr_sign T sk m))"

lemma sole_signer_verify:
  assumes "taproot_ok X T" "sole_signer X T sk"
    and "k = x_only_public_key T sk \<Longrightarrow> m' = m"
  shows "verify_schnorr X k m' (schnorr_sign T sk m) = (k = x_only_public_key T sk)"
  using assms unfolding taproot_ok_def sole_signer_def by auto

lemma find_pubkey:
  "(case find (\<lambda>w. v_pubkey w = pk) vs of None \<Rightarrow> e | Some v \<Rightarrow> f (v_pubkey v)) = (if pk \<in> v_pubkey ` set vs then f pk else e)"
  by (induction vs) auto

lemma sent_unstake_read:
  assumes "ext_ok X" "taproot_ok X T" "sole_signer X T sk" "wallet_ok N"
    and "get_subnet_by_multisig_address db a = Some s" "ss_id s = um_subnet_id m" "native_id (um_subnet_id m)"
    and "unstake_submit_to_bitcoin X T N a sk m = (txs, Inr tid)"
  shows "\<exists>tx. txs = [tx] \<and> tid = compute_txid X tx \<and> unstake_from_tx X db tx =
     (if x_only_public_key T sk \<in> v_pubkey ` set (cm_validators (ss_committee s))
      then Inr (m\<lparr> um_pubkey := Some (x_only_public_key T sk) \<rparr>)
      else Inl (invalid_msg ''Signature doesn't match any of the validators''))"
proof -
  obtain t where t: "subnet_id_txid20 (ss_id s) = Some t" using native_txid20 [OF assms(7)] assms(6) by auto
  obtain tx i ins out rest sig where tx: "txs = [tx]" "tid = compute_txid X tx" "inputs tx = i # ins"
      "unstake_make_signature X T (prev_txid i) sk m = Inr sig"
      "outputs tx = data_tx_out X (get_fee_rate N) (tag_bytes UnstakeCollateralTag @ sig @ be_bytes 8 (unat (um_amount m))) # out # rest"
      "txo_script out = address_script X a"
    using assms(8) unfolding unstake_submit_to_bitcoin_def unstake_to_tx_def by (rule sent_request_shape [OF _ assms(4)])
  have sig: "sig = schnorr_sign T sk (sha256 X (prev_txid i @ x_only_public_key T sk @ be_bytes 8 (unat (um_amount m)) @ t))"
    using tx(4) t assms(6) by (simp add: unstake_make_signature_def unstake_signature_msg_def expect_txid20_def)
  have "length sig = 64" using assms(3) unfolding sig sole_signer_def by simp
  note read = unstake_outputs_read [OF assms(1,5) this t tx(5,6,3), of "\<lambda>w. v_pubkey w = x_only_public_key T sk"]
  have "unstake_from_tx X db tx = (case find (\<lambda>w. v_pubkey w = x_only_public_key T sk) (cm_validators (ss_committee s)) of
        None \<Rightarrow> Inl (invalid_msg ''Signature doesn't match any of the validators'')
      | Some v \<Rightarrow> Inr \<lparr> um_subnet_id = ss_id s, um_amount = um_amount m, um_pubkey = Some (v_pubkey v) \<rparr>)"
    by (rule read) (auto simp: sig intro!: sole_signer_verify [OF assms(2,3)])
  with tx(1,2) assms(6) show ?thesis
    unfolding find_pubkey [where f = "\<lambda>pk. Inr \<lparr> um_subnet_id = ss_id s, um_amount = um_amount m, um_pubkey = Some pk \<rparr>"] by auto
qed

lemma sent_kill_read:
  assumes "ext_ok X" "taproot_ok X T" "sole_signer X T sk" "wallet_ok N"
    and "get_subnet_by_multisig_address db a = Some s" "ss_id s = km_subnet_id m" "native_id (km_subnet_id m)"
    and "kill_submit_to_bitcoin X T N a sk m = (txs, Inr tid)"
  shows "\<exists>tx. txs = [tx] \<and> tid = compute_txid X tx \<and> kill_from_tx X db tx =
     (if x_only_public_key T sk \<in> v_pubkey ` set (cm_validators (ss_committee s))
      then Inr (m\<lparr> km_pubkey := Some (x_only_public_key T sk) \<rparr>)
      else Inl (invalid_msg ''Signature doesn't match any of the validators''))"
proof -
  obtain t where t: "subnet_id_txid20 (ss_id s) = Some t" using native_txid20 [OF assms(7)] assms(6) by auto
  obtain tx i ins out rest sig where tx: "txs = [tx]" "tid = compute_txid X tx" "inputs tx = i # ins"
      "kill_make_signature X T (prev_txid i) sk m = Inr sig"
      "outputs tx = data_tx_out X (get_fee_rate N) (tag_bytes KillSubnetTag @ sig) # out # rest"
      "txo_script out = address_script X a"
    using assms(8) unfolding kill_submit_to_bitcoin_def kill_to_tx_def by (rule sent_request_shape [OF _ assms(4)])
  have sig: "sig = schnorr_sign T sk (sha256 X (prev_txid i @ x_only_public_key T sk @ t))"
    using tx(4) t assms(6) by (simp add: kill_make_signature_def kill_signature_msg_def expect_txid20_def)
  have "length sig = 64" using assms(3) unfolding sig sole_signer_def by simp
  note read = kill_outputs_read [OF assms(1,5) this t tx(5,6,3), of "\<lambda>w. v_pubkey w = x_only_public_key T sk"]
  have "kill_from_tx X db tx = (case find (\<lambda>w. v_pubkey w = x_only_public_key T sk) (cm_validators (ss_committee s)) of
        None \<Rightarrow> Inl (invalid_msg ''Signature doesn't match any of the validators'')
      | Some v \<Rightarrow> Inr \<lparr> km_subnet_id = ss_id s, km_pubkey = Some (v_pubkey v) \<rparr>)"
    by (rule read) (auto simp: sig intro!: sole_signer_verify [OF assms(2,3)])
  with tx(1,2) assms(6) show ?thesis
    unfolding find_pubkey [where f = "\<lambda>pk. Inr \<lparr> km_subnet_id = ss_id s, km_pubkey = Some pk \<rparr>"] by auto
qed

text \<open>A wallet that adds one input and a change output, and accepts everything.\<close>

definition demo_node :: node where
  "demo_node = \<lparr> nd_estimate_fee = None, nd_new_address = Inr ''bcrt1pr'',
     nd_fund = (\<lambda>tx. Inr (tx\<lparr> inputs := [demo_input],
                            outputs := outputs tx @ [\<lparr> txo_value = 100, txo_script = [] \<rparr>] \<rparr>)),
     nd_sign = (\<lambda>tx. Inr (tx, True)), nd_accept = (\<lambda>txs. Inr (map (\<lambda>tx. None) txs)),
     nd_send = (\<lambda>tx. Inr ()), nd_unspent = (\<lambda>a. Inr demo_utxos), nd_block_hash = (\<lambda>h. Inr []),
     nd_block_count = Inr 100 \<rparr>"

lemma demo_node_wallet:
  "fund_tx demo_node tx = Inr (tx\<lparr> inputs := [demo_input], outputs := outputs tx @ [\<lparr> txo_value = 100, txo_script = [] \<rparr>] \<rparr>)"
  "sign_tx demo_node tx = Inr tx" "submit_to_mempool demo_node [] = ([], Inr ())"
  "submit_to_mempool demo_node [tx] = ([tx], Inr ())" "submit_to_mempool demo_node [tx, tx'] = ([tx, tx'], Inr ())"
  by (simp_all add: fund_tx_def sign_tx_def demo_node_def submit_to_mempool_def)

lemma demo_node_ok: "wallet_ok demo_node"
  by (simp add: wallet_ok_def demo_node_def)

text \<open>A signature scheme with keys of 32 bytes and signatures of 64.\<close>

definition pad32 :: "bytes \<Rightarrow> bytes" where "pad32 b = take 32 (b @ replicate 32 0)"

lemma length_pad32 [simp]: "length (pad32 b) = 32" "pad32 b \<noteq> []"
  by (auto simp: pad32_def)

definition request_ext :: ext where
  "request_ext = demo_ext\<lparr> verify_schnorr := (\<lambda>k m s. length k = 32 \<and> s = k @ pad32 m) \<rparr>"

definition request_taproot :: taproot where
  "request_taproot = demo_taproot\<lparr> schnorr_sign := (\<lambda>sk m. pad32 sk @ pad32 m), x_only_public_key := pad32 \<rparr>"

lemma request_ext_ok: "ext_ok request_ext"
proof -
  have "ext_ok (X\<lparr> verify_schnorr := v \<rparr>) = ext_ok X" for X v unfolding ext_ok_def ext.select_convs ext.update_convs
    by (cases X) (simp only: ext.select_convs ext.update_convs)
  then show ?thesis using demo_ext_ok unfolding request_ext_def by blast
qed

lemma request_taproot_ok: "taproot_ok request_ext request_taproot" "sole_signer request_ext request_taproot sk"
  by (auto simp: taproot_ok_def sole_signer_def request_ext_def request_taproot_def demo_taproot_def)

definition request_genesis :: subnet_genesis_info where
  "request_genesis = \<lparr> gi_subnet_id = demo_id,
     gi_create_subnet_msg = \<lparr> cr_min_validator_stake = 10000, cr_min_validators = 1, cr_bottomup_check_period = 10,
        cr_active_validators_limit = 10, cr_min_cross_msg_fee = 1, cr_whitelist = [replicate 32 1] \<rparr>,
     gi_create_msg_block_height = 1, gi_bootstrapped = True, gi_genesis_block_height = Some 2,
     gi_genesis_validators = [demo_validator 1 5], gi_genesis_balance_entries = [] \<rparr>"

definition request_server :: "ext \<Rightarrow> subnet_state \<Rightarrow> server_data" where
  "request_server X s = \<lparr> sd_db = empty_db\<lparr> subnet_db := [(subnet_state_key X demo_id, s)],
        subnet_genesis_db := [(subnet_genesis_info_key X demo_id, request_genesis)] \<rparr>,
     sd_validator = Some (replicate 32 1, replicate 32 1) \<rparr>"

lemma request_server_lookup:
  "get_subnet_state X (sd_db (request_server X s)) demo_id = Some s"
  "get_subnet_genesis_info X (sd_db (request_server X s)) demo_id = Some request_genesis"
  "get_subnet_by_multisig_address (sd_db (request_server X s)) (cm_multisig_address (ss_committee s)) = Some s"
  "get_valid_kill_requests X (sd_db (request_server X s)) demo_id h = []"
  "sd_validator (request_server X s) = Some (replicate 32 1, replicate 32 1)"
  by (simp_all add: request_server_def get_subnet_state_def get_subnet_genesis_info_def kv_get_def
      get_subnet_by_multisig_address_def get_valid_kill_requests_def kv_prefix_iter_def empty_db_def)

section \<open>Properties\<close>

text \<open>
  C29. An unstake or kill request that the provider accepts is one transaction on the network.  The monitor
  that has the same database reads it back as the same message of the same validator when that validator
  is in the current committee; a validator that so far is only in the waiting committee passes the
  checks of the provider, but no signature is found for it and the monitor rejects its request.
\<close>

theorem signed_requests_reach_monitor:
  assumes "ext_ok X" "taproot_ok X T" "sole_signer X T sk" "wallet_ok N"
    and "sd_validator sd = Some (x_only_public_key T sk, sk)"
    and "get_subnet_state X (sd_db sd) sid = Some s" "native_id sid"
    and "get_subnet_by_multisig_address (sd_db sd) (cm_multisig_address (ss_committee s)) = Some s"
  shows "(\<forall>m txs tid. um_subnet_id m = sid \<longrightarrow> unstake_collateral X T N sd m = (txs, Inr tid) \<longrightarrow>
      (\<exists>tx. txs = [tx] \<and> tid = compute_txid X tx \<and> unstake_from_tx X (sd_db sd) tx =
         (if x_only_public_key T sk \<in> v_pubkey ` set (cm_validators (ss_committee s))
          then Inr (m\<lparr> um_pubkey := Some (x_only_public_key T sk) \<rparr>)
          else Inl (invalid_msg ''Signature doesn't match any of the validators''))))
   \<and> (\<forall>m txs tid. km_subnet_id m = sid \<longrightarrow> kill_subnet X T N sd m = (txs, Inr tid) \<longrightarrow>
      (\<exists>tx. txs = [tx] \<and> tid = compute_txid X tx \<and> kill_from_tx X (sd_db sd) tx =
         (if x_only_public_key T sk \<in> v_pubkey ` set (cm_validators (ss_committee s))
          then Inr (m\<lparr> km_pubkey := Some (x_only_public_key T sk) \<rparr>)
          else Inl (invalid_msg ''Signature doesn't match any of the validators''))))"
proof (intro conjI allI impI)
  fix m txs tid
  assume m: "um_subnet_id m = sid" "unstake_collateral X T N sd m = (txs, Inr tid)"
  let ?m = "m\<lparr> um_pubkey := Some (x_only_public_key T sk) \<rparr>"
  obtain g where g: "unstake_validate_for_subnet ?m g s = Inr ()"
      "unstake_submit_to_bitcoin X T N (cm_multisig_address (ss_committee s)) sk ?m = (txs, Inr tid)"
    using m assms(5,6) by (auto simp: unstake_collateral_def require_validator_def require_subnet_def
        checked_address_def address_checked_def Let_def send_simps split: if_splits)
  have "ss_id s = sid" using g(1) m(1) by (auto simp: unstake_validate_for_subnet_def split: if_splits)
  then have "ss_id s = um_subnet_id ?m" "native_id (um_subnet_id ?m)" using m(1) assms(7) by simp_all
  from sent_unstake_read [OF assms(1-4,8) this g(2)]
  show "\<exists>tx. txs = [tx] \<and> tid = compute_txid X tx \<and> unstake_from_tx X (sd_db sd) tx =
         (if x_only_public_key T sk \<in> v_pubkey ` set (cm_validators (ss_committee s))
          then Inr ?m else Inl (invalid_msg ''Signature doesn't match any of the validators''))"
    by (simp cong: if_cong split del: if_split)
next
  fix m txs tid
  assume m: "km_subnet_id m = sid" "kill_subnet X T N sd m = (txs, Inr tid)"
  let ?m = "m\<lparr> km_pubkey := Some (x_only_public_key T sk) \<rparr>"
  obtain g where g: "kill_validate_for_subnet ?m g s = Inr ()"
      "kill_submit_to_bitcoin X T N (cm_multisig_address (ss_committee s)) sk ?m = (txs, Inr tid)"
    using m assms(5,6) by (auto simp: kill_subnet_def require_validator_def require_subnet_def
        checked_address_def address_checked_def Let_def send_simps split: if_splits)
  have "ss_id s = sid" using g(1) m(1) by (auto simp: kill_validate_for_subnet_def split: if_splits)
  then have "ss_id s = km_subnet_id ?m" "native_id (km_subnet_id ?m)" using m(1) assms(7) by simp_all
  from sent_kill_read [OF assms(1-4,8) this g(2)]
  show "\<exists>tx. txs = [tx] \<and> tid = compute_txid X tx \<and> kill_from_tx X (sd_db sd) tx =
         (if x_only_public_key T sk \<in> v_pubkey ` set (cm_validators (ss_committee s))
          then Inr ?m else Inl (invalid_msg ''Signature doesn't match any of the validators''))"
    by (simp cong: if_cong split del: if_split)
qed

lemma request_key: "x_only_public_key request_taproot (replicate 32 1) = replicate 32 1"
  by (simp add: request_taproot_def pad32_def)

lemma request_address: "checked_address request_ext (ss_committee demo_state) = Inr ''bcrt1p''"
  by (simp add: checked_address_def address_checked_def demo_state_def demo_committee_def request_ext_def demo_ext_def)

lemma demo_kill_request:
  "\<exists>txs tid. kill_subnet request_ext request_taproot demo_node (request_server request_ext demo_state)
     \<lparr> km_subnet_id = demo_id, km_pubkey = None \<rparr> = (txs, Inr tid)"
proof -
  have v: "committee_is_validator (latest_committee demo_state) (replicate 32 1)"
    by (simp add: latest_committee_def demo_state_def demo_committee_def demo_validator_def committee_is_validator_def)
  have d: "demo_id \<noteq> subnet_id_default"
    by (simp add: subnet_id_default_def subnet_id_from_txid_def demo_id_def subnet_id_from_txid20_def)
  have "\<exists>txs tid. kill_submit_to_bitcoin request_ext request_taproot demo_node ''bcrt1p'' (replicate 32 1)
      \<lparr> km_subnet_id = demo_id, km_pubkey = Some (replicate 32 1) \<rparr> = (txs, Inr tid)"
    using demo_id_txid20
    by (simp add: kill_submit_to_bitcoin_def submit_tx_def sign_request_def kill_to_tx_def demo_node_wallet
        kill_make_signature_def kill_signature_msg_def expect_txid20_def signed_tx_def create_tx_from_txouts_def
        sent_map_def)
  with v d request_address show ?thesis
    by (simp add: kill_subnet_def require_validator_def require_genesis_def require_subnet_def request_server_lookup
        kill_validate_def kill_validate_for_subnet_def already_requested_def request_genesis_def demo_state_def
        sent_map_eq Let_def)
qed

theorem signed_requests_reach_monitor_witness:
  "\<exists>tx. kill_subnet request_ext request_taproot demo_node (request_server request_ext demo_state)
       \<lparr> km_subnet_id = demo_id, km_pubkey = None \<rparr> = ([tx], Inr (compute_txid request_ext tx))
     \<and> kill_from_tx request_ext (sd_db (request_server request_ext demo_state)) tx
         = Inr \<lparr> km_subnet_id = demo_id, km_pubkey = Some (replicate 32 1) \<rparr>"
proof -
  let ?m = "\<lparr> km_subnet_id = demo_id, km_pubkey = None \<rparr>"
  obtain txs tid where k: "kill_subnet request_ext request_taproot demo_node (request_server request_ext demo_state) ?m = (txs, Inr tid)"
    using demo_kill_request by blast
  have v: "sd_validator (request_server request_ext demo_state) = Some (x_only_public_key request_taproot (replicate 32 1), replicate 32 1)"
    by (simp add: request_server_lookup request_key)
  have "replicate 32 1 \<in> v_pubkey ` set (cm_validators (ss_committee demo_state))"
    by (simp add: demo_state_def demo_committee_def demo_validator_def)
  with conjunct2 [OF signed_requests_reach_monitor [OF request_ext_ok request_taproot_ok demo_node_ok v
        request_server_lookup(1) demo_id_native request_server_lookup(3)], rule_format, OF _ k] k
  show ?thesis by (auto simp: request_key)
qed

lemma fund_outputs_read:
  assumes "ext_ok X" "native_id (fm_subnet_id m)" "length (fm_address m) = 20" "fund_to_tx X r a m = Inr tx"
    and "outputs tx' = outputs tx @ change"
  shows "fund_from_tx X tx' = Inr m" "outputs tx' ! 1 = \<lparr> txo_value = fm_amount m, txo_script = address_script X a \<rparr>"
proof -
  obtain t where t: "subnet_id_txid20 (fm_subnet_id m) = Some t" "length t = 20"
      "subnet_id_from_txid20 t = fm_subnet_id m"
    using native_txid20 [OF assms(2)] by auto
  have o: "outputs tx' = data_tx_out X r (tag_bytes FundSubnetTag @ t @ fm_address m)
      # \<lparr> txo_value = fm_amount m, txo_script = address_script X a \<rparr> # change"
    using assms(4,5) t(1) by (auto simp: fund_to_tx_def expect_txid20_def create_tx_from_txouts_def)
  have "message_payload X FundSubnetTag 2 46 tx' = Inr (t @ fm_address m)"
    by (rule message_payload_outputs [OF assms(1) o]) (use t assms(3) in \<open>simp_all add: IPC_TAG_LENGTH_def\<close>)
  with o t show "fund_from_tx X tx' = Inr m" "outputs tx' ! 1 = \<lparr> txo_value = fm_amount m, txo_script = address_script X a \<rparr>"
    by (simp_all add: fund_from_tx_def txid20_from_slice_def SUBNET_ID_INNER_LEN_def)
qed

text \<open>
  C30. A fund request that the provider accepts is one transaction: it pays the amount to the multisig of
  the current committee and is read back as the same message.  The monitor then credits it with the next
  nonce if the subnet is neither killed nor to be killed, and otherwise rejects it: the provider, which
  does not check this, has sent money that nobody is credited for.
\<close>

theorem fund_request_paid_and_credited:
  assumes "ext_ok X" "wallet_ok N" "native_id (fm_subnet_id m)" "length (fm_address m) = 20"
    and "fund_subnet X N sd m = (txs, Inr tid)"
  shows "\<exists>tx s. txs = [tx] \<and> tid = compute_txid X tx \<and> get_subnet_state X (sd_db sd) (fm_subnet_id m) = Some s
     \<and> outputs tx ! 1 = \<lparr> txo_value = fm_amount m, txo_script = address_script X (cm_multisig_address (ss_committee s)) \<rparr>
     \<and> fund_from_tx X tx = Inr m
     \<and> (\<forall>h bh. fund_save_to_db X (sd_db sd) h bh tid m =
          (if is_killed_or_pending s
           then Inl (invalid_msg ''Subnet is killed or marked for killing, cannot fund.'')
           else Inr (add_rootnet_msg X (fm_subnet_id m) (FundSubnet m h bh
                       (get_next_rootnet_msg_nonce X (sd_db sd) (fm_subnet_id m)) tid) (sd_db sd))))"
proof -
  obtain s where s: "get_subnet_state X (sd_db sd) (fm_subnet_id m) = Some s"
      "fund_submit_to_bitcoin X N (cm_multisig_address (ss_committee s)) m = (txs, Inr tid)"
    using assms(5) by (auto simp: fund_subnet_def require_subnet_def checked_address_def address_checked_def send_simps
        split: if_splits)
  from s(2) obtain ftx tx where tx: "res_bind (fund_to_tx X (get_fee_rate N) (cm_multisig_address (ss_committee s)) m) (fund_tx N) = Inr ftx"
      "nd_sign N ftx = Inr (tx, True)" "txs = [tx]" "tid = compute_txid X tx"
    unfolding fund_submit_to_bitcoin_def by (rule submit_tx_Inr)
  then obtain f0 where f0: "fund_to_tx X (get_fee_rate N) (cm_multisig_address (ss_committee s)) m = Inr f0" "fund_tx N f0 = Inr ftx"
    by (auto simp: res_simps)
  obtain change where "outputs ftx = outputs f0 @ change" using assms(2) f0(2) by (rule wallet_fund)
  then have o: "outputs tx = outputs f0 @ change" using wallet_sign(1) [OF assms(2) tx(2)] by simp
  show ?thesis
    by (rule exI [of _ tx], rule exI [of _ s])
      (use fund_outputs_read [OF assms(1,3,4) f0(1) o] tx(3,4) s(1) in
        \<open>simp add: fund_save_to_db_def fund_validate_for_subnet_def\<close>)
qed

lemma demo_fund_request:
  "\<exists>txs tid. fund_subnet request_ext demo_node (request_server request_ext (demo_state\<lparr> ss_killed := ToBeKilled \<rparr>))
     \<lparr> fm_subnet_id = demo_id, fm_amount = 5, fm_address = replicate 20 3 \<rparr> = (txs, Inr tid)"
  using demo_id_txid20 request_address
  by (simp add: fund_subnet_def fund_validate_def require_subnet_def request_server_lookup fund_submit_to_bitcoin_def
      submit_tx_def fund_to_tx_def expect_txid20_def demo_node_wallet sent_map_def)

theorem fund_request_paid_and_credited_witness:
  "\<exists>tx. fund_subnet request_ext demo_node (request_server request_ext (demo_state\<lparr> ss_killed := ToBeKilled \<rparr>))
       \<lparr> fm_subnet_id = demo_id, fm_amount = 5, fm_address = replicate 20 3 \<rparr> = ([tx], Inr (compute_txid request_ext tx))
     \<and> outputs tx ! 1 = \<lparr> txo_value = 5, txo_script = address_script request_ext ''bcrt1p'' \<rparr>
     \<and> fund_save_to_db request_ext (sd_db (request_server request_ext (demo_state\<lparr> ss_killed := ToBeKilled \<rparr>))) 9 [] (compute_txid request_ext tx)
         \<lparr> fm_subnet_id = demo_id, fm_amount = 5, fm_address = replicate 20 3 \<rparr>
       = Inl (invalid_msg ''Subnet is killed or marked for killing, cannot fund.'')"
proof -
  let ?m = "\<lparr> fm_subnet_id = demo_id, fm_amount = 5, fm_address = replicate 20 3 \<rparr>"
  let ?s = "demo_state\<lparr> ss_killed := ToBeKilled \<rparr>"
  obtain txs tid where f: "fund_subnet request_ext demo_node (request_server request_ext ?s) ?m = (txs, Inr tid)"
    using demo_fund_request by blast
  have "is_killed_or_pending ?s" "cm_multisig_address (ss_committee ?s) = ''bcrt1p''"
    by (simp_all add: is_killed_or_pending_def demo_state_def demo_committee_def)
  with fund_request_paid_and_credited [OF request_ext_ok demo_node_ok _ _ f] request_server_lookup(1) [of request_ext ?s] f
  show ?thesis by auto
qed

section \<open>Commit and reveal\<close>

text \<open>The data scripts leave a single true value on the stack, whatever is checked.\<close>

lemma push_chunks_exec:
  "script_exec check False (push_chunks fuel data @ s) st = script_exec check False s st"
  by (induction fuel data rule: push_chunks.induct) (simp_all add: opcode_defs)

lemma data_script_true: "script_exec check False (make_push_data_script data) [] = Some [SNum 1]"
  by (simp add: make_push_data_script_def push_chunks_exec opcode_defs)

lemma create_commit_reveal_Inr:
  assumes "create_commit_reveal_txs X C N a data amt = Inr (commit, reveal)" "wallet_ok N"
  obtains ca v fee cb change where "p2tr_of_leaves X [(0, make_push_data_script data)] = Some ca"
    "outputs commit = \<lparr> txo_value = v, txo_script = address_script X ca \<rparr> # change"
    "inputs reveal = [\<lparr> prev_txid = compute_txid X commit, prev_vout = 0, sequence = - 1,
        witness = [script_to_bytes X (make_push_data_script data), cb] \<rparr>]"
    "outputs reveal = [\<lparr> txo_value = max (minimal_non_dust_custom X (get_fee_rate N) (address_script X ca)) (case amt of Some b \<Rightarrow> b | None \<Rightarrow> 0),
        txo_script = address_script X a \<rparr>]"
    "fee_wu X (get_fee_rate N) (tx_weight X (reveal\<lparr> inputs := [(hd (inputs reveal))\<lparr> prev_txid := replicate 32 0 \<rparr>] \<rparr>)) = Some fee"
    "unat v = unat (txo_value (hd (outputs reveal))) + unat fee"
proof -
  from assms(1) obtain ca cb fee v f0 where
    c: "p2tr_of_leaves X [(0, make_push_data_script data)] = Some ca"
    "outputs reveal = [\<lparr> txo_value = max (minimal_non_dust_custom X (get_fee_rate N) (address_script X ca)) (case amt of Some b \<Rightarrow> b | None \<Rightarrow> 0),
        txo_script = address_script X a \<rparr>]"
    "inputs reveal = [\<lparr> prev_txid = compute_txid X commit, prev_vout = 0, sequence = - 1,
        witness = [script_to_bytes X (make_push_data_script data), cb] \<rparr>]"
    "fee_wu X (get_fee_rate N) (tx_weight X (reveal\<lparr> inputs := [(hd (inputs reveal))\<lparr> prev_txid := replicate 32 0 \<rparr>] \<rparr>)) = Some fee"
    "word_checked_add (txo_value (hd (outputs reveal))) fee = Some v"
    "fund_tx N (create_tx_from_txouts [\<lparr> txo_value = v, txo_script = address_script X ca \<rparr>]) = Inr f0"
    "sign_tx N f0 = Inr commit"
    by (auto simp: create_commit_reveal_txs_def Let_def res_simps ipc_amount_add_def)
  obtain change where o: "outputs f0 = outputs (create_tx_from_txouts [\<lparr> txo_value = v, txo_script = address_script X ca \<rparr>]) @ change"
    using assms(2) c(6) by (rule wallet_fund)
  obtain b where "nd_sign N f0 = Inr (commit, b)" using c(7) by (auto simp: sign_tx_def res_simps split: if_splits)
  then have "outputs commit = outputs f0" by (rule wallet_sign(1) [OF assms(2)])
  with o have "outputs commit = \<lparr> txo_value = v, txo_script = address_script X ca \<rparr> # change" by (simp add: create_tx_from_txouts_def)
  with c show ?thesis using that by (simp add: word_checked_add_Some)
qed

text \<open>
  A join request that the provider accepts is a commit and a reveal transaction.  The reveal spends
  the first output of the commit, its witness carries the message, which the monitor reads back with the
  collateral reset; the monitor takes the collateral from the first output, which pays at least what the
  validator asked for to the whitelist multisig of the subnet; and the commit output pays this value and
  the fee of the reveal transaction.
\<close>

theorem join_request_reveals_message:
  assumes "script_codec_ok X" "codec_ok C" "wallet_ok N" "join_subnet X C N sd m = (txs, Inr tid)"
  shows "\<exists>commit reveal g a i out fee. txs = [commit, reveal] \<and> tid = compute_txid X reveal
     \<and> inputs reveal = [i] \<and> prev_txid i = compute_txid X commit \<and> prev_vout i = 0
     \<and> (\<exists>d. concatenate_op_push_data X (hd (witness i)) = Inr d \<and> from_witness C d = Inr (JoinSubnet (m\<lparr> jm_collateral := 0 \<rparr>)))
     \<and> get_subnet_genesis_info X (sd_db sd) (jm_subnet_id m) = Some g \<and> genesis_multisig_address X g = Inr a
     \<and> outputs reveal = [out] \<and> txo_script out = address_script X a \<and> jm_collateral m \<le> txo_value out
     \<and> fee_wu X (get_fee_rate N) (tx_weight X (reveal\<lparr> inputs := [i\<lparr> prev_txid := replicate 32 0 \<rparr>] \<rparr>)) = Some fee
     \<and> unat (txo_value (hd (outputs commit))) = unat (txo_value out) + unat fee"
proof -
  obtain g a d commit reveal where j: "get_subnet_genesis_info X (sd_db sd) (jm_subnet_id m) = Some g"
      "genesis_multisig_address X g = Inr a" "join_to_bytes C m = Inr d"
      "create_commit_reveal_txs X C N a d (Some (jm_collateral m)) = Inr (commit, reveal)"
      "txs = [commit, reveal]" "tid = compute_txid X reveal"
    using assms(4) by (auto simp: join_subnet_def require_genesis_def genesis_address_def join_submit_to_bitcoin_def
        submit_commit_reveal_def send_simps dest!: submit_to_mempool_Inr)
  obtain ca v fee cb change where "p2tr_of_leaves X [(0, make_push_data_script d)] = Some ca"
    "outputs commit = \<lparr> txo_value = v, txo_script = address_script X ca \<rparr> # change"
    "inputs reveal = [\<lparr> prev_txid = compute_txid X commit, prev_vout = 0, sequence = - 1,
        witness = [script_to_bytes X (make_push_data_script d), cb] \<rparr>]"
    "outputs reveal = [\<lparr> txo_value = max (minimal_non_dust_custom X (get_fee_rate N) (address_script X ca))
          (case Some (jm_collateral m) of Some b \<Rightarrow> b | None \<Rightarrow> 0), txo_script = address_script X a \<rparr>]"
    "fee_wu X (get_fee_rate N) (tx_weight X (reveal\<lparr> inputs := [(hd (inputs reveal))\<lparr> prev_txid := replicate 32 0 \<rparr>] \<rparr>)) = Some fee"
    "unat v = unat (txo_value (hd (outputs reveal))) + unat fee"
    by (rule create_commit_reveal_Inr [OF j(4) assms(3)])
  with j concatenate_push_data [OF assms(1), of d] join_bytes_back [OF assms(2) j(3)] show ?thesis by simp
qed

lemma demo_commit_reveal:
  assumes "unat (max 330 (case amt of Some b \<Rightarrow> b | None \<Rightarrow> 0)) + 1580 < 2 ^ 64"
  shows "\<exists>commit reveal. create_commit_reveal_txs wire_ext demo_codec demo_node a data amt = Inr (commit, reveal)"
proof -
  have f: "get_fee_rate demo_node = 2500"
    by (simp add: get_fee_rate_def demo_node_def DEFAULT_BTC_FEE_RATE_def MINIMUM_BTC_FEE_RATE_def MAXIMUM_BTC_FEE_RATE_def)
  obtain v where "word_checked_add (max 330 (case amt of Some b \<Rightarrow> b | None \<Rightarrow> 0)) 1580 = Some v"
    using assms by (auto simp: word_checked_add_def)
  then show ?thesis
    by (simp add: create_commit_reveal_txs_def Let_def f wire_ext_def demo_ext_def demo_codec_def ipc_amount_add_def
        demo_node_wallet)
qed

definition other_committee_state :: subnet_state where
  "other_committee_state = demo_state\<lparr> ss_committee := (demo_committee 0)\<lparr> cm_validators := [demo_validator 2 5] \<rparr> \<rparr>"

lemma demo_join_request:
  "\<exists>txs tid. join_subnet wire_ext demo_codec demo_node (request_server wire_ext other_committee_state)
     (demo_join_msg\<lparr> jm_collateral := 20000 \<rparr>) = (txs, Inr tid)"
proof -
  let ?m = "demo_join_msg\<lparr> jm_collateral := 20000 \<rparr>"
  obtain a where a: "genesis_multisig_address wire_ext request_genesis = Inr a"
    using demo_id_txid20
    by (simp add: genesis_multisig_address_def create_subnet_multisig_address_def create_subnet_multisig_spend_info_def
        create_multisig_script_def create_unspendable_subnet_id_script_def request_genesis_def whitelist_weighted_keys_def
        wire_ext_def demo_ext_def Let_def)
  obtain commit reveal where c: "create_commit_reveal_txs wire_ext demo_codec demo_node a (tag_bytes JoinSubnetTag @ [2]) (Some 20000)
      = Inr (commit, reveal)"
    using demo_commit_reveal [of "Some 20000" a "tag_bytes JoinSubnetTag @ [2]"] by auto
  have "join_to_bytes demo_codec ?m = Inr (tag_bytes JoinSubnetTag @ [2])"
    by (simp add: join_to_bytes_def demo_codec_def demo_join_msg_def)
  moreover have "join_validate wire_ext ?m = Inr ()"
    by (simp add: join_validate_def demo_join_msg_def wire_ext_def demo_ext_def subnet_id_default_def
        subnet_id_from_txid_def demo_id_def subnet_id_from_txid20_def)
  moreover have "join_validate_for_subnet ?m request_genesis (Some other_committee_state) = Inr ()"
    by (simp add: join_validate_for_subnet_def join_validate_post_bootstrap_def demo_join_msg_def other_committee_state_def
        request_genesis_def demo_state_def demo_committee_def demo_validator_def committee_is_validator_def
        is_waiting_validator_def is_killed_or_pending_def)
  ultimately show ?thesis using a c
    by (simp add: join_subnet_def require_genesis_def request_server_lookup genesis_address_def demo_join_msg_def
        join_submit_to_bitcoin_def submit_commit_reveal_def demo_node_wallet sent_map_def)
qed

text \<open>The validator joins a subnet that is running, with a committee of its own.\<close>

theorem join_request_reveals_message_witness:
  "\<exists>commit reveal a. join_subnet wire_ext demo_codec demo_node (request_server wire_ext other_committee_state)
       (demo_join_msg\<lparr> jm_collateral := 20000 \<rparr>) = ([commit, reveal], Inr (compute_txid wire_ext reveal))
     \<and> genesis_multisig_address wire_ext request_genesis = Inr a
     \<and> txo_script (hd (outputs reveal)) = address_script wire_ext a \<and> 20000 \<le> txo_value (hd (outputs reveal))"
proof -
  obtain txs tid where "join_subnet wire_ext demo_codec demo_node (request_server wire_ext other_committee_state)
       (demo_join_msg\<lparr> jm_collateral := 20000 \<rparr>) = (txs, Inr tid)" using demo_join_request by blast
  from join_request_reveals_message [OF wire_ext_codec demo_codec_ok demo_node_ok this] this
  show ?thesis by (fastforce simp: request_server_lookup demo_join_msg_def)
qed

text \<open>
  Revealing needs no signature: the output of a commit transaction, which holds the collateral of a
  join, is locked by a script that only drops the data and succeeds.  Whoever sees the reveal transaction
  has the script and its control block, and can spend the output to an address of their own instead.
\<close>

theorem commit_output_needs_no_signature:
  assumes "wallet_ok N" "create_commit_reveal_txs X C N a data amt = Inr (commit, reveal)"
  shows "\<exists>ca out rest i cb. p2tr_of_leaves X [(0, make_push_data_script data)] = Some ca
     \<and> outputs commit = out # rest \<and> txo_script out = address_script X ca
     \<and> (\<forall>b. amt = Some b \<longrightarrow> unat b \<le> unat (txo_value out))
     \<and> inputs reveal = [i] \<and> witness i = [script_to_bytes X (make_push_data_script data), cb]
     \<and> (\<forall>check. script_exec check False (make_push_data_script data) [] = Some [SNum 1])"
proof -
  obtain ca v fee cb change where c: "p2tr_of_leaves X [(0, make_push_data_script data)] = Some ca"
    "outputs commit = \<lparr> txo_value = v, txo_script = address_script X ca \<rparr> # change"
    "inputs reveal = [\<lparr> prev_txid = compute_txid X commit, prev_vout = 0, sequence = - 1,
        witness = [script_to_bytes X (make_push_data_script data), cb] \<rparr>]"
    "outputs reveal = [\<lparr> txo_value = max (minimal_non_dust_custom X (get_fee_rate N) (address_script X ca)) (case amt of Some b \<Rightarrow> b | None \<Rightarrow> 0),
        txo_script = address_script X a \<rparr>]"
    "fee_wu X (get_fee_rate N) (tx_weight X (reveal\<lparr> inputs := [(hd (inputs reveal))\<lparr> prev_txid := replicate 32 0 \<rparr>] \<rparr>)) = Some fee"
    "unat v = unat (txo_value (hd (outputs reveal))) + unat fee"
    by (rule create_commit_reveal_Inr [OF assms(2,1)])
  have "unat b \<le> unat v" if "amt = Some b" for b
    using c(4,6) that by (simp add: max_def word_le_nat_alt split: if_splits)
  with c data_script_true show ?thesis by simp
qed

theorem commit_output_needs_no_signature_witness:
  "\<exists>commit reveal out rest. create_commit_reveal_txs wire_ext demo_codec demo_node ''bcrt1p'' [1, 2, 3] (Some 20000) = Inr (commit, reveal)
     \<and> outputs commit = out # rest \<and> 20000 \<le> unat (txo_value out)
     \<and> script_exec (\<lambda>k sig. False) False (make_push_data_script [1, 2, 3]) [] = Some [SNum 1]"
proof -
  obtain commit reveal where c: "create_commit_reveal_txs wire_ext demo_codec demo_node ''bcrt1p'' [1, 2, 3] (Some 20000) = Inr (commit, reveal)"
    using demo_commit_reveal [of "Some 20000" "''bcrt1p''" "[1, 2, 3]"] by auto
  from commit_output_needs_no_signature [OF demo_node_ok c] c show ?thesis by auto
qed

text \<open>
  The output of a prefund transaction does not reach the committee.  Its first leaf is the output
  script of the multisig address, which for a taproot address is a version number and a key; run as a
  tapscript it never leaves the single value that a spend needs, and the key path is unspendable.
\<close>

theorem prefund_output_cannot_reach_committee:
  assumes "prefund_to_tx X r a b m = Inr tx" "address_script X a = [PushOpcode OP_TRUE, PushSlice key]"
  shows "\<exists>pa release. p2tr_of_leaves X [(1, address_script X a), (1, release)] = Some pa
     \<and> outputs tx ! 1 = \<lparr> txo_value = pf_amount m, txo_script = address_script X pa \<rparr>
     \<and> (\<forall>check st x. script_exec check False (address_script X a) st \<noteq> Some [x])"
proof -
  obtain release pa where "p2tr_of_leaves X [(1, address_script X a), (1, release)] = Some pa"
      "outputs tx ! 1 = \<lparr> txo_value = pf_amount m, txo_script = address_script X pa \<rparr>"
    using assms(1) by (auto simp: prefund_to_tx_def create_send_with_timelock_release_tx_script_def Let_def res_simps
        create_tx_from_txouts_def split: option.splits)
  moreover have "script_exec check False (address_script X a) st \<noteq> Some [x]" for check st x
    unfolding assms(2) by (cases st) (simp_all add: opcode_defs)
  ultimately show ?thesis by blast
qed

definition taproot_ext :: ext where
  "taproot_ext = demo_ext\<lparr> address_script := (\<lambda>a. [PushOpcode OP_TRUE, PushSlice (ascii_bytes a)]) \<rparr>"

theorem prefund_output_cannot_reach_committee_witness:
  "\<exists>tx pa release. prefund_to_tx taproot_ext 1000 ''bcrt1p'' ''bcrt1pq''
       \<lparr> pf_subnet_id = demo_id, pf_amount = 6, pf_address = replicate 20 4 \<rparr> = Inr tx
     \<and> p2tr_of_leaves taproot_ext [(1, address_script taproot_ext ''bcrt1p''), (1, release)] = Some pa
     \<and> outputs tx ! 1 = \<lparr> txo_value = 6, txo_script = address_script taproot_ext pa \<rparr>"
proof -
  let ?m = "\<lparr> pf_subnet_id = demo_id, pf_amount = 6, pf_address = replicate 20 4 \<rparr>"
  obtain tx where tx: "prefund_to_tx taproot_ext 1000 ''bcrt1p'' ''bcrt1pq'' ?m = Inr tx"
    using demo_id_txid20 by (simp add: prefund_to_tx_def create_send_with_timelock_release_tx_script_def Let_def
        expect_txid20_def taproot_ext_def demo_ext_def)
  have "address_script taproot_ext ''bcrt1p'' = [PushOpcode OP_TRUE, PushSlice (ascii_bytes ''bcrt1p'')]"
    by (simp add: taproot_ext_def)
  from prefund_output_cannot_reach_committee [OF tx this] tx show ?thesis by auto
qed

end
