(* ===== verification/Kill_Payout.thy ===== *)
theory Kill_Payout
  imports Psbt_Facts Layout
begin

text \<open>
  The payout of a killed subnet: the checkpoint that kills it spends every output of the committee, pays
  the requested outputs and divides what is left among the unstake outputs.
\<close>

lemma split_change_Inr:
  assumes "split_change c t d us outs = Inr outs'" "length outs = length us" "us \<noteq> []"
  shows "map txo_script outs' = map txo_script outs \<and> unat d \<le> unat c
     \<and> (\<Sum>out\<leftarrow>outs'. unat (txo_value out)) = (\<Sum>out\<leftarrow>outs. unat (txo_value out)) + (unat c - unat d)"
  using assms
proof (induction c t d us outs arbitrary: outs' rule: split_change.induct)
  case (1 c t d u us out outs)
  obtain x v d' rest where x: "(if us = [] then ok_or (word_checked_sub c d) (Panic ''Amount subtraction error'')
       else Inr (of_nat (min (2 ^ 64 - 1) (f64_share (unat c) (unat (un_amount u)) (unat t))))) = Inr x"
    and v: "unat (txo_value out) + unat x = unat v" and d': "unat d + unat x = unat d'"
    and rest: "split_change c t d' us outs = Inr rest" and o: "outs' = out\<lparr> txo_value := v \<rparr> # rest"
    using "1.prems"(1) by (auto simp: res_simps ipc_amount_add_def word_checked_add_Some)
  show ?case
  proof (cases "us = []")
    case True
    then have "rest = outs" "outs = []" using rest "1.prems"(2) by auto
    moreover have "unat c = unat d + unat x" using x True by (auto simp: res_simps word_checked_sub_Some)
    ultimately show ?thesis using v o by simp
  next
    case False
    have "map txo_script rest = map txo_script outs \<and> unat d' \<le> unat c
       \<and> (\<Sum>out\<leftarrow>rest. unat (txo_value out)) = (\<Sum>out\<leftarrow>outs. unat (txo_value out)) + (unat c - unat d')"
      using "1.IH" rest "1.prems"(2) False by simp
    then show ?thesis using v d' o by simp
  qed
qed simp_all

lemma checkpoint_tx_outs_unstakes:
  assumes "checkpoint_tx_outs X C seed r ca m = Inr outs"
  shows "length (ck_unstakes m) \<le> length outs"
  using assms by (auto simp: checkpoint_tx_outs_def res_simps dest: res_mapM_length)

lemma find_append_none: "\<forall>x \<in> set xs. \<not> P x \<Longrightarrow> find P (xs @ ys) = find P ys"
  by (induction xs) auto

lemma ipc_amount_sum_Inr: "ipc_amount_sum xs = Inr s \<Longrightarrow> unat s = sum_list (map unat xs)"
  using amount_sum_Inr [of xs s] by (auto simp: ipc_amount_sum_def amount_sum_def res_simps)

lemma kill_split:
  assumes "split_kill_change X a m outs tx0 = Inr split"
    and "find (\<lambda>out. txo_script out = address_script X a) (outputs tx0)
       = (if d < left then Some \<lparr> txo_value = left, txo_script = address_script X a \<rparr> else None)"
    and "d < left" "0 < left" "ck_is_kill_checkpoint m"
    and "checkpoint_tx_outs X C seed r ca m = Inr outs" "\<exists>u \<in> set (ck_unstakes m). un_amount u \<noteq> 0"
    and "k = length outs - length (ck_unstakes m)"
  shows "\<exists>outs'. split = Some (take k outs @ outs') \<and> map txo_script outs' = map txo_script (drop k outs)
     \<and> (\<Sum>out\<leftarrow>outs'. unat (txo_value out)) = (\<Sum>out\<leftarrow>drop k outs. unat (txo_value out)) + unat left"
proof -
  have ne: "ck_unstakes m \<noteq> []" using assms(7) by auto
  have len: "length (drop k outs) = length (ck_unstakes m)"
    using checkpoint_tx_outs_unstakes [OF assms(6)] assms(8) by simp
  obtain t where t: "ipc_amount_sum (map un_amount (ck_unstakes m)) = Inr t"
    using assms(1-5) ne by (auto simp: split_kill_change_def res_simps)
  obtain u where "u \<in> set (ck_unstakes m)" "un_amount u \<noteq> 0" using assms(7) by blast
  then have "0 < unat (un_amount u)" "unat (un_amount u) \<le> sum_list (map unat (map un_amount (ck_unstakes m)))"
    by (simp_all add: unat_gt_0 member_le_sum_list)
  then have "0 < sum_list (map unat (map un_amount (ck_unstakes m)))" by linarith
  then have pos: "0 < t" using ipc_amount_sum_Inr [OF t] by (simp add: word_less_nat_alt)
  obtain outs' where o: "split_change left t 0 (ck_unstakes m) (drop k outs) = Inr outs'" "split = Some (take k outs @ outs')"
    using assms(1-5) ne t pos unfolding assms(8) by (auto simp: split_kill_change_def res_simps Let_def)
  show ?thesis using split_change_Inr [OF o(1) len ne] o(2) by auto
qed

text \<open>The weight of a transaction does not depend on the values of its outputs.\<close>

definition weight_of_scripts :: "ext \<Rightarrow> bool" where
  "weight_of_scripts X \<longleftrightarrow> (\<forall>tx tx'. inputs tx = inputs tx' \<longrightarrow>
     map txo_script (outputs tx) = map txo_script (outputs tx') \<longrightarrow> tx_weight X tx = tx_weight X tx')"

lemma built_weight_scripts:
  "weight_of_scripts X \<Longrightarrow> map txo_script outs = map txo_script outs' \<Longrightarrow>
   built_weight X ws ca outs True us = built_weight X ws ca outs' True us"
  unfolding weight_of_scripts_def built_weight_def by simp

text \<open>
  The outputs of a kill checkpoint: those asked for, with the leftover added to the unstakes when there
  is one.
\<close>

lemma kill_outputs:
  assumes "to_checkpoint_psbt X C T seed m c nc r unspent = Inr p" "ck_is_kill_checkpoint m"
    and "checkpoint_tx_outs X C seed r (cm_multisig_address c) m = Inr outs"
    and "construct_spend_unsigned_transaction X (validator_weighted_keys c) (cm_threshold c) (cm_multisig_address nc)
           unspent True outs r CHECKPOINT_CONSOLIDATION_LIMIT = Inr tx0"
    and "split_kill_change X (cm_multisig_address nc) m outs tx0 = Inr split"
  shows "construct_spend_unsigned_transaction X (validator_weighted_keys c) (cm_threshold c) (cm_multisig_address nc)
           unspent True (case split of None \<Rightarrow> outs | Some outs' \<Rightarrow> outs') r CHECKPOINT_CONSOLIDATION_LIMIT = Inr (unsigned_tx p)"
proof -
  let ?outs = "case split of None \<Rightarrow> outs | Some outs' \<Rightarrow> outs'"
  have "construct_spend_psbt X T (ck_subnet_id m) (validator_weighted_keys c) (cm_threshold c) (cm_multisig_address nc)
      unspent True ?outs r CHECKPOINT_CONSOLIDATION_LIMIT = Inr p"
    using assms
    by (auto simp: to_checkpoint_psbt_def Let_def address_checked_def res_simps split: if_splits option.splits)
  then show ?thesis by (rule construct_spend_psbt_Inr(1))
qed

text \<open>
  C23. A kill checkpoint pays everything out.  It spends every unspent output of the committee; its
  outputs are those asked for with the same scripts, none of them pays the committee, and the only
  values that may grow are those of the unstakes.  What is not paid is a fee of at least the fee of the
  weight it was built for and at most the dust limit more.
\<close>

theorem kill_checkpoint_pays_out:
  assumes "to_checkpoint_psbt X C T seed m c nc r unspent = Inr p" "ck_is_kill_checkpoint m"
    and "checkpoint_tx_outs X C seed r (cm_multisig_address c) m = Inr outs" "weight_of_scripts X"
    and "\<exists>u \<in> set (ck_unstakes m). un_amount u \<noteq> 0"
    and "\<forall>out \<in> set outs. txo_script out \<noteq> address_script X (cm_multisig_address nc)"
  shows "\<exists>fee paid. inputs (unsigned_tx p) = map spend_input (sort_utxos unspent)
     \<and> map txo_script (outputs (unsigned_tx p)) = map txo_script outs
     \<and> take (length outs - length (ck_unstakes m)) (outputs (unsigned_tx p)) = take (length outs - length (ck_unstakes m)) outs
     \<and> fee_wu X r (built_weight X (multisig_spend_max_witness_size X (validator_weighted_keys c) (cm_threshold c))
          (cm_multisig_address nc) outs True (sort_utxos unspent)) = Some fee
     \<and> unat fee \<le> paid \<and> paid \<le> unat fee + unat (minimal_non_dust X (address_script X (cm_multisig_address nc)))
     \<and> utxo_total unspent = (\<Sum>out\<leftarrow>outputs (unsigned_tx p). unat (txo_value out)) + paid"
proof -
  let ?ws = "multisig_spend_max_witness_size X (validator_weighted_keys c) (cm_threshold c)"
  let ?a = "cm_multisig_address nc"
  let ?d = "minimal_non_dust X (address_script X ?a)"
  let ?k = "length outs - length (ck_unstakes m)"
  obtain tx0 split where tx0: "spend_exhaust X ?ws ?a unspent outs r = Inr tx0"
    and split: "split_kill_change X ?a m outs tx0 = Inr split"
    using assms(1-3)
    by (auto simp: to_checkpoint_psbt_def Let_def address_checked_def res_simps construct_spend_unsigned_transaction_def
        split: if_splits)
  then have tx: "spend_exhaust X ?ws ?a unspent (case split of None \<Rightarrow> outs | Some outs' \<Rightarrow> outs') r = Inr (unsigned_tx p)"
    using kill_outputs [OF assms(1-3), of tx0 split] by (simp add: construct_spend_unsigned_transaction_def)
  obtain fee left where fee: "fee_wu X r (built_weight X ?ws ?a outs True (sort_utxos unspent)) = Some fee"
    and sum: "utxo_total unspent = (\<Sum>out\<leftarrow>outs. unat (txo_value out)) + unat fee + unat left"
    and o: "outputs tx0 = outs @ (if ?d < left then [\<lparr> txo_value = left, txo_script = address_script X ?a \<rparr>] else [])"
    using spend_exhaust_change [OF tx0] by blast
  have find: "find (\<lambda>out. txo_script out = address_script X ?a) (outputs tx0)
      = (if ?d < left then Some \<lparr> txo_value = left, txo_script = address_script X ?a \<rparr> else None)"
    using assms(6) unfolding o by (simp add: find_append_none)
  show ?thesis
  proof (cases "?d < left")
    case False
    then have "split = None" using split find by (simp add: split_kill_change_def)
    then have "tx0 = unsigned_tx p" using tx tx0 by simp
    with False fee sum o show ?thesis using spend_exhaust_change [OF tx0]
      by (intro exI [of _ fee] exI [of _ "unat fee + unat left"]) (auto simp: word_less_nat_alt)
  next
    case True
    have pos: "0 < left" using True by (metis word_not_simps(1) word_neq_0_conv)
    obtain outs' where s: "split = Some (take ?k outs @ outs')"
      and outs': "map txo_script outs' = map txo_script (drop ?k outs)"
        "(\<Sum>out\<leftarrow>outs'. unat (txo_value out)) = (\<Sum>out\<leftarrow>drop ?k outs. unat (txo_value out)) + unat left"
      using kill_split [OF split find] True pos assms(2,3,5) by blast
    let ?outs = "take ?k outs @ outs'"
    have scripts: "map txo_script ?outs = map txo_script outs"
      using outs'(1) append_take_drop_id [of ?k outs] by (metis map_append)
    have vals: "(\<Sum>out\<leftarrow>?outs. unat (txo_value out)) = (\<Sum>out\<leftarrow>outs. unat (txo_value out)) + unat left"
    proof -
      have "(\<Sum>out\<leftarrow>outs. unat (txo_value out)) = (\<Sum>out\<leftarrow>take ?k outs. unat (txo_value out)) + (\<Sum>out\<leftarrow>drop ?k outs. unat (txo_value out))"
        by (metis append_take_drop_id map_append sum_list_append)
      then show ?thesis using outs'(2) by simp
    qed
    obtain fee' left' where f': "fee_wu X r (built_weight X ?ws ?a ?outs True (sort_utxos unspent)) = Some fee'"
      "utxo_total unspent = (\<Sum>out\<leftarrow>?outs. unat (txo_value out)) + unat fee' + unat left'"
      "inputs (unsigned_tx p) = map spend_input (sort_utxos unspent)"
      "outputs (unsigned_tx p) = ?outs @ (if ?d < left' then [\<lparr> txo_value = left', txo_script = address_script X ?a \<rparr>] else [])"
      using spend_exhaust_change [of X ?ws ?a unspent ?outs r "unsigned_tx p"] tx s by auto
    have "fee' = fee" using fee f'(1) built_weight_scripts [OF assms(4) scripts] by simp
    then have "unat left' = 0" using f'(2) sum vals by simp
    then have "outputs (unsigned_tx p) = ?outs" "utxo_total unspent = (\<Sum>out\<leftarrow>?outs. unat (txo_value out)) + unat fee"
      using f'(2,4) \<open>fee' = fee\<close> by (simp_all add: word_less_nat_alt)
    with scripts fee f'(3) show ?thesis by (intro exI [of _ fee] exI [of _ "unat fee"]) simp
  qed
qed

section \<open>A concrete kill checkpoint\<close>

lemma bit_length_numeral:
  "bit_length 0 = 0" "bit_length 1 = 1" "bit_length (Suc 0) = 1"
  "bit_length (numeral (num.Bit0 k)) = bit_length (numeral k) + 1"
  "bit_length (numeral (num.Bit1 k)) = bit_length (numeral k) + 1"
  by (subst bit_length.simps; simp)+

lemma demo_share: "f64_share 5102 500 1000 = 2551"
proof -
  have l: "bit_length 500 = 9" "bit_length 1000 = 10" "bit_length 5102 = 13" by (simp_all add: bit_length_numeral)
  have r: "round53 500 = 500" "round53 1000 = 1000" "round53 5102 = 5102" by (simp_all add: l round53_def)
  have q: "round_div_even (500 * 2 ^ 53) 1000 = 2 ^ 52" by (simp add: round_div_even_def)
  have m: "round53 (5102 * 2 ^ 52) = 5102 * 2 ^ 52" by (simp add: round53_def bit_length_numeral round_div_even_def)
  have "f64_share 5102 500 1000 = round53 (round53 5102 * round_div_even (500 * 2 ^ 53) 1000) div 2 ^ 53"
    unfolding f64_share_def l r Let_def by simp
  then show ?thesis unfolding q r m by simp
qed

definition demo_kill_msg :: ipc_checkpoint_subnet_msg where
  "demo_kill_msg = demo_checkpoint_msg\<lparr> ck_is_kill_checkpoint := True,
     ck_unstakes := [\<lparr> un_amount = 500, un_address = ''bcrt1pb1'', un_pubkey = [1] \<rparr>,
                     \<lparr> un_amount = 500, un_address = ''bcrt1pb2'', un_pubkey = [2] \<rparr>] \<rparr>"

definition demo_kill_outs :: "amount \<Rightarrow> tx_out list" where
  "demo_kill_outs v = [\<lparr> txo_value = 330, txo_script = make_op_return_script (tag_bytes CheckpointSubnetTag @ replicate 20 7
       @ replicate 32 2 @ le_bytes 8 30 @ [1, 0, 2] @ le_bytes 8 0 @ [1]) \<rparr>,
     \<lparr> txo_value = 1000, txo_script = address_script demo_ext ''bcrt1pw'' \<rparr>,
     \<lparr> txo_value = v, txo_script = address_script demo_ext ''bcrt1pb1'' \<rparr>,
     \<lparr> txo_value = v, txo_script = address_script demo_ext ''bcrt1pb2'' \<rparr>]"

lemma demo_kill_tx_outs:
  "checkpoint_tx_outs demo_ext demo_codec 0 1000 ''bcrt1p'' demo_kill_msg = Inr (demo_kill_outs 500)"
  using demo_id_txid20
  by (simp add: checkpoint_tx_outs_def demo_kill_msg_def demo_checkpoint_msg_def make_metadata_tx_out_def
      checkpoint_metadata_def expect_txid20_def address_out_def has_batch_def demo_kill_outs_def marker_def
      demo_ext_def Let_def)

lemma demo_kill_spend:
  "construct_spend_unsigned_transaction demo_ext (validator_weighted_keys (demo_committee 0)) 4 ''bcrt1p'' demo_utxos True
     (demo_kill_outs 500) 1000 lim = Inr \<lparr> lock_time = 0, inputs = map spend_input (rev demo_utxos),
       outputs = demo_kill_outs 500 @ [\<lparr> txo_value = 5102, txo_script = address_script demo_ext ''bcrt1p'' \<rparr>] \<rparr>"
  "construct_spend_unsigned_transaction demo_ext (validator_weighted_keys (demo_committee 0)) 4 ''bcrt1p'' demo_utxos True
     (demo_kill_outs 3051) 1000 lim = Inr \<lparr> lock_time = 0, inputs = map spend_input (rev demo_utxos),
       outputs = demo_kill_outs 3051 \<rparr>"
  by (simp_all add: construct_spend_unsigned_transaction_def spend_exhaust_def demo_utxos_def amount_sum_def
        word_checked_add_def word_checked_sub_def expect_fee_def demo_ext_def sort_utxos_def utxo_key_def
        multisig_spend_max_witness_size_def SCHNORR_SIGNATURE_SIZE_def SCHNORR_PUBLIC_KEY_SIZE_def
        TAPROOT_CONTROL_BASE_SIZE_def TAPROOT_CONTROL_NODE_SIZE_def Let_def demo_kill_outs_def
        validator_weighted_keys_def validators_weighted_keys_def demo_committee_def demo_validator_def)

lemma demo_kill_split:
  "split_kill_change demo_ext ''bcrt1p'' demo_kill_msg (demo_kill_outs 500)
     \<lparr> lock_time = 0, inputs = ins, outputs = demo_kill_outs 500 @ [\<lparr> txo_value = 5102, txo_script = address_script demo_ext ''bcrt1p'' \<rparr>] \<rparr>
   = Inr (Some (demo_kill_outs 3051))"
  using demo_share
  by (simp add: split_kill_change_def demo_kill_outs_def demo_kill_msg_def ipc_amount_sum_def word_checked_add_def
      ipc_amount_add_def word_checked_sub_def make_op_return_script_def demo_ext_def ascii_bytes_def)

lemma demo_kill_psbt:
  "\<exists>p. to_checkpoint_psbt demo_ext demo_codec demo_taproot 0 demo_kill_msg (demo_committee 0) (demo_committee 0) 1000 demo_utxos = Inr p"
proof -
  let ?keys = "validator_weighted_keys (demo_committee 0)"
  obtain script info where s: "create_multisig_script ?keys 4 = Inr script"
    "create_subnet_multisig_spend_info demo_id ?keys 4 = Inr info"
    by (simp add: create_multisig_script_def create_subnet_multisig_spend_info_def validator_weighted_keys_def
        validators_weighted_keys_def demo_committee_def demo_validator_def
        create_unspendable_subnet_id_script_def demo_id_def subnet_id_from_txid20_def SUBNET_ID_INNER_LEN_def)
  have "\<exists>ins. res_mapM (spend_psbt_input info script [7] demo_utxos) (map spend_input (rev demo_utxos)) = Inr ins"
    by (intro res_mapM_all) (auto simp: spend_psbt_input_def ok_or_def find_utxo_def demo_utxos_def spend_input_def)
  then obtain p where "construct_spend_psbt demo_ext demo_taproot demo_id ?keys 4 ''bcrt1p'' demo_utxos True
      (demo_kill_outs 3051) 1000 CHECKPOINT_CONSOLIDATION_LIMIT = Inr p"
    using demo_kill_spend(2) s by (auto simp: construct_spend_psbt_def demo_taproot_def ok_or_def spend_input_def)
  moreover have "address_checked demo_ext (demo_committee 0) = Inr ''bcrt1p''" "cm_threshold (demo_committee 0) = 4"
    "cm_multisig_address (demo_committee 0) = ''bcrt1p''" "\<not> has_batch demo_kill_msg"
    "ck_is_kill_checkpoint demo_kill_msg" "ck_subnet_id demo_kill_msg = demo_id"
    by (simp_all add: address_checked_def demo_committee_def demo_ext_def has_batch_def demo_kill_msg_def demo_checkpoint_msg_def)
  ultimately show ?thesis
    using demo_kill_tx_outs demo_kill_spend demo_kill_split
    by (simp add: to_checkpoint_psbt_def committee_eq_def)
qed

theorem kill_checkpoint_pays_out_witness:
  "\<exists>p fee paid. to_checkpoint_psbt demo_ext demo_codec demo_taproot 0 demo_kill_msg (demo_committee 0) (demo_committee 0) 1000 demo_utxos = Inr p
     \<and> inputs (unsigned_tx p) = map spend_input (sort_utxos demo_utxos)
     \<and> map txo_script (outputs (unsigned_tx p)) = map txo_script (demo_kill_outs 500)
     \<and> unat (fee :: amount) \<le> paid \<and> paid \<le> unat fee + 330
     \<and> utxo_total demo_utxos = (\<Sum>out\<leftarrow>outputs (unsigned_tx p). unat (txo_value out)) + paid"
proof -
  have a: "cm_multisig_address (demo_committee 0) = ''bcrt1p''" by (simp add: demo_committee_def)
  obtain p where p: "to_checkpoint_psbt demo_ext demo_codec demo_taproot 0 demo_kill_msg (demo_committee 0) (demo_committee 0)
      1000 demo_utxos = Inr p" using demo_kill_psbt by blast
  have k: "ck_is_kill_checkpoint demo_kill_msg" "\<exists>u \<in> set (ck_unstakes demo_kill_msg). un_amount u \<noteq> 0"
    by (simp_all add: demo_kill_msg_def)
  have w: "weight_of_scripts demo_ext"
    unfolding weight_of_scripts_def demo_ext_def by (auto dest: map_eq_imp_length_eq)
  have f: "\<forall>out \<in> set (demo_kill_outs 500). txo_script out \<noteq> address_script demo_ext (cm_multisig_address (demo_committee 0))"
    by (simp add: demo_kill_outs_def a demo_ext_def make_op_return_script_def ascii_bytes_def)
  have "minimal_non_dust demo_ext (address_script demo_ext ''bcrt1p'') = 330" by (simp add: demo_ext_def)
  with kill_checkpoint_pays_out [OF p k(1) _ w k(2) f] demo_kill_tx_outs p show ?thesis by (auto simp: a)
qed

end
