(* ===== verification/Signing.thy ===== *)
theory Signing
  imports Submission Kill_Payout Boot
begin

text \<open>
  The checkpoints that a validator signs: what the provider checks before it signs, that validators with
  the same view sign the same transaction, which of the signed transactions the monitor can read, and
  which stake withdrawals a rotation pays.
\<close>

section \<open>Outputs of a checkpoint\<close>

lemma address_outs:
  assumes "res_mapM (\<lambda>x. address_out X (f x) (g x)) xs = Inr outs"
  shows "outs = map (\<lambda>x. \<lparr> txo_value = f x, txo_script = address_script X (g x) \<rparr>) xs"
  using assms by (induction xs arbitrary: outs) (auto simp: res_simps address_out_def split: if_splits)

lemma add_subnet_total_keys:
  "add_subnet_total k v a g = Inr g' \<Longrightarrow> map fst g' = (if k \<in> set (map fst g) then map fst g else map fst g @ [k])"
  by (induction k v a g arbitrary: g' rule: add_subnet_total.induct) (force simp: res_simps split: if_splits)+

abbreviation destination_key :: "ipc_cross_subnet_transfer \<Rightarrow> bytes" where
  "destination_key t \<equiv> the (subnet_id_txid20 (xt_destination_subnet_id t))"

lemma subnet_totals:
  "res_fold group_subnet_total [] ts = Inr g \<Longrightarrow> distinct (map fst g) \<and> set (map fst g) = destination_key ` set ts"
proof (induction ts arbitrary: g rule: rev_induct)
  case (snoc t ts)
  then obtain g0 where g: "res_fold group_subnet_total [] ts = Inr g0" "group_subnet_total g0 t = Inr g"
    by (auto simp: res_fold_append res_simps)
  from g(2) obtain k a where k: "subnet_id_txid20 (xt_destination_subnet_id t) = Some k" "add_subnet_total k (xt_amount t) a g0 = Inr g"
    by (auto simp: group_subnet_total_def res_simps expect_txid20_def split: option.splits)
  from snoc.IH [OF g(1)] add_subnet_total_keys [OF k(2)] k(1) show ?case by (auto split: if_splits)
qed simp

lemma subnet_totals_length:
  "res_fold group_subnet_total [] ts = Inr g \<Longrightarrow> length g = card (destination_key ` set ts)"
  using subnet_totals [of ts g] distinct_card [of "map fst g"] by simp

lemma checkpoint_tx_outs_shape:
  assumes "checkpoint_tx_outs X C seed r ca m = Inr outs" "codec_ok C"
  obtains md batch where "make_metadata_tx_out X r m = Inr md"
    "outs = md # map (withdrawal_out X) (ck_withdrawals m) @ batch @ map (unstake_out X) (ck_unstakes m)"
    "\<not> has_batch m \<Longrightarrow> batch = []" "\<forall>out \<in> set batch. \<exists>a. txo_script out = address_script X a"
    "ck_transfers m \<noteq> [] \<Longrightarrow> length batch = 1 + card (destination_key ` set (ck_transfers m))"
proof -
  let ?batch = "\<lambda>batch. if has_batch m
     then res_bind (make_batched_transfer X C seed r ca m) (\<lambda>(commit, rw, rto).
          res_bind (res_fold group_subnet_total [] (ck_transfers m)) (\<lambda>totals.
          res_bind (res_mapM (\<lambda>(k, amt, a). address_out X amt a) (map_order C seed totals)) (\<lambda>transfers.
          Inr (commit # transfers)))) = Inr batch
     else batch = []"
  obtain md ws batch us where o: "make_metadata_tx_out X r m = Inr md" "?batch batch" "outs = md # ws @ batch @ us"
    and w: "res_mapM (\<lambda>w. address_out X (wd_amount w) (wd_address w)) (ck_withdrawals m) = Inr ws"
    and u: "res_mapM (\<lambda>u. address_out X (un_amount u) (un_address u)) (ck_unstakes m) = Inr us"
    using assms(1) by (auto simp: checkpoint_tx_outs_def res_simps split: if_splits)
  have b: "(\<forall>out \<in> set batch. \<exists>a. txo_script out = address_script X a) \<and> length batch = 1 + card (destination_key ` set (ck_transfers m))"
    if hb: "has_batch m"
  proof -
    obtain c rw rto totals ts where b: "make_batched_transfer X C seed r ca m = Inr (c, rw, rto)"
        "res_fold group_subnet_total [] (ck_transfers m) = Inr totals"
        "res_mapM (\<lambda>(k, amt, a). address_out X amt a) (map_order C seed totals) = Inr ts" "batch = c # ts"
      using o(2) hb by (auto simp: res_simps)
    have "mset (map_order C seed totals) = mset totals" using assms(2) unfolding codec_ok_def by blast
    then have "length ts = length totals" using res_mapM_length [OF b(3)] by (metis size_mset)
    moreover have "\<exists>a. txo_script c = address_script X a"
      using b(1) by (auto simp: make_batched_transfer_def Let_def res_simps)
    moreover have "\<exists>a. txo_script x = address_script X a" if "x \<in> set ts" for x
      using res_mapM_mem [OF b(3) that] by (force simp: address_out_def split: if_splits)
    ultimately show ?thesis using b(4) subnet_totals_length [OF b(2)] by auto
  qed
  have nb: "batch = []" if "\<not> has_batch m" using o(2) that by simp
  have t: "has_batch m" if "ck_transfers m \<noteq> []" using that by (simp add: has_batch_def)
  show ?thesis
  proof (rule that [OF o(1) _ nb])
    show "outs = md # map (withdrawal_out X) (ck_withdrawals m) @ batch @ map (unstake_out X) (ck_unstakes m)"
      using o(3) address_outs [OF w] address_outs [OF u] by (simp add: withdrawal_out_def [abs_def] unstake_out_def [abs_def])
    show "\<forall>out \<in> set batch. \<exists>a. txo_script out = address_script X a" using b nb by (cases "has_batch m") auto
    show "length batch = 1 + card (destination_key ` set (ck_transfers m))" if "ck_transfers m \<noteq> []" using b t that by blast
  qed
qed

section \<open>Transfers that are grouped\<close>

text \<open>
  C27. The metadata of a checkpoint counts its transfers, its outputs are one per destination subnet, and
  the reader asks for one output per transfer.  When the transfers exceed the destinations by two or
  more, the transaction has fewer outputs than its metadata announces, whether or not it has change: the
  monitor rejects a checkpoint that the committee signed and the network confirmed.
\<close>

theorem grouped_transfers_are_unreadable:
  assumes "ext_ok X" "codec_ok C" "checkpoint_tx_outs X C seed r ca m = Inr outs"
    and "outputs tx = outs @ change" "length change \<le> 1"
    and "native_id (ck_subnet_id m)" "length (ck_checkpoint_hash m) = 32"
    and "length (ck_withdrawals m) \<le> 255" "length (ck_transfers m) \<le> 255" "length (ck_unstakes m) \<le> 255"
    and "card (xt_destination_subnet_id ` set (ck_transfers m)) + 1 < length (ck_transfers m)"
  shows "from_checkpoint_tx X db tx = Inl (parse_err CheckpointSubnetTag ''Not enough outputs'')"
proof -
  let ?W = "ck_withdrawals m" and ?U = "ck_unstakes m" and ?T = "ck_transfers m"
  obtain md batch where o: "make_metadata_tx_out X r m = Inr md"
    "outs = md # map (withdrawal_out X) ?W @ batch @ map (unstake_out X) ?U"
    and b: "?T \<noteq> [] \<Longrightarrow> length batch = 1 + card (destination_key ` set ?T)"
    using checkpoint_tx_outs_shape [OF assms(3,2)] by metis
  have "card (destination_key ` set ?T) \<le> card (xt_destination_subnet_id ` set ?T)"
    using card_image_le [of "xt_destination_subnet_id ` set ?T" "\<lambda>d. the (subnet_id_txid20 d)"] by (simp add: image_image)
  with b have b: "?T \<noteq> [] \<Longrightarrow> length batch \<le> 1 + card (xt_destination_subnet_id ` set ?T)" by simp
  have tx: "outputs tx = md # map (withdrawal_out X) ?W @ batch @ map (unstake_out X) ?U @ change"
    using o(2) assms(4) by simp
  obtain t where t: "length t = 20"
    and pay: "message_payload X CheckpointSubnetTag 1 CHECKPOINT_DATA_LEN tx = Inr (t @ ck_checkpoint_hash m
       @ le_bytes 8 (unat (ck_checkpoint_height m)) @ [marker ?W, marker ?T, marker ?U]
       @ le_bytes 8 (unat (ck_next_committee_configuration_number m)) @ [if ck_is_kill_checkpoint m then 1 else 0])"
    using metadata_payload [OF assms(1,6,7) o(1) tx] by metis
  define d where "d = t @ ck_checkpoint_hash m @ le_bytes 8 (unat (ck_checkpoint_height m))
       @ [marker ?W, marker ?T, marker ?U]
       @ le_bytes 8 (unat (ck_next_committee_configuration_number m)) @ [if ck_is_kill_checkpoint m then 1 else 0]"
  note F = checkpoint_fields [OF t(1) assms(7) d_def]
  have cnt: "unat (d ! 60) = length ?W" "unat (d ! 61) = length ?T" "unat (d ! 62) = length ?U"
    using F assms(8-10) by (simp_all add: unat_marker)
  have T: "?T \<noteq> []" "0 < length ?T" using assms(11) by auto
  then have "length (outputs tx) < 1 + length ?W + length ?U + 1 + length ?T"
    using tx b assms(5,11) by simp
  moreover have "txid20_from_slice (take 20 d) = Inr t" using F(1) t by (simp add: txid20_from_slice_def)
  ultimately show ?thesis
    using pay [folded d_def] cnt T by (simp add: from_checkpoint_tx_def Let_def)
qed

section \<open>Generating a checkpoint\<close>

lemma update_subnets_Inr:
  assumes "update_subnets_for_transfer X db m = Inr m'"
  obtains ts where "m' = m\<lparr> ck_transfers := ts \<rparr>" "map xt_destination_subnet_id ts = map xt_destination_subnet_id (ck_transfers m)"
    "map xt_amount ts = map xt_amount (ck_transfers m)"
proof -
  obtain ts where ts: "list_all2 (\<lambda>t t'. (case get_subnet_state X db (xt_destination_subnet_id t) of
          Some s \<Rightarrow> Inr (t\<lparr> xt_subnet_multisig_address := Some (cm_multisig_address (ss_committee s)) \<rparr>)
        | None \<Rightarrow> Inl (invalid_field ''destination_subnet_id'' ''does not exist'')) = Inr t') (ck_transfers m) ts"
      "m' = m\<lparr> ck_transfers := ts \<rparr>"
    using assms by (auto simp: update_subnets_for_transfer_def res_simps res_mapM_Inr)
  have "map xt_destination_subnet_id ts = map xt_destination_subnet_id (ck_transfers m) \<and> map xt_amount ts = map xt_amount (ck_transfers m)"
    using ts(1) by (induction rule: list_all2_induct) (auto split: option.splits)
  with ts(2) that show ?thesis by blast
qed

lemma gen_checkpoint_Inr:
  assumes "gen_checkpoint_psbt X C T seeds W sd m0 = Inr r"
  obtains xpk sk s m1 us nc m where "sd_validator sd = Some (xpk, sk)" "checkpoint_validate X m0 = Inr ()"
    "ck_change_address m0 = None" "ck_unstakes m0 = []" "get_subnet_state X (sd_db sd) (ck_subnet_id m0) = Some s"
    "state_is_validator s xpk" "\<not> is_killed s" "update_subnets_for_transfer X (sd_db sd) m0 = Inr m1"
    "nd_unspent W (cm_multisig_address (ss_committee s)) = Inr us"
    "prepare_checkpoint X sd s (sort_utxos us) m1 = Inr (nc, m)"
    "\<exists>v. validate_erc_batch_data X (ck_subnet_id m) (ck_token_registrations m)
                (ck_token_supply_adjustments m) (ck_token_transfers m) (sd_db sd) = Inr v"
    "to_checkpoint_psbt X C T (fst seeds) m (ss_committee s) nc (get_fee_rate W) (sort_utxos us) = Inr (sr_unsigned_psbt (cr_spend r))"
  using assms
  by (auto simp: gen_checkpoint_psbt_def checkpoint_guards_def require_validator_def require_subnet_def checked_address_def
      address_checked_def rpc_unspent_def get_unspent_for_address_def generate_checkpoint_def rpc_sign_def res_simps
      split: if_splits)

lemma prepare_checkpoint_Inr:
  assumes "prepare_checkpoint X sd s us m1 = Inr (nc, m)"
  shows "if should_kill s then nc = ss_committee s \<and> m = m1\<lparr> ck_is_kill_checkpoint := True, ck_unstakes := kill_unstakes (ss_committee s) \<rparr>
     else if cm_configuration_number (ss_committee s) < ck_next_committee_configuration_number m1
     then (\<exists>sc. get_stake_change X (sd_db sd) (ck_subnet_id m1) (ck_next_committee_configuration_number m1) = Some sc
             \<and> nc = sc_committee_after_change sc)
          \<and> m = m1\<lparr> ck_unstakes := rotation_unstakes X (sd_db sd) (ck_subnet_id m1) (ss_committee s) \<rparr>
     else nc = ss_committee s \<and> m = m1"
  using assms
  by (auto simp: prepare_checkpoint_def Let_def kill_checkpoint_msg_def requested_committee_def res_simps split: if_splits)

lemma split_kill_scripts:
  assumes "split_kill_change X a m outs tx = Inr (Some outs')" "length (ck_unstakes m) \<le> length outs"
  shows "ck_is_kill_checkpoint m \<and> map txo_script outs' = map txo_script outs"
proof -
  let ?k = "length outs - length (ck_unstakes m)"
  obtain c t paid where o: "split_change c t 0 (ck_unstakes m) (drop ?k outs) = Inr paid" "outs' = take ?k outs @ paid"
      "ck_unstakes m \<noteq> []" "ck_is_kill_checkpoint m"
    using assms(1) by (auto simp: split_kill_change_def Let_def res_simps split: if_splits)
  have "map txo_script paid = map txo_script (drop ?k outs)"
    using split_change_Inr [OF o(1) _ o(3)] assms(2) by simp
  with o(2,4) show ?thesis by (metis append_take_drop_id map_append)
qed

lemma to_checkpoint_psbt_spend:
  assumes "to_checkpoint_psbt X C T seed m c nc r unspent = Inr p"
  obtains outs outs' where "checkpoint_tx_outs X C seed r (cm_multisig_address c) m = Inr outs"
    "map txo_script outs' = map txo_script outs" "\<not> ck_is_kill_checkpoint m \<longrightarrow> outs' = outs"
    "construct_spend_unsigned_transaction X (validator_weighted_keys c) (cm_threshold c) (cm_multisig_address nc) unspent
       (\<not> committee_eq c nc \<or> ck_is_kill_checkpoint m) outs' r CHECKPOINT_CONSOLIDATION_LIMIT = Inr (unsigned_tx p)"
proof -
  let ?ex = "\<not> committee_eq c nc \<or> ck_is_kill_checkpoint m"
  let ?construct = "\<lambda>outs. construct_spend_unsigned_transaction X (validator_weighted_keys c) (cm_threshold c)
       (cm_multisig_address nc) unspent ?ex outs r CHECKPOINT_CONSOLIDATION_LIMIT"
  let ?spend = "\<lambda>outs. construct_spend_psbt X T (ck_subnet_id m) (validator_weighted_keys c) (cm_threshold c)
       (cm_multisig_address nc) unspent ?ex outs r CHECKPOINT_CONSOLIDATION_LIMIT"
  obtain outs tx0 split where o: "checkpoint_tx_outs X C seed r (cm_multisig_address c) m = Inr outs"
      "split_kill_change X (cm_multisig_address nc) m outs tx0 = Inr split"
    and f: "\<exists>outs'. (case split of None \<Rightarrow> Inr outs
        | Some outs \<Rightarrow> res_bind (res_map_err ipc_from_multisig (?construct outs)) (\<lambda>_. Inr outs)) = Inr outs' \<and> ?spend outs' = Inr p"
    using assms unfolding to_checkpoint_psbt_def Let_def by (auto simp: address_checked_def res_simps split: if_splits)
  then obtain outs' where o': "case split of None \<Rightarrow> outs' = outs | Some pd \<Rightarrow> outs' = pd" "?construct outs' = Inr (unsigned_tx p)"
    using construct_spend_psbt_Inr(1) by (cases split) (auto simp: res_simps)
  have s: "ck_is_kill_checkpoint m \<and> map txo_script outs' = map txo_script outs" if "split = Some outs'" for outs'
    using split_kill_scripts o(2) checkpoint_tx_outs_unstakes [OF o(1)] that by blast
  show ?thesis
    by (rule that [OF o(1) _ _ o'(2)]) (use s o'(1) in \<open>auto split: option.splits\<close>)
qed

text \<open>
  C24. What a validator has checked when it signs a checkpoint: it is configured and a member of the
  committee of a subnet that is not killed; the message is valid, sets neither unstakes nor a change
  address, and its token records pass the ledger.  The transaction spends outputs of the committee only,
  each once; it pays the outputs that the message asks for, with the unstakes that the database has (of
  all validators when the subnet is to be killed), and the change goes to the committee that the
  requested stake change leads to or to the same one; nothing is created.
\<close>

theorem signed_checkpoint_is_guarded:
  assumes "gen_checkpoint_psbt X C T seeds W sd m0 = Inr r"
  shows "\<exists>xpk sk s us nc m outs outs' spent change paid.
     sd_validator sd = Some (xpk, sk) \<and> get_subnet_state X (sd_db sd) (ck_subnet_id m0) = Some s
   \<and> state_is_validator s xpk \<and> \<not> is_killed s
   \<and> checkpoint_validate X m0 = Inr () \<and> ck_change_address m0 = None \<and> ck_unstakes m0 = []
   \<and> (\<exists>v. validate_erc_batch_data X (ck_subnet_id m0) (ck_token_registrations m0)
          (ck_token_supply_adjustments m0) (ck_token_transfers m0) (sd_db sd) = Inr v)
   \<and> (nc = ss_committee s \<or> (\<exists>sc. get_stake_change X (sd_db sd) (ck_subnet_id m0) (ck_next_committee_configuration_number m0) = Some sc
          \<and> nc = sc_committee_after_change sc))
   \<and> ck_withdrawals m = ck_withdrawals m0 \<and> map xt_amount (ck_transfers m) = map xt_amount (ck_transfers m0)
   \<and> ck_unstakes m = (if should_kill s then kill_unstakes (ss_committee s)
        else if cm_configuration_number (ss_committee s) < ck_next_committee_configuration_number m0
        then rotation_unstakes X (sd_db sd) (ck_subnet_id m0) (ss_committee s) else [])
   \<and> checkpoint_tx_outs X C (fst seeds) (get_fee_rate W) (cm_multisig_address (ss_committee s)) m = Inr outs
   \<and> nd_unspent W (cm_multisig_address (ss_committee s)) = Inr us \<and> mset spent \<subseteq># mset us
   \<and> inputs (unsigned_tx (sr_unsigned_psbt (cr_spend r))) = map spend_input spent
   \<and> outputs (unsigned_tx (sr_unsigned_psbt (cr_spend r))) = outs' @ change
   \<and> map txo_script outs' = map txo_script outs \<and> (\<not> ck_is_kill_checkpoint m \<longrightarrow> outs' = outs)
   \<and> length change \<le> 1 \<and> (\<forall>c \<in> set change. txo_script c = address_script X (cm_multisig_address nc))
   \<and> utxo_total spent = (\<Sum>out\<leftarrow>outs' @ change. unat (txo_value out)) + paid"
proof -
  obtain xpk sk s m1 us nc m where g: "sd_validator sd = Some (xpk, sk)" "checkpoint_validate X m0 = Inr ()"
    "ck_change_address m0 = None" "ck_unstakes m0 = []" "get_subnet_state X (sd_db sd) (ck_subnet_id m0) = Some s"
    "state_is_validator s xpk" "\<not> is_killed s" "update_subnets_for_transfer X (sd_db sd) m0 = Inr m1"
    "nd_unspent W (cm_multisig_address (ss_committee s)) = Inr us"
    "prepare_checkpoint X sd s (sort_utxos us) m1 = Inr (nc, m)"
    "\<exists>v. validate_erc_batch_data X (ck_subnet_id m) (ck_token_registrations m)
                (ck_token_supply_adjustments m) (ck_token_transfers m) (sd_db sd) = Inr v"
    "to_checkpoint_psbt X C T (fst seeds) m (ss_committee s) nc (get_fee_rate W) (sort_utxos us) = Inr (sr_unsigned_psbt (cr_spend r))"
    using assms by (rule gen_checkpoint_Inr)
  obtain ts where ts: "m1 = m0\<lparr> ck_transfers := ts \<rparr>" "map xt_amount ts = map xt_amount (ck_transfers m0)"
    using g(8) by (rule update_subnets_Inr)
  note P = prepare_checkpoint_Inr [OF g(10)]
  obtain outs outs' where o: "checkpoint_tx_outs X C (fst seeds) (get_fee_rate W) (cm_multisig_address (ss_committee s)) m = Inr outs"
    "map txo_script outs' = map txo_script outs" "\<not> ck_is_kill_checkpoint m \<longrightarrow> outs' = outs"
    "construct_spend_unsigned_transaction X (validator_weighted_keys (ss_committee s)) (cm_threshold (ss_committee s))
       (cm_multisig_address nc) (sort_utxos us) (\<not> committee_eq (ss_committee s) nc \<or> ck_is_kill_checkpoint m) outs'
       (get_fee_rate W) CHECKPOINT_CONSOLIDATION_LIMIT = Inr (unsigned_tx (sr_unsigned_psbt (cr_spend r)))"
    using g(12) by (rule to_checkpoint_psbt_spend)
  obtain spent change paid where c: "mset spent \<subseteq># mset us"
      "inputs (unsigned_tx (sr_unsigned_psbt (cr_spend r))) = map spend_input spent"
      "outputs (unsigned_tx (sr_unsigned_psbt (cr_spend r))) = outs' @ change" "length change \<le> 1"
      "\<forall>c \<in> set change. txo_script c = address_script X (cm_multisig_address nc)"
      "utxo_total spent = (\<Sum>out\<leftarrow>outs' @ change. unat (txo_value out)) + paid"
    using construct_spend_Inr [OF o(4)] by (metis mset_sort_utxos)
  have m: "ck_unstakes m = (if should_kill s then kill_unstakes (ss_committee s)
        else if cm_configuration_number (ss_committee s) < ck_next_committee_configuration_number m0
        then rotation_unstakes X (sd_db sd) (ck_subnet_id m0) (ss_committee s) else [])"
      "ck_withdrawals m = ck_withdrawals m0" "map xt_amount (ck_transfers m) = map xt_amount (ck_transfers m0)"
      "ck_subnet_id m = ck_subnet_id m0" "ck_token_registrations m = ck_token_registrations m0"
      "ck_token_supply_adjustments m = ck_token_supply_adjustments m0" "ck_token_transfers m = ck_token_transfers m0"
    using P ts g(4) by (auto split: if_splits)
  have nc: "nc = ss_committee s \<or> (\<exists>sc. get_stake_change X (sd_db sd) (ck_subnet_id m0) (ck_next_committee_configuration_number m0) = Some sc
          \<and> nc = sc_committee_after_change sc)"
    using P ts(1) by (auto split: if_splits)
  show ?thesis
    by (rule exI [of _ xpk], rule exI [of _ sk], rule exI [of _ s], rule exI [of _ us], rule exI [of _ nc], rule exI [of _ m],
        rule exI [of _ outs], rule exI [of _ outs'], rule exI [of _ spent], rule exI [of _ change], rule exI [of _ paid])
      (use g(1-7,9,11) o(1-3) c m nc in simp)
qed

section \<open>From the provider to the monitor\<close>

lemma map_filter_mem: "y \<in> set (List.map_filter f xs) \<longleftrightarrow> (\<exists>x \<in> set xs. f x = Some y)"
  by (force simp: List.map_filter_def)

lemma find_mem: "find P xs = Some x \<Longrightarrow> x \<in> set xs \<and> P x"
  by (induction xs) (auto split: if_splits)

lemma rotation_unstakes_mem:
  "u \<in> set (rotation_unstakes X db sid c) \<longleftrightarrow>
     (\<exists>sc \<in> set (get_unconfirmed_stake_changes X db sid). \<exists>v amt. find (\<lambda>v. v_pubkey v = sc_validator_xpk sc) (cm_validators c) = Some v
        \<and> sc_change sc = Withdraw amt
        \<and> u = \<lparr> un_amount = amt, un_address = v_backup_address v, un_pubkey = sc_validator_xpk sc \<rparr>)"
proof -
  have "withdrawn_unstake c sc = Some u \<longleftrightarrow>
     (\<exists>v amt. find (\<lambda>v. v_pubkey v = sc_validator_xpk sc) (cm_validators c) = Some v \<and> sc_change sc = Withdraw amt
        \<and> u = \<lparr> un_amount = amt, un_address = v_backup_address v, un_pubkey = sc_validator_xpk sc \<rparr>)" for sc
    by (cases "find (\<lambda>v. v_pubkey v = sc_validator_xpk sc) (cm_validators c)"; cases "sc_change sc")
      (auto simp: withdrawn_unstake_def)
  then show ?thesis unfolding rotation_unstakes_def map_filter_mem by simp
qed

lemma find_distinct:
  "distinct (map f xs) \<Longrightarrow> x \<in> set xs \<Longrightarrow> find (\<lambda>y. f y = f x) xs = Some x"
  by (induction xs) (auto simp: image_iff)

lemma destination_keys_distinct:
  assumes "distinct (map xt_destination_subnet_id ts)" "\<forall>t \<in> set ts. native_id (xt_destination_subnet_id t)"
  shows "card (destination_key ` set ts) = length ts"
proof -
  have inv: "subnet_id_from_txid20 (destination_key t) = xt_destination_subnet_id t" if "t \<in> set ts" for t
    using native_txid20 [of "xt_destination_subnet_id t"] assms(2) that by auto
  have "inj_on destination_key (set ts)"
    using inv assms(1) unfolding distinct_map inj_on_def by metis
  moreover have "distinct ts" using assms(1) by (simp add: distinct_map)
  ultimately show ?thesis by (simp add: card_image distinct_card)
qed

text \<open>
  C25. When the subnet is not to be killed, a checkpoint that the provider signs is read by the monitor as
  the same subnet, hash, height, next configuration number and withdrawals, with the unstakes that the
  provider filled in; the transfers and the token data are not in the message that is read (they come
  with the batch).  This needs native subnet identifiers, at most 255 transfers and unstakes, that each
  transfer has its own destination subnet, that the validators have different backup addresses, and that a
  checkpoint with a batch has no unstakes.
\<close>

theorem signed_checkpoint_is_read_back:
  assumes "ext_ok X" "codec_ok C" "gen_checkpoint_psbt X C T seeds W sd m0 = Inr r"
    and "get_subnet_state X (sd_db sd) (ck_subnet_id m0) = Some s" "\<not> should_kill s" "\<not> ck_is_kill_checkpoint m0"
    and "native_id (ck_subnet_id m0)" "length (ck_checkpoint_hash m0) = 32" "length (ck_transfers m0) \<le> 255"
    and "us = (if cm_configuration_number (ss_committee s) < ck_next_committee_configuration_number m0
         then rotation_unstakes X (sd_db sd) (ck_subnet_id m0) (ss_committee s) else [])"
    and "length us \<le> 255" "has_batch m0 \<longrightarrow> us = []"
    and "distinct (map xt_destination_subnet_id (ck_transfers m0))"
    and "\<forall>t \<in> set (ck_transfers m0). native_id (xt_destination_subnet_id t)"
    and "distinct (map v_backup_address (cm_validators (ss_committee s)))"
  shows "\<exists>ca. from_checkpoint_tx X (sd_db sd) (unsigned_tx (sr_unsigned_psbt (cr_spend r)))
     = Inr (m0\<lparr> ck_unstakes := us, ck_transfers := [], ck_token_registrations := [],
            ck_token_supply_adjustments := [], ck_token_transfers := [], ck_change_address := ca \<rparr>)"
proof -
  let ?tx = "unsigned_tx (sr_unsigned_psbt (cr_spend r))"
  obtain m1 uts nc m where g: "checkpoint_validate X m0 = Inr ()" "ck_unstakes m0 = []"
    "update_subnets_for_transfer X (sd_db sd) m0 = Inr m1" "prepare_checkpoint X sd s (sort_utxos uts) m1 = Inr (nc, m)"
    "to_checkpoint_psbt X C T (fst seeds) m (ss_committee s) nc (get_fee_rate W) (sort_utxos uts) = Inr (sr_unsigned_psbt (cr_spend r))"
    using gen_checkpoint_Inr [OF assms(3)] assms(4) by (metis option.inject)
  obtain ts where ts: "m1 = m0\<lparr> ck_transfers := ts \<rparr>" "map xt_destination_subnet_id ts = map xt_destination_subnet_id (ck_transfers m0)"
    using g(3) by (rule update_subnets_Inr)
  have m: "m = m0\<lparr> ck_transfers := ts, ck_unstakes := us \<rparr>"
    using prepare_checkpoint_Inr [OF g(4)] assms(5,10) ts(1) g(2) by (cases m0) (auto split: if_splits)
  obtain outs outs' where o: "checkpoint_tx_outs X C (fst seeds) (get_fee_rate W) (cm_multisig_address (ss_committee s)) m = Inr outs"
    "\<not> ck_is_kill_checkpoint m \<longrightarrow> outs' = outs"
    "construct_spend_unsigned_transaction X (validator_weighted_keys (ss_committee s)) (cm_threshold (ss_committee s))
       (cm_multisig_address nc) (sort_utxos uts) (\<not> committee_eq (ss_committee s) nc \<or> ck_is_kill_checkpoint m) outs'
       (get_fee_rate W) CHECKPOINT_CONSOLIDATION_LIMIT = Inr ?tx"
    using g(5) by (rule to_checkpoint_psbt_spend)
  obtain change where c: "outputs ?tx = outs @ change" "\<forall>c \<in> set change. txo_script c = address_script X (cm_multisig_address nc)"
    using construct_spend_Inr [OF o(3)] o(2) m assms(6) by auto
  obtain md batch where b: "make_metadata_tx_out X (get_fee_rate W) m = Inr md"
    "outs = md # map (withdrawal_out X) (ck_withdrawals m) @ batch @ map (unstake_out X) (ck_unstakes m)"
    "\<not> has_batch m \<Longrightarrow> batch = []" "\<forall>out \<in> set batch. \<exists>a. txo_script out = address_script X a"
    "ck_transfers m \<noteq> [] \<Longrightarrow> length batch = 1 + card (destination_key ` set (ck_transfers m))"
    using checkpoint_tx_outs_shape [OF o(1) assms(2)] by metis
  have len: "length ts = length (ck_transfers m0)" using ts(2) by (rule map_eq_imp_length_eq)
  have hb: "has_batch m \<longleftrightarrow> has_batch m0" using m len by (auto simp: has_batch_def)
  have card: "card (destination_key ` set ts) = length ts"
  proof (rule destination_keys_distinct)
    show "distinct (map xt_destination_subnet_id ts)" using ts(2) assms(13) by simp
    have "xt_destination_subnet_id t \<in> set (map xt_destination_subnet_id (ck_transfers m0))" if "t \<in> set ts" for t
      using that ts(2) by (metis imageI list.set_map)
    then show "\<forall>t \<in> set ts. native_id (xt_destination_subnet_id t)" using assms(14) by fastforce
  qed
  have "length (ck_withdrawals m0) \<le> 255" using g(1) by (auto simp: checkpoint_validate_def res_simps split: if_splits)
  moreover have "outputs ?tx = md # map (withdrawal_out X) (ck_withdrawals m) @ map (unstake_out X) (ck_unstakes m) @ batch @ change"
    using b(2,3) c(1) m hb assms(12) by auto
  moreover have "(if ck_transfers m = [] then 0 else 1 + length (ck_transfers m)) \<le> length (batch @ change)"
    using b(5) card m by auto
  moreover have "\<forall>out \<in> set (batch @ change). \<exists>a. txo_script out = address_script X a" using b(4) c(2) by auto
  moreover have "\<forall>u \<in> set us. \<exists>v. find (\<lambda>v. v_backup_address v = un_address u) (cm_validators (ss_committee s)) = Some v \<and> v_pubkey v = un_pubkey u"
  proof
    fix u assume mem: "u \<in> set us"
    obtain v where "v \<in> set (cm_validators (ss_committee s))" "un_address u = v_backup_address v" "un_pubkey u = v_pubkey v"
      using mem assms(10) by (auto simp: rotation_unstakes_mem split: if_splits dest!: find_mem)
    with find_distinct [OF assms(15) this(1)]
    show "\<exists>v. find (\<lambda>v. v_backup_address v = un_address u) (cm_validators (ss_committee s)) = Some v \<and> v_pubkey v = un_pubkey u"
      by simp
  qed
  ultimately have "\<exists>ca. from_checkpoint_tx X (sd_db sd) ?tx = Inr (m\<lparr> ck_transfers := [], ck_token_registrations := [],
           ck_token_supply_adjustments := [], ck_token_transfers := [], ck_change_address := ca \<rparr>)"
    using m len assms(4,7-9,11)
    by (intro checkpoint_layout_back [OF assms(1) _ _ _ _ _ b(1), where rest = "batch @ change"]) simp_all
  then show ?thesis unfolding m by simp
qed

section \<open>Withdrawals paid by a rotation\<close>

lemma checkpoint_keeps_later_change:
  assumes "ext_ok X" "db_inv X db" "checkpoint_room X (ck_subnet_id m) db" "checkpoint_save_to_db X db h bh tid m = Inr (db', cp)"
    and "get_stake_change X db (ck_subnet_id m) k = Some sc" "sc_checkpoint_block_height sc = None"
    and "ck_next_committee_configuration_number m < k"
  shows "sc \<in> set (get_unconfirmed_stake_changes X db' (ck_subnet_id m))"
proof -
  let ?sid = "ck_subnet_id m"
  obtain s c where c: "get_subnet_state X db ?sid = Some s" "case c of
        None \<Rightarrow> db' = save_checkpoint X ?sid cp (cp_checkpoint_number cp)
            (save_subnet_state X ?sid (checkpoint_state s c (cp_checkpoint_number cp) h m) db)
      | Some c' \<Rightarrow> (\<exists>l conf. confirm_stake_changes X db ?sid (ck_next_committee_configuration_number m) h bh
          (save_committee X ?sid (ss_committee_number s + 1) (sc_committee_after_change c')
            (save_checkpoint X ?sid cp (cp_checkpoint_number cp)
              (save_subnet_state X ?sid (checkpoint_state s c (cp_checkpoint_number cp) h m) db)))
          = (db', l, conf))"
    using assms(4) by (rule checkpoint_save_Inr)
  have nat: "native_id ?sid" using db_inv_state [OF assms(1,2) c(1)] by (simp add: state_ok_def)
  obtain n where stake: "dense_stake X ?sid n db" "stake_keyed X ?sid db"
    using assms(2) nat unfolding db_inv_def stake_inv_def by blast
  have k: "sc_configuration_number sc = k" using stake(2) assms(5) unfolding stake_keyed_def by blast
  have "get_stake_change X db' ?sid k = Some sc"
  proof (cases c)
    case None
    with c(2) assms(5) show ?thesis by (simp add: save_defs get_defs)
  next
    case (Some c')
    with c(2) obtain txn l conf where "confirm_stake_changes X db ?sid (ck_next_committee_configuration_number m) h bh txn = (db', l, conf)"
        "stake_changes_db txn = stake_changes_db db"
      by (auto simp: save_defs)
    from confirm_stake_changes_spec(2) [OF assms(1) nat stake this(2,1), of k] assms(5,7) k
    show ?thesis by (auto simp: to_confirm_def)
  qed
  moreover have "db_inv X db'" using checkpoint_h.keeps [OF assms(1-3), of h bh tid db'] assms(4) by (auto simp: res_db_Inr)
  then obtain n' where "dense_stake X ?sid n' db'" "stake_keyed X ?sid db'"
    using nat unfolding db_inv_def stake_inv_def by blast
  ultimately show ?thesis
    using stake_changes_mem(1) [OF assms(1) nat, of _ db' sc] k assms(6) by (simp add: get_unconfirmed_stake_changes_def)
qed

text \<open>
  C28. A rotation to one configuration pays withdrawals that belong to later ones.  The provider pays every
  unconfirmed withdrawal of a current validator, also when its configuration number is above the one that
  the checkpoint rotates to; saving the checkpoint confirms stake changes up to that number only, so the
  withdrawal is still unconfirmed and is paid once more by the next rotation of a committee that has the
  validator.
\<close>

theorem rotation_pays_later_withdrawals:
  assumes "ext_ok X" "codec_ok C" "db_inv X (sd_db sd)" "gen_checkpoint_psbt X C T seeds W sd m0 = Inr r"
    and "get_subnet_state X (sd_db sd) (ck_subnet_id m0) = Some s" "\<not> should_kill s" "\<not> ck_is_kill_checkpoint m0"
    and "cm_configuration_number (ss_committee s) < ck_next_committee_configuration_number m0"
    and "get_stake_change X (sd_db sd) (ck_subnet_id m0) k = Some sc" "ck_next_committee_configuration_number m0 < k"
    and "sc_checkpoint_block_height sc = None" "sc_change sc = Withdraw amt"
    and "v \<in> set (cm_validators (ss_committee s))" "v_pubkey v = sc_validator_xpk sc"
    and "checkpoint_room X (ck_subnet_id m0) (sd_db sd)" "checkpoint_save_to_db X (sd_db sd) h bh tid m = Inr (db', cp)"
    and "ck_subnet_id m = ck_subnet_id m0"
    and "ck_next_committee_configuration_number m = ck_next_committee_configuration_number m0"
  shows "\<lparr> txo_value = amt, txo_script = address_script X (v_backup_address v) \<rparr>
           \<in> set (outputs (unsigned_tx (sr_unsigned_psbt (cr_spend r))))
       \<and> (\<forall>c w. find (\<lambda>w. v_pubkey w = sc_validator_xpk sc) (cm_validators c) = Some w \<longrightarrow>
            \<lparr> un_amount = amt, un_address = v_backup_address w, un_pubkey = v_pubkey v \<rparr>
              \<in> set (rotation_unstakes X db' (ck_subnet_id m0) c))"
proof -
  let ?tx = "unsigned_tx (sr_unsigned_psbt (cr_spend r))" and ?sid = "ck_subnet_id m0"
  obtain m1 uts nc m' where g: "update_subnets_for_transfer X (sd_db sd) m0 = Inr m1"
    "prepare_checkpoint X sd s (sort_utxos uts) m1 = Inr (nc, m')"
    "to_checkpoint_psbt X C T (fst seeds) m' (ss_committee s) nc (get_fee_rate W) (sort_utxos uts) = Inr (sr_unsigned_psbt (cr_spend r))"
    using gen_checkpoint_Inr [OF assms(4)] assms(5) by (metis option.inject)
  obtain ts where ts: "m1 = m0\<lparr> ck_transfers := ts \<rparr>" using g(1) by (rule update_subnets_Inr)
  have m': "ck_unstakes m' = rotation_unstakes X (sd_db sd) ?sid (ss_committee s)" "\<not> ck_is_kill_checkpoint m'"
    using prepare_checkpoint_Inr [OF g(2)] assms(6-8) ts by auto
  have ok: "state_ok X (sd_db sd) s" "ss_id s = ?sid" using db_inv_state [OF assms(1,3,5)] by simp_all
  have "distinct (map v_pubkey (cm_validators (ss_committee s)))"
    using ok unfolding state_ok_def committees_wf_def wf_committee_def committee_keys_def by blast
  then have find: "find (\<lambda>w. v_pubkey w = sc_validator_xpk sc) (cm_validators (ss_committee s)) = Some v"
    using find_distinct [of v_pubkey, OF _ assms(13)] assms(14) by simp
  have "sc \<in> set (get_unconfirmed_stake_changes X (sd_db sd) ?sid)"
  proof -
    have "native_id ?sid" using ok by (simp add: state_ok_def)
    moreover from this obtain n where "dense_stake X ?sid n (sd_db sd)" and keyed: "stake_keyed X ?sid (sd_db sd)"
      using assms(3) unfolding db_inv_def stake_inv_def by blast
    moreover have "sc_configuration_number sc = k" using keyed assms(9) unfolding stake_keyed_def by blast
    ultimately show ?thesis
      using stake_changes_mem(1) [OF assms(1), of ?sid _ "sd_db sd" sc] assms(9,11) by (simp add: get_unconfirmed_stake_changes_def)
  qed
  with find assms(12) have "\<lparr> un_amount = amt, un_address = v_backup_address v, un_pubkey = sc_validator_xpk sc \<rparr> \<in> set (ck_unstakes m')"
    unfolding m'(1) rotation_unstakes_mem by auto
  moreover obtain outs change where "checkpoint_tx_outs X C (fst seeds) (get_fee_rate W) (cm_multisig_address (ss_committee s)) m' = Inr outs"
      "outputs ?tx = outs @ change"
    using to_checkpoint_psbt_spend [OF g(3)] m'(2) construct_spend_Inr by metis
  moreover from this(1) obtain md batch where "outs = md # map (withdrawal_out X) (ck_withdrawals m') @ batch @ map (unstake_out X) (ck_unstakes m')"
    using checkpoint_tx_outs_shape [OF _ assms(2)] by metis
  ultimately have "unstake_out X \<lparr> un_amount = amt, un_address = v_backup_address v, un_pubkey = sc_validator_xpk sc \<rparr> \<in> set (outputs ?tx)"
    by auto
  moreover have "sc \<in> set (get_unconfirmed_stake_changes X db' ?sid)"
    using checkpoint_keeps_later_change [OF assms(1,3) _ assms(16), of k sc] assms(9-11,15,17,18) by simp
  ultimately show ?thesis
    using assms(12,14) by (auto simp: unstake_out_def rotation_unstakes_mem)
qed

section \<open>Agreement of the signers\<close>

text \<open>
  A hash map with at most one entry has one order of iteration, so that the bytes written for it do not
  depend on the random state of the map.
\<close>

definition order_free :: "codec \<Rightarrow> bool" where
  "order_free C \<longleftrightarrow> (\<forall>seed seed' w. length (bw_transfers w) \<le> 1 \<longrightarrow> length (bw_token_transfers w) \<le> 1 \<longrightarrow>
     ser_wire C seed w = ser_wire C seed' w)"

definition one_destination :: "ipc_checkpoint_subnet_msg \<Rightarrow> bool" where
  "one_destination m \<longleftrightarrow> card (set (map xt_destination_subnet_id (ck_transfers m))) \<le> 1
     \<and> card (set (map et_destination_subnet_id (ck_token_transfers m))) \<le> 1"

lemma grouped_length:
  assumes "distinct (map fst g)" "set (map fst g) = (\<lambda>t. h (d t)) ` set ts" "card (set (map d ts)) \<le> 1"
  shows "length g \<le> 1"
proof -
  have "length g = card (h ` set (map d ts))"
    using distinct_card [OF assms(1)] assms(2) by (simp add: image_image)
  also have "\<dots> \<le> card (set (map d ts))" by (rule card_image_le) simp
  finally show ?thesis using assms(3) by simp
qed

lemma batched_data_seed:
  assumes "order_free C" "one_destination m"
  shows "make_batched_transfer_data C seed m = make_batched_transfer_data C seed' m"
proof (cases "\<exists>ts es. res_fold group_transfer [] (ck_transfers m) = Inr ts \<and> res_fold group_erc [] (ck_token_transfers m) = Inr es")
  case True
  then obtain ts es where g: "res_fold group_transfer [] (ck_transfers m) = Inr ts" "res_fold group_erc [] (ck_token_transfers m) = Inr es"
    by blast
  note T = group_fold [OF group_transfer_push g(1), simplified] and E = group_fold [OF group_erc_push g(2), simplified]
  have "length ts \<le> 1"
    using assms(2) T by (intro grouped_length [where ts = "ck_transfers m" and d = xt_destination_subnet_id
        and h = "\<lambda>d. the (subnet_id_txid20 d)"]) (auto simp: one_destination_def)
  moreover have "length es \<le> 1"
    using assms(2) E by (intro grouped_length [where ts = "ck_token_transfers m" and d = et_destination_subnet_id
        and h = "\<lambda>d. the (subnet_id_txid20 d)"]) (auto simp: one_destination_def)
  ultimately have "ser_wire C seed \<lparr> bw_transfers = ts, bw_token_registrations = ck_token_registrations m,
      bw_token_supply_adjustments = ck_token_supply_adjustments m, bw_token_transfers = es \<rparr>
    = ser_wire C seed' \<lparr> bw_transfers = ts, bw_token_registrations = ck_token_registrations m,
      bw_token_supply_adjustments = ck_token_supply_adjustments m, bw_token_transfers = es \<rparr>"
    using assms(1) unfolding order_free_def by (metis batch_transfer_wire_data.select_convs(1,4))
  with g show ?thesis by (simp add: make_batched_transfer_data_def Let_def)
next
  case False
  then show ?thesis
    by (cases "res_fold group_transfer [] (ck_transfers m)"; cases "res_fold group_erc [] (ck_token_transfers m)")
      (auto simp: make_batched_transfer_data_def)
qed

lemma totals_order:
  assumes "codec_ok C" "one_destination m" "res_fold group_subnet_total [] (ck_transfers m) = Inr g"
  shows "map_order C seed g = g"
proof -
  have "length g \<le> 1"
    using assms(2) subnet_totals [OF assms(3)]
    by (intro grouped_length [where ts = "ck_transfers m" and d = xt_destination_subnet_id
        and h = "\<lambda>d. the (subnet_id_txid20 d)"]) (auto simp: one_destination_def)
  moreover have "mset (map_order C seed g) = mset g" using assms(1) unfolding codec_ok_def by blast
  ultimately show ?thesis by (cases g) auto
qed

lemma generate_checkpoint_seed:
  assumes "codec_ok C" "order_free C" "one_destination m"
  shows "generate_checkpoint X C T seeds sk s nc r us m = generate_checkpoint X C T seeds' sk s nc r us m"
proof -
  have mb: "make_batched_transfer X C seed r a m = make_batched_transfer X C seed' r a m" for seed seed' a
    unfolding make_batched_transfer_def batched_data_seed [OF assms(2,3), of seed seed'] by (rule refl)
  have "res_bind (res_fold group_subnet_total [] (ck_transfers m)) (\<lambda>totals. f (map_order C seed totals))
      = res_bind (res_fold group_subnet_total [] (ck_transfers m)) f" for seed and f :: "_ \<Rightarrow> ipc_lib_error + tx_out list"
    using totals_order [OF assms(1,3)] by (cases "res_fold group_subnet_total [] (ck_transfers m)") simp_all
  note t = this [of "\<lambda>ts. res_bind (res_mapM (\<lambda>(k, amt, a). address_out X amt a) ts) (\<lambda>transfers. Inr (c # transfers))" for c]
  have outs: "checkpoint_tx_outs X C seed r ca m = checkpoint_tx_outs X C seed' r ca m" for seed seed' ca
    unfolding checkpoint_tx_outs_def t mb [where seed = seed and seed' = seed'] by (rule refl)
  show ?thesis
    unfolding generate_checkpoint_def to_checkpoint_psbt_def make_reveal_batch_transfer_tx_def
      outs [where seed = "fst seeds" and seed' = "fst seeds'"]
      mb [where seed = "snd seeds" and seed' = "snd seeds'"] by (rule refl)
qed

lemma prepared_destinations:
  assumes "update_subnets_for_transfer X db m0 = Inr m1" "prepare_checkpoint X sd s us m1 = Inr (nc, m)"
  shows "one_destination m = one_destination m0"
proof -
  obtain ts where "m1 = m0\<lparr> ck_transfers := ts \<rparr>" "map xt_destination_subnet_id ts = map xt_destination_subnet_id (ck_transfers m0)"
    using update_subnets_Inr [OF assms(1)] by metis
  moreover have "ck_transfers m = ck_transfers m1 \<and> ck_token_transfers m = ck_token_transfers m1"
    using assms(2) by (auto simp: prepare_checkpoint_def kill_checkpoint_msg_def Let_def res_simps split: if_splits)
  ultimately show ?thesis by (simp add: one_destination_def del: set_map list.set_map)
qed

text \<open>
  C26. Validators sign the same transaction: two providers with the same database, the same fee rate and
  nodes that list the same unspent outputs, in whatever order, generate the same unsigned PSBT and the
  same reveal transaction, each for its own key, so that their signatures can be put together.  The
  hash maps of the two providers have random states of their own (the seeds), so this needs that the
  transfers of the checkpoint go to at most one subnet and its token transfers to at most one subnet.
\<close>

theorem validators_sign_the_same_transaction:
  assumes "codec_ok C" "order_free C" "one_destination m"
    and "gen_checkpoint_psbt X C T seeds W sd m = Inr r" "gen_checkpoint_psbt X C T seeds' W' sd' m = Inr r'"
    and "sd_db sd' = sd_db sd" "get_fee_rate W' = get_fee_rate W"
    and "\<forall>a us us'. nd_unspent W a = Inr us \<longrightarrow> nd_unspent W' a = Inr us' \<longrightarrow>
           mset us = mset us' \<and> inj_on (\<lambda>u. (utxo_txid u, utxo_vout u)) (set us)"
  shows "sr_unsigned_psbt (cr_spend r) = sr_unsigned_psbt (cr_spend r') \<and> cr_batch_transfer_tx r = cr_batch_transfer_tx r'"
proof -
  have prep: "prepare_checkpoint X sd' s us m1 = prepare_checkpoint X sd s us m1" for s us m1
    unfolding prepare_checkpoint_def requested_committee_def Let_def assms(6) by (rule refl)
  have sort: "sort_utxos us = sort_utxos us'" if "nd_unspent W a = Inr us" "nd_unspent W' a = Inr us'" for a us us'
    using sort_utxos_cong assms(8) that by blast
  have seed: "generate_checkpoint X C T seeds' sk s nc f us m' = generate_checkpoint X C T seeds sk s nc f us m'"
    if "update_subnets_for_transfer X (sd_db sd) m = Inr m1" "prepare_checkpoint X sd s us m1 = Inr (nc, m')" for sk s nc f us m1 m'
    using generate_checkpoint_seed [OF assms(1,2)] prepared_destinations [OF that] assms(3) by blast
  have same: "sr_unsigned_psbt (cr_spend x) = sr_unsigned_psbt (cr_spend y) \<and> cr_batch_transfer_tx x = cr_batch_transfer_tx y"
    if "generate_checkpoint X C T seeds sk s nc f us m' = Inr x" "generate_checkpoint X C T seeds sk' s nc f us m' = Inr y" for sk sk' s nc f us m' x y
    using that by (auto simp: generate_checkpoint_def rpc_sign_def res_simps)
  from assms(4,5) show ?thesis
    by (auto simp: gen_checkpoint_psbt_def checkpoint_guards_def require_subnet_def checked_address_def address_checked_def
        rpc_unspent_def get_unspent_for_address_def prep seed res_simps assms(6,7)
        split: if_splits dest!: sort intro: same [THEN conjunct1] same [THEN conjunct2])
qed

section \<open>A concrete rotation\<close>

text \<open>
  The subnet of one validator with two stake changes that are not confirmed: a deposit, configuration 1,
  and a withdrawal, configuration 2.  The checkpoint asks for configuration 1.
\<close>

definition rotation_msg :: ipc_checkpoint_subnet_msg where
  "rotation_msg = \<lparr> ck_subnet_id = demo_id, ck_checkpoint_hash = replicate 32 2, ck_checkpoint_height = 30,
     ck_next_committee_configuration_number = 1, ck_withdrawals = [], ck_transfers = [], ck_token_registrations = [],
     ck_token_supply_adjustments = [], ck_token_transfers = [], ck_unstakes = [], ck_change_address = None,
     ck_is_kill_checkpoint = False \<rparr>"

definition rotation_change :: "subnet_committee \<Rightarrow> u64 \<Rightarrow> staking_change \<Rightarrow> stake_change_request" where
  "rotation_change c n ch = \<lparr> sc_change = ch, sc_validator_xpk = replicate 32 1, sc_validator_subnet_address = [1],
     sc_configuration_number = n, sc_committee_after_change = c\<lparr> cm_configuration_number := n \<rparr>, sc_block_height = 102, sc_block_hash = [],
     sc_checkpoint_block_height = None, sc_checkpoint_block_hash = None, sc_txid = [1] \<rparr>"

lemma rotation_change_number [simp]: "sc_configuration_number (rotation_change c n ch) = n"
  by (simp add: rotation_change_def)

lemma rotation_db:
  obtains db s where "db_inv demo_ext db" "get_subnet_state demo_ext db demo_id = Some s" "ss_killed s = NotKilled"
    "ss_last_checkpoint_number s = None" "cm_validators (ss_committee s) = [boot_validator]"
    "cm_configuration_number (ss_committee s) = 0" "wf_committee demo_ext demo_id (ss_committee s)"
    "get_stake_change demo_ext db demo_id 1 = Some (rotation_change (ss_committee s) 1 (Deposit 10000))"
    "get_stake_change demo_ext db demo_id 2 = Some (rotation_change (ss_committee s) 2 (Withdraw 1000))"
    "rotation_unstakes demo_ext db demo_id (ss_committee s)
       = [\<lparr> un_amount = 1000, un_address = ''bcrt1pbackup'', un_pubkey = replicate 32 1 \<rparr>]"
proof -
  obtain db s where b: "db_inv demo_ext db" "get_subnet_state demo_ext db demo_id = Some s" "ss_id s = demo_id" "ss_killed s = NotKilled"
    "ss_last_checkpoint_number s = None" "cm_validators (ss_committee s) = [boot_validator]"
    "cm_configuration_number (ss_committee s) = 0" "stake_changes_db db = []" by (rule boot_subnet)
  have wf: "wf_committee demo_ext demo_id (ss_committee s)"
    using db_inv_state(2) [OF demo_ext_ok b(1,2)] b(3) by (simp add: state_ok_def committees_wf_def)
  let ?c1 = "rotation_change (ss_committee s) 1 (Deposit 10000)" and ?c2 = "rotation_change (ss_committee s) 2 (Withdraw 1000)"
  let ?db1 = "add_stake_change demo_ext demo_id ?c1 db"
  let ?db2 = "add_stake_change demo_ext demo_id ?c2 ?db1"
  have w: "wf_committee demo_ext demo_id (sc_committee_after_change (rotation_change (ss_committee s) n ch))" for n ch
    using wf by (simp add: wf_committee_def rotation_change_def committee_keys_def)
  have "dense_stake demo_ext demo_id 0 db" using b(8) by (simp add: stake_log.dense_empty)
  then have 1: "db_inv demo_ext ?db1 \<and> dense_stake demo_ext demo_id (Suc 0) ?db1"
    by (intro db_inv_add_stake_change [OF demo_ext_ok b(1) demo_id_native _ _ _ w]) (simp_all add: rotation_change_def)
  then have 2: "db_inv demo_ext ?db2 \<and> dense_stake demo_ext demo_id (Suc (Suc 0)) ?db2"
    by (intro db_inv_add_stake_change [OF demo_ext_ok _ demo_id_native _ _ _ w]) (simp_all add: rotation_change_def)
  have get: "get_stake_change demo_ext ?db2 demo_id n = (if n = 2 then Some ?c2 else if n = 1 then Some ?c1 else None)" for n
  proof -
    have "get_stake_change demo_ext db demo_id n = None" using b(8) by (simp add: get_stake_change_def kv_get_def)
    then show ?thesis
      by (simp add: get_add_stake_change [OF demo_ext_ok db_inv_ok [OF conjunct1 [OF 1]]]
          get_add_stake_change [OF demo_ext_ok db_inv_ok [OF b(1)]])
  qed
  have keyed: "stake_keyed demo_ext demo_id ?db2" using 2 unfolding db_inv_def stake_inv_def by simp
  note mem = stake_changes_mem [OF demo_ext_ok demo_id_native conjunct2 [OF 2] keyed]
  let ?all = "get_all_stake_changes demo_ext ?db2 demo_id"
  have set: "set ?all = {?c1, ?c2}" unfolding set_eq_iff mem(1) get by (auto split: if_splits)
  have dist: "distinct ?all" using mem(2) by (simp add: distinct_map)
  have "mset ?all = mset [?c1, ?c2]"
    using set dist by (intro set_eq_iff_mset_eq_distinct [THEN iffD1]) (auto simp: rotation_change_def)
  then have "?all = [?c1, ?c2] \<or> ?all = [?c2, ?c1]"
    by (cases ?all; cases "tl ?all") (auto simp: add_eq_conv_ex split: if_splits)
  then have "rotation_unstakes demo_ext ?db2 demo_id (ss_committee s)
       = [\<lparr> un_amount = 1000, un_address = ''bcrt1pbackup'', un_pubkey = replicate 32 1 \<rparr>]"
    using b(6) by (auto simp: rotation_unstakes_def get_unconfirmed_stake_changes_def List.map_filter_def withdrawn_unstake_def
        rotation_change_def boot_validator_def)
  moreover have "get_subnet_state demo_ext ?db2 demo_id = Some s"
    using b(2) by (simp add: add_stake_change_def get_subnet_state_def)
  ultimately show thesis using that [of ?db2 s] 2 b get wf by simp
qed

lemma demo_spend_psbt:
  assumes "construct_spend_unsigned_transaction demo_ext keys thr a unspent ex outs r lim = Inr tx" "inputs tx \<noteq> []"
    and "\<forall>i \<in> set (inputs tx). witness i = [] \<and> find_utxo unspent i \<noteq> None" "create_multisig_script keys thr = Inr script"
  shows "\<exists>p p' sigs. construct_spend_psbt demo_ext demo_taproot demo_id keys thr a unspent ex outs r lim = Inr p
     \<and> sign_spend_psbt demo_taproot p sk = Inr (p', sigs)"
proof -
  obtain info where info: "create_subnet_multisig_spend_info demo_id keys thr = Inr info"
    using assms(4) demo_id_txid20 by (simp add: create_subnet_multisig_spend_info_def create_unspendable_subnet_id_script_def)
  have "\<exists>ins. res_mapM (spend_psbt_input info script [7] unspent) (inputs tx) = Inr ins"
    using assms(3) by (intro res_mapM_all) (auto simp: spend_psbt_input_def ok_or_def)
  then obtain p where p: "construct_spend_psbt demo_ext demo_taproot demo_id keys thr a unspent ex outs r lim = Inr p"
    using assms info by (auto simp: construct_spend_psbt_def demo_taproot_def ok_or_def)
  have "unsigned_tx p = tx" using construct_spend_psbt_Inr(1) [OF p] assms(1) by simp
  then obtain cb where i: "psbt_inputs p \<noteq> []" "\<forall>i \<in> set (psbt_inputs p). pi_tap_scripts i = [(cb, script)] \<and> pi_witness_utxo i \<noteq> None"
    using construct_spend_psbt_Inr(2) [OF p] assms(2,4) by fastforce
  have "\<forall>tx us n l. tap_sighash demo_taproot tx us n l \<noteq> None" by (simp add: demo_taproot_def)
  from sign_spend_psbt_succeeds [OF i(2,1) this] p show ?thesis by blast
qed

definition rotation_outs :: "tx_out list" where
  "rotation_outs = [\<lparr> txo_value = 330, txo_script = make_op_return_script (tag_bytes CheckpointSubnetTag @ replicate 20 7
       @ replicate 32 2 @ le_bytes 8 30 @ [0, 0, 1] @ le_bytes 8 1 @ [0]) \<rparr>,
     \<lparr> txo_value = 1000, txo_script = address_script demo_ext ''bcrt1pbackup'' \<rparr>]"

abbreviation rotation_paid :: ipc_checkpoint_subnet_msg where
  "rotation_paid \<equiv> rotation_msg\<lparr> ck_unstakes := [\<lparr> un_amount = 1000, un_address = ''bcrt1pbackup'', un_pubkey = replicate 32 1 \<rparr>] \<rparr>"

lemma rotation_tx_outs: "checkpoint_tx_outs demo_ext demo_codec seed 2500 a rotation_paid = Inr rotation_outs"
  using demo_id_txid20
  by (simp add: checkpoint_tx_outs_def rotation_msg_def make_metadata_tx_out_def checkpoint_metadata_def expect_txid20_def
      address_out_def has_batch_def rotation_outs_def marker_def demo_ext_def Let_def)

lemma rotation_spend:
  obtains tx where "construct_spend_unsigned_transaction demo_ext [(replicate 32 1, 5)] 4 a (rev demo_utxos) False rotation_outs 2500
      CHECKPOINT_CONSOLIDATION_LIMIT = Inr tx" "inputs tx \<noteq> []"
    "\<forall>i \<in> set (inputs tx). witness i = [] \<and> find_utxo (rev demo_utxos) i \<noteq> None"
proof -
  let ?construct = "construct_spend_unsigned_transaction demo_ext [(replicate 32 1, 5)] 4 a (rev demo_utxos) False rotation_outs 2500
      CHECKPOINT_CONSOLIDATION_LIMIT"
  have "\<exists>tx. ?construct = Inr tx"
    by (simp add: construct_spend_unsigned_transaction_def spend_select_def select_coins_def demo_utxos_def amount_sum_def amount_add_def
        word_checked_add_def word_checked_sub_def expect_fee_def demo_ext_def sort_utxos_def utxo_key_def
        multisig_spend_max_witness_size_def SCHNORR_SIGNATURE_SIZE_def SCHNORR_PUBLIC_KEY_SIZE_def
        TAPROOT_CONTROL_BASE_SIZE_def TAPROOT_CONTROL_NODE_SIZE_def Let_def rotation_outs_def CHECKPOINT_CONSOLIDATION_LIMIT_def)
  then obtain tx where tx: "?construct = Inr tx" by blast
  obtain spent change paid where c: "mset spent \<subseteq># mset (rev demo_utxos)" "inputs tx = map spend_input spent"
      "outputs tx = rotation_outs @ change" "utxo_total spent = (\<Sum>out\<leftarrow>outputs tx. unat (txo_value out)) + paid"
    using construct_spend_Inr [OF tx] by metis
  have "0 < utxo_total spent" using c(3,4) by (simp add: rotation_outs_def)
  then have "inputs tx \<noteq> []" using c(2) by auto
  moreover have "set spent \<subseteq> set demo_utxos" using c(1) by (metis set_mset_mono set_mset_mset set_rev)
  ultimately show ?thesis
    by (intro that [OF tx]) (use c(2) in \<open>auto simp: spend_input_def find_utxo_def demo_utxos_def\<close>)
qed

definition rotation_server :: "heed_db \<Rightarrow> bytes \<Rightarrow> server_data" where
  "rotation_server db sk = \<lparr> sd_db = db, sd_validator = Some (replicate 32 1, sk) \<rparr>"

lemma rotation_signed:
  assumes "get_subnet_state demo_ext db demo_id = Some s" "ss_killed s = NotKilled" "cm_validators (ss_committee s) = [boot_validator]"
    and "cm_configuration_number (ss_committee s) = 0" "wf_committee demo_ext demo_id (ss_committee s)"
    and "get_stake_change demo_ext db demo_id 1 = Some (rotation_change (ss_committee s) 1 (Deposit 10000))"
    and "rotation_unstakes demo_ext db demo_id (ss_committee s)
           = [\<lparr> un_amount = 1000, un_address = ''bcrt1pbackup'', un_pubkey = replicate 32 1 \<rparr>]"
    and "get_fee_rate N = 2500" "nd_unspent N (cm_multisig_address (ss_committee s)) = Inr us" "sort_utxos us = rev demo_utxos"
  shows "\<exists>r. gen_checkpoint_psbt demo_ext demo_codec demo_taproot seeds N (rotation_server db sk) rotation_msg = Inr r"
proof -
  let ?c = "ss_committee s" and ?sd = "rotation_server db sk" and ?a = "cm_multisig_address (ss_committee s)"
  have thr: "cm_threshold ?c = 4" "validator_weighted_keys ?c = [(replicate 32 1, 5)]"
    using assms(3,5) by (simp_all add: wf_committee_def validators_threshold_def multisig_threshold_def validators_total_power_def
        boot_validator_def validator_weighted_keys_def validators_weighted_keys_def)
  have "\<exists>ls. p2tr_of_leaves demo_ext ls = Some ?a"
    using assms(3,5) by (auto simp: wf_committee_def validators_multisig_address_def create_subnet_multisig_address_def res_simps split: sum.splits)
  then have valid: "address_valid demo_ext ?a" using demo_ext_ok unfolding ext_ok_def by blast
  have guards: "checkpoint_guards demo_ext ?sd rotation_msg = Inr (sk, s, rotation_msg)"
    using assms(1-3)
    by (simp add: checkpoint_guards_def require_validator_def rotation_server_def checkpoint_validate_def rotation_msg_def
        require_subnet_def state_is_validator_def committee_is_validator_def boot_validator_def is_killed_def update_subnets_for_transfer_def)
  have "\<not> should_kill s" using assms(2) by (simp add: should_kill_def)
  then have prep: "prepare_checkpoint demo_ext ?sd s uts rotation_msg = Inr (?c\<lparr> cm_configuration_number := 1 \<rparr>, rotation_paid)" for uts
    using assms(4,6,7) valid
    by (simp add: prepare_checkpoint_def requested_committee_def rotation_msg_def rotation_server_def rotation_change_def
        checked_address_def address_checked_def)
  obtain script where script: "create_multisig_script [(replicate 32 1, 5)] 4 = Inr script"
    by (simp add: create_multisig_script_def)
  obtain tx where tx: "construct_spend_unsigned_transaction demo_ext [(replicate 32 1, 5)] 4 ?a (rev demo_utxos) False rotation_outs 2500
      CHECKPOINT_CONSOLIDATION_LIMIT = Inr tx" "inputs tx \<noteq> []"
    "\<forall>i \<in> set (inputs tx). witness i = [] \<and> find_utxo (rev demo_utxos) i \<noteq> None" by (rule rotation_spend)
  obtain p p' sigs where p: "construct_spend_psbt demo_ext demo_taproot demo_id [(replicate 32 1, 5)] 4 ?a (rev demo_utxos) False rotation_outs
      2500 CHECKPOINT_CONSOLIDATION_LIMIT = Inr p" "sign_spend_psbt demo_taproot p sk = Inr (p', sigs)"
    using demo_spend_psbt [OF tx script] by blast
  have m: "\<not> has_batch rotation_paid" "\<not> ck_is_kill_checkpoint rotation_paid" "ck_subnet_id rotation_paid = demo_id"
    "ck_token_registrations rotation_paid = []" "ck_token_supply_adjustments rotation_paid = []" "ck_token_transfers rotation_paid = []"
    by (simp_all add: rotation_msg_def has_batch_def)
  have "to_checkpoint_psbt demo_ext demo_codec demo_taproot (fst seeds) rotation_paid ?c (?c\<lparr> cm_configuration_number := 1 \<rparr>) 2500 (rev demo_utxos) = Inr p"
    using m tx(1) p(1) valid
    by (simp add: to_checkpoint_psbt_def address_checked_def committee_eq_def thr rotation_tx_outs split_kill_change_def)
  then have "generate_checkpoint demo_ext demo_codec demo_taproot seeds sk s (?c\<lparr> cm_configuration_number := 1 \<rparr>) 2500 (rev demo_utxos) rotation_paid
      = Inr \<lparr> cr_spend = \<lparr> sr_unsigned_psbt = p, sr_psbt_inputs_signatures = sigs \<rparr>, cr_batch_transfer_tx = None \<rparr>"
    using m valid p(2) by (simp add: generate_checkpoint_def checked_address_def address_checked_def make_reveal_batch_transfer_tx_def rpc_sign_def)
  then show ?thesis
    using m guards prep valid assms(8-10)
    by (simp add: gen_checkpoint_psbt_def checked_address_def address_checked_def rpc_unspent_def get_unspent_for_address_def
        validate_erc_batch_data_def)
qed

definition other_node :: node where
  "other_node = demo_node\<lparr> nd_unspent := (\<lambda>a. Inr (rev demo_utxos)) \<rparr>"

lemma demo_node_view:
  "get_fee_rate demo_node = 2500" "nd_unspent demo_node a = Inr demo_utxos" "sort_utxos demo_utxos = rev demo_utxos"
  "get_fee_rate other_node = 2500" "nd_unspent other_node a = Inr (rev demo_utxos)" "sort_utxos (rev demo_utxos) = rev demo_utxos"
  by (simp_all add: get_fee_rate_def demo_node_def other_node_def DEFAULT_BTC_FEE_RATE_def MINIMUM_BTC_FEE_RATE_def MAXIMUM_BTC_FEE_RATE_def
      sort_utxos_def utxo_key_def demo_utxos_def)

lemma rotation_scenario:
  obtains db s r r' where "db_inv demo_ext db" "get_subnet_state demo_ext db demo_id = Some s" "\<not> should_kill s"
    "ss_last_checkpoint_number s = None" "cm_validators (ss_committee s) = [boot_validator]"
    "cm_configuration_number (ss_committee s) = 0"
    "get_stake_change demo_ext db demo_id 1 = Some (rotation_change (ss_committee s) 1 (Deposit 10000))"
    "get_stake_change demo_ext db demo_id 2 = Some (rotation_change (ss_committee s) 2 (Withdraw 1000))"
    "rotation_unstakes demo_ext db demo_id (ss_committee s)
       = [\<lparr> un_amount = 1000, un_address = ''bcrt1pbackup'', un_pubkey = replicate 32 1 \<rparr>]"
    "gen_checkpoint_psbt demo_ext demo_codec demo_taproot (0, 0) demo_node (rotation_server db [1]) rotation_msg = Inr r"
    "gen_checkpoint_psbt demo_ext demo_codec demo_taproot (1, 2) other_node (rotation_server db [2]) rotation_msg = Inr r'"
proof -
  obtain db s where b: "db_inv demo_ext db" "get_subnet_state demo_ext db demo_id = Some s" "ss_killed s = NotKilled"
    "ss_last_checkpoint_number s = None" "cm_validators (ss_committee s) = [boot_validator]"
    "cm_configuration_number (ss_committee s) = 0" "wf_committee demo_ext demo_id (ss_committee s)"
    "get_stake_change demo_ext db demo_id 1 = Some (rotation_change (ss_committee s) 1 (Deposit 10000))"
    "get_stake_change demo_ext db demo_id 2 = Some (rotation_change (ss_committee s) 2 (Withdraw 1000))"
    "rotation_unstakes demo_ext db demo_id (ss_committee s)
       = [\<lparr> un_amount = 1000, un_address = ''bcrt1pbackup'', un_pubkey = replicate 32 1 \<rparr>]" by (rule rotation_db)
  note gen = rotation_signed [OF b(2,3,5-8,10)]
  obtain r r' where "gen_checkpoint_psbt demo_ext demo_codec demo_taproot (0, 0) demo_node (rotation_server db [1]) rotation_msg = Inr r"
      "gen_checkpoint_psbt demo_ext demo_codec demo_taproot (1, 2) other_node (rotation_server db [2]) rotation_msg = Inr r'"
    using gen [OF demo_node_view(1-3)] gen [OF demo_node_view(4-6)] by blast
  with b show thesis by (intro that [of db s r r']) (simp_all add: should_kill_def)
qed

theorem signed_checkpoint_is_guarded_witness:
  "\<exists>db s r. gen_checkpoint_psbt demo_ext demo_codec demo_taproot (0, 0) demo_node (rotation_server db [1]) rotation_msg = Inr r
     \<and> get_subnet_state demo_ext db demo_id = Some s \<and> state_is_validator s (replicate 32 1)
     \<and> (\<exists>spent paid. mset spent \<subseteq># mset demo_utxos \<and> inputs (unsigned_tx (sr_unsigned_psbt (cr_spend r))) = map spend_input spent
          \<and> utxo_total spent = (\<Sum>out\<leftarrow>outputs (unsigned_tx (sr_unsigned_psbt (cr_spend r))). unat (txo_value out)) + paid)"
proof -
  obtain db s r r' where "get_subnet_state demo_ext db demo_id = Some s"
      "gen_checkpoint_psbt demo_ext demo_codec demo_taproot (0, 0) demo_node (rotation_server db [1]) rotation_msg = Inr r"
    by (rule rotation_scenario)
  with signed_checkpoint_is_guarded [OF this(2)] show ?thesis
    by (fastforce simp: rotation_server_def rotation_msg_def demo_node_view)
qed

theorem signed_checkpoint_is_read_back_witness:
  "\<exists>db r ca. gen_checkpoint_psbt demo_ext demo_codec demo_taproot (0, 0) demo_node (rotation_server db [1]) rotation_msg = Inr r
     \<and> from_checkpoint_tx demo_ext db (unsigned_tx (sr_unsigned_psbt (cr_spend r))) = Inr (rotation_paid\<lparr> ck_change_address := ca \<rparr>)"
proof -
  obtain db s r r' where b: "get_subnet_state demo_ext db demo_id = Some s" "\<not> should_kill s"
    "cm_validators (ss_committee s) = [boot_validator]" "cm_configuration_number (ss_committee s) = 0"
    "rotation_unstakes demo_ext db demo_id (ss_committee s)
       = [\<lparr> un_amount = 1000, un_address = ''bcrt1pbackup'', un_pubkey = replicate 32 1 \<rparr>]"
    "gen_checkpoint_psbt demo_ext demo_codec demo_taproot (0, 0) demo_node (rotation_server db [1]) rotation_msg = Inr r"
    by (rule rotation_scenario)
  have m: "ck_subnet_id rotation_msg = demo_id" "ck_next_committee_configuration_number rotation_msg = 1" "ck_transfers rotation_msg = []"
    "length (ck_checkpoint_hash rotation_msg) = 32" "\<not> ck_is_kill_checkpoint rotation_msg" "\<not> has_batch rotation_msg"
    "sd_db (rotation_server db [1]) = db"
    by (simp_all add: rotation_msg_def has_batch_def rotation_server_def)
  from signed_checkpoint_is_read_back [OF demo_ext_ok demo_codec_ok b(6), of s
      "[\<lparr> un_amount = 1000, un_address = ''bcrt1pbackup'', un_pubkey = replicate 32 1 \<rparr>]"] b m
  obtain ca where "from_checkpoint_tx demo_ext db (unsigned_tx (sr_unsigned_psbt (cr_spend r))) = Inr (rotation_msg\<lparr>
      ck_unstakes := [\<lparr> un_amount = 1000, un_address = ''bcrt1pbackup'', un_pubkey = replicate 32 1 \<rparr>], ck_transfers := [],
      ck_token_registrations := [], ck_token_supply_adjustments := [], ck_token_transfers := [], ck_change_address := ca \<rparr>)"
    by auto
  with b(6) show ?thesis by (auto simp: rotation_msg_def)
qed

theorem validators_sign_the_same_transaction_witness:
  "\<exists>db r r'. gen_checkpoint_psbt demo_ext demo_codec demo_taproot (0, 0) demo_node (rotation_server db [1]) rotation_msg = Inr r
     \<and> gen_checkpoint_psbt demo_ext demo_codec demo_taproot (1, 2) other_node (rotation_server db [2]) rotation_msg = Inr r'
     \<and> sr_unsigned_psbt (cr_spend r) = sr_unsigned_psbt (cr_spend r')"
proof -
  obtain db r r' where g: "gen_checkpoint_psbt demo_ext demo_codec demo_taproot (0, 0) demo_node (rotation_server db [1]) rotation_msg = Inr r"
    "gen_checkpoint_psbt demo_ext demo_codec demo_taproot (1, 2) other_node (rotation_server db [2]) rotation_msg = Inr r'"
    by (rule rotation_scenario)
  have "inj_on (\<lambda>u. (utxo_txid u, utxo_vout u)) (set demo_utxos)" by (simp add: demo_utxos_def)
  moreover have "order_free demo_codec" "one_destination rotation_msg"
    by (simp_all add: order_free_def demo_codec_def one_destination_def rotation_msg_def)
  ultimately show ?thesis
    using validators_sign_the_same_transaction [OF demo_codec_ok _ _ g] g by (fastforce simp: rotation_server_def demo_node_view)
qed

theorem rotation_pays_later_withdrawals_witness:
  "\<exists>db db' r cp. gen_checkpoint_psbt demo_ext demo_codec demo_taproot (0, 0) demo_node (rotation_server db [1]) rotation_msg = Inr r
     \<and> checkpoint_save_to_db demo_ext db 110 [] [1] rotation_msg = Inr (db', cp)
     \<and> \<lparr> txo_value = 1000, txo_script = address_script demo_ext ''bcrt1pbackup'' \<rparr>
         \<in> set (outputs (unsigned_tx (sr_unsigned_psbt (cr_spend r))))
     \<and> \<lparr> un_amount = 1000, un_address = ''bcrt1pbackup'', un_pubkey = replicate 32 1 \<rparr>
         \<in> set (rotation_unstakes demo_ext db' demo_id (demo_committee 0\<lparr> cm_validators := [boot_validator] \<rparr>))"
proof -
  obtain db s r r' where b: "db_inv demo_ext db" "get_subnet_state demo_ext db demo_id = Some s" "\<not> should_kill s"
    "ss_last_checkpoint_number s = None" "cm_validators (ss_committee s) = [boot_validator]"
    "cm_configuration_number (ss_committee s) = 0"
    "get_stake_change demo_ext db demo_id 1 = Some (rotation_change (ss_committee s) 1 (Deposit 10000))"
    "get_stake_change demo_ext db demo_id 2 = Some (rotation_change (ss_committee s) 2 (Withdraw 1000))"
    "gen_checkpoint_psbt demo_ext demo_codec demo_taproot (0, 0) demo_node (rotation_server db [1]) rotation_msg = Inr r"
    by (rule rotation_scenario)
  have m: "ck_subnet_id rotation_msg = demo_id" "ck_next_committee_configuration_number rotation_msg = 1" "\<not> ck_is_kill_checkpoint rotation_msg"
    "sd_db (rotation_server db [1]) = db" by (simp_all add: rotation_msg_def rotation_server_def)
  obtain db' cp where save: "checkpoint_save_to_db demo_ext db 110 [] [1] rotation_msg = Inr (db', cp)"
    using b(2,6,7) m by (simp add: checkpoint_save_to_db_def checkpoint_stake_change_def Let_def case_prod_unfold)
  have sc: "sc_checkpoint_block_height (rotation_change (ss_committee s) 2 (Withdraw 1000)) = None"
    "sc_change (rotation_change (ss_committee s) 2 (Withdraw 1000)) = Withdraw 1000"
    "sc_validator_xpk (rotation_change (ss_committee s) 2 (Withdraw 1000)) = replicate 32 1"
    by (simp_all add: rotation_change_def)
  have v: "boot_validator \<in> set (cm_validators (ss_committee s))" "v_pubkey boot_validator = replicate 32 1"
    "v_backup_address boot_validator = ''bcrt1pbackup''"
    using b(5) by (simp_all add: boot_validator_def)
  have "checkpoint_room demo_ext demo_id db" using b(2,4) by (simp add: checkpoint_room_def)
  with rotation_pays_later_withdrawals [OF demo_ext_ok demo_codec_ok _ b(9), of s 2 "rotation_change (ss_committee s) 2 (Withdraw 1000)" 1000
      boot_validator 110 "[]" "[1]" rotation_msg db' cp] b m sc v save
  have "\<lparr> txo_value = 1000, txo_script = address_script demo_ext ''bcrt1pbackup'' \<rparr> \<in> set (outputs (unsigned_tx (sr_unsigned_psbt (cr_spend r))))
      \<and> (\<forall>c w. find (\<lambda>w. v_pubkey w = replicate 32 1) (cm_validators c) = Some w \<longrightarrow>
            \<lparr> un_amount = 1000, un_address = v_backup_address w, un_pubkey = replicate 32 1 \<rparr> \<in> set (rotation_unstakes demo_ext db' demo_id c))"
    by simp
  moreover have "find (\<lambda>w. v_pubkey w = replicate 32 1) (cm_validators (demo_committee 0\<lparr> cm_validators := [boot_validator] \<rparr>)) = Some boot_validator"
    using v(2) by simp
  ultimately have "\<lparr> un_amount = 1000, un_address = v_backup_address boot_validator, un_pubkey = replicate 32 1 \<rparr>
      \<in> set (rotation_unstakes demo_ext db' demo_id (demo_committee 0\<lparr> cm_validators := [boot_validator] \<rparr>))"
    and "\<lparr> txo_value = 1000, txo_script = address_script demo_ext ''bcrt1pbackup'' \<rparr> \<in> set (outputs (unsigned_tx (sr_unsigned_psbt (cr_spend r))))"
    by blast+
  with b(9) save v(3) show ?thesis by (intro exI conjI) simp_all
qed

text \<open>Three transfers to one subnet.\<close>

definition grouped_wire :: batch_transfer_wire_data where
  "grouped_wire = demo_wire\<lparr> bw_transfers := [(replicate 20 7, replicate 3 (replicate 20 3, 500))] \<rparr>"

definition grouped_codec :: codec where
  "grouped_codec = demo_codec\<lparr> ser_wire := (\<lambda>seed w. if w = grouped_wire then Some [1] else None),
     de_wire := (\<lambda>b. if b = [1] then Some grouped_wire else None) \<rparr>"

definition grouped_msg :: ipc_checkpoint_subnet_msg where
  "grouped_msg = demo_checkpoint_msg\<lparr> ck_transfers := replicate 3 \<lparr> xt_amount = 500, xt_destination_subnet_id = demo_id,
     xt_subnet_multisig_address = Some ''bcrt1p'', xt_subnet_user_address = replicate 20 3 \<rparr>, ck_unstakes := [] \<rparr>"

lemma grouped_codec_ok: "codec_ok grouped_codec"
  using demo_codec_ok by (auto simp: codec_ok_def grouped_codec_def split: if_splits)

lemma grouped_outs: "\<exists>outs. checkpoint_tx_outs demo_ext grouped_codec 0 1000 ''bcrt1p'' grouped_msg = Inr outs"
proof -
  obtain md where md: "make_metadata_tx_out demo_ext 1000 grouped_msg = Inr md"
    using demo_id_txid20
    by (auto simp: make_metadata_tx_out_def checkpoint_metadata_def expect_txid20_def grouped_msg_def demo_checkpoint_msg_def Let_def)
  have "make_batched_transfer_data grouped_codec 0 grouped_msg = Inr (tag_bytes BatchTransferTag @ [1])"
    using demo_id_txid20
    by (simp add: make_batched_transfer_data_def grouped_msg_def demo_checkpoint_msg_def grouped_codec_def demo_codec_def
        group_transfer_def expect_txid20_def demo_wire_def grouped_wire_def numeral_3_eq_3)
  then obtain c w ro where mb: "make_batched_transfer demo_ext grouped_codec 0 1000 ''bcrt1p'' grouped_msg = Inr (c, w, ro)"
    by (auto simp: make_batched_transfer_def demo_ext_def grouped_codec_def demo_codec_def Let_def ipc_amount_add_def word_checked_add_def)
  have v: "address_valid demo_ext ''bcrt1pw'' \<and> address_valid demo_ext ''bcrt1p''" by (simp add: demo_ext_def)
  show ?thesis
    using md mb v demo_id_txid20
    by (auto simp: checkpoint_tx_outs_def address_out_def grouped_msg_def demo_checkpoint_msg_def
        group_subnet_total_def expect_txid20_def grouped_codec_def demo_codec_def numeral_3_eq_3 ipc_amount_add_def word_checked_add_def)
qed

theorem grouped_transfers_are_unreadable_witness:
  "\<exists>outs. checkpoint_tx_outs demo_ext grouped_codec 0 1000 ''bcrt1p'' grouped_msg = Inr outs
     \<and> from_checkpoint_tx demo_ext wire_db \<lparr> lock_time = 0, inputs = [], outputs = outs @ [\<lparr> txo_value = 900, txo_script = [] \<rparr>] \<rparr>
         = Inl (parse_err CheckpointSubnetTag ''Not enough outputs'')"
proof -
  obtain outs where o: "checkpoint_tx_outs demo_ext grouped_codec 0 1000 ''bcrt1p'' grouped_msg = Inr outs" using grouped_outs by blast
  have "from_checkpoint_tx demo_ext wire_db \<lparr> lock_time = 0, inputs = [], outputs = outs @ [\<lparr> txo_value = 900, txo_script = [] \<rparr>] \<rparr>
         = Inl (parse_err CheckpointSubnetTag ''Not enough outputs'')"
    by (rule grouped_transfers_are_unreadable [OF demo_ext_ok grouped_codec_ok o, where change = "[\<lparr> txo_value = 900, txo_script = [] \<rparr>]"])
      (simp_all add: grouped_msg_def demo_checkpoint_msg_def)
  with o show ?thesis by blast
qed

section \<open>Two destinations\<close>

text \<open>
  With two destination subnets the agreement of the signers is lost: a map that iterates in one order for
  one provider and in the other order for another gives them checkpoints with different outputs.
\<close>

definition two_wire :: batch_transfer_wire_data where
  "two_wire = demo_wire\<lparr> bw_transfers := [(replicate 20 7, [(replicate 20 3, 500)]), (replicate 20 8, [(replicate 20 3, 600)])] \<rparr>"

definition two_codec :: codec where
  "two_codec = demo_codec\<lparr> ser_wire := (\<lambda>seed w. if w = two_wire then Some [1] else None),
     de_wire := (\<lambda>b. if b = [1] then Some two_wire else None),
     map_order := (\<lambda>seed xs. if seed = 0 then xs else rev xs) \<rparr>"

definition two_msg :: ipc_checkpoint_subnet_msg where
  "two_msg = demo_checkpoint_msg\<lparr> ck_transfers := map (\<lambda>(amt, d). \<lparr> xt_amount = amt,
       xt_destination_subnet_id = subnet_id_from_txid20 (replicate 20 d),
       xt_subnet_multisig_address = Some ''bcrt1p'', xt_subnet_user_address = replicate 20 3 \<rparr>) [(500, 7), (600, 8)],
     ck_unstakes := [] \<rparr>"

lemma two_destinations_diverge:
  "codec_ok two_codec \<and> order_free two_codec \<and> \<not> one_destination two_msg
   \<and> (\<exists>outs outs'. checkpoint_tx_outs demo_ext two_codec 0 1000 ''bcrt1p'' two_msg = Inr outs
        \<and> checkpoint_tx_outs demo_ext two_codec 1 1000 ''bcrt1p'' two_msg = Inr outs' \<and> outs \<noteq> outs')"
proof -
  have id: "subnet_id_txid20 (subnet_id_from_txid20 (replicate 20 d)) = Some (replicate 20 d)" for d
    by (simp add: subnet_id_from_txid20_def SUBNET_ID_INNER_LEN_def)
  obtain md where md: "make_metadata_tx_out demo_ext 1000 two_msg = Inr md"
    using demo_id_txid20
    by (auto simp: make_metadata_tx_out_def checkpoint_metadata_def expect_txid20_def two_msg_def demo_checkpoint_msg_def Let_def)
  have "make_batched_transfer_data two_codec seed two_msg = Inr (tag_bytes BatchTransferTag @ [1])" for seed
    by (simp add: make_batched_transfer_data_def two_msg_def demo_checkpoint_msg_def two_codec_def demo_codec_def
        group_transfer_def expect_txid20_def demo_wire_def two_wire_def id)
  then have mb: "\<exists>c w ro. \<forall>seed. make_batched_transfer demo_ext two_codec seed 1000 ''bcrt1p'' two_msg = Inr (c, w, ro)"
    by (auto simp: make_batched_transfer_def demo_ext_def two_codec_def demo_codec_def Let_def ipc_amount_add_def word_checked_add_def)
  have v: "address_valid demo_ext ''bcrt1pw'' \<and> address_valid demo_ext ''bcrt1p''" by (simp add: demo_ext_def)
  have "\<exists>outs outs'. checkpoint_tx_outs demo_ext two_codec 0 1000 ''bcrt1p'' two_msg = Inr outs
        \<and> checkpoint_tx_outs demo_ext two_codec 1 1000 ''bcrt1p'' two_msg = Inr outs' \<and> outs \<noteq> outs'"
    using md mb v
    by (auto simp: checkpoint_tx_outs_def address_out_def two_msg_def demo_checkpoint_msg_def has_batch_def
        group_subnet_total_def expect_txid20_def two_codec_def demo_codec_def id)
  moreover have "codec_ok two_codec"
    using demo_codec_ok by (auto simp: codec_ok_def two_codec_def split: if_splits)
  moreover have "order_free two_codec" by (simp add: order_free_def two_codec_def)
  moreover have "subnet_id_from_txid20 (replicate 20 7) \<noteq> subnet_id_from_txid20 (replicate 20 8)"
    by (simp add: subnet_id_from_txid20_def)
  ultimately show ?thesis by (simp add: one_destination_def two_msg_def)
qed

end
