(* ===== verification/Scenario.thy ===== *)
theory Scenario
  imports Committee
begin

text \<open>
  The scenario language of the tester (\<open>src/src/easy_tester/model.rs\<close>, \<open>parser.rs\<close> and \<open>error.rs\<close>): the
  text of a test is cut into lines and tokens, the setup declares validators and subnets, and every line
  of the scenario is one command.  A text is a list of characters with code points below 256.  Reading a
  file is the caller's: a parser takes the outcome of reading.  The random keys and bytes, the taproot
  address of a key and the text formats of 256-bit numbers and of Ethereum addresses belong to other
  libraries and are fields of \<open>tester_env\<close>.
\<close>

section \<open>Text\<close>

text \<open>Lines, comments and words, as the standard library cuts them.\<close>

definition is_space :: "char \<Rightarrow> bool" where
  "is_space c \<longleftrightarrow> (of_char c :: nat) \<in> {9, 10, 11, 12, 13, 32, 133, 160}"

definition is_digit :: "char \<Rightarrow> bool" where
  "is_digit c \<longleftrightarrow> 48 \<le> (of_char c :: nat) \<and> (of_char c :: nat) \<le> 57"

fun split_inclusive :: "string \<Rightarrow> string list" where
  "split_inclusive [] = []"
| "split_inclusive (c # cs) =
     (if c = CHR 0x0A then [c] # split_inclusive cs
      else case split_inclusive cs of [] \<Rightarrow> [[c]] | l # ls \<Rightarrow> (c # l) # ls)"

definition strip_eol :: "string \<Rightarrow> string" where
  "strip_eol l =
     (if l \<noteq> [] \<and> last l = CHR 0x0A
      then (if butlast l \<noteq> [] \<and> last (butlast l) = CHR 0x0D then butlast (butlast l) else butlast l)
      else l)"

definition text_lines :: "string \<Rightarrow> string list" where
  "text_lines s = map strip_eol (split_inclusive s)"

definition split_once :: "char \<Rightarrow> string \<Rightarrow> (string \<times> string) option" where
  "split_once c s = (if c \<in> set s then Some (takeWhile (\<lambda>x. x \<noteq> c) s, tl (dropWhile (\<lambda>x. x \<noteq> c) s)) else None)"

definition trim :: "string \<Rightarrow> string" where
  "trim s = rev (dropWhile is_space (rev (dropWhile is_space s)))"

fun split_whitespace :: "string \<Rightarrow> string list" where
  "split_whitespace [] = []"
| "split_whitespace (c # cs) =
     (if is_space c then split_whitespace cs
      else case cs of [] \<Rightarrow> [[c]]
         | d # _ \<Rightarrow> if is_space d then [c] # split_whitespace cs
                   else case split_whitespace cs of [] \<Rightarrow> [[c]] | w # ws \<Rightarrow> (c # w) # ws)"

definition strip_prefix :: "string \<Rightarrow> string \<Rightarrow> string option" where
  "strip_prefix p s = (if prefix p s then Some (drop (length p) s) else None)"

definition strip_suffix :: "string \<Rightarrow> string \<Rightarrow> string option" where
  "strip_suffix p s = (if suffix p s then Some (take (length s - length p) s) else None)"

definition ascii_lower :: "char \<Rightarrow> char" where
  "ascii_lower c = (if 65 \<le> (of_char c :: nat) \<and> (of_char c :: nat) \<le> 90 then char_of ((of_char c :: nat) + 32) else c)"

definition quoted :: "string \<Rightarrow> string" where
  "quoted s = CHR 0x27 # s @ [CHR 0x27]"

text \<open>Parsing an unsigned integer of the given width, digit by digit.\<close>

fun parse_digits :: "nat \<Rightarrow> nat \<Rightarrow> string \<Rightarrow> string + nat" where
  "parse_digits w acc [] = Inr acc"
| "parse_digits w acc (c # cs) =
     (if \<not> is_digit c then Inl ''invalid digit found in string''
      else if 2 ^ w \<le> 10 * acc + (of_char c - 48) then Inl ''number too large to fit in target type''
      else parse_digits w (10 * acc + (of_char c - 48)) cs)"

definition parse_uint :: "nat \<Rightarrow> string \<Rightarrow> string + nat" where
  "parse_uint w s =
     (if s = [] then Inl ''cannot parse integer from empty string''
      else if s = ''+'' then Inl ''invalid digit found in string''
      else parse_digits w 0 (if hd s = CHR ''+'' then tl s else s))"

section \<open>Data\<close>

record tester_env =
  te_parse_u256 :: "string \<Rightarrow> string + u256"
  te_secret :: "nat \<Rightarrow> bytes"
  te_odd_parity :: "bytes \<Rightarrow> bool"
  te_negate :: "bytes \<Rightarrow> bytes"
  te_x_only :: "bytes \<Rightarrow> xonly_pubkey"
  te_p2tr_key :: "xonly_pubkey \<Rightarrow> btc_address"
  te_random :: "nat \<Rightarrow> nat \<Rightarrow> bytes"
  te_show_address :: "eth_address \<Rightarrow> string"

datatype easy_tester_error =
    Io string string
  | Parse string nat string string
  | Runtime string

record validator_spec =
  vs_name :: string
  vs_secret_key :: bytes
  vs_pubkey :: xonly_pubkey
  vs_default_ip :: string
  vs_default_backup_address :: btc_address

record subnet_spec =
  sp_name :: string
  sp_min_validators :: u16
  sp_whitelist_names :: "string list"
  sp_whitelist_pubkeys :: "xonly_pubkey list"

record setup_spec =
  su_validators :: "(string \<times> validator_spec) list"
  su_subnets :: "(string \<times> subnet_spec) list"

definition setup_spec_new :: setup_spec where
  "setup_spec_new = \<lparr> su_validators = [], su_subnets = [] \<rparr>"

record fendermint_issuer =
  fi_name :: string
  fi_ipc_address :: string

record fendermint_subnet =
  fs_name :: string
  fs_subnet_id :: string
  fs_eth_rpc_url :: string
  fs_provider_url :: string

record fendermint_setup =
  fe_docker_container :: string
  fe_issuers :: "(string \<times> fendermint_issuer) list"
  fe_subnets :: "(string \<times> fendermint_subnet) list"
  fe_subnet_order :: "string list"
  fe_print_queries :: bool

datatype tester_config =
    ConfigDb "u64 option" "u64 option"
  | ConfigMonitor "u64 option" "u64 option" "string option" "string option"
  | ConfigFendermint fendermint_setup

datatype output_db =
    OutSubnet | OutSubnetGenesis | OutStakeChanges | OutKillRequests | OutCommittee
  | OutRewardCandidates | OutRewardResults | OutRootnetMsgs | OutTokenBalance | OutTokenMetadata

record output_expect_target =
  tg_path :: string
  tg_line_no :: nat

datatype scenario_command =
    CmdBlock u64
  | CmdCreate string
  | CmdJoin string string u64
  | CmdStake string string u64
  | CmdUnstake string string u64
  | CmdCheckpoint string
  | CmdRegisterToken string "string option" string string u256
  | CmdMintToken string string u256
  | CmdBurnToken string string u256
  | CmdWait u64
  | CmdDeposit string string u64
  | CmdErcTransfer string "string option" string "string option" string u256
  | CmdOutputRead output_db "string list"
  | CmdOutputExpect output_expect_target string

record parsed_test =
  pt_setup :: setup_spec
  pt_scenario :: "(nat \<times> scenario_command) list"

record parsed_fendermint_test =
  ft_setup :: fendermint_setup
  ft_scenario :: "(nat \<times> scenario_command) list"

section \<open>Numbers and generated entities\<close>

definition normalize_numeric_literal :: "string \<Rightarrow> string" where
  "normalize_numeric_literal s =
     (if list_all (\<lambda>c. is_digit c \<or> c = CHR ''_'') s then filter (\<lambda>c. c \<noteq> CHR ''_'') s else s)"

definition parse_u64_allow_underscores :: "string \<Rightarrow> string + u64" where
  "parse_u64_allow_underscores s =
     (case parse_uint 64 (normalize_numeric_literal s) of
        Inl e \<Rightarrow> Inl (''invalid number '' @ quoted s @ '': '' @ e) | Inr n \<Rightarrow> Inr (of_nat n))"

definition parse_u256_allow_underscores :: "tester_env \<Rightarrow> string \<Rightarrow> string + u256" where
  "parse_u256_allow_underscores E s =
     res_map_err (\<lambda>e. ''invalid number '' @ quoted s @ '': '' @ e) (te_parse_u256 E (normalize_numeric_literal s))"

definition parse_u16_allow_underscores :: "string \<Rightarrow> string + u16" where
  "parse_u16_allow_underscores s = res_bind (parse_u64_allow_underscores s) (\<lambda>v.
     if unat v < 2 ^ 16 then Inr (of_nat (unat v)) else Inl (''number out of range for u16: '' @ quoted s))"

definition create_rand_backup_address :: "tester_env \<Rightarrow> xonly_pubkey \<Rightarrow> btc_address" where
  "create_rand_backup_address E pk = te_p2tr_key E pk"

definition generate_validator :: "tester_env \<Rightarrow> string \<Rightarrow> nat \<Rightarrow> validator_spec" where
  "generate_validator E name ordinal =
     (let sk0 = te_secret E ordinal;
          sk = (if te_odd_parity E sk0 then te_negate E sk0 else sk0);
          pk = te_x_only E sk
      in \<lparr> vs_name = name, vs_secret_key = sk, vs_pubkey = pk,
           vs_default_ip = ''127.0.0.'' @ dec (max (ordinal mod 256) 1) @ '':8080'',
           vs_default_backup_address = create_rand_backup_address E pk \<rparr>)"

definition build_create_subnet_msg :: "subnet_spec \<Rightarrow> ipc_create_subnet_msg" where
  "build_create_subnet_msg subnet =
     \<lparr> cr_min_validator_stake = 100000, cr_min_validators = sp_min_validators subnet,
       cr_bottomup_check_period = 1, cr_active_validators_limit = max (sp_min_validators subnet) 100,
       cr_min_cross_msg_fee = 1, cr_whitelist = sp_whitelist_pubkeys subnet \<rparr>"

section \<open>Setup section\<close>

datatype section_kind = NoSection | SetupSection | ScenarioSection

datatype setup_builder =
    ValidatorBuilder string
  | SubnetBuilder string "string list option" "u16 option"

fun builder_name :: "setup_builder \<Rightarrow> string" where
  "builder_name (ValidatorBuilder name) = name"
| "builder_name (SubnetBuilder name _ _) = name"

text \<open>The loop over the whitelist of a subnet.\<close>

fun check_whitelist ::
  "(string \<Rightarrow> easy_tester_error) \<Rightarrow> string \<Rightarrow> setup_spec \<Rightarrow> string list \<Rightarrow> string list \<Rightarrow> easy_tester_error + unit" where
  "check_whitelist err name setup unique [] = Inr ()"
| "check_whitelist err name setup unique (v # vs) =
     (if v \<in> set unique then Inl (err (''subnet '' @ quoted name @ '' whitelist contains duplicate '' @ quoted v))
      else if map_of (su_validators setup) v = None
      then Inl (err (''subnet '' @ quoted name @ '' whitelist references unknown validator '' @ quoted v
                 @ '' (validators must be declared earlier in setup)''))
      else check_whitelist err name setup (v # unique) vs)"

definition finalize_subnet ::
  "(string \<Rightarrow> easy_tester_error) \<Rightarrow> string \<Rightarrow> string list option \<Rightarrow> u16 option \<Rightarrow> setup_spec
    \<Rightarrow> easy_tester_error + setup_spec" where
  "finalize_subnet err name whitelist minv setup =
     (if map_of (su_subnets setup) name \<noteq> None then Inl (err (''duplicate subnet name '' @ quoted name)) else
      res_bind (ok_or whitelist (err (''subnet '' @ quoted name @ '' missing required field '' @ quoted ''whitelist''))) (\<lambda>names.
      res_bind (ok_or minv (err (''subnet '' @ quoted name @ '' missing required field '' @ quoted ''min''))) (\<lambda>m.
      if m < 4 then Inl (err (''subnet '' @ quoted name @ '' min must be at least 4 (got '' @ dec (unat m) @ '')''))
      else if length names < 4
      then Inl (err (''subnet '' @ quoted name @ '' whitelist must have at least 4 entries (got '' @ dec (length names) @ '')''))
      else res_bind (check_whitelist err name setup [] names) (\<lambda>_.
        if length names < unat m
        then Inl (err (''subnet '' @ quoted name @ '' whitelist size ('' @ dec (length names) @ '') is less than min ('' @ dec (unat m) @ '')''))
        else Inr (setup\<lparr> su_subnets := su_subnets setup @ [(name,
            \<lparr> sp_name = name, sp_min_validators = m, sp_whitelist_names = names,
              sp_whitelist_pubkeys = map (\<lambda>n. vs_pubkey (the (map_of (su_validators setup) n))) names \<rparr>)] \<rparr>)))))"

definition finalize_validator ::
  "tester_env \<Rightarrow> (string \<Rightarrow> easy_tester_error) \<Rightarrow> string \<Rightarrow> setup_spec \<times> nat \<Rightarrow> easy_tester_error + (setup_spec \<times> nat)" where
  "finalize_validator E err name = (\<lambda>(setup, ordinal).
     if map_of (su_validators setup) name \<noteq> None then Inl (err (''duplicate validator name '' @ quoted name))
     else Inr (setup\<lparr> su_validators := su_validators setup @ [(name, generate_validator E name ordinal)] \<rparr>, ordinal + 1))"

definition builder_finalize ::
  "tester_env \<Rightarrow> (string \<Rightarrow> easy_tester_error) \<Rightarrow> setup_builder option \<Rightarrow> setup_spec \<times> nat
    \<Rightarrow> easy_tester_error + (setup_spec \<times> nat)" where
  "builder_finalize E err b so =
     (case b of None \<Rightarrow> Inr so
      | Some (ValidatorBuilder name) \<Rightarrow> finalize_validator E err name so
      | Some (SubnetBuilder name w m) \<Rightarrow>
          res_bind (finalize_subnet err name w m (fst so)) (\<lambda>setup. Inr (setup, snd so)))"

record scenario_entry =
  en_line_no :: nat
  en_text :: string
  en_cmd :: scenario_command

record parse_state =
  ps_section :: section_kind
  ps_setup :: setup_spec
  ps_entries :: "scenario_entry list"
  ps_builder :: "setup_builder option"
  ps_ordinal :: nat

definition line_tokens :: "string \<Rightarrow> string list" where
  "line_tokens l = split_whitespace (trim (case split_once (CHR ''#'') l of Some (before, _) \<Rightarrow> before | None \<Rightarrow> l))"

definition take_builder ::
  "tester_env \<Rightarrow> (string \<Rightarrow> easy_tester_error) \<Rightarrow> parse_state \<Rightarrow> easy_tester_error + parse_state" where
  "take_builder E err st =
     res_bind (builder_finalize E err (ps_builder st) (ps_setup st, ps_ordinal st)) (\<lambda>(setup, ordinal).
       Inr (st\<lparr> ps_setup := setup, ps_ordinal := ordinal, ps_builder := None \<rparr>))"

definition parse_setup_field ::
  "(string \<Rightarrow> easy_tester_error) \<Rightarrow> setup_builder \<Rightarrow> string list \<Rightarrow> easy_tester_error + setup_builder" where
  "parse_setup_field err builder tokens =
     (case builder of
        ValidatorBuilder name \<Rightarrow> Inl (err (''unexpected setup details under validator '' @ quoted name
          @ '' (validators have no fields yet)''))
      | SubnetBuilder name w m \<Rightarrow>
          if tokens ! 0 = ''whitelist'' then
            (if length tokens < 5 then Inl (err ''whitelist requires at least 4 validator names'')
             else Inr (SubnetBuilder name (Some (tl tokens)) m))
          else if tokens ! 0 = ''min'' then
            (if length tokens \<noteq> 2 then Inl (err ''min requires exactly one numeric argument'')
             else res_bind (res_map_err err (parse_u16_allow_underscores (tokens ! 1))) (\<lambda>v.
               Inr (SubnetBuilder name w (Some v))))
          else Inl (err (''unknown subnet setup field '' @ quoted (tokens ! 0))))"

definition parse_setup_line ::
  "tester_env \<Rightarrow> (string \<Rightarrow> easy_tester_error) \<Rightarrow> string list \<Rightarrow> parse_state \<Rightarrow> easy_tester_error + parse_state" where
  "parse_setup_line E err tokens st =
     (if tokens = [''scenario'']
      then res_bind (take_builder E err st) (\<lambda>st'. Inr (st'\<lparr> ps_section := ScenarioSection \<rparr>))
      else if length tokens = 1 \<and> (prefix ''validator'' (tokens ! 0) \<or> prefix ''subnet'' (tokens ! 0))
      then res_bind (take_builder E err st) (\<lambda>st'. Inr (st'\<lparr> ps_builder :=
        Some (if prefix ''validator'' (tokens ! 0) then ValidatorBuilder (tokens ! 0) else SubnetBuilder (tokens ! 0) None None) \<rparr>))
      else res_bind (ok_or (ps_builder st) (err (''expected '' @ quoted ''validatorX'' @ '' or '' @ quoted ''subnetY'' @ '' entity declaration''))) (\<lambda>builder.
        res_bind (parse_setup_field err builder tokens) (\<lambda>builder'. Inr (st\<lparr> ps_builder := Some builder' \<rparr>))))"

section \<open>Scenario section\<close>

definition arity ::
  "(string \<Rightarrow> easy_tester_error) \<Rightarrow> nat \<Rightarrow> string \<Rightarrow> string list \<Rightarrow> (string list \<Rightarrow> easy_tester_error + 'a)
    \<Rightarrow> easy_tester_error + 'a" where
  "arity err n usage tokens k = (if length tokens \<noteq> n then Inl (err usage) else k tokens)"

definition number_arg :: "(string \<Rightarrow> easy_tester_error) \<Rightarrow> string \<Rightarrow> (u64 \<Rightarrow> 'a) \<Rightarrow> easy_tester_error + 'a" where
  "number_arg err s f = res_bind (res_map_err err (parse_u64_allow_underscores s)) (\<lambda>n. Inr (f n))"

definition token_arg ::
  "tester_env \<Rightarrow> (string \<Rightarrow> easy_tester_error) \<Rightarrow> string \<Rightarrow> string \<Rightarrow> (u256 \<Rightarrow> 'a) \<Rightarrow> easy_tester_error + 'a" where
  "token_arg E err what s f =
     res_bind (res_map_err (\<lambda>e. err (what @ e)) (parse_u256_allow_underscores E s)) (\<lambda>n. Inr (f n))"

definition parse_stake_command ::
  "(string \<Rightarrow> easy_tester_error) \<Rightarrow> string list \<Rightarrow> easy_tester_error + scenario_command" where
  "parse_stake_command err tokens =
     (if tokens ! 0 = ''block'' then arity err 2 ''block requires exactly one numeric argument'' tokens (\<lambda>t.
        number_arg err (t ! 1) CmdBlock)
      else if tokens ! 0 = ''create'' then arity err 2 ''create requires exactly one subnet name'' tokens (\<lambda>t.
        Inr (CmdCreate (t ! 1)))
      else if tokens ! 0 = ''join'' then
        arity err 4 ''join syntax: join <subnetName> <validatorName> <collateralSats>'' tokens (\<lambda>t.
        number_arg err (t ! 3) (CmdJoin (t ! 1) (t ! 2)))
      else if tokens ! 0 = ''stake'' then
        arity err 4 ''stake syntax: stake <subnetName> <validatorName> <amountToAddSats>'' tokens (\<lambda>t.
        number_arg err (t ! 3) (CmdStake (t ! 1) (t ! 2)))
      else arity err 4 ''unstake syntax: unstake <subnetName> <validatorName> <amountToRemoveSats>'' tokens (\<lambda>t.
        number_arg err (t ! 3) (CmdUnstake (t ! 1) (t ! 2))))"

definition parse_plain_command ::
  "(string \<Rightarrow> easy_tester_error) \<Rightarrow> string list \<Rightarrow> easy_tester_error + scenario_command" where
  "parse_plain_command err tokens =
     (if tokens ! 0 = ''wait'' then arity err 2 ''wait syntax: wait <seconds>'' tokens (\<lambda>t.
        number_arg err (t ! 1) CmdWait)
      else if tokens ! 0 = ''deposit'' then
        arity err 4 ''deposit syntax: deposit <subnet> <address_name> <amount_sats>'' tokens (\<lambda>t.
        number_arg err (t ! 3) (CmdDeposit (t ! 1) (t ! 2)))
      else arity err 2 ''checkpoint requires exactly one subnet name'' tokens (\<lambda>t.
        Inr (CmdCheckpoint (t ! 1))))"

definition parse_token_command ::
  "tester_env \<Rightarrow> (string \<Rightarrow> easy_tester_error) \<Rightarrow> string list \<Rightarrow> easy_tester_error + scenario_command" where
  "parse_token_command E err tokens =
     (if tokens ! 0 = ''register_token'' then
        arity err 5 ''register_token syntax: register_token <subnet> <name> <symbol> <initial_supply>'' tokens (\<lambda>t.
        token_arg E err ''invalid initial_supply: '' (t ! 4) (CmdRegisterToken (t ! 1) None (t ! 2) (t ! 3)))
      else if tokens ! 0 = ''mint_token'' then
        arity err 4 ''mint_token syntax: mint_token <subnet> <token_name> <amount>'' tokens (\<lambda>t.
        token_arg E err ''invalid amount: '' (t ! 3) (CmdMintToken (t ! 1) (t ! 2)))
      else if tokens ! 0 = ''burn_token'' then
        arity err 4 ''burn_token syntax: burn_token <subnet> <token_name> <amount>'' tokens (\<lambda>t.
        token_arg E err ''invalid amount: '' (t ! 3) (CmdBurnToken (t ! 1) (t ! 2)))
      else arity err 5 ''erc_transfer syntax: erc_transfer <src_subnet> <dst_subnet> <token_name> <amount>'' tokens (\<lambda>t.
        token_arg E err ''invalid amount: '' (t ! 4) (CmdErcTransfer (t ! 1) None (t ! 2) None (t ! 3))))"

definition output_dbs :: "(string \<times> output_db) list" where
  "output_dbs = [(''subnet'', OutSubnet), (''subnet_genesis'', OutSubnetGenesis), (''stake_changes'', OutStakeChanges),
     (''kill_requests'', OutKillRequests), (''committee'', OutCommittee), (''reward_candidates'', OutRewardCandidates),
     (''reward_results'', OutRewardResults), (''rootnet_msgs'', OutRootnetMsgs), (''token_balance'', OutTokenBalance),
     (''token_metadata'', OutTokenMetadata)]"

definition parse_output_db :: "string \<Rightarrow> string + output_db" where
  "parse_output_db s = ok_or (map_of output_dbs s) (''unknown output db '' @ quoted s)"

definition check_number :: "(string \<Rightarrow> easy_tester_error) \<Rightarrow> string \<Rightarrow> easy_tester_error + unit" where
  "check_number err s = number_arg err s (\<lambda>_. ())"

definition validate_output_args ::
  "(string \<Rightarrow> easy_tester_error) \<Rightarrow> output_db \<Rightarrow> string list \<Rightarrow> easy_tester_error + unit" where
  "validate_output_args err db args =
     (case db of
        OutCommittee \<Rightarrow> arity err 2 ''expected: read committee <subnetName> <committee_number>'' args (\<lambda>a. check_number err (a ! 1))
      | OutStakeChanges \<Rightarrow> arity err 2 ''expected: read stake_changes <subnetName> <configuration_number>'' args (\<lambda>a. check_number err (a ! 1))
      | OutKillRequests \<Rightarrow> arity err 2 ''expected: read kill_requests <subnetName> <current_block_height>'' args (\<lambda>a. check_number err (a ! 1))
      | OutRewardCandidates \<Rightarrow> arity err 2 ''expected: read reward_candidates <snapshot> <subnetName>'' args (\<lambda>a. check_number err (a ! 0))
      | OutRewardResults \<Rightarrow> arity err 1 ''expected: read reward_results <snapshot>'' args (\<lambda>a. check_number err (a ! 0))
      | OutRootnetMsgs \<Rightarrow> arity err 1 ''expected: read rootnet_msgs <subnetName>'' args (\<lambda>_. Inr ())
      | OutTokenBalance \<Rightarrow> if length args \<noteq> 2 \<and> length args \<noteq> 3
          then Inl (err ''expected: read token_balance <subnetName> <tokenName> or read token_balance <subnetName> <actorName> <tokenName>'')
          else Inr ()
      | OutTokenMetadata \<Rightarrow> arity err 2 ''expected: read token_metadata <subnetName> <tokenName>'' args (\<lambda>_. Inr ())
      | _ \<Rightarrow> arity err 1 ''expected: read <db> <subnetName>'' args (\<lambda>_. Inr ()))"

text \<open>Both \<open>lhs = rhs\<close> and \<open>lhs=rhs\<close> are accepted: a token is cut at its first equals sign.\<close>

definition flat_token :: "string \<Rightarrow> string list" where
  "flat_token t =
     (if t = ''='' then [''='']
      else case split_once (CHR ''='') t of
        Some (l, r) \<Rightarrow> (if trim l = [] then [] else [trim l]) @ [''=''] @ (if trim r = [] then [] else [trim r])
      | None \<Rightarrow> [t])"

fun join_with :: "string \<Rightarrow> string list \<Rightarrow> string" where
  "join_with sep [] = []"
| "join_with sep [w] = w"
| "join_with sep (w # ws) = w @ sep @ join_with sep ws"

definition parse_output_expect ::
  "(string \<Rightarrow> easy_tester_error) \<Rightarrow> nat \<Rightarrow> string list \<Rightarrow> easy_tester_error + (output_expect_target \<times> string)" where
  "parse_output_expect err line_no tokens =
     (if length tokens < 3 then Inl (err ''expected: expect <lhs> = <sats> [sats]'') else
      let flat = concat (map flat_token tokens);
          eq_pos = length (takeWhile (\<lambda>t. t \<noteq> ''='') flat)
      in if ''='' \<notin> set flat then Inl (err (''expected '' @ quoted ''='' @ '' in expect (e.g. ... = 100_000 sats)''))
      else if eq_pos = 0 \<or> length flat \<le> eq_pos + 1 then Inl (err ''expected: expect <lhs> = <sats> [sats]'')
      else let lhs = join_with '' '' (take eq_pos flat); rhs = drop (eq_pos + 1) flat in
      if CHR '' '' \<in> set lhs then Inl (err ''lhs must not contain spaces (e.g. result.rewards_list.validator1)'')
      else if 1 < length rhs \<and> map ascii_lower (rhs ! 1) \<notin> {''sat'', ''sats'', ''satoshi'', ''satoshis''}
      then Inl (err (''unknown unit '' @ quoted (rhs ! 1) @ '' (expected '' @ quoted ''sats'' @ '')''))
      else if 2 < length rhs then Inl (err ''too many tokens after rhs; expected: <value> [sats]'')
      else case strip_prefix ''result.'' lhs of
        None \<Rightarrow> Inl (err (''lhs must start with '' @ quoted ''result.'' @ '' (e.g. result.count, result.0.kind)''))
      | Some p \<Rightarrow> if p = [] then Inl (err (''path after '' @ quoted ''result.'' @ '' must not be empty''))
          else Inr (\<lparr> tg_path = p, tg_line_no = line_no \<rparr>, rhs ! 0))"

definition parse_output_command ::
  "(string \<Rightarrow> easy_tester_error) \<Rightarrow> nat \<Rightarrow> string list \<Rightarrow> easy_tester_error + scenario_command" where
  "parse_output_command err line_no tokens =
     (if tokens ! 0 = ''read'' then
        (if length tokens < 3 then Inl (err ''read syntax: read <db> <args...>'') else
         res_bind (res_map_err err (parse_output_db (tokens ! 1))) (\<lambda>db.
           let args = map normalize_numeric_literal (drop 2 tokens) in
           res_bind (validate_output_args err db args) (\<lambda>_. Inr (CmdOutputRead db args))))
      else res_bind (parse_output_expect err line_no (tl tokens)) (\<lambda>(target, v).
        Inr (CmdOutputExpect target (normalize_numeric_literal v))))"

definition parse_scenario_command ::
  "tester_env \<Rightarrow> (string \<Rightarrow> easy_tester_error) \<Rightarrow> nat \<Rightarrow> string list \<Rightarrow> easy_tester_error + scenario_command" where
  "parse_scenario_command E err line_no tokens =
     (let c = tokens ! 0 in
      if c \<in> {''block'', ''create'', ''join'', ''stake'', ''unstake''} then parse_stake_command err tokens
      else if c \<in> {''wait'', ''deposit'', ''checkpoint''} then parse_plain_command err tokens
      else if c \<in> {''register_token'', ''mint_token'', ''burn_token'', ''erc_transfer''} then parse_token_command E err tokens
      else if c \<in> {''read'', ''expect''} then parse_output_command err line_no tokens
      else if c \<in> {''setup'', ''scenario''}
      then Inl (err (''unexpected section header '' @ quoted c @ '' inside scenario''))
      else Inl (err (''unknown scenario command '' @ quoted c)))"

definition parse_line ::
  "tester_env \<Rightarrow> string \<Rightarrow> parse_state \<Rightarrow> nat \<times> string \<Rightarrow> easy_tester_error + parse_state" where
  "parse_line E path st = (\<lambda>(line_no, text).
     let tokens = line_tokens text; err = (\<lambda>m. Parse path line_no m text) in
     if tokens = [] then Inr st else
     case ps_section st of
       NoSection \<Rightarrow> if tokens = [''setup''] then Inr (st\<lparr> ps_section := SetupSection \<rparr>)
         else Inl (err (''expected '' @ quoted ''setup'' @ '' as the first section''))
     | SetupSection \<Rightarrow> parse_setup_line E err tokens st
     | ScenarioSection \<Rightarrow> res_bind (parse_scenario_command E err line_no tokens) (\<lambda>cmd.
         Inr (st\<lparr> ps_entries := ps_entries st @ [\<lparr> en_line_no = line_no, en_text = text, en_cmd = cmd \<rparr>] \<rparr>)))"

section \<open>Validation of a scenario\<close>

record scenario_state =
  sv_block_set :: bool
  sv_last_block_height :: "u64 option"
  sv_created_subnets :: "string list"
  sv_last_output_read_db :: "output_db option"

definition scenario_start :: scenario_state where
  "scenario_start = \<lparr> sv_block_set = False, sv_last_block_height = None, sv_created_subnets = [], sv_last_output_read_db = None \<rparr>"

definition after_block :: "(string \<Rightarrow> easy_tester_error) \<Rightarrow> scenario_state \<Rightarrow> easy_tester_error + unit" where
  "after_block err st = require (sv_block_set st) (err (''must set '' @ quoted ''block <height>'' @ '' before actions''))"

definition declared_subnet :: "(string \<Rightarrow> easy_tester_error) \<Rightarrow> setup_spec \<Rightarrow> string \<Rightarrow> easy_tester_error + unit" where
  "declared_subnet err setup s = require (map_of (su_subnets setup) s \<noteq> None)
     (err (''subnet '' @ quoted s @ '' was not declared in setup''))"

definition declared_validator :: "(string \<Rightarrow> easy_tester_error) \<Rightarrow> setup_spec \<Rightarrow> string \<Rightarrow> easy_tester_error + unit" where
  "declared_validator err setup v = require (map_of (su_validators setup) v \<noteq> None)
     (err (''validator '' @ quoted v @ '' was not declared in setup''))"

definition created_before ::
  "(string \<Rightarrow> easy_tester_error) \<Rightarrow> scenario_state \<Rightarrow> string \<Rightarrow> string \<Rightarrow> easy_tester_error + unit" where
  "created_before err st what s = require (s \<in> set (sv_created_subnets st))
     (err (''subnet '' @ quoted s @ '' must be created before '' @ what))"

definition validate_member ::
  "(string \<Rightarrow> easy_tester_error) \<Rightarrow> setup_spec \<Rightarrow> scenario_state \<Rightarrow> string \<Rightarrow> string \<Rightarrow> string \<Rightarrow> string \<Rightarrow> u64
    \<Rightarrow> easy_tester_error + scenario_state" where
  "validate_member err setup st what zero s v amt =
     res_bind (after_block err st) (\<lambda>_. res_bind (declared_subnet err setup s) (\<lambda>_.
     res_bind (declared_validator err setup v) (\<lambda>_. res_bind (created_before err st what s) (\<lambda>_.
     res_bind (require (amt \<noteq> 0) (err zero)) (\<lambda>_. Inr st)))))"

definition validate_read ::
  "(string \<Rightarrow> easy_tester_error) \<Rightarrow> setup_spec \<Rightarrow> scenario_state \<Rightarrow> output_db \<Rightarrow> string list \<Rightarrow> easy_tester_error + unit" where
  "validate_read err setup st db args =
     (let missing = err ''missing subnet name argument'';
          declared_and_created = (\<lambda>i. res_bind (ok_or (if i < length args then Some (args ! i) else None) missing) (\<lambda>s.
            res_bind (declared_subnet err setup s) (\<lambda>_. created_before err st ''read'' s)))
      in case db of
           OutRewardCandidates \<Rightarrow> declared_and_created 1
         | OutRewardResults \<Rightarrow> Inr ()
         | OutTokenMetadata \<Rightarrow> Inr ()
         | OutRootnetMsgs \<Rightarrow> res_bind (ok_or (if 0 < length args then Some (args ! 0) else None) missing) (created_before err st ''read'')
         | OutTokenBalance \<Rightarrow> res_bind (ok_or (if 0 < length args then Some (args ! 0) else None) missing) (created_before err st ''read'')
         | _ \<Rightarrow> declared_and_created 0)"

definition validate_block :: "(string \<Rightarrow> easy_tester_error) \<Rightarrow> scenario_state \<Rightarrow> u64 \<Rightarrow> easy_tester_error + scenario_state" where
  "validate_block err st height =
     (case sv_last_block_height st of
        Some prev \<Rightarrow> if height \<le> prev
          then Inl (err (''block heights must be strictly increasing (previous '' @ dec (unat prev) @ '', got '' @ dec (unat height) @ '')''))
          else Inr (st\<lparr> sv_last_block_height := Some height, sv_block_set := True \<rparr>)
      | None \<Rightarrow> Inr (st\<lparr> sv_last_block_height := Some height, sv_block_set := True \<rparr>))"

definition validate_create ::
  "(string \<Rightarrow> easy_tester_error) \<Rightarrow> setup_spec \<Rightarrow> scenario_state \<Rightarrow> string \<Rightarrow> easy_tester_error + scenario_state" where
  "validate_create err setup st s =
     res_bind (after_block err st) (\<lambda>_. res_bind (declared_subnet err setup s) (\<lambda>_.
       if s \<in> set (sv_created_subnets st) then Inl (err (''subnet '' @ quoted s @ '' is created more than once''))
       else Inr (st\<lparr> sv_created_subnets := s # sv_created_subnets st \<rparr>)))"

definition validate_expect :: "(string \<Rightarrow> easy_tester_error) \<Rightarrow> scenario_state \<Rightarrow> easy_tester_error + scenario_state" where
  "validate_expect err st =
     res_bind (after_block err st) (\<lambda>_.
       if sv_last_output_read_db st \<in> {Some OutRewardResults, Some OutRootnetMsgs, Some OutTokenBalance, Some OutTokenMetadata}
       then Inr st else Inl (err (''expect is only supported after a '' @ quoted ''read'' @ '' command'')))"

definition validate_entry ::
  "string \<Rightarrow> setup_spec \<Rightarrow> scenario_state \<Rightarrow> scenario_entry \<Rightarrow> easy_tester_error + scenario_state" where
  "validate_entry path setup st e =
     (let err = (\<lambda>m. Parse path (en_line_no e) m (en_text e)) in
      case en_cmd e of
        CmdBlock height \<Rightarrow> validate_block err st height
      | CmdCreate s \<Rightarrow> validate_create err setup st s
      | CmdJoin s v amt \<Rightarrow> validate_member err setup st ''join'' ''collateral must be greater than 0'' s v amt
      | CmdStake s v amt \<Rightarrow> validate_member err setup st ''stake'' ''amount must be greater than 0'' s v amt
      | CmdUnstake s v amt \<Rightarrow> validate_member err setup st ''unstake'' ''amount must be greater than 0'' s v amt
      | CmdWait _ \<Rightarrow> Inr st
      | CmdDeposit _ _ amt \<Rightarrow> res_bind (require (amt \<noteq> 0) (err ''deposit amount must be greater than 0'')) (\<lambda>_. Inr st)
      | CmdCheckpoint s \<Rightarrow>
          res_bind (after_block err st) (\<lambda>_. res_bind (declared_subnet err setup s) (\<lambda>_.
            res_bind (created_before err st ''checkpoint'' s) (\<lambda>_. Inr st)))
      | CmdRegisterToken s _ _ _ _ \<Rightarrow>
          res_bind (after_block err st) (\<lambda>_. res_bind (created_before err st ''register_token'' s) (\<lambda>_. Inr st))
      | CmdMintToken s _ _ \<Rightarrow>
          res_bind (after_block err st) (\<lambda>_. res_bind (created_before err st ''mint/burn'' s) (\<lambda>_. Inr st))
      | CmdBurnToken s _ _ \<Rightarrow>
          res_bind (after_block err st) (\<lambda>_. res_bind (created_before err st ''mint/burn'' s) (\<lambda>_. Inr st))
      | CmdErcTransfer src _ dst _ _ _ \<Rightarrow>
          res_bind (after_block err st) (\<lambda>_. res_bind (created_before err st ''erc_transfer'' src) (\<lambda>_.
            res_bind (created_before err st ''erc_transfer'' dst) (\<lambda>_. Inr st)))
      | CmdOutputRead db args \<Rightarrow>
          res_bind (after_block err st) (\<lambda>_. res_bind (validate_read err setup st db args) (\<lambda>_.
            Inr (st\<lparr> sv_last_output_read_db := Some db \<rparr>)))
      | CmdOutputExpect _ _ \<Rightarrow> validate_expect err st)"

definition validate_scenario :: "string \<Rightarrow> setup_spec \<Rightarrow> scenario_entry list \<Rightarrow> easy_tester_error + scenario_state" where
  "validate_scenario path setup entries = res_fold (validate_entry path setup) scenario_start entries"

definition parse_start :: parse_state where
  "parse_start = \<lparr> ps_section = NoSection, ps_setup = setup_spec_new, ps_entries = [], ps_builder = None, ps_ordinal = 1 \<rparr>"

text \<open>
  The flags of the seen sections are given by the section the parser is in: it enters the setup and the
  scenario section once each, in this order.
\<close>

definition parse_test_file :: "tester_env \<Rightarrow> string \<Rightarrow> string + string \<Rightarrow> easy_tester_error + parsed_test" where
  "parse_test_file E path file =
     res_bind (res_map_err (Io path) file) (\<lambda>raw.
     let ls = text_lines raw in
     res_bind (res_fold (parse_line E path) parse_start (enumerate 1 ls)) (\<lambda>st.
     if ps_section st = NoSection then Inl (Runtime (''test file did not contain a '' @ quoted ''setup'' @ '' section''))
     else if ps_section st \<noteq> ScenarioSection then Inl (Runtime (''test file did not contain a '' @ quoted ''scenario'' @ '' section''))
     else case ps_builder st of
       Some b \<Rightarrow> Inl (Runtime (''internal error: leftover setup builder '' @ quoted (builder_name b)))
     | None \<Rightarrow> res_bind (validate_scenario path (ps_setup st) (ps_entries st)) (\<lambda>_.
         Inr \<lparr> pt_setup = ps_setup st, pt_scenario = map (\<lambda>e. (en_line_no e, en_cmd e)) (ps_entries st) \<rparr>)))"

section \<open>Configuration of the tester\<close>

record config_state =
  cs_tester_type :: "string option"
  cs_activation_height :: "u64 option"
  cs_snapshot_length :: "u64 option"
  cs_monitor_log_level :: "string option"
  cs_provider_log_level :: "string option"
  cs_fendermint :: fendermint_setup

definition config_start :: config_state where
  "config_start = \<lparr> cs_tester_type = None, cs_activation_height = None, cs_snapshot_length = None,
     cs_monitor_log_level = None, cs_provider_log_level = None,
     cs_fendermint = \<lparr> fe_docker_container = ''bitcoin-ipc'', fe_issuers = [], fe_subnets = [],
       fe_subnet_order = [], fe_print_queries = False \<rparr> \<rparr>"

definition parse_config_subnet ::
  "(string \<Rightarrow> easy_tester_error) \<Rightarrow> string list \<Rightarrow> config_state \<Rightarrow> easy_tester_error + config_state" where
  "parse_config_subnet err tokens st =
     arity err 4 ''subnet syntax: <name> <subnet_id> <eth_rpc_url> <provider_url>'' tokens (\<lambda>t.
       let f = cs_fendermint st; sname = t ! 0 in
       if map_of (fe_subnets f) sname \<noteq> None then Inl (err (''duplicate subnet '' @ quoted sname))
       else Inr (st\<lparr> cs_fendermint := f\<lparr> fe_subnet_order := fe_subnet_order f @ [sname],
         fe_subnets := fe_subnets f @ [(sname, \<lparr> fs_name = sname, fs_subnet_id = t ! 1, fs_eth_rpc_url = t ! 2, fs_provider_url = t ! 3 \<rparr>)] \<rparr> \<rparr>))"

definition parse_config_line :: "string \<Rightarrow> config_state \<Rightarrow> nat \<times> string \<Rightarrow> easy_tester_error + config_state" where
  "parse_config_line path st = (\<lambda>(line_no, text).
     let tokens = line_tokens text; err = (\<lambda>m. Parse path line_no m text); c = tokens ! 0 in
     if tokens = [] then Inr st
     else if c = ''tester'' then arity err 2 ''tester requires exactly one argument'' tokens (\<lambda>t.
       Inr (st\<lparr> cs_tester_type := Some (t ! 1) \<rparr>))
     else if c \<in> {''activation_height'', ''snapshot_length'', ''monitor_log_level'', ''provider_log_level''}
     then arity err 2 (c @ '' requires exactly one argument'') tokens (\<lambda>t.
       if c = ''activation_height'' then number_arg err (t ! 1) (\<lambda>n. st\<lparr> cs_activation_height := Some n \<rparr>)
       else if c = ''snapshot_length'' then number_arg err (t ! 1) (\<lambda>n. st\<lparr> cs_snapshot_length := Some n \<rparr>)
       else if c = ''monitor_log_level'' then Inr (st\<lparr> cs_monitor_log_level := Some (t ! 1) \<rparr>)
       else Inr (st\<lparr> cs_provider_log_level := Some (t ! 1) \<rparr>))
     else if c = ''docker_container'' then arity err 2 ''docker_container requires exactly one argument'' tokens (\<lambda>t.
       Inr (st\<lparr> cs_fendermint := (cs_fendermint st)\<lparr> fe_docker_container := t ! 1 \<rparr> \<rparr>))
     else if c = ''print_ipc_queries'' then arity err 2 ''print_ipc_queries requires exactly one argument (on|off)'' tokens (\<lambda>t.
       if t ! 1 = ''on'' then Inr (st\<lparr> cs_fendermint := (cs_fendermint st)\<lparr> fe_print_queries := True \<rparr> \<rparr>)
       else if t ! 1 = ''off'' then Inr (st\<lparr> cs_fendermint := (cs_fendermint st)\<lparr> fe_print_queries := False \<rparr> \<rparr>)
       else Inl (err (''print_ipc_queries value must be '' @ quoted ''on'' @ '' or '' @ quoted ''off'' @ '', got '' @ quoted (t ! 1))))
     else if prefix ''subnet'' c then parse_config_subnet err tokens st
     else Inl (err (''unknown config key '' @ quoted c)))"

definition parse_config_file :: "string \<Rightarrow> string + string \<Rightarrow> easy_tester_error + tester_config" where
  "parse_config_file path file =
     res_bind (res_map_err (Io path) file) (\<lambda>raw.
     let ls = text_lines raw in
     res_bind (res_fold (parse_config_line path) config_start (enumerate 1 ls)) (\<lambda>st.
     case cs_tester_type st of
       None \<Rightarrow> Inl (Runtime (''config file missing required '' @ quoted ''tester'' @ '' line''))
     | Some t \<Rightarrow>
         if t = ''db'' then Inr (ConfigDb (cs_activation_height st) (cs_snapshot_length st))
         else if t = ''monitor'' then Inr (ConfigMonitor (cs_activation_height st) (cs_snapshot_length st)
           (cs_monitor_log_level st) (cs_provider_log_level st))
         else if t = ''fendermint'' then
           (if fe_subnets (cs_fendermint st) = [] then Inl (Runtime ''fendermint config must declare at least one subnet'')
            else Inr (ConfigFendermint (cs_fendermint st)))
         else Inl (Runtime (''unknown tester '' @ quoted t @ '' (expected '' @ quoted ''db'' @ '', '' @ quoted ''monitor''
           @ '', or '' @ quoted ''fendermint'' @ '')''))))"

fun validate_heights :: "(nat \<times> scenario_command) list \<Rightarrow> easy_tester_error + unit" where
  "validate_heights [] = Inr ()"
| "validate_heights ((_, cmd) # rest) =
     (case cmd of
        CmdBlock height \<Rightarrow>
          if height < 102
          then Inl (Runtime (''monitor tester: block heights must be >= 102 (bitcoind pre-mines 101 blocks; got block ''
            @ dec (unat height) @ '')''))
          else validate_heights rest
      | _ \<Rightarrow> validate_heights rest)"

definition validate_scenario_for_tester :: "parsed_test \<Rightarrow> tester_config \<Rightarrow> easy_tester_error + unit" where
  "validate_scenario_for_tester parsed config =
     (case config of ConfigMonitor _ _ _ _ \<Rightarrow> validate_heights (pt_scenario parsed) | _ \<Rightarrow> Inr ())"

section \<open>Tests for the Fendermint tester\<close>

definition known_subnet :: "(string \<Rightarrow> easy_tester_error) \<Rightarrow> fendermint_setup \<Rightarrow> string \<Rightarrow> easy_tester_error + unit" where
  "known_subnet err setup s = require (map_of (fe_subnets setup) s \<noteq> None)
     (err (''subnet '' @ quoted s @ '' not declared in setup''))"

definition known_actor ::
  "(string \<Rightarrow> easy_tester_error) \<Rightarrow> fendermint_setup \<Rightarrow> string \<Rightarrow> string \<Rightarrow> string \<Rightarrow> easy_tester_error + unit" where
  "known_actor err setup what role a = require (map_of (fe_issuers setup) a \<noteq> None)
     (err (what @ '' '' @ quoted a @ '' not declared '' @ role @ ''in setup''))"

definition fendermint_register ::
  "tester_env \<Rightarrow> (string \<Rightarrow> easy_tester_error) \<Rightarrow> fendermint_setup \<Rightarrow> string list \<Rightarrow> easy_tester_error + scenario_command" where
  "fendermint_register E err setup tokens =
     arity err 6 ''register_token syntax: register_token <subnet> <issuer> <name> <symbol> <initial_supply>'' tokens (\<lambda>t.
       res_bind (known_subnet err setup (t ! 1)) (\<lambda>_.
       res_bind (known_actor err setup ''issuer'' '''' (t ! 2)) (\<lambda>_.
       token_arg E err ''invalid initial_supply: '' (t ! 5) (CmdRegisterToken (t ! 1) (Some (t ! 2)) (t ! 3) (t ! 4)))))"

definition fendermint_supply ::
  "tester_env \<Rightarrow> (string \<Rightarrow> easy_tester_error) \<Rightarrow> string list \<Rightarrow> easy_tester_error + scenario_command" where
  "fendermint_supply E err tokens =
     (if tokens ! 0 = ''mint_token''
      then arity err 4 ''mint_token syntax: mint_token <subnet> <token_name> <amount>'' tokens (\<lambda>t.
        token_arg E err ''invalid amount: '' (t ! 3) (CmdMintToken (t ! 1) (t ! 2)))
      else arity err 4 ''burn_token syntax: burn_token <subnet> <token_name> <amount>'' tokens (\<lambda>t.
        token_arg E err ''invalid amount: '' (t ! 3) (CmdBurnToken (t ! 1) (t ! 2))))"

definition fendermint_plain ::
  "(string \<Rightarrow> easy_tester_error) \<Rightarrow> fendermint_setup \<Rightarrow> string list \<Rightarrow> easy_tester_error + scenario_command" where
  "fendermint_plain err setup tokens =
     (if tokens ! 0 = ''wait'' then arity err 2 ''wait syntax: wait <seconds>'' tokens (\<lambda>t.
        number_arg (\<lambda>e. err (''invalid seconds: '' @ e)) (t ! 1) CmdWait)
      else arity err 4 ''deposit syntax: deposit <subnet> <address_name> <amount_sats>'' tokens (\<lambda>t.
        res_bind (known_subnet err setup (t ! 1)) (\<lambda>_.
        res_bind (known_actor err setup ''address'' ''as issuer '' (t ! 2)) (\<lambda>_.
        number_arg (\<lambda>e. err (''invalid amount: '' @ e)) (t ! 3) (CmdDeposit (t ! 1) (t ! 2))))))"

definition fendermint_transfer ::
  "tester_env \<Rightarrow> (string \<Rightarrow> easy_tester_error) \<Rightarrow> fendermint_setup \<Rightarrow> string list \<Rightarrow> easy_tester_error + scenario_command" where
  "fendermint_transfer E err setup tokens =
     arity err 7 ''erc_transfer syntax: erc_transfer <src_subnet> <src_actor> <dst_subnet> <dst_actor> <token_name> <amount>'' tokens (\<lambda>t.
       res_bind (known_subnet err setup (t ! 1)) (\<lambda>_. res_bind (known_subnet err setup (t ! 3)) (\<lambda>_.
       res_bind (known_actor err setup ''actor'' ''as issuer '' (t ! 2)) (\<lambda>_.
       res_bind (known_actor err setup ''actor'' ''as issuer '' (t ! 4)) (\<lambda>_.
       token_arg E err ''invalid amount: '' (t ! 6) (CmdErcTransfer (t ! 1) (Some (t ! 2)) (t ! 3) (Some (t ! 4)) (t ! 5)))))))"

definition fendermint_read ::
  "(string \<Rightarrow> easy_tester_error) \<Rightarrow> fendermint_setup \<Rightarrow> string list \<Rightarrow> easy_tester_error + scenario_command" where
  "fendermint_read err setup tokens =
     (if length tokens < 2 then Inl (err ''read syntax: read <type> <args...>'')
      else if tokens ! 1 = ''token_balance''
      then arity err 5 ''read token_balance syntax: read token_balance <subnet> <actor> <token>'' tokens (\<lambda>t.
        res_bind (known_subnet err setup (t ! 2)) (\<lambda>_.
        res_bind (known_actor err setup ''actor'' ''as issuer '' (t ! 3)) (\<lambda>_.
        Inr (CmdOutputRead OutTokenBalance [t ! 2, t ! 3, t ! 4]))))
      else if tokens ! 1 = ''token_metadata''
      then arity err 4 ''read token_metadata syntax: read token_metadata <subnet> <token>'' tokens (\<lambda>t.
        Inr (CmdOutputRead OutTokenMetadata [t ! 2, t ! 3]))
      else Inr (CmdOutputRead (case parse_output_db (tokens ! 1) of Inr db \<Rightarrow> db | Inl _ \<Rightarrow> OutSubnet) (drop 2 tokens)))"

definition fendermint_expect ::
  "(string \<Rightarrow> easy_tester_error) \<Rightarrow> nat \<Rightarrow> string list \<Rightarrow> easy_tester_error + scenario_command" where
  "fendermint_expect err line_no tokens =
     (if length tokens = 2 \<and> suffix ''.not_empty'' (tokens ! 1)
      then (case strip_suffix ''.not_empty'' (tokens ! 1) of
          Some l \<Rightarrow> res_bind (ok_or (strip_prefix ''result.'' l) (err (''lhs must start with '' @ quoted ''result.''))) (\<lambda>lhs.
            Inr (CmdOutputExpect \<lparr> tg_path = lhs, tg_line_no = line_no \<rparr> ''__not_empty__''))
        | None \<Rightarrow> Inl (err []))
      else res_bind (parse_output_expect err line_no (tl tokens)) (\<lambda>(target, v).
        Inr (CmdOutputExpect target (normalize_numeric_literal v))))"

definition parse_fendermint_scenario_command ::
  "tester_env \<Rightarrow> (string \<Rightarrow> easy_tester_error) \<Rightarrow> nat \<Rightarrow> string list \<Rightarrow> fendermint_setup
    \<Rightarrow> easy_tester_error + scenario_command" where
  "parse_fendermint_scenario_command E err line_no tokens setup =
     (let c = tokens ! 0 in
      if c \<in> {''block'', ''checkpoint''} then Inr (CmdBlock 0)
      else if c \<in> {''create'', ''join'', ''stake'', ''unstake''}
      then Inl (err (quoted c @ '' is not supported by FendermintTester''))
      else if c = ''register_token'' then fendermint_register E err setup tokens
      else if c \<in> {''mint_token'', ''burn_token''} then fendermint_supply E err tokens
      else if c \<in> {''wait'', ''deposit''} then fendermint_plain err setup tokens
      else if c = ''erc_transfer'' then fendermint_transfer E err setup tokens
      else if c = ''read'' then fendermint_read err setup tokens
      else if c = ''expect'' then fendermint_expect err line_no tokens
      else Inl (err (''unknown command '' @ quoted c)))"

record fendermint_state =
  fp_section :: section_kind
  fp_setup :: fendermint_setup
  fp_scenario :: "(nat \<times> scenario_command) list"
  fp_seen_tester_line :: bool

definition fendermint_setup_line ::
  "(string \<Rightarrow> easy_tester_error) \<Rightarrow> string list \<Rightarrow> fendermint_state \<Rightarrow> easy_tester_error + fendermint_state" where
  "fendermint_setup_line err tokens st =
     (if tokens = [''scenario''] then Inr (st\<lparr> fp_section := ScenarioSection \<rparr>)
      else if tokens = [''tester'', ''fendermint''] then Inr (st\<lparr> fp_seen_tester_line := True \<rparr>)
      else if length tokens = 2 \<and> prefix ''0x'' (tokens ! 1) \<and> \<not> prefix ''subnet'' (tokens ! 0)
      then (if map_of (fe_issuers (fp_setup st)) (tokens ! 0) \<noteq> None then Inl (err (''duplicate issuer '' @ quoted (tokens ! 0)))
        else Inr (st\<lparr> fp_setup := (fp_setup st)\<lparr> fe_issuers := fe_issuers (fp_setup st)
          @ [(tokens ! 0, \<lparr> fi_name = tokens ! 0, fi_ipc_address = tokens ! 1 \<rparr>)] \<rparr> \<rparr>))
      else Inl (err ''unrecognised setup line (expected: issuer or tester)''))"

definition parse_fendermint_line ::
  "tester_env \<Rightarrow> string \<Rightarrow> fendermint_state \<Rightarrow> nat \<times> string \<Rightarrow> easy_tester_error + fendermint_state" where
  "parse_fendermint_line E path st = (\<lambda>(line_no, text).
     let tokens = line_tokens text; err = (\<lambda>m. Parse path line_no m text) in
     if tokens = [] then Inr st else
     case fp_section st of
       NoSection \<Rightarrow> if tokens = [''setup''] then Inr (st\<lparr> fp_section := SetupSection \<rparr>)
         else Inl (err (''expected '' @ quoted ''setup'' @ '' as the first section''))
     | SetupSection \<Rightarrow> fendermint_setup_line err tokens st
     | ScenarioSection \<Rightarrow> res_bind (parse_fendermint_scenario_command E err line_no tokens (fp_setup st)) (\<lambda>cmd.
         Inr (st\<lparr> fp_scenario := fp_scenario st @ [(line_no, cmd)] \<rparr>)))"

definition parse_fendermint_test_file ::
  "tester_env \<Rightarrow> string \<Rightarrow> string + string \<Rightarrow> fendermint_setup \<Rightarrow> easy_tester_error + parsed_fendermint_test" where
  "parse_fendermint_test_file E path file config_setup =
     res_bind (res_map_err (Io path) file) (\<lambda>raw.
     let ls = text_lines raw in
     res_bind (res_fold (parse_fendermint_line E path)
       \<lparr> fp_section = NoSection, fp_setup = config_setup, fp_scenario = [], fp_seen_tester_line = False \<rparr>
       (enumerate 1 ls)) (\<lambda>st.
     if \<not> fp_seen_tester_line st then Inl (Runtime (''fendermint test file must contain '' @ quoted ''tester fendermint'' @ '' in setup''))
     else if fe_issuers (fp_setup st) = [] then Inl (Runtime ''fendermint test file must declare at least one issuer'')
     else if fe_subnets (fp_setup st) = [] then Inl (Runtime ''fendermint test file must declare at least one subnet'')
     else Inr \<lparr> ft_setup = fp_setup st, ft_scenario = fp_scenario st \<rparr>))"

end
