(* ===== verification/Tester.thy ===== *)
theory Tester
  imports Scenario Monitor
begin

text \<open>
  Running scenarios: the tester interface (\<open>src/src/easy_tester/tester.rs\<close>), the driver
  (\<open>src/src/bin/easy_tester.rs\<close>) and the tester that runs the message handlers on a database
  (\<open>src/src/easy_tester/db_tester.rs\<close>).  The trait is a record of operations.  The first error ends a run
  and the tester with it, so an operation returns an error or the next state.  What is printed is left
  out, and so is the text of an inner error that a message ends with.  Random bytes are drawn from
  \<open>te_random\<close>, numbered by their order.
\<close>

section \<open>The tester interface and its driver\<close>

record 't tester =
  exec_mine_block :: "u64 \<Rightarrow> 't \<Rightarrow> easy_tester_error + 't"
  exec_create_subnet :: "u64 \<Rightarrow> string \<Rightarrow> 't \<Rightarrow> easy_tester_error + 't"
  exec_join_subnet :: "u64 \<Rightarrow> string \<Rightarrow> string \<Rightarrow> u64 \<Rightarrow> 't \<Rightarrow> easy_tester_error + 't"
  exec_stake_subnet :: "u64 \<Rightarrow> string \<Rightarrow> string \<Rightarrow> u64 \<Rightarrow> 't \<Rightarrow> easy_tester_error + 't"
  exec_unstake_subnet :: "u64 \<Rightarrow> string \<Rightarrow> string \<Rightarrow> u64 \<Rightarrow> 't \<Rightarrow> easy_tester_error + 't"
  exec_checkpoint_subnet :: "u64 \<Rightarrow> string \<Rightarrow> 't \<Rightarrow> easy_tester_error + 't"
  exec_register_token :: "u64 \<Rightarrow> string \<Rightarrow> string \<Rightarrow> string \<Rightarrow> u256 \<Rightarrow> 't \<Rightarrow> easy_tester_error + 't"
  exec_mint_token :: "u64 \<Rightarrow> string \<Rightarrow> string \<Rightarrow> u256 \<Rightarrow> 't \<Rightarrow> easy_tester_error + 't"
  exec_burn_token :: "u64 \<Rightarrow> string \<Rightarrow> string \<Rightarrow> u256 \<Rightarrow> 't \<Rightarrow> easy_tester_error + 't"
  exec_erc_transfer :: "u64 \<Rightarrow> string \<Rightarrow> string \<Rightarrow> string \<Rightarrow> u256 \<Rightarrow> 't \<Rightarrow> easy_tester_error + 't"
  exec_deposit :: "u64 \<Rightarrow> string \<Rightarrow> string \<Rightarrow> u64 \<Rightarrow> 't \<Rightarrow> easy_tester_error + 't"
  exec_output_read :: "u64 \<Rightarrow> output_db \<Rightarrow> string list \<Rightarrow> 't \<Rightarrow> easy_tester_error + 't"
  exec_output_expect :: "u64 \<Rightarrow> output_expect_target \<Rightarrow> string \<Rightarrow> 't \<Rightarrow> easy_tester_error + string"

fun show_error :: "easy_tester_error \<Rightarrow> string" where
  "show_error (Io path source) = ''I/O error reading '' @ path @ '': '' @ source"
| "show_error (Parse path line message text) = ''parse error at '' @ path @ '':'' @ dec line @ '': '' @ message"
| "show_error (Runtime message) = ''runtime error: '' @ message"

definition annotate :: "nat \<Rightarrow> easy_tester_error \<Rightarrow> string" where
  "annotate line_no e = ''line '' @ dec line_no @ '': '' @ show_error e"

definition run_block :: "'t tester \<Rightarrow> u64 \<Rightarrow> u64 \<Rightarrow> 't \<Rightarrow> easy_tester_error + (u64 \<times> 't)" where
  "run_block T working_height height t =
     (if height < working_height then Inl (Runtime ''Scenario blocks cannot be decreasing'')
      else res_bind (res_fold (\<lambda>t h. exec_mine_block T h t) t (map of_nat [unat working_height..<unat height]))
        (\<lambda>t'. Inr (height, t')))"

definition run_command :: "'t tester \<Rightarrow> scenario_command \<Rightarrow> u64 \<times> 't \<Rightarrow> easy_tester_error + (u64 \<times> 't)" where
  "run_command T cmd = (\<lambda>(h, t).
     let stay = (\<lambda>r. res_bind r (\<lambda>t'. Inr (h, t'))) in
     case cmd of
       CmdBlock height \<Rightarrow> run_block T h height t
     | CmdCreate s \<Rightarrow> stay (exec_create_subnet T h s t)
     | CmdJoin s v n \<Rightarrow> stay (exec_join_subnet T h s v n t)
     | CmdStake s v n \<Rightarrow> stay (exec_stake_subnet T h s v n t)
     | CmdUnstake s v n \<Rightarrow> stay (exec_unstake_subnet T h s v n t)
     | CmdCheckpoint s \<Rightarrow> stay (exec_checkpoint_subnet T h s t)
     | CmdRegisterToken s _ name symbol supply \<Rightarrow> stay (exec_register_token T h s name symbol supply t)
     | CmdMintToken s tok a \<Rightarrow> stay (exec_mint_token T h s tok a t)
     | CmdBurnToken s tok a \<Rightarrow> stay (exec_burn_token T h s tok a t)
     | CmdWait _ \<Rightarrow> Inr (h, t)
     | CmdDeposit s a n \<Rightarrow> stay (exec_deposit T h s a n t)
     | CmdErcTransfer src _ dst _ tok a \<Rightarrow> stay (exec_erc_transfer T h src dst tok a t)
     | CmdOutputRead db args \<Rightarrow> stay (exec_output_read T h db args t)
     | CmdOutputExpect target v \<Rightarrow> stay (res_bind (exec_output_expect T h target v t) (\<lambda>_. Inr t)))"

fun failure_text :: "nat \<Rightarrow> scenario_command \<Rightarrow> easy_tester_error \<Rightarrow> string" where
  "failure_text line_no (CmdOutputExpect _ _) e =
     annotate line_no e @ '' '' @ CHR 0x1B # ''[31m(fail)'' @ CHR 0x1B # ''[0m''"
| "failure_text line_no _ e = annotate line_no e"

definition run_scenario ::
  "'t tester \<Rightarrow> (nat \<times> scenario_command) list \<Rightarrow> u64 \<Rightarrow> 't \<Rightarrow> string + (u64 \<times> 't)" where
  "run_scenario T scenario starting_block t =
     (if starting_block < 1 then Inl ''starting_block must be >= 1''
      else res_fold (\<lambda>st (line_no, cmd). res_map_err (failure_text line_no cmd) (run_command T cmd st))
             (starting_block, t) scenario)"

section \<open>The tester on a database\<close>

record last_reward_results =
  lr_snapshot :: u64
  lr_rewards_by_validator :: "string \<rightharpoonup> u64"
  lr_total_sats :: u64

record db_tester =
  dt_db :: heed_db
  dt_setup :: setup_spec
  dt_block_hashes :: "u64 \<rightharpoonup> block_hash"
  dt_created_subnets :: "string \<rightharpoonup> subnet_id"
  dt_checkpoint_heights :: "string \<rightharpoonup> u64"
  dt_registered_tokens :: "string \<rightharpoonup> string \<times> ipc_erc_token_registration"
  dt_pending_registrations :: "string \<Rightarrow> ipc_erc_token_registration list"
  dt_pending_supply_adjustments :: "string \<Rightarrow> ipc_erc_supply_adjustment list"
  dt_pending_erc_transfers :: "string \<Rightarrow> ipc_cross_subnet_erc_transfer list"
  dt_last_rootnet_msgs :: "rootnet_message list option"
  dt_last_token_balance :: "u256 option"
  dt_reward_tracker :: "reward_config option"
  dt_last_reward_results :: "last_reward_results option"
  dt_draws :: nat

text \<open>A pending list that was removed and one that was never started are both empty.\<close>

definition db_tester_new :: "setup_spec \<Rightarrow> u64 option \<Rightarrow> u64 option \<Rightarrow> easy_tester_error + db_tester" where
  "db_tester_new setup activation_height snapshot_length =
     res_bind (case (activation_height, snapshot_length) of
         (Some ah, Some sl) \<Rightarrow> res_bind (res_map_err (\<lambda>_. Runtime ''invalid reward config'') (reward_config_new ah sl)) (\<lambda>c. Inr (Some c))
       | _ \<Rightarrow> Inr None) (\<lambda>tracker.
     Inr \<lparr> dt_db = empty_db, dt_setup = setup, dt_block_hashes = Map.empty, dt_created_subnets = Map.empty,
           dt_checkpoint_heights = Map.empty, dt_registered_tokens = Map.empty, dt_pending_registrations = (\<lambda>_. []),
           dt_pending_supply_adjustments = (\<lambda>_. []), dt_pending_erc_transfers = (\<lambda>_. []),
           dt_last_rootnet_msgs = None, dt_last_token_balance = None, dt_reward_tracker = tracker,
           dt_last_reward_results = None, dt_draws = 0 \<rparr>)"

definition draw :: "tester_env \<Rightarrow> nat \<Rightarrow> db_tester \<Rightarrow> bytes \<times> db_tester" where
  "draw E n t = (te_random E (dt_draws t) n, t\<lparr> dt_draws := Suc (dt_draws t) \<rparr>)"

definition block_hash_at :: "tester_env \<Rightarrow> u64 \<Rightarrow> db_tester \<Rightarrow> block_hash \<times> db_tester" where
  "block_hash_at E height t =
     (case dt_block_hashes t height of
        Some bh \<Rightarrow> (bh, t)
      | None \<Rightarrow> let (bh, t') = draw E 32 t in (bh, t'\<lparr> dt_block_hashes := (dt_block_hashes t')(height \<mapsto> bh) \<rparr>))"

definition resolve_subnet_id :: "string \<Rightarrow> db_tester \<Rightarrow> easy_tester_error + subnet_id" where
  "resolve_subnet_id s t = ok_or (dt_created_subnets t s) (Runtime (''subnet '' @ quoted s @ '' not found in created subnets''))"

definition resolve_validator :: "string \<Rightarrow> db_tester \<Rightarrow> easy_tester_error + validator_spec" where
  "resolve_validator v t = ok_or (map_of (su_validators (dt_setup t)) v)
     (Runtime (''validator '' @ quoted v @ '' missing from parsed setup''))"

definition mine_block :: "tester_env \<Rightarrow> u64 \<Rightarrow> db_tester \<Rightarrow> db_tester" where
  "mine_block E height t =
     (let t' = snd (block_hash_at E height t) in t'\<lparr> dt_db := set_last_processed_block height (dt_db t') \<rparr>)"

definition tester_create :: "ext \<Rightarrow> tester_env \<Rightarrow> u64 \<Rightarrow> string \<Rightarrow> db_tester \<Rightarrow> easy_tester_error + db_tester" where
  "tester_create X E height s t =
     res_bind (ok_or (map_of (su_subnets (dt_setup t)) s) (Runtime (''subnet '' @ quoted s @ '' missing from parsed setup''))) (\<lambda>spec.
     if dt_created_subnets t s \<noteq> None then Inl (Runtime (''subnet '' @ quoted s @ '' already created'')) else
     let msg = build_create_subnet_msg spec in
     res_bind (res_map_err (\<lambda>_. Runtime ''create msg invalid'') (create_validate msg)) (\<lambda>_.
     let (tid, t1) = draw E 32 t in
     res_bind (res_map_err (\<lambda>_. Runtime ''create failed'') (create_save_to_db X (dt_db t1) height tid msg)) (\<lambda>(db', genesis_info).
     Inr (t1\<lparr> dt_db := db', dt_created_subnets := (dt_created_subnets t1)(s \<mapsto> gi_subnet_id genesis_info) \<rparr>))))"

definition tester_join :: "ext \<Rightarrow> tester_env \<Rightarrow> u64 \<Rightarrow> string \<Rightarrow> string \<Rightarrow> u64 \<Rightarrow> db_tester \<Rightarrow> easy_tester_error + db_tester" where
  "tester_join X E height s v sats t =
     (let (bh, t1) = block_hash_at E height t in
     res_bind (resolve_subnet_id s t1) (\<lambda>sid.
     res_bind (resolve_validator v t1) (\<lambda>val.
     let msg = \<lparr> jm_subnet_id = sid, jm_collateral = sats, jm_ip = vs_default_ip val,
                 jm_backup_address = vs_default_backup_address val, jm_pubkey = vs_pubkey val \<rparr> in
     res_bind (res_map_err (\<lambda>_. Runtime ''join msg invalid'') (join_validate X msg)) (\<lambda>_.
     res_bind (ok_or (get_subnet_genesis_info X (dt_db t1) sid) (Runtime ''subnet genesis info missing'')) (\<lambda>g.
     res_bind (res_map_err (\<lambda>_. Runtime ''join rejected'') (join_validate_for_subnet msg g (get_subnet_state X (dt_db t1) sid))) (\<lambda>_.
     let (tid, t2) = draw E 32 t1 in
     res_bind (res_map_err (\<lambda>_. Runtime ''join failed'') (join_save_to_db X (dt_db t2) height bh tid msg)) (\<lambda>(db', _).
     Inr (t2\<lparr> dt_db := db' \<rparr>))))))))"

definition tester_stake :: "ext \<Rightarrow> tester_env \<Rightarrow> u64 \<Rightarrow> string \<Rightarrow> string \<Rightarrow> u64 \<Rightarrow> db_tester \<Rightarrow> easy_tester_error + db_tester" where
  "tester_stake X E height s v sats t =
     (let (bh, t1) = block_hash_at E height t in
     res_bind (resolve_subnet_id s t1) (\<lambda>sid.
     res_bind (resolve_validator v t1) (\<lambda>val.
     let msg = \<lparr> sm_subnet_id = sid, sm_amount = sats, sm_pubkey = vs_pubkey val \<rparr> in
     res_bind (res_map_err (\<lambda>_. Runtime ''stake msg invalid'') (stake_validate msg)) (\<lambda>_.
     res_bind (ok_or (get_subnet_state X (dt_db t1) sid) (Runtime ''subnet state missing'')) (\<lambda>st.
     res_bind (res_map_err (\<lambda>_. Runtime ''stake rejected'') (stake_validate_for_subnet msg st)) (\<lambda>_.
     let (tid, t2) = draw E 32 t1 in
     res_bind (res_map_err (\<lambda>_. Runtime ''stake failed'') (stake_save_to_db X (dt_db t2) height bh tid msg)) (\<lambda>db'.
     Inr (t2\<lparr> dt_db := db' \<rparr>))))))))"

definition tester_unstake :: "ext \<Rightarrow> tester_env \<Rightarrow> u64 \<Rightarrow> string \<Rightarrow> string \<Rightarrow> u64 \<Rightarrow> db_tester \<Rightarrow> easy_tester_error + db_tester" where
  "tester_unstake X E height s v sats t =
     (let (bh, t1) = block_hash_at E height t in
     res_bind (resolve_subnet_id s t1) (\<lambda>sid.
     res_bind (resolve_validator v t1) (\<lambda>val.
     let msg = \<lparr> um_subnet_id = sid, um_amount = sats, um_pubkey = Some (vs_pubkey val) \<rparr> in
     res_bind (res_map_err (\<lambda>_. Runtime ''unstake msg invalid'') (unstake_validate msg)) (\<lambda>_.
     res_bind (ok_or (get_subnet_genesis_info X (dt_db t1) sid) (Runtime ''subnet genesis info missing'')) (\<lambda>g.
     res_bind (ok_or (get_subnet_state X (dt_db t1) sid) (Runtime ''subnet state missing'')) (\<lambda>st.
     res_bind (res_map_err (\<lambda>_. Runtime ''unstake rejected'') (unstake_validate_for_subnet msg g st)) (\<lambda>_.
     let (tid, t2) = draw E 32 t1 in
     res_bind (res_map_err (\<lambda>_. Runtime ''unstake failed'') (unstake_save_to_db X (dt_db t2) height bh tid msg)) (\<lambda>db'.
     Inr (t2\<lparr> dt_db := db' \<rparr>)))))))))"

definition tester_checkpoint_msg :: "subnet_id \<Rightarrow> bytes \<Rightarrow> u64 \<Rightarrow> u64 \<Rightarrow> ipc_erc_token_registration list
   \<Rightarrow> ipc_erc_supply_adjustment list \<Rightarrow> ipc_cross_subnet_erc_transfer list \<Rightarrow> ipc_checkpoint_subnet_msg" where
  "tester_checkpoint_msg sid hash height next_cfg regs adjs txs =
     \<lparr> ck_subnet_id = sid, ck_checkpoint_hash = hash, ck_checkpoint_height = height,
       ck_next_committee_configuration_number = next_cfg, ck_withdrawals = [], ck_transfers = [],
       ck_token_registrations = regs, ck_token_supply_adjustments = adjs, ck_token_transfers = txs,
       ck_unstakes = [], ck_change_address = None, ck_is_kill_checkpoint = False \<rparr>"

text \<open>A rejected batch is printed; it does not fail the checkpoint.  A panic while it is saved ends the run.\<close>

definition tester_batch ::
  "ext \<Rightarrow> tester_env \<Rightarrow> u64 \<Rightarrow> block_hash \<Rightarrow> txid \<Rightarrow> ipc_checkpoint_subnet_msg \<Rightarrow> db_tester
   \<Rightarrow> easy_tester_error + db_tester" where
  "tester_batch X E height bh tid msg t =
     (if ck_token_registrations msg = [] \<and> ck_token_supply_adjustments msg = [] \<and> ck_token_transfers msg = [] then Inr t
      else let batch = \<lparr> bt_subnet_id = ck_subnet_id msg, bt_checkpoint_txid = tid, bt_checkpoint_vout = 0, bt_transfers = [],
                 bt_token_registrations = ck_token_registrations msg,
                 bt_token_supply_adjustments = ck_token_supply_adjustments msg,
                 bt_token_transfers = ck_token_transfers msg \<rparr>;
               (btid, t1) = draw E 32 t
           in case batch_save_to_db X (dt_db t1) height bh btid batch of
                Inr (db', _) \<Rightarrow> Inr (t1\<lparr> dt_db := db' \<rparr>)
              | Inl (Panic m) \<Rightarrow> Inl (Runtime m)
              | Inl _ \<Rightarrow> Inr t1)"

definition tester_checkpoint ::
  "ext \<Rightarrow> tester_env \<Rightarrow> u64 \<Rightarrow> string \<Rightarrow> ipc_erc_token_registration list \<Rightarrow> ipc_erc_supply_adjustment list
   \<Rightarrow> ipc_cross_subnet_erc_transfer list \<Rightarrow> db_tester \<Rightarrow> easy_tester_error + (subnet_checkpoint \<times> db_tester)" where
  "tester_checkpoint X E height s regs adjs txs t =
     res_bind (resolve_subnet_id s t) (\<lambda>sid.
     let (bh, t1) = block_hash_at E height t in
     res_bind (ok_or (get_subnet_state X (dt_db t1) sid) (Runtime ''subnet state missing'')) (\<lambda>st.
     let current_cfg = cm_configuration_number (ss_committee st);
         latest_cfg = get_last_stake_change_configuration_number X (dt_db t1) sid;
         next_cfg = (if current_cfg < latest_cfg then latest_cfg else 0);
         checkpoint_height = (case dt_checkpoint_heights t1 s of Some h \<Rightarrow> h + 1 | None \<Rightarrow> 1);
         t2 = t1\<lparr> dt_checkpoint_heights := (dt_checkpoint_heights t1)(s \<mapsto> checkpoint_height) \<rparr>;
         (hash, t3) = draw E 32 t2;
         msg = tester_checkpoint_msg sid hash checkpoint_height next_cfg regs adjs txs
     in
     res_bind (res_map_err (\<lambda>_. Runtime ''checkpoint msg invalid'') (checkpoint_validate X msg)) (\<lambda>_.
     let (tid, t4) = draw E 32 t3 in
     res_bind (res_map_err (\<lambda>_. Runtime ''checkpoint failed'') (checkpoint_save_to_db X (dt_db t4) height bh tid msg)) (\<lambda>(db', checkpoint).
     res_bind (tester_batch X E height bh tid msg (t4\<lparr> dt_db := db' \<rparr>)) (\<lambda>t5. Inr (checkpoint, t5))))))"

definition queue_token_registration ::
  "tester_env \<Rightarrow> string \<Rightarrow> string \<Rightarrow> string \<Rightarrow> u256 \<Rightarrow> db_tester \<Rightarrow> easy_tester_error + db_tester" where
  "queue_token_registration E s name symbol supply t =
     res_bind (resolve_subnet_id s t) (\<lambda>_.
     res_bind (case dt_registered_tokens t name of
         Some (prev_subnet, prev_reg) \<Rightarrow>
           if prev_subnet \<noteq> s then Inl (Runtime (''token '' @ quoted name @ '' was already registered on subnet '' @ quoted prev_subnet
             @ '', cannot re-register on '' @ quoted s))
           else Inr (er_home_token_address prev_reg, t)
       | None \<Rightarrow> Inr (draw E 20 t)) (\<lambda>(home, t1).
     let etr = \<lparr> er_home_token_address = home, er_name = name, er_symbol = symbol, er_decimals = 18, er_initial_supply = supply \<rparr>
     in Inr (t1\<lparr> dt_registered_tokens := (dt_registered_tokens t1)(name \<mapsto> (s, etr)),
          dt_pending_registrations := (dt_pending_registrations t1)(s := dt_pending_registrations t1 s @ [etr]) \<rparr>)))"

definition queue_erc_transfer ::
  "tester_env \<Rightarrow> string \<Rightarrow> string \<Rightarrow> string \<Rightarrow> u256 \<Rightarrow> db_tester \<Rightarrow> easy_tester_error + db_tester" where
  "queue_erc_transfer E src dst tok a t =
     res_bind (resolve_subnet_id src t) (\<lambda>_.
     res_bind (resolve_subnet_id dst t) (\<lambda>destination.
     res_bind (ok_or (dt_registered_tokens t tok) (Runtime (''token '' @ quoted tok @ '' not registered (use register_token first)''))) (\<lambda>(reg_subnet, reg).
     res_bind (resolve_subnet_id reg_subnet t) (\<lambda>home.
     let (recipient, t1) = draw E 20 t;
         etx = \<lparr> et_home_subnet_id = home, et_home_token_address = er_home_token_address reg, et_amount = a,
                 et_destination_subnet_id = destination, et_recipient = recipient \<rparr>
     in Inr (t1\<lparr> dt_pending_erc_transfers := (dt_pending_erc_transfers t1)(src := dt_pending_erc_transfers t1 src @ [etx]) \<rparr>)))))"

text \<open>Conversion of an unsigned amount to a signed one fails above the largest signed number.\<close>

definition i256_try_from :: "u256 \<Rightarrow> 256 word option" where
  "i256_try_from a = (if unat a < 2 ^ 255 then Some a else None)"

definition i256_checked_neg :: "256 word \<Rightarrow> 256 word option" where
  "i256_checked_neg a = (if unat a = 2 ^ 255 then None else Some (- a))"

definition queue_supply_adjustment :: "string \<Rightarrow> string \<Rightarrow> (easy_tester_error + 256 word) \<Rightarrow> db_tester \<Rightarrow> easy_tester_error + db_tester" where
  "queue_supply_adjustment s tok delta t =
     res_bind (resolve_subnet_id s t) (\<lambda>_.
     res_bind (ok_or (dt_registered_tokens t tok) (Runtime (''token '' @ quoted tok @ '' not registered''))) (\<lambda>(_, reg).
     res_bind delta (\<lambda>d.
     Inr (t\<lparr> dt_pending_supply_adjustments := (dt_pending_supply_adjustments t)(s := dt_pending_supply_adjustments t s
            @ [\<lparr> ea_home_token_address = er_home_token_address reg, ea_delta = d \<rparr>]) \<rparr>))))"

definition queue_mint :: "string \<Rightarrow> string \<Rightarrow> u256 \<Rightarrow> db_tester \<Rightarrow> easy_tester_error + db_tester" where
  "queue_mint s tok a t = queue_supply_adjustment s tok (ok_or (i256_try_from a) (Runtime ''mint amount too large for I256'')) t"

definition queue_burn :: "string \<Rightarrow> string \<Rightarrow> u256 \<Rightarrow> db_tester \<Rightarrow> easy_tester_error + db_tester" where
  "queue_burn s tok a t = queue_supply_adjustment s tok
     (res_bind (ok_or (i256_try_from a) (Runtime ''burn amount too large for I256'')) (\<lambda>p.
        ok_or (i256_checked_neg p) (Runtime ''burn amount overflow (I256::MIN)''))) t"

definition db_exec_mine_block ::
  "ext \<Rightarrow> tester_env \<Rightarrow> (rewards \<Rightarrow> rewards) \<Rightarrow> u64 \<Rightarrow> db_tester \<Rightarrow> easy_tester_error + db_tester" where
  "db_exec_mine_block X E ord height t =
     (let t1 = mine_block E height t in
      case dt_reward_tracker t1 of
        None \<Rightarrow> Inr t1
      | Some cfg \<Rightarrow> (case update_after_block X ord cfg height (dt_db t1) of
            (db', Inr _) \<Rightarrow> Inr (t1\<lparr> dt_db := db' \<rparr>)
          | (_, Inl _) \<Rightarrow> Inl (Runtime (''reward bookkeeping after block '' @ dec (unat height) @ '' failed''))))"

definition db_exec_deposit :: "string \<Rightarrow> db_tester \<Rightarrow> easy_tester_error + db_tester" where
  "db_exec_deposit s t = res_bind (resolve_subnet_id s t) (\<lambda>_. Inr t)"

definition db_exec_checkpoint :: "ext \<Rightarrow> tester_env \<Rightarrow> u64 \<Rightarrow> string \<Rightarrow> db_tester \<Rightarrow> easy_tester_error + db_tester" where
  "db_exec_checkpoint X E height s t =
     (let regs = dt_pending_registrations t s; adjs = dt_pending_supply_adjustments t s; txs = dt_pending_erc_transfers t s;
          t1 = t\<lparr> dt_pending_registrations := (dt_pending_registrations t)(s := []),
                  dt_pending_supply_adjustments := (dt_pending_supply_adjustments t)(s := []),
                  dt_pending_erc_transfers := (dt_pending_erc_transfers t)(s := []) \<rparr>
      in res_bind (resolve_subnet_id s t1) (\<lambda>sid.
      res_bind (tester_checkpoint X E height s regs adjs txs t1) (\<lambda>(checkpoint, t2).
      case dt_reward_tracker t2 of
        None \<Rightarrow> Inr t2
      | Some cfg \<Rightarrow> res_bind (res_map_err (\<lambda>_. Runtime ''reward bookkeeping after checkpoint failed'')
            (update_after_checkpoint X cfg height sid checkpoint (dt_db t2))) (\<lambda>db'. Inr (t2\<lparr> dt_db := db' \<rparr>)))))"

section \<open>Reading and expecting\<close>

text \<open>Digits in groups of three from the right.\<close>

fun group_digits :: "nat \<Rightarrow> string \<Rightarrow> string" where
  "group_digits i [] = []"
| "group_digits i (c # cs) = (if i \<noteq> 0 \<and> i mod 3 = 0 then CHR ''_'' # c # group_digits (Suc i) cs else c # group_digits (Suc i) cs)"

definition fmt_sats_with_underscores :: "u64 \<Rightarrow> string" where
  "fmt_sats_with_underscores sats = rev (group_digits 0 (rev (dec (unat sats))))"

definition msg_field_value :: "tester_env \<Rightarrow> rootnet_message \<Rightarrow> string \<Rightarrow> string + string" where
  "msg_field_value E msg field =
     (if field = ''kind'' then
        Inr (case msg of FundSubnet _ _ _ _ _ \<Rightarrow> ''fund'' | ErcTransfer _ _ _ _ _ \<Rightarrow> ''erc_transfer''
           | ErcRegistration _ _ _ _ _ _ \<Rightarrow> ''erc_registration'')
      else if field = ''tokenName'' then
        (case msg of ErcRegistration _ r _ _ _ _ \<Rightarrow> Inr (er_name r)
         | _ \<Rightarrow> Inl (''field '' @ quoted ''tokenName'' @ '' only available on erc_registration messages''))
      else if field = ''tokenSymbol'' then
        (case msg of ErcRegistration _ r _ _ _ _ \<Rightarrow> Inr (er_symbol r)
         | _ \<Rightarrow> Inl (''field '' @ quoted ''tokenSymbol'' @ '' only available on erc_registration messages''))
      else if field = ''tokenDecimals'' then
        (case msg of ErcRegistration _ r _ _ _ _ \<Rightarrow> Inr (dec (unat (er_decimals r)))
         | _ \<Rightarrow> Inl (''field '' @ quoted ''tokenDecimals'' @ '' only available on erc_registration messages''))
      else if field = ''token'' then
        (case msg of ErcTransfer etx _ _ _ _ \<Rightarrow> Inr (te_show_address E (et_home_token_address etx))
         | ErcRegistration _ r _ _ _ _ \<Rightarrow> Inr (te_show_address E (er_home_token_address r))
         | _ \<Rightarrow> Inl (''field '' @ quoted ''token'' @ '' only available on ERC messages''))
      else if field = ''amount'' then
        (case msg of ErcTransfer etx _ _ _ _ \<Rightarrow> Inr (dec (unat (et_amount etx)))
         | FundSubnet m _ _ _ _ \<Rightarrow> Inr (dec (unat (fm_amount m)))
         | _ \<Rightarrow> Inl (''field '' @ quoted ''amount'' @ '' not available on erc_registration messages''))
      else Inl (''unknown field '' @ quoted field))"

definition read_arg :: "string list \<Rightarrow> nat \<Rightarrow> easy_tester_error + string" where
  "read_arg args i = ok_or (if i < length args then Some (args ! i) else None) (Runtime ''panic: index out of bounds'')"

definition read_number :: "string \<Rightarrow> string list \<Rightarrow> nat \<Rightarrow> easy_tester_error + u64" where
  "read_number what args i = res_bind (read_arg args i) (\<lambda>s.
     res_map_err (\<lambda>e. Runtime (''invalid '' @ what @ '': '' @ e)) (res_bind (parse_uint 64 s) (\<lambda>n. Inr (of_nat n))))"

definition reset_reads :: "db_tester \<Rightarrow> db_tester" where
  "reset_reads t = t\<lparr> dt_last_rootnet_msgs := None, dt_last_token_balance := None, dt_last_reward_results := None \<rparr>"

definition rewards_by_name :: "setup_spec \<Rightarrow> rewards \<Rightarrow> string \<rightharpoonup> u64" where
  "rewards_by_name setup rs =
     (let pk_to_name = map_of (rev (map (\<lambda>(n, v). (vs_pubkey v, n)) (su_validators setup)))
      in fold (\<lambda>(pk, amt) m. case pk_to_name pk of
           Some name \<Rightarrow> m(name \<mapsto> (case m name of Some a \<Rightarrow> a | None \<Rightarrow> 0) + amt) | None \<Rightarrow> m) rs Map.empty)"

definition read_rootnet_msgs :: "ext \<Rightarrow> string list \<Rightarrow> db_tester \<Rightarrow> easy_tester_error + db_tester" where
  "read_rootnet_msgs X args t =
     res_bind (read_arg args 0) (\<lambda>s. res_bind (resolve_subnet_id s t) (\<lambda>sid.
       Inr (t\<lparr> dt_last_rootnet_msgs := Some (get_all_rootnet_msgs X (dt_db t) sid) \<rparr>)))"

definition read_token_balance :: "ext \<Rightarrow> string list \<Rightarrow> db_tester \<Rightarrow> easy_tester_error + db_tester" where
  "read_token_balance X args t =
     res_bind (read_arg args 0) (\<lambda>s. res_bind (read_arg args 1) (\<lambda>tok.
     res_bind (resolve_subnet_id s t) (\<lambda>sid.
     res_bind (ok_or (dt_registered_tokens t tok) (Runtime (''token '' @ quoted tok @ '' not registered''))) (\<lambda>(home_name, reg).
     res_bind (resolve_subnet_id home_name t) (\<lambda>home.
     Inr (t\<lparr> dt_last_token_balance := Some (get_token_balance X (dt_db t) home (er_home_token_address reg) sid) \<rparr>))))))"

definition read_reward_results :: "string list \<Rightarrow> db_tester \<Rightarrow> easy_tester_error + db_tester" where
  "read_reward_results args t =
     res_bind (ok_or (dt_reward_tracker t)
       (Runtime ''reward tracking not configured (add activation_height and snapshot_length to config file)'')) (\<lambda>_.
     res_bind (read_number ''snapshot'' args 0) (\<lambda>snapshot.
     case get_snapshot_result (dt_db t) snapshot of
       None \<Rightarrow> Inr t
     | Some r \<Rightarrow> Inr (t\<lparr> dt_last_reward_results := Some \<lparr> lr_snapshot = snapshot,
           lr_rewards_by_validator = rewards_by_name (dt_setup t) (sr_rewards_list r),
           lr_total_sats = sr_total_rewarded_collateral r \<rparr> \<rparr>)))"

text \<open>The other reads only print what the database returns.\<close>

definition print_read :: "output_db \<Rightarrow> string list \<Rightarrow> db_tester \<Rightarrow> easy_tester_error + db_tester" where
  "print_read db args t =
     (let printed = (\<lambda>i. res_bind (read_arg args i) (\<lambda>s. res_bind (resolve_subnet_id s t) (\<lambda>_. Inr t))) in
      case db of
        OutSubnet \<Rightarrow> printed 0
      | OutSubnetGenesis \<Rightarrow> printed 0
      | OutCommittee \<Rightarrow> res_bind (read_number ''committee_number'' args 1) (\<lambda>_. printed 0)
      | OutStakeChanges \<Rightarrow> res_bind (read_number ''configuration_number'' args 1) (\<lambda>_. printed 0)
      | OutKillRequests \<Rightarrow> res_bind (read_number ''current_block_height'' args 1) (\<lambda>_. printed 0)
      | OutRewardCandidates \<Rightarrow> res_bind (read_number ''snapshot'' args 0) (\<lambda>_. printed 1)
      | _ \<Rightarrow> Inl (Runtime ''read token_metadata is not supported by DbTester''))"

definition db_exec_output_read :: "ext \<Rightarrow> output_db \<Rightarrow> string list \<Rightarrow> db_tester \<Rightarrow> easy_tester_error + db_tester" where
  "db_exec_output_read X db args t =
     (case db of
        OutRootnetMsgs \<Rightarrow> read_rootnet_msgs X args (reset_reads t)
      | OutTokenBalance \<Rightarrow> read_token_balance X args (reset_reads t)
      | OutRewardResults \<Rightarrow> read_reward_results args (reset_reads t)
      | _ \<Rightarrow> print_read db args (reset_reads t))"

definition expect_failed :: "output_expect_target \<Rightarrow> string \<Rightarrow> string \<Rightarrow> string \<Rightarrow> easy_tester_error" where
  "expect_failed target what expected got =
     Runtime (''EXPECT failed (line '' @ dec (tg_line_no target) @ ''): result.'' @ what @ '' expected '' @ expected @ '', got '' @ got)"

definition expect_balance :: "tester_env \<Rightarrow> u256 \<Rightarrow> output_expect_target \<Rightarrow> string \<Rightarrow> easy_tester_error + string" where
  "expect_balance E balance target v =
     (if split_on (CHR ''.'') (tg_path target) = [''balance'']
      then res_bind (res_map_err (\<lambda>e. Runtime (''balance must be numeric: '' @ e)) (parse_u256_allow_underscores E v)) (\<lambda>expected.
        if balance \<noteq> expected then Inl (expect_failed target ''balance'' (dec (unat expected)) (dec (unat balance)))
        else Inr (''result.balance == '' @ dec (unat expected)))
      else Inl (Runtime (''after '' @ quoted ''read token_balance'' @ '', only '' @ quoted ''result.balance''
        @ '' is supported, got '' @ quoted (''result.'' @ tg_path target))))"

definition expect_rewards :: "last_reward_results \<Rightarrow> output_expect_target \<Rightarrow> string \<Rightarrow> easy_tester_error + string" where
  "expect_rewards last_results target v =
     res_bind (res_map_err (\<lambda>e. Runtime (''expect rhs must be numeric for reward_results: '' @ e))
         (res_bind (parse_uint 64 v) (\<lambda>n. Inr (of_nat n :: u64)))) (\<lambda>expected.
     let parts = split_on (CHR ''.'') (tg_path target);
         where_text = ''EXPECT failed (line '' @ dec (tg_line_no target) @ '', snapshot '' @ dec (unat (lr_snapshot last_results)) @ ''): result.'';
         compare = (\<lambda>what got. if got \<noteq> expected
           then Inl (Runtime (where_text @ what @ '' expected '' @ dec (unat expected) @ '' sats, got '' @ dec (unat got) @ '' sats''))
           else Inr (''result.'' @ what @ '' == '' @ fmt_sats_with_underscores expected @ '' SAT''))
     in if length parts = 2 \<and> parts ! 0 \<in> {''rewards_list'', ''reward_list''}
        then compare (''rewards_list.'' @ parts ! 1) (case lr_rewards_by_validator last_results (parts ! 1) of Some a \<Rightarrow> a | None \<Rightarrow> 0)
        else if parts = [''total_rewarded_collateral''] then compare ''total_rewarded_collateral'' (lr_total_sats last_results)
        else Inl (Runtime (''unsupported expect path '' @ quoted (''result.'' @ tg_path target) @ '' after '' @ quoted ''read reward_results'')))"

definition values_match :: "string \<Rightarrow> string \<Rightarrow> bool" where
  "values_match got expected =
     (case (parse_uint 64 got, parse_uint 64 expected) of (Inr a, Inr b) \<Rightarrow> a = b | _ \<Rightarrow> got = expected)"

definition expect_rootnet :: "tester_env \<Rightarrow> rootnet_message list \<Rightarrow> output_expect_target \<Rightarrow> string \<Rightarrow> easy_tester_error + string" where
  "expect_rootnet E msgs target v =
     (let parts = split_on (CHR ''.'') (tg_path target) in
      if parts = [''count''] then
        res_bind (res_map_err (\<lambda>e. Runtime (''count must be numeric: '' @ e)) (parse_uint 64 v)) (\<lambda>expected.
          if length msgs mod 2 ^ 64 \<noteq> expected then Inl (expect_failed target ''count'' (dec expected) (dec (length msgs mod 2 ^ 64)))
          else Inr (''result.count == '' @ dec expected))
      else if length parts = 2 then
        res_bind (res_map_err (\<lambda>e. Runtime (''invalid index '' @ quoted (parts ! 0) @ '': '' @ e)) (parse_uint 64 (parts ! 0))) (\<lambda>index.
        if length msgs \<le> index
        then Inl (Runtime (''result['' @ dec index @ ''] out of range (have '' @ dec (length msgs) @ '' messages)''))
        else res_bind (res_map_err Runtime (msg_field_value E (msgs ! index) (parts ! 1))) (\<lambda>got.
          if \<not> values_match got v
          then Inl (expect_failed target (dec index @ ''.'' @ parts ! 1) (quoted v) (quoted got))
          else Inr (''result.'' @ dec index @ ''.'' @ parts ! 1 @ '' == '' @ got)))
      else Inl (Runtime (''unsupported expect path '' @ quoted (''result.'' @ tg_path target))))"

definition db_exec_output_expect ::
  "tester_env \<Rightarrow> output_expect_target \<Rightarrow> string \<Rightarrow> db_tester \<Rightarrow> easy_tester_error + string" where
  "db_exec_output_expect E target v t =
     (case dt_last_token_balance t of
        Some b \<Rightarrow> expect_balance E b target v
      | None \<Rightarrow> (case dt_last_reward_results t of
          Some r \<Rightarrow> expect_rewards r target v
        | None \<Rightarrow> res_bind (ok_or (dt_last_rootnet_msgs t)
              (Runtime (''expect used but no previous '' @ quoted ''read'' @ '' command''))) (\<lambda>msgs.
            expect_rootnet E msgs target v)))"

section \<open>The operations together, and the program\<close>

definition db_tester_ops :: "ext \<Rightarrow> tester_env \<Rightarrow> (rewards \<Rightarrow> rewards) \<Rightarrow> db_tester tester" where
  "db_tester_ops X E ord =
     \<lparr> exec_mine_block = db_exec_mine_block X E ord,
       exec_create_subnet = tester_create X E,
       exec_join_subnet = tester_join X E,
       exec_stake_subnet = tester_stake X E,
       exec_unstake_subnet = tester_unstake X E,
       exec_checkpoint_subnet = db_exec_checkpoint X E,
       exec_register_token = (\<lambda>_. queue_token_registration E),
       exec_mint_token = (\<lambda>_. queue_mint),
       exec_burn_token = (\<lambda>_. queue_burn),
       exec_erc_transfer = (\<lambda>_. queue_erc_transfer E),
       exec_deposit = (\<lambda>_ s _ _. db_exec_deposit s),
       exec_output_read = (\<lambda>_. db_exec_output_read X),
       exec_output_expect = (\<lambda>_. db_exec_output_expect E) \<rparr>"

definition scenario_is_fendermint :: "string \<Rightarrow> bool" where
  "scenario_is_fendermint text =
     list_ex (\<lambda>l. trim (takeWhile (\<lambda>c. c \<noteq> CHR ''#'') l) = ''tester fendermint'') (text_lines text)"

text \<open>
  The program after its arguments were read.  The testers that drive a node and containers are
  parameters; the database tester starts at block 1, the monitor tester at block 101.
\<close>

definition try_main ::
  "ext \<Rightarrow> tester_env \<Rightarrow> (rewards \<Rightarrow> rewards) \<Rightarrow> (parsed_test \<Rightarrow> tester_config \<Rightarrow> string + unit) \<Rightarrow> (parsed_fendermint_test \<Rightarrow> string + unit)
   \<Rightarrow> string \<times> (string + string) \<Rightarrow> string \<times> (string + string) \<Rightarrow> string + unit" where
  "try_main X E ord run_monitor run_fendermint = (\<lambda>(config_path, config_file) (path, file).
     res_bind (res_map_err show_error (parse_config_file config_path config_file)) (\<lambda>config.
     res_bind file (\<lambda>text.
     case config of
       ConfigFendermint setup \<Rightarrow>
         if \<not> scenario_is_fendermint text then Inl ''exit 1''
         else res_bind (res_map_err show_error (parse_fendermint_test_file E path file setup)) run_fendermint
     | _ \<Rightarrow>
         if scenario_is_fendermint text then Inl ''exit 1''
         else res_bind (res_map_err show_error (parse_test_file E path file)) (\<lambda>parsed.
           res_bind (res_map_err show_error (validate_scenario_for_tester parsed config)) (\<lambda>_.
           case config of
             ConfigDb activation_height snapshot_length \<Rightarrow>
               res_bind (res_map_err show_error (db_tester_new (pt_setup parsed) activation_height snapshot_length)) (\<lambda>t.
               res_bind (run_scenario (db_tester_ops X E ord) (pt_scenario parsed) 1 t) (\<lambda>_. Inr ()))
           | _ \<Rightarrow> run_monitor parsed config)))))"

end
