(* ===== verification/Host.thy ===== *)
theory Host
  imports Tester
begin

text \<open>
  The machine that the monitor tester and the Fendermint tester run on.  They start processes, run
  commands, write files, sleep and wait with a deadline.  The machine is a parameter: the record \<open>host\<close>
  says what it answers in a state of the world, which state it is in afterwards and how many milliseconds
  went by.  An operation maps a state to a result, the next state and the time it took; the state stays
  what it became when the result is an error.  Serde's text formats are fields of the record as well.
\<close>

section \<open>Operations that take time\<close>

type_synonym ('s, 'a) io = "'s \<Rightarrow> (easy_tester_error + 'a) \<times> 's \<times> nat"

definition io_return :: "'a \<Rightarrow> ('s, 'a) io" where
  "io_return a s = (Inr a, s, 0)"

definition io_res :: "easy_tester_error + 'a \<Rightarrow> ('s, 'a) io" where
  "io_res r s = (r, s, 0)"

definition io_fail :: "string \<Rightarrow> ('s, 'a) io" where
  "io_fail m = io_res (Inl (Runtime m))"

definition io_bind :: "('s, 'a) io \<Rightarrow> ('a \<Rightarrow> ('s, 'b) io) \<Rightarrow> ('s, 'b) io" where
  "io_bind m f s = (case m s of
       (Inl e, s', d) \<Rightarrow> (Inl e, s', d)
     | (Inr a, s', d) \<Rightarrow> (case f a s' of (r, s'', d') \<Rightarrow> (r, s'', d + d')))"

definition io_then :: "('s, 'a) io \<Rightarrow> ('s, 'b) io \<Rightarrow> ('s, 'b) io" where
  "io_then m k = io_bind m (\<lambda>_. k)"

text \<open>The result of an operation as a value, so that an error does not end the caller.\<close>

definition io_try :: "('s, 'a) io \<Rightarrow> ('s, easy_tester_error + 'a) io" where
  "io_try m s = (case m s of (r, s', d) \<Rightarrow> (Inr r, s', d))"

definition io_map_err :: "(easy_tester_error \<Rightarrow> easy_tester_error) \<Rightarrow> ('s, 'a) io \<Rightarrow> ('s, 'a) io" where
  "io_map_err g m s = (case m s of (r, s', d) \<Rightarrow> (res_map_err g r, s', d))"

definition io_get :: "('s, 's) io" where
  "io_get s = (Inr s, s, 0)"

definition io_update :: "('s \<Rightarrow> 's) \<Rightarrow> ('s, unit) io" where
  "io_update f s = (Inr (), f s, 0)"

text \<open>An operation with the time it took, for a deadline that was set before it.\<close>

definition io_timed :: "('s, 'a) io \<Rightarrow> ('s, 'a \<times> nat) io" where
  "io_timed m s = (case m s of (Inl e, s', d) \<Rightarrow> (Inl e, s', d) | (Inr a, s', d) \<Rightarrow> (Inr (a, d), s', d))"

fun io_each :: "('x \<Rightarrow> ('s, unit) io) \<Rightarrow> 'x list \<Rightarrow> ('s, unit) io" where
  "io_each f [] = io_return ()"
| "io_each f (x # xs) = io_then (f x) (io_each f xs)"

fun io_collect :: "('x \<Rightarrow> ('s, 'a) io) \<Rightarrow> 'x list \<Rightarrow> ('s, 'a list) io" where
  "io_collect f [] = io_return []"
| "io_collect f (x # xs) = io_bind (f x) (\<lambda>a. io_bind (io_collect f xs) (\<lambda>as. io_return (a # as)))"

text \<open>
  Waiting with a deadline: an attempt succeeds, fails for good, or is to be repeated after a pause until
  the deadline has passed; then its last error is the result.  A pause takes time, so a wait ends.
\<close>

datatype 'a attempt = Done 'a | Again easy_tester_error

function poll :: "nat \<Rightarrow> ('s, 'a attempt) io \<Rightarrow> ('s, unit) io \<Rightarrow> nat \<Rightarrow> ('s, 'a) io" where
  "poll timeout step pause elapsed s =
     (case step s of
        (Inl e, s1, d) \<Rightarrow> (Inl e, s1, d)
      | (Inr (Done a), s1, d) \<Rightarrow> (Inr a, s1, d)
      | (Inr (Again e), s1, d) \<Rightarrow>
          if timeout \<le> elapsed + d then (Inl e, s1, d)
          else (case pause s1 of
                  (Inl e', s2, d') \<Rightarrow> (Inl e', s2, d + d')
                | (Inr _, s2, d') \<Rightarrow>
                    (case poll timeout step pause (elapsed + d + max 1 d') s2 of (r, s3, d'') \<Rightarrow> (r, s3, d + d' + d''))))"
  by pat_completeness auto
termination
  by (relation "measure (\<lambda>(timeout, _, _, elapsed, _). timeout - elapsed)") auto

declare poll.simps [simp del]

section \<open>The machine\<close>

record proc_output =
  po_success :: bool
  po_code :: "int option"
  po_stdout :: string
  po_stderr :: string

datatype json =
    JNull
  | JBool bool
  | JNumber string
  | JString string
  | JArray "json list"
  | JObject "(string \<times> json) list"

record 'w host =
  ho_output :: "string \<Rightarrow> string list \<Rightarrow> 'w \<Rightarrow> (string + proc_output) \<times> 'w \<times> nat"
  ho_spawn :: "string \<Rightarrow> string list \<Rightarrow> 'w \<Rightarrow> (string + u32) \<times> 'w \<times> nat"
  ho_sleep :: "nat \<Rightarrow> 'w \<Rightarrow> 'w"
  ho_write :: "string \<Rightarrow> string \<Rightarrow> 'w \<Rightarrow> (string + unit) \<times> 'w \<times> nat"
  ho_create :: "string \<Rightarrow> 'w \<Rightarrow> (string + unit) \<times> 'w \<times> nat"
  ho_create_dir :: "string \<Rightarrow> 'w \<Rightarrow> (string + unit) \<times> 'w \<times> nat"
  ho_tempdir :: "'w \<Rightarrow> (string + string) \<times> 'w \<times> nat"
  ho_exists :: "string \<Rightarrow> 'w \<Rightarrow> bool"
  ho_free_port :: "'w \<Rightarrow> u16 \<times> 'w"
  ho_from_str :: "string \<Rightarrow> json option"
  ho_to_string :: "json \<Rightarrow> string"

text \<open>The state of a tester is its own part and the world around it.\<close>

definition io_world :: "('w \<Rightarrow> (string + 'a) \<times> 'w \<times> nat) \<Rightarrow> (string \<Rightarrow> string) \<Rightarrow> ('t \<times> 'w, 'a) io" where
  "io_world f m = (\<lambda>(t, w). case f w of (r, w', d) \<Rightarrow> (res_map_err (Runtime \<circ> m) r, (t, w'), d))"

definition io_output :: "'w host \<Rightarrow> string \<Rightarrow> string list \<Rightarrow> ('t \<times> 'w, string + proc_output) io" where
  "io_output H prog args = (\<lambda>(t, w). case ho_output H prog args w of (r, w', d) \<Rightarrow> (Inr r, (t, w'), d))"

text \<open>A command whose outcome is ignored but for its exit status; a command that cannot be run has failed.\<close>

definition io_status :: "'w host \<Rightarrow> string \<Rightarrow> string list \<Rightarrow> ('t \<times> 'w, bool) io" where
  "io_status H prog args = io_bind (io_output H prog args) (\<lambda>r.
     io_return (case r of Inl _ \<Rightarrow> False | Inr out \<Rightarrow> po_success out))"

definition io_sleep :: "'w host \<Rightarrow> nat \<Rightarrow> ('t \<times> 'w, unit) io" where
  "io_sleep H ms = (\<lambda>(t, w). (Inr (), (t, ho_sleep H ms w), ms))"

definition io_self :: "('t \<times> 'w, 't) io" where
  "io_self = (\<lambda>(t, w). (Inr t, (t, w), 0))"

definition io_self_update :: "('t \<Rightarrow> 't) \<Rightarrow> ('t \<times> 'w, unit) io" where
  "io_self_update f = (\<lambda>(t, w). (Inr (), (f t, w), 0))"

section \<open>Text\<close>

definition show_int :: "int \<Rightarrow> string" where
  "show_int i = (if i < 0 then CHR ''-'' # dec (nat (- i)) else dec (nat i))"

definition is_upper :: "char \<Rightarrow> bool" where
  "is_upper c \<longleftrightarrow> (let n = of_char c :: nat in (65 \<le> n \<and> n \<le> 90) \<or> (192 \<le> n \<and> n \<le> 222 \<and> n \<noteq> 215))"

definition to_lowercase :: "string \<Rightarrow> string" where
  "to_lowercase s = map (\<lambda>c. if is_upper c then char_of ((of_char c :: nat) + 32) else c) s"

function replace_all :: "string \<Rightarrow> string \<Rightarrow> string \<Rightarrow> string" where
  "replace_all pat rep s =
     (if s = [] then []
      else if pat \<noteq> [] \<and> prefix pat s then rep @ replace_all pat rep (drop (length pat) s)
      else hd s # replace_all pat rep (tl s))"
  by pat_completeness auto
termination
  by (relation "measure (\<lambda>(_, _, s). length s)") auto

declare replace_all.simps [simp del]

text \<open>What is in front of the first occurrence of a text and what follows it.\<close>

fun split_once_str :: "string \<Rightarrow> string \<Rightarrow> (string \<times> string) option" where
  "split_once_str pat [] = (if pat = [] then Some ([], []) else None)"
| "split_once_str pat (c # cs) =
     (if prefix pat (c # cs) then Some ([], drop (length pat) (c # cs))
      else map_option (\<lambda>(a, b). (c # a, b)) (split_once_str pat cs))"

definition trim_matches :: "char \<Rightarrow> string \<Rightarrow> string" where
  "trim_matches c s = rev (dropWhile (\<lambda>x. x = c) (rev (dropWhile (\<lambda>x. x = c) s)))"

definition trim_end_matches :: "char \<Rightarrow> string \<Rightarrow> string" where
  "trim_end_matches c s = rev (dropWhile (\<lambda>x. x = c) (rev s))"

text \<open>Hexadecimal text: written in lower case, read in either case.\<close>

definition hex_digit :: "nat \<Rightarrow> char" where
  "hex_digit n = (if n < 10 then char_of (48 + n) else char_of (87 + n))"

definition hex_encode :: "bytes \<Rightarrow> string" where
  "hex_encode bs = concat (map (\<lambda>b. [hex_digit (unat b div 16), hex_digit (unat b mod 16)]) bs)"

definition hex_value :: "char \<Rightarrow> nat option" where
  "hex_value c = (let n = of_char c :: nat in
     if 48 \<le> n \<and> n \<le> 57 then Some (n - 48) else if 97 \<le> n \<and> n \<le> 102 then Some (n - 87)
     else if 65 \<le> n \<and> n \<le> 70 then Some (n - 55) else None)"

fun hex_pairs :: "string \<Rightarrow> bytes option" where
  "hex_pairs [] = Some []"
| "hex_pairs [c] = None"
| "hex_pairs (a # b # s) = (case (hex_value a, hex_value b, hex_pairs s) of
     (Some x, Some y, Some bs) \<Rightarrow> Some (of_nat (x * 16 + y) # bs) | _ \<Rightarrow> None)"

definition hex_decode :: "string \<Rightarrow> string + bytes" where
  "hex_decode s = (if odd (length s) then Inl ''Odd number of digits'' else ok_or (hex_pairs s) ''Invalid character'')"

lemma hex_value_digit: "n < 16 \<Longrightarrow> hex_value (hex_digit n) = Some n"
  by (auto simp: hex_value_def hex_digit_def Let_def)

lemma length_hex_encode: "length (hex_encode bs) = 2 * length bs"
  by (induction bs) (simp_all add: hex_encode_def)

lemma hex_decode_encode [simp]: "hex_decode (hex_encode bs) = Inr bs"
proof -
  have "hex_pairs (hex_encode bs) = Some bs"
  proof (induction bs)
    case (Cons b bs)
    have "unat b < 256" using unsigned_less [of b, where 'a = nat] by simp
    then have "unat b div 16 < 16" "unat b mod 16 < 16" by auto
    then show ?case using Cons by (simp add: hex_encode_def hex_value_digit)
  qed (simp add: hex_encode_def)
  then show ?thesis by (simp add: hex_decode_def length_hex_encode ok_or_def)
qed

definition word_checked_mul :: "'a::len word \<Rightarrow> 'a word \<Rightarrow> 'a word option" where
  "word_checked_mul a b = (if unat a * unat b < 2 ^ LENGTH('a) then Some (a * b) else None)"

lemma word_checked_mul_Some:
  "word_checked_mul (a :: 'a::len word) b = Some c \<longleftrightarrow> unat c = unat a * unat b"
proof
  assume h: "word_checked_mul a b = Some c"
  then have "c = a * b" "unat a * unat b < 2 ^ LENGTH('a)" by (auto simp: word_checked_mul_def split: if_splits)
  then show "unat c = unat a * unat b" by (simp add: unat_word_ariths)
next
  assume h: "unat c = unat a * unat b"
  then have "unat a * unat b < 2 ^ LENGTH('a)" using unsigned_less [of c, where 'a = nat] by simp
  moreover from this h have "unat c = unat (a * b)" by (simp add: unat_word_ariths)
  ultimately show "word_checked_mul a b = Some c" by (simp add: word_checked_mul_def word_unat_eq_iff)
qed

section \<open>Reasoning about operations\<close>

named_theorems io_simps \<open>successful steps of an operation\<close>
named_theorems keeps_intros \<open>operations that keep a property of the state\<close>

lemma io_bind_Inr [io_simps]:
  "io_bind m f s = (Inr b, s', d) \<longleftrightarrow>
     (\<exists>a s1 d1 d2. m s = (Inr a, s1, d1) \<and> f a s1 = (Inr b, s', d2) \<and> d = d1 + d2)"
  by (auto simp: io_bind_def split: prod.splits sum.splits)

lemma io_bind_cases [consumes 1, case_names error success]:
  assumes "io_bind m f s = (r, s', d)"
  obtains e where "m s = (Inl e, s', d)" "r = Inl e"
  | a s1 d1 d2 where "m s = (Inr a, s1, d1)" "f a s1 = (r, s', d2)" "d = d1 + d2"
  using assms by (auto simp: io_bind_def split: prod.splits sum.splits)

lemma io_basic [io_simps]:
  "io_return a s = (r, s', d) \<longleftrightarrow> r = Inr a \<and> s' = s \<and> d = 0"
  "io_res r0 s = (r, s', d) \<longleftrightarrow> r0 = r \<and> s' = s \<and> d = 0"
  "io_fail m s = (r, s', d) \<longleftrightarrow> r = Inl (Runtime m) \<and> s' = s \<and> d = 0"
  "io_self (t, w) = (q, s', d) \<longleftrightarrow> q = Inr t \<and> s' = (t, w) \<and> d = 0"
  "io_self_update f (t, w) = (u, s', d) \<longleftrightarrow> u = Inr () \<and> s' = (f t, w) \<and> d = 0"
  "io_sleep H ms (t, w) = (u, s', d) \<longleftrightarrow> u = Inr () \<and> s' = (t, ho_sleep H ms w) \<and> d = ms"
  by (auto simp: io_return_def io_res_def io_fail_def io_self_def io_self_update_def io_sleep_def)

lemma io_then_Inr [io_simps]:
  "io_then m k s = (Inr b, s', d) \<longleftrightarrow>
     (\<exists>a s1 d1 d2. m s = (Inr a, s1, d1) \<and> k s1 = (Inr b, s', d2) \<and> d = d1 + d2)"
  by (simp add: io_then_def io_bind_Inr)

lemma io_map_err_Inr [io_simps]: "io_map_err g m s = (Inr b, s', d) \<longleftrightarrow> m s = (Inr b, s', d)"
  by (auto simp: io_map_err_def res_map_err_eq split: prod.splits)

lemma io_try_eq [io_simps]: "io_try m s = (q, s', d) \<longleftrightarrow> (\<exists>r. m s = (r, s', d) \<and> q = Inr r)"
  by (auto simp: io_try_def split: prod.splits)

lemma io_output_eq [io_simps]:
  "io_output H prog args (t, w) = (q, s', d) \<longleftrightarrow>
     (\<exists>r w'. ho_output H prog args w = (r, w', d) \<and> q = Inr r \<and> s' = (t, w'))"
  by (auto simp: io_output_def split: prod.splits)

text \<open>A property of the state that an operation keeps, whatever its result.\<close>

definition keeps :: "('s \<Rightarrow> bool) \<Rightarrow> ('s, 'a) io \<Rightarrow> bool" where
  "keeps P m \<longleftrightarrow> (\<forall>s. P s \<longrightarrow> P (fst (snd (m s))))"

lemma keepsD: "keeps P m \<Longrightarrow> P s \<Longrightarrow> m s = (r, s', d) \<Longrightarrow> P s'"
  unfolding keeps_def by (metis fst_conv snd_conv)

lemma keeps_selfI:
  assumes "\<And>t w r t' w' d. P t \<Longrightarrow> m (t, w) = (r, (t', w'), d) \<Longrightarrow> P t'"
  shows "keeps (\<lambda>(t, w). P t) m"
  unfolding keeps_def using assms by (metis (mono_tags, lifting) case_prod_beta prod.collapse)

lemma keeps_basic [keeps_intros]: "keeps P (io_return a)" "keeps P (io_res r)" "keeps P (io_fail m)"
  by (auto simp: keeps_def io_return_def io_res_def io_fail_def)

lemma keeps_self [keeps_intros]: "keeps P io_self"
  by (auto simp: keeps_def io_self_def)

lemma keeps_bind [keeps_intros]: "keeps P m \<Longrightarrow> (\<And>a. keeps P (f a)) \<Longrightarrow> keeps P (io_bind m f)"
  unfolding keeps_def io_bind_def by (auto split: prod.splits sum.splits) (metis fst_conv snd_conv)+

lemma keeps_then [keeps_intros]: "keeps P m \<Longrightarrow> keeps P k \<Longrightarrow> keeps P (io_then m k)"
  by (simp add: io_then_def keeps_bind)

lemma keeps_try [keeps_intros]: "keeps P m \<Longrightarrow> keeps P (io_try m)"
  unfolding keeps_def io_try_def by (force split: prod.splits)

lemma keeps_map_err [keeps_intros]: "keeps P m \<Longrightarrow> keeps P (io_map_err g m)"
  unfolding keeps_def io_map_err_def by (force split: prod.splits)

lemma keeps_timed [keeps_intros]: "keeps P m \<Longrightarrow> keeps P (io_timed m)"
  unfolding keeps_def io_timed_def by (force split: prod.splits sum.splits)

lemma keeps_each [keeps_intros]: "(\<And>x. keeps P (f x)) \<Longrightarrow> keeps P (io_each f xs)"
  by (induction xs) (auto intro: keeps_intros)

text \<open>The ways a wait goes on, for proofs by induction on \<open>poll\<close>.\<close>

lemma poll_step:
  assumes "step s = (r, s1, d)"
  shows "poll timeout step pause elapsed s =
    (case r of Inl e \<Rightarrow> (Inl e, s1, d) | Inr (Done a) \<Rightarrow> (Inr a, s1, d)
     | Inr (Again e) \<Rightarrow> if timeout \<le> elapsed + d then (Inl e, s1, d) else
         let (r', s2, d') = pause s1 in (case r' of Inl e' \<Rightarrow> (Inl e', s2, d + d') | Inr _ \<Rightarrow>
           let (r3, s3, d3) = poll timeout step pause (elapsed + d + max 1 d') s2 in (r3, s3, d + d' + d3)))"
  by (subst poll.simps) (simp add: assms Let_def split: sum.splits attempt.splits prod.splits)

lemma poll_done: "step s = (Inr (Done a), s1, d) \<Longrightarrow> poll timeout step pause elapsed s = (Inr a, s1, d)"
  by (simp add: poll_step)

lemma poll_induct [consumes 1, case_names stop pause again]:
  assumes major: "poll timeout step pause elapsed s = (r, s', d)"
    and stop: "\<And>elapsed s r s1 d. step s = (r, s1, d)
      \<Longrightarrow> (case r of Inr (Again e) \<Rightarrow> timeout \<le> elapsed + d | _ \<Rightarrow> True)
      \<Longrightarrow> Q elapsed s (case r of Inl e \<Rightarrow> Inl e | Inr (Done a) \<Rightarrow> Inr a | Inr (Again e) \<Rightarrow> Inl e) s1 d"
    and pause: "\<And>elapsed s e s1 d e' s2 d'. step s = (Inr (Again e), s1, d) \<Longrightarrow> elapsed + d < timeout
      \<Longrightarrow> pause s1 = (Inl e', s2, d') \<Longrightarrow> Q elapsed s (Inl e') s2 (d + d')"
    and again: "\<And>elapsed s e s1 d s2 d' r3 s3 d3. step s = (Inr (Again e), s1, d) \<Longrightarrow> elapsed + d < timeout
      \<Longrightarrow> pause s1 = (Inr (), s2, d') \<Longrightarrow> Q (elapsed + d + max 1 d') s2 r3 s3 d3 \<Longrightarrow> Q elapsed s r3 s3 (d + d' + d3)"
  shows "Q elapsed s r s' d"
  using major
proof (induction "timeout - elapsed" arbitrary: elapsed s r s' d rule: less_induct)
  case less
  obtain r0 s1 d1 where st: "step s = (r0, s1, d1)" by (cases "step s") auto
  show ?case
  proof (cases "\<exists>e. r0 = Inr (Again e) \<and> elapsed + d1 < timeout")
    case False
    then have f: "case r0 of Inr (Again e) \<Rightarrow> timeout \<le> elapsed + d1 | _ \<Rightarrow> True" by (auto split: sum.splits attempt.splits)
    then have "(r, s', d) = (case r0 of Inl e \<Rightarrow> Inl e | Inr (Done a) \<Rightarrow> Inr a | Inr (Again e) \<Rightarrow> Inl e, s1, d1)"
      using less(2) poll_step [of step s r0 s1 d1 timeout pause elapsed] st by (auto split: sum.splits attempt.splits)
    with stop [OF st f] show ?thesis by simp
  next
    case True
    then obtain e where r0: "r0 = Inr (Again e)" and t: "elapsed + d1 < timeout" by auto
    obtain r1 s2 d2 where pa: "pause s1 = (r1, s2, d2)" by (cases "pause s1") auto
    have p: "poll timeout step pause elapsed s = (case r1 of Inl e' \<Rightarrow> (Inl e', s2, d1 + d2) | Inr _ \<Rightarrow>
        let (r3, s3, d3) = poll timeout step pause (elapsed + d1 + max 1 d2) s2 in (r3, s3, d1 + d2 + d3))"
      using poll_step [of step s r0 s1 d1 timeout pause elapsed] st r0 t pa by simp
    show ?thesis
    proof (cases r1)
      case (Inl e')
      with p less(2) pause [OF st [unfolded r0] t pa [unfolded Inl]] show ?thesis by simp
    next
      case (Inr u)
      have unit_eq: "u = ()" by simp
      obtain r3 s3 d3 where rec: "poll timeout step pause (elapsed + d1 + max 1 d2) s2 = (r3, s3, d3)"
        by (cases "poll timeout step pause (elapsed + d1 + max 1 d2) s2") auto
      have "Q (elapsed + d1 + max 1 d2) s2 r3 s3 d3" using less(1) [OF _ rec] t by simp
      with p less(2) Inr rec again [OF st [unfolded r0] t pa [unfolded Inr unit_eq]] show ?thesis by simp
    qed
  qed
qed

lemma keeps_poll [keeps_intros]:
  assumes "keeps P step" "keeps P pause"
  shows "keeps P (poll timeout step pause elapsed)"
proof -
  have "P s \<Longrightarrow> P s'" if "poll timeout step pause elapsed s = (r, s', d)" for s r s' d
    using that by (induction rule: poll_induct) (blast dest: keepsD [OF assms(1)] keepsD [OF assms(2)])+
  then show ?thesis unfolding keeps_def by (metis prod.collapse)
qed

section \<open>How long operations take\<close>

text \<open>
  A record of the longest command that has been run: it never falls, and no command takes longer than the
  record after it.  The time of an operation is bounded by a fixed part and a number of commands, each of
  which takes at most what the record says when the operation has ended.
\<close>

definition meters :: "'w host \<Rightarrow> ('w \<Rightarrow> nat) \<Rightarrow> bool" where
  "meters H longest \<longleftrightarrow>
     (\<forall>prog args w r w' d. ho_output H prog args w = (r, w', d) \<longrightarrow> longest w \<le> longest w' \<and> d \<le> longest w')
   \<and> (\<forall>ms w. longest w \<le> longest (ho_sleep H ms w))"

definition takes :: "('w \<Rightarrow> nat) \<Rightarrow> nat \<Rightarrow> nat \<Rightarrow> ('t \<times> 'w, 'a) io \<Rightarrow> bool" where
  "takes longest n k m \<longleftrightarrow> (\<forall>t w r t' w' d. m (t, w) = (r, (t', w'), d) \<longrightarrow> longest w \<le> longest w' \<and> d \<le> n + k * longest w')"

lemma takesI:
  "(\<And>t w r t' w' d. m (t, w) = (r, (t', w'), d) \<Longrightarrow> longest w \<le> longest w' \<and> d \<le> n + k * longest w') \<Longrightarrow> takes longest n k m"
  unfolding takes_def by blast

lemma takesD: "takes longest n k m \<Longrightarrow> m (t, w) = (r, (t', w'), d) \<Longrightarrow> longest w \<le> longest w' \<and> d \<le> n + k * longest w'"
  unfolding takes_def by blast

lemma takes_basic:
  "takes longest 0 0 (io_return a)" "takes longest 0 0 (io_res r)" "takes longest 0 0 (io_fail m)" "takes longest 0 0 io_self"
  "takes longest 0 0 (io_self_update f)"
  by (auto simp: takes_def io_return_def io_res_def io_fail_def io_self_def io_self_update_def)

lemma takes_output: "meters H longest \<Longrightarrow> takes longest 0 1 (io_output H prog args)"
  by (auto simp: takes_def meters_def io_output_def split: prod.splits)

lemma takes_sleep: "meters H longest \<Longrightarrow> takes longest ms 0 (io_sleep H ms)"
  by (auto simp: takes_def meters_def io_sleep_def)

lemma takes_mono: "takes longest n k m \<Longrightarrow> n \<le> n' \<Longrightarrow> k \<le> k' \<Longrightarrow> takes longest n' k' m"
  unfolding takes_def by (blast intro: order_trans add_mono mult_le_mono1)

lemma takes_bind:
  assumes "takes longest n k m" "\<And>x. takes longest n' k' (f x)"
  shows "takes longest (n + n') (k + k') (io_bind m f)"
proof (rule takesI)
  fix t w r t' w' d assume run: "io_bind m f (t, w) = (r, (t', w'), d)"
  obtain r1 t1 w1 d1 where m: "m (t, w) = (r1, (t1, w1), d1)" by (cases "m (t, w)") auto
  note 1 = takesD [OF assms(1) m]
  show "longest w \<le> longest w' \<and> d \<le> n + n' + (k + k') * longest w'"
  proof (cases r1)
    case (Inl e)
    with run m 1 show ?thesis by (auto simp: io_bind_def add_mult_distrib)
  next
    case (Inr x)
    obtain r2 t2 w2 d2 where f: "f x (t1, w1) = (r2, (t2, w2), d2)" by (cases "f x (t1, w1)") auto
    note 2 = takesD [OF assms(2) f]
    have eq: "w' = w2" "d = d1 + d2" using run m Inr f by (auto simp: io_bind_def)
    have "k * longest w1 \<le> k * longest w2" using 2 by (intro mult_le_mono2) simp
    with 1 2 show ?thesis unfolding eq add_mult_distrib by linarith
  qed
qed

lemma takes_then: "takes longest n k m \<Longrightarrow> takes longest n' k' m' \<Longrightarrow> takes longest (n + n') (k + k') (io_then m m')"
  by (simp add: io_then_def takes_bind)

lemma takes_try: "takes longest n k m \<Longrightarrow> takes longest n k (io_try m)"
  by (rule takesI) (auto simp: io_try_def split: prod.splits dest: takesD)

lemma takes_map_err: "takes longest n k m \<Longrightarrow> takes longest n k (io_map_err g m)"
  by (rule takesI) (auto simp: io_map_err_def split: prod.splits dest: takesD)

lemma takes_no_time_bind:
  "takes longest 0 0 m \<Longrightarrow> (\<And>x. takes longest n k (f x)) \<Longrightarrow> takes longest n k (io_bind m f)"
  using takes_bind [of longest 0 0 m n k f] by simp

text \<open>A wait ends at the latest one attempt and one pause after its deadline.\<close>

lemma poll_time:
  assumes "takes longest a k step" "takes longest b l pause" "poll timeout step pause elapsed s = (r, s', d)"
  shows "longest (snd s) \<le> longest (snd s')
     \<and> d \<le> (if timeout \<le> elapsed then 0 else timeout - elapsed + b + l * longest (snd s')) + a + k * longest (snd s')"
  using assms(3)
proof (induction rule: poll_induct)
  case (stop elapsed s r s1 d)
  then show ?case using takesD [OF assms(1), of "fst s" "snd s" r "fst s1" "snd s1" d] by auto
next
  case (pause elapsed s e s1 d e' s2 d')
  have "longest (snd s) \<le> longest (snd s1)"
    using takesD [OF assms(1), of "fst s" "snd s" _ "fst s1" "snd s1" d] pause(1) by simp
  moreover have "longest (snd s1) \<le> longest (snd s2) \<and> d' \<le> b + l * longest (snd s2)"
    using takesD [OF assms(2), of "fst s1" "snd s1" _ "fst s2" "snd s2" d'] pause(3) by simp
  ultimately show ?case using pause(2) by (simp only: if_not_P not_le) linarith
next
  case (again elapsed s e s1 d s2 d' r3 s3 d3)
  have 1: "longest (snd s) \<le> longest (snd s1)"
    using takesD [OF assms(1), of "fst s" "snd s" _ "fst s1" "snd s1" d] again(1) by simp
  have 2: "longest (snd s1) \<le> longest (snd s2)" "d' \<le> b + l * longest (snd s2)"
    using takesD [OF assms(2), of "fst s1" "snd s1" _ "fst s2" "snd s2" d'] again(3) by simp_all
  have 3: "l * longest (snd s2) \<le> l * longest (snd s3)" using again(4) by (intro mult_le_mono2) simp
  have t: "\<not> timeout \<le> elapsed" using again(2) by simp
  show ?case
  proof (cases "timeout \<le> elapsed + d + max 1 d'")
    case True
    with 1 2 3 again(2,4) show ?thesis unfolding if_not_P [OF t] if_P [OF True] by linarith
  next
    case False
    with 1 2 3 again(2,4) show ?thesis unfolding if_not_P [OF t] if_not_P [OF False] by linarith
  qed
qed

lemma takes_poll:
  assumes "takes longest a k step" "takes longest b l pause"
  shows "takes longest (timeout + b + a) (l + k) (poll timeout step pause elapsed)"
proof (rule takesI)
  fix t w r t' w' d assume "poll timeout step pause elapsed (t, w) = (r, (t', w'), d)"
  from poll_time [OF assms this] show "longest w \<le> longest w' \<and> d \<le> timeout + b + a + (l + k) * longest w'"
    unfolding add_mult_distrib by (cases "timeout \<le> elapsed") (simp_all, linarith)
qed

text \<open>Every machine can be given such a record.\<close>

definition metered :: "'w host \<Rightarrow> ('w \<times> nat) host" where
  "metered H =
     (let lift = (\<lambda>r m. case r of (x, w', d) \<Rightarrow> (x, (w', m), d)) in
     \<lparr> ho_output = (\<lambda>prog args (w, m). case ho_output H prog args w of (r, w', d) \<Rightarrow> (r, (w', max m d), d)),
       ho_spawn = (\<lambda>prog args (w, m). case ho_spawn H prog args w of (r, w', d) \<Rightarrow> (r, (w', m), d)),
       ho_sleep = (\<lambda>ms (w, m). (ho_sleep H ms w, m)),
       ho_write = (\<lambda>f c (w, m). lift (ho_write H f c w) m), ho_create = (\<lambda>f (w, m). lift (ho_create H f w) m),
       ho_create_dir = (\<lambda>f (w, m). lift (ho_create_dir H f w) m),
       ho_tempdir = (\<lambda>(w, m). case ho_tempdir H w of (r, w', d) \<Rightarrow> (r, (w', m), d)),
       ho_exists = (\<lambda>f (w, m). ho_exists H f w), ho_free_port = (\<lambda>(w, m). case ho_free_port H w of (p, w') \<Rightarrow> (p, (w', m))),
       ho_from_str = ho_from_str H, ho_to_string = ho_to_string H \<rparr>)"

lemma metered_meters: "meters (metered H) snd"
  by (auto simp: meters_def metered_def Let_def split: prod.splits)

end
