(* ===== verification/Fendermint.thy ===== *)
theory Fendermint
  imports Host
begin

text \<open>
  The Fendermint tester (\<open>src/src/easy_tester/fendermint_tester.rs\<close>): it runs a scenario against subnets
  that are already up, by commands in a container.  It finds the keys and gateways at the start, keeps the
  tokens it has deployed and the addresses of their wrapped contracts, and repeats a read until the
  expectation after it holds or a deadline passes.  What the commands do is the machine's (\<open>host\<close>); the
  text they print is parsed here.  Printing and logging are left out.
\<close>

section \<open>Constants and text\<close>

definition IPC_CLI_CONFIG :: string where "IPC_CLI_CONFIG = ''/root/.ipc/validator1/config.toml''"
definition POLL_INTERVAL_SECS :: nat where "POLL_INTERVAL_SECS = 5"
definition POLL_TIMEOUT_SECS :: nat where "POLL_TIMEOUT_SECS = 90"
definition DECIMALS :: nat where "DECIMALS = 18"

definition to_container_url :: "string \<Rightarrow> string" where
  "to_container_url url = replace_all ''127.0.0.1'' ''host.docker.internal''
     (replace_all ''localhost'' ''host.docker.internal'' url)"

definition ten_pow_decimals :: u256 where
  "ten_pow_decimals = 10 ^ DECIMALS"

definition raw_units :: "string \<Rightarrow> u256 \<Rightarrow> easy_tester_error + u256" where
  "raw_units what a = ok_or (word_checked_mul a ten_pow_decimals) (Runtime (what @ '' * 10^18 overflow''))"

fun wallet_scan :: "string \<Rightarrow> bool \<Rightarrow> string list \<Rightarrow> string option" where
  "wallet_scan addr found_address [] = None"
| "wallet_scan addr found_address (l # ls) =
     (let trimmed = trim l in
      case strip_prefix ''Address:'' trimmed of
        Some a \<Rightarrow> wallet_scan addr (to_lowercase (trim a) = addr) ls
      | None \<Rightarrow>
          (case strip_prefix ''Secret key:'' trimmed of
             Some sk \<Rightarrow> if found_address then Some (trim sk) else wallet_scan addr found_address ls
           | None \<Rightarrow> wallet_scan addr found_address ls))"

definition parse_private_key_from_wallet_list :: "string \<Rightarrow> string \<Rightarrow> string + string" where
  "parse_private_key_from_wallet_list output address =
     ok_or (wallet_scan (to_lowercase address) False (text_lines output))
       (''address '' @ address @ '' not found in wallet list'')"

definition extract_port :: "string \<Rightarrow> string + u16" where
  "extract_port url =
     (let after_scheme = (case split_once_str ''://'' url of
            None \<Rightarrow> url
          | Some (_, b) \<Rightarrow> (case split_once_str ''://'' b of Some (c, _) \<Rightarrow> c | None \<Rightarrow> b));
          host_port = takeWhile (\<lambda>c. c \<noteq> CHR ''/'') after_scheme;
          port_str = rev (takeWhile (\<lambda>c. c \<noteq> CHR '':'') (rev host_port))
      in case parse_uint 16 port_str of
           Inl e \<Rightarrow> Inl (''invalid port in URL '' @ quoted url @ '': '' @ e) | Inr n \<Rightarrow> Inr (of_nat n))"

record fevm_entry =
  fv_id :: "string option"
  fv_type :: "string option"
  fv_provider :: "string option"
  fv_gateway :: "string option"

definition fevm_empty :: fevm_entry where
  "fevm_empty = \<lparr> fv_id = None, fv_type = None, fv_provider = None, fv_gateway = None \<rparr>"

definition fevm_flush :: "fevm_entry \<Rightarrow> (string \<times> u16 \<times> string) list \<Rightarrow> (string \<times> u16 \<times> string) list" where
  "fevm_flush e results =
     (case (fv_id e, fv_type e, fv_provider e, fv_gateway e) of
        (Some i, Some t, Some p, Some g) \<Rightarrow>
          if t = ''fevm'' then (case extract_port p of Inr port \<Rightarrow> results @ [(i, port, g)] | Inl _ \<Rightarrow> results) else results
      | _ \<Rightarrow> results)"

definition fevm_field :: "string \<Rightarrow> string \<Rightarrow> fevm_entry \<Rightarrow> fevm_entry" where
  "fevm_field key val e =
     (if key = ''id'' then e\<lparr> fv_id := Some val \<rparr>
      else if key = ''network_type'' then e\<lparr> fv_type := Some val \<rparr>
      else if key = ''provider_http'' then e\<lparr> fv_provider := Some val \<rparr>
      else if key = ''gateway_addr'' then e\<lparr> fv_gateway := Some val \<rparr>
      else e)"

fun fevm_scan ::
  "fevm_entry \<Rightarrow> (string \<times> u16 \<times> string) list \<Rightarrow> string list \<Rightarrow> (string \<times> u16 \<times> string) list" where
  "fevm_scan e results [] = fevm_flush e results"
| "fevm_scan e results (l # ls) =
     (let trimmed = trim l in
      if trimmed = ''[[subnets]]'' then fevm_scan fevm_empty (fevm_flush e results) ls
      else case split_once (CHR ''='') trimmed of
        Some (key, val) \<Rightarrow> fevm_scan (fevm_field (trim key) (trim_matches (CHR 0x22) (trim val)) e) results ls
      | None \<Rightarrow> fevm_scan e results ls)"

definition parse_fevm_subnets_from_config :: "string \<Rightarrow> (string \<times> u16 \<times> string) list" where
  "parse_fevm_subnets_from_config toml_text = fevm_scan fevm_empty [] (text_lines toml_text)"

fun deploy_scan :: "string list \<Rightarrow> string option" where
  "deploy_scan [] = None"
| "deploy_scan (l # ls) =
     (let trimmed = trim l;
          addr = (\<lambda>p. case strip_prefix p trimmed of
            Some rest \<Rightarrow> if prefix ''0x'' (trim rest) then Some (trim rest) else None | None \<Rightarrow> None)
      in case addr ''Deployed to:'' of
           Some a \<Rightarrow> Some a
         | None \<Rightarrow> (case addr ''Token deployed at:'' of Some a \<Rightarrow> Some a | None \<Rightarrow> deploy_scan ls))"

definition parse_token_address_from_deploy_output :: "string \<Rightarrow> string + string" where
  "parse_token_address_from_deploy_output output =
     ok_or (deploy_scan (text_lines output))
       (''could not find '' @ quoted ''Deployed to:'' @ '' or '' @ quoted ''Token deployed at:'' @ '' in output'')"

definition parse_u256_from_cast_output :: "tester_env \<Rightarrow> string \<Rightarrow> string + u256" where
  "parse_u256_from_cast_output E output =
     (if trim output = [] then Inl ''empty output''
      else let s = trim (takeWhile (\<lambda>c. c \<noteq> CHR ''['') (trim output)) in
        if prefix ''0x'' s \<or> prefix ''0X'' s
        then res_map_err (\<lambda>e. ''hex parse error: '' @ e) (te_parse_u256 E s)
        else res_map_err (\<lambda>e. ''decimal parse error: '' @ e) (te_parse_u256 E s))"

definition json_metadata :: "'w host \<Rightarrow> (string \<times> json) list \<Rightarrow> string \<rightharpoonup> string" where
  "json_metadata H obj = fold (\<lambda>(k, v) m. case v of
       JNull \<Rightarrow> m | JString s \<Rightarrow> m(k \<mapsto> s) | _ \<Rightarrow> m(k \<mapsto> ho_to_string H v)) obj Map.empty"

fun metadata_lines :: "(string \<rightharpoonup> string) \<Rightarrow> string list \<Rightarrow> string \<rightharpoonup> string" where
  "metadata_lines m [] = m"
| "metadata_lines m (l # ls) =
     (case split_once (CHR '':'') (trim l) of
        Some (key, val) \<Rightarrow>
          if trim val \<noteq> [] then metadata_lines (m(replace_all '' '' ''_'' (to_lowercase (trim key)) \<mapsto> trim val)) ls
          else metadata_lines m ls
      | None \<Rightarrow> metadata_lines m ls)"

definition parse_metadata_output :: "'w host \<Rightarrow> string \<Rightarrow> easy_tester_error + (string \<rightharpoonup> string)" where
  "parse_metadata_output H output =
     (case ho_from_str H (trim output) of
        Some (JObject obj) \<Rightarrow> Inr (json_metadata H obj)
      | _ \<Rightarrow> let m = metadata_lines Map.empty (text_lines output) in
          if m = Map.empty then Inl (Runtime (''could not parse metadata from ipc-cli output:'' @ CHR 0x0A # output))
          else Inr m)"

section \<open>Commands in the container\<close>

definition docker_exec :: "'w host \<Rightarrow> string \<Rightarrow> string list \<Rightarrow> ('t \<times> 'w, string) io" where
  "docker_exec H container args =
     io_bind (io_output H ''docker'' (''exec'' # container # args)) (\<lambda>r.
     case r of
       Inl e \<Rightarrow> io_fail (''failed to run docker exec: '' @ e)
     | Inr out \<Rightarrow>
         if \<not> po_success out
         then io_fail (''docker exec failed (exit '' @ show_int (case po_code out of Some c \<Rightarrow> c | None \<Rightarrow> - 1) @ ''): ''
           @ trim (po_stdout out) @ CHR 0x0A # ''stderr: '' @ trim (po_stderr out))
         else io_return (po_stdout out))"

definition get_block :: "'w host \<Rightarrow> string \<Rightarrow> string \<Rightarrow> ('t \<times> 'w, nat) io" where
  "get_block H docker rpc_url =
     io_bind (docker_exec H docker [''cast'', ''block-number'', ''--rpc-url'', rpc_url]) (\<lambda>output.
     io_res (res_map_err (\<lambda>e. Runtime (''failed to parse block number: '' @ e)) (parse_uint 64 (trim output))))"

definition poll_block_advancing :: "'w host \<Rightarrow> string \<Rightarrow> string \<Rightarrow> ('t \<times> 'w, unit) io" where
  "poll_block_advancing H docker rpc_url =
     io_bind (io_timed (io_bind (get_block H docker rpc_url) (\<lambda>first. io_then (io_sleep H 3000) (io_return first)))) (\<lambda>(first, t0).
     poll 60000
       (io_bind (get_block H docker rpc_url) (\<lambda>current. io_return (if first < current then Done ()
          else Again (Runtime (''blocks not advancing on '' @ rpc_url @ '' (stuck at '' @ dec first @ '')'')))))
       (io_sleep H 2000) t0)"

section \<open>State\<close>

record token_registration =
  tr_home_subnet :: string
  tr_home_address :: string
  tr_issuer :: string

record discovered_subnet =
  ds_subnet_id :: string
  ds_gateway_address :: string
  ds_eth_rpc_url :: string
  ds_provider_url :: string

record fendermint_tester =
  fm_docker_container :: string
  fm_setup :: fendermint_setup
  fm_print_queries :: bool
  fm_issuer_private_keys :: "string \<rightharpoonup> string"
  fm_discovered_subnets :: "string \<rightharpoonup> discovered_subnet"
  fm_registered_tokens :: "string \<rightharpoonup> token_registration"
  fm_wrapped_addresses :: "string \<times> string \<rightharpoonup> string"
  fm_last_token_balance :: "u256 option"
  fm_last_token_metadata :: "(string \<rightharpoonup> string) option"
  fm_last_read_args :: "(output_db \<times> string list) option"

definition issuer_key :: "string \<Rightarrow> fendermint_issuer \<Rightarrow> easy_tester_error + (string \<times> string)" where
  "issuer_key wallet_output issuer =
     res_bind (res_map_err (\<lambda>e. Runtime (''could not find private key for issuer '' @ quoted (fi_name issuer)
         @ '' ('' @ fi_ipc_address issuer @ ''): '' @ e))
       (parse_private_key_from_wallet_list wallet_output (fi_ipc_address issuer))) (\<lambda>pk. Inr (fi_name issuer, pk))"

definition discover_subnet ::
  "(string \<times> u16 \<times> string) list \<Rightarrow> fendermint_subnet \<Rightarrow> easy_tester_error + (string \<times> discovered_subnet)" where
  "discover_subnet config_entries subnet =
     res_bind (ok_or (find (\<lambda>(i, _, _). i = fs_subnet_id subnet) config_entries)
       (Runtime (''subnet '' @ quoted (fs_name subnet) @ '' (id='' @ fs_subnet_id subnet
          @ '') not found in config.toml - is the subnet ID correct?''))) (\<lambda>(_, _, gw).
     Inr (fs_name subnet, \<lparr> ds_subnet_id = fs_subnet_id subnet, ds_gateway_address = gw,
       ds_eth_rpc_url = to_container_url (fs_eth_rpc_url subnet), ds_provider_url = fs_provider_url subnet \<rparr>))"

definition fendermint_new :: "'w host \<Rightarrow> fendermint_setup \<Rightarrow> (unit \<times> 'w, fendermint_tester) io" where
  "fendermint_new H setup =
     (let docker = fe_docker_container setup; issuers = map snd (fe_issuers setup); subnets = map snd (fe_subnets setup) in
     io_bind (docker_exec H docker [''ipc-cli'', ''--config-path'', IPC_CLI_CONFIG, ''wallet'', ''list'', ''--wallet-type'', ''btc'']) (\<lambda>wallet_output.
     io_bind (io_res (res_mapM (issuer_key wallet_output) issuers)) (\<lambda>keys.
     io_bind (docker_exec H docker [''cat'', IPC_CLI_CONFIG]) (\<lambda>config_toml.
     io_bind (io_res (res_mapM (discover_subnet (parse_fevm_subnets_from_config config_toml)) subnets)) (\<lambda>discovered.
     let found = map_of (rev discovered) in
     io_then (io_each (\<lambda>s. case found (fs_name s) of
         Some ds \<Rightarrow> poll_block_advancing H docker (ds_eth_rpc_url ds)
       | None \<Rightarrow> io_fail ''panic: subnet not found'') subnets) (
     io_return \<lparr> fm_docker_container = docker, fm_setup = setup, fm_print_queries = fe_print_queries setup,
       fm_issuer_private_keys = map_of (rev keys), fm_discovered_subnets = found,
       fm_registered_tokens = Map.empty, fm_wrapped_addresses = Map.empty,
       fm_last_token_balance = None, fm_last_token_metadata = None, fm_last_read_args = None \<rparr>))))))"

section \<open>Commands\<close>

type_synonym ('w, 'a) fm_io = "(fendermint_tester \<times> 'w, 'a) io"

definition docker_exec_with_print :: "'w host \<Rightarrow> string list \<Rightarrow> ('w, string) fm_io" where
  "docker_exec_with_print H args = io_bind io_self (\<lambda>t. docker_exec H (fm_docker_container t) args)"

definition fm_subnet :: "string \<Rightarrow> fendermint_tester \<Rightarrow> easy_tester_error + discovered_subnet" where
  "fm_subnet s t = ok_or (fm_discovered_subnets t s) (Runtime (''subnet '' @ quoted s @ '' not found''))"

definition fm_token :: "string \<Rightarrow> fendermint_tester \<Rightarrow> easy_tester_error + token_registration" where
  "fm_token tok t = ok_or (fm_registered_tokens t tok) (Runtime (''token '' @ quoted tok @ '' not registered''))"

definition fm_actor :: "string \<Rightarrow> string \<Rightarrow> fendermint_tester \<Rightarrow> easy_tester_error + string" where
  "fm_actor what a t = res_bind (ok_or (map_of (fe_issuers (fm_setup t)) a) (Runtime (what @ '' '' @ quoted a @ '' not found'')))
     (\<lambda>i. Inr (fi_ipc_address i))"

definition fm_register_token :: "'w host \<Rightarrow> string \<Rightarrow> string \<Rightarrow> string \<Rightarrow> string \<Rightarrow> u256 \<Rightarrow> ('w, unit) fm_io" where
  "fm_register_token H subnet issuer token_name symbol initial_supply =
     io_bind io_self (\<lambda>t.
     io_bind (io_res (fm_subnet subnet t)) (\<lambda>ds.
     io_bind (io_res (ok_or (fm_issuer_private_keys t issuer) (Runtime (''issuer '' @ quoted issuer @ '' key not found'')))) (\<lambda>private_key.
     io_bind (io_res (raw_units ''initial_supply'' initial_supply)) (\<lambda>raw_supply.
     io_bind (docker_exec_with_print H [''bash'', ''/workspace/ipc/scripts/deploy_bridgeable_token.sh'', ''--name'', token_name,
       ''--symbol'', symbol, ''--decimals'', dec DECIMALS, ''--initial-supply'', dec (unat raw_supply),
       ''--rpc-url'', ds_eth_rpc_url ds, ''--private-key'', private_key, ''--gateway'', ds_gateway_address ds, ''--broadcast'']) (\<lambda>output.
     io_bind (io_res (res_map_err (\<lambda>e. Runtime (''failed to parse token address from deploy output: '' @ e @ CHR 0x0A # ''output:'' @ CHR 0x0A # output))
       (parse_token_address_from_deploy_output output))) (\<lambda>token_address.
     io_self_update (\<lambda>t. t\<lparr> fm_registered_tokens := (fm_registered_tokens t)(token_name \<mapsto>
       \<lparr> tr_home_subnet = subnet, tr_home_address = token_address, tr_issuer = issuer \<rparr>) \<rparr>)))))))"

text \<open>Minting and burning are one transaction on the home subnet; they differ in the function that is called.\<close>

definition fm_supply :: "'w host \<Rightarrow> string \<Rightarrow> string \<Rightarrow> string \<Rightarrow> string \<Rightarrow> u256 \<Rightarrow> ('w, unit) fm_io" where
  "fm_supply H what signature subnet token_name amt =
     io_bind io_self (\<lambda>t.
     io_bind (io_res (fm_token token_name t)) (\<lambda>reg.
     if subnet \<noteq> tr_home_subnet reg
     then io_fail (what @ '' only supported on home subnet '' @ quoted (tr_home_subnet reg) @ '', got '' @ quoted subnet) else
     io_bind (io_res (ok_or (fm_discovered_subnets t subnet) (Runtime ''panic: no entry found for key''))) (\<lambda>ds.
     io_bind (io_res (ok_or (fm_issuer_private_keys t (tr_issuer reg)) (Runtime ''panic: no entry found for key''))) (\<lambda>private_key.
     io_bind (io_res (ok_or (map_of (fe_issuers (fm_setup t)) (tr_issuer reg)) (Runtime ''panic: no entry found for key''))) (\<lambda>issuer.
     io_bind (io_res (raw_units ''amount'' amt)) (\<lambda>raw_amount.
     io_then (docker_exec_with_print H [''cast'', ''send'', tr_home_address reg, signature, fi_ipc_address issuer,
       dec (unat raw_amount), ''--rpc-url'', ds_eth_rpc_url ds, ''--private-key'', private_key])
     (io_return ())))))))"

definition fm_mint_token :: "'w host \<Rightarrow> string \<Rightarrow> string \<Rightarrow> u256 \<Rightarrow> ('w, unit) fm_io" where
  "fm_mint_token H = fm_supply H ''mint'' ''mint(address,uint256)''"

definition fm_burn_token :: "'w host \<Rightarrow> string \<Rightarrow> string \<Rightarrow> u256 \<Rightarrow> ('w, unit) fm_io" where
  "fm_burn_token H = fm_supply H ''burn'' ''burnFrom(address,uint256)''"

definition fm_deposit :: "'w host \<Rightarrow> string \<Rightarrow> string \<Rightarrow> u64 \<Rightarrow> ('w, unit) fm_io" where
  "fm_deposit H subnet address_name sats =
     io_bind io_self (\<lambda>t.
     io_bind (io_res (fm_subnet subnet t)) (\<lambda>ds.
     io_bind (io_res (fm_actor ''address'' address_name t)) (\<lambda>to_addr.
     io_then (docker_exec_with_print H [''ipc-cli'', ''--config-path'', IPC_CLI_CONFIG, ''cross-msg'', ''fund'',
       ''--subnet'', ds_subnet_id ds, ''btc'', ''--to'', to_addr, dec (unat sats)])
     (io_return ()))))"

definition query_metadata :: "'w host \<Rightarrow> string \<Rightarrow> string \<Rightarrow> ('w, string \<rightharpoonup> string) fm_io" where
  "query_metadata H token_name subnet =
     io_bind io_self (\<lambda>t.
     io_bind (io_res (fm_token token_name t)) (\<lambda>reg.
     io_bind (io_res (ok_or (fm_discovered_subnets t (tr_home_subnet reg))
       (Runtime (''home subnet '' @ quoted (tr_home_subnet reg) @ '' not found'')))) (\<lambda>home_ds.
     io_bind (io_res (fm_subnet subnet t)) (\<lambda>query_ds.
     io_bind (docker_exec_with_print H [''ipc-cli'', ''--config-path'', IPC_CLI_CONFIG, ''cross-msg'', ''query-token-metadata'',
       ''--subnet'', ds_subnet_id query_ds, ''--home-subnet'', ds_subnet_id home_ds, ''--home-token'', tr_home_address reg]) (\<lambda>output.
     io_res (parse_metadata_output H output))))))"

definition usable_address :: "string \<Rightarrow> bool" where
  "usable_address a \<longleftrightarrow> a \<noteq> [] \<and> a \<noteq> ''0x0000000000000000000000000000000000000000'' \<and> prefix ''0x'' a"

definition query_and_cache_metadata :: "'w host \<Rightarrow> string \<Rightarrow> string \<Rightarrow> ('w, unit) fm_io" where
  "query_and_cache_metadata H token_name subnet =
     io_bind (query_metadata H token_name subnet) (\<lambda>m.
     case m ''wrapped_token'' of
       Some wrapped \<Rightarrow>
         if usable_address wrapped
         then io_self_update (\<lambda>t. t\<lparr> fm_wrapped_addresses := (fm_wrapped_addresses t)((token_name, subnet) \<mapsto> wrapped) \<rparr>)
         else io_return ()
     | None \<Rightarrow> io_return ())"

definition resolve_token_address :: "'w host \<Rightarrow> string \<Rightarrow> string \<Rightarrow> ('w, string) fm_io" where
  "resolve_token_address H token_name subnet =
     io_bind io_self (\<lambda>t.
     io_bind (io_res (fm_token token_name t)) (\<lambda>reg.
     if subnet = tr_home_subnet reg then io_return (tr_home_address reg)
     else case fm_wrapped_addresses t (token_name, subnet) of
       Some addr \<Rightarrow> io_return addr
     | None \<Rightarrow>
         io_then (query_and_cache_metadata H token_name subnet) (
         io_bind io_self (\<lambda>t'. io_res (ok_or (fm_wrapped_addresses t' (token_name, subnet))
           (Runtime (''token '' @ quoted token_name @ '' has not been bridged to '' @ quoted subnet
              @ '' yet - no wrapped address found'')))))))"

definition fm_erc_transfer ::
  "'w host \<Rightarrow> string \<Rightarrow> string \<Rightarrow> string \<Rightarrow> string \<Rightarrow> string \<Rightarrow> u256 \<Rightarrow> ('w, unit) fm_io" where
  "fm_erc_transfer H src_subnet src_actor dst_subnet dst_actor token_name amt =
     io_bind io_self (\<lambda>t.
     io_bind (io_res (fm_token token_name t)) (\<lambda>reg.
     io_bind (resolve_token_address H token_name src_subnet) (\<lambda>token_addr_on_src.
     io_bind (io_res (fm_subnet src_subnet t)) (\<lambda>src_ds.
     io_bind (io_res (fm_subnet dst_subnet t)) (\<lambda>dst_ds.
     io_bind (io_res (fm_actor ''actor'' src_actor t)) (\<lambda>src_addr.
     io_bind (io_res (fm_actor ''actor'' dst_actor t)) (\<lambda>dst_addr.
     io_bind (io_res (raw_units ''amount'' amt)) (\<lambda>raw_amount.
     io_then (docker_exec_with_print H [''ipc-cli'', ''--config-path'', IPC_CLI_CONFIG, ''cross-msg'', ''transfer-erc'',
       ''--source-subnet'', ds_subnet_id src_ds, ''--destination-subnet'', ds_subnet_id dst_ds,
       ''--source-address'', src_addr, ''--destination-address'', dst_addr, ''--token'', token_addr_on_src, dec (unat raw_amount)]) (
     if dst_subnet \<noteq> tr_home_subnet reg
     then io_then (io_try (query_and_cache_metadata H token_name dst_subnet)) (io_return ())
     else io_return ())))))))))"

section \<open>Reading and expecting\<close>

definition wait_for_address :: "'w host \<Rightarrow> string \<Rightarrow> string \<Rightarrow> ('w, string) fm_io" where
  "wait_for_address H token_name subnet =
     poll (POLL_TIMEOUT_SECS * 1000)
       (io_bind (io_try (resolve_token_address H token_name subnet)) (\<lambda>r.
          io_return (case r of Inr addr \<Rightarrow> Done addr | Inl e \<Rightarrow> Again e)))
       (io_sleep H (POLL_INTERVAL_SECS * 1000)) 0"

definition fm_read_balance :: "tester_env \<Rightarrow> 'w host \<Rightarrow> string list \<Rightarrow> ('w, unit) fm_io" where
  "fm_read_balance E H args =
     (if length args \<noteq> 3 then io_fail ''FendermintTester: read token_balance requires 3 args: <subnet> <actor> <token>'' else
     io_bind io_self (\<lambda>t.
     io_bind (io_res (fm_actor ''actor'' (args ! 1) t)) (\<lambda>actor_addr.
     io_bind (io_res (fm_subnet (args ! 0) t)) (\<lambda>ds.
     io_bind (wait_for_address H (args ! 2) (args ! 0)) (\<lambda>token_addr.
     io_bind (docker_exec_with_print H [''cast'', ''call'', token_addr, ''balanceOf(address)(uint256)'', actor_addr,
       ''--rpc-url'', ds_eth_rpc_url ds]) (\<lambda>output.
     io_bind (io_res (res_map_err (\<lambda>e. Runtime (''failed to parse balanceOf output: '' @ e @ CHR 0x0A # ''raw: '' @ output))
       (parse_u256_from_cast_output E output))) (\<lambda>balance.
     io_self_update (\<lambda>t. t\<lparr> fm_last_token_balance := Some balance, fm_last_token_metadata := None \<rparr>))))))))"

definition fm_output_read :: "tester_env \<Rightarrow> 'w host \<Rightarrow> output_db \<Rightarrow> string list \<Rightarrow> ('w, unit) fm_io" where
  "fm_output_read E H db args =
     io_then (io_self_update (\<lambda>t. t\<lparr> fm_last_read_args := Some (db, args) \<rparr>))
     (case db of
        OutTokenBalance \<Rightarrow> fm_read_balance E H args
      | OutTokenMetadata \<Rightarrow>
          if length args \<noteq> 2 then io_fail ''FendermintTester: read token_metadata requires 2 args: <subnet> <token>''
          else io_bind (query_metadata H (args ! 1) (args ! 0)) (\<lambda>m.
            io_self_update (\<lambda>t. t\<lparr> fm_last_token_metadata := Some m, fm_last_token_balance := None \<rparr>))
      | _ \<Rightarrow> io_self_update (\<lambda>t. t\<lparr> fm_last_token_balance := None, fm_last_token_metadata := None \<rparr>))"

definition fm_expect_balance :: "tester_env \<Rightarrow> u256 \<Rightarrow> output_expect_target \<Rightarrow> string \<Rightarrow> easy_tester_error + string" where
  "fm_expect_balance E balance target v =
     (if tg_path target \<noteq> ''balance''
      then Inl (Runtime (''unsupported expect path '' @ quoted (tg_path target) @ '' after read token_balance (supported: balance)''))
      else if v = ''__not_empty__''
      then (if balance = 0 then Inl (Runtime ''expected non-empty balance, got 0'')
            else Inr (''balance.not_empty (got '' @ dec (unat balance) @ '')''))
      else
      res_bind (res_map_err (\<lambda>e. Runtime (''invalid expected balance: '' @ e)) (parse_u256_allow_underscores E v)) (\<lambda>expected.
      res_bind (raw_units ''expected'' expected) (\<lambda>expected_raw.
      if balance \<noteq> expected_raw
      then Inl (Runtime (''token balance mismatch: expected '' @ dec (unat expected) @ '' (raw '' @ dec (unat expected_raw)
             @ ''), got raw '' @ dec (unat balance)))
      else Inr (''balance = '' @ dec (unat expected) @ '' (raw '' @ dec (unat expected_raw) @ '' == '' @ dec (unat balance) @ '')''))))"

definition fm_expect_metadata :: "(string \<rightharpoonup> string) \<Rightarrow> output_expect_target \<Rightarrow> string \<Rightarrow> easy_tester_error + string" where
  "fm_expect_metadata metadata target v =
     res_bind (ok_or (metadata (tg_path target)) (Runtime (''metadata field '' @ quoted (tg_path target) @ '' not found in response''))) (\<lambda>val.
     if v = ''__not_empty__''
     then (if val = [] then Inl (Runtime (''expected '' @ tg_path target @ ''.not_empty, but value is empty''))
           else Inr (tg_path target @ ''.not_empty (got '' @ quoted val @ '')''))
     else if val \<noteq> v
     then Inl (Runtime (''metadata '' @ tg_path target @ '' expected '' @ quoted v @ '', got '' @ quoted val))
     else Inr (tg_path target @ '' = '' @ quoted val))"

definition fm_output_expect :: "tester_env \<Rightarrow> output_expect_target \<Rightarrow> string \<Rightarrow> fendermint_tester \<Rightarrow> easy_tester_error + string" where
  "fm_output_expect E target v t =
     (case fm_last_token_balance t of
        Some balance \<Rightarrow> fm_expect_balance E balance target v
      | None \<Rightarrow> (case fm_last_token_metadata t of
          Some metadata \<Rightarrow> fm_expect_metadata metadata target v
        | None \<Rightarrow> Inl (Runtime ''no result available - preceding read was not supported or returned no data'')))"

section \<open>Running a scenario\<close>

definition fm_annotate :: "nat \<Rightarrow> easy_tester_error \<Rightarrow> easy_tester_error" where
  "fm_annotate line_no e = Runtime (annotate line_no e)"

definition fm_failed :: "nat \<Rightarrow> easy_tester_error \<Rightarrow> easy_tester_error" where
  "fm_failed line_no e = Runtime (annotate line_no e @ '' '' @ CHR 0x1B # ''[31m(fail)'' @ CHR 0x1B # ''[0m'')"

definition fm_expect_step :: "tester_env \<Rightarrow> nat \<Rightarrow> output_expect_target \<Rightarrow> string \<Rightarrow> ('w, unit attempt) fm_io" where
  "fm_expect_step E line_no target v =
     io_bind io_self (\<lambda>t. case fm_output_expect E target v t of
       Inr _ \<Rightarrow> io_return (Done ())
     | Inl e \<Rightarrow> if fm_last_read_args t = None then io_res (Inl (fm_failed line_no e)) else io_return (Again (fm_failed line_no e)))"

definition fm_read_again :: "tester_env \<Rightarrow> 'w host \<Rightarrow> nat \<Rightarrow> ('w, unit) fm_io" where
  "fm_read_again E H line_no =
     io_then (io_sleep H (POLL_INTERVAL_SECS * 1000))
     (io_bind io_self (\<lambda>t. case fm_last_read_args t of
        Some (db, args) \<Rightarrow> io_map_err (fm_annotate line_no) (fm_output_read E H db args)
      | None \<Rightarrow> io_return ()))"

definition fm_command :: "tester_env \<Rightarrow> 'w host \<Rightarrow> nat \<times> scenario_command \<Rightarrow> ('w, unit) fm_io" where
  "fm_command E H = (\<lambda>(line_no, cmd).
     let at_line = io_map_err (fm_annotate line_no) in
     case cmd of
       CmdBlock _ \<Rightarrow> io_return ()
     | CmdCheckpoint _ \<Rightarrow> io_return ()
     | CmdWait seconds \<Rightarrow> io_sleep H (unat seconds * 1000)
     | CmdRegisterToken s issuer name symbol supply \<Rightarrow>
         (case issuer of
            None \<Rightarrow> at_line (io_fail ''register_token requires an issuer in FendermintTester'')
          | Some i \<Rightarrow> at_line (fm_register_token H s i name symbol supply))
     | CmdMintToken s tok a \<Rightarrow> at_line (fm_mint_token H s tok a)
     | CmdBurnToken s tok a \<Rightarrow> at_line (fm_burn_token H s tok a)
     | CmdDeposit s a n \<Rightarrow> at_line (fm_deposit H s a n)
     | CmdErcTransfer src src_actor dst dst_actor tok a \<Rightarrow>
         (case (src_actor, dst_actor) of
            (None, _) \<Rightarrow> at_line (io_fail ''erc_transfer requires src_actor in FendermintTester'')
          | (_, None) \<Rightarrow> at_line (io_fail ''erc_transfer requires dst_actor in FendermintTester'')
          | (Some sa, Some da) \<Rightarrow> at_line (fm_erc_transfer H src sa dst da tok a))
     | CmdOutputRead db args \<Rightarrow> at_line (fm_output_read E H db args)
     | CmdOutputExpect target v \<Rightarrow>
         poll (POLL_TIMEOUT_SECS * 1000) (fm_expect_step E line_no target v) (fm_read_again E H line_no) 0
     | _ \<Rightarrow> at_line (io_fail ''create/join/stake/unstake not supported by FendermintTester''))"

definition fm_run :: "tester_env \<Rightarrow> 'w host \<Rightarrow> (nat \<times> scenario_command) list \<Rightarrow> ('w, unit) fm_io" where
  "fm_run E H scenario = io_each (fm_command E H) scenario"

definition fendermint_main :: "tester_env \<Rightarrow> 'w host \<Rightarrow> parsed_fendermint_test \<Rightarrow> 'w \<Rightarrow> string + unit" where
  "fendermint_main E H parsed w =
     (case fendermint_new H (ft_setup parsed) ((), w) of
        (Inl e, _) \<Rightarrow> Inl (show_error e)
      | (Inr t, (_, w'), _) \<Rightarrow> res_map_err show_error (fst (fm_run E H (ft_scenario parsed) (t, w'))))"

end
