(* ===== verification/Scenario_Facts.thy ===== *)
theory Scenario_Facts
  imports Scenario
begin

text \<open>
  What the parser of the scenario language accepts: validation is equivalent to a declarative
  description of well-formed scenarios, every parsed test satisfies it, and every well-formed test can be
  written so that it parses to itself.
\<close>

section \<open>Text\<close>

definition word :: "string \<Rightarrow> bool" where
  "word w \<longleftrightarrow> w \<noteq> [] \<and> (\<forall>c \<in> set w. \<not> is_space c \<and> c \<noteq> CHR ''#'')"

lemma split_inclusive_line:
  "CHR 0x0A \<notin> set l \<Longrightarrow> split_inclusive (l @ CHR 0x0A # s) = (l @ [CHR 0x0A]) # split_inclusive s"
  by (induction l) auto

lemma text_lines_concat:
  assumes "\<forall>l \<in> set ls. CHR 0x0A \<notin> set l \<and> CHR 0x0D \<notin> set l"
  shows "text_lines (concat (map (\<lambda>l. l @ [CHR 0x0A]) ls)) = ls"
  using assms
proof (induction ls)
  case (Cons l ls)
  have "strip_eol (l @ [CHR 0x0A]) = l"
    using Cons.prems by (auto simp: strip_eol_def) (metis in_set_conv_decomp last_in_set)
  with Cons show ?case by (simp add: text_lines_def split_inclusive_line)
qed (simp add: text_lines_def)

lemma split_whitespace_word:
  "word w \<Longrightarrow> split_whitespace (w @ (if ws = [] then [] else CHR '' '' # ws)) = w # split_whitespace ws"
proof (induction w rule: induct_list012)
  case (2 c)
  then show ?case by (cases ws) (simp_all add: word_def, simp add: is_space_def)
next
  case (3 c d w)
  from 3(3) have "word (d # w)" by (simp add: word_def)
  with 3(2,3) show ?case by (auto simp: word_def)
qed (simp add: word_def)

lemma word_space: "is_space (CHR '' '')" by (simp add: is_space_def)

lemma split_whitespace_join: "list_all word ts \<Longrightarrow> split_whitespace (join_with '' '' ts) = ts"
proof (induction ts rule: induct_list012)
  case (2 w)
  then show ?case using split_whitespace_word [of w "[]"] by simp
next
  case (3 v w ws)
  have "join_with '' '' (w # ws) \<noteq> []" using 3(3) by (cases ws) (simp_all add: word_def)
  with 3 split_whitespace_word [of v "join_with '' '' (w # ws)"] show ?case by simp
qed simp

lemma trim_ends: "s = [] \<or> (\<not> is_space (hd s) \<and> \<not> is_space (last s)) \<Longrightarrow> trim s = s"
proof -
  assume a: "s = [] \<or> (\<not> is_space (hd s) \<and> \<not> is_space (last s))"
  then have "dropWhile is_space s = s" by (auto simp: dropWhile_eq_self_iff)
  moreover from a have "dropWhile is_space (rev s) = rev s" by (auto simp: dropWhile_eq_self_iff hd_rev)
  ultimately show ?thesis by (simp add: trim_def)
qed

lemma join_ends:
  "list_all word ts \<Longrightarrow> ts \<noteq> [] \<Longrightarrow> join_with '' '' ts \<noteq> [] \<and> hd (join_with '' '' ts) = hd (hd ts) \<and> last (join_with '' '' ts) = last (last ts)"
  by (induction ts rule: induct_list012) (auto simp: word_def)

lemma join_chars: "list_all word ts \<Longrightarrow> c \<in> set (join_with '' '' ts) \<Longrightarrow> c = CHR '' '' \<or> (\<not> is_space c \<and> c \<noteq> CHR ''#'')"
  by (induction ts rule: induct_list012) (auto simp: word_def)

lemma line_tokens_join:
  assumes "list_all word ts"
  shows "line_tokens (join_with '' '' ts) = ts"
proof -
  have "CHR ''#'' \<notin> set (join_with '' '' ts)" using join_chars [OF assms] by auto
  moreover have "trim (join_with '' '' ts) = join_with '' '' ts"
  proof (cases "ts = []")
    case False
    then have "word (hd ts)" "word (last ts)" using assms by (simp_all add: list_all_iff)
    with join_ends [OF assms False] show ?thesis by (intro trim_ends) (auto simp: word_def)
  qed (simp add: trim_ends)
  ultimately show ?thesis using split_whitespace_join [OF assms] by (simp add: line_tokens_def split_once_def)
qed

lemma join_no_break: "list_all word ts \<Longrightarrow> CHR 0x0A \<notin> set (join_with '' '' ts) \<and> CHR 0x0D \<notin> set (join_with '' '' ts)"
  using join_chars [of ts "CHR 0x0A"] join_chars [of ts "CHR 0x0D"] by (auto simp: is_space_def)

section \<open>Numbers\<close>

lemma parse_digits_value:
  assumes "list_all is_digit s" "foldl (\<lambda>a c. 10 * a + (of_char c - 48)) acc s < 2 ^ w"
  shows "parse_digits w acc s = Inr (foldl (\<lambda>a c. 10 * a + (of_char c - 48)) acc s)"
  using assms
proof (induction s arbitrary: acc)
  case (Cons c s)
  have "a \<le> foldl (\<lambda>a c. 10 * a + (of_char c - 48)) a s" for a :: nat
  proof (induction s arbitrary: a)
    case (Cons c s)
    have "a \<le> 10 * a + (of_char c - 48)" by simp
    also note Cons
    finally show ?case by simp
  qed simp
  from this [of "10 * acc + (of_char c - 48)"] Cons.prems show ?case using Cons.IH by fastforce
qed simp

lemma dec_digits: "list_all is_digit (dec n)"
  using dec_chars by (force simp: list_all_iff is_digit_def)

lemma dec_not_Nil: "dec n \<noteq> []" by (subst dec.simps) simp

lemma normalize_dec [simp]: "normalize_numeric_literal (dec n) = dec n"
proof -
  have "is_digit c \<Longrightarrow> c \<noteq> CHR ''_''" for c by (auto simp: is_digit_def)
  with dec_digits [of n] show ?thesis by (auto simp: normalize_numeric_literal_def list_all_iff filter_id_conv)
qed

lemma parse_uint_dec: "n < 2 ^ w \<Longrightarrow> parse_uint w (dec n) = Inr n"
proof -
  assume n: "n < 2 ^ w"
  have "hd (dec n) \<in> set (dec n)" using dec_not_Nil by simp
  then have "hd (dec n) \<noteq> CHR ''+''" using dec_digits [of n] by (auto simp: list_all_iff is_digit_def)
  moreover from this have "dec n \<noteq> ''+''" by auto
  ultimately show ?thesis
    using parse_digits_value [OF dec_digits, of 0 n w] n undec_dec [of n] dec_not_Nil [of n]
    by (simp add: parse_uint_def undec_def)
qed

lemma parse_digits_bound: "parse_digits w acc s = Inr n \<Longrightarrow> acc < 2 ^ w \<Longrightarrow> n < 2 ^ w"
  by (induction s arbitrary: acc) (auto split: if_splits)

lemma parse_uint_bound: "parse_uint w s = Inr n \<Longrightarrow> n < 2 ^ w"
  by (auto simp: parse_uint_def dest: parse_digits_bound split: if_splits)

lemma parse_u64_dec [simp]: "parse_u64_allow_underscores (dec (unat n)) = Inr (n :: u64)"
  using parse_uint_dec [of "unat n" 64] unsigned_less [of n, where 'a = nat] by (simp add: parse_u64_allow_underscores_def)

lemma parse_u16_dec [simp]: "parse_u16_allow_underscores (dec (unat n)) = Inr (n :: u16)"
proof -
  have n: "unat n < 2 ^ 16" using unsigned_less [of n, where 'a = nat] by simp
  then have "unat (of_nat (unat n) :: u64) = unat n" by (simp only: unat_of_nat) simp
  then show ?thesis
    using parse_u64_dec [of "of_nat (unat n)"] n by (simp add: parse_u16_allow_underscores_def)
qed

lemma word_dec [simp]: "word (dec n)"
  using dec_digits [of n] dec_not_Nil [of n] by (auto simp: word_def list_all_iff is_digit_def is_space_def)

section \<open>Well-formed scenarios\<close>

definition heights_of :: "scenario_command list \<Rightarrow> u64 list" where
  "heights_of cs = [h. CmdBlock h \<leftarrow> cs]"

definition creates_of :: "scenario_command list \<Rightarrow> string list" where
  "creates_of cs = [s. CmdCreate s \<leftarrow> cs]"

definition reads_of :: "scenario_command list \<Rightarrow> output_db list" where
  "reads_of cs = [db. CmdOutputRead db _ \<leftarrow> cs]"

fun block_needed :: "scenario_command \<Rightarrow> bool" where
  "block_needed (CmdBlock _) = False"
| "block_needed (CmdWait _) = False"
| "block_needed (CmdDeposit _ _ _) = False"
| "block_needed _ = True"

definition read_subnet :: "output_db \<Rightarrow> nat option" where
  "read_subnet db = (case db of OutRewardCandidates \<Rightarrow> Some 1 | OutRewardResults \<Rightarrow> None | OutTokenMetadata \<Rightarrow> None | _ \<Rightarrow> Some 0)"

text \<open>
  The subnets of a command that the parser looks up.  The subnet of a deposit is not among them: the parser
  checks only the amount of a deposit.
\<close>

fun subnet_refs :: "scenario_command \<Rightarrow> string list" where
  "subnet_refs (CmdJoin s _ _) = [s]"
| "subnet_refs (CmdStake s _ _) = [s]"
| "subnet_refs (CmdUnstake s _ _) = [s]"
| "subnet_refs (CmdCheckpoint s) = [s]"
| "subnet_refs (CmdRegisterToken s _ _ _ _) = [s]"
| "subnet_refs (CmdMintToken s _ _) = [s]"
| "subnet_refs (CmdBurnToken s _ _) = [s]"
| "subnet_refs (CmdErcTransfer src _ dst _ _ _) = [src, dst]"
| "subnet_refs (CmdOutputRead db args) = (case read_subnet db of Some i \<Rightarrow> [args ! i] | None \<Rightarrow> [])"
| "subnet_refs _ = []"

fun validator_refs :: "scenario_command \<Rightarrow> string list" where
  "validator_refs (CmdJoin _ v _) = [v]"
| "validator_refs (CmdStake _ v _) = [v]"
| "validator_refs (CmdUnstake _ v _) = [v]"
| "validator_refs _ = []"

fun positive :: "scenario_command \<Rightarrow> bool" where
  "positive (CmdJoin _ _ n) = (n \<noteq> 0)"
| "positive (CmdStake _ _ n) = (n \<noteq> 0)"
| "positive (CmdUnstake _ _ n) = (n \<noteq> 0)"
| "positive (CmdDeposit _ _ n) = (n \<noteq> 0)"
| "positive _ = True"

fun placed :: "setup_spec \<Rightarrow> scenario_command list \<Rightarrow> scenario_command \<Rightarrow> bool" where
  "placed setup before (CmdBlock h) = (\<forall>h' \<in> set (heights_of before). h' < h)"
| "placed setup before (CmdCreate s) = (map_of (su_subnets setup) s \<noteq> None \<and> s \<notin> set (creates_of before))"
| "placed setup before (CmdOutputRead db args) = (case read_subnet db of Some i \<Rightarrow> i < length args | None \<Rightarrow> True)"
| "placed setup before (CmdOutputExpect _ _) = (reads_of before \<noteq> [] \<and>
     last (reads_of before) \<in> {OutRewardResults, OutRootnetMsgs, OutTokenBalance, OutTokenMetadata})"
| "placed setup before _ = True"

text \<open>
  A command is in order behind the commands before it: a block was set, the subnets it names were created
  and its validators declared, its amount is positive, heights increase, a subnet is created once, and an
  expectation follows a read that it can be about.
\<close>

definition command_ok :: "setup_spec \<Rightarrow> scenario_command list \<Rightarrow> scenario_command \<Rightarrow> bool" where
  "command_ok setup before c \<longleftrightarrow> (block_needed c \<longrightarrow> heights_of before \<noteq> [])
     \<and> set (subnet_refs c) \<subseteq> set (creates_of before)
     \<and> (\<forall>v \<in> set (validator_refs c). map_of (su_validators setup) v \<noteq> None)
     \<and> positive c \<and> placed setup before c"

definition scenario_ok :: "setup_spec \<Rightarrow> scenario_command list \<Rightarrow> bool" where
  "scenario_ok setup cs \<longleftrightarrow> (\<forall>i < length cs. command_ok setup (take i cs) (cs ! i))"

lemma scenario_ok_Nil [simp]: "scenario_ok setup []" by (simp add: scenario_ok_def)

lemma scenario_ok_snoc: "scenario_ok setup (cs @ [c]) \<longleftrightarrow> scenario_ok setup cs \<and> command_ok setup cs c"
  by (auto simp: scenario_ok_def less_Suc_eq nth_append)

lemma of_snoc [simp]:
  "heights_of [] = []" "creates_of [] = []" "reads_of [] = []"
  "heights_of (cs @ [c]) = heights_of cs @ (case c of CmdBlock h \<Rightarrow> [h] | _ \<Rightarrow> [])"
  "creates_of (cs @ [c]) = creates_of cs @ (case c of CmdCreate s \<Rightarrow> [s] | _ \<Rightarrow> [])"
  "reads_of (cs @ [c]) = reads_of cs @ (case c of CmdOutputRead db _ \<Rightarrow> [db] | _ \<Rightarrow> [])"
  by (simp_all add: heights_of_def creates_of_def reads_of_def split: scenario_command.splits)

lemma scenario_heights: "scenario_ok setup cs \<Longrightarrow> sorted_wrt (<) (heights_of cs)"
  by (induction cs rule: rev_induct)
    (auto simp: scenario_ok_snoc sorted_wrt_append command_ok_def split: scenario_command.splits)

lemma scenario_creates:
  "scenario_ok setup cs \<Longrightarrow> distinct (creates_of cs) \<and> (\<forall>s \<in> set (creates_of cs). map_of (su_subnets setup) s \<noteq> None)"
  by (induction cs rule: rev_induct) (auto simp: scenario_ok_snoc command_ok_def split: scenario_command.splits)

definition summary :: "scenario_command list \<Rightarrow> scenario_state" where
  "summary cs = \<lparr> sv_block_set = (heights_of cs \<noteq> []),
     sv_last_block_height = (if heights_of cs = [] then None else Some (last (heights_of cs))),
     sv_created_subnets = rev (creates_of cs),
     sv_last_output_read_db = (if reads_of cs = [] then None else Some (last (reads_of cs))) \<rparr>"

lemmas guards = after_block_def declared_subnet_def declared_validator_def created_before_def res_simps

lemma validate_step:
  assumes "scenario_ok setup cs"
  shows "validate_entry path setup (summary cs) e = Inr st
     \<longleftrightarrow> command_ok setup cs (en_cmd e) \<and> st = summary (cs @ [en_cmd e])"
proof -
  note C = scenario_creates [OF assms]
  have top: "(\<forall>h' \<in> set (heights_of cs). h' < h) \<longleftrightarrow> heights_of cs = [] \<or> last (heights_of cs) < h" for h
    using scenario_heights [OF assms]
    by (cases "heights_of cs" rule: rev_cases) (auto simp: sorted_wrt_append)
  show ?thesis
  proof (cases "en_cmd e")
    case (CmdBlock h)
    with top [of h] show ?thesis
      by (auto simp: validate_entry_def validate_block_def command_ok_def summary_def not_le)
  next
    case (CmdOutputRead db args)
    with C show ?thesis
      by (cases db) (auto simp: validate_entry_def validate_read_def command_ok_def summary_def guards read_subnet_def)
  qed (use C in \<open>auto simp: validate_entry_def validate_create_def validate_expect_def validate_member_def command_ok_def summary_def guards\<close>)
qed

lemma validate_fold:
  "res_fold (validate_entry path setup) scenario_start es = Inr st
     \<longleftrightarrow> scenario_ok setup (map en_cmd es) \<and> st = summary (map en_cmd es)"
proof (induction es arbitrary: st rule: rev_induct)
  case Nil
  show ?case by (auto simp: summary_def scenario_start_def)
next
  case (snoc e es)
  with validate_step [of "setup" "map en_cmd es" path e] show ?case
    by (auto simp: res_fold_append res_simps scenario_ok_snoc)
qed

section \<open>Well-formed setups\<close>

definition subnet_ok :: "(string \<times> validator_spec) list \<Rightarrow> string \<times> subnet_spec \<Rightarrow> bool" where
  "subnet_ok vals = (\<lambda>(n, s). sp_name s = n \<and> 4 \<le> sp_min_validators s
     \<and> unat (sp_min_validators s) \<le> length (sp_whitelist_names s) \<and> distinct (sp_whitelist_names s)
     \<and> set (sp_whitelist_names s) \<subseteq> fst ` set vals
     \<and> sp_whitelist_pubkeys s = map (\<lambda>v. vs_pubkey (the (map_of vals v))) (sp_whitelist_names s))"

definition setup_ok :: "setup_spec \<Rightarrow> bool" where
  "setup_ok setup \<longleftrightarrow> distinct (map fst (su_validators setup)) \<and> distinct (map fst (su_subnets setup))
     \<and> (\<forall>(n, v) \<in> set (su_validators setup). vs_name v = n)
     \<and> list_all (subnet_ok (su_validators setup)) (su_subnets setup)"

lemma check_whitelist_Inr:
  "check_whitelist err name setup unique names = Inr ()
     \<longleftrightarrow> distinct names \<and> set names \<inter> set unique = {} \<and> set names \<subseteq> fst ` set (su_validators setup)"
  by (induction names arbitrary: unique) (auto simp: map_of_eq_None_iff)

lemma finalize_subnet_Inr:
  "finalize_subnet err name w m setup = Inr setup' \<longleftrightarrow>
     (\<exists>names k. w = Some names \<and> m = Some k \<and> map_of (su_subnets setup) name = None \<and> 4 \<le> k
        \<and> 4 \<le> length names \<and> unat k \<le> length names \<and> distinct names \<and> set names \<subseteq> fst ` set (su_validators setup)
        \<and> setup' = setup\<lparr> su_subnets := su_subnets setup @ [(name,
            \<lparr> sp_name = name, sp_min_validators = k, sp_whitelist_names = names,
              sp_whitelist_pubkeys = map (\<lambda>n. vs_pubkey (the (map_of (su_validators setup) n))) names \<rparr>)] \<rparr>)"
  using check_whitelist_Inr [of err name "setup" "[]"]
  by (cases w; cases m) (auto simp: finalize_subnet_def res_simps not_less)

lemma subnet_ok_more: "subnet_ok vals ns \<Longrightarrow> map_of vals v = None \<Longrightarrow> subnet_ok (vals @ [(v, x)]) ns"
  by (auto simp: subnet_ok_def map_of_eq_None_iff map_add_def split: option.splits)

lemma builder_finalize_ok:
  assumes "builder_finalize E err b (setup, n) = Inr (setup', n')" "setup_ok setup"
  shows "setup_ok setup'"
proof (cases b)
  case None
  then show ?thesis using assms by (simp add: builder_finalize_def)
next
  case (Some x)
  show ?thesis
  proof (cases x)
    case (ValidatorBuilder name)
    with Some assms show ?thesis
      by (auto simp: builder_finalize_def finalize_validator_def setup_ok_def map_of_eq_None_iff generate_validator_def Let_def
          list_all_iff subnet_ok_more split: if_splits)
  next
    case (SubnetBuilder name w m)
    with Some assms(1) obtain names k where "map_of (su_subnets setup) name = None" "4 \<le> k" "unat k \<le> length names"
      "distinct names" "set names \<subseteq> fst ` set (su_validators setup)" "setup' = setup\<lparr> su_subnets := su_subnets setup @ [(name,
            \<lparr> sp_name = name, sp_min_validators = k, sp_whitelist_names = names,
              sp_whitelist_pubkeys = map (\<lambda>n. vs_pubkey (the (map_of (su_validators setup) n))) names \<rparr>)] \<rparr>"
      by (auto simp: builder_finalize_def res_simps finalize_subnet_Inr)
    with assms(2) show ?thesis by (auto simp: setup_ok_def map_of_eq_None_iff subnet_ok_def)
  qed
qed

lemma parse_line_ok:
  assumes "parse_line E path st nl = Inr st'" "setup_ok (ps_setup st)"
  shows "setup_ok (ps_setup st') \<and> (ps_entries st' = ps_entries st
     \<or> (\<exists>t c. ps_entries st' = ps_entries st @ [\<lparr> en_line_no = fst nl, en_text = t, en_cmd = c \<rparr>]))"
  using assms
  by (auto simp: parse_line_def parse_setup_line_def take_builder_def res_simps Let_def dest: builder_finalize_ok
      split: prod.splits if_splits section_kind.splits)

lemma parse_lines_ok:
  assumes "res_fold (parse_line E path) parse_start (enumerate 1 ls) = Inr st"
  shows "setup_ok (ps_setup st) \<and> sorted_wrt (<) (map en_line_no (ps_entries st))
     \<and> (\<forall>e \<in> set (ps_entries st). en_line_no e \<le> length ls)"
  using assms
proof (induction ls arbitrary: st rule: rev_induct)
  case Nil
  then show ?case by (auto simp: parse_start_def setup_ok_def setup_spec_new_def)
next
  case (snoc l ls)
  then obtain st1 where st1: "res_fold (parse_line E path) parse_start (enumerate 1 ls) = Inr st1"
    "parse_line E path st1 (Suc (length ls), l) = Inr st"
    by (auto simp: enumerate_append_eq res_fold_append res_simps)
  from snoc.IH [OF st1(1)] parse_line_ok [OF st1(2)] show ?case
    by (fastforce simp: sorted_wrt_append less_Suc_eq_le)
qed

lemma parsed_test_ok:
  assumes "parse_test_file E path file = Inr t"
  shows "setup_ok (pt_setup t)" "scenario_ok (pt_setup t) (map snd (pt_scenario t))" "sorted_wrt (<) (map fst (pt_scenario t))"
proof -
  from assms obtain ls st where st: "res_fold (parse_line E path) parse_start (enumerate 1 ls) = Inr st"
    "\<exists>sv. validate_scenario path (ps_setup st) (ps_entries st) = Inr sv"
    "t = \<lparr> pt_setup = ps_setup st, pt_scenario = map (\<lambda>e. (en_line_no e, en_cmd e)) (ps_entries st) \<rparr>"
    by (auto simp: parse_test_file_def Let_def res_simps split: if_splits option.splits)
  from st(2) have "scenario_ok (ps_setup st) (map en_cmd (ps_entries st))"
    unfolding validate_scenario_def validate_fold by blast
  with parse_lines_ok [OF st(1)] st(3) show "setup_ok (pt_setup t)"
    "scenario_ok (pt_setup t) (map snd (pt_scenario t))" "sorted_wrt (<) (map fst (pt_scenario t))"
    by (simp_all add: comp_def)
qed

text \<open>
  C31. What the parser accepts.  A test that is parsed has a well-formed setup: names are unique, and each
  subnet has a whitelist of different validators that were declared, with their keys, and a minimum of
  at least four that the whitelist can meet.  Its scenario is in order: heights increase, every action
  but a deposit follows a block and names subnets created before it and declared validators, a subnet is created once,
  amounts are positive, and an expectation follows a read.  And a scenario in order is never rejected.
\<close>

theorem parsed_test_is_well_formed:
  "(\<forall>t. parse_test_file E path file = Inr t \<longrightarrow> setup_ok (pt_setup t)
      \<and> scenario_ok (pt_setup t) (map snd (pt_scenario t)) \<and> sorted_wrt (<) (map fst (pt_scenario t)))
   \<and> (\<forall>setup es. (\<exists>st. validate_scenario path setup es = Inr st) \<longleftrightarrow> scenario_ok setup (map en_cmd es))"
  using parsed_test_ok by (simp add: validate_scenario_def validate_fold)

section \<open>Writing tests\<close>

definition output_db_name :: "output_db \<Rightarrow> string" where
  "output_db_name db = fst (hd (filter (\<lambda>p. snd p = db) output_dbs))"

fun command_tokens :: "scenario_command \<Rightarrow> string list" where
  "command_tokens (CmdBlock h) = [''block'', dec (unat h)]"
| "command_tokens (CmdCreate s) = [''create'', s]"
| "command_tokens (CmdJoin s v n) = [''join'', s, v, dec (unat n)]"
| "command_tokens (CmdStake s v n) = [''stake'', s, v, dec (unat n)]"
| "command_tokens (CmdUnstake s v n) = [''unstake'', s, v, dec (unat n)]"
| "command_tokens (CmdCheckpoint s) = [''checkpoint'', s]"
| "command_tokens (CmdRegisterToken s _ n y a) = [''register_token'', s, n, y, dec (unat a)]"
| "command_tokens (CmdMintToken s t a) = [''mint_token'', s, t, dec (unat a)]"
| "command_tokens (CmdBurnToken s t a) = [''burn_token'', s, t, dec (unat a)]"
| "command_tokens (CmdWait n) = [''wait'', dec (unat n)]"
| "command_tokens (CmdDeposit s a n) = [''deposit'', s, a, dec (unat n)]"
| "command_tokens (CmdErcTransfer s _ d _ t a) = [''erc_transfer'', s, d, t, dec (unat a)]"
| "command_tokens (CmdOutputRead db args) = ''read'' # output_db_name db # args"
| "command_tokens (CmdOutputExpect tg v) = [''expect'', ''result.'' @ tg_path tg, ''='', v]"

definition plain :: "string \<Rightarrow> bool" where
  "plain a \<longleftrightarrow> word a \<and> normalize_numeric_literal a = a"

text \<open>The commands that the language can express, at a line.\<close>

fun writable :: "nat \<Rightarrow> scenario_command \<Rightarrow> bool" where
  "writable l (CmdRegisterToken s i n y a) = (i = None \<and> word s \<and> word n \<and> word y)"
| "writable l (CmdErcTransfer s sa d da t a) = (sa = None \<and> da = None \<and> word s \<and> word d \<and> word t)"
| "writable l (CmdOutputRead db args) = (list_all plain args \<and> validate_output_args Runtime db args = Inr ())"
| "writable l (CmdOutputExpect tg v) = (tg_line_no tg = l \<and> word (tg_path tg) \<and> plain v
     \<and> CHR ''='' \<notin> set (tg_path tg) \<and> CHR ''='' \<notin> set v)"
| "writable l c = list_all word (command_tokens c)"

definition u256_text_ok :: "tester_env \<Rightarrow> bool" where
  "u256_text_ok E \<longleftrightarrow> (\<forall>n. te_parse_u256 E (dec (unat n)) = Inr n)"

lemma output_db_name [simp]: "parse_output_db (output_db_name db) = Inr db" "word (output_db_name db)"
  by (cases db; simp add: output_db_name_def output_dbs_def parse_output_db_def ok_or_def)
    (cases db; simp add: output_db_name_def output_dbs_def word_def is_space_def)

lemma validate_output_args_err:
  "validate_output_args err db args = Inr () \<longleftrightarrow> validate_output_args err' db args = Inr ()"
  by (cases db) (auto simp: validate_output_args_def arity_def check_number_def number_arg_def res_simps)

lemma map_normalize: "list_all plain args \<Longrightarrow> map normalize_numeric_literal args = args"
  by (induction args) (simp_all add: plain_def)

lemma flat_token_plain: "CHR ''='' \<notin> set t \<Longrightarrow> flat_token t = [t]"
  by (auto simp: flat_token_def split_once_def)

lemma parse_expect_tokens:
  assumes "word p" "word v" "CHR ''='' \<notin> set p" "CHR ''='' \<notin> set v"
  shows "parse_output_expect err l [''result.'' @ p, ''='', v] = Inr (\<lparr> tg_path = p, tg_line_no = l \<rparr>, v)"
proof -
  have "flat_token (''result.'' @ p) = [''result.'' @ p]" using assms(3) by (intro flat_token_plain) auto
  moreover have "flat_token v = [v]" using assms(4) by (rule flat_token_plain)
  moreover have "flat_token ''='' = [''='']" by (simp add: flat_token_def)
  moreover have "CHR '' '' \<notin> set p" using assms(1) word_space by (auto simp: word_def)
  moreover have "p \<noteq> []" using assms(1) by (simp add: word_def)
  ultimately show ?thesis by (simp add: parse_output_expect_def strip_prefix_def)
qed

lemma parse_u256_dec: "u256_text_ok E \<Longrightarrow> parse_u256_allow_underscores E (dec (unat n)) = Inr n"
  by (simp add: parse_u256_allow_underscores_def u256_text_ok_def)

lemmas command_defs = parse_scenario_command_def parse_stake_command_def parse_plain_command_def parse_token_command_def
  parse_output_command_def arity_def number_arg_def token_arg_def Let_def

lemma parse_command_tokens:
  assumes "writable l c" "u256_text_ok E"
  shows "parse_scenario_command E err l (command_tokens c) = Inr c"
proof (cases c)
  case (CmdOutputRead db args)
  with assms(1) have "args \<noteq> []"
    by (cases db) (auto simp: validate_output_args_def arity_def split: if_splits)
  with CmdOutputRead assms(1) show ?thesis
    using validate_output_args_err [of err db args Runtime] by (simp add: command_defs map_normalize)
next
  case (CmdOutputExpect tg v)
  with assms(1) have "parse_output_expect err l [''result.'' @ tg_path tg, ''='', v] = Inr (tg, v)"
    using parse_expect_tokens [of "tg_path tg" v err l] by (cases tg) (simp add: plain_def)
  with CmdOutputExpect assms(1) show ?thesis by (simp add: command_defs plain_def)
qed (use assms in \<open>simp_all add: command_defs parse_u256_dec\<close>)

lemma word_append: "word a \<Longrightarrow> word b \<Longrightarrow> word (a @ b)"
  by (auto simp: word_def)

lemma reserved_words [simp]:
  "word ''block''" "word ''create''" "word ''join''" "word ''stake''" "word ''unstake''" "word ''checkpoint''"
  "word ''register_token''" "word ''mint_token''" "word ''burn_token''" "word ''wait''" "word ''deposit''"
  "word ''erc_transfer''" "word ''read''" "word ''expect''" "word ''=''" "word ''result.''" "word ''setup''"
  "word ''scenario''" "word ''whitelist''" "word ''min''"
  by (simp_all add: word_def is_space_def)

lemma plain_words: "list_all plain args \<Longrightarrow> list_all word args"
  by (simp add: list_all_iff plain_def)

lemma command_words: "writable l c \<Longrightarrow> list_all word (command_tokens c)"
  using word_append [OF reserved_words(16)] by (cases c) (simp_all add: plain_words, simp add: plain_def)

definition subnet_lines :: "string \<times> subnet_spec \<Rightarrow> string list list" where
  "subnet_lines = (\<lambda>(n, s). [[n], ''whitelist'' # sp_whitelist_names s, [''min'', dec (unat (sp_min_validators s))]])"

definition setup_lines :: "setup_spec \<Rightarrow> string list list" where
  "setup_lines setup = [''setup''] # map (\<lambda>p. [fst p]) (su_validators setup)
     @ concat (map subnet_lines (su_subnets setup)) @ [[''scenario'']]"

definition test_text :: "setup_spec \<Rightarrow> scenario_command list \<Rightarrow> string" where
  "test_text setup cs = concat (map (\<lambda>l. l @ [CHR 0x0A]) (map (join_with '' '') (setup_lines setup @ map command_tokens cs)))"

text \<open>
  The names of a setup are words that start as the parser asks, and the validators are those that it
  generates, in the order of their declaration.
\<close>

definition declarable :: "tester_env \<Rightarrow> setup_spec \<Rightarrow> bool" where
  "declarable E setup \<longleftrightarrow> setup_ok setup
     \<and> (\<forall>n \<in> fst ` set (su_validators setup). word n \<and> prefix ''validator'' n)
     \<and> (\<forall>n \<in> fst ` set (su_subnets setup). word n \<and> prefix ''subnet'' n)
     \<and> su_validators setup = map (\<lambda>(k, n). (n, generate_validator E n k)) (enumerate 1 (map fst (su_validators setup)))"

definition settles :: "tester_env \<Rightarrow> parse_state \<Rightarrow> parse_state \<Rightarrow> bool" where
  "settles E st s0 \<longleftrightarrow> ps_section st = SetupSection \<and> (\<forall>err. take_builder E err st = Inr s0)"

lemma word_line: "word n \<Longrightarrow> line_tokens n = [n]"
  using line_tokens_join [of "[n]"] by simp

lemma settles_idem: "settles E st s0 \<Longrightarrow> ps_section s0 = SetupSection \<and> ps_builder s0 = None"
  by (auto simp: settles_def take_builder_def res_simps)

lemma header_line:
  assumes "settles E st s0" "word n" "prefix ''validator'' n \<or> prefix ''subnet'' n"
  shows "parse_line E path st (k, n) = Inr (s0\<lparr> ps_builder :=
     Some (if prefix ''validator'' n then ValidatorBuilder n else SubnetBuilder n None None) \<rparr>)"
  using assms by (auto simp: parse_line_def word_line settles_def parse_setup_line_def Let_def)

lemma validator_settles:
  assumes "settles E st s0" "word n" "prefix ''validator'' n" "n \<notin> fst ` set (su_validators (ps_setup s0))"
  shows "\<exists>st'. parse_line E path st (k, n) = Inr st' \<and> settles E st' (s0\<lparr>
     ps_setup := (ps_setup s0)\<lparr> su_validators := su_validators (ps_setup s0) @ [(n, generate_validator E n (ps_ordinal s0))] \<rparr>,
     ps_ordinal := Suc (ps_ordinal s0) \<rparr>)"
  using header_line [OF assms(1,2), of path k] assms(3,4) settles_idem [OF assms(1)]
  by (auto simp: settles_def take_builder_def builder_finalize_def finalize_validator_def map_of_eq_None_iff)

lemma validators_settle:
  assumes "settles E st s0" "\<forall>n \<in> set names. word n \<and> prefix ''validator'' n" "distinct names"
    and "set names \<inter> fst ` set (su_validators (ps_setup s0)) = {}"
  shows "\<exists>st'. res_fold (parse_line E path) st (enumerate k names) = Inr st' \<and> settles E st' (s0\<lparr>
     ps_setup := (ps_setup s0)\<lparr> su_validators := su_validators (ps_setup s0)
        @ map (\<lambda>(k, n). (n, generate_validator E n k)) (enumerate (ps_ordinal s0) names) \<rparr>,
     ps_ordinal := ps_ordinal s0 + length names \<rparr>)"
  using assms
proof (induction names arbitrary: st s0 k)
  case (Cons n names)
  then obtain st1 where st1: "parse_line E path st (k, n) = Inr st1" "settles E st1 (s0\<lparr>
     ps_setup := (ps_setup s0)\<lparr> su_validators := su_validators (ps_setup s0) @ [(n, generate_validator E n (ps_ordinal s0))] \<rparr>,
     ps_ordinal := Suc (ps_ordinal s0) \<rparr>)"
    using validator_settles [OF Cons.prems(1), of n path k] by auto
  from Cons.IH [OF st1(2), of "Suc k"] Cons.prems st1(1) show ?case by auto
qed simp

lemma subnet_settles:
  assumes "settles E st s0" "word n" "prefix ''subnet'' n" "n \<notin> fst ` set (su_subnets (ps_setup s0))"
    and "subnet_ok (su_validators (ps_setup s0)) (n, s)" "list_all word (sp_whitelist_names s)"
  shows "\<exists>st'. res_fold (parse_line E path) st (enumerate k (map (join_with '' '') (subnet_lines (n, s)))) = Inr st'
     \<and> settles E st' (s0\<lparr> ps_setup := (ps_setup s0)\<lparr> su_subnets := su_subnets (ps_setup s0) @ [(n, s)] \<rparr> \<rparr>)"
proof -
  let ?names = "sp_whitelist_names s" and ?m = "sp_min_validators s"
  define b where "b w m = s0\<lparr> ps_builder := Some (SubnetBuilder n w m) \<rparr>" for w m
  have np: "\<not> prefix ''validator'' n" using assms(3) by (cases n) (auto simp: prefix_def)
  have len: "4 \<le> length ?names"
    using assms(5) word_le_nat_alt [of 4 ?m] by (simp add: subnet_ok_def)
  have h: "parse_line E path st (k, n) = Inr (b None None)"
    using header_line [OF assms(1,2)] assms(3) np by (simp add: b_def)
  have w: "parse_line E path (b None None) (Suc k, join_with '' '' (''whitelist'' # ?names)) = Inr (b (Some ?names) None)"
    using line_tokens_join [of "''whitelist'' # ?names"] assms(6) settles_idem [OF assms(1)] len
    by (auto simp: parse_line_def parse_setup_line_def parse_setup_field_def b_def)
  have m: "parse_line E path (b (Some ?names) None) (Suc (Suc k), join_with '' '' [''min'', dec (unat ?m)]) = Inr (b (Some ?names) (Some ?m))"
    using line_tokens_join [of "[''min'', dec (unat ?m)]"] settles_idem [OF assms(1)]
    by (auto simp: parse_line_def parse_setup_line_def parse_setup_field_def b_def)
  have "finalize_subnet err n (Some ?names) (Some ?m) (ps_setup s0)
      = Inr ((ps_setup s0)\<lparr> su_subnets := su_subnets (ps_setup s0) @ [(n, s)] \<rparr>)" for err
    unfolding finalize_subnet_Inr using assms(4,5) len by (auto simp: subnet_ok_def map_of_eq_None_iff)
  then have "settles E (b (Some ?names) (Some ?m)) (s0\<lparr> ps_setup := (ps_setup s0)\<lparr> su_subnets := su_subnets (ps_setup s0) @ [(n, s)] \<rparr> \<rparr>)"
    using settles_idem [OF assms(1)] by (simp add: settles_def b_def take_builder_def builder_finalize_def)
  with h w m show ?thesis by (simp add: subnet_lines_def)
qed

lemma subnets_settle:
  assumes "settles E st s0" "\<forall>n \<in> fst ` set subs. word n \<and> prefix ''subnet'' n" "distinct (map fst subs)"
    and "fst ` set subs \<inter> fst ` set (su_subnets (ps_setup s0)) = {}"
    and "list_all (subnet_ok (su_validators (ps_setup s0))) subs" "\<forall>n \<in> fst ` set (su_validators (ps_setup s0)). word n"
  shows "\<exists>st'. res_fold (parse_line E path) st (enumerate k (map (join_with '' '') (concat (map subnet_lines subs)))) = Inr st'
     \<and> settles E st' (s0\<lparr> ps_setup := (ps_setup s0)\<lparr> su_subnets := su_subnets (ps_setup s0) @ subs \<rparr> \<rparr>)"
  using assms
proof (induction subs arbitrary: st s0 k)
  case (Cons x subs)
  obtain n s where x: "x = (n, s)" by (cases x)
  have "list_all word (sp_whitelist_names s)" using Cons.prems(5,6) x by (auto simp: subnet_ok_def list_all_iff)
  with Cons.prems x obtain st1 where st1: "res_fold (parse_line E path) st (enumerate k (map (join_with '' '') (subnet_lines x))) = Inr st1"
      "settles E st1 (s0\<lparr> ps_setup := (ps_setup s0)\<lparr> su_subnets := su_subnets (ps_setup s0) @ [x] \<rparr> \<rparr>)"
    using subnet_settles [OF Cons.prems(1), of n s path k] by auto
  from Cons.IH [OF st1(2), of "k + length (subnet_lines x)"] Cons.prems st1(1) show ?case
    by (auto simp: enumerate_append_eq res_fold_append)
qed simp

definition entries_at :: "nat \<Rightarrow> scenario_command list \<Rightarrow> scenario_entry list" where
  "entries_at k cs = map (\<lambda>(l, c). \<lparr> en_line_no = l, en_text = join_with '' '' (command_tokens c), en_cmd = c \<rparr>) (enumerate k cs)"

lemma entries_at_simps [simp]:
  "entries_at k [] = []"
  "entries_at k (c # cs) = \<lparr> en_line_no = k, en_text = join_with '' '' (command_tokens c), en_cmd = c \<rparr> # entries_at (Suc k) cs"
  by (simp_all add: entries_at_def)

lemma entries_at_maps:
  "map en_cmd (entries_at k cs) = cs" "map (\<lambda>e. (en_line_no e, en_cmd e)) (entries_at k cs) = enumerate k cs"
  by (induction cs arbitrary: k) simp_all

lemma commands_parsed:
  assumes "ps_section st = ScenarioSection" "list_all (\<lambda>(l, c). writable l c) (enumerate k cs)" "u256_text_ok E"
  shows "res_fold (parse_line E path) st (enumerate k (map (join_with '' '') (map command_tokens cs)))
     = Inr (st\<lparr> ps_entries := ps_entries st @ entries_at k cs \<rparr>)"
  using assms
proof (induction cs arbitrary: k st)
  case (Cons c cs)
  have w: "writable k c" using Cons.prems by simp
  have ts: "line_tokens (join_with '' '' (command_tokens c)) = command_tokens c"
    using command_words [OF w] by (rule line_tokens_join)
  have ne: "command_tokens c \<noteq> []" by (cases c) auto
  with Cons ts parse_command_tokens [OF w Cons.prems(3)] show ?case by (simp add: parse_line_def Let_def)
qed simp

lemma writable_words:
  "list_all (\<lambda>(l, c). writable l c) (enumerate k cs) \<Longrightarrow> list_all (list_all word) (map command_tokens cs)"
  by (induction cs arbitrary: k) (auto dest: command_words)

lemma setup_parsed:
  assumes "declarable E setup"
  shows "res_fold (parse_line E path) parse_start (enumerate 1 (map (join_with '' '') (setup_lines setup)))
     = Inr (parse_start\<lparr> ps_section := ScenarioSection, ps_setup := setup, ps_ordinal := 1 + length (su_validators setup) \<rparr>)"
proof -
  let ?f = "parse_line E path" and ?names = "map fst (su_validators setup)"
  define s0 where "s0 = parse_start\<lparr> ps_section := SetupSection \<rparr>"
  have whole: "\<lparr> su_validators = su_validators setup, su_subnets = su_subnets setup \<rparr> = setup" by simp
  have s0: "settles E s0 s0" by (simp add: s0_def settles_def take_builder_def builder_finalize_def parse_start_def)
  have D: "setup_ok setup" "\<forall>n \<in> set ?names. word n \<and> prefix ''validator'' n" "\<forall>n \<in> fst ` set (su_subnets setup). word n \<and> prefix ''subnet'' n"
    and gen: "map (\<lambda>(k, n). (n, generate_validator E n k)) (enumerate 1 ?names) = su_validators setup"
    using assms by (simp_all add: declarable_def)
  have "?f parse_start (1, ''setup'') = Inr s0" by (simp add: parse_line_def word_line parse_start_def s0_def)
  moreover obtain st1 where st1: "res_fold ?f s0 (enumerate 2 ?names) = Inr st1"
      "settles E st1 (s0\<lparr> ps_setup := setup_spec_new\<lparr> su_validators := su_validators setup \<rparr>, ps_ordinal := 1 + length (su_validators setup) \<rparr>)"
    using validators_settle [OF s0 D(2), of path 2] D(1) gen
    by (auto simp: setup_ok_def s0_def parse_start_def setup_spec_new_def)
  moreover obtain st2 where st2: "res_fold ?f st1 (enumerate (2 + length ?names) (map (join_with '' '') (concat (map subnet_lines (su_subnets setup))))) = Inr st2"
      "settles E st2 (s0\<lparr> ps_ordinal := 1 + length (su_validators setup), ps_setup := setup \<rparr>)"
    using subnets_settle [OF st1(2) D(3), of path "2 + length ?names"] D(1,2) whole
    by (auto simp: setup_ok_def setup_spec_new_def)
  moreover have "?f st2 (k, ''scenario'') = Inr (s0\<lparr> ps_section := ScenarioSection, ps_setup := setup, ps_ordinal := 1 + length (su_validators setup) \<rparr>)" for k
    using st2(2) by (simp add: parse_line_def word_line settles_def parse_setup_line_def Let_def)
  moreover have "map (join_with '' '') (setup_lines setup) = ''setup'' # ?names
      @ map (join_with '' '') (concat (map subnet_lines (su_subnets setup))) @ [''scenario'']"
    by (simp add: setup_lines_def)
  ultimately show ?thesis
    by (simp add: enumerate_append_eq res_fold_append s0_def numeral_2_eq_2)
qed

lemma written_test_parses:
  assumes "u256_text_ok E" "declarable E setup" "scenario_ok setup cs" "k = 1 + length (setup_lines setup)"
    and "list_all (\<lambda>(l, c). writable l c) (enumerate k cs)"
  shows "parse_test_file E path (Inr (test_text setup cs)) = Inr \<lparr> pt_setup = setup, pt_scenario = enumerate k cs \<rparr>"
proof -
  let ?ls = "map (join_with '' '') (setup_lines setup @ map command_tokens cs)"
  have "list_all (list_all word) (map command_tokens cs)"
    using assms(5) by (rule writable_words)
  moreover have "list_all (list_all word) (setup_lines setup)"
    using assms(2) by (fastforce simp: list_all_iff setup_lines_def subnet_lines_def declarable_def setup_ok_def subnet_ok_def)
  ultimately have "\<forall>l \<in> set ?ls. CHR 0x0A \<notin> set l \<and> CHR 0x0D \<notin> set l"
    using join_no_break by (auto simp: list_all_iff)
  then have "text_lines (test_text setup cs) = ?ls" unfolding test_text_def by (rule text_lines_concat)
  moreover have "res_fold (parse_line E path) parse_start (enumerate 1 ?ls) = Inr (parse_start\<lparr> ps_section := ScenarioSection,
      ps_setup := setup, ps_ordinal := 1 + length (su_validators setup), ps_entries := entries_at k cs \<rparr>)"
    using setup_parsed [OF assms(2), of path] commands_parsed [OF _ assms(5,1), of "parse_start\<lparr> ps_section := ScenarioSection,
      ps_setup := setup, ps_ordinal := 1 + length (su_validators setup) \<rparr>" path] assms(4)
    by (simp add: enumerate_append_eq res_fold_append parse_start_def)
  moreover have "\<exists>sv. validate_scenario path setup (entries_at k cs) = Inr sv"
    unfolding validate_scenario_def validate_fold entries_at_maps using assms(3) by blast
  ultimately show ?thesis
    by (auto simp: parse_test_file_def parse_start_def entries_at_maps)
qed

text \<open>
  C32. Every test in order can be written.  A setup whose names start as the language asks and a scenario
  in order of commands that the language has, written one declaration or command per line, are parsed to
  the same setup, with the validators generated in the order of their declaration, and the same commands
  at their lines.
\<close>

theorem written_test_is_parsed:
  assumes "u256_text_ok E" "declarable E setup" "scenario_ok setup cs" "k = 1 + length (setup_lines setup)"
    and "list_all (\<lambda>(l, c). writable l c) (enumerate k cs)"
  shows "parse_test_file E path (Inr (test_text setup cs)) = Inr \<lparr> pt_setup = setup, pt_scenario = enumerate k cs \<rparr>"
  using assms by (rule written_test_parses)

definition demo_tester :: tester_env where
  "demo_tester = \<lparr> te_parse_u256 = (\<lambda>s. case parse_uint 256 s of Inl e \<Rightarrow> Inl e | Inr n \<Rightarrow> Inr (of_nat n)),
     te_secret = (\<lambda>k. replicate 32 (of_nat k)), te_odd_parity = (\<lambda>_. False), te_negate = (\<lambda>sk. sk), te_x_only = (\<lambda>sk. sk),
     te_p2tr_key = (\<lambda>pk. ''bcrt1p'' @ hex pk), te_random = (\<lambda>k n. replicate n (of_nat k)),
     te_show_address = (\<lambda>a. ''0x'' @ hex a) \<rparr>"

definition demo_names :: "string list" where
  "demo_names = [''validator1'', ''validator2'', ''validator3'', ''validator4'']"

definition demo_setup :: setup_spec where
  "demo_setup = (let vals = map (\<lambda>(k, n). (n, generate_validator demo_tester n k)) (enumerate 1 demo_names) in
     \<lparr> su_validators = vals, su_subnets = [(''subnet1'', \<lparr> sp_name = ''subnet1'', sp_min_validators = 4,
         sp_whitelist_names = demo_names, sp_whitelist_pubkeys = map (\<lambda>n. vs_pubkey (the (map_of vals n))) demo_names \<rparr>)] \<rparr>)"

definition demo_commands :: "scenario_command list" where
  "demo_commands = [CmdBlock 2, CmdCreate ''subnet1'', CmdJoin ''subnet1'' ''validator1'' 200000,
     CmdOutputRead OutRootnetMsgs [''subnet1''], CmdOutputExpect \<lparr> tg_path = ''count'', tg_line_no = 14 \<rparr> ''0'']"

lemma demo_tester_ok: "u256_text_ok demo_tester"
proof -
  have "te_parse_u256 demo_tester (dec (unat n)) = Inr n" for n :: u256
    using parse_uint_dec [of "unat n" 256] unsigned_less [of n, where 'a = nat] by (simp add: demo_tester_def)
  then show ?thesis by (simp add: u256_text_ok_def)
qed

lemma demo_setup_simps:
  "map fst (su_validators demo_setup) = demo_names" "map fst (su_subnets demo_setup) = [''subnet1'']"
  "su_validators demo_setup = map (\<lambda>(k, n). (n, generate_validator demo_tester n k)) (enumerate 1 demo_names)"
  by (simp_all add: demo_setup_def demo_names_def Let_def)

lemma demo_setup_declarable: "declarable demo_tester demo_setup"
proof -
  have "setup_ok demo_setup"
    by (simp add: setup_ok_def demo_setup_def demo_names_def subnet_ok_def Let_def generate_validator_def)
  moreover have "\<forall>n \<in> set demo_names. word n \<and> prefix ''validator'' n" "word ''subnet1''"
    by (simp_all add: demo_names_def word_def is_space_def)
  moreover have "fst ` set (su_validators demo_setup) = set demo_names" "fst ` set (su_subnets demo_setup) = {''subnet1''}"
    using demo_setup_simps(1,2) by (metis list.set_map, metis list.set_map list.simps(15) empty_set)
  ultimately show ?thesis unfolding declarable_def demo_setup_simps(1) using demo_setup_simps(3) by simp
qed

lemma demo_commands_ok:
  "scenario_ok demo_setup demo_commands" "list_all (\<lambda>(l, c). writable l c) (enumerate 10 demo_commands)"
  "length (setup_lines demo_setup) = 9"
proof -
  have "map_of (su_subnets demo_setup) ''subnet1'' \<noteq> None" "map_of (su_validators demo_setup) ''validator1'' \<noteq> None"
    by (simp_all add: demo_setup_def demo_names_def Let_def)
  then show "scenario_ok demo_setup demo_commands"
    unfolding demo_commands_def
    by (simp add: scenario_ok_def command_ok_def less_Suc_eq heights_of_def creates_of_def reads_of_def read_subnet_def)
  have "word ''subnet1''" "word ''validator1''" "word ''count''" "plain ''subnet1''" "plain ''0''"
    by (simp_all add: plain_def word_def is_space_def is_digit_def normalize_numeric_literal_def)
  then show "list_all (\<lambda>(l, c). writable l c) (enumerate 10 demo_commands)"
    by (simp add: demo_commands_def validate_output_args_def arity_def)
  show "length (setup_lines demo_setup) = 9"
    by (simp add: setup_lines_def demo_setup_def demo_names_def subnet_lines_def Let_def)
qed

lemma demo_test_parses:
  "parse_test_file demo_tester ''demo'' (Inr (test_text demo_setup demo_commands))
     = Inr \<lparr> pt_setup = demo_setup, pt_scenario = enumerate 10 demo_commands \<rparr>"
  by (rule written_test_parses [OF demo_tester_ok demo_setup_declarable demo_commands_ok(1) _ demo_commands_ok(2)])
    (simp add: demo_commands_ok(3))

theorem written_test_is_parsed_witness:
  "parse_test_file demo_tester ''demo'' (Inr (test_text demo_setup demo_commands))
     = Inr \<lparr> pt_setup = demo_setup, pt_scenario = enumerate 10 demo_commands \<rparr>"
  by (rule written_test_is_parsed [OF demo_tester_ok demo_setup_declarable demo_commands_ok(1) _ demo_commands_ok(2)])
    (simp add: demo_commands_ok(3))

theorem parsed_test_is_well_formed_witness:
  "setup_ok demo_setup \<and> scenario_ok demo_setup demo_commands
     \<and> (\<exists>st. validate_scenario ''demo'' demo_setup (entries_at 10 demo_commands) = Inr st)"
  using parsed_test_is_well_formed [of demo_tester "''demo''" "Inr (test_text demo_setup demo_commands)"]
    demo_test_parses by (auto simp: entries_at_maps)

end
