(* ===== verification/Fendermint_Facts.thy ===== *)
theory Fendermint_Facts
  imports Fendermint Scenario_Facts
begin

text \<open>
  What the Fendermint tester guarantees: a run ends in a time that its commands bound, its tables answer
  every lookup that the code makes without a check, and an expectation on a balance passes exactly when
  the last command read the expected number of units.
\<close>

section \<open>Time\<close>

lemma takes_end: "takes longest n k m \<Longrightarrow> (\<And>x. takes longest 0 0 (f x)) \<Longrightarrow> takes longest n k (io_bind m f)"
  using takes_bind [of longest n k m 0 0 f] by simp

lemma takes_free:
  "takes longest n k (io_fail m)" "takes longest n k (io_return a)" "takes longest n k (io_res r)"
  by (auto intro: takes_mono [OF takes_basic(1)] takes_mono [OF takes_basic(2)] takes_mono [OF takes_basic(3)])

lemma takes_free_update: "takes longest n k (io_self_update g)"
  by (rule takes_mono [OF takes_basic(5)]) simp_all

lemma takes_res_bind: "(\<And>x. takes longest n k (f x)) \<Longrightarrow> takes longest n k (io_bind (io_res r) f)"
  by (rule takes_no_time_bind [OF takes_basic(2)])

lemma takes_self_bind: "(\<And>x. takes longest n k (f x)) \<Longrightarrow> takes longest n k (io_bind io_self f)"
  by (rule takes_no_time_bind [OF takes_basic(4)])

lemma takes_update_then: "takes longest n k m \<Longrightarrow> takes longest n k (io_then (io_self_update g) m)"
  unfolding io_then_def by (rule takes_no_time_bind [OF takes_basic(5)])

lemma takes_if: "takes longest n k m \<Longrightarrow> takes longest n k m' \<Longrightarrow> takes longest n k (if b then m else m')"
  by simp

lemmas takes_steps = takes_if takes_res_bind takes_self_bind takes_update_then takes_free takes_free_update

lemma takes_docker_exec: "meters H longest \<Longrightarrow> takes longest 0 1 (docker_exec H container args)"
  unfolding docker_exec_def by (rule takes_end [OF takes_output]) (auto intro: takes_steps split: sum.splits)

lemma takes_docker_print: "meters H longest \<Longrightarrow> takes longest 0 1 (docker_exec_with_print H args)"
  unfolding docker_exec_with_print_def by (intro takes_steps takes_docker_exec)

lemma takes_query_metadata: "meters H longest \<Longrightarrow> takes longest 0 1 (query_metadata H tok s)"
  unfolding query_metadata_def by (intro takes_steps takes_end [OF takes_docker_print])

lemma takes_query_and_cache: "meters H longest \<Longrightarrow> takes longest 0 1 (query_and_cache_metadata H tok s)"
  unfolding query_and_cache_metadata_def
  by (rule takes_end [OF takes_query_metadata]) (auto simp del: One_nat_def intro: takes_steps split: option.splits)

lemma takes_resolve: "meters H longest \<Longrightarrow> takes longest 0 1 (resolve_token_address H tok s)"
  unfolding resolve_token_address_def io_then_def
  by (auto simp del: One_nat_def intro!: takes_steps takes_end [OF takes_query_and_cache] split: option.splits)

lemma takes_wait_for_address: "meters H longest \<Longrightarrow> takes longest 95000 1 (wait_for_address H tok s)"
  unfolding wait_for_address_def POLL_TIMEOUT_SECS_def POLL_INTERVAL_SECS_def
  by (rule takes_mono [OF takes_poll [of _ 0 1 _ 5000 0]])
    (auto simp del: One_nat_def intro!: takes_end takes_try takes_resolve takes_basic takes_mono [OF takes_sleep])

lemma takes_read_balance: "meters H longest \<Longrightarrow> takes longest (95000 + 0) (1 + 1) (fm_read_balance E H args)"
  unfolding fm_read_balance_def
  by (intro takes_steps takes_bind [OF takes_wait_for_address] takes_end [OF takes_docker_print])

lemma takes_output_read: "meters H longest \<Longrightarrow> takes longest 95000 2 (fm_output_read E H db args)"
  unfolding fm_output_read_def
  by (auto intro!: takes_steps takes_mono [OF takes_read_balance] takes_mono [OF takes_end [OF takes_query_metadata]]
      split: output_db.splits)

lemma takes_read_again: "meters H longest \<Longrightarrow> takes longest (5000 + 95000) (0 + 2) (fm_read_again E H line)"
  unfolding fm_read_again_def POLL_INTERVAL_SECS_def
  by (rule takes_then [OF takes_mono [OF takes_sleep] takes_self_bind])
    (auto simp del: add.assoc intro: takes_steps takes_map_err takes_output_read split: option.splits)

lemma takes_expect_step: "takes longest 0 0 (fm_expect_step E line target v)"
  unfolding fm_expect_step_def by (auto intro!: takes_steps split: sum.splits)

text \<open>The time of a command beside the programs it runs, in milliseconds, and how many of these count.\<close>

fun command_wait :: "scenario_command \<Rightarrow> nat" where
  "command_wait (CmdWait seconds) = unat seconds * 1000"
| "command_wait (CmdOutputRead _ _) = 95000"
| "command_wait (CmdOutputExpect _ _) = 190000"
| "command_wait _ = 0"

fun command_runs :: "scenario_command \<Rightarrow> nat" where
  "command_runs (CmdWait _) = 0"
| "command_runs (CmdOutputRead _ _) = 2"
| "command_runs (CmdOutputExpect _ _) = 2"
| "command_runs (CmdErcTransfer _ _ _ _ _ _) = 3"
| "command_runs _ = 1"

lemma takes_erc_transfer: "meters H longest \<Longrightarrow> takes longest (0 + (0 + 0)) (1 + (1 + 1)) (fm_erc_transfer H a b d e tok n)"
  unfolding fm_erc_transfer_def
  unfolding io_then_def [of "io_try m" k for m k]
  by (intro takes_steps takes_bind [OF takes_resolve] takes_then [OF takes_docker_print]
      takes_end [OF takes_try [OF takes_query_and_cache]])

lemma takes_plain:
  assumes "meters H longest"
  shows "takes longest 0 1 (fm_register_token H s i tok sy n)" "takes longest 0 1 (fm_supply H what sig s tok n)"
    "takes longest 0 1 (fm_deposit H s ad k)"
  using assms unfolding fm_register_token_def fm_supply_def fm_deposit_def io_then_def
  by (auto simp del: One_nat_def intro!: takes_steps takes_end [OF takes_docker_print])

lemma takes_command: "meters H longest \<Longrightarrow> takes longest (command_wait cmd) (command_runs cmd) (fm_command E H (line, cmd))"
  by (cases cmd)
    (auto simp del: One_nat_def simp: fm_command_def Let_def fm_mint_token_def fm_burn_token_def POLL_TIMEOUT_SECS_def
      intro!: takes_map_err takes_steps takes_sleep takes_plain takes_mono [OF takes_erc_transfer] takes_output_read
        takes_mono [OF takes_poll [OF takes_expect_step takes_read_again]] split: option.splits)

lemma run_time: "meters H longest \<Longrightarrow> takes longest (\<Sum>(l, cmd)\<leftarrow>sc. command_wait cmd) (\<Sum>(l, cmd)\<leftarrow>sc. command_runs cmd) (fm_run E H sc)"
  unfolding fm_run_def
proof (induction sc)
  case Nil
  then show ?case using takes_basic(1) by simp
next
  case (Cons x sc)
  obtain l cmd where "x = (l, cmd)" by (cases x)
  with Cons takes_then [OF takes_command] show ?case by simp
qed

text \<open>
  C40. A run of the Fendermint tester ends soon after the programs it runs.  No program has a time limit, so the
  bound counts in the longest program that the run has run, which a record of the machine holds
  (\<open>meters\<close>; every machine can be given one): the waits of the scenario, 95 seconds and two programs for
  each read, 190 seconds and two programs for each expectation (90 seconds of polling, the pause and the
  read that may start just before the deadline, which itself polls for 90 seconds), three programs for a
  transfer and one for any other command.  So every wait of the tester ends; a program that never ends is
  not bounded by anything.
\<close>

theorem fendermint_run_ends_in_time:
  assumes "meters H longest" "fm_run E H sc (t, w) = (r, (t', w'), d)"
  shows "d \<le> (\<Sum>(l, cmd)\<leftarrow>sc. command_wait cmd) + (\<Sum>(l, cmd)\<leftarrow>sc. command_runs cmd) * longest w'"
  using takesD [OF run_time [OF assms(1)] assms(2)] by simp

section \<open>The tables of the tester\<close>

definition fm_ok :: "fendermint_tester \<Rightarrow> bool" where
  "fm_ok t \<longleftrightarrow>
     (\<forall>i k. fm_issuer_private_keys t i = Some k \<longrightarrow> map_of (fe_issuers (fm_setup t)) i \<noteq> None)
     \<and> (\<forall>tok reg. fm_registered_tokens t tok = Some reg \<longrightarrow>
          fm_discovered_subnets t (tr_home_subnet reg) \<noteq> None \<and> fm_issuer_private_keys t (tr_issuer reg) \<noteq> None)
     \<and> (\<forall>tok s a. fm_wrapped_addresses t (tok, s) = Some a \<longrightarrow> usable_address a \<and> fm_registered_tokens t tok \<noteq> None)"

lemma fm_ok_reads [simp]:
  "fm_ok (t\<lparr> fm_last_read_args := x \<rparr>) = fm_ok t" "fm_ok (t\<lparr> fm_last_token_balance := b \<rparr>) = fm_ok t"
  "fm_ok (t\<lparr> fm_last_token_metadata := m \<rparr>) = fm_ok t"
  by (simp_all add: fm_ok_def)

lemma fm_ok_cached:
  "fm_ok t \<Longrightarrow> usable_address a \<Longrightarrow> fm_registered_tokens t tok \<noteq> None
    \<Longrightarrow> fm_ok (t\<lparr> fm_wrapped_addresses := (fm_wrapped_addresses t)((tok, s) \<mapsto> a) \<rparr>)"
  by (auto simp: fm_ok_def)

lemma fm_ok_registered:
  "fm_ok t \<Longrightarrow> fm_discovered_subnets t (tr_home_subnet reg) \<noteq> None \<Longrightarrow> fm_issuer_private_keys t (tr_issuer reg) \<noteq> None
    \<Longrightarrow> fm_ok (t\<lparr> fm_registered_tokens := (fm_registered_tokens t)(tok \<mapsto> reg) \<rparr>)"
  by (auto simp: fm_ok_def)

abbreviation fm_kept :: "('w, 'a) fm_io \<Rightarrow> bool" where
  "fm_kept m \<equiv> keeps (\<lambda>(t, w). fm_ok t) m"

lemma docker_exec_frame: "docker_exec H c args (t, w) = (r, (t', w'), d) \<Longrightarrow> t' = t"
  by (auto simp: docker_exec_def io_bind_def io_output_def io_fail_def io_res_def io_return_def
      split: prod.splits sum.splits if_splits)

lemma docker_print_frame: "docker_exec_with_print H args (t, w) = (r, (t', w'), d) \<Longrightarrow> t' = t"
  by (auto simp: docker_exec_with_print_def io_bind_def io_self_def split: prod.splits sum.splits dest: docker_exec_frame)

lemma docker_print_Inr [io_simps]:
  "docker_exec_with_print H args (t, w) = (Inr output, s', d) \<longleftrightarrow>
     (\<exists>out w'. ho_output H ''docker'' (''exec'' # fm_docker_container t # args) w = (Inr out, w', d)
        \<and> po_success out \<and> output = po_stdout out \<and> s' = (t, w'))"
  by (cases "ho_output H ''docker'' (''exec'' # fm_docker_container t # args) w")
    (auto simp: docker_exec_with_print_def docker_exec_def io_bind_def io_self_def io_output_def io_fail_def io_res_def
      io_return_def split: sum.splits if_splits)

lemma kept_docker [keeps_intros]: "fm_kept (docker_exec_with_print H args)"
  by (rule keeps_selfI) (auto dest: docker_print_frame)

lemma kept_update [keeps_intros]: "(\<And>t. fm_ok t \<Longrightarrow> fm_ok (f t)) \<Longrightarrow> fm_kept (io_self_update f)"
  by (auto simp: keeps_def io_self_update_def)

lemma kept_sleep [keeps_intros]: "fm_kept (io_sleep H n)"
  by (auto simp: keeps_def io_sleep_def)

lemma kept_if [keeps_intros]: "keeps P m \<Longrightarrow> keeps P k \<Longrightarrow> keeps P (if b then m else k)"
  by simp

lemma query_metadata_frame:
  "query_metadata H tok s (t, w) = (r, (t', w'), d) \<Longrightarrow> t' = t \<and> (\<forall>m. r = Inr m \<longrightarrow> fm_registered_tokens t tok \<noteq> None)"
  by (auto simp: query_metadata_def fm_token_def ok_or_def io_bind_def io_self_def io_res_def
      split: prod.splits sum.splits option.splits dest: docker_print_frame)

lemma kept_query_and_cache [keeps_intros]: "fm_kept (query_and_cache_metadata H tok s)"
proof (rule keeps_selfI)
  show "fm_ok t'" if "fm_ok t" "query_and_cache_metadata H tok s (t, w) = (r, (t', w'), d)" for t w r t' w' d
  proof -
    obtain q t1 w1 d1 where q: "query_metadata H tok s (t, w) = (q, (t1, w1), d1)"
      by (cases "query_metadata H tok s (t, w)") auto
    have t1: "t1 = t" using query_metadata_frame [OF q] by simp
    have reg: "fm_registered_tokens t tok \<noteq> None" if "q = Inr m" for m using query_metadata_frame [OF q] that by blast
    from that(2) q t1 have "t' = t \<or> (\<exists>a m. q = Inr m \<and> usable_address a
        \<and> t' = t\<lparr> fm_wrapped_addresses := (fm_wrapped_addresses t)((tok, s) \<mapsto> a) \<rparr>)"
      by (auto simp: query_and_cache_metadata_def io_bind_def io_return_def io_self_update_def
          split: sum.splits option.splits if_splits)
    with that(1) reg show ?thesis by (auto intro: fm_ok_cached)
  qed
qed

lemma kept_option [keeps_intros]: "keeps P m \<Longrightarrow> (\<And>a. keeps P (f a)) \<Longrightarrow> keeps P (case x of None \<Rightarrow> m | Some a \<Rightarrow> f a)"
  by (cases x) auto

lemma kept_reads [keeps_intros]:
  "fm_kept (query_metadata H tok s)" "fm_kept (resolve_token_address H tok s)" "fm_kept (wait_for_address H tok s)"
proof -
  show "fm_kept (query_metadata H tok s)" unfolding query_metadata_def by (intro keeps_intros)
  show r: "fm_kept (resolve_token_address H tok s)" unfolding resolve_token_address_def by (intro keeps_intros)
  show "fm_kept (wait_for_address H tok s)" unfolding wait_for_address_def by (intro keeps_intros r)
qed

lemma kept_register [keeps_intros]: "fm_kept (fm_register_token H s i tok sy n)"
proof (rule keeps_selfI)
  show "fm_ok t'" if "fm_ok t" "fm_register_token H s i tok sy n (t, w) = (r, (t', w'), d)" for t w r t' w' d
  proof -
    from that(2) have "t' = t \<or> (\<exists>reg. fm_discovered_subnets t (tr_home_subnet reg) \<noteq> None
        \<and> fm_issuer_private_keys t (tr_issuer reg) \<noteq> None
        \<and> t' = t\<lparr> fm_registered_tokens := (fm_registered_tokens t)(tok \<mapsto> reg) \<rparr>)"
      by (auto simp: fm_register_token_def fm_subnet_def ok_or_def io_bind_def io_self_def io_res_def io_self_update_def
          split: prod.splits sum.splits option.splits if_splits dest!: docker_print_frame) force+
    with that(1) show ?thesis by (auto intro: fm_ok_registered)
  qed
qed

lemma kept_actions [keeps_intros]:
  "fm_kept (fm_supply H what sig s tok n)" "fm_kept (fm_deposit H s a k)" "fm_kept (fm_erc_transfer H s a d b tok n)"
  unfolding fm_supply_def fm_deposit_def fm_erc_transfer_def by (intro keeps_intros)+

lemma kept_output_read [keeps_intros]: "fm_kept (fm_output_read E H db args)"
proof -
  have "fm_kept (fm_read_balance E H args)"
    unfolding fm_read_balance_def by (intro keeps_intros) simp
  then show ?thesis
    unfolding fm_output_read_def by (cases db) (auto intro!: keeps_intros)
qed

lemma kept_command [keeps_intros]: "fm_kept (fm_command E H x)"
proof -
  obtain line cmd where x: "x = (line, cmd)" by (cases x)
  have st: "fm_kept (fm_expect_step E line target v)" for target v
    unfolding fm_expect_step_def by (auto intro!: keeps_intros split: sum.splits)
  have ag: "fm_kept (fm_read_again E H line)"
    unfolding fm_read_again_def by (auto intro!: keeps_intros split: option.splits)
  show ?thesis
    by (cases cmd) (auto simp: x fm_command_def Let_def fm_mint_token_def fm_burn_token_def
        intro!: keeps_intros st ag split: option.splits)
qed

lemma fendermint_new_ok:
  assumes "fendermint_new H setup ((), w) = (Inr t, s', d)" "\<forall>(n, i) \<in> set (fe_issuers setup). fi_name i = n"
  shows "fm_ok t"
proof -
  obtain out keys where k: "res_mapM (issuer_key out) (map snd (fe_issuers setup)) = Inr keys"
    and t: "fm_setup t = setup" "fm_issuer_private_keys t = map_of (rev keys)" "fm_registered_tokens t = Map.empty"
      "fm_wrapped_addresses t = Map.empty"
    using assms(1) by (auto simp: fendermint_new_def Let_def io_simps intro: that)
  have "map_of (fe_issuers setup) i \<noteq> None" if "map_of (rev keys) i = Some p" for i p
  proof -
    from that have "(i, p) \<in> set keys" by (auto dest: map_of_SomeD)
    from res_mapM_mem [OF k this] obtain n iss where "(n, iss) \<in> set (fe_issuers setup)" "issuer_key out iss = Inr (i, p)" by auto
    with assms(2) have "(i, iss) \<in> set (fe_issuers setup)" by (auto simp: issuer_key_def res_simps)
    then show ?thesis using weak_map_of_SomeI by fastforce
  qed
  with t show ?thesis by (auto simp: fm_ok_def)
qed

text \<open>The parser declares every issuer under its own name.\<close>

lemma setup_line_issuers:
  "fendermint_setup_line err tokens st = Inr st' \<Longrightarrow>
     fe_issuers (fp_setup st') = fe_issuers (fp_setup st) \<or>
     (\<exists>n i. fi_name i = n \<and> fe_issuers (fp_setup st') = fe_issuers (fp_setup st) @ [(n, i)])"
  unfolding fendermint_setup_line_def
  by (simp split: if_split_asm) force+

lemma fendermint_line_issuers:
  "parse_fendermint_line E path st (l, x) = Inr st' \<Longrightarrow>
     fe_issuers (fp_setup st') = fe_issuers (fp_setup st) \<or>
     (\<exists>n i. fi_name i = n \<and> fe_issuers (fp_setup st') = fe_issuers (fp_setup st) @ [(n, i)])"
  unfolding parse_fendermint_line_def Let_def
  by (cases "fp_section st") (auto simp: res_simps split: if_split_asm dest: setup_line_issuers)

lemma parsed_issuers_named:
  assumes "parse_fendermint_test_file E path file setup = Inr p" "\<forall>(n, i) \<in> set (fe_issuers setup). fi_name i = n"
  shows "\<forall>(n, i) \<in> set (fe_issuers (ft_setup p)). fi_name i = n"
proof -
  let ?P = "\<lambda>st. \<forall>(n, i) \<in> set (fe_issuers (fp_setup st)). fi_name i = n"
  let ?st0 = "\<lparr> fp_section = NoSection, fp_setup = setup, fp_scenario = [], fp_seen_tester_line = False \<rparr>"
  obtain raw st where fold: "res_fold (parse_fendermint_line E path) ?st0 (enumerate 1 (text_lines raw)) = Inr st"
    and p: "ft_setup p = fp_setup st"
    using assms(1) by (auto simp: parse_fendermint_test_file_def res_simps Let_def split: if_splits)
  have step: "?P st'" if "?P s" "parse_fendermint_line E path s x = Inr st'" for s x st'
    using fendermint_line_issuers [of E path s "fst x" "snd x" st'] that by auto
  have "?P st" by (rule res_fold_invariant [where P = ?P, OF fold]) (use assms(2) in simp, erule (1) step)
  with p show ?thesis by simp
qed

text \<open>
  The lookups of the Fendermint tester that the code makes without a check succeed.  When every issuer is
  declared under its own name, as the parser does, then in every state of a run, also after an error, the
  home subnet of a registered token is known and its issuer has a key and an address, so minting and
  burning never panic; and a cached address of a wrapped token is an address of a registered token that
  is neither empty nor zero.
\<close>

theorem fendermint_lookups_succeed:
  assumes "\<forall>(n, i) \<in> set (fe_issuers setup). fi_name i = n"
    and "fendermint_new H setup ((), w0) = (Inr t0, s0, d0)" "fm_run E H sc (t0, w) = (r, (t, w'), d)"
  shows "(\<forall>tok reg. fm_registered_tokens t tok = Some reg \<longrightarrow>
       (\<exists>ds k i. fm_discovered_subnets t (tr_home_subnet reg) = Some ds \<and> fm_issuer_private_keys t (tr_issuer reg) = Some k
          \<and> map_of (fe_issuers (fm_setup t)) (tr_issuer reg) = Some i))
    \<and> (\<forall>tok s a. fm_wrapped_addresses t (tok, s) = Some a \<longrightarrow> usable_address a \<and> fm_registered_tokens t tok \<noteq> None)"
proof -
  have "fm_kept (fm_run E H sc)" unfolding fm_run_def by (intro keeps_intros)
  then have "fm_ok t"
    using keepsD [of "\<lambda>(t, w). fm_ok t" "fm_run E H sc" "(t0, w)" r "(t, w')" d] fendermint_new_ok [OF assms(2,1)] assms(3) by simp
  then show ?thesis unfolding fm_ok_def by (metis not_Some_eq)
qed

section \<open>Expectations on a balance\<close>

lemma raw_units_Inr: "raw_units what a = Inr b \<longleftrightarrow> unat b = unat a * 10 ^ 18"
proof -
  have "unat ten_pow_decimals = 10 ^ 18" by (simp add: ten_pow_decimals_def DECIMALS_def)
  then show ?thesis
    using word_checked_mul_Some [of a ten_pow_decimals b] by (simp add: raw_units_def ok_or_eq)
qed

lemma plain_number: "dec n \<noteq> ''__not_empty__''"
  using dec_digits [of n] by (auto simp: is_digit_def)

text \<open>
  An expectation on a balance is about whole tokens.  After a read of a balance that succeeded, the last
  command asked the contract of the token on that subnet for the balance of the actor, and expecting
  \<open>n\<close> tokens passes exactly when the number it printed is \<open>n\<close> times ten to the eighteenth; a product
  that does not fit in 256 bits never passes.
\<close>

theorem fendermint_expects_whole_tokens:
  assumes "fm_output_read E H OutTokenBalance [s, a, tok] (t, w) = (Inr (), (t', w'), d)"
    and "te_parse_u256 E (dec (unat n)) = Inr n" "tg_path target = ''balance''"
  shows "\<exists>addr actor ds w1 d1 out b.
      fst (wait_for_address H tok s (t\<lparr> fm_last_read_args := Some (OutTokenBalance, [s, a, tok]) \<rparr>, w)) = Inr addr
    \<and> fm_actor ''actor'' a t = Inr actor \<and> fm_discovered_subnets t s = Some ds
    \<and> ho_output H ''docker'' [''exec'', fm_docker_container t', ''cast'', ''call'', addr, ''balanceOf(address)(uint256)'', actor,
         ''--rpc-url'', ds_eth_rpc_url ds] w1 = (Inr out, w', d1) \<and> po_success out
    \<and> parse_u256_from_cast_output E (po_stdout out) = Inr b
    \<and> ((\<exists>m. fm_output_expect E target (dec (unat n)) t' = Inr m) \<longleftrightarrow> unat b = unat n * 10 ^ 18)"
proof -
  let ?t = "t\<lparr> fm_last_read_args := Some (OutTokenBalance, [s, a, tok]) \<rparr>"
  obtain actor ds addr t1 w1 d0 out d1 b where
    ac: "fm_actor ''actor'' a ?t = Inr actor" and ds: "fm_subnet s ?t = Inr ds"
    and wa: "wait_for_address H tok s (?t, w) = (Inr addr, (t1, w1), d0)"
    and dk: "ho_output H ''docker'' [''exec'', fm_docker_container t1, ''cast'', ''call'', addr, ''balanceOf(address)(uint256)'',
         actor, ''--rpc-url'', ds_eth_rpc_url ds] w1 = (Inr out, w', d1)" "po_success out"
    and b: "parse_u256_from_cast_output E (po_stdout out) = Inr b"
    and t': "t' = t1\<lparr> fm_last_token_balance := Some b, fm_last_token_metadata := None \<rparr>"
    using assms(1) by (auto simp: fm_output_read_def fm_read_balance_def io_simps res_map_err_eq)
  have "fm_output_expect E target (dec (unat n)) t' = fm_expect_balance E b target (dec (unat n))"
    by (simp add: t' fm_output_expect_def)
  also have "(\<exists>m. \<dots> = Inr m) \<longleftrightarrow> unat b = unat n * 10 ^ 18"
    using raw_units_Inr [of "''expected''" n b] raw_units_Inr [of "''expected''" n] assms(2,3) plain_number [of "unat n"]
    by (auto simp: fm_expect_balance_def parse_u256_allow_underscores_def normalize_dec res_simps)
  finally show ?thesis
    using ac ds wa dk b t' by (auto simp: fm_actor_def fm_subnet_def ok_or_eq intro!: exI)
qed

section \<open>A machine\<close>

text \<open>
  A container with one issuer, one subnet whose blocks advance with every command, and a token contract
  that reports five tokens.
\<close>

definition demo_answer :: "string list \<Rightarrow> nat \<Rightarrow> string" where
  "demo_answer args w =
     (let c = args ! 2 in
      if c = ''ipc-cli'' then ''Address: 0xab'' @ CHR 0x0A # ''Secret key: k1''
      else if c = ''cat'' then ''[[subnets]]'' @ CHR 0x0A # ''id = r1'' @ CHR 0x0A # ''network_type = fevm''
        @ CHR 0x0A # ''provider_http = http://h:1/'' @ CHR 0x0A # ''gateway_addr = 0x7''
      else if c = ''bash'' then ''Deployed to: 0x11''
      else if args ! 3 = ''block-number'' then dec w
      else ''5000000000000000000 [5e18]'')"

definition demo_host :: "nat host" where
  "demo_host = \<lparr>
     ho_output = (\<lambda>prog args w. (Inr \<lparr> po_success = True, po_code = Some 0, po_stdout = demo_answer args w, po_stderr = [] \<rparr>, Suc w, 10)),
     ho_spawn = (\<lambda>prog args w. (Inr (of_nat w), Suc w, 10)), ho_sleep = (\<lambda>ms w. w), ho_write = (\<lambda>f s w. (Inr (), w, 1)),
     ho_create = (\<lambda>f w. (Inr (), w, 1)), ho_create_dir = (\<lambda>f w. (Inr (), w, 1)), ho_tempdir = (\<lambda>w. (Inr ''/tmp/demo'', w, 1)),
     ho_exists = (\<lambda>f w. True), ho_free_port = (\<lambda>w. (of_nat w, Suc w)), ho_from_str = (\<lambda>s. None), ho_to_string = (\<lambda>j. []) \<rparr>"

definition demo_config :: fendermint_setup where
  "demo_config = \<lparr> fe_docker_container = ''c'', fe_issuers = [], fe_subnets = [(''s1'', \<lparr> fs_name = ''s1'', fs_subnet_id = ''r1'',
     fs_eth_rpc_url = ''http://localhost:1'', fs_provider_url = ''p'' \<rparr>)], fe_subnet_order = [''s1''], fe_print_queries = False \<rparr>"

definition demo_fendermint_setup :: fendermint_setup where
  "demo_fendermint_setup = demo_config\<lparr> fe_issuers := [(''u1'', \<lparr> fi_name = ''u1'', fi_ipc_address = ''0xab'' \<rparr>)] \<rparr>"

definition demo_fendermint_scenario :: "(nat \<times> scenario_command) list" where
  "demo_fendermint_scenario = [(5, CmdRegisterToken ''s1'' (Some ''u1'') ''T'' ''S'' 7),
     (6, CmdOutputRead OutTokenBalance [''s1'', ''u1'', ''T'']), (7, CmdOutputExpect \<lparr> tg_path = ''balance'', tg_line_no = 7 \<rparr> ''5'')]"

definition demo_fendermint :: fendermint_tester where
  "demo_fendermint = \<lparr> fm_docker_container = ''c'', fm_setup = demo_fendermint_setup, fm_print_queries = False,
     fm_issuer_private_keys = [''u1'' \<mapsto> ''k1''], fm_discovered_subnets = [''s1'' \<mapsto> \<lparr> ds_subnet_id = ''r1'', ds_gateway_address = ''0x7'',
       ds_eth_rpc_url = ''http://host.docker.internal:1'', ds_provider_url = ''p'' \<rparr>],
     fm_registered_tokens = Map.empty, fm_wrapped_addresses = Map.empty,
     fm_last_token_balance = None, fm_last_token_metadata = None, fm_last_read_args = None \<rparr>"

lemma demo_host_meters: "meters demo_host (\<lambda>_. 10)"
  by (simp add: meters_def demo_host_def)

lemmas demo_defs = demo_host_def demo_answer_def demo_fendermint_def demo_fendermint_setup_def demo_config_def

lemma demo_docker: "docker_exec demo_host c (a # as) (t, w) = (Inr (demo_answer (''exec'' # c # a # as) w), (t, Suc w), 10)"
  by (simp add: docker_exec_def demo_host_def io_bind_def io_output_def io_return_def)

lemma demo_wallet: "parse_private_key_from_wallet_list (''Address: 0xab'' @ CHR 0x0A # ''Secret key: k1'') ''0xab'' = Inr ''k1''"
  by code_simp

lemma demo_port: "extract_port ''http://h:1/'' = Inr 1"
  by (simp add: extract_port_def Let_def parse_uint_def is_digit_def)

lemma demo_fevm:
  "parse_fevm_subnets_from_config (''[[subnets]]'' @ CHR 0x0A # ''id = r1'' @ CHR 0x0A # ''network_type = fevm''
        @ CHR 0x0A # ''provider_http = http://h:1/'' @ CHR 0x0A # ''gateway_addr = 0x7'') = [(''r1'', 1, ''0x7'')]"
  by (simp add: parse_fevm_subnets_from_config_def text_lines_def strip_eol_def fevm_empty_def fevm_flush_def fevm_field_def
      trim_def is_space_def split_once_def trim_matches_def demo_port)

lemma demo_url: "to_container_url ''http://localhost:1'' = ''http://host.docker.internal:1''"
  by code_simp

lemma trim_dec: "trim (dec n) = dec n"
proof (rule trim_ends)
  have "\<not> is_space c" if "c \<in> set (dec n)" for c
    using dec_digits [of n] that by (force simp: list_all_iff is_digit_def is_space_def)
  then show "dec n = [] \<or> \<not> is_space (hd (dec n)) \<and> \<not> is_space (last (dec n))" using dec_not_Nil by auto
qed

lemma demo_block: "get_block demo_host c url (t, w) = (Inr w, (t, Suc w), 10)" if "w < 2 ^ 64"
  using that by (simp add: get_block_def io_bind_def io_res_def demo_docker demo_answer_def Let_def trim_dec parse_uint_dec)

lemma demo_sleep: "io_sleep demo_host ms (t, w) = (Inr (), (t, w), ms)"
  by (simp add: io_sleep_def demo_host_def)

lemma demo_advancing: "poll_block_advancing demo_host c url (t, 3) = (Inr (), (t, 5), 3020)"
proof -
  have f: "io_timed (io_bind (get_block demo_host c url) (\<lambda>first. io_then (io_sleep demo_host 3000) (io_return first))) (t, 3)
      = (Inr (3, 3010), (t, 4), 3010)"
    by (simp add: io_timed_def io_bind_def io_then_def io_return_def demo_block demo_sleep)
  show ?thesis
    unfolding poll_block_advancing_def io_bind_Inr f
    by (simp, rule poll_done) (simp add: io_bind_def demo_block io_return_def)
qed

lemma demo_fendermint_new: "fendermint_new demo_host demo_fendermint_setup ((), 1) = (Inr demo_fendermint, ((), 5), 3040)"
proof -
  have w: "demo_answer (''exec'' # ''c'' # ''ipc-cli'' # xs) n = ''Address: 0xab'' @ CHR 0x0A # ''Secret key: k1''"
    "demo_answer (''exec'' # ''c'' # ''cat'' # xs) n = ''[[subnets]]'' @ CHR 0x0A # ''id = r1'' @ CHR 0x0A # ''network_type = fevm''
        @ CHR 0x0A # ''provider_http = http://h:1/'' @ CHR 0x0A # ''gateway_addr = 0x7''" for xs n
    by (simp_all add: demo_answer_def)
  have k: "issuer_key (''Address: 0xab'' @ CHR 0x0A # ''Secret key: k1'') \<lparr> fi_name = ''u1'', fi_ipc_address = ''0xab'' \<rparr> = Inr (''u1'', ''k1'')"
    using demo_wallet by (simp add: issuer_key_def)
  have d: "discover_subnet [(''r1'', 1, ''0x7'')] \<lparr> fs_name = ''s1'', fs_subnet_id = ''r1'', fs_eth_rpc_url = ''http://localhost:1'',
      fs_provider_url = ''p'' \<rparr> = Inr (''s1'', \<lparr> ds_subnet_id = ''r1'', ds_gateway_address = ''0x7'',
      ds_eth_rpc_url = ''http://host.docker.internal:1'', ds_provider_url = ''p'' \<rparr>)"
    using demo_url by (simp add: discover_subnet_def)
  have three: "Suc (Suc (Suc 0)) = 3" by simp
  show ?thesis
    unfolding fendermint_new_def Let_def io_bind_Inr io_then_Inr
    by (simp add: demo_docker demo_fendermint_def demo_fendermint_setup_def demo_config_def w [simplified] k [simplified]
        d [simplified] demo_fevm [simplified] io_basic(1,2) io_then_Inr demo_advancing [unfolded numeral_3_eq_3])
qed

definition demo_registered :: fendermint_tester where
  "demo_registered = demo_fendermint\<lparr> fm_registered_tokens := [''T'' \<mapsto> \<lparr> tr_home_subnet = ''s1'', tr_home_address = ''0x11'', tr_issuer = ''u1'' \<rparr>] \<rparr>"

definition demo_read :: fendermint_tester where
  "demo_read = demo_registered\<lparr> fm_last_read_args := Some (OutTokenBalance, [''s1'', ''u1'', ''T'']),
     fm_last_token_balance := Some (5 * 10 ^ 18), fm_last_token_metadata := None \<rparr>"

lemma demo_cast: "parse_u256_from_cast_output demo_tester ''5000000000000000000 [5e18]'' = Inr (5 * 10 ^ 18)"
  by (simp add: parse_u256_from_cast_output_def demo_tester_def trim_def is_space_def parse_uint_def is_digit_def)

lemma demo_balance_read:
  "fm_output_read demo_tester demo_host OutTokenBalance [''s1'', ''u1'', ''T''] (demo_registered, 5) = (Inr (), (demo_read, 6), 10)"
proof -
  let ?t = "demo_registered\<lparr> fm_last_read_args := Some (OutTokenBalance, [''s1'', ''u1'', ''T'']) \<rparr>"
  have r: "resolve_token_address demo_host ''T'' ''s1'' (?t, 5) = (Inr ''0x11'', (?t, 5), 0)"
    by (simp add: resolve_token_address_def io_bind_def io_self_def io_res_def io_return_def fm_token_def demo_registered_def)
  have a: "wait_for_address demo_host ''T'' ''s1'' (?t, 5) = (Inr ''0x11'', (?t, 5), 0)"
    unfolding wait_for_address_def by (rule poll_done) (simp add: io_bind_def io_try_def io_return_def r)
  have c: "docker_exec_with_print demo_host (''cast'' # ''call'' # xs) (?t, 5) = (Inr ''5000000000000000000 [5e18]'', (?t, 6), 10)" for xs
    by (simp add: docker_exec_with_print_def io_bind_def io_self_def demo_docker demo_answer_def)
  have act: "fm_actor ''actor'' ''u1'' ?t = Inr ''0xab''"
    by (simp add: fm_actor_def demo_registered_def demo_fendermint_def demo_fendermint_setup_def)
  have sub: "\<exists>ds. fm_subnet ''s1'' ?t = Inr ds" by (simp add: fm_subnet_def demo_registered_def demo_fendermint_def)
  then obtain ds where ds: "fm_subnet ''s1'' ?t = Inr ds" ..
  have "fm_read_balance demo_tester demo_host [''s1'', ''u1'', ''T''] (?t, 5) = (Inr (), (demo_read, 6), 10)"
    unfolding fm_read_balance_def
    by (simp add: io_bind_Inr io_basic act ds a c demo_cast [simplified] demo_read_def)
  then show ?thesis by (simp add: fm_output_read_def io_then_Inr io_basic)
qed

theorem fendermint_expects_whole_tokens_witness:
  "\<exists>b. parse_u256_from_cast_output demo_tester ''5000000000000000000 [5e18]'' = Inr b
     \<and> ((\<exists>m. fm_output_expect demo_tester \<lparr> tg_path = ''balance'', tg_line_no = 7 \<rparr> (dec (unat (5 :: u256))) demo_read = Inr m)
          \<longleftrightarrow> unat b = unat (5 :: u256) * 10 ^ 18)"
proof -
  have p: "te_parse_u256 demo_tester (dec (unat (5 :: u256))) = Inr 5" using demo_tester_ok unfolding u256_text_ok_def by blast
  show ?thesis
    using fendermint_expects_whole_tokens [OF demo_balance_read p, of "\<lparr> tg_path = ''balance'', tg_line_no = 7 \<rparr>"]
    by (auto simp: demo_host_def demo_answer_def)
qed

theorem fendermint_run_ends_in_time_witness:
  "meters demo_host (\<lambda>_. 10) \<and> (\<forall>H. meters (metered H) snd)
     \<and> snd (snd (fm_run demo_tester demo_host demo_fendermint_scenario (demo_fendermint, 5))) \<le> 285050"
proof -
  obtain r t w d where f: "fm_run demo_tester demo_host demo_fendermint_scenario (demo_fendermint, 5) = (r, (t, w), d)"
    by (cases "fm_run demo_tester demo_host demo_fendermint_scenario (demo_fendermint, 5)") auto
  from fendermint_run_ends_in_time [OF demo_host_meters f] f show ?thesis
    by (simp add: demo_host_meters metered_meters demo_fendermint_scenario_def)
qed

theorem fendermint_lookups_succeed_witness:
  "\<forall>tok reg. fm_registered_tokens (fst (fst (snd (fm_run demo_tester demo_host demo_fendermint_scenario (demo_fendermint, 5))))) tok = Some reg
     \<longrightarrow> fm_discovered_subnets (fst (fst (snd (fm_run demo_tester demo_host demo_fendermint_scenario (demo_fendermint, 5)))))
           (tr_home_subnet reg) \<noteq> None"
proof -
  obtain r t w d where f: "fm_run demo_tester demo_host demo_fendermint_scenario (demo_fendermint, 5) = (r, (t, w), d)"
    by (cases "fm_run demo_tester demo_host demo_fendermint_scenario (demo_fendermint, 5)") auto
  show ?thesis using fendermint_lookups_succeed [OF _ demo_fendermint_new f] f by (simp add: demo_fendermint_setup_def)
qed

end
