(* ===== verification/Live.thy ===== *)
theory Live
  imports Host Provider
begin

text \<open>
  The monitor tester (\<open>src/src/easy_tester/monitor_tester.rs\<close>, \<open>provider_client.rs\<close>): it starts bitcoind,
  the monitor and one provider per validator, and runs a scenario by JSON-RPC requests to the providers.
  The machine is the parameter \<open>host\<close>; the record \<open>rpc_serde\<close> holds the text of a request, the decoders of
  the large responses and the order in which a hash map is iterated.  Printing and logging are left out,
  and so are the removal of the temporary directory and the argument list in the message of a failed
  \<open>bitcoin-cli\<close>.
\<close>

section \<open>Constants\<close>

definition RPC_USER :: string where "RPC_USER = ''user''"
definition RPC_PASS :: string where "RPC_PASS = ''pass''"
definition BITCOIND_RPC_PORT :: nat where "BITCOIND_RPC_PORT = 18443"
definition LOG_DIR :: string where "LOG_DIR = ''/tmp/easy_tester''"
definition WALLET_NAME :: string where "WALLET_NAME = ''testwallet''"
definition AUTH_TOKEN :: string where "AUTH_TOKEN = ''testtoken''"
definition BITCOIND_READY_TIMEOUT_SECS :: nat where "BITCOIND_READY_TIMEOUT_SECS = 30"
definition PROVIDER_READY_TIMEOUT_SECS :: nat where "PROVIDER_READY_TIMEOUT_SECS = 30"
definition MONITOR_POLL_INTERVAL :: nat where "MONITOR_POLL_INTERVAL = 1"
definition CONFIRM_POLL_TIMEOUT_SECS :: nat where "CONFIRM_POLL_TIMEOUT_SECS = 60"

abbreviation line_end :: string where "line_end \<equiv> [CHR 0x0A]"

definition path_join :: "string \<Rightarrow> string \<Rightarrow> string" where
  "path_join dir name = dir @ ''/'' @ name"

section \<open>Files and commands\<close>

definition write_file :: "'w host \<Rightarrow> string \<Rightarrow> string \<Rightarrow> string \<Rightarrow> ('t \<times> 'w, unit) io" where
  "write_file H path content what = io_world (ho_write H path content) (\<lambda>e. ''failed to write '' @ what @ '': '' @ e)"

definition write_bitcoin_conf :: "'w host \<Rightarrow> string \<Rightarrow> ('t \<times> 'w, unit) io" where
  "write_bitcoin_conf H datadir =
     write_file H (path_join datadir ''bitcoin.conf'')
       (''regtest=1'' @ line_end @ ''server=1'' @ line_end @ ''rpcuser='' @ RPC_USER @ line_end @ ''rpcpassword='' @ RPC_PASS @ line_end
        @ ''rpcallowip=127.0.0.1'' @ line_end @ ''fallbackfee=0.00003'' @ line_end @ ''paytxfee=0.00003'' @ line_end
        @ ''listen=1'' @ line_end @ ''txindex=1'' @ line_end) ''bitcoin.conf''"

definition bitcoin_cli :: "'w host \<Rightarrow> string \<Rightarrow> string list \<Rightarrow> ('t \<times> 'w, string) io" where
  "bitcoin_cli H datadir args =
     io_bind (io_output H ''bitcoin-cli'' ((''-datadir='' @ datadir) # args)) (\<lambda>r.
     case r of
       Inl e \<Rightarrow> io_fail (''bitcoin-cli exec failed: '' @ e)
     | Inr out \<Rightarrow>
         if \<not> po_success out then io_fail (''bitcoin-cli failed: '' @ po_stderr out)
         else io_return (trim (po_stdout out)))"

definition write_validator_sk :: "'w host \<Rightarrow> string \<Rightarrow> string \<Rightarrow> bytes \<Rightarrow> ('t \<times> 'w, unit) io" where
  "write_validator_sk H dir name sk = write_file H (path_join dir (name @ ''.sk'')) (hex_encode sk) (name @ ''.sk'')"

definition env_text :: "u16 \<Rightarrow> string \<Rightarrow> string \<Rightarrow> u64 option \<Rightarrow> u64 option \<Rightarrow> string option \<Rightarrow> string" where
  "env_text provider_port db_url sk_path activation_height snapshot_length log_level =
     ''RPC_USER='' @ RPC_USER @ line_end @ ''RPC_PASS='' @ RPC_PASS @ line_end
     @ ''RPC_URL=http://127.0.0.1:'' @ dec BITCOIND_RPC_PORT @ line_end @ ''WALLET_NAME='' @ WALLET_NAME @ line_end
     @ ''VALIDATOR_SK_PATH='' @ sk_path @ line_end @ ''DATABASE_URL='' @ db_url @ line_end
     @ ''PROVIDER_PORT='' @ dec (unat provider_port) @ line_end @ ''PROVIDER_AUTH_TOKEN='' @ AUTH_TOKEN @ line_end
     @ ''MONITOR_POLL_INTERVAL='' @ dec MONITOR_POLL_INTERVAL @ line_end
     @ ''RUST_LOG='' @ (case log_level of Some l \<Rightarrow> l | None \<Rightarrow> ''info'') @ line_end
     @ (case activation_height of Some h \<Rightarrow> ''ACTIVATION_HEIGHT='' @ dec (unat h) @ line_end | None \<Rightarrow> [])
     @ (case snapshot_length of Some l \<Rightarrow> ''SNAPSHOT_LENGTH='' @ dec (unat l) @ line_end | None \<Rightarrow> [])"

definition write_env ::
  "'w host \<Rightarrow> string \<Rightarrow> u16 \<Rightarrow> string \<Rightarrow> string \<Rightarrow> u64 option \<Rightarrow> u64 option \<Rightarrow> string option \<Rightarrow> ('t \<times> 'w, unit) io" where
  "write_env H path provider_port db_url sk_path activation_height snapshot_length log_level =
     write_file H path (env_text provider_port db_url sk_path activation_height snapshot_length log_level) ''.env''"

definition compile_binaries :: "'w host \<Rightarrow> ('t \<times> 'w, unit) io" where
  "compile_binaries H =
     io_bind (io_output H ''cargo'' [''build'', ''--release'', ''--features'', ''emission_chain,dev'', ''--bins'']) (\<lambda>r.
     case r of
       Inl e \<Rightarrow> io_fail (''cargo build exec failed: '' @ e)
     | Inr out \<Rightarrow> if po_success out then io_return ()
         else io_fail ''cargo build --release --features emission_chain,dev failed'')"

definition which :: "'w host \<Rightarrow> string \<Rightarrow> ('t \<times> 'w, unit) io" where
  "which H name =
     io_bind (io_output H ''which'' [name]) (\<lambda>r.
     case r of
       Inl e \<Rightarrow> io_fail (''failed to run '' @ quoted (''which '' @ name) @ '': '' @ e)
     | Inr out \<Rightarrow> if po_success out then io_return ()
         else io_fail (quoted name @ '' not found in PATH - please install it''))"

definition kill_pid :: "'w host \<Rightarrow> u32 \<Rightarrow> ('t \<times> 'w, unit) io" where
  "kill_pid H pid = io_then (io_output H ''kill'' [''-9'', dec (unat pid)]) (io_return ())"

definition open_log :: "'w host \<Rightarrow> string \<Rightarrow> ('t \<times> 'w, unit) io" where
  "open_log H name = io_world (ho_create H (path_join LOG_DIR name)) (\<lambda>e. ''failed to create '' @ name @ '': '' @ e)"

definition io_free_port :: "'w host \<Rightarrow> ('t \<times> 'w, u16) io" where
  "io_free_port H = (\<lambda>(t, w). case ho_free_port H w of (p, w') \<Rightarrow> (Inr p, (t, w'), 0))"

section \<open>Waiting\<close>

definition wait_for_bitcoind :: "'w host \<Rightarrow> string \<Rightarrow> nat \<Rightarrow> ('t \<times> 'w, unit) io" where
  "wait_for_bitcoind H datadir timeout_secs =
     poll (timeout_secs * 1000)
       (io_bind (io_status H ''bitcoin-cli'' [''-datadir='' @ datadir, ''getblockchaininfo'']) (\<lambda>ok.
          io_return (if ok then Done () else Again (Runtime ''timed out waiting for bitcoind to start''))))
       (io_sleep H 500) 0"

definition wait_for_provider_http :: "'w host \<Rightarrow> u16 \<Rightarrow> string \<Rightarrow> nat \<Rightarrow> ('t \<times> 'w, unit) io" where
  "wait_for_provider_http H port auth_token timeout_secs =
     (let url = ''http://127.0.0.1:'' @ dec (unat port) @ ''/api'';
          q = [CHR 0x22];
          body = ''{'' @ q @ ''jsonrpc'' @ q @ '':'' @ q @ ''2.0'' @ q @ '','' @ q @ ''method'' @ q @ '':'' @ q @ ''getblockcount'' @ q
            @ '','' @ q @ ''params'' @ q @ '':[],'' @ q @ ''id'' @ q @ '':1}''
      in poll (timeout_secs * 1000)
       (io_bind (io_output H ''curl'' [''-s'', ''-m'', ''2'', ''-X'', ''POST'', ''-H'', ''Authorization: Bearer '' @ auth_token,
            ''-H'', ''Content-Type: application/json'', ''-d'', body, url]) (\<lambda>r.
          io_return (case r of
            Inr out \<Rightarrow> if po_success out \<and> po_stdout out \<noteq> [] then Done ()
              else Again (Runtime (''timed out waiting for provider at '' @ url))
          | Inl _ \<Rightarrow> Again (Runtime (''timed out waiting for provider at '' @ url)))))
       (io_sleep H 500) 0)"

text \<open>The deadline for the database file has to be passed, not only reached.\<close>

definition wait_for_file :: "'w host \<Rightarrow> string \<Rightarrow> ('t \<times> 'w, unit) io" where
  "wait_for_file H path =
     poll 30001
       (\<lambda>(t, w). (Inr (if ho_exists H path w then Done ()
          else Again (Runtime ''timed out waiting for monitor to initialize DB'')), (t, w), 0))
       (io_sleep H 200) 0"

definition bitcoind_running :: "'w host \<Rightarrow> ('t \<times> 'w, bool) io" where
  "bitcoind_running H = io_status H ''pgrep'' [''-x'', ''bitcoind'']"

definition stop_running_bitcoind :: "'w host \<Rightarrow> ('t \<times> 'w, unit) io" where
  "stop_running_bitcoind H =
     io_bind (bitcoind_running H) (\<lambda>running.
     if \<not> running then io_return () else
     io_then (io_output H ''bitcoin-cli'' [''--regtest'', ''stop'']) (
     io_then (io_try (poll 5000
       (io_bind (bitcoind_running H) (\<lambda>still_running. io_return (if \<not> still_running then Done () else Again (Runtime []))))
       (io_sleep H 300) 0)) (
     io_then (io_output H ''pkill'' [''-9'', ''-x'', ''bitcoind'']) (
     io_sleep H 500))))"

section \<open>Starting and stopping\<close>

text \<open>
  During the start the state is the list of processes that the guard tracks.  A process is tracked as soon
  as it has started.
\<close>

definition spawn_tracked :: "'w host \<Rightarrow> string \<Rightarrow> string list \<Rightarrow> string \<Rightarrow> (u32 list \<times> 'w, u32) io" where
  "spawn_tracked H prog args what = (\<lambda>(pids, w). case ho_spawn H prog args w of
       (Inl e, w', d) \<Rightarrow> (Inl (Runtime (''failed to spawn '' @ what @ '': '' @ e)), (pids, w'), d)
     | (Inr pid, w', d) \<Rightarrow> (Inr pid, (pids @ [pid], w'), d))"

record started =
  sa_tmpdir :: string
  sa_bitcoind_pid :: u32
  sa_monitor_pid :: u32
  sa_providers :: "(string \<times> u32 \<times> u16) list"
  sa_all_sk_hex :: "string \<rightharpoonup> string"

text \<open>A log file that was created can be cloned: a failure of \<open>try_clone\<close> is not modelled.\<close>

definition start_bitcoind :: "'w host \<Rightarrow> string \<Rightarrow> (u32 list \<times> 'w, u32) io" where
  "start_bitcoind H datadir =
     io_then (open_log H ''bitcoind.log'') (
     io_bind (spawn_tracked H ''sh'' [''-c'', ''ulimit -n 65536 2>/dev/null; exec bitcoind -datadir='' @ datadir @ '' -daemon=0''] ''bitcoind'') (\<lambda>pid.
     io_then (wait_for_bitcoind H datadir BITCOIND_READY_TIMEOUT_SECS) (
     io_then (bitcoin_cli H datadir [''createwallet'', WALLET_NAME]) (
     io_bind (bitcoin_cli H datadir [''-rpcwallet='' @ WALLET_NAME, ''getnewaddress'']) (\<lambda>mine_address.
     io_then (bitcoin_cli H datadir [''-rpcwallet='' @ WALLET_NAME, ''generatetoaddress'', ''101'', mine_address]) (
     io_return pid))))))"

definition start_monitor ::
  "'w host \<Rightarrow> string \<Rightarrow> string \<Rightarrow> string \<Rightarrow> u64 option \<Rightarrow> u64 option \<Rightarrow> string option \<Rightarrow> (u32 list \<times> 'w, u32) io" where
  "start_monitor H release_dir datadir primary_sk_path activation_height snapshot_length log_level =
     (let db_url = path_join datadir ''db''; env_path = path_join datadir ''monitor.env'' in
     io_then (io_world (ho_create_dir H db_url) (\<lambda>e. ''failed to create db dir: '' @ e)) (
     io_bind (io_free_port H) (\<lambda>port.
     io_then (write_env H env_path port db_url primary_sk_path activation_height snapshot_length log_level) (
     io_then (open_log H ''monitor.log'') (
     io_bind (spawn_tracked H (path_join release_dir ''monitor'') [''--env'', env_path] ''monitor'') (\<lambda>pid.
     io_then (wait_for_file H (path_join db_url ''data.mdb'')) (
     io_return pid)))))))"

definition start_provider ::
  "'w host \<Rightarrow> string \<Rightarrow> string \<Rightarrow> u64 option \<Rightarrow> u64 option \<Rightarrow> string option \<Rightarrow> string \<Rightarrow> (u32 list \<times> 'w, string \<times> u32 \<times> u16) io" where
  "start_provider H release_dir datadir activation_height snapshot_length log_level name =
     (let env_path = path_join datadir (''provider-'' @ name @ ''.env'') in
     io_bind (io_free_port H) (\<lambda>port.
     io_then (write_env H env_path port (path_join datadir ''db'') (path_join datadir (name @ ''.sk'')) activation_height snapshot_length log_level) (
     io_then (open_log H (''provider-'' @ name @ ''.log'')) (
     io_bind (spawn_tracked H (path_join release_dir ''provider'') [''--env'', env_path] (''provider for '' @ name)) (\<lambda>pid.
     io_return (name, pid, port))))))"

definition start_all ::
  "'w host \<Rightarrow> string \<Rightarrow> setup_spec \<Rightarrow> u64 option \<Rightarrow> u64 option \<Rightarrow> string option \<Rightarrow> string option \<Rightarrow> (u32 list \<times> 'w, started) io" where
  "start_all H workspace_root setup activation_height snapshot_length monitor_log_level provider_log_level =
     (let release_dir = path_join (path_join workspace_root ''target'') ''release''; names = sort (map fst (su_validators setup)) in
     io_then (which H ''bitcoind'') (
     io_then (which H ''bitcoin-cli'') (
     io_then (compile_binaries H) (
     io_bind (io_world (ho_tempdir H) (\<lambda>e. ''tempdir failed: '' @ e)) (\<lambda>datadir.
     io_then (write_bitcoin_conf H datadir) (
     io_then (stop_running_bitcoind H) (
     io_bind (start_bitcoind H datadir) (\<lambda>bitcoind_pid.
     io_then (io_each (\<lambda>(name, v). write_validator_sk H datadir name (vs_secret_key v)) (su_validators setup)) (
     let primary = (case names of [] \<Rightarrow> ''validator1'' | n # _ \<Rightarrow> n) in
     io_bind (start_monitor H release_dir datadir (path_join datadir (primary @ ''.sk'')) activation_height snapshot_length monitor_log_level) (\<lambda>monitor_pid.
     io_bind (io_collect (start_provider H release_dir datadir activation_height snapshot_length provider_log_level) names) (\<lambda>providers.
     io_then (io_each (\<lambda>(name, _, port). io_map_err (\<lambda>e. Runtime (''provider for '' @ name @ '' (port '' @ dec (unat port) @ '') failed to start: '' @ show_error e))
         (wait_for_provider_http H port AUTH_TOKEN PROVIDER_READY_TIMEOUT_SECS)) providers) (
     io_return \<lparr> sa_tmpdir = datadir, sa_bitcoind_pid = bitcoind_pid, sa_monitor_pid = monitor_pid, sa_providers = providers,
       sa_all_sk_hex = map_of (map (\<lambda>(name, v). (name, hex_encode (vs_secret_key v))) (su_validators setup)) \<rparr>))))))))))))"

record live_tester =
  lt_setup :: setup_spec
  lt_default_provider_url :: string
  lt_validator_provider_urls :: "string \<rightharpoonup> string"
  lt_bitcoind_pid :: u32
  lt_monitor_pid :: u32
  lt_provider_pids :: "u32 list"
  lt_tmpdir :: string
  lt_current_block :: u64
  lt_created_subnets :: "(string \<times> subnet_id) list"
  lt_registered_tokens :: "string \<rightharpoonup> string \<times> eth_address"
  lt_pending_registrations :: "string \<Rightarrow> ipc_erc_token_registration list"
  lt_pending_supply_adjustments :: "string \<Rightarrow> ipc_erc_supply_adjustment list"
  lt_pending_erc_transfers :: "string \<Rightarrow> ipc_cross_subnet_erc_transfer list"
  lt_last_rootnet_msgs :: "(string \<times> u64 \<times> json option \<times> json option) list option"
  lt_last_token_balance :: "u256 option"
  lt_last_reward_results :: "last_reward_results option"
  lt_checkpoint_heights :: "string \<rightharpoonup> u64"
  lt_all_sk_hex :: "string \<rightharpoonup> string"
  lt_done_handovers :: "string list"
  lt_draws :: nat

definition prepare_logs :: "'w host \<Rightarrow> ('t \<times> 'w, unit) io" where
  "prepare_logs H =
     io_then (io_world (ho_create_dir H LOG_DIR) (\<lambda>e. ''failed to create log dir: '' @ e)) (open_log H ''rpc_client.log'')"

text \<open>The default provider is the first one; without a validator this is a panic.\<close>

definition live_tester_of :: "setup_spec \<Rightarrow> started \<Rightarrow> easy_tester_error + live_tester" where
  "live_tester_of setup started =
     (let urls = map_of (rev (map (\<lambda>(name, _, port). (name, ''http://127.0.0.1:'' @ dec (unat port) @ ''/api'')) (sa_providers started))) in
      case sa_providers started of
        [] \<Rightarrow> Inl (Runtime ''panic: index out of bounds'')
      | (name, _, _) # _ \<Rightarrow>
          Inr \<lparr> lt_setup = setup, lt_default_provider_url = the (urls name), lt_validator_provider_urls = urls,
            lt_bitcoind_pid = sa_bitcoind_pid started, lt_monitor_pid = sa_monitor_pid started,
            lt_provider_pids = map (\<lambda>(_, pid, _). pid) (sa_providers started), lt_tmpdir = sa_tmpdir started,
            lt_current_block = 101, lt_created_subnets = [], lt_registered_tokens = Map.empty,
            lt_pending_registrations = (\<lambda>_. []), lt_pending_supply_adjustments = (\<lambda>_. []), lt_pending_erc_transfers = (\<lambda>_. []),
            lt_last_rootnet_msgs = None, lt_last_token_balance = None, lt_last_reward_results = None,
            lt_checkpoint_heights = Map.empty, lt_all_sk_hex = sa_all_sk_hex started, lt_done_handovers = [], lt_draws = 0 \<rparr>)"

text \<open>
  The guard is disarmed when everything has started; before that an error kills what was started.  The
  state of the tester is put together after the guard was disarmed.
\<close>

definition live_tester_new ::
  "'w host \<Rightarrow> string \<Rightarrow> setup_spec \<Rightarrow> u64 option \<Rightarrow> u64 option \<Rightarrow> string option \<Rightarrow> string option \<Rightarrow> (u32 list \<times> 'w, live_tester) io" where
  "live_tester_new H workspace_root setup activation_height snapshot_length monitor_log_level provider_log_level =
     io_bind (prepare_logs H) (\<lambda>_.
     io_bind (io_try (start_all H workspace_root setup activation_height snapshot_length monitor_log_level provider_log_level)) (\<lambda>r.
     case r of
       Inl e \<Rightarrow> io_bind io_self (\<lambda>pids. io_bind (io_each (kill_pid H) pids) (\<lambda>_. io_res (Inl e)))
     | Inr started \<Rightarrow> io_bind (io_self_update (\<lambda>_. [])) (\<lambda>_. io_res (live_tester_of setup started))))"

definition live_tester_drop :: "'w host \<Rightarrow> live_tester \<Rightarrow> ('t \<times> 'w, unit) io" where
  "live_tester_drop H t =
     io_then (io_each (kill_pid H) (lt_provider_pids t)) (
     io_then (kill_pid H (lt_monitor_pid t)) (
     io_then (io_output H ''bitcoin-cli'' [''-datadir='' @ lt_tmpdir t, ''stop'']) (
     io_then (io_sleep H 500) (
     kill_pid H (lt_bitcoind_pid t)))))"

section \<open>Requests\<close>

datatype rpc_params =
    NoParams
  | SubnetIdParam subnet_id
  | SubnetBlockParam subnet_id u64
  | TokenBalanceParams subnet_id eth_address subnet_id
  | RewardedCollateralsParams u64
  | CreateParams ipc_create_subnet_msg
  | JoinParams ipc_join_subnet_msg
  | FundParams ipc_fund_subnet_msg
  | StakeParams ipc_stake_collateral_msg
  | UnstakeParams ipc_unstake_collateral_msg
  | CheckpointParams ipc_checkpoint_subnet_msg
  | MultisignParams string "string list"
  | FinalizeHandoverParams subnet_id string "(xonly_pubkey \<times> bytes list) list"
  | FinalizeCheckpointParams subnet_id string "(xonly_pubkey \<times> bytes list) list" "string option"

record rpc_serde =
  rs_body :: "string \<Rightarrow> rpc_params \<Rightarrow> string"
  rs_subnet_state :: "json \<Rightarrow> subnet_state option"
  rs_signatures :: "json \<Rightarrow> (xonly_pubkey \<times> bytes list) list option"
  rs_rewards :: "json \<Rightarrow> ((eth_address \<times> u64) list \<times> u64) option"
  rs_order :: "string list \<Rightarrow> string list"

definition json_get :: "string \<Rightarrow> json \<Rightarrow> json option" where
  "json_get key v = (case v of JObject fs \<Rightarrow> map_of fs key | _ \<Rightarrow> None)"

definition status_text :: "proc_output \<Rightarrow> string" where
  "status_text out = (case po_code out of Some c \<Rightarrow> ''exit status: '' @ show_int c | None \<Rightarrow> ''signal'')"

definition error_message :: "'w host \<Rightarrow> json \<Rightarrow> string" where
  "error_message H err =
     (case json_get ''message'' err of
        Some (JString m) \<Rightarrow> if m \<noteq> [] then m else ''provider error: '' @ ho_to_string H err
      | _ \<Rightarrow> ''provider error: '' @ ho_to_string H err)"

definition rpc_result :: "'w host \<Rightarrow> string \<Rightarrow> easy_tester_error + json" where
  "rpc_result H text =
     (case ho_from_str H text of
        None \<Rightarrow> Inl (Runtime (''invalid JSON from provider'' @ line_end @ ''Body: '' @ text))
      | Some v \<Rightarrow>
          (case json_get ''error'' v of
             Some err \<Rightarrow> Inl (Runtime (error_message H err))
           | None \<Rightarrow> ok_or (json_get ''result'' v) (Runtime (''provider response missing '' @ quoted ''result'' @ '' field: '' @ text))))"

definition provider_client_call ::
  "'w host \<Rightarrow> rpc_serde \<Rightarrow> string \<Rightarrow> (json \<Rightarrow> 'a option) \<Rightarrow> string \<Rightarrow> rpc_params \<Rightarrow> ('t \<times> 'w, 'a) io" where
  "provider_client_call H S url decode method params =
     io_bind (io_output H ''curl'' [''-s'', ''-X'', ''POST'', ''-H'', ''Authorization: Bearer '' @ AUTH_TOKEN,
       ''-H'', ''Content-Type: application/json'', ''-d'', rs_body S method params, url]) (\<lambda>r.
     case r of
       Inl e \<Rightarrow> io_fail (''curl exec failed: '' @ e)
     | Inr out \<Rightarrow>
         if \<not> po_success out
         then io_fail (''curl failed (exit '' @ status_text out @ ''):'' @ line_end @ ''stderr: '' @ po_stderr out @ line_end @ ''stdout: '' @ po_stdout out)
         else io_bind (io_res (rpc_result H (po_stdout out))) (\<lambda>result.
           io_res (ok_or (decode result) (Runtime (''failed to deserialize provider response'' @ line_end @ ''Result: '' @ ho_to_string H result)))))"

fun any_alive :: "'w host \<Rightarrow> u32 list \<Rightarrow> ('t \<times> 'w, bool) io" where
  "any_alive H [] = io_return False"
| "any_alive H (pid # pids) = io_bind (io_status H ''kill'' [''-0'', dec (unat pid)]) (\<lambda>ok.
     if ok then io_return True else any_alive H pids)"

type_synonym ('w, 'a) lt_io = "(live_tester \<times> 'w, 'a) io"

definition rpc_call_to ::
  "'w host \<Rightarrow> rpc_serde \<Rightarrow> string \<Rightarrow> (json \<Rightarrow> 'a option) \<Rightarrow> string \<Rightarrow> rpc_params \<Rightarrow> ('w, 'a) lt_io" where
  "rpc_call_to H S url decode method params =
     io_bind io_self (\<lambda>t.
     io_bind (any_alive H (lt_provider_pids t)) (\<lambda>alive.
     if \<not> alive then io_fail ''no provider processes are running''
     else provider_client_call H S url decode method params))"

definition rpc_call ::
  "'w host \<Rightarrow> rpc_serde \<Rightarrow> (json \<Rightarrow> 'a option) \<Rightarrow> string \<Rightarrow> rpc_params \<Rightarrow> ('w, 'a) lt_io" where
  "rpc_call H S decode method params =
     io_bind io_self (\<lambda>t. rpc_call_to H S (lt_default_provider_url t) decode method params)"

definition rpc_call_as ::
  "'w host \<Rightarrow> rpc_serde \<Rightarrow> string \<Rightarrow> (json \<Rightarrow> 'a option) \<Rightarrow> string \<Rightarrow> rpc_params \<Rightarrow> ('w, 'a) lt_io" where
  "rpc_call_as H S validator decode method params =
     io_bind io_self (\<lambda>t.
     io_bind (io_res (ok_or (lt_validator_provider_urls t validator) (Runtime (''no provider for validator '' @ quoted validator)))) (\<lambda>url.
     rpc_call_to H S url decode method params))"

text \<open>The slim responses.  A provider answers with objects; unknown fields are ignored.\<close>

definition json_string :: "json \<Rightarrow> string option" where
  "json_string j = (case j of JString s \<Rightarrow> Some s | _ \<Rightarrow> None)"

definition json_u64 :: "json \<Rightarrow> u64 option" where
  "json_u64 j = (case j of JNumber s \<Rightarrow> (case parse_uint 64 s of Inr n \<Rightarrow> Some (of_nat n) | Inl _ \<Rightarrow> None) | _ \<Rightarrow> None)"

definition json_bool :: "json \<Rightarrow> bool option" where
  "json_bool j = (case j of JBool b \<Rightarrow> Some b | _ \<Rightarrow> None)"

definition field_with :: "string \<Rightarrow> (json \<Rightarrow> 'a option) \<Rightarrow> json \<Rightarrow> 'a option" where
  "field_with key decode j = Option.bind (json_get key j) decode"

definition optional_field :: "string \<Rightarrow> json \<Rightarrow> json option" where
  "optional_field key j = (case json_get key j of Some JNull \<Rightarrow> None | r \<Rightarrow> r)"

definition checkpoint_psbt_result :: "json \<Rightarrow> (string \<times> string option) option" where
  "checkpoint_psbt_result j =
     Option.bind (field_with ''unsigned_psbt_base64'' json_string j) (\<lambda>psbt.
     case optional_field ''batch_transfer_tx_hex'' j of
       None \<Rightarrow> Some (psbt, None)
     | Some v \<Rightarrow> map_option (\<lambda>s. (psbt, Some s)) (json_string v))"

definition subnet_id_result :: "ext \<Rightarrow> json \<Rightarrow> subnet_id option" where
  "subnet_id_result X j = Option.bind (field_with ''subnet_id'' json_string j) (\<lambda>s.
     case subnet_id_from_str X s of Inr sid \<Rightarrow> Some sid | Inl _ \<Rightarrow> None)"

definition rootnet_msg_value :: "json \<Rightarrow> (string \<times> u64 \<times> json option \<times> json option) option" where
  "rootnet_msg_value j =
     Option.bind (field_with ''kind'' json_string j) (\<lambda>kind.
     Option.bind (field_with ''nonce'' json_u64 j) (\<lambda>nonce.
     Some (kind, nonce, optional_field ''registration'' j, optional_field ''msg'' j)))"

text \<open>
  The message as the provider writes it: the tagged object that serde derives.  The texts of a number of 256
  bits, of an address and of a hash are those of the libraries.
\<close>

record message_texts =
  mt_u256 :: "u256 \<Rightarrow> string"
  mt_address :: "eth_address \<Rightarrow> string"
  mt_hash :: "bytes \<Rightarrow> string"

definition fund_json :: "ext \<Rightarrow> message_texts \<Rightarrow> ipc_fund_subnet_msg \<Rightarrow> json" where
  "fund_json X M m = JObject [(''subnet_id'', JString (subnet_id_display X (fm_subnet_id m))), (''amount'', JNumber (dec (unat (fm_amount m)))),
     (''address'', JString (mt_address M (fm_address m)))]"

definition erc_transfer_json :: "ext \<Rightarrow> message_texts \<Rightarrow> ipc_cross_subnet_erc_transfer \<Rightarrow> json" where
  "erc_transfer_json X M m = JObject [(''home_subnet_id'', JString (subnet_id_display X (et_home_subnet_id m))),
     (''home_token_address'', JString (mt_address M (et_home_token_address m))), (''amount'', JString (mt_u256 M (et_amount m))),
     (''destination_subnet_id'', JString (subnet_id_display X (et_destination_subnet_id m))),
     (''recipient'', JString (mt_address M (et_recipient m)))]"

definition erc_registration_json :: "message_texts \<Rightarrow> ipc_erc_token_registration \<Rightarrow> json" where
  "erc_registration_json M r = JObject [(''home_token_address'', JString (mt_address M (er_home_token_address r))),
     (''name'', JString (er_name r)), (''symbol'', JString (er_symbol r)), (''decimals'', JNumber (dec (unat (er_decimals r)))),
     (''initial_supply'', JString (mt_u256 M (er_initial_supply r)))]"

definition event_json :: "message_texts \<Rightarrow> u64 \<Rightarrow> block_hash \<Rightarrow> u64 \<Rightarrow> txid \<Rightarrow> (string \<times> json) list" where
  "event_json M height hash nonce txid = [(''block_height'', JNumber (dec (unat height))), (''block_hash'', JString (mt_hash M hash)),
     (''nonce'', JNumber (dec (unat nonce))), (''txid'', JString (mt_hash M txid))]"

fun message_json :: "ext \<Rightarrow> message_texts \<Rightarrow> rootnet_message \<Rightarrow> json" where
  "message_json X M (FundSubnet m h bh n txid) =
     JObject ((''kind'', JString ''fund'') # (''msg'', fund_json X M m) # event_json M h bh n txid)"
| "message_json X M (ErcTransfer m h bh n txid) =
     JObject ((''kind'', JString ''erc_transfer'') # (''msg'', erc_transfer_json X M m) # event_json M h bh n txid)"
| "message_json X M (ErcRegistration home r h bh n txid) =
     JObject ((''kind'', JString ''erc_registration'') # (''home_subnet_id'', JString (subnet_id_display X home))
       # (''registration'', erc_registration_json M r) # event_json M h bh n txid)"

fun json_list :: "(json \<Rightarrow> 'a option) \<Rightarrow> json \<Rightarrow> 'a list option" where
  "json_list decode (JArray js) = those (map decode js)"
| "json_list decode _ = None"

section \<open>Helpers\<close>

definition sk_hex_for_subnet :: "live_tester \<Rightarrow> string \<Rightarrow> string list" where
  "sk_hex_for_subnet t s =
     (case map_of (su_subnets (lt_setup t)) s of
        Some subnet \<Rightarrow> List.map_filter (lt_all_sk_hex t) (sp_whitelist_names subnet)
      | None \<Rightarrow> [])"

definition setup_validator :: "live_tester \<Rightarrow> subnet_validator \<Rightarrow> validator_spec option" where
  "setup_validator t cv = find (\<lambda>v. vs_pubkey v = v_pubkey cv) (map snd (su_validators (lt_setup t)))"

definition sk_hex_for_committee :: "live_tester \<Rightarrow> subnet_committee \<Rightarrow> string list" where
  "sk_hex_for_committee t c =
     List.map_filter (\<lambda>cv. Option.bind (setup_validator t cv) (\<lambda>v. lt_all_sk_hex t (vs_name v))) (cm_validators c)"

definition find_committee_validator_name :: "live_tester \<Rightarrow> subnet_committee \<Rightarrow> easy_tester_error + string" where
  "find_committee_validator_name t c =
     (case List.map_filter (\<lambda>cv. case setup_validator t cv of
          Some v \<Rightarrow> if lt_validator_provider_urls t (vs_name v) \<noteq> None then Some (vs_name v) else None
        | None \<Rightarrow> None) (cm_validators c) of
        name # _ \<Rightarrow> Inr name
      | [] \<Rightarrow> Inl (Runtime ''no setup validator with a provider found in the current committee''))"

definition lt_subnet_id :: "string \<Rightarrow> live_tester \<Rightarrow> easy_tester_error + subnet_id" where
  "lt_subnet_id s t = ok_or (map_of (lt_created_subnets t) s) (Runtime (''subnet '' @ quoted s @ '' not created yet''))"

definition lt_validator :: "string \<Rightarrow> live_tester \<Rightarrow> easy_tester_error + validator_spec" where
  "lt_validator v t = ok_or (map_of (su_validators (lt_setup t)) v) (Runtime (''validator '' @ quoted v @ '' not in setup''))"

definition lt_draw :: "tester_env \<Rightarrow> nat \<Rightarrow> ('w, bytes) lt_io" where
  "lt_draw E n = io_bind io_self (\<lambda>t.
     io_then (io_self_update (\<lambda>t. t\<lparr> lt_draws := Suc (lt_draws t) \<rparr>)) (io_return (te_random E (lt_draws t) n)))"

definition wait_for_confirmation :: "'w host \<Rightarrow> rpc_serde \<Rightarrow> u64 \<Rightarrow> ('w, unit) lt_io" where
  "wait_for_confirmation H S target_height =
     poll (CONFIRM_POLL_TIMEOUT_SECS * 1000)
       (io_bind (io_try (rpc_call H S json_u64 ''getconfirmedcount'' NoParams)) (\<lambda>r.
          let count = (case r of Inr n \<Rightarrow> n | Inl _ \<Rightarrow> 0) in
          io_return (if target_height \<le> count then Done ()
            else Again (Runtime (''timed out waiting for confirmed block height '' @ dec (unat target_height) @ '' (got '' @ dec (unat count) @ '')'')))))
       (io_sleep H 500) 0"

definition mine_to_height :: "'w host \<Rightarrow> u64 \<Rightarrow> ('w, unit) lt_io" where
  "mine_to_height H target_height =
     io_bind io_self (\<lambda>t.
     if target_height \<le> lt_current_block t then io_return () else
     let blocks_to_mine = target_height - lt_current_block t in
     io_bind (bitcoin_cli H (lt_tmpdir t) [''-rpcwallet='' @ WALLET_NAME, ''getnewaddress'']) (\<lambda>address.
     io_then (io_sleep H 100) (
     io_then (bitcoin_cli H (lt_tmpdir t) [''-rpcwallet='' @ WALLET_NAME, ''generatetoaddress'', dec (unat blocks_to_mine), address]) (
     io_self_update (\<lambda>t. t\<lparr> lt_current_block := target_height \<rparr>)))))"

definition do_bootstrap_handover :: "'w host \<Rightarrow> rpc_serde \<Rightarrow> string \<Rightarrow> subnet_id \<Rightarrow> ('w, unit) lt_io" where
  "do_bootstrap_handover H S s sid =
     io_bind (rpc_call H S (field_with ''unsigned_psbt_base64'' json_string) ''genbootstraphandover'' (SubnetIdParam sid)) (\<lambda>psbt.
     io_bind io_self (\<lambda>t.
     io_bind (rpc_call H S (rs_signatures S) ''dev_multisignpsbt'' (MultisignParams psbt (sk_hex_for_subnet t s))) (\<lambda>signatures.
     io_then (rpc_call H S Some ''finalizebootstraphandover'' (FinalizeHandoverParams sid psbt signatures)) (
     io_return ()))))"

definition handover_if_needed :: "'w host \<Rightarrow> rpc_serde \<Rightarrow> string \<times> subnet_id \<Rightarrow> ('w, unit) lt_io" where
  "handover_if_needed H S = (\<lambda>(s, sid).
     io_bind io_self (\<lambda>t.
     if s \<in> set (lt_done_handovers t) then io_return () else
     io_bind (io_try (rpc_call H S (field_with ''bootstrapped'' json_bool) ''getgenesisinfo'' (SubnetIdParam sid))) (\<lambda>r.
     case r of
       Inr True \<Rightarrow>
         io_then (do_bootstrap_handover H S s sid) (io_self_update (\<lambda>t. t\<lparr> lt_done_handovers := s # lt_done_handovers t \<rparr>))
     | _ \<Rightarrow> io_return ())))"

definition do_handovers_if_needed :: "'w host \<Rightarrow> rpc_serde \<Rightarrow> ('w, unit) lt_io" where
  "do_handovers_if_needed H S =
     io_bind io_self (\<lambda>t.
     io_each (handover_if_needed H S)
       (map (\<lambda>s. (s, the (map_of (lt_created_subnets t) s))) (rs_order S (remdups (map fst (lt_created_subnets t))))))"

definition next_configuration :: "subnet_state \<Rightarrow> u64" where
  "next_configuration st =
     (case ss_waiting_committee st of
        Some wc \<Rightarrow> if cm_configuration_number (ss_committee st) < cm_configuration_number wc then cm_configuration_number wc else 0
      | None \<Rightarrow> 0)"

definition do_checkpoint_malicious ::
  "tester_env \<Rightarrow> 'w host \<Rightarrow> rpc_serde \<Rightarrow> string \<Rightarrow> subnet_id \<Rightarrow> ipc_erc_token_registration list
   \<Rightarrow> ipc_erc_supply_adjustment list \<Rightarrow> ipc_cross_subnet_erc_transfer list \<Rightarrow> ('w, unit) lt_io" where
  "do_checkpoint_malicious E H S s sid regs adjs txs =
     io_bind io_self (\<lambda>t.
     let checkpoint_height = (case lt_checkpoint_heights t s of Some h \<Rightarrow> h + 1 | None \<Rightarrow> 1) in
     io_then (io_self_update (\<lambda>t. t\<lparr> lt_checkpoint_heights := (lt_checkpoint_heights t)(s \<mapsto> checkpoint_height) \<rparr>)) (
     io_bind (rpc_call H S (rs_subnet_state S) ''getsubnet'' (SubnetIdParam sid)) (\<lambda>st.
     io_bind (io_res (find_committee_validator_name t (ss_committee st))) (\<lambda>name.
     io_bind (lt_draw E 32) (\<lambda>hash.
     let msg = tester_checkpoint_msg sid hash checkpoint_height (next_configuration st) regs adjs txs in
     io_bind (rpc_call_as H S name checkpoint_psbt_result ''dev_gencheckpointpsbt'' (CheckpointParams msg)) (\<lambda>(psbt, batch_tx).
     io_bind (rpc_call_as H S name (rs_signatures S) ''dev_multisignpsbt''
       (MultisignParams psbt (sk_hex_for_committee t (ss_committee st)))) (\<lambda>signatures.
     io_then (rpc_call_as H S name Some ''finalizecheckpointpsbt'' (FinalizeCheckpointParams sid psbt signatures batch_tx)) (
     io_return ()))))))))"

section \<open>Commands\<close>

definition lt_mine_block :: "'w host \<Rightarrow> rpc_serde \<Rightarrow> u64 \<Rightarrow> ('w, unit) lt_io" where
  "lt_mine_block H S height =
     io_then (mine_to_height H height) (io_then (wait_for_confirmation H S height) (do_handovers_if_needed H S))"

definition lt_create :: "ext \<Rightarrow> 'w host \<Rightarrow> rpc_serde \<Rightarrow> string \<Rightarrow> ('w, unit) lt_io" where
  "lt_create X H S s =
     io_bind io_self (\<lambda>t.
     io_bind (io_res (ok_or (map_of (su_subnets (lt_setup t)) s) (Runtime (''subnet '' @ quoted s @ '' missing from setup'')))) (\<lambda>spec.
     io_bind (rpc_call H S (subnet_id_result X) ''createsubnet'' (CreateParams (build_create_subnet_msg spec))) (\<lambda>sid.
     io_self_update (\<lambda>t. t\<lparr> lt_created_subnets := (s, sid) # lt_created_subnets t \<rparr>))))"

text \<open>Join, deposit, stake and unstake are one request each, to the provider of the validator.\<close>

definition lt_request ::
  "'w host \<Rightarrow> rpc_serde \<Rightarrow> string \<Rightarrow> string \<Rightarrow> string \<Rightarrow> (subnet_id \<Rightarrow> validator_spec \<Rightarrow> rpc_params) \<Rightarrow> ('w, unit) lt_io" where
  "lt_request H S method s v params =
     io_bind io_self (\<lambda>t.
     io_bind (io_res (lt_subnet_id s t)) (\<lambda>sid.
     io_bind (io_res (lt_validator v t)) (\<lambda>val.
     io_then (rpc_call_as H S v Some method (params sid val)) (io_return ()))))"

definition lt_join :: "'w host \<Rightarrow> rpc_serde \<Rightarrow> string \<Rightarrow> string \<Rightarrow> u64 \<Rightarrow> ('w, unit) lt_io" where
  "lt_join H S s v sats = lt_request H S ''joinsubnet'' s v (\<lambda>sid val.
     JoinParams \<lparr> jm_subnet_id = sid, jm_collateral = sats, jm_ip = vs_default_ip val,
       jm_backup_address = vs_default_backup_address val, jm_pubkey = vs_pubkey val \<rparr>)"

definition lt_deposit :: "ext \<Rightarrow> 'w host \<Rightarrow> rpc_serde \<Rightarrow> string \<Rightarrow> string \<Rightarrow> u64 \<Rightarrow> ('w, unit) lt_io" where
  "lt_deposit X H S s v sats = lt_request H S ''fundsubnet'' s v (\<lambda>sid val.
     FundParams \<lparr> fm_subnet_id = sid, fm_amount = sats, fm_address = eth_addr_from_x_only_pubkey X (vs_pubkey val) \<rparr>)"

definition lt_stake :: "'w host \<Rightarrow> rpc_serde \<Rightarrow> string \<Rightarrow> string \<Rightarrow> u64 \<Rightarrow> ('w, unit) lt_io" where
  "lt_stake H S s v sats = lt_request H S ''stakecollateral'' s v (\<lambda>sid val.
     StakeParams \<lparr> sm_subnet_id = sid, sm_amount = sats, sm_pubkey = vs_pubkey val \<rparr>)"

definition lt_unstake :: "'w host \<Rightarrow> rpc_serde \<Rightarrow> string \<Rightarrow> string \<Rightarrow> u64 \<Rightarrow> ('w, unit) lt_io" where
  "lt_unstake H S s v sats = lt_request H S ''unstakecollateral'' s v (\<lambda>sid val.
     UnstakeParams \<lparr> um_subnet_id = sid, um_amount = sats, um_pubkey = Some (vs_pubkey val) \<rparr>)"

definition lt_checkpoint :: "tester_env \<Rightarrow> 'w host \<Rightarrow> rpc_serde \<Rightarrow> string \<Rightarrow> ('w, unit) lt_io" where
  "lt_checkpoint E H S s =
     io_bind io_self (\<lambda>t.
     io_bind (io_res (lt_subnet_id s t)) (\<lambda>sid.
     io_then (io_self_update (\<lambda>t. t\<lparr>
         lt_pending_registrations := (lt_pending_registrations t)(s := []),
         lt_pending_supply_adjustments := (lt_pending_supply_adjustments t)(s := []),
         lt_pending_erc_transfers := (lt_pending_erc_transfers t)(s := []) \<rparr>)) (
     do_checkpoint_malicious E H S s sid (lt_pending_registrations t s) (lt_pending_supply_adjustments t s)
       (lt_pending_erc_transfers t s))))"

definition lt_register_token :: "tester_env \<Rightarrow> string \<Rightarrow> string \<Rightarrow> string \<Rightarrow> u256 \<Rightarrow> ('w, unit) lt_io" where
  "lt_register_token E s name symbol initial_supply =
     io_bind io_self (\<lambda>t.
     io_then (io_res (lt_subnet_id s t)) (
     io_bind (case lt_registered_tokens t name of
         Some (prev_subnet, prev_addr) \<Rightarrow>
           if prev_subnet \<noteq> s
           then io_fail (''token '' @ quoted name @ '' already registered on subnet '' @ quoted prev_subnet
             @ '', this register does not allow reusing token names'')
           else io_return prev_addr
       | None \<Rightarrow> lt_draw E 20) (\<lambda>home_token_address.
     let etr = \<lparr> er_home_token_address = home_token_address, er_name = name, er_symbol = symbol, er_decimals = 18,
                 er_initial_supply = initial_supply \<rparr>
     in io_self_update (\<lambda>t. t\<lparr> lt_registered_tokens := (lt_registered_tokens t)(name \<mapsto> (s, home_token_address)),
          lt_pending_registrations := (lt_pending_registrations t)(s := lt_pending_registrations t s @ [etr]) \<rparr>))))"

definition lt_token :: "string \<Rightarrow> live_tester \<Rightarrow> easy_tester_error + (string \<times> eth_address)" where
  "lt_token tok t = ok_or (lt_registered_tokens t tok) (Runtime (''token '' @ quoted tok @ '' not registered''))"

definition lt_adjust :: "string \<Rightarrow> string \<Rightarrow> (easy_tester_error + 256 word) \<Rightarrow> ('w, unit) lt_io" where
  "lt_adjust s tok delta =
     io_bind io_self (\<lambda>t.
     io_then (io_res (lt_subnet_id s t)) (
     io_bind (io_res (lt_token tok t)) (\<lambda>(_, addr).
     io_bind (io_res delta) (\<lambda>d.
     io_self_update (\<lambda>t. t\<lparr> lt_pending_supply_adjustments := (lt_pending_supply_adjustments t)(s :=
       lt_pending_supply_adjustments t s @ [\<lparr> ea_home_token_address = addr, ea_delta = d \<rparr>]) \<rparr>)))))"

definition lt_mint_token :: "string \<Rightarrow> string \<Rightarrow> u256 \<Rightarrow> ('w, unit) lt_io" where
  "lt_mint_token s tok a = lt_adjust s tok (ok_or (i256_try_from a) (Runtime ''mint amount too large for I256''))"

definition lt_burn_token :: "string \<Rightarrow> string \<Rightarrow> u256 \<Rightarrow> ('w, unit) lt_io" where
  "lt_burn_token s tok a = lt_adjust s tok
     (res_bind (ok_or (i256_try_from a) (Runtime ''burn amount too large for I256'')) (\<lambda>p.
        ok_or (i256_checked_neg p) (Runtime ''burn amount overflow (I256::MIN)'')))"

definition lt_erc_transfer :: "tester_env \<Rightarrow> string \<Rightarrow> string \<Rightarrow> string \<Rightarrow> u256 \<Rightarrow> ('w, unit) lt_io" where
  "lt_erc_transfer E src dst tok a =
     io_bind io_self (\<lambda>t.
     io_bind (io_res (lt_subnet_id dst t)) (\<lambda>destination.
     io_bind (io_res (lt_token tok t)) (\<lambda>(home_name, addr).
     io_bind (io_res (lt_subnet_id home_name t)) (\<lambda>home.
     io_bind (lt_draw E 20) (\<lambda>recipient.
     let etx = \<lparr> et_home_subnet_id = home, et_home_token_address = addr, et_amount = a,
                 et_destination_subnet_id = destination, et_recipient = recipient \<rparr>
     in io_self_update (\<lambda>t. t\<lparr> lt_pending_erc_transfers := (lt_pending_erc_transfers t)(src :=
          lt_pending_erc_transfers t src @ [etx]) \<rparr>))))))"

section \<open>Reading and expecting\<close>

definition io_arg :: "string list \<Rightarrow> nat \<Rightarrow> ('s, string) io" where
  "io_arg args i = io_res (read_arg args i)"

text \<open>Messages are asked for height by height.\<close>

definition lt_read_rootnet :: "'w host \<Rightarrow> rpc_serde \<Rightarrow> string list \<Rightarrow> ('w, unit) lt_io" where
  "lt_read_rootnet H S args =
     io_bind (io_arg args 0) (\<lambda>s.
     io_bind io_self (\<lambda>t.
     io_bind (io_res (lt_subnet_id s t)) (\<lambda>sid.
     io_bind (io_collect (\<lambda>h. rpc_call H S (json_list rootnet_msg_value) ''getrootnetmessages'' (SubnetBlockParam sid h))
         (map of_nat [1..<Suc (unat (lt_current_block t))])) (\<lambda>batches.
     io_self_update (\<lambda>t. t\<lparr> lt_last_rootnet_msgs := Some (concat batches) \<rparr>)))))"

definition lt_read_balance :: "tester_env \<Rightarrow> 'w host \<Rightarrow> rpc_serde \<Rightarrow> string list \<Rightarrow> ('w, unit) lt_io" where
  "lt_read_balance E H S args =
     io_bind (io_arg args 0) (\<lambda>s.
     io_bind (io_arg args 1) (\<lambda>tok.
     io_bind io_self (\<lambda>t.
     io_bind (io_res (lt_subnet_id s t)) (\<lambda>sid.
     io_bind (io_res (lt_token tok t)) (\<lambda>(home_name, addr).
     io_bind (io_res (lt_subnet_id home_name t)) (\<lambda>home.
     io_bind (rpc_call H S (field_with ''balance'' json_string) ''gettokenbalance'' (TokenBalanceParams home addr sid)) (\<lambda>text.
     io_bind (io_res (res_map_err (\<lambda>e. Runtime (''token balance parse error: '' @ e)) (parse_u256_allow_underscores E text))) (\<lambda>val.
     io_self_update (\<lambda>t. t\<lparr> lt_last_token_balance := Some val \<rparr>)))))))))"

text \<open>An address that belongs to no validator of the setup is listed under its printed form.\<close>

definition rewards_by_label ::
  "ext \<Rightarrow> tester_env \<Rightarrow> setup_spec \<Rightarrow> (eth_address \<times> u64) list \<Rightarrow> string \<rightharpoonup> u64" where
  "rewards_by_label X E setup rs =
     (let addr_to_name = map_of (rev (map (\<lambda>(n, v). (eth_addr_from_x_only_pubkey X (vs_pubkey v), n)) (su_validators setup)))
      in fold (\<lambda>(addr, amt) m.
           let name = (case addr_to_name addr of Some n \<Rightarrow> n | None \<Rightarrow> te_show_address E addr)
           in m(name \<mapsto> (case m name of Some a \<Rightarrow> a | None \<Rightarrow> 0) + amt)) rs Map.empty)"

definition lt_read_rewards :: "ext \<Rightarrow> tester_env \<Rightarrow> 'w host \<Rightarrow> rpc_serde \<Rightarrow> string list \<Rightarrow> ('w, unit) lt_io" where
  "lt_read_rewards X E H S args =
     io_bind (io_res (read_number ''snapshot'' args 0)) (\<lambda>snapshot.
     io_bind (rpc_call H S (rs_rewards S) ''getrewardedcollaterals'' (RewardedCollateralsParams snapshot)) (\<lambda>(collaterals, total).
     io_self_update (\<lambda>t. t\<lparr> lt_last_reward_results := Some \<lparr> lr_snapshot = snapshot,
       lr_rewards_by_validator = rewards_by_label X E (lt_setup t) collaterals, lr_total_sats = total \<rparr> \<rparr>)))"

definition lt_print_read :: "'w host \<Rightarrow> rpc_serde \<Rightarrow> output_db \<Rightarrow> string list \<Rightarrow> ('w, unit) lt_io" where
  "lt_print_read H S db args =
     (let ask = (\<lambda>method params. io_bind (io_arg args 0) (\<lambda>s. io_bind io_self (\<lambda>t.
            io_bind (io_res (lt_subnet_id s t)) (\<lambda>sid.
            io_then (rpc_call H S Some method (params sid)) (io_return ())))))
      in case db of
           OutSubnet \<Rightarrow> ask ''getsubnet'' SubnetIdParam
         | OutSubnetGenesis \<Rightarrow> ask ''getgenesisinfo'' SubnetIdParam
         | OutStakeChanges \<Rightarrow> io_bind (io_res (read_number ''block_height'' args 1)) (\<lambda>h.
             ask ''getstakechanges'' (\<lambda>sid. SubnetBlockParam sid h))
         | OutKillRequests \<Rightarrow> ask ''getkillrequests'' SubnetIdParam
         | OutTokenMetadata \<Rightarrow> io_fail ''read token_metadata is not supported by MonitorTester''
         | _ \<Rightarrow> io_fail (''read '' @ (if db = OutCommittee then ''Committee'' else ''RewardCandidates'')
             @ '' has no provider RPC endpoint - use DbTester for this read''))"

definition lt_output_read :: "ext \<Rightarrow> tester_env \<Rightarrow> 'w host \<Rightarrow> rpc_serde \<Rightarrow> output_db \<Rightarrow> string list \<Rightarrow> ('w, unit) lt_io" where
  "lt_output_read X E H S db args =
     io_then (io_self_update (\<lambda>t. t\<lparr> lt_last_rootnet_msgs := None, lt_last_token_balance := None, lt_last_reward_results := None \<rparr>))
     (case db of
        OutRootnetMsgs \<Rightarrow> lt_read_rootnet H S args
      | OutTokenBalance \<Rightarrow> lt_read_balance E H S args
      | OutRewardResults \<Rightarrow> lt_read_rewards X E H S args
      | _ \<Rightarrow> lt_print_read H S db args)"

definition json_nested_field :: "tester_env \<Rightarrow> 'w host \<Rightarrow> json option \<Rightarrow> string \<Rightarrow> string \<Rightarrow> easy_tester_error + string" where
  "json_nested_field E H obj key display_field =
     res_bind (ok_or (Option.bind obj (json_get key)) (Runtime (''field '' @ quoted display_field @ '' not present in this message''))) (\<lambda>val.
     Inr (case val of
       JString s \<Rightarrow>
         if prefix ''0x'' s \<or> prefix ''0X'' s
         then (case te_parse_u256 E s of Inr n \<Rightarrow> dec (unat n) | Inl _ \<Rightarrow> s)
         else s
     | JNumber n \<Rightarrow> n
     | _ \<Rightarrow> ho_to_string H val))"

definition rootnet_msg_field ::
  "tester_env \<Rightarrow> 'w host \<Rightarrow> string \<times> u64 \<times> json option \<times> json option \<Rightarrow> string \<Rightarrow> easy_tester_error + string" where
  "rootnet_msg_field E H = (\<lambda>(kind, nonce, registration, msg) field.
     if field = ''kind'' then Inr kind
     else if field = ''nonce'' then Inr (dec (unat nonce))
     else if field = ''tokenName'' then json_nested_field E H registration ''name'' ''tokenName''
     else if field = ''tokenSymbol'' then json_nested_field E H registration ''symbol'' ''tokenSymbol''
     else if field = ''tokenDecimals'' then json_nested_field E H registration ''decimals'' ''tokenDecimals''
     else if field = ''token'' then json_nested_field E H registration ''home_token_address'' ''token''
     else if field = ''amount'' then json_nested_field E H msg ''amount'' ''amount''
     else Inl (Runtime (''unknown rootnet_msg field '' @ quoted field)))"

definition lt_expect_balance :: "tester_env \<Rightarrow> u256 \<Rightarrow> output_expect_target \<Rightarrow> string \<Rightarrow> easy_tester_error + string" where
  "lt_expect_balance E balance target v =
     (if tg_path target = ''balance''
      then res_bind (res_map_err (\<lambda>e. Runtime (''balance must be numeric: '' @ e)) (parse_u256_allow_underscores E v)) (\<lambda>expected.
        if balance \<noteq> expected then Inl (expect_failed target ''balance'' (dec (unat expected)) (dec (unat balance)))
        else Inr (''result.balance == '' @ dec (unat expected)))
      else Inl (Runtime (''after '' @ quoted ''read token_balance'' @ '', only '' @ quoted ''result.balance''
        @ '' is supported, got '' @ quoted (''result.'' @ tg_path target))))"

definition lt_expect_rewards :: "last_reward_results \<Rightarrow> output_expect_target \<Rightarrow> string \<Rightarrow> easy_tester_error + string" where
  "lt_expect_rewards last_results target v =
     res_bind (res_map_err (\<lambda>e. Runtime (''expect rhs must be numeric for reward_results: '' @ e))
         (res_bind (parse_uint 64 v) (\<lambda>n. Inr (of_nat n :: u64)))) (\<lambda>expected.
     let where_text = ''EXPECT failed (line '' @ dec (tg_line_no target) @ '', snapshot '' @ dec (unat (lr_snapshot last_results)) @ ''): result.'';
         compare = (\<lambda>what got. if got \<noteq> expected
           then Inl (Runtime (where_text @ what @ '' expected '' @ dec (unat expected) @ '' sats, got '' @ dec (unat got) @ '' sats''))
           else Inr (''result.'' @ what @ '' == '' @ fmt_sats_with_underscores expected @ '' SAT''));
         unsupported = Inl (Runtime (''unsupported expect path '' @ quoted (''result.'' @ tg_path target) @ '' after '' @ quoted ''read reward_results''))
     in case split_on (CHR ''.'') (tg_path target) of
          [head, key] \<Rightarrow>
            if head = ''rewards_list'' \<or> head = ''reward_list''
            then compare (''rewards_list.'' @ key) (case lr_rewards_by_validator last_results key of Some a \<Rightarrow> a | None \<Rightarrow> 0)
            else unsupported
        | [head] \<Rightarrow> if head = ''total_rewarded_collateral'' then compare head (lr_total_sats last_results) else unsupported
        | _ \<Rightarrow> unsupported)"

definition lt_expect_rootnet ::
  "tester_env \<Rightarrow> 'w host \<Rightarrow> (string \<times> u64 \<times> json option \<times> json option) list \<Rightarrow> output_expect_target \<Rightarrow> string
   \<Rightarrow> easy_tester_error + string" where
  "lt_expect_rootnet E H msgs target v =
     (let unsupported = Inl (Runtime (''unsupported expect path '' @ quoted (''result.'' @ tg_path target))) in
      case split_on (CHR ''.'') (tg_path target) of
        [head] \<Rightarrow>
          if head = ''count'' then
            res_bind (res_map_err (\<lambda>e. Runtime (''count must be numeric: '' @ e)) (parse_uint 64 v)) (\<lambda>expected.
              if length msgs mod 2 ^ 64 \<noteq> expected then Inl (expect_failed target ''count'' (dec expected) (dec (length msgs mod 2 ^ 64)))
              else Inr (''result.count == '' @ dec expected))
          else unsupported
      | [index_str, field] \<Rightarrow>
          res_bind (res_map_err (\<lambda>e. Runtime (''invalid index '' @ quoted index_str @ '': '' @ e)) (parse_uint 64 index_str)) (\<lambda>index.
          if length msgs \<le> index
          then Inl (Runtime (''result['' @ dec index @ ''] out of range (have '' @ dec (length msgs) @ '' messages)''))
          else res_bind (rootnet_msg_field E H (msgs ! index) field) (\<lambda>got.
            if \<not> values_match got v
            then Inl (expect_failed target (dec index @ ''.'' @ field) (quoted v) (quoted got))
            else Inr (''result.'' @ dec index @ ''.'' @ field @ '' == '' @ got)))
      | _ \<Rightarrow> unsupported)"

definition lt_output_expect ::
  "tester_env \<Rightarrow> 'w host \<Rightarrow> output_expect_target \<Rightarrow> string \<Rightarrow> live_tester \<Rightarrow> easy_tester_error + string" where
  "lt_output_expect E H target v t =
     (case lt_last_token_balance t of
        Some balance \<Rightarrow> lt_expect_balance E balance target v
      | None \<Rightarrow> (case lt_last_reward_results t of
          Some r \<Rightarrow> lt_expect_rewards r target v
        | None \<Rightarrow> res_bind (ok_or (lt_last_rootnet_msgs t)
              (Runtime (''expect used but no previous '' @ quoted ''read'' @ '' command''))) (\<lambda>msgs.
            lt_expect_rootnet E H msgs target v)))"

section \<open>The operations together\<close>

definition io_next :: "('s, unit) io \<Rightarrow> 's \<Rightarrow> easy_tester_error + 's" where
  "io_next m s = (case m s of (r, s', _) \<Rightarrow> res_bind r (\<lambda>_. Inr s'))"

definition live_tester_ops ::
  "ext \<Rightarrow> tester_env \<Rightarrow> 'w host \<Rightarrow> rpc_serde \<Rightarrow> (live_tester \<times> 'w) tester" where
  "live_tester_ops X E H S =
     \<lparr> exec_mine_block = (\<lambda>h. io_next (lt_mine_block H S h)),
       exec_create_subnet = (\<lambda>_ s. io_next (lt_create X H S s)),
       exec_join_subnet = (\<lambda>_ s v n. io_next (lt_join H S s v n)),
       exec_stake_subnet = (\<lambda>_ s v n. io_next (lt_stake H S s v n)),
       exec_unstake_subnet = (\<lambda>_ s v n. io_next (lt_unstake H S s v n)),
       exec_checkpoint_subnet = (\<lambda>_ s. io_next (lt_checkpoint E H S s)),
       exec_register_token = (\<lambda>_ s name symbol supply. io_next (lt_register_token E s name symbol supply)),
       exec_mint_token = (\<lambda>_ s tok a. io_next (lt_mint_token s tok a)),
       exec_burn_token = (\<lambda>_ s tok a. io_next (lt_burn_token s tok a)),
       exec_erc_transfer = (\<lambda>_ src dst tok a. io_next (lt_erc_transfer E src dst tok a)),
       exec_deposit = (\<lambda>_ s v n. io_next (lt_deposit X H S s v n)),
       exec_output_read = (\<lambda>_ db args. io_next (lt_output_read X E H S db args)),
       exec_output_expect = (\<lambda>_ target v t. lt_output_expect E H target v (fst t)) \<rparr>"

definition live_main ::
  "ext \<Rightarrow> tester_env \<Rightarrow> 'w host \<Rightarrow> rpc_serde \<Rightarrow> string \<Rightarrow> 'w \<Rightarrow> parsed_test \<Rightarrow> tester_config \<Rightarrow> string + unit" where
  "live_main X E H S workspace_root w parsed config =
     (case config of
        ConfigMonitor activation_height snapshot_length monitor_log_level provider_log_level \<Rightarrow>
          (case live_tester_new H workspace_root (pt_setup parsed) activation_height snapshot_length monitor_log_level
                  provider_log_level ([], w) of
             (Inl e, _) \<Rightarrow> Inl (show_error e)
           | (Inr t, (_, w'), _) \<Rightarrow>
               res_bind (run_scenario (live_tester_ops X E H S) (pt_scenario parsed) 101 (t, w')) (\<lambda>_. Inr ()))
      | _ \<Rightarrow> Inl ''unreachable'')"

end
