(* ===== verification/Startup.thy ===== *)
theory Startup
  imports Live Monitor
begin

text \<open>
  How the monitor and the provider start (\<open>main\<close> of \<open>src/src/bin/monitor.rs\<close> and \<open>src/src/bin/provider.rs\<close>):
  the settings that are read from the environment, the wallets that are created or loaded at the node
  (\<open>src/src/bitcoin_utils.rs\<close>), the import of addresses (\<open>src/src/wallet.rs\<close>), the key of the validator, and the
  loop that starts the monitor again after an error of the node.  The environment is a map; the node is the
  record \<open>bitcoind\<close>.  Parsing of the command line and of the \<open>.env\<close> file, logging and signals are left out:
  whether the user has cancelled is an input.  The message of a panic is given without the text of the error
  that caused it.
\<close>

section \<open>The environment\<close>

type_synonym env_vars = "string \<rightharpoonup> string"

datatype startup_error = StartupPanic string | IoOther string | IoInvalidData string

definition env_path :: "string \<Rightarrow> string \<Rightarrow> string" where
  "env_path current_dir arg = (if prefix ''/'' arg then arg else path_join current_dir arg)"

definition expect_var :: "env_vars \<Rightarrow> string \<Rightarrow> string \<Rightarrow> startup_error + string" where
  "expect_var vars key msg = ok_or (vars key) (StartupPanic msg)"

definition DEFAULT_POLL_INTERVAL :: u64 where "DEFAULT_POLL_INTERVAL = 2"
definition DEFAULT_SYNC_BATCH_SIZE :: u64 where "DEFAULT_SYNC_BATCH_SIZE = 100"
definition DEFAULT_PROVIDER_PORT :: string where "DEFAULT_PROVIDER_PORT = ''3030''"
definition WATCHONLY_WALLET_SUFFIX :: string where "WATCHONLY_WALLET_SUFFIX = ''_subnets_watchonly''"

definition poll_interval :: "env_vars \<Rightarrow> u64" where
  "poll_interval vars =
     (case vars ''MONITOR_POLL_INTERVAL'' of
        Some s \<Rightarrow> (case parse_uint 64 s of Inr n \<Rightarrow> of_nat n | Inl _ \<Rightarrow> DEFAULT_POLL_INTERVAL)
      | None \<Rightarrow> DEFAULT_POLL_INTERVAL)"

definition sync_batch_size :: "env_vars \<Rightarrow> u64" where
  "sync_batch_size vars =
     (case vars ''MONITOR_SYNC_BATCH_SIZE'' of
        Some s \<Rightarrow> (case parse_uint 64 s of Inr n \<Rightarrow> if 0 < n then of_nat n else DEFAULT_SYNC_BATCH_SIZE | Inl _ \<Rightarrow> DEFAULT_SYNC_BATCH_SIZE)
      | None \<Rightarrow> DEFAULT_SYNC_BATCH_SIZE)"

definition expect_u64 :: "env_vars \<Rightarrow> string \<Rightarrow> startup_error + u64" where
  "expect_u64 vars key =
     res_bind (expect_var vars key (key @ '' env var not defined but required when emission chain features are enabled'')) (\<lambda>s.
     case parse_uint 64 s of Inr n \<Rightarrow> Inr (of_nat n) | Inl _ \<Rightarrow> Inl (StartupPanic (key @ '' must be a valid u64'')))"

definition reward_config_from_env :: "env_vars \<Rightarrow> startup_error + reward_config" where
  "reward_config_from_env vars =
     res_bind (expect_u64 vars ''ACTIVATION_HEIGHT'') (\<lambda>activation_height.
     res_bind (expect_u64 vars ''SNAPSHOT_LENGTH'') (\<lambda>snapshot_length.
     res_map_err (\<lambda>_. StartupPanic ''Failed to create reward config'') (reward_config_new activation_height snapshot_length)))"

datatype fvm_network = FvmMainnet | FvmTestnet

definition fvm_network_of :: "network \<Rightarrow> fvm_network" where
  "fvm_network_of n = (if n = Bitcoin then FvmMainnet else FvmTestnet)"

section \<open>The wallets at the node\<close>

record import_request =
  ir_descriptor :: string
  ir_label :: "string option"
  ir_timestamp :: "u32 option"

record address_info =
  ai_is_mine :: "bool option"
  ai_is_watchonly :: "bool option"
  ai_labels :: "string list"

text \<open>A timestamp of \<open>None\<close> is the current time.\<close>

record ('c, 'w) bitcoind =
  bd_client :: "string \<Rightarrow> string \<Rightarrow> string \<Rightarrow> string + 'c"
  bd_createwallet :: "'c \<Rightarrow> string \<Rightarrow> bool \<Rightarrow> 'w \<Rightarrow> (string + unit) \<times> 'w"
  bd_loadwallet :: "'c \<Rightarrow> string \<Rightarrow> 'w \<Rightarrow> (string + unit) \<times> 'w"
  bd_descriptor :: "'c \<Rightarrow> string \<Rightarrow> 'w \<Rightarrow> (string + string) \<times> 'w"
  bd_import :: "'c \<Rightarrow> import_request list \<Rightarrow> 'w \<Rightarrow> (string + bool list) \<times> 'w"
  bd_address_info :: "'c \<Rightarrow> btc_address \<Rightarrow> 'w \<Rightarrow> (string + address_info) \<times> 'w"
  bd_sleep :: "nat \<Rightarrow> 'w \<Rightarrow> 'w"

type_synonym ('w, 'e, 'a) call = "'w \<Rightarrow> ('e + 'a) \<times> 'w"

definition call_bind :: "('w, 'e, 'a) call \<Rightarrow> ('a \<Rightarrow> ('w, 'e, 'b) call) \<Rightarrow> ('w, 'e, 'b) call" where
  "call_bind m f w = (case m w of (Inl e, w') \<Rightarrow> (Inl e, w') | (Inr a, w') \<Rightarrow> f a w')"

definition call_map_err :: "('e \<Rightarrow> 'f) \<Rightarrow> ('w, 'e, 'a) call \<Rightarrow> ('w, 'f, 'a) call" where
  "call_map_err g m w = (case m w of (r, w') \<Rightarrow> (res_map_err g r, w'))"

definition WALLET_LOAD_RETRY_DELAY :: nat where "WALLET_LOAD_RETRY_DELAY = 500"
definition WALLET_LOAD_MAX_RETRIES :: nat where "WALLET_LOAD_MAX_RETRIES = 20"

text \<open>The loop counts the attempts that are left; the last one does not sleep.\<close>

fun load_attempts :: "('c, 'w) bitcoind \<Rightarrow> 'c \<Rightarrow> string \<Rightarrow> nat \<Rightarrow> ('w, bitcoin_utils_error, unit) call" where
  "load_attempts B c wallet 0 w = (Inr (), w)"
| "load_attempts B c wallet (Suc left) w =
     (case bd_loadwallet B c wallet w of
        (Inr _, w') \<Rightarrow> (Inr (), w')
      | (Inl msg, w') \<Rightarrow>
          if sublist ''already loaded'' msg then (Inr (), w')
          else if left = 0 then (Inl (BitcoinRpcError msg), w')
          else load_attempts B c wallet left (bd_sleep B WALLET_LOAD_RETRY_DELAY w'))"

definition load_wallet :: "('c, 'w) bitcoind \<Rightarrow> 'c \<Rightarrow> string \<Rightarrow> ('w, bitcoin_utils_error, unit) call" where
  "load_wallet B c wallet = load_attempts B c wallet WALLET_LOAD_MAX_RETRIES"

definition create_or_load_wallet :: "('c, 'w) bitcoind \<Rightarrow> 'c \<Rightarrow> string \<Rightarrow> bool \<Rightarrow> ('w, bitcoin_utils_error, unit) call" where
  "create_or_load_wallet B c wallet disable_private_keys w =
     (case bd_createwallet B c wallet disable_private_keys w of
        (Inr _, w') \<Rightarrow> (Inr (), w')
      | (Inl create_err, w') \<Rightarrow>
          if \<not> sublist ''already exists'' create_err then (Inl (BitcoinRpcError create_err), w')
          else load_wallet B c wallet w')"

definition init_rpc_client ::
  "('c, 'w) bitcoind \<Rightarrow> string \<Rightarrow> string \<Rightarrow> string \<Rightarrow> string \<Rightarrow> bitcoin_utils_error + 'c" where
  "init_rpc_client B rpc_user rpc_pass rpc_url wallet =
     res_map_err BitcoinRpcError (bd_client B (trim_end_matches (CHR ''/'') rpc_url @ ''/wallet/'' @ wallet) rpc_user rpc_pass)"

definition rpc_client_from_env :: "('c, 'w) bitcoind \<Rightarrow> env_vars \<Rightarrow> string \<Rightarrow> startup_error + (string \<times> 'c)" where
  "rpc_client_from_env B vars ending =
     res_bind (expect_var vars ''RPC_USER'' ''RPC_USER env var not defined'') (\<lambda>user.
     res_bind (expect_var vars ''RPC_PASS'' ''RPC_PASS env var not defined'') (\<lambda>pass.
     res_bind (expect_var vars ''RPC_URL'' ''RPC_URL env var not defined'') (\<lambda>url.
     res_bind (expect_var vars ''WALLET_NAME'' ''WALLET_NAME env var not defined'') (\<lambda>wallet.
     res_bind (res_map_err (\<lambda>_. StartupPanic ''Error making bitcoincore rpc client'')
       (init_rpc_client B user pass url (wallet @ ending))) (\<lambda>c. Inr (wallet @ ending, c))))))"

definition make_rpc_client_from_env :: "('c, 'w) bitcoind \<Rightarrow> env_vars \<Rightarrow> ('w, startup_error, 'c) call" where
  "make_rpc_client_from_env B vars =
     call_bind (\<lambda>w. (rpc_client_from_env B vars [], w)) (\<lambda>(wallet, c).
     call_bind (call_map_err (\<lambda>_. StartupPanic (''Error loading wallet '' @ wallet)) (load_wallet B c wallet)) (\<lambda>_ w. (Inr c, w)))"

definition make_watchonly_rpc_client_from_env :: "('c, 'w) bitcoind \<Rightarrow> env_vars \<Rightarrow> ('w, startup_error, 'c) call" where
  "make_watchonly_rpc_client_from_env B vars =
     call_bind (\<lambda>w. (rpc_client_from_env B vars WATCHONLY_WALLET_SUFFIX, w)) (\<lambda>(wallet, c).
     call_bind (call_map_err (\<lambda>_. StartupPanic (''Error creating '' @ wallet)) (create_or_load_wallet B c wallet True)) (\<lambda>_ w. (Inr c, w)))"

section \<open>Importing addresses\<close>

definition descriptor_request ::
  "('c, 'w) bitcoind \<Rightarrow> 'c \<Rightarrow> btc_address \<Rightarrow> string \<Rightarrow> u32 option \<Rightarrow> ('w, string, import_request) call" where
  "descriptor_request B c addr label timestamp =
     call_bind (bd_descriptor B c (''addr('' @ addr @ '')'')) (\<lambda>descriptor w.
     (Inr \<lparr> ir_descriptor = descriptor, ir_label = Some label, ir_timestamp = timestamp \<rparr>, w))"

definition import_address :: "('c, 'w) bitcoind \<Rightarrow> 'c \<Rightarrow> btc_address \<Rightarrow> string \<Rightarrow> ('w, string, unit) call" where
  "import_address B c addr label =
     call_bind (descriptor_request B c addr label None) (\<lambda>req.
     call_bind (bd_import B c [req]) (\<lambda>_ w. (Inr (), w)))"

fun descriptor_requests ::
  "('c, 'w) bitcoind \<Rightarrow> 'c \<Rightarrow> (btc_address \<times> string \<times> u32) list \<Rightarrow> ('w, string, import_request list) call" where
  "descriptor_requests B c [] = (\<lambda>w. (Inr [], w))"
| "descriptor_requests B c ((a, label, timestamp) # rest) =
     call_bind (descriptor_request B c a label (Some timestamp)) (\<lambda>req.
     call_bind (descriptor_requests B c rest) (\<lambda>reqs w. (Inr (req # reqs), w)))"

definition import_address_batch ::
  "('c, 'w) bitcoind \<Rightarrow> 'c \<Rightarrow> (btc_address \<times> string \<times> u32) list \<Rightarrow> ('w, string, bool list) call" where
  "import_address_batch B c addresses = call_bind (descriptor_requests B c addresses) (bd_import B c)"

definition is_address_imported :: "('c, 'w) bitcoind \<Rightarrow> 'c \<Rightarrow> btc_address \<Rightarrow> ('w, string, bool) call" where
  "is_address_imported B c addr =
     call_bind (bd_address_info B c addr) (\<lambda>info w.
     (Inr (ai_is_mine info = Some True \<or> ai_is_watchonly info = Some True \<or> ai_labels info \<noteq> []), w))"

section \<open>The monitor program\<close>

text \<open>
  One attempt of the loop: the node and the user during it, how long it ran in milliseconds and whether the
  user had cancelled when it ended.  The loop sleeps between attempts; its result lists the seconds it slept.
  \<open>None\<close> is a loop that still runs.
\<close>

record run_attempt =
  ra_env :: env
  ra_answers :: "((string + u64) \<times> (string + u64)) list"
  ra_polls :: "(string + u64) list"
  ra_elapsed :: nat
  ra_cancelled :: bool

definition MAX_BACKOFF :: nat where "MAX_BACKOFF = 30"

fun monitor_loop :: "nat \<Rightarrow> run_attempt list \<Rightarrow> monitor \<Rightarrow> (monitor \<times> nat list \<times> (monitor_error + unit)) option" where
  "monitor_loop backoff [] mo = None"
| "monitor_loop backoff (a # as) mo =
     (case sync_and_listen (ra_env a) (ra_answers a) (ra_polls a) mo of
        None \<Rightarrow> None
      | Some (mo', Inr _) \<Rightarrow> Some (mo', [], Inr ())
      | Some (mo', Inl e) \<Rightarrow>
          if is_retryable e then
            if ra_cancelled a then Some (mo', [], Inr ())
            else let b = (if 60000 < ra_elapsed a then 1 else backoff) in
              map_option (\<lambda>(mo'', sleeps, r). (mo'', b # sleeps, r)) (monitor_loop (min (b * 2) MAX_BACKOFF) as mo')
          else Some (mo', [], Inl e))"

definition monitor_start :: "bool \<Rightarrow> env_vars \<Rightarrow> heed_db \<Rightarrow> startup_error + monitor" where
  "monitor_start emission_chain vars db =
     (let mo = monitor_new db (sync_batch_size vars) in
      if emission_chain then res_bind (reward_config_from_env vars) (\<lambda>cfg. Inr (set_reward_tracker cfg mo)) else Inr mo)"

definition monitor_main ::
  "('c, 'w) bitcoind \<Rightarrow> bool \<Rightarrow> (string \<Rightarrow> string + heed_db) \<Rightarrow> env_vars \<Rightarrow> run_attempt list
   \<Rightarrow> ('w, startup_error, (monitor \<times> nat list \<times> (monitor_error + unit)) option) call" where
  "monitor_main B emission_chain open_db vars attempts =
     call_bind (\<lambda>w. (expect_var vars ''DATABASE_URL'' ''DATABASE_URL must be set'', w)) (\<lambda>db_url.
     call_bind (\<lambda>w. (res_map_err (\<lambda>_. StartupPanic ''Failed to initialize database'') (open_db db_url), w)) (\<lambda>db.
     call_bind (make_rpc_client_from_env B vars) (\<lambda>_.
     call_bind (make_watchonly_rpc_client_from_env B vars) (\<lambda>_.
     call_bind (\<lambda>w. (monitor_start emission_chain vars db, w)) (\<lambda>mo w.
     (Inr (monitor_loop 1 attempts mo), w))))))"

section \<open>The provider program\<close>

definition load_validator ::
  "(string \<Rightarrow> string + string) \<Rightarrow> (bytes \<Rightarrow> string + bytes) \<Rightarrow> (bytes \<Rightarrow> xonly_pubkey) \<Rightarrow> env_vars
   \<Rightarrow> startup_error + (xonly_pubkey \<times> bytes) option" where
  "load_validator read_file sk_from_slice x_only vars =
     (case vars ''VALIDATOR_SK_PATH'' of
        None \<Rightarrow> Inr None
      | Some path \<Rightarrow>
          if path = [] then Inr None else
          res_bind (res_map_err (\<lambda>e. IoOther (''Couldn't read validator secret key: '' @ e)) (read_file path)) (\<lambda>text.
          let sk_hex = (case strip_prefix ''0x'' (trim text) of Some rest \<Rightarrow> rest | None \<Rightarrow> trim text) in
          res_bind (res_map_err (\<lambda>e. IoInvalidData (''Invalid hex encoding in secret key file: '' @ e)) (hex_decode sk_hex)) (\<lambda>sk_bytes.
          res_bind (res_map_err (\<lambda>e. IoOther (''Invalid validator secret key: '' @ e)) (sk_from_slice sk_bytes)) (\<lambda>sk.
          Inr (Some (x_only sk, sk))))))"

definition provider_main ::
  "('c, 'w) bitcoind \<Rightarrow> (string \<Rightarrow> string + heed_db) \<Rightarrow> (string \<Rightarrow> string + string) \<Rightarrow> (bytes \<Rightarrow> string + bytes) \<Rightarrow> (bytes \<Rightarrow> xonly_pubkey)
   \<Rightarrow> env_vars \<Rightarrow> ('w, startup_error, string \<times> string \<times> server_data) call" where
  "provider_main B open_db read_file sk_from_slice x_only vars =
     call_bind (\<lambda>w. (expect_var vars ''DATABASE_URL'' ''DATABASE_URL must be set'', w)) (\<lambda>db_url.
     call_bind (\<lambda>w. (res_map_err (\<lambda>_. StartupPanic ''Failed to initialize database'') (open_db db_url), w)) (\<lambda>db.
     call_bind (\<lambda>w. (ok_or (vars ''PROVIDER_AUTH_TOKEN'') (IoOther ''Couldn't load PROVIDER_AUTH_TOKEN''), w)) (\<lambda>token.
     call_bind (make_rpc_client_from_env B vars) (\<lambda>_.
     call_bind (make_watchonly_rpc_client_from_env B vars) (\<lambda>_.
     call_bind (\<lambda>w. (load_validator read_file sk_from_slice x_only vars, w)) (\<lambda>validator w.
     (Inr (token, case vars ''PROVIDER_PORT'' of Some p \<Rightarrow> p | None \<Rightarrow> DEFAULT_PROVIDER_PORT,
       \<lparr> sd_db = db, sd_validator = validator \<rparr>), w)))))))"

end
