(* ===== verification/Quickstart.thy ===== *)
theory Quickstart
  imports Startup
begin

text \<open>
  The program that sets up a demonstration (\<open>src/src/bin/quickstart.rs\<close>): it copies an embedded directory to
  \<open>$HOME/.ipc\<close>, puts the home directory into its \<open>.env\<close> files, creates or loads the wallets of the
  participants, mines blocks for them, and lists their keys.  The machine is the record \<open>shell\<close>; a path is
  the list of its components.  Printing is left out: what is printed is the result.  Output of a command is
  taken to be valid text.
\<close>

section \<open>The machine\<close>

type_synonym path = "string list"

record 'w shell =
  sh_output :: "string \<Rightarrow> string list \<Rightarrow> ('w, string, proc_output) call"
  sh_exists :: "path \<Rightarrow> 'w \<Rightarrow> bool"
  sh_is_dir :: "path \<Rightarrow> 'w \<Rightarrow> bool"
  sh_read_dir :: "path \<Rightarrow> ('w, string, (string + string) list) call"
  sh_create_dir_all :: "path \<Rightarrow> ('w, string, unit) call"
  sh_write :: "path \<Rightarrow> string \<Rightarrow> ('w, string, unit) call"
  sh_read :: "path \<Rightarrow> ('w, string, string) call"

definition call_return :: "'a \<Rightarrow> ('w, 'e, 'a) call" where
  "call_return a w = (Inr a, w)"

fun call_each :: "('x \<Rightarrow> ('w, 'e, 'a) call) \<Rightarrow> 'x list \<Rightarrow> ('w, 'e, 'a list) call" where
  "call_each f [] = call_return []"
| "call_each f (x # xs) = call_bind (f x) (\<lambda>a. call_bind (call_each f xs) (\<lambda>as. call_return (a # as)))"

section \<open>The directory of the participants\<close>

datatype embedded = Embedded (em_files: "(string \<times> string) list") (em_dirs: "(string \<times> embedded) list")

fun extract_embedded_dir :: "'w shell \<Rightarrow> embedded \<Rightarrow> path \<Rightarrow> ('w, string, unit) call"
  and extract_dirs :: "'w shell \<Rightarrow> (string \<times> embedded) list \<Rightarrow> path \<Rightarrow> ('w, string, unit) call" where
  "extract_embedded_dir S (Embedded files dirs) dst =
     call_bind (sh_create_dir_all S dst) (\<lambda>_.
     call_bind (call_each (\<lambda>(file_name, contents). sh_write S (dst @ [file_name]) contents) files) (\<lambda>_.
     extract_dirs S dirs dst))"
| "extract_dirs S [] dst = call_return ()"
| "extract_dirs S ((subdir_name, subdir) # rest) dst =
     call_bind (extract_embedded_dir S subdir (dst @ [subdir_name])) (\<lambda>_. extract_dirs S rest dst)"

text \<open>
  The entries of a directory in the order in which it is read.  The recursion into subdirectories follows the
  disk, so it takes fuel for the depth; \<open>None\<close> is a run that has not ended.
\<close>

fun process_entries ::
  "'w shell \<Rightarrow> (path \<Rightarrow> 'w \<Rightarrow> ((string + unit) \<times> 'w) option) \<Rightarrow> string \<Rightarrow> path \<Rightarrow> (string + string) list \<Rightarrow> 'w
   \<Rightarrow> ((string + unit) \<times> 'w) option" where
  "process_entries S process home_dir dir [] w = Some (Inr (), w)"
| "process_entries S process home_dir dir (Inl e # rest) w = Some (Inl e, w)"
| "process_entries S process home_dir dir (Inr name # rest) w =
     (let path = dir @ [name] in
      if sh_is_dir S path w then
        (case process path w of
           Some (Inr _, w') \<Rightarrow> process_entries S process home_dir dir rest w'
         | r \<Rightarrow> r)
      else if name = ''.env'' then
        (case call_bind (sh_read S path) (\<lambda>content. sh_write S path (replace_all ''$HOME'' home_dir content)) w of
           (Inl e, w') \<Rightarrow> Some (Inl e, w')
         | (Inr _, w') \<Rightarrow> process_entries S process home_dir dir rest w')
      else process_entries S process home_dir dir rest w)"

fun process_env_files :: "'w shell \<Rightarrow> string \<Rightarrow> nat \<Rightarrow> path \<Rightarrow> 'w \<Rightarrow> ((string + unit) \<times> 'w) option" where
  "process_env_files S home_dir 0 dir w = None"
| "process_env_files S home_dir (Suc n) dir w =
     (case sh_read_dir S dir w of
        (Inl e, w') \<Rightarrow> Some (Inl e, w')
      | (Inr entries, w') \<Rightarrow> process_entries S (process_env_files S home_dir n) home_dir dir entries w')"

definition has_subdirectories :: "'w shell \<Rightarrow> path \<Rightarrow> ('w, string, bool) call" where
  "has_subdirectories S ipc_dir w =
     (if \<not> sh_exists S ipc_dir w then (Inr False, w)
      else call_bind (sh_read_dir S ipc_dir) (\<lambda>entries w.
        (Inr (list_ex (\<lambda>e. case e of Inr name \<Rightarrow> sh_is_dir S (ipc_dir @ [name]) w | Inl _ \<Rightarrow> False) entries), w)) w)"

definition setup_ipc_dir :: "'w shell \<Rightarrow> nat \<Rightarrow> embedded \<Rightarrow> string \<Rightarrow> path \<Rightarrow> 'w \<Rightarrow> ((string + unit) \<times> 'w) option" where
  "setup_ipc_dir S n demo_ipc home_dir ipc_dir w =
     (case has_subdirectories S ipc_dir w of
        (Inl e, w') \<Rightarrow> Some (Inl e, w')
      | (Inr True, w') \<Rightarrow> Some (Inr (), w')
      | (Inr False, w') \<Rightarrow>
          (case extract_embedded_dir S demo_ipc ipc_dir w' of
             (Inl e, w'') \<Rightarrow> Some (Inl e, w'')
           | (Inr _, w'') \<Rightarrow> process_env_files S home_dir n ipc_dir w''))"

section \<open>The wallets\<close>

definition wallet_names :: "string list" where
  "wallet_names = [''default'', ''validator1'', ''validator2'', ''validator3'', ''validator4'', ''validator5'', ''validator6'', ''user1'', ''user2'']"

definition cli :: "'w shell \<Rightarrow> string list \<Rightarrow> ('w, string, proc_output) call" where
  "cli S args = sh_output S ''bitcoin-cli'' (''--regtest'' # args)"

definition wallets_exist :: "'w shell \<Rightarrow> ('w, string, bool) call" where
  "wallets_exist S w =
     (case cli S [''loadwallet'', ''default'', ''true''] w of
        (Inr out, w') \<Rightarrow> (Inr (po_success out \<or> \<not> sublist ''Path does not exist.'' (po_stderr out)), w')
      | (Inl _, w') \<Rightarrow> (Inr False, w'))"

definition fund_wallet :: "'w shell \<Rightarrow> string \<Rightarrow> nat \<Rightarrow> ('w, string, unit) call" where
  "fund_wallet S wallet_name blocks =
     call_bind (cli S [''--rpcwallet='' @ wallet_name, ''getnewaddress'']) (\<lambda>out.
     if \<not> po_success out then call_return ()
     else call_bind (cli S [''generatetoaddress'', dec blocks, trim (po_stdout out)]) (\<lambda>_. call_return ()))"

text \<open>The balance that is printed for a wallet, if the node answers.\<close>

definition check_wallet_balance :: "'w shell \<Rightarrow> string \<Rightarrow> ('w, string, string option) call" where
  "check_wallet_balance S wallet_name =
     call_bind (cli S [''--rpcwallet='' @ wallet_name, ''getbalance'']) (\<lambda>out.
     call_return (if po_success out then Some (trim (po_stdout out)) else None))"

definition setup_bitcoin_wallets :: "'w shell \<Rightarrow> ('w, string, string option list) call" where
  "setup_bitcoin_wallets S =
     call_bind (wallets_exist S) (\<lambda>exist.
     call_bind
       (if exist then
          call_bind (call_each (\<lambda>wallet. cli S [''loadwallet'', wallet, ''true'']) wallet_names) (\<lambda>_. call_return ())
        else
          call_bind (call_each (\<lambda>wallet. cli S [''createwallet'', wallet, ''false'', ''false'', [], ''false'', ''true'', ''true'']) wallet_names) (\<lambda>_.
          call_bind (call_each (\<lambda>i. fund_wallet S (''validator'' @ dec i) 2) [1..<7]) (\<lambda>_.
          call_bind (fund_wallet S ''user1'' 2) (\<lambda>_.
          call_bind (fund_wallet S ''user2'' 2) (\<lambda>_.
          fund_wallet S ''default'' 102))))) (\<lambda>_.
     call_each (check_wallet_balance S) wallet_names))"

section \<open>The keys\<close>

record keystore_entry =
  ke_address :: string
  ke_private_key :: string

definition key_labels :: "string list" where
  "key_labels = [''validator1'', ''validator2'', ''validator3'', ''validator4'', ''validator5'', ''validator6'', ''user1'', ''user2'']"

definition keystore_key :: "(bytes \<Rightarrow> string + bytes) \<Rightarrow> (bytes \<Rightarrow> xonly_pubkey) \<Rightarrow> keystore_entry \<Rightarrow> string + xonly_pubkey" where
  "keystore_key sk_from_slice x_only entry =
     (let sk_hex = (case strip_prefix ''0x'' (trim (ke_private_key entry)) of Some rest \<Rightarrow> rest | None \<Rightarrow> ke_private_key entry) in
      res_bind (hex_decode sk_hex) (\<lambda>sk_bytes.
      res_bind (sk_from_slice sk_bytes) (\<lambda>sk. Inr (x_only sk))))"

text \<open>The table of labels, addresses and keys that is printed, and the recommended whitelist; \<open>None\<close> without a keystore.\<close>

definition print_validator_user_keys ::
  "'w shell \<Rightarrow> ext \<Rightarrow> (string \<Rightarrow> string + keystore_entry list) \<Rightarrow> (bytes \<Rightarrow> string + bytes) \<Rightarrow> (bytes \<Rightarrow> xonly_pubkey) \<Rightarrow> path
   \<Rightarrow> ('w, string, ((string \<times> eth_address \<times> xonly_pubkey) list \<times> xonly_pubkey list) option) call" where
  "print_validator_user_keys S X parse sk_from_slice x_only ipc_dir w =
     (if \<not> sh_exists S (ipc_dir @ [''btc_keystore.json'']) w then (Inr None, w)
      else call_bind (sh_read S (ipc_dir @ [''btc_keystore.json''])) (\<lambda>content w'.
        (res_bind (parse content) (\<lambda>keystore.
         res_bind (res_mapM (keystore_key sk_from_slice x_only) (take (length key_labels) keystore)) (\<lambda>keys.
         Inr (Some (map (\<lambda>(label, key). (label, eth_addr_from_x_only_pubkey X key, key)) (zip key_labels keys), take 4 keys)))), w')) w)"

section \<open>The program\<close>

definition path_components :: "string \<Rightarrow> path" where
  "path_components s = filter (\<lambda>c. c \<noteq> []) (split_on (CHR ''/'') s)"

definition quickstart_main ::
  "'w shell \<Rightarrow> ext \<Rightarrow> (string \<Rightarrow> string + keystore_entry list) \<Rightarrow> (bytes \<Rightarrow> string + bytes) \<Rightarrow> (bytes \<Rightarrow> xonly_pubkey) \<Rightarrow> nat \<Rightarrow> embedded \<Rightarrow> env_vars
   \<Rightarrow> 'w \<Rightarrow> ((string + string option list \<times> ((string \<times> eth_address \<times> xonly_pubkey) list \<times> xonly_pubkey list) option) \<times> 'w) option" where
  "quickstart_main S X parse sk_from_slice x_only n demo_ipc vars w =
     (case vars ''HOME'' of
        None \<Rightarrow> Some (Inl ''HOME environment variable not set'', w)
      | Some home_dir \<Rightarrow>
          let ipc_dir = path_components home_dir @ [''.ipc''] in
          (case setup_ipc_dir S n demo_ipc home_dir ipc_dir w of
             None \<Rightarrow> None
           | Some (Inl e, w') \<Rightarrow> Some (Inl e, w')
           | Some (Inr _, w') \<Rightarrow>
               Some (call_bind (setup_bitcoin_wallets S) (\<lambda>balances.
                     call_bind (print_validator_user_keys S X parse sk_from_slice x_only ipc_dir) (\<lambda>keys.
                     call_return (balances, keys))) w')))"

end
