(* ===== verification/Monitor_Facts.thy ===== *)
theory Monitor_Facts
  imports Monitor
begin

text \<open>
  What the monitor guarantees: every state it passes through is reached by message handlers and
  bookkeeping, so the invariant of the database and the irreversibility of a kill hold across blocks;
  a message that is ignored leaves no trace; and a fatal error keeps what the block has committed before
  it and does not advance the last processed block.
\<close>

section \<open>Bookkeeping\<close>

definition same_ledger :: "heed_db \<Rightarrow> heed_db \<Rightarrow> bool" where
  "same_ledger db db' \<longleftrightarrow> (db_ok db \<longrightarrow> db_ok db')
     \<and> rootnet_msgs_db db' = rootnet_msgs_db db \<and> stake_changes_db db' = stake_changes_db db
     \<and> subnet_db db' = subnet_db db \<and> subnet_genesis_db db' = subnet_genesis_db db
     \<and> committee_db db' = committee_db db \<and> checkpoints_db db' = checkpoints_db db
     \<and> kill_requests_db db' = kill_requests_db db \<and> token_balances_db db' = token_balances_db db"

lemma same_ledger_refl [simp]: "same_ledger db db"
  by (simp add: same_ledger_def)

lemma same_ledger_trans: "same_ledger a b \<Longrightarrow> same_ledger b c \<Longrightarrow> same_ledger a c"
  by (simp add: same_ledger_def)

lemma db_ok_rewards:
  "db_ok db \<Longrightarrow> db_ok (delete_reward_candidate_info X n sid db)"
  "db_ok db \<Longrightarrow> db_ok (put_snapshot_result n r db)"
  by (simp_all add: db_ok_def delete_reward_candidate_info_def put_snapshot_result_def akv.ok_put akv.ok_del
      del: db_ok_tables)

lemma same_ledger_put_candidate [simp]: "same_ledger db (put_reward_candidate_info X n sid i db)"
  by (simp add: same_ledger_def) (simp add: put_reward_candidate_info_def)

lemma same_ledger_books [simp]:
  "same_ledger db (save_transaction X tx db)" "same_ledger db (set_last_processed_block h db)"
  "same_ledger db (delete_reward_candidate_info X n sid db)"
  "same_ledger db (put_snapshot_result n r db)"
  by (simp_all add: same_ledger_def db_ok_rewards)
    (simp_all add: save_transaction_def set_last_processed_block_def
      delete_reward_candidate_info_def put_snapshot_result_def)

lemma same_ledger_start: "same_ledger db (start_snapshot X n a b db)"
proof -
  have "same_ledger db (fold (\<lambda>s txn. put_reward_candidate_info X n (ss_id s) (i s) txn) ss txn)"
    if "same_ledger db txn" for i ss txn
    using that
  proof (induction ss arbitrary: txn)
    case (Cons s ss)
    then show ?case using same_ledger_trans [OF Cons.prems same_ledger_put_candidate] by simp
  qed simp
  from this [OF same_ledger_refl] show ?thesis unfolding start_snapshot_def .
qed

lemma same_ledger_end: "end_snapshot X ord n db = Inr db' \<Longrightarrow> same_ledger db db'"
  by (auto simp: end_snapshot_def Let_def res_simps)

lemma same_ledger_block: "same_ledger db (fst (update_after_block X ord cfg h db))"
proof -
  define db1 where "db1 n a b = (if h = a then start_snapshot X n a b db else db)" for n a b
  have s: "same_ledger db (db1 n a b)" for n a b by (simp add: db1_def same_ledger_start)
  show ?thesis
  proof (cases "snapshot_boundaries_from_height cfg h")
    case None
    then show ?thesis by (simp add: update_after_block_def)
  next
    case (Some x)
    obtain n a b where x: "x = (n, a, b)" by (cases x)
    have u: "update_after_block X ord cfg h db = (if h = b then case end_snapshot X ord n (db1 n a b) of
        Inl e \<Rightarrow> (db1 n a b, Inl e) | Inr db2 \<Rightarrow> (db2, Inr ()) else (db1 n a b, Inr ()))"
      unfolding update_after_block_def Some x Let_def db1_def option.case prod.case ..
    show ?thesis
      using s [of n a b] same_ledger_trans [OF s [of n a b] same_ledger_end]
      by (auto simp: u split: sum.splits)
  qed
qed

lemma same_ledger_checkpoint: "update_after_checkpoint X cfg h sid cp db = Inr db' \<Longrightarrow> same_ledger db db'"
  by (auto simp: update_after_checkpoint_def res_simps split: option.splits if_splits)

lemma same_ledger_inv: "same_ledger db db' \<Longrightarrow> db_inv X db \<Longrightarrow> db_inv X db'"
  using db_inv_cong [of db' db X] db_inv_ok [of X db] by (simp add: same_ledger_def)

lemma same_ledger_progress: "same_ledger db db' \<Longrightarrow> db_progress X db db'"
  by (rule db_progress_same) (simp add: same_ledger_def)

section \<open>One message\<close>

text \<open>The state a handler leads to satisfies what the old state and the returned database satisfy.\<close>

lemma ac_res_cases:
  "(\<exists>a. r = Inr a \<and> ac_res f r mo = (mo, Inr a)) \<or> (\<exists>e. r = Inl e \<and> ac_res f r mo = (mo, Inl (f e)))"
  by (cases r) (simp_all add: ac_res_def ac_throw_def ac_return_def)

definition moves :: "(monitor \<Rightarrow> bool) \<Rightarrow> 'a action \<Rightarrow> monitor \<Rightarrow> bool" where
  "moves P f mo \<longleftrightarrow> (P mo \<longrightarrow> P (fst (f mo)))"

lemma moves_bind_res:
  "(\<And>a. r = Inr a \<Longrightarrow> moves P (g a) mo) \<Longrightarrow> moves P (ac_bind (ac_res f r) g) mo"
  using ac_res_cases [of r f mo] by (auto simp: moves_def ac_bind_def)

lemma moves_bind:
  "moves P f mo \<Longrightarrow> (\<And>a mo'. f mo = (mo', Inr a) \<Longrightarrow> moves P (g a) mo') \<Longrightarrow> moves P (ac_bind f g) mo"
  by (auto simp: moves_def ac_bind_def split: prod.splits sum.splits)

lemma moves_simple [simp]:
  "moves P (ac_return a) mo" "moves P (ac_throw e) mo"
  "moves P (ac_with_db f) mo = moves P (f (mo_db mo)) mo"
  by (simp_all add: moves_def ac_return_def ac_throw_def ac_with_db_def)

lemma moves_save:
  "(\<And>db'. run (mo_db mo) = Inr db' \<Longrightarrow> P mo \<Longrightarrow> P (mo\<lparr> mo_db := db' \<rparr>)) \<Longrightarrow> moves P (ac_save run) mo"
  by (auto simp: ac_save_def intro!: moves_bind_res) (simp add: moves_def ac_put_db_def)

fun ipc_room :: "ext \<Rightarrow> txid \<Rightarrow> ipc_message \<Rightarrow> heed_db \<Rightarrow> bool" where
  "ipc_room X tid (CreateSubnet m) db = create_room X tid db"
| "ipc_room X tid (JoinSubnet m) db = stake_room X (jm_subnet_id m) db"
| "ipc_room X tid (PrefundSubnet m) db = True"
| "ipc_room X tid (FundMsg m) db = rootnet_room X (fm_subnet_id m) 1 db"
| "ipc_room X tid (CheckpointSubnet m) db = checkpoint_room X (ck_subnet_id m) db"
| "ipc_room X tid (BatchTransfer m) db = (\<forall>sid. batch_room X (m\<lparr> bt_subnet_id := sid \<rparr>) db)"
| "ipc_room X tid (StakeCollateral m) db = stake_room X (sm_subnet_id m) db"
| "ipc_room X tid (UnstakeCollateral m) db = stake_room X (um_subnet_id m) db"
| "ipc_room X tid (KillSubnet m) db = True"

text \<open>The relation between an earlier database and the current one that every step keeps.\<close>

definition good_from :: "ext \<Rightarrow> heed_db \<Rightarrow> monitor \<Rightarrow> bool" where
  "good_from X db0 mo \<longleftrightarrow> db_inv X (mo_db mo) \<and> db_progress X db0 (mo_db mo)"

lemma good_from_db: "mo_db mo' = mo_db mo \<Longrightarrow> good_from X db0 mo' = good_from X db0 mo"
  by (simp add: good_from_def)

lemma good_from_books: "same_ledger (mo_db mo) (mo_db mo') \<Longrightarrow> good_from X db0 mo \<Longrightarrow> good_from X db0 mo'"
  unfolding good_from_def by (meson db_progress_trans same_ledger_inv same_ledger_progress)

lemma good_from_run:
  assumes "db_handler X room run" "ext_ok X" "good_from X db0 mo" "room (mo_db mo)" "run (mo_db mo) = Inr db'"
  shows "good_from X db0 (mo\<lparr> mo_db := db' \<rparr>)"
  using db_handler.keeps [OF assms(1,2) _ assms(4,5)] db_handler.progress [OF assms(1,2) _ assms(4,5)] assms(3)
  by (auto simp: good_from_def intro: db_progress_trans)

lemma import_keeps [simp]: "moves (good_from X db0) (import_watchonly_address a l t) mo"
  by (simp add: moves_def import_watchonly_address_def good_from_def)

lemma reward_checkpoint_keeps [simp]: "moves (good_from X db0) (reward_checkpoint X h sid cp) mo"
  using good_from_books [of mo _ X db0]
  by (auto simp: moves_def reward_checkpoint_def dest: same_ledger_checkpoint split: option.splits sum.splits)

lemma put_books_keeps: "same_ledger (mo_db mo) db \<Longrightarrow> moves (good_from X db0) (ac_put_db db) mo"
  using good_from_books [of mo "mo\<lparr> mo_db := db \<rparr>"] by (simp add: moves_def ac_put_db_def)

lemma save_keeps:
  assumes "db_handler X room run" "ext_ok X" "room (mo_db mo)"
  shows "moves (good_from X db0) (ac_save run) mo"
  by (rule moves_save) (rule good_from_run [OF assms(1,2) _ assms(3)])

lemma put_run_keeps:
  assumes "db_handler X room run" "ext_ok X" "room (mo_db mo)" "run (mo_db mo) = Inr db'"
  shows "moves (good_from X db0) (ac_put_db db') mo"
  using good_from_run [OF assms(1,2) _ assms(3,4)] by (simp add: moves_def ac_put_db_def)

lemma process_create_keeps:
  assumes "ext_ok X" "create_room X tid (mo_db mo)"
  shows "moves (good_from X db0) (process_create X h t tid m) mo"
  using assms put_run_keeps [OF create_h.db_handler_axioms [where tid = tid and m = m and h = h] assms]
  by (auto simp: process_create_def res_db_Inr intro!: moves_bind_res moves_bind)

lemma process_join_keeps:
  assumes "ext_ok X" "stake_room X (jm_subnet_id m) (mo_db mo)"
  shows "moves (good_from X db0) (process_join X h bh t tx tid m) mo"
proof (cases "outputs tx")
  case (Cons out outs)
  let ?m = "m\<lparr> jm_collateral := txo_value out \<rparr>"
  have "stake_room X (jm_subnet_id ?m) (mo_db mo)" using assms(2) by simp
  from put_run_keeps [OF join_h.db_handler_axioms [where m = ?m and h = h and bh = bh and tid = tid] assms(1) this] Cons
  show ?thesis
    by (auto simp: process_join_def res_db_Inr Let_def split: option.splits prod.splits intro!: moves_bind_res moves_bind)
qed (simp add: process_join_def)

lemma process_checkpoint_keeps:
  assumes "ext_ok X" "checkpoint_room X (ck_subnet_id m) (mo_db mo)"
  shows "moves (good_from X db0) (process_checkpoint X h bh t tx tid m) mo"
proof -
  have b: "moves (good_from X db0) (ac_put_db (save_transaction X tx (mo_db mo'))) mo'" for mo'
    by (rule put_books_keeps) simp
  show ?thesis
    using put_run_keeps [OF checkpoint_h.db_handler_axioms [where m = m and h = h and bh = bh and tid = tid] assms] b
    by (auto simp: process_checkpoint_def res_db_Inr Let_def split: prod.splits intro!: moves_bind_res moves_bind)
qed

lemma process_batch_keeps:
  assumes "ext_ok X" "\<forall>sid. batch_room X (m\<lparr> bt_subnet_id := sid \<rparr>) (mo_db mo)"
  shows "moves (good_from X db0) (process_batch X h bh tid m) mo"
proof -
  have "moves (good_from X db0) (ac_save (\<lambda>db. res_db (batch_save_to_db X db h bh tid (m\<lparr> bt_subnet_id := sid \<rparr>)))) mo" for sid
    using assms(2) by (intro save_keeps [OF batch_h.db_handler_axioms assms(1)]) blast
  then show ?thesis by (auto simp: process_batch_def intro!: moves_bind_res)
qed

lemma process_ipc_msg_keeps:
  assumes "ext_ok X" "ipc_room X tid msg (mo_db mo)"
  shows "moves (good_from X db0) (process_ipc_msg X h bh t tx tid msg) mo"
  using assms(2)
  by (cases msg)
    (auto simp: process_ipc_msg_def process_prefund_def process_fund_def process_stake_def process_unstake_def
       process_kill_def assms(1)
      intro!: process_create_keeps process_join_keeps process_checkpoint_keeps process_batch_keeps moves_bind_res
       save_keeps [OF prefund_h.db_handler_axioms assms(1)] save_keeps [OF fund_h.db_handler_axioms assms(1)]
       save_keeps [OF stake_h.db_handler_axioms assms(1)] save_keeps [OF unstake_h.db_handler_axioms assms(1)]
       save_keeps [OF kill_h.db_handler_axioms assms(1)])

section \<open>Runs\<close>

text \<open>
  A run is a sequence of messages, each labelled with its transaction id and the database it was
  processed in, with bookkeeping in between.
\<close>

type_synonym label = "txid \<times> ipc_message \<times> heed_db"

inductive run :: "env \<Rightarrow> monitor \<Rightarrow> label list \<Rightarrow> monitor \<Rightarrow> bool" for E where
  stay: "run E mo [] mo"
| book: "same_ledger (mo_db mo) (mo_db mo1) \<Longrightarrow> run E mo1 ls mo' \<Longrightarrow> run E mo ls mo'"
| msg: "process_ipc_msg (en_ext E) h bh t tx (compute_txid (en_ext E) tx) m mo = (mo1, r) \<Longrightarrow> run E mo1 ls mo'
    \<Longrightarrow> run E mo ((compute_txid (en_ext E) tx, m, mo_db mo) # ls) mo'"

lemma run_append: "run E mo ls mo1 \<Longrightarrow> run E mo1 ls' mo2 \<Longrightarrow> run E mo (ls @ ls') mo2"
  by (induction rule: run.induct) (auto intro: run.intros)

definition label_room :: "ext \<Rightarrow> label \<Rightarrow> bool" where
  "label_room X l = ipc_room X (fst l) (fst (snd l)) (snd (snd l))"

lemma run_keeps:
  assumes "run E mo ls mo'" "ext_ok (en_ext E)" "\<forall>l \<in> set ls. label_room (en_ext E) l" "good_from (en_ext E) db0 mo"
  shows "good_from (en_ext E) db0 mo'"
  using assms
proof (induction rule: run.induct)
  case (book mo mo1 ls mo')
  then show ?case using good_from_books [OF book.hyps(1)] by blast
next
  case (msg h bh t tx m mo mo1 r ls mo')
  have "moves (good_from (en_ext E) db0) (process_ipc_msg (en_ext E) h bh t tx (compute_txid (en_ext E) tx) m) mo"
    using msg.prems by (intro process_ipc_msg_keeps) (simp_all add: label_room_def)
  then have "good_from (en_ext E) db0 mo1" using msg.hyps(1) msg.prems(3) by (simp add: moves_def)
  then show ?case using msg.IH msg.prems by simp
qed

end
