(* ===== verification/Trace.thy ===== *)
theory Trace
  imports Monitor_Facts
begin

text \<open>
  The messages that the monitor processes, in order: for each operation of \<open>Monitor\<close> a function from the state
  to the list of labels, one for each call of \<open>process_ipc_msg\<close> that the operation makes.  It follows the
  operation step by step, so the trace of a run is determined by its input.  Every operation is a run
  along its trace, and the invariant of the database is kept when each message of the trace had room.
\<close>

section \<open>Traces of operations\<close>

type_synonym trace = "monitor \<Rightarrow> label list"

definition tr_bind :: "trace \<Rightarrow> 'a action \<Rightarrow> ('a \<Rightarrow> trace) \<Rightarrow> trace" where
  "tr_bind tf f tg mo = tf mo @ (case f mo of (mo', Inr a) \<Rightarrow> tg a mo' | (mo', Inl e) \<Rightarrow> [])"

fun tr_each :: "('a \<Rightarrow> trace) \<Rightarrow> ('a \<Rightarrow> unit action) \<Rightarrow> 'a list \<Rightarrow> trace" where
  "tr_each t f [] = (\<lambda>mo. [])"
| "tr_each t f (x # xs) = tr_bind (t x) (f x) (\<lambda>_. tr_each t f xs)"

definition msg_trace :: "env \<Rightarrow> transaction \<Rightarrow> ipc_message \<Rightarrow> trace" where
  "msg_trace E tx m mo = [(compute_txid (en_ext E) tx, m, mo_db mo)]"

definition witness_trace :: "env \<Rightarrow> transaction \<Rightarrow> bytes \<Rightarrow> trace" where
  "witness_trace E tx w =
     (if w = [] then (\<lambda>mo. [])
      else case concatenate_op_push_data (en_ext E) w of
        Inl _ \<Rightarrow> (\<lambda>mo. [])
      | Inr d \<Rightarrow> (case from_witness (en_codec E) d of Inl _ \<Rightarrow> (\<lambda>mo. []) | Inr msg \<Rightarrow> msg_trace E tx msg))"

definition attempt_trace :: "ipc_lib_error + 'm \<Rightarrow> ('m \<Rightarrow> trace) \<Rightarrow> trace \<Rightarrow> trace" where
  "attempt_trace r found otherwise =
     (case r of Inr m \<Rightarrow> found m | Inl (Panic s) \<Rightarrow> (\<lambda>mo. []) | Inl _ \<Rightarrow> otherwise)"

definition outputs_trace :: "env \<Rightarrow> transaction \<Rightarrow> trace" where
  "outputs_trace E tx mo =
     (let X = en_ext E; db = mo_db mo; t = msg_trace E tx in
      attempt_trace (prefund_from_tx X tx) (\<lambda>m. t (PrefundSubnet m))
      (attempt_trace (fund_from_tx X tx) (\<lambda>m. t (FundMsg m))
      (attempt_trace (from_checkpoint_tx X db tx) (\<lambda>m. t (CheckpointSubnet m))
      (attempt_trace (batch_from_tx X (en_codec E) db tx) (\<lambda>m. t (BatchTransfer m))
      (attempt_trace (stake_from_tx X db tx) (\<lambda>m. t (StakeCollateral m))
      (attempt_trace (unstake_from_tx X db tx) (\<lambda>m. t (UnstakeCollateral m))
      (attempt_trace (kill_from_tx X db tx) (\<lambda>m. t (KillSubnet m))
      (\<lambda>mo. []))))))) mo)"

definition transaction_trace :: "env \<Rightarrow> u64 \<Rightarrow> block_hash \<Rightarrow> u32 \<Rightarrow> transaction \<Rightarrow> trace" where
  "transaction_trace E h bh t tx =
     (let ws = concat (map witness (inputs tx)) in
      tr_bind (tr_each (witness_trace E tx) (process_witness E h bh t tx) ws) (ac_each (process_witness E h bh t tx) ws)
        (\<lambda>_. outputs_trace E tx))"

definition block_trace :: "env \<Rightarrow> u64 \<Rightarrow> block \<Rightarrow> trace" where
  "block_trace E h b =
     tr_each (transaction_trace E h (bl_hash b) (bl_time b)) (process_transaction E h (bl_hash b) (bl_time b)) (bl_txdata b)"

fun blocks_trace :: "env \<Rightarrow> u64 \<Rightarrow> block list \<Rightarrow> trace" where
  "blocks_trace E h [] = (\<lambda>mo. [])"
| "blocks_trace E h (b # bs) = tr_bind (block_trace E h b) (finish_block E h b) (\<lambda>_. blocks_trace E (h + 1) bs)"

function catch_up_trace :: "env \<Rightarrow> u64 \<Rightarrow> trace" where
  "catch_up_trace E latest mo =
     (if mo_current_height mo < latest \<and> \<not> en_cancelled E (mo_current_height mo) then
        let window_start = mo_current_height mo + 1;
            window_end = min (mo_current_height mo + mo_sync_batch_size mo) latest
        in case fetch_blocks_batched E window_start window_end of
             Inl e \<Rightarrow> []
           | Inr bs \<Rightarrow> blocks_trace E window_start bs mo @
               (case sync_blocks E window_start bs mo of
                  (mo', Inl e) \<Rightarrow> []
                | (mo', Inr _) \<Rightarrow> catch_up_trace E latest mo')
      else [])"
  by pat_completeness auto

termination
proof (relation "measure (\<lambda>(E, latest, mo). unat latest - unat (mo_current_height mo))")
  fix E latest mo ws we bs mo' r and u :: unit
  assume a: "mo_current_height mo < latest \<and> \<not> en_cancelled E (mo_current_height mo)"
    and ws: "ws = mo_current_height mo + 1"
    and we: "we = min (mo_current_height mo + mo_sync_batch_size mo) latest"
    and f: "fetch_blocks_batched E ws we = Inr bs" and p: "(mo', r) = sync_blocks E ws bs mo" "r = Inr u"
  have w: "mo_current_height mo' = we" using window_height [OF f] p by simp
  have "ws \<le> we" using fetch_length [OF f] by simp
  moreover have "unat ws = unat (mo_current_height mo) + 1"
    using unat_next [of "mo_current_height mo" latest] a ws by simp
  ultimately have "unat (mo_current_height mo) < unat we" by (simp add: word_le_nat_alt)
  moreover have "unat we \<le> unat latest" using we by (simp add: word_le_nat_alt [symmetric])
  ultimately show "((E, latest, mo'), (E, latest, mo)) \<in> measure (\<lambda>(E, latest, mo). unat latest - unat (mo_current_height mo))"
    using w by simp
qed auto

declare catch_up_trace.simps [simp del]

fun sync_loop_trace :: "env \<Rightarrow> ((string + u64) \<times> (string + u64)) list \<Rightarrow> trace" where
  "sync_loop_trace E [] mo = []"
| "sync_loop_trace E ((c1, c2) # answers) mo =
     (if en_cancelled E (mo_current_height mo) then []
      else case get_latest_confirmed_height E c1 of
        Inl e \<Rightarrow> []
      | Inr latest \<Rightarrow>
          if latest < mo_current_height mo then []
          else catch_up_trace E latest mo @
            (case catch_up E latest mo of
               (mo', Inr True) \<Rightarrow>
                 (case get_latest_confirmed_height E c2 of
                    Inl e \<Rightarrow> []
                  | Inr latest2 \<Rightarrow> if mo_current_height mo' = latest2 then [] else sync_loop_trace E answers mo')
             | _ \<Rightarrow> []))"

definition sync_trace :: "env \<Rightarrow> ((string + u64) \<times> (string + u64)) list \<Rightarrow> trace" where
  "sync_trace E answers mo = sync_loop_trace E answers (mo\<lparr> mo_current_height := get_last_processed_block (mo_db mo) \<rparr>)"

definition listen_block_trace :: "env \<Rightarrow> u64 \<Rightarrow> trace" where
  "listen_block_trace E h = (case en_block E h of Inl e \<Rightarrow> (\<lambda>mo. []) | Inr b \<Rightarrow> block_trace E h b)"

fun listen_blocks_trace :: "env \<Rightarrow> nat \<Rightarrow> trace" where
  "listen_blocks_trace E 0 mo = []"
| "listen_blocks_trace E (Suc n) mo =
     (let h = mo_current_height mo + 1 in tr_bind (listen_block_trace E h) (listen_block E h) (\<lambda>_. listen_blocks_trace E n) mo)"

definition poll_trace :: "env \<Rightarrow> string + u64 \<Rightarrow> trace" where
  "poll_trace E answer mo =
     (case get_latest_confirmed_height E answer of
        Inl e \<Rightarrow> []
      | Inr block_count \<Rightarrow> listen_blocks_trace E (unat block_count - unat (mo_current_height mo)) mo)"

fun listen_trace :: "env \<Rightarrow> (string + u64) list \<Rightarrow> trace" where
  "listen_trace E [] mo = []"
| "listen_trace E (a # answers) mo =
     (if en_cancelled E (mo_current_height mo) then []
      else tr_bind (poll_trace E a) (listen_poll E a) (\<lambda>_. listen_trace E answers) mo)"

definition sync_and_listen_trace ::
  "env \<Rightarrow> ((string + u64) \<times> (string + u64)) list \<Rightarrow> (string + u64) list \<Rightarrow> trace" where
  "sync_and_listen_trace E answers polls mo =
     sync_trace E answers mo @
     (case sync E answers mo of Some (mo', Inr True) \<Rightarrow> listen_trace E polls mo' | _ \<Rightarrow> [])"

section \<open>Operations run along their traces\<close>

definition traced :: "env \<Rightarrow> trace \<Rightarrow> 'a action \<Rightarrow> bool" where
  "traced E t f \<longleftrightarrow> (\<forall>mo. run E mo (t mo) (fst (f mo)))"

lemma tracedD: "traced E t f \<Longrightarrow> f mo = (mo', r) \<Longrightarrow> run E mo (t mo) mo'"
  unfolding traced_def by (metis fst_conv)

lemma traced_bind:
  assumes "traced E tf f" "\<And>a. traced E (tg a) (g a)"
  shows "traced E (tr_bind tf f tg) (ac_bind f g)"
  unfolding traced_def
proof
  fix mo
  obtain mo1 r where f: "f mo = (mo1, r)" by (cases "f mo")
  have 1: "run E mo (tf mo) mo1" using tracedD [OF assms(1) f] .
  show "run E mo (tr_bind tf f tg mo) (fst (ac_bind f g mo))"
  proof (cases r)
    case (Inl e)
    then show ?thesis using 1 f by (simp add: ac_bind_def tr_bind_def)
  next
    case (Inr a)
    have "run E mo1 (tg a mo1) (fst (g a mo1))" using assms(2) unfolding traced_def by blast
    then show ?thesis using run_append [OF 1] f Inr by (simp add: ac_bind_def tr_bind_def)
  qed
qed

lemma traced_books: "(\<And>mo. same_ledger (mo_db mo) (mo_db (fst (f mo)))) \<Longrightarrow> traced E (\<lambda>mo. []) f"
  unfolding traced_def by (meson run.book run.stay)

lemma traced_quiet:
  "traced E (\<lambda>mo. []) (ac_return a)" "traced E (\<lambda>mo. []) (ac_throw e)" "traced E (\<lambda>mo. []) (ac_res f r)"
  "traced E (\<lambda>mo. []) (advance h)" "traced E (\<lambda>mo. []) (process_side_effects E')"
  by (rule traced_books; auto simp: ac_return_def ac_throw_def ac_res_def advance_def process_side_effects_def Let_def
      split: sum.splits import_outcome.splits)+

lemma traced_reward_block: "traced E (\<lambda>mo. []) (reward_block E h)"
proof (rule traced_books)
  fix mo
  show "same_ledger (mo_db mo) (mo_db (fst (reward_block E h mo)))"
    using same_ledger_block [of "mo_db mo" "en_ext E" "en_order E" _ h]
    by (auto simp: reward_block_def split: option.splits prod.splits) (metis fst_conv)
qed

lemma tr_bind_quiet [simp]: "tr_bind t f (\<lambda>_ mo. []) = t"
  by (auto simp: tr_bind_def fun_eq_iff split: prod.splits sum.splits)

lemma traced_then_quiet: "traced E t f \<Longrightarrow> (\<And>a. traced E (\<lambda>mo. []) (g a)) \<Longrightarrow> traced E t (ac_bind f g)"
  using traced_bind [of E t f "\<lambda>_ mo. []" g] by simp

lemma traced_each: "(\<And>x. traced E (t x) (f x)) \<Longrightarrow> traced E (tr_each t f xs) (ac_each f xs)"
  by (induction xs) (simp_all add: traced_bind traced_quiet)

lemma handle_keeps_state: "fst (handle_ipc_msg_error e mo) = mo"
  by (cases e rule: handle_ipc_msg_error.cases) (simp_all add: ac_return_def ac_throw_def)

lemma traced_run_msg: "traced E (msg_trace E tx m) (run_msg E h bh t tx m)"
  unfolding traced_def
proof
  fix mo
  obtain mo1 r where p: "process_ipc_msg (en_ext E) h bh t tx (compute_txid (en_ext E) tx) m mo = (mo1, r)" by force
  then have "fst (run_msg E h bh t tx m mo) = mo1"
    by (cases r) (simp_all add: run_msg_def ac_catch_def handle_keeps_state)
  then show "run E mo (msg_trace E tx m mo) (fst (run_msg E h bh t tx m mo))"
    using run.msg [OF p run.stay] by (simp add: msg_trace_def)
qed

lemma traced_witness: "traced E (witness_trace E tx w) (process_witness E h bh t tx w)"
  by (auto simp: witness_trace_def process_witness_def traced_quiet traced_run_msg split: sum.splits)

lemma traced_attempt:
  "(\<And>m. traced E (tf m) (f m)) \<Longrightarrow> traced E tg g \<Longrightarrow> traced E (attempt_trace r tf tg) (attempt r f g)"
  by (auto simp: attempt_trace_def attempt_def traced_quiet split: sum.splits ipc_lib_error.splits)

lemma traced_outputs: "traced E (outputs_trace E tx) (process_outputs E h bh t tx)"
  unfolding traced_def
proof
  fix mo
  have "traced E
      (attempt_trace (prefund_from_tx X tx) (\<lambda>m. msg_trace E tx (PrefundSubnet m))
      (attempt_trace (fund_from_tx X tx) (\<lambda>m. msg_trace E tx (FundMsg m))
      (attempt_trace (from_checkpoint_tx X db tx) (\<lambda>m. msg_trace E tx (CheckpointSubnet m))
      (attempt_trace (batch_from_tx X C db tx) (\<lambda>m. msg_trace E tx (BatchTransfer m))
      (attempt_trace (stake_from_tx X db tx) (\<lambda>m. msg_trace E tx (StakeCollateral m))
      (attempt_trace (unstake_from_tx X db tx) (\<lambda>m. msg_trace E tx (UnstakeCollateral m))
      (attempt_trace (kill_from_tx X db tx) (\<lambda>m. msg_trace E tx (KillSubnet m))
      (\<lambda>mo. []))))))))
      (attempt (prefund_from_tx X tx) (\<lambda>m. run_msg E h bh t tx (PrefundSubnet m))
      (attempt (fund_from_tx X tx) (\<lambda>m. run_msg E h bh t tx (FundMsg m))
      (attempt (from_checkpoint_tx X db tx) (\<lambda>m. run_msg E h bh t tx (CheckpointSubnet m))
      (attempt (batch_from_tx X C db tx) (\<lambda>m. run_msg E h bh t tx (BatchTransfer m))
      (attempt (stake_from_tx X db tx) (\<lambda>m. run_msg E h bh t tx (StakeCollateral m))
      (attempt (unstake_from_tx X db tx) (\<lambda>m. run_msg E h bh t tx (UnstakeCollateral m))
      (attempt (kill_from_tx X db tx) (\<lambda>m. run_msg E h bh t tx (KillSubnet m))
      (ac_return ()))))))))" for X C db
    by (intro traced_attempt traced_run_msg traced_quiet)
  then show "run E mo (outputs_trace E tx mo) (fst (process_outputs E h bh t tx mo))"
    unfolding traced_def outputs_trace_def process_outputs_def Let_def ac_with_db_def by blast
qed

lemma traced_transaction: "traced E (transaction_trace E h bh t tx) (process_transaction E h bh t tx)"
  unfolding transaction_trace_def process_transaction_def Let_def
  by (intro traced_bind traced_each traced_witness traced_outputs)

lemma traced_block: "traced E (block_trace E h b) (process_block_data E h b)"
  unfolding block_trace_def process_block_data_def by (intro traced_each traced_transaction)

lemma traced_finish_block: "traced E (block_trace E h b) (finish_block E h b)"
  unfolding finish_block_def
  by (intro traced_then_quiet traced_block traced_quiet traced_reward_block)

lemma traced_blocks: "traced E (blocks_trace E h bs) (sync_blocks E h bs)"
  by (induction E h bs rule: sync_blocks.induct) (simp_all add: traced_bind traced_finish_block traced_quiet)

lemma traced_catch_up: "run E mo (catch_up_trace E latest mo) (fst (catch_up E latest mo))"
proof (induction E latest mo rule: catch_up.induct)
  case (1 E latest mo)
  let ?s = "mo_current_height mo + 1" and ?e = "min (mo_current_height mo + mo_sync_batch_size mo) latest"
  show ?case
  proof (cases "mo_current_height mo < latest \<and> \<not> en_cancelled E (mo_current_height mo)")
    case False
    then show ?thesis by (subst catch_up.simps, subst catch_up_trace.simps) (auto intro: run.stay)
  next
    case True
    show ?thesis
    proof (cases "fetch_blocks_batched E ?s ?e")
      case (Inl e)
      then show ?thesis using True by (subst catch_up.simps, subst catch_up_trace.simps) (simp add: Let_def run.stay)
    next
      case (Inr bs)
      obtain mo1 r where s: "sync_blocks E ?s bs mo = (mo1, r)" by (cases "sync_blocks E ?s bs mo")
      have 1: "run E mo (blocks_trace E ?s bs mo) mo1" using tracedD [OF traced_blocks s] .
      show ?thesis
      proof (cases r)
        case (Inl e)
        then show ?thesis using True Inr s 1 by (subst catch_up.simps, subst catch_up_trace.simps) (simp add: Let_def)
      next
        case (Inr u)
        note fetched = \<open>fetch_blocks_batched E ?s ?e = Inr bs\<close>
        have c: "catch_up E latest mo = catch_up E latest mo1"
          using True fetched s Inr by (subst catch_up.simps) (simp add: Let_def)
        have t: "catch_up_trace E latest mo = blocks_trace E ?s bs mo @ catch_up_trace E latest mo1"
          using True fetched s Inr by (subst catch_up_trace.simps) (simp add: Let_def)
        have "run E mo1 (catch_up_trace E latest mo1) (fst (catch_up E latest mo1))"
          using "1.IH" [OF _ _ refl refl _ _ _] True fetched s Inr by metis
        then show ?thesis unfolding c t by (rule run_append [OF 1])
      qed
    qed
  qed
qed

lemma traced_side_effects: "process_side_effects E mo = (mo', r) \<Longrightarrow> run E mo [] mo'"
  using tracedD [OF traced_quiet(5)] by blast

lemma traced_sync_loop: "sync_loop E answers mo = Some (mo', r) \<Longrightarrow> run E mo (sync_loop_trace E answers mo) mo'"
proof (induction E answers mo rule: sync_loop.induct)
  case (2 E c1 c2 answers mo)
  consider (stop) "mo' = mo" "sync_loop_trace E ((c1, c2) # answers) mo = []"
    | (up) latest mo1 b where "get_latest_confirmed_height E c1 = Inr latest"
      "\<not> en_cancelled E (mo_current_height mo)" "\<not> latest < mo_current_height mo" "catch_up E latest mo = (mo1, b)"
    using "2.prems" by (auto split: if_splits sum.splits prod.splits)
  then show ?case
  proof cases
    case stop
    then show ?thesis using run.stay by simp
  next
    case up
    have ls: "run E mo (catch_up_trace E latest mo) mo1" using traced_catch_up [of E mo latest] up(4) by simp
    consider (fin) "mo' = mo1" "sync_loop_trace E ((c1, c2) # answers) mo = catch_up_trace E latest mo"
      | (eff) x where "process_side_effects E mo1 = (mo', x)" "sync_loop_trace E ((c1, c2) # answers) mo = catch_up_trace E latest mo"
      | (again) l2 where "sync_loop E answers mo1 = Some (mo', r)" "b = Inr True" "get_latest_confirmed_height E c2 = Inr l2"
          "mo_current_height mo1 \<noteq> l2"
          "sync_loop_trace E ((c1, c2) # answers) mo = catch_up_trace E latest mo @ sync_loop_trace E answers mo1"
      using "2.prems" up by (auto split: if_splits sum.splits prod.splits bool.splits)
    then show ?thesis
    proof cases
      case fin
      then show ?thesis using ls by simp
    next
      case eff
      then show ?thesis using run_append [OF ls traced_side_effects [OF eff(1)]] by simp
    next
      case again
      have "run E mo1 (sync_loop_trace E answers mo1) mo'"
        using "2.IH" [OF up(2) up(1) up(3) up(4) [symmetric] again(2) _ again(3,4,1)] by simp
      then show ?thesis using run_append [OF ls] again(5) by simp
    qed
  qed
qed simp

lemma traced_sync: "sync E answers mo = Some (mo', r) \<Longrightarrow> run E mo (sync_trace E answers mo) mo'"
  unfolding sync_def sync_trace_def
  by (rule run.book [where ?mo1.0 = "mo\<lparr> mo_current_height := get_last_processed_block (mo_db mo) \<rparr>"])
    (simp_all add: traced_sync_loop)

lemma traced_listen_block: "traced E (listen_block_trace E h) (listen_block E h)"
proof -
  have "traced E (listen_block_trace E h) (process_block E h)"
  proof (cases "en_block E h")
    case (Inr b)
    then have "process_block E h = process_block_data E h b"
      by (simp add: process_block_def ac_res_def ac_return_def ac_bind_def fun_eq_iff)
    then show ?thesis using Inr traced_block by (simp add: listen_block_trace_def)
  next
    case (Inl e)
    then have "process_block E h = ac_throw (MonitorRpcError e)"
      by (simp add: process_block_def ac_res_def ac_throw_def ac_bind_def fun_eq_iff)
    then show ?thesis using Inl traced_quiet by (simp add: listen_block_trace_def)
  qed
  then show ?thesis unfolding listen_block_def
    by (intro traced_then_quiet traced_quiet traced_reward_block)
qed

lemma traced_listen_blocks: "traced E (listen_blocks_trace E n) (listen_blocks E n)"
proof (induction n)
  case (Suc n)
  then have "traced E (tr_bind (listen_block_trace E h) (listen_block E h) (\<lambda>_. listen_blocks_trace E n))
      (ac_bind (listen_block E h) (\<lambda>_. listen_blocks E n))" for h
    by (intro traced_bind traced_listen_block)
  then show ?case by (simp add: traced_def Let_def)
qed (simp add: traced_def ac_return_def run.stay)

lemma traced_poll: "traced E (poll_trace E a) (listen_poll E a)"
  unfolding listen_poll_def
proof (rule traced_then_quiet)
  show "traced E (poll_trace E a) (\<lambda>mo. case get_latest_confirmed_height E a of
      Inl e \<Rightarrow> (mo, Inr ()) | Inr n \<Rightarrow> listen_blocks E (unat n - unat (mo_current_height mo)) mo)"
    using traced_listen_blocks unfolding traced_def by (auto simp: poll_trace_def run.stay split: sum.splits)
qed (rule traced_quiet)

lemma traced_listen: "listen E polls mo = Some (mo', r) \<Longrightarrow> run E mo (listen_trace E polls mo) mo'"
proof (induction E polls mo rule: listen.induct)
  case (2 E a answers mo)
  obtain mo1 x where p: "listen_poll E a mo = (mo1, x)" by (cases "listen_poll E a mo")
  have ls: "run E mo (poll_trace E a mo) mo1" using tracedD [OF traced_poll p] .
  consider (stop) "mo' = mo" "en_cancelled E (mo_current_height mo)"
    | (err) e where "mo' = mo1" "x = Inl e" "\<not> en_cancelled E (mo_current_height mo)"
    | (again) u where "listen E answers mo1 = Some (mo', r)" "x = Inr u" "\<not> en_cancelled E (mo_current_height mo)"
    using "2.prems" p by (auto split: if_splits sum.splits)
  then show ?case
  proof cases
    case stop
    then show ?thesis by (simp add: run.stay)
  next
    case err
    then show ?thesis using ls p by (simp add: tr_bind_def)
  next
    case again
    have "run E mo1 (listen_trace E answers mo1) mo'" using "2.IH" [OF again(3) p [symmetric] again(2,1)] .
    then show ?thesis using run_append [OF ls] p again(2,3) by (simp add: tr_bind_def)
  qed
qed simp

lemma traced_sync_and_listen:
  assumes "sync_and_listen E answers polls mo = Some (mo', r)"
  shows "run E mo (sync_and_listen_trace E answers polls mo) mo'"
proof -
  from assms obtain mo1 b where s: "sync E answers mo = Some (mo1, b)"
    by (auto simp: sync_and_listen_def split: option.splits)
  have ls: "run E mo (sync_trace E answers mo) mo1" using traced_sync [OF s] .
  consider (stop) "mo' = mo1" "b \<noteq> Inr True" | (on) "listen E polls mo1 = Some (mo', r)" "b = Inr True"
    using assms s by (auto simp: sync_and_listen_def split: sum.splits bool.splits)
  then show ?thesis
  proof cases
    case stop
    then have "sync_and_listen_trace E answers polls mo = sync_trace E answers mo"
      using s by (auto simp: sync_and_listen_trace_def split: sum.splits bool.splits)
    then show ?thesis using ls stop(1) by simp
  next
    case on
    then show ?thesis using run_append [OF ls traced_listen [OF on(1)]] s by (simp add: sync_and_listen_trace_def)
  qed
qed

text \<open>A run along messages that all had room keeps the invariant and the progress of the database.\<close>

lemma run_good:
  assumes "run E mo ls mo'" "ext_ok (en_ext E)" "db_inv (en_ext E) (mo_db mo)" "\<forall>l \<in> set ls. label_room (en_ext E) l"
  shows "db_inv (en_ext E) (mo_db mo')" "db_progress (en_ext E) (mo_db mo) (mo_db mo')"
  using run_keeps [OF assms(1,2,4), of "mo_db mo"] assms(3) by (simp_all add: good_from_def db_progress_refl)

end
