(* ===== verification/Recovery.thy ===== *)
theory Recovery
  imports Monitor_Facts Boot
begin

text \<open>
  Errors of the monitor and recovery from them: a message that is ignored leaves no trace, a fatal error
  in the middle of a block keeps the work of the transactions before it and is met again after a
  restart.
\<close>

section \<open>Evaluating operations\<close>

lemma ac_bind_eval:
  "ac_bind (ac_return a) g = g a" "ac_bind (ac_throw e) g = ac_throw e"
  "ac_bind (ac_put_db db) f mo = f () (mo\<lparr> mo_db := db \<rparr>)"
  "ac_res k (Inr a) = ac_return a" "ac_res k (Inl x) = ac_throw (k x)"
  by (auto simp: fun_eq_iff ac_bind_def ac_return_def ac_throw_def ac_put_db_def ac_res_def)

lemma attempt_eval:
  "attempt (Inr m) f g = f m" "attempt (Inl (MsgParseError a b)) f g = g"
  "attempt (Inl (IpcValidateError v)) f g = g" "attempt (Inl (Panic p)) f g = ac_throw (IpcMsgProcessingError (Panic p))"
  by (simp_all add: attempt_def)

lemma ac_final_eval:
  "ac_with_db f mo = f (mo_db mo) mo" "ac_put_db db mo = (mo\<lparr> mo_db := db \<rparr>, Inr ())"
  "ac_return a mo = (mo, Inr a)" "ac_throw e mo = (mo, Inl e)"
  "ac_catch k h mo = (case k mo of (mo', Inl e) \<Rightarrow> h e mo' | (mo', Inr a) \<Rightarrow> (mo', Inr a))"
  by (simp_all add: ac_with_db_def ac_put_db_def ac_return_def ac_throw_def ac_catch_def)

lemmas ac_eval = ac_bind_eval attempt_eval ac_final_eval

section \<open>Ignored messages\<close>

definition ignorable :: "monitor_error \<Rightarrow> bool" where
  "ignorable e \<longleftrightarrow> handle_ipc_msg_error e = ac_return ()"

lemma ac_return_neq_throw: "(ac_return a :: 'a action) \<noteq> ac_throw e"
proof
  assume "(ac_return a :: 'a action) = ac_throw e"
  then have "(ac_return a :: 'a action) undefined = ac_throw e undefined" by simp
  then show False by (simp add: ac_return_def ac_throw_def)
qed

lemma ignorable_simps [simp]:
  "ignorable (IpcMsgInvalid e)" "ignorable (IpcTxInvalid s)"
  "ignorable (IpcMsgProcessingError (IpcValidateError v))"
  "\<not> ignorable (IpcMsgProcessingError (Panic p))"
  by (simp_all add: ignorable_def ac_return_neq_throw [symmetric])

lemma handle_Inr: "handle_ipc_msg_error e mo = (mo', Inr ()) \<Longrightarrow> ignorable e \<and> mo' = mo"
  by (cases e rule: handle_ipc_msg_error.cases) (auto simp: ac_return_def ac_throw_def ignorable_def)

lemma handle_Inl: "handle_ipc_msg_error e mo = (mo', Inl e') \<Longrightarrow> \<not> ignorable e \<and> mo' = mo \<and> e' = e"
  using ac_return_neq_throw
  by (cases e rule: handle_ipc_msg_error.cases) (auto simp: ac_return_def [abs_def] ac_throw_def ignorable_def fun_eq_iff)

definition clean :: "'a action \<Rightarrow> monitor \<Rightarrow> bool" where
  "clean f mo \<longleftrightarrow> (\<forall>mo' e. f mo = (mo', Inl e) \<longrightarrow> ignorable e \<longrightarrow> mo' = mo)"

definition unfailing :: "'a action \<Rightarrow> monitor \<Rightarrow> bool" where
  "unfailing f mo \<longleftrightarrow> (\<forall>mo' e. f mo = (mo', Inl e) \<longrightarrow> \<not> ignorable e)"

lemma clean_bind_res: "(\<And>a. r = Inr a \<Longrightarrow> clean (g a) mo) \<Longrightarrow> clean (ac_bind (ac_res f r) g) mo"
  using ac_res_cases [of r f mo] by (auto simp: clean_def ac_bind_def)

lemma clean_unfailing: "unfailing f mo \<Longrightarrow> clean f mo"
  by (auto simp: clean_def unfailing_def)

lemma unfailing_bind:
  "unfailing f mo \<Longrightarrow> (\<And>a mo'. f mo = (mo', Inr a) \<Longrightarrow> unfailing (g a) mo') \<Longrightarrow> unfailing (ac_bind f g) mo"
  by (auto simp: unfailing_def ac_bind_def split: prod.splits sum.splits)

lemma clean_simple [simp]:
  "clean (ac_throw e) mo" "clean (ac_with_db f) mo = clean (f (mo_db mo)) mo"
  "unfailing (ac_return a) mo" "unfailing (ac_put_db db) mo" "unfailing (ac_with_db f) mo = unfailing (f (mo_db mo)) mo"
  "unfailing (import_watchonly_address x l t) mo"
  by (auto simp: clean_def unfailing_def ac_throw_def ac_with_db_def ac_return_def ac_put_db_def import_watchonly_address_def)

lemma clean_put [simp]: "clean (ac_put_db db) mo"
  by (simp add: clean_unfailing)

lemma clean_put_bind: "(\<And>mo'. unfailing (g ()) mo') \<Longrightarrow> clean (ac_bind (ac_put_db db) g) mo"
  by (intro clean_unfailing unfailing_bind) auto

lemma clean_save: "clean (ac_save handler) mo"
  by (auto simp: ac_save_def intro!: clean_bind_res)

lemma whitelist_label_panics:
  "whitelist_address_label X g = Inl e \<Longrightarrow> \<exists>s. e = DbPanic s"
  by (cases "create_subnet_multisig_address X (gi_subnet_id g) (whitelist_weighted_keys (gi_create_subnet_msg g))
      (ucast (cr_min_validators (gi_create_subnet_msg g)))")
    (auto simp: whitelist_address_label_def genesis_multisig_address_def)

lemma unfailing_reward [simp]: "unfailing (reward_checkpoint X h sid cp) mo"
  by (auto simp: unfailing_def reward_checkpoint_def reward_result_def ac_throw_def ac_return_def
      split: option.splits sum.splits reward_tracker_error.splits)

lemma checkpoint_keeps_subnet:
  assumes "ext_ok X" "db_ok db" "checkpoint_save_to_db X db h bh tid m = Inr (db', cp)"
  shows "\<exists>s. get_subnet_state X db' (ck_subnet_id m) = Some s"
proof -
  from assms(3) obtain s sc where "case sc of
        None \<Rightarrow> db' = save_checkpoint X (ck_subnet_id m) cp (cp_checkpoint_number cp)
            (save_subnet_state X (ck_subnet_id m) (checkpoint_state s sc (cp_checkpoint_number cp) h m) db)
      | Some c \<Rightarrow> (\<exists>l conf. confirm_stake_changes X db (ck_subnet_id m) (ck_next_committee_configuration_number m) h bh
          (save_committee X (ck_subnet_id m) (ss_committee_number s + 1) (sc_committee_after_change c)
            (save_checkpoint X (ck_subnet_id m) cp (cp_checkpoint_number cp)
              (save_subnet_state X (ck_subnet_id m) (checkpoint_state s sc (cp_checkpoint_number cp) h m) db)))
          = (db', l, conf))" by (rule checkpoint_save_Inr)
  then have "subnet_db db' = subnet_db (save_subnet_state X (ck_subnet_id m) (checkpoint_state s sc (cp_checkpoint_number cp) h m) db)"
      "monitor_info db' = monitor_info db"
    by (auto split: option.splits dest!: confirm_only_stake_changes) (simp_all add: save_defs)
  then show ?thesis
    using get_save_subnet_state [OF assms(1,2), of "ck_subnet_id m" _ "ck_subnet_id m"] by (simp add: get_subnet_state_def)
qed

lemma clean_msg:
  assumes "ext_ok X" "db_ok (mo_db mo)"
  shows "clean (process_ipc_msg X h bh t tx tid msg) mo"
proof (cases msg)
  case (CreateSubnet m)
  have u: "unfailing (ac_bind (ac_res (\<lambda>e. IpcMsgProcessingError (ipc_from_db e)) (whitelist_address_label X g))
      (\<lambda>(a, label). import_watchonly_address a label t)) mo'" for g mo'
    using ac_res_cases [of "whitelist_address_label X g" "\<lambda>e. IpcMsgProcessingError (ipc_from_db e)" mo']
    by (auto simp: unfailing_def ac_bind_def import_watchonly_address_def dest!: whitelist_label_panics split: prod.splits)
  show ?thesis
    using CreateSubnet u
    by (auto simp: process_ipc_msg_def process_create_def intro!: clean_bind_res clean_put_bind)
next
  case (JoinSubnet m)
  then show ?thesis
    by (auto simp: process_ipc_msg_def process_join_def Let_def split: list.splits option.splits prod.splits
        intro!: clean_bind_res clean_put_bind)
next
  case (CheckpointSubnet m)
  have "unfailing (ac_bind (ac_put_db db') (\<lambda>_.
     ac_bind (ac_with_db (\<lambda>db. ac_put_db (save_transaction X tx db))) (\<lambda>_.
     ac_bind (if cp_signed_committee_number cp \<noteq> cp_next_committee_number cp
              then ac_with_db (\<lambda>db.
                   ac_bind (ac_res IpcMsgInvalid (ok_or (get_subnet_state X db (ck_subnet_id m))
                     (InvalidMsg ''Could not fetch subnet id after a checkpoint''))) (\<lambda>subnet.
                   let (a, label) = committee_address_label X subnet in import_watchonly_address a label t))
              else ac_return ()) (\<lambda>_.
     reward_checkpoint X h (ck_subnet_id m) cp)))) mo"
    if sv: "checkpoint_save_to_db X (mo_db mo) h bh tid m = Inr (db', cp)" for db' cp
  proof -
    obtain s where "get_subnet_state X db' (ck_subnet_id m) = Some s"
      using checkpoint_keeps_subnet [OF assms sv] by blast
    then have "get_subnet_state X (save_transaction X tx db') (ck_subnet_id m) = Some s"
      by (simp add: get_subnet_state_def save_transaction_def)
    then show ?thesis
      by (auto simp: ac_bind_def ac_put_db_def ac_with_db_def ac_return_def ac_res_def import_watchonly_address_def
          unfailing_def unfailing_reward [unfolded unfailing_def] split: prod.splits sum.splits if_splits)
  qed
  note this [THEN clean_unfailing]
  then show ?thesis
    unfolding CheckpointSubnet process_ipc_msg_def process_checkpoint_def
    by (auto intro!: clean_bind_res)
qed (auto simp: process_ipc_msg_def process_prefund_def process_fund_def process_stake_def process_unstake_def
    process_kill_def process_batch_def intro!: clean_bind_res clean_save)

text \<open>
  C17. A message that the monitor ignores (its validation, or the validation inside its handler, rejects
  it) leaves no trace: the database, the height and the queue of side effects are as before.
\<close>

theorem ignored_message_leaves_no_trace:
  assumes "ext_ok (en_ext E)" "db_ok (mo_db mo)"
    and "process_ipc_msg (en_ext E) h bh t tx (compute_txid (en_ext E) tx) msg mo = (mo', Inl e)"
    and "run_msg E h bh t tx msg mo = (mo'', Inr ())"
  shows "mo'' = mo"
proof -
  have "handle_ipc_msg_error e mo' = (mo'', Inr ())" using assms(3,4) by (simp add: run_msg_def ac_catch_def)
  then have "ignorable e" "mo'' = mo'" using handle_Inr by blast+
  then show ?thesis using clean_msg [OF assms(1,2)] assms(3) unfolding clean_def by blast
qed

section \<open>A fatal error in a block\<close>

text \<open>No handler touches the record of the last processed block.\<close>

lemma ledger_only_monitor: "ledger_only txn s \<Longrightarrow> monitor_info s = monitor_info txn"
  unfolding ledger_only_def by (metis heed_db.select_convs(1) heed_db.update_convs(5,12) heed_db.surjective)

lemma handlers_keep_monitor_info:
  "res_db (create_save_to_db X db h tid cm) = Inr db' \<Longrightarrow> monitor_info db' = monitor_info db"
  "prefund_save_to_db X db h tid pm = Inr db' \<Longrightarrow> monitor_info db' = monitor_info db"
  "fund_save_to_db X db h bh tid fm = Inr db' \<Longrightarrow> monitor_info db' = monitor_info db"
  "stake_save_to_db X db h bh tid sm = Inr db' \<Longrightarrow> monitor_info db' = monitor_info db"
  "unstake_save_to_db X db h bh tid um = Inr db' \<Longrightarrow> monitor_info db' = monitor_info db"
  by (auto simp: res_db_Inr create_save_to_db_def prefund_save_to_db_def fund_save_to_db_def stake_save_to_db_def
      unstake_save_to_db_def Let_def res_simps save_defs)

lemma kill_keeps_monitor_info: "kill_save_to_db X db h bh tid m = Inr db' \<Longrightarrow> monitor_info db' = monitor_info db"
  by (auto simp: kill_save_to_db_def Let_def res_simps save_defs split: if_splits)

lemma join_keeps_monitor_info: "res_db (join_save_to_db X db h bh tid m) = Inr db' \<Longrightarrow> monitor_info db' = monitor_info db"
  by (auto simp: res_db_Inr join_save_to_db_def join_post_bootstrap_def join_pre_bootstrap_def Let_def res_simps save_defs
      split: option.splits if_splits)

lemma checkpoint_keeps_monitor_info:
  assumes "res_db (checkpoint_save_to_db X db h bh tid m) = Inr db'"
  shows "monitor_info db' = monitor_info db"
proof -
  from assms obtain cp where "checkpoint_save_to_db X db h bh tid m = Inr (db', cp)" by (auto simp: res_db_Inr)
  then obtain s sc where "case sc of
        None \<Rightarrow> db' = save_checkpoint X (ck_subnet_id m) cp (cp_checkpoint_number cp)
            (save_subnet_state X (ck_subnet_id m) (checkpoint_state s sc (cp_checkpoint_number cp) h m) db)
      | Some c \<Rightarrow> (\<exists>l conf. confirm_stake_changes X db (ck_subnet_id m) (ck_next_committee_configuration_number m) h bh
          (save_committee X (ck_subnet_id m) (ss_committee_number s + 1) (sc_committee_after_change c)
            (save_checkpoint X (ck_subnet_id m) cp (cp_checkpoint_number cp)
              (save_subnet_state X (ck_subnet_id m) (checkpoint_state s sc (cp_checkpoint_number cp) h m) db)))
          = (db', l, conf))" by (rule checkpoint_save_Inr)
  then show ?thesis
    by (auto split: option.splits dest!: confirm_only_stake_changes) (simp_all add: save_defs)
qed

lemma batch_keeps_monitor_info:
  assumes "res_db (batch_save_to_db X db h bh tid m) = Inr db'"
  shows "monitor_info db' = monitor_info db"
proof -
  from assms obtain cp where "batch_save_to_db X db h bh tid m = Inr (db', cp)" by (auto simp: res_db_Inr)
  then obtain n where "batch_apply X db h bh tid m (save_checkpoint X (bt_subnet_id m) cp (n + 1) db) = Inr db'"
    by (rule batch_save_Inr)
  from ledger_only_monitor [OF batch_apply_frame [OF this]] show ?thesis by (simp add: save_checkpoint_def)
qed

lemmas monitor_info_frame = handlers_keep_monitor_info kill_keeps_monitor_info join_keeps_monitor_info
  checkpoint_keeps_monitor_info batch_keeps_monitor_info

definition at_height :: "u64 \<Rightarrow> u64 kv \<Rightarrow> monitor \<Rightarrow> bool" where
  "at_height c i mo \<longleftrightarrow> mo_current_height mo = c \<and> monitor_info (mo_db mo) = i"

lemma put_keeps_height:
  "monitor_info db = monitor_info (mo_db mo) \<Longrightarrow> moves (at_height c i) (ac_put_db db) mo"
  by (simp add: moves_def ac_put_db_def at_height_def)

lemma import_keeps_height [simp]: "moves (at_height c i) (import_watchonly_address a l t) mo"
  by (simp add: moves_def import_watchonly_address_def at_height_def)

lemma reward_keeps_height [simp]: "moves (at_height c i) (reward_checkpoint X h sid cp) mo"
proof -
  have "monitor_info db' = monitor_info db" if "update_after_checkpoint X cfg h sid cp db = Inr db'" for cfg db db'
    using that by (auto simp: update_after_checkpoint_def res_simps put_reward_candidate_info_def
        delete_reward_candidate_info_def split: option.splits if_splits)
  then show ?thesis
    by (auto simp: moves_def reward_checkpoint_def at_height_def split: option.splits sum.splits)
qed

lemma save_keeps_height:
  "(\<And>db'. handler (mo_db mo) = Inr db' \<Longrightarrow> monitor_info db' = monitor_info (mo_db mo)) \<Longrightarrow>
     moves (at_height c i) (ac_save handler) mo"
  by (rule moves_save) (simp add: at_height_def)

lemma process_ipc_msg_height: "moves (at_height c i) (process_ipc_msg X h bh t tx tid msg) mo"
proof (cases msg)
  case (CreateSubnet m)
  then show ?thesis
    using monitor_info_frame(1) [of X "mo_db mo" h tid m]
    by (auto simp: process_ipc_msg_def process_create_def res_db_Inr intro!: moves_bind_res moves_bind put_keeps_height)
next
  case (JoinSubnet m)
  then show ?thesis
    using join_keeps_monitor_info [of X "mo_db mo" h bh tid]
    by (auto simp: process_ipc_msg_def process_join_def Let_def res_db_Inr split: list.splits option.splits prod.splits
        intro!: moves_bind_res moves_bind put_keeps_height)
next
  case (CheckpointSubnet m)
  then show ?thesis
    using checkpoint_keeps_monitor_info [of X "mo_db mo" h bh tid m]
    by (auto simp: process_ipc_msg_def process_checkpoint_def Let_def res_db_Inr save_transaction_def split: prod.splits
        intro!: moves_bind_res moves_bind put_keeps_height)
qed (auto simp: process_ipc_msg_def process_prefund_def process_fund_def process_stake_def process_unstake_def
    process_kill_def process_batch_def intro!: moves_bind_res save_keeps_height intro: monitor_info_frame)

lemma moves_catch:
  "moves P f mo \<Longrightarrow> (\<And>e mo'. f mo = (mo', Inl e) \<Longrightarrow> moves P (g e) mo') \<Longrightarrow> moves P (ac_catch f g) mo"
  by (auto simp: moves_def ac_catch_def split: prod.splits sum.splits)

lemma moves_each: "(\<And>x mo. moves P (f x) mo) \<Longrightarrow> moves P (ac_each f xs) mo"
  by (induction xs arbitrary: mo) (simp_all add: moves_bind)

lemma moves_attempt: "(\<And>m. moves P (f m) mo) \<Longrightarrow> moves P g mo \<Longrightarrow> moves P (attempt r f g) mo"
  by (auto simp: attempt_def split: sum.splits ipc_lib_error.splits)

lemma moves_handle: "moves P (handle_ipc_msg_error e) mo"
  by (cases e rule: handle_ipc_msg_error.cases) simp_all

lemma run_msg_height: "moves (at_height c i) (run_msg E h bh t tx m) mo"
  unfolding run_msg_def by (intro moves_catch moves_handle process_ipc_msg_height)

lemma process_transaction_height: "moves (at_height c i) (process_transaction E h bh t tx) mo"
proof -
  have "moves (at_height c i) (process_witness E h bh t tx w) mo" for w mo
    by (simp add: process_witness_def run_msg_height split: sum.splits)
  moreover have "moves (at_height c i) (process_outputs E h bh t tx) mo" for mo
    unfolding process_outputs_def Let_def moves_simple(3)
    by (intro moves_attempt run_msg_height moves_simple(1))
  ultimately show ?thesis unfolding process_transaction_def by (intro moves_bind moves_each)
qed

lemma process_block_height: "moves (at_height c i) (process_block_data E h b) mo"
  unfolding process_block_data_def by (intro moves_each process_transaction_height)

lemma ac_each_append: "ac_each f (xs @ ys) mo = ac_bind (ac_each f xs) (\<lambda>_. ac_each f ys) mo"
  by (induction xs arbitrary: mo) (simp_all add: ac_bind_def ac_return_def split: prod.splits sum.splits)

text \<open>
  C18. When a transaction of a block ends in a fatal error, the block fails with that error, the last
  processed block and the current height stay where they were, but what the transactions before it
  committed stays in the database.  The next attempt reads the same height again and starts the block
  from its first transaction, on the changed database.
\<close>

theorem failed_block_keeps_partial_work:
  assumes "bl_txdata b = pre @ tx # post"
    and "ac_each (process_transaction E h (bl_hash b) (bl_time b)) pre mo = (mo1, Inr ())"
    and "process_transaction E h (bl_hash b) (bl_time b) tx mo1 = (mo2, Inl e)"
  shows "finish_block E h b mo = (mo2, Inl e) \<and> mo_current_height mo2 = mo_current_height mo
     \<and> get_last_processed_block (mo_db mo2) = get_last_processed_block (mo_db mo)"
proof -
  have d: "process_block_data E h b mo = (mo2, Inl e)"
    using assms by (simp add: process_block_data_def ac_each_append ac_bind_def)
  moreover have "at_height (mo_current_height mo) (monitor_info (mo_db mo)) (fst (process_block_data E h b mo))"
    using process_block_height [of "mo_current_height mo" "monitor_info (mo_db mo)" E h b mo]
    by (simp add: moves_def at_height_def)
  ultimately show ?thesis
    by (simp add: finish_block_def ac_bind_def at_height_def get_last_processed_block_def)
qed

lemma fund_tx_step:
  assumes "concat (map witness (inputs tx)) = []" "prefund_from_tx (en_ext E) tx = Inl (MsgParseError a b)"
    and "fund_from_tx (en_ext E) tx = Inr m" "fm_amount m \<noteq> 0"
    and "get_subnet_state (en_ext E) (mo_db mo) (fm_subnet_id m) = Some s" "\<not> is_killed_or_pending s"
  shows "process_transaction E h bh t tx mo = (mo\<lparr> mo_db := add_rootnet_msg (en_ext E) (fm_subnet_id m)
      (FundSubnet m h bh (get_next_rootnet_msg_nonce (en_ext E) (mo_db mo) (fm_subnet_id m)) (compute_txid (en_ext E) tx))
      (mo_db mo) \<rparr>, Inr ())"
  using assms(2-6) unfolding process_transaction_def assms(1) ac_each.simps
  by (simp add: process_outputs_def Let_def ac_eval run_msg_def process_ipc_msg_def process_fund_def
      fund_validate_def ac_save_def fund_save_to_db_def fund_validate_for_subnet_def)

text \<open>
  A fund transaction is not idempotent: each time its block is processed it adds one more fund
  message, with the next nonce, although the transaction is the same.
\<close>

theorem reprocessed_fund_is_credited_again:
  assumes "ext_ok (en_ext E)" "db_inv (en_ext E) (mo_db mo)"
    and "concat (map witness (inputs tx)) = []" "prefund_from_tx (en_ext E) tx = Inl (MsgParseError a b)"
    and "fund_from_tx (en_ext E) tx = Inr m" "fm_amount m \<noteq> 0"
    and "get_subnet_state (en_ext E) (mo_db mo) (fm_subnet_id m) = Some s" "\<not> is_killed_or_pending s"
    and "rootnet_room (en_ext E) (fm_subnet_id m) 2 (mo_db mo)"
  shows "\<exists>mo1 mo2 n. process_transaction E h bh t tx mo = (mo1, Inr ()) \<and> process_transaction E h bh t tx mo1 = (mo2, Inr ())
     \<and> get_rootnet_msg (en_ext E) (mo_db mo2) (fm_subnet_id m) n
         = Some (FundSubnet m h bh n (compute_txid (en_ext E) tx))
     \<and> get_rootnet_msg (en_ext E) (mo_db mo2) (fm_subnet_id m) (n + 1)
         = Some (FundSubnet m h bh (n + 1) (compute_txid (en_ext E) tx))"
proof -
  let ?X = "en_ext E" and ?sid = "fm_subnet_id m" and ?tid = "compute_txid (en_ext E) tx"
  have sid: "native_id ?sid" using db_inv_state [OF assms(1,2,7)] by (auto simp: state_ok_def)
  obtain k where k: "dense_rootnet ?X ?sid k (mo_db mo)"
    using assms(2) sid unfolding db_inv_def rootnet_inv_def by blast
  have room: "k + 2 \<le> 2 ^ 64" using rootnet_room_dense [OF assms(1) sid assms(9) k] .
  note step = fund_tx_step [OF assms(3-6) _ assms(8), of _ h bh t]
  let ?n = "of_nat k :: u64"
  let ?db1 = "add_rootnet_msg ?X ?sid (FundSubnet m h bh ?n ?tid) (mo_db mo)"
  let ?db2 = "add_rootnet_msg ?X ?sid (FundSubnet m h bh (?n + 1) ?tid) ?db1"
  have "dense_rootnet ?X ?sid (Suc k) ?db1"
    using rootnet_log.dense_append [of ?X ?sid 0 k "rootnet_msgs_db (mo_db mo)" "FundSubnet m h bh ?n ?tid"] assms(1) sid k room
    by (simp add: add_rootnet_msg_def)
  then have n1: "get_next_rootnet_msg_nonce ?X ?db1 ?sid = ?n + 1"
    using next_rootnet_nonce(2) [OF assms(1) sid] by (simp add: add.commute)
  have n0: "get_next_rootnet_msg_nonce ?X (mo_db mo) ?sid = ?n"
    using next_rootnet_nonce(2) [OF assms(1) sid k] .
  have one: "process_transaction E h bh t tx mo = (mo\<lparr> mo_db := ?db1 \<rparr>, Inr ())"
    using step [OF assms(7)] n0 by simp
  have "get_subnet_state ?X ?db1 ?sid = Some s" using assms(7) by (simp add: get_subnet_state_def add_rootnet_msg_def)
  then have two: "process_transaction E h bh t tx (mo\<lparr> mo_db := ?db1 \<rparr>) = (mo\<lparr> mo_db := ?db2 \<rparr>, Inr ())"
    using step [of "mo\<lparr> mo_db := ?db1 \<rparr>"] n1 by simp
  have "db_ok (mo_db mo)" using assms(2) by (rule db_inv_ok)
  then have "get_rootnet_msg ?X ?db2 ?sid ?n = Some (FundSubnet m h bh ?n ?tid)"
    "get_rootnet_msg ?X ?db2 ?sid (?n + 1) = Some (FundSubnet m h bh (?n + 1) ?tid)"
    using assms(1) by (simp_all add: get_add_rootnet_msg)
  with one two show ?thesis by fastforce
qed

lemma unstake_all_panics:
  assumes "get_subnet_genesis_info (en_ext E) (mo_db mo) sid = Some g" "gi_subnet_id g = sid"
    and "get_subnet_state (en_ext E) (mo_db mo) sid = Some s" "ss_id s = sid" "\<not> is_killed_or_pending s"
    and "ss_waiting_committee s = None" "cm_validators (ss_committee s) = [v]"
    and "um_subnet_id m = sid" "sid \<noteq> subnet_id_default" "um_pubkey m = Some (v_pubkey v)"
    and "um_amount m = v_collateral v" "v_collateral v \<noteq> 0"
  shows "\<exists>p. run_msg E h bh t tx (UnstakeCollateral m) mo = (mo, Inl (IpcMsgProcessingError (Panic p)))"
proof -
  let ?X = "en_ext E"
  have lc: "latest_committee s = ss_committee s" using assms(6) by (simp add: latest_committee_def)
  have f: "find_validator (latest_committee s) (v_pubkey v) = Some v" using assms(7) lc by (simp add: find_validator_def)
  have tc: "state_total_collateral s = Inr (v_collateral v)"
    using assms(7) unsigned_less [of "v_collateral v", where ?'a = nat]
    by (simp add: state_total_collateral_def word_checked_add_def)
  have c: "collateral_to_power 0 min_stake = Inl InsufficientCollateral \<or> collateral_to_power 0 min_stake = Inr 0" for min_stake
    by (auto simp: collateral_to_power_def Let_def word_less_nat_alt)
  have sub: "word_checked_sub (v_collateral v) (v_collateral v) = Some 0" by (simp add: word_checked_sub_def)
  have ok: "unstake_validate_for_subnet m g s = Inr ()"
    using c [of "cr_min_validator_stake (gi_create_subnet_msg g)"] assms(2,4,5,7,8,10,11) f tc sub lc
    by (auto simp: unstake_validate_for_subnet_def committee_is_validator_def)
  have rm: "committee_remove_validator ?X sid (v_pubkey v) (latest_committee s) = Inl (DbPanic ''Multisig address should be valid'')"
    using validators_address_panics [of "[]" ?X sid] assms(7) lc
    by (simp add: committee_remove_validator_def validators_remove_validator_def validators_total_power_def)
  have un: "\<exists>po. unstaked_power 0 (cr_min_validator_stake (gi_create_subnet_msg g)) = Inr po
      \<and> unstake_committee ?X sid v 0 po (latest_committee s) = Inl (DbPanic ''Multisig address should be valid'')"
    using c [of "cr_min_validator_stake (gi_create_subnet_msg g)"] rm by (auto simp: unstaked_power_def unstake_committee_def)
  then have "unstake_save_to_db ?X (mo_db mo) h bh (compute_txid ?X tx) m = Inl (Panic ''Multisig address should be valid'')"
    using assms(1,3,8,10,11) ok f sub by (auto simp: unstake_save_to_db_def)
  then show ?thesis
    using assms(8,9,11,12)
    by (simp add: run_msg_def process_ipc_msg_def process_unstake_def unstake_validate_def ac_eval ac_save_def)
qed

text \<open>
  A validator that is alone in its committee and unstakes all of its collateral stops the monitor:
  the request passes every check, the address of the empty committee is computed and that panics.  The
  error is not one of those that are ignored, so the block is not marked as processed.
\<close>

theorem last_unstake_stops_monitor:
  assumes "get_subnet_genesis_info (en_ext E) (mo_db mo) sid = Some g" "gi_subnet_id g = sid"
    and "get_subnet_state (en_ext E) (mo_db mo) sid = Some s" "ss_id s = sid" "\<not> is_killed_or_pending s"
    and "ss_waiting_committee s = None" "cm_validators (ss_committee s) = [v]"
    and "um_subnet_id m = sid" "sid \<noteq> subnet_id_default" "um_pubkey m = Some (v_pubkey v)"
    and "um_amount m = v_collateral v" "v_collateral v \<noteq> 0"
  shows "\<exists>p. run_msg E h bh t tx (UnstakeCollateral m) mo = (mo, Inl (IpcMsgProcessingError (Panic p)))"
  by (rule unstake_all_panics [OF assms])

section \<open>Catching up\<close>

lemma config_frame: "moves (\<lambda>mo. mo_sync_batch_size mo = n \<and> mo_reward_tracker mo = rt) (process_ipc_msg X h bh t tx tid msg) mo"
proof -
  let ?P = "\<lambda>mo. mo_sync_batch_size mo = n \<and> mo_reward_tracker mo = rt"
  have put: "moves ?P (ac_put_db db) mo" and imp: "moves ?P (import_watchonly_address a l t) mo"
    and sav: "moves ?P (ac_save f) mo" and rew: "moves ?P (reward_checkpoint X h sid cp) mo" for mo db a l f sid cp
    by (auto simp: moves_def ac_put_db_def import_watchonly_address_def ac_save_def ac_bind_def ac_with_db_def ac_res_def
        ac_throw_def ac_return_def reward_checkpoint_def split: sum.splits option.splits)
  show ?thesis
    by (cases msg)
      (auto simp: process_ipc_msg_def process_create_def process_join_def process_prefund_def process_fund_def
        process_checkpoint_def process_batch_def process_stake_def process_unstake_def process_kill_def Let_def
        put imp sav rew split: list.splits option.splits prod.splits intro!: moves_bind_res moves_bind)
qed

lemma moves_block_data:
  assumes "\<And>h bh t tx tid msg mo. moves P (process_ipc_msg (en_ext E) h bh t tx tid msg) mo"
  shows "moves P (process_block_data E h b) mo"
proof -
  have r: "moves P (run_msg E h bh t tx m) mo" for h bh t tx m mo
    unfolding run_msg_def by (intro moves_catch moves_handle assms)
  have w: "moves P (process_witness E h bh t tx w) mo" for h bh t tx w mo
    by (simp add: process_witness_def r split: sum.splits)
  have o: "moves P (process_outputs E h bh t tx) mo" for h bh t tx mo
    unfolding process_outputs_def Let_def moves_simple(3) by (intro moves_attempt r moves_simple(1))
  show ?thesis
    unfolding process_block_data_def process_transaction_def by (intro moves_each moves_bind w o)
qed

lemma reward_block_frame:
  assumes "reward_block E h mo = (mo', r)"
  shows "mo_sync_batch_size mo' = mo_sync_batch_size mo" "mo_reward_tracker mo' = mo_reward_tracker mo"
    "monitor_info (mo_db mo') = monitor_info (mo_db mo)"
proof -
  have st: "monitor_info (start_snapshot X n a b db) = monitor_info db" for X n a b db
  proof -
    have "monitor_info (fold (\<lambda>s txn. put_reward_candidate_info X n (ss_id s) (i s) txn) ss txn) = monitor_info txn" for i ss txn
      by (induction ss arbitrary: txn) (simp_all add: put_reward_candidate_info_def)
    then show ?thesis by (simp add: start_snapshot_def)
  qed
  have en: "end_snapshot X ord n db = Inr db' \<Longrightarrow> monitor_info db' = monitor_info db" for X ord n db db'
    by (auto simp: end_snapshot_def Let_def res_simps put_snapshot_result_def)
  have "monitor_info (fst (update_after_block X ord cfg h db)) = monitor_info db" for X ord cfg db
    using st en by (auto simp: update_after_block_def Let_def split: option.splits prod.splits sum.splits)
  moreover have "mo' = fst (reward_block E h mo)" using assms by simp
  ultimately show "mo_sync_batch_size mo' = mo_sync_batch_size mo" "mo_reward_tracker mo' = mo_reward_tracker mo"
    "monitor_info (mo_db mo') = monitor_info (mo_db mo)"
    by (auto simp: reward_block_def split: option.splits prod.splits) (metis fst_conv)
qed

lemma finish_block_advances:
  assumes "finish_block E h b mo = (mo', Inr ())" "kv_ok (monitor_info (mo_db mo))"
  shows "mo_current_height mo' = h \<and> get_last_processed_block (mo_db mo') = h
     \<and> kv_ok (monitor_info (mo_db mo')) \<and> mo_sync_batch_size mo' = mo_sync_batch_size mo
     \<and> mo_reward_tracker mo' = mo_reward_tracker mo"
proof -
  from assms(1) obtain mo1 where p: "process_block_data E h b mo = (mo1, Inr ())"
    and r: "reward_block E h (mo1\<lparr> mo_current_height := h, mo_db := set_last_processed_block h (mo_db mo1) \<rparr>) = (mo', Inr ())"
    by (auto simp: finish_block_def ac_bind_Inr advance_def)
  have "monitor_info (mo_db mo1) = monitor_info (mo_db mo)"
    using process_block_height [of "mo_current_height mo" "monitor_info (mo_db mo)" E h b mo] p
    by (simp add: moves_def at_height_def)
  moreover have "mo_sync_batch_size mo1 = mo_sync_batch_size mo \<and> mo_reward_tracker mo1 = mo_reward_tracker mo"
    using moves_block_data [OF config_frame, of "mo_sync_batch_size mo" "mo_reward_tracker mo" E h b mo] p by (simp add: moves_def)
  ultimately show ?thesis
    using reward_block_frame [OF r] finish_block_height [OF assms(1)] assms(2)
    by (simp add: set_last_processed_block_def get_last_processed_block_def akv.ok_put akv.get_put)
qed

section \<open>Concrete runs\<close>

definition demo_env :: env where
  "demo_env = \<lparr> en_ext = demo_ext, en_codec = demo_codec, en_order = id, en_network = Regtest,
     en_block = (\<lambda>h. Inr \<lparr> bl_hash = [1], bl_time = 0, bl_txdata = [] \<rparr>), en_cancelled = (\<lambda>h. False),
     en_imported = (\<lambda>a. False), en_import = (\<lambda>p. ImportOk) \<rparr>"

definition demo_fund_msg :: ipc_fund_subnet_msg where
  "demo_fund_msg = \<lparr> fm_subnet_id = demo_id, fm_amount = 5, fm_address = replicate 20 3 \<rparr>"

text \<open>A fund transaction: no other parser of the outputs accepts it.\<close>

lemma demo_fund_tx:
  obtains tx where "inputs tx = []" "fund_from_tx demo_ext tx = Inr demo_fund_msg"
    "\<exists>a b. prefund_from_tx demo_ext tx = Inl (MsgParseError a b)"
proof -
  let ?tx = "create_tx_from_txouts [data_tx_out demo_ext 1000 (tag_bytes FundSubnetTag @ replicate 20 7 @ replicate 20 3),
      \<lparr> txo_value = 5, txo_script = address_script demo_ext ''bcrt1p'' \<rparr>]"
  have p: "message_payload demo_ext t 2 46 ?tx = (if t = FundSubnetTag then Inr (replicate 20 7 @ replicate 20 3)
      else Inl (parse_err t ''Invalid tag''))" for t
    using op_return_data_make [OF demo_ext_ok, of "tag_bytes FundSubnetTag @ replicate 20 7 @ replicate 20 3"]
    by (auto simp: message_payload_def create_tx_from_txouts_def data_tx_out_def Let_def IPC_TAG_LENGTH_def)
  have "txo_value (outputs ?tx ! 1) = 5" by (simp add: create_tx_from_txouts_def)
  then have "fund_from_tx demo_ext ?tx = Inr demo_fund_msg"
    unfolding fund_from_tx_def by (simp add: p txid20_from_slice_def SUBNET_ID_INNER_LEN_def demo_fund_msg_def demo_id_def)
  moreover have "prefund_from_tx demo_ext ?tx = Inl (MsgParseError (ipc_tag_as_str PrefundSubnetTag) ''Invalid tag'')"
    by (simp add: prefund_from_tx_def p)
  moreover have "inputs ?tx = []" by (simp add: create_tx_from_txouts_def)
  ultimately show thesis using that by blast
qed

definition demo_monitor :: "heed_db \<Rightarrow> monitor" where
  "demo_monitor db = monitor_new db 3"

lemma demo_monitor_db [simp]: "mo_db (demo_monitor db) = db"
  by (simp add: demo_monitor_def monitor_new_def)

lemma demo_env_ext [simp]: "en_ext demo_env = demo_ext"
  by (simp add: demo_env_def)

theorem reprocessed_fund_is_credited_again_witness:
  "\<exists>tx mo mo1 mo2 n. process_transaction demo_env 200 [] 0 tx mo = (mo1, Inr ())
     \<and> process_transaction demo_env 200 [] 0 tx mo1 = (mo2, Inr ())
     \<and> get_rootnet_msg demo_ext (mo_db mo2) demo_id n \<noteq> None \<and> get_rootnet_msg demo_ext (mo_db mo2) demo_id (n + 1) \<noteq> None"
proof -
  obtain tx where tx: "inputs tx = []" "fund_from_tx demo_ext tx = Inr demo_fund_msg"
    "\<exists>a b. prefund_from_tx demo_ext tx = Inl (MsgParseError a b)" by (rule demo_fund_tx)
  obtain db s where db: "db_inv demo_ext db" "get_subnet_state demo_ext db demo_id = Some s" "ss_killed s = NotKilled"
    "rootnet_msgs_db db = []" by (rule boot_subnet)
  have room: "rootnet_room demo_ext demo_id 2 db" using db(4) by (simp add: rootnet_room_def kv_prefix_iter_def)
  have alive: "\<not> is_killed_or_pending s" using db(3) by (simp add: is_killed_or_pending_def)
  from tx(3) obtain a b where p: "prefund_from_tx demo_ext tx = Inl (MsgParseError a b)" by blast
  have f: "fm_subnet_id demo_fund_msg = demo_id" "fm_amount demo_fund_msg \<noteq> 0" by (simp_all add: demo_fund_msg_def)
  from reprocessed_fund_is_credited_again [of demo_env "demo_monitor db" tx a b demo_fund_msg s 200 "[]" 0]
  show ?thesis using demo_ext_ok db(1,2) tx(1,2) p f room alive by fastforce
qed

theorem last_unstake_stops_monitor_witness:
  "\<exists>mo m p. run_msg demo_env 200 [] 0 undefined (UnstakeCollateral m) mo = (mo, Inl (IpcMsgProcessingError (Panic p)))"
proof -
  obtain db g s where db: "get_subnet_genesis_info demo_ext db demo_id = Some g" "gi_subnet_id g = demo_id"
    "get_subnet_state demo_ext db demo_id = Some s" "ss_id s = demo_id" "ss_killed s = NotKilled" "ss_waiting_committee s = None"
    "cm_validators (ss_committee s) = [boot_validator]" by (rule boot_subnet)
  have ne: "demo_id \<noteq> subnet_id_default"
    by (simp add: demo_id_def subnet_id_default_def subnet_id_from_txid_def subnet_id_from_txid20_def)
  let ?m = "\<lparr> um_subnet_id = demo_id, um_amount = 50000, um_pubkey = Some (replicate 32 1) \<rparr>"
  have "\<exists>p. run_msg demo_env 200 [] 0 undefined (UnstakeCollateral ?m) (demo_monitor db)
      = (demo_monitor db, Inl (IpcMsgProcessingError (Panic p)))"
    by (rule last_unstake_stops_monitor [where sid = demo_id and g = g and s = s and v = boot_validator])
      (use db ne in \<open>simp_all add: is_killed_or_pending_def boot_validator_def\<close>)
  then show ?thesis by blast
qed

theorem ignored_message_leaves_no_trace_witness:
  "run_msg demo_env 200 [] 0 undefined (FundMsg \<lparr> fm_subnet_id = demo_id, fm_amount = 0, fm_address = [] \<rparr>) (demo_monitor empty_db)
     = (demo_monitor empty_db, Inr ())"
proof -
  let ?msg = "FundMsg \<lparr> fm_subnet_id = demo_id, fm_amount = 0, fm_address = [] \<rparr>"
  have p: "process_ipc_msg demo_ext 200 [] 0 undefined (compute_txid demo_ext undefined) ?msg (demo_monitor empty_db)
      = (demo_monitor empty_db, Inl (IpcMsgInvalid (InvalidField ''value'' ''Value must be greater than 0'')))"
    by (simp add: process_ipc_msg_def process_fund_def fund_validate_def ac_eval)
  then obtain mo'' where r: "run_msg demo_env 200 [] 0 undefined ?msg (demo_monitor empty_db) = (mo'', Inr ())"
    by (simp add: run_msg_def ac_eval)
  have "mo'' = demo_monitor empty_db"
    using ignored_message_leaves_no_trace [of demo_env "demo_monitor empty_db"] demo_ext_ok p r by simp
  then show ?thesis using r by simp
qed

text \<open>An unstake transaction of the whole collateral of the only validator.\<close>

lemma demo_unstake_all:
  assumes "subnet_db db = [(k, s)]" "cm_validators (ss_committee s) = [boot_validator]" "ss_id s = demo_id"
  obtains tx where "concat (map witness (inputs tx)) = []"
    "prefund_from_tx demo_ext tx = Inl (MsgParseError ''IPCPFD'' ''OP_RETURN data length mismatch'')"
    "fund_from_tx demo_ext tx = Inl (MsgParseError ''IPCFND'' ''OP_RETURN data length mismatch'')"
    "\<exists>e. from_checkpoint_tx demo_ext db tx = Inl (MsgParseError ''IPCCPT'' e)"
    "\<exists>e. batch_from_tx demo_ext demo_codec db tx = Inl (MsgParseError ''IPCTFR'' e)"
    "\<exists>e. stake_from_tx demo_ext db tx = Inl (MsgParseError ''IPCSTK'' e)"
    "unstake_from_tx demo_ext db tx = Inr \<lparr> um_subnet_id = demo_id, um_amount = 50000, um_pubkey = Some (replicate 32 1) \<rparr>"
proof -
  let ?u = "\<lparr> um_subnet_id = demo_id, um_amount = 50000, um_pubkey = Some (replicate 32 1) \<rparr>"
  let ?a = "cm_multisig_address (ss_committee s)"
  let ?d = "tag_bytes UnstakeCollateralTag @ demo_sig @ be_bytes 8 (unat (um_amount ?u))"
  define tx where "tx = (signed_tx demo_ext 1000 ?a ?d)\<lparr> inputs := demo_input # [] \<rparr>"
  have g: "get_subnet_by_multisig_address db ?a = Some s" using assms(1) by (simp add: get_subnet_by_multisig_address_def)
  have len: "length ?d = 78" by (simp add: demo_sig_def)
  have p: "message_payload demo_ext t k n tx = Inl (parse_err t (if 2 < k then ''not enough outputs'' else ''OP_RETURN data length mismatch''))"
    if "n \<noteq> 78" for t k n
    using op_return_data_make [OF demo_ext_ok, of ?d] len that
    by (simp add: tx_def message_payload_def signed_tx_def create_tx_from_txouts_def data_tx_out_def Let_def del: append_assoc)
  have c: "message_payload demo_ext CheckpointSubnetTag 1 CHECKPOINT_DATA_LEN tx = Inl (parse_err CheckpointSubnetTag ''Invalid tag'')"
    using op_return_data_make [OF demo_ext_ok, of ?d] len
    by (simp add: tx_def message_payload_def signed_tx_def create_tx_from_txouts_def data_tx_out_def Let_def IPC_TAG_LENGTH_def
        CHECKPOINT_DATA_LEN_def)
  have "unstake_from_tx demo_ext db tx = Inr ?u"
    unfolding tx_def by (rule unstake_tx_back [OF demo_ext_ok g, where v = boot_validator and t = "replicate 20 7"])
      (use assms demo_id_txid20 in \<open>simp_all add: boot_validator_def demo_ext_def demo_sig_def demo_input_def\<close>)
  moreover have "concat (map witness (inputs tx)) = []" by (simp add: tx_def demo_input_def)
  moreover have "prefund_from_tx demo_ext tx = Inl (MsgParseError ''IPCPFD'' ''OP_RETURN data length mismatch'')"
    "fund_from_tx demo_ext tx = Inl (MsgParseError ''IPCFND'' ''OP_RETURN data length mismatch'')"
    unfolding prefund_from_tx_def fund_from_tx_def by (simp_all add: p)
  moreover have "stake_from_tx demo_ext db tx = Inl (MsgParseError ''IPCSTK'' ''OP_RETURN data length mismatch'')"
    unfolding stake_from_tx_def by (simp add: p IPC_TAG_LENGTH_def SCHNORR_PUBLIC_KEY_SIZE_def)
  moreover have "from_checkpoint_tx demo_ext db tx = Inl (MsgParseError ''IPCCPT'' ''Invalid tag'')"
    unfolding from_checkpoint_tx_def c by simp
  moreover have "batch_from_tx demo_ext demo_codec db tx = Inl (MsgParseError ''IPCTFR'' ''Transaction witness is empty'')"
    by (simp add: tx_def batch_from_tx_def demo_input_def Let_def)
  ultimately show thesis using that [of tx] by blast
qed

theorem failed_block_keeps_partial_work_witness:
  "\<exists>mo b mo2 e. finish_block demo_env 200 b mo = (mo2, Inl e) \<and> rootnet_msgs_db (mo_db mo) = []
     \<and> rootnet_msgs_db (mo_db mo2) \<noteq> [] \<and> get_last_processed_block (mo_db mo2) = get_last_processed_block (mo_db mo)"
proof -
  obtain tx1 where tx1: "inputs tx1 = []" "fund_from_tx demo_ext tx1 = Inr demo_fund_msg"
    "\<exists>a b. prefund_from_tx demo_ext tx1 = Inl (MsgParseError a b)" by (rule demo_fund_tx)
  obtain db g s where db: "get_subnet_genesis_info demo_ext db demo_id = Some g" "gi_subnet_id g = demo_id"
    "get_subnet_state demo_ext db demo_id = Some s" "ss_id s = demo_id" "ss_killed s = NotKilled" "ss_waiting_committee s = None"
    "cm_validators (ss_committee s) = [boot_validator]" "rootnet_msgs_db db = []"
    "subnet_db db = [(subnet_state_key demo_ext demo_id, s)]" by (rule boot_subnet)
  have alive: "\<not> is_killed_or_pending s" using db(5) by (simp add: is_killed_or_pending_def)
  let ?msg = "FundSubnet demo_fund_msg 200 [] (get_next_rootnet_msg_nonce demo_ext db demo_id) (compute_txid demo_ext tx1)"
  let ?mo = "demo_monitor db" and ?db1 = "add_rootnet_msg demo_ext demo_id ?msg db"
  let ?mo1 = "?mo\<lparr> mo_db := ?db1 \<rparr>"
  have one: "process_transaction demo_env 200 [] 0 tx1 ?mo = (?mo1, Inr ())"
    using fund_tx_step [of tx1 demo_env _ _ demo_fund_msg ?mo s 200 "[]" 0] tx1 db(3) alive by (auto simp: demo_fund_msg_def)
  have g1: "get_subnet_genesis_info demo_ext ?db1 demo_id = Some g" "get_subnet_state demo_ext ?db1 demo_id = Some s"
    "subnet_db ?db1 = [(subnet_state_key demo_ext demo_id, s)]"
    using db by (simp_all add: get_subnet_genesis_info_def get_subnet_state_def add_rootnet_msg_def)
  obtain tx2 where tx2: "concat (map witness (inputs tx2)) = []"
    "prefund_from_tx demo_ext tx2 = Inl (MsgParseError ''IPCPFD'' ''OP_RETURN data length mismatch'')"
    "fund_from_tx demo_ext tx2 = Inl (MsgParseError ''IPCFND'' ''OP_RETURN data length mismatch'')"
    "\<exists>e. from_checkpoint_tx demo_ext ?db1 tx2 = Inl (MsgParseError ''IPCCPT'' e)"
    "\<exists>e. batch_from_tx demo_ext demo_codec ?db1 tx2 = Inl (MsgParseError ''IPCTFR'' e)"
    "\<exists>e. stake_from_tx demo_ext ?db1 tx2 = Inl (MsgParseError ''IPCSTK'' e)"
    "unstake_from_tx demo_ext ?db1 tx2 = Inr \<lparr> um_subnet_id = demo_id, um_amount = 50000, um_pubkey = Some (replicate 32 1) \<rparr>"
    using demo_unstake_all [OF g1(3) db(7,4)] by metis
  have ne: "demo_id \<noteq> subnet_id_default"
    by (simp add: demo_id_def subnet_id_default_def subnet_id_from_txid_def subnet_id_from_txid20_def)
  let ?m = "\<lparr> um_subnet_id = demo_id, um_amount = 50000, um_pubkey = Some (replicate 32 1) \<rparr>"
  obtain p where p: "run_msg demo_env 200 [] 0 tx2 (UnstakeCollateral ?m) ?mo1 = (?mo1, Inl (IpcMsgProcessingError (Panic p)))"
    using unstake_all_panics [of demo_env ?mo1 demo_id g s boot_validator ?m 200 "[]" 0 tx2] g1 db alive ne
    by (auto simp: boot_validator_def)
  have two: "process_transaction demo_env 200 [] 0 tx2 ?mo1 = (?mo1, Inl (IpcMsgProcessingError (Panic p)))"
    using p tx2 unfolding process_transaction_def tx2(1) ac_each.simps
    by (auto simp: process_outputs_def Let_def ac_eval demo_env_def)
  let ?b = "\<lparr> bl_hash = [], bl_time = 0, bl_txdata = [tx1] @ tx2 # [] \<rparr>"
  have "ac_each (process_transaction demo_env 200 (bl_hash ?b) (bl_time ?b)) [tx1] ?mo = (?mo1, Inr ())"
    using one by (simp add: ac_bind_def ac_return_def)
  from failed_block_keeps_partial_work [of ?b "[tx1]" tx2 "[]", OF _ this] two
  have "finish_block demo_env 200 ?b ?mo = (?mo1, Inl (IpcMsgProcessingError (Panic p)))
      \<and> get_last_processed_block (mo_db ?mo1) = get_last_processed_block (mo_db ?mo)" by simp
  moreover have "rootnet_msgs_db (mo_db ?mo1) \<noteq> []" "rootnet_msgs_db (mo_db ?mo) = []"
    using db(8) by (simp_all add: add_rootnet_msg_def)
  ultimately show ?thesis by (intro exI [of _ ?mo] exI [of _ ?b] exI [of _ ?mo1] exI conjI) blast+
qed

end
