(* ===== verification/Resume.thy ===== *)
theory Resume
  imports Recovery Startup
begin

text \<open>
  Catching up after an outage (\<open>sync\<close> and the retry loop of \<open>src/src/bin/monitor.rs\<close>).  Blocks are processed in
  windows, and an error of the node is only seen between two blocks, never inside one.  So an attempt that
  the node interrupts has processed a number of whole blocks, and the next attempt goes on with the
  block after them.
\<close>

section \<open>Blocks in order\<close>

lemma sync_blocks_append:
  "sync_blocks E h (bs @ cs) mo = ac_bind (sync_blocks E h bs) (\<lambda>_. sync_blocks E (h + of_nat (length bs)) cs) mo"
proof (induction bs arbitrary: h mo)
  case (Cons b bs)
  have h: "h + 1 + of_nat (length bs) = h + of_nat (length (b # bs))" by simp
  show ?case using Cons.IH [of "h + 1"] unfolding h
    by (simp add: ac_bind_def split: prod.splits sum.splits)
qed (simp add: ac_bind_def ac_return_def)

text \<open>The blocks of a chain behind one height up to another, processed one after the other.\<close>

definition chain_blocks :: "(u64 \<Rightarrow> block) \<Rightarrow> u64 \<Rightarrow> u64 \<Rightarrow> block list" where
  "chain_blocks B c d = map (\<lambda>k. B (of_nat k)) [unat c + 1 ..< unat d + 1]"

definition process_range :: "env \<Rightarrow> (u64 \<Rightarrow> block) \<Rightarrow> u64 \<Rightarrow> u64 \<Rightarrow> unit action" where
  "process_range E B c d = sync_blocks E (c + 1) (chain_blocks B c d)"

lemma process_range_refl [simp]: "process_range E B c c mo = (mo, Inr ())"
  by (simp add: process_range_def chain_blocks_def ac_return_def)

lemma process_range_split:
  assumes "c \<le> m" "m \<le> d"
  shows "process_range E B c d mo = ac_bind (process_range E B c m) (\<lambda>_. process_range E B m d) mo"
proof -
  have le: "unat c \<le> unat m" "unat m \<le> unat d" using assms by (simp_all add: word_le_nat_alt)
  then have "[unat c + 1 ..< unat d + 1] = [unat c + 1 ..< unat m + 1] @ [unat m + 1 ..< unat d + 1]"
    using upt_add_eq_append [of "unat c + 1" "unat m + 1" "unat d - unat m"] by simp
  then have b: "chain_blocks B c d = chain_blocks B c m @ chain_blocks B m d" by (simp add: chain_blocks_def)
  have eq: "c + 1 + of_nat (length (chain_blocks B c m)) = m + 1"
  proof -
    have "length (chain_blocks B c m) = unat m - unat c" using le(1) by (auto simp: chain_blocks_def)
    moreover have "of_nat (unat m - unat c) = m - c" using le(1) by (simp add: of_nat_diff)
    ultimately show ?thesis by simp
  qed
  show ?thesis unfolding process_range_def b sync_blocks_append eq ..
qed

lemma process_range_state:
  assumes "process_range E B c d mo = (mo', Inr ())" "kv_ok (monitor_info (mo_db mo))" "c \<le> d"
    and "mo_current_height mo = c" "get_last_processed_block (mo_db mo) = c"
  shows "mo_current_height mo' = d" "get_last_processed_block (mo_db mo') = d" "kv_ok (monitor_info (mo_db mo'))"
    "mo_sync_batch_size mo' = mo_sync_batch_size mo" "mo_reward_tracker mo' = mo_reward_tracker mo"
proof -
  have main: "kv_ok (monitor_info (mo_db mo')) \<and> mo_sync_batch_size mo' = mo_sync_batch_size mo \<and> mo_reward_tracker mo' = mo_reward_tracker mo
      \<and> get_last_processed_block (mo_db mo') = mo_current_height mo'"
    if "sync_blocks E h bs mo = (mo', Inr ())" "kv_ok (monitor_info (mo_db mo))" "get_last_processed_block (mo_db mo) = mo_current_height mo"
    for h bs and mo mo' :: monitor
    using that
  proof (induction bs arbitrary: h mo)
    case (Cons b bs)
    obtain mo1 where "finish_block E h b mo = (mo1, Inr ())" "sync_blocks E (h + 1) bs mo1 = (mo', Inr ())"
      using Cons.prems(1) by (auto simp: ac_bind_Inr)
    then show ?case using finish_block_advances [of E h b mo mo1] Cons.IH [of "h + 1" mo1] Cons.prems(2) by simp
  qed (simp add: ac_return_def)
  have r: "sync_blocks E (c + 1) (chain_blocks B c d) mo = (mo', Inr ())" using assms(1) by (simp add: process_range_def)
  note m = main [OF r assms(2)]
  have "mo_current_height mo' = d"
  proof (cases "c = d")
    case True
    then show ?thesis using assms(1,4) by simp
  next
    case False
    then have lt: "unat c < unat d" using assms(3) by (simp add: word_le_nat_alt word_unat_eq_iff)
    then have "chain_blocks B c d \<noteq> []" "length (chain_blocks B c d) - 1 = unat d - unat c - 1" by (auto simp: chain_blocks_def)
    then have "mo_current_height mo' = c + 1 + of_nat (unat d - unat c - 1)" using sync_blocks_height [OF r] by simp
    also have "\<dots> = d" using lt by (simp add: of_nat_diff)
    finally show ?thesis .
  qed
  with m assms(4,5) show "mo_current_height mo' = d" "get_last_processed_block (mo_db mo') = d" "kv_ok (monitor_info (mo_db mo'))"
    "mo_sync_batch_size mo' = mo_sync_batch_size mo" "mo_reward_tracker mo' = mo_reward_tracker mo" by simp_all
qed

section \<open>The node fails between blocks\<close>

definition no_node_error :: "'a action \<Rightarrow> bool" where
  "no_node_error f \<longleftrightarrow> (\<forall>mo mo' e. f mo = (mo', Inl e) \<longrightarrow> \<not> is_retryable e)"

lemma no_node_error_bind: "no_node_error f \<Longrightarrow> (\<And>a. no_node_error (g a)) \<Longrightarrow> no_node_error (ac_bind f g)"
  unfolding no_node_error_def ac_bind_def by (auto split: prod.splits sum.splits)

lemma no_node_error_simple:
  "no_node_error (ac_return a)" "\<not> is_retryable e \<Longrightarrow> no_node_error (ac_throw e)" "no_node_error (ac_put_db db)"
  "(\<And>x. \<not> is_retryable (k x)) \<Longrightarrow> no_node_error (ac_res k r)" "no_node_error (import_watchonly_address ad l t)"
  "(\<And>db. no_node_error (g db)) \<Longrightarrow> no_node_error (ac_with_db g)" "no_node_error (advance h)"
  by (auto simp: no_node_error_def ac_return_def ac_throw_def ac_put_db_def ac_res_def import_watchonly_address_def
      ac_with_db_def advance_def split: sum.splits)

lemma no_node_error_each: "(\<And>x. no_node_error (f x)) \<Longrightarrow> no_node_error (ac_each f xs)"
  by (induction xs) (simp_all add: no_node_error_bind no_node_error_simple)

lemma not_retryable [simp]:
  "\<not> is_retryable (IpcMsgInvalid e)" "\<not> is_retryable (IpcTxInvalid s)" "\<not> is_retryable (IpcMsgProcessingError x)"
  by (simp_all add: is_retryable_def)

lemma no_node_error_reward:
  "no_node_error (reward_result r)" "no_node_error (reward_checkpoint X h sid cp)" "no_node_error (reward_block E h)"
  by (auto simp: no_node_error_def reward_result_def reward_checkpoint_def reward_block_def ac_return_def ac_throw_def
      split: sum.splits option.splits reward_tracker_error.splits prod.splits)

lemma no_node_error_save: "no_node_error (ac_save f)"
  unfolding ac_save_def by (intro no_node_error_simple no_node_error_bind not_retryable)

lemma no_node_error_msg: "no_node_error (process_ipc_msg X h bh t tx tid msg)"
  by (cases msg)
    (auto simp: process_ipc_msg_def process_create_def process_join_def process_prefund_def process_fund_def
      process_checkpoint_def process_batch_def process_stake_def process_unstake_def process_kill_def Let_def
      intro!: no_node_error_bind no_node_error_simple no_node_error_save no_node_error_reward
      split: list.splits option.splits prod.splits ipc_lib_error.splits)

lemma no_node_error_run_msg: "no_node_error (run_msg E h bh t tx m)"
proof -
  have "e' = e" if "handle_ipc_msg_error e mo = (mo', Inl e')" for e e' and mo mo' :: monitor
    using that by (cases e rule: handle_ipc_msg_error.cases) (auto simp: ac_return_def ac_throw_def)
  then show ?thesis
    using no_node_error_msg [of "en_ext E" h bh t tx "compute_txid (en_ext E) tx" m]
    unfolding no_node_error_def run_msg_def ac_catch_def by (fastforce split: prod.splits sum.splits)
qed

lemma no_node_error_attempt: "(\<And>m. no_node_error (f m)) \<Longrightarrow> no_node_error g \<Longrightarrow> no_node_error (attempt r f g)"
  by (auto simp: attempt_def no_node_error_simple split: sum.splits ipc_lib_error.splits)

lemma no_node_error_transaction: "no_node_error (process_transaction E h bh t tx)"
proof -
  have "no_node_error (process_witness E h bh t tx w)" for w
    by (simp add: process_witness_def no_node_error_run_msg no_node_error_simple split: sum.splits)
  moreover have "no_node_error (process_outputs E h bh t tx)"
    unfolding process_outputs_def Let_def
    by (intro no_node_error_simple no_node_error_attempt no_node_error_run_msg)
  ultimately show ?thesis unfolding process_transaction_def by (intro no_node_error_bind no_node_error_each)
qed

lemma no_node_error_blocks: "no_node_error (sync_blocks E h bs)"
proof (induction E h bs rule: sync_blocks.induct)
  case (2 E h b bs)
  have "no_node_error (finish_block E h b)"
    unfolding finish_block_def process_block_data_def
    by (intro no_node_error_bind no_node_error_each no_node_error_transaction no_node_error_simple no_node_error_reward)
  then show ?case using 2 by (simp add: no_node_error_bind)
qed (simp add: no_node_error_simple)

section \<open>Catching up with a chain\<close>

text \<open>A node that never returns a block of another chain; two environments in which blocks are processed alike.\<close>

definition truthful :: "(u64 \<Rightarrow> block) \<Rightarrow> env \<Rightarrow> bool" where
  "truthful B E \<longleftrightarrow> (\<forall>h b. en_block E h = Inr b \<longrightarrow> b = B h)"

definition same_processing :: "env \<Rightarrow> env \<Rightarrow> bool" where
  "same_processing E E' \<longleftrightarrow> en_ext E' = en_ext E \<and> en_codec E' = en_codec E \<and> en_order E' = en_order E"

lemma process_range_same: "same_processing E E' \<Longrightarrow> process_range E' B c d = process_range E B c d"
proof -
  assume "same_processing E E'"
  then have e: "en_ext E' = en_ext E" "en_codec E' = en_codec E" "en_order E' = en_order E" by (simp_all add: same_processing_def)
  have r: "run_msg E' = run_msg E" by (simp add: fun_eq_iff run_msg_def e)
  have "process_witness E' = process_witness E" "process_outputs E' = process_outputs E"
    by (intro ext; simp only: process_witness_def process_outputs_def e r)+
  then have "process_transaction E' = process_transaction E" by (intro ext) (simp only: process_transaction_def)
  moreover have "reward_block E' = reward_block E" by (intro ext) (simp only: reward_block_def e)
  ultimately have "finish_block E' = finish_block E" by (intro ext) (simp only: finish_block_def process_block_data_def)
  then have "sync_blocks E' h bs = sync_blocks E h bs" for h bs
    by (induction bs arbitrary: h) simp_all
  then show ?thesis by (simp add: process_range_def fun_eq_iff)
qed

lemma fetched_blocks:
  assumes "truthful B E" "fetch_blocks_batched E (c + 1) d = Inr bs" "unat (c + 1) = unat c + 1"
  shows "bs = chain_blocks B c d"
proof -
  have "list_all2 (\<lambda>h b. en_block E h = Inr b) hs bs" if "res_mapM (en_block E) hs = Inr bs" for hs bs
    using that by (induction hs arbitrary: bs) (auto simp: res_bind_eq_Inr)
  then have "list_all2 (\<lambda>h b. en_block E h = Inr b) (map of_nat [unat c + 1 ..< unat d + 1]) bs"
    using assms(2,3) by (simp add: fetch_blocks_batched_def split: if_splits)
  then have "list_all2 (\<lambda>h b. b = B h) (map of_nat [unat c + 1 ..< unat d + 1]) bs"
    by (rule list_all2_mono) (use assms(1) in \<open>simp add: truthful_def\<close>)
  then show ?thesis by (simp add: chain_blocks_def list_all2_conv_all_nth nth_equalityI)
qed

text \<open>Whatever ends the loop, unless it is an error inside a block, leaves whole blocks processed.\<close>

lemma catch_up_whole_blocks:
  assumes "truthful B E" "catch_up E latest mo = (mo', r)" "\<And>e. r = Inl e \<Longrightarrow> is_retryable e"
  shows "\<exists>d. mo_current_height mo \<le> d \<and> process_range E B (mo_current_height mo) d mo = (mo', Inr ())"
  using assms(1,2)
proof (induction E latest mo rule: catch_up.induct)
  case (1 E latest mo)
  let ?c = "mo_current_height mo" and ?e = "min (mo_current_height mo + mo_sync_batch_size mo) latest"
  show ?case
  proof (cases "?c < latest \<and> \<not> en_cancelled E ?c \<and> (\<exists>bs. fetch_blocks_batched E (?c + 1) ?e = Inr bs)")
    case False
    then have "mo' = mo" using "1.prems"(2) by (subst (asm) catch_up.simps) (auto simp: Let_def split: if_splits sum.splits)
    then show ?thesis by (intro exI [of _ ?c]) simp
  next
    case True
    then obtain bs where f: "fetch_blocks_batched E (?c + 1) ?e = Inr bs" by blast
    have next_height: "unat (?c + 1) = unat ?c + 1" using unat_next [of ?c latest] True by blast
    have bs: "bs = chain_blocks B ?c ?e" by (rule fetched_blocks [OF "1.prems"(1) f next_height])
    have le: "?c \<le> ?e" using fetch_length [OF f] next_height by (simp add: word_le_nat_alt)
    obtain mo1 x where s: "sync_blocks E (?c + 1) bs mo = (mo1, x)" by (cases "sync_blocks E (?c + 1) bs mo")
    show ?thesis
    proof (cases x)
      case (Inl e)
      then have "r = Inl e" using "1.prems"(2) True f s by (subst (asm) catch_up.simps) (simp add: Let_def)
      then show ?thesis using assms(3) no_node_error_blocks s Inl unfolding no_node_error_def by blast
    next
      case (Inr u)
      have c: "catch_up E latest mo1 = (mo', r)" using "1.prems"(2) True f s Inr by (subst (asm) catch_up.simps) (simp add: Let_def)
      have h: "mo_current_height mo1 = ?e" using window_height [OF f] s Inr by simp
      obtain d where d: "?e \<le> d" "process_range E B ?e d mo1 = (mo', Inr ())"
        using "1.IH" [OF _ _ refl refl f s [symmetric] Inr "1.prems"(1) c] True h by auto
      have "process_range E B ?c ?e mo = (mo1, Inr ())" using s Inr by (simp add: process_range_def bs)
      then have "process_range E B ?c d mo = (mo', Inr ())"
        using d(2) unfolding process_range_split [OF le d(1)] by (simp add: ac_bind_def)
      then show ?thesis using order_trans [OF le d(1)] by blast
    qed
  qed
qed

text \<open>A node that returns every block up to a height: the loop processes them all, or stops at the error of one.\<close>

lemma catch_up_complete:
  assumes "\<And>h. h < latest \<Longrightarrow> \<not> en_cancelled E h" "\<And>h. h \<le> latest \<Longrightarrow> en_block E h = Inr (B h)"
    and "mo_current_height mo \<le> latest" "mo_sync_batch_size mo \<noteq> 0" "unat latest + unat (mo_sync_batch_size mo) < 2 ^ 64"
    and "kv_ok (monitor_info (mo_db mo))" "get_last_processed_block (mo_db mo) = mo_current_height mo"
  shows "catch_up E latest mo = (case process_range E B (mo_current_height mo) latest mo of
     (mo', Inl e) \<Rightarrow> (mo', Inl e) | (mo', Inr _) \<Rightarrow> (mo', Inr True))"
  using assms
proof (induction E latest mo rule: catch_up.induct)
  case (1 E latest mo)
  let ?c = "mo_current_height mo" and ?n = "mo_sync_batch_size mo"
  let ?e = "min (?c + ?n) latest"
  show ?case
  proof (cases "?c < latest")
    case False
    then have "?c = latest" using "1.prems"(3) by simp
    then show ?thesis by (subst catch_up.simps) simp
  next
    case True
    have add: "unat (?c + ?n) = unat ?c + unat ?n"
      using "1.prems"(3,5) unat_add_lem [of ?c ?n] by (simp add: word_le_nat_alt)
    have next_height: "unat (?c + 1) = unat ?c + 1" using unat_next [OF True] .
    have le: "?c + 1 \<le> ?e"
      using True add "1.prems"(4) next_height unat_gt_0 [of ?n] by (simp add: word_le_nat_alt word_less_nat_alt)
    have e: "unat ?e \<le> unat latest" "?e \<le> latest" by (simp_all add: word_le_nat_alt [symmetric])
    have m: "res_mapM (en_block E) (map of_nat ks) = Inr (map (\<lambda>k. B (of_nat k)) ks)" if "\<forall>k \<in> set ks. k \<le> unat ?e" for ks
      using that
    proof (induction ks)
      case (Cons k ks)
      then have "unat (of_nat k :: u64) \<le> unat latest" using e(1) unsigned_less [of latest, where ?'a = nat] by (simp add: unat_of_nat_u64)
      then have "en_block E (of_nat k) = Inr (B (of_nat k))" using "1.prems"(2) by (simp add: word_le_nat_alt)
      then show ?case using Cons by simp
    qed simp
    have "\<not> ?e < ?c + 1" using le by (simp only: not_less)
    then have f: "fetch_blocks_batched E (?c + 1) ?e = Inr (chain_blocks B ?c ?e)"
      using m [of "[unat ?c + 1 ..< unat ?e + 1]"] unfolding fetch_blocks_batched_def chain_blocks_def next_height
      by (simp del: upt_Suc)
    have c_le: "?c \<le> ?e" using le next_height by (simp add: word_le_nat_alt)
    obtain mo1 x where s: "sync_blocks E (?c + 1) (chain_blocks B ?c ?e) mo = (mo1, x)" by force
    then have r: "process_range E B ?c ?e mo = (mo1, x)" by (simp add: process_range_def)
    note split = process_range_split [OF c_le e(2), of E B mo]
    show ?thesis
    proof (cases x)
      case (Inl err)
      then show ?thesis using True "1.prems"(1) [OF True] f s r unfolding split by (subst catch_up.simps) (simp add: Let_def ac_bind_def)
    next
      case (Inr u)
      have c: "catch_up E latest mo = catch_up E latest mo1"
        using True "1.prems"(1) [OF True] f s Inr by (subst catch_up.simps) (simp add: Let_def)
      have r': "process_range E B ?c ?e mo = (mo1, Inr ())" using r Inr by simp
      note st = process_range_state [OF r' "1.prems"(6) c_le refl "1.prems"(7)]
      have "catch_up E latest mo1 = (case process_range E B (mo_current_height mo1) latest mo1 of
          (mo', Inl e) \<Rightarrow> (mo', Inl e) | (mo', Inr _) \<Rightarrow> (mo', Inr True))"
        using "1.IH" [OF True "1.prems"(1) [OF True] refl refl f s [symmetric] Inr] "1.prems"(1,2,4,5) st e(2) by simp
      then show ?thesis using st(1) r' unfolding c split by (simp add: ac_bind_def)
    qed
  qed
qed

section \<open>Outages\<close>

lemma side_effects_failed: "process_side_effects E mo = (mo', Inl e) \<Longrightarrow> mo' = mo"
  by (auto simp: process_side_effects_def Let_def split: if_splits import_outcome.splits)

lemma interrupted_loop:
  assumes "truthful B E" "sync_loop E answers mo = Some (mo', Inl e)" "is_retryable e"
  shows "\<exists>d. mo_current_height mo \<le> d \<and> process_range E B (mo_current_height mo) d mo = (mo', Inr ())"
  using assms(1,2)
proof (induction E answers mo rule: sync_loop.induct)
  case (2 E c1 c2 answers mo)
  consider (stop) "mo' = mo" | (up) latest mo1 b where "get_latest_confirmed_height E c1 = Inr latest"
      "\<not> en_cancelled E (mo_current_height mo)" "\<not> latest < mo_current_height mo" "catch_up E latest mo = (mo1, b)"
    using "2.prems"(2) by (auto split: if_splits sum.splits prod.splits)
  then show ?case
  proof cases
    case stop
    then show ?thesis by (intro exI [of _ "mo_current_height mo"]) simp
  next
    case up
    have "b = Inl e" if "b = Inl e'" for e' using "2.prems"(2) up that by simp
    then obtain d where d: "mo_current_height mo \<le> d" "process_range E B (mo_current_height mo) d mo = (mo1, Inr ())"
      using catch_up_whole_blocks [OF "2.prems"(1) up(4)] assms(3) by blast
    consider (fin) "mo' = mo1" | (again) l2 where "sync_loop E answers mo1 = Some (mo', Inl e)" "b = Inr True"
        "get_latest_confirmed_height E c2 = Inr l2" "mo_current_height mo1 \<noteq> l2"
      using "2.prems"(2) up by (auto split: if_splits sum.splits prod.splits bool.splits dest: side_effects_failed)
    then show ?thesis
    proof cases
      case fin
      then show ?thesis using d by blast
    next
      case again
      have h: "mo_current_height mo1 = d"
      proof (cases "mo_current_height mo = d")
        case True
        then show ?thesis using d(2) by auto
      next
        case False
        then have "unat (mo_current_height mo) < unat d" using d(1) by (simp add: word_le_nat_alt word_unat_eq_iff)
        then show ?thesis
          using sync_blocks_height [of E "mo_current_height mo + 1" "chain_blocks B (mo_current_height mo) d" mo mo1] d(2)
          by (auto simp: process_range_def chain_blocks_def of_nat_diff)
      qed
      obtain d' where "d \<le> d'" "process_range E B d d' mo1 = (mo', Inr ())"
        using "2.IH" [OF up(2) up(1) up(3) up(4) [symmetric] again(2) _ again(3,4) "2.prems"(1) again(1)] h by auto
      then have "process_range E B (mo_current_height mo) d' mo = (mo', Inr ())" "mo_current_height mo \<le> d'"
        using d unfolding process_range_split [OF d(1) \<open>d \<le> d'\<close>] by (auto simp: ac_bind_def)
      then show ?thesis by blast
    qed
  qed
qed simp

definition at_last_block :: "monitor \<Rightarrow> monitor" where
  "at_last_block mo = mo\<lparr> mo_current_height := get_last_processed_block (mo_db mo) \<rparr>"

text \<open>
  Attempts that the node interrupts while the monitor catches up: each ends with an error of the node, and the
  user has not cancelled.  The last argument is the state after them.
\<close>

fun outages :: "(u64 \<Rightarrow> block) \<Rightarrow> env \<Rightarrow> run_attempt list \<Rightarrow> monitor \<Rightarrow> monitor \<Rightarrow> bool" where
  "outages B E [] mo mo' \<longleftrightarrow> mo' = mo"
| "outages B E (a # as) mo mo' \<longleftrightarrow> truthful B (ra_env a) \<and> same_processing E (ra_env a) \<and> \<not> ra_cancelled a
     \<and> (\<exists>mo1 e. sync (ra_env a) (ra_answers a) mo = Some (mo1, Inl (MonitorRpcError e)) \<and> outages B E as mo1 mo')"

lemma outages_whole_blocks:
  assumes "outages B E as mo mo'" "kv_ok (monitor_info (mo_db mo))"
  shows "\<exists>d. get_last_processed_block (mo_db mo) \<le> d
     \<and> process_range E B (get_last_processed_block (mo_db mo)) d (at_last_block mo) = (at_last_block mo', Inr ())"
  using assms
proof (induction as arbitrary: mo)
  case Nil
  then show ?case by (intro exI [of _ "get_last_processed_block (mo_db mo)"]) simp
next
  case (Cons a as)
  let ?c = "get_last_processed_block (mo_db mo)" and ?E = "ra_env a"
  obtain mo1 e where a: "truthful B ?E" "same_processing E ?E" "sync ?E (ra_answers a) mo = Some (mo1, Inl (MonitorRpcError e))"
    "outages B E as mo1 mo'" using Cons.prems(1) by auto
  obtain d where d: "?c \<le> d" "process_range ?E B ?c d (at_last_block mo) = (mo1, Inr ())"
    using interrupted_loop [OF a(1), of "ra_answers a" "at_last_block mo" mo1] a(3)
    by (auto simp: sync_def at_last_block_def is_retryable_def)
  have r: "process_range E B ?c d (at_last_block mo) = (mo1, Inr ())" using d(2) process_range_same [OF a(2)] by simp
  have s: "mo_current_height mo1 = d" "get_last_processed_block (mo_db mo1) = d" "kv_ok (monitor_info (mo_db mo1))"
    using process_range_state [OF r _ d(1)] Cons.prems(2) by (simp_all add: at_last_block_def)
  then have "at_last_block mo1 = mo1" by (simp add: at_last_block_def)
  moreover obtain d' where "d \<le> d'" "process_range E B d d' (at_last_block mo1) = (at_last_block mo', Inr ())"
    using Cons.IH [OF a(4) s(3)] s(2) by auto
  ultimately have "process_range E B ?c d' (at_last_block mo) = (at_last_block mo', Inr ())" "?c \<le> d'"
    using r d(1) unfolding process_range_split [OF d(1) \<open>d \<le> d'\<close>] by (auto simp: ac_bind_def)
  then show ?case by blast
qed

text \<open>One attempt with a node that returns all blocks: the missing blocks in order, then the wallet.\<close>

definition healthy_sync :: "env \<Rightarrow> (u64 \<Rightarrow> block) \<Rightarrow> u64 \<Rightarrow> monitor \<Rightarrow> monitor \<times> (monitor_error + bool)" where
  "healthy_sync E B latest mo =
     (case process_range E B (get_last_processed_block (mo_db mo)) latest (at_last_block mo) of
        (mo1, Inl e) \<Rightarrow> (mo1, Inl e)
      | (mo1, Inr _) \<Rightarrow> (case process_side_effects E mo1 of (mo2, Inl e) \<Rightarrow> (mo2, Inl e) | (mo2, Inr _) \<Rightarrow> (mo2, Inr True)))"

lemma healthy_sync_eq:
  assumes "\<And>h. h < latest \<Longrightarrow> \<not> en_cancelled E h" "\<And>h. h \<le> latest \<Longrightarrow> en_block E h = Inr (B h)"
    and "get_latest_confirmed_height E c1 = Inr latest" "get_latest_confirmed_height E c2 = Inr latest"
    and "get_last_processed_block (mo_db mo) < latest" "mo_sync_batch_size mo \<noteq> 0"
    and "unat latest + unat (mo_sync_batch_size mo) < 2 ^ 64" "kv_ok (monitor_info (mo_db mo))"
  shows "sync E ((c1, c2) # answers) mo = Some (healthy_sync E B latest mo)"
proof -
  let ?mo = "at_last_block mo" and ?c = "get_last_processed_block (mo_db mo)"
  have c: "catch_up E latest ?mo = (case process_range E B ?c latest ?mo of
      (mo', Inl e) \<Rightarrow> (mo', Inl e) | (mo', Inr _) \<Rightarrow> (mo', Inr True))"
    using catch_up_complete [OF assms(1,2), of latest ?mo] assms(5-8) by (simp add: at_last_block_def)
  have h: "mo_current_height mo1 = latest" if "process_range E B ?c latest ?mo = (mo1, Inr ())" for mo1
    using process_range_state(1) [OF that _ order_less_imp_le [OF assms(5)]] assms(8) by (simp add: at_last_block_def)
  have "\<not> latest < ?c" "\<not> en_cancelled E ?c" using assms(1,5) by auto
  then have "sync E ((c1, c2) # answers) mo = (case catch_up E latest ?mo of
      (mo', Inl e) \<Rightarrow> Some (mo', Inl e) | (mo', Inr False) \<Rightarrow> Some (mo', Inr False)
    | (mo', Inr True) \<Rightarrow> if mo_current_height mo' = latest
        then (case process_side_effects E mo' of (mo'', Inl e) \<Rightarrow> Some (mo'', Inl e) | (mo'', Inr _) \<Rightarrow> Some (mo'', Inr True))
        else sync_loop E answers mo')"
    using assms(3,4) by (simp add: sync_def at_last_block_def)
  then show ?thesis
    unfolding c healthy_sync_def using h by (auto split: prod.splits sum.splits)
qed

lemma healthy_sync_resumes:
  assumes "process_range E B (get_last_processed_block (mo_db mo)) d (at_last_block mo) = (at_last_block mo', Inr ())"
    and "get_last_processed_block (mo_db mo) \<le> d" "d \<le> latest" "kv_ok (monitor_info (mo_db mo))"
  shows "healthy_sync E B latest mo' = healthy_sync E B latest mo"
proof -
  have "get_last_processed_block (mo_db mo') = d"
    using process_range_state(2) [OF assms(1) _ assms(2)] assms(4) by (simp add: at_last_block_def)
  then show ?thesis
    using assms(1) unfolding healthy_sync_def process_range_split [OF assms(2,3)] by (simp add: ac_bind_def)
qed

lemma loop_through_outages:
  assumes "outages B E downs mo mo'" "1 \<le> backoff" "backoff \<le> 30"
  shows "\<exists>sleeps b. length sleeps = length downs \<and> list_all (\<lambda>s. 1 \<le> s \<and> s \<le> 30) sleeps \<and> 1 \<le> b \<and> b \<le> 30
     \<and> (\<forall>as. monitor_loop backoff (downs @ as) mo = map_option (\<lambda>(m, s, r). (m, sleeps @ s, r)) (monitor_loop b as mo'))"
  using assms
proof (induction downs arbitrary: mo backoff)
  case Nil
  then show ?case by (intro exI [of _ "[]"] exI [of _ backoff]) (simp add: option.map_ident case_prod_beta)
next
  case (Cons a downs)
  obtain mo1 e where a: "\<not> ra_cancelled a" "sync (ra_env a) (ra_answers a) mo = Some (mo1, Inl (MonitorRpcError e))"
    "outages B E downs mo1 mo'" using Cons.prems(1) by auto
  define b0 where "b0 = (if 60000 < ra_elapsed a then 1 else backoff)"
  have b0: "1 \<le> b0" "b0 \<le> 30" "1 \<le> min (b0 * 2) MAX_BACKOFF" "min (b0 * 2) MAX_BACKOFF \<le> 30"
    using Cons.prems(2,3) by (auto simp: b0_def MAX_BACKOFF_def)
  obtain sleeps b where s: "length sleeps = length downs" "list_all (\<lambda>s. 1 \<le> s \<and> s \<le> 30) sleeps" "1 \<le> b" "b \<le> 30"
    "\<And>as. monitor_loop (min (b0 * 2) MAX_BACKOFF) (downs @ as) mo1 = map_option (\<lambda>(m, s, r). (m, sleeps @ s, r)) (monitor_loop b as mo')"
    using Cons.IH [OF a(3) b0(3,4)] by blast
  have "monitor_loop backoff ((a # downs) @ as) mo = map_option (\<lambda>(m, s, r). (m, (b0 # sleeps) @ s, r)) (monitor_loop b as mo')" for as
    using a(1,2) s(5) [of as]
    by (cases "monitor_loop b as mo'") (auto simp: sync_and_listen_def is_retryable_def Let_def b0_def [symmetric])
  then show ?case using s(1-4) b0(1,2) by (intro exI [of _ "b0 # sleeps"] exI [of _ b]) simp
qed

lemma monitor_loop_cong:
  assumes "sync (ra_env a) (ra_answers a) mo' = sync (ra_env a) (ra_answers a) mo"
  shows "monitor_loop b (a # as) mo' = monitor_loop b (a # as) mo"
  using assms by (simp add: sync_and_listen_def)

text \<open>
  C19. An outage of the node changes nothing but the time that passes.  Let the node interrupt any number of
  attempts to catch up, each after any number of blocks, and return all blocks in the attempt after them.  The
  program then ends as it would have ended without these attempts, except that it has slept once for each of
  them, for one to thirty seconds; and the attempt after them amounts to processing each block behind the
  last one that was processed before the outage, once and in order, until the tip or the first fatal error.
\<close>

theorem monitor_resumes_after_outages:
  assumes "outages B (ra_env good) downs mo mo'" "ra_answers good = (c1, c2) # answers"
    and "get_latest_confirmed_height (ra_env good) c1 = Inr latest" "get_latest_confirmed_height (ra_env good) c2 = Inr latest"
    and "\<And>h. h < latest \<Longrightarrow> \<not> en_cancelled (ra_env good) h" "\<And>h. h \<le> latest \<Longrightarrow> en_block (ra_env good) h = Inr (B h)"
    and "get_last_processed_block (mo_db mo') < latest" "mo_sync_batch_size mo \<noteq> 0"
    and "unat latest + unat (mo_sync_batch_size mo) < 2 ^ 64" "kv_ok (monitor_info (mo_db mo))"
  shows "(\<exists>sleeps b. length sleeps = length downs \<and> list_all (\<lambda>s. 1 \<le> s \<and> s \<le> 30) sleeps
       \<and> monitor_loop 1 (downs @ good # rest) mo
         = map_option (\<lambda>(m, s, r). (m, sleeps @ s, r)) (monitor_loop b (good # rest) mo))
     \<and> sync (ra_env good) (ra_answers good) mo' = Some (healthy_sync (ra_env good) B latest mo)"
proof -
  let ?E = "ra_env good" and ?c = "get_last_processed_block (mo_db mo)"
  obtain d where d: "?c \<le> d" "process_range ?E B ?c d (at_last_block mo) = (at_last_block mo', Inr ())"
    using outages_whole_blocks [OF assms(1,10)] by blast
  note st = process_range_state [OF d(2) _ d(1)]
  have st: "get_last_processed_block (mo_db mo') = d" "kv_ok (monitor_info (mo_db mo'))" "mo_sync_batch_size mo' = mo_sync_batch_size mo"
    using st(2-4) assms(10) by (simp_all add: at_last_block_def)
  have lt: "?c < latest" using d(1) st(1) assms(7) by simp
  have "sync ?E ((c1, c2) # answers) mo' = Some (healthy_sync ?E B latest mo')"
    using st assms(7-9) by (intro healthy_sync_eq [OF assms(5,6,3,4)]) simp_all
  moreover have "sync ?E ((c1, c2) # answers) mo = Some (healthy_sync ?E B latest mo)"
    using lt assms(8-10) by (intro healthy_sync_eq [OF assms(5,6,3,4)]) simp_all
  moreover have "healthy_sync ?E B latest mo' = healthy_sync ?E B latest mo"
    using healthy_sync_resumes [OF d(2,1) _ assms(10)] assms(7) st(1) by simp
  ultimately have s: "sync ?E (ra_answers good) mo' = Some (healthy_sync ?E B latest mo)"
    "sync ?E (ra_answers good) mo' = sync ?E (ra_answers good) mo" using assms(2) by simp_all
  obtain sleeps b where "length sleeps = length downs" "list_all (\<lambda>s. 1 \<le> s \<and> s \<le> 30) sleeps"
    "monitor_loop 1 (downs @ good # rest) mo = map_option (\<lambda>(m, s, r). (m, sleeps @ s, r)) (monitor_loop b (good # rest) mo')"
    using loop_through_outages [OF assms(1), of 1] by auto
  then have "length sleeps = length downs \<and> list_all (\<lambda>s. 1 \<le> s \<and> s \<le> 30) sleeps
      \<and> monitor_loop 1 (downs @ good # rest) mo = map_option (\<lambda>(m, s, r). (m, sleeps @ s, r)) (monitor_loop b (good # rest) mo)"
    unfolding monitor_loop_cong [OF s(2)] by blast
  then show ?thesis using s(1) by blast
qed

section \<open>A concrete outage\<close>

text \<open>Seven blocks without messages: the node fails after the third, and is back in the next attempt.\<close>

definition demo_block :: block where
  "demo_block = \<lparr> bl_hash = [1], bl_time = 0, bl_txdata = [] \<rparr>"

definition demo_cut :: run_attempt where
  "demo_cut = \<lparr> ra_env = demo_env\<lparr> en_block := (\<lambda>h. if h \<le> 3 then Inr demo_block else Inl ''connection refused'') \<rparr>,
     ra_answers = [(Inr 7, Inr 7)], ra_polls = [], ra_elapsed = 5, ra_cancelled = False \<rparr>"

definition demo_back :: run_attempt where
  "demo_back = \<lparr> ra_env = demo_env\<lparr> en_block := (\<lambda>h. Inr demo_block), en_cancelled := (\<lambda>h. h = 7) \<rparr>,
     ra_answers = [(Inr 7, Inr 7)], ra_polls = [Inr 7], ra_elapsed = 5, ra_cancelled = False \<rparr>"

lemma quiet_blocks:
  "mo_reward_tracker mo = None \<Longrightarrow> list_all (\<lambda>b. bl_txdata b = []) bs \<Longrightarrow>
     \<exists>mo'. sync_blocks E h bs mo = (mo', Inr ()) \<and> mo_side_effects mo' = mo_side_effects mo"
proof (induction bs arbitrary: h mo)
  case (Cons b bs)
  let ?mo = "mo\<lparr> mo_current_height := h, mo_db := set_last_processed_block h (mo_db mo) \<rparr>"
  have "finish_block E h b mo = (?mo, Inr ())"
    using Cons.prems by (simp add: finish_block_def process_block_data_def ac_return_def ac_bind_def advance_def reward_block_def)
  then show ?case using Cons.IH [of ?mo "h + 1"] Cons.prems by (simp add: ac_bind_def)
qed (simp add: ac_return_def)

lemma fresh_monitor: "get_last_processed_block (mo_db (monitor_new empty_db 3)) = 0" "kv_ok (monitor_info (mo_db (monitor_new empty_db 3)))"
  "at_last_block (monitor_new empty_db 3) = monitor_new empty_db 3"
  by (simp_all add: at_last_block_def monitor_new_def get_last_processed_block_def empty_db_def kv_get_def)

lemma demo_outage:
  "\<exists>mo1. sync (ra_env demo_cut) (ra_answers demo_cut) (monitor_new empty_db 3) = Some (mo1, Inl (MonitorRpcError ''connection refused''))
     \<and> get_last_processed_block (mo_db mo1) = 3"
proof -
  let ?E = "ra_env demo_cut" and ?mo = "monitor_new empty_db 3"
  have f: "fetch_blocks_batched ?E 1 3 = Inr [demo_block, demo_block, demo_block]" "fetch_blocks_batched ?E 4 6 = Inl ''connection refused''"
    by (simp_all add: fetch_blocks_batched_def demo_cut_def upt_conv_Cons)
  obtain mo1 where s: "sync_blocks ?E 1 [demo_block, demo_block, demo_block] ?mo = (mo1, Inr ())"
    using quiet_blocks [of ?mo "[demo_block, demo_block, demo_block]" ?E 1] by (auto simp: monitor_new_def demo_block_def)
  have "process_range ?E (\<lambda>_. demo_block) 0 3 ?mo = (mo1, Inr ())"
    using s by (simp add: process_range_def chain_blocks_def upt_conv_Cons)
  from process_range_state [OF this fresh_monitor(2)] fresh_monitor(1)
  have st: "mo_current_height mo1 = 3" "get_last_processed_block (mo_db mo1) = 3" "mo_sync_batch_size mo1 = 3"
    by (simp_all add: monitor_new_def)
  have nc: "\<not> en_cancelled ?E h" for h by (simp add: demo_cut_def demo_env_def)
  have "catch_up ?E 7 mo1 = (mo1, Inl (MonitorRpcError ''connection refused''))"
    using f(2) nc st by (subst catch_up.simps) (simp add: Let_def)
  moreover have "catch_up ?E 7 ?mo = catch_up ?E 7 mo1"
    using f(1) s nc by (subst catch_up.simps) (simp add: Let_def monitor_new_def)
  ultimately have c: "catch_up ?E 7 ?mo = (mo1, Inl (MonitorRpcError ''connection refused''))" by simp
  have z: "?mo\<lparr> mo_current_height := 0 \<rparr> = ?mo" by (simp add: monitor_new_def)
  have "catch_up ?E 7 (?mo\<lparr> mo_current_height := 0 \<rparr>) = (mo1, Inl (MonitorRpcError ''connection refused''))" using c unfolding z .
  moreover have "get_latest_confirmed_height ?E (Inr 7) = Inr 7"
    by (simp add: get_latest_confirmed_height_def demo_cut_def demo_env_def confirmations_def)
  ultimately have "sync ?E [(Inr 7, Inr 7)] ?mo = Some (mo1, Inl (MonitorRpcError ''connection refused''))"
    using nc fresh_monitor(1) by (simp add: sync_def)
  then show ?thesis using st(2) by (simp add: demo_cut_def)
qed

theorem monitor_resumes_after_outages_witness:
  "\<exists>mo2 s. monitor_loop 1 [demo_cut, demo_back] (monitor_new empty_db 3) = Some (mo2, [s], Inr ()) \<and> 1 \<le> s \<and> s \<le> 30
     \<and> get_last_processed_block (mo_db mo2) = 7"
proof -
  let ?E = "ra_env demo_back" and ?mo = "monitor_new empty_db 3" and ?B = "\<lambda>_. demo_block"
  obtain mo1 where mo1: "sync (ra_env demo_cut) (ra_answers demo_cut) ?mo = Some (mo1, Inl (MonitorRpcError ''connection refused''))"
    "get_last_processed_block (mo_db mo1) = 3" using demo_outage by blast
  then have o: "outages ?B ?E [demo_cut] ?mo mo1"
    by (auto simp: truthful_def same_processing_def demo_cut_def demo_back_def split: if_splits)
  have h: "get_latest_confirmed_height ?E (Inr 7) = Inr 7"
    by (simp add: get_latest_confirmed_height_def demo_back_def demo_env_def confirmations_def)
  have "(\<exists>sleeps b. length sleeps = length [demo_cut] \<and> list_all (\<lambda>s. 1 \<le> s \<and> s \<le> 30) sleeps
       \<and> monitor_loop 1 ([demo_cut] @ demo_back # []) ?mo = map_option (\<lambda>(m, s, r). (m, sleeps @ s, r)) (monitor_loop b (demo_back # []) ?mo))
     \<and> sync ?E (ra_answers demo_back) mo1 = Some (healthy_sync ?E ?B 7 ?mo)"
    by (rule monitor_resumes_after_outages [OF o _ h h]) (use mo1(2) fresh_monitor(2) in \<open>auto simp: demo_back_def monitor_new_def\<close>)
  then obtain sleeps b where l: "length sleeps = 1" "list_all (\<lambda>s. 1 \<le> s \<and> s \<le> 30) sleeps"
    "monitor_loop 1 [demo_cut, demo_back] ?mo = map_option (\<lambda>(m, s, r). (m, sleeps @ s, r)) (monitor_loop b [demo_back] ?mo)" by auto
  obtain mo2 where r: "process_range ?E ?B 0 7 ?mo = (mo2, Inr ())" "mo_side_effects mo2 = []"
    using quiet_blocks [of ?mo "chain_blocks ?B 0 7" ?E "0 + 1"]
    by (auto simp: process_range_def chain_blocks_def list_all_iff demo_block_def monitor_new_def)
  have st: "mo_current_height mo2 = 7" "get_last_processed_block (mo_db mo2) = 7"
    using process_range_state [OF r(1) fresh_monitor(2)] fresh_monitor(1) by (simp_all add: monitor_new_def)
  have "healthy_sync ?E ?B 7 ?mo = (mo2, Inr True)"
    using r unfolding healthy_sync_def fresh_monitor(1,3) by (simp add: process_side_effects_def)
  moreover have "sync ?E [(Inr 7, Inr 7)] ?mo = Some (healthy_sync ?E ?B 7 ?mo)"
    by (rule healthy_sync_eq [OF _ _ h h]) (use fresh_monitor in \<open>auto simp: demo_back_def monitor_new_def\<close>)
  ultimately have "sync_and_listen ?E (ra_answers demo_back) (ra_polls demo_back) ?mo = Some (mo2, Inr ())"
    using st(1) by (simp add: sync_and_listen_def demo_back_def)
  then have "monitor_loop 1 [demo_cut, demo_back] ?mo = Some (mo2, sleeps, Inr ())" using l(3) by simp
  moreover obtain s where "sleeps = [s]" using l(1) by (cases sleeps) auto
  ultimately show ?thesis using l(2) st(2) by auto
qed

end
