(* ===== verification/Tester_Facts.thy ===== *)
theory Tester_Facts
  imports Tester Scenario_Facts Monitor_Facts
begin

text \<open>
  What a run of the tester means: the driver keeps what every operation keeps (the contract of a tester),
  the database tester changes the ledger only through the validated message handlers of the program, the
  names of a parsed test resolve whenever they are used, and an expectation passes exactly when the
  database had the value.
\<close>

section \<open>The contract of a tester\<close>

text \<open>
  A relation between states before and after, indexed by the subnets created and the tokens registered in
  between: it holds for each operation, so it holds for each run of the driver.
\<close>

definition tokens_of :: "scenario_command list \<Rightarrow> string list" where
  "tokens_of cs = [name. CmdRegisterToken _ _ name _ _ \<leftarrow> cs]"

locale tester_contract =
  fixes T :: "'t tester" and R :: "string list \<Rightarrow> string list \<Rightarrow> 't \<Rightarrow> 't \<Rightarrow> bool"
  assumes stays: "R [] [] t t"
    and composes: "R a a2 t t1 \<Longrightarrow> R b b2 t1 t2 \<Longrightarrow> R (a @ b) (a2 @ b2) t t2"
    and mine: "exec_mine_block T h t = Inr t' \<Longrightarrow> R [] [] t t'"
    and create: "exec_create_subnet T h s t = Inr t' \<Longrightarrow> R [s] [] t t'"
    and join: "exec_join_subnet T h s v n t = Inr t' \<Longrightarrow> R [] [] t t'"
    and stake: "exec_stake_subnet T h s v n t = Inr t' \<Longrightarrow> R [] [] t t'"
    and unstake: "exec_unstake_subnet T h s v n t = Inr t' \<Longrightarrow> R [] [] t t'"
    and checkpoint: "exec_checkpoint_subnet T h s t = Inr t' \<Longrightarrow> R [] [] t t'"
    and register: "exec_register_token T h s nm sy amt t = Inr t' \<Longrightarrow> R [] [nm] t t'"
    and mint: "exec_mint_token T h s tok amt t = Inr t' \<Longrightarrow> R [] [] t t'"
    and burn: "exec_burn_token T h s tok amt t = Inr t' \<Longrightarrow> R [] [] t t'"
    and transfer: "exec_erc_transfer T h s d tok amt t = Inr t' \<Longrightarrow> R [] [] t t'"
    and deposit: "exec_deposit T h s ad n t = Inr t' \<Longrightarrow> R [] [] t t'"
    and reads: "exec_output_read T h db args t = Inr t' \<Longrightarrow> R [] [] t t'"
begin

lemma mined: "res_fold (\<lambda>t h. exec_mine_block T h t) t hs = Inr t' \<Longrightarrow> R [] [] t t'"
proof (induction hs arbitrary: t)
  case (Cons h hs)
  then obtain t1 where "exec_mine_block T h t = Inr t1" "res_fold (\<lambda>t h. exec_mine_block T h t) t1 hs = Inr t'"
    by (auto simp: res_simps)
  with Cons.IH mine composes [of "[]" "[]" t t1 "[]" "[]" t'] show ?case by simp
qed (simp add: stays)

lemma command: "run_command T c (h, t) = Inr (h', t') \<Longrightarrow> R (creates_of [c]) (tokens_of [c]) t t'"
  by (cases c)
    (auto simp: run_command_def run_block_def creates_of_def tokens_of_def res_simps Let_def stays split: if_splits
      dest: mined create join stake unstake checkpoint register mint burn transfer deposit reads)

lemma run:
  "res_fold (\<lambda>st (l, c). res_map_err (f l c) (run_command T c st)) (h, t) sc = Inr (h', t')
    \<Longrightarrow> R (creates_of (map snd sc)) (tokens_of (map snd sc)) t t'"
proof (induction sc arbitrary: h t)
  case Nil
  then show ?case by (simp add: stays tokens_of_def)
next
  case (Cons x sc)
  obtain l c where x: "x = (l, c)" by (cases x)
  from Cons.prems x obtain h1 t1 where c: "run_command T c (h, t) = Inr (h1, t1)"
    and r: "res_fold (\<lambda>st (l, c). res_map_err (f l c) (run_command T c st)) (h1, t1) sc = Inr (h', t')"
    by (cases "run_command T c (h, t)") auto
  have "creates_of (map snd (x # sc)) = creates_of [c] @ creates_of (map snd sc)"
    "tokens_of (map snd (x # sc)) = tokens_of [c] @ tokens_of (map snd sc)" by (simp_all add: creates_of_def tokens_of_def x)
  with composes [OF command [OF c] Cons.IH [OF r]] show ?case by simp
qed

lemma run_scenario_related: "run_scenario T sc b t = Inr (h', t') \<Longrightarrow> R (creates_of (map snd sc)) (tokens_of (map snd sc)) t t'"
  by (auto simp: run_scenario_def split: if_splits dest: run)

end

section \<open>Running the handlers\<close>

text \<open>
  The specification of a run: the ledger changes by validated messages, each saved by its handler; in
  between there is bookkeeping only.
\<close>

inductive handler_step :: "ext \<Rightarrow> heed_db \<Rightarrow> heed_db \<Rightarrow> bool" for X where
  book: "same_ledger db db' \<Longrightarrow> handler_step X db db'"
| create: "create_validate m = Inr () \<Longrightarrow> create_save_to_db X db h tid m = Inr (db', g) \<Longrightarrow> handler_step X db db'"
| join: "join_validate X m = Inr () \<Longrightarrow> get_subnet_genesis_info X db (jm_subnet_id m) = Some g
    \<Longrightarrow> join_validate_for_subnet m g (get_subnet_state X db (jm_subnet_id m)) = Inr ()
    \<Longrightarrow> join_save_to_db X db h bh tid m = Inr (db', so) \<Longrightarrow> handler_step X db db'"
| stake: "stake_validate m = Inr () \<Longrightarrow> get_subnet_state X db (sm_subnet_id m) = Some s
    \<Longrightarrow> stake_validate_for_subnet m s = Inr () \<Longrightarrow> stake_save_to_db X db h bh tid m = Inr db' \<Longrightarrow> handler_step X db db'"
| unstake: "unstake_validate m = Inr () \<Longrightarrow> get_subnet_genesis_info X db (um_subnet_id m) = Some g
    \<Longrightarrow> get_subnet_state X db (um_subnet_id m) = Some s \<Longrightarrow> unstake_validate_for_subnet m g s = Inr ()
    \<Longrightarrow> unstake_save_to_db X db h bh tid m = Inr db' \<Longrightarrow> handler_step X db db'"
| checkpoint: "checkpoint_validate X m = Inr () \<Longrightarrow> checkpoint_save_to_db X db h bh tid m = Inr (db', cp) \<Longrightarrow> handler_step X db db'"
| batch: "batch_save_to_db X db h bh tid b = Inr (db', cp) \<Longrightarrow> handler_step X db db'"


abbreviation same_names :: "db_tester \<Rightarrow> db_tester \<Rightarrow> bool" where
  "same_names t t' \<equiv> dt_setup t' = dt_setup t \<and> dt_created_subnets t' = dt_created_subnets t
     \<and> dt_registered_tokens t' = dt_registered_tokens t"

lemma tester_draws [simp]:
  "fst (draw E n t) = te_random E (dt_draws t) n"
  "dt_db (snd (draw E n t)) = dt_db t" "dt_setup (snd (draw E n t)) = dt_setup t"
  "dt_created_subnets (snd (draw E n t)) = dt_created_subnets t" "dt_reward_tracker (snd (draw E n t)) = dt_reward_tracker t"
  "dt_registered_tokens (snd (draw E n t)) = dt_registered_tokens t"
  "dt_registered_tokens (snd (block_hash_at E h t)) = dt_registered_tokens t"
  "dt_db (snd (block_hash_at E h t)) = dt_db t" "dt_setup (snd (block_hash_at E h t)) = dt_setup t"
  "dt_created_subnets (snd (block_hash_at E h t)) = dt_created_subnets t"
  "dt_reward_tracker (snd (block_hash_at E h t)) = dt_reward_tracker t"
  by (simp_all add: draw_def block_hash_at_def Let_def split: option.splits)

declare res_map_err_eq(1) [simp]

lemmas tester_simps = res_simps Let_def case_prod_beta

lemma tester_create_Inr:
  "tester_create X E h s t = Inr t' \<Longrightarrow> handler_step X (dt_db t) (dt_db t') \<and> dt_setup t' = dt_setup t
     \<and> (\<exists>sid. dt_created_subnets t' = (dt_created_subnets t)(s \<mapsto> sid)) \<and> dt_registered_tokens t' = dt_registered_tokens t"
  by (auto simp: tester_create_def tester_simps split: if_splits intro: handler_step.create)

lemma tester_join_Inr:
  "tester_join X E h s v n t = Inr t' \<Longrightarrow> handler_step X (dt_db t) (dt_db t') \<and> same_names t t'"
  by (auto simp: tester_join_def tester_simps intro: handler_step.join)

lemma tester_stake_Inr:
  "tester_stake X E h s v n t = Inr t' \<Longrightarrow> handler_step X (dt_db t) (dt_db t') \<and> same_names t t'"
  by (auto simp: tester_stake_def tester_simps intro: handler_step.stake)

lemma tester_unstake_Inr:
  "tester_unstake X E h s v n t = Inr t' \<Longrightarrow> handler_step X (dt_db t) (dt_db t') \<and> same_names t t'"
  by (auto simp: tester_unstake_def tester_simps intro: handler_step.unstake)

lemma batch_step:
  "batch_save_to_db X db h bh tid b = Inr (db', cp) \<Longrightarrow> (handler_step X)\<^sup>*\<^sup>* db db'"
  by (rule r_into_rtranclp) (rule handler_step.batch)

lemma tester_batch_steps:
  "tester_batch X E h bh tid m t = Inr t' \<Longrightarrow> (handler_step X)\<^sup>*\<^sup>* (dt_db t) (dt_db t') \<and> same_names t t'
     \<and> dt_reward_tracker t' = dt_reward_tracker t"
  by (auto simp: tester_batch_def tester_simps split: if_splits sum.splits ipc_lib_error.splits
      intro: batch_step)

lemma tester_checkpoint_Inr:
  assumes "tester_checkpoint X E h s regs adjs txs t = Inr (cp, t')"
  shows "(handler_step X)\<^sup>*\<^sup>* (dt_db t) (dt_db t') \<and> same_names t t' \<and> dt_reward_tracker t' = dt_reward_tracker t"
proof -
  from assms obtain m bh tid t4 db1 where m: "checkpoint_validate X m = Inr ()" "checkpoint_save_to_db X (dt_db t) h bh tid m = Inr (db1, cp)"
    and t4: "same_names t t4" "dt_reward_tracker t4 = dt_reward_tracker t"
    and t': "tester_batch X E h bh tid m (t4\<lparr> dt_db := db1 \<rparr>) = Inr t'"
    by (clarsimp simp: tester_checkpoint_def tester_simps) (erule that, assumption, simp_all)
  have "handler_step X (dt_db t) db1" using m by (rule handler_step.checkpoint)
  with tester_batch_steps [OF t'] t4 show ?thesis
    by (auto intro: converse_rtranclp_into_rtranclp)
qed

lemma db_exec_checkpoint_Inr:
  assumes "db_exec_checkpoint X E h s t = Inr t'"
  shows "(handler_step X)\<^sup>*\<^sup>* (dt_db t) (dt_db t') \<and> same_names t t'"
proof -
  from assms obtain regs adjs txs t1 t2 cp sid where c: "tester_checkpoint X E h s regs adjs txs t1 = Inr (cp, t2)"
    and t1: "dt_db t1 = dt_db t" "same_names t t1"
    and t': "t' = t2 \<or> (\<exists>cfg db'. update_after_checkpoint X cfg h sid cp (dt_db t2) = Inr db' \<and> t' = t2\<lparr> dt_db := db' \<rparr>)"
    by (fastforce simp: db_exec_checkpoint_def tester_simps split: option.splits)
  have "(handler_step X)\<^sup>*\<^sup>* (dt_db t2) (dt_db t') \<and> same_names t2 t'"
    using t' by (auto dest!: same_ledger_checkpoint handler_step.book)
  with tester_checkpoint_Inr [OF c] t1 show ?thesis by auto
qed

lemma db_exec_mine_Inr:
  assumes "db_exec_mine_block X E ord h t = Inr t'"
  shows "handler_step X (dt_db t) (dt_db t') \<and> same_names t t'"
proof -
  let ?t1 = "mine_block E h t"
  have t1: "same_ledger (dt_db t) (dt_db ?t1)" "same_names t ?t1"
    by (simp_all add: mine_block_def Let_def)
  from assms have "t' = ?t1 \<or> (\<exists>cfg. t' = ?t1\<lparr> dt_db := fst (update_after_block X ord cfg h (dt_db ?t1)) \<rparr>)"
    by (auto simp: db_exec_mine_block_def Let_def split: option.splits prod.splits sum.splits) (metis fst_conv)
  then have "same_ledger (dt_db ?t1) (dt_db t') \<and> same_names ?t1 t'"
    by (auto simp: same_ledger_block)
  with t1 same_ledger_trans show ?thesis by (metis handler_step.book)
qed

lemma tester_queues_Inr:
  "queue_token_registration E s name symbol a t = Inr t' \<Longrightarrow> dt_db t' = dt_db t \<and> dt_setup t' = dt_setup t
     \<and> dt_created_subnets t' = dt_created_subnets t \<and> (\<exists>r. dt_registered_tokens t' = (dt_registered_tokens t)(name \<mapsto> r))"
  "queue_erc_transfer E s d tok a t = Inr t' \<Longrightarrow> dt_db t' = dt_db t \<and> same_names t t'"
  "queue_mint s tok a t = Inr t' \<Longrightarrow> dt_db t' = dt_db t \<and> same_names t t'"
  "queue_burn s tok a t = Inr t' \<Longrightarrow> dt_db t' = dt_db t \<and> same_names t t'"
  "db_exec_deposit s t = Inr t' \<Longrightarrow> dt_db t' = dt_db t \<and> same_names t t'"
  "db_exec_output_read X db args t = Inr t' \<Longrightarrow> dt_db t' = dt_db t \<and> same_names t t'"
  by (auto simp: queue_token_registration_def draw_def tester_simps split: option.splits if_splits)[1]
    (auto simp: queue_erc_transfer_def queue_mint_def queue_burn_def queue_supply_adjustment_def db_exec_deposit_def
      db_exec_output_read_def print_read_def read_rootnet_msgs_def read_token_balance_def read_reward_results_def reset_reads_def tester_simps
      split: option.splits output_db.splits)

text \<open>Two relations that the database tester keeps: the handlers run, and the names that resolve.\<close>

definition names_after :: "string list \<Rightarrow> string list \<Rightarrow> db_tester \<Rightarrow> db_tester \<Rightarrow> bool" where
  "names_after ss ns t t' \<longleftrightarrow> dt_setup t' = dt_setup t \<and> dom (dt_created_subnets t') = dom (dt_created_subnets t) \<union> set ss
     \<and> dom (dt_registered_tokens t') = dom (dt_registered_tokens t) \<union> set ns"

interpretation db_runs: tester_contract "db_tester_ops X E ord" "\<lambda>_ _ t t'. (handler_step X)\<^sup>*\<^sup>* (dt_db t) (dt_db t')"
  for X E ord
  by unfold_locales
    (auto simp: db_tester_ops_def dest!: tester_create_Inr tester_join_Inr tester_stake_Inr tester_unstake_Inr
      db_exec_checkpoint_Inr db_exec_mine_Inr tester_queues_Inr)

interpretation db_names: tester_contract "db_tester_ops X E ord" names_after for X E ord
  by unfold_locales
    (auto simp: db_tester_ops_def names_after_def dest!: tester_create_Inr tester_join_Inr tester_stake_Inr tester_unstake_Inr
      db_exec_checkpoint_Inr db_exec_mine_Inr tester_queues_Inr)

text \<open>
  C34. The tester tests the program.  From the database a run starts with to the one it ends with there is
  a sequence of steps, each of which is a message that passed the checks of its handler and was saved by
  it, a batch saved by its handler, or bookkeeping that leaves the ledger alone.
\<close>

theorem tester_runs_the_handlers:
  assumes "run_scenario (db_tester_ops X E ord) sc b t = Inr (h, t')"
  shows "(handler_step X)\<^sup>*\<^sup>* (dt_db t) (dt_db t')"
  using assms by (rule db_runs.run_scenario_related)

text \<open>
  C33. Which names of a parsed test resolve.  When the database tester has run the commands before a command
  of a parsed test, a subnet name resolves exactly when a command before created it, and a token name
  exactly when a command before registered it.  The subnets that the parser checks (those of every command
  but a deposit) therefore resolve, as do the validators, and a subnet that the command creates is declared
  and was not created before.  A deposit, whose subnet the parser does not check, passes exactly when its
  subnet was created before.  Tokens are not checked by the parser either.
\<close>

theorem parsed_names_resolve:
  assumes "parse_test_file E path file = Inr p" "db_tester_new (pt_setup p) ah sl = Inr t0"
    and "pt_scenario p = before @ (l, c) # rest" "run_scenario (db_tester_ops X E ord) before 1 t0 = Inr (h, t)"
  shows "(\<forall>s. (\<exists>sid. resolve_subnet_id s t = Inr sid) \<longleftrightarrow> s \<in> set (creates_of (map snd before)))
     \<and> (\<forall>tok. (\<exists>r. dt_registered_tokens t tok = Some r) \<longleftrightarrow> tok \<in> set (tokens_of (map snd before)))
     \<and> (\<forall>s \<in> set (subnet_refs c). \<exists>sid. resolve_subnet_id s t = Inr sid)
     \<and> (\<forall>v \<in> set (validator_refs c). \<exists>val. resolve_validator v t = Inr val)
     \<and> (\<forall>s. c = CmdCreate s \<longrightarrow> (\<exists>spec. map_of (su_subnets (dt_setup t)) s = Some spec) \<and> dt_created_subnets t s = None)
     \<and> (\<forall>s a n. c = CmdDeposit s a n \<longrightarrow>
          (\<exists>t'. exec_deposit (db_tester_ops X E ord) h s a n t = Inr t') = (s \<in> set (creates_of (map snd before))))"
proof -
  have ok: "scenario_ok (pt_setup p) (map snd (before @ (l, c) # rest))"
    using parsed_test_ok(2) [OF assms(1)] assms(3) by simp
  have c: "command_ok (pt_setup p) (map snd before) c"
    using ok [unfolded scenario_ok_def, rule_format, of "length before"] by (simp add: nth_append)
  have "dt_setup t0 = pt_setup p" "dt_created_subnets t0 = Map.empty" "dt_registered_tokens t0 = Map.empty"
    using assms(2) by (auto simp: db_tester_new_def tester_simps)
  then have t: "dt_setup t = pt_setup p" "dom (dt_created_subnets t) = set (creates_of (map snd before))"
      "dom (dt_registered_tokens t) = set (tokens_of (map snd before))"
    using db_names.run_scenario_related [OF assms(4)] by (auto simp: names_after_def)
  have sub: "(\<exists>sid. resolve_subnet_id s t = Inr sid) \<longleftrightarrow> s \<in> set (creates_of (map snd before))" for s
    using t(2) by (auto simp: resolve_subnet_id_def ok_or_def split: option.splits)
  moreover have "(\<exists>r. dt_registered_tokens t tok = Some r) \<longleftrightarrow> tok \<in> set (tokens_of (map snd before))" for tok
    using t(3) by blast
  moreover have "(\<exists>t'. exec_deposit (db_tester_ops X E ord) h s a n t = Inr t') \<longleftrightarrow> s \<in> set (creates_of (map snd before))" for s a n
    using sub [of s] by (auto simp: db_tester_ops_def db_exec_deposit_def res_simps)
  moreover have "\<exists>val. resolve_validator v t = Inr val" if "v \<in> set (validator_refs c)" for v
    using c t(1) that by (auto simp: command_ok_def resolve_validator_def ok_or_def split: option.splits)
  moreover have "(\<exists>spec. map_of (su_subnets (dt_setup t)) s = Some spec) \<and> dt_created_subnets t s = None" if "c = CmdCreate s" for s
    using c t(1,2) that by (auto simp: command_ok_def)
  moreover have "s \<in> set (creates_of (map snd before))" if "s \<in> set (subnet_refs c)" for s
    using c that by (auto simp: command_ok_def)
  ultimately show ?thesis by simp
qed

section \<open>Numbers as they are printed\<close>

lemma group_digits_filter: "CHR ''_'' \<notin> set s \<Longrightarrow> filter (\<lambda>c. c \<noteq> CHR ''_'') (group_digits i s) = s"
  by (induction s arbitrary: i) auto

lemma group_digits_chars: "c \<in> set (group_digits i s) \<Longrightarrow> c \<in> set s \<or> c = CHR ''_''"
  by (induction s arbitrary: i) (auto split: if_splits)

text \<open>
  An amount printed by the tester, with its digits in groups of three, is read back as the same
  amount by the parser of the scenario language.
\<close>

theorem printed_sats_roundtrip: "parse_u64_allow_underscores (fmt_sats_with_underscores n) = Inr n"
proof -
  let ?f = "fmt_sats_with_underscores n" and ?d = "dec (unat n)"
  have u: "CHR ''_'' \<notin> set ?d" using dec_digits [of "unat n"] by (auto simp: list_all_iff is_digit_def)
  have "list_all (\<lambda>c. is_digit c \<or> c = CHR ''_'') ?f"
    using dec_digits [of "unat n"] by (auto simp: fmt_sats_with_underscores_def list_all_iff dest: group_digits_chars)
  moreover have "filter (\<lambda>c. c \<noteq> CHR ''_'') ?f = ?d"
    using group_digits_filter [of "rev ?d" 0] u by (simp add: fmt_sats_with_underscores_def rev_filter [symmetric])
  ultimately have "normalize_numeric_literal ?f = ?d" by (simp add: normalize_numeric_literal_def)
  then show ?thesis
    using parse_uint_dec [of "unat n" 64] unsigned_less [of n, where 'a = nat] by (simp add: parse_u64_allow_underscores_def)
qed

section \<open>Expectations\<close>

lemma split_on_not_Nil: "split_on c s \<noteq> []"
  by (induction s) (auto split: list.splits)

lemma split_on_single: "split_on c s = [w] \<longleftrightarrow> s = w \<and> c \<notin> set w"
proof (induction s arbitrary: w)
  case (Cons x s)
  show ?case
  proof (cases "x = c")
    case False
    obtain p ps where sp: "split_on c s = p # ps" using split_on_not_Nil [of c s] by (cases "split_on c s") auto
    show ?thesis using Cons.IH [of p] Cons.IH [of s] False sp by (cases w) auto
  qed (use split_on_not_Nil [of c s] in auto)
qed auto

lemma split_on_pair: "c \<notin> set a \<Longrightarrow> c \<notin> set b \<Longrightarrow> split_on c (a @ c # b) = [a, b]"
proof (induction a)
  case Nil
  then show ?case using split_on_single [of c b b] by simp
qed auto

lemma split_on_two: "split_on c s = [a, b] \<longleftrightarrow> s = a @ c # b \<and> c \<notin> set a \<and> c \<notin> set b"
proof (induction s arbitrary: a)
  case (Cons x s)
  show ?case
  proof (cases "x = c")
    case False
    obtain p ps where sp: "split_on c s = p # ps" using split_on_not_Nil [of c s] by (cases "split_on c s") auto
    show ?thesis using Cons.IH [of p] Cons.IH [of "tl a"] False sp by (cases a) auto
  qed (use split_on_single [of c s b] in \<open>cases a; auto\<close>)
qed auto

lemma rewards_by_name_fold:
  assumes "distinct (map fst rs)" "\<And>p. names p = Some name \<longleftrightarrow> p = pk"
  shows "fold (\<lambda>(p, amt) m. case names p of
       Some n \<Rightarrow> m(n \<mapsto> (case m n of Some a \<Rightarrow> a | None \<Rightarrow> 0) + amt) | None \<Rightarrow> m) rs m name
     = (case map_of rs pk of None \<Rightarrow> m name | Some a \<Rightarrow> Some ((case m name of Some b \<Rightarrow> b | None \<Rightarrow> 0) + a))"
  using assms
proof (induction rs arbitrary: m)
  case (Cons x rs)
  obtain p a where x: "x = (p, a)" by (cases x)
  let ?m = "case names p of Some n \<Rightarrow> m(n \<mapsto> (case m n of Some a \<Rightarrow> a | None \<Rightarrow> 0) + a) | None \<Rightarrow> m"
  have "map_of rs pk = None" if "p = pk" using Cons.prems(1) x that by (simp add: map_of_eq_None_iff)
  moreover have "?m name = (if p = pk then Some ((case m name of Some b \<Rightarrow> b | None \<Rightarrow> 0) + a) else m name)"
    using Cons.prems(2) [of p] by (auto split: option.splits)
  ultimately show ?case using Cons.IH [of ?m] Cons.prems x by (auto split: option.splits)
qed simp

lemma rewards_by_name_eq:
  assumes "distinct (map fst rs)" "distinct (map (\<lambda>p. vs_pubkey (snd p)) (su_validators setup))"
    and "(name, v) \<in> set (su_validators setup)" "distinct (map fst (su_validators setup))"
  shows "rewards_by_name setup rs name = map_of rs (vs_pubkey v)"
proof -
  let ?names = "map_of (rev (map (\<lambda>(n, v). (vs_pubkey v, n)) (su_validators setup)))"
  have d: "distinct (map fst (map (\<lambda>(n, v). (vs_pubkey v, n)) (su_validators setup)))"
    using assms(2) by (simp add: comp_def case_prod_beta)
  have "?names p = Some name \<longleftrightarrow> p = vs_pubkey v" for p
  proof -
    have "?names p = Some name \<longleftrightarrow> (p, name) \<in> set (map (\<lambda>(n, v). (vs_pubkey v, n)) (su_validators setup))"
      using d map_of_eq_Some_iff [of "rev (map (\<lambda>(n, v). (vs_pubkey v, n)) (su_validators setup))" p name]
      by (simp only: rev_map [symmetric] distinct_rev set_rev)
    also have "\<dots> \<longleftrightarrow> p = vs_pubkey v" using assms(3,4) by (auto dest: eq_key_imp_eq_value)
    finally show ?thesis .
  qed
  from rewards_by_name_fold [OF assms(1) this, of Map.empty] show ?thesis
    by (auto simp: rewards_by_name_def split: option.splits)
qed

lemma rewards_by_name_undeclared:
  assumes "name \<notin> fst ` set (su_validators setup)"
  shows "rewards_by_name setup rs name = None"
proof -
  let ?names = "map_of (rev (map (\<lambda>(n, v). (vs_pubkey v, n)) (su_validators setup)))"
  have other: "?names p \<noteq> Some name" for p
    using assms by (force dest!: map_of_SomeD)
  have "m name = None \<Longrightarrow> fold (\<lambda>(pk, amt) m. case ?names pk of
      Some name \<Rightarrow> m(name \<mapsto> (case m name of Some a \<Rightarrow> a | None \<Rightarrow> 0) + amt) | None \<Rightarrow> m) rs m name = None" for m
    by (induction rs arbitrary: m) (auto simp: other split: option.splits)
  from this [of Map.empty] show ?thesis by (simp add: rewards_by_name_def)
qed

text \<open>
  What a scenario may say of the messages to a subnet: how many there are, and the value of a field of one
  of them.  The fields of a message are a table; numbers are compared as numbers and the rest as text.
\<close>

fun rootnet_fields :: "tester_env \<Rightarrow> rootnet_message \<Rightarrow> (string \<times> string) list" where
  "rootnet_fields E (FundSubnet m _ _ _ _) = [(''kind'', ''fund''), (''amount'', dec (unat (fm_amount m)))]"
| "rootnet_fields E (ErcTransfer etx _ _ _ _) = [(''kind'', ''erc_transfer''), (''amount'', dec (unat (et_amount etx))),
     (''token'', te_show_address E (et_home_token_address etx))]"
| "rootnet_fields E (ErcRegistration _ r _ _ _ _) = [(''kind'', ''erc_registration''), (''tokenName'', er_name r),
     (''tokenSymbol'', er_symbol r), (''tokenDecimals'', dec (unat (er_decimals r))),
     (''token'', te_show_address E (er_home_token_address r))]"

definition rootnet_holds :: "tester_env \<Rightarrow> rootnet_message list \<Rightarrow> string \<Rightarrow> string \<Rightarrow> bool" where
  "rootnet_holds E msgs path v \<longleftrightarrow> path = ''count'' \<and> parse_uint 64 v = Inr (length msgs mod 2 ^ 64)
   \<or> (\<exists>index field i got. path = index @ CHR ''.'' # field \<and> CHR ''.'' \<notin> set index \<and> CHR ''.'' \<notin> set field
        \<and> parse_uint 64 index = Inr i \<and> i < length msgs
        \<and> map_of (rootnet_fields E (msgs ! i)) field = Some got \<and> values_match got v)"

text \<open>
  What it may say of the result of a snapshot: the collateral a validator is rewarded for, where a name that
  is not declared or has no entry counts as zero, and the total.
\<close>

definition rewarded :: "setup_spec \<Rightarrow> rewards \<Rightarrow> string \<Rightarrow> u64" where
  "rewarded setup rs name = (case map_of (su_validators setup) name of None \<Rightarrow> 0
     | Some val \<Rightarrow> (case map_of rs (vs_pubkey val) of Some a \<Rightarrow> a | None \<Rightarrow> 0))"

definition reward_holds :: "setup_spec \<Rightarrow> snapshot_result \<Rightarrow> string \<Rightarrow> string \<Rightarrow> bool" where
  "reward_holds setup r path v \<longleftrightarrow>
     path = ''total_rewarded_collateral'' \<and> parse_uint 64 v = Inr (unat (sr_total_rewarded_collateral r))
   \<or> (\<exists>list name. list \<in> {''rewards_list'', ''reward_list''} \<and> path = list @ CHR ''.'' # name \<and> CHR ''.'' \<notin> set name
        \<and> parse_uint 64 v = Inr (unat (rewarded setup (sr_rewards_list r) name)))"

lemma msg_field_table: "msg_field_value E msg field = Inr x \<longleftrightarrow> map_of (rootnet_fields E msg) field = Some x"
  by (cases msg) (auto simp: msg_field_value_def)

lemma length_2_eq: "length xs = 2 \<longleftrightarrow> (\<exists>a b. xs = [a, b])"
  by (auto simp: numeral_2_eq_2 length_Suc_conv)

lemma expect_rootnet_iff: "(\<exists>m. expect_rootnet E msgs target v = Inr m) \<longleftrightarrow> rootnet_holds E msgs (tg_path target) v"
proof -
  consider "split_on (CHR ''.'') (tg_path target) = [''count'']"
    | a b where "split_on (CHR ''.'') (tg_path target) = [a, b]"
    | "split_on (CHR ''.'') (tg_path target) \<noteq> [''count'']" "length (split_on (CHR ''.'') (tg_path target)) \<noteq> 2"
    using length_2_eq by metis
  then show ?thesis
  proof cases
    case 1
    then have "tg_path target = ''count''" by (simp add: split_on_single)
    moreover have "''count'' \<noteq> index @ CHR ''.'' # field" for index field
    proof
      assume "''count'' = index @ CHR ''.'' # field"
      then have "CHR ''.'' \<in> set ''count''" by (metis in_set_conv_decomp)
      then show False by simp
    qed
    ultimately show ?thesis using 1 by (auto simp: expect_rootnet_def rootnet_holds_def tester_simps)
  next
    case (2 a b)
    then have p: "tg_path target = a @ CHR ''.'' # b" "CHR ''.'' \<notin> set a" "CHR ''.'' \<notin> set b"
      using split_on_two by metis+
    have u: "tg_path target = a' @ CHR ''.'' # b' \<and> CHR ''.'' \<notin> set a' \<and> CHR ''.'' \<notin> set b' \<longleftrightarrow> a' = a \<and> b' = b" for a' b'
      using split_on_two [of "CHR ''.''" "tg_path target" a' b'] 2 by auto
    have n: "tg_path target \<noteq> ''count''" using 2 split_on_single [of "CHR ''.''" "''count''" "''count''"] by auto
    have "rootnet_holds E msgs (tg_path target) v \<longleftrightarrow> (\<exists>i got. parse_uint 64 a = Inr i \<and> i < length msgs
        \<and> map_of (rootnet_fields E (msgs ! i)) b = Some got \<and> values_match got v)"
      unfolding rootnet_holds_def using n u by metis
    moreover have "(\<exists>m. expect_rootnet E msgs target v = Inr m) \<longleftrightarrow> (\<exists>i got. parse_uint 64 a = Inr i \<and> i < length msgs
        \<and> msg_field_value E (msgs ! i) b = Inr got \<and> values_match got v)"
    proof (cases "parse_uint 64 a")
      case (Inr i)
      then show ?thesis
        using 2 by (cases "msg_field_value E (msgs ! i) b") (auto simp: expect_rootnet_def Let_def)
    qed (use 2 in \<open>simp add: expect_rootnet_def\<close>)
    ultimately show ?thesis by (simp add: msg_field_table)
  next
    case 3
    then have "\<not> rootnet_holds E msgs (tg_path target) v"
      using split_on_single [of "CHR ''.''" "''count''" "''count''"] split_on_pair by (auto simp: rootnet_holds_def)
    with 3 show ?thesis by (simp add: expect_rootnet_def)
  qed
qed

lemma parse_uint_word: "parse_uint 64 v = Inr n \<Longrightarrow> of_nat n = (x :: u64) \<longleftrightarrow> n = unat x"
  using parse_uint_bound [of 64 v n] by (auto simp: unat_of_nat)

lemma expect_rewards_iff:
  assumes "distinct (map fst (sr_rewards_list r))" "distinct (map (\<lambda>p. vs_pubkey (snd p)) (su_validators setup))"
    and "distinct (map fst (su_validators setup))"
    and "lr_rewards_by_validator l = rewards_by_name setup (sr_rewards_list r)" "lr_total_sats l = sr_total_rewarded_collateral r"
  shows "(\<exists>m. expect_rewards l target v = Inr m) \<longleftrightarrow> reward_holds setup r (tg_path target) v"
proof -
  have by_name: "(case rewards_by_name setup (sr_rewards_list r) name of Some a \<Rightarrow> a | None \<Rightarrow> 0)
      = rewarded setup (sr_rewards_list r) name" for name
  proof (cases "map_of (su_validators setup) name")
    case None
    then have "rewards_by_name setup (sr_rewards_list r) name = None"
      by (intro rewards_by_name_undeclared) (simp add: map_of_eq_None_iff)
    with None show ?thesis by (simp add: rewarded_def)
  next
    case (Some val)
    then show ?thesis using rewards_by_name_eq [OF assms(1,2) map_of_SomeD assms(3)] by (simp add: rewarded_def)
  qed
  let ?parts = "split_on (CHR ''.'') (tg_path target)"
  have total: "tg_path target = ''total_rewarded_collateral'' \<longleftrightarrow> ?parts = [''total_rewarded_collateral'']"
    by (simp add: split_on_single)
  have lists: "(tg_path target = l @ CHR ''.'' # name \<and> CHR ''.'' \<notin> set name) \<longleftrightarrow> ?parts = [l, name]"
    if "l \<in> {''rewards_list'', ''reward_list''}" for l name
    using that by (auto simp: split_on_two)
  have "reward_holds setup r (tg_path target) v \<longleftrightarrow>
       ?parts = [''total_rewarded_collateral''] \<and> parse_uint 64 v = Inr (unat (sr_total_rewarded_collateral r))
     \<or> (\<exists>l name. l \<in> {''rewards_list'', ''reward_list''} \<and> ?parts = [l, name]
          \<and> parse_uint 64 v = Inr (unat (rewarded setup (sr_rewards_list r) name)))"
    unfolding reward_holds_def total using lists by metis
  also have "\<dots> \<longleftrightarrow> (\<exists>m. expect_rewards l target v = Inr m)"
  proof (cases "parse_uint 64 v")
    case (Inr n)
    consider a b where "?parts = [a, b]" | "length ?parts \<noteq> 2" using length_2_eq by metis
    moreover have "unat (of_nat n :: u64) = n" using parse_uint_word [OF Inr, of "of_nat n"] by simp
    ultimately show ?thesis
      using assms(4,5) Inr by cases (auto simp: expect_rewards_def tester_simps by_name parse_uint_word [OF Inr])
  qed (simp add: expect_rewards_def)
  finally show ?thesis by simp
qed

text \<open>
  C35. An expectation passes exactly when the database had the value at the last read, for every path and every
  value that a scenario can write: after a read of a token balance the path must be the balance; after a
  read of the messages to a subnet it is their number or a field of one of them, by its index in the
  database; after a read of the rewards of a snapshot it is the reward of a validator or the total.  For
  the rewards the validators of the setup have different names and keys and the result has one entry per
  key, as the results that are written have; when the snapshot has no result, no expectation passes.
\<close>

theorem expectations_read_the_database:
  "(\<forall>s tok t t1 tg v. db_exec_output_read X OutTokenBalance [s, tok] t = Inr t1 \<longrightarrow>
      ((\<exists>msg. db_exec_output_expect E tg v t1 = Inr msg) \<longleftrightarrow>
       (\<exists>sid home_name home reg. dt_created_subnets t s = Some sid \<and> dt_registered_tokens t tok = Some (home_name, reg)
          \<and> dt_created_subnets t home_name = Some home \<and> tg_path tg = ''balance''
          \<and> parse_u256_allow_underscores E v = Inr (get_token_balance X (dt_db t) home (er_home_token_address reg) sid))))
   \<and> (\<forall>s t t1 tg v. db_exec_output_read X OutRootnetMsgs [s] t = Inr t1 \<longrightarrow>
      ((\<exists>msg. db_exec_output_expect E tg v t1 = Inr msg) \<longleftrightarrow>
       (\<exists>sid. dt_created_subnets t s = Some sid \<and> rootnet_holds E (get_all_rootnet_msgs X (dt_db t) sid) (tg_path tg) v)))
   \<and> (\<forall>k arg t t1 tg v. db_exec_output_read X OutRewardResults [arg] t = Inr t1 \<longrightarrow> parse_uint 64 arg = Inr (unat k) \<longrightarrow>
      distinct (map (\<lambda>p. vs_pubkey (snd p)) (su_validators (dt_setup t))) \<longrightarrow> distinct (map fst (su_validators (dt_setup t))) \<longrightarrow>
      (\<forall>r. get_snapshot_result (dt_db t) k = Some r \<longrightarrow> distinct (map fst (sr_rewards_list r))) \<longrightarrow>
      ((\<exists>msg. db_exec_output_expect E tg v t1 = Inr msg) \<longleftrightarrow>
       (\<exists>r. get_snapshot_result (dt_db t) k = Some r \<and> reward_holds (dt_setup t) r (tg_path tg) v)))"
proof (intro conjI allI impI)
  fix s tok t t1 v and tg :: output_expect_target
  assume "db_exec_output_read X OutTokenBalance [s, tok] t = Inr t1"
  then show "(\<exists>msg. db_exec_output_expect E tg v t1 = Inr msg) \<longleftrightarrow>
       (\<exists>sid home_name home reg. dt_created_subnets t s = Some sid \<and> dt_registered_tokens t tok = Some (home_name, reg)
          \<and> dt_created_subnets t home_name = Some home \<and> tg_path tg = ''balance''
          \<and> parse_u256_allow_underscores E v = Inr (get_token_balance X (dt_db t) home (er_home_token_address reg) sid))"
    by (auto simp: db_exec_output_read_def read_token_balance_def read_arg_def reset_reads_def resolve_subnet_id_def tester_simps
        db_exec_output_expect_def expect_balance_def split_on_single split: if_splits)
next
  fix s t t1 v and tg :: output_expect_target
  assume "db_exec_output_read X OutRootnetMsgs [s] t = Inr t1"
  then obtain sid where "dt_created_subnets t s = Some sid" "dt_last_rootnet_msgs t1 = Some (get_all_rootnet_msgs X (dt_db t) sid)"
      "dt_last_token_balance t1 = None" "dt_last_reward_results t1 = None"
    by (auto simp: db_exec_output_read_def read_rootnet_msgs_def read_arg_def reset_reads_def resolve_subnet_id_def tester_simps)
  then show "(\<exists>msg. db_exec_output_expect E tg v t1 = Inr msg) \<longleftrightarrow>
       (\<exists>sid. dt_created_subnets t s = Some sid \<and> rootnet_holds E (get_all_rootnet_msgs X (dt_db t) sid) (tg_path tg) v)"
    by (simp add: db_exec_output_expect_def ok_or_def expect_rootnet_iff)
next
  fix k arg t t1 v and tg :: output_expect_target
  assume a: "db_exec_output_read X OutRewardResults [arg] t = Inr t1" "parse_uint 64 arg = Inr (unat k)"
    "distinct (map (\<lambda>p. vs_pubkey (snd p)) (su_validators (dt_setup t)))" "distinct (map fst (su_validators (dt_setup t)))"
    "\<forall>r. get_snapshot_result (dt_db t) k = Some r \<longrightarrow> distinct (map fst (sr_rewards_list r))"
  from a(1,2) have t1: "dt_last_token_balance t1 = None" "dt_last_rootnet_msgs t1 = None" "dt_last_reward_results t1 =
      map_option (\<lambda>r. \<lparr> lr_snapshot = k, lr_rewards_by_validator = rewards_by_name (dt_setup t) (sr_rewards_list r),
           lr_total_sats = sr_total_rewarded_collateral r \<rparr>) (get_snapshot_result (dt_db t) k)"
    by (auto simp: db_exec_output_read_def read_reward_results_def read_number_def read_arg_def reset_reads_def tester_simps
        split: option.splits)
  show "(\<exists>msg. db_exec_output_expect E tg v t1 = Inr msg) \<longleftrightarrow>
       (\<exists>r. get_snapshot_result (dt_db t) k = Some r \<and> reward_holds (dt_setup t) r (tg_path tg) v)"
  proof (cases "get_snapshot_result (dt_db t) k")
    case None
    then show ?thesis using t1 by (simp add: db_exec_output_expect_def ok_or_def)
  next
    case (Some r)
    then show ?thesis using t1 a(3-5) by (simp add: db_exec_output_expect_def expect_rewards_iff [of r])
  qed
qed

section \<open>A run\<close>

definition demo_ops :: "db_tester tester" where
  "demo_ops = db_tester_ops demo_ext demo_tester (\<lambda>rs. rs)"

definition demo_start :: db_tester where
  "demo_start = (case db_tester_new demo_setup None None of Inr t \<Rightarrow> t)"

definition demo_created :: db_tester where
  "demo_created = (case run_scenario demo_ops (enumerate 10 (take 2 demo_commands)) 1 demo_start of Inr (_, t) \<Rightarrow> t)"

lemma demo_new: "db_tester_new demo_setup None None = Inr demo_start"
  by (simp add: demo_start_def db_tester_new_def)

lemma demo_create:
  "run_scenario demo_ops (enumerate 10 (take 2 demo_commands)) 1 demo_start = Inr (2, demo_created)"
  "dt_created_subnets demo_created ''subnet1'' \<noteq> None" "rootnet_msgs_db (dt_db demo_created) = []"
proof -
  have "\<exists>spec. map_of (su_subnets demo_setup) ''subnet1'' = Some spec \<and> sp_min_validators spec = 4
     \<and> length (sp_whitelist_pubkeys spec) = 4"
    by (simp add: demo_setup_def demo_names_def Let_def)
  then obtain spec where spec: "map_of (su_subnets demo_setup) ''subnet1'' = Some spec" "sp_min_validators spec = 4"
    "length (sp_whitelist_pubkeys spec) = 4" by blast
  have v: "create_validate (build_create_subnet_msg spec) = Inr ()"
    using spec by (simp add: create_validate_def build_create_subnet_msg_def)
  let ?t1 = "mine_block demo_tester 1 demo_start"
  have "map of_nat [Suc 0..<2] = [1 :: u64]" by (simp add: upt_rec)
  moreover have start: "dt_reward_tracker ?t1 = None" "dt_setup ?t1 = demo_setup" "dt_created_subnets ?t1 = Map.empty"
      "rootnet_msgs_db (dt_db ?t1) = []"
    by (simp_all add: mine_block_def block_hash_at_def draw_def demo_start_def db_tester_new_def
        set_last_processed_block_def empty_db_def Let_def)
  ultimately have b: "run_command demo_ops (CmdBlock 2) (1, demo_start) = Inr (2, ?t1)"
    by (simp add: run_command_def run_block_def demo_ops_def db_tester_ops_def db_exec_mine_block_def)
  have "\<exists>t. run_command demo_ops (CmdCreate ''subnet1'') (2, ?t1) = Inr (2, t)
     \<and> dt_created_subnets t ''subnet1'' \<noteq> None \<and> rootnet_msgs_db (dt_db t) = []"
    using spec(1) v start
    by (simp add: run_command_def demo_ops_def db_tester_ops_def tester_create_def draw_def
        create_save_to_db_def save_subnet_genesis_info_def ok_or_def Let_def)
  with b have "\<exists>t. run_scenario demo_ops (enumerate 10 (take 2 demo_commands)) 1 demo_start = Inr (2, t)
     \<and> dt_created_subnets t ''subnet1'' \<noteq> None \<and> rootnet_msgs_db (dt_db t) = []"
    by (auto simp: run_scenario_def demo_commands_def)
  then show "run_scenario demo_ops (enumerate 10 (take 2 demo_commands)) 1 demo_start = Inr (2, demo_created)"
  "dt_created_subnets demo_created ''subnet1'' \<noteq> None" "rootnet_msgs_db (dt_db demo_created) = []"
    by (auto simp: demo_created_def)
qed

theorem tester_runs_the_handlers_witness:
  "run_scenario (db_tester_ops demo_ext demo_tester (\<lambda>rs. rs)) (enumerate 10 (take 2 demo_commands)) 1 demo_start = Inr (2, demo_created)
     \<and> (handler_step demo_ext)\<^sup>*\<^sup>* (dt_db demo_start) (dt_db demo_created)"
  using demo_create(1) tester_runs_the_handlers [OF demo_create(1) [unfolded demo_ops_def]] by (simp add: demo_ops_def)

theorem parsed_names_resolve_witness:
  "(\<exists>sid. resolve_subnet_id ''subnet1'' demo_created = Inr sid) \<and> (\<exists>val. resolve_validator ''validator1'' demo_created = Inr val)
   \<and> \<not> (\<exists>sid. resolve_subnet_id ''typo'' demo_created = Inr sid) \<and> dt_registered_tokens demo_created ''tok'' = None"
proof -
  have "enumerate 10 demo_commands = enumerate 10 (take 2 demo_commands) @ (12, CmdJoin ''subnet1'' ''validator1'' 200000)
      # enumerate 13 (drop 3 demo_commands)"
    by (simp add: demo_commands_def)
  note n = parsed_names_resolve [OF demo_test_parses, of None None demo_start, simplified, OF demo_new this demo_create(1) [unfolded demo_ops_def]]
  have "set (creates_of (take 2 demo_commands)) = {''subnet1''}" "set (tokens_of (take 2 demo_commands)) = {}"
    by (simp_all add: creates_of_def tokens_of_def demo_commands_def)
  note n = n [unfolded map_snd_enumerate this]
  have "dt_registered_tokens demo_created tok = None" for tok
    using n [THEN conjunct2, THEN conjunct1, rule_format, of tok] by (cases "dt_registered_tokens demo_created tok") auto
  with n show ?thesis by simp
qed

definition demo_seen :: db_tester where
  "demo_seen = demo_start\<lparr> dt_created_subnets := [''subnet1'' \<mapsto> demo_id],
     dt_reward_tracker := Some \<lparr> rc_activation_height = 10, rc_snapshot_length = 5 \<rparr>,
     dt_db := empty_db\<lparr> rootnet_msgs_db := [(rootnet_msgs_prefix demo_ext demo_id,
         ErcTransfer \<lparr> et_home_subnet_id = demo_id, et_home_token_address = replicate 20 1, et_amount = 300,
           et_destination_subnet_id = demo_id, et_recipient = replicate 20 2 \<rparr> 9 (replicate 32 3) 4 (replicate 32 5))],
       reward_results_db := [(reward_result_key 2, \<lparr> sr_rewards_list = [(replicate 32 1, 700)], sr_total_rewarded_collateral = 700 \<rparr>)] \<rparr> \<rparr>"

abbreviation demo_target :: "string \<Rightarrow> output_expect_target" where
  "demo_target path \<equiv> \<lparr> tg_path = path, tg_line_no = 14 \<rparr>"

theorem expectations_read_the_database_witness:
  "(\<exists>t1. db_exec_output_read demo_ext OutRootnetMsgs [''subnet1''] demo_seen = Inr t1
     \<and> (\<exists>m. db_exec_output_expect demo_tester (demo_target ''count'') ''1'' t1 = Inr m)
     \<and> (\<exists>m. db_exec_output_expect demo_tester (demo_target ''0.amount'') ''300'' t1 = Inr m))
   \<and> (\<exists>t1. db_exec_output_read demo_ext OutRewardResults [''2''] demo_seen = Inr t1
     \<and> (\<exists>m. db_exec_output_expect demo_tester (demo_target ''rewards_list.validator1'') ''700'' t1 = Inr m)
     \<and> (\<exists>m. db_exec_output_expect demo_tester (demo_target ''total_rewarded_collateral'') ''700'' t1 = Inr m))"
proof (intro conjI)
  note all = expectations_read_the_database [of demo_ext demo_tester]
  have num: "parse_uint 64 ''1'' = Inr 1" "parse_uint 64 ''0'' = Inr 0" "parse_uint 64 ''2'' = Inr (unat (2 :: u64))"
    "parse_uint 64 ''300'' = Inr 300" "parse_uint 64 ''700'' = Inr 700"
    by (simp_all add: parse_uint_def is_digit_def)
  let ?msgs = "get_all_rootnet_msgs demo_ext (dt_db demo_seen) demo_id"
  have msgs: "length ?msgs = 1" "map_of (rootnet_fields demo_tester (?msgs ! 0)) ''amount'' = Some (dec 300)"
    by (simp_all add: demo_seen_def get_all_rootnet_msgs_def kv_prefix_iter_def)
  have "values_match (dec 300) ''300''" using num(4) by (simp add: values_match_def parse_uint_dec)
  then have "rootnet_holds demo_tester ?msgs (''0'' @ CHR ''.'' # ''amount'') ''300''" "rootnet_holds demo_tester ?msgs ''count'' ''1''"
    unfolding rootnet_holds_def using msgs num by (force, simp)
  moreover obtain t1 where "db_exec_output_read demo_ext OutRootnetMsgs [''subnet1''] demo_seen = Inr t1"
    by (simp add: db_exec_output_read_def read_rootnet_msgs_def read_arg_def resolve_subnet_id_def reset_reads_def Let_def ok_or_def demo_seen_def)
  moreover have "dt_created_subnets demo_seen ''subnet1'' = Some demo_id" by (simp add: demo_seen_def)
  ultimately show "\<exists>t1. db_exec_output_read demo_ext OutRootnetMsgs [''subnet1''] demo_seen = Inr t1
     \<and> (\<exists>m. db_exec_output_expect demo_tester (demo_target ''count'') ''1'' t1 = Inr m)
     \<and> (\<exists>m. db_exec_output_expect demo_tester (demo_target ''0.amount'') ''300'' t1 = Inr m)"
    using all [THEN conjunct2, THEN conjunct1, rule_format, of "''subnet1''" demo_seen] by auto
  let ?r = "\<lparr> sr_rewards_list = [(replicate 32 1 :: bytes, 700 :: amount)], sr_total_rewarded_collateral = 700 \<rparr>"
  have st: "dt_setup demo_seen = demo_setup" by (simp add: demo_seen_def demo_start_def db_tester_new_def)
  have r: "get_snapshot_result (dt_db demo_seen) 2 = Some ?r"
    by (simp add: demo_seen_def get_snapshot_result_def kv_get_def)
  have "distinct (map (\<lambda>p. vs_pubkey (snd p)) (su_validators demo_setup))" "distinct (map fst (su_validators demo_setup))"
    "rewarded demo_setup (sr_rewards_list ?r) ''validator1'' = 700"
    by (simp_all add: demo_setup_def demo_names_def generate_validator_def demo_tester_def rewarded_def Let_def)
  moreover from this(3) have "reward_holds demo_setup ?r (''rewards_list'' @ CHR ''.'' # ''validator1'') ''700''"
    "reward_holds demo_setup ?r ''total_rewarded_collateral'' ''700''"
    unfolding reward_holds_def using num(5) by (force, simp)
  moreover obtain t1 where "db_exec_output_read demo_ext OutRewardResults [''2''] demo_seen = Inr t1"
    using num(3) r by (simp add: db_exec_output_read_def read_reward_results_def read_number_def read_arg_def reset_reads_def ok_or_def demo_seen_def)
  ultimately show "\<exists>t1. db_exec_output_read demo_ext OutRewardResults [''2''] demo_seen = Inr t1
     \<and> (\<exists>m. db_exec_output_expect demo_tester (demo_target ''rewards_list.validator1'') ''700'' t1 = Inr m)
     \<and> (\<exists>m. db_exec_output_expect demo_tester (demo_target ''total_rewarded_collateral'') ''700'' t1 = Inr m)"
    using all [THEN conjunct2, THEN conjunct2, rule_format, of "''2''" demo_seen _ 2] num(3) r st by auto
qed

end
