(* ===== verification/Live_Facts.thy ===== *)
theory Live_Facts
  imports Live Tester_Facts
begin

text \<open>
  What the monitor tester guarantees: no process that it has started survives a failed start or the end of
  the tester, it queues the same token messages as the database tester, and it judges an expectation as
  the database tester does.
\<close>

section \<open>Processes\<close>

text \<open>
  What the operating system promises of processes: only a spawn adds one, every other operation can at
  most end some, and a kill by number that reports success has ended the process.
\<close>

definition process_laws :: "'w host \<Rightarrow> ('w \<Rightarrow> u32 set) \<Rightarrow> bool" where
  "process_laws H alive \<longleftrightarrow>
     (\<forall>prog args w r w' d. ho_spawn H prog args w = (r, w', d) \<longrightarrow> alive w' \<subseteq> alive w \<union> (case r of Inr pid \<Rightarrow> {pid} | Inl _ \<Rightarrow> {}))
   \<and> (\<forall>prog args w r w' d. ho_output H prog args w = (r, w', d) \<longrightarrow> alive w' \<subseteq> alive w)
   \<and> (\<forall>pid w out w' d. ho_output H ''kill'' [''-9'', dec (unat pid)] w = (Inr out, w', d) \<longrightarrow> po_success out \<longrightarrow> pid \<notin> alive w')
   \<and> (\<forall>ms w. alive (ho_sleep H ms w) \<subseteq> alive w)
   \<and> (\<forall>path content w r w' d. ho_write H path content w = (r, w', d) \<longrightarrow> alive w' \<subseteq> alive w)
   \<and> (\<forall>path w r w' d. ho_create H path w = (r, w', d) \<longrightarrow> alive w' \<subseteq> alive w)
   \<and> (\<forall>path w r w' d. ho_create_dir H path w = (r, w', d) \<longrightarrow> alive w' \<subseteq> alive w)
   \<and> (\<forall>w r w' d. ho_tempdir H w = (r, w', d) \<longrightarrow> alive w' \<subseteq> alive w)
   \<and> (\<forall>w p w'. ho_free_port H w = (p, w') \<longrightarrow> alive w' \<subseteq> alive w)"

lemma process_lawsD:
  assumes "process_laws H alive"
  shows "ho_spawn H prog args w = (r, w', d) \<Longrightarrow> alive w' \<subseteq> alive w \<union> (case r of Inr pid \<Rightarrow> {pid} | Inl _ \<Rightarrow> {})"
    and "ho_output H prog args w = (q, w', d) \<Longrightarrow> alive w' \<subseteq> alive w"
    and "ho_output H ''kill'' [''-9'', dec (unat pid)] w = (Inr out, w', d) \<Longrightarrow> po_success out \<Longrightarrow> pid \<notin> alive w'"
    and "alive (ho_sleep H ms w) \<subseteq> alive w"
    and "ho_write H path content w = (u, w', d) \<Longrightarrow> alive w' \<subseteq> alive w"
    and "ho_create H path w = (u, w', d) \<Longrightarrow> alive w' \<subseteq> alive w"
    and "ho_create_dir H path w = (u, w', d) \<Longrightarrow> alive w' \<subseteq> alive w"
    and "ho_tempdir H w = (x, w', d) \<Longrightarrow> alive w' \<subseteq> alive w"
    and "ho_free_port H w = (n, w') \<Longrightarrow> alive w' \<subseteq> alive w"
proof -
  note L = assms [unfolded process_laws_def]
  show "ho_spawn H prog args w = (r, w', d) \<Longrightarrow> alive w' \<subseteq> alive w \<union> (case r of Inr pid \<Rightarrow> {pid} | Inl _ \<Rightarrow> {})"
    by (rule L [THEN conjunct1, rule_format])
  show "ho_output H prog args w = (q, w', d) \<Longrightarrow> alive w' \<subseteq> alive w"
    by (rule L [THEN conjunct2, THEN conjunct1, rule_format])
  show "ho_output H ''kill'' [''-9'', dec (unat pid)] w = (Inr out, w', d) \<Longrightarrow> po_success out \<Longrightarrow> pid \<notin> alive w'"
    by (rule L [THEN conjunct2, THEN conjunct2, THEN conjunct1, rule_format])
  show "alive (ho_sleep H ms w) \<subseteq> alive w"
    by (rule L [THEN conjunct2, THEN conjunct2, THEN conjunct2, THEN conjunct1, rule_format])
  show "ho_write H path content w = (u, w', d) \<Longrightarrow> alive w' \<subseteq> alive w"
    by (rule L [THEN conjunct2, THEN conjunct2, THEN conjunct2, THEN conjunct2, THEN conjunct1, rule_format])
  show "ho_create H path w = (u, w', d) \<Longrightarrow> alive w' \<subseteq> alive w"
    by (rule L [THEN conjunct2, THEN conjunct2, THEN conjunct2, THEN conjunct2, THEN conjunct2, THEN conjunct1, rule_format])
  show "ho_create_dir H path w = (u, w', d) \<Longrightarrow> alive w' \<subseteq> alive w"
    by (rule L [THEN conjunct2, THEN conjunct2, THEN conjunct2, THEN conjunct2, THEN conjunct2, THEN conjunct2, THEN conjunct1, rule_format])
  show "ho_tempdir H w = (x, w', d) \<Longrightarrow> alive w' \<subseteq> alive w"
    by (rule L [THEN conjunct2, THEN conjunct2, THEN conjunct2, THEN conjunct2, THEN conjunct2, THEN conjunct2, THEN conjunct2, THEN conjunct1, rule_format])
  show "ho_free_port H w = (n, w') \<Longrightarrow> alive w' \<subseteq> alive w"
    by (rule L [THEN conjunct2, THEN conjunct2, THEN conjunct2, THEN conjunct2, THEN conjunct2, THEN conjunct2, THEN conjunct2, THEN conjunct2, rule_format])
qed

text \<open>
  The processes on which a kill can fail while they run, because it cannot be run or reports a failure.  The
  program does not look at what a kill returns.
\<close>

definition unkillable :: "'w host \<Rightarrow> ('w \<Rightarrow> u32 set) \<Rightarrow> u32 set" where
  "unkillable H alive = {pid. \<exists>w r w' d. ho_output H ''kill'' [''-9'', dec (unat pid)] w = (r, w', d) \<and> pid \<in> alive w
     \<and> (case r of Inl e \<Rightarrow> True | Inr out \<Rightarrow> \<not> po_success out)}"

text \<open>The processes that run are those of the start and those that the guard tracks.\<close>

definition guarded :: "('w \<Rightarrow> u32 set) \<Rightarrow> u32 set \<Rightarrow> u32 list \<times> 'w \<Rightarrow> bool" where
  "guarded alive A = (\<lambda>(pids, w). alive w \<subseteq> A \<union> set pids)"

lemma guarded_shrink: "guarded alive A (p, w) \<Longrightarrow> alive w' \<subseteq> alive w \<Longrightarrow> guarded alive A (p, w')"
  by (auto simp: guarded_def)

lemma keeps_worldly:
  assumes "\<And>p w r s' d. m (p, w) = (r, s', d) \<Longrightarrow> \<exists>w'. s' = (p, w') \<and> alive w' \<subseteq> alive w"
  shows "keeps (guarded alive A) m"
  unfolding keeps_def
proof clarify
  fix p w assume g: "guarded alive A (p, w)"
  obtain r s' d where m: "m (p, w) = (r, s', d)" by (cases "m (p, w)") auto
  with assms [OF m] guarded_shrink [OF g] show "guarded alive A (fst (snd (m (p, w))))" by auto
qed

lemma keeps_collect [keeps_intros]: "(\<And>x. keeps P (f x)) \<Longrightarrow> keeps P (io_collect f xs)"
  by (induction xs) (auto intro!: keeps_intros)

lemma keeps_cases [keeps_intros]:
  "keeps P m \<Longrightarrow> keeps P k \<Longrightarrow> keeps P (if b then m else k)"
  "(\<And>e. keeps P (f e)) \<Longrightarrow> (\<And>a. keeps P (g a)) \<Longrightarrow> keeps P (case r of Inl e \<Rightarrow> f e | Inr a \<Rightarrow> g a)"
  "(\<And>a b. keeps P (h a b)) \<Longrightarrow> keeps P (case x of (a, b) \<Rightarrow> h a b)"
  by (auto split: sum.splits prod.splits)

lemma guarded_basic:
  assumes "process_laws H alive"
  shows "keeps (guarded alive A) (io_output H prog args)" "keeps (guarded alive A) (io_sleep H ms)"
    "keeps (guarded alive A) (io_world (ho_write H path content) g)" "keeps (guarded alive A) (io_world (ho_create H path) g)"
    "keeps (guarded alive A) (io_world (ho_create_dir H path) g)" "keeps (guarded alive A) (io_world (ho_tempdir H) g')"
    "keeps (guarded alive A) (io_free_port H)"
  by (rule keeps_worldly, auto simp: io_output_def io_sleep_def io_world_def io_free_port_def split: prod.splits
      dest: process_lawsD(2,5-9) [OF assms, THEN subsetD] process_lawsD(4) [OF assms, THEN subsetD])+

lemma guarded_spawn:
  assumes "process_laws H alive"
  shows "keeps (guarded alive A) (spawn_tracked H prog args what)"
  unfolding keeps_def
proof clarify
  fix p w assume g: "guarded alive A (p, w)"
  obtain r w' d where s: "ho_spawn H prog args w = (r, w', d)" by (cases "ho_spawn H prog args w") auto
  then have "alive w' \<subseteq> alive w \<union> (case r of Inr pid \<Rightarrow> {pid} | Inl _ \<Rightarrow> {})"
    by (rule process_lawsD(1) [OF assms])
  with g s show "guarded alive A (fst (snd (spawn_tracked H prog args what (p, w))))"
    by (auto simp: spawn_tracked_def guarded_def split: sum.splits)
qed

lemma guarded_files:
  assumes "process_laws H alive"
  shows "keeps (guarded alive A) (open_log H name)" "keeps (guarded alive A) (write_env H path port db sk ah sl ll)"
    "keeps (guarded alive A) (write_bitcoin_conf H dir)" "keeps (guarded alive A) (write_validator_sk H dir name key)"
    "keeps (guarded alive A) (bitcoin_cli H dir args)" "keeps (guarded alive A) (which H name)"
    "keeps (guarded alive A) (compile_binaries H)" "keeps (guarded alive A) (io_status H name args)"
  unfolding open_log_def write_env_def write_bitcoin_conf_def write_validator_sk_def write_file_def bitcoin_cli_def which_def
    compile_binaries_def io_status_def
  by (intro keeps_intros guarded_basic [OF assms])+

lemma guarded_waits:
  assumes "process_laws H alive"
  shows "keeps (guarded alive A) (wait_for_bitcoind H dir n)" "keeps (guarded alive A) (wait_for_provider_http H port tok n)"
    "keeps (guarded alive A) (wait_for_file H path)" "keeps (guarded alive A) (stop_running_bitcoind H)"
proof -
  have "keeps (guarded alive A) (\<lambda>(t, w). (Inr (if ho_exists H path w then Done ()
          else Again (Runtime ''timed out waiting for monitor to initialize DB'')), (t, w), 0))"
    by (rule keeps_worldly) auto
  then show "keeps (guarded alive A) (wait_for_file H path)"
    unfolding wait_for_file_def by (intro keeps_poll guarded_basic [OF assms])
qed (unfold wait_for_bitcoind_def wait_for_provider_http_def stop_running_bitcoind_def bitcoind_running_def Let_def,
    (intro keeps_intros guarded_basic [OF assms] guarded_files [OF assms])+)

lemma guarded_start:
  assumes "process_laws H alive"
  shows "keeps (guarded alive A) (start_all H root setup ah sl ml pl)"
  unfolding start_all_def start_bitcoind_def start_monitor_def start_provider_def Let_def
  by (intro keeps_intros guarded_basic [OF assms] guarded_files [OF assms] guarded_waits [OF assms] guarded_spawn [OF assms])

text \<open>Only a spawn changes what the guard tracks.\<close>

abbreviation framed :: "'p \<Rightarrow> ('p \<times> 'w, 'a) io \<Rightarrow> bool" where
  "framed p m \<equiv> keeps (\<lambda>(q, w). q = p) m"

lemma framed_basic:
  "framed p (io_output H prog args)" "framed p (io_sleep H ms)" "framed p (io_world f g)" "framed p (io_free_port H)"
  by (auto simp: keeps_def io_output_def io_sleep_def io_world_def io_free_port_def split: prod.splits)

lemma framed_ops:
  "framed p (open_log H name)" "framed p (write_env H path port db sk ah sl ll)" "framed p (write_bitcoin_conf H dir)"
  "framed p (write_validator_sk H dir name key)" "framed p (bitcoin_cli H dir args)" "framed p (which H name)"
  "framed p (compile_binaries H)" "framed p (io_status H name args)"
  unfolding open_log_def write_env_def write_bitcoin_conf_def write_validator_sk_def write_file_def bitcoin_cli_def which_def
    compile_binaries_def io_status_def
  by (intro keeps_intros framed_basic)+

lemma framed_waits:
  "framed p (wait_for_bitcoind H dir n)" "framed p (wait_for_provider_http H port tok n)"
  "framed p (wait_for_file H path)" "framed p (stop_running_bitcoind H)"
proof -
  have "framed p (\<lambda>(t, w). (Inr (if ho_exists H path w then Done ()
          else Again (Runtime ''timed out waiting for monitor to initialize DB'')), (t, w), 0))"
    by (auto simp: keeps_def)
  then show "framed p (wait_for_file H path)" unfolding wait_for_file_def by (intro keeps_poll framed_basic)
qed (unfold wait_for_bitcoind_def wait_for_provider_http_def stop_running_bitcoind_def bitcoind_running_def Let_def,
    (intro keeps_intros framed_basic framed_ops)+)

lemma framedD: "framed p m \<Longrightarrow> m (p, w) = (r, (q, w'), d) \<Longrightarrow> q = p"
  using keepsD [of "\<lambda>(q, w). q = p" m "(p, w)" r "(q, w')" d] by simp

lemma spawn_tracked_Inr: "spawn_tracked H prog args what (p, w) = (Inr pid, (q, w'), d) \<Longrightarrow> q = p @ [pid]"
  by (auto simp: spawn_tracked_def split: prod.splits sum.splits)

lemma start_bitcoind_tracks: "start_bitcoind H dir (p, w) = (Inr pid, (q, w'), d) \<Longrightarrow> q = p @ [pid]"
  unfolding start_bitcoind_def
  by (auto simp: io_simps dest!: spawn_tracked_Inr framedD [OF framed_ops(1)] framedD [OF framed_waits(1)] framedD [OF framed_ops(5)])

lemma start_monitor_tracks: "start_monitor H rel dir sk ah sl ll (p, w) = (Inr pid, (q, w'), d) \<Longrightarrow> q = p @ [pid]"
  unfolding start_monitor_def Let_def
  by (auto simp: io_simps dest!: spawn_tracked_Inr framedD [OF framed_ops(1)] framedD [OF framed_waits(3)] framedD [OF framed_ops(2)]
      framedD [OF framed_basic(3)] framedD [OF framed_basic(4)])

lemma start_provider_tracks:
  "start_provider H rel dir ah sl ll name (p, w) = (Inr (n, pid, port), (q, w'), d) \<Longrightarrow> q = p @ [pid] \<and> n = name"
  unfolding start_provider_def Let_def
  by (auto simp: io_simps dest!: spawn_tracked_Inr framedD [OF framed_ops(1)] framedD [OF framed_ops(2)] framedD [OF framed_basic(4)])

lemma start_providers_track:
  "io_collect (start_provider H rel dir ah sl ll) names (p, w) = (Inr ps, (q, w'), d)
     \<Longrightarrow> q = p @ map (\<lambda>(_, pid, _). pid) ps \<and> map fst ps = names"
proof (induction names arbitrary: p w ps d)
  case Nil
  then show ?case by (auto simp: io_simps)
next
  case (Cons name names)
  then show ?case by (fastforce simp: io_simps dest: start_provider_tracks)
qed

lemma start_all_tracks:
  assumes "start_all H root setup ah sl ml pl (p, w) = (Inr st, (q, w'), d)"
  shows "q = p @ [sa_bitcoind_pid st, sa_monitor_pid st] @ map (\<lambda>(_, pid, _). pid) (sa_providers st)
     \<and> map fst (sa_providers st) = sort (map fst (su_validators setup))"
proof -
  have e: "framed p0 (io_each (\<lambda>(name, v). write_validator_sk H datadir name (vs_secret_key v)) vs)"
    "framed p0 (io_each (\<lambda>(name, _, port). io_map_err (g name port) (wait_for_provider_http H port AUTH_TOKEN n)) ps)"
    for p0 :: "u32 list" and datadir vs g n ps
    by (intro keeps_intros framed_ops framed_waits)+
  show ?thesis
    using assms unfolding start_all_def Let_def
    by (auto simp: io_simps dest!: start_bitcoind_tracks start_monitor_tracks start_providers_track framedD [OF framed_ops(6)]
        framedD [OF framed_ops(7)] framedD [OF framed_basic(3)] framedD [OF framed_ops(3)] framedD [OF framed_waits(4)]
        framedD [OF e(1)] framedD [OF e(2)])
qed

lemma kill_pid_ends:
  assumes "process_laws H alive" "kill_pid H pid (t, w) = (r, s', d)"
  shows "\<exists>w'. s' = (t, w') \<and> r = Inr () \<and> alive w' \<subseteq> alive w - ({pid} - unkillable H alive)"
proof -
  obtain q w' d' where o: "ho_output H ''kill'' [''-9'', dec (unat pid)] w = (q, w', d')"
    by (cases "ho_output H ''kill'' [''-9'', dec (unat pid)] w") auto
  then have "s' = (t, w')" "r = Inr ()"
    using assms(2) by (auto simp: kill_pid_def io_then_def io_bind_def io_output_def io_return_def)
  moreover have "pid \<in> unkillable H alive" if "pid \<in> alive w'"
  proof -
    have "pid \<in> alive w" using that process_lawsD(2) [OF assms(1) o] by blast
    moreover have "case q of Inl e \<Rightarrow> True | Inr out \<Rightarrow> \<not> po_success out"
      using that process_lawsD(3) [OF assms(1)] o by (auto split: sum.splits)
    ultimately show ?thesis using o unfolding unkillable_def by blast
  qed
  ultimately show ?thesis using process_lawsD(2) [OF assms(1) o] by blast
qed

lemma kill_each_ends:
  assumes "process_laws H alive" "io_each (kill_pid H) pids (t, w) = (r, s', d)"
  shows "\<exists>w'. s' = (t, w') \<and> r = Inr () \<and> alive w' \<subseteq> alive w - (set pids - unkillable H alive)"
  using assms(2)
proof (induction pids arbitrary: w r s' d)
  case Nil
  then show ?case by (auto simp: io_return_def)
next
  case (Cons pid pids)
  obtain r1 s1 d1 where k: "kill_pid H pid (t, w) = (r1, s1, d1)" by (cases "kill_pid H pid (t, w)") auto
  from kill_pid_ends [OF assms(1) k] obtain w1 where w1: "s1 = (t, w1)" "r1 = Inr ()" "alive w1 \<subseteq> alive w - ({pid} - unkillable H alive)" by auto
  obtain r2 s2 d2 where e: "io_each (kill_pid H) pids (t, w1) = (r2, s2, d2)" by (cases "io_each (kill_pid H) pids (t, w1)") auto
  from Cons.prems k w1 e have "r = r2" "s' = s2" by (auto simp: io_then_def io_bind_def)
  with Cons.IH [OF e] w1 show ?case by auto
qed

definition pids_of :: "live_tester \<Rightarrow> u32 set" where
  "pids_of t = {lt_bitcoind_pid t, lt_monitor_pid t} \<union> set (lt_provider_pids t)"

lemma drop_ends:
  assumes "process_laws H alive" "live_tester_drop H t (p, w) = (r, (p', w'), d)"
  shows "alive w' \<subseteq> alive w - (pids_of t - unkillable H alive)"
proof -
  obtain r1 s1 d1 where k: "io_each (kill_pid H) (lt_provider_pids t) (p, w) = (r1, s1, d1)"
    by (cases "io_each (kill_pid H) (lt_provider_pids t) (p, w)") auto
  from kill_each_ends [OF assms(1) k] obtain w1 where 1: "s1 = (p, w1)" "r1 = Inr ()" "alive w1 \<subseteq> alive w - (set (lt_provider_pids t) - unkillable H alive)" by auto
  obtain r2 s2 d2 where m: "kill_pid H (lt_monitor_pid t) (p, w1) = (r2, s2, d2)" by (cases "kill_pid H (lt_monitor_pid t) (p, w1)") auto
  from kill_pid_ends [OF assms(1) m] obtain w2 where 2: "s2 = (p, w2)" "r2 = Inr ()" "alive w2 \<subseteq> alive w1 - ({lt_monitor_pid t} - unkillable H alive)" by auto
  obtain q w3 d3 where o: "ho_output H ''bitcoin-cli'' [''-datadir='' @ lt_tmpdir t, ''stop''] w2 = (q, w3, d3)"
    by (cases "ho_output H ''bitcoin-cli'' [''-datadir='' @ lt_tmpdir t, ''stop''] w2") auto
  let ?w4 = "ho_sleep H 500 w3"
  have 4: "alive ?w4 \<subseteq> alive w2" using process_lawsD(2) [OF assms(1) o] process_lawsD(4) [OF assms(1)] by (rule subset_trans [rotated])
  obtain r5 s5 d5 where b: "kill_pid H (lt_bitcoind_pid t) (p, ?w4) = (r5, s5, d5)" by (cases "kill_pid H (lt_bitcoind_pid t) (p, ?w4)") auto
  have "s5 = (p', w')"
    using assms(2) k 1 m 2 o b by (auto simp: live_tester_drop_def io_then_def io_bind_def io_output_def io_sleep_def)
  with kill_pid_ends [OF assms(1) b] 1 2 4 show ?thesis by (auto simp: pids_of_def)
qed

lemma prepare_logs_quiet:
  fixes w :: 'w
  assumes "process_laws H alive" "prepare_logs H (([] :: u32 list), w) = (r, (q, w'), d)"
  shows "q = [] \<and> alive w' \<subseteq> alive w"
proof -
  have "framed ([] :: u32 list) (prepare_logs H)" and g: "keeps (guarded alive (alive w)) (prepare_logs H)"
    unfolding prepare_logs_def
    by (intro keeps_intros framed_basic framed_ops guarded_basic [OF assms(1)] guarded_files [OF assms(1)])+
  then have "q = []" using framedD assms(2) by fastforce
  with keepsD [OF g _ assms(2)] show ?thesis by (simp add: guarded_def)
qed

lemma framed_drop: "framed p (live_tester_drop H t)"
  unfolding live_tester_drop_def kill_pid_def by (intro keeps_intros framed_basic)

text \<open>
  C38. No process that the monitor tester has started outlives it, but one that a kill could not end.  When the
  start fails, at whatever step, the guard has ended every process started so far; when it succeeds, the
  processes it has added are those the tester knows, and dropping the tester ends them.  The exception are
  processes on which kill could not be run or failed while they ran, since the program ignores that.  This
  needs at least one validator: without one the program panics after it has disarmed the guard.
\<close>

theorem started_processes_are_ended:
  assumes laws: "process_laws H alive" and "su_validators setup \<noteq> []"
    and new: "live_tester_new H root setup ah sl ml pl ([], w) = (r, (p, w'), d)"
  shows "case r of
       Inl e \<Rightarrow> alive w' \<subseteq> alive w \<union> unkillable H alive
     | Inr t \<Rightarrow> alive w' \<subseteq> alive w \<union> pids_of t
         \<and> (\<forall>w1 q w2 d2. alive w1 \<subseteq> alive w' \<longrightarrow> live_tester_drop H t (t, w1) = (q, (t, w2), d2)
              \<longrightarrow> alive w2 \<subseteq> alive w \<union> (pids_of t \<inter> unkillable H alive))"
  using new unfolding live_tester_new_def
proof (cases rule: io_bind_cases)
  case (error e)
  then show ?thesis using prepare_logs_quiet [OF laws] by fastforce
next
  case (success a s1 d1 d2)
  obtain w1 where s1: "s1 = ([], w1)" "alive w1 \<subseteq> alive w"
    using prepare_logs_quiet [OF laws, of w "Inr a"] success(1) by (cases s1) fastforce
  obtain r3 pids w3 d3 where st: "start_all H root setup ah sl ml pl ([], w1) = (r3, (pids, w3), d3)"
    by (cases "start_all H root setup ah sl ml pl ([], w1)") auto
  have w3: "alive w3 \<subseteq> alive w \<union> set pids"
    using keepsD [OF guarded_start [OF laws] _ st, of "alive w"] s1 by (auto simp: guarded_def)
  show ?thesis
  proof (cases r3)
    case (Inl e)
    obtain u s4 d4 where k: "io_each (kill_pid H) pids (pids, w3) = (u, s4, d4)" by (cases "io_each (kill_pid H) pids (pids, w3)") auto
    from kill_each_ends [OF laws k] success(2) s1 st Inl k have "r = Inl e" "alive w' \<subseteq> alive w3 - (set pids - unkillable H alive)"
      by (auto simp: io_bind_def io_try_def io_self_def io_res_def)
    with w3 show ?thesis by auto
  next
    case (Inr started)
    have tr: "pids = [sa_bitcoind_pid started, sa_monitor_pid started] @ map (\<lambda>(_, pid, _). pid) (sa_providers started)"
      "map fst (sa_providers started) = sort (map fst (su_validators setup))"
      using start_all_tracks [OF st [unfolded Inr]] by auto
    then have "sa_providers started \<noteq> []" using assms(2) by (metis length_map length_sort length_0_conv)
    then obtain t where t: "live_tester_of setup started = Inr t" "pids_of t = set pids"
      using tr(1) by (auto simp: live_tester_of_def pids_of_def Let_def neq_Nil_conv)
    have "r = Inr t" "w' = w3"
      using success(2) s1 st Inr t by (auto simp: io_bind_def io_try_def io_self_update_def io_res_def)
    with w3 t drop_ends [OF laws] show ?thesis by fastforce
  qed
qed

text \<open>A small machine: its world is the list of the processes that run.\<close>

definition demo_machine :: "u32 list host" where
  "demo_machine = \<lparr>
     ho_output = (\<lambda>prog args w. (Inr \<lparr> po_success = (prog \<noteq> ''pgrep''), po_code = Some 0, po_stdout = ''x'', po_stderr = [] \<rparr>,
       (if prog = ''kill'' then filter (\<lambda>p. args \<noteq> [''-9'', dec (unat p)]) w else w), 10)),
     ho_spawn = (\<lambda>prog args w. (Inr (of_nat (length w)), of_nat (length w) # w, 10)), ho_sleep = (\<lambda>ms w. w),
     ho_write = (\<lambda>f s w. (Inr (), w, 1)), ho_create = (\<lambda>f w. (Inr (), w, 1)), ho_create_dir = (\<lambda>f w. (Inr (), w, 1)),
     ho_tempdir = (\<lambda>w. (Inr ''/tmp/demo'', w, 1)), ho_exists = (\<lambda>f w. True), ho_free_port = (\<lambda>w. (9000, w)),
     ho_from_str = (\<lambda>s. None), ho_to_string = (\<lambda>j. []) \<rparr>"

lemma demo_machine_laws: "process_laws demo_machine set"
  unfolding process_laws_def by (auto simp: demo_machine_def split: if_splits)

lemma demo_machine_kills: "unkillable demo_machine set = {}"
  by (simp add: unkillable_def demo_machine_def)

lemma demo_machine_steps:
  "io_output demo_machine prog args (t, w) = (Inr (Inr \<lparr> po_success = (prog \<noteq> ''pgrep''), po_code = Some 0, po_stdout = ''x'', po_stderr = [] \<rparr>),
       (t, if prog = ''kill'' then filter (\<lambda>p. args \<noteq> [''-9'', dec (unat p)]) w else w), 10)"
  "io_world (ho_write demo_machine f c) g (t, w) = (Inr (), (t, w), 1)"
  "io_world (ho_create demo_machine f) g (t, w) = (Inr (), (t, w), 1)"
  "io_world (ho_create_dir demo_machine f) g (t, w) = (Inr (), (t, w), 1)"
  "io_world (ho_tempdir demo_machine) g (t, w) = (Inr ''/tmp/demo'', (t, w), 1)"
  "io_free_port demo_machine (t, w) = (Inr 9000, (t, w), 0)"
  "ho_sleep demo_machine ms w = w" "ho_exists demo_machine f w"
  "spawn_tracked demo_machine prog args what (p, w) = (Inr (of_nat (length w)), (p @ [of_nat (length w)], of_nat (length w) # w), 10)"
  by (simp_all add: demo_machine_def io_output_def io_world_def io_free_port_def spawn_tracked_def)

lemma demo_waits:
  "wait_for_bitcoind demo_machine dir n (t, w) = (Inr (), (t, w), 10)"
  "wait_for_provider_http demo_machine port tok n (t, w) = (Inr (), (t, w), 10)"
  "wait_for_file demo_machine f (t, w) = (Inr (), (t, w), 0)"
  "stop_running_bitcoind demo_machine (t, w) = (Inr (), (t, w), 10)"
  unfolding wait_for_bitcoind_def wait_for_provider_http_def wait_for_file_def Let_def
  by (rule poll_done, simp add: io_bind_def io_status_def io_return_def demo_machine_steps)+
    (simp add: stop_running_bitcoind_def bitcoind_running_def io_bind_def io_status_def io_return_def demo_machine_steps)

lemmas demo_files = write_file_def open_log_def write_env_def write_bitcoin_conf_def write_validator_sk_def bitcoin_cli_def which_def
  compile_binaries_def prepare_logs_def

lemma demo_starts:
  "\<exists>d. start_bitcoind demo_machine dir (p, w) = (Inr (of_nat (length w)), (p @ [of_nat (length w)], of_nat (length w) # w), d)"
  "\<exists>d. start_monitor demo_machine rel dir sk ah sl ll (p, w) = (Inr (of_nat (length w)), (p @ [of_nat (length w)], of_nat (length w) # w), d)"
  "\<exists>d. start_provider demo_machine rel dir ah sl ll name (p, w)
     = (Inr (name, of_nat (length w), 9000), (p @ [of_nat (length w)], of_nat (length w) # w), d)"
  unfolding start_bitcoind_def start_monitor_def start_provider_def
  by (simp_all add: Let_def io_bind_def io_then_def io_return_def demo_files demo_machine_steps demo_waits)

definition demo_one :: setup_spec where
  "demo_one = \<lparr> su_validators = [(''validator1'', generate_validator demo_tester ''validator1'' 1)], su_subnets = [] \<rparr>"

lemma demo_start_all:
  "\<exists>d st. start_all demo_machine root demo_one ah sl ml pl ([], [7]) = (Inr st, ([1, 2, 3], [3, 2, 1, 7]), d)
     \<and> sa_bitcoind_pid st = 1 \<and> sa_monitor_pid st = 2 \<and> sa_providers st = [(''validator1'', 3, 9000)]"
proof -
  obtain d1 where b: "start_bitcoind demo_machine ''/tmp/demo'' ([], [7]) = (Inr 1, ([1], [1, 7]), d1)"
    using demo_starts(1) [of "''/tmp/demo''" "[]" "[7]"] by auto
  obtain d2 where m: "start_monitor demo_machine (path_join (path_join root ''target'') ''release'') ''/tmp/demo''
      (path_join ''/tmp/demo'' (''validator1'' @ ''.sk'')) ah sl ml ([1], [1, 7]) = (Inr 2, ([1, 2], [2, 1, 7]), d2)"
    using demo_starts(2) [where p = "[1]" and w = "[1, 7]"] by fastforce
  obtain d3 where v: "start_provider demo_machine (path_join (path_join root ''target'') ''release'') ''/tmp/demo'' ah sl pl ''validator1''
      ([1, 2], [2, 1, 7]) = (Inr (''validator1'', 3, 9000), ([1, 2, 3], [3, 2, 1, 7]), d3)"
    using demo_starts(3) [where p = "[1, 2]" and w = "[2, 1, 7]"] by fastforce
  show ?thesis
    using b m v unfolding start_all_def demo_one_def
    by (simp add: Let_def io_bind_def io_then_def io_return_def io_map_err_def demo_files demo_machine_steps demo_waits)
qed

theorem started_processes_are_ended_witness:
  "\<exists>t d q w2 d2. process_laws demo_machine set \<and> unkillable demo_machine set = {} \<and> live_tester_new demo_machine ''.'' demo_one None None None None ([], [7]) = (Inr t, ([], [3, 2, 1, 7]), d)
     \<and> pids_of t = {1, 2, 3} \<and> live_tester_drop demo_machine t (t, [3, 2, 1, 7]) = (q, (t, w2), d2) \<and> set w2 \<subseteq> {7}"
proof -
  obtain d st where st: "start_all demo_machine ''.'' demo_one None None None None ([], [7]) = (Inr st, ([1, 2, 3], [3, 2, 1, 7]), d)"
    "sa_bitcoind_pid st = 1" "sa_monitor_pid st = 2" "sa_providers st = [(''validator1'', 3, 9000)]"
    using demo_start_all by blast
  then obtain t d' where t: "live_tester_new demo_machine ''.'' demo_one None None None None ([], [7]) = (Inr t, ([], [3, 2, 1, 7]), d')"
    "pids_of t = {1, 2, 3}"
    by (auto simp: live_tester_new_def live_tester_of_def pids_of_def io_bind_def io_then_def io_try_def io_res_def io_self_update_def
        demo_files demo_machine_steps Let_def)
  obtain q u w2 d2 where dr: "live_tester_drop demo_machine t (t, [3, 2, 1, 7]) = (q, (u, w2), d2)"
    by (cases "live_tester_drop demo_machine t (t, [3, 2, 1, 7])") auto
  have u: "u = t" using framedD [OF framed_drop dr] .
  have "su_validators demo_one \<noteq> []" by (simp add: demo_one_def)
  with started_processes_are_ended [OF demo_machine_laws _ t(1)]
  have "set w1 \<subseteq> set [3, 2, 1, 7] \<longrightarrow> live_tester_drop demo_machine t (t, w1) = (q, (t, w2), d2) \<longrightarrow> set w2 \<subseteq> set [7]"
    for w1 q w2 d2 by (simp add: demo_machine_kills)
  from this [rule_format, OF _ dr [unfolded u]] have "set w2 \<subseteq> {7}" by simp
  with t dr [unfolded u] demo_machine_laws demo_machine_kills show ?thesis by blast
qed

section \<open>The queues of the two testers\<close>

text \<open>
  Both testers queue token messages until the next checkpoint.  They are in step when they know the same
  subnets and the same home of every token, hold the same queues and have drawn the same number of random
  values.
\<close>

definition same_queues :: "db_tester \<Rightarrow> live_tester \<Rightarrow> bool" where
  "same_queues d t \<longleftrightarrow>
     dt_created_subnets d = map_of (lt_created_subnets t)
   \<and> (\<forall>tok. lt_registered_tokens t tok = map_option (\<lambda>(s, r). (s, er_home_token_address r)) (dt_registered_tokens d tok))
   \<and> dt_pending_registrations d = lt_pending_registrations t
   \<and> dt_pending_supply_adjustments d = lt_pending_supply_adjustments t
   \<and> dt_pending_erc_transfers d = lt_pending_erc_transfers t
   \<and> dt_draws d = lt_draws t"

abbreviation in_step :: "'w \<Rightarrow> easy_tester_error + db_tester \<Rightarrow> easy_tester_error + (live_tester \<times> 'w) \<Rightarrow> bool" where
  "in_step w \<equiv> rel_sum (\<lambda>_ _. True) (\<lambda>d (t, w'). w' = w \<and> same_queues d t)"

lemmas queue_step_defs = io_next_def io_bind_def io_then_def io_self_def io_res_def io_fail_def io_return_def io_self_update_def
  resolve_subnet_id_def lt_subnet_id_def lt_token_def same_queues_def ok_or_def draw_def lt_draw_def Let_def

lemma register_in_step:
  assumes "same_queues d t"
  shows "in_step w (queue_token_registration E s name symbol supply d) (io_next (lt_register_token E s name symbol supply) (t, w))"
  using assms
  by (auto simp: queue_token_registration_def lt_register_token_def queue_step_defs split: option.splits prod.splits sum.splits)

lemma adjust_in_step:
  assumes "same_queues d t"
  shows "in_step w (queue_supply_adjustment s tok delta d) (io_next (lt_adjust s tok delta) (t, w))"
  using assms
  by (auto simp: queue_supply_adjustment_def lt_adjust_def queue_step_defs split: option.splits prod.splits sum.splits)

lemma transfer_in_step:
  assumes "same_queues d t" "dt_created_subnets d src \<noteq> None"
  shows "in_step w (queue_erc_transfer E src dst tok a d) (io_next (lt_erc_transfer E src dst tok a) (t, w))"
  using assms
  by (auto simp: queue_erc_transfer_def lt_erc_transfer_def queue_step_defs split: option.splits prod.splits sum.splits)

lemma created_kept:
  "queue_token_registration E s name symbol supply d = Inr d' \<Longrightarrow> dt_created_subnets d' = dt_created_subnets d"
  "queue_supply_adjustment s tok delta d = Inr d' \<Longrightarrow> dt_created_subnets d' = dt_created_subnets d"
  "queue_erc_transfer E src dst tok a d = Inr d' \<Longrightarrow> dt_created_subnets d' = dt_created_subnets d"
proof -
  show "queue_token_registration E s name symbol supply d = Inr d' \<Longrightarrow> dt_created_subnets d' = dt_created_subnets d"
    unfolding queue_token_registration_def draw_def Let_def
    by (cases "dt_registered_tokens d name") (auto simp: res_simps split: if_splits)
  show "queue_supply_adjustment s tok delta d = Inr d' \<Longrightarrow> dt_created_subnets d' = dt_created_subnets d"
    unfolding queue_supply_adjustment_def by (auto simp: res_simps)
  show "queue_erc_transfer E src dst tok a d = Inr d' \<Longrightarrow> dt_created_subnets d' = dt_created_subnets d"
    unfolding queue_erc_transfer_def draw_def Let_def by (auto simp: res_simps)
qed

text \<open>
  The commands that only queue messages.  The database tester looks up the source of a transfer, the monitor
  tester does not, so the source has to exist.
\<close>

fun queues_only :: "string set \<Rightarrow> scenario_command \<Rightarrow> bool" where
  "queues_only known (CmdRegisterToken _ _ _ _ _) = True"
| "queues_only known (CmdMintToken _ _ _) = True"
| "queues_only known (CmdBurnToken _ _ _) = True"
| "queues_only known (CmdErcTransfer src _ _ _ _ _) = (src \<in> known)"
| "queues_only known (CmdWait _) = True"
| "queues_only known _ = False"

definition run_in_step :: "'w \<Rightarrow> (string \<rightharpoonup> subnet_id) \<Rightarrow> u64 \<times> db_tester \<Rightarrow> u64 \<times> live_tester \<times> 'w \<Rightarrow> bool" where
  "run_in_step w known = (\<lambda>(h, d) (h', t, w'). h = h' \<and> w' = w \<and> same_queues d t \<and> dt_created_subnets d = known)"

lemma stay_in_step:
  assumes "in_step w r q" "\<And>d'. r = Inr d' \<Longrightarrow> dt_created_subnets d' = known"
  shows "rel_sum (\<lambda>_ _. True) (run_in_step w known) (res_bind r (\<lambda>d'. Inr (h, d'))) (res_bind q (\<lambda>t'. Inr (h, t')))"
proof (cases r)
  case (Inl e)
  then show ?thesis using assms(1) by (cases q) auto
next
  case (Inr d')
  then show ?thesis using assms(1) assms(2) [OF Inr] by (cases q) (auto simp: run_in_step_def)
qed

lemma command_in_step:
  assumes "run_in_step w known s u" "queues_only (dom known) cmd"
  shows "rel_sum (\<lambda>_ _. True) (run_in_step w known)
     (run_command (db_tester_ops X E ord) cmd s) (run_command (live_tester_ops X E H S) cmd u)"
proof -
  obtain h d t where eq: "s = (h, d)" "u = (h, t, w)" and q: "same_queues d t" and known: "dt_created_subnets d = known"
    using assms(1) by (cases s; cases u) (auto simp: run_in_step_def)
  note stay = stay_in_step [where known = known, folded known]
  show ?thesis
    unfolding eq known [symmetric]
    using q assms(2) [folded known] assms(1) [unfolded eq, folded known]
    by (cases cmd) (simp_all add: run_command_def db_tester_ops_def live_tester_ops_def queue_mint_def queue_burn_def lt_mint_token_def
        lt_burn_token_def stay register_in_step adjust_in_step transfer_in_step created_kept dom_def)
qed

lemma rel_res_fold:
  assumes "R s t" "\<And>s t x. x \<in> set xs \<Longrightarrow> R s t \<Longrightarrow> rel_sum (\<lambda>_ _. True) R (f s x) (g t x)"
  shows "rel_sum (\<lambda>_ _. True) R (res_fold f s xs) (res_fold g t xs)"
  using assms
proof (induction xs arbitrary: s t)
  case Nil
  then show ?case by simp
next
  case (Cons x xs)
  have "rel_sum (\<lambda>_ _. True) R (f s x) (g t x)" using Cons.prems by simp
  then show ?case using Cons by (cases "f s x"; cases "g t x") auto
qed

text \<open>
  The checkpoint of a subnet that empties its queues: both testers hand the same lists to it.
\<close>

definition db_emptied :: "string \<Rightarrow> db_tester \<Rightarrow> db_tester" where
  "db_emptied s d = d\<lparr> dt_pending_registrations := (dt_pending_registrations d)(s := []),
     dt_pending_supply_adjustments := (dt_pending_supply_adjustments d)(s := []),
     dt_pending_erc_transfers := (dt_pending_erc_transfers d)(s := []) \<rparr>"

definition live_emptied :: "string \<Rightarrow> live_tester \<Rightarrow> live_tester" where
  "live_emptied s t = t\<lparr> lt_pending_registrations := (lt_pending_registrations t)(s := []),
     lt_pending_supply_adjustments := (lt_pending_supply_adjustments t)(s := []),
     lt_pending_erc_transfers := (lt_pending_erc_transfers t)(s := []) \<rparr>"

abbreviation live_queues :: "live_tester \<Rightarrow> (string \<Rightarrow> ipc_erc_token_registration list) \<times> (string \<Rightarrow> ipc_erc_supply_adjustment list)
    \<times> (string \<Rightarrow> ipc_cross_subnet_erc_transfer list)" where
  "live_queues t \<equiv> (lt_pending_registrations t, lt_pending_supply_adjustments t, lt_pending_erc_transfers t)"

abbreviation db_queues :: "db_tester \<Rightarrow> (string \<Rightarrow> ipc_erc_token_registration list) \<times> (string \<Rightarrow> ipc_erc_supply_adjustment list)
    \<times> (string \<Rightarrow> ipc_cross_subnet_erc_transfer list)" where
  "db_queues d \<equiv> (dt_pending_registrations d, dt_pending_supply_adjustments d, dt_pending_erc_transfers d)"

definition same_checkpoint ::
  "ext \<Rightarrow> tester_env \<Rightarrow> 'w host \<Rightarrow> rpc_serde \<Rightarrow> u64 \<Rightarrow> string \<Rightarrow> db_tester \<Rightarrow> live_tester \<Rightarrow> 'w \<Rightarrow> bool" where
  "same_checkpoint X E H S h s d t w \<longleftrightarrow>
     (case dt_created_subnets d s of
        None \<Rightarrow> (\<exists>e. db_exec_checkpoint X E h s d = Inl e) \<and> (\<exists>e. lt_checkpoint E H S s (t, w) = (Inl e, (t, w), 0))
      | Some sid \<Rightarrow> (\<exists>regs adjs txs. regs = dt_pending_registrations d s \<and> adjs = dt_pending_supply_adjustments d s
          \<and> txs = dt_pending_erc_transfers d s
          \<and> lt_checkpoint E H S s (t, w) = do_checkpoint_malicious E H S s sid regs adjs txs (live_emptied s t, w)
          \<and> live_queues (fst (fst (snd (lt_checkpoint E H S s (t, w))))) = live_queues (live_emptied s t)
          \<and> (\<forall>d'. db_exec_checkpoint X E h s d = Inr d' \<longrightarrow>
               (\<exists>cp d1. tester_checkpoint X E h s regs adjs txs (db_emptied s d) = Inr (cp, d1))
               \<and> db_queues d' = live_queues (live_emptied s t))))"

lemma queues_kept_draw [simp]:
  "dt_pending_registrations (snd (draw E n d)) = dt_pending_registrations d"
  "dt_pending_supply_adjustments (snd (draw E n d)) = dt_pending_supply_adjustments d"
  "dt_pending_erc_transfers (snd (draw E n d)) = dt_pending_erc_transfers d"
  "dt_pending_registrations (snd (block_hash_at E h d)) = dt_pending_registrations d"
  "dt_pending_supply_adjustments (snd (block_hash_at E h d)) = dt_pending_supply_adjustments d"
  "dt_pending_erc_transfers (snd (block_hash_at E h d)) = dt_pending_erc_transfers d"
  by (simp_all add: draw_def block_hash_at_def Let_def split: option.splits)

lemma batch_keeps_queues: "tester_batch X E h bh tid m d = Inr d' \<Longrightarrow> db_queues d' = db_queues d"
  by (auto simp: tester_batch_def tester_simps split: if_splits sum.splits ipc_lib_error.splits)

lemma checkpoint_keeps_queues:
  assumes "tester_checkpoint X E h s regs adjs txs d = Inr (cp, d')"
  shows "db_queues d' = db_queues d"
proof -
  from assms obtain bh tid m d4 db1 where "tester_batch X E h bh tid m (d4\<lparr> dt_db := db1 \<rparr>) = Inr d'" "db_queues d4 = db_queues d"
    by (clarsimp simp: tester_checkpoint_def tester_simps)
  with batch_keeps_queues show ?thesis by fastforce
qed

lemma live_checkpoint_keeps_queues: "keeps (\<lambda>(t, w). live_queues t = q) (do_checkpoint_malicious E H S s sid regs adjs txs)"
proof -
  let ?P = "\<lambda>(t, w). live_queues t = q"
  have framed: "keeps ?P m" if "\<And>p. framed p m" for m :: "(live_tester \<times> 'a, 'b) io"
    using that by (simp add: keeps_def case_prod_beta)
  have out: "keeps ?P (io_output H prog args)" for prog args by (rule framed) (rule framed_basic)
  have "keeps ?P (io_self_update (\<lambda>t. t\<lparr> lt_draws := Suc (lt_draws t) \<rparr>))"
    "keeps ?P (io_self_update (\<lambda>t. t\<lparr> lt_checkpoint_heights := (lt_checkpoint_heights t)(s \<mapsto> n) \<rparr>))" for n
    by (auto simp: keeps_def io_self_update_def)
  note ups = this
  have alive: "keeps ?P (any_alive H pids)" for pids
    by (induction pids) (auto simp: io_status_def intro!: keeps_intros out)
  have call: "keeps ?P (rpc_call_to H S url decode meth params)" for url and decode :: "json \<Rightarrow> 'b option" and meth params
    unfolding rpc_call_to_def provider_client_call_def by (intro keeps_intros out alive)
  show ?thesis
    unfolding do_checkpoint_malicious_def rpc_call_def rpc_call_as_def lt_draw_def Let_def
    by (intro keeps_intros ups call)
qed

lemma checkpoint_in_step:
  assumes "same_queues d t"
  shows "same_checkpoint X E H S h s d t w"
proof (cases "dt_created_subnets d s")
  case None
  then show ?thesis
    using assms by (auto simp: same_checkpoint_def db_exec_checkpoint_def lt_checkpoint_def queue_step_defs)
next
  case (Some sid)
  let ?regs = "dt_pending_registrations d s" and ?adjs = "dt_pending_supply_adjustments d s" and ?txs = "dt_pending_erc_transfers d s"
  have live: "lt_checkpoint E H S s (t, w) = do_checkpoint_malicious E H S s sid ?regs ?adjs ?txs (live_emptied s t, w)"
    using assms Some by (simp add: lt_checkpoint_def live_emptied_def queue_step_defs split: prod.splits)
  obtain r t' w' n where run: "do_checkpoint_malicious E H S s sid ?regs ?adjs ?txs (live_emptied s t, w) = (r, (t', w'), n)"
    by (cases "do_checkpoint_malicious E H S s sid ?regs ?adjs ?txs (live_emptied s t, w)") auto
  have kept: "live_queues t' = live_queues (live_emptied s t)"
    using keepsD [OF live_checkpoint_keeps_queues _ run, of "live_queues (live_emptied s t)"] by simp
  have db: "(\<exists>cp d1. tester_checkpoint X E h s ?regs ?adjs ?txs (db_emptied s d) = Inr (cp, d1))
      \<and> db_queues d' = live_queues (live_emptied s t)" if "db_exec_checkpoint X E h s d = Inr d'" for d'
  proof -
    from that obtain cp d1 where c: "tester_checkpoint X E h s ?regs ?adjs ?txs (db_emptied s d) = Inr (cp, d1)" "db_queues d' = db_queues d1"
      by (auto simp: db_exec_checkpoint_def db_emptied_def tester_simps split: option.splits)
    with checkpoint_keeps_queues [OF c(1)] assms show ?thesis by (auto simp: db_emptied_def live_emptied_def same_queues_def)
  qed
  from Some live run kept db show ?thesis by (auto simp: same_checkpoint_def)
qed

text \<open>
  C36. The two testers queue the same messages.  From states in step, with the same random values to draw from, a
  run of token commands whose transfers start from created subnets fails in both testers or ends in both at
  the same height, in states in step; the monitor tester does not touch the machine.  A checkpoint of any
  subnet then hands the same registrations, supply changes and transfers to the checkpoint message of either
  tester and leaves the same queues, those of the subnet empty.
\<close>

theorem testers_queue_the_same_messages:
  assumes "same_queues d t" and "\<And>line cmd. (line, cmd) \<in> set scenario \<Longrightarrow> queues_only (dom (dt_created_subnets d)) cmd"
  shows "rel_sum (\<lambda>_ _. True) (\<lambda>(h1, d') (h2, t', w'). h1 = h2 \<and> w' = w \<and> same_queues d' t'
         \<and> (\<forall>s. same_checkpoint X E H S h1 s d' t' w))
     (run_scenario (db_tester_ops X E ord) scenario h d) (run_scenario (live_tester_ops X E H S) scenario h (t, w))"
proof (cases "h < 1")
  case False
  let ?R = "run_in_step w (dt_created_subnets d)"
  have "rel_sum (\<lambda>_ _. True) ?R
     (run_scenario (db_tester_ops X E ord) scenario h d) (run_scenario (live_tester_ops X E H S) scenario h (t, w))"
    unfolding run_scenario_def if_not_P [OF False]
  proof (rule rel_res_fold)
    fix s :: "u64 \<times> db_tester" and u x
    assume "x \<in> set scenario" "?R s u"
    then show "rel_sum (\<lambda>_ _. True) ?R
        (case x of (line_no, cmd) \<Rightarrow> res_map_err (failure_text line_no cmd) (run_command (db_tester_ops X E ord) cmd s))
        (case x of (line_no, cmd) \<Rightarrow> res_map_err (failure_text line_no cmd) (run_command (live_tester_ops X E H S) cmd u))"
      using command_in_step [of w "dt_created_subnets d" s u "snd x" X E ord H S] assms(2) [of "fst x" "snd x"]
      by (cases "run_command (db_tester_ops X E ord) (snd x) s"; cases "run_command (live_tester_ops X E H S) (snd x) u") 
        (auto simp: case_prod_beta)
  qed (use assms(1) in \<open>simp add: run_in_step_def\<close>)
  then show ?thesis by (rule sum.rel_mono_strong) (auto simp: run_in_step_def checkpoint_in_step)
qed (simp add: run_scenario_def)

definition demo_db :: db_tester where
  "demo_db = demo_start\<lparr> dt_created_subnets := [''subnet1'' \<mapsto> subnet_id_default] \<rparr>"

definition demo_live :: live_tester where
  "demo_live = \<lparr> lt_setup = demo_one, lt_default_provider_url = ''http://127.0.0.1:9000/api'', lt_validator_provider_urls = Map.empty,
     lt_bitcoind_pid = 1, lt_monitor_pid = 2, lt_provider_pids = [3], lt_tmpdir = ''/tmp/demo'', lt_current_block = 101,
     lt_created_subnets = [(''subnet1'', subnet_id_default)], lt_registered_tokens = Map.empty,
     lt_pending_registrations = (\<lambda>_. []), lt_pending_supply_adjustments = (\<lambda>_. []), lt_pending_erc_transfers = (\<lambda>_. []),
     lt_last_rootnet_msgs = None, lt_last_token_balance = None, lt_last_reward_results = None,
     lt_checkpoint_heights = Map.empty, lt_all_sk_hex = Map.empty, lt_done_handovers = [], lt_draws = 0 \<rparr>"

definition demo_serde :: rpc_serde where
  "demo_serde = \<lparr> rs_body = (\<lambda>method _. method), rs_subnet_state = (\<lambda>_. None), rs_signatures = (\<lambda>_. None), rs_rewards = (\<lambda>_. None),
     rs_order = (\<lambda>ns. ns) \<rparr>"

definition demo_queueing :: "(nat \<times> scenario_command) list" where
  "demo_queueing = [(5, CmdRegisterToken ''subnet1'' None ''T'' ''S'' 7), (6, CmdBurnToken ''subnet1'' ''T'' 2),
     (7, CmdErcTransfer ''subnet1'' None ''subnet1'' None ''T'' 3)]"

lemma demo_queues_run:
  "\<exists>d. run_scenario (db_tester_ops demo_ext demo_tester (\<lambda>rs. rs)) demo_queueing 5 demo_db = Inr (5, d)
     \<and> map ea_delta (dt_pending_supply_adjustments d ''subnet1'') = [- 2] \<and> map et_amount (dt_pending_erc_transfers d ''subnet1'') = [3]"
  by (simp add: demo_queueing_def run_scenario_def run_command_def db_tester_ops_def queue_token_registration_def queue_burn_def
      queue_supply_adjustment_def queue_erc_transfer_def demo_db_def demo_start_def db_tester_new_def resolve_subnet_id_def draw_def ok_or_def
      i256_try_from_def i256_checked_neg_def Let_def)

theorem testers_queue_the_same_messages_witness:
  "\<exists>t. run_scenario (live_tester_ops demo_ext demo_tester demo_machine demo_serde) demo_queueing 5 (demo_live, [7]) = Inr (5, t, [7])
     \<and> map ea_delta (lt_pending_supply_adjustments t ''subnet1'') = [- 2] \<and> map et_amount (lt_pending_erc_transfers t ''subnet1'') = [3]
     \<and> (\<exists>d. run_scenario (db_tester_ops demo_ext demo_tester (\<lambda>rs. rs)) demo_queueing 5 demo_db = Inr (5, d)
          \<and> same_checkpoint demo_ext demo_tester demo_machine demo_serde 5 ''subnet1'' d t [7])"
proof -
  have q: "same_queues demo_db demo_live"
    by (simp add: same_queues_def demo_db_def demo_live_def demo_start_def db_tester_new_def fun_eq_iff)
  obtain d where d: "run_scenario (db_tester_ops demo_ext demo_tester (\<lambda>rs. rs)) demo_queueing 5 demo_db = Inr (5, d)"
    "map ea_delta (dt_pending_supply_adjustments d ''subnet1'') = [- 2]" "map et_amount (dt_pending_erc_transfers d ''subnet1'') = [3]"
    using demo_queues_run by (elim exE conjE) (rule that)
  have k: "queues_only (dom (dt_created_subnets demo_db)) cmd" if "(line, cmd) \<in> set demo_queueing" for line cmd
    using that by (auto simp: demo_queueing_def demo_db_def)
  show ?thesis
    using testers_queue_the_same_messages [OF q, where scenario = demo_queueing and w = "[7]" and X = demo_ext and E = demo_tester and ord = "\<lambda>rs. rs"
        and h = 5 and H = demo_machine and S = demo_serde] k d
    by (cases "run_scenario (live_tester_ops demo_ext demo_tester demo_machine demo_serde) demo_queueing 5 (demo_live, [7])")
      (auto simp: same_queues_def)
qed

section \<open>The expectations of the two testers\<close>

text \<open>
  The text of a number of 256 bits is hexadecimal with a prefix, and is read back.  A name that looks like a
  number would be changed on the way, so names that begin so are left out, and so are the two fields that the
  testers treat differently.
\<close>

definition u256_json_ok :: "tester_env \<Rightarrow> message_texts \<Rightarrow> bool" where
  "u256_json_ok E M \<longleftrightarrow> (\<forall>n. prefix ''0x'' (mt_u256 M n) \<and> te_parse_u256 E (mt_u256 M n) = Inr n)"

definition plain_text :: "string \<Rightarrow> bool" where
  "plain_text s \<longleftrightarrow> \<not> prefix ''0x'' s \<and> \<not> prefix ''0X'' s"

fun plain_message :: "rootnet_message \<Rightarrow> bool" where
  "plain_message (ErcRegistration _ r _ _ _ _) \<longleftrightarrow> plain_text (er_name r) \<and> plain_text (er_symbol r)"
| "plain_message _ \<longleftrightarrow> True"

definition common_path :: "string \<Rightarrow> bool" where
  "common_path path \<longleftrightarrow> (\<forall>index field. split_on (CHR ''.'') path = [index, field] \<longrightarrow> field \<noteq> ''token'' \<and> field \<noteq> ''nonce'')"

lemmas message_json_defs = fund_json_def erc_transfer_json_def erc_registration_json_def event_json_def json_get_def

lemma json_u64_dec [simp]: "json_u64 (JNumber (dec (unat (n :: u64)))) = Some n"
  using parse_uint_dec [of "unat n" 64] unsigned_less [of n, where 'a = nat] by (simp add: json_u64_def)

lemma message_is_read:
  "rootnet_msg_value (message_json X M msg) = Some (case msg of
       FundSubnet m _ _ n _ \<Rightarrow> (''fund'', n, None, Some (fund_json X M m))
     | ErcTransfer m _ _ n _ \<Rightarrow> (''erc_transfer'', n, None, Some (erc_transfer_json X M m))
     | ErcRegistration _ r _ _ n _ \<Rightarrow> (''erc_registration'', n, Some (erc_registration_json M r), None))"
  by (cases msg) (simp_all add: rootnet_msg_value_def field_with_def optional_field_def json_string_def message_json_defs)

lemma fields_alike:
  assumes "u256_json_ok E M" "plain_message msg" "field \<noteq> ''token''" "field \<noteq> ''nonce''"
  shows "rel_sum (\<lambda>_ _. True) (=) (msg_field_value E msg field)
     (rootnet_msg_field E H (the (rootnet_msg_value (message_json X M msg))) field)"
  using assms unfolding message_is_read
  by (cases msg) (simp_all add: msg_field_value_def rootnet_msg_field_def json_nested_field_def message_json_defs ok_or_def
      u256_json_ok_def plain_text_def)

lemma balances_alike: "lt_expect_balance E b target v = expect_balance E b target v"
  by (simp add: lt_expect_balance_def expect_balance_def split_on_single)

lemma path_shapes:
  obtains (one) p where "split_on c path = [p]" | (two) i f where "split_on c path = [i, f]"
  | (more) i f g rest where "split_on c path = i # f # g # rest"
  using split_on_not_Nil [of c path] by (cases "split_on c path" rule: remdups_adj.cases) (auto, metis list.exhaust)

lemma rewards_alike: "lt_expect_rewards r target v = expect_rewards r target v"
proof (cases rule: path_shapes [of "CHR ''.''" "tg_path target"])
  case (one p)
  show ?thesis unfolding lt_expect_rewards_def expect_rewards_def Let_def one
    by (cases "p = ''total_rewarded_collateral''") simp_all
next
  case (two i f)
  show ?thesis unfolding lt_expect_rewards_def expect_rewards_def Let_def two
    by (cases "i = ''rewards_list''"; cases "i = ''reward_list''") (simp_all cong: if_cong)
next
  case (more i f g rest)
  show ?thesis unfolding lt_expect_rewards_def expect_rewards_def Let_def more by simp
qed

lemma rel_sum_bind:
  assumes "rel_sum (\<lambda>_ _. True) (=) r q" "\<And>a. rel_sum (\<lambda>_ _. True) (=) (f a) (g a)"
  shows "rel_sum (\<lambda>_ _. True) (=) (res_bind r f) (res_bind q g)"
  using assms by (cases r; cases q) auto

lemma rel_sum_refl [simp]: "rel_sum (\<lambda>_ _. True) (=) r r"
  by (cases r) auto

lemma rootnet_alike:
  assumes "u256_json_ok E M" "list_all plain_message msgs" "common_path (tg_path target)"
  shows "rel_sum (\<lambda>_ _. True) (=) (expect_rootnet E msgs target v)
     (lt_expect_rootnet E H (map (\<lambda>m. the (rootnet_msg_value (message_json X M m))) msgs) target v)"
proof -
  have f: "rel_sum (\<lambda>_ _. True) (=) (res_map_err Runtime (msg_field_value E (msgs ! i) field))
      (rootnet_msg_field E H (the (rootnet_msg_value (message_json X M (msgs ! i)))) field)"
    if "i < length msgs" "field \<noteq> ''token''" "field \<noteq> ''nonce''" for i field
    using fields_alike [OF assms(1) _ that(2,3), of "msgs ! i" H X] assms(2) that(1)
    by (cases "msg_field_value E (msgs ! i) field"; cases "rootnet_msg_field E H (the (rootnet_msg_value (message_json X M (msgs ! i)))) field")
      (auto simp: list_all_length)
  show ?thesis
  proof (cases rule: path_shapes [of "CHR ''.''" "tg_path target"])
    case one
    then show ?thesis unfolding expect_rootnet_def lt_expect_rootnet_def Let_def length_map by simp
  next
    case (two i field)
    then have "field \<noteq> ''token''" "field \<noteq> ''nonce''" using assms(3) by (auto simp: common_path_def)
    with two show ?thesis
      unfolding expect_rootnet_def lt_expect_rootnet_def Let_def length_map by (auto intro!: rel_sum_bind f)
  next
    case more
    then show ?thesis by (simp add: expect_rootnet_def lt_expect_rootnet_def)
  qed
qed

text \<open>
  C37. The two testers judge an expectation alike, on the fields that they have in common.  When the last read of
  both returned the same balance, the same rewards and the same messages, those of the monitor tester as the
  provider writes them, an expectation passes in both with the same report or fails in both.  This leaves
  out the fields \<open>token\<close> and \<open>nonce\<close> of a message and tokens whose name or symbol starts with \<open>0x\<close>, where
  the testers disagree.
\<close>

theorem testers_expect_alike:
  assumes "u256_json_ok E M" "common_path (tg_path target)"
    and "\<And>msgs. dt_last_rootnet_msgs d = Some msgs \<Longrightarrow> list_all plain_message msgs"
    and "lt_last_token_balance t = dt_last_token_balance d" "lt_last_reward_results t = dt_last_reward_results d"
    and "map_option (map Some) (lt_last_rootnet_msgs t)
      = map_option (map (\<lambda>m. rootnet_msg_value (message_json X M m))) (dt_last_rootnet_msgs d)"
  shows "rel_sum (\<lambda>_ _. True) (=) (db_exec_output_expect E target v d) (lt_output_expect E H target v t)"
proof -
  have m: "lt_last_rootnet_msgs t = map_option (map (\<lambda>m. the (rootnet_msg_value (message_json X M m)))) (dt_last_rootnet_msgs d)"
    using arg_cong [OF assms(6), of "map_option (map the)"] by (simp add: option.map_comp comp_def option.map_ident)
  show ?thesis
    unfolding db_exec_output_expect_def lt_output_expect_def assms(4,5) m
    by (auto simp: balances_alike rewards_alike ok_or_def assms(3) intro!: rootnet_alike [OF assms(1) _ assms(2)] split: option.splits)
qed

definition demo_texts :: message_texts where
  "demo_texts = \<lparr> mt_u256 = (\<lambda>n. ''0x'' @ hex (be_bytes 32 (unat n))), mt_address = (\<lambda>a. ''0x'' @ hex a), mt_hash = hex \<rparr>"

definition demo_reader :: tester_env where
  "demo_reader = demo_tester\<lparr> te_parse_u256 := (\<lambda>s. if prefix ''0x'' s then Inr (of_nat (be_value (unhex (drop 2 s)))) else te_parse_u256 demo_tester s) \<rparr>"

lemma demo_texts_ok: "u256_json_ok demo_reader demo_texts"
proof -
  have "be_value (be_bytes 32 (unat n)) = unat n" for n :: u256
    using unsigned_less [of n, where 'a = nat] by (intro be_value_be_bytes) simp
  then show ?thesis by (simp add: u256_json_ok_def demo_texts_def demo_reader_def)
qed

definition demo_transfer :: rootnet_message where
  "demo_transfer = ErcTransfer \<lparr> et_home_subnet_id = subnet_id_default, et_home_token_address = replicate 20 1, et_amount = 300,
     et_destination_subnet_id = subnet_id_default, et_recipient = replicate 20 2 \<rparr> 9 (replicate 32 3) 4 (replicate 32 5)"

theorem testers_expect_alike_witness:
  "\<exists>r. lt_output_expect demo_reader demo_machine \<lparr> tg_path = ''0.amount'', tg_line_no = 3 \<rparr> ''300''
      (demo_live\<lparr> lt_last_rootnet_msgs := Some [the (rootnet_msg_value (message_json demo_ext demo_texts demo_transfer))] \<rparr>) = Inr r"
proof -
  let ?t = "demo_live\<lparr> lt_last_rootnet_msgs := Some [the (rootnet_msg_value (message_json demo_ext demo_texts demo_transfer))] \<rparr>"
  let ?d = "demo_db\<lparr> dt_last_rootnet_msgs := Some [demo_transfer] \<rparr>"
  let ?g = "\<lparr> tg_path = ''0.amount'', tg_line_no = 3 \<rparr>"
  have c: "common_path (tg_path ?g)" by (simp add: common_path_def)
  have n: "dt_last_token_balance demo_db = None" "dt_last_reward_results demo_db = None"
    by (simp_all add: demo_db_def demo_start_def db_tester_new_def)
  have "parse_uint 64 ''300'' = Inr 300" by (simp add: parse_uint_def is_digit_def)
  then have v: "values_match (dec 300) ''300''" by (simp add: values_match_def parse_uint_dec)
  have "rel_sum (\<lambda>_ _. True) (=) (db_exec_output_expect demo_reader ?g ''300'' ?d) (lt_output_expect demo_reader demo_machine ?g ''300'' ?t)"
    by (rule testers_expect_alike [OF demo_texts_ok c, where X = demo_ext])
      (simp_all add: n demo_live_def message_is_read, simp add: demo_transfer_def)
  moreover have "\<exists>r. db_exec_output_expect demo_reader ?g ''300'' ?d = Inr r"
    using v by (simp add: db_exec_output_expect_def n ok_or_def expect_rootnet_def parse_uint_def is_digit_def msg_field_value_def demo_transfer_def Let_def)
  ultimately show ?thesis
    by (cases "lt_output_expect demo_reader demo_machine ?g ''300'' ?t") auto
qed

end
