(* ===== verification/Startup_Facts.thy ===== *)
theory Startup_Facts
  imports Trace Resume Live_Facts
begin

text \<open>
  What starting up guarantees: loading a wallet is tried a bounded number of times and succeeds as soon as the
  node has it; the monitor program keeps the invariant of the database over all its attempts, waits between
  one and thirty seconds, and catches up after an outage; and the programs read back the settings and the key
  that the monitor tester writes for them.
\<close>

section \<open>Loading a wallet\<close>

fun load_world :: "('c, 'w) bitcoind \<Rightarrow> 'c \<Rightarrow> string \<Rightarrow> 'w \<Rightarrow> nat \<Rightarrow> 'w" where
  "load_world B c wallet w 0 = w"
| "load_world B c wallet w (Suc n) = bd_sleep B 500 (snd (bd_loadwallet B c wallet (load_world B c wallet w n)))"

definition load_answer :: "('c, 'w) bitcoind \<Rightarrow> 'c \<Rightarrow> string \<Rightarrow> 'w \<Rightarrow> nat \<Rightarrow> string + unit" where
  "load_answer B c wallet w n = fst (bd_loadwallet B c wallet (load_world B c wallet w n))"

definition has_wallet :: "string + unit \<Rightarrow> bool" where
  "has_wallet r = (case r of Inr _ \<Rightarrow> True | Inl msg \<Rightarrow> sublist ''already loaded'' msg)"

lemma load_world_shift:
  "load_world B c wallet (bd_sleep B 500 (snd (bd_loadwallet B c wallet w))) n = load_world B c wallet w (Suc n)"
  by (induction n) simp_all

lemma load_answer_shift:
  "load_answer B c wallet (bd_sleep B 500 (snd (bd_loadwallet B c wallet w))) n = load_answer B c wallet w (Suc n)"
  by (simp only: load_answer_def load_world_shift)

lemma load_attempts_step:
  "load_attempts B c wallet (Suc left) w =
     (if has_wallet (load_answer B c wallet w 0) then (Inr (), snd (bd_loadwallet B c wallet w))
      else if left = 0 then (Inl (BitcoinRpcError (projl (load_answer B c wallet w 0))), snd (bd_loadwallet B c wallet w))
      else load_attempts B c wallet left (bd_sleep B 500 (snd (bd_loadwallet B c wallet w))))"
  by (cases "bd_loadwallet B c wallet w") (auto simp: load_answer_def has_wallet_def WALLET_LOAD_RETRY_DELAY_def split: sum.splits)

lemma load_attempts_outcome:
  "\<exists>n \<le> k. snd (load_attempts B c wallet (Suc k) w) = snd (bd_loadwallet B c wallet (load_world B c wallet w n))
     \<and> (\<forall>m < n. \<not> has_wallet (load_answer B c wallet w m))
     \<and> (if has_wallet (load_answer B c wallet w n) then fst (load_attempts B c wallet (Suc k) w) = Inr ()
        else n = k \<and> fst (load_attempts B c wallet (Suc k) w) = Inl (BitcoinRpcError (projl (load_answer B c wallet w n))))"
proof (induction k arbitrary: w)
  case 0
  show ?case unfolding load_attempts_step by simp
next
  case (Suc k)
  show ?case
  proof (cases "has_wallet (load_answer B c wallet w 0)")
    case True
    then show ?thesis unfolding load_attempts_step [of _ _ _ "Suc k"] by (intro exI [of _ 0]) simp
  next
    case False
    let ?w1 = "bd_sleep B 500 (snd (bd_loadwallet B c wallet w))"
    obtain n where n: "n \<le> k" "snd (load_attempts B c wallet (Suc k) ?w1) = snd (bd_loadwallet B c wallet (load_world B c wallet w (Suc n)))"
      "\<forall>m < n. \<not> has_wallet (load_answer B c wallet w (Suc m))"
      "if has_wallet (load_answer B c wallet w (Suc n)) then fst (load_attempts B c wallet (Suc k) ?w1) = Inr ()
        else n = k \<and> fst (load_attempts B c wallet (Suc k) ?w1) = Inl (BitcoinRpcError (projl (load_answer B c wallet w (Suc n))))"
      using Suc.IH [of ?w1] unfolding load_answer_shift load_world_shift by blast
    have "\<forall>m < Suc n. \<not> has_wallet (load_answer B c wallet w m)" using n(3) False by (simp add: All_less_Suc2)
    with n False show ?thesis unfolding load_attempts_step [of _ _ _ "Suc k"]
      by (intro exI [of _ "Suc n"]) (simp del: load_attempts.simps load_world.simps split: if_splits)
  qed
qed

text \<open>
  C39. Loading a wallet asks the node at most twenty times, half a second apart.  It succeeds with the first answer
  that the wallet is loaded, and otherwise fails with the answer to the last request.
\<close>

theorem load_wallet_outcome:
  "\<exists>n < 20. snd (load_wallet B c wallet w) = snd (bd_loadwallet B c wallet (load_world B c wallet w n))
     \<and> list_all (\<lambda>m. \<not> has_wallet (load_answer B c wallet w m)) [0..<n]
     \<and> (if has_wallet (load_answer B c wallet w n) then fst (load_wallet B c wallet w) = Inr ()
        else n = 19 \<and> fst (load_wallet B c wallet w) = Inl (BitcoinRpcError (projl (load_answer B c wallet w n))))"
proof -
  have l: "load_wallet B c wallet w = load_attempts B c wallet (Suc 19) w"
    by (simp add: load_wallet_def WALLET_LOAD_MAX_RETRIES_def eval_nat_numeral del: load_attempts.simps)
  show ?thesis using load_attempts_outcome [of 19 B c wallet w] unfolding l by (auto simp: less_Suc_eq_le [symmetric] list_all_iff simp del: load_attempts.simps)
qed

section \<open>The monitor program\<close>

lemma run_ext: "run E mo ls mo' \<Longrightarrow> en_ext E' = en_ext E \<Longrightarrow> run E' mo ls mo'"
proof (induction rule: run.induct)
  case (msg h bh t tx m mo mo1 r ls mo')
  then show ?case using run.msg [of E' h bh t tx m mo mo1 r ls mo'] by simp
qed (auto intro: run.intros)

text \<open>The loop stops at some attempt; before it every attempt has failed with an error of the node.\<close>

lemma monitor_loop_cases:
  assumes "monitor_loop backoff (a # as) mo = Some (mo', sleeps, r)"
  obtains (stop) mo1 q where "sync_and_listen (ra_env a) (ra_answers a) (ra_polls a) mo = Some (mo1, q)" "mo' = mo1" "\<not> (\<exists>e. q = Inl e \<and> is_retryable e \<and> \<not> ra_cancelled a)" "sleeps = []"
  | (again) mo1 e b rest where "sync_and_listen (ra_env a) (ra_answers a) (ra_polls a) mo = Some (mo1, Inl e)"
      "b = (if 60000 < ra_elapsed a then 1 else backoff)" "monitor_loop (min (b * 2) MAX_BACKOFF) as mo1 = Some (mo', rest, r)" "sleeps = b # rest"
      "is_retryable e \<and> \<not> ra_cancelled a"
proof (cases "sync_and_listen (ra_env a) (ra_answers a) (ra_polls a) mo")
  case None
  then show thesis using assms by simp
next
  case (Some p)
  obtain mo1 q where p: "p = (mo1, q)" by (cases p)
  show thesis
  proof (cases q)
    case (Inr u)
    then show thesis using assms Some p stop by auto
  next
    case (Inl e)
    then show thesis using assms Some p stop again by (auto simp: Let_def split: if_splits)
  qed
qed

text \<open>The messages that the program processes, over all its attempts.\<close>

fun loop_trace :: "run_attempt list \<Rightarrow> trace" where
  "loop_trace [] mo = []"
| "loop_trace (a # as) mo =
     sync_and_listen_trace (ra_env a) (ra_answers a) (ra_polls a) mo @
     (case sync_and_listen (ra_env a) (ra_answers a) (ra_polls a) mo of
        Some (mo', Inl e) \<Rightarrow> if is_retryable e \<and> \<not> ra_cancelled a then loop_trace as mo' else []
      | _ \<Rightarrow> [])"

lemma monitor_loop_traced:
  assumes "monitor_loop backoff as mo = Some (mo', sleeps, r)" "\<And>a. a \<in> set as \<Longrightarrow> en_ext (ra_env a) = en_ext E"
  shows "run E mo (loop_trace as mo) mo'"
  using assms
proof (induction as arbitrary: backoff mo sleeps)
  case (Cons a as)
  have E: "en_ext E = en_ext (ra_env a)" using Cons.prems(2) by simp
  from Cons.prems(1) show ?case
  proof (cases rule: monitor_loop_cases)
    case (stop mo1 q)
    have "loop_trace (a # as) mo = sync_and_listen_trace (ra_env a) (ra_answers a) (ra_polls a) mo"
      using stop(1,3) by (auto split: sum.splits)
    then show ?thesis using run_ext [OF traced_sync_and_listen [OF stop(1)] E] stop(2) by simp
  next
    case (again mo1 e b rest)
    have "run E mo1 (loop_trace as mo1) mo'" using Cons.IH [OF again(3)] Cons.prems(2) by simp
    then show ?thesis using run_append [OF run_ext [OF traced_sync_and_listen [OF again(1)] E]] again(1,5) by simp
  qed
qed simp

lemma monitor_loop_sleeps:
  assumes "monitor_loop backoff as mo = Some (mo', sleeps, r)" "1 \<le> backoff" "backoff \<le> 30"
  shows "list_all (\<lambda>s. 1 \<le> s \<and> s \<le> 30) sleeps \<and> length sleeps < length as"
  using assms
proof (induction as arbitrary: backoff mo sleeps)
  case (Cons a as)
  from Cons.prems(1) show ?case
  proof (cases rule: monitor_loop_cases)
    case (again mo1 e b rest)
    have b: "1 \<le> b" "b \<le> 30" using again(2) Cons.prems(2,3) by auto
    have "list_all (\<lambda>s. 1 \<le> s \<and> s \<le> 30) rest \<and> length rest < length as"
      using b by (intro Cons.IH [OF again(3)]) (auto simp: MAX_BACKOFF_def)
    with b again(4) show ?thesis by simp
  qed simp
qed simp

text \<open>
  C16. The monitor program keeps the invariant of the database.  Whatever the node answers and however often the
  loop starts the monitor again: when each message that the program processes finds room in the database of
  that moment (no 64-bit counter is exhausted, the destinations of a batch are subnets, and a create has a
  transaction id that has not created a subnet before), the invariant holds at the end, no subnet has disappeared, no kill was
  taken back and no checkpoint number has decreased; between two attempts it sleeps for one to thirty seconds.
\<close>

theorem monitor_program_keeps_invariant:
  assumes "ext_ok X" "\<And>a. a \<in> set attempts \<Longrightarrow> en_ext (ra_env a) = X"
    and "monitor_loop 1 attempts mo = Some (mo', sleeps, r)"
    and "db_inv X (mo_db mo)" "\<forall>l \<in> set (loop_trace attempts mo). label_room X l"
  shows "db_inv X (mo_db mo') \<and> db_progress X (mo_db mo) (mo_db mo') \<and> list_all (\<lambda>s. 1 \<le> s \<and> s \<le> 30) sleeps"
proof -
  let ?E = "ra_env (hd attempts)"
  have "attempts \<noteq> []" using assms(3) by auto
  then have X: "en_ext ?E = X" using assms(2) by simp
  have "run ?E mo (loop_trace attempts mo) mo'" by (rule monitor_loop_traced [OF assms(3)]) (simp add: X assms(2))
  from run_good [OF this] assms(1,4,5) monitor_loop_sleeps [OF assms(3)] show ?thesis by (simp add: X)
qed

text \<open>A node with one block, whose only transaction funds a subnet; the user cancels when it is processed.\<close>

theorem monitor_program_keeps_invariant_witness:
  "\<exists>attempts mo mo' l. loop_trace attempts mo = [l] \<and> monitor_loop 1 attempts mo = Some (mo', [], Inr ())
     \<and> get_last_processed_block (mo_db mo') = 1 \<and> db_inv demo_ext (mo_db mo')"
proof -
  obtain tx where tx: "inputs tx = []" "fund_from_tx demo_ext tx = Inr demo_fund_msg"
    "\<exists>a b. prefund_from_tx demo_ext tx = Inl (MsgParseError a b)" by (rule demo_fund_tx)
  obtain db s where db: "db_inv demo_ext db" "get_subnet_state demo_ext db demo_id = Some s" "ss_killed s = NotKilled"
    "rootnet_msgs_db db = []" "monitor_info db = []" by (rule boot_subnet)
  from tx(3) obtain a b where p: "prefund_from_tx demo_ext tx = Inl (MsgParseError a b)" by blast
  let ?b = "\<lparr> bl_hash = [1], bl_time = 0, bl_txdata = [tx] \<rparr>"
  let ?E = "demo_env\<lparr> en_block := (\<lambda>h. Inr ?b), en_cancelled := (\<lambda>h. h = 1) \<rparr>"
  let ?a = "\<lparr> ra_env = ?E, ra_answers = [(Inr 1, Inr 1)], ra_polls = [Inr 1], ra_elapsed = 0, ra_cancelled = False \<rparr>"
  let ?mo = "monitor_new db 3" and ?l = "(compute_txid demo_ext tx, FundMsg demo_fund_msg, db)"
  have mo: "mo_db ?mo = db" "mo_current_height ?mo = 0" "mo_reward_tracker ?mo = None" "mo_side_effects ?mo = []" "mo_sync_batch_size ?mo = 3"
    by (simp_all add: monitor_new_def)
  have w: "concat (map witness (inputs tx)) = []" using tx(1) by simp
  have E: "en_ext ?E = demo_ext" by (simp add: demo_env_def)
  obtain db1 where t: "process_transaction ?E 1 [1] 0 tx ?mo = (?mo\<lparr> mo_db := db1 \<rparr>, Inr ())"
    using fund_tx_step [OF w, of ?E a b demo_fund_msg ?mo s 1 "[1]" 0] tx(2) p db(2,3) mo(1)
    by (simp add: E demo_fund_msg_def is_killed_or_pending_def)
  define mo1 where "mo1 = ?mo\<lparr> mo_db := set_last_processed_block 1 db1, mo_current_height := 1 \<rparr>"
  have fin: "finish_block ?E 1 ?b ?mo = (mo1, Inr ())"
    using t mo(3) by (simp add: finish_block_def process_block_data_def ac_bind_def ac_return_def advance_def reward_block_def mo1_def)
  then have s: "sync_blocks ?E 1 [?b] ?mo = (mo1, Inr ())" by (simp add: ac_bind_def ac_return_def)
  have f: "fetch_blocks_batched ?E 1 1 = Inr [?b]" by (simp add: fetch_blocks_batched_def)
  have h1: "mo_current_height mo1 = 1" "mo_side_effects mo1 = []" using mo(4) by (simp_all add: mo1_def)
  have last: "get_last_processed_block (mo_db mo1) = 1" "get_last_processed_block db = 0"
    using finish_block_advances [OF fin] db(5) mo(1) by (simp_all add: get_last_processed_block_def kv_get_def)
  have zero: "?mo\<lparr> mo_current_height := 0 \<rparr> = ?mo" by (simp add: monitor_new_def)
  have nc: "\<not> en_cancelled ?E 0" "en_cancelled ?E 1" by simp_all
  have lat: "get_latest_confirmed_height ?E (Inr 1) = Inr 1"
    by (simp add: get_latest_confirmed_height_def demo_env_def confirmations_def)
  have "catch_up ?E 1 mo1 = (mo1, Inr True)" "catch_up_trace ?E 1 mo1 = []"
    using h1(1) by (subst catch_up.simps catch_up_trace.simps, simp)+
  then have c: "catch_up ?E 1 ?mo = (mo1, Inr True)" "catch_up_trace ?E 1 ?mo = blocks_trace ?E 1 [?b] ?mo"
    using f s nc(1) mo(2,5) by (subst catch_up.simps catch_up_trace.simps, simp add: Let_def del: sync_blocks.simps blocks_trace.simps)+
  have bt: "blocks_trace ?E 1 [?b] ?mo = [?l]"
    using tx(2) p mo(1) by (simp add: w block_trace_def transaction_trace_def outputs_trace_def Let_def attempt_trace_def msg_trace_def
        E tr_bind_def ac_return_def t [simplified] fin split: prod.splits sum.splits)
  have sync: "sync ?E [(Inr 1, Inr 1)] ?mo = Some (mo1, Inr True)" "sync_trace ?E [(Inr 1, Inr 1)] ?mo = [?l]"
    using c bt lat nc(1) h1 last(2) mo(1) unfolding sync_def sync_trace_def mo(1) last(2) zero
    by (simp_all add: mo(2) process_side_effects_def)
  have sl: "sync_and_listen ?E [(Inr 1, Inr 1)] [Inr 1] ?mo = Some (mo1, Inr ())" "sync_and_listen_trace ?E [(Inr 1, Inr 1)] [Inr 1] ?mo = [?l]"
    using sync h1(1) nc(2) by (simp_all add: sync_and_listen_def sync_and_listen_trace_def)
  then have l: "monitor_loop 1 [?a] ?mo = Some (mo1, [], Inr ())" and tr: "loop_trace [?a] ?mo = [?l]" by simp_all
  have "label_room demo_ext ?l" using db(4) by (simp add: label_room_def rootnet_room_def kv_prefix_iter_def)
  then have room: "\<forall>l \<in> set (loop_trace [?a] ?mo). label_room demo_ext l" unfolding tr by simp
  have "db_inv demo_ext (mo_db mo1)"
    using monitor_program_keeps_invariant [OF demo_ext_ok _ l _ room] db(1) mo(1) E by simp
  with l tr last(1) show ?thesis by blast
qed

section \<open>Settings that the tester writes\<close>

text \<open>
  The parser of \<open>.env\<close> files is a parameter.  On lines of a key and a plain value, with distinct keys, it returns
  the map of the lines.
\<close>

definition env_lines :: "(string \<times> string) list \<Rightarrow> string" where
  "env_lines kvs = concat (map (\<lambda>(k, v). (k @ ''='' @ v) @ line_end) kvs)"

definition plain_key :: "string \<Rightarrow> bool" where
  "plain_key k \<longleftrightarrow> list_all (\<lambda>c. c = CHR ''_'' \<or> is_upper c) k"

definition plain_value :: "string \<Rightarrow> bool" where
  "plain_value v \<longleftrightarrow> v \<noteq> [] \<and> list_all (\<lambda>c. \<not> is_space c \<and> c \<notin> set [CHR 0x22, CHR 0x27, CHR 0x23, CHR 0x24, CHR 0x5C, CHR 0x0A]) v"

definition dotenv_ok :: "(string \<Rightarrow> env_vars option) \<Rightarrow> bool" where
  "dotenv_ok dotenv \<longleftrightarrow> (\<forall>kvs. list_all (\<lambda>(k, v). plain_key k \<and> plain_value v) kvs \<longrightarrow> distinct (map fst kvs)
     \<longrightarrow> dotenv (env_lines kvs) = Some (map_of kvs))"

definition env_settings :: "u16 \<Rightarrow> string \<Rightarrow> string \<Rightarrow> u64 option \<Rightarrow> u64 option \<Rightarrow> string option \<Rightarrow> (string \<times> string) list" where
  "env_settings provider_port db_url sk_path activation_height snapshot_length log_level =
     [(''RPC_USER'', RPC_USER), (''RPC_PASS'', RPC_PASS), (''RPC_URL'', ''http://127.0.0.1:'' @ dec BITCOIND_RPC_PORT),
      (''WALLET_NAME'', WALLET_NAME), (''VALIDATOR_SK_PATH'', sk_path), (''DATABASE_URL'', db_url),
      (''PROVIDER_PORT'', dec (unat provider_port)), (''PROVIDER_AUTH_TOKEN'', AUTH_TOKEN),
      (''MONITOR_POLL_INTERVAL'', dec MONITOR_POLL_INTERVAL), (''RUST_LOG'', case log_level of Some l \<Rightarrow> l | None \<Rightarrow> ''info'')]
     @ (case activation_height of Some h \<Rightarrow> [(''ACTIVATION_HEIGHT'', dec (unat h))] | None \<Rightarrow> [])
     @ (case snapshot_length of Some l \<Rightarrow> [(''SNAPSHOT_LENGTH'', dec (unat l))] | None \<Rightarrow> [])"

lemma env_text_lines: "env_text port db_url sk_path ah sl ll = env_lines (env_settings port db_url sk_path ah sl ll)"
  by (simp add: env_text_def env_lines_def env_settings_def split: option.splits)

lemma plain_dec [simp]: "plain_value (dec n)"
proof -
  have "\<not> is_space c \<and> c \<notin> set [CHR 0x22, CHR 0x27, CHR 0x23, CHR 0x24, CHR 0x5C, CHR 0x0A]" if "c \<in> set (dec n)" for c
    using dec_digits [of n] that by (force simp: list_all_iff is_digit_def is_space_def)
  then show ?thesis using dec_not_Nil by (auto simp: plain_value_def list_all_iff)
qed

lemma plain_append: "plain_value a \<Longrightarrow> plain_value b \<Longrightarrow> plain_value (a @ b)"
  by (simp add: plain_value_def)

lemma env_settings_plain:
  assumes "plain_value db_url" "plain_value sk_path" "\<And>l. ll = Some l \<Longrightarrow> plain_value l"
  shows "list_all (\<lambda>(k, v). plain_key k \<and> plain_value v) (env_settings port db_url sk_path ah sl ll)"
    "distinct (map fst (env_settings port db_url sk_path ah sl ll))"
proof -
  have c: "plain_value RPC_USER" "plain_value RPC_PASS" "plain_value ''http://127.0.0.1:''" "plain_value WALLET_NAME" "plain_value AUTH_TOKEN"
    "plain_value ''info''" "plain_key ''RPC_USER''" "plain_key ''RPC_PASS''" "plain_key ''RPC_URL''" "plain_key ''WALLET_NAME''"
    "plain_key ''VALIDATOR_SK_PATH''" "plain_key ''DATABASE_URL''" "plain_key ''PROVIDER_PORT''" "plain_key ''PROVIDER_AUTH_TOKEN''"
    "plain_key ''MONITOR_POLL_INTERVAL''" "plain_key ''RUST_LOG''" "plain_key ''ACTIVATION_HEIGHT''" "plain_key ''SNAPSHOT_LENGTH''"
    by (simp_all add: plain_value_def plain_key_def is_space_def is_upper_def RPC_USER_def RPC_PASS_def WALLET_NAME_def AUTH_TOKEN_def)
  have "plain_value (''http://127.0.0.1:'' @ dec BITCOIND_RPC_PORT)" by (rule plain_append [OF c(3) plain_dec])
  then show "list_all (\<lambda>(k, v). plain_key k \<and> plain_value v) (env_settings port db_url sk_path ah sl ll)"
    using assms c by (simp add: env_settings_def split: option.splits)
  show "distinct (map fst (env_settings port db_url sk_path ah sl ll))"
    by (simp add: env_settings_def split: option.splits)
qed

lemma parse_height_dec [simp]: "parse_uint 64 (dec (unat (n :: u64))) = Inr (unat n)"
  using parse_uint_dec [of "unat n" 64] unsigned_less [of n, where 'a = nat] by simp

lemma parse_one: "parse_uint 64 (dec MONITOR_POLL_INTERVAL) = Inr 1"
  by (simp add: MONITOR_POLL_INTERVAL_def parse_uint_dec)

text \<open>
  The settings that the monitor tester writes reach the programs.  With paths and a log level that need no
  quoting the programs see the port, the database and the key file of the tester, poll every second and
  fetch a hundred blocks at a time.  The tester builds the monitor with rewards: the monitor then starts
  exactly when both heights are given and the length is not zero, and panics otherwise.
\<close>

theorem tester_settings_reach_programs:
  assumes "dotenv_ok dotenv" "plain_value db_url" "plain_value sk_path" "\<And>l. ll = Some l \<Longrightarrow> plain_value l"
  shows "\<exists>vars. dotenv (env_text port db_url sk_path ah sl ll) = Some vars
     \<and> vars ''PROVIDER_PORT'' = Some (dec (unat port)) \<and> vars ''PROVIDER_AUTH_TOKEN'' = Some AUTH_TOKEN
     \<and> vars ''DATABASE_URL'' = Some db_url \<and> vars ''VALIDATOR_SK_PATH'' = Some sk_path
     \<and> poll_interval vars = 1 \<and> sync_batch_size vars = 100
     \<and> (case (ah, sl) of
          (Some a, Some l) \<Rightarrow> if l = 0 then \<exists>m. monitor_start True vars db = Inl (StartupPanic m)
            else monitor_start True vars db = Inr (set_reward_tracker \<lparr> rc_activation_height = a, rc_snapshot_length = l \<rparr> (monitor_new db 100))
        | _ \<Rightarrow> \<exists>m. monitor_start True vars db = Inl (StartupPanic m))"
proof -
  let ?vars = "map_of (env_settings port db_url sk_path ah sl ll)"
  have v: "dotenv (env_text port db_url sk_path ah sl ll) = Some ?vars"
    using assms(1) env_settings_plain [OF assms(2-4), where ll = ll] unfolding dotenv_ok_def env_text_lines by blast
  have b: "sync_batch_size ?vars = 100" by (simp add: sync_batch_size_def env_settings_def DEFAULT_SYNC_BATCH_SIZE_def split: option.splits)
  have r: "expect_u64 ?vars ''ACTIVATION_HEIGHT'' = (case ah of Some a \<Rightarrow> Inr a
        | None \<Rightarrow> Inl (StartupPanic (''ACTIVATION_HEIGHT'' @ '' env var not defined but required when emission chain features are enabled'')))"
    "expect_u64 ?vars ''SNAPSHOT_LENGTH'' = (case sl of Some l \<Rightarrow> Inr l
        | None \<Rightarrow> Inl (StartupPanic (''SNAPSHOT_LENGTH'' @ '' env var not defined but required when emission chain features are enabled'')))"
    by (simp_all add: expect_u64_def expect_var_def env_settings_def ok_or_def split: option.splits)
  have m: "case (ah, sl) of
          (Some a, Some l) \<Rightarrow> if l = 0 then \<exists>m. monitor_start True ?vars db = Inl (StartupPanic m)
            else monitor_start True ?vars db = Inr (set_reward_tracker \<lparr> rc_activation_height = a, rc_snapshot_length = l \<rparr> (monitor_new db 100))
        | _ \<Rightarrow> \<exists>m. monitor_start True ?vars db = Inl (StartupPanic m)"
    unfolding monitor_start_def Let_def reward_config_from_env_def r b
    by (simp add: reward_config_new_def reward_config_validate_def split: option.splits)
  have "poll_interval ?vars = 1" by (simp add: poll_interval_def env_settings_def parse_one split: option.splits)
  moreover have "?vars ''PROVIDER_PORT'' = Some (dec (unat port))" "?vars ''PROVIDER_AUTH_TOKEN'' = Some AUTH_TOKEN"
    "?vars ''DATABASE_URL'' = Some db_url" "?vars ''VALIDATOR_SK_PATH'' = Some sk_path"
    by (simp_all add: env_settings_def)
  ultimately show ?thesis using v b m by blast
qed

section \<open>The key of a validator\<close>

lemma hex_encode_chars: "c \<in> set (hex_encode bs) \<Longrightarrow> \<not> is_space c \<and> c \<noteq> CHR ''x''"
proof -
  assume "c \<in> set (hex_encode bs)"
  then obtain b :: u8 where b: "c = hex_digit (unat b div 16) \<or> c = hex_digit (unat b mod 16)" by (auto simp: hex_encode_def)
  have "unat b < 256" using unsigned_less [of b, where 'a = nat] by simp
  then have "unat b div 16 < 16" "unat b mod 16 < 16" by auto
  then obtain n where n: "n < 16" "c = hex_digit n" using b by blast
  then have "hex_value c = Some n" by (simp add: hex_value_digit)
  then show ?thesis by (auto simp: hex_value_def is_space_def Let_def split: if_splits)
qed

text \<open>
  A provider signs with the key that the tester wrote for its validator.  When what was written to a file is
  read back from it, the provider that is started with the path of the key file loads exactly this key.
\<close>

theorem provider_loads_written_key:
  assumes "\<And>path content w u w' d. ho_write H path content w = (Inr u, w', d) \<Longrightarrow> read_file w' path = Inr content"
    and "write_validator_sk H dir name sk (t, w) = (Inr u, (t', w'), d)"
    and "vars ''VALIDATOR_SK_PATH'' = Some (path_join dir (name @ ''.sk''))" "sk_from_slice sk = Inr sk"
  shows "load_validator (read_file w') sk_from_slice x_only vars = Inr (Some (x_only sk, sk))"
proof -
  have r: "read_file w' (path_join dir (name @ ''.sk'')) = Inr (hex_encode sk)"
    using assms(2) by (auto simp: write_validator_sk_def write_file_def io_world_def res_map_err_eq split: prod.splits intro: assms(1))
  have t: "trim (hex_encode sk) = hex_encode sk"
    using hex_encode_chars by (intro trim_ends) (metis hd_in_set last_in_set)
  have p: "strip_prefix ''0x'' (hex_encode sk) = None"
    using hex_encode_chars [of "CHR ''x''" sk] by (auto simp: strip_prefix_def prefix_def)
  have ne: "path_join dir (name @ ''.sk'') \<noteq> []" by (simp add: path_join_def)
  show ?thesis
    unfolding load_validator_def Let_def assms(3) option.case if_not_P [OF ne] r res_map_err.simps res_bind.simps t p hex_decode_encode
      assms(4) ..
qed

definition demo_dotenv :: "string \<Rightarrow> env_vars option" where
  "demo_dotenv text = Some (map_of (List.map_filter (split_once (CHR ''='')) (text_lines text)))"

lemma split_once_key: "c \<notin> set k \<Longrightarrow> split_once c (k @ c # v) = Some (k, v)"
proof -
  assume "c \<notin> set k"
  then have "takeWhile (\<lambda>x. x \<noteq> c) (k @ c # v) = k \<and> dropWhile (\<lambda>x. x \<noteq> c) (k @ c # v) = c # v"
    by (induction k) auto
  then show ?thesis by (simp add: split_once_def)
qed

lemma demo_dotenv_ok: "dotenv_ok demo_dotenv"
  unfolding dotenv_ok_def
proof (intro allI impI)
  fix kvs assume plain: "list_all (\<lambda>(k, v). plain_key k \<and> plain_value v) kvs"
  let ?ls = "map (\<lambda>(k, v). k @ ''='' @ v) kvs"
  have key: "c \<notin> set k" if "plain_key k" "\<not> is_upper c" "c \<noteq> CHR ''_''" for k c
    using that by (auto simp: plain_key_def list_all_iff)
  have "CHR 0x0A \<notin> set l \<and> CHR 0x0D \<notin> set l" if "l \<in> set ?ls" for l
  proof -
    from that obtain x where x: "x \<in> set kvs" "l = fst x @ ''='' @ snd x" by auto
    define k v where "k = fst x" and "v = snd x"
    have l: "l = k @ ''='' @ v" "plain_key k" "plain_value v"
      using x plain unfolding k_def v_def list_all_iff by (auto simp: case_prod_beta)
    have "c \<notin> set v" if "is_space c" for c using l(3) that by (auto simp: plain_value_def list_all_iff)
    then show ?thesis using l key by (auto simp: is_space_def is_upper_def)
  qed
  moreover have "env_lines kvs = concat (map (\<lambda>l. l @ [CHR 0x0A]) ?ls)" by (simp add: env_lines_def comp_def case_prod_unfold)
  ultimately have t: "text_lines (env_lines kvs) = ?ls" using text_lines_concat [of ?ls] by simp
  have "List.map_filter (split_once (CHR ''='')) ?ls = kvs"
    using plain
  proof (induction kvs)
    case (Cons x kvs)
    obtain k v where x: "x = (k, v)" by (cases x)
    then have "CHR ''='' \<notin> set k" using Cons.prems by (intro key) (auto simp: is_upper_def)
    then show ?case using Cons x by (simp add: split_once_key)
  qed simp
  with t show "demo_dotenv (env_lines kvs) = Some (map_of kvs)" by (simp add: demo_dotenv_def)
qed

theorem tester_settings_reach_programs_witness:
  "\<exists>vars. demo_dotenv (env_text 9000 ''/tmp/db'' ''/tmp/v.sk'' (Some 101) (Some 10) None) = Some vars \<and> vars ''PROVIDER_PORT'' = Some (dec 9000)
     \<and> monitor_start True vars empty_db = Inr (set_reward_tracker \<lparr> rc_activation_height = 101, rc_snapshot_length = 10 \<rparr> (monitor_new empty_db 100))"
proof -
  have p: "plain_value ''/tmp/db''" "plain_value ''/tmp/v.sk''" by (simp_all add: plain_value_def is_space_def)
  show ?thesis
    using tester_settings_reach_programs [OF demo_dotenv_ok p, of None 9000 "Some 101" "Some 10" empty_db] by auto
qed

text \<open>A disk: its world is the map of the files.\<close>

definition demo_disk :: "(string \<rightharpoonup> string) host" where
  "demo_disk = \<lparr> ho_output = (\<lambda>prog args w. (Inl ''no such program'', w, 0)), ho_spawn = (\<lambda>prog args w. (Inl ''no such program'', w, 0)),
     ho_sleep = (\<lambda>ms w. w), ho_write = (\<lambda>path content w. (Inr (), w(path \<mapsto> content), 1)), ho_create = (\<lambda>f w. (Inr (), w, 1)),
     ho_create_dir = (\<lambda>f w. (Inr (), w, 1)), ho_tempdir = (\<lambda>w. (Inr ''/tmp/demo'', w, 1)), ho_exists = (\<lambda>f w. w f \<noteq> None),
     ho_free_port = (\<lambda>w. (9000, w)), ho_from_str = (\<lambda>s. None), ho_to_string = (\<lambda>j. []) \<rparr>"

theorem provider_loads_written_key_witness:
  "\<exists>w'. write_validator_sk demo_disk ''/tmp'' ''v1'' (replicate 32 171) ((), Map.empty) = (Inr (), ((), w'), 1)
     \<and> load_validator (\<lambda>path. ok_or (w' path) ''not found'') (\<lambda>sk. if length sk = 32 then Inr sk else Inl ''malformed'') (\<lambda>sk. sk)
         [''VALIDATOR_SK_PATH'' \<mapsto> ''/tmp/v1.sk''] = Inr (Some (replicate 32 171, replicate 32 171))"
proof -
  let ?p = "path_join ''/tmp'' (''v1'' @ ''.sk'')" and ?sk = "replicate 32 171 :: bytes"
  let ?w = "[?p \<mapsto> hex_encode ?sk]"
  have w: "write_validator_sk demo_disk ''/tmp'' ''v1'' ?sk ((), Map.empty) = (Inr (), ((), ?w), 1)"
    by (simp add: write_validator_sk_def write_file_def io_world_def demo_disk_def)
  have "load_validator (\<lambda>path. ok_or (?w path) ''not found'') (\<lambda>sk. if length sk = 32 then Inr sk else Inl ''malformed'') (\<lambda>sk. sk)
      [''VALIDATOR_SK_PATH'' \<mapsto> ?p] = Inr (Some (?sk, ?sk))"
    by (rule provider_loads_written_key [OF _ w, where read_file = "\<lambda>w path. ok_or (w path) ''not found''"])
      (auto simp: demo_disk_def ok_or_def)
  moreover have "?p = ''/tmp/v1.sk''" by (simp add: path_join_def)
  ultimately show ?thesis using w by auto
qed

end
