(* ===== verification/Quickstart_Facts.thy ===== *)
theory Quickstart_Facts
  imports Quickstart Startup_Facts
begin

text \<open>
  What the quickstart program leaves on the disk and on the chain.  A disk is described by what is at each
  path; the predicate \<open>files_ok\<close> says what the calls of the standard library do on a disk that does not fail.
\<close>

section \<open>Disks\<close>

datatype fs_node = FsFile string | FsDir

type_synonym 'w disk = "'w \<Rightarrow> path \<Rightarrow> fs_node option"

definition files_ok :: "'w shell \<Rightarrow> 'w disk \<Rightarrow> bool" where
  "files_ok S fs \<longleftrightarrow>
     (\<forall>p w. sh_exists S p w \<longleftrightarrow> fs w p \<noteq> None) \<and> (\<forall>p w. sh_is_dir S p w \<longleftrightarrow> fs w p = Some FsDir)
   \<and> (\<forall>p w. (\<forall>q c. prefix q p \<longrightarrow> fs w q \<noteq> Some (FsFile c)) \<longrightarrow>
        (\<exists>w'. sh_create_dir_all S p w = (Inr (), w') \<and> fs w' = (\<lambda>q. if prefix q p then Some FsDir else fs w q)))
   \<and> (\<forall>p n c w. fs w p = Some FsDir \<longrightarrow> fs w (p @ [n]) \<noteq> Some FsDir \<longrightarrow>
        (\<exists>w'. sh_write S (p @ [n]) c w = (Inr (), w') \<and> fs w' = (fs w)(p @ [n] \<mapsto> FsFile c)))
   \<and> (\<forall>p c w. fs w p = Some (FsFile c) \<longrightarrow> (\<exists>w'. sh_read S p w = (Inr c, w') \<and> fs w' = fs w))
   \<and> (\<forall>p w. fs w p = Some FsDir \<longrightarrow>
        (\<exists>names w'. sh_read_dir S p w = (Inr (map Inr names), w') \<and> fs w' = fs w \<and> distinct names \<and> set names = {n. fs w (p @ [n]) \<noteq> None}))"

lemma files_okD:
  assumes "files_ok S fs"
  shows "sh_exists S p w \<longleftrightarrow> fs w p \<noteq> None" "sh_is_dir S p w \<longleftrightarrow> fs w p = Some FsDir"
    "\<forall>q c. prefix q p \<longrightarrow> fs w q \<noteq> Some (FsFile c) \<Longrightarrow>
       \<exists>w'. sh_create_dir_all S p w = (Inr (), w') \<and> fs w' = (\<lambda>q. if prefix q p then Some FsDir else fs w q)"
    "fs w p = Some FsDir \<Longrightarrow> fs w (p @ [n]) \<noteq> Some FsDir \<Longrightarrow>
       \<exists>w'. sh_write S (p @ [n]) c w = (Inr (), w') \<and> fs w' = (fs w)(p @ [n] \<mapsto> FsFile c)"
    "fs w p = Some (FsFile c) \<Longrightarrow> \<exists>w'. sh_read S p w = (Inr c, w') \<and> fs w' = fs w"
    "fs w p = Some FsDir \<Longrightarrow>
       \<exists>names w'. sh_read_dir S p w = (Inr (map Inr names), w') \<and> fs w' = fs w \<and> distinct names \<and> set names = {n. fs w (p @ [n]) \<noteq> None}"
  using assms unfolding files_ok_def by blast+

text \<open>What an embedded directory has at a path, how deep it is, and that its names are distinct.\<close>

fun em_at :: "embedded \<Rightarrow> path \<Rightarrow> fs_node option" where
  "em_at em [] = Some FsDir"
| "em_at em (n # q) =
     (case map_of (em_dirs em) n of
        Some d \<Rightarrow> em_at d q
      | None \<Rightarrow> if q = [] then map_option FsFile (map_of (em_files em) n) else None)"

fun em_ok :: "embedded \<Rightarrow> bool" where
  "em_ok (Embedded files dirs) \<longleftrightarrow> distinct (map fst files @ map fst dirs) \<and> list_all (\<lambda>(n, d). em_ok d) dirs"

fun em_depth :: "embedded \<Rightarrow> nat" where
  "em_depth (Embedded files dirs) = Suc (foldr (\<lambda>(n, d) m. max (em_depth d) m) dirs 0)"

lemma em_at_closed: "em_at em (q @ [n]) \<noteq> None \<Longrightarrow> em_at em q = Some FsDir"
  by (induction em q rule: em_at.induct) (auto split: option.splits if_splits)

lemma foldr_max_ge: "(n, d) \<in> set dirs \<Longrightarrow> f d \<le> foldr (\<lambda>(n, d) m. max (f d) m) dirs (0 :: nat)"
  by (induction dirs) (auto simp: le_max_iff_disj)

lemma em_at_depth: "em_at em q \<noteq> None \<Longrightarrow> length q \<le> em_depth em"
proof (induction em q rule: em_at.induct)
  case (2 em n q)
  obtain files dirs where em: "em = Embedded files dirs" by (cases em)
  show ?case
  proof (cases "map_of dirs n")
    case (Some d)
    then have "length q \<le> em_depth d" using 2 em by simp
    moreover have "em_depth d \<le> foldr (\<lambda>(n, d) m. max (em_depth d) m) dirs 0"
      using map_of_SomeD [OF Some] by (rule foldr_max_ge)
    ultimately show ?thesis using em by simp
  qed (use 2 em in \<open>auto split: if_splits\<close>)
qed simp

section \<open>Extraction\<close>

lemma call_bind_Inr: "m w = (Inr a, w') \<Longrightarrow> call_bind m f w = f a w'"
  by (simp add: call_bind_def)

lemma files_written:
  assumes "files_ok S fs" "fs w dst = Some FsDir" "distinct (map fst files)" "list_all (\<lambda>(n, c). fs w (dst @ [n]) \<noteq> Some FsDir) files"
  shows "\<exists>us w'. call_each (\<lambda>(n, c). sh_write S (dst @ [n]) c) files w = (Inr us, w')
     \<and> (\<forall>n. fs w' (dst @ [n]) = (case map_of files n of Some c \<Rightarrow> Some (FsFile c) | None \<Rightarrow> fs w (dst @ [n])))
     \<and> (\<forall>p. (\<forall>n. p \<noteq> dst @ [n]) \<longrightarrow> fs w' p = fs w p)"
  using assms(2-4)
proof (induction files arbitrary: w)
  case Nil
  then show ?case by (simp add: call_return_def)
next
  case (Cons x files)
  obtain n c where x: "x = (n, c)" by (cases x)
  obtain w1 where w1: "sh_write S (dst @ [n]) c w = (Inr (), w1)" "fs w1 = (fs w)(dst @ [n] \<mapsto> FsFile c)"
    using files_okD(4) [OF assms(1), of w dst n c] Cons.prems x by auto
  have "fs w1 dst = Some FsDir" "list_all (\<lambda>(n, c). fs w1 (dst @ [n]) \<noteq> Some FsDir) files"
    using Cons.prems w1 by (auto simp: list_all_iff split: if_splits)
  then obtain us w' where w': "call_each (\<lambda>(n, c). sh_write S (dst @ [n]) c) files w1 = (Inr us, w')"
    "\<And>n. fs w' (dst @ [n]) = (case map_of files n of Some c \<Rightarrow> Some (FsFile c) | None \<Rightarrow> fs w1 (dst @ [n]))"
    "\<And>p. (\<forall>n. p \<noteq> dst @ [n]) \<Longrightarrow> fs w' p = fs w1 p"
    using Cons.IH [of w1] Cons.prems by auto
  have "map_of files n = None" using Cons.prems x by (simp add: map_of_eq_None_iff)
  then have "(\<forall>m. fs w' (dst @ [m]) = (case map_of (x # files) m of Some c \<Rightarrow> Some (FsFile c) | None \<Rightarrow> fs w (dst @ [m])))
     \<and> (\<forall>p. (\<forall>n. p \<noteq> dst @ [n]) \<longrightarrow> fs w' p = fs w p)"
    using w'(2,3) w1(2) x by (simp split: option.splits)
  then show ?case using w1(1) w'(1) x by (auto simp: call_bind_Inr call_return_def)
qed

lemma extracted:
  shows "files_ok S fs \<Longrightarrow> em_ok em \<Longrightarrow> \<forall>q c. prefix q dst \<longrightarrow> fs w q \<noteq> Some (FsFile c) \<Longrightarrow> \<forall>q. q \<noteq> [] \<longrightarrow> fs w (dst @ q) = None \<Longrightarrow>
      \<exists>w'. extract_embedded_dir S em dst w = (Inr (), w') \<and> (\<forall>q. fs w' (dst @ q) = em_at em q)
        \<and> (\<forall>p. \<not> prefix dst p \<longrightarrow> fs w' p = (if prefix p dst then Some FsDir else fs w p))"
    "files_ok S fs \<Longrightarrow> distinct (map fst dirs) \<Longrightarrow> list_all (\<lambda>(n, d). em_ok d) dirs \<Longrightarrow> \<forall>q. prefix q dst \<longrightarrow> fs w q = Some FsDir \<Longrightarrow>
      \<forall>n q. n \<in> fst ` set dirs \<longrightarrow> fs w (dst @ n # q) = None \<Longrightarrow>
      \<exists>w'. extract_dirs S dirs dst w = (Inr (), w')
        \<and> (\<forall>n q. fs w' (dst @ n # q) = (case map_of dirs n of Some d \<Rightarrow> em_at d q | None \<Rightarrow> fs w (dst @ n # q)))
        \<and> fs w' dst = Some FsDir \<and> (\<forall>p. \<not> prefix dst p \<longrightarrow> fs w' p = fs w p)"
proof (induction S em dst and S dirs dst arbitrary: w and w rule: extract_embedded_dir_extract_dirs.induct)
  case (1 S files dirs dst)
  obtain w1 where w1: "sh_create_dir_all S dst w = (Inr (), w1)" "fs w1 = (\<lambda>q. if prefix q dst then Some FsDir else fs w q)"
    using files_okD(3) [OF 1(2), of dst w] 1(4) by blast
  have new: "fs w1 (dst @ n # q) = None" for n q using w1(2) 1(5) by simp
  obtain us w2 where w2: "call_each (\<lambda>(n, c). sh_write S (dst @ [n]) c) files w1 = (Inr us, w2)"
    "\<And>n. fs w2 (dst @ [n]) = (case map_of files n of Some c \<Rightarrow> Some (FsFile c) | None \<Rightarrow> fs w1 (dst @ [n]))"
    "\<And>p. (\<forall>n. p \<noteq> dst @ [n]) \<Longrightarrow> fs w2 p = fs w1 p"
    using files_written [OF 1(2), of w1 dst files] 1(3) new w1(2) by (auto simp: list_all_iff)
  have deep: "fs w2 (dst @ n # q) = (if q = [] then map_option FsFile (map_of files n) else None)" for n q
    using w2(2) [of n] w2(3) [of "dst @ n # q"] new by (auto split: option.splits)
  have up: "fs w2 p = fs w1 p" if "\<not> strict_prefix dst p" for p using that by (intro w2(3)) (auto simp: strict_prefix_def)
  have "\<forall>n q. n \<in> fst ` set dirs \<longrightarrow> fs w2 (dst @ n # q) = None"
    using 1(3) deep by (auto simp: map_of_eq_None_iff)
  moreover have "\<forall>q. prefix q dst \<longrightarrow> fs w2 q = Some FsDir" by (simp add: up prefix_order.leD w1(2))
  ultimately obtain w' where w': "extract_dirs S dirs dst w2 = (Inr (), w')"
    "\<And>n q. fs w' (dst @ n # q) = (case map_of dirs n of Some d \<Rightarrow> em_at d q | None \<Rightarrow> fs w2 (dst @ n # q))"
    "fs w' dst = Some FsDir" "\<And>p. \<not> prefix dst p \<Longrightarrow> fs w' p = fs w2 p"
    using 1(1) [OF 1(2), of w2] 1(3) by auto
  have "fs w' (dst @ q) = em_at (Embedded files dirs) q" for q
    using w'(2,3) deep by (cases q) (auto split: option.splits)
  moreover have "fs w' p = (if prefix p dst then Some FsDir else fs w p)" if "\<not> prefix dst p" for p
    using w'(4) [OF that] up [of p] that w1(2) by (auto simp: strict_prefix_def)
  ultimately show ?case using w1(1) w2(1) w'(1) by (auto simp: call_bind_Inr)
next
  case (2 S dst)
  then show ?case by (simp add: call_return_def)
next
  case (3 S n d rest dst)
  have "\<forall>q c. prefix q (dst @ [n]) \<longrightarrow> fs w q \<noteq> Some (FsFile c)" using 3(6,7) by (auto simp: prefix_snoc)
  then obtain w1 where w1: "extract_embedded_dir S d (dst @ [n]) w = (Inr (), w1)" "\<And>q. fs w1 ((dst @ [n]) @ q) = em_at d q"
    "\<And>p. \<not> prefix (dst @ [n]) p \<Longrightarrow> fs w1 p = (if prefix p (dst @ [n]) then Some FsDir else fs w p)"
    using 3(1) [OF 3(3), of w] 3(5,7) by auto
  have other: "fs w1 (dst @ m # q) = fs w (dst @ m # q)" if "m \<noteq> n" for m q using w1(3) [of "dst @ m # q"] that by (simp add: prefix_snoc)
  have out: "fs w1 p = fs w p" if "\<not> prefix dst p" for p
  proof -
    have "\<not> prefix (dst @ [n]) p" using that append_prefixD by blast
    moreover have "prefix p (dst @ [n]) \<Longrightarrow> prefix p dst" using calculation by (auto simp: prefix_snoc)
    ultimately show ?thesis using w1(3) [of p] 3(6) by auto
  qed
  have "\<forall>q. prefix q dst \<longrightarrow> fs w1 q = Some FsDir"
    using w1(3) 3(6) by (auto simp: prefix_def)
  moreover have "\<forall>m q. m \<in> fst ` set rest \<longrightarrow> fs w1 (dst @ m # q) = None" proof (intro allI impI)
    fix m q assume m: "m \<in> fst ` set rest"
    then have "m \<noteq> n" "m \<in> fst ` set ((n, d) # rest)" using 3(4) by auto
    then show "fs w1 (dst @ m # q) = None" using other [of m q] 3(7) [rule_format, of m q] by argo
  qed
  ultimately obtain w' where w': "extract_dirs S rest dst w1 = (Inr (), w')"
    "\<And>m q. fs w' (dst @ m # q) = (case map_of rest m of Some d \<Rightarrow> em_at d q | None \<Rightarrow> fs w1 (dst @ m # q))"
    "fs w' dst = Some FsDir" "\<And>p. \<not> prefix dst p \<Longrightarrow> fs w' p = fs w1 p"
    using 3(2) [OF 3(3), of w1] 3(4,5) by auto
  have "map_of rest n = None" using 3(4) by (simp add: map_of_eq_None_iff)
  then have "fs w' (dst @ m # q) = (case map_of ((n, d) # rest) m of Some d \<Rightarrow> em_at d q | None \<Rightarrow> fs w (dst @ m # q))" for m q
    using w'(2) [of m q] w1(2) [of q] other [of m q] by (cases "m = n") (auto split: option.splits)
  then show ?case using w1(1) w' out by (auto simp: call_bind_Inr)
qed

section \<open>The home directory in the settings\<close>

definition with_home :: "string \<Rightarrow> path \<Rightarrow> fs_node option \<Rightarrow> fs_node option" where
  "with_home home p x =
     (case x of Some (FsFile c) \<Rightarrow> if last p = ''.env'' then Some (FsFile (replace_all ''$HOME'' home c)) else x | _ \<Rightarrow> x)"

definition home_below :: "string \<Rightarrow> path set \<Rightarrow> (path \<Rightarrow> fs_node option) \<Rightarrow> path \<Rightarrow> fs_node option" where
  "home_below home P f p = (if p \<in> P then with_home home p (f p) else f p)"

definition below :: "path \<Rightarrow> string set \<Rightarrow> path set" where
  "below dir names = {dir @ n # q |n q. n \<in> names}"

lemma below_simps [simp]:
  "below dir {} = {}" "dir @ n # q \<in> below dir names \<longleftrightarrow> n \<in> names" "dir \<notin> below dir names" "dir @ [n] @ q \<in> below dir names \<longleftrightarrow> n \<in> names"
  by (auto simp: below_def)

lemma below_insert: "below dir (insert n names) = {p. prefix (dir @ [n]) p} \<union> below dir names"
  by (auto simp: below_def prefix_def)

lemma home_below_dir: "f p = Some FsDir \<Longrightarrow> home_below home P f p = Some FsDir"
  by (simp add: home_below_def with_home_def)

lemma home_below_None: "home_below home P f p = None \<longleftrightarrow> f p = None"
  by (auto simp: home_below_def with_home_def split: option.splits fs_node.splits)

lemma home_below_twice: "P \<inter> Q = {} \<Longrightarrow> home_below home P (home_below home Q f) = home_below home (P \<union> Q) f"
  by (auto simp: home_below_def fun_eq_iff)

definition closed_below :: "path \<Rightarrow> (path \<Rightarrow> fs_node option) \<Rightarrow> bool" where
  "closed_below dir f \<longleftrightarrow> (\<forall>q n. f (dir @ q @ [n]) \<noteq> None \<longrightarrow> f (dir @ q) = Some FsDir)"

lemma closed_below_sub: "closed_below dir f \<Longrightarrow> closed_below (dir @ [n]) f"
  unfolding closed_below_def by (metis append.assoc)

lemma closed_below_file:
  assumes "closed_below dir f" "f (dir @ [n]) = Some (FsFile c) \<or> f (dir @ [n]) = None" "q \<noteq> []"
  shows "f (dir @ n # q) = None"
  using assms(3)
proof (induction q rule: rev_induct)
  case (snoc m q)
  show ?case
  proof (rule ccontr)
    assume "f (dir @ n # q @ [m]) \<noteq> None"
    then have "f (dir @ n # q) = Some FsDir" using assms(1) unfolding closed_below_def by (metis append_Cons)
    then show False using snoc assms(2) by (cases "q = []") auto
  qed
qed simp

text \<open>Processing the entries of a directory, given what it does to its subdirectories.\<close>

lemma entries_processed:
  assumes "files_ok S fs"
    and process: "\<And>n w. fs w (dir @ [n]) = Some FsDir \<Longrightarrow> closed_below (dir @ [n]) (fs w) \<Longrightarrow> \<forall>q. fs w (dir @ n # q) \<noteq> None \<longrightarrow> length q < k \<Longrightarrow>
      \<exists>w'. process (dir @ [n]) w = Some (Inr (), w') \<and> fs w' = home_below home (below (dir @ [n]) UNIV) (fs w)"
    and "fs w dir = Some FsDir" "closed_below dir (fs w)" "\<forall>n q. fs w (dir @ n # q) \<noteq> None \<longrightarrow> length q < k"
    and "distinct names" "\<forall>n \<in> set names. fs w (dir @ [n]) \<noteq> None"
  shows "\<exists>w'. process_entries S process home dir (map Inr names) w = Some (Inr (), w') \<and> fs w' = home_below home (below dir (set names)) (fs w)"
  using assms(3-7)
proof (induction names arbitrary: w)
  case Nil
  then show ?case by (simp add: home_below_def fun_eq_iff)
next
  case (Cons n names)
  let ?P = "{p. prefix (dir @ [n]) p}"
  let ?go = "\<lambda>names. process_entries S process home dir (map Inr names)"
  have "\<exists>w1. ?go (n # names) w = ?go names w1 \<and> fs w1 = home_below home ?P (fs w)"
  proof (cases "fs w (dir @ [n]) = Some FsDir")
    case True
    then obtain w1 where "process (dir @ [n]) w = Some (Inr (), w1)" "fs w1 = home_below home (below (dir @ [n]) UNIV) (fs w)"
      using process [of w n] Cons.prems(2,3) closed_below_sub by blast
    moreover have "home_below home (below (dir @ [n]) UNIV) (fs w) = home_below home ?P (fs w)"
    proof
      fix p
      have "p \<in> ?P \<longleftrightarrow> p = dir @ [n] \<or> p \<in> below (dir @ [n]) UNIV" by (auto simp: below_def prefix_def) (meson neq_Nil_conv)
      then show "home_below home (below (dir @ [n]) UNIV) (fs w) p = home_below home ?P (fs w) p"
        using True by (auto simp: home_below_def with_home_def)
    qed
    ultimately show ?thesis using True by (auto simp: files_okD(2) [OF assms(1)])
  next
    case False
    then obtain c where c: "fs w (dir @ [n]) = Some (FsFile c)" using Cons.prems(5) by (auto, metis fs_node.exhaust)
    have P: "home_below home ?P (fs w) = (fs w)(dir @ [n] := with_home home [n] (Some (FsFile c)))"
    proof
      fix p
      have "fs w p = None" if at: "p \<in> ?P" "p \<noteq> dir @ [n]"
      proof -
        obtain q where "p = (dir @ [n]) @ q" using at(1) by (auto simp: prefix_def)
        then show ?thesis using closed_below_file [OF Cons.prems(2), of n c q] c at(2) by simp
      qed
      then show "home_below home ?P (fs w) p = ((fs w)(dir @ [n] := with_home home [n] (Some (FsFile c)))) p"
        using c by (auto simp: home_below_def with_home_def)
    qed
    show ?thesis
    proof (cases "n = ''.env''")
      case True
      obtain w0 where w0: "sh_read S (dir @ [n]) w = (Inr c, w0)" "fs w0 = fs w" using files_okD(5) [OF assms(1) c] by blast
      then obtain w1 where w1: "sh_write S (dir @ [n]) (replace_all ''$HOME'' home c) w0 = (Inr (), w1)"
        "fs w1 = (fs w)(dir @ [n] \<mapsto> FsFile (replace_all ''$HOME'' home c))"
        using files_okD(4) [OF assms(1), of w0 dir n] Cons.prems(1) False by auto
      then have "?go (n # names) w = ?go names w1" using c w0 True by (simp add: files_okD(2) [OF assms(1)] call_bind_def)
      then show ?thesis using P w1(2) True by (auto simp: with_home_def)
    next
      case False
      have "?go (n # names) w = ?go names w" using c False by (simp add: files_okD(2) [OF assms(1)])
      moreover have "fs w = home_below home ?P (fs w)" using c False unfolding P by (auto simp: with_home_def)
      ultimately show ?thesis by blast
    qed
  qed
  then obtain w1 where w1: "?go (n # names) w = ?go names w1" "fs w1 = home_below home ?P (fs w)" by blast
  have "fs w1 dir = Some FsDir" using w1(2) Cons.prems(1) by (simp add: home_below_dir)
  moreover have "closed_below dir (fs w1)" using Cons.prems(2) unfolding closed_below_def w1(2) home_below_None by (simp add: home_below_dir)
  moreover have "\<forall>n q. fs w1 (dir @ n # q) \<noteq> None \<longrightarrow> length q < k" "\<forall>n \<in> set names. fs w1 (dir @ [n]) \<noteq> None"
    using Cons.prems(3,5) unfolding w1(2) home_below_None by auto
  ultimately obtain w' where w': "?go names w1 = Some (Inr (), w')" "fs w' = home_below home (below dir (set names)) (fs w1)"
    using Cons.IH [of w1] Cons.prems(4) by auto
  have "below dir (set names) \<inter> ?P = {}" using Cons.prems(4) by (auto simp: below_def prefix_def)
  then have "fs w' = home_below home (below dir (set (n # names))) (fs w)"
    unfolding w'(2) w1(2) by (simp add: home_below_twice below_insert Un_commute)
  with w1(1) w'(1) show ?case by auto
qed

lemma env_files_processed:
  assumes "files_ok S fs" "fs w dir = Some FsDir" "closed_below dir (fs w)" "\<forall>q. fs w (dir @ q) \<noteq> None \<longrightarrow> length q < k"
  shows "\<exists>w'. process_env_files S home k dir w = Some (Inr (), w') \<and> fs w' = home_below home (below dir UNIV) (fs w)"
  using assms(2-4)
proof (induction k arbitrary: dir w)
  case 0
  then show ?case by (metis length_0_conv not_less_zero option.distinct(1) append_Nil2)
next
  case (Suc k)
  obtain names w1 where w1: "sh_read_dir S dir w = (Inr (map Inr names), w1)" "fs w1 = fs w" "distinct names" "set names = {n. fs w (dir @ [n]) \<noteq> None}"
    using files_okD(6) [OF assms(1) Suc.prems(1)] by blast
  have d: "\<forall>n q. fs w1 (dir @ n # q) \<noteq> None \<longrightarrow> length q < k"
  proof (intro allI impI)
    fix n q assume "fs w1 (dir @ n # q) \<noteq> None"
    then show "length q < k" using Suc.prems(3) [rule_format, of "n # q"] w1(2) by simp
  qed
  have "\<exists>w'. process_entries S (process_env_files S home k) home dir (map Inr names) w1 = Some (Inr (), w')
      \<and> fs w' = home_below home (below dir (set names)) (fs w1)"
    by (rule entries_processed [OF assms(1) _ _ _ d w1(3)]) (use Suc w1 in \<open>auto\<close>)
  moreover have "home_below home (below dir (set names)) (fs w) = home_below home (below dir UNIV) (fs w)"
  proof
    fix p
    have "fs w p = None" if all: "p \<in> below dir UNIV" and rest: "p \<notin> below dir (set names)"
    proof -
      obtain n q where p: "p = dir @ n # q" using all by (auto simp: below_def)
      then have "fs w (dir @ [n]) = None" using rest w1(4) by simp
      with p show ?thesis using closed_below_file [OF Suc.prems(2), of n undefined q] by (cases "q = []") simp_all
    qed
    then show "home_below home (below dir (set names)) (fs w) p = home_below home (below dir UNIV) (fs w) p"
      by (cases "p \<in> below dir UNIV"; cases "p \<in> below dir (set names)") (auto simp: home_below_def with_home_def below_def)
  qed
  ultimately show ?case using w1 by simp
qed

section \<open>The home directory after a run\<close>

lemma setup_fresh:
  assumes "files_ok S fs" "em_ok em" "em_depth em < k"
    and "\<forall>q. fs w (ipc @ q) = None" "\<forall>q c. prefix q ipc \<longrightarrow> fs w q \<noteq> Some (FsFile c)"
  shows "\<exists>w'. setup_ipc_dir S k em home ipc w = Some (Inr (), w') \<and> (\<forall>q. fs w' (ipc @ q) = with_home home q (em_at em q))
     \<and> (\<forall>p. \<not> prefix ipc p \<longrightarrow> fs w' p = (if prefix p ipc then Some FsDir else fs w p))"
proof -
  obtain w1 where w1: "extract_embedded_dir S em ipc w = (Inr (), w1)" "\<And>q. fs w1 (ipc @ q) = em_at em q"
    "\<And>p. \<not> prefix ipc p \<Longrightarrow> fs w1 p = (if prefix p ipc then Some FsDir else fs w p)"
    using extracted(1) [OF assms(1,2,5)] assms(4) by auto
  have "closed_below ipc (fs w1)" unfolding closed_below_def w1(2) by (blast intro: em_at_closed)
  moreover have "\<forall>q. fs w1 (ipc @ q) \<noteq> None \<longrightarrow> length q < k"
    unfolding w1(2) using em_at_depth [of em] assms(3) le_less_trans by blast
  ultimately obtain w' where w': "process_env_files S home k ipc w1 = Some (Inr (), w')" "fs w' = home_below home (below ipc UNIV) (fs w1)"
    using env_files_processed [OF assms(1), of w1 ipc k home] w1(2) [of "[]"] by auto
  have "has_subdirectories S ipc w = (Inr False, w)"
    using assms(4) [rule_format, of "[]"] by (simp add: has_subdirectories_def files_okD(1) [OF assms(1)])
  then have "setup_ipc_dir S k em home ipc w = Some (Inr (), w')" using w1(1) w'(1) by (simp add: setup_ipc_dir_def)
  moreover have "fs w' (ipc @ q) = with_home home q (em_at em q)" for q
    using w1(2) [of q] w'(2) by (cases q) (auto simp: home_below_def with_home_def split: option.splits fs_node.splits)
  moreover have "fs w' p = (if prefix p ipc then Some FsDir else fs w p)" if "\<not> prefix ipc p" for p
    using w1(3) [OF that] w'(2) that by (auto simp: home_below_def below_def)
  ultimately show ?thesis by blast
qed

lemma setup_again:
  assumes "files_ok S fs" "fs w ipc = Some FsDir" "fs w (ipc @ [n]) = Some FsDir"
  shows "\<exists>w'. setup_ipc_dir S k em home ipc w = Some (Inr (), w') \<and> fs w' = fs w"
proof -
  obtain names w1 where w1: "sh_read_dir S ipc w = (Inr (map Inr names), w1)" "fs w1 = fs w" "set names = {n. fs w (ipc @ [n]) \<noteq> None}"
    using files_okD(6) [OF assms(1,2)] by blast
  then have "n \<in> set names" using assms(3) by simp
  then have "has_subdirectories S ipc w = (Inr True, w1)"
    using assms(2,3) w1 by (auto simp: has_subdirectories_def files_okD(1,2) [OF assms(1)] call_bind_def list_ex_iff)
  then show ?thesis using w1(2) by (simp add: setup_ipc_dir_def)
qed

text \<open>
  On a disk that does not fail a first run puts exactly the embedded directory at \<open>$HOME/.ipc\<close>, with the home
  directory in place of \<open>$HOME\<close> in its \<open>.env\<close> files and in no other file, and changes nothing elsewhere but that the
  directories above exist.  A fuel above the depth of the embedded directory is enough.  When it has a
  subdirectory, every later run leaves the disk as it is, whatever it embeds.
\<close>

theorem quickstart_installs_once:
  assumes "files_ok S fs" "em_ok em" "em_depth em < k" "em_dirs em \<noteq> []"
    and "\<forall>q. fs w (ipc @ q) = None" "\<forall>q c. prefix q ipc \<longrightarrow> fs w q \<noteq> Some (FsFile c)"
  shows "\<exists>w'. setup_ipc_dir S k em home ipc w = Some (Inr (), w') \<and> (\<forall>q. fs w' (ipc @ q) = with_home home q (em_at em q))
     \<and> (\<forall>p. \<not> prefix ipc p \<longrightarrow> fs w' p = (if prefix p ipc then Some FsDir else fs w p))
     \<and> (\<forall>k2 em2 home2. \<exists>w2. setup_ipc_dir S k2 em2 home2 ipc w' = Some (Inr (), w2) \<and> fs w2 = fs w')"
proof -
  obtain w' where w': "setup_ipc_dir S k em home ipc w = Some (Inr (), w')" "\<forall>q. fs w' (ipc @ q) = with_home home q (em_at em q)"
    "\<forall>p. \<not> prefix ipc p \<longrightarrow> fs w' p = (if prefix p ipc then Some FsDir else fs w p)"
    using setup_fresh [OF assms(1-3,5,6)] by blast
  obtain n d rest where "em_dirs em = (n, d) # rest" using assms(4) by (cases "em_dirs em") auto
  then have "em_at em [n] = Some FsDir" "em_at em [] = Some FsDir" by simp_all
  then have "fs w' (ipc @ [n]) = Some FsDir" "fs w' ipc = Some FsDir"
    using w'(2) [rule_format, of "[n]"] w'(2) [rule_format, of "[]"] by (simp_all add: with_home_def)
  then show ?thesis using w' setup_again [OF assms(1)] by blast
qed

text \<open>A disk as the list of its paths, the newest first.\<close>

definition demo_shell :: "(path \<times> fs_node) list shell" where
  "demo_shell = \<lparr> sh_output = (\<lambda>prog args w. (Inl ''no such program'', w)),
     sh_exists = (\<lambda>p w. map_of w p \<noteq> None), sh_is_dir = (\<lambda>p w. map_of w p = Some FsDir),
     sh_read_dir = (\<lambda>p w. (if map_of w p = Some FsDir
       then Inr (map Inr (remdups (map last (filter (\<lambda>q. q \<noteq> [] \<and> butlast q = p) (map fst w))))) else Inl ''not a directory'', w)),
     sh_create_dir_all = (\<lambda>p w. if list_ex (\<lambda>q. case map_of w q of Some (FsFile _) \<Rightarrow> True | _ \<Rightarrow> False) (prefixes p)
       then (Inl ''not a directory'', w) else (Inr (), map (\<lambda>q. (q, FsDir)) (prefixes p) @ w)),
     sh_write = (\<lambda>p c w. if p \<noteq> [] \<and> map_of w (butlast p) = Some FsDir \<and> map_of w p \<noteq> Some FsDir
       then (Inr (), (p, FsFile c) # w) else (Inl ''cannot write'', w)),
     sh_read = (\<lambda>p w. (case map_of w p of Some (FsFile c) \<Rightarrow> Inr c | _ \<Rightarrow> Inl ''not a file'', w)) \<rparr>"

lemma map_of_const: "map_of (map (\<lambda>q. (q, v)) qs @ w) p = (if p \<in> set qs then Some v else map_of w p)"
  by (induction qs) auto

lemma demo_shell_ok: "files_ok demo_shell map_of"
proof -
  have names: "set (map last (filter (\<lambda>q. q \<noteq> [] \<and> butlast q = p) (map fst w))) = {n. map_of w (p @ [n]) \<noteq> None}"
    for p :: path and w :: "(path \<times> fs_node) list"
  proof -
    have "n \<in> last ` {q \<in> fst ` set w. q \<noteq> [] \<and> butlast q = p} \<longleftrightarrow> p @ [n] \<in> fst ` set w" for n
    proof
      assume "n \<in> last ` {q \<in> fst ` set w. q \<noteq> [] \<and> butlast q = p}"
      then obtain q where "q \<in> fst ` set w" "q \<noteq> []" "butlast q = p" "n = last q" by blast
      then show "p @ [n] \<in> fst ` set w" using append_butlast_last_id [of q] by argo
    next
      assume "p @ [n] \<in> fst ` set w"
      then show "n \<in> last ` {q \<in> fst ` set w. q \<noteq> [] \<and> butlast q = p}" by (intro image_eqI [of _ _ "p @ [n]"]) auto
    qed
    then show ?thesis by (simp add: set_eq_iff map_of_eq_None_iff del: image_iff)
  qed
  show ?thesis
    unfolding files_ok_def
    by (intro conjI allI impI)
      (auto simp: demo_shell_def list_ex_iff map_of_const fun_eq_iff names [simplified] simp del: map_of_append split: option.splits fs_node.splits)
qed

theorem quickstart_installs_once_witness:
  "\<exists>w'. setup_ipc_dir demo_shell 3
       (Embedded [(''btc_keystore.json'', ''[]'')] [(''validator1'', Embedded [(''.env'', ''DATABASE_URL=$HOME/db''), (''config.toml'', ''$HOME'')] [])])
       ''/root'' [''root'', ''.ipc''] [([], FsDir)] = Some (Inr (), w')
     \<and> map_of w' [''root'', ''.ipc'', ''validator1'', ''.env''] = Some (FsFile ''DATABASE_URL=/root/db'')
     \<and> map_of w' [''root'', ''.ipc'', ''validator1'', ''config.toml''] = Some (FsFile ''$HOME'')"
proof -
  let ?em = "Embedded [(''btc_keystore.json'', ''[]'')] [(''validator1'', Embedded [(''.env'', ''DATABASE_URL=$HOME/db''), (''config.toml'', ''$HOME'')] [])]"
  have r: "replace_all ''$HOME'' ''/root'' ''DATABASE_URL=$HOME/db'' = ''DATABASE_URL=/root/db''" by (simp add: replace_all.simps)
  have fresh: "\<forall>q. map_of [([], FsDir)] ([''root'', ''.ipc''] @ q) = None"
    "\<forall>q c. prefix q [''root'', ''.ipc''] \<longrightarrow> map_of [([], FsDir)] q \<noteq> Some (FsFile c)" by simp_all
  obtain w' where w': "setup_ipc_dir demo_shell 3 ?em ''/root'' [''root'', ''.ipc''] [([], FsDir)] = Some (Inr (), w')"
    "\<forall>q. map_of w' ([''root'', ''.ipc''] @ q) = with_home ''/root'' q (em_at ?em q)"
    using quickstart_installs_once [OF demo_shell_ok _ _ _ fresh, of ?em 3 "''/root''"] by (auto simp: eval_nat_numeral)
  then show ?thesis
    using w'(2) [rule_format, of "[''validator1'', ''.env'']"] w'(2) [rule_format, of "[''validator1'', ''config.toml'']"] r
    by (simp add: with_home_def)
qed

section \<open>The wallets after a run\<close>

text \<open>
  A regtest node: its wallets, and for each block of its chain the wallet that owns the coinbase.  A command that
  creates a wallet, asks for an address of one, mines, or asks for a balance does just this.
\<close>

definition miner_ok :: "'w shell \<Rightarrow> ('w \<Rightarrow> string set) \<Rightarrow> ('w \<Rightarrow> string list) \<Rightarrow> (string \<Rightarrow> string) \<Rightarrow> bool" where
  "miner_ok S wallets chain owner \<longleftrightarrow>
     (\<forall>w. ''default'' \<notin> wallets w \<longrightarrow> (\<exists>out w'. cli S [''loadwallet'', ''default'', ''true''] w = (Inr out, w')
        \<and> \<not> po_success out \<and> sublist ''Path does not exist.'' (po_stderr out) \<and> wallets w' = wallets w \<and> chain w' = chain w))
   \<and> (\<forall>w name. name \<notin> wallets w \<longrightarrow> (\<exists>out w'. cli S [''createwallet'', name, ''false'', ''false'', [], ''false'', ''true'', ''true''] w = (Inr out, w')
        \<and> wallets w' = insert name (wallets w) \<and> chain w' = chain w))
   \<and> (\<forall>w name. name \<in> wallets w \<longrightarrow> (\<exists>out w'. cli S [''--rpcwallet='' @ name, ''getnewaddress''] w = (Inr out, w')
        \<and> po_success out \<and> owner (trim (po_stdout out)) = name \<and> wallets w' = wallets w \<and> chain w' = chain w))
   \<and> (\<forall>w n a. \<exists>out w'. cli S [''generatetoaddress'', dec n, a] w = (Inr out, w')
        \<and> wallets w' = wallets w \<and> chain w' = chain w @ replicate n (owner a))
   \<and> (\<forall>w name. name \<in> wallets w \<longrightarrow> (\<exists>out w'. cli S [''--rpcwallet='' @ name, ''getbalance''] w = (Inr out, w')
        \<and> wallets w' = wallets w \<and> chain w' = chain w))"

lemma miner_okD:
  assumes "miner_ok S wallets chain owner"
  shows "''default'' \<notin> wallets w \<Longrightarrow> \<exists>out w'. cli S [''loadwallet'', ''default'', ''true''] w = (Inr out, w')
        \<and> \<not> po_success out \<and> sublist ''Path does not exist.'' (po_stderr out) \<and> wallets w' = wallets w \<and> chain w' = chain w"
    "name \<notin> wallets w \<Longrightarrow> \<exists>out w'. cli S [''createwallet'', name, ''false'', ''false'', [], ''false'', ''true'', ''true''] w = (Inr out, w')
        \<and> wallets w' = insert name (wallets w) \<and> chain w' = chain w"
    "name \<in> wallets w \<Longrightarrow> \<exists>out w'. cli S [''--rpcwallet='' @ name, ''getnewaddress''] w = (Inr out, w')
        \<and> po_success out \<and> owner (trim (po_stdout out)) = name \<and> wallets w' = wallets w \<and> chain w' = chain w"
    "\<exists>out w'. cli S [''generatetoaddress'', dec n, a] w = (Inr out, w') \<and> wallets w' = wallets w \<and> chain w' = chain w @ replicate n (owner a)"
    "name \<in> wallets w \<Longrightarrow> \<exists>out w'. cli S [''--rpcwallet='' @ name, ''getbalance''] w = (Inr out, w') \<and> wallets w' = wallets w \<and> chain w' = chain w"
proof -
  note laws = assms [unfolded miner_ok_def]
  show "''default'' \<notin> wallets w \<Longrightarrow> \<exists>out w'. cli S [''loadwallet'', ''default'', ''true''] w = (Inr out, w')
        \<and> \<not> po_success out \<and> sublist ''Path does not exist.'' (po_stderr out) \<and> wallets w' = wallets w \<and> chain w' = chain w"
    by (rule laws [THEN conjunct1, rule_format])
  show "name \<notin> wallets w \<Longrightarrow> \<exists>out w'. cli S [''createwallet'', name, ''false'', ''false'', [], ''false'', ''true'', ''true''] w = (Inr out, w')
        \<and> wallets w' = insert name (wallets w) \<and> chain w' = chain w"
    by (rule laws [THEN conjunct2, THEN conjunct1, rule_format])
  show "name \<in> wallets w \<Longrightarrow> \<exists>out w'. cli S [''--rpcwallet='' @ name, ''getnewaddress''] w = (Inr out, w')
        \<and> po_success out \<and> owner (trim (po_stdout out)) = name \<and> wallets w' = wallets w \<and> chain w' = chain w"
    by (rule laws [THEN conjunct2, THEN conjunct2, THEN conjunct1, rule_format])
  show "\<exists>out w'. cli S [''generatetoaddress'', dec n, a] w = (Inr out, w') \<and> wallets w' = wallets w \<and> chain w' = chain w @ replicate n (owner a)"
    by (rule laws [THEN conjunct2, THEN conjunct2, THEN conjunct2, THEN conjunct1, rule_format])
  show "name \<in> wallets w \<Longrightarrow> \<exists>out w'. cli S [''--rpcwallet='' @ name, ''getbalance''] w = (Inr out, w') \<and> wallets w' = wallets w \<and> chain w' = chain w"
    by (rule laws [THEN conjunct2, THEN conjunct2, THEN conjunct2, THEN conjunct2, rule_format])
qed

lemma wallets_created:
  assumes "miner_ok S wallets chain owner" "distinct names" "set names \<inter> wallets w = {}"
  shows "\<exists>outs w'. call_each (\<lambda>name. cli S [''createwallet'', name, ''false'', ''false'', [], ''false'', ''true'', ''true'']) names w = (Inr outs, w')
     \<and> wallets w' = set names \<union> wallets w \<and> chain w' = chain w"
  using assms(2,3)
proof (induction names arbitrary: w)
  case (Cons name names)
  obtain out w1 where w1: "cli S [''createwallet'', name, ''false'', ''false'', [], ''false'', ''true'', ''true''] w = (Inr out, w1)"
    "wallets w1 = insert name (wallets w)" "chain w1 = chain w"
    using miner_okD(2) [OF assms(1), of name w] Cons.prems(2) by auto
  moreover obtain outs w' where
    "call_each (\<lambda>name. cli S [''createwallet'', name, ''false'', ''false'', [], ''false'', ''true'', ''true'']) names w1 = (Inr outs, w')"
    "wallets w' = set names \<union> wallets w1" "chain w' = chain w1"
    using Cons.IH [of w1] Cons.prems w1(2) by auto
  ultimately show ?case by (simp add: call_bind_Inr call_return_def)
qed (simp add: call_return_def)

lemma wallet_funded:
  assumes "miner_ok S wallets chain owner" "name \<in> wallets w"
  shows "\<exists>w'. fund_wallet S name n w = (Inr (), w') \<and> wallets w' = wallets w \<and> chain w' = chain w @ replicate n name"
proof -
  obtain out w1 where w1: "cli S [''--rpcwallet='' @ name, ''getnewaddress''] w = (Inr out, w1)"
    "po_success out" "owner (trim (po_stdout out)) = name" "wallets w1 = wallets w" "chain w1 = chain w"
    using miner_okD(3) [OF assms] by blast
  moreover obtain out' w' where "cli S [''generatetoaddress'', dec n, trim (po_stdout out)] w1 = (Inr out', w')"
    "wallets w' = wallets w1" "chain w' = chain w1 @ replicate n (owner (trim (po_stdout out)))"
    using miner_okD(4) [OF assms(1)] by blast
  ultimately show ?thesis by (auto simp: fund_wallet_def call_bind_Inr call_return_def)
qed

lemma wallets_funded:
  assumes "miner_ok S wallets chain owner" "set (map name xs) \<subseteq> wallets w"
  shows "\<exists>us w'. call_each (\<lambda>x. fund_wallet S (name x) n) xs w = (Inr us, w') \<and> wallets w' = wallets w
     \<and> chain w' = chain w @ concat (map (\<lambda>x. replicate n (name x)) xs)"
  using assms(2)
proof (induction xs arbitrary: w)
  case (Cons x xs)
  obtain w1 where "fund_wallet S (name x) n w = (Inr (), w1)" "wallets w1 = wallets w" "chain w1 = chain w @ replicate n (name x)"
    using wallet_funded [OF assms(1), of "name x" w n] Cons.prems by auto
  moreover from this obtain us w' where "call_each (\<lambda>x. fund_wallet S (name x) n) xs w1 = (Inr us, w')" "wallets w' = wallets w1"
    "chain w' = chain w1 @ concat (map (\<lambda>x. replicate n (name x)) xs)"
    using Cons.IH [of w1] Cons.prems by auto
  ultimately show ?case by (simp add: call_bind_Inr call_return_def)
qed (simp add: call_return_def)

lemma balances_checked:
  assumes "miner_ok S wallets chain owner" "set names \<subseteq> wallets w"
  shows "\<exists>bs w'. call_each (check_wallet_balance S) names w = (Inr bs, w') \<and> wallets w' = wallets w \<and> chain w' = chain w"
  using assms(2)
proof (induction names arbitrary: w)
  case (Cons name names)
  obtain out w1 where "cli S [''--rpcwallet='' @ name, ''getbalance''] w = (Inr out, w1)" "wallets w1 = wallets w" "chain w1 = chain w"
    using miner_okD(5) [OF assms(1), of name w] Cons.prems by auto
  then have "\<exists>b. check_wallet_balance S name w = (Inr b, w1)" by (simp add: check_wallet_balance_def call_bind_Inr call_return_def)
  then obtain b where "check_wallet_balance S name w = (Inr b, w1)" by blast
  moreover note \<open>wallets w1 = wallets w\<close> \<open>chain w1 = chain w\<close>
  moreover from this obtain bs w' where "call_each (check_wallet_balance S) names w1 = (Inr bs, w')" "wallets w' = wallets w1" "chain w' = chain w1"
    using Cons.IH [of w1] Cons.prems by auto
  ultimately show ?case by (simp add: call_bind_Inr call_return_def)
qed (simp add: call_return_def)

text \<open>The blocks of a wallet whose coinbase has a hundred blocks on top of it and so can be spent.\<close>

definition mature_blocks :: "string list \<Rightarrow> string \<Rightarrow> nat" where
  "mature_blocks chain name = length (filter (\<lambda>n. n = name) (take (length chain - 100) chain))"

text \<open>
  On a node without these wallets a first run creates the nine wallets and mines two blocks for each
  participant before it mines a hundred and two for the default wallet; afterwards every one of the nine has at
  least two blocks that it can spend, and the balances are listed.
\<close>

theorem quickstart_funds_wallets:
  assumes "miner_ok S wallets chain owner" "set wallet_names \<inter> wallets w = {}"
  shows "\<exists>bs w'. setup_bitcoin_wallets S w = (Inr bs, w') \<and> wallets w' = set wallet_names \<union> wallets w
     \<and> chain w' = chain w @ concat (map (replicate 2) (tl wallet_names)) @ replicate 102 ''default''
     \<and> list_all (\<lambda>name. 2 \<le> mature_blocks (chain w') name) wallet_names"
proof -
  let ?A = "concat (map (replicate 2) (tl wallet_names))"
  obtain w0 where w0: "wallets_exist S w = (Inr False, w0)" "wallets w0 = wallets w" "chain w0 = chain w"
    using miner_okD(1) [OF assms(1), of w] assms(2) by (auto simp: wallets_exist_def wallet_names_def)
  obtain outs w1 where w1: "call_each (\<lambda>name. cli S [''createwallet'', name, ''false'', ''false'', [], ''false'', ''true'', ''true'']) wallet_names w0 = (Inr outs, w1)"
    "wallets w1 = set wallet_names \<union> wallets w" "chain w1 = chain w"
    using wallets_created [OF assms(1), of wallet_names w0] assms(2) w0 by (auto simp: wallet_names_def)
  have v: "map (\<lambda>i. ''validator'' @ dec i) [1..<7] = take 6 (tl wallet_names)"
    by code_simp
  then have "set (map (\<lambda>i. ''validator'' @ dec i) [1..<7]) \<subseteq> wallets w1" using w1(2) by (auto simp: wallet_names_def)
  then obtain us w2 where w2: "call_each (\<lambda>i. fund_wallet S (''validator'' @ dec i) 2) [1..<7] w1 = (Inr us, w2)" "wallets w2 = wallets w1"
    "chain w2 = chain w1 @ concat (map (\<lambda>i. replicate 2 (''validator'' @ dec i)) [1..<7])"
    using wallets_funded [OF assms(1), of "\<lambda>i. ''validator'' @ dec i" "[1..<7]" w1 2] by blast
  have "map (\<lambda>i. replicate 2 (''validator'' @ dec i)) [1..<7] = map (replicate 2) (take 6 (tl wallet_names))"
    unfolding v [symmetric] by simp
  then have c2: "chain w2 = chain w @ concat (map (replicate 2) (take 6 (tl wallet_names)))" using w2(3) w1(3) by simp
  obtain w3 where w3: "fund_wallet S ''user1'' 2 w2 = (Inr (), w3)" "wallets w3 = wallets w1" "chain w3 = chain w2 @ replicate 2 ''user1''"
    using wallet_funded [OF assms(1), of "''user1''" w2 2] w1(2) w2(2) by (auto simp: wallet_names_def)
  obtain w4 where w4: "fund_wallet S ''user2'' 2 w3 = (Inr (), w4)" "wallets w4 = wallets w1" "chain w4 = chain w3 @ replicate 2 ''user2''"
    using wallet_funded [OF assms(1), of "''user2''" w3 2] w1(2) w3(2) by (auto simp: wallet_names_def)
  obtain w5 where w5: "fund_wallet S ''default'' 102 w4 = (Inr (), w5)" "wallets w5 = wallets w1" "chain w5 = chain w4 @ replicate 102 ''default''"
    using wallet_funded [OF assms(1), of "''default''" w4 102] w1(2) w4(2) by (auto simp: wallet_names_def)
  obtain bs w' where w': "call_each (check_wallet_balance S) wallet_names w5 = (Inr bs, w')" "wallets w' = wallets w5" "chain w' = chain w5"
    using balances_checked [OF assms(1), of wallet_names w5] w1(2) w5(2) by auto
  have "setup_bitcoin_wallets S w = (Inr bs, w')"
    by (simp only: setup_bitcoin_wallets_def call_bind_def w0(1) w1(1) w2(1) w3(1) w4(1) w5(1) w'(1) prod.case sum.case if_False)
  moreover have c: "chain w' = chain w @ ?A @ replicate 102 ''default''"
    using c2 w3(3) w4(3) w5(3) w'(3) by (simp add: wallet_names_def numeral_2_eq_2)
  moreover have "list_all (\<lambda>name. 2 \<le> mature_blocks (chain w') name) wallet_names"
  proof -
    have "length (chain w') - 100 = length (chain w @ ?A) + 2" unfolding c by (simp add: wallet_names_def)
    then have "take (length (chain w') - 100) (chain w') = chain w @ ?A @ [''default'', ''default'']"
      unfolding c by (simp add: take_replicate numeral_2_eq_2)
    then show ?thesis by (simp add: mature_blocks_def wallet_names_def numeral_2_eq_2)
  qed
  ultimately show ?thesis using w1(2) w5(2) w'(2) by auto
qed

text \<open>A node that keeps the names of its wallets and the owners of its blocks; an address is the name of its wallet in brackets.\<close>

definition demo_answer :: "bool \<Rightarrow> string \<Rightarrow> string \<Rightarrow> proc_output" where
  "demo_answer ok out err = \<lparr> po_success = ok, po_code = Some (if ok then 0 else 1), po_stdout = out, po_stderr = err \<rparr>"

definition demo_cli :: "string list \<Rightarrow> (string list \<times> string list) \<Rightarrow> (string + proc_output) \<times> (string list \<times> string list)" where
  "demo_cli args = (\<lambda>(names, chain).
     let c = args ! 1 in
     if c = ''loadwallet'' then (Inr (demo_answer (args ! 2 \<in> set names) [] ''Path does not exist.''), (names, chain))
     else if c = ''createwallet'' then (Inr (demo_answer True [] []), (args ! 2 # names, chain))
     else if c = ''generatetoaddress'' then (Inr (demo_answer True [] []), (names, chain @ replicate (undec (args ! 2)) (butlast (tl (args ! 3)))))
     else (Inr (demo_answer (drop 12 c \<in> set names) (''<'' @ drop 12 c @ ''>'') []), (names, chain)))"

definition demo_miner :: "(string list \<times> string list) shell" where
  "demo_miner = \<lparr> sh_output = (\<lambda>prog args. demo_cli args), sh_exists = (\<lambda>p w. False), sh_is_dir = (\<lambda>p w. False),
     sh_read_dir = (\<lambda>p w. (Inl [], w)), sh_create_dir_all = (\<lambda>p w. (Inl [], w)), sh_write = (\<lambda>p c w. (Inl [], w)),
     sh_read = (\<lambda>p w. (Inl [], w)) \<rparr>"

lemma demo_cli_eval: "cli demo_miner args w = demo_cli (''--regtest'' # args) w"
  by (simp add: cli_def demo_miner_def)

lemma trim_bracketed: "trim (''<'' @ s @ ''>'') = ''<'' @ s @ ''>''"
  by (intro trim_ends) (simp add: is_space_def)

lemma demo_miner_ok: "miner_ok demo_miner (set \<circ> fst) snd (butlast \<circ> tl)"
proof -
  have t: "butlast (tl (trim (''<'' @ s @ ''>''))) = s" for s unfolding trim_bracketed by simp
  show ?thesis
    unfolding miner_ok_def demo_cli_eval
    by (intro conjI allI impI) (auto simp: demo_cli_def demo_answer_def t [simplified] undec_dec Let_def)
qed

theorem quickstart_funds_wallets_witness:
  "\<exists>bs w'. setup_bitcoin_wallets demo_miner ([], [''miner'']) = (Inr bs, w') \<and> set (fst w') = set wallet_names
     \<and> length (snd w') = 119 \<and> 2 \<le> mature_blocks (snd w') ''validator6''"
proof -
  obtain bs w' where w': "setup_bitcoin_wallets demo_miner ([], [''miner'']) = (Inr bs, w')" "set (fst w') = set wallet_names"
    "snd w' = [''miner''] @ concat (map (replicate 2) (tl wallet_names)) @ replicate 102 ''default''"
    "list_all (\<lambda>name. 2 \<le> mature_blocks (snd w') name) wallet_names"
    using quickstart_funds_wallets [OF demo_miner_ok, of "([], [''miner''])"] by auto
  have "''validator6'' \<in> set wallet_names" by (simp add: wallet_names_def)
  moreover have "length (snd w') = 119" unfolding w'(3) by (simp add: wallet_names_def)
  ultimately show ?thesis using w'(1,2,4) by (auto simp: list_all_iff)
qed

section \<open>The keys\<close>

text \<open>
  White space behind a key of the keystore is ignored only when the key has the prefix \<open>0x\<close>; without it the key is
  rejected.
\<close>

lemma keystore_padding:
  assumes "sk_from_slice sk = Inr sk"
  shows "keystore_key sk_from_slice x_only \<lparr> ke_address = a, ke_private_key = ''0x'' @ hex_encode sk @ [CHR 0x0A] \<rparr> = Inr (x_only sk)"
    "\<exists>e. keystore_key sk_from_slice x_only \<lparr> ke_address = a, ke_private_key = hex_encode sk @ [CHR 0x0A] \<rparr> = Inl e"
proof -
  have nl: "is_space (CHR 0x0A)" by (simp add: is_space_def)
  have cut: "trim (s @ [CHR 0x0A]) = trim s" for s
  proof (cases "\<forall>x \<in> set s. is_space x")
    case True
    then have "dropWhile is_space (s @ [CHR 0x0A]) = []" "dropWhile is_space s = []" using nl by (simp_all add: dropWhile_eq_Nil_conv)
    then show ?thesis by (simp only: trim_def)
  qed (use nl in \<open>auto simp: trim_def dropWhile_append\<close>)
  have t: "trim (hex_encode sk) = hex_encode sk" using hex_encode_chars by (intro trim_ends) (metis hd_in_set last_in_set)
  have "\<not> is_space (last (''0x'' @ hex_encode sk))"
    using hex_encode_chars [of "last (hex_encode sk)" sk] by (cases "hex_encode sk = []") (simp_all add: is_space_def)
  then have "trim (''0x'' @ hex_encode sk) = ''0x'' @ hex_encode sk" by (intro trim_ends) (simp add: is_space_def)
  with cut [of "''0x'' @ hex_encode sk"] have t0: "trim (''0x'' @ hex_encode sk @ [CHR 0x0A]) = ''0x'' @ hex_encode sk" by simp
  have p0: "strip_prefix ''0x'' (''0x'' @ hex_encode sk) = Some (hex_encode sk)" by (simp add: strip_prefix_def)
  show "keystore_key sk_from_slice x_only \<lparr> ke_address = a, ke_private_key = ''0x'' @ hex_encode sk @ [CHR 0x0A] \<rparr> = Inr (x_only sk)"
    unfolding keystore_key_def Let_def keystore_entry.simps t0 p0 by (simp add: hex_decode_encode assms)
  have "strip_prefix ''0x'' (hex_encode sk) = None"
    using hex_encode_chars [of "CHR ''x''" sk] by (auto simp: strip_prefix_def prefix_def)
  moreover have "\<exists>e. hex_decode (hex_encode sk @ [CHR 0x0A]) = Inl e" by (simp add: hex_decode_def length_hex_encode)
  ultimately show "\<exists>e. keystore_key sk_from_slice x_only \<lparr> ke_address = a, ke_private_key = hex_encode sk @ [CHR 0x0A] \<rparr> = Inl e"
    unfolding keystore_key_def Let_def keystore_entry.simps cut t by auto
qed

end
