(* ===== verification/Spec2Isabelle.thy ===== *)
theory Spec2Isabelle
  imports Effects Ledger Signing Fendermint_Facts Quickstart_Facts
begin

text \<open>
  \<^bold>\<open>Verification of bitcoin-ipc.\<close>

  bitcoin-ipc runs subnets on top of Bitcoin.  A subnet is a committee of validators with collateral that
  is locked in a weighted taproot multisig; its messages (create, prefund, join, fund, stake, unstake, kill,
  checkpoint, batch transfer) are Bitcoin transactions.  Three programs share the library of \<open>src/src\<close>:

  \<^item> the \<^emph>\<open>monitor\<close> (\<open>bin/monitor.rs\<close>) reads confirmed blocks, finds the messages and runs their
    handlers on a database, which is a function of the chain;
  \<^item> the \<^emph>\<open>provider\<close> (\<open>provider/rpc.rs\<close>, \<open>provider/server.rs\<close>) answers JSON-RPC requests: it reads this
    database, builds transactions, signs for its validator and hands transactions to the Bitcoin node;
  \<^item> the \<^emph>\<open>easy tester\<close> (\<open>bin/easy_tester.rs\<close>, \<open>easy_tester/\<close>) parses scenarios and runs them: on the
    message handlers with a database and no chain, on a monitor and providers that it starts with a Bitcoin
    node of its own, or on Fendermint subnets that are already up.

  A fourth program, \<open>bin/quickstart.rs\<close>, sets up directories and wallets for a demonstration.

  \<^bold>\<open>Conventions.\<close>  Rust integers are words of their width and every checked, saturating or wrapping operation
  is written out; \<open>Amount\<close> is a 64-bit word whose overflow is a panic, as in a build with overflow checks (for
  the sums of amounts a build without them wraps, which takes more satoshi than there are).  A \<open>Result\<close> is a sum with the error on
  the left, the question-mark operator is \<open>res_bind\<close>, and a panic (\<open>expect\<close>, \<open>unwrap\<close>, overflow of an
  \<open>Amount\<close>, an empty committee) is the error \<open>Panic\<close>.  A handler maps the committed database to the next one
  or to an error; a write transaction that is dropped is thereby discarded.  Operations of the monitor return
  the next state with their result, because what was committed before an error stays.

  \<^bold>\<open>Theories and sources.\<close>

  \<^item> \<open>Prelude\<close>: fallible steps, checked words, decimal and byte encodings, the simplifier collections
    \<open>res_simps\<close> and \<open>db_simps\<close>.
  \<^item> \<open>Kv\<close>: an LMDB table as an ordered map; locale \<open>ordered_kv\<close> is what the accessors rely on.
  \<^item> \<open>Base\<close>: the error enums, subnet ids, tags and addresses (\<open>ipc_lib.rs\<close>, \<open>lib.rs\<close>, \<open>eth_utils.rs\<close>) and the
    record \<open>ext\<close> of the functions of the bitcoin, secp256k1, alloy and fvm crates.
  \<^item> \<open>Multisig\<close>: \<open>multisig.rs\<close> up to the unsigned spend; the committee tapscript, its execution, the power of a
    collateral, coin selection.
  \<^item> \<open>Committee\<close>: validators, committees, subnet state, genesis info (\<open>db.rs\<close>).
  \<^item> \<open>Db\<close>: keys, tables, reads and writes (\<open>db.rs\<close>).
  \<^item> \<open>Batch\<close>, \<open>Ledger\<close>: validation and \<open>save_to_db\<close> of a batch transfer; the abstract token ledger it refines.
  \<^item> \<open>Handlers\<close>, \<open>Checkpoint\<close>: validation and \<open>save_to_db\<close> of all other messages (\<open>ipc_lib.rs\<close>).
  \<^item> \<open>Invariant\<close>, \<open>Preserve\<close>, \<open>Boot\<close>, \<open>Effects\<close>: the invariant of the database, its preservation by every
    handler, a subnet brought up by the handlers, and what the vote to kill a subnet needs.
  \<^item> \<open>Codec\<close>, \<open>Wire\<close>, \<open>Wire_Facts\<close>, \<open>Layout\<close>: compact amounts, data scripts, the transaction of each message
    and its reader, checkpoint metadata and the revealed batch (\<open>ipc_lib.rs\<close>, \<open>bitcoin_utils.rs\<close>).
  \<^item> \<open>Psbt\<close>, \<open>Psbt_Facts\<close>, \<open>Kill_Payout\<close>: building, signing and finalizing a PSBT of the committee, the PSBT of
    a checkpoint and the division of the leftover when a subnet is killed (\<open>multisig.rs\<close>, \<open>ipc_lib.rs\<close>).
  \<^item> \<open>Rewards\<close>: snapshots and reward candidates (\<open>rewards.rs\<close>).
  \<^item> \<open>Monitor\<close>, \<open>Monitor_Facts\<close>, \<open>Trace\<close>, \<open>Recovery\<close>, \<open>Resume\<close>: the monitor, the messages it processes on a run and
    its invariant, its behaviour on errors, and how it goes on after an outage of the node (\<open>bin/monitor.rs\<close>).
  \<^item> \<open>Node\<close>, \<open>Provider\<close>, \<open>Submission\<close>, \<open>Signing\<close>: calls to the node and the wallet, \<open>submit_to_bitcoin\<close> of each
    message, the methods of the provider, and what the provider's transactions mean to the monitor.
  \<^item> \<open>Scenario\<close>, \<open>Scenario_Facts\<close>: the scenario language (\<open>easy_tester/model.rs\<close>, \<open>error.rs\<close>, \<open>parser.rs\<close>).
  \<^item> \<open>Tester\<close>, \<open>Tester_Facts\<close>: the tester interface, the driver and the database tester
    (\<open>easy_tester/tester.rs\<close>, \<open>db_tester.rs\<close>, \<open>bin/easy_tester.rs\<close>).
  \<^item> \<open>Host\<close>: operations that run commands, take time and wait with a deadline; the machine they run on.
  \<^item> \<open>Fendermint\<close>, \<open>Fendermint_Facts\<close>: the Fendermint tester (\<open>easy_tester/fendermint_tester.rs\<close>).
  \<^item> \<open>Live\<close>, \<open>Live_Facts\<close>: the monitor tester and the provider client (\<open>easy_tester/monitor_tester.rs\<close>,
    \<open>provider_client.rs\<close>).
  \<^item> \<open>Startup\<close>, \<open>Startup_Facts\<close>: \<open>main\<close> of the monitor and of the provider: settings, wallets, the key of the
    validator, and the loop that starts the monitor again (\<open>bin/monitor.rs\<close>, \<open>bin/provider.rs\<close>, \<open>bitcoin_utils.rs\<close>,
    \<open>wallet.rs\<close>, \<open>rewards.rs\<close>).
  \<^item> \<open>Quickstart\<close>, \<open>Quickstart_Facts\<close>: the program that sets up a demonstration (\<open>bin/quickstart.rs\<close>).

  \<^bold>\<open>What the theorems show.\<close>

  \<^item> The token ledger: a validated batch is applied without underflow, conserves the supply, cannot take from
    another subnet, and acts as the abstract ledger does.
  \<^item> The multisig: the script accepts exactly the signing sets that reach the threshold, two such sets share
    more than a third of the power, a PSBT that a quorum has signed gives a transaction that satisfies the
    script, which is returned unless the extraction check of the library refuses it, and a spend
    conserves value up to a bounded fee.  A kill checkpoint pays out everything.
  \<^item> The database: the invariant \<open>db_inv\<close> (dense nonces, well-formed committees, keyed stake changes) is
    kept by every handler and so by the monitor whatever the node answers, as long as each message finds room
    (\<open>label_room\<close>, \<open>loop_trace\<close>); kill states and checkpoint numbers
    never go back.
  \<^item> Transactions: each message is read back from the transaction that is written for it, message kinds exclude
    each other, and stake and kill requests need a signature of a committee member.
  \<^item> The provider: validators with the same view sign the same transaction when its transfers have at most one
    destination subnet (\<open>two_destinations_diverge\<close> shows that the condition is needed); what is checked before signing;
    requests that it sends reach the monitor.
  \<^item> The monitor: ignored messages leave no trace, the program as a whole keeps the invariant, an outage of the
    node costs time only (each block is processed once and in order, as without it), and the three
    places where an error leaves more behind than the comments of the code promise.
  \<^item> Starting up: a wallet is loaded with the first good answer of at most twenty; the settings and the key that the
    monitor tester writes are the ones that the programs read.  The quickstart program installs its directory exactly
    once and leaves every wallet with coins that it can spend.
  \<^item> The tester: parsed tests are well formed, written tests are parsed to themselves, which names resolve, a run is a
    sequence of validated messages, an expectation passes exactly when the database had the value.
    The monitor tester leaves no process behind that a kill could end, queues the same messages as the database
    tester and judges expectations alike on the fields they share; the time of a Fendermint run is bounded by
    its scenario and the longest program it runs, and its lookups succeed.

  \<^bold>\<open>Parameters.\<close>  Code outside the repository is an argument.  \<open>ext\<close>, \<open>taproot\<close> (hashing, addresses, Schnorr
  signatures, taproot trees), \<open>codec\<close> (postcard), \<open>node\<close> and \<open>env\<close> (the Bitcoin node and its wallet), \<open>bitcoind\<close> (its wallet calls at start-up),
  \<open>tester_env\<close> (random keys, number formats), \<open>host\<close> (processes, files, time, JSON text), \<open>shell\<close> (files and commands) and \<open>rpc_serde\<close> (the text
  of requests) are records of functions; \<open>ext_ok\<close>, \<open>taproot_ok\<close>, \<open>codec_ok\<close>,
  \<open>wallet_ok\<close>, \<open>order_free\<close>, \<open>process_laws\<close>, \<open>dotenv_ok\<close>, \<open>files_ok\<close> and \<open>miner_ok\<close> are the documented behaviour the theorems
  rely on, \<open>meters\<close> is a record that any machine can be given, and each has a concrete instance (\<open>demo_ext\<close>, \<open>wire_ext\<close>, \<open>demo_taproot\<close>, \<open>demo_node\<close>, and others) on which the witnesses
  evaluate.

  \<^bold>\<open>Bounds and fuel.\<close>  All definitions are total.  The synchronisation loop and the listening loop of the monitor
  take fuel, since the chain may grow while it is read, and the retry loop of the program takes a list of attempts;
  \<open>monitor_resumes_after_outages\<close> shows that one round is enough when the node returns every block.  The quickstart program takes fuel for the
  depth of the directory it installs (\<open>quickstart_installs_once\<close>).  Waiting with a deadline (\<open>poll\<close>) ends because every pause takes time.  Nonces and configuration numbers are 64-bit words; preservation of the invariant asks for room
  below the last one.

  \<^bold>\<open>Not modelled.\<close>  Storage errors of LMDB and the encodings of stored values (a table holds typed values); HTTP
  serving, logging, signals and the command line in \<open>main\<close>; the human-readable branch of the amount
  serializers; a failure to clone the handle of a log file; the parser of \<open>.env\<close> files, which is a crate; test
  fixtures and size measurements.
\<close>

end
